(* ===== verification/Prelude.thy ===== *)
theory Prelude
  imports Main "HOL-Library.Word"
begin

text \<open>
  Shared vocabulary of the development: the machine integer types of the firmware, the
  byte-array operations that stand for \<^verbatim>\<open>memcpy\<close> and friends, little- and big-endian
  decoding, and the generic lemmas about lists and words that the component theories use.
  The collections \<open>array_simps\<close> (byte arrays), \<open>le_simps\<close> (integer encodings) and
  \<open>hw_defs\<close> (constants of the board configuration) carry most component proofs.
\<close>

unbundle bit_operations_syntax

named_theorems array_simps
named_theorems le_simps
named_theorems hw_defs

section \<open>Machine integers\<close>

type_synonym u8 = "8 word"
type_synonym u16 = "16 word"
type_synonym u32 = "32 word"
type_synonym u64 = "64 word"
type_synonym bytes = "u8 list"

text \<open>The size of a raw HID packet, which the VIA protocol and the USB side share.\<close>

definition RAW_EPSIZE :: nat where [hw_defs]: "RAW_EPSIZE = 32"

section \<open>Arrays\<close>

text \<open>
  \<open>slice a n xs\<close> is the block of \<open>n\<close> elements at offset \<open>a\<close> (a \<^verbatim>\<open>memcpy\<close> out of the
  array); \<open>blit a src dst\<close> overwrites the elements of \<open>dst\<close> from offset \<open>a\<close> on with
  \<open>src\<close> (a \<^verbatim>\<open>memcpy\<close> into the array). Both are only used where the block lies inside
  the array; every caller of the model checks that the way the code does.
\<close>

definition slice :: "nat \<Rightarrow> nat \<Rightarrow> 'a list \<Rightarrow> 'a list" where
  "slice a n xs = take n (drop a xs)"

definition blit :: "nat \<Rightarrow> 'a list \<Rightarrow> 'a list \<Rightarrow> 'a list" where
  "blit a src dst = take a dst @ src @ drop (a + length src) dst"

lemma length_slice [simp]: "a + n \<le> length xs \<Longrightarrow> length (slice a n xs) = n"
  by (simp add: slice_def)

lemma nth_slice [simp]: "i < n \<Longrightarrow> a + n \<le> length xs \<Longrightarrow> slice a n xs ! i = xs ! (a + i)"
  by (simp add: slice_def)

lemma length_blit [simp]: "a + length src \<le> length dst \<Longrightarrow> length (blit a src dst) = length dst"
  by (simp add: blit_def)

lemma nth_blit [array_simps]:
  "a + length src \<le> length dst \<Longrightarrow> i < length dst \<Longrightarrow>
   blit a src dst ! i = (if a \<le> i \<and> i < a + length src then src ! (i - a) else dst ! i)"
  by (auto simp: blit_def nth_append min_def)

lemma slice_blit_same [simp]:
  "a + length src \<le> length dst \<Longrightarrow> n = length src \<Longrightarrow> slice a n (blit a src dst) = src"
  by (simp add: slice_def blit_def)

lemma slice_blit_disjoint [array_simps]:
  assumes "a + length src \<le> length dst" "b + n \<le> length dst"
    and "b + n \<le> a \<or> a + length src \<le> b"
  shows "slice b n (blit a src dst) = slice b n dst"
  using assms by (auto intro!: nth_equalityI simp: nth_blit)

lemma blit_slice_id [simp]: "a + n \<le> length xs \<Longrightarrow> blit a (slice a n xs) xs = xs"
  by (auto intro!: nth_equalityI simp: nth_blit)

lemma blit_Nil [simp]: "blit a [] dst = dst"
  by (simp add: blit_def)

lemma blit_append:
  assumes "a + length xs + length ys \<le> length dst"
  shows "blit a (xs @ ys) dst = blit (a + length xs) ys (blit a xs dst)"
  using assms by (auto intro!: nth_equalityI simp: nth_blit nth_append)

lemma blit_take_drop:
  assumes "a + length v \<le> length dst" "n \<le> length v"
  shows "blit a v dst = blit (a + n) (drop n v) (blit a (take n v) dst)"
  using assms blit_append [of a "take n v" "drop n v" dst] by simp

lemma blit_blit_same [simp]:
  "a + length ys \<le> length dst \<Longrightarrow> length xs = length ys \<Longrightarrow> blit a xs (blit a ys dst) = blit a xs dst"
  by (auto intro!: nth_equalityI simp: nth_blit)

lemma blit_commute:
  assumes "a + length xs \<le> length dst" "b + length ys \<le> length dst"
    and "a + length xs \<le> b \<or> b + length ys \<le> a"
  shows "blit a xs (blit b ys dst) = blit b ys (blit a xs dst)"
  using assms by (auto intro!: nth_equalityI simp: nth_blit)

lemma blit_singleton: "i < length xs \<Longrightarrow> blit i [x] xs = xs[i := x]"
  by (auto intro!: nth_equalityI simp: nth_blit nth_list_update)

lemma slice_all [simp]: "slice 0 (length xs) xs = xs"
  by (simp add: slice_def)

lemma slice_slice:
  "b + m \<le> n \<Longrightarrow> a + n \<le> length xs \<Longrightarrow> slice b m (slice a n xs) = slice (a + b) m xs"
  by (auto intro!: nth_equalityI simp: add.assoc)

lemma slice_append_adjacent:
  "a + m + n \<le> length xs \<Longrightarrow> slice a m xs @ slice (a + m) n xs = slice a (m + n) xs"
  by (auto intro!: nth_equalityI simp: nth_append)

lemma take_replicate_le: "n \<le> m \<Longrightarrow> take n (replicate m x) = replicate n x"
  by (simp add: min_def)

lemma slice_replicate [simp]: "a + n \<le> m \<Longrightarrow> slice a n (replicate m x) = replicate n x"
  by (simp add: slice_def take_replicate_le)

text \<open>
  \<open>chunks n xs\<close> reads an array as a sequence of \<open>n\<close>-element cells, the way a byte buffer is
  cast to a pointer to a wider integer.
\<close>

function chunks :: "nat \<Rightarrow> 'a list \<Rightarrow> 'a list list" where
  "chunks n xs = (if n = 0 \<or> xs = [] then [] else take n xs # chunks n (drop n xs))"
  by pat_completeness auto
termination
  by (relation "measure (\<lambda>(n, xs). length xs)") auto

declare chunks.simps [simp del]

lemma chunks_Nil [simp]: "chunks n [] = []"
  by (simp add: chunks.simps)

lemma chunks_append:
  "0 < n \<Longrightarrow> length xs = n \<Longrightarrow> chunks n (xs @ ys) = xs # chunks n ys"
  by (subst chunks.simps) auto

lemma concat_chunks [simp]: "0 < n \<Longrightarrow> concat (chunks n xs) = xs"
proof (induction n xs rule: chunks.induct)
  case (1 n xs)
  then show ?case by (subst chunks.simps) simp
qed

lemma chunks_cell_length: "0 < n \<Longrightarrow> n dvd length xs \<Longrightarrow> v \<in> set (chunks n xs) \<Longrightarrow> length v = n"
proof (induction n xs rule: chunks.induct)
  case (1 n xs)
  show ?case
  proof (cases "xs = []")
    case True
    then show ?thesis using "1.prems" by simp
  next
    case False
    then have "n \<le> length xs" using "1.prems" by (auto intro: dvd_imp_le)
    moreover have "v = take n xs \<or> v \<in> set (chunks n (drop n xs))"
      using "1.prems" False by (subst (asm) chunks.simps) auto
    ultimately show ?thesis using 1 False by (auto simp: dvd_diff_nat)
  qed
qed

section \<open>Indexed loops\<close>

text \<open>
  A C loop \<^verbatim>\<open>for (i = 0; i < n; i++) body(i)\<close> over a state is a left fold over the index
  list; \<open>for_range_induct\<close> is its Hoare rule.
\<close>

definition for_range :: "nat \<Rightarrow> (nat \<Rightarrow> 's \<Rightarrow> 's) \<Rightarrow> 's \<Rightarrow> 's" where
  "for_range n body s = fold body [0..<n] s"

lemma for_range_0 [simp]: "for_range 0 body s = s"
  by (simp add: for_range_def)

lemma for_range_Suc: "for_range (Suc n) body s = body n (for_range n body s)"
  by (simp add: for_range_def)

lemma for_range_induct [consumes 0, case_names init step]:
  assumes "P 0 s" and "\<And>i t. i < n \<Longrightarrow> P i t \<Longrightarrow> P (Suc i) (body i t)"
  shows "P n (for_range n body s)"
  using assms(2)
proof (induction n)
  case 0
  then show ?case using assms(1) by simp
next
  case (Suc n)
  then show ?case by (simp add: for_range_Suc)
qed

lemma for_range_inv:
  assumes "P s" and "\<And>i t. i < n \<Longrightarrow> P t \<Longrightarrow> P (body i t)"
  shows "P (for_range n body s)"
  using for_range_induct [of "\<lambda>_. P" s n body] assms by blast

text \<open>A loop that only updates the elements of one list, each from its own old value.\<close>

lemma for_range_update:
  assumes "n \<le> length xs"
  shows "for_range n (\<lambda>i xs. xs[i := f i (xs ! i)]) xs = map (\<lambda>i. if i < n then f i (xs ! i) else xs ! i) [0..<length xs]"
  using assms
proof (induction n)
  case 0
  then show ?case by (simp add: map_nth)
next
  case (Suc n)
  then show ?case
    by (auto simp: for_range_Suc intro!: nth_equalityI simp: nth_list_update less_Suc_eq)
qed

section \<open>Integer encodings\<close>

text \<open>Little-endian images of 16- and 32-bit integers, as the Cortex-M4 stores them.\<close>

definition le16 :: "u16 \<Rightarrow> bytes" where
  "le16 w = [ucast w, ucast (drop_bit 8 w)]"

definition le16_decode :: "bytes \<Rightarrow> u16" where
  "le16_decode bs = ucast (bs ! 0) OR push_bit 8 (ucast (bs ! 1))"

definition le32 :: "u32 \<Rightarrow> bytes" where
  "le32 w = [ucast w, ucast (drop_bit 8 w), ucast (drop_bit 16 w), ucast (drop_bit 24 w)]"

definition le32_decode :: "bytes \<Rightarrow> u32" where
  "le32_decode bs = ucast (bs ! 0) OR push_bit 8 (ucast (bs ! 1))
     OR push_bit 16 (ucast (bs ! 2)) OR push_bit 24 (ucast (bs ! 3))"

lemma length_le16 [simp]: "length (le16 w) = 2"
  by (simp add: le16_def)

lemma length_le32 [simp]: "length (le32 w) = 4"
  by (simp add: le32_def)

lemma byte_of_u32_index:
  "n < (32::nat) \<Longrightarrow> n < 8 \<or> (\<exists>k<8. n = 8 + k) \<or> (\<exists>k<8. n = 16 + k) \<or> (\<exists>k<8. n = 24 + k)"
  by presburger

lemma le16_decode_le16 [le_simps, simp]: "le16_decode (le16 w) = w"
  by (rule bit_word_eqI)
    (auto simp: le16_def le16_decode_def bit_simps)

lemma le32_decode_le32 [le_simps, simp]: "le32_decode (le32 w) = w"
proof (rule bit_word_eqI)
  fix n assume n: "n < LENGTH(32)"
  then have "n < 32" by simp
  from byte_of_u32_index [OF this] show "bit (le32_decode (le32 w)) n \<longleftrightarrow> bit w n"
    by (elim disjE exE conjE) (simp_all add: le32_def le32_decode_def bit_simps)
qed

lemma u8_bit_beyond: "8 \<le> n \<Longrightarrow> \<not> bit (w :: u8) n"
  by (auto dest: bit_imp_le_length)

lemma le16_le16_decode [le_simps]: "length bs = 2 \<Longrightarrow> le16 (le16_decode bs) = bs"
  by (cases bs; cases "tl bs")
    (auto simp: le16_def le16_decode_def bit_simps u8_bit_beyond intro!: bit_word_eqI)

lemma le32_le32_decode [le_simps]: "length bs = 4 \<Longrightarrow> le32 (le32_decode bs) = bs"
  by (cases bs; cases "tl bs"; cases "tl (tl bs)"; cases "tl (tl (tl bs))")
    (auto simp: le32_def le32_decode_def bit_simps u8_bit_beyond intro!: bit_word_eqI)

lemma le16_inject [simp]: "le16 v = le16 w \<longleftrightarrow> v = w"
  by (metis le16_decode_le16)

lemma le32_inject [simp]: "le32 v = le32 w \<longleftrightarrow> v = w"
  by (metis le32_decode_le32)

lemma le16_decode_eq_iff: "length bs = 2 \<Longrightarrow> le16_decode bs = v \<longleftrightarrow> bs = le16 v"
  using le16_le16_decode [of bs] by auto

lemma le32_decode_eq_iff: "length bs = 4 \<Longrightarrow> le32_decode bs = v \<longleftrightarrow> bs = le32 v"
  using le32_le32_decode [of bs] by auto

section \<open>Words\<close>

lemma u8_le_numeral_unat: "(x :: u8) \<le> y \<longleftrightarrow> unat x \<le> unat y"
  by (simp add: word_le_nat_alt)

lemma u8_less_unat: "(x :: u8) < y \<longleftrightarrow> unat x < unat y"
  by (simp add: word_less_nat_alt)

lemma unat_u8_less_256 [simp]: "unat (x :: u8) < 256"
  using unsigned_less [of x] by simp

section \<open>Loops over parallel arrays\<close>

text \<open>
  A loop whose body \<open>step i\<close> changes only cell \<open>i\<close>, as a function of that cell and of data \<open>glob\<close> that
  no iteration changes, applies that function to every cell.
\<close>

locale indexed_loop =
  fixes step :: "nat \<Rightarrow> 's \<Rightarrow> 's" and cell :: "'s \<Rightarrow> nat \<Rightarrow> 'c" and glob :: "'s \<Rightarrow> 'g"
    and cell_fun :: "'g \<Rightarrow> nat \<Rightarrow> 'c \<Rightarrow> 'c" and valid :: "'g \<Rightarrow> nat \<Rightarrow> bool"
  assumes step_glob: "valid (glob s) i \<Longrightarrow> glob (step i s) = glob s"
    and step_same: "valid (glob s) i \<Longrightarrow> cell (step i s) i = cell_fun (glob s) i (cell s i)"
    and step_other: "valid (glob s) i \<Longrightarrow> j \<noteq> i \<Longrightarrow> cell (step i s) j = cell s j"
begin

lemma fold_glob: "\<forall>i\<in>set is. valid (glob s) i \<Longrightarrow> glob (fold step is s) = glob s"
  by (induction "is" arbitrary: s) (simp_all add: step_glob)

lemma fold_cell:
  "distinct is \<Longrightarrow> \<forall>i\<in>set is. valid (glob s) i \<Longrightarrow>
   cell (fold step is s) j = (if j \<in> set is then cell_fun (glob s) j (cell s j) else cell s j)"
proof (induction "is" arbitrary: s)
  case (Cons i "is")
  then show ?case by (cases "j = i") (auto simp: step_glob step_same step_other)
qed simp

end

end
