(* ===== verification/Eeprom.thy ===== *)
theory Eeprom
  imports Prelude
begin

text \<open>
  The EEPROM access layer, \<^verbatim>\<open>drivers/eeprom/eeprom_driver.c\<close>. The firmware links one EEPROM
  driver, which supplies the block operations; the byte, word and dword operations and the
  \<^verbatim>\<open>update\<close> variants are written on top of them. The driver is the record
  \<open>eeprom_driver\<close> of its three entry points over a state \<open>'e\<close>; the operations below take it
  as an argument, as the C code takes it at link time.

  The locale \<open>eeprom_device\<close> is the contract every client of the EEPROM relies on: the
  device behaves as an array of bytes. The wear-leveling driver is shown to satisfy it in
  \<^verbatim>\<open>Wear_Leveling\<close>.
\<close>

section \<open>Model\<close>

text \<open>
  A block read copies into the caller's buffer; a driver that refuses the range leaves the
  buffer untouched, which is the value \<open>None\<close>.
\<close>

record 'e eeprom_driver =
  eeprom_read_block :: "nat \<Rightarrow> nat \<Rightarrow> 'e \<Rightarrow> bytes option"
  eeprom_write_block :: "bytes \<Rightarrow> nat \<Rightarrow> 'e \<Rightarrow> 'e"
  eeprom_driver_erase :: "'e \<Rightarrow> 'e"

definition eeprom_read_byte :: "'e eeprom_driver \<Rightarrow> nat \<Rightarrow> 'e \<Rightarrow> u8" where
  "eeprom_read_byte E addr e =
     (case eeprom_read_block E addr 1 e of None \<Rightarrow> 0 | Some bs \<Rightarrow> bs ! 0)"

definition eeprom_read_word :: "'e eeprom_driver \<Rightarrow> nat \<Rightarrow> 'e \<Rightarrow> u16" where
  "eeprom_read_word E addr e =
     (case eeprom_read_block E addr 2 e of None \<Rightarrow> 0 | Some bs \<Rightarrow> le16_decode bs)"

definition eeprom_read_dword :: "'e eeprom_driver \<Rightarrow> nat \<Rightarrow> 'e \<Rightarrow> u32" where
  "eeprom_read_dword E addr e =
     (case eeprom_read_block E addr 4 e of None \<Rightarrow> 0 | Some bs \<Rightarrow> le32_decode bs)"

definition eeprom_write_byte :: "'e eeprom_driver \<Rightarrow> nat \<Rightarrow> u8 \<Rightarrow> 'e \<Rightarrow> 'e" where
  "eeprom_write_byte E addr value = eeprom_write_block E [value] addr"

definition eeprom_write_word :: "'e eeprom_driver \<Rightarrow> nat \<Rightarrow> u16 \<Rightarrow> 'e \<Rightarrow> 'e" where
  "eeprom_write_word E addr value = eeprom_write_block E (le16 value) addr"

definition eeprom_write_dword :: "'e eeprom_driver \<Rightarrow> nat \<Rightarrow> u32 \<Rightarrow> 'e \<Rightarrow> 'e" where
  "eeprom_write_dword E addr value = eeprom_write_block E (le32 value) addr"

text \<open>
  \<^verbatim>\<open>eeprom_update_block\<close> compares against a buffer it has just read. When the read is refused
  that buffer is indeterminate and the comparison may go either way; the model takes the
  branch that writes.
\<close>

definition eeprom_update_block :: "'e eeprom_driver \<Rightarrow> bytes \<Rightarrow> nat \<Rightarrow> 'e \<Rightarrow> 'e" where
  "eeprom_update_block E buf addr e =
     (if eeprom_read_block E addr (length buf) e \<noteq> Some buf
      then eeprom_write_block E buf addr e else e)"

definition eeprom_update_byte :: "'e eeprom_driver \<Rightarrow> nat \<Rightarrow> u8 \<Rightarrow> 'e \<Rightarrow> 'e" where
  "eeprom_update_byte E addr value e =
     (if eeprom_read_byte E addr e \<noteq> value then eeprom_write_byte E addr value e else e)"

definition eeprom_update_word :: "'e eeprom_driver \<Rightarrow> nat \<Rightarrow> u16 \<Rightarrow> 'e \<Rightarrow> 'e" where
  "eeprom_update_word E addr value e =
     (if eeprom_read_word E addr e \<noteq> value then eeprom_write_word E addr value e else e)"

definition eeprom_update_dword :: "'e eeprom_driver \<Rightarrow> nat \<Rightarrow> u32 \<Rightarrow> 'e \<Rightarrow> 'e" where
  "eeprom_update_dword E addr value e =
     (if eeprom_read_dword E addr e \<noteq> value then eeprom_write_dword E addr value e else e)"

definition eeprom_driver_format :: "'e eeprom_driver \<Rightarrow> bool \<Rightarrow> 'e \<Rightarrow> 'e" where
  "eeprom_driver_format E erase = eeprom_driver_erase E"

section \<open>The contract of an EEPROM device\<close>

locale eeprom_device =
  fixes E :: "'e eeprom_driver"
    and size_ee :: nat
    and view :: "'e \<Rightarrow> bytes"
    and inv :: "'e \<Rightarrow> bool"
  assumes size_small: "size_ee < 2 ^ 32"
    and view_length: "inv e \<Longrightarrow> length (view e) = size_ee"
    and read_in: "inv e \<Longrightarrow> a + n \<le> size_ee \<Longrightarrow> eeprom_read_block E a n e = Some (slice a n (view e))"
    and write_in: "inv e \<Longrightarrow> a + length bs \<le> size_ee \<Longrightarrow>
      view (eeprom_write_block E bs a e) = blit a bs (view e)"
    and write_out: "inv e \<Longrightarrow> size_ee < a + length bs \<Longrightarrow> a + length bs < 2 ^ 32 \<Longrightarrow>
      view (eeprom_write_block E bs a e) = view e"
    and write_inv: "inv e \<Longrightarrow> a + length bs < 2 ^ 32 \<Longrightarrow> inv (eeprom_write_block E bs a e)"
    and erase_view: "inv e \<Longrightarrow> view (eeprom_driver_erase E e) = replicate size_ee 0"
    and erase_inv: "inv e \<Longrightarrow> inv (eeprom_driver_erase E e)"
begin

lemmas block_laws = view_length read_in write_in

lemma read_byte_view: "inv e \<Longrightarrow> a < size_ee \<Longrightarrow> eeprom_read_byte E a e = view e ! a"
  by (simp add: eeprom_read_byte_def read_in view_length)

lemma read_word_view:
  "inv e \<Longrightarrow> a + 2 \<le> size_ee \<Longrightarrow> eeprom_read_word E a e = le16_decode (slice a 2 (view e))"
  by (simp add: eeprom_read_word_def read_in)

lemma read_dword_view:
  "inv e \<Longrightarrow> a + 4 \<le> size_ee \<Longrightarrow> eeprom_read_dword E a e = le32_decode (slice a 4 (view e))"
  by (simp add: eeprom_read_dword_def read_in)

lemma slice_singleton: "a < length xs \<Longrightarrow> slice a 1 xs = [xs ! a]"
  by (simp add: slice_def take_Suc hd_drop_conv_nth)

text \<open>An \<^verbatim>\<open>update\<close> is observably a write: skipping it when nothing changes is invisible.\<close>

lemma update_block_view:
  "inv e \<Longrightarrow> a + length bs \<le> size_ee \<Longrightarrow> view (eeprom_update_block E bs a e) = blit a bs (view e)"
  by (auto simp: eeprom_update_block_def block_laws) (metis blit_slice_id view_length)

lemma update_byte_view:
  assumes "inv e" "a < size_ee"
  shows "view (eeprom_update_byte E a v e) = (view e)[a := v]"
  using assms
  by (auto simp: eeprom_update_byte_def eeprom_write_byte_def block_laws read_byte_view blit_singleton)

lemma update_word_view:
  assumes "inv e" "a + 2 \<le> size_ee"
  shows "view (eeprom_update_word E a v e) = blit a (le16 v) (view e)"
  using assms
  by (auto simp: eeprom_update_word_def eeprom_write_word_def block_laws read_word_view le16_le16_decode)

lemma update_dword_view:
  assumes "inv e" "a + 4 \<le> size_ee"
  shows "view (eeprom_update_dword E a v e) = blit a (le32 v) (view e)"
  using assms
  by (auto simp: eeprom_update_dword_def eeprom_write_dword_def block_laws read_dword_view le32_le32_decode)

lemma write_in_inv: "inv e \<Longrightarrow> a + length bs \<le> size_ee \<Longrightarrow> inv (eeprom_write_block E bs a e)"
  using size_small by (auto intro: write_inv)

lemma update_inv [simp]:
  "inv e \<Longrightarrow> a + length bs \<le> size_ee \<Longrightarrow> inv (eeprom_update_block E bs a e)"
  "inv e \<Longrightarrow> a < size_ee \<Longrightarrow> inv (eeprom_update_byte E a v e)"
  "inv e \<Longrightarrow> a + 2 \<le> size_ee \<Longrightarrow> inv (eeprom_update_word E a w e)"
  "inv e \<Longrightarrow> a + 4 \<le> size_ee \<Longrightarrow> inv (eeprom_update_dword E a d e)"
  by (simp_all add: eeprom_update_block_def eeprom_update_byte_def eeprom_update_word_def
      eeprom_update_dword_def eeprom_write_byte_def eeprom_write_word_def eeprom_write_dword_def write_in_inv)

lemma format_view: "inv e \<Longrightarrow> view (eeprom_driver_format E b e) = replicate size_ee 0"
  by (simp add: eeprom_driver_format_def erase_view)

lemma format_inv [simp]: "inv e \<Longrightarrow> inv (eeprom_driver_format E b e)"
  by (simp add: eeprom_driver_format_def erase_inv)

text \<open>A refused block changes nothing, whichever way the comparison goes.\<close>

lemma update_block_out:
  "inv e \<Longrightarrow> size_ee < a + length bs \<Longrightarrow> a + length bs < 2 ^ 32 \<Longrightarrow> view (eeprom_update_block E bs a e) = view e"
  by (simp add: eeprom_update_block_def write_out)

lemmas view_updates = update_block_view update_byte_view update_word_view update_dword_view format_view
lemmas view_reads = read_byte_view read_word_view read_dword_view

end

end
