(* ===== verification/Wear_Leveling_Log.thy ===== *)
theory Wear_Leveling_Log
  imports Prelude
begin

text \<open>
  The write-log entries of the wear-leveling layer,
  \<^verbatim>\<open>quantum/wear_leveling/wear_leveling_internal.h\<close>: the union \<^verbatim>\<open>write_log_entry_t\<close> as its eight
  bytes, the three entry kinds with their constructor and accessor macros, and the FNV-1a
  checksum of \<^verbatim>\<open>lib/fnv/hash_64a.c\<close> that guards the consolidated area. The lemmas are the
  round trips: what an accessor reads from a constructed entry is what went in, for every
  address and length the formats can carry.
\<close>

section \<open>Model\<close>

text \<open>\<^verbatim>\<open>write_log_entry_t\<close>: \<open>raw8\<close>, eight bytes.\<close>

type_synonym write_log_entry = bytes

datatype log_entry_type = LOG_ENTRY_TYPE_MULTIBYTE | LOG_ENTRY_TYPE_OPTIMIZED_64 | LOG_ENTRY_TYPE_WORD_01 | LOG_ENTRY_TYPE_UNKNOWN

definition LOG_ENTRY_MULTIBYTE_MAX_BYTES :: nat where
  "LOG_ENTRY_MULTIBYTE_MAX_BYTES = 5"

definition LOG_ENTRY_GET_TYPE :: "write_log_entry \<Rightarrow> log_entry_type" where
  "LOG_ENTRY_GET_TYPE entry =
     (let t = drop_bit 6 (entry ! 0) AND 3 in
      if t = 0 then LOG_ENTRY_TYPE_MULTIBYTE
      else if t = 1 then LOG_ENTRY_TYPE_OPTIMIZED_64
      else if t = 2 then LOG_ENTRY_TYPE_WORD_01
      else LOG_ENTRY_TYPE_UNKNOWN)"

definition LOG_ENTRY_MULTIBYTE_GET_ADDRESS :: "write_log_entry \<Rightarrow> u32" where
  "LOG_ENTRY_MULTIBYTE_GET_ADDRESS entry =
     push_bit 16 (ucast (entry ! 0) AND 7) OR push_bit 8 (ucast (entry ! 1)) OR ucast (entry ! 2)"

definition LOG_ENTRY_MULTIBYTE_GET_LENGTH :: "write_log_entry \<Rightarrow> u8" where
  "LOG_ENTRY_MULTIBYTE_GET_LENGTH entry = drop_bit 3 (entry ! 0) AND 7"

definition LOG_ENTRY_MAKE_MULTIBYTE :: "u32 \<Rightarrow> nat \<Rightarrow> write_log_entry" where
  "LOG_ENTRY_MAKE_MULTIBYTE address len =
     [push_bit 6 (0 AND 3) OR push_bit 3 (word_of_nat len AND 7) OR (ucast (drop_bit 16 address) AND 7),
      ucast (drop_bit 8 address) AND 255,
      ucast address AND 255,
      0, 0, 0, 0, 0]"

definition LOG_ENTRY_OPTIMIZED_64_GET_ADDRESS :: "write_log_entry \<Rightarrow> u32" where
  "LOG_ENTRY_OPTIMIZED_64_GET_ADDRESS entry = ucast (entry ! 0 AND 63)"

definition LOG_ENTRY_OPTIMIZED_64_GET_VALUE :: "write_log_entry \<Rightarrow> u8" where
  "LOG_ENTRY_OPTIMIZED_64_GET_VALUE entry = entry ! 1"

definition LOG_ENTRY_MAKE_OPTIMIZED_64 :: "u32 \<Rightarrow> u8 \<Rightarrow> write_log_entry" where
  "LOG_ENTRY_MAKE_OPTIMIZED_64 address value =
     [push_bit 6 (1 AND 3) OR (ucast address AND 63), value, 0, 0, 0, 0, 0, 0]"

definition LOG_ENTRY_WORD_01_GET_ADDRESS :: "write_log_entry \<Rightarrow> u32" where
  "LOG_ENTRY_WORD_01_GET_ADDRESS entry =
     push_bit 9 (ucast (entry ! 0 AND 31)) OR push_bit 1 (ucast (entry ! 1))"

definition LOG_ENTRY_WORD_01_GET_VALUE :: "write_log_entry \<Rightarrow> u8" where
  "LOG_ENTRY_WORD_01_GET_VALUE entry = drop_bit 5 (entry ! 0) AND 1"

definition LOG_ENTRY_MAKE_WORD_01 :: "u32 \<Rightarrow> u16 \<Rightarrow> write_log_entry" where
  "LOG_ENTRY_MAKE_WORD_01 address value =
     [push_bit 6 (2 AND 3) OR push_bit 5 ((if value \<noteq> 0 then 1 else 0) AND 1)
        OR (ucast (drop_bit 9 address) AND 31),
      ucast (drop_bit 1 address),
      0, 0, 0, 0, 0, 0]"

text \<open>FNV-1a over a buffer, in the form with the shifts the compiler is given.\<close>

definition FNV1A_64_INIT :: u64 where
  "FNV1A_64_INIT = 0xcbf29ce484222325"

fun fnv_64a_buf :: "bytes \<Rightarrow> u64 \<Rightarrow> u64" where
  "fnv_64a_buf [] hval = hval"
| "fnv_64a_buf (b # bs) hval =
     (let h = hval XOR ucast b in
      fnv_64a_buf bs (h + (push_bit 1 h + push_bit 4 h + push_bit 5 h
        + push_bit 7 h + push_bit 8 h + push_bit 40 h)))"

definition le64 :: "u64 \<Rightarrow> bytes" where
  "le64 w = map (\<lambda>i. ucast (drop_bit (8 * i) w)) [0..<8]"

section \<open>Round trips of the entry formats\<close>

lemmas log_entry_defs =
  LOG_ENTRY_GET_TYPE_def LOG_ENTRY_MULTIBYTE_GET_ADDRESS_def LOG_ENTRY_MULTIBYTE_GET_LENGTH_def
  LOG_ENTRY_MAKE_MULTIBYTE_def LOG_ENTRY_OPTIMIZED_64_GET_ADDRESS_def
  LOG_ENTRY_OPTIMIZED_64_GET_VALUE_def LOG_ENTRY_MAKE_OPTIMIZED_64_def
  LOG_ENTRY_WORD_01_GET_ADDRESS_def LOG_ENTRY_WORD_01_GET_VALUE_def LOG_ENTRY_MAKE_WORD_01_def

lemma length_le64 [simp]: "length (le64 w) = 8"
  by (simp add: le64_def)

lemma length_log_entries [simp]:
  "length (LOG_ENTRY_MAKE_MULTIBYTE a n) = 8"
  "length (LOG_ENTRY_MAKE_OPTIMIZED_64 a v) = 8"
  "length (LOG_ENTRY_MAKE_WORD_01 a w) = 8"
  by (simp_all add: log_entry_defs)

text \<open>Masks as truncations, which the bit lemmas of the library know about.\<close>

lemma and_masks:
  "(x :: 'a :: len word) AND 1 = take_bit 1 x"
  "x AND 3 = take_bit 2 x"
  "x AND 7 = take_bit 3 x"
  "x AND 31 = take_bit 5 x"
  "x AND 63 = take_bit 6 x"
  "x AND 255 = take_bit 8 x"
  by (simp_all add: take_bit_eq_mask mask_eq_exp_minus_1)

lemma bit_less_pow: "bit (w :: 'a :: len word) n \<Longrightarrow> unat w < 2 ^ k \<Longrightarrow> n < k"
proof (rule ccontr)
  assume b: "bit w n" and u: "unat w < 2 ^ k" and "\<not> n < k"
  then have "k \<le> n" by simp
  have "unat w div 2 ^ n = 0"
    using u \<open>k \<le> n\<close> by (meson div_less le_less_trans less_le_trans one_le_numeral power_increasing order_refl)
  then have "\<not> bit (unat w) n" by (simp add: bit_iff_odd)
  then show False using b by (simp add: bit_unsigned_iff)
qed

lemma bit_beyond_pow: "unat (w :: 'a :: len word) < 2 ^ k \<Longrightarrow> k \<le> n \<Longrightarrow> \<not> bit w n"
  using bit_less_pow [of w n k] by auto

lemma multibyte_get_length:
  assumes "n < 8"
  shows "LOG_ENTRY_MULTIBYTE_GET_LENGTH (LOG_ENTRY_MAKE_MULTIBYTE a n) = word_of_nat n"
proof (rule bit_word_eqI)
  fix k assume "k < LENGTH(8)"
  have small: "3 \<le> k \<Longrightarrow> \<not> bit (word_of_nat n :: u8) k"
    by (rule bit_beyond_pow [where k = 3]) (use assms in \<open>simp_all add: unat_of_nat\<close>)
  show "bit (LOG_ENTRY_MULTIBYTE_GET_LENGTH (LOG_ENTRY_MAKE_MULTIBYTE a n)) k
      \<longleftrightarrow> bit (word_of_nat n :: u8) k"
    unfolding log_entry_defs and_masks
    using small by (cases "k < 3") (simp_all add: bit_simps)
qed

lemma bit_index_19:
  "n < (32::nat) \<Longrightarrow> n < 8 \<or> (\<exists>k<8. n = 8 + k) \<or> (\<exists>k<3. n = 16 + k) \<or> 19 \<le> n"
  by presburger

lemma multibyte_get_address:
  assumes "unat a < 2 ^ 19"
  shows "LOG_ENTRY_MULTIBYTE_GET_ADDRESS (LOG_ENTRY_MAKE_MULTIBYTE a n) = a"
proof (rule bit_word_eqI)
  fix k assume "k < LENGTH(32)"
  then have "k < 32" by simp
  from bit_index_19 [OF this]
  show "bit (LOG_ENTRY_MULTIBYTE_GET_ADDRESS (LOG_ENTRY_MAKE_MULTIBYTE a n)) k \<longleftrightarrow> bit a k"
    unfolding log_entry_defs and_masks
    using bit_beyond_pow [OF assms, of k]
    by (elim disjE exE conjE) (simp_all add: bit_simps)
qed

lemma multibyte_get_type: "LOG_ENTRY_GET_TYPE (LOG_ENTRY_MAKE_MULTIBYTE a n) = LOG_ENTRY_TYPE_MULTIBYTE"
proof -
  have "drop_bit 6 (LOG_ENTRY_MAKE_MULTIBYTE a n ! 0) AND 3 = 0"
    unfolding log_entry_defs and_masks by (rule bit_word_eqI) (simp add: bit_simps)
  then show ?thesis by (simp add: LOG_ENTRY_GET_TYPE_def)
qed

lemma optimized_64_get_address:
  assumes "unat a < 64"
  shows "LOG_ENTRY_OPTIMIZED_64_GET_ADDRESS (LOG_ENTRY_MAKE_OPTIMIZED_64 a v) = a"
proof (rule bit_word_eqI)
  fix k assume "k < LENGTH(32)"
  have big: "6 \<le> k \<Longrightarrow> \<not> bit a k"
    by (rule bit_beyond_pow [where k = 6]) (use assms in simp_all)
  show "bit (LOG_ENTRY_OPTIMIZED_64_GET_ADDRESS (LOG_ENTRY_MAKE_OPTIMIZED_64 a v)) k \<longleftrightarrow> bit a k"
    unfolding log_entry_defs and_masks
    using big by (cases "k < 6") (simp_all add: bit_simps)
qed

lemma optimized_64_get_value [simp]:
  "LOG_ENTRY_OPTIMIZED_64_GET_VALUE (LOG_ENTRY_MAKE_OPTIMIZED_64 a v) = v"
  by (simp add: log_entry_defs)

lemma optimized_64_get_type:
  "LOG_ENTRY_GET_TYPE (LOG_ENTRY_MAKE_OPTIMIZED_64 a v) = LOG_ENTRY_TYPE_OPTIMIZED_64"
proof -
  have "drop_bit 6 (LOG_ENTRY_MAKE_OPTIMIZED_64 a v ! 0) AND 3 = 1"
    unfolding log_entry_defs and_masks by (rule bit_word_eqI) (auto simp: bit_simps)
  then show ?thesis by (simp add: LOG_ENTRY_GET_TYPE_def)
qed

lemma bit_index_14:
  "n < (32::nat) \<Longrightarrow> n = 0 \<or> (\<exists>k<8. n = 1 + k) \<or> (\<exists>k<5. n = 9 + k) \<or> 14 \<le> n"
  by presburger

lemma word_01_get_address:
  assumes "unat a < 16384" "even (unat a)"
  shows "LOG_ENTRY_WORD_01_GET_ADDRESS (LOG_ENTRY_MAKE_WORD_01 a w) = a"
proof (rule bit_word_eqI)
  fix k assume "k < LENGTH(32)"
  then have "k < 32" by simp
  have big: "14 \<le> k \<Longrightarrow> \<not> bit a k"
    by (rule bit_beyond_pow [where k = 14]) (use assms in simp_all)
  have zero: "\<not> bit a 0"
    using assms(2) bit_unsigned_iff [of a 0, where ?'a = nat] by (simp add: bit_0)
  from bit_index_14 [OF \<open>k < 32\<close>]
  show "bit (LOG_ENTRY_WORD_01_GET_ADDRESS (LOG_ENTRY_MAKE_WORD_01 a w)) k \<longleftrightarrow> bit a k"
    unfolding log_entry_defs and_masks
    using big zero by (elim disjE exE conjE) (simp_all add: bit_simps del: push_bit_Suc One_nat_def)
qed

lemma word_01_get_value:
  "w = 0 \<or> w = 1 \<Longrightarrow> LOG_ENTRY_WORD_01_GET_VALUE (LOG_ENTRY_MAKE_WORD_01 a w) = ucast w"
  unfolding log_entry_defs and_masks
  by (elim disjE; rule bit_word_eqI) (auto simp: bit_simps drop_bit_take_bit)

lemma word_01_get_type: "LOG_ENTRY_GET_TYPE (LOG_ENTRY_MAKE_WORD_01 a w) = LOG_ENTRY_TYPE_WORD_01"
proof -
  have "drop_bit 6 (LOG_ENTRY_MAKE_WORD_01 a w ! 0) AND 3 = 2"
    unfolding log_entry_defs and_masks by (rule bit_word_eqI) (auto simp: bit_simps)
  then show ?thesis by (simp add: LOG_ENTRY_GET_TYPE_def)
qed

text \<open>No entry starts with a zero byte, so the end of the log is never mistaken for one.\<close>

lemma log_entry_first_byte:
  "0 < n \<Longrightarrow> n < 8 \<Longrightarrow> LOG_ENTRY_MAKE_MULTIBYTE a n ! 0 \<noteq> 0"
  "LOG_ENTRY_MAKE_OPTIMIZED_64 a v ! 0 \<noteq> 0"
  "LOG_ENTRY_MAKE_WORD_01 a w ! 0 \<noteq> 0"
proof -
  show "0 < n \<Longrightarrow> n < 8 \<Longrightarrow> LOG_ENTRY_MAKE_MULTIBYTE a n ! 0 \<noteq> 0"
    using multibyte_get_length [of n a]
    by (auto simp: LOG_ENTRY_MULTIBYTE_GET_LENGTH_def word_of_nat_eq_0_iff dest!: dvd_imp_le)
  show "LOG_ENTRY_MAKE_OPTIMIZED_64 a v ! 0 \<noteq> 0"
    using optimized_64_get_type [of a v] by (auto simp: LOG_ENTRY_GET_TYPE_def)
  show "LOG_ENTRY_MAKE_WORD_01 a w ! 0 \<noteq> 0"
    using word_01_get_type [of a w] by (auto simp: LOG_ENTRY_GET_TYPE_def)
qed

end
