(* ===== verification/Wear_Leveling.thy ===== *)
theory Wear_Leveling
  imports Eeprom Wear_Leveling_Log
begin

text \<open>
  The wear-leveling EEPROM emulation, \<^verbatim>\<open>quantum/wear_leveling/wear_leveling.c\<close>, and the EEPROM
  driver built on it, \<^verbatim>\<open>drivers/eeprom/eeprom_wear_leveling.c\<close>.

  The logical EEPROM lives in a RAM cache. The backing store holds a consolidated copy, an
  FNV-1a checksum of it, and a log of the writes since; a full log is consolidated in line.
  The flash driver below is the record \<open>backing_store\<close> of its entry points; a backing-store
  integer is the list of its bytes in memory order, so the union's \<^verbatim>\<open>raw16\<close> and \<^verbatim>\<open>raw32\<close>
  members are slices of \<^verbatim>\<open>raw8\<close>. The compile-time settings are the record \<open>wl_config\<close>, with the
  write size as one of the three values the code accepts.

  Memory the C code reads without having initialised it is an argument: \<open>stk\<close>, the contents of
  the stack where the union \<^verbatim>\<open>write_log_entry_t\<close> is allocated.
\<close>

section \<open>Model\<close>

subsection \<open>Configuration, backing store, state\<close>

datatype backing_store_write_size = WS2 | WS4 | WS8

fun ws_bytes :: "backing_store_write_size \<Rightarrow> nat" where
  "ws_bytes WS2 = 2"
| "ws_bytes WS4 = 4"
| "ws_bytes WS8 = 8"

record wl_config =
  BACKING_STORE_WRITE_SIZE :: backing_store_write_size
  WEAR_LEVELING_BACKING_SIZE :: nat
  WEAR_LEVELING_LOGICAL_SIZE :: nat

abbreviation WS :: "wl_config \<Rightarrow> nat" where
  "WS c \<equiv> ws_bytes (BACKING_STORE_WRITE_SIZE c)"

abbreviation LOG_START :: "wl_config \<Rightarrow> nat" where
  "LOG_START c \<equiv> WEAR_LEVELING_LOGICAL_SIZE c + 8"

record 's backing_store =
  backing_store_init :: "'s \<Rightarrow> bool \<times> 's"
  backing_store_unlock :: "'s \<Rightarrow> bool \<times> 's"
  backing_store_erase :: "'s \<Rightarrow> bool \<times> 's"
  backing_store_write :: "nat \<Rightarrow> bytes \<Rightarrow> 's \<Rightarrow> bool \<times> 's"
  backing_store_lock :: "'s \<Rightarrow> bool \<times> 's"
  backing_store_read :: "nat \<Rightarrow> 's \<Rightarrow> (bool \<times> bytes) \<times> 's"

record 's wear_leveling =
  cache :: bytes
  write_address :: nat
  unlocked :: bool
  backing :: 's

datatype wear_leveling_status = WEAR_LEVELING_FAILED | WEAR_LEVELING_SUCCESS | WEAR_LEVELING_CONSOLIDATED

datatype backing_store_lock_status = STATUS_FAILURE | STATUS_SUCCESS | STATUS_UNCHANGED

subsection \<open>Bulk transfers\<close>

fun backing_store_read_bulk ::
  "nat \<Rightarrow> 's backing_store \<Rightarrow> nat \<Rightarrow> bytes list \<Rightarrow> 's \<Rightarrow> (bool \<times> bytes list) \<times> 's" where
  "backing_store_read_bulk w B address [] s = ((True, []), s)"
| "backing_store_read_bulk w B address (v # vs) s =
     (case backing_store_read B address s of ((ok, value), s1) \<Rightarrow>
        if \<not> ok then ((False, value # vs), s1)
        else case backing_store_read_bulk w B (address + w) vs s1 of
          ((ok', values), s2) \<Rightarrow> ((ok', value # values), s2))"

fun backing_store_write_bulk ::
  "nat \<Rightarrow> 's backing_store \<Rightarrow> nat \<Rightarrow> bytes list \<Rightarrow> 's \<Rightarrow> bool \<times> 's" where
  "backing_store_write_bulk w B address [] s = (True, s)"
| "backing_store_write_bulk w B address (v # vs) s =
     (case backing_store_write B address v s of (ok, s1) \<Rightarrow>
        if \<not> ok then (False, s1) else backing_store_write_bulk w B (address + w) vs s1)"

subsection \<open>Locking\<close>

definition wear_leveling_unlock ::
  "'s backing_store \<Rightarrow> 's wear_leveling \<Rightarrow> backing_store_lock_status \<times> 's wear_leveling" where
  "wear_leveling_unlock B st =
     (if unlocked st then (STATUS_UNCHANGED, st)
      else case backing_store_unlock B (backing st) of (ok, s) \<Rightarrow>
        if \<not> ok then (STATUS_FAILURE, st\<lparr>backing := s\<rparr>)
        else (STATUS_SUCCESS, st\<lparr>backing := s, unlocked := True\<rparr>))"

definition wear_leveling_lock ::
  "'s backing_store \<Rightarrow> 's wear_leveling \<Rightarrow> backing_store_lock_status \<times> 's wear_leveling" where
  "wear_leveling_lock B st =
     (if \<not> unlocked st then (STATUS_UNCHANGED, st)
      else case backing_store_lock B (backing st) of (ok, s) \<Rightarrow>
        if \<not> ok then (STATUS_FAILURE, st\<lparr>backing := s\<rparr>)
        else (STATUS_SUCCESS, st\<lparr>backing := s, unlocked := False\<rparr>))"

subsection \<open>The consolidated area\<close>

definition wear_leveling_clear_cache :: "wl_config \<Rightarrow> 's wear_leveling \<Rightarrow> 's wear_leveling" where
  "wear_leveling_clear_cache c st =
     st\<lparr>cache := replicate (WEAR_LEVELING_LOGICAL_SIZE c) 0, write_address := LOG_START c\<rparr>"

definition wear_leveling_read_consolidated ::
  "wl_config \<Rightarrow> 's backing_store \<Rightarrow> bytes \<Rightarrow> 's wear_leveling \<Rightarrow> wear_leveling_status \<times> 's wear_leveling" where
  "wear_leveling_read_consolidated c B stk st =
     (case backing_store_read_bulk (WS c) B 0 (chunks (WS c) (cache st)) (backing st) of
       ((ok, values), s) \<Rightarrow>
         let st1 = st\<lparr>cache := concat values, backing := s\<rparr> in
         if \<not> ok then (WEAR_LEVELING_FAILED, wear_leveling_clear_cache c st1)
         else
           let expected = fnv_64a_buf (cache st1) FNV1A_64_INIT in
           case backing_store_read_bulk (WS c) B (WEAR_LEVELING_LOGICAL_SIZE c)
                  (chunks (WS c) (take 8 stk)) (backing st1) of
             ((_, entry), s2) \<Rightarrow>
               let st2 = st1\<lparr>backing := s2\<rparr> in
               if concat entry = le64 expected then (WEAR_LEVELING_SUCCESS, st2)
               else (WEAR_LEVELING_SUCCESS, wear_leveling_clear_cache c st2))"

definition wear_leveling_write_consolidated ::
  "wl_config \<Rightarrow> 's backing_store \<Rightarrow> 's wear_leveling \<Rightarrow> wear_leveling_status \<times> 's wear_leveling" where
  "wear_leveling_write_consolidated c B st =
     (case wear_leveling_unlock B st of (lock_status, st1) \<Rightarrow>
      case backing_store_write_bulk (WS c) B 0 (chunks (WS c) (cache st1)) (backing st1) of (ok, s) \<Rightarrow>
        let st2 = st1\<lparr>backing := s\<rparr> in
        case (if \<not> ok then (WEAR_LEVELING_FAILED, st2)
              else
                let entry = le64 (fnv_64a_buf (cache st2) FNV1A_64_INIT) in
                case backing_store_write_bulk (WS c) B (WEAR_LEVELING_LOGICAL_SIZE c)
                       (chunks (WS c) entry) (backing st2) of
                  (ok', s') \<Rightarrow>
                    (if \<not> ok' then WEAR_LEVELING_FAILED else WEAR_LEVELING_CONSOLIDATED,
                     st2\<lparr>backing := s'\<rparr>)) of
          (status, st3) \<Rightarrow>
            (status, if lock_status = STATUS_SUCCESS then snd (wear_leveling_lock B st3) else st3))"

definition wear_leveling_consolidate_force ::
  "wl_config \<Rightarrow> 's backing_store \<Rightarrow> 's wear_leveling \<Rightarrow> wear_leveling_status \<times> 's wear_leveling" where
  "wear_leveling_consolidate_force c B st =
     (case backing_store_erase B (backing st) of (ok, s) \<Rightarrow>
        let st1 = st\<lparr>backing := s\<rparr> in
        if \<not> ok then (WEAR_LEVELING_FAILED, st1)
        else case wear_leveling_write_consolidated c B st1 of (status, st2) \<Rightarrow>
          (status, st2\<lparr>write_address := LOG_START c\<rparr>))"

definition wear_leveling_consolidate_if_needed ::
  "wl_config \<Rightarrow> 's backing_store \<Rightarrow> 's wear_leveling \<Rightarrow> wear_leveling_status \<times> 's wear_leveling" where
  "wear_leveling_consolidate_if_needed c B st =
     (if WEAR_LEVELING_BACKING_SIZE c \<le> write_address st then wear_leveling_consolidate_force c B st
      else (WEAR_LEVELING_SUCCESS, st))"

subsection \<open>Writing the log\<close>

definition wear_leveling_append_raw ::
  "wl_config \<Rightarrow> 's backing_store \<Rightarrow> bytes \<Rightarrow> 's wear_leveling \<Rightarrow> wear_leveling_status \<times> 's wear_leveling" where
  "wear_leveling_append_raw c B value st =
     (case backing_store_write B (write_address st) value (backing st) of (ok, s) \<Rightarrow>
        let st1 = st\<lparr>backing := s\<rparr> in
        if \<not> ok then (WEAR_LEVELING_FAILED, st1)
        else wear_leveling_consolidate_if_needed c B (st1\<lparr>write_address := write_address st1 + WS c\<rparr>))"

text \<open>A run of appends, each of which ends the run unless it reports success.\<close>

fun append_run ::
  "wl_config \<Rightarrow> 's backing_store \<Rightarrow> bytes list \<Rightarrow> 's wear_leveling \<Rightarrow> wear_leveling_status \<times> 's wear_leveling" where
  "append_run c B [] st = (WEAR_LEVELING_SUCCESS, st)"
| "append_run c B (v # vs) st =
     (case wear_leveling_append_raw c B v st of (status, st1) \<Rightarrow>
        if status \<noteq> WEAR_LEVELING_SUCCESS then (status, st1) else append_run c B vs st1)"

text \<open>The backing-store integers of a multi-byte entry that are written, by write size and length.\<close>

definition multibyte_cells :: "backing_store_write_size \<Rightarrow> nat \<Rightarrow> write_log_entry \<Rightarrow> bytes list" where
  "multibyte_cells w len log =
     (case w of
        WS2 \<Rightarrow> [slice 0 2 log, slice 2 2 log]
               @ (if 1 < len then [slice 4 2 log] else [])
               @ (if 3 < len then [slice 6 2 log] else [])
      | WS4 \<Rightarrow> [slice 0 4 log] @ (if 1 < len then [slice 4 4 log] else [])
      | WS8 \<Rightarrow> [log])"

definition wear_leveling_write_raw_multibyte ::
  "wl_config \<Rightarrow> 's backing_store \<Rightarrow> nat \<Rightarrow> bytes \<Rightarrow> 's wear_leveling \<Rightarrow> wear_leveling_status \<times> 's wear_leveling" where
  "wear_leveling_write_raw_multibyte c B address value st =
     (let log = blit 3 value (LOG_ENTRY_MAKE_MULTIBYTE (word_of_nat address) (length value)) in
      append_run c B (multibyte_cells (BACKING_STORE_WRITE_SIZE c) (length value) log) st)"

function wear_leveling_write_raw ::
  "wl_config \<Rightarrow> 's backing_store \<Rightarrow> nat \<Rightarrow> bytes \<Rightarrow> 's wear_leveling \<Rightarrow> wear_leveling_status \<times> 's wear_leveling" where
  "wear_leveling_write_raw c B address p st =
     (if p = [] then (WEAR_LEVELING_SUCCESS, st)
      else if BACKING_STORE_WRITE_SIZE c = WS2 \<and> 2 \<le> length p \<and> address mod 2 = 0 \<and> address < 16384
        \<and> le16_decode p \<in> {0, 1}
      then
        (case wear_leveling_append_raw c B
                (slice 0 2 (LOG_ENTRY_MAKE_WORD_01 (word_of_nat address) (le16_decode p))) st of
          (status, st1) \<Rightarrow>
            if status \<noteq> WEAR_LEVELING_SUCCESS then (status, st1)
            else wear_leveling_write_raw c B (address + 2) (drop 2 p) st1)
      else if BACKING_STORE_WRITE_SIZE c = WS2 \<and> address < 64
      then
        (case wear_leveling_append_raw c B
                (slice 0 2 (LOG_ENTRY_MAKE_OPTIMIZED_64 (word_of_nat address) (hd p))) st of
          (status, st1) \<Rightarrow>
            if status \<noteq> WEAR_LEVELING_SUCCESS then (status, st1)
            else wear_leveling_write_raw c B (address + 1) (drop 1 p) st1)
      else
        let this_length = min (length p) LOG_ENTRY_MULTIBYTE_MAX_BYTES in
        (case wear_leveling_write_raw_multibyte c B address (take this_length p) st of
          (status, st1) \<Rightarrow>
            if status \<noteq> WEAR_LEVELING_SUCCESS then (status, st1)
            else wear_leveling_write_raw c B (address + this_length) (drop this_length p) st1))"
  by pat_completeness auto
termination
  by (relation "measure (\<lambda>(c, B, address, p, st). length p)")
    (auto simp: LOG_ENTRY_MULTIBYTE_MAX_BYTES_def)

declare wear_leveling_write_raw.simps [simp del]

subsection \<open>Playing the log back\<close>

text \<open>
  \<open>read_more\<close> is a run of \<^verbatim>\<open>backing_store_read(address, &log.raw16[k])\<close>: one cell per offset of the
  union, the address advancing past each cell that was read.
\<close>

fun read_more ::
  "nat \<Rightarrow> 's backing_store \<Rightarrow> nat \<Rightarrow> nat list \<Rightarrow> bytes \<Rightarrow> 's \<Rightarrow> (bool \<times> nat \<times> bytes) \<times> 's" where
  "read_more w B address [] log s = ((True, address, log), s)"
| "read_more w B address (k # ks) log s =
     (case backing_store_read B address s of ((ok, value), s1) \<Rightarrow>
        if \<not> ok then ((False, address, blit k value log), s1)
        else read_more w B (address + w) ks (blit k value log) s1)"

definition multibyte_rest_offsets :: "backing_store_write_size \<Rightarrow> nat \<Rightarrow> nat list" where
  "multibyte_rest_offsets w l =
     (case w of
        WS2 \<Rightarrow> (if 1 < l then [4] else []) @ (if 3 < l then [6] else [])
      | WS4 \<Rightarrow> (if 1 < l then [4] else [])
      | WS8 \<Rightarrow> [])"

definition playback_multibyte ::
  "wl_config \<Rightarrow> 's backing_store \<Rightarrow> nat \<Rightarrow> bytes \<Rightarrow> 's wear_leveling \<Rightarrow> bool \<times> nat \<times> 's wear_leveling" where
  "playback_multibyte c B address log st =
     (case read_more (WS c) B address (if BACKING_STORE_WRITE_SIZE c = WS2 then [2] else []) log (backing st) of
       ((ok, address1, log1), s1) \<Rightarrow>
         let st1 = st\<lparr>backing := s1\<rparr> in
         if \<not> ok then (False, address1, st1)
         else
           let a = unat (LOG_ENTRY_MULTIBYTE_GET_ADDRESS log1);
               l = unat (LOG_ENTRY_MULTIBYTE_GET_LENGTH log1) in
           if WEAR_LEVELING_LOGICAL_SIZE c < a + l then (False, address1, st1)
           else
             case read_more (WS c) B address1
                    (multibyte_rest_offsets (BACKING_STORE_WRITE_SIZE c) l) log1 (backing st1) of
               ((ok', address2, log2), s2) \<Rightarrow>
                 let st2 = st1\<lparr>backing := s2\<rparr> in
                 if \<not> ok' then (False, address2, st2)
                 else (True, address2, st2\<lparr>cache := blit a (slice 3 l log2) (cache st2)\<rparr>))"

text \<open>One entry: the result says whether playback goes on, and at which address.\<close>

definition playback_entry ::
  "wl_config \<Rightarrow> 's backing_store \<Rightarrow> nat \<Rightarrow> bytes \<Rightarrow> 's wear_leveling \<Rightarrow> bool \<times> nat \<times> 's wear_leveling" where
  "playback_entry c B address log st =
     (case LOG_ENTRY_GET_TYPE log of
        LOG_ENTRY_TYPE_MULTIBYTE \<Rightarrow> playback_multibyte c B address log st
      | LOG_ENTRY_TYPE_OPTIMIZED_64 \<Rightarrow>
          if BACKING_STORE_WRITE_SIZE c \<noteq> WS2 then (False, address, st)
          else
            let a = unat (LOG_ENTRY_OPTIMIZED_64_GET_ADDRESS log); v = LOG_ENTRY_OPTIMIZED_64_GET_VALUE log in
            if WEAR_LEVELING_LOGICAL_SIZE c \<le> a then (False, address, st)
            else (True, address, st\<lparr>cache := (cache st)[a := v]\<rparr>)
      | LOG_ENTRY_TYPE_WORD_01 \<Rightarrow>
          if BACKING_STORE_WRITE_SIZE c \<noteq> WS2 then (False, address, st)
          else
            let a = unat (LOG_ENTRY_WORD_01_GET_ADDRESS log); v = LOG_ENTRY_WORD_01_GET_VALUE log in
            if WEAR_LEVELING_LOGICAL_SIZE c \<le> a + 1 then (False, address, st)
            else (True, address, st\<lparr>cache := (cache st)[a := v, a + 1 := 0]\<rparr>)
      | LOG_ENTRY_TYPE_UNKNOWN \<Rightarrow> (False, address, st))"

lemma read_more_address: "read_more w B address ks log s = ((ok, address', log'), s') \<Longrightarrow> address \<le> address'"
proof (induction ks arbitrary: address log s)
  case (Cons k ks)
  from Cons.prems show ?case
    by (auto split: prod.splits if_splits dest!: Cons.IH)
qed simp

lemma playback_multibyte_address:
  "playback_multibyte c B address log st = (go_on, address', st') \<Longrightarrow> address \<le> address'"
  by (auto simp: playback_multibyte_def Let_def split: prod.splits if_splits dest!: read_more_address)

lemma playback_entry_address:
  "playback_entry c B address log st = (go_on, address', st') \<Longrightarrow> address \<le> address'"
  by (auto simp: playback_entry_def Let_def split: log_entry_type.splits if_splits
      dest: playback_multibyte_address)

function playback_loop ::
  "wl_config \<Rightarrow> 's backing_store \<Rightarrow> bytes \<Rightarrow> nat \<Rightarrow> 's wear_leveling \<Rightarrow> wear_leveling_status \<times> nat \<times> 's wear_leveling" where
  "playback_loop c B stk address st =
     (if address < WEAR_LEVELING_BACKING_SIZE c then
        case backing_store_read B address (backing st) of ((ok, value), s) \<Rightarrow>
          let st1 = st\<lparr>backing := s\<rparr> in
          if \<not> ok then (WEAR_LEVELING_FAILED, address, st1)
          else if list_all (\<lambda>b. b = 0) value then (WEAR_LEVELING_SUCCESS, address, st1)
          else
            case playback_entry c B (address + WS c) (blit 0 value stk) st1 of (go_on, address', st2) \<Rightarrow>
              if \<not> go_on then (WEAR_LEVELING_FAILED, address', st2)
              else playback_loop c B stk address' st2
      else (WEAR_LEVELING_SUCCESS, address, st))"
  by pat_completeness auto
termination
proof (relation "measure (\<lambda>(c, B, stk, address, st). WEAR_LEVELING_BACKING_SIZE c - address)", goal_cases)
  case 1
  show ?case by simp
next
  case prems: 2
  then have "0 < ws_bytes w" for w by (cases w) auto
  with prems show ?case
    by (auto dest!: playback_entry_address [OF sym])
      (metis (no_types) add_gr_0 diff_less_mono2 le_add1 le_neq_implies_less less_add_same_cancel1 less_le_trans)
qed

declare playback_loop.simps [simp del]

definition wear_leveling_playback_log ::
  "wl_config \<Rightarrow> 's backing_store \<Rightarrow> bytes \<Rightarrow> 's wear_leveling \<Rightarrow> wear_leveling_status \<times> 's wear_leveling" where
  "wear_leveling_playback_log c B stk st =
     (case playback_loop c B stk (LOG_START c) st of (status, address, st1) \<Rightarrow>
        let st2 = st1\<lparr>write_address := address\<rparr> in
        if status = WEAR_LEVELING_FAILED then wear_leveling_consolidate_force c B st2
        else wear_leveling_consolidate_if_needed c B st2)"

subsection \<open>The public interface\<close>

definition wear_leveling_init ::
  "wl_config \<Rightarrow> 's backing_store \<Rightarrow> bytes \<Rightarrow> 's wear_leveling \<Rightarrow> wear_leveling_status \<times> 's wear_leveling" where
  "wear_leveling_init c B stk st =
     (let st1 = wear_leveling_clear_cache c st in
      case backing_store_init B (backing st1) of (ok, s) \<Rightarrow>
        let st2 = st1\<lparr>backing := s\<rparr> in
        if \<not> ok then (WEAR_LEVELING_FAILED, wear_leveling_clear_cache c st2)
        else case wear_leveling_read_consolidated c B stk st2 of (status, st3) \<Rightarrow>
          if status = WEAR_LEVELING_FAILED then (status, wear_leveling_clear_cache c st3)
          else case wear_leveling_playback_log c B stk st3 of (status', st4) \<Rightarrow>
            if status' = WEAR_LEVELING_FAILED then (status', wear_leveling_clear_cache c st4)
            else (status', st4))"

definition wear_leveling_erase ::
  "wl_config \<Rightarrow> 's backing_store \<Rightarrow> 's wear_leveling \<Rightarrow> wear_leveling_status \<times> 's wear_leveling" where
  "wear_leveling_erase c B st =
     (case wear_leveling_unlock B st of (lock_status, st1) \<Rightarrow>
        if lock_status = STATUS_FAILURE then (WEAR_LEVELING_FAILED, snd (wear_leveling_lock B st1))
        else case backing_store_erase B (backing st1) of (ret, s) \<Rightarrow>
          let st2 = wear_leveling_clear_cache c (st1\<lparr>backing := s\<rparr>) in
          case (if lock_status = STATUS_SUCCESS
                then (case wear_leveling_lock B st2 of (ls, st3) \<Rightarrow> (ret \<and> ls \<noteq> STATUS_FAILURE, st3))
                else (ret, st2)) of
            (ret', st4) \<Rightarrow> (if ret' then WEAR_LEVELING_SUCCESS else WEAR_LEVELING_FAILED, st4))"

text \<open>The range check adds in 32-bit arithmetic, as \<^verbatim>\<open>uint32_t\<close> and \<^verbatim>\<open>size_t\<close> do on this target.\<close>

definition wl_out_of_range :: "wl_config \<Rightarrow> nat \<Rightarrow> nat \<Rightarrow> bool" where
  "wl_out_of_range c address len \<longleftrightarrow> WEAR_LEVELING_LOGICAL_SIZE c < (address + len) mod 2 ^ 32"

definition wear_leveling_write ::
  "wl_config \<Rightarrow> 's backing_store \<Rightarrow> nat \<Rightarrow> bytes \<Rightarrow> 's wear_leveling \<Rightarrow> wear_leveling_status \<times> 's wear_leveling" where
  "wear_leveling_write c B address value st =
     (if wl_out_of_range c address (length value) then (WEAR_LEVELING_FAILED, st)
      else if value = slice address (length value) (cache st) then (WEAR_LEVELING_SUCCESS, st)
      else
        let st1 = st\<lparr>cache := blit address value (cache st)\<rparr> in
        case wear_leveling_unlock B st1 of (lock_status, st2) \<Rightarrow>
          if lock_status = STATUS_FAILURE then (WEAR_LEVELING_FAILED, snd (wear_leveling_lock B st2))
          else case wear_leveling_write_raw c B address value st2 of (status, st3) \<Rightarrow>
            case (case status of
                    WEAR_LEVELING_CONSOLIDATED \<Rightarrow> (status, st3)
                  | WEAR_LEVELING_FAILED \<Rightarrow> (status, st3)
                  | WEAR_LEVELING_SUCCESS \<Rightarrow> wear_leveling_consolidate_if_needed c B st3) of
              (status', st4) \<Rightarrow>
                if lock_status = STATUS_SUCCESS
                then (case wear_leveling_lock B st4 of (ls, st5) \<Rightarrow>
                        (if ls = STATUS_FAILURE then WEAR_LEVELING_FAILED else status', st5))
                else (status', st4))"

definition wear_leveling_read ::
  "wl_config \<Rightarrow> nat \<Rightarrow> nat \<Rightarrow> 's wear_leveling \<Rightarrow> wear_leveling_status \<times> bytes option" where
  "wear_leveling_read c address len st =
     (if wl_out_of_range c address len then (WEAR_LEVELING_FAILED, None)
      else (WEAR_LEVELING_SUCCESS, Some (slice address len (cache st))))"

subsection \<open>The EEPROM driver on top\<close>

definition wl_eeprom_driver :: "wl_config \<Rightarrow> 's backing_store \<Rightarrow> 's wear_leveling eeprom_driver" where
  "wl_eeprom_driver c B =
     \<lparr>eeprom_read_block = (\<lambda>addr len st. snd (wear_leveling_read c addr len st)),
      eeprom_write_block = (\<lambda>buf addr st. snd (wear_leveling_write c B addr buf st)),
      eeprom_driver_erase = (\<lambda>st. snd (wear_leveling_erase c B st))\<rparr>"

end
