(* ===== verification/Wear_Leveling_Recovery.thy ===== *)
theory Wear_Leveling_Recovery
  imports Wear_Leveling_Correct
begin

text \<open>
  The flash side of the wear-leveling layer. The locale \<open>backing_contract\<close> states what the layer
  relies on in its flash driver: a read returns the stored bytes, a write into an erased,
  aligned, unlocked cell stores them, an erase clears everything. None of the operations has to
  succeed; the laws say what holds when it does. The locale \<open>reliable_backing\<close> adds that they
  do succeed.

  Against that contract the image in the flash is described by the entries of its log: the
  consolidated area with the entries replayed over it is the cache. Every write keeps this, so
  replaying the image at the next power-up restores the cache.
\<close>

section \<open>The image\<close>

definition wl_geometry :: "wl_config \<Rightarrow> bool" where
  "wl_geometry c \<longleftrightarrow> WEAR_LEVELING_LOGICAL_SIZE c mod WS c = 0 \<and> WEAR_LEVELING_BACKING_SIZE c mod WS c = 0
     \<and> LOG_START c < WEAR_LEVELING_BACKING_SIZE c \<and> WEAR_LEVELING_LOGICAL_SIZE c \<le> 2 ^ 19
     \<and> WEAR_LEVELING_BACKING_SIZE c < 2 ^ 32"

lemma WS_pos [simp]: "0 < WS c"
  by (cases "BACKING_STORE_WRITE_SIZE c") auto

lemma WS_dvd_8: "WS c dvd 8"
  by (cases "BACKING_STORE_WRITE_SIZE c") auto

text \<open>What the log records: a run of bytes, one byte below 64, or a 16-bit 0 or 1.\<close>

datatype wl_entry = Multi nat bytes | Opt64 nat u8 | Word01 nat u16

fun entry_apply :: "wl_entry \<Rightarrow> bytes \<Rightarrow> bytes" where
  "entry_apply (Multi a v) = blit a v"
| "entry_apply (Opt64 a v) = blit a [v]"
| "entry_apply (Word01 a w) = blit a (le16 w)"

fun entry_ok :: "wl_config \<Rightarrow> wl_entry \<Rightarrow> bool" where
  "entry_ok c (Multi a v) \<longleftrightarrow> 0 < length v \<and> length v \<le> 5 \<and> a + length v \<le> WEAR_LEVELING_LOGICAL_SIZE c"
| "entry_ok c (Opt64 a v) \<longleftrightarrow> BACKING_STORE_WRITE_SIZE c = WS2 \<and> a < 64 \<and> a < WEAR_LEVELING_LOGICAL_SIZE c"
| "entry_ok c (Word01 a w) \<longleftrightarrow> BACKING_STORE_WRITE_SIZE c = WS2 \<and> a mod 2 = 0 \<and> a < 16384 \<and> w \<in> {0, 1}
     \<and> a + 2 \<le> WEAR_LEVELING_LOGICAL_SIZE c"

fun entry_cells :: "wl_config \<Rightarrow> wl_entry \<Rightarrow> bytes list" where
  "entry_cells c (Multi a v) = multibyte_cells (BACKING_STORE_WRITE_SIZE c) (length v)
     (blit 3 v (LOG_ENTRY_MAKE_MULTIBYTE (word_of_nat a) (length v)))"
| "entry_cells c (Opt64 a v) = [slice 0 2 (LOG_ENTRY_MAKE_OPTIMIZED_64 (word_of_nat a) v)]"
| "entry_cells c (Word01 a w) = [slice 0 2 (LOG_ENTRY_MAKE_WORD_01 (word_of_nat a) w)]"

definition log_bytes :: "wl_config \<Rightarrow> wl_entry list \<Rightarrow> bytes" where
  "log_bytes c es = concat (concat (map (entry_cells c) es))"

lemma log_bytes_simps [simp]:
  "log_bytes c [] = []"
  "log_bytes c (e # es) = concat (entry_cells c e) @ log_bytes c es"
  "log_bytes c (es @ fs) = log_bytes c es @ log_bytes c fs"
  by (simp_all add: log_bytes_def)

definition consolidated :: "wl_config \<Rightarrow> bytes \<Rightarrow> bytes" where
  "consolidated c img =
     (let data = slice 0 (WEAR_LEVELING_LOGICAL_SIZE c) img in
      if slice (WEAR_LEVELING_LOGICAL_SIZE c) 8 img = le64 (fnv_64a_buf data FNV1A_64_INIT) then data
      else replicate (WEAR_LEVELING_LOGICAL_SIZE c) 0)"

definition log_image :: "wl_config \<Rightarrow> bytes \<Rightarrow> wl_entry list \<Rightarrow> bool" where
  "log_image c img es \<longleftrightarrow> length img = WEAR_LEVELING_BACKING_SIZE c \<and> list_all (entry_ok c) es
     \<and> LOG_START c + length (log_bytes c es) < WEAR_LEVELING_BACKING_SIZE c
     \<and> drop (LOG_START c) img = log_bytes c es
         @ replicate (WEAR_LEVELING_BACKING_SIZE c - (LOG_START c + length (log_bytes c es))) 0"

text \<open>The logical EEPROM contents an image stands for.\<close>

definition replayed :: "wl_config \<Rightarrow> bytes \<Rightarrow> wl_entry list \<Rightarrow> bytes" where
  "replayed c img es = fold entry_apply es (consolidated c img)"

text \<open>An entry is a whole number of cells, and the entry of one step covers the bytes it takes.\<close>

lemma entry_cells_length: "entry_ok c e \<Longrightarrow> v \<in> set (entry_cells c e) \<Longrightarrow> length v = WS c"
  by (cases e; cases "BACKING_STORE_WRITE_SIZE c") (auto simp: multibyte_cells_def split: if_splits)

lemma entry_cells_nonempty: "entry_cells c e \<noteq> []"
  by (cases e; cases "BACKING_STORE_WRITE_SIZE c") (auto simp: multibyte_cells_def)

lemma entry_apply_length [simp]:
  "entry_ok c e \<Longrightarrow> length xs = WEAR_LEVELING_LOGICAL_SIZE c \<Longrightarrow> length (entry_apply e xs) = WEAR_LEVELING_LOGICAL_SIZE c"
  by (cases e) auto

lemma le16_decode_take: "2 \<le> length p \<Longrightarrow> le16 (le16_decode p) = take 2 p"
proof -
  assume "2 \<le> length p"
  moreover have "le16_decode p = le16_decode (take 2 p)" by (simp add: le16_decode_def)
  ultimately show ?thesis by (simp add: le16_le16_decode)
qed

lemma write_raw_step_entry:
  assumes "p \<noteq> []" "a + length p \<le> WEAR_LEVELING_LOGICAL_SIZE c" "write_raw_step c B a p st = (n, r)"
  shows "\<exists>e. entry_ok c e \<and> append_run c B (entry_cells c e) st = r \<and> entry_apply e = blit a (take n p)"
proof -
  let ?g1 = "BACKING_STORE_WRITE_SIZE c = WS2 \<and> 2 \<le> length p \<and> a mod 2 = 0 \<and> a < 16384 \<and> le16_decode p \<in> {0, 1}"
  let ?g2 = "BACKING_STORE_WRITE_SIZE c = WS2 \<and> a < 64"
  let ?m = "min (length p) 5"
  consider (word) ?g1 | (opt) "\<not> ?g1" ?g2 | (multi) "\<not> ?g1" "\<not> ?g2" by blast
  then show ?thesis
  proof cases
    case word
    have "entry_ok c (Word01 a (le16_decode p))" using word assms(2) by auto
    moreover have "entry_apply (Word01 a (le16_decode p)) = blit a (take 2 p)"
      using word by (simp add: le16_decode_take fun_eq_iff)
    ultimately show ?thesis
      using assms(3) unfolding write_raw_step_def if_P [OF word] by (metis prod.inject entry_cells.simps(3))
  next
    case opt
    have "take 1 p = [hd p]" using assms(1) by (cases p) auto
    then have "entry_apply (Opt64 a (hd p)) = blit a (take 1 p)" by (simp only: entry_apply.simps)
    moreover have "entry_ok c (Opt64 a (hd p))" using opt assms(1,2) by (cases p) auto
    ultimately show ?thesis
      using assms(3) unfolding write_raw_step_def if_not_P [OF opt(1)] if_P [OF opt(2)]
      by (metis prod.inject entry_cells.simps(2))
  next
    case multi
    have "entry_ok c (Multi a (take ?m p))" using assms(1,2) by auto
    moreover have "n = ?m" "append_run c B (entry_cells c (Multi a (take ?m p))) st = r"
      using assms(3) unfolding write_raw_step_def if_not_P [OF multi(1)] if_not_P [OF multi(2)]
      by (auto simp: Let_def LOG_ENTRY_MULTIBYTE_MAX_BYTES_def wear_leveling_write_raw_multibyte_def)
    ultimately show ?thesis by (metis entry_apply.simps(1))
  qed
qed

section \<open>Reading entries back\<close>

text \<open>The cells of an image from an address on, and the union as it fills up with them.\<close>

fun cells_from :: "nat \<Rightarrow> bytes \<Rightarrow> nat \<Rightarrow> bytes list \<Rightarrow> bool" where
  "cells_from w im a [] \<longleftrightarrow> True"
| "cells_from w im a (v # vs) \<longleftrightarrow> a + w \<le> length im \<and> slice a w im = v \<and> cells_from w im (a + w) vs"

lemma cells_from_concat:
  "slice a (length (concat vs)) im = concat vs \<Longrightarrow> \<forall>v\<in>set vs. length v = w \<Longrightarrow> a + length (concat vs) \<le> length im \<Longrightarrow>
   cells_from w im a vs"
proof (induction vs arbitrary: a)
  case (Cons v vs)
  let ?n = "length (concat vs)"
  have split: "slice a w im @ slice (a + w) ?n im = v @ concat vs"
    using Cons.prems slice_append_adjacent [of a w ?n im] by (simp del: length_concat)
  moreover have "length (slice a w im) = length v" using Cons.prems by (simp del: length_concat)
  ultimately have "slice a w im = v" "slice (a + w) ?n im = concat vs"
    by (simp_all only: append_eq_append_conv simp_thms)
  then show ?case using Cons by (simp del: length_concat)
qed simp

lemma cells_from_append:
  "cells_from w im a (vs @ us) \<longleftrightarrow> cells_from w im a vs \<and> cells_from w im (a + w * length vs) us"
  by (induction vs arbitrary: a) (auto simp: add.assoc)

definition fill :: "nat \<Rightarrow> bytes \<Rightarrow> nat list \<Rightarrow> bytes \<Rightarrow> bytes" where
  "fill w M ks log = fold (\<lambda>k. blit k (slice k w M)) ks log"

lemma fill_simps [simp]:
  "fill w M [] log = log"
  "fill w M (k # ks) log = fill w M ks (blit k (slice k w M) log)"
  "fill w M (ks @ js) log = fill w M js (fill w M ks log)"
  by (simp_all add: fill_def)

lemma multibyte_cells_offsets:
  "length M = 8 \<Longrightarrow> multibyte_cells w l M = slice 0 (ws_bytes w) M # map (\<lambda>k. slice k (ws_bytes w) M)
     ((if w = WS2 then [2] else []) @ multibyte_rest_offsets w l)"
  by (cases w) (auto simp: multibyte_cells_def multibyte_rest_offsets_def slice_def)

lemma offsets_bound:
  "k \<in> set ((if w = WS2 then [2] else []) @ multibyte_rest_offsets w l) \<Longrightarrow> k + ws_bytes w \<le> 8"
  by (cases w) (auto simp: multibyte_rest_offsets_def split: if_splits)

lemma multibyte_cells_total:
  "length M = 8 \<Longrightarrow> length (concat (multibyte_cells w l M)) =
     ws_bytes w + ws_bytes w * length (if w = WS2 then [2::nat] else []) + ws_bytes w * length (multibyte_rest_offsets w l)"
  by (cases w) (auto simp: multibyte_cells_def multibyte_rest_offsets_def)

lemma fill_length:
  "length xs = 8 \<Longrightarrow> length M = 8 \<Longrightarrow> \<forall>k\<in>set ks. k + w \<le> 8 \<Longrightarrow> length (fill w M ks xs) = 8"
  by (induction ks arbitrary: xs) auto

lemma take_blit_agree:
  assumes "take k log = take k M" "length log = 8" "length M = 8" "k + w \<le> 8"
  shows "take (k + w) (blit k (slice k w M) log) = take (k + w) M"
proof (rule nth_equalityI)
  fix i assume "i < length (take (k + w) (blit k (slice k w M) log))"
  moreover have "i < k \<Longrightarrow> log ! i = M ! i" using arg_cong [OF assms(1), of "\<lambda>xs. xs ! i"] by simp
  ultimately show "take (k + w) (blit k (slice k w M) log) ! i = take (k + w) M ! i"
    using assms by (cases "i < k") (simp_all add: nth_blit)
qed (use assms in simp)

lemma take_agree_mono: "take m xs = take m ys \<Longrightarrow> n \<le> m \<Longrightarrow> take n xs = take n ys"
  by (metis min.absorb1 take_take)

text \<open>
  The first cell, the second half of the header where cells are two bytes wide, and the cells
  that \<open>multibyte_rest_offsets\<close> asks for together hold the whole entry.
\<close>

lemma fill_agrees:
  fixes w l
  defines "hd_offs \<equiv> (if w = WS2 then [2] else [])"
  assumes "length M = 8" "length stk = 8" "0 < l" "l \<le> 5"
  defines "log0 \<equiv> blit 0 (slice 0 (ws_bytes w) M) stk"
  shows "take 3 (fill (ws_bytes w) M hd_offs log0) = take 3 M"
    and "take (3 + l) (fill (ws_bytes w) M (multibyte_rest_offsets w l) (fill (ws_bytes w) M hd_offs log0)) = take (3 + l) M"
proof -
  have w8: "ws_bytes w \<le> 8" by (cases w) simp_all
  have "take (0 + ws_bytes w) (blit 0 (slice 0 (ws_bytes w) M) stk) = take (0 + ws_bytes w) M"
    by (rule take_blit_agree) (use assms(2,3) w8 in simp_all)
  then have base: "take (ws_bytes w) log0 = take (ws_bytes w) M" "length log0 = 8"
    using assms(2,3) w8 unfolding log0_def by simp_all
  have h: "take (if w = WS8 then 8 else 4) (fill (ws_bytes w) M hd_offs log0) = take (if w = WS8 then 8 else 4) M
      \<and> length (fill (ws_bytes w) M hd_offs log0) = 8"
    using base take_blit_agree [of 2 log0 M 2] assms(2) unfolding hd_offs_def by (cases w) simp_all
  then show "take 3 (fill (ws_bytes w) M hd_offs log0) = take 3 M"
    by (auto intro: take_agree_mono split: if_splits)
  define log1 where "log1 = fill (ws_bytes w) M hd_offs log0"
  have l1: "w \<noteq> WS8 \<Longrightarrow> take 4 log1 = take 4 M" "w = WS8 \<Longrightarrow> take 8 log1 = take 8 M" "length log1 = 8"
    using h by (auto simp: log1_def)
  have "take (if w = WS8 \<or> w = WS4 \<and> 1 < l \<or> 3 < l then 8 else if 1 < l then 6 else 4)
      (fill (ws_bytes w) M (multibyte_rest_offsets w l) log1)
    = take (if w = WS8 \<or> w = WS4 \<and> 1 < l \<or> 3 < l then 8 else if 1 < l then 6 else 4) M"
    using l1 take_blit_agree [of 4 log1 M 4] take_blit_agree [of 4 log1 M 2] assms(2)
      take_blit_agree [of 6 "blit 4 (slice 4 2 M) log1" M 2]
    by (cases w) (simp_all add: multibyte_rest_offsets_def)
  then show "take (3 + l) (fill (ws_bytes w) M (multibyte_rest_offsets w l) (fill (ws_bytes w) M hd_offs log0)) = take (3 + l) M"
    unfolding log1_def by (rule take_agree_mono) (use assms(4,5) in \<open>auto split: if_splits\<close>)
qed

lemma header_agrees:
  assumes "take 3 xs = take 3 M" "3 \<le> length xs" "3 \<le> length M"
  shows "LOG_ENTRY_MULTIBYTE_GET_ADDRESS xs = LOG_ENTRY_MULTIBYTE_GET_ADDRESS M"
    "LOG_ENTRY_MULTIBYTE_GET_LENGTH xs = LOG_ENTRY_MULTIBYTE_GET_LENGTH M"
    "LOG_ENTRY_GET_TYPE xs = LOG_ENTRY_GET_TYPE M"
proof -
  have "xs ! i = M ! i" if "i < 3" for i using assms(1) that by (metis nth_take)
  from this [of 0] this [of 1] this [of 2] show "LOG_ENTRY_MULTIBYTE_GET_ADDRESS xs = LOG_ENTRY_MULTIBYTE_GET_ADDRESS M"
    "LOG_ENTRY_MULTIBYTE_GET_LENGTH xs = LOG_ENTRY_MULTIBYTE_GET_LENGTH M"
    "LOG_ENTRY_GET_TYPE xs = LOG_ENTRY_GET_TYPE M"
    by (simp_all add: log_entry_defs)
qed

lemma multibyte_image:
  fixes a v
  defines "M \<equiv> blit 3 v (LOG_ENTRY_MAKE_MULTIBYTE (word_of_nat a) (length v))"
  assumes "0 < length v" "length v \<le> 5" "a < 2 ^ 19"
  shows "length M = 8" "slice 3 (length v) M = v"
    "unat (LOG_ENTRY_MULTIBYTE_GET_ADDRESS M) = a"
    "unat (LOG_ENTRY_MULTIBYTE_GET_LENGTH M) = length v"
    "LOG_ENTRY_GET_TYPE M = LOG_ENTRY_TYPE_MULTIBYTE" "M ! 0 \<noteq> 0"
proof -
  let ?H = "LOG_ENTRY_MAKE_MULTIBYTE (word_of_nat a) (length v)"
  show len: "length M = 8" "slice 3 (length v) M = v" using assms(2,3) by (simp_all add: M_def)
  have t: "take 3 M = take 3 ?H" by (simp add: M_def blit_def)
  note h = header_agrees [OF t]
  have ua: "unat (word_of_nat a :: u32) = a" using assms(4) by (simp add: unat_of_nat)
  show "unat (LOG_ENTRY_MULTIBYTE_GET_ADDRESS M) = a"
    using h(1) multibyte_get_address [of "word_of_nat a"] ua assms(4) len by simp
  show "unat (LOG_ENTRY_MULTIBYTE_GET_LENGTH M) = length v"
    using h(2) multibyte_get_length [of "length v"] assms(3) len by (simp add: unat_of_nat)
  show "LOG_ENTRY_GET_TYPE M = LOG_ENTRY_TYPE_MULTIBYTE" using h(3) multibyte_get_type len by simp
  show "M ! 0 \<noteq> 0"
    using log_entry_first_byte(1) [of "length v" "word_of_nat a"] assms(2,3) by (simp add: M_def blit_def nth_append)
qed

section \<open>The contract of the flash driver\<close>

locale backing_contract =
  fixes c :: wl_config
    and B :: "'s backing_store"
    and img :: "'s \<Rightarrow> bytes"
    and unl :: "'s \<Rightarrow> bool"
    and ok :: "'s \<Rightarrow> bool"
    and powered :: "'s \<Rightarrow> bool"
  assumes geometry: "wl_geometry c"
    and img_length: "ok s \<Longrightarrow> length (img s) = WEAR_LEVELING_BACKING_SIZE c"
    and ok_powered: "ok s \<Longrightarrow> powered s"
    and init_law: "powered s \<Longrightarrow> backing_store_init B s = (r, s') \<Longrightarrow>
      img s' = img s \<and> (r \<longrightarrow> ok s' \<and> \<not> unl s')"
    and unlock_law: "ok s \<Longrightarrow> \<not> unl s \<Longrightarrow> backing_store_unlock B s = (r, s') \<Longrightarrow>
      ok s' \<and> img s' = img s \<and> unl s' = r"
    and lock_law: "ok s \<Longrightarrow> unl s \<Longrightarrow> backing_store_lock B s = (r, s') \<Longrightarrow>
      ok s' \<and> img s' = img s \<and> \<not> unl s' \<and> r"
    and erase_law: "ok s \<Longrightarrow> unl s \<Longrightarrow> backing_store_erase B s = (r, s') \<Longrightarrow>
      ok s' \<and> unl s' \<and> (r \<longrightarrow> img s' = replicate (WEAR_LEVELING_BACKING_SIZE c) 0)"
    and write_law: "ok s \<Longrightarrow> unl s \<Longrightarrow> a mod WS c = 0 \<Longrightarrow> a + WS c \<le> WEAR_LEVELING_BACKING_SIZE c \<Longrightarrow>
      length v = WS c \<Longrightarrow> slice a (WS c) (img s) = replicate (WS c) 0 \<Longrightarrow>
      backing_store_write B a v s = (r, s') \<Longrightarrow> ok s' \<and> unl s' \<and> (r \<longrightarrow> img s' = blit a v (img s))"
    and read_law: "ok s \<Longrightarrow> a mod WS c = 0 \<Longrightarrow> a + WS c \<le> WEAR_LEVELING_BACKING_SIZE c \<Longrightarrow>
      backing_store_read B a s = ((r, v), s') \<Longrightarrow>
      ok s' \<and> img s' = img s \<and> unl s' = unl s \<and> length v = WS c \<and> (r \<longrightarrow> v = slice a (WS c) (img s))"
begin

lemma geometry_facts:
  "WS c dvd WEAR_LEVELING_LOGICAL_SIZE c" "WS c dvd WEAR_LEVELING_BACKING_SIZE c" "WS c dvd LOG_START c"
  "LOG_START c < WEAR_LEVELING_BACKING_SIZE c" "WEAR_LEVELING_LOGICAL_SIZE c \<le> 2 ^ 19"
  "WEAR_LEVELING_BACKING_SIZE c < 2 ^ 32"
  using geometry WS_dvd_8 [of c] by (auto simp: wl_geometry_def mod_eq_0_iff_dvd)

lemma aligned_room: "WS c dvd a \<Longrightarrow> a < WEAR_LEVELING_BACKING_SIZE c \<Longrightarrow> a + WS c \<le> WEAR_LEVELING_BACKING_SIZE c"
  using dvd_imp_le [of "WS c" "WEAR_LEVELING_BACKING_SIZE c - a"] dvd_diff_nat [OF geometry_facts(2), of a] by simp

lemma write_bulk_law:
  assumes "ok s" "unl s" "WS c dvd a" "a + WS c * length vs \<le> WEAR_LEVELING_BACKING_SIZE c"
    and "\<forall>v\<in>set vs. length v = WS c"
    and "slice a (WS c * length vs) (img s) = replicate (WS c * length vs) 0"
    and "backing_store_write_bulk (WS c) B a vs s = (r, s')"
  shows "ok s' \<and> unl s' \<and> (r \<longrightarrow> img s' = blit a (concat vs) (img s))"
  using assms
proof (induction vs arbitrary: a s)
  case (Cons v vs)
  obtain r1 s1 where w: "backing_store_write B a v s = (r1, s1)" by fastforce
  have room: "a + WS c + WS c * length vs \<le> WEAR_LEVELING_BACKING_SIZE c" using Cons.prems(4) by simp
  have len: "length (img s) = WEAR_LEVELING_BACKING_SIZE c" using Cons.prems(1) by (rule img_length)
  have z1: "slice a (WS c) (img s) = replicate (WS c) 0"
    using arg_cong [OF Cons.prems(6), of "slice 0 (WS c)"] room len by (simp add: slice_slice)
  have z2: "slice (a + WS c) (WS c * length vs) (img s) = replicate (WS c * length vs) 0"
    using arg_cong [OF Cons.prems(6), of "slice (WS c) (WS c * length vs)"] room len by (simp add: slice_slice)
  have s1: "ok s1" "unl s1" "r1 \<Longrightarrow> img s1 = blit a v (img s)"
    using write_law [OF Cons.prems(1,2) _ _ _ z1 w] Cons.prems(3,5) room by auto
  show ?case
  proof (cases r1)
    case False
    then show ?thesis using s1 w Cons.prems(7) by simp
  next
    case True
    have vlen: "length v = WS c" using Cons.prems(5) by simp
    have clen: "length (concat vs) = WS c * length vs"
      using Cons.prems(5) by (simp add: length_concat sum_list_triv cong: map_cong)
    have "slice (a + WS c) (WS c * length vs) (img s1) = replicate (WS c * length vs) 0"
      using True s1(3) z2 room vlen len by (simp add: slice_blit_disjoint)
    moreover have "backing_store_write_bulk (WS c) B (a + WS c) vs s1 = (r, s')"
      using w True Cons.prems(7) by simp
    ultimately have "ok s' \<and> unl s' \<and> (r \<longrightarrow> img s' = blit (a + WS c) (concat vs) (img s1))"
      using Cons.IH [OF s1(1,2), of "a + WS c"] Cons.prems(3,5) room by auto
    then show ?thesis
      using True s1(3) room vlen clen len by (simp add: blit_append)
  qed
qed simp

lemma length_chunks_concat: "WS c dvd length xs \<Longrightarrow> WS c * length (chunks (WS c) xs) = length xs"
proof -
  assume "WS c dvd length xs"
  then have "map length (chunks (WS c) xs) = map (\<lambda>_. WS c) (chunks (WS c) xs)"
    by (auto simp: chunks_cell_length)
  then have "length (concat (chunks (WS c) xs)) = WS c * length (chunks (WS c) xs)"
    by (simp only: length_concat sum_list_triv mult.commute of_nat_id)
  then show ?thesis by simp
qed

lemma write_bytes_law:
  assumes "ok s" "unl s" "WS c dvd a" "WS c dvd length xs" "a + length xs \<le> WEAR_LEVELING_BACKING_SIZE c"
    and "slice a (length xs) (img s) = replicate (length xs) 0"
    and "backing_store_write_bulk (WS c) B a (chunks (WS c) xs) s = (r, s')"
  shows "ok s' \<and> unl s' \<and> (r \<longrightarrow> img s' = blit a xs (img s))"
  using write_bulk_law [OF assms(1-3), of "chunks (WS c) xs" r s'] assms(4-7)
  by (auto simp: length_chunks_concat chunks_cell_length)

text \<open>A state of the layer between two flash operations of one write: unlocked, log aligned.\<close>

definition live :: "'s wear_leveling \<Rightarrow> bool" where
  "live st \<longleftrightarrow> ok (backing st) \<and> unlocked st \<and> unl (backing st) \<and> length (cache st) = WEAR_LEVELING_LOGICAL_SIZE c"

lemma fresh_image:
  assumes "length xs = WEAR_LEVELING_LOGICAL_SIZE c"
    and "im = blit (WEAR_LEVELING_LOGICAL_SIZE c) (le64 (fnv_64a_buf xs FNV1A_64_INIT))
      (blit 0 xs (replicate (WEAR_LEVELING_BACKING_SIZE c) 0))"
  shows "log_image c im []" "replayed c im [] = xs"
proof -
  let ?L = "WEAR_LEVELING_LOGICAL_SIZE c" and ?B = "WEAR_LEVELING_BACKING_SIZE c"
  have room: "?L + 8 < ?B" using geometry_facts(4) .
  have im: "im = xs @ le64 (fnv_64a_buf xs FNV1A_64_INIT) @ replicate (?B - (?L + 8)) 0"
    using assms room by (simp add: blit_def)
  show "log_image c im []" using room assms(1) by (simp add: log_image_def im)
  show "replayed c im [] = xs"
    using room assms(1) by (simp add: replayed_def consolidated_def im slice_def Let_def)
qed

lemma write_consolidated_law:
  assumes "live st" "img (backing st) = replicate (WEAR_LEVELING_BACKING_SIZE c) 0"
    and "wear_leveling_write_consolidated c B st = (status, st')"
  shows "live st' \<and> cache st' = cache st \<and> status \<noteq> WEAR_LEVELING_SUCCESS \<and>
    (status = WEAR_LEVELING_CONSOLIDATED \<longrightarrow>
      log_image c (img (backing st')) [] \<and> replayed c (img (backing st')) [] = cache st)"
proof -
  let ?L = "WEAR_LEVELING_LOGICAL_SIZE c" and ?B = "WEAR_LEVELING_BACKING_SIZE c"
  let ?sum = "le64 (fnv_64a_buf (cache st) FNV1A_64_INIT)"
  have st: "ok (backing st)" "unlocked st" "unl (backing st)" "length (cache st) = ?L"
    using assms(1) by (auto simp: live_def)
  note g = geometry_facts WS_dvd_8 [of c]
  obtain r s where w1: "backing_store_write_bulk (WS c) B 0 (chunks (WS c) (cache st)) (backing st) = (r, s)"
    by fastforce
  have s: "ok s" "unl s" "r \<Longrightarrow> img s = blit 0 (cache st) (replicate ?B 0)"
    using write_bytes_law [OF st(1,3) _ _ _ _ w1] g st(4) assms(2) by auto
  obtain r2 s2 where w2: "backing_store_write_bulk (WS c) B ?L (chunks (WS c) ?sum) s = (r2, s2)" by fastforce
  have "r \<Longrightarrow> slice ?L 8 (img s) = replicate 8 0"
    using s(3) g st(4) by (simp add: slice_blit_disjoint)
  then have s2: "r \<Longrightarrow> ok s2 \<and> unl s2 \<and> (r2 \<longrightarrow> img s2 = blit ?L ?sum (img s))"
    using write_bytes_law [OF s(1,2) _ _ _ _ w2] g by simp
  show ?thesis
    using assms(3) st s s2 w1 w2 fresh_image [OF st(4) refl]
    by (cases r; cases r2) (auto simp: wear_leveling_write_consolidated_def wear_leveling_unlock_def live_def Let_def)
qed

lemma consolidate_force_law:
  assumes "live st" "wear_leveling_consolidate_force c B st = (status, st')"
  shows "live st' \<and> cache st' = cache st \<and> status \<noteq> WEAR_LEVELING_SUCCESS \<and>
    (status = WEAR_LEVELING_CONSOLIDATED \<longrightarrow> write_address st' = LOG_START c \<and>
      log_image c (img (backing st')) [] \<and> replayed c (img (backing st')) [] = cache st)"
proof -
  obtain r s where e: "backing_store_erase B (backing st) = (r, s)" by fastforce
  have s: "ok s" "unl s" "r \<Longrightarrow> img s = replicate (WEAR_LEVELING_BACKING_SIZE c) 0"
    using erase_law [OF _ _ e] assms(1) by (auto simp: live_def)
  obtain u st1 where w: "wear_leveling_write_consolidated c B (st\<lparr>backing := s\<rparr>) = (u, st1)" by fastforce
  have "live (st\<lparr>backing := s\<rparr>)" using assms(1) s by (simp add: live_def)
  from write_consolidated_law [OF this _ w] show ?thesis
    using assms s e w by (cases r) (auto simp: wear_leveling_consolidate_force_def live_def)
qed

text \<open>The cells from the write position on are erased, and there is room for one more.\<close>

definition tail_erased :: "'s wear_leveling \<Rightarrow> bool" where
  "tail_erased st \<longleftrightarrow> WS c dvd write_address st \<and> write_address st < WEAR_LEVELING_BACKING_SIZE c
     \<and> drop (write_address st) (img (backing st)) = replicate (WEAR_LEVELING_BACKING_SIZE c - write_address st) 0"

definition consolidated_state :: "'s wear_leveling \<Rightarrow> bool" where
  "consolidated_state st \<longleftrightarrow> write_address st = LOG_START c \<and> log_image c (img (backing st)) []
     \<and> replayed c (img (backing st)) [] = cache st"

lemma append_raw_law:
  assumes "live st" "tail_erased st" "length v = WS c" "wear_leveling_append_raw c B v st = (status, st')"
  shows "live st' \<and> cache st' = cache st"
    and "status = WEAR_LEVELING_SUCCESS \<Longrightarrow> tail_erased st' \<and> write_address st' = write_address st + WS c
      \<and> img (backing st') = blit (write_address st) v (img (backing st))"
    and "status = WEAR_LEVELING_CONSOLIDATED \<Longrightarrow> consolidated_state st'"
proof -
  let ?B = "WEAR_LEVELING_BACKING_SIZE c" and ?a = "write_address st" and ?im = "img (backing st)"
  have st: "ok (backing st)" "unl (backing st)" and t: "WS c dvd ?a" "?a < ?B" "drop ?a ?im = replicate (?B - ?a) 0"
    using assms(1,2) by (auto simp: live_def tail_erased_def)
  have len: "length ?im = ?B" using st(1) by (rule img_length)
  have room: "?a + WS c \<le> ?B" using aligned_room t by simp
  obtain r s where w: "backing_store_write B ?a v (backing st) = (r, s)" by fastforce
  have "slice ?a (WS c) ?im = replicate (WS c) 0"
    using t(3) room by (simp add: slice_def take_replicate_le)
  with write_law [OF st _ room assms(3) _ w] t(1)
  have s: "ok s" "unl s" "r \<Longrightarrow> img s = blit ?a v ?im" by auto
  let ?st1 = "st\<lparr>backing := s, write_address := ?a + WS c\<rparr>"
  have live1: "live ?st1" using assms(1) s by (simp add: live_def)
  have rest: "r \<Longrightarrow> drop (?a + WS c) (img s) = replicate (?B - (?a + WS c)) 0"
    using s(3) arg_cong [OF t(3), of "drop (WS c)"] assms(3) len room by (simp add: blit_def add.commute)
  have res: "(if r then wear_leveling_consolidate_if_needed c B ?st1 else (WEAR_LEVELING_FAILED, st\<lparr>backing := s\<rparr>)) = (status, st')"
    using assms(4) w by (simp add: wear_leveling_append_raw_def Let_def split: if_splits)
  consider "\<not> r" "status = WEAR_LEVELING_FAILED" "st' = st\<lparr>backing := s\<rparr>"
    | "r" "?a + WS c < ?B" "status = WEAR_LEVELING_SUCCESS" "st' = ?st1"
    | "r" "wear_leveling_consolidate_force c B ?st1 = (status, st')"
    using res by (cases r; cases "?a + WS c < ?B") (simp_all add: wear_leveling_consolidate_if_needed_def not_less)
  then have "live st' \<and> cache st' = cache st \<and>
    (status = WEAR_LEVELING_SUCCESS \<longrightarrow> tail_erased st' \<and> write_address st' = ?a + WS c \<and> img (backing st') = blit ?a v ?im)
    \<and> (status = WEAR_LEVELING_CONSOLIDATED \<longrightarrow> consolidated_state st')"
  proof cases
    case 1
    then show ?thesis using s assms(1) by (simp add: live_def)
  next
    case 2
    then show ?thesis using s live1 rest t(1) by (simp add: tail_erased_def)
  next
    case 3
    from consolidate_force_law [OF live1 3(2)] show ?thesis by (simp add: consolidated_state_def)
  qed
  then show "live st' \<and> cache st' = cache st"
    and "status = WEAR_LEVELING_SUCCESS \<Longrightarrow> tail_erased st' \<and> write_address st' = ?a + WS c \<and> img (backing st') = blit ?a v ?im"
    and "status = WEAR_LEVELING_CONSOLIDATED \<Longrightarrow> consolidated_state st'" by auto
qed

lemma append_run_law:
  assumes "live st" "tail_erased st" "\<forall>v\<in>set vs. length v = WS c" "append_run c B vs st = (status, st')"
  shows "live st' \<and> cache st' = cache st \<and>
    (status = WEAR_LEVELING_SUCCESS \<longrightarrow> tail_erased st' \<and> write_address st' = write_address st + length (concat vs)
      \<and> img (backing st') = blit (write_address st) (concat vs) (img (backing st)))
    \<and> (status = WEAR_LEVELING_CONSOLIDATED \<longrightarrow> consolidated_state st')"
  using assms
proof (induction vs arbitrary: st)
  case (Cons v vs)
  obtain u st1 where a: "wear_leveling_append_raw c B v st = (u, st1)" by fastforce
  have v: "length v = WS c" using Cons.prems(3) by simp
  note step = append_raw_law [OF Cons.prems(1,2) v a]
  show ?case
  proof (cases "u = WEAR_LEVELING_SUCCESS")
    case False
    then show ?thesis using step Cons.prems(4) a by (simp add: append_run.simps(2))
  next
    case True
    then have run: "append_run c B vs st1 = (status, st')" using Cons.prems(4) a by (simp add: append_run.simps(2))
    have st1: "tail_erased st1" "write_address st1 = write_address st + WS c"
      "img (backing st1) = blit (write_address st) v (img (backing st))"
      using step(2) [OF True] by auto
    from Cons.IH [OF _ st1(1) _ run] have ih: "live st' \<and> cache st' = cache st1 \<and>
      (status = WEAR_LEVELING_SUCCESS \<longrightarrow> tail_erased st' \<and> write_address st' = write_address st1 + length (concat vs)
        \<and> img (backing st') = blit (write_address st1) (concat vs) (img (backing st1)))
      \<and> (status = WEAR_LEVELING_CONSOLIDATED \<longrightarrow> consolidated_state st')"
      using step(1) Cons.prems(3) by simp
    have len: "length (img (backing st)) = WEAR_LEVELING_BACKING_SIZE c"
      using Cons.prems(1) by (simp add: live_def img_length)
    have "status = WEAR_LEVELING_SUCCESS \<Longrightarrow> write_address st1 + length (concat vs) \<le> WEAR_LEVELING_BACKING_SIZE c"
      using ih by (simp add: tail_erased_def)
    then show ?thesis using ih step(1) st1 v len by (auto simp: blit_append)
  qed
qed (use assms in simp)

text \<open>The log holds \<open>es\<close>, and the next entry goes right after them.\<close>

definition logged :: "'s wear_leveling \<Rightarrow> wl_entry list \<Rightarrow> bool" where
  "logged st es \<longleftrightarrow> log_image c (img (backing st)) es \<and> write_address st = LOG_START c + length (log_bytes c es)"

lemma entry_cells_dvd: "entry_ok c e \<Longrightarrow> WS c dvd length (concat (entry_cells c e))"
proof -
  assume "entry_ok c e"
  then have "map length (entry_cells c e) = map (\<lambda>_. WS c) (entry_cells c e)" by (auto simp: entry_cells_length)
  then have "length (concat (entry_cells c e)) = length (entry_cells c e) * WS c"
    by (simp only: length_concat sum_list_triv of_nat_id)
  then show ?thesis by simp
qed

lemma log_bytes_dvd: "list_all (entry_ok c) es \<Longrightarrow> WS c dvd length (log_bytes c es)"
  by (induction es) (auto simp: entry_cells_dvd simp del: length_concat)

lemma logged_tail_erased: "logged st es \<Longrightarrow> tail_erased st"
proof -
  assume l: "logged st es"
  let ?n = "length (log_bytes c es)"
  have "drop (LOG_START c) (img (backing st)) = log_bytes c es @ replicate (WEAR_LEVELING_BACKING_SIZE c - (LOG_START c + ?n)) 0"
    using l by (simp add: logged_def log_image_def)
  from arg_cong [OF this, of "drop ?n"]
  have "drop (LOG_START c + ?n) (img (backing st)) = replicate (WEAR_LEVELING_BACKING_SIZE c - (LOG_START c + ?n)) 0"
    by (simp add: add.commute add.left_commute)
  moreover have "WS c dvd LOG_START c + ?n"
    using l log_bytes_dvd geometry_facts(3) by (simp only: dvd_add logged_def log_image_def)
  ultimately show ?thesis
    using l by (simp add: tail_erased_def logged_def log_image_def)
qed

lemma consolidated_blit:
  "LOG_START c \<le> a \<Longrightarrow> a + length v \<le> length im \<Longrightarrow> consolidated c (blit a v im) = consolidated c im"
  by (simp add: consolidated_def slice_blit_disjoint)

lemma log_image_append:
  assumes "log_image c im es" "entry_ok c e" "a = LOG_START c + length (log_bytes c es)"
    and "a + length (concat (entry_cells c e)) < WEAR_LEVELING_BACKING_SIZE c"
  shows "log_image c (blit a (concat (entry_cells c e)) im) (es @ [e])"
proof -
  let ?B = "WEAR_LEVELING_BACKING_SIZE c" and ?v = "concat (entry_cells c e)"
  have len: "length im = ?B" and d: "drop (LOG_START c) im = log_bytes c es @ replicate (?B - a) 0"
    using assms(1,3) by (auto simp: log_image_def)
  have "drop (LOG_START c) (blit a ?v im) = take (a - LOG_START c) (drop (LOG_START c) im) @ ?v @ drop (a + length ?v) im"
    using assms(3,4) len by (simp add: blit_def drop_take del: length_concat)
  also have "drop (a + length ?v) im = replicate (?B - (a + length ?v)) 0"
    using arg_cong [OF d, of "drop (length (log_bytes c es) + length ?v)"] assms(3)
    by (simp add: add_ac del: length_concat)
  also have "take (a - LOG_START c) (drop (LOG_START c) im) = log_bytes c es"
    using d assms(3) by (simp del: drop_append)
  finally show ?thesis
    using assms len by (simp add: log_image_def add_ac del: length_concat)
qed

lemma write_raw_step_law:
  assumes "live st" "logged st es" "p \<noteq> []" "a + length p \<le> WEAR_LEVELING_LOGICAL_SIZE c"
    and "write_raw_step c B a p st = (n, status, st')"
  shows "live st' \<and> cache st' = cache st
    \<and> (status = WEAR_LEVELING_SUCCESS \<longrightarrow> (\<exists>es'. logged st' es'
        \<and> replayed c (img (backing st')) es' = blit a (take n p) (replayed c (img (backing st)) es)))
    \<and> (status = WEAR_LEVELING_CONSOLIDATED \<longrightarrow> consolidated_state st')"
proof -
  obtain e where e: "entry_ok c e" "append_run c B (entry_cells c e) st = (status, st')"
    "entry_apply e = blit a (take n p)"
    using write_raw_step_entry [OF assms(3-5)] by blast
  note run = append_run_law [OF assms(1) logged_tail_erased [OF assms(2)] _ e(2)]
  have cells: "\<forall>v\<in>set (entry_cells c e). length v = WS c" using entry_cells_length [OF e(1)] by blast
  have "status = WEAR_LEVELING_SUCCESS \<Longrightarrow> logged st' (es @ [e])
    \<and> replayed c (img (backing st')) (es @ [e]) = blit a (take n p) (replayed c (img (backing st)) es)"
  proof -
    assume "status = WEAR_LEVELING_SUCCESS"
    with run cells have st': "write_address st' = write_address st + length (concat (entry_cells c e))"
      "img (backing st') = blit (write_address st) (concat (entry_cells c e)) (img (backing st))"
      "write_address st' < WEAR_LEVELING_BACKING_SIZE c"
      by (auto simp: tail_erased_def)
    with assms(2) e(1) log_image_append [of "img (backing st)" es e "write_address st"]
    have "logged st' (es @ [e])" by (simp add: logged_def add_ac del: length_concat)
    moreover have "consolidated c (img (backing st')) = consolidated c (img (backing st))"
      using st' assms(2) by (simp add: consolidated_blit logged_def log_image_def del: length_concat)
    ultimately show ?thesis by (simp add: replayed_def e(3))
  qed
  with run cells show ?thesis by blast
qed

lemma write_raw_law:
  assumes "wear_leveling_write_raw c B a p st = (status, st')"
    and "live st" "logged st es" "a + length p \<le> WEAR_LEVELING_LOGICAL_SIZE c"
    and "length (replayed c (img (backing st)) es) = WEAR_LEVELING_LOGICAL_SIZE c"
  shows "live st' \<and> cache st' = cache st
    \<and> (status = WEAR_LEVELING_SUCCESS \<longrightarrow> (\<exists>es'. logged st' es'
        \<and> replayed c (img (backing st')) es' = blit a p (replayed c (img (backing st)) es)))
    \<and> (status = WEAR_LEVELING_CONSOLIDATED \<longrightarrow> consolidated_state st')"
  using assms
proof (induction arbitrary: es rule: write_raw_induct)
  case (finish a st)
  then show ?case by auto
next
  case (stop a p st n status st')
  then show ?case using write_raw_step_law [OF stop(4,5,1) _ stop(2)] by auto
next
  case (step a p st n st1 status st')
  have n: "n \<le> length p" using write_raw_step_progress [OF step(1,2)] by simp
  note s = write_raw_step_law [OF step(5,6,1) _ step(2)]
  obtain es1 where es1: "live st1" "cache st1 = cache st" "logged st1 es1"
    "replayed c (img (backing st1)) es1 = blit a (take n p) (replayed c (img (backing st)) es)"
    using s step.prems by auto
  have "blit (a + n) (drop n p) (replayed c (img (backing st1)) es1) = blit a p (replayed c (img (backing st)) es)"
    using blit_take_drop [of a p "replayed c (img (backing st)) es" n] n step.prems es1(4) by simp
  moreover have "length (replayed c (img (backing st1)) es1) = WEAR_LEVELING_LOGICAL_SIZE c"
    using es1(4) step.prems n by simp
  ultimately show ?case using step.IH [OF es1(1,3)] es1(2) step.prems n by simp
qed

text \<open>
  The invariant of the layer between calls: locked, the cache is what the image stands for.
\<close>

definition persisted :: "'s wear_leveling \<Rightarrow> bool" where
  "persisted st \<longleftrightarrow> ok (backing st) \<and> \<not> unlocked st \<and> \<not> unl (backing st)
     \<and> length (cache st) = WEAR_LEVELING_LOGICAL_SIZE c
     \<and> (\<exists>es. logged st es \<and> replayed c (img (backing st)) es = cache st)"

lemma lock_live:
  assumes "live st" "wear_leveling_lock B st = (ls, st')"
  shows "ls = STATUS_SUCCESS \<and> ok (backing st') \<and> \<not> unlocked st' \<and> \<not> unl (backing st')
    \<and> img (backing st') = img (backing st) \<and> write_address st' = write_address st \<and> cache st' = cache st"
  using assms lock_law [of "backing st"]
  by (auto simp: live_def wear_leveling_lock_def split: prod.splits if_splits)

lemma unlock_live:
  assumes "ok (backing st)" "\<not> unlocked st" "\<not> unl (backing st)" "length (cache st) = WEAR_LEVELING_LOGICAL_SIZE c"
    and "wear_leveling_unlock B st = (ls, st')"
  shows "img (backing st') = img (backing st) \<and> write_address st' = write_address st \<and> cache st' = cache st
    \<and> (ls = STATUS_SUCCESS \<longrightarrow> live st') \<and> (ls \<noteq> STATUS_SUCCESS \<longrightarrow> ls = STATUS_FAILURE)"
  using assms unlock_law [of "backing st"]
  by (auto simp: live_def wear_leveling_unlock_def split: prod.splits if_splits)

theorem write_persisted:
  assumes "persisted st" "a + length v \<le> WEAR_LEVELING_LOGICAL_SIZE c"
    and "wear_leveling_write c B a v st = (status, st')" "status \<noteq> WEAR_LEVELING_FAILED"
  shows "persisted st' \<and> cache st' = blit a v (cache st)"
proof -
  let ?L = "WEAR_LEVELING_LOGICAL_SIZE c"
  obtain es where es: "logged st es" "replayed c (img (backing st)) es = cache st"
    using assms(1) by (auto simp: persisted_def)
  have st: "ok (backing st)" "\<not> unlocked st" "\<not> unl (backing st)" "length (cache st) = ?L"
    using assms(1) by (auto simp: persisted_def)
  have inr: "\<not> wl_out_of_range c a (length v)"
    using assms(2) geometry_facts(5) by (simp add: wl_out_of_range_def)
  show ?thesis
  proof (cases "v = slice a (length v) (cache st)")
    case True
    then have "blit a v (cache st) = cache st" using assms(2) st(4) by (metis blit_slice_id)
    then show ?thesis using assms inr True by (simp add: wear_leveling_write_def)
  next
    case False
    let ?st1 = "st\<lparr>cache := blit a v (cache st)\<rparr>"
    obtain ls st2 where u: "wear_leveling_unlock B ?st1 = (ls, st2)" by fastforce
    have ls: "ls = STATUS_SUCCESS"
      using unlock_live [OF _ _ _ _ u] st assms(2-4) inr False u
      by (auto simp: wear_leveling_write_def Let_def)
    then have st2: "live st2" "img (backing st2) = img (backing st)" "write_address st2 = write_address st"
      "cache st2 = blit a v (cache st)"
      using unlock_live [OF _ _ _ _ u] st assms(2) by auto
    then have log2: "logged st2 es" using es(1) by (simp add: logged_def)
    obtain s3 st3 where w: "wear_leveling_write_raw c B a v st2 = (s3, st3)" by fastforce
    note raw = write_raw_law [OF w st2(1) log2 assms(2)]
    have keep: "wear_leveling_consolidate_if_needed c B st3 = (WEAR_LEVELING_SUCCESS, st3)" if "s3 = WEAR_LEVELING_SUCCESS"
      using raw that st2(2) es(2) st(4) by (auto simp: wear_leveling_consolidate_if_needed_def logged_def log_image_def)
    obtain l5 st5 where lk: "wear_leveling_lock B st3 = (l5, st5)" by fastforce
    have "status = s3 \<and> st' = st5"
      using assms(3,4) inr False u ls w keep lk lock_live [OF _ lk] raw st2(2) es(2) st(4)
      by (cases s3) (auto simp: wear_leveling_write_def Let_def)
    moreover have "s3 \<noteq> WEAR_LEVELING_FAILED \<Longrightarrow> \<exists>es'. logged st3 es' \<and> replayed c (img (backing st3)) es' = cache st3"
      using raw st2 es(2) st(4) by (cases s3) (auto simp: consolidated_state_def logged_def)
    ultimately show ?thesis
      using assms(4) lock_live [OF _ lk] raw st2 es(2) st(4) assms(2)
      by (auto simp: persisted_def logged_def)
  qed
qed

end

end
