(* ===== verification/Wear_Leveling_Boot.thy ===== *)
theory Wear_Leveling_Boot
  imports Wear_Leveling_Recovery
begin

text \<open>
  Power-up of the wear-leveling layer: playing the log of an image back. For a store whose
  operations succeed (\<open>reliable_backing\<close>), \<^verbatim>\<open>wear_leveling_init\<close> on the image of a persisted state
  restores its cache, and every write and erase in range succeeds.
\<close>

section \<open>A store that does not fail\<close>

locale reliable_backing = backing_contract +
  assumes init_ok: "powered s \<Longrightarrow> fst (backing_store_init B s)"
    and unlock_ok: "ok s \<Longrightarrow> \<not> unl s \<Longrightarrow> fst (backing_store_unlock B s)"
    and erase_ok: "ok s \<Longrightarrow> unl s \<Longrightarrow> fst (backing_store_erase B s)"
    and write_ok: "ok s \<Longrightarrow> unl s \<Longrightarrow> a mod WS c = 0 \<Longrightarrow> a + WS c \<le> WEAR_LEVELING_BACKING_SIZE c \<Longrightarrow>
      length v = WS c \<Longrightarrow> slice a (WS c) (img s) = replicate (WS c) 0 \<Longrightarrow> fst (backing_store_write B a v s)"
    and read_ok: "ok s \<Longrightarrow> a mod WS c = 0 \<Longrightarrow> a + WS c \<le> WEAR_LEVELING_BACKING_SIZE c \<Longrightarrow>
      fst (fst (backing_store_read B a s))"
begin

text \<open>\<open>same_image\<close>: a flash state that differs in nothing the contract can see.\<close>

definition same_image :: "'a \<Rightarrow> 'a \<Rightarrow> bool" where
  "same_image s s' \<longleftrightarrow> ok s' \<and> img s' = img s \<and> unl s' = unl s"

lemma same_image_trans: "same_image s t \<Longrightarrow> same_image t u \<Longrightarrow> same_image s u"
  by (simp add: same_image_def)

lemma read_cell:
  assumes "ok s" "WS c dvd a" "a + WS c \<le> WEAR_LEVELING_BACKING_SIZE c"
  shows "\<exists>s'. backing_store_read B a s = ((True, slice a (WS c) (img s)), s') \<and> same_image s s'"
proof -
  obtain r v s' where r: "backing_store_read B a s = ((r, v), s')" by (metis prod.exhaust)
  have "a mod WS c = 0" using assms(2) by simp
  then show ?thesis
    using read_law [OF assms(1) _ assms(3) r] read_ok [OF assms(1) _ assms(3)] r by (auto simp: same_image_def)
qed

lemma read_bulk_cells:
  assumes "ok s" "WS c dvd a" "cells_from (WS c) (img s) a us" "length us = length vs"
  shows "\<exists>s'. backing_store_read_bulk (WS c) B a vs s = ((True, us), s') \<and> same_image s s'"
  using assms
proof (induction us arbitrary: a s vs)
  case Nil
  then show ?case by (auto simp: same_image_def)
next
  case (Cons u us)
  then obtain v vs' where vs: "vs = v # vs'" by (cases vs) auto
  have room: "a + WS c \<le> WEAR_LEVELING_BACKING_SIZE c" using Cons.prems(1,3) by (simp add: img_length)
  obtain s1 where s1: "backing_store_read B a s = ((True, u), s1)" "same_image s s1"
    using read_cell [OF Cons.prems(1,2) room] Cons.prems(3) by auto
  then obtain s' where "backing_store_read_bulk (WS c) B (a + WS c) vs' s1 = ((True, us), s')" "same_image s1 s'"
    using Cons.IH [of s1 "a + WS c" vs'] Cons.prems vs by (auto simp: same_image_def)
  then show ?case using s1 vs same_image_trans by auto
qed

lemma read_more_cells:
  assumes "ok s" "WS c dvd a" "cells_from (WS c) (img s) a (map (\<lambda>k. slice k (WS c) M) ks)"
  shows "\<exists>s'. read_more (WS c) B a ks log s = ((True, a + WS c * length ks, fill (WS c) M ks log), s') \<and> same_image s s'"
  using assms
proof (induction ks arbitrary: a log s)
  case Nil
  then show ?case by (auto simp: same_image_def)
next
  case (Cons k ks)
  have room: "a + WS c \<le> WEAR_LEVELING_BACKING_SIZE c" using Cons.prems(1,3) by (simp add: img_length)
  obtain s1 where s1: "backing_store_read B a s = ((True, slice k (WS c) M), s1)" "same_image s s1"
    using read_cell [OF Cons.prems(1,2) room] Cons.prems(3) by auto
  then obtain s' where "read_more (WS c) B (a + WS c) ks (blit k (slice k (WS c) M) log) s1
      = ((True, a + WS c + WS c * length ks, fill (WS c) M ks (blit k (slice k (WS c) M) log)), s')" "same_image s1 s'"
    using Cons.IH [of s1 "a + WS c" "blit k (slice k (WS c) M) log"] Cons.prems by (auto simp: same_image_def)
  then show ?case using s1 same_image_trans by (auto simp: algebra_simps)
qed

lemma playback_multibyte_entry:
  assumes "ok (backing st)" "entry_ok c (Multi a v)" "WS c dvd adr" "length stk = 8"
    and "cells_from (WS c) (img (backing st)) adr (entry_cells c (Multi a v))"
  shows "\<exists>s'. playback_entry c B (adr + WS c) (blit 0 (hd (entry_cells c (Multi a v))) stk) st =
      (True, adr + length (concat (entry_cells c (Multi a v))), st\<lparr>cache := blit a v (cache st), backing := s'\<rparr>)
      \<and> same_image (backing st) s'"
proof -
  let ?w = "BACKING_STORE_WRITE_SIZE c" and ?l = "length v"
  define M where "M = blit 3 v (LOG_ENTRY_MAKE_MULTIBYTE (word_of_nat a) ?l)"
  define ho where "ho = (if ?w = WS2 then [2::nat] else [])"
  define ro where "ro = multibyte_rest_offsets ?w ?l"
  define log0 where "log0 = blit 0 (slice 0 (WS c) M) stk"
  define log1 where "log1 = fill (WS c) M ho log0"
  define log2 where "log2 = fill (WS c) M ro log1"
  have v: "0 < ?l" "?l \<le> 5" "a < 2 ^ 19" "a + ?l \<le> WEAR_LEVELING_LOGICAL_SIZE c"
    using assms(2) geometry_facts(5) by (cases v; fastforce)+
  have w8: "WS c \<le> 8" by (cases ?w) simp_all
  note M = multibyte_image [OF v(1-3), folded M_def]
  note agree = fill_agrees [OF M(1) assms(4) v(1,2), of ?w, folded ho_def ro_def log0_def log1_def log2_def]
  have cells: "entry_cells c (Multi a v) = slice 0 (WS c) M # map (\<lambda>k. slice k (WS c) M) (ho @ ro)"
    using multibyte_cells_offsets [OF M(1)] by (simp add: M_def ho_def ro_def)
  have len: "length log1 = 8" "length log2 = 8"
    unfolding log2_def log1_def log0_def ho_def ro_def using M(1) assms(4) w8 offsets_bound [of _ ?w ?l]
    by (auto intro!: fill_length)
  let ?a1 = "adr + WS c + WS c * length ho"
  let ?a2 = "?a1 + WS c * length ro"
  have cf: "cells_from (WS c) (img (backing st)) (adr + WS c) (map (\<lambda>k. slice k (WS c) M) ho)"
    "cells_from (WS c) (img (backing st)) ?a1 (map (\<lambda>k. slice k (WS c) M) ro)"
    using assms(5) unfolding cells by (simp_all add: cells_from_append)
  have dvd: "WS c dvd adr + WS c" "WS c dvd ?a1" using assms(3) by simp_all
  obtain s1 where s1: "read_more (WS c) B (adr + WS c) ho log0 (backing st) = ((True, ?a1, log1), s1)"
    "same_image (backing st) s1"
    using read_more_cells [OF assms(1) dvd(1) cf(1)] unfolding log1_def by blast
  obtain s2 where s2: "read_more (WS c) B ?a1 ro log1 s1 = ((True, ?a2, log2), s2)" "same_image s1 s2"
    using read_more_cells [OF _ dvd(2), of s1 M ro] cf(2) s1(2) unfolding log2_def by (auto simp: same_image_def)
  have ty: "LOG_ENTRY_GET_TYPE log0 = LOG_ENTRY_TYPE_MULTIBYTE"
    using M(1,5) assms(4) by (cases ?w) (simp_all add: log0_def LOG_ENTRY_GET_TYPE_def blit_def nth_append slice_def)
  have "slice 3 ?l log2 = v"
    using arg_cong [OF agree(2), of "drop 3"] M(2) by (simp add: slice_def drop_take log2_def)
  then have "playback_multibyte c B (adr + WS c) log0 st = (True, ?a2, st\<lparr>cache := blit a v (cache st), backing := s2\<rparr>)"
    using s1 s2 header_agrees [OF agree(1)] M len v unfolding playback_multibyte_def ho_def [symmetric]
    by (simp add: Let_def ro_def)
  moreover have "hd (entry_cells c (Multi a v)) = slice 0 (WS c) M" unfolding cells by simp
  moreover have "adr + length (concat (entry_cells c (Multi a v))) = ?a2"
    using multibyte_cells_total [OF M(1), of ?w ?l] unfolding M_def ho_def ro_def entry_cells.simps by linarith
  moreover have "playback_entry c B (adr + WS c) log0 st = playback_multibyte c B (adr + WS c) log0 st"
    by (simp add: playback_entry_def ty)
  ultimately show ?thesis unfolding log0_def using s1(2) s2(2) same_image_trans by metis
qed

lemma playback_entry_cells:
  assumes "ok (backing st)" "entry_ok c e" "WS c dvd adr" "length stk = 8"
    and "cells_from (WS c) (img (backing st)) adr (entry_cells c e)"
    and "length (cache st) = WEAR_LEVELING_LOGICAL_SIZE c"
  shows "\<exists>s'. playback_entry c B (adr + WS c) (blit 0 (hd (entry_cells c e)) stk) st =
      (True, adr + length (concat (entry_cells c e)), st\<lparr>cache := entry_apply e (cache st), backing := s'\<rparr>)
      \<and> same_image (backing st) s'"
proof (cases e)
  case (Multi a v)
  then show ?thesis using playback_multibyte_entry assms by simp
next
  case (Opt64 a v)
  let ?M = "LOG_ENTRY_MAKE_OPTIMIZED_64 (word_of_nat a) v"
  let ?log = "blit 0 (slice 0 2 ?M) stk"
  have a: "a < 64" "unat (word_of_nat a :: u32) = a" "BACKING_STORE_WRITE_SIZE c = WS2" "a < WEAR_LEVELING_LOGICAL_SIZE c"
    using assms(2) Opt64 by (auto simp: unat_of_nat)
  have nth: "?log ! 0 = ?M ! 0" "?log ! Suc 0 = ?M ! Suc 0"
    using assms(4) by (simp_all add: blit_def slice_def nth_append)
  then have "LOG_ENTRY_GET_TYPE ?log = LOG_ENTRY_TYPE_OPTIMIZED_64" "unat (LOG_ENTRY_OPTIMIZED_64_GET_ADDRESS ?log) = a"
    "LOG_ENTRY_OPTIMIZED_64_GET_VALUE ?log = v"
    using optimized_64_get_type [of "word_of_nat a" v] optimized_64_get_address [of "word_of_nat a" v] a
      optimized_64_get_value [of "word_of_nat a" v]
    by (simp_all add: LOG_ENTRY_GET_TYPE_def LOG_ENTRY_OPTIMIZED_64_GET_ADDRESS_def LOG_ENTRY_OPTIMIZED_64_GET_VALUE_def)
  then have "playback_entry c B (adr + WS c) ?log st = (True, adr + 2, st\<lparr>cache := blit a [v] (cache st), backing := backing st\<rparr>)"
    using a assms(6) by (simp add: playback_entry_def blit_singleton)
  moreover have "hd (entry_cells c e) = slice 0 2 ?M" "length (concat (entry_cells c e)) = 2" using Opt64 by simp_all
  ultimately show ?thesis using Opt64 assms(1) by (intro exI [of _ "backing st"]) (simp add: same_image_def)
next
  case (Word01 a w)
  let ?M = "LOG_ENTRY_MAKE_WORD_01 (word_of_nat a) w"
  let ?log = "blit 0 (slice 0 2 ?M) stk"
  have a: "a < 16384" "even a" "unat (word_of_nat a :: u32) = a" "BACKING_STORE_WRITE_SIZE c = WS2" "w = 0 \<or> w = 1"
    "a + 2 \<le> WEAR_LEVELING_LOGICAL_SIZE c"
    using assms(2) Word01 by (auto simp: unat_of_nat)
  have nth: "?log ! 0 = ?M ! 0" "?log ! Suc 0 = ?M ! Suc 0"
    using assms(4) by (simp_all add: blit_def slice_def nth_append)
  then have log: "LOG_ENTRY_GET_TYPE ?log = LOG_ENTRY_TYPE_WORD_01" "unat (LOG_ENTRY_WORD_01_GET_ADDRESS ?log) = a"
    "LOG_ENTRY_WORD_01_GET_VALUE ?log = ucast w"
    using word_01_get_type [of "word_of_nat a" w] word_01_get_address [of "word_of_nat a" w] a
      word_01_get_value [of w "word_of_nat a"]
    by (simp_all add: LOG_ENTRY_GET_TYPE_def LOG_ENTRY_WORD_01_GET_ADDRESS_def LOG_ENTRY_WORD_01_GET_VALUE_def)
  have "blit a (le16 w) (cache st) = (cache st)[a := ucast w, a + 1 := 0]"
    using a assms(6) by (auto intro!: nth_equalityI simp: nth_blit le16_def nth_list_update nth_Cons')
  then have "playback_entry c B (adr + WS c) ?log st = (True, adr + 2, st\<lparr>cache := blit a (le16 w) (cache st), backing := backing st\<rparr>)"
    using a assms(6) log by (simp add: playback_entry_def)
  moreover have "hd (entry_cells c e) = slice 0 2 ?M" "length (concat (entry_cells c e)) = 2" using Word01 by simp_all
  ultimately show ?thesis using Word01 assms(1) by (intro exI [of _ "backing st"]) (simp add: same_image_def)
qed

lemma entry_first_cell: "entry_ok c e \<Longrightarrow> \<not> list_all (\<lambda>b. b = 0) (hd (entry_cells c e))"
proof (cases e)
  case (Multi a v)
  assume "entry_ok c e"
  then have v: "0 < length v" "length v \<le> 5" "a < 2 ^ 19" using Multi geometry_facts(5) by (cases v; fastforce)+
  note M = multibyte_image [OF v]
  have "hd (entry_cells c e) ! 0 = blit 3 v (LOG_ENTRY_MAKE_MULTIBYTE (word_of_nat a) (length v)) ! 0"
    "0 < length (hd (entry_cells c e))"
    unfolding Multi entry_cells.simps multibyte_cells_offsets [OF M(1)] using M(1)
    by (cases "BACKING_STORE_WRITE_SIZE c"; simp)+
  then show ?thesis using M(6) by (auto simp: list_all_length)
qed (auto simp: list_all_length log_entry_first_byte intro: exI [of _ 0])

lemma playback_loop_log:
  assumes "list_all (entry_ok c) es" "ok (backing st)" "WS c dvd adr" "length stk = 8"
    and "length (cache st) = WEAR_LEVELING_LOGICAL_SIZE c"
    and "adr + length (log_bytes c es) < WEAR_LEVELING_BACKING_SIZE c"
    and "drop adr (img (backing st)) = log_bytes c es @ replicate (WEAR_LEVELING_BACKING_SIZE c - (adr + length (log_bytes c es))) 0"
  shows "\<exists>s'. playback_loop c B stk adr st = (WEAR_LEVELING_SUCCESS, adr + length (log_bytes c es),
      st\<lparr>cache := fold entry_apply es (cache st), backing := s'\<rparr>) \<and> same_image (backing st) s'"
  using assms
proof (induction es arbitrary: adr st)
  case Nil
  have room: "adr + WS c \<le> WEAR_LEVELING_BACKING_SIZE c" using aligned_room Nil.prems by simp
  obtain s' where s': "backing_store_read B adr (backing st) = ((True, slice adr (WS c) (img (backing st))), s')"
    "same_image (backing st) s'"
    using read_cell [OF Nil.prems(2,3) room] by blast
  have "slice adr (WS c) (img (backing st)) = replicate (WS c) 0"
    using Nil.prems(7) room by (simp add: slice_def take_replicate_le)
  then show ?case using s' Nil.prems(6) by (subst playback_loop.simps) (auto simp: list_all_length)
next
  case (Cons e es)
  let ?im = "img (backing st)" and ?n = "length (concat (entry_cells c e))"
  have e: "entry_ok c e" "list_all (entry_ok c) es" using Cons.prems(1) by simp_all
  have len: "length ?im = WEAR_LEVELING_BACKING_SIZE c" using Cons.prems(2) by (rule img_length)
  have fits: "adr + ?n \<le> length ?im" using Cons.prems(6) len by (simp del: length_concat)
  have "slice adr ?n ?im = concat (entry_cells c e)"
    using Cons.prems(7) by (simp add: slice_def del: length_concat)
  then have cf: "cells_from (WS c) ?im adr (entry_cells c e)"
    using cells_from_concat fits entry_cells_length [OF e(1)] by blast
  then have room: "adr + WS c \<le> WEAR_LEVELING_BACKING_SIZE c" and first: "slice adr (WS c) ?im = hd (entry_cells c e)"
    using entry_cells_nonempty [of c e] len by (cases "entry_cells c e"; simp)+
  obtain s1 where s1: "backing_store_read B adr (backing st) = ((True, hd (entry_cells c e)), s1)"
    "same_image (backing st) s1"
    using read_cell [OF Cons.prems(2,3) room] first by auto
  then obtain s2 where s2: "playback_entry c B (adr + WS c) (blit 0 (hd (entry_cells c e)) stk) (st\<lparr>backing := s1\<rparr>) =
      (True, adr + ?n, st\<lparr>cache := entry_apply e (cache st), backing := s2\<rparr>)" "same_image s1 s2"
    using playback_entry_cells [OF _ e(1) Cons.prems(3,4), of "st\<lparr>backing := s1\<rparr>"] cf Cons.prems(5)
    by (auto simp: same_image_def)
  let ?st2 = "st\<lparr>cache := entry_apply e (cache st), backing := s2\<rparr>"
  have s12: "same_image (backing st) s2" using s1(2) s2(2) same_image_trans by blast
  have "drop (adr + ?n) ?im = log_bytes c es @ replicate (WEAR_LEVELING_BACKING_SIZE c - (adr + ?n + length (log_bytes c es))) 0"
    using arg_cong [OF Cons.prems(7), of "drop ?n"] by (simp add: add_ac del: length_concat)
  then have "\<exists>s'. playback_loop c B stk (adr + ?n) ?st2 = (WEAR_LEVELING_SUCCESS, adr + ?n + length (log_bytes c es),
      ?st2\<lparr>cache := fold entry_apply es (cache ?st2), backing := s'\<rparr>) \<and> same_image (backing ?st2) s'"
    using Cons.prems(3-6) s12 e entry_cells_dvd [OF e(1)]
    by (intro Cons.IH) (auto simp: same_image_def add_ac simp del: length_concat)
  moreover have "adr < WEAR_LEVELING_BACKING_SIZE c" using room WS_pos [of c] by linarith
  ultimately show ?case
    using s1 s2 s12 entry_first_cell [OF e(1)] same_image_trans [OF s12]
    by (subst playback_loop.simps) (auto simp: add_ac simp del: length_concat)
qed

lemma read_bytes:
  assumes "ok s" "WS c dvd a" "WS c dvd n" "a + n \<le> WEAR_LEVELING_BACKING_SIZE c" "length xs = n"
  shows "\<exists>s'. backing_store_read_bulk (WS c) B a (chunks (WS c) xs) s = ((True, chunks (WS c) (slice a n (img s))), s')
    \<and> same_image s s'"
proof -
  let ?us = "chunks (WS c) (slice a n (img s))"
  have len: "length (slice a n (img s)) = n" using img_length [OF assms(1)] assms(4) by simp
  have "cells_from (WS c) (img s) a ?us"
  proof (rule cells_from_concat)
    show "\<forall>v\<in>set ?us. length v = WS c" using chunks_cell_length [OF WS_pos] len assms(3) by metis
    show "slice a (length (concat ?us)) (img s) = concat ?us" by (simp only: concat_chunks [OF WS_pos] len)
    show "a + length (concat ?us) \<le> length (img s)"
      by (simp only: concat_chunks [OF WS_pos] len img_length [OF assms(1)] assms(4))
  qed
  moreover have "WS c * length ?us = WS c * length (chunks (WS c) xs)"
    using length_chunks_concat assms len by metis
  ultimately show ?thesis using read_bulk_cells [OF assms(1,2)] WS_pos [of c] by simp
qed

lemma read_consolidated_image:
  assumes "ok (backing st)" "length (cache st) = WEAR_LEVELING_LOGICAL_SIZE c" "length stk = 8"
    and "write_address st = LOG_START c"
  shows "\<exists>s'. wear_leveling_read_consolidated c B stk st
      = (WEAR_LEVELING_SUCCESS, st\<lparr>cache := consolidated c (img (backing st)), backing := s'\<rparr>)
      \<and> same_image (backing st) s'"
proof -
  let ?L = "WEAR_LEVELING_LOGICAL_SIZE c" and ?im = "img (backing st)"
  note g = geometry_facts WS_dvd_8 [of c]
  obtain s1 where s1: "backing_store_read_bulk (WS c) B 0 (chunks (WS c) (cache st)) (backing st)
      = ((True, chunks (WS c) (slice 0 ?L ?im)), s1)" "same_image (backing st) s1"
    using read_bytes [OF assms(1), of 0 ?L "cache st"] assms(2) g by auto
  obtain s2 where s2: "backing_store_read_bulk (WS c) B ?L (chunks (WS c) (take 8 stk)) s1
      = ((True, chunks (WS c) (slice ?L 8 ?im)), s2)" "same_image s1 s2"
    using read_bytes [of s1 ?L 8 "take 8 stk"] s1(2) assms(3) g by (auto simp: same_image_def)
  have "same_image (backing st) s2" using s1(2) s2(2) same_image_trans by blast
  then show ?thesis
    using s1(1) s2(1) assms(4)
    by (intro exI [of _ s2]) (simp add: wear_leveling_read_consolidated_def consolidated_def Let_def wear_leveling_clear_cache_def)
qed

text \<open>Power-up on an image that holds a log, whatever RAM held before.\<close>

lemma length_consolidated:
  "length im = WEAR_LEVELING_BACKING_SIZE c \<Longrightarrow> length (consolidated c im) = WEAR_LEVELING_LOGICAL_SIZE c"
  using geometry_facts(4) by (simp add: consolidated_def Let_def)

lemma length_replayed:
  "log_image c im es \<Longrightarrow> length (replayed c im es) = WEAR_LEVELING_LOGICAL_SIZE c"
proof -
  assume a: "log_image c im es"
  have "list_all (entry_ok c) es \<Longrightarrow> length xs = WEAR_LEVELING_LOGICAL_SIZE c \<Longrightarrow>
    length (fold entry_apply es xs) = WEAR_LEVELING_LOGICAL_SIZE c" for xs
    by (induction es arbitrary: xs) simp_all
  then show ?thesis using a length_consolidated by (simp add: replayed_def log_image_def)
qed

theorem init_replays:
  assumes "powered (backing st0)" "log_image c (img (backing st0)) es" "\<not> unlocked st0" "length stk = 8"
  shows "\<exists>st'. wear_leveling_init c B stk st0 = (WEAR_LEVELING_SUCCESS, st') \<and> persisted st'
    \<and> cache st' = replayed c (img (backing st0)) es"
proof -
  let ?L = "WEAR_LEVELING_LOGICAL_SIZE c"
  obtain s1 where s1: "backing_store_init B (backing st0) = (True, s1)" "ok s1" "\<not> unl s1" "img s1 = img (backing st0)"
    using init_law [OF assms(1)] init_ok [OF assms(1)] by (metis prod.collapse)
  let ?st1 = "st0\<lparr>cache := replicate ?L 0, write_address := LOG_START c, backing := s1\<rparr>"
  obtain s2 where s2: "wear_leveling_read_consolidated c B stk ?st1
      = (WEAR_LEVELING_SUCCESS, ?st1\<lparr>cache := consolidated c (img s1), backing := s2\<rparr>)" "same_image s1 s2"
    using read_consolidated_image [of ?st1 stk] s1(2) assms(4) by auto
  let ?st2 = "?st1\<lparr>cache := consolidated c (img s1), backing := s2\<rparr>"
  obtain s3 where s3: "playback_loop c B stk (LOG_START c) ?st2 = (WEAR_LEVELING_SUCCESS, LOG_START c + length (log_bytes c es),
      ?st2\<lparr>cache := fold entry_apply es (cache ?st2), backing := s3\<rparr>)" "same_image s2 s3"
    using playback_loop_log [of es ?st2 "LOG_START c" stk] s1 s2(2) geometry_facts(3) assms(2,4)
      length_consolidated [OF img_length [OF s1(2)]]
    by (auto simp: log_image_def same_image_def)
  let ?st3 = "?st2\<lparr>cache := fold entry_apply es (cache ?st2), backing := s3, write_address := LOG_START c + length (log_bytes c es)\<rparr>"
  have "wear_leveling_init c B stk st0 = (WEAR_LEVELING_SUCCESS, ?st3)"
    using s1(1) s2(1) s3(1) assms(2)
    by (simp add: wear_leveling_init_def wear_leveling_clear_cache_def wear_leveling_playback_log_def
        wear_leveling_consolidate_if_needed_def log_image_def)
  moreover have c3: "cache ?st3 = replayed c (img (backing st0)) es" using s1(4) by (simp add: replayed_def)
  moreover have "persisted ?st3"
    using c3 s1 s2(2) s3(2) assms(2,3) length_replayed [OF assms(2)]
    by (auto simp: persisted_def logged_def same_image_def)
  ultimately show ?thesis by blast
qed

theorem init_restores:
  assumes "persisted st" "powered (backing st0)" "img (backing st0) = img (backing st)"
    and "\<not> unlocked st0" "length stk = 8"
  shows "\<exists>st'. wear_leveling_init c B stk st0 = (WEAR_LEVELING_SUCCESS, st') \<and> persisted st' \<and> cache st' = cache st"
proof -
  obtain es where "log_image c (img (backing st)) es" "replayed c (img (backing st)) es = cache st"
    using assms(1) by (auto simp: persisted_def logged_def)
  then show ?thesis using init_replays [OF assms(2) _ assms(4,5), of es] assms(3) by simp
qed

text \<open>An erased flash holds an empty log and reads as all zeros.\<close>

lemma blank_image:
  assumes "im = replicate (WEAR_LEVELING_BACKING_SIZE c) 0"
  shows "log_image c im []" "replayed c im [] = replicate (WEAR_LEVELING_LOGICAL_SIZE c) 0"
  using geometry_facts(4) assms by (simp_all add: log_image_def replayed_def consolidated_def)

text \<open>With a store that does not fail, no write of the layer fails.\<close>

lemma write_bulk_ok:
  assumes "ok s" "unl s" "WS c dvd a" "a + WS c * length vs \<le> WEAR_LEVELING_BACKING_SIZE c"
    and "\<forall>v\<in>set vs. length v = WS c"
    and "slice a (WS c * length vs) (img s) = replicate (WS c * length vs) 0"
  shows "fst (backing_store_write_bulk (WS c) B a vs s)"
  using assms
proof (induction vs arbitrary: a s)
  case (Cons v vs)
  have len: "length (img s) = WEAR_LEVELING_BACKING_SIZE c" using Cons.prems(1) by (rule img_length)
  have z: "slice a (WS c) (img s) = replicate (WS c) 0" 
    "slice (a + WS c) (WS c * length vs) (img s) = replicate (WS c * length vs) 0"
    using arg_cong [OF Cons.prems(6), of "slice 0 (WS c)"] Cons.prems(4) len
      arg_cong [OF Cons.prems(6), of "slice (WS c) (WS c * length vs)"] by (simp_all add: slice_slice)
  have "fst (backing_store_write B a v s)"
    using write_ok [OF Cons.prems(1,2) _ _ _ z(1)] Cons.prems(3-5) by simp
  then obtain s1 where w: "backing_store_write B a v s = (True, s1)" by (metis prod.collapse)
  then have s1: "ok s1" "unl s1" "img s1 = blit a v (img s)"
    using write_law [OF Cons.prems(1,2) _ _ _ z(1) w] Cons.prems(3-5) by auto
  moreover have "slice (a + WS c) (WS c * length vs) (img s1) = replicate (WS c * length vs) 0"
    using s1(3) z(2) Cons.prems(4,5) len by (simp add: slice_blit_disjoint)
  ultimately have "fst (backing_store_write_bulk (WS c) B (a + WS c) vs s1)"
    using Cons.IH [of s1 "a + WS c"] Cons.prems(3-5) by simp
  then show ?case using w by simp
qed simp

lemma write_bytes_ok:
  assumes "ok s" "unl s" "WS c dvd a" "WS c dvd length xs" "a + length xs \<le> WEAR_LEVELING_BACKING_SIZE c"
    and "slice a (length xs) (img s) = replicate (length xs) 0"
  shows "fst (backing_store_write_bulk (WS c) B a (chunks (WS c) xs) s)"
  using write_bulk_ok [OF assms(1-3), of "chunks (WS c) xs"] assms(4-6)
  by (auto simp: length_chunks_concat chunks_cell_length)

lemma consolidate_force_ok:
  assumes "live st"
  shows "fst (wear_leveling_consolidate_force c B st) = WEAR_LEVELING_CONSOLIDATED"
proof -
  let ?L = "WEAR_LEVELING_LOGICAL_SIZE c" and ?B = "WEAR_LEVELING_BACKING_SIZE c"
  let ?sum = "le64 (fnv_64a_buf (cache st) FNV1A_64_INIT)"
  note g = geometry_facts WS_dvd_8 [of c]
  have st: "ok (backing st)" "unlocked st" "unl (backing st)" "length (cache st) = ?L"
    using assms by (auto simp: live_def)
  obtain s where e: "backing_store_erase B (backing st) = (True, s)"
    using erase_ok [OF st(1,3)] by (metis prod.collapse)
  have s: "ok s" "unl s" "img s = replicate ?B 0" using erase_law [OF st(1,3) e] by auto
  have "fst (backing_store_write_bulk (WS c) B 0 (chunks (WS c) (cache st)) s)"
    using write_bytes_ok [OF s(1,2), of 0 "cache st"] s(3) st(4) g by simp
  then obtain s1 where w1: "backing_store_write_bulk (WS c) B 0 (chunks (WS c) (cache st)) s = (True, s1)"
    by (metis prod.collapse)
  have s1: "ok s1" "unl s1" "img s1 = blit 0 (cache st) (replicate ?B 0)"
    using write_bytes_law [OF s(1,2) _ _ _ _ w1] s(3) st(4) g by auto
  have "slice ?L 8 (img s1) = replicate 8 0" using s1(3) g st(4) by (simp add: slice_blit_disjoint)
  then have "fst (backing_store_write_bulk (WS c) B ?L (chunks (WS c) ?sum) s1)"
    using write_bytes_ok [OF s1(1,2), of ?L ?sum] g by simp
  then show ?thesis
    using e w1 st(2)
    by (auto simp: wear_leveling_consolidate_force_def wear_leveling_write_consolidated_def wear_leveling_unlock_def
        Let_def split: prod.splits)
qed

lemma append_raw_ok:
  assumes "live st" "tail_erased st" "length v = WS c"
  shows "fst (wear_leveling_append_raw c B v st) \<noteq> WEAR_LEVELING_FAILED"
proof -
  let ?a = "write_address st" and ?B = "WEAR_LEVELING_BACKING_SIZE c"
  have st: "ok (backing st)" "unl (backing st)" and t: "WS c dvd ?a" "?a < ?B"
    "drop ?a (img (backing st)) = replicate (?B - ?a) 0"
    using assms(1,2) by (auto simp: live_def tail_erased_def)
  have room: "?a + WS c \<le> ?B" using aligned_room t by simp
  have z: "slice ?a (WS c) (img (backing st)) = replicate (WS c) 0"
    using t(3) room by (simp add: slice_def take_replicate_le)
  obtain s where w: "backing_store_write B ?a v (backing st) = (True, s)"
    using write_ok [OF st _ room assms(3) z] t(1) by (metis dvd_imp_mod_0 prod.collapse)
  have "ok s" "unl s" using write_law [OF st _ room assms(3) z w] t(1) by auto
  then have "live (st\<lparr>backing := s, write_address := ?a + WS c\<rparr>)" using assms(1) by (simp add: live_def)
  from consolidate_force_ok [OF this] show ?thesis
    using w by (simp add: wear_leveling_append_raw_def wear_leveling_consolidate_if_needed_def Let_def)
qed

lemma append_run_ok:
  assumes "live st" "tail_erased st" "\<forall>v\<in>set vs. length v = WS c"
  shows "fst (append_run c B vs st) \<noteq> WEAR_LEVELING_FAILED"
  using assms
proof (induction vs arbitrary: st)
  case (Cons v vs)
  obtain u st1 where a: "wear_leveling_append_raw c B v st = (u, st1)" by fastforce
  then have "u \<noteq> WEAR_LEVELING_FAILED" using append_raw_ok [OF Cons.prems(1,2), of v] Cons.prems(3) by simp
  moreover have "u = WEAR_LEVELING_SUCCESS \<Longrightarrow> live st1 \<and> tail_erased st1"
    using append_raw_law [OF Cons.prems(1,2) _ a] Cons.prems(3) by simp
  ultimately show ?case using Cons.IH Cons.prems(3) a by (auto simp: append_run.simps(2))
qed simp

lemma write_raw_ok:
  assumes "wear_leveling_write_raw c B a p st = (status, st')"
    and "live st" "logged st es" "a + length p \<le> WEAR_LEVELING_LOGICAL_SIZE c"
  shows "status \<noteq> WEAR_LEVELING_FAILED"
  using assms
proof (induction arbitrary: es rule: write_raw_induct)
  case (finish a st)
  then show ?case by simp
next
  case (stop a p st n status st')
  then show ?case
    using write_raw_step_entry [OF stop(1) _ stop(2)] append_run_ok [OF _ logged_tail_erased] entry_cells_length
    by (metis fst_conv)
next
  case (step a p st n st1 status st')
  have "n \<le> length p" using write_raw_step_progress [OF step(1,2)] by simp
  moreover obtain es1 where "live st1" "logged st1 es1"
    using write_raw_step_law [OF step(5,6,1) _ step(2)] step.prems by auto
  ultimately show ?case using step.IH step.prems by simp
qed

theorem write_succeeds:
  assumes "persisted st" "a + length v \<le> WEAR_LEVELING_LOGICAL_SIZE c"
  shows "fst (wear_leveling_write c B a v st) \<noteq> WEAR_LEVELING_FAILED"
proof (cases "v = slice a (length v) (cache st)")
  case True
  then show ?thesis using assms geometry_facts(5) by (simp add: wear_leveling_write_def wl_out_of_range_def)
next
  case False
  let ?st1 = "st\<lparr>cache := blit a v (cache st)\<rparr>"
  have inr: "\<not> wl_out_of_range c a (length v)" using assms(2) geometry_facts(5) by (simp add: wl_out_of_range_def)
  have st: "ok (backing st)" "\<not> unlocked st" "\<not> unl (backing st)" "length (cache st) = WEAR_LEVELING_LOGICAL_SIZE c"
    using assms(1) by (auto simp: persisted_def)
  obtain es where es: "logged st es" "replayed c (img (backing st)) es = cache st"
    using assms(1) by (auto simp: persisted_def)
  obtain s where "backing_store_unlock B (backing st) = (True, s)"
    using unlock_ok [OF st(1,3)] by (metis prod.collapse)
  then obtain st2 where u: "wear_leveling_unlock B ?st1 = (STATUS_SUCCESS, st2)"
    using st(2) by (simp add: wear_leveling_unlock_def)
  have st2: "live st2" "logged st2 es" "img (backing st2) = img (backing st)"
    using unlock_live [OF _ _ _ _ u] st assms(2) es(1) by (auto simp: logged_def)
  obtain s3 st3 where w: "wear_leveling_write_raw c B a v st2 = (s3, st3)" by fastforce
  note raw = write_raw_law [OF w st2(1,2) assms(2)] and s3 = write_raw_ok [OF w st2(1,2) assms(2)]
  obtain l5 st5 where lk: "wear_leveling_lock B st3 = (l5, st5)" by fastforce
  have "l5 = STATUS_SUCCESS" using lock_live [OF _ lk] raw st2(3) es(2) st(4) by simp
  moreover have "s3 = WEAR_LEVELING_SUCCESS \<Longrightarrow> wear_leveling_consolidate_if_needed c B st3 = (WEAR_LEVELING_SUCCESS, st3)"
    using raw st2(3) es(2) st(4) by (auto simp: wear_leveling_consolidate_if_needed_def logged_def log_image_def)
  ultimately show ?thesis
    using inr False u w s3 lk by (cases s3) (simp_all add: wear_leveling_write_def Let_def)
qed

text \<open>A run of writes, in order.\<close>

lemma write_run_persisted:
  assumes "persisted st" "\<forall>(a, v)\<in>set ws. a + length v \<le> WEAR_LEVELING_LOGICAL_SIZE c"
  shows "persisted (fold (\<lambda>(a, v) st. snd (wear_leveling_write c B a v st)) ws st) \<and>
    cache (fold (\<lambda>(a, v) st. snd (wear_leveling_write c B a v st)) ws st) = fold (\<lambda>(a, v). blit a v) ws (cache st)"
  using assms
proof (induction ws arbitrary: st)
  case (Cons av ws)
  obtain a v where av: "av = (a, v)" by fastforce
  then have "a + length v \<le> WEAR_LEVELING_LOGICAL_SIZE c" using Cons.prems(2) by simp
  then have "persisted (snd (wear_leveling_write c B a v st)) \<and> cache (snd (wear_leveling_write c B a v st)) = blit a v (cache st)"
    using write_persisted [OF Cons.prems(1) _ prod.collapse [symmetric]] write_succeeds [OF Cons.prems(1)] by simp
  then show ?case using Cons.IH Cons.prems(2) av by simp
qed simp

theorem erase_persisted:
  assumes "persisted st" "wear_leveling_erase c B st = (status, st')"
  shows "status = WEAR_LEVELING_SUCCESS \<and> persisted st' \<and> cache st' = replicate (WEAR_LEVELING_LOGICAL_SIZE c) 0"
proof -
  have st: "ok (backing st)" "\<not> unlocked st" "\<not> unl (backing st)" "length (cache st) = WEAR_LEVELING_LOGICAL_SIZE c"
    using assms(1) by (auto simp: persisted_def)
  obtain s where "backing_store_unlock B (backing st) = (True, s)"
    using unlock_ok [OF st(1,3)] by (metis prod.collapse)
  then obtain st1 where u: "wear_leveling_unlock B st = (STATUS_SUCCESS, st1)"
    using st(2) by (simp add: wear_leveling_unlock_def)
  then have l1: "live st1" using unlock_live [OF st] by auto
  then obtain s2 where e: "backing_store_erase B (backing st1) = (True, s2)"
    using erase_ok unfolding live_def by (metis prod.collapse)
  let ?st2 = "wear_leveling_clear_cache c (st1\<lparr>backing := s2\<rparr>)"
  have s2: "ok s2" "unl s2" "img s2 = replicate (WEAR_LEVELING_BACKING_SIZE c) 0"
    using erase_law [OF _ _ e] l1 by (auto simp: live_def)
  then have l2: "live ?st2" using l1 by (simp add: live_def wear_leveling_clear_cache_def)
  obtain l3 st3 where lk: "wear_leveling_lock B ?st2 = (l3, st3)" by fastforce
  note l3 = lock_live [OF l2 lk]
  have "status = WEAR_LEVELING_SUCCESS" "st' = st3"
    using assms(2) u e lk l3 by (auto simp: wear_leveling_erase_def Let_def)
  then show ?thesis
    using l3 blank_image [OF s2(3)] s2(3)
    by (auto simp: persisted_def logged_def wear_leveling_clear_cache_def intro!: exI [of _ "[]"])
qed

end

text \<open>A wear-leveled store that does not fail is an EEPROM of the logical size.\<close>

sublocale reliable_backing \<subseteq> wl_eeprom: eeprom_device
  "wl_eeprom_driver c B" "WEAR_LEVELING_LOGICAL_SIZE c" cache persisted
proof
  show "WEAR_LEVELING_LOGICAL_SIZE c < 2 ^ 32" using geometry_facts(5) by simp
  fix e :: "'a wear_leveling" and a n :: nat and bs :: bytes
  assume p: "persisted e"
  show "length (cache e) = WEAR_LEVELING_LOGICAL_SIZE c" using p by (simp add: persisted_def)
  show "a + n \<le> WEAR_LEVELING_LOGICAL_SIZE c \<Longrightarrow>
      eeprom_read_block (wl_eeprom_driver c B) a n e = Some (slice a n (cache e))"
    using geometry_facts(5) by (simp add: wl_eeprom_driver_def wear_leveling_read_def wl_out_of_range_def)
  have wr: "persisted (snd (wear_leveling_write c B a bs e)) \<and> cache (snd (wear_leveling_write c B a bs e)) = blit a bs (cache e)"
    if "a + length bs \<le> WEAR_LEVELING_LOGICAL_SIZE c"
    using write_persisted [OF p that prod.collapse [symmetric]] write_succeeds [OF p that] by simp
  have out: "wear_leveling_write c B a bs e = (WEAR_LEVELING_FAILED, e)"
    if "WEAR_LEVELING_LOGICAL_SIZE c < a + length bs" "a + length bs < 2 ^ 32"
    using that by (simp add: wear_leveling_write_def wl_out_of_range_def)
  show "a + length bs \<le> WEAR_LEVELING_LOGICAL_SIZE c \<Longrightarrow>
      cache (eeprom_write_block (wl_eeprom_driver c B) bs a e) = blit a bs (cache e)"
    using wr by (simp add: wl_eeprom_driver_def)
  show "WEAR_LEVELING_LOGICAL_SIZE c < a + length bs \<Longrightarrow> a + length bs < 2 ^ 32 \<Longrightarrow>
      cache (eeprom_write_block (wl_eeprom_driver c B) bs a e) = cache e"
    using out by (simp add: wl_eeprom_driver_def)
  show "a + length bs < 2 ^ 32 \<Longrightarrow> persisted (eeprom_write_block (wl_eeprom_driver c B) bs a e)"
    using wr out p by (cases "a + length bs \<le> WEAR_LEVELING_LOGICAL_SIZE c") (simp_all add: wl_eeprom_driver_def)
  show "cache (eeprom_driver_erase (wl_eeprom_driver c B) e) = replicate (WEAR_LEVELING_LOGICAL_SIZE c) 0"
    "persisted (eeprom_driver_erase (wl_eeprom_driver c B) e)"
    using erase_persisted [OF p prod.collapse [symmetric]] by (simp_all add: wl_eeprom_driver_def)
qed

end
