(* ===== verification/Wear_Leveling_Efl.thy ===== *)
theory Wear_Leveling_Efl
  imports Wear_Leveling_Boot
begin

text \<open>
  The embedded-flash driver below the wear-leveling layer,
  \<^verbatim>\<open>platforms/chibios/drivers/wear_leveling/wear_leveling_efl.c\<close>. ChibiOS is not part of the
  sources: its flash interface is the record \<open>chibios\<close> of the functions the driver calls, and
  the locale \<open>chibios_flash\<close> states what its manual promises of them. The driver meets the
  contract \<open>backing_contract\<close> of the layer above.
\<close>

section \<open>Model\<close>

datatype flash_error = FLASH_NO_ERROR | FLASH_BUSY_ERASING | FLASH_ERROR

record 'h chibios =
  attr_erased_is_one :: bool
  sectors_count :: nat
  flashGetSectorSize :: "nat \<Rightarrow> nat"
  flashGetSectorOffset :: "nat \<Rightarrow> nat"
  flash_size_register :: nat
  eflStart :: "'h \<Rightarrow> bool \<times> 'h"
  eflStop :: "'h \<Rightarrow> 'h"
  flashStartEraseSector :: "nat \<Rightarrow> 'h \<Rightarrow> flash_error \<times> 'h"
  flashWaitErase :: "'h \<Rightarrow> flash_error \<times> 'h"
  flashProgram :: "nat \<Rightarrow> bytes \<Rightarrow> 'h \<Rightarrow> flash_error \<times> 'h"
  flash_load :: "nat \<Rightarrow> nat \<Rightarrow> 'h \<Rightarrow> (bytes \<times> bool) \<times> 'h"

text \<open>
  \<open>flash_load\<close> is the memory-mapped read at \<^verbatim>\<open>flashGetOffsetAddress\<close>; its flag says whether the
  read raised an ECC exception, whose handler calls \<^verbatim>\<open>backing_store_signal_ecc_error\<close>.
\<close>

record efl_config =
  WEAR_LEVELING_EFL_FIRST_SECTOR :: "nat option"
  WEAR_LEVELING_EFL_OMIT_LAST_SECTOR_COUNT :: nat

record 'h efl =
  base_offset :: nat
  first_sector :: nat
  sector_count :: nat
  flash_erased_is_one :: bool
  is_issuing_read :: bool
  ecc_error_occurred :: bool
  halted :: bool
  hw :: 'h

definition detect_flash_size :: "'h chibios \<Rightarrow> nat" where
  "detect_flash_size F = flash_size_register F"

text \<open>The search forwards from the first sector: how many sectors hold \<open>need\<close> bytes.\<close>

fun efl_forward :: "'h chibios \<Rightarrow> nat \<Rightarrow> nat \<Rightarrow> nat \<Rightarrow> nat \<Rightarrow> nat \<Rightarrow> nat option" where
  "efl_forward F need first i counter 0 = None"
| "efl_forward F need first i counter (Suc left) =
     (let counter' = counter + flashGetSectorSize F (first + i) in
      if need \<le> counter' then Some (i + 1) else efl_forward F need first (i + 1) counter' left)"

text \<open>The search backwards from the end of the flash, and the sectors past the actual size.\<close>

fun efl_last_in_flash :: "'h chibios \<Rightarrow> nat \<Rightarrow> nat option" where
  "efl_last_in_flash F 0 = None"
| "efl_last_in_flash F (Suc lst) =
     (if detect_flash_size F \<le> flashGetSectorOffset F lst then efl_last_in_flash F lst else Some (Suc lst))"

fun efl_backward :: "'h chibios \<Rightarrow> nat \<Rightarrow> nat \<Rightarrow> nat \<Rightarrow> nat option" where
  "efl_backward F need counter 0 = None"
| "efl_backward F need counter (Suc sector) =
     (let counter' = counter + flashGetSectorSize F sector in
      if need \<le> counter' then Some sector else efl_backward F need counter' sector)"

text \<open>The region \<^verbatim>\<open>backing_store_init\<close> settles on: first sector, sector count; \<open>None\<close> where it halts.\<close>

definition efl_region :: "efl_config \<Rightarrow> nat \<Rightarrow> 'h chibios \<Rightarrow> (nat \<times> nat) option" where
  "efl_region e need F =
     (let omit = WEAR_LEVELING_EFL_OMIT_LAST_SECTOR_COUNT e in
      if sectors_count F \<le> omit then None
      else case WEAR_LEVELING_EFL_FIRST_SECTOR e of
        Some first \<Rightarrow>
          (case efl_forward F need first 0 0 ((sectors_count F - omit + 2 ^ 32 - first) mod 2 ^ 32) of
            None \<Rightarrow> None
          | Some n \<Rightarrow> if detect_flash_size F \<le> flashGetSectorOffset F first then None else Some (first, n))
      | None \<Rightarrow>
          (case efl_last_in_flash F (sectors_count F) of
            None \<Rightarrow> None
          | Some lst \<Rightarrow>
              if lst \<le> omit then None
              else case efl_backward F need 0 (lst - omit) of
                None \<Rightarrow> None
              | Some first \<Rightarrow> Some (first, lst - omit - first)))"

definition efl_lock :: "'h chibios \<Rightarrow> 'h efl \<Rightarrow> bool \<times> 'h efl" where
  "efl_lock F s = (True, s\<lparr>hw := eflStop F (hw s)\<rparr>)"

text \<open>\<^verbatim>\<open>chSysHalt\<close> does not return; the model keeps the state it halts in and flags it.\<close>

definition efl_init :: "efl_config \<Rightarrow> wl_config \<Rightarrow> 'h chibios \<Rightarrow> 'h efl \<Rightarrow> bool \<times> 'h efl" where
  "efl_init e c F s =
     (let s1 = (snd (efl_lock F s))\<lparr>flash_erased_is_one := attr_erased_is_one F\<rparr> in
      case efl_region e (WEAR_LEVELING_BACKING_SIZE c) F of
        None \<Rightarrow> (False, s1\<lparr>halted := True\<rparr>)
      | Some (first, n) \<Rightarrow>
          (True, s1\<lparr>first_sector := first, sector_count := n, base_offset := flashGetSectorOffset F first\<rparr>))"

definition efl_unlock :: "'h chibios \<Rightarrow> 'h efl \<Rightarrow> bool \<times> 'h efl" where
  "efl_unlock F s = (case eflStart F (hw s) of (ok, h) \<Rightarrow> (ok, s\<lparr>hw := h\<rparr>))"

definition erase_status_ok :: "flash_error \<Rightarrow> bool" where
  "erase_status_ok status \<longleftrightarrow> \<not> (status \<noteq> FLASH_NO_ERROR \<and> status \<noteq> FLASH_BUSY_ERASING)"

definition efl_erase_sector :: "'h chibios \<Rightarrow> nat \<Rightarrow> bool \<times> 'h \<Rightarrow> bool \<times> 'h" where
  "efl_erase_sector F sector = (\<lambda>(ret, h).
     case flashStartEraseSector F sector h of (status, h1) \<Rightarrow>
       let ret1 = (if \<not> erase_status_ok status then False else ret) in
       case flashWaitErase F h1 of (status', h2) \<Rightarrow>
         (if \<not> erase_status_ok status' then False else ret1, h2))"

definition efl_erase :: "'h chibios \<Rightarrow> 'h efl \<Rightarrow> bool \<times> 'h efl" where
  "efl_erase F s =
     (case for_range (sector_count s) (\<lambda>i. efl_erase_sector F (first_sector s + i)) (True, hw s) of
        (ret, h) \<Rightarrow> (ret, s\<lparr>hw := h\<rparr>))"

definition efl_invert :: "bool \<Rightarrow> bytes \<Rightarrow> bytes" where
  "efl_invert one bs = (if one then map NOT bs else bs)"

definition efl_write :: "'h chibios \<Rightarrow> nat \<Rightarrow> bytes \<Rightarrow> 'h efl \<Rightarrow> bool \<times> 'h efl" where
  "efl_write F address value s =
     (case flashProgram F (base_offset s + address) (efl_invert (flash_erased_is_one s) value) (hw s) of
        (status, h) \<Rightarrow> (status = FLASH_NO_ERROR, s\<lparr>hw := h\<rparr>))"

definition efl_safe_read :: "wl_config \<Rightarrow> 'h chibios \<Rightarrow> nat \<Rightarrow> 'h efl \<Rightarrow> bytes \<times> 'h efl" where
  "efl_safe_read c F offset s =
     (let s1 = s\<lparr>is_issuing_read := True, ecc_error_occurred := False\<rparr> in
      case flash_load F offset (WS c) (hw s1) of ((raw, ecc), h) \<Rightarrow>
        (efl_invert (flash_erased_is_one s1) raw,
         s1\<lparr>hw := h, ecc_error_occurred := ecc, is_issuing_read := False\<rparr>))"

definition efl_read :: "wl_config \<Rightarrow> 'h chibios \<Rightarrow> nat \<Rightarrow> 'h efl \<Rightarrow> (bool \<times> bytes) \<times> 'h efl" where
  "efl_read c F address s =
     (case efl_safe_read c F (base_offset s + address) s of (tmp, s1) \<Rightarrow>
        if ecc_error_occurred s1
        then ((False, replicate (WS c) 0), s1\<lparr>ecc_error_occurred := False\<rparr>)
        else ((True, tmp), s1))"

definition efl_store :: "efl_config \<Rightarrow> wl_config \<Rightarrow> 'h chibios \<Rightarrow> 'h efl backing_store" where
  "efl_store e c F =
     \<lparr>backing_store_init = efl_init e c F,
      backing_store_unlock = efl_unlock F,
      backing_store_erase = efl_erase F,
      backing_store_write = efl_write F,
      backing_store_lock = efl_lock F,
      backing_store_read = efl_read c F\<rparr>"

section \<open>The region\<close>

lemma efl_forward_covers:
  "efl_forward F need first i counter left = Some n \<Longrightarrow>
   i < n \<and> need \<le> counter + (\<Sum>j = i..<n. flashGetSectorSize F (first + j))"
proof (induction left arbitrary: i counter)
  case (Suc left)
  let ?sz = "\<lambda>j. flashGetSectorSize F (first + j)"
  show ?case
  proof (cases "need \<le> counter + ?sz i")
    case True
    then have "n = Suc i" using Suc.prems by simp
    then show ?thesis using True by simp
  next
    case False
    then have "Suc i < n \<and> need \<le> counter + ?sz i + (\<Sum>j = Suc i..<n. ?sz j)"
      using Suc by simp
    then show ?thesis by (simp add: sum.atLeast_Suc_lessThan [of i n])
  qed
qed simp

lemma efl_backward_covers:
  "efl_backward F need counter k = Some first \<Longrightarrow>
   first < k \<and> need \<le> counter + (\<Sum>j = first..<k. flashGetSectorSize F j)"
proof (induction k arbitrary: counter)
  case (Suc k)
  show ?case
  proof (cases "need \<le> counter + flashGetSectorSize F k")
    case True
    then show ?thesis using Suc.prems by simp
  next
    case False
    then have "first < k \<and> need \<le> counter + flashGetSectorSize F k + (\<Sum>j = first..<k. flashGetSectorSize F j)"
      using Suc by simp
    then show ?thesis by simp
  qed
qed simp

text \<open>Whichever way the search goes, the sectors it settles on hold the backing store.\<close>

lemma efl_region_covers:
  assumes "efl_region e need F = Some (first, n)"
  shows "0 < n \<and> need \<le> (\<Sum>j<n. flashGetSectorSize F (first + j))"
proof (cases "WEAR_LEVELING_EFL_FIRST_SECTOR e")
  case None
  then obtain lst where l: "efl_backward F need 0 lst = Some first" "n = lst - first"
    using assms by (auto simp: efl_region_def Let_def split: option.splits if_splits)
  have "(\<Sum>j = first..<lst. flashGetSectorSize F j) = (\<Sum>j<lst - first. flashGetSectorSize F (first + j))"
    using efl_backward_covers [OF l(1)] sum.atLeastLessThan_shift_0 [of "flashGetSectorSize F" first lst]
    by (simp add: atLeast0LessThan add.commute)
  then show ?thesis using efl_backward_covers [OF l(1)] l(2) by simp
next
  case (Some f)
  then have "\<exists>left. efl_forward F need first 0 0 left = Some n"
    using assms by (auto simp: efl_region_def Let_def split: option.splits if_splits)
  then show ?thesis using efl_forward_covers by (fastforce simp: atLeast0LessThan)
qed

section \<open>What ChibiOS promises\<close>

locale chibios_flash =
  fixes e :: efl_config
    and c :: wl_config
    and F :: "'h chibios"
    and mem :: "'h \<Rightarrow> bytes"
    and started :: "'h \<Rightarrow> bool"
    and hok :: "'h \<Rightarrow> bool"
    and first n :: nat
  assumes geometry: "wl_geometry c"
    and region: "efl_region e (WEAR_LEVELING_BACKING_SIZE c) F = Some (first, n)"
    and sectors: "i \<le> n \<Longrightarrow> hok h \<Longrightarrow>
      flashGetSectorOffset F first + (\<Sum>j<i. flashGetSectorSize F (first + j)) \<le> length (mem h)"
    and stop_law: "hok h \<Longrightarrow> hok (eflStop F h) \<and> mem (eflStop F h) = mem h \<and> \<not> started (eflStop F h)"
    and start_law: "hok h \<Longrightarrow> \<not> started h \<Longrightarrow> eflStart F h = (up, h') \<Longrightarrow>
      hok h' \<and> mem h' = mem h \<and> started h' = up"
    and load_law: "hok h \<Longrightarrow> a + k \<le> length (mem h) \<Longrightarrow> flash_load F a k h = ((bs, ecc), h') \<Longrightarrow>
      hok h' \<and> mem h' = mem h \<and> started h' = started h \<and> length bs = k \<and> (\<not> ecc \<longrightarrow> bs = slice a k (mem h))"
    and program_law: "hok h \<Longrightarrow> started h \<Longrightarrow> a + length bs \<le> length (mem h) \<Longrightarrow>
      slice a (length bs) (mem h) = efl_invert (attr_erased_is_one F) (replicate (length bs) 0) \<Longrightarrow>
      flashProgram F a bs h = (r, h') \<Longrightarrow>
      hok h' \<and> started h' \<and> (r = FLASH_NO_ERROR \<longrightarrow> mem h' = blit a bs (mem h))"
    and erase_law: "hok h \<Longrightarrow> started h \<Longrightarrow> i < n \<Longrightarrow>
      flashStartEraseSector F (first + i) h = (r, h1) \<Longrightarrow> flashWaitErase F h1 = (r', h2) \<Longrightarrow>
      hok h2 \<and> started h2 \<and> (erase_status_ok r \<and> erase_status_ok r' \<longrightarrow> mem h2 =
        blit (flashGetSectorOffset F first + (\<Sum>j<i. flashGetSectorSize F (first + j)))
          (efl_invert (attr_erased_is_one F) (replicate (flashGetSectorSize F (first + i)) 0)) (mem h))"
begin

abbreviation base :: nat where
  "base \<equiv> flashGetSectorOffset F first"

abbreviation upto_sector :: "nat \<Rightarrow> nat" where
  "upto_sector i \<equiv> (\<Sum>j<i. flashGetSectorSize F (first + j))"

definition efl_img :: "'h efl \<Rightarrow> bytes" where
  "efl_img s = efl_invert (attr_erased_is_one F) (slice base (WEAR_LEVELING_BACKING_SIZE c) (mem (hw s)))"

definition efl_ok :: "'h efl \<Rightarrow> bool" where
  "efl_ok s \<longleftrightarrow> base_offset s = base \<and> first_sector s = first \<and> sector_count s = n
     \<and> flash_erased_is_one s = attr_erased_is_one F \<and> hok (hw s)"

lemma invert_simps [simp]:
  "length (efl_invert b bs) = length bs"
  "efl_invert b (efl_invert b bs) = bs"
  "slice a k (efl_invert b bs) = efl_invert b (slice a k bs)"
  "efl_invert b (blit a bs xs) = blit a (efl_invert b bs) (efl_invert b xs)"
  by (auto simp: efl_invert_def slice_def blit_def take_map drop_map intro!: map_idI)

lemma invert_inject [simp]: "efl_invert b xs = efl_invert b ys \<longleftrightarrow> xs = ys"
  by (metis invert_simps(2))

lemma fits: "hok h \<Longrightarrow> base + WEAR_LEVELING_BACKING_SIZE c \<le> length (mem h)"
  using sectors [of n h] efl_region_covers [OF region] by simp

lemma slice_blit_inner:
  "b + m \<le> k \<Longrightarrow> length v = m \<Longrightarrow> a + k \<le> length xs \<Longrightarrow> slice a k (blit (a + b) v xs) = blit b v (slice a k xs)"
  by (auto intro!: nth_equalityI simp: nth_blit)

lemma erase_sectors:
  assumes "hok h" "started h" "i \<le> n"
    and "for_range i (\<lambda>i. efl_erase_sector F (first + i)) (True, h) = (r, h')"
  shows "hok h' \<and> started h' \<and> (r \<longrightarrow> slice base (upto_sector i) (mem h')
      = efl_invert (attr_erased_is_one F) (replicate (upto_sector i) 0))"
  using assms(3,4)
proof (induction i arbitrary: r h')
  case 0
  then show ?case using assms(1,2) by (simp add: slice_def efl_invert_def)
next
  case (Suc i)
  let ?e = "efl_invert (attr_erased_is_one F)" and ?sz = "flashGetSectorSize F (first + i)"
  obtain r1 h1 where l: "for_range i (\<lambda>i. efl_erase_sector F (first + i)) (True, h) = (r1, h1)" by fastforce
  then have ih: "hok h1" "started h1" "r1 \<Longrightarrow> slice base (upto_sector i) (mem h1) = ?e (replicate (upto_sector i) 0)"
    using Suc.IH [OF _ l] Suc.prems(1) by auto
  obtain a ha where a: "flashStartEraseSector F (first + i) h1 = (a, ha)" by fastforce
  obtain b hb where b: "flashWaitErase F ha = (b, hb)" by fastforce
  have hb: "hok hb" "started hb" "erase_status_ok a \<Longrightarrow> erase_status_ok b \<Longrightarrow>
      mem hb = blit (base + upto_sector i) (?e (replicate ?sz 0)) (mem h1)"
    using erase_law [OF ih(1,2) _ a b] Suc.prems(1) by auto
  have res: "h' = hb" "r \<Longrightarrow> r1 \<and> erase_status_ok a \<and> erase_status_ok b"
    using Suc.prems(2) l a b by (auto simp: for_range_Suc efl_erase_sector_def Let_def split: if_splits)
  have room: "base + upto_sector i + ?sz \<le> length (mem h1)" using sectors [OF Suc.prems(1) ih(1)] by simp
  have "r \<Longrightarrow> slice base (upto_sector i + ?sz) (mem hb) = ?e (replicate (upto_sector i + ?sz) 0)"
  proof -
    assume r
    with res ih hb have m: "mem hb = blit (base + upto_sector i) (?e (replicate ?sz 0)) (mem h1)"
      "slice base (upto_sector i) (mem h1) = ?e (replicate (upto_sector i) 0)" by auto
    then have "slice base (upto_sector i) (mem hb) = ?e (replicate (upto_sector i) 0)"
      "slice (base + upto_sector i) ?sz (mem hb) = ?e (replicate ?sz 0)"
      using room by (simp_all add: slice_blit_disjoint)
    then show ?thesis
      using slice_append_adjacent [of base "upto_sector i" ?sz "mem hb"] m(1) room
      by (simp add: efl_invert_def replicate_add split: if_splits)
  qed
  then show ?case using hb res(1) by simp
qed

end

section \<open>The driver meets the contract\<close>

sublocale chibios_flash \<subseteq> efl_backing: backing_contract
  c "efl_store e c F" efl_img "\<lambda>s. started (hw s)" efl_ok "\<lambda>s. hok (hw s)"
proof
  show "wl_geometry c" by (rule geometry)
  fix s s' :: "'h efl" and r :: bool and a :: nat and v :: bytes
  show "length (efl_img s) = WEAR_LEVELING_BACKING_SIZE c" if k: "efl_ok s"
    using k fits by (simp add: efl_img_def efl_ok_def)
  show "hok (hw s)" if k: "efl_ok s" using k by (simp add: efl_ok_def)
  show "efl_img s' = efl_img s \<and> (r \<longrightarrow> efl_ok s' \<and> \<not> started (hw s'))"
    if k: "hok (hw s)" "backing_store_init (efl_store e c F) s = (r, s')"
    using k stop_law [OF k(1)] region
    by (auto simp: efl_store_def efl_init_def efl_lock_def efl_img_def efl_ok_def Let_def)
  show "efl_ok s' \<and> efl_img s' = efl_img s \<and> started (hw s') = r"
    if k: "efl_ok s" "\<not> started (hw s)" "backing_store_unlock (efl_store e c F) s = (r, s')"
    using k start_law [of "hw s"]
    by (auto simp: efl_store_def efl_unlock_def efl_img_def efl_ok_def split: prod.splits)
  show "efl_ok s' \<and> efl_img s' = efl_img s \<and> \<not> started (hw s') \<and> r"
    if k: "efl_ok s" "started (hw s)" "backing_store_lock (efl_store e c F) s = (r, s')"
    using k stop_law [of "hw s"] by (auto simp: efl_store_def efl_lock_def efl_img_def efl_ok_def)
  show "efl_ok s' \<and> started (hw s') \<and> (r \<longrightarrow> efl_img s' = replicate (WEAR_LEVELING_BACKING_SIZE c) 0)"
    if k: "efl_ok s" "started (hw s)" "backing_store_erase (efl_store e c F) s = (r, s')"
  proof -
    obtain h where h: "for_range n (\<lambda>i. efl_erase_sector F (first + i)) (True, hw s) = (r, h)" "s' = s\<lparr>hw := h\<rparr>"
      using k by (auto simp: efl_store_def efl_erase_def efl_ok_def split: prod.splits)
    have e: "hok h" "started h" "r \<Longrightarrow> slice base (upto_sector n) (mem h)
        = efl_invert (attr_erased_is_one F) (replicate (upto_sector n) 0)"
      using erase_sectors [OF _ k(2) _ h(1)] k(1) by (auto simp: efl_ok_def)
    have le: "WEAR_LEVELING_BACKING_SIZE c \<le> upto_sector n" using efl_region_covers [OF region] by simp
    have "r \<Longrightarrow> efl_img s' = replicate (WEAR_LEVELING_BACKING_SIZE c) 0"
      using arg_cong [OF e(3), of "slice 0 (WEAR_LEVELING_BACKING_SIZE c)"] le sectors [OF order_refl e(1)] h(2)
      by (simp add: efl_img_def slice_slice)
    then show ?thesis using e h(2) k(1) by (auto simp: efl_ok_def)
  qed
  show "efl_ok s' \<and> started (hw s') \<and> (r \<longrightarrow> efl_img s' = blit a v (efl_img s))"
    if k: "efl_ok s" "started (hw s)" "a mod WS c = 0" "a + WS c \<le> WEAR_LEVELING_BACKING_SIZE c" "length v = WS c"
      "slice a (WS c) (efl_img s) = replicate (WS c) 0" "backing_store_write (efl_store e c F) a v s = (r, s')"
  proof -
    let ?inv = "efl_invert (attr_erased_is_one F)"
    have ok: "hok (hw s)" using k(1) by (simp add: efl_ok_def)
    obtain q h where p: "flashProgram F (base + a) (?inv v) (hw s) = (q, h)" "r = (q = FLASH_NO_ERROR)" "s' = s\<lparr>hw := h\<rparr>"
      using k by (auto simp: efl_store_def efl_write_def efl_ok_def split: prod.splits)
    have "slice (base + a) (WS c) (mem (hw s)) = ?inv (slice a (WS c) (efl_img s))"
      using fits [OF ok] k(4) by (simp add: efl_img_def slice_slice)
    then have "hok h \<and> started h \<and> (q = FLASH_NO_ERROR \<longrightarrow> mem h = blit (base + a) (?inv v) (mem (hw s)))"
      using program_law [OF ok k(2) _ _ p(1)] k(4,5,6) fits [OF ok] by simp
    then show ?thesis
      using p k(1,4,5) fits [OF ok] by (auto simp: efl_ok_def efl_img_def slice_blit_inner [where m = "WS c"])
  qed
  show "efl_ok s' \<and> efl_img s' = efl_img s \<and> started (hw s') = started (hw s) \<and> length v = WS c \<and>
      (r \<longrightarrow> v = slice a (WS c) (efl_img s))"
    if k: "efl_ok s" "a mod WS c = 0" "a + WS c \<le> WEAR_LEVELING_BACKING_SIZE c"
      "backing_store_read (efl_store e c F) a s = ((r, v), s')"
  proof -
    have ok: "hok (hw s)" using k(1) by (simp add: efl_ok_def)
    obtain bs ecc h where l: "flash_load F (base + a) (WS c) (hw s) = ((bs, ecc), h)" by (metis prod.exhaust)
    from load_law [OF ok _ l] fits [OF ok] k(3) have
      h: "hok h" "mem h = mem (hw s)" "started h = started (hw s)" "length bs = WS c"
      "\<not> ecc \<Longrightarrow> bs = slice (base + a) (WS c) (mem (hw s))" by auto
    show ?thesis
      using k l h fits [OF ok]
      by (auto simp: efl_store_def efl_read_def efl_safe_read_def efl_ok_def efl_img_def Let_def slice_slice
          split: if_splits)
  qed
qed

section \<open>A flash that does not fail\<close>

locale chibios_reliable = chibios_flash +
  assumes start_ok: "hok h \<Longrightarrow> \<not> started h \<Longrightarrow> fst (eflStart F h)"
    and load_ok: "hok h \<Longrightarrow> a + k \<le> length (mem h) \<Longrightarrow> \<not> snd (fst (flash_load F a k h))"
    and program_ok: "hok h \<Longrightarrow> started h \<Longrightarrow> a + length bs \<le> length (mem h) \<Longrightarrow>
      slice a (length bs) (mem h) = efl_invert (attr_erased_is_one F) (replicate (length bs) 0) \<Longrightarrow>
      fst (flashProgram F a bs h) = FLASH_NO_ERROR"
    and erase_ok: "hok h \<Longrightarrow> started h \<Longrightarrow> i < n \<Longrightarrow>
      erase_status_ok (fst (flashStartEraseSector F (first + i) h)) \<and>
      erase_status_ok (fst (flashWaitErase F (snd (flashStartEraseSector F (first + i) h))))"
begin

lemma erase_sectors_ok:
  assumes "hok h" "started h" "i \<le> n"
  shows "fst (for_range i (\<lambda>i. efl_erase_sector F (first + i)) (True, h))"
  using assms(3)
proof (induction i)
  case (Suc i)
  obtain h1 where l: "for_range i (\<lambda>i. efl_erase_sector F (first + i)) (True, h) = (True, h1)"
    using Suc by (metis Suc_leD prod.collapse)
  have "hok h1" "started h1" using erase_sectors [OF assms(1,2) _ l] Suc.prems by auto
  then show ?case
    using erase_ok [of h1 i] Suc.prems l by (auto simp: for_range_Suc efl_erase_sector_def split: prod.splits)
qed simp

end

sublocale chibios_reliable \<subseteq> efl_reliable: reliable_backing
  c "efl_store e c F" efl_img "\<lambda>s. started (hw s)" efl_ok "\<lambda>s. hok (hw s)"
proof
  fix s :: "'a efl" and a :: nat and v :: bytes
  show "fst (backing_store_init (efl_store e c F) s)" if "hok (hw s)"
    using region by (auto simp: efl_store_def efl_init_def Let_def)
  show "fst (backing_store_unlock (efl_store e c F) s)" if "efl_ok s" "\<not> started (hw s)"
    using that start_ok [of "hw s"] by (auto simp: efl_store_def efl_unlock_def efl_ok_def split: prod.splits)
  show "fst (backing_store_erase (efl_store e c F) s)" if "efl_ok s" "started (hw s)"
    using that erase_sectors_ok [of "hw s" n] by (auto simp: efl_store_def efl_erase_def efl_ok_def split: prod.splits)
  show "fst (backing_store_write (efl_store e c F) a v s)"
    if "efl_ok s" "started (hw s)" "a + WS c \<le> WEAR_LEVELING_BACKING_SIZE c" "length v = WS c"
      "slice a (WS c) (efl_img s) = replicate (WS c) 0"
  proof -
    have ok: "hok (hw s)" using that(1) by (simp add: efl_ok_def)
    have "slice (base + a) (WS c) (mem (hw s)) = efl_invert (attr_erased_is_one F) (slice a (WS c) (efl_img s))"
      using fits [OF ok] that(3) by (simp add: efl_img_def slice_slice)
    then have "fst (flashProgram F (base + a) (efl_invert (attr_erased_is_one F) v) (hw s)) = FLASH_NO_ERROR"
      using program_ok [OF ok that(2)] that(3-5) fits [OF ok] by simp
    then show ?thesis using that(1) by (auto simp: efl_store_def efl_write_def efl_ok_def split: prod.splits)
  qed
  show "fst (fst (backing_store_read (efl_store e c F) a s))"
    if "efl_ok s" "a + WS c \<le> WEAR_LEVELING_BACKING_SIZE c"
  proof -
    have ok: "hok (hw s)" using that(1) by (simp add: efl_ok_def)
    have "\<not> snd (fst (flash_load F (base + a) (WS c) (hw s)))"
      using load_ok [OF ok] fits [OF ok] that(2) by simp
    then show ?thesis
      using that(1) by (auto simp: efl_store_def efl_read_def efl_safe_read_def efl_ok_def Let_def split: prod.splits)
  qed
qed

section \<open>The flash of the STM32F411\<close>

text \<open>
  A NOR flash with the sectors of the STM32F411: erased bits are one, programming clears bits,
  an operation on a stopped driver or outside the array is an error. It instantiates the
  ChibiOS parameter, with the board's configuration of the driver
  (\<^verbatim>\<open>platforms/chibios/boards/GENERIC_STM32_F411XE/configs/config.h\<close>: first sector 1) and of the
  layer above (\<^verbatim>\<open>keyboards/icebreaker/he/config.h\<close>: 16 kB, and half of that as logical size), for any
  write size.
\<close>

record nor_flash =
  nor_mem :: bytes
  nor_started :: bool

definition f411_sector_size :: "nat \<Rightarrow> nat" where
  "f411_sector_size i = (if i < 4 then 16384 else if i = 4 then 65536 else 131072)"

definition f411_sector_offset :: "nat \<Rightarrow> nat" where
  "f411_sector_offset i = (if i \<le> 4 then i * 16384 else 131072 * (i - 4))"

definition nor_erase :: "nat \<Rightarrow> nor_flash \<Rightarrow> flash_error \<times> nor_flash" where
  "nor_erase i h =
     (if \<not> nor_started h \<or> 8 \<le> i then (FLASH_ERROR, h)
      else (FLASH_NO_ERROR, h\<lparr>nor_mem := blit (f411_sector_offset i) (replicate (f411_sector_size i) (- 1)) (nor_mem h)\<rparr>))"

definition nor_program :: "nat \<Rightarrow> bytes \<Rightarrow> nor_flash \<Rightarrow> flash_error \<times> nor_flash" where
  "nor_program a bs h =
     (if \<not> nor_started h \<or> length (nor_mem h) < a + length bs then (FLASH_ERROR, h)
      else (FLASH_NO_ERROR,
        h\<lparr>nor_mem := blit a (map2 (AND) (slice a (length bs) (nor_mem h)) bs) (nor_mem h)\<rparr>))"

definition f411_flash :: "nor_flash chibios" where
  "f411_flash =
     \<lparr>attr_erased_is_one = True, sectors_count = 8, flashGetSectorSize = f411_sector_size,
      flashGetSectorOffset = f411_sector_offset, flash_size_register = 524288,
      eflStart = (\<lambda>h. (True, h\<lparr>nor_started := True\<rparr>)),
      eflStop = (\<lambda>h. h\<lparr>nor_started := False\<rparr>),
      flashStartEraseSector = nor_erase,
      flashWaitErase = (\<lambda>h. (FLASH_NO_ERROR, h)),
      flashProgram = nor_program,
      flash_load = (\<lambda>a k h. ((slice a k (nor_mem h), False), h))\<rparr>"

definition board_efl :: efl_config where
  "board_efl = \<lparr>WEAR_LEVELING_EFL_FIRST_SECTOR = Some 1, WEAR_LEVELING_EFL_OMIT_LAST_SECTOR_COUNT = 0\<rparr>"

definition board_wl :: "backing_store_write_size \<Rightarrow> wl_config" where
  "board_wl w = \<lparr>BACKING_STORE_WRITE_SIZE = w, WEAR_LEVELING_BACKING_SIZE = 16384, WEAR_LEVELING_LOGICAL_SIZE = 8192\<rparr>"

definition nor_ok :: "nor_flash \<Rightarrow> bool" where
  "nor_ok h \<longleftrightarrow> length (nor_mem h) = 524288"

lemma board_wl_geometry: "wl_geometry (board_wl w)"
  by (cases w) (simp_all add: wl_geometry_def board_wl_def)

lemma board_region: "efl_region board_efl 16384 f411_flash = Some (1, 1)"
proof -
  have "(8 - 0 + 2 ^ 32 - 1) mod 2 ^ 32 = Suc 6" by simp
  then have "efl_forward f411_flash 16384 1 0 0 ((8 - 0 + 2 ^ 32 - 1) mod 2 ^ 32) = Some 1"
    by (simp only: efl_forward.simps) (simp add: f411_flash_def f411_sector_size_def)
  then show ?thesis
    by (simp add: efl_region_def board_efl_def f411_flash_def f411_sector_offset_def detect_flash_size_def Let_def)
qed

lemma map2_and_erased: "length bs = k \<Longrightarrow> map2 (AND) (replicate k (- 1 :: u8)) bs = bs"
  by (auto intro!: nth_equalityI)

interpretation f411: chibios_reliable
  board_efl "board_wl w" f411_flash nor_mem nor_started nor_ok 1 1 for w
proof (unfold_locales, goal_cases)
  case 1
  show ?case by (rule board_wl_geometry)
next
  case 2
  show ?case using board_region by (simp add: board_wl_def)
qed (auto simp: f411_flash_def nor_ok_def nor_program_def nor_erase_def map2_and_erased efl_invert_def
    f411_sector_size_def f411_sector_offset_def erase_status_ok_def split: if_splits)

section \<open>The board's EEPROM driver\<close>

text \<open>The invariant of the layer over this driver, and the driver stack of the board.\<close>

definition efl_persisted ::
  "wl_config \<Rightarrow> 'h chibios \<Rightarrow> ('h \<Rightarrow> bytes) \<Rightarrow> ('h \<Rightarrow> bool) \<Rightarrow> ('h \<Rightarrow> bool) \<Rightarrow> nat \<Rightarrow> nat \<Rightarrow> 'h efl wear_leveling \<Rightarrow> bool" where
  "efl_persisted c F mem started hok first n =
     backing_contract.persisted c (chibios_flash.efl_img c F mem first) (\<lambda>s. started (hw s))
       (chibios_flash.efl_ok F hok first n)"

definition board_driver :: "backing_store_write_size \<Rightarrow> 'h chibios \<Rightarrow> 'h efl wear_leveling eeprom_driver" where
  "board_driver w F = wl_eeprom_driver (board_wl w) (efl_store board_efl (board_wl w) F)"

context chibios_reliable
begin

lemma efl_is_eeprom:
  "eeprom_device (wl_eeprom_driver c (efl_store e c F)) (WEAR_LEVELING_LOGICAL_SIZE c) cache
    (efl_persisted c F mem started hok first n)"
  unfolding efl_persisted_def by (rule efl_reliable.wl_eeprom.eeprom_device_axioms)

end

context chibios_reliable
begin

text \<open>Boot on an erased region, run writes, lose power, boot again.\<close>

lemma efl_run:
  fixes st0 :: "'a efl wear_leveling"
  defines "B \<equiv> efl_store e c F"
  assumes "hok (hw (backing st0))" "\<not> unlocked st0" "length stk = 8"
    and "slice base (WEAR_LEVELING_BACKING_SIZE c) (mem (hw (backing st0)))
      = efl_invert (attr_erased_is_one F) (replicate (WEAR_LEVELING_BACKING_SIZE c) 0)"
    and "\<forall>(a, v)\<in>set ws. a + length v \<le> WEAR_LEVELING_LOGICAL_SIZE c"
    and "st2 = fold (\<lambda>(a, v) st. snd (wear_leveling_write c B a v st)) ws (snd (wear_leveling_init c B stk st0))"
  shows "efl_backing.persisted st2"
    and "cache st2 = fold (\<lambda>(a, v). blit a v) ws (replicate (WEAR_LEVELING_LOGICAL_SIZE c) 0)"
    and "hok (hw (backing st2))"
proof -
  have img: "efl_img (backing st0) = replicate (WEAR_LEVELING_BACKING_SIZE c) 0" using assms(5) by (simp add: efl_img_def)
  note blank = efl_reliable.blank_image [OF img]
  obtain st1 where st1: "wear_leveling_init c B stk st0 = (WEAR_LEVELING_SUCCESS, st1)" "efl_backing.persisted st1"
    "cache st1 = replicate (WEAR_LEVELING_LOGICAL_SIZE c) 0"
    using efl_reliable.init_replays [OF assms(2) blank(1) assms(3,4)] blank(2) unfolding B_def by auto
  show p: "efl_backing.persisted st2"
    and "cache st2 = fold (\<lambda>(a, v). blit a v) ws (replicate (WEAR_LEVELING_LOGICAL_SIZE c) 0)"
    using efl_reliable.write_run_persisted [OF st1(2) assms(6)] assms(7) st1(1,3) unfolding B_def by simp_all
  show "hok (hw (backing st2))" using p by (simp add: efl_backing.persisted_def efl_ok_def)
qed

lemma efl_power_cycle:
  fixes st2 :: "'a efl wear_leveling"
  assumes "efl_backing.persisted st2"
    and "mem (hw (backing st3)) = mem (hw (backing st2))" "hok (hw (backing st3))" "\<not> unlocked st3" "length stk' = 8"
  shows "fst (wear_leveling_init c (efl_store e c F) stk' st3) = WEAR_LEVELING_SUCCESS \<and>
    cache (snd (wear_leveling_init c (efl_store e c F) stk' st3)) = cache st2"
    and "efl_backing.persisted (snd (wear_leveling_init c (efl_store e c F) stk' st3))"
proof -
  have "efl_img (backing st3) = efl_img (backing st2)" using assms(2) by (simp add: efl_img_def)
  note r = efl_reliable.init_restores [OF assms(1,3) this assms(4,5)]
  from r show "fst (wear_leveling_init c (efl_store e c F) stk' st3) = WEAR_LEVELING_SUCCESS \<and>
    cache (snd (wear_leveling_init c (efl_store e c F) stk' st3)) = cache st2" by auto
  from r show "efl_backing.persisted (snd (wear_leveling_init c (efl_store e c F) stk' st3))" by auto
qed

end

text \<open>The state of the stack right after power-up on a flash that was never written.\<close>

definition f411_blank :: "nor_flash efl wear_leveling" where
  "f411_blank =
     \<lparr>cache = replicate 8192 0, write_address = 8200, unlocked = False,
      backing = \<lparr>base_offset = 16384, first_sector = 1, sector_count = 1, flash_erased_is_one = True,
        is_issuing_read = False, ecc_error_occurred = False, halted = False,
        hw = \<lparr>nor_mem = replicate 524288 (- 1), nor_started = False\<rparr>\<rparr>\<rparr>"

lemma f411_blank_persisted: "efl_persisted (board_wl w) f411_flash nor_mem nor_started nor_ok 1 1 f411_blank"
proof -
  have img: "f411.efl_img w (backing f411_blank) = replicate (WEAR_LEVELING_BACKING_SIZE (board_wl w)) 0"
    unfolding f411.efl_img_def
    by (simp add: f411_blank_def f411_flash_def f411_sector_offset_def board_wl_def efl_invert_def)
  note b = f411.efl_reliable.blank_image [OF img]
  show ?thesis
    unfolding efl_persisted_def f411.efl_backing.persisted_def f411.efl_backing.logged_def f411.efl_ok_def
    using b img
    by (intro conjI exI [of _ "[]"])
      (simp_all add: f411_blank_def f411_flash_def f411_sector_offset_def board_wl_def nor_ok_def)
qed

end
