(* ===== verification/Nvm_Eeconfig.thy ===== *)
theory Nvm_Eeconfig
  imports Wear_Leveling_Efl
begin

text \<open>
  The EEPROM layout and the accessors of the core configuration,
  \<^verbatim>\<open>quantum/nvm/eeprom/nvm_eeconfig.c\<close>, \<^verbatim>\<open>nvm_eeprom_eeconfig_internal.h\<close>, \<^verbatim>\<open>nvm_eeprom_via_internal.h\<close> and
  \<^verbatim>\<open>nvm_via.c\<close>, for the feature set of the board: wear-leveled EEPROM of 8 kB, RGB light, a keyboard
  data block of 142 bytes, VIA with one byte of layout options, no user data block.

  The locale \<open>board_eeprom\<close> is the EEPROM contract at the board's size; the lemmas in it say what
  each accessor reads and which bytes it leaves alone. It is interpreted on the wear-leveling
  driver over the STM32F411 flash.
\<close>

section \<open>Model\<close>

subsection \<open>Layout\<close>

text \<open>\<^verbatim>\<open>eeprom_core_t\<close> is packed; these are its member offsets.\<close>

definition EECONFIG_MAGIC :: nat where [hw_defs]: "EECONFIG_MAGIC = 0"
definition EECONFIG_DEBUG :: nat where [hw_defs]: "EECONFIG_DEBUG = 2"
definition EECONFIG_DEFAULT_LAYER :: nat where [hw_defs]: "EECONFIG_DEFAULT_LAYER = 3"
definition EECONFIG_KEYMAP :: nat where [hw_defs]: "EECONFIG_KEYMAP = 4"
definition EECONFIG_RGBLIGHT :: nat where [hw_defs]: "EECONFIG_RGBLIGHT = 8"
definition EECONFIG_HANDEDNESS :: nat where [hw_defs]: "EECONFIG_HANDEDNESS = 14"
definition EECONFIG_KEYBOARD :: nat where [hw_defs]: "EECONFIG_KEYBOARD = 15"
definition EECONFIG_USER :: nat where [hw_defs]: "EECONFIG_USER = 19"
definition EECONFIG_RGBLIGHT_EXTENDED :: nat where [hw_defs]: "EECONFIG_RGBLIGHT_EXTENDED = 35"
definition EECONFIG_BASE_SIZE :: nat where [hw_defs]: "EECONFIG_BASE_SIZE = 37"

definition EECONFIG_KB_DATA_SIZE :: nat where [hw_defs]: "EECONFIG_KB_DATA_SIZE = 69 * 2 + 4"
definition EECONFIG_USER_DATA_SIZE :: nat where [hw_defs]: "EECONFIG_USER_DATA_SIZE = 0"
definition EECONFIG_KB_DATABLOCK :: nat where [hw_defs]: "EECONFIG_KB_DATABLOCK = EECONFIG_BASE_SIZE"
definition EECONFIG_SIZE :: nat where
  [hw_defs]: "EECONFIG_SIZE = EECONFIG_BASE_SIZE + EECONFIG_KB_DATA_SIZE + EECONFIG_USER_DATA_SIZE"

definition EECONFIG_MAGIC_NUMBER :: u16 where [hw_defs]: "EECONFIG_MAGIC_NUMBER = 0xFEE3"
definition EECONFIG_MAGIC_NUMBER_OFF :: u16 where [hw_defs]: "EECONFIG_MAGIC_NUMBER_OFF = 0xFFFF"
definition EECONFIG_KB_DATA_VERSION :: u32 where [hw_defs]: "EECONFIG_KB_DATA_VERSION = 3"

definition VIA_EEPROM_MAGIC_ADDR :: nat where [hw_defs]: "VIA_EEPROM_MAGIC_ADDR = EECONFIG_SIZE"
definition VIA_EEPROM_LAYOUT_OPTIONS_ADDR :: nat where
  [hw_defs]: "VIA_EEPROM_LAYOUT_OPTIONS_ADDR = VIA_EEPROM_MAGIC_ADDR + 3"
definition VIA_EEPROM_LAYOUT_OPTIONS_SIZE :: nat where [hw_defs]: "VIA_EEPROM_LAYOUT_OPTIONS_SIZE = 1"
definition VIA_EEPROM_CUSTOM_CONFIG_ADDR :: nat where
  [hw_defs]: "VIA_EEPROM_CUSTOM_CONFIG_ADDR = VIA_EEPROM_LAYOUT_OPTIONS_ADDR + VIA_EEPROM_LAYOUT_OPTIONS_SIZE"
definition VIA_EEPROM_CUSTOM_CONFIG_SIZE :: nat where [hw_defs]: "VIA_EEPROM_CUSTOM_CONFIG_SIZE = 0"
definition VIA_EEPROM_CONFIG_END :: nat where
  [hw_defs]: "VIA_EEPROM_CONFIG_END = VIA_EEPROM_CUSTOM_CONFIG_ADDR + VIA_EEPROM_CUSTOM_CONFIG_SIZE"
definition TOTAL_EEPROM_BYTE_COUNT :: nat where [hw_defs]: "TOTAL_EEPROM_BYTE_COUNT = 8192"

subsection \<open>Core configuration\<close>

definition nvm_eeconfig_erase :: "'e eeprom_driver \<Rightarrow> 'e \<Rightarrow> 'e" where
  "nvm_eeconfig_erase E = eeprom_driver_format E False"

definition nvm_eeconfig_is_enabled :: "'e eeprom_driver \<Rightarrow> 'e \<Rightarrow> bool" where
  "nvm_eeconfig_is_enabled E e \<longleftrightarrow> eeprom_read_word E EECONFIG_MAGIC e = EECONFIG_MAGIC_NUMBER"

definition nvm_eeconfig_is_disabled :: "'e eeprom_driver \<Rightarrow> 'e \<Rightarrow> bool" where
  "nvm_eeconfig_is_disabled E e \<longleftrightarrow> eeprom_read_word E EECONFIG_MAGIC e = EECONFIG_MAGIC_NUMBER_OFF"

definition nvm_eeconfig_enable :: "'e eeprom_driver \<Rightarrow> 'e \<Rightarrow> 'e" where
  "nvm_eeconfig_enable E = eeprom_update_word E EECONFIG_MAGIC EECONFIG_MAGIC_NUMBER"

definition nvm_eeconfig_disable :: "'e eeprom_driver \<Rightarrow> 'e \<Rightarrow> 'e" where
  "nvm_eeconfig_disable E e =
     eeprom_update_word E EECONFIG_MAGIC EECONFIG_MAGIC_NUMBER_OFF (eeprom_driver_format E False e)"

definition nvm_eeconfig_read_debug :: "'e eeprom_driver \<Rightarrow> 'e \<Rightarrow> u8" where
  "nvm_eeconfig_read_debug E = eeprom_read_byte E EECONFIG_DEBUG"

definition nvm_eeconfig_update_debug :: "'e eeprom_driver \<Rightarrow> u8 \<Rightarrow> 'e \<Rightarrow> 'e" where
  "nvm_eeconfig_update_debug E raw = eeprom_update_byte E EECONFIG_DEBUG raw"

text \<open>Four dynamic layers fit an 8-bit layer mask (\<^verbatim>\<open>LAYER_STATE_8BIT\<close>), which is stored as it is.\<close>

type_synonym layer_state_t = u8

definition nvm_eeconfig_read_default_layer :: "'e eeprom_driver \<Rightarrow> 'e \<Rightarrow> layer_state_t" where
  "nvm_eeconfig_read_default_layer E e = eeprom_read_byte E EECONFIG_DEFAULT_LAYER e"

definition nvm_eeconfig_update_default_layer :: "'e eeprom_driver \<Rightarrow> layer_state_t \<Rightarrow> 'e \<Rightarrow> 'e" where
  "nvm_eeconfig_update_default_layer E state = eeprom_update_byte E EECONFIG_DEFAULT_LAYER state"

definition nvm_eeconfig_read_keymap :: "'e eeprom_driver \<Rightarrow> 'e \<Rightarrow> u16" where
  "nvm_eeconfig_read_keymap E = eeprom_read_word E EECONFIG_KEYMAP"

definition nvm_eeconfig_update_keymap :: "'e eeprom_driver \<Rightarrow> u16 \<Rightarrow> 'e \<Rightarrow> 'e" where
  "nvm_eeconfig_update_keymap E raw = eeprom_update_word E EECONFIG_KEYMAP raw"

text \<open>The RGB light configuration is a 64-bit word of which 40 bits are stored, in two places.\<close>

definition nvm_eeconfig_read_rgblight :: "'e eeprom_driver \<Rightarrow> 'e \<Rightarrow> u64" where
  "nvm_eeconfig_read_rgblight E e =
     ucast (eeprom_read_dword E EECONFIG_RGBLIGHT e)
       OR push_bit 32 (ucast (eeprom_read_byte E EECONFIG_RGBLIGHT_EXTENDED e))"

definition nvm_eeconfig_update_rgblight :: "'e eeprom_driver \<Rightarrow> u64 \<Rightarrow> 'e \<Rightarrow> 'e" where
  "nvm_eeconfig_update_rgblight E raw e =
     eeprom_update_byte E EECONFIG_RGBLIGHT_EXTENDED (ucast (drop_bit 32 raw AND 0xFF))
       (eeprom_update_dword E EECONFIG_RGBLIGHT (ucast (raw AND 0xFFFFFFFF)) e)"

definition nvm_eeconfig_read_user :: "'e eeprom_driver \<Rightarrow> 'e \<Rightarrow> u32" where
  "nvm_eeconfig_read_user E = eeprom_read_dword E EECONFIG_USER"

definition nvm_eeconfig_update_user :: "'e eeprom_driver \<Rightarrow> u32 \<Rightarrow> 'e \<Rightarrow> 'e" where
  "nvm_eeconfig_update_user E val = eeprom_update_dword E EECONFIG_USER val"

definition nvm_eeconfig_read_handedness :: "'e eeprom_driver \<Rightarrow> 'e \<Rightarrow> bool" where
  "nvm_eeconfig_read_handedness E e \<longleftrightarrow> eeprom_read_byte E EECONFIG_HANDEDNESS e \<noteq> 0"

definition nvm_eeconfig_update_handedness :: "'e eeprom_driver \<Rightarrow> bool \<Rightarrow> 'e \<Rightarrow> 'e" where
  "nvm_eeconfig_update_handedness E val = eeprom_update_byte E EECONFIG_HANDEDNESS (if val then 1 else 0)"

subsection \<open>The keyboard data block\<close>

definition nvm_eeconfig_is_kb_datablock_valid :: "'e eeprom_driver \<Rightarrow> 'e \<Rightarrow> bool" where
  "nvm_eeconfig_is_kb_datablock_valid E e \<longleftrightarrow>
     eeprom_read_dword E EECONFIG_KEYBOARD e = EECONFIG_KB_DATA_VERSION"

text \<open>
  The transfers clip at the end of the block; both callers stay inside it. A read fills the
  caller's buffer \<open>buf\<close>.
\<close>

definition nvm_eeconfig_read_kb_datablock :: "'e eeprom_driver \<Rightarrow> bytes \<Rightarrow> nat \<Rightarrow> 'e \<Rightarrow> bytes" where
  "nvm_eeconfig_read_kb_datablock E buf offset e =
     (if nvm_eeconfig_is_kb_datablock_valid E e then
        let ee_start = EECONFIG_KB_DATABLOCK + offset;
            ee_end = EECONFIG_KB_DATABLOCK + min EECONFIG_KB_DATA_SIZE (offset + length buf) in
        case eeprom_read_block E ee_start (ee_end - ee_start) e of
          None \<Rightarrow> buf
        | Some bs \<Rightarrow> blit 0 bs buf
      else replicate (length buf) 0)"

definition nvm_eeconfig_update_kb_datablock :: "'e eeprom_driver \<Rightarrow> bytes \<Rightarrow> nat \<Rightarrow> 'e \<Rightarrow> 'e" where
  "nvm_eeconfig_update_kb_datablock E data offset e =
     (let e1 = eeprom_update_dword E EECONFIG_KEYBOARD EECONFIG_KB_DATA_VERSION e;
          ee_start = EECONFIG_KB_DATABLOCK + offset;
          ee_end = EECONFIG_KB_DATABLOCK + min EECONFIG_KB_DATA_SIZE (offset + length data) in
      eeprom_update_block E (take (ee_end - ee_start) data) ee_start e1)"

text \<open>Zeroing a region in blocks of at most 16 bytes.\<close>

function eeprom_zero_region :: "'e eeprom_driver \<Rightarrow> nat \<Rightarrow> nat \<Rightarrow> 'e \<Rightarrow> 'e" where
  "eeprom_zero_region E start remaining e =
     (if remaining = 0 then e
      else let this_loop = (if remaining < 16 then remaining else 16) in
        eeprom_zero_region E (start + this_loop) (remaining - this_loop)
          (eeprom_update_block E (replicate this_loop 0) start e))"
  by pat_completeness auto
termination by (relation "measure (\<lambda>(E, start, remaining, e). remaining)") auto

declare eeprom_zero_region.simps [simp del]

definition nvm_eeconfig_init_kb_datablock :: "'e eeprom_driver \<Rightarrow> 'e \<Rightarrow> 'e" where
  "nvm_eeconfig_init_kb_datablock E e =
     eeprom_zero_region E EECONFIG_KB_DATABLOCK EECONFIG_KB_DATA_SIZE
       (eeprom_update_dword E EECONFIG_KEYBOARD EECONFIG_KB_DATA_VERSION e)"

subsection \<open>VIA's own bytes\<close>

definition nvm_via_read_magic :: "'e eeprom_driver \<Rightarrow> 'e \<Rightarrow> u8 \<times> u8 \<times> u8" where
  "nvm_via_read_magic E e =
     (eeprom_read_byte E (VIA_EEPROM_MAGIC_ADDR + 0) e,
      eeprom_read_byte E (VIA_EEPROM_MAGIC_ADDR + 1) e,
      eeprom_read_byte E (VIA_EEPROM_MAGIC_ADDR + 2) e)"

definition nvm_via_update_magic :: "'e eeprom_driver \<Rightarrow> u8 \<Rightarrow> u8 \<Rightarrow> u8 \<Rightarrow> 'e \<Rightarrow> 'e" where
  "nvm_via_update_magic E magic0 magic1 magic2 e =
     eeprom_update_byte E (VIA_EEPROM_MAGIC_ADDR + 2) magic2
       (eeprom_update_byte E (VIA_EEPROM_MAGIC_ADDR + 1) magic1
         (eeprom_update_byte E (VIA_EEPROM_MAGIC_ADDR + 0) magic0 e))"

definition nvm_via_read_layout_options :: "'e eeprom_driver \<Rightarrow> 'e \<Rightarrow> u32" where
  "nvm_via_read_layout_options E e =
     fold (\<lambda>i v. push_bit 8 v OR ucast (eeprom_read_byte E (VIA_EEPROM_LAYOUT_OPTIONS_ADDR + i) e))
       [0..<VIA_EEPROM_LAYOUT_OPTIONS_SIZE] 0"

definition nvm_via_update_layout_options :: "'e eeprom_driver \<Rightarrow> u32 \<Rightarrow> 'e \<Rightarrow> 'e" where
  "nvm_via_update_layout_options E val e =
     fst (for_range VIA_EEPROM_LAYOUT_OPTIONS_SIZE
       (\<lambda>i (e, val). (eeprom_update_byte E
            (VIA_EEPROM_LAYOUT_OPTIONS_ADDR + VIA_EEPROM_LAYOUT_OPTIONS_SIZE - 1 - i) (ucast (val AND 0xFF)) e,
          drop_bit 8 val)) (e, val))"

section \<open>The board's EEPROM\<close>

locale board_eeprom = eeprom_device E 8192 view inv
  for E :: "'e eeprom_driver" and view :: "'e \<Rightarrow> bytes" and inv :: "'e \<Rightarrow> bool"
begin

lemma view_len [simp]: "inv e \<Longrightarrow> length (view e) = 8192"
  by (rule view_length)

lemma zero_region_view:
  "inv e \<Longrightarrow> start + n \<le> 8192 \<Longrightarrow>
   inv (eeprom_zero_region E start n e) \<and> view (eeprom_zero_region E start n e) = blit start (replicate n 0) (view e)"
proof (induction n arbitrary: start e rule: less_induct)
  case (less n)
  show ?case
  proof (cases "n = 0")
    case True
    then show ?thesis using less.prems by (simp add: eeprom_zero_region.simps)
  next
    case False
    define k where "k = (if n < 16 then n else 16)"
    have k: "k \<le> n" "0 < k" using False by (auto simp: k_def)
    let ?e1 = "eeprom_update_block E (replicate k 0) start e"
    have e1: "inv ?e1" "view ?e1 = blit start (replicate k 0) (view e)"
      using less.prems k by (simp_all add: update_block_view)
    have "blit start (replicate n 0) (view e) = blit (start + k) (replicate (n - k) 0) (blit start (replicate k 0) (view e))"
      using blit_append [of start "replicate k (0 :: u8)" "replicate (n - k) 0" "view e"] k less.prems
      by (simp flip: replicate_add)
    moreover have "eeprom_zero_region E start n e = eeprom_zero_region E (start + k) (n - k) ?e1"
      using False by (subst eeprom_zero_region.simps) (simp add: k_def Let_def)
    ultimately show ?thesis using less.IH [of "n - k" ?e1 "start + k"] e1 less.prems k by simp
  qed
qed

text \<open>What a datablock transfer moves, inside the block.\<close>

lemma update_kb_datablock_view:
  assumes "inv e" "offset + length data \<le> EECONFIG_KB_DATA_SIZE"
  shows "inv (nvm_eeconfig_update_kb_datablock E data offset e)"
    and "view (nvm_eeconfig_update_kb_datablock E data offset e) =
      blit (EECONFIG_KB_DATABLOCK + offset) data (blit EECONFIG_KEYBOARD (le32 EECONFIG_KB_DATA_VERSION) (view e))"
  using assms by (simp_all add: nvm_eeconfig_update_kb_datablock_def Let_def view_updates hw_defs min_def)

lemma kb_datablock_valid_view:
  "inv e \<Longrightarrow> nvm_eeconfig_is_kb_datablock_valid E e \<longleftrightarrow> slice EECONFIG_KEYBOARD 4 (view e) = le32 EECONFIG_KB_DATA_VERSION"
  by (simp add: nvm_eeconfig_is_kb_datablock_valid_def read_dword_view hw_defs le32_decode_eq_iff)

lemma read_kb_datablock_view:
  assumes "inv e" "nvm_eeconfig_is_kb_datablock_valid E e" "offset + length buf \<le> EECONFIG_KB_DATA_SIZE"
  shows "nvm_eeconfig_read_kb_datablock E buf offset e = slice (EECONFIG_KB_DATABLOCK + offset) (length buf) (view e)"
  using assms by (simp add: nvm_eeconfig_read_kb_datablock_def Let_def read_in hw_defs min_def blit_def)

lemma init_kb_datablock_view:
  assumes "inv e"
  shows "inv (nvm_eeconfig_init_kb_datablock E e)"
    and "view (nvm_eeconfig_init_kb_datablock E e) =
      blit EECONFIG_KB_DATABLOCK (replicate EECONFIG_KB_DATA_SIZE 0)
        (blit EECONFIG_KEYBOARD (le32 EECONFIG_KB_DATA_VERSION) (view e))"
  using assms zero_region_view [of "eeprom_update_dword E EECONFIG_KEYBOARD EECONFIG_KB_DATA_VERSION e"
      EECONFIG_KB_DATABLOCK EECONFIG_KB_DATA_SIZE]
  by (simp_all add: nvm_eeconfig_init_kb_datablock_def view_updates hw_defs)

text \<open>A data block that was written reads back, and the write stamps it valid.\<close>

lemma kb_datablock_roundtrip:
  assumes "inv e" "offset + length data \<le> EECONFIG_KB_DATA_SIZE" "length buf = length data"
  shows "nvm_eeconfig_read_kb_datablock E buf offset (nvm_eeconfig_update_kb_datablock E data offset e) = data"
    and "nvm_eeconfig_is_kb_datablock_valid E (nvm_eeconfig_update_kb_datablock E data offset e)"
proof -
  let ?e = "nvm_eeconfig_update_kb_datablock E data offset e"
  note u = update_kb_datablock_view [OF assms(1,2)]
  show v: "nvm_eeconfig_is_kb_datablock_valid E ?e"
    using assms u by (simp add: kb_datablock_valid_view hw_defs slice_blit_disjoint)
  show "nvm_eeconfig_read_kb_datablock E buf offset ?e = data"
    using read_kb_datablock_view [OF u(1) v, of offset buf] assms u(2) by (simp add: hw_defs)
qed

lemma drop_bit_and_255_ucast: "ucast (drop_bit 32 (raw :: u64) AND 0xFF) = (ucast (drop_bit 32 raw) :: u8)"
  by (simp add: and_masks) (rule bit_word_eqI, simp add: bit_simps)

text \<open>The stored 40 bits of the RGB light word survive a round trip; the rest reads as zero.\<close>

lemma rgblight_halves:
  "ucast (ucast (raw AND 0xFFFFFFFF) :: u32) OR push_bit 32 (ucast (ucast (drop_bit 32 raw) :: u8)) = take_bit 40 (raw :: u64)"
proof (rule bit_word_eqI)
  fix n assume "n < LENGTH(64)"
  have m: "(0xFFFFFFFF :: u64) = mask 32" by (simp add: mask_eq_exp_minus_1)
  show "bit (ucast (ucast (raw AND 0xFFFFFFFF) :: u32) OR push_bit 32 (ucast (ucast (drop_bit 32 raw) :: u8) :: u64)) n
      \<longleftrightarrow> bit (take_bit 40 raw) n"
    unfolding m by (cases "n < 32") (auto simp: bit_simps)
qed

lemma read_rgblight_image:
  assumes "inv e" "slice 8 4 (view e) = le32 (ucast (raw AND 0xFFFFFFFF))" "view e ! 35 = ucast (drop_bit 32 raw AND 0xFF)"
  shows "nvm_eeconfig_read_rgblight E e = take_bit 40 raw"
  using assms rgblight_halves [of raw]
  by (simp add: nvm_eeconfig_read_rgblight_def view_reads hw_defs drop_bit_and_255_ucast)

lemma rgblight_roundtrip:
  assumes "inv e"
  shows "nvm_eeconfig_read_rgblight E (nvm_eeconfig_update_rgblight E raw e) = take_bit 40 raw"
proof (rule read_rgblight_image)
  let ?e1 = "eeprom_update_dword E EECONFIG_RGBLIGHT (ucast (raw AND 0xFFFFFFFF)) e"
  let ?e2 = "nvm_eeconfig_update_rgblight E raw e"
  have v: "inv ?e1" "inv ?e2" "view ?e2 = (view ?e1)[35 := ucast (drop_bit 32 raw AND 0xFF)]"
      "view ?e1 = blit 8 (le32 (ucast (raw AND 0xFFFFFFFF))) (view e)"
    using assms by (simp_all add: nvm_eeconfig_update_rgblight_def view_updates hw_defs)
  then show "inv ?e2" "slice 8 4 (view ?e2) = le32 (ucast (raw AND 0xFFFFFFFF))" "view ?e2 ! 35 = ucast (drop_bit 32 raw AND 0xFF)"
    using assms by (simp_all add: slice_blit_disjoint flip: blit_singleton) (simp add: blit_singleton)
qed

end

section \<open>The driver stack of the board\<close>

lemma board_driver_eeprom:
  assumes "chibios_reliable board_efl (board_wl w) F mem started hok first n"
  shows "board_eeprom (board_driver w F) cache (efl_persisted (board_wl w) F mem started hok first n)"
proof -
  have "WEAR_LEVELING_LOGICAL_SIZE (board_wl w) = 8192" by (simp add: board_wl_def)
  then show ?thesis
    using chibios_reliable.efl_is_eeprom [OF assms]
    by (simp add: board_eeprom_def board_driver_def)
qed

interpretation f411_ee: board_eeprom
  "board_driver w f411_flash" cache
  "efl_persisted (board_wl w) f411_flash nor_mem nor_started nor_ok 1 1" for w
  by (rule board_driver_eeprom) (rule f411.chibios_reliable_axioms)

end
