(* ===== verification/Dynamic_Keymap.thy ===== *)
theory Dynamic_Keymap
  imports Nvm_Eeconfig
begin

text \<open>
  The dynamic keymap: \<^verbatim>\<open>quantum/nvm/eeprom/nvm_dynamic_keymap.c\<close>, \<^verbatim>\<open>quantum/dynamic_keymap.c\<close> and the
  accessors of \<^verbatim>\<open>quantum/keymap_introspection.c\<close> for the keymap compiled into the firmware. Keymap,
  encoder map and macros share the EEPROM after VIA's bytes.
\<close>

section \<open>Model\<close>

subsection \<open>Layout\<close>

definition DYNAMIC_KEYMAP_LAYER_COUNT :: nat where [hw_defs]: "DYNAMIC_KEYMAP_LAYER_COUNT = 4"
definition DYNAMIC_KEYMAP_MACRO_COUNT :: nat where [hw_defs]: "DYNAMIC_KEYMAP_MACRO_COUNT = 16"
definition MATRIX_ROWS :: nat where [hw_defs]: "MATRIX_ROWS = 5"
definition MATRIX_COLS :: nat where [hw_defs]: "MATRIX_COLS = 16"
definition NUM_ENCODERS :: nat where [hw_defs]: "NUM_ENCODERS = 1"
definition KC_NO :: u16 where [hw_defs]: "KC_NO = 0"
definition KC_TRNS :: u16 where [hw_defs]: "KC_TRNS = 1"

definition DYNAMIC_KEYMAP_EEPROM_ADDR :: nat where
  [hw_defs]: "DYNAMIC_KEYMAP_EEPROM_ADDR = VIA_EEPROM_CONFIG_END"
definition DYNAMIC_KEYMAP_EEPROM_MAX_ADDR :: nat where
  [hw_defs]: "DYNAMIC_KEYMAP_EEPROM_MAX_ADDR = TOTAL_EEPROM_BYTE_COUNT - 1"
definition DYNAMIC_KEYMAP_ENCODER_EEPROM_ADDR :: nat where
  [hw_defs]: "DYNAMIC_KEYMAP_ENCODER_EEPROM_ADDR =
    DYNAMIC_KEYMAP_EEPROM_ADDR + DYNAMIC_KEYMAP_LAYER_COUNT * MATRIX_ROWS * MATRIX_COLS * 2"
definition DYNAMIC_KEYMAP_MACRO_EEPROM_ADDR :: nat where
  [hw_defs]: "DYNAMIC_KEYMAP_MACRO_EEPROM_ADDR =
    DYNAMIC_KEYMAP_ENCODER_EEPROM_ADDR + DYNAMIC_KEYMAP_LAYER_COUNT * NUM_ENCODERS * 2 * 2"
definition DYNAMIC_KEYMAP_MACRO_EEPROM_SIZE :: nat where
  [hw_defs]: "DYNAMIC_KEYMAP_MACRO_EEPROM_SIZE =
    DYNAMIC_KEYMAP_EEPROM_MAX_ADDR - DYNAMIC_KEYMAP_MACRO_EEPROM_ADDR + 1"

text \<open>The keymap in flash: \<^verbatim>\<open>keymaps[layer][row][column]\<close> and \<^verbatim>\<open>encoder_map[layer][encoder][direction]\<close>.\<close>

record flash_keymap =
  keymaps :: "u16 list list list"
  encoder_map :: "u16 list list list"

definition keycode_at_keymap_location_raw :: "flash_keymap \<Rightarrow> nat \<Rightarrow> nat \<Rightarrow> nat \<Rightarrow> u16" where
  "keycode_at_keymap_location_raw K layer_num row column =
     (if layer_num < length (keymaps K) \<and> row < MATRIX_ROWS \<and> column < MATRIX_COLS
      then keymaps K ! layer_num ! row ! column else KC_TRNS)"

definition keycode_at_encodermap_location_raw :: "flash_keymap \<Rightarrow> nat \<Rightarrow> nat \<Rightarrow> bool \<Rightarrow> u16" where
  "keycode_at_encodermap_location_raw K layer_num encoder_idx clockwise =
     (if layer_num < length (encoder_map K) \<and> encoder_idx < NUM_ENCODERS
      then encoder_map K ! layer_num ! encoder_idx ! (if clockwise then 0 else 1) else KC_TRNS)"

subsection \<open>Storage\<close>

definition dynamic_keymap_key_to_eeprom_address :: "nat \<Rightarrow> nat \<Rightarrow> nat \<Rightarrow> nat" where
  "dynamic_keymap_key_to_eeprom_address layer row column =
     DYNAMIC_KEYMAP_EEPROM_ADDR + layer * MATRIX_ROWS * MATRIX_COLS * 2 + row * MATRIX_COLS * 2 + column * 2"

text \<open>A keycode is stored big-endian, in two separate byte writes.\<close>

definition read_be16 :: "'e eeprom_driver \<Rightarrow> nat \<Rightarrow> 'e \<Rightarrow> u16" where
  "read_be16 E address e =
     push_bit 8 (ucast (eeprom_read_byte E address e)) OR ucast (eeprom_read_byte E (address + 1) e)"

definition update_be16 :: "'e eeprom_driver \<Rightarrow> nat \<Rightarrow> u16 \<Rightarrow> 'e \<Rightarrow> 'e" where
  "update_be16 E address keycode e =
     eeprom_update_byte E (address + 1) (ucast (keycode AND 0xFF))
       (eeprom_update_byte E address (ucast (drop_bit 8 keycode)) e)"

definition nvm_dynamic_keymap_read_keycode :: "'e eeprom_driver \<Rightarrow> nat \<Rightarrow> nat \<Rightarrow> nat \<Rightarrow> 'e \<Rightarrow> u16" where
  "nvm_dynamic_keymap_read_keycode E layer row column e =
     (if DYNAMIC_KEYMAP_LAYER_COUNT \<le> layer \<or> MATRIX_ROWS \<le> row \<or> MATRIX_COLS \<le> column then KC_NO
      else read_be16 E (dynamic_keymap_key_to_eeprom_address layer row column) e)"

definition nvm_dynamic_keymap_update_keycode :: "'e eeprom_driver \<Rightarrow> nat \<Rightarrow> nat \<Rightarrow> nat \<Rightarrow> u16 \<Rightarrow> 'e \<Rightarrow> 'e" where
  "nvm_dynamic_keymap_update_keycode E layer row column keycode e =
     (if DYNAMIC_KEYMAP_LAYER_COUNT \<le> layer \<or> MATRIX_ROWS \<le> row \<or> MATRIX_COLS \<le> column then e
      else update_be16 E (dynamic_keymap_key_to_eeprom_address layer row column) keycode e)"

definition dynamic_keymap_encoder_to_eeprom_address :: "nat \<Rightarrow> nat \<Rightarrow> nat" where
  "dynamic_keymap_encoder_to_eeprom_address layer encoder_id =
     DYNAMIC_KEYMAP_ENCODER_EEPROM_ADDR + layer * NUM_ENCODERS * 2 * 2 + encoder_id * 2 * 2"

definition nvm_dynamic_keymap_read_encoder :: "'e eeprom_driver \<Rightarrow> nat \<Rightarrow> nat \<Rightarrow> bool \<Rightarrow> 'e \<Rightarrow> u16" where
  "nvm_dynamic_keymap_read_encoder E layer encoder_id clockwise e =
     (if DYNAMIC_KEYMAP_LAYER_COUNT \<le> layer \<or> NUM_ENCODERS \<le> encoder_id then KC_NO
      else read_be16 E (dynamic_keymap_encoder_to_eeprom_address layer encoder_id + (if clockwise then 0 else 2)) e)"

definition nvm_dynamic_keymap_update_encoder ::
  "'e eeprom_driver \<Rightarrow> nat \<Rightarrow> nat \<Rightarrow> bool \<Rightarrow> u16 \<Rightarrow> 'e \<Rightarrow> 'e" where
  "nvm_dynamic_keymap_update_encoder E layer encoder_id clockwise keycode e =
     (if DYNAMIC_KEYMAP_LAYER_COUNT \<le> layer \<or> NUM_ENCODERS \<le> encoder_id then e
      else update_be16 E (dynamic_keymap_encoder_to_eeprom_address layer encoder_id + (if clockwise then 0 else 2)) keycode e)"

text \<open>
  The buffer transfers walk byte by byte and skip what lies past the end of their region. The
  host chooses \<open>offset\<close> (16 bits); the source of an update is the packet.
\<close>

definition region_read :: "'e eeprom_driver \<Rightarrow> nat \<Rightarrow> nat \<Rightarrow> nat \<Rightarrow> nat \<Rightarrow> 'e \<Rightarrow> bytes" where
  "region_read E base region_size offset size_rd e =
     map (\<lambda>i. if offset + i < region_size then eeprom_read_byte E (base + offset + i) e else 0) [0..<size_rd]"

definition region_update :: "'e eeprom_driver \<Rightarrow> nat \<Rightarrow> nat \<Rightarrow> nat \<Rightarrow> bytes \<Rightarrow> 'e \<Rightarrow> 'e" where
  "region_update E base region_size offset data e =
     for_range (length data)
       (\<lambda>i e. if offset + i < region_size then eeprom_update_byte E (base + offset + i) (data ! i) e else e) e"

definition dynamic_keymap_eeprom_size :: nat where
  [hw_defs]: "dynamic_keymap_eeprom_size = DYNAMIC_KEYMAP_LAYER_COUNT * MATRIX_ROWS * MATRIX_COLS * 2"

definition nvm_dynamic_keymap_read_buffer :: "'e eeprom_driver \<Rightarrow> nat \<Rightarrow> nat \<Rightarrow> 'e \<Rightarrow> bytes" where
  "nvm_dynamic_keymap_read_buffer E offset size_rd e =
     region_read E DYNAMIC_KEYMAP_EEPROM_ADDR dynamic_keymap_eeprom_size offset size_rd e"

definition nvm_dynamic_keymap_update_buffer :: "'e eeprom_driver \<Rightarrow> nat \<Rightarrow> bytes \<Rightarrow> 'e \<Rightarrow> 'e" where
  "nvm_dynamic_keymap_update_buffer E offset data e =
     region_update E DYNAMIC_KEYMAP_EEPROM_ADDR dynamic_keymap_eeprom_size offset data e"

definition nvm_dynamic_keymap_macro_size :: nat where
  "nvm_dynamic_keymap_macro_size = DYNAMIC_KEYMAP_MACRO_EEPROM_SIZE"

definition nvm_dynamic_keymap_macro_read_buffer :: "'e eeprom_driver \<Rightarrow> nat \<Rightarrow> nat \<Rightarrow> 'e \<Rightarrow> bytes" where
  "nvm_dynamic_keymap_macro_read_buffer E offset size_rd e =
     region_read E DYNAMIC_KEYMAP_MACRO_EEPROM_ADDR DYNAMIC_KEYMAP_MACRO_EEPROM_SIZE offset size_rd e"

definition nvm_dynamic_keymap_macro_update_buffer :: "'e eeprom_driver \<Rightarrow> nat \<Rightarrow> bytes \<Rightarrow> 'e \<Rightarrow> 'e" where
  "nvm_dynamic_keymap_macro_update_buffer E offset data e =
     region_update E DYNAMIC_KEYMAP_MACRO_EEPROM_ADDR DYNAMIC_KEYMAP_MACRO_EEPROM_SIZE offset data e"

definition nvm_dynamic_keymap_macro_reset :: "'e eeprom_driver \<Rightarrow> 'e \<Rightarrow> 'e" where
  "nvm_dynamic_keymap_macro_reset E =
     eeprom_zero_region E DYNAMIC_KEYMAP_MACRO_EEPROM_ADDR DYNAMIC_KEYMAP_MACRO_EEPROM_SIZE"

subsection \<open>\<^verbatim>\<open>dynamic_keymap.c\<close>\<close>

definition dynamic_keymap_get_layer_count :: u8 where
  "dynamic_keymap_get_layer_count = word_of_nat DYNAMIC_KEYMAP_LAYER_COUNT"

definition dynamic_keymap_get_keycode :: "'e eeprom_driver \<Rightarrow> nat \<Rightarrow> nat \<Rightarrow> nat \<Rightarrow> 'e \<Rightarrow> u16" where
  "dynamic_keymap_get_keycode E layer row column e = nvm_dynamic_keymap_read_keycode E layer row column e"

definition dynamic_keymap_set_keycode :: "'e eeprom_driver \<Rightarrow> nat \<Rightarrow> nat \<Rightarrow> nat \<Rightarrow> u16 \<Rightarrow> 'e \<Rightarrow> 'e" where
  "dynamic_keymap_set_keycode E layer row column keycode e = nvm_dynamic_keymap_update_keycode E layer row column keycode e"

definition dynamic_keymap_get_encoder :: "'e eeprom_driver \<Rightarrow> nat \<Rightarrow> nat \<Rightarrow> bool \<Rightarrow> 'e \<Rightarrow> u16" where
  "dynamic_keymap_get_encoder E layer encoder_id clockwise e = nvm_dynamic_keymap_read_encoder E layer encoder_id clockwise e"

definition dynamic_keymap_set_encoder :: "'e eeprom_driver \<Rightarrow> nat \<Rightarrow> nat \<Rightarrow> bool \<Rightarrow> u16 \<Rightarrow> 'e \<Rightarrow> 'e" where
  "dynamic_keymap_set_encoder E layer encoder_id clockwise keycode e =
     nvm_dynamic_keymap_update_encoder E layer encoder_id clockwise keycode e"

definition reset_row :: "'e eeprom_driver \<Rightarrow> flash_keymap \<Rightarrow> nat \<Rightarrow> nat \<Rightarrow> 'e \<Rightarrow> 'e" where
  "reset_row E K layer row =
     for_range MATRIX_COLS (\<lambda>column. dynamic_keymap_set_keycode E layer row column
       (keycode_at_keymap_location_raw K layer row column))"

definition reset_layer :: "'e eeprom_driver \<Rightarrow> flash_keymap \<Rightarrow> nat \<Rightarrow> 'e \<Rightarrow> 'e" where
  "reset_layer E K layer e =
     for_range NUM_ENCODERS (\<lambda>enc e.
         dynamic_keymap_set_encoder E layer enc False (keycode_at_encodermap_location_raw K layer enc False)
           (dynamic_keymap_set_encoder E layer enc True (keycode_at_encodermap_location_raw K layer enc True) e))
       (for_range MATRIX_ROWS (reset_row E K layer) e)"

definition dynamic_keymap_reset :: "'e eeprom_driver \<Rightarrow> flash_keymap \<Rightarrow> 'e \<Rightarrow> 'e" where
  "dynamic_keymap_reset E K = for_range DYNAMIC_KEYMAP_LAYER_COUNT (reset_layer E K)"

definition dynamic_keymap_get_buffer :: "'e eeprom_driver \<Rightarrow> nat \<Rightarrow> nat \<Rightarrow> 'e \<Rightarrow> bytes" where
  "dynamic_keymap_get_buffer E offset size_rd e = nvm_dynamic_keymap_read_buffer E offset size_rd e"

definition dynamic_keymap_set_buffer :: "'e eeprom_driver \<Rightarrow> nat \<Rightarrow> bytes \<Rightarrow> 'e \<Rightarrow> 'e" where
  "dynamic_keymap_set_buffer E offset data e = nvm_dynamic_keymap_update_buffer E offset data e"

definition keycode_at_keymap_location :: "'e eeprom_driver \<Rightarrow> nat \<Rightarrow> nat \<Rightarrow> nat \<Rightarrow> 'e \<Rightarrow> u16" where
  "keycode_at_keymap_location E layer_num row column e =
     (if layer_num < DYNAMIC_KEYMAP_LAYER_COUNT \<and> row < MATRIX_ROWS \<and> column < MATRIX_COLS
      then dynamic_keymap_get_keycode E layer_num row column e else KC_NO)"

definition keycode_at_encodermap_location :: "'e eeprom_driver \<Rightarrow> nat \<Rightarrow> nat \<Rightarrow> bool \<Rightarrow> 'e \<Rightarrow> u16" where
  "keycode_at_encodermap_location E layer_num encoder_idx clockwise e =
     (if layer_num < DYNAMIC_KEYMAP_LAYER_COUNT \<and> encoder_idx < NUM_ENCODERS
      then dynamic_keymap_get_encoder E layer_num encoder_idx clockwise e else KC_NO)"

definition dynamic_keymap_macro_get_count :: u8 where
  "dynamic_keymap_macro_get_count = word_of_nat DYNAMIC_KEYMAP_MACRO_COUNT"

definition dynamic_keymap_macro_get_buffer_size :: u16 where
  "dynamic_keymap_macro_get_buffer_size = word_of_nat nvm_dynamic_keymap_macro_size"

definition dynamic_keymap_macro_get_buffer :: "'e eeprom_driver \<Rightarrow> nat \<Rightarrow> nat \<Rightarrow> 'e \<Rightarrow> bytes" where
  "dynamic_keymap_macro_get_buffer E offset size_rd e = nvm_dynamic_keymap_macro_read_buffer E offset size_rd e"

definition dynamic_keymap_macro_set_buffer :: "'e eeprom_driver \<Rightarrow> nat \<Rightarrow> bytes \<Rightarrow> 'e \<Rightarrow> 'e" where
  "dynamic_keymap_macro_set_buffer E offset data e = nvm_dynamic_keymap_macro_update_buffer E offset data e"

definition dynamic_keymap_read_byte :: "'e eeprom_driver \<Rightarrow> nat \<Rightarrow> 'e \<Rightarrow> u8" where
  "dynamic_keymap_read_byte E offset e = nvm_dynamic_keymap_macro_read_buffer E offset 1 e ! 0"

definition dynamic_keymap_macro_reset :: "'e eeprom_driver \<Rightarrow> 'e \<Rightarrow> 'e" where
  "dynamic_keymap_macro_reset E = nvm_dynamic_keymap_macro_reset E"

text \<open>
  Finding macro \<open>id\<close>: skip \<open>id\<close> null bytes from the start of the buffer. \<open>left\<close> is the distance
  to the end; the result is the offset the macro is sent from, or nothing.
\<close>

fun macro_skip :: "'e eeprom_driver \<Rightarrow> nat \<Rightarrow> nat \<Rightarrow> nat \<Rightarrow> 'e \<Rightarrow> nat option" where
  "macro_skip E left 0 offset e = Some offset"
| "macro_skip E 0 (Suc mid) offset e = None"
| "macro_skip E (Suc left) (Suc mid) offset e =
     macro_skip E left (if dynamic_keymap_read_byte E offset e = 0 then mid else Suc mid) (offset + 1) e"

definition dynamic_keymap_macro_start :: "'e eeprom_driver \<Rightarrow> nat \<Rightarrow> 'e \<Rightarrow> nat option" where
  "dynamic_keymap_macro_start E mid e =
     (if DYNAMIC_KEYMAP_MACRO_COUNT \<le> mid then None
      else if dynamic_keymap_read_byte E (nvm_dynamic_keymap_macro_size - 1) e \<noteq> 0 then None
      else macro_skip E nvm_dynamic_keymap_macro_size mid 0 e)"

section \<open>A keymap slot holds what was last stored in it\<close>

text \<open>
  \<open>slot_store\<close> is the interface of the stored keymap: named slots, an update that is read back
  and leaves every other slot alone.
\<close>

locale slot_store =
  fixes rd :: "'k \<Rightarrow> 'e \<Rightarrow> 'v"
    and wr :: "'k \<Rightarrow> 'v \<Rightarrow> 'e \<Rightarrow> 'e"
    and valid :: "'k \<Rightarrow> bool"
    and ok :: "'e \<Rightarrow> bool"
  assumes ok_wr: "ok e \<Longrightarrow> valid k \<Longrightarrow> ok (wr k x e)"
    and rd_wr_same: "ok e \<Longrightarrow> valid k \<Longrightarrow> rd k (wr k x e) = x"
    and rd_wr_other: "ok e \<Longrightarrow> valid k \<Longrightarrow> valid k' \<Longrightarrow> k' \<noteq> k \<Longrightarrow> rd k' (wr k x e) = rd k' e"
begin

lemma fill_slots:
  assumes "ok e" "\<forall>k\<in>set ks. valid k"
  shows "ok (fold (\<lambda>k. wr k (f k)) ks e)"
    and "valid k' \<Longrightarrow> rd k' (fold (\<lambda>k. wr k (f k)) ks e) = (if k' \<in> set ks then f k' else rd k' e)"
proof -
  have "ok (fold (\<lambda>k. wr k (f k)) ks e) \<and>
    (valid k' \<longrightarrow> rd k' (fold (\<lambda>k. wr k (f k)) ks e) = (if k' \<in> set ks then f k' else rd k' e))"
    using assms
  proof (induction ks arbitrary: e)
    case (Cons k ks)
    have "ok (wr k (f k) e)" using ok_wr Cons.prems by simp
    then show ?case
      using Cons.IH [of "wr k (f k) e"] Cons.prems rd_wr_same [of e k "f k"] rd_wr_other [of e k k' "f k"] by auto
  qed simp
  then show "ok (fold (\<lambda>k. wr k (f k)) ks e)"
    and "valid k' \<Longrightarrow> rd k' (fold (\<lambda>k. wr k (f k)) ks e) = (if k' \<in> set ks then f k' else rd k' e)" by auto
qed

end

datatype slot = Key nat nat nat | Enc nat nat bool

fun slot_valid :: "slot \<Rightarrow> bool" where
  "slot_valid (Key layer row column) \<longleftrightarrow> layer < DYNAMIC_KEYMAP_LAYER_COUNT \<and> row < MATRIX_ROWS \<and> column < MATRIX_COLS"
| "slot_valid (Enc layer encoder_id clockwise) \<longleftrightarrow> layer < DYNAMIC_KEYMAP_LAYER_COUNT \<and> encoder_id < NUM_ENCODERS"

fun slot_address :: "slot \<Rightarrow> nat" where
  "slot_address (Key layer row column) = dynamic_keymap_key_to_eeprom_address layer row column"
| "slot_address (Enc layer encoder_id clockwise) =
     dynamic_keymap_encoder_to_eeprom_address layer encoder_id + (if clockwise then 0 else 2)"

fun slot_get :: "'e eeprom_driver \<Rightarrow> slot \<Rightarrow> 'e \<Rightarrow> u16" where
  "slot_get E (Key layer row column) = dynamic_keymap_get_keycode E layer row column"
| "slot_get E (Enc layer encoder_id clockwise) = dynamic_keymap_get_encoder E layer encoder_id clockwise"

fun slot_set :: "'e eeprom_driver \<Rightarrow> slot \<Rightarrow> u16 \<Rightarrow> 'e \<Rightarrow> 'e" where
  "slot_set E (Key layer row column) = dynamic_keymap_set_keycode E layer row column"
| "slot_set E (Enc layer encoder_id clockwise) = dynamic_keymap_set_encoder E layer encoder_id clockwise"

fun slot_raw :: "flash_keymap \<Rightarrow> slot \<Rightarrow> u16" where
  "slot_raw K (Key layer row column) = keycode_at_keymap_location_raw K layer row column"
| "slot_raw K (Enc layer encoder_id clockwise) = keycode_at_encodermap_location_raw K layer encoder_id clockwise"

lemmas slot_defs = dynamic_keymap_get_keycode_def dynamic_keymap_set_keycode_def dynamic_keymap_get_encoder_def
  dynamic_keymap_set_encoder_def nvm_dynamic_keymap_read_keycode_def nvm_dynamic_keymap_update_keycode_def
  nvm_dynamic_keymap_read_encoder_def nvm_dynamic_keymap_update_encoder_def

lemma slot_get_valid: "slot_valid k \<Longrightarrow> slot_get E k e = read_be16 E (slot_address k) e"
  by (cases k) (auto simp: slot_defs)

lemma slot_set_valid: "slot_valid k \<Longrightarrow> slot_set E k x e = update_be16 E (slot_address k) x e"
  by (cases k) (auto simp: slot_defs)

text \<open>Slots lie in the keymap region, at even distances from its start, each at its own.\<close>

lemma slot_address_range:
  "slot_valid k \<Longrightarrow> DYNAMIC_KEYMAP_EEPROM_ADDR \<le> slot_address k \<and> slot_address k + 2 \<le> DYNAMIC_KEYMAP_MACRO_EEPROM_ADDR"
  by (cases k) (auto simp: dynamic_keymap_key_to_eeprom_address_def dynamic_keymap_encoder_to_eeprom_address_def hw_defs)

lemma slot_address_index:
  assumes "slot_valid k"
  obtains i where "slot_address k = DYNAMIC_KEYMAP_EEPROM_ADDR + 2 * i"
    "i = (case k of Key l r c \<Rightarrow> (l * 5 + r) * 16 + c | Enc l n d \<Rightarrow> 320 + l * 2 + (if d then 0 else 1))"
  using assms
  by (cases k) (auto simp: dynamic_keymap_key_to_eeprom_address_def dynamic_keymap_encoder_to_eeprom_address_def hw_defs)

lemma mixed_radix_inject:
  assumes "80 * l + r * 16 + c = 80 * l' + r' * 16 + (c' :: nat)" "c < 16" "c' < 16" "r < 5" "r' < 5"
  shows "l = l' \<and> r = r' \<and> c = c'"
proof -
  have n: "16 * (5 * l + r) + c = 16 * (5 * l' + r') + c'" using assms(1) by (simp add: algebra_simps)
  have "(16 * x + y) mod 16 = y" if "y < 16" for x y :: nat using that by simp
  then have c: "c = c'" using n assms(2,3) by metis
  then have eq: "5 * l + r = 5 * l' + r'" using n by simp
  have "(5 * x + y) mod 5 = y" if "y < 5" for x y :: nat using that by simp
  then have "r = r'" using eq assms(4,5) by metis
  then show ?thesis using eq c by simp
qed

lemma double_Suc: "x * 2 \<noteq> Suc (y * 2)" "Suc (y * 2) \<noteq> x * (2 :: nat)"
  by presburger+

lemma slot_address_inject:
  assumes "slot_valid k" "slot_valid k'" "k \<noteq> k'"
  shows "slot_address k + 2 \<le> slot_address k' \<or> slot_address k' + 2 \<le> slot_address k"
proof -
  obtain i where i: "slot_address k = DYNAMIC_KEYMAP_EEPROM_ADDR + 2 * i"
    "i = (case k of Key l r c \<Rightarrow> (l * 5 + r) * 16 + c | Enc l n d \<Rightarrow> 320 + l * 2 + (if d then 0 else 1))"
    using slot_address_index [OF assms(1)] .
  obtain j where j: "slot_address k' = DYNAMIC_KEYMAP_EEPROM_ADDR + 2 * j"
    "j = (case k' of Key l r c \<Rightarrow> (l * 5 + r) * 16 + c | Enc l n d \<Rightarrow> 320 + l * 2 + (if d then 0 else 1))"
    using slot_address_index [OF assms(2)] .
  have "i \<noteq> j"
    using assms i(2) j(2) by (cases k; cases k') (auto simp: hw_defs double_Suc dest: mixed_radix_inject split: if_splits)
  then show ?thesis using i(1) j(1) by auto
qed

lemma be16_bytes: "push_bit 8 (ucast (ucast (drop_bit 8 w) :: u8)) OR ucast (ucast (w AND 0xFF) :: u8) = (w :: u16)"
  by (rule bit_word_eqI) (auto simp: bit_simps and_masks)

context board_eeprom
begin

lemma update_be16_view:
  assumes "inv e" "a + 2 \<le> 8192"
  shows "inv (update_be16 E a x e)"
    and "view (update_be16 E a x e) = blit a [ucast (drop_bit 8 x), ucast (x AND 0xFF)] (view e)"
proof -
  show "inv (update_be16 E a x e)" using assms by (simp add: update_be16_def)
  have "view (update_be16 E a x e) = (view e)[a := ucast (drop_bit 8 x), a + 1 := ucast (x AND 0xFF)]"
    using assms by (simp add: update_be16_def update_byte_view)
  also have "\<dots> = blit a [ucast (drop_bit 8 x), ucast (x AND 0xFF)] (view e)"
    using assms by (auto intro!: nth_equalityI simp: nth_blit nth_list_update nth_Cons')
  finally show "view (update_be16 E a x e) = blit a [ucast (drop_bit 8 x), ucast (x AND 0xFF)] (view e)" .
qed

lemma read_be16_view:
  "inv e \<Longrightarrow> a + 2 \<le> 8192 \<Longrightarrow> read_be16 E a e = push_bit 8 (ucast (view e ! a)) OR ucast (view e ! (a + 1))"
  by (simp add: read_be16_def read_byte_view)

lemma read_update_be16:
  assumes "inv e" "a + 2 \<le> 8192" "b + 2 \<le> 8192"
  shows "read_be16 E a (update_be16 E a x e) = x"
    and "a + 2 \<le> b \<or> b + 2 \<le> a \<Longrightarrow> read_be16 E b (update_be16 E a x e) = read_be16 E b e"
proof -
  note u = update_be16_view [OF assms(1,2), of x]
  show "read_be16 E a (update_be16 E a x e) = x"
    using assms u be16_bytes [of x] by (simp add: read_be16_view nth_blit)
  show "read_be16 E b (update_be16 E a x e) = read_be16 E b e" if "a + 2 \<le> b \<or> b + 2 \<le> a"
    using assms u that by (auto simp: read_be16_view nth_blit)
qed

lemma slot_in_eeprom: "slot_valid k \<Longrightarrow> slot_address k + 2 \<le> 8192"
  using slot_address_range [of k] by (simp add: hw_defs)

end

sublocale board_eeprom \<subseteq> slots: slot_store "slot_get E" "slot_set E" slot_valid inv
proof
  fix e :: 'e and k k' :: slot and x :: u16
  assume e: "inv e" and k: "slot_valid k"
  note s = slot_in_eeprom [OF k]
  show "inv (slot_set E k x e)" using update_be16_view(1) [OF e s] by (simp add: slot_set_valid k)
  show "slot_get E k (slot_set E k x e) = x"
    using read_update_be16(1) [OF e s s] by (simp add: slot_set_valid slot_get_valid k)
  show "slot_get E k' (slot_set E k x e) = slot_get E k' e" if "slot_valid k'" "k' \<noteq> k"
    using read_update_be16(2) [OF e s slot_in_eeprom [OF that(1)]] slot_address_inject [OF k that(1)] that k
    by (simp add: slot_set_valid slot_get_valid)
qed

section \<open>Resetting the keymap\<close>

definition reset_slots :: "slot list" where
  "reset_slots = concat (map (\<lambda>layer.
      concat (map (\<lambda>row. map (Key layer row) [0..<MATRIX_COLS]) [0..<MATRIX_ROWS])
      @ concat (map (\<lambda>enc. [Enc layer enc True, Enc layer enc False]) [0..<NUM_ENCODERS]))
    [0..<DYNAMIC_KEYMAP_LAYER_COUNT])"

lemma fold_concat_map: "fold (\<lambda>i. fold f (g i)) xs s = fold f (concat (map g xs)) s"
  by (induction xs arbitrary: s) simp_all

lemma dynamic_keymap_reset_fold:
  "dynamic_keymap_reset E K e = fold (\<lambda>k. slot_set E k (slot_raw K k)) reset_slots e"
proof -
  let ?f = "\<lambda>k. slot_set E k (slot_raw K k)"
  have row: "reset_row E K layer row = fold ?f (map (Key layer row) [0..<MATRIX_COLS])" for layer row
    by (simp add: reset_row_def for_range_def fold_map comp_def fun_eq_iff)
  have enc: "(\<lambda>enc e. dynamic_keymap_set_encoder E layer enc False (keycode_at_encodermap_location_raw K layer enc False)
        (dynamic_keymap_set_encoder E layer enc True (keycode_at_encodermap_location_raw K layer enc True) e))
      = (\<lambda>enc. fold ?f [Enc layer enc True, Enc layer enc False])" for layer
    by (simp add: fun_eq_iff)
  have layer: "reset_layer E K layer = fold ?f
      (concat (map (\<lambda>row. map (Key layer row) [0..<MATRIX_COLS]) [0..<MATRIX_ROWS])
       @ concat (map (\<lambda>enc. [Enc layer enc True, Enc layer enc False]) [0..<NUM_ENCODERS]))" for layer
    unfolding fun_eq_iff reset_layer_def for_range_def row enc fold_append comp_def fold_concat_map by simp
  show ?thesis unfolding dynamic_keymap_reset_def for_range_def layer reset_slots_def fold_concat_map ..
qed

lemma reset_slots_all: "set reset_slots = {k. slot_valid k}"
proof (rule set_eqI)
  fix k show "k \<in> set reset_slots \<longleftrightarrow> k \<in> {k. slot_valid k}"
    by (cases k) (fastforce simp: reset_slots_def image_iff)+
qed

context board_eeprom
begin

lemma keymap_reset:
  assumes "inv e"
  shows "inv (dynamic_keymap_reset E K e)"
    and "slot_valid k \<Longrightarrow> slot_get E k (dynamic_keymap_reset E K e) = slot_raw K k"
  using slots.fill_slots [OF assms, of reset_slots] by (simp_all add: dynamic_keymap_reset_fold reset_slots_all)

text \<open>A buffer transfer stays inside its region.\<close>

lemma region_update_view:
  assumes "inv e" "base + region \<le> 8192"
  shows "inv (region_update E base region offset data e) \<and>
    length (view (region_update E base region offset data e)) = 8192 \<and>
    (\<forall>j < 8192. view (region_update E base region offset data e) ! j =
      (if base + offset \<le> j \<and> j < base + offset + length data \<and> j < base + region
       then data ! (j - (base + offset)) else view e ! j))"
proof -
  define body where "body = (\<lambda>i e. if offset + i < region then eeprom_update_byte E (base + offset + i) (data ! i) e else e)"
  have "inv (for_range n body e) \<and> (\<forall>j < 8192. view (for_range n body e) ! j =
      (if base + offset \<le> j \<and> j < base + offset + n \<and> j < base + region then data ! (j - (base + offset)) else view e ! j))" for n
  proof (induction n)
    case 0
    then show ?case using assms by auto
  next
    case (Suc n)
    let ?t = "for_range n body e"
    have t: "inv ?t" "\<And>j. j < 8192 \<Longrightarrow> view ?t ! j =
      (if base + offset \<le> j \<and> j < base + offset + n \<and> j < base + region then data ! (j - (base + offset)) else view e ! j)"
      using Suc by auto
    show ?case
    proof (cases "offset + n < region")
      case True
      then have a: "base + offset + n < 8192" using assms(2) by simp
      then have "inv (body n ?t)" "view (body n ?t) = (view ?t)[base + offset + n := data ! n]"
        using True t(1) by (simp_all add: body_def update_byte_view)
      then show ?thesis using t a True by (auto simp: for_range_Suc nth_list_update)
    next
      case False
      then show ?thesis using t by (auto simp: for_range_Suc body_def)
    qed
  qed
  from this [of "length data"] show ?thesis unfolding region_update_def body_def by simp
qed

lemma region_read_view:
  assumes "inv e" "base + region \<le> 8192"
  shows "region_read E base region offset n e =
    map (\<lambda>i. if offset + i < region then view e ! (base + offset + i) else 0) [0..<n]"
  using assms by (auto simp: region_read_def read_byte_view)

lemma region_roundtrip:
  assumes "inv e" "base + region \<le> 8192" "offset + length data \<le> region"
  shows "region_read E base region offset (length data) (region_update E base region offset data e) = data"
proof -
  note u = region_update_view [OF assms(1,2), of offset data]
  show ?thesis
    unfolding region_read_view [OF conjunct1 [OF u] assms(2)]
    using u assms(2,3) by (intro nth_equalityI) (simp_all add: add.assoc)
qed

end

end
