(* ===== verification/Color.thy ===== *)
theory Color
  imports Prelude
begin

text \<open>
  Colour conversion, \<^verbatim>\<open>quantum/color.c\<close>, with the lightness table of \<^verbatim>\<open>quantum/led_tables.c\<close> that the
  RGB light feature switches on. The computation follows the C types: the inputs widen to 16 bits,
  the arithmetic is done in \<^verbatim>\<open>int\<close>, the results are stored in bytes.
\<close>

section \<open>Model\<close>

record rgb_t =
  rgb_r :: u8
  rgb_g :: u8
  rgb_b :: u8

record hsv_t =
  hsv_h :: u8
  hsv_s :: u8
  hsv_v :: u8

definition CIE1931_CURVE :: "u8 list" where
  "CIE1931_CURVE =
    [0, 1, 1, 1, 1, 1, 1, 1, 1, 1, 2, 2, 2, 2, 2, 2,
     2, 2, 2, 3, 3, 3, 3, 3, 3, 3, 3, 4, 4, 4, 4, 4,
     4, 4, 5, 5, 5, 5, 5, 6, 6, 6, 6, 6, 7, 7, 7, 7,
     7, 8, 8, 8, 8, 9, 9, 9, 9, 10, 10, 10, 11, 11, 11, 12,
     12, 12, 13, 13, 13, 14, 14, 14, 15, 15, 15, 16, 16, 17, 17, 17,
     18, 18, 19, 19, 20, 20, 21, 21, 22, 22, 23, 23, 24, 24, 25, 25,
     26, 26, 27, 27, 28, 29, 29, 30, 30, 31, 32, 32, 33, 34, 34, 35,
     36, 36, 37, 38, 38, 39, 40, 41, 41, 42, 43, 44, 45, 45, 46, 47,
     48, 49, 50, 50, 51, 52, 53, 54, 55, 56, 57, 58, 59, 60, 61, 62,
     63, 64, 65, 66, 67, 68, 69, 70, 71, 72, 73, 74, 76, 77, 78, 79,
     80, 81, 83, 84, 85, 86, 88, 89, 90, 91, 93, 94, 95, 97, 98, 100,
     101, 102, 104, 105, 107, 108, 109, 111, 112, 114, 115, 117, 119, 120, 122, 123,
     125, 126, 128, 130, 131, 133, 135, 136, 138, 140, 142, 143, 145, 147, 149, 150,
     152, 154, 156, 158, 160, 162, 163, 165, 167, 169, 171, 173, 175, 177, 179, 181,
     183, 186, 188, 190, 192, 194, 196, 198, 201, 203, 205, 207, 209, 212, 214, 216,
     219, 221, 223, 226, 228, 231, 233, 235, 238, 240, 243, 245, 248, 250, 253, 255]"

definition hsv_to_rgb_impl :: "hsv_t \<Rightarrow> bool \<Rightarrow> rgb_t" where
  "hsv_to_rgb_impl hsv use_cie =
     (let level = (if use_cie then CIE1931_CURVE ! unat (hsv_v hsv) else hsv_v hsv) in
      if hsv_s hsv = 0 then \<lparr>rgb_r = level, rgb_g = level, rgb_b = level\<rparr>
      else
        let hh = uint (hsv_h hsv); ss = uint (hsv_s hsv); vv = uint level;
            region = word_of_int (hh * 6 div 255) :: u8;
            remainder = word_of_int ((hh * 2 - uint region * 85) * 3) :: u8;
            p = word_of_int (vv * (255 - ss) div 256) :: u8;
            q = word_of_int (vv * (255 - ss * uint remainder div 256) div 256) :: u8;
            t = word_of_int (vv * (255 - ss * (255 - uint remainder) div 256) div 256) :: u8 in
        if region = 6 \<or> region = 0 then \<lparr>rgb_r = level, rgb_g = t, rgb_b = p\<rparr>
        else if region = 1 then \<lparr>rgb_r = q, rgb_g = level, rgb_b = p\<rparr>
        else if region = 2 then \<lparr>rgb_r = p, rgb_g = level, rgb_b = t\<rparr>
        else if region = 3 then \<lparr>rgb_r = p, rgb_g = q, rgb_b = level\<rparr>
        else if region = 4 then \<lparr>rgb_r = t, rgb_g = p, rgb_b = level\<rparr>
        else \<lparr>rgb_r = level, rgb_g = p, rgb_b = q\<rparr>)"

definition hsv_to_rgb :: "hsv_t \<Rightarrow> rgb_t" where
  "hsv_to_rgb hsv = hsv_to_rgb_impl hsv True"

definition hsv_to_rgb_nocie :: "hsv_t \<Rightarrow> rgb_t" where
  "hsv_to_rgb_nocie hsv = hsv_to_rgb_impl hsv False"

section \<open>No channel is brighter than the requested value\<close>

lemma scaled_le:
  assumes "0 \<le> k" "k \<le> 255"
  shows "(word_of_int (uint (x :: u8) * k div 256) :: u8) \<le> x"
proof -
  have x: "0 \<le> uint x" "uint x < 256" using uint_bounded [of x] by auto
  have "uint x * k \<le> uint x * 255" using x assms by (intro mult_left_mono) auto
  also have "\<dots> \<le> uint x * 256" using x by simp
  finally have le: "uint x * k div 256 \<le> uint x" by linarith
  have "0 \<le> uint x * k" using x assms by simp
  then have "0 \<le> uint x * k div 256" by (simp add: pos_imp_zdiv_nonneg_iff)
  then have "uint (word_of_int (uint x * k div 256) :: u8) = uint x * k div 256"
    using le x by (simp add: uint_word_of_int take_bit_int_eq_self)
  then show ?thesis using le by (simp add: word_le_def)
qed

text \<open>The peak of a colour is the level the value maps to.\<close>

definition hsv_level :: "bool \<Rightarrow> u8 \<Rightarrow> u8" where
  "hsv_level use_cie val = (if use_cie then CIE1931_CURVE ! unat val else val)"

lemma hsv_to_rgb_bounded:
  fixes hsv use_cie
  defines "rgb \<equiv> hsv_to_rgb_impl hsv use_cie"
  shows "rgb_r rgb \<le> hsv_level use_cie (hsv_v hsv) \<and> rgb_g rgb \<le> hsv_level use_cie (hsv_v hsv)
    \<and> rgb_b rgb \<le> hsv_level use_cie (hsv_v hsv)"
proof -
  define x where "x = hsv_level use_cie (hsv_v hsv)"
  define ss where "ss = uint (hsv_s hsv)"
  have ss: "0 \<le> ss" "ss \<le> 255" using uint_bounded [of "hsv_s hsv"] by (auto simp: ss_def)
  have frac: "0 \<le> 255 - ss * m div 256 \<and> 255 - ss * m div 256 \<le> 255" if "0 \<le> m" "m \<le> 255" for m
  proof -
    have "ss * m \<le> 255 * 255" using ss that by (intro mult_mono) auto
    moreover have "0 \<le> ss * m" using ss that by simp
    ultimately show ?thesis by (auto simp: div_le_dividend)
  qed
  have rem: "0 \<le> uint (m :: u8) \<and> uint m \<le> 255" for m using uint_bounded [of m] by auto
  have "(word_of_int (uint x * (255 - ss) div 256) :: u8) \<le> x" using ss by (intro scaled_le) auto
  moreover have "(word_of_int (uint x * (255 - ss * uint (m :: u8) div 256) div 256) :: u8) \<le> x" for m
    using frac [of "uint m"] rem [of m] by (intro scaled_le) auto
  moreover have "(word_of_int (uint x * (255 - ss * (255 - uint (m :: u8)) div 256) div 256) :: u8) \<le> x" for m
    using frac [of "255 - uint m"] rem [of m] by (intro scaled_le) auto
  ultimately show ?thesis
    unfolding rgb_def hsv_to_rgb_impl_def Let_def hsv_level_def [symmetric] x_def [symmetric] ss_def [symmetric]
    by simp
qed

text \<open>The table is monotone, so limiting the value limits the level.\<close>

lemma CIE1931_CURVE_sorted: "sorted CIE1931_CURVE" "length CIE1931_CURVE = 256"
proof -
  have "successively (\<le>) CIE1931_CURVE" by (simp add: CIE1931_CURVE_def)
  then show "sorted CIE1931_CURVE" by (simp add: successively_conv_sorted_wrt transp_on_le)
  show "length CIE1931_CURVE = 256" by (simp add: CIE1931_CURVE_def)
qed

lemma hsv_level_mono: "x \<le> y \<Longrightarrow> hsv_level c x \<le> hsv_level c y"
  using sorted_nth_mono [OF CIE1931_CURVE_sorted(1), of "unat x" "unat y"] CIE1931_CURVE_sorted(2)
  by (auto simp: hsv_level_def word_le_nat_alt)

end
