(* ===== verification/Rgblight.thy ===== *)
theory Rgblight
  imports Nvm_Eeconfig Color
begin

text \<open>
  RGB light, \<^verbatim>\<open>quantum/rgblight/rgblight.c\<close>, in the configuration of the board: 68 WS2812 LEDs, no
  animation effect (so the only mode is the static light and the animation timer is compiled
  out), no layers, no split, brightness limit 128.

  \<open>core\<close> is the part of the firmware's globals these functions touch: the EEPROM, the RGB light
  variables and the LED driver's buffer (\<^verbatim>\<open>ws2812_leds\<close>) with what was last sent to the strip. Other
  components extend the record with their own globals.
\<close>

section \<open>Model\<close>

subsection \<open>State\<close>

record rgblight_config_t =
  rgb_enable :: bool
  rgb_velocikey :: bool
  rgb_mode :: u8
  rgb_hue :: u8
  rgb_sat :: u8
  rgb_val :: u8
  rgb_speed :: u8

text \<open>The bit-field layout of the 64-bit configuration word.\<close>

definition rgblight_raw :: "rgblight_config_t \<Rightarrow> u64" where
  "rgblight_raw c =
     (if rgb_enable c then 1 else 0) OR push_bit 1 (if rgb_velocikey c then 1 else 0)
       OR push_bit 2 (ucast (take_bit 6 (rgb_mode c))) OR push_bit 8 (ucast (rgb_hue c))
       OR push_bit 16 (ucast (rgb_sat c)) OR push_bit 24 (ucast (rgb_val c)) OR push_bit 32 (ucast (rgb_speed c))"

definition rgblight_of_raw :: "u64 \<Rightarrow> rgblight_config_t" where
  "rgblight_of_raw raw =
     \<lparr>rgb_enable = bit raw 0, rgb_velocikey = bit raw 1, rgb_mode = ucast (take_bit 6 (drop_bit 2 raw)),
      rgb_hue = ucast (drop_bit 8 raw), rgb_sat = ucast (drop_bit 16 raw), rgb_val = ucast (drop_bit 24 raw),
      rgb_speed = ucast (drop_bit 32 raw)\<rparr>"

record rgblight_globals =
  rgblight_config :: rgblight_config_t
  rgb_base_mode :: u8
  is_rgblight_initialized :: bool
  clipping_start_pos :: u8
  clipping_num_leds :: u8
  effect_start_pos :: u8
  effect_end_pos :: u8
  effect_num_leds :: u8
  ws2812_leds :: "rgb_t list"
  ws2812_strip :: "rgb_t list"

record 'e core =
  ee :: 'e
  rgblight :: rgblight_globals

definition RGBLIGHT_LED_COUNT :: nat where [hw_defs]: "RGBLIGHT_LED_COUNT = 68"
definition RGBLIGHT_MODE_STATIC_LIGHT :: u8 where [hw_defs]: "RGBLIGHT_MODE_STATIC_LIGHT = 1"
definition RGBLIGHT_MODES :: u8 where [hw_defs]: "RGBLIGHT_MODES = 1"
definition RGBLIGHT_LIMIT_VAL :: u8 where [hw_defs]: "RGBLIGHT_LIMIT_VAL = 128"
definition RGBLIGHT_HUE_STEP :: u8 where [hw_defs]: "RGBLIGHT_HUE_STEP = 8"
definition RGBLIGHT_SAT_STEP :: u8 where [hw_defs]: "RGBLIGHT_SAT_STEP = 17"
definition RGBLIGHT_VAL_STEP :: u8 where [hw_defs]: "RGBLIGHT_VAL_STEP = 17"
definition RGBLIGHT_DEFAULT_ON :: bool where [hw_defs]: "RGBLIGHT_DEFAULT_ON = True"
definition RGBLIGHT_DEFAULT_MODE :: u8 where [hw_defs]: "RGBLIGHT_DEFAULT_MODE = RGBLIGHT_MODE_STATIC_LIGHT"
definition RGBLIGHT_DEFAULT_HUE :: u8 where [hw_defs]: "RGBLIGHT_DEFAULT_HUE = 114"
definition RGBLIGHT_DEFAULT_SAT :: u8 where [hw_defs]: "RGBLIGHT_DEFAULT_SAT = 128"
definition RGBLIGHT_DEFAULT_VAL :: u8 where [hw_defs]: "RGBLIGHT_DEFAULT_VAL = 128"
definition RGBLIGHT_DEFAULT_SPD :: u8 where [hw_defs]: "RGBLIGHT_DEFAULT_SPD = 0"

definition static_effect_table :: "u8 list" where "static_effect_table = [RGBLIGHT_MODE_STATIC_LIGHT]"
definition mode_base_table :: "u8 list" where "mode_base_table = [0, RGBLIGHT_MODE_STATIC_LIGHT]"

definition is_static_effect :: "u8 \<Rightarrow> bool" where
  "is_static_effect mode \<longleftrightarrow> mode \<in> set static_effect_table"

text \<open>Access to the configuration in a core state.\<close>

abbreviation cfg :: "('e, 'z) core_scheme \<Rightarrow> rgblight_config_t" where
  "cfg st \<equiv> rgblight_config (rgblight st)"

definition map_rgb :: "(rgblight_globals \<Rightarrow> rgblight_globals) \<Rightarrow> ('e, 'z) core_scheme \<Rightarrow> ('e, 'z) core_scheme" where
  "map_rgb f st = st\<lparr>rgblight := f (rgblight st)\<rparr>"

definition set_cfg :: "rgblight_config_t \<Rightarrow> ('e, 'z) core_scheme \<Rightarrow> ('e, 'z) core_scheme" where
  "set_cfg c = map_rgb (\<lambda>g. g\<lparr>rgblight_config := c\<rparr>)"

subsection \<open>Saturating byte arithmetic (\<^verbatim>\<open>lib8tion\<close>)\<close>

definition qadd8 :: "u8 \<Rightarrow> u8 \<Rightarrow> u8" where
  "qadd8 i j = (let t = uint i + uint j in word_of_int (if t > 255 then 255 else t))"

definition qsub8 :: "u8 \<Rightarrow> u8 \<Rightarrow> u8" where
  "qsub8 i j = (let t = uint i - uint j in word_of_int (if t < 0 then 0 else t))"

subsection \<open>EEPROM copies of the configuration\<close>

definition eeconfig_read_rgblight :: "'e eeprom_driver \<Rightarrow> ('e, 'z) core_scheme \<Rightarrow> ('e, 'z) core_scheme" where
  "eeconfig_read_rgblight E st = set_cfg (rgblight_of_raw (nvm_eeconfig_read_rgblight E (ee st))) st"

definition eeconfig_update_rgblight :: "'e eeprom_driver \<Rightarrow> ('e, 'z) core_scheme \<Rightarrow> ('e, 'z) core_scheme" where
  "eeconfig_update_rgblight E st = st\<lparr>ee := nvm_eeconfig_update_rgblight E (rgblight_raw (cfg st)) (ee st)\<rparr>"

subsection \<open>LEDs\<close>

definition rgblight_set_clipping_range :: "u8 \<Rightarrow> u8 \<Rightarrow> ('e, 'z) core_scheme \<Rightarrow> ('e, 'z) core_scheme" where
  "rgblight_set_clipping_range start_pos num_leds =
     map_rgb (\<lambda>g. g\<lparr>clipping_start_pos := start_pos, clipping_num_leds := num_leds\<rparr>)"

definition rgblight_set_effect_range :: "u8 \<Rightarrow> u8 \<Rightarrow> ('e, 'z) core_scheme \<Rightarrow> ('e, 'z) core_scheme" where
  "rgblight_set_effect_range start_pos num_leds st =
     (if RGBLIGHT_LED_COUNT \<le> unat start_pos then st
      else if RGBLIGHT_LED_COUNT < unat start_pos + unat num_leds then st
      else map_rgb (\<lambda>g. g\<lparr>effect_start_pos := start_pos, effect_end_pos := start_pos + num_leds,
        effect_num_leds := num_leds\<rparr>) st)"

definition rgblight_led_index :: "rgblight_globals \<Rightarrow> u8 \<Rightarrow> u8" where
  "rgblight_led_index g index = index - clipping_start_pos g"

definition rgblight_hsv_to_rgb :: "hsv_t \<Rightarrow> rgb_t" where
  "rgblight_hsv_to_rgb hsv = hsv_to_rgb hsv"

definition limit_val :: "u8 \<Rightarrow> u8" where
  "limit_val val = (if val > RGBLIGHT_LIMIT_VAL then RGBLIGHT_LIMIT_VAL else val)"

definition hsv_limited :: "u8 \<Rightarrow> u8 \<Rightarrow> u8 \<Rightarrow> rgb_t" where
  "hsv_limited hue sat val = rgblight_hsv_to_rgb \<lparr>hsv_h = hue, hsv_s = sat, hsv_v = limit_val val\<rparr>"

definition ws2812_set_color :: "nat \<Rightarrow> rgb_t \<Rightarrow> rgblight_globals \<Rightarrow> rgblight_globals" where
  "ws2812_set_color index rgb g = g\<lparr>ws2812_leds := (ws2812_leds g)[index := rgb]\<rparr>"

definition ws2812_flush :: "rgblight_globals \<Rightarrow> rgblight_globals" where
  "ws2812_flush g = g\<lparr>ws2812_strip := ws2812_leds g\<rparr>"

definition set_led :: "rgb_t \<Rightarrow> nat \<Rightarrow> rgblight_globals \<Rightarrow> rgblight_globals" where
  "set_led rgb i g = ws2812_set_color (unat (rgblight_led_index g (word_of_nat i))) rgb g"

text \<open>A loop over the LEDs from \<open>start\<close> up to, not including, \<open>stop\<close>.\<close>

definition set_leds :: "u8 \<Rightarrow> u8 \<Rightarrow> rgb_t \<Rightarrow> rgblight_globals \<Rightarrow> rgblight_globals" where
  "set_leds start stop rgb = fold (set_led rgb) [unat start..<unat stop]"

definition rgb_black :: rgb_t where
  "rgb_black = \<lparr>rgb_r = 0, rgb_g = 0, rgb_b = 0\<rparr>"

definition rgblight_set :: "('e, 'z) core_scheme \<Rightarrow> ('e, 'z) core_scheme" where
  "rgblight_set = map_rgb (\<lambda>g. ws2812_flush
     (if \<not> rgb_enable (rgblight_config g) then set_leds (effect_start_pos g) (effect_end_pos g) rgb_black g else g))"

definition setrgb :: "rgb_t \<Rightarrow> nat \<Rightarrow> ('e, 'z) core_scheme \<Rightarrow> ('e, 'z) core_scheme" where
  "setrgb rgb index = map_rgb (set_led rgb index)"

definition sethsv_raw :: "u8 \<Rightarrow> u8 \<Rightarrow> u8 \<Rightarrow> nat \<Rightarrow> ('e, 'z) core_scheme \<Rightarrow> ('e, 'z) core_scheme" where
  "sethsv_raw hue sat val index = setrgb (rgblight_hsv_to_rgb \<lparr>hsv_h = hue, hsv_s = sat, hsv_v = val\<rparr>) index"

definition sethsv :: "u8 \<Rightarrow> u8 \<Rightarrow> u8 \<Rightarrow> nat \<Rightarrow> ('e, 'z) core_scheme \<Rightarrow> ('e, 'z) core_scheme" where
  "sethsv hue sat val index = sethsv_raw hue sat (limit_val val) index"

definition rgblight_setrgb :: "rgb_t \<Rightarrow> ('e, 'z) core_scheme \<Rightarrow> ('e, 'z) core_scheme" where
  "rgblight_setrgb rgb st =
     (if \<not> rgb_enable (cfg st) then st
      else rgblight_set (map_rgb (\<lambda>g. set_leds (effect_start_pos g) (effect_end_pos g) rgb g) st))"

definition rgblight_setrgb_at :: "rgb_t \<Rightarrow> u8 \<Rightarrow> ('e, 'z) core_scheme \<Rightarrow> ('e, 'z) core_scheme" where
  "rgblight_setrgb_at rgb index st =
     (if \<not> rgb_enable (cfg st) \<or> RGBLIGHT_LED_COUNT \<le> unat index then st
      else rgblight_set (map_rgb (set_led rgb (unat index)) st))"

definition rgblight_sethsv_at :: "u8 \<Rightarrow> u8 \<Rightarrow> u8 \<Rightarrow> u8 \<Rightarrow> ('e, 'z) core_scheme \<Rightarrow> ('e, 'z) core_scheme" where
  "rgblight_sethsv_at hue sat val index st =
     (if \<not> rgb_enable (cfg st) then st else rgblight_setrgb_at (hsv_limited hue sat val) index st)"

definition rgblight_setrgb_range :: "rgb_t \<Rightarrow> u8 \<Rightarrow> u8 \<Rightarrow> ('e, 'z) core_scheme \<Rightarrow> ('e, 'z) core_scheme" where
  "rgblight_setrgb_range rgb start stop st =
     (if \<not> rgb_enable (cfg st) \<or> stop \<le> start \<or> RGBLIGHT_LED_COUNT < unat stop then st
      else rgblight_set (map_rgb (set_leds start stop rgb) st))"

definition rgblight_sethsv_range :: "u8 \<Rightarrow> u8 \<Rightarrow> u8 \<Rightarrow> u8 \<Rightarrow> u8 \<Rightarrow> ('e, 'z) core_scheme \<Rightarrow> ('e, 'z) core_scheme" where
  "rgblight_sethsv_range hue sat val start stop st =
     (if \<not> rgb_enable (cfg st) then st else rgblight_setrgb_range (hsv_limited hue sat val) start stop st)"

subsection \<open>Configuration\<close>

definition rgblight_check_config :: "('e, 'z) core_scheme \<Rightarrow> ('e, 'z) core_scheme" where
  "rgblight_check_config st =
     (let c = cfg st;
          c1 = (if rgb_mode c < RGBLIGHT_MODE_STATIC_LIGHT then c\<lparr>rgb_mode := RGBLIGHT_MODE_STATIC_LIGHT\<rparr>
                else if rgb_mode c > RGBLIGHT_MODES then c\<lparr>rgb_mode := RGBLIGHT_MODES\<rparr> else c);
          c2 = (if rgb_val c1 > RGBLIGHT_LIMIT_VAL then c1\<lparr>rgb_val := RGBLIGHT_LIMIT_VAL\<rparr> else c1) in
      set_cfg c2 st)"

definition eeconfig_update_rgblight_current :: "'e eeprom_driver \<Rightarrow> ('e, 'z) core_scheme \<Rightarrow> ('e, 'z) core_scheme" where
  "eeconfig_update_rgblight_current E st = eeconfig_update_rgblight E (rgblight_check_config st)"

definition rgblight_default_config :: rgblight_config_t where
  "rgblight_default_config =
     \<lparr>rgb_enable = RGBLIGHT_DEFAULT_ON, rgb_velocikey = False, rgb_mode = RGBLIGHT_DEFAULT_MODE,
      rgb_hue = RGBLIGHT_DEFAULT_HUE, rgb_sat = RGBLIGHT_DEFAULT_SAT, rgb_val = RGBLIGHT_DEFAULT_VAL,
      rgb_speed = RGBLIGHT_DEFAULT_SPD\<rparr>"

definition eeconfig_update_rgblight_default :: "'e eeprom_driver \<Rightarrow> ('e, 'z) core_scheme \<Rightarrow> ('e, 'z) core_scheme" where
  "eeconfig_update_rgblight_default E st = eeconfig_update_rgblight E (set_cfg rgblight_default_config st)"

definition rgblight_sethsv_eeprom_helper ::
  "'e eeprom_driver \<Rightarrow> u8 \<Rightarrow> u8 \<Rightarrow> u8 \<Rightarrow> bool \<Rightarrow> ('e, 'z) core_scheme \<Rightarrow> ('e, 'z) core_scheme" where
  "rgblight_sethsv_eeprom_helper E hue sat val write_to_eeprom st =
     (if rgb_enable (cfg st) then
        let st1 = map_rgb (\<lambda>g. g\<lparr>rgb_base_mode := mode_base_table ! unat (rgb_mode (rgblight_config g))\<rparr>) st;
            st2 = (if rgb_mode (cfg st1) = RGBLIGHT_MODE_STATIC_LIGHT
                   then rgblight_setrgb (hsv_limited hue sat val) st1 else st1);
            st3 = set_cfg ((cfg st2)\<lparr>rgb_hue := hue, rgb_sat := sat, rgb_val := val\<rparr>) st2 in
        if write_to_eeprom then eeconfig_update_rgblight E st3 else st3
      else st)"

definition rgblight_sethsv :: "'e eeprom_driver \<Rightarrow> u8 \<Rightarrow> u8 \<Rightarrow> u8 \<Rightarrow> ('e, 'z) core_scheme \<Rightarrow> ('e, 'z) core_scheme" where
  "rgblight_sethsv E hue sat val = rgblight_sethsv_eeprom_helper E hue sat val True"

definition rgblight_sethsv_noeeprom :: "'e eeprom_driver \<Rightarrow> u8 \<Rightarrow> u8 \<Rightarrow> u8 \<Rightarrow> ('e, 'z) core_scheme \<Rightarrow> ('e, 'z) core_scheme" where
  "rgblight_sethsv_noeeprom E hue sat val = rgblight_sethsv_eeprom_helper E hue sat val False"

definition rgblight_mode_eeprom_helper :: "'e eeprom_driver \<Rightarrow> u8 \<Rightarrow> bool \<Rightarrow> ('e, 'z) core_scheme \<Rightarrow> ('e, 'z) core_scheme" where
  "rgblight_mode_eeprom_helper E mode write_to_eeprom st =
     (if \<not> rgb_enable (cfg st) then st
      else
        let m = (if mode < RGBLIGHT_MODE_STATIC_LIGHT then RGBLIGHT_MODE_STATIC_LIGHT
                 else if mode > RGBLIGHT_MODES then RGBLIGHT_MODES else mode);
            st1 = set_cfg ((cfg st)\<lparr>rgb_mode := m\<rparr>) st;
            st2 = (if write_to_eeprom then eeconfig_update_rgblight E st1 else st1) in
        rgblight_sethsv_noeeprom E (rgb_hue (cfg st2)) (rgb_sat (cfg st2)) (rgb_val (cfg st2)) st2)"

definition rgblight_mode :: "'e eeprom_driver \<Rightarrow> u8 \<Rightarrow> ('e, 'z) core_scheme \<Rightarrow> ('e, 'z) core_scheme" where
  "rgblight_mode E mode = rgblight_mode_eeprom_helper E mode True"

definition rgblight_mode_noeeprom :: "'e eeprom_driver \<Rightarrow> u8 \<Rightarrow> ('e, 'z) core_scheme \<Rightarrow> ('e, 'z) core_scheme" where
  "rgblight_mode_noeeprom E mode = rgblight_mode_eeprom_helper E mode False"

text \<open>\<^verbatim>\<open>ws2812_init\<close> sets up the peripheral and does not touch the LED buffer.\<close>

definition rgblight_init :: "'e eeprom_driver \<Rightarrow> ('e, 'z) core_scheme \<Rightarrow> ('e, 'z) core_scheme" where
  "rgblight_init E st =
     (if is_rgblight_initialized (rgblight st) then st
      else
        let st1 = eeconfig_read_rgblight E st;
            st2 = (if rgb_mode (cfg st1) = 0
                   then eeconfig_read_rgblight E (eeconfig_update_rgblight_default E st1) else st1);
            st3 = rgblight_check_config st2;
            st4 = (if rgb_enable (cfg st3) then rgblight_mode_noeeprom E (rgb_mode (cfg st3)) st3 else st3) in
        map_rgb (\<lambda>g. g\<lparr>is_rgblight_initialized := True\<rparr>) st4)"

definition rgblight_reload_from_eeprom :: "'e eeprom_driver \<Rightarrow> ('e, 'z) core_scheme \<Rightarrow> ('e, 'z) core_scheme" where
  "rgblight_reload_from_eeprom E st =
     (let st1 = rgblight_check_config (eeconfig_read_rgblight E st) in
      if rgb_enable (cfg st1) then rgblight_mode_noeeprom E (rgb_mode (cfg st1)) st1 else st1)"

definition rgblight_read_qword :: "('e, 'z) core_scheme \<Rightarrow> u64" where
  "rgblight_read_qword st = rgblight_raw (cfg st)"

definition rgblight_update_qword :: "'e eeprom_driver \<Rightarrow> u64 \<Rightarrow> ('e, 'z) core_scheme \<Rightarrow> ('e, 'z) core_scheme" where
  "rgblight_update_qword E qword st =
     (let st1 = set_cfg (rgblight_of_raw qword) st in
      if rgb_enable (cfg st1) then rgblight_mode_noeeprom E (rgb_mode (cfg st1)) st1 else rgblight_set st1)"

definition rgblight_increase :: "'e eeprom_driver \<Rightarrow> ('e, 'z) core_scheme \<Rightarrow> ('e, 'z) core_scheme" where
  "rgblight_increase E st = rgblight_mode E (if rgb_mode (cfg st) < RGBLIGHT_MODES then rgb_mode (cfg st) + 1 else 0) st"

definition rgblight_decrease :: "'e eeprom_driver \<Rightarrow> ('e, 'z) core_scheme \<Rightarrow> ('e, 'z) core_scheme" where
  "rgblight_decrease E st =
     rgblight_mode E (if rgb_mode (cfg st) > RGBLIGHT_MODE_STATIC_LIGHT then rgb_mode (cfg st) - 1 else 0) st"

definition rgblight_step_helper :: "'e eeprom_driver \<Rightarrow> bool \<Rightarrow> ('e, 'z) core_scheme \<Rightarrow> ('e, 'z) core_scheme" where
  "rgblight_step_helper E write_to_eeprom st =
     (let mode = rgb_mode (cfg st) + 1 in
      rgblight_mode_eeprom_helper E (if mode > RGBLIGHT_MODES then 1 else mode) write_to_eeprom st)"

definition rgblight_step_reverse_helper :: "'e eeprom_driver \<Rightarrow> bool \<Rightarrow> ('e, 'z) core_scheme \<Rightarrow> ('e, 'z) core_scheme" where
  "rgblight_step_reverse_helper E write_to_eeprom st =
     (let mode = rgb_mode (cfg st) - 1 in
      rgblight_mode_eeprom_helper E (if mode < 1 then RGBLIGHT_MODES else mode) write_to_eeprom st)"

definition rgblight_get_mode :: "('e, 'z) core_scheme \<Rightarrow> u8" where
  "rgblight_get_mode st = (if \<not> rgb_enable (cfg st) then 0 else rgb_mode (cfg st))"

definition rgblight_enable :: "'e eeprom_driver \<Rightarrow> ('e, 'z) core_scheme \<Rightarrow> ('e, 'z) core_scheme" where
  "rgblight_enable E st = (let st1 = set_cfg ((cfg st)\<lparr>rgb_enable := True\<rparr>) st in rgblight_mode E (rgb_mode (cfg st1)) st1)"

definition rgblight_enable_noeeprom :: "'e eeprom_driver \<Rightarrow> ('e, 'z) core_scheme \<Rightarrow> ('e, 'z) core_scheme" where
  "rgblight_enable_noeeprom E st =
     (let st1 = set_cfg ((cfg st)\<lparr>rgb_enable := True\<rparr>) st in rgblight_mode_noeeprom E (rgb_mode (cfg st1)) st1)"

definition rgblight_disable :: "'e eeprom_driver \<Rightarrow> ('e, 'z) core_scheme \<Rightarrow> ('e, 'z) core_scheme" where
  "rgblight_disable E st = rgblight_set (eeconfig_update_rgblight E (set_cfg ((cfg st)\<lparr>rgb_enable := False\<rparr>) st))"

definition rgblight_disable_noeeprom :: "('e, 'z) core_scheme \<Rightarrow> ('e, 'z) core_scheme" where
  "rgblight_disable_noeeprom st = rgblight_set (set_cfg ((cfg st)\<lparr>rgb_enable := False\<rparr>) st)"

definition rgblight_toggle :: "'e eeprom_driver \<Rightarrow> ('e, 'z) core_scheme \<Rightarrow> ('e, 'z) core_scheme" where
  "rgblight_toggle E st = (if rgb_enable (cfg st) then rgblight_disable E st else rgblight_enable E st)"

definition rgblight_toggle_noeeprom :: "'e eeprom_driver \<Rightarrow> ('e, 'z) core_scheme \<Rightarrow> ('e, 'z) core_scheme" where
  "rgblight_toggle_noeeprom E st =
     (if rgb_enable (cfg st) then rgblight_disable_noeeprom st else rgblight_enable_noeeprom E st)"

definition rgblight_enabled_noeeprom :: "'e eeprom_driver \<Rightarrow> bool \<Rightarrow> ('e, 'z) core_scheme \<Rightarrow> ('e, 'z) core_scheme" where
  "rgblight_enabled_noeeprom E state st = (if state then rgblight_enable_noeeprom E st else rgblight_disable_noeeprom st)"

definition rgblight_is_enabled :: "('e, 'z) core_scheme \<Rightarrow> bool" where
  "rgblight_is_enabled st = rgb_enable (cfg st)"

definition rgblight_increase_hue_helper :: "'e eeprom_driver \<Rightarrow> bool \<Rightarrow> ('e, 'z) core_scheme \<Rightarrow> ('e, 'z) core_scheme" where
  "rgblight_increase_hue_helper E w st =
     rgblight_sethsv_eeprom_helper E (rgb_hue (cfg st) + RGBLIGHT_HUE_STEP) (rgb_sat (cfg st)) (rgb_val (cfg st)) w st"

definition rgblight_decrease_hue_helper :: "'e eeprom_driver \<Rightarrow> bool \<Rightarrow> ('e, 'z) core_scheme \<Rightarrow> ('e, 'z) core_scheme" where
  "rgblight_decrease_hue_helper E w st =
     rgblight_sethsv_eeprom_helper E (rgb_hue (cfg st) - RGBLIGHT_HUE_STEP) (rgb_sat (cfg st)) (rgb_val (cfg st)) w st"

definition rgblight_increase_sat_helper :: "'e eeprom_driver \<Rightarrow> bool \<Rightarrow> ('e, 'z) core_scheme \<Rightarrow> ('e, 'z) core_scheme" where
  "rgblight_increase_sat_helper E w st =
     rgblight_sethsv_eeprom_helper E (rgb_hue (cfg st)) (qadd8 (rgb_sat (cfg st)) RGBLIGHT_SAT_STEP) (rgb_val (cfg st)) w st"

definition rgblight_decrease_sat_helper :: "'e eeprom_driver \<Rightarrow> bool \<Rightarrow> ('e, 'z) core_scheme \<Rightarrow> ('e, 'z) core_scheme" where
  "rgblight_decrease_sat_helper E w st =
     rgblight_sethsv_eeprom_helper E (rgb_hue (cfg st)) (qsub8 (rgb_sat (cfg st)) RGBLIGHT_SAT_STEP) (rgb_val (cfg st)) w st"

definition rgblight_increase_val_helper :: "'e eeprom_driver \<Rightarrow> bool \<Rightarrow> ('e, 'z) core_scheme \<Rightarrow> ('e, 'z) core_scheme" where
  "rgblight_increase_val_helper E w st =
     rgblight_sethsv_eeprom_helper E (rgb_hue (cfg st)) (rgb_sat (cfg st)) (qadd8 (rgb_val (cfg st)) RGBLIGHT_VAL_STEP) w st"

definition rgblight_decrease_val_helper :: "'e eeprom_driver \<Rightarrow> bool \<Rightarrow> ('e, 'z) core_scheme \<Rightarrow> ('e, 'z) core_scheme" where
  "rgblight_decrease_val_helper E w st =
     rgblight_sethsv_eeprom_helper E (rgb_hue (cfg st)) (rgb_sat (cfg st)) (qsub8 (rgb_val (cfg st)) RGBLIGHT_VAL_STEP) w st"

definition rgblight_increase_speed_helper :: "'e eeprom_driver \<Rightarrow> bool \<Rightarrow> ('e, 'z) core_scheme \<Rightarrow> ('e, 'z) core_scheme" where
  "rgblight_increase_speed_helper E w st =
     (let st1 = (if rgb_speed (cfg st) < 3 then set_cfg ((cfg st)\<lparr>rgb_speed := rgb_speed (cfg st) + 1\<rparr>) st else st) in
      if w then eeconfig_update_rgblight E st1 else st1)"

definition rgblight_decrease_speed_helper :: "'e eeprom_driver \<Rightarrow> bool \<Rightarrow> ('e, 'z) core_scheme \<Rightarrow> ('e, 'z) core_scheme" where
  "rgblight_decrease_speed_helper E w st =
     (let st1 = (if rgb_speed (cfg st) > 0 then set_cfg ((cfg st)\<lparr>rgb_speed := rgb_speed (cfg st) - 1\<rparr>) st else st) in
      if w then eeconfig_update_rgblight E st1 else st1)"

definition rgblight_set_speed_eeprom_helper :: "'e eeprom_driver \<Rightarrow> u8 \<Rightarrow> bool \<Rightarrow> ('e, 'z) core_scheme \<Rightarrow> ('e, 'z) core_scheme" where
  "rgblight_set_speed_eeprom_helper E speed w st =
     (let st1 = set_cfg ((cfg st)\<lparr>rgb_speed := speed\<rparr>) st in if w then eeconfig_update_rgblight E st1 else st1)"

definition rgblight_get_hsv :: "('e, 'z) core_scheme \<Rightarrow> hsv_t" where
  "rgblight_get_hsv st = \<lparr>hsv_h = rgb_hue (cfg st), hsv_s = rgb_sat (cfg st), hsv_v = rgb_val (cfg st)\<rparr>"

section \<open>The configuration word\<close>

text \<open>
  Decoding an encoded configuration gives it back when the mode fits its six bits, and an encoded
  configuration fits the 40 bits that are stored.
\<close>

lemma bit_byte_field:
  "k \<le> 56 \<Longrightarrow> bit (push_bit k (ucast (x :: u8)) :: u64) n \<longleftrightarrow> k \<le> n \<and> n < k + 8 \<and> bit x (n - k)"
  by (auto simp: bit_simps dest: bit_imp_le_length)

lemma bit_flag_field:
  "k \<le> 63 \<Longrightarrow> bit (push_bit k (if p then 1 else 0) :: u64) n \<longleftrightarrow> n = k \<and> p"
  by (auto simp: bit_simps)

lemma rgblight_raw_bit:
  "bit (rgblight_raw c) n \<longleftrightarrow>
     (n = 0 \<and> rgb_enable c) \<or> (n = 1 \<and> rgb_velocikey c) \<or> (2 \<le> n \<and> n < 8 \<and> bit (rgb_mode c) (n - 2))
     \<or> (8 \<le> n \<and> n < 16 \<and> bit (rgb_hue c) (n - 8)) \<or> (16 \<le> n \<and> n < 24 \<and> bit (rgb_sat c) (n - 16))
     \<or> (24 \<le> n \<and> n < 32 \<and> bit (rgb_val c) (n - 24)) \<or> (32 \<le> n \<and> n < 40 \<and> bit (rgb_speed c) (n - 32))"
proof -
  have "bit (push_bit 2 (ucast (take_bit 6 (rgb_mode c))) :: u64) n \<longleftrightarrow> 2 \<le> n \<and> n < 8 \<and> bit (rgb_mode c) (n - 2)"
    by (auto simp: bit_byte_field bit_take_bit_iff)
  then show ?thesis
    using bit_flag_field [of 0 "rgb_enable c" n] bit_flag_field [of 1 "rgb_velocikey c" n]
    by (simp only: rgblight_raw_def push_bit_0_id id_apply bit_or_iff bit_byte_field bit_flag_field disj_assoc) simp
qed

lemma rgblight_of_raw_raw:
  assumes "rgb_mode c < 64"
  shows "rgblight_of_raw (rgblight_raw c) = c"
proof -
  have mode: "take_bit 6 (rgb_mode c) = rgb_mode c"
    using assms by (simp add: word_unat_eq_iff unsigned_take_bit_eq take_bit_nat_eq_self_iff word_less_nat_alt)
  have "ucast (take_bit 6 (drop_bit 2 (rgblight_raw c))) = take_bit 6 (rgb_mode c)"
    by (rule bit_word_eqI) (auto simp: bit_simps rgblight_raw_bit)
  moreover have "ucast (drop_bit 8 (rgblight_raw c)) = rgb_hue c" "ucast (drop_bit 16 (rgblight_raw c)) = rgb_sat c"
    "ucast (drop_bit 24 (rgblight_raw c)) = rgb_val c" "ucast (drop_bit 32 (rgblight_raw c)) = rgb_speed c"
    by (rule bit_word_eqI; auto simp: bit_simps rgblight_raw_bit)+
  ultimately show ?thesis by (simp add: rgblight_of_raw_def rgblight_raw_bit mode)
qed

lemma rgblight_raw_40: "take_bit 40 (rgblight_raw c) = rgblight_raw c"
  by (rule bit_word_eqI) (auto simp: bit_simps rgblight_raw_bit)

section \<open>What the operations touch\<close>

lemma map_rgb_sel [simp]:
  "rgblight (map_rgb f st) = f (rgblight st)" "ee (map_rgb f st) = ee st"
  "rgblight (set_cfg c st) = (rgblight st)\<lparr>rgblight_config := c\<rparr>" "ee (set_cfg c st) = ee st"
  by (simp_all add: map_rgb_def set_cfg_def)

lemma map_rgb_map_rgb: "map_rgb f (map_rgb h st) = map_rgb (\<lambda>g. f (h g)) st"
  by (simp add: map_rgb_def)

lemma rgb_ops_map_rgb:
  "rgblight_set st = map_rgb (\<lambda>_. rgblight (rgblight_set st)) st"
  "rgblight_setrgb rgb st = map_rgb (\<lambda>_. rgblight (rgblight_setrgb rgb st)) st"
  "rgblight_setrgb_at rgb i st = map_rgb (\<lambda>_. rgblight (rgblight_setrgb_at rgb i st)) st"
  "rgblight_sethsv_at h s v i st = map_rgb (\<lambda>_. rgblight (rgblight_sethsv_at h s v i st)) st"
  "rgblight_sethsv_noeeprom E h s v st = map_rgb (\<lambda>_. rgblight (rgblight_sethsv_noeeprom E h s v st)) st"
  by (auto simp: rgblight_set_def rgblight_setrgb_def rgblight_setrgb_at_def rgblight_sethsv_at_def Let_def
      rgblight_sethsv_noeeprom_def rgblight_sethsv_eeprom_helper_def map_rgb_def set_cfg_def)

lemma rgb_ops_ee [simp]:
  "ee (rgblight_set st) = ee st" "ee (rgblight_setrgb rgb st) = ee st" "ee (rgblight_setrgb_at rgb i st) = ee st"
  "ee (rgblight_sethsv_at h s v i st) = ee st" "ee (rgblight_sethsv_noeeprom E h s v st) = ee st"
  using arg_cong [OF rgb_ops_map_rgb(1), of ee st] arg_cong [OF rgb_ops_map_rgb(2), of ee rgb st]
    arg_cong [OF rgb_ops_map_rgb(3), of ee rgb i st] arg_cong [OF rgb_ops_map_rgb(4), of ee h s v i st]
    arg_cong [OF rgb_ops_map_rgb(5), of ee E h s v st]
  by simp_all

section \<open>The brightness limit holds on the strip\<close>

text \<open>
  \<open>dim\<close> colours do not exceed the brightness limit after the lightness curve. The invariant
  \<open>rgb_ok\<close>: 68 LEDs, all dim, both in the driver's buffer and on the strip, the whole strip in
  the effect range, and while the light is on the mode is one that indexes \<^verbatim>\<open>mode_base_table\<close>.
\<close>

definition dim :: "rgb_t \<Rightarrow> bool" where
  "dim rgb \<longleftrightarrow> rgb_r rgb \<le> 48 \<and> rgb_g rgb \<le> 48 \<and> rgb_b rgb \<le> 48"

definition rgb_ok :: "rgblight_globals \<Rightarrow> bool" where
  "rgb_ok g \<longleftrightarrow> length (ws2812_leds g) = RGBLIGHT_LED_COUNT \<and> length (ws2812_strip g) = RGBLIGHT_LED_COUNT
     \<and> (\<forall>rgb\<in>set (ws2812_leds g). dim rgb) \<and> (\<forall>rgb\<in>set (ws2812_strip g). dim rgb)
     \<and> clipping_start_pos g = 0 \<and> effect_start_pos g = 0 \<and> effect_end_pos g = 68
     \<and> (rgb_enable (rgblight_config g) \<longrightarrow> rgb_mode (rgblight_config g) = 1)"

lemma dim_black [simp]: "dim rgb_black"
  by (simp add: dim_def rgb_black_def)

lemma dim_hsv_limited [simp]: "dim (hsv_limited h s v)"
proof -
  have lim: "limit_val v \<le> 128" by (auto simp: limit_val_def hw_defs)
  have "hsv_level True (limit_val v) \<le> hsv_level True 128" by (rule hsv_level_mono [OF lim])
  also have "hsv_level True 128 = 48" by (simp add: hsv_level_def CIE1931_CURVE_def)
  finally show ?thesis
    using hsv_to_rgb_bounded [of "\<lparr>hsv_h = h, hsv_s = s, hsv_v = limit_val v\<rparr>" True]
    by (auto simp: dim_def hsv_limited_def rgblight_hsv_to_rgb_def hsv_to_rgb_def)
qed

lemma rgb_ok_set_led: "rgb_ok g \<Longrightarrow> dim rgb \<Longrightarrow> rgb_ok (set_led rgb i g)"
  using set_update_subset_insert [of "ws2812_leds g" "unat (rgblight_led_index g (word_of_nat i))" rgb]
  by (auto simp: rgb_ok_def set_led_def ws2812_set_color_def)

lemma rgb_ok_set_leds: "rgb_ok g \<Longrightarrow> dim rgb \<Longrightarrow> rgb_ok (set_leds a b rgb g)"
proof -
  have "rgb_ok g \<Longrightarrow> dim rgb \<Longrightarrow> rgb_ok (fold (set_led rgb) is g)" for "is"
    by (induction "is" arbitrary: g) (simp_all add: rgb_ok_set_led)
  then show "rgb_ok g \<Longrightarrow> dim rgb \<Longrightarrow> rgb_ok (set_leds a b rgb g)" by (simp add: set_leds_def)
qed

lemma set_leds_config [simp]: "rgblight_config (set_leds a b rgb g) = rgblight_config g"
proof -
  have "rgblight_config (fold (set_led rgb) is g) = rgblight_config g" for "is"
    by (induction "is" arbitrary: g) (simp_all add: set_led_def ws2812_set_color_def)
  then show ?thesis by (simp add: set_leds_def)
qed

lemma rgb_ok_flush: "rgb_ok g \<Longrightarrow> rgb_ok (ws2812_flush g)"
  by (simp add: rgb_ok_def ws2812_flush_def)

lemma rgb_ok_set: "rgb_ok (rgblight st) \<Longrightarrow> rgb_ok (rgblight (rgblight_set st))"
  by (simp add: rgblight_set_def rgb_ok_flush rgb_ok_set_leds)

lemma rgb_ok_setrgb: "rgb_ok (rgblight st) \<Longrightarrow> dim rgb \<Longrightarrow> rgb_ok (rgblight (rgblight_setrgb rgb st))"
  by (simp add: rgblight_setrgb_def rgb_ok_set rgb_ok_set_leds)

lemma rgb_ok_sethsv_at: "rgb_ok (rgblight st) \<Longrightarrow> rgb_ok (rgblight (rgblight_sethsv_at h s v i st))"
  by (simp add: rgblight_sethsv_at_def rgblight_setrgb_at_def rgb_ok_set rgb_ok_set_led)

lemma rgb_ok_sethsv_range: "rgb_ok (rgblight st) \<Longrightarrow> rgb_ok (rgblight (rgblight_sethsv_range h s v a b st))"
  by (simp add: rgblight_sethsv_range_def rgblight_setrgb_range_def rgb_ok_set rgb_ok_set_leds)

text \<open>Replacing the configuration keeps the invariant when the new one has a valid mode or is off.\<close>

lemma rgb_ok_cfg:
  "rgb_ok g \<Longrightarrow> (rgb_enable c \<Longrightarrow> rgb_mode c = 1) \<Longrightarrow> rgb_ok (g\<lparr>rgblight_config := c\<rparr>)"
  by (auto simp: rgb_ok_def)

lemma rgb_ok_base_mode: "rgb_ok (g\<lparr>rgb_base_mode := m\<rparr>) = rgb_ok g" "rgb_ok (g\<lparr>is_rgblight_initialized := b\<rparr>) = rgb_ok g"
  by (simp_all add: rgb_ok_def)

lemma update_rgblight_rgb [simp]:
  "rgblight (eeconfig_update_rgblight E st) = rgblight st"
  by (simp add: eeconfig_update_rgblight_def)

lemma cfg_setrgb [simp]:
  "cfg (rgblight_set st) = cfg st" "cfg (rgblight_setrgb rgb st) = cfg st"
  by (simp_all add: rgblight_set_def rgblight_setrgb_def ws2812_flush_def)

lemma cfg_sethsv_at [simp]: "cfg (rgblight_sethsv_at h s v i st) = cfg st"
  by (simp add: rgblight_sethsv_at_def rgblight_setrgb_at_def set_led_def ws2812_set_color_def)

lemma rgb_ok_modeD: "rgb_ok g \<Longrightarrow> rgb_enable (rgblight_config g) \<Longrightarrow> rgb_mode (rgblight_config g) = 1"
  by (simp add: rgb_ok_def)

lemma rgb_ok_sethsv:
  assumes "rgb_ok (rgblight st)"
  shows "rgb_ok (rgblight (rgblight_sethsv_eeprom_helper E h s v w st))"
  using rgb_ok_modeD [OF assms] assms
  by (auto simp: rgblight_sethsv_eeprom_helper_def Let_def rgb_ok_base_mode intro!: rgb_ok_cfg rgb_ok_setrgb)

lemma cfg_sethsv:
  "cfg (rgblight_sethsv_eeprom_helper E h s v w st) =
     (if rgb_enable (cfg st) then (cfg st)\<lparr>rgb_hue := h, rgb_sat := s, rgb_val := v\<rparr> else cfg st)"
  by (simp add: rgblight_sethsv_eeprom_helper_def Let_def)

text \<open>
  Setting a mode needs the rest of the invariant only: whatever the mode was, it is clamped
  before it is used.
\<close>

lemma rgb_ok_mode:
  assumes "rgb_ok ((rgblight st)\<lparr>rgblight_config := (cfg st)\<lparr>rgb_mode := 1\<rparr>\<rparr>)"
    and "rgb_enable (cfg st)"
  shows "rgb_ok (rgblight (rgblight_mode_eeprom_helper E mode w st))"
proof -
  have "\<not> 1 < mode \<Longrightarrow> mode \<noteq> 0 \<Longrightarrow> mode = 1" by (auto simp: word_less_nat_alt word_unat_eq_iff)
  then show ?thesis
    using assms by (auto simp: rgblight_mode_eeprom_helper_def Let_def hw_defs rgblight_sethsv_noeeprom_def
        intro!: rgb_ok_sethsv)
qed

lemma rgb_ok_mode': "rgb_ok (rgblight st) \<Longrightarrow> rgb_ok (rgblight (rgblight_mode_eeprom_helper E mode w st))"
proof (cases "rgb_enable (cfg st)")
  case True
  then show "rgb_ok (rgblight st) \<Longrightarrow> ?thesis" by (intro rgb_ok_mode) (auto intro: rgb_ok_cfg)
qed (simp add: rgblight_mode_eeprom_helper_def)

text \<open>The commands a user or the host can issue, and that no sequence of them breaks the invariant.\<close>

datatype rgb_cmd =
    Reload | Increase | Decrease | Speed_Default | Update_Current | Update_Default | Qword u64
  | Step bool | Step_Reverse bool | Enable bool | Disable bool | Toggle bool | Mode bool u8
  | Hue_Up bool | Hue_Down bool | Sat_Up bool | Sat_Down bool | Val_Up bool | Val_Down bool
  | Speed_Up bool | Speed_Down bool | Speed bool u8 | HSV bool u8 u8 u8
  | HSV_At u8 u8 u8 u8 | HSV_Range u8 u8 u8 u8 u8

primrec rgb_exec :: "'e eeprom_driver \<Rightarrow> rgb_cmd \<Rightarrow> ('e, 'z) core_scheme \<Rightarrow> ('e, 'z) core_scheme" where
  "rgb_exec E Reload = rgblight_reload_from_eeprom E"
| "rgb_exec E Increase = rgblight_increase E"
| "rgb_exec E Decrease = rgblight_decrease E"
| "rgb_exec E Speed_Default = rgblight_set_speed_eeprom_helper E RGBLIGHT_DEFAULT_SPD True"
| "rgb_exec E Update_Current = eeconfig_update_rgblight_current E"
| "rgb_exec E Update_Default = eeconfig_update_rgblight_default E"
| "rgb_exec E (Qword q) = rgblight_update_qword E q"
| "rgb_exec E (Step w) = rgblight_step_helper E w"
| "rgb_exec E (Step_Reverse w) = rgblight_step_reverse_helper E w"
| "rgb_exec E (Enable w) = (if w then rgblight_enable E else rgblight_enable_noeeprom E)"
| "rgb_exec E (Disable w) = (if w then rgblight_disable E else rgblight_disable_noeeprom)"
| "rgb_exec E (Toggle w) = (if w then rgblight_toggle E else rgblight_toggle_noeeprom E)"
| "rgb_exec E (Mode w m) = rgblight_mode_eeprom_helper E m w"
| "rgb_exec E (Hue_Up w) = rgblight_increase_hue_helper E w"
| "rgb_exec E (Hue_Down w) = rgblight_decrease_hue_helper E w"
| "rgb_exec E (Sat_Up w) = rgblight_increase_sat_helper E w"
| "rgb_exec E (Sat_Down w) = rgblight_decrease_sat_helper E w"
| "rgb_exec E (Val_Up w) = rgblight_increase_val_helper E w"
| "rgb_exec E (Val_Down w) = rgblight_decrease_val_helper E w"
| "rgb_exec E (Speed_Up w) = rgblight_increase_speed_helper E w"
| "rgb_exec E (Speed_Down w) = rgblight_decrease_speed_helper E w"
| "rgb_exec E (Speed w v) = rgblight_set_speed_eeprom_helper E v w"
| "rgb_exec E (HSV w h s v) = rgblight_sethsv_eeprom_helper E h s v w"
| "rgb_exec E (HSV_At h s v i) = rgblight_sethsv_at h s v i"
| "rgb_exec E (HSV_Range h s v a b) = rgblight_sethsv_range h s v a b"

lemma check_config_ok: "rgb_mode (cfg (rgblight_check_config st)) = 1"
proof -
  have "\<not> mode < 1 \<Longrightarrow> \<not> 1 < mode \<Longrightarrow> mode = 1" for mode :: u8 by (auto simp: word_less_nat_alt word_unat_eq_iff)
  then show ?thesis by (auto simp: rgblight_check_config_def Let_def hw_defs)
qed

lemma rgb_ok_check: "rgb_ok ((rgblight st)\<lparr>rgblight_config := c\<rparr>) \<Longrightarrow> rgb_ok (rgblight (rgblight_check_config st))"
  using check_config_ok [of st] by (auto simp: rgb_ok_def rgblight_check_config_def Let_def)

lemma rgb_ok_enable:
  assumes "rgb_ok (rgblight st)"
  shows "rgb_ok (rgblight (rgblight_mode_eeprom_helper E m w (set_cfg ((cfg st)\<lparr>rgb_enable := True\<rparr>) st)))"
  using assms by (intro rgb_ok_mode) (auto intro!: rgb_ok_cfg)

lemma rgb_ok_off: "rgb_ok (rgblight st) \<Longrightarrow> rgb_ok (rgblight (set_cfg ((cfg st)\<lparr>rgb_enable := False\<rparr>) st))"
  by (auto intro!: rgb_ok_cfg)

lemma rgb_ok_exec:
  assumes "rgb_ok (rgblight st)"
  shows "rgb_ok (rgblight (rgb_exec E cmd st))"
proof (cases cmd)
  case Reload
  have "rgb_ok (rgblight (rgblight_check_config (eeconfig_read_rgblight E st)))"
    by (rule rgb_ok_check [where c = "cfg st"]) (simp add: assms eeconfig_read_rgblight_def)
  then show ?thesis using Reload
    by (simp add: rgblight_reload_from_eeprom_def Let_def rgblight_mode_noeeprom_def rgb_ok_mode')
next
  case (Qword q)
  let ?st = "set_cfg (rgblight_of_raw q) st"
  show ?thesis
  proof (cases "rgb_enable (cfg ?st)")
    case True
    then have "rgb_ok (rgblight (rgblight_mode_eeprom_helper E (rgb_mode (cfg ?st)) False ?st))"
      using assms by (intro rgb_ok_mode) (auto intro: rgb_ok_cfg)
    then show ?thesis using True Qword by (simp add: rgblight_update_qword_def Let_def rgblight_mode_noeeprom_def)
  next
    case False
    then have "rgb_ok (rgblight ?st)" using assms by (auto intro: rgb_ok_cfg)
    then show ?thesis using False Qword by (simp add: rgblight_update_qword_def Let_def rgb_ok_set)
  qed
next
  case Update_Current
  then show ?thesis using rgb_ok_check [where c = "cfg st" and st = st] assms by (simp add: eeconfig_update_rgblight_current_def)
next
  case Update_Default
  then show ?thesis using assms
    by (auto simp: eeconfig_update_rgblight_default_def rgblight_default_config_def hw_defs intro!: rgb_ok_cfg)
qed (use assms rgb_ok_modeD [OF assms] in \<open>auto simp: rgblight_increase_def rgblight_decrease_def rgblight_mode_def
    rgblight_set_speed_eeprom_helper_def Let_def rgblight_step_helper_def rgblight_step_reverse_helper_def
    rgblight_enable_def rgblight_enable_noeeprom_def rgblight_disable_def rgblight_disable_noeeprom_def
    rgblight_toggle_def rgblight_toggle_noeeprom_def rgblight_mode_noeeprom_def
    rgblight_increase_hue_helper_def rgblight_decrease_hue_helper_def rgblight_increase_sat_helper_def
    rgblight_decrease_sat_helper_def rgblight_increase_val_helper_def rgblight_decrease_val_helper_def
    rgblight_increase_speed_helper_def rgblight_decrease_speed_helper_def
    intro!: rgb_ok_mode' rgb_ok_cfg rgb_ok_sethsv rgb_ok_sethsv_at rgb_ok_sethsv_range
      rgb_ok_enable rgb_ok_set rgb_ok_off\<close>)

lemma cfg_mode:
  assumes "rgb_enable (cfg st)"
  shows "cfg (rgblight_mode_eeprom_helper E m w st) = (cfg st)\<lparr>rgb_mode := 1\<rparr>"
proof -
  have "\<not> 1 < m \<Longrightarrow> m \<noteq> 0 \<Longrightarrow> m = 1" by (auto simp: word_less_nat_alt word_unat_eq_iff)
  then show ?thesis using assms
    by (auto simp: rgblight_mode_eeprom_helper_def Let_def hw_defs rgblight_sethsv_noeeprom_def cfg_sethsv)
qed

text \<open>Toggling the light twice gives the configuration back.\<close>

lemma toggle_toggle:
  assumes "rgb_mode (cfg st) = 1"
  shows "cfg (rgblight_toggle_noeeprom E (rgblight_toggle_noeeprom E st)) = cfg st"
  using assms
  by (cases "rgb_enable (cfg st)") (simp_all add: rgblight_toggle_noeeprom_def rgblight_disable_noeeprom_def
      rgblight_enable_noeeprom_def Let_def rgblight_mode_noeeprom_def cfg_mode)

section \<open>Persistence\<close>

text \<open>The variables at reset; the strip shows nothing before the first flush.\<close>

definition rgblight_reset :: rgblight_globals where
  "rgblight_reset =
     \<lparr>rgblight_config = \<lparr>rgb_enable = False, rgb_velocikey = False, rgb_mode = 0, rgb_hue = 0, rgb_sat = 0,
        rgb_val = 0, rgb_speed = 0\<rparr>,
      rgb_base_mode = 0, is_rgblight_initialized = False, clipping_start_pos = 0, clipping_num_leds = 68,
      effect_start_pos = 0, effect_end_pos = 68, effect_num_leds = 68,
      ws2812_leds = replicate RGBLIGHT_LED_COUNT rgb_black, ws2812_strip = replicate RGBLIGHT_LED_COUNT rgb_black\<rparr>"

lemma rgb_ok_reset: "rgb_ok rgblight_reset"
  by (simp add: rgb_ok_def rgblight_reset_def)

lemma rgb_ok_init:
  assumes "rgb_ok (rgblight st)"
  shows "rgb_ok (rgblight (rgblight_init E st))"
proof -
  have chk: "rgb_ok (rgblight (rgblight_check_config st'))"
    if "(rgblight st')\<lparr>rgblight_config := cfg st\<rparr> = rgblight st" for st' :: "('a, 'b) core_scheme"
    by (rule rgb_ok_check [where c = "cfg st"]) (simp add: assms that)
  show ?thesis using assms
    by (auto simp: rgblight_init_def Let_def rgb_ok_base_mode rgblight_mode_noeeprom_def eeconfig_read_rgblight_def
        eeconfig_update_rgblight_default_def intro!: rgb_ok_mode' chk)
qed

context board_eeprom
begin

lemma read_update_rgblight:
  assumes "inv (ee st)" "rgb_mode (cfg st) < 64"
  shows "rgblight_of_raw (nvm_eeconfig_read_rgblight E (ee (eeconfig_update_rgblight E st))) = cfg st"
  using assms
  by (simp add: eeconfig_update_rgblight_def rgblight_roundtrip rgblight_raw_40 rgblight_of_raw_raw)

lemma update_rgblight_inv:
  "inv (ee st) \<Longrightarrow> inv (ee (eeconfig_update_rgblight E st))"
  by (simp add: eeconfig_update_rgblight_def nvm_eeconfig_update_rgblight_def hw_defs)

text \<open>
  A configuration that is stored comes back at the next start, capped to the brightness limit.
\<close>

lemma init_restores_rgblight:
  assumes "inv (ee st)" "nvm_eeconfig_read_rgblight E (ee st) = rgblight_raw c" "rgb_mode c = 1"
    and "\<not> is_rgblight_initialized (rgblight st)"
  shows "cfg (rgblight_init E st) = c\<lparr>rgb_val := limit_val (rgb_val c)\<rparr>"
  using assms rgblight_of_raw_raw [of c]
  by (auto simp: rgblight_init_def Let_def eeconfig_read_rgblight_def rgblight_check_config_def hw_defs limit_val_def
      rgblight_mode_noeeprom_def cfg_mode)

end

end
