(* ===== verification/He_Config.thy ===== *)
theory He_Config
  imports Rgblight "HOL-Library.Signed_Division"
begin

text \<open>
  The Hall-effect keyboard's configuration, \<^verbatim>\<open>keyboards/icebreaker/he/he_matrix.c\<close> (first half),
  \<^verbatim>\<open>he_matrix.h\<close> and \<^verbatim>\<open>config.h\<close>: the per-key thresholds, the actuation mode and the rapid-trigger
  tuning with their setters, the manual calibration run, the power-on defaults and the EEPROM
  copy of the settings.

  \<open>board\<close> holds every file-level variable of \<^verbatim>\<open>he_matrix.c\<close> and \<^verbatim>\<open>he_via.c\<close>, on top of the EEPROM
  and RGB light state of \<open>core\<close>. The invariant \<open>he_ok\<close> says that every array has one
  entry per sensor and every setting is inside its slider range; each operation keeps it, also
  the one that loads arbitrary bytes from the EEPROM.
\<close>

section \<open>Model\<close>

subsection \<open>Configuration constants\<close>

definition HE_SENSOR_COUNT :: nat where [hw_defs]: "HE_SENSOR_COUNT = 69"
definition HE_ENC_PUSH_INDEX :: nat where [hw_defs]: "HE_ENC_PUSH_INDEX = HE_SENSOR_COUNT - 1"
definition HE_ACTUATION_DEFAULT :: u8 where [hw_defs]: "HE_ACTUATION_DEFAULT = 50"
definition HE_RELEASE_DEFAULT :: u8 where [hw_defs]: "HE_RELEASE_DEFAULT = 30"
definition HE_DEADZONE_DEFAULT :: u8 where [hw_defs]: "HE_DEADZONE_DEFAULT = 50"
definition HE_ENGAGE_DEFAULT :: u8 where [hw_defs]: "HE_ENGAGE_DEFAULT = 15"
definition HE_RELEASE_DIST_DEFAULT :: u8 where [hw_defs]: "HE_RELEASE_DIST_DEFAULT = 10"
definition HE_ACTUATION_MIN :: u8 where [hw_defs]: "HE_ACTUATION_MIN = 10"
definition HE_ACTUATION_MAX :: u8 where [hw_defs]: "HE_ACTUATION_MAX = 90"
definition HE_RELEASE_MIN :: u8 where [hw_defs]: "HE_RELEASE_MIN = 10"
definition HE_RELEASE_MAX :: u8 where [hw_defs]: "HE_RELEASE_MAX = 90"
definition HE_DEADZONE_MIN :: u8 where [hw_defs]: "HE_DEADZONE_MIN = 15"
definition HE_DEADZONE_MAX :: u8 where [hw_defs]: "HE_DEADZONE_MAX = 60"
definition HE_ENGAGE_MIN :: u8 where [hw_defs]: "HE_ENGAGE_MIN = 5"
definition HE_ENGAGE_MAX :: u8 where [hw_defs]: "HE_ENGAGE_MAX = 20"
definition HE_RELEASE_DIST_MIN :: u8 where [hw_defs]: "HE_RELEASE_DIST_MIN = 5"
definition HE_RELEASE_DIST_MAX :: u8 where [hw_defs]: "HE_RELEASE_DIST_MAX = 20"
definition HE_ADC_RAW_MAX :: u16 where [hw_defs]: "HE_ADC_RAW_MAX = 4095"
definition HE_ADC_RAW_MID :: u16 where [hw_defs]: "HE_ADC_RAW_MID = 2048"
definition HE_ADC_REST_SAMPLE_SCANS :: u32 where [hw_defs]: "HE_ADC_REST_SAMPLE_SCANS = 64"
definition HE_ADC_REST_MARGIN :: u16 where [hw_defs]: "HE_ADC_REST_MARGIN = 20"
definition HE_ADC_TRAVEL_SPAN :: u16 where [hw_defs]: "HE_ADC_TRAVEL_SPAN = 700"
definition HE_ADC_MIN_SPAN :: int where [hw_defs]: "HE_ADC_MIN_SPAN = 200"
definition HE_CAL_PRESS_MARGIN :: nat where [hw_defs]: "HE_CAL_PRESS_MARGIN = 350"
definition HE_DEBOUNCE :: u8 where [hw_defs]: "HE_DEBOUNCE = 5"
definition HE_VIA_AUTOSAVE_MS :: u16 where [hw_defs]: "HE_VIA_AUTOSAVE_MS = 2000"

subsection \<open>Data\<close>

datatype he_actuation_mode_t = HE_MODE_NORMAL | HE_MODE_RAPID_TRIGGER | HE_MODE_KEY_CANCEL

fun he_mode_to_u8 :: "he_actuation_mode_t \<Rightarrow> u8" where
  "he_mode_to_u8 HE_MODE_NORMAL = 0"
| "he_mode_to_u8 HE_MODE_RAPID_TRIGGER = 1"
| "he_mode_to_u8 HE_MODE_KEY_CANCEL = 2"

text \<open>
  The cast of a byte to the enumeration. Every caller checks \<^verbatim>\<open>mode <= HE_MODE_KEY_CANCEL\<close> before it
  uses the value; the bytes that fail the check are \<open>None\<close>.
\<close>

definition he_mode_of_u8 :: "u8 \<Rightarrow> he_actuation_mode_t option" where
  "he_mode_of_u8 m =
     (if m = 0 then Some HE_MODE_NORMAL else if m = 1 then Some HE_MODE_RAPID_TRIGGER
      else if m = 2 then Some HE_MODE_KEY_CANCEL else None)"

record he_key_config_t =
  actuation :: u8
  release :: u8
  raw_min :: u16
  raw_max :: u16
  travel :: u8
  peak :: u8
  valley :: u8
  debounce :: u8
  pressed :: bool

record he_tuning_t =
  deadzone :: u8
  engage :: u8
  release_dist :: u8

text \<open>A GPIO pin by port letter and number; output levels and pin modes.\<close>

datatype pin = PA nat | PB nat
datatype pin_mode = Unset | Output_Pushpull | Input_Pulldown | Input_Pullup

record gpio =
  pin_level :: "pin \<Rightarrow> bool"
  pin_mode_of :: "pin \<Rightarrow> pin_mode"

record 'e board = "'e core" +
  gpio :: gpio
  he_config :: "he_key_config_t list"
  he_rest_floor :: "u16 list"
  he_mode :: he_actuation_mode_t
  he_tuning :: he_tuning_t
  he_calibrating :: bool
  cal_saved_hsv :: hsv_t
  he_cal_latched :: "bool list"
  he_phys_pressed :: "bool list"
  he_debounced :: "bool list"
  socd_winner :: "u8 list"
  he_scan_count :: u32
  staged_actuation :: u8
  staged_release :: u8
  staged_dirty :: bool
  autosave_pending :: bool
  autosave_timer :: u16

text \<open>A loop \<^verbatim>\<open>for (i = 0; i < HE_SENSOR_COUNT; i++)\<close> that assigns to \<^verbatim>\<open>he_config[i]\<close> only.\<close>

definition each_config :: "(nat \<Rightarrow> he_key_config_t \<Rightarrow> he_key_config_t) \<Rightarrow> ('e, 'z) board_scheme \<Rightarrow> ('e, 'z) board_scheme" where
  "each_config f st = st\<lparr>he_config := map (\<lambda>i. f i (he_config st ! i)) [0..<HE_SENSOR_COUNT]\<rparr>"

subsection \<open>Accessors and setters\<close>

definition he_get_config :: "u8 \<Rightarrow> ('e, 'z) board_scheme \<Rightarrow> he_key_config_t option" where
  "he_get_config index st = (if unat index < HE_SENSOR_COUNT then Some (he_config st ! unat index) else None)"

definition he_clamp_u8 :: "u8 \<Rightarrow> u8 \<Rightarrow> u8 \<Rightarrow> u8" where
  "he_clamp_u8 val lo hi = (if val < lo then lo else if val > hi then hi else val)"

definition he_set_actuation :: "u8 \<Rightarrow> ('e, 'z) board_scheme \<Rightarrow> ('e, 'z) board_scheme" where
  "he_set_actuation val =
     (let v = he_clamp_u8 val HE_ACTUATION_MIN HE_ACTUATION_MAX in each_config (\<lambda>i c. c\<lparr>actuation := v\<rparr>))"

definition he_set_release :: "u8 \<Rightarrow> ('e, 'z) board_scheme \<Rightarrow> ('e, 'z) board_scheme" where
  "he_set_release val =
     (let v = he_clamp_u8 val HE_RELEASE_MIN HE_RELEASE_MAX in each_config (\<lambda>i c. c\<lparr>release := v\<rparr>))"

definition he_set_all_actuation :: "u8 \<Rightarrow> ('e, 'z) board_scheme \<Rightarrow> ('e, 'z) board_scheme" where
  "he_set_all_actuation val = he_set_actuation val"

definition he_get_mode :: "('e, 'z) board_scheme \<Rightarrow> he_actuation_mode_t" where
  "he_get_mode st = he_mode st"

definition he_get_deadzone :: "('e, 'z) board_scheme \<Rightarrow> u8" where
  "he_get_deadzone st = deadzone (he_tuning st)"

definition he_set_deadzone :: "u8 \<Rightarrow> ('e, 'z) board_scheme \<Rightarrow> ('e, 'z) board_scheme" where
  "he_set_deadzone val st =
     st\<lparr>he_tuning := (he_tuning st)\<lparr>deadzone := he_clamp_u8 val HE_DEADZONE_MIN HE_DEADZONE_MAX\<rparr>\<rparr>"

definition he_get_engage :: "('e, 'z) board_scheme \<Rightarrow> u8" where
  "he_get_engage st = engage (he_tuning st)"

definition he_set_engage :: "u8 \<Rightarrow> ('e, 'z) board_scheme \<Rightarrow> ('e, 'z) board_scheme" where
  "he_set_engage val st =
     st\<lparr>he_tuning := (he_tuning st)\<lparr>engage := he_clamp_u8 val HE_ENGAGE_MIN HE_ENGAGE_MAX\<rparr>\<rparr>"

definition he_get_release_dist :: "('e, 'z) board_scheme \<Rightarrow> u8" where
  "he_get_release_dist st = release_dist (he_tuning st)"

definition he_set_release_dist :: "u8 \<Rightarrow> ('e, 'z) board_scheme \<Rightarrow> ('e, 'z) board_scheme" where
  "he_set_release_dist val st =
     st\<lparr>he_tuning := (he_tuning st)\<lparr>release_dist := he_clamp_u8 val HE_RELEASE_DIST_MIN HE_RELEASE_DIST_MAX\<rparr>\<rparr>"

subsection \<open>EEPROM copy\<close>

text \<open>
  The 69 packed two-byte records, and the packed four-byte settings record behind them. A cast of
  such an array to bytes is \<open>he_records\<close>; reading record \<open>i\<close> back is an access at \<open>2 * i\<close>.
\<close>

definition HE_SETTINGS_EEPROM_OFFSET :: nat where [hw_defs]: "HE_SETTINGS_EEPROM_OFFSET = HE_SENSOR_COUNT * 2"

definition he_records :: "he_key_config_t list \<Rightarrow> bytes" where
  "he_records cs = concat (map (\<lambda>c. [actuation c, release c]) cs)"

definition he_settings :: "('e, 'z) board_scheme \<Rightarrow> bytes" where
  "he_settings st =
     [he_mode_to_u8 (he_mode st), deadzone (he_tuning st), engage (he_tuning st), release_dist (he_tuning st)]"

definition he_save_settings_to_eeprom :: "'e eeprom_driver \<Rightarrow> ('e, 'z) board_scheme \<Rightarrow> ('e, 'z) board_scheme" where
  "he_save_settings_to_eeprom E st =
     st\<lparr>ee := nvm_eeconfig_update_kb_datablock E (he_settings st) HE_SETTINGS_EEPROM_OFFSET (ee st)\<rparr>"

definition he_save_to_eeprom :: "'e eeprom_driver \<Rightarrow> ('e, 'z) board_scheme \<Rightarrow> ('e, 'z) board_scheme" where
  "he_save_to_eeprom E st =
     he_save_settings_to_eeprom E
       (st\<lparr>ee := nvm_eeconfig_update_kb_datablock E (he_records (take HE_SENSOR_COUNT (he_config st))) 0 (ee st)\<rparr>)"

definition he_set_mode :: "'e eeprom_driver \<Rightarrow> u8 \<Rightarrow> ('e, 'z) board_scheme \<Rightarrow> ('e, 'z) board_scheme" where
  "he_set_mode E mode st =
     (case he_mode_of_u8 mode of
        Some m \<Rightarrow> he_save_settings_to_eeprom E (st\<lparr>he_mode := m\<rparr>)
      | None \<Rightarrow> st)"

text \<open>
  The stack buffers \<^verbatim>\<open>rec\<close> and \<^verbatim>\<open>settings\<close> start indeterminate; they are the arguments \<open>stk\<close> and
  \<open>stk2\<close>.
\<close>

definition he_load_from_eeprom ::
  "'e eeprom_driver \<Rightarrow> bytes \<Rightarrow> bytes \<Rightarrow> ('e, 'z) board_scheme \<Rightarrow> ('e, 'z) board_scheme" where
  "he_load_from_eeprom E stk stk2 st =
     (if \<not> nvm_eeconfig_is_kb_datablock_valid E (ee st) then he_save_to_eeprom E st
      else
        let rec = nvm_eeconfig_read_kb_datablock E stk 0 (ee st);
            st1 = each_config (\<lambda>i c. c\<lparr>
              actuation := he_clamp_u8 (rec ! (2 * i)) HE_ACTUATION_MIN HE_ACTUATION_MAX,
              release := he_clamp_u8 (rec ! (2 * i + 1)) HE_RELEASE_MIN HE_RELEASE_MAX\<rparr>) st;
            settings = nvm_eeconfig_read_kb_datablock E stk2 HE_SETTINGS_EEPROM_OFFSET (ee st);
            st2 = (case he_mode_of_u8 (settings ! 0) of Some m \<Rightarrow> st1\<lparr>he_mode := m\<rparr> | None \<Rightarrow> st1) in
        st2\<lparr>he_tuning := \<lparr>
          deadzone = he_clamp_u8 (settings ! 1) HE_DEADZONE_MIN HE_DEADZONE_MAX,
          engage = he_clamp_u8 (settings ! 2) HE_ENGAGE_MIN HE_ENGAGE_MAX,
          release_dist = he_clamp_u8 (settings ! 3) HE_RELEASE_DIST_MIN HE_RELEASE_DIST_MAX\<rparr>\<rparr>)"

subsection \<open>Custom keycodes\<close>

definition QK_KB_0 :: u16 where [hw_defs]: "QK_KB_0 = 0x7E00"
definition QK_KB_1 :: u16 where [hw_defs]: "QK_KB_1 = 0x7E01"
definition QK_KB_2 :: u16 where [hw_defs]: "QK_KB_2 = 0x7E02"

definition he_handle_keycode ::
  "'e eeprom_driver \<Rightarrow> u16 \<Rightarrow> bool \<Rightarrow> ('e, 'z) board_scheme \<Rightarrow> bool \<times> ('e, 'z) board_scheme" where
  "he_handle_keycode E keycode event_pressed st =
     (if keycode = QK_KB_0 then
        (False, if event_pressed then he_set_mode E (he_mode_to_u8 HE_MODE_NORMAL) st else st)
      else if keycode = QK_KB_1 then
        (False, if event_pressed then he_set_mode E (he_mode_to_u8 HE_MODE_RAPID_TRIGGER) st else st)
      else if keycode = QK_KB_2 then
        (False, if event_pressed then he_set_mode E (he_mode_to_u8 HE_MODE_KEY_CANCEL) st else st)
      else (True, st))"

subsection \<open>Calibration\<close>

definition he_start_calibration :: "'e eeprom_driver \<Rightarrow> ('e, 'z) board_scheme \<Rightarrow> ('e, 'z) board_scheme" where
  "he_start_calibration E st =
     (let st1 = each_config (\<lambda>i c. if i = HE_ENC_PUSH_INDEX then c
            else c\<lparr>raw_min := HE_ADC_RAW_MAX, raw_max := 0\<rparr>) (st\<lparr>he_cal_latched := replicate HE_SENSOR_COUNT False\<rparr>);
          st2 = st1\<lparr>he_calibrating := True, cal_saved_hsv := rgblight_get_hsv st1\<rparr> in
      rgblight_sethsv_noeeprom E 0 255 255 st2)"

definition rest_base :: "u16 \<Rightarrow> u16" where
  "rest_base floor = (if floor > HE_ADC_REST_MARGIN then floor - HE_ADC_REST_MARGIN else 0)"

definition end_calibration_key :: "u16 \<Rightarrow> he_key_config_t \<Rightarrow> he_key_config_t" where
  "end_calibration_key floor c =
     (if uint (raw_max c) - uint (raw_min c) < HE_ADC_MIN_SPAN then
        let base = (if floor < HE_ADC_RAW_MAX then rest_base floor else HE_ADC_RAW_MID) in
        c\<lparr>raw_min := base, raw_max := base + HE_ADC_TRAVEL_SPAN\<rparr>
      else c)"

definition he_end_calibration :: "'e eeprom_driver \<Rightarrow> ('e, 'z) board_scheme \<Rightarrow> ('e, 'z) board_scheme" where
  "he_end_calibration E st =
     (let st1 = st\<lparr>he_calibrating := False\<rparr>;
          st2 = each_config (\<lambda>i c. if i = HE_ENC_PUSH_INDEX then c else end_calibration_key (he_rest_floor st1 ! i) c) st1 in
      rgblight_sethsv_noeeprom E (hsv_h (cal_saved_hsv st2)) (hsv_s (cal_saved_hsv st2)) (hsv_v (cal_saved_hsv st2)) st2)"

definition he_is_calibrating :: "('e, 'z) board_scheme \<Rightarrow> bool" where
  "he_is_calibrating st = he_calibrating st"

subsection \<open>Power-on defaults\<close>

definition he_default_key :: he_key_config_t where
  "he_default_key =
     \<lparr>actuation = HE_ACTUATION_DEFAULT, release = HE_RELEASE_DEFAULT,
      raw_min = HE_ADC_RAW_MID - HE_ADC_REST_MARGIN,
      raw_max = HE_ADC_RAW_MID - HE_ADC_REST_MARGIN + HE_ADC_TRAVEL_SPAN,
      travel = 0, peak = 0, valley = 0, debounce = 0, pressed = False\<rparr>"

definition he_config_set_defaults :: "('e, 'z) board_scheme \<Rightarrow> ('e, 'z) board_scheme" where
  "he_config_set_defaults st =
     (each_config (\<lambda>i c. he_default_key) st)\<lparr>he_rest_floor := replicate HE_SENSOR_COUNT HE_ADC_RAW_MAX\<rparr>"

section \<open>The invariant\<close>

definition key_ok :: "he_key_config_t \<Rightarrow> bool" where
  "key_ok c \<longleftrightarrow> 10 \<le> actuation c \<and> actuation c \<le> 90 \<and> 10 \<le> release c \<and> release c \<le> 90"

definition tuning_ok :: "he_tuning_t \<Rightarrow> bool" where
  "tuning_ok t \<longleftrightarrow> 15 \<le> deadzone t \<and> deadzone t \<le> 60 \<and> 5 \<le> engage t \<and> engage t \<le> 20
     \<and> 5 \<le> release_dist t \<and> release_dist t \<le> 20"

definition he_ok :: "('e, 'z) board_scheme \<Rightarrow> bool" where
  "he_ok st \<longleftrightarrow> length (he_config st) = HE_SENSOR_COUNT \<and> length (he_rest_floor st) = HE_SENSOR_COUNT
     \<and> length (he_cal_latched st) = HE_SENSOR_COUNT \<and> length (he_phys_pressed st) = HE_SENSOR_COUNT
     \<and> length (he_debounced st) = HE_SENSOR_COUNT \<and> length (socd_winner st) = 2
     \<and> (\<forall>c\<in>set (he_config st). key_ok c) \<and> tuning_ok (he_tuning st)"

lemma he_clamp_range: "lo \<le> hi \<Longrightarrow> lo \<le> he_clamp_u8 v lo hi \<and> he_clamp_u8 v lo hi \<le> hi"
  by (auto simp: he_clamp_u8_def)

lemma he_clamp_id: "lo \<le> v \<Longrightarrow> v \<le> hi \<Longrightarrow> he_clamp_u8 v lo hi = v"
  by (auto simp: he_clamp_u8_def)

lemma he_clamp_ranges [simp]:
  "10 \<le> he_clamp_u8 v 10 90" "he_clamp_u8 v 10 90 \<le> 90" "15 \<le> he_clamp_u8 v 15 60" "he_clamp_u8 v 15 60 \<le> 60"
  "5 \<le> he_clamp_u8 v 5 20" "he_clamp_u8 v 5 20 \<le> 20"
  using he_clamp_range [of 10 90 v] he_clamp_range [of 15 60 v] he_clamp_range [of 5 20 v] by simp_all

lemma each_config_sel [simp]:
  "length (he_config (each_config f st)) = HE_SENSOR_COUNT"
  "i < HE_SENSOR_COUNT \<Longrightarrow> he_config (each_config f st) ! i = f i (he_config st ! i)"
  "ee (each_config f st) = ee st" "rgblight (each_config f st) = rgblight st" "gpio (each_config f st) = gpio st"
  "he_rest_floor (each_config f st) = he_rest_floor st" "he_mode (each_config f st) = he_mode st"
  "he_tuning (each_config f st) = he_tuning st" "he_calibrating (each_config f st) = he_calibrating st"
  "cal_saved_hsv (each_config f st) = cal_saved_hsv st" "he_cal_latched (each_config f st) = he_cal_latched st"
  "he_phys_pressed (each_config f st) = he_phys_pressed st" "he_debounced (each_config f st) = he_debounced st"
  "socd_winner (each_config f st) = socd_winner st" "he_scan_count (each_config f st) = he_scan_count st"
  by (simp_all add: each_config_def)

text \<open>The RGB light operations leave every variable of the keyboard driver alone.\<close>

lemma map_rgb_board [simp]:
  "gpio (map_rgb f st) = gpio st" "he_config (map_rgb f st) = he_config st" "he_rest_floor (map_rgb f st) = he_rest_floor st"
  "he_mode (map_rgb f st) = he_mode st" "he_tuning (map_rgb f st) = he_tuning st"
  "he_calibrating (map_rgb f st) = he_calibrating st" "cal_saved_hsv (map_rgb f st) = cal_saved_hsv st"
  "he_cal_latched (map_rgb f st) = he_cal_latched st" "he_phys_pressed (map_rgb f st) = he_phys_pressed st"
  "he_debounced (map_rgb f st) = he_debounced st" "socd_winner (map_rgb f st) = socd_winner st"
  "he_scan_count (map_rgb f st) = he_scan_count st" "staged_actuation (map_rgb f st) = staged_actuation st"
  "staged_release (map_rgb f st) = staged_release st" "staged_dirty (map_rgb f st) = staged_dirty st"
  "autosave_pending (map_rgb f st) = autosave_pending st" "autosave_timer (map_rgb f st) = autosave_timer st"
  by (simp_all add: map_rgb_def)

lemma sethsv_noeeprom_obtain:
  obtains g where "rgblight_sethsv_noeeprom E h s v st = map_rgb (\<lambda>_. g) st"
  using rgb_ops_map_rgb(5) by blast

lemma he_ok_each:
  "he_ok st \<Longrightarrow> (\<And>i c. key_ok c \<Longrightarrow> key_ok (f i c)) \<Longrightarrow> he_ok (each_config f st)"
  by (auto simp: he_ok_def each_config_def)

lemma he_ok_map_rgb [simp]: "he_ok (map_rgb f st) = he_ok st"
  by (simp add: he_ok_def)

lemma he_ok_sethsv_noeeprom [simp]: "he_ok (rgblight_sethsv_noeeprom E h s v st) = he_ok st"
  by (rule sethsv_noeeprom_obtain [of E h s v st]) simp

lemma he_ok_ee [simp]: "he_ok (st\<lparr>ee := e\<rparr>) = he_ok st" "he_ok (st\<lparr>he_mode := m\<rparr>) = he_ok st"
  "he_ok (st\<lparr>he_calibrating := b\<rparr>) = he_ok st" "he_ok (st\<lparr>cal_saved_hsv := c\<rparr>) = he_ok st"
  by (simp_all add: he_ok_def)

lemma he_ok_setters:
  assumes "he_ok st"
  shows "he_ok (he_set_actuation v st)" "he_ok (he_set_release v st)" "he_ok (he_set_deadzone v st)"
    "he_ok (he_set_engage v st)" "he_ok (he_set_release_dist v st)"
proof -
  show "he_ok (he_set_actuation v st)" "he_ok (he_set_release v st)"
    unfolding he_set_actuation_def he_set_release_def Let_def
    by (rule he_ok_each [OF assms]; simp add: key_ok_def hw_defs)+
  show "he_ok (he_set_deadzone v st)" "he_ok (he_set_engage v st)" "he_ok (he_set_release_dist v st)"
    using assms by (simp_all add: he_ok_def tuning_ok_def he_set_deadzone_def he_set_engage_def he_set_release_dist_def hw_defs)
qed

lemma he_ok_save [simp]:
  "he_ok (he_save_settings_to_eeprom E st) = he_ok st" "he_ok (he_save_to_eeprom E st) = he_ok st"
  by (simp_all add: he_save_settings_to_eeprom_def he_save_to_eeprom_def)

lemma he_ok_set_mode: "he_ok st \<Longrightarrow> he_ok (he_set_mode E m st)"
  by (simp add: he_set_mode_def split: option.split)

lemma he_ok_handle_keycode: "he_ok st \<Longrightarrow> he_ok (snd (he_handle_keycode E k p st))"
  by (simp add: he_handle_keycode_def he_ok_set_mode)

text \<open>Loading keeps the invariant whatever the EEPROM holds: the bytes are clamped.\<close>

lemma he_ok_load:
  assumes "he_ok st"
  shows "he_ok (he_load_from_eeprom E stk stk2 st)"
proof (cases "nvm_eeconfig_is_kb_datablock_valid E (ee st)")
  case True
  have tune: "he_ok (st'\<lparr>he_tuning := t\<rparr>)" if "he_ok st'" "tuning_ok t" for st' :: "('a, 'b) board_scheme" and t
    using that by (simp add: he_ok_def)
  show ?thesis using True
    by (auto simp: he_load_from_eeprom_def Let_def tuning_ok_def key_ok_def hw_defs split: option.split
        intro!: tune he_ok_each assms)
qed (simp add: he_load_from_eeprom_def assms)

lemma he_ok_defaults:
  assumes "length (he_cal_latched st) = HE_SENSOR_COUNT" "length (he_phys_pressed st) = HE_SENSOR_COUNT"
    "length (he_debounced st) = HE_SENSOR_COUNT" "length (socd_winner st) = 2" "tuning_ok (he_tuning st)"
  shows "he_ok (he_config_set_defaults st)"
  using assms by (auto simp: he_config_set_defaults_def he_ok_def each_config_def he_default_key_def key_ok_def hw_defs)

section \<open>Calibration\<close>

lemma start_calibration_sel:
  shows "he_config (he_start_calibration E st) = map (\<lambda>i. if i = HE_ENC_PUSH_INDEX then he_config st ! i
      else (he_config st ! i)\<lparr>raw_min := HE_ADC_RAW_MAX, raw_max := 0\<rparr>) [0..<HE_SENSOR_COUNT]"
    and "he_cal_latched (he_start_calibration E st) = replicate HE_SENSOR_COUNT False"
    and "he_calibrating (he_start_calibration E st)"
    and "cal_saved_hsv (he_start_calibration E st) = rgblight_get_hsv st"
    and "ee (he_start_calibration E st) = ee st"
    and "cfg (he_start_calibration E st) =
      (if rgb_enable (cfg st) then (cfg st)\<lparr>rgb_hue := 0, rgb_sat := 255, rgb_val := 255\<rparr> else cfg st)"
proof -
  define st2 where "st2 = (let st1 = each_config (\<lambda>i c. if i = HE_ENC_PUSH_INDEX then c
            else c\<lparr>raw_min := HE_ADC_RAW_MAX, raw_max := 0\<rparr>) (st\<lparr>he_cal_latched := replicate HE_SENSOR_COUNT False\<rparr>)
      in st1\<lparr>he_calibrating := True, cal_saved_hsv := rgblight_get_hsv st1\<rparr>)"
  have start: "he_start_calibration E st = rgblight_sethsv_noeeprom E 0 255 255 st2"
    by (simp add: he_start_calibration_def st2_def Let_def)
  obtain g where g: "rgblight_sethsv_noeeprom E 0 255 255 st2 = map_rgb (\<lambda>_. g) st2"
    using sethsv_noeeprom_obtain by metis
  have "cfg st2 = cfg st" by (simp add: st2_def Let_def)
  then show "cfg (he_start_calibration E st) =
      (if rgb_enable (cfg st) then (cfg st)\<lparr>rgb_hue := 0, rgb_sat := 255, rgb_val := 255\<rparr> else cfg st)"
    unfolding start rgblight_sethsv_noeeprom_def by (simp add: cfg_sethsv)
  show "he_config (he_start_calibration E st) = map (\<lambda>i. if i = HE_ENC_PUSH_INDEX then he_config st ! i
      else (he_config st ! i)\<lparr>raw_min := HE_ADC_RAW_MAX, raw_max := 0\<rparr>) [0..<HE_SENSOR_COUNT]"
    "he_cal_latched (he_start_calibration E st) = replicate HE_SENSOR_COUNT False"
    "he_calibrating (he_start_calibration E st)"
    "cal_saved_hsv (he_start_calibration E st) = rgblight_get_hsv st"
    "ee (he_start_calibration E st) = ee st"
    unfolding start g by (simp_all add: st2_def Let_def each_config_def rgblight_get_hsv_def)
qed

lemma end_calibration_sel:
  shows "he_config (he_end_calibration E st) = map (\<lambda>i. if i = HE_ENC_PUSH_INDEX then he_config st ! i
      else end_calibration_key (he_rest_floor st ! i) (he_config st ! i)) [0..<HE_SENSOR_COUNT]"
    and "\<not> he_calibrating (he_end_calibration E st)"
    and "ee (he_end_calibration E st) = ee st"
    and "cfg (he_end_calibration E st) = (if rgb_enable (cfg st) then (cfg st)\<lparr>rgb_hue := hsv_h (cal_saved_hsv st),
      rgb_sat := hsv_s (cal_saved_hsv st), rgb_val := hsv_v (cal_saved_hsv st)\<rparr> else cfg st)"
proof -
  define st2 where "st2 = each_config (\<lambda>i c. if i = HE_ENC_PUSH_INDEX then c
      else end_calibration_key (he_rest_floor st ! i) c) (st\<lparr>he_calibrating := False\<rparr>)"
  have "end": "he_end_calibration E st = rgblight_sethsv_noeeprom E (hsv_h (cal_saved_hsv st)) (hsv_s (cal_saved_hsv st))
      (hsv_v (cal_saved_hsv st)) st2"
    by (simp add: he_end_calibration_def st2_def Let_def cong: if_cong)
  obtain g where g: "rgblight_sethsv_noeeprom E (hsv_h (cal_saved_hsv st)) (hsv_s (cal_saved_hsv st))
      (hsv_v (cal_saved_hsv st)) st2 = map_rgb (\<lambda>_. g) st2"
    using sethsv_noeeprom_obtain by metis
  have "cfg st2 = cfg st" by (simp add: st2_def)
  then show "cfg (he_end_calibration E st) = (if rgb_enable (cfg st) then (cfg st)\<lparr>rgb_hue := hsv_h (cal_saved_hsv st),
      rgb_sat := hsv_s (cal_saved_hsv st), rgb_val := hsv_v (cal_saved_hsv st)\<rparr> else cfg st)"
    unfolding "end" rgblight_sethsv_noeeprom_def by (simp add: cfg_sethsv)
  show "he_config (he_end_calibration E st) = map (\<lambda>i. if i = HE_ENC_PUSH_INDEX then he_config st ! i
      else end_calibration_key (he_rest_floor st ! i) (he_config st ! i)) [0..<HE_SENSOR_COUNT]"
    "\<not> he_calibrating (he_end_calibration E st)" "ee (he_end_calibration E st) = ee st"
    unfolding "end" g by (simp_all add: st2_def each_config_def)
qed

lemma rest_base_bound: "rest_base f \<le> f"
  by (auto simp: rest_base_def hw_defs word_sub_le_iff)

text \<open>
  After a calibration every analog key has a usable span: the one it was pressed through, or the
  fallback of 700 counts above its resting floor.
\<close>

lemma end_calibration_span:
  "200 \<le> uint (raw_max (end_calibration_key f c)) - uint (raw_min (end_calibration_key f c))"
proof (cases "uint (raw_max c) - uint (raw_min c) < HE_ADC_MIN_SPAN")
  case True
  define base where "base = (if f < HE_ADC_RAW_MAX then rest_base f else HE_ADC_RAW_MID)"
  have "base \<le> 4095"
    using rest_base_bound [of f] by (auto simp: base_def hw_defs intro: order_trans)
  then have "uint (base + 700) = uint base + 700"
    by (simp add: word_le_def uint_word_ariths(1) mod_pos_pos_trivial)
  then show ?thesis using True by (simp add: end_calibration_key_def Let_def HE_ADC_TRAVEL_SPAN_def flip: base_def)
qed (simp add: end_calibration_key_def hw_defs)

section \<open>Save and load\<close>

text \<open>The part of the state that is stored: the thresholds, the mode and the tuning.\<close>

definition he_stored :: "('e, 'z) board_scheme \<Rightarrow> (u8 \<times> u8) list \<times> he_actuation_mode_t \<times> he_tuning_t" where
  "he_stored st = (map (\<lambda>c. (actuation c, release c)) (he_config st), he_mode st, he_tuning st)"

lemma he_records_length [simp]: "length (he_records cs) = 2 * length cs"
  by (induction cs) (simp_all add: he_records_def)

lemma he_records_nth:
  "i < length cs \<Longrightarrow> he_records cs ! (2 * i) = actuation (cs ! i) \<and> he_records cs ! (2 * i + 1) = release (cs ! i)"
proof (induction cs arbitrary: i)
  case (Cons c cs)
  then show ?case by (cases i) (simp_all add: he_records_def)
qed simp

lemma he_mode_of_to [simp]: "he_mode_of_u8 (he_mode_to_u8 m) = Some m"
  by (cases m) (simp_all add: he_mode_of_u8_def)

context board_eeprom
begin

lemma save_settings_inv:
  assumes "inv (ee st)"
  shows "inv (ee (he_save_settings_to_eeprom E st))"
  using assms update_kb_datablock_view(1) [of "ee st" HE_SETTINGS_EEPROM_OFFSET "he_settings st"]
  by (simp add: he_save_settings_to_eeprom_def he_settings_def hw_defs)

text \<open>The bytes of the data block after a save.\<close>

lemma save_view:
  assumes "inv (ee st)" "he_ok st"
  shows "inv (ee (he_save_to_eeprom E st))"
    and "nvm_eeconfig_is_kb_datablock_valid E (ee (he_save_to_eeprom E st))"
    and "slice 37 138 (view (ee (he_save_to_eeprom E st))) = he_records (he_config st)"
    and "slice 175 4 (view (ee (he_save_to_eeprom E st))) = he_settings st"
proof -
  let ?r = "he_records (he_config st)"
  let ?e1 = "nvm_eeconfig_update_kb_datablock E ?r 0 (ee st)"
  have len: "length (he_config st) = 69" using assms by (simp add: he_ok_def hw_defs)
  have save: "ee (he_save_to_eeprom E st) = nvm_eeconfig_update_kb_datablock E (he_settings st) 138 ?e1"
    using len by (simp add: he_save_to_eeprom_def he_save_settings_to_eeprom_def he_settings_def hw_defs)
  have e1: "inv ?e1" "view ?e1 = blit 37 ?r (blit 15 (le32 3) (view (ee st)))"
    using update_kb_datablock_view [of "ee st" 0 ?r] assms(1) len by (simp_all add: hw_defs)
  have s4: "length (he_settings st) = 4" by (simp add: he_settings_def)
  have e2: "inv (ee (he_save_to_eeprom E st))"
    "view (ee (he_save_to_eeprom E st)) = blit 175 (he_settings st) (blit 15 (le32 3) (view ?e1))"
    using update_kb_datablock_view [of ?e1 138 "he_settings st"] e1(1) s4 by (simp_all add: hw_defs save)
  show "inv (ee (he_save_to_eeprom E st))" by (rule e2(1))
  show "nvm_eeconfig_is_kb_datablock_valid E (ee (he_save_to_eeprom E st))"
    using kb_datablock_roundtrip(2) [of ?e1 138 "he_settings st" "he_settings st"] e1(1) s4 by (simp add: save hw_defs)
  show "slice 37 138 (view (ee (he_save_to_eeprom E st))) = ?r"
    using e1 assms(1) len s4 by (simp add: e2(2) slice_blit_disjoint)
  show "slice 175 4 (view (ee (he_save_to_eeprom E st))) = he_settings st"
    using e1 assms(1) len s4 by (simp add: e2(2))
qed

text \<open>Loading what was saved restores the settings, on any state of the right shape.\<close>

lemma load_image:
  assumes "inv (ee st0)" "nvm_eeconfig_is_kb_datablock_valid E (ee st0)" "he_ok st" "length stk = 138" "length stk2 = 4"
    "slice 37 138 (view (ee st0)) = he_records (he_config st)" "slice 175 4 (view (ee st0)) = he_settings st"
  shows "he_stored (he_load_from_eeprom E stk stk2 st0) = he_stored st"
proof -
  have len: "length (he_config st) = 69" using assms(3) by (simp add: he_ok_def hw_defs)
  have r: "nvm_eeconfig_read_kb_datablock E stk 0 (ee st0) = he_records (he_config st)"
    using read_kb_datablock_view [OF assms(1,2), of 0 stk] assms(4,6) by (simp add: hw_defs)
  have s: "nvm_eeconfig_read_kb_datablock E stk2 138 (ee st0) = he_settings st"
    using read_kb_datablock_view [OF assms(1,2), of 138 stk2] assms(5,7) by (simp add: hw_defs)
  have key: "actuation c \<in> {10..90} \<and> release c \<in> {10..90}" if "c \<in> set (he_config st)" for c
    using assms(3) that by (auto simp: he_ok_def key_ok_def)
  have ths: "map (\<lambda>i. (he_clamp_u8 (he_records (he_config st) ! (2 * i)) 10 90,
      he_clamp_u8 (he_records (he_config st) ! (Suc (2 * i))) 10 90)) [0..<69] = map (\<lambda>c. (actuation c, release c)) (he_config st)"
    using key he_records_nth [of _ "he_config st"] len by (auto intro!: nth_equalityI he_clamp_id)
  have tun: "tuning_ok (he_tuning st)" using assms(3) by (simp add: he_ok_def)
  show ?thesis
    using assms(2) tun ths
    by (simp add: he_load_from_eeprom_def Let_def he_stored_def each_config_def hw_defs r s he_settings_def
        tuning_ok_def he_clamp_id comp_def)
qed

lemma load_save:
  assumes "inv (ee st)" "he_ok st" "length stk = 138" "length stk2 = 4" "ee st0 = ee (he_save_to_eeprom E st)"
  shows "he_stored (he_load_from_eeprom E stk stk2 st0) = he_stored st"
  using save_view [OF assms(1,2), folded assms(5)] by (intro load_image assms(2-4))

lemma load_inv:
  "inv (ee st) \<Longrightarrow> he_ok st \<Longrightarrow> inv (ee (he_load_from_eeprom E stk stk2 st))"
  using save_view(1) [of st] by (auto simp: he_load_from_eeprom_def Let_def split: option.split)

end

end
