(* ===== verification/He_Mux.thy ===== *)
theory He_Mux
  imports He_Config
begin

text \<open>
  The analog front end of \<^verbatim>\<open>he_matrix.c\<close>: the sensor table, the five multiplexers behind one ADC pin,
  the encoder's push switch and the pin set-up.

  A GPIO operation is a list of pin writes applied in order, so that a property can speak about
  the pins between two writes. What the ADC and an input pin read is a function of the output
  levels and belongs to the environment \<open>env\<close>. The locale \<open>board_wiring\<close> says what the board's
  wiring makes of it: with one multiplexer enabled the ADC sees the sensor on the selected channel.
\<close>

section \<open>Model\<close>

definition HE_MUX_COUNT :: nat where [hw_defs]: "HE_MUX_COUNT = 5"
definition HE_ADDR_LINES :: nat where [hw_defs]: "HE_ADDR_LINES = 4"
definition mux_ce_pins :: "pin list" where "mux_ce_pins = [PB 0, PA 7, PA 6, PA 5, PA 4]"
definition mux_addr_pins :: "pin list" where "mux_addr_pins = [PB 3, PB 4, PB 6, PB 5]"
definition HE_ENC_PUSH_DRIVE_PIN :: pin where [hw_defs]: "HE_ENC_PUSH_DRIVE_PIN = PB 12"
definition HE_ENC_PUSH_SENSE_PIN :: pin where [hw_defs]: "HE_ENC_PUSH_SENSE_PIN = PB 15"

record he_sensor_t =
  sensor_row :: nat
  sensor_col :: nat
  sensor_id :: nat
  sensor_mux :: nat
  sensor_addr :: nat

definition he_sensor :: "nat \<times> nat \<times> nat \<times> nat \<times> nat \<Rightarrow> he_sensor_t" where
  "he_sensor = (\<lambda>(row, col, sid, mux, addr).
     \<lparr>sensor_row = row, sensor_col = col, sensor_id = sid, sensor_mux = mux, sensor_addr = addr\<rparr>)"

definition he_sensors :: "he_sensor_t list" where
  "he_sensors = map he_sensor
    [(0, 0, 0, 0, 3), (0, 1, 1, 0, 5), (0, 2, 2, 0, 6), (0, 3, 3, 0, 2), (0, 4, 4, 1, 6), (0, 5, 5, 1, 5),
     (0, 6, 6, 1, 4), (0, 7, 7, 1, 3), (0, 8, 8, 2, 5), (0, 9, 9, 2, 4), (0, 10, 10, 2, 3), (0, 11, 11, 2, 2),
     (0, 12, 12, 3, 3), (0, 13, 13, 3, 2), (0, 14, 14, 4, 5), (0, 15, 15, 4, 4), (1, 0, 16, 0, 4), (1, 1, 17, 0, 7),
     (1, 2, 18, 0, 0), (1, 3, 19, 0, 1), (1, 4, 20, 1, 7), (1, 5, 21, 1, 0), (1, 6, 22, 1, 1), (1, 7, 23, 1, 2),
     (1, 8, 24, 2, 6), (1, 9, 25, 2, 0), (1, 10, 26, 2, 1), (1, 11, 27, 3, 5), (1, 12, 28, 3, 0), (1, 13, 29, 3, 1),
     (1, 14, 30, 4, 2), (2, 0, 31, 0, 8), (2, 1, 32, 0, 10), (2, 2, 33, 0, 15), (2, 3, 34, 1, 8), (2, 4, 35, 1, 10),
     (2, 5, 36, 1, 15), (2, 6, 37, 1, 14), (2, 7, 38, 2, 8), (2, 8, 39, 2, 9), (2, 9, 40, 2, 15), (2, 10, 41, 3, 8),
     (2, 11, 42, 3, 9), (2, 12, 43, 3, 14), (2, 13, 44, 4, 14), (3, 0, 45, 0, 9), (3, 1, 46, 0, 13), (3, 2, 47, 0, 14),
     (3, 3, 48, 1, 11), (3, 4, 49, 1, 12), (3, 5, 50, 2, 10), (3, 6, 51, 2, 11), (3, 7, 52, 2, 12), (3, 8, 53, 2, 13),
     (3, 9, 54, 2, 14), (3, 10, 55, 3, 10), (3, 11, 56, 3, 13), (3, 12, 57, 4, 10), (3, 13, 58, 4, 13), (4, 0, 59, 0, 11),
     (4, 1, 60, 0, 12), (4, 2, 61, 1, 9), (4, 3, 62, 1, 13), (4, 4, 63, 3, 11), (4, 5, 64, 3, 12), (4, 6, 65, 4, 9),
     (4, 7, 66, 4, 11), (4, 8, 67, 4, 12), (4, 9, 68, 0, 0)]"

definition socd_pairs :: "(nat \<times> nat) list" where
  "socd_pairs = [(32, 34), (46, 47)]"

definition he_led_remap :: "nat list" where
  "he_led_remap =
    [0, 1, 2, 3, 4, 5, 6, 7, 8, 9, 10, 11, 12, 13, 14, 15,
     30, 29, 28, 27, 26, 25, 24, 23, 22, 21, 20, 19, 18, 17, 16,
     31, 32, 33, 34, 35, 36, 37, 38, 39, 40, 41, 42, 43, 44,
     58, 57, 56, 55, 54, 53, 52, 51, 50, 49, 48, 47, 46, 45,
     59, 60, 61, 62, 63, 64, 65, 66, 67,
     0]"

subsection \<open>Pins\<close>

fun gpio_write :: "pin \<times> bool \<Rightarrow> gpio \<Rightarrow> gpio" where
  "gpio_write (p, level) g = g\<lparr>pin_level := (pin_level g)(p := level)\<rparr>"

definition gpio_set_mode :: "pin \<Rightarrow> pin_mode \<Rightarrow> gpio \<Rightarrow> gpio" where
  "gpio_set_mode p m g = g\<lparr>pin_mode_of := (pin_mode_of g)(p := m)\<rparr>"

definition he_mux_all_disabled :: "(pin \<times> bool) list" where
  "he_mux_all_disabled = map (\<lambda>i. (mux_ce_pins ! i, True)) [0..<HE_MUX_COUNT]"

definition he_mux_select :: "nat \<Rightarrow> nat \<Rightarrow> (pin \<times> bool) list" where
  "he_mux_select idx addr =
     he_mux_all_disabled @ map (\<lambda>b. (mux_addr_pins ! b, bit addr b)) [0..<HE_ADDR_LINES]
       @ (if idx < HE_MUX_COUNT then [(mux_ce_pins ! idx, False)] else [])"

text \<open>
  What the outside world answers during one scan: the ADC pin and the input pins as functions of
  the levels the firmware drives, and the millisecond timer.
\<close>

record env =
  adc_pin :: "(pin \<Rightarrow> bool) \<Rightarrow> u16"
  input_pin :: "(pin \<Rightarrow> bool) \<Rightarrow> pin \<Rightarrow> bool"
  timer_ms :: u32

definition he_read_sensor_raw :: "env \<Rightarrow> he_sensor_t \<Rightarrow> gpio \<Rightarrow> u16 \<times> gpio" where
  "he_read_sensor_raw env s g =
     (let g' = fold gpio_write (he_mux_select (sensor_mux s) (sensor_addr s)) g in (adc_pin env (pin_level g'), g'))"

definition he_read_sensor :: "env \<Rightarrow> u8 \<Rightarrow> gpio \<Rightarrow> u16 \<times> gpio" where
  "he_read_sensor env index g =
     (if HE_SENSOR_COUNT \<le> unat index then (0, g) else he_read_sensor_raw env (he_sensors ! unat index) g)"

definition he_read_encoder_push :: "env \<Rightarrow> gpio \<Rightarrow> bool \<times> gpio" where
  "he_read_encoder_push env g =
     (let g' = gpio_write (HE_ENC_PUSH_DRIVE_PIN, True) (gpio_set_mode HE_ENC_PUSH_DRIVE_PIN Output_Pushpull g) in
      (input_pin env (pin_level g') HE_ENC_PUSH_SENSE_PIN, g'))"

definition matrix_init_pins :: "gpio \<Rightarrow> gpio" where
  "matrix_init_pins g =
     (let g1 = fold (\<lambda>i g. gpio_write (mux_addr_pins ! i, False) (gpio_set_mode (mux_addr_pins ! i) Output_Pushpull g))
            [0..<HE_ADDR_LINES] g;
          g2 = fold (\<lambda>i g. gpio_write (mux_ce_pins ! i, True) (gpio_set_mode (mux_ce_pins ! i) Output_Pushpull g))
            [0..<HE_MUX_COUNT] g1 in
      gpio_write (HE_ENC_PUSH_DRIVE_PIN, False) (gpio_set_mode HE_ENC_PUSH_DRIVE_PIN Output_Pushpull
        (gpio_set_mode HE_ENC_PUSH_SENSE_PIN Input_Pulldown g2)))"

definition matrix_init_custom :: "('e, 'z) board_scheme \<Rightarrow> ('e, 'z) board_scheme" where
  "matrix_init_custom st = he_config_set_defaults (st\<lparr>gpio := matrix_init_pins (gpio st)\<rparr>)"

section \<open>The sensor table\<close>

text \<open>
  The levels select channel \<open>a\<close> of multiplexer \<open>m\<close>: its enable line is the only low one and the
  address lines carry \<open>a\<close>.
\<close>

definition selects :: "(pin \<Rightarrow> bool) \<Rightarrow> nat \<Rightarrow> nat \<Rightarrow> bool" where
  "selects lv m a \<longleftrightarrow> (\<forall>i<HE_MUX_COUNT. lv (mux_ce_pins ! i) \<longleftrightarrow> i \<noteq> m) \<and> (\<forall>b<HE_ADDR_LINES. lv (mux_addr_pins ! b) \<longleftrightarrow> bit a b)"

definition all_disabled :: "(pin \<Rightarrow> bool) \<Rightarrow> bool" where
  "all_disabled lv \<longleftrightarrow> (\<forall>i<HE_MUX_COUNT. lv (mux_ce_pins ! i))"

lemma he_sensors_length [simp]: "length he_sensors = 69"
  by (simp add: he_sensors_def)

text \<open>
  Each sensor has its own matrix position, its own table index as identifier, and each analog
  sensor its own multiplexer channel; entry 68 reuses a channel and is read through GPIO.
\<close>

lemma he_sensors_positions:
  "distinct (map (\<lambda>s. (sensor_row s, sensor_col s)) he_sensors)"
  "\<forall>s\<in>set he_sensors. sensor_row s < 5 \<and> sensor_col s < 16 \<and> sensor_mux s < HE_MUX_COUNT \<and> sensor_addr s < 16"
  "map sensor_id he_sensors = [0..<69]"
  by (simp_all add: he_sensors_def he_sensor_def hw_defs upt_conv_Cons)

lemma he_sensors_channels:
  "distinct (map (\<lambda>s. (sensor_mux s, sensor_addr s)) (take HE_ENC_PUSH_INDEX he_sensors))"
  by (simp add: he_sensors_def he_sensor_def hw_defs)

lemma he_sensors_nth:
  assumes "i < 69"
  shows "sensor_row (he_sensors ! i) < 5" "sensor_col (he_sensors ! i) < 16"
    "sensor_mux (he_sensors ! i) < 5" "sensor_addr (he_sensors ! i) < 16"
  using he_sensors_positions(2) assms nth_mem [of i he_sensors] by (auto simp: hw_defs)

text \<open>The LED remap is a permutation of the strip.\<close>

lemma he_led_remap_perm: "distinct (take 68 he_led_remap)" "set (take 68 he_led_remap) = {0..<68}"
proof -
  show d: "distinct (take 68 he_led_remap)" by (simp add: he_led_remap_def)
  have "set (take 68 he_led_remap) \<subseteq> {0..<68}" by (simp add: he_led_remap_def)
  moreover have "card (set (take 68 he_led_remap)) = 68" using d by (simp add: distinct_card he_led_remap_def)
  ultimately show "set (take 68 he_led_remap) = {0..<68}" by (intro card_subset_eq) auto
qed

section \<open>Selecting a channel\<close>

lemma all_mux_iff: "(\<forall>i<5. P i) \<longleftrightarrow> P 0 \<and> P 1 \<and> P 2 \<and> P 3 \<and> P (4 :: nat)"
  by (auto simp: All_less_Suc numeral_eq_Suc)

lemma all_addr_iff: "(\<forall>i<4. P i) \<longleftrightarrow> P 0 \<and> P 1 \<and> P 2 \<and> P (3 :: nat)"
  by (auto simp: All_less_Suc numeral_eq_Suc)

lemma upt_lines: "[0..<5] = [0, 1, 2, 3, 4 :: nat]" "[0..<4] = [0, 1, 2, 3 :: nat]"
  by (simp_all add: upt_conv_Cons)

lemmas mux_simps = he_mux_select_def he_mux_all_disabled_def mux_ce_pins_def mux_addr_pins_def
  HE_MUX_COUNT_def HE_ADDR_LINES_def upt_lines

lemma mux_cases: "m < 5 \<Longrightarrow> m = 0 \<or> m = 1 \<or> m = 2 \<or> m = 3 \<or> m = (4 :: nat)"
  by auto

lemma he_mux_select_selects:
  assumes "m < HE_MUX_COUNT"
  shows "selects (pin_level (fold gpio_write (he_mux_select m a) g)) m a"
proof -
  have "m = 0 \<or> m = 1 \<or> m = 2 \<or> m = 3 \<or> m = 4" using mux_cases assms by (simp add: hw_defs)
  then show ?thesis
    by (elim disjE) (simp_all add: selects_def mux_simps all_mux_iff all_addr_iff)
qed

text \<open>
  No glitch on the shared ADC line: whenever an address line is written, every multiplexer is
  disabled before and after the write.
\<close>

lemma gpio_write_levels: "pin_level (fold gpio_write ws g) = fold (\<lambda>(p, l) lv. lv(p := l)) ws (pin_level g)"
  by (induction ws arbitrary: g) auto

lemma he_mux_select_no_glitch:
  assumes "k < length (he_mux_select m a)" "fst (he_mux_select m a ! k) \<in> set mux_addr_pins"
  shows "all_disabled (pin_level (fold gpio_write (take k (he_mux_select m a)) g))"
    and "all_disabled (pin_level (fold gpio_write (take (Suc k) (he_mux_select m a)) g))"
proof -
  have split: "he_mux_select m a = he_mux_all_disabled @ map (\<lambda>b. (mux_addr_pins ! b, bit a b)) [0..<4]
      @ (if m < 5 then [(mux_ce_pins ! m, False)] else [])"
    by (simp add: he_mux_select_def hw_defs)
  have ce: "mux_ce_pins ! m \<notin> set mux_addr_pins" if "m < 5"
    using mux_cases [OF that] by (auto simp: mux_ce_pins_def mux_addr_pins_def)
  have k: "5 \<le> k" "k < 9"
    using assms ce mux_cases [of k]
    by (auto simp: split he_mux_all_disabled_def hw_defs nth_append mux_ce_pins_def mux_addr_pins_def
        split: if_splits intro: leI)
  have "all_disabled (pin_level (fold gpio_write (take j (he_mux_select m a)) g))" if "5 \<le> j" "j \<le> 9" for j
  proof -
    have "j = 5 \<or> j = 6 \<or> j = 7 \<or> j = 8 \<or> j = 9" using that by auto
    then show ?thesis by (auto simp: all_disabled_def mux_simps all_mux_iff)
  qed
  then show "all_disabled (pin_level (fold gpio_write (take k (he_mux_select m a)) g))"
    "all_disabled (pin_level (fold gpio_write (take (Suc k) (he_mux_select m a)) g))"
    using k by auto
qed

section \<open>The board's wiring\<close>

locale board_wiring =
  fixes env :: env and volt :: "nat \<Rightarrow> nat \<Rightarrow> u16" and push :: bool
  assumes adc_wired: "selects lv m a \<Longrightarrow> m < 5 \<Longrightarrow> a < 16 \<Longrightarrow> adc_pin env lv = volt m a"
    and push_wired: "lv HE_ENC_PUSH_DRIVE_PIN \<Longrightarrow> input_pin env lv HE_ENC_PUSH_SENSE_PIN = push"
begin

lemma read_sensor_raw_volt:
  assumes "sensor_mux s < 5" "sensor_addr s < 16"
  shows "fst (he_read_sensor_raw env s g) = volt (sensor_mux s) (sensor_addr s)"
  using assms he_mux_select_selects [of "sensor_mux s" "sensor_addr s" g]
  by (simp add: he_read_sensor_raw_def Let_def hw_defs adc_wired)

lemma read_encoder_push: "fst (he_read_encoder_push env g) = push"
  by (simp add: he_read_encoder_push_def Let_def push_wired)

end

text \<open>The wiring itself: the first enabled multiplexer drives the ADC pin, the switch shorts drive to sense.\<close>

definition wired_env :: "(nat \<Rightarrow> nat \<Rightarrow> u16) \<Rightarrow> bool \<Rightarrow> u32 \<Rightarrow> env" where
  "wired_env volt push t =
     \<lparr>adc_pin = (\<lambda>lv. case filter (\<lambda>m. \<not> lv (mux_ce_pins ! m)) [0..<5] of
          [] \<Rightarrow> 0 | m # _ \<Rightarrow> volt m (\<Sum>b\<leftarrow>[0..<4]. if lv (mux_addr_pins ! b) then 2 ^ b else 0)),
      input_pin = (\<lambda>lv p. p = HE_ENC_PUSH_SENSE_PIN \<and> push \<and> lv HE_ENC_PUSH_DRIVE_PIN),
      timer_ms = t\<rparr>"

lemma four_bits: "(a :: nat) < 16 \<Longrightarrow> (\<Sum>b\<leftarrow>[0..<4]. if bit a b then 2 ^ b else 0) = a"
proof -
  assume "a < 16"
  then have "a = 0 \<or> a = 1 \<or> a = 2 \<or> a = 3 \<or> a = 4 \<or> a = 5 \<or> a = 6 \<or> a = 7 \<or> a = 8 \<or> a = 9 \<or> a = 10
      \<or> a = 11 \<or> a = 12 \<or> a = 13 \<or> a = 14 \<or> a = 15" by presburger
  then show ?thesis by (elim disjE) (simp_all add: upt_lines bit_0)
qed

interpretation wired: board_wiring "wired_env volt push t" volt push for volt push t
proof
  fix lv m a
  assume sel: "selects lv m a" "m < (5 :: nat)" "a < (16 :: nat)"
  have "filter (\<lambda>i. \<not> lv (mux_ce_pins ! i)) [0..<5] = [m]"
    using sel mux_cases [OF sel(2)] by (auto simp: selects_def HE_MUX_COUNT_def all_mux_iff upt_lines)
  moreover have "(\<Sum>b\<leftarrow>[0..<4]. if lv (mux_addr_pins ! b) then 2 ^ b else 0) = a"
    using sel four_bits [OF sel(3)] by (simp add: selects_def HE_ADDR_LINES_def all_addr_iff upt_lines)
  ultimately show "adc_pin (wired_env volt push t) lv = volt m a" by (simp add: wired_env_def)
qed (simp add: wired_env_def)

end
