(* ===== verification/He_Via.thy ===== *)
theory He_Via
  imports He_Mux
begin

text \<open>
  The keyboard's VIA channel, \<^verbatim>\<open>keyboards/icebreaker/he/he_via.c\<close>: staged thresholds, the automatic
  save two seconds after the last slider change, and the handlers of the custom values. A raw HID
  packet is a list of bytes that the handlers change in place; the pointer \<^verbatim>\<open>&data[2]\<close> is the packet
  without its first two bytes.
\<close>

section \<open>Model\<close>

definition timer_read :: "env \<Rightarrow> u16" where
  "timer_read env = ucast (timer_ms env)"

definition timer_elapsed :: "env \<Rightarrow> u16 \<Rightarrow> u16" where
  "timer_elapsed env last_t = timer_read env - last_t"

definition he_id_actuation :: u8 where [hw_defs]: "he_id_actuation = 1"
definition he_id_release :: u8 where [hw_defs]: "he_id_release = 2"
definition he_id_save :: u8 where [hw_defs]: "he_id_save = 3"
definition he_id_cal_start :: u8 where [hw_defs]: "he_id_cal_start = 4"
definition he_id_cal_end :: u8 where [hw_defs]: "he_id_cal_end = 5"
definition he_id_mode :: u8 where [hw_defs]: "he_id_mode = 6"
definition he_id_deadzone :: u8 where [hw_defs]: "he_id_deadzone = 7"
definition he_id_engage :: u8 where [hw_defs]: "he_id_engage = 8"
definition he_id_release_dist :: u8 where [hw_defs]: "he_id_release_dist = 9"
definition he_id_set_all :: u8 where [hw_defs]: "he_id_set_all = 12"

definition id_custom_set_value :: u8 where [hw_defs]: "id_custom_set_value = 7"
definition id_custom_get_value :: u8 where [hw_defs]: "id_custom_get_value = 8"
definition id_custom_save :: u8 where [hw_defs]: "id_custom_save = 9"
definition id_unhandled :: u8 where [hw_defs]: "id_unhandled = 255"
definition id_custom_channel :: u8 where [hw_defs]: "id_custom_channel = 0"

definition he_via_arm_autosave :: "env \<Rightarrow> ('e, 'z) board_scheme \<Rightarrow> ('e, 'z) board_scheme" where
  "he_via_arm_autosave env st = st\<lparr>autosave_pending := True, autosave_timer := timer_read env\<rparr>"

definition he_via_get_mode :: "('e, 'z) board_scheme \<Rightarrow> u8" where
  "he_via_get_mode st = he_mode_to_u8 (he_get_mode st)"

definition he_via_commit_thresholds :: "'e eeprom_driver \<Rightarrow> ('e, 'z) board_scheme \<Rightarrow> ('e, 'z) board_scheme" where
  "he_via_commit_thresholds E st =
     he_save_to_eeprom E
       (if staged_dirty st then
          (he_set_release (staged_release st) (he_set_actuation (staged_actuation st) st))\<lparr>staged_dirty := False\<rparr>
        else st)"

definition he_via_task :: "'e eeprom_driver \<Rightarrow> env \<Rightarrow> ('e, 'z) board_scheme \<Rightarrow> ('e, 'z) board_scheme" where
  "he_via_task E env st =
     (if autosave_pending st \<and> timer_elapsed env (autosave_timer st) \<ge> HE_VIA_AUTOSAVE_MS
      then he_via_commit_thresholds E (st\<lparr>autosave_pending := False\<rparr>) else st)"

definition he_via_set_value :: "'e eeprom_driver \<Rightarrow> env \<Rightarrow> bytes \<Rightarrow> ('e, 'z) board_scheme \<Rightarrow> ('e, 'z) board_scheme" where
  "he_via_set_value E env data st =
     (let value_id = data ! 0; val = data ! 1 in
      if value_id = he_id_actuation then
        he_via_arm_autosave env (st\<lparr>staged_actuation := val, staged_dirty := True\<rparr>)
      else if value_id = he_id_release then
        he_via_arm_autosave env (st\<lparr>staged_release := val, staged_dirty := True\<rparr>)
      else if value_id = he_id_save then he_via_commit_thresholds E st
      else if value_id = he_id_mode then he_set_mode E val st
      else if value_id = he_id_deadzone then he_via_arm_autosave env (he_set_deadzone val st)
      else if value_id = he_id_engage then he_via_arm_autosave env (he_set_engage val st)
      else if value_id = he_id_release_dist then he_via_arm_autosave env (he_set_release_dist val st)
      else if value_id = he_id_set_all then
        he_via_commit_thresholds E (st\<lparr>staged_actuation := val,
          staged_release := (if val > 0 then val - 1 else 0), staged_dirty := True\<rparr>)
      else if value_id = he_id_cal_start then he_start_calibration E st
      else if value_id = he_id_cal_end then he_end_calibration E st
      else st)"

definition he_via_get_value :: "('e, 'z) board_scheme \<Rightarrow> bytes \<Rightarrow> bytes" where
  "he_via_get_value st data =
     (let value_id = data ! 0 in
      data[1 :=
        if value_id = he_id_actuation then (case he_get_config 0 st of Some c \<Rightarrow> actuation c | None \<Rightarrow> 0)
        else if value_id = he_id_release then (case he_get_config 0 st of Some c \<Rightarrow> release c | None \<Rightarrow> 0)
        else if value_id = he_id_mode then he_mode_to_u8 (he_get_mode st)
        else if value_id = he_id_deadzone then he_get_deadzone st
        else if value_id = he_id_engage then he_get_engage st
        else if value_id = he_id_release_dist then he_get_release_dist st
        else 0])"

definition via_custom_value_command_kb ::
  "'e eeprom_driver \<Rightarrow> env \<Rightarrow> bytes \<Rightarrow> ('e, 'z) board_scheme \<Rightarrow> bytes \<times> ('e, 'z) board_scheme" where
  "via_custom_value_command_kb E env data st =
     (if data ! 1 \<noteq> id_custom_channel then (data[0 := id_unhandled], st)
      else if data ! 0 = id_custom_set_value then (data, he_via_set_value E env (drop 2 data) st)
      else if data ! 0 = id_custom_get_value then (take 2 data @ he_via_get_value st (drop 2 data), st)
      else if data ! 0 = id_custom_save then (data, he_via_commit_thresholds E st)
      else (data[0 := id_unhandled], st))"

section \<open>The invariant is kept\<close>

lemma he_ok_staged [simp]:
  "he_ok (st\<lparr>staged_actuation := a\<rparr>) = he_ok st" "he_ok (st\<lparr>staged_release := r\<rparr>) = he_ok st"
  "he_ok (st\<lparr>staged_dirty := d\<rparr>) = he_ok st" "he_ok (st\<lparr>autosave_pending := p\<rparr>) = he_ok st"
  "he_ok (st\<lparr>autosave_timer := t\<rparr>) = he_ok st" "he_ok (st\<lparr>gpio := g\<rparr>) = he_ok st"
  by (simp_all add: he_ok_def)

lemma he_ok_arm [simp]: "he_ok (he_via_arm_autosave env st) = he_ok st"
  by (simp add: he_via_arm_autosave_def)

lemma he_ok_commit: "he_ok st \<Longrightarrow> he_ok (he_via_commit_thresholds E st)"
  by (simp add: he_via_commit_thresholds_def he_ok_setters)

lemma he_ok_via_task: "he_ok st \<Longrightarrow> he_ok (he_via_task E env st)"
  by (simp add: he_via_task_def he_ok_commit)

lemma key_ok_raw [simp]: "key_ok (c\<lparr>raw_min := a, raw_max := b\<rparr>) = key_ok c"
  by (simp add: key_ok_def)

lemma he_ok_start_calibration:
  assumes "he_ok st"
  shows "he_ok (he_start_calibration E st)"
proof -
  have "he_ok (st\<lparr>he_cal_latched := replicate HE_SENSOR_COUNT False\<rparr>)" using assms by (simp add: he_ok_def)
  then show ?thesis by (auto simp: he_start_calibration_def Let_def intro!: he_ok_each)
qed

lemma key_ok_end_calibration [simp]: "key_ok (end_calibration_key f c) = key_ok c"
  by (simp add: end_calibration_key_def Let_def)

lemma he_ok_end_calibration: "he_ok st \<Longrightarrow> he_ok (he_end_calibration E st)"
  by (auto simp: he_end_calibration_def Let_def intro!: he_ok_each)

lemma he_ok_set_value: "he_ok st \<Longrightarrow> he_ok (he_via_set_value E env data st)"
  by (simp add: he_via_set_value_def Let_def he_ok_commit he_ok_set_mode he_ok_setters
      he_ok_start_calibration he_ok_end_calibration)

lemma he_ok_custom_command: "he_ok st \<Longrightarrow> he_ok (snd (via_custom_value_command_kb E env data st))"
  by (simp add: via_custom_value_command_kb_def he_ok_set_value he_ok_commit)

end
