(* ===== verification/He_Scan.thy ===== *)
theory He_Scan
  imports He_Via
begin

text \<open>
  The matrix scan of \<^verbatim>\<open>he_matrix.c\<close>: raw sample to travel, the press decision of the three actuation
  modes, the symmetric debounce, the boot auto-calibration, the key-cancel (SOCD) resolution and
  the commit of the reported state to QMK's matrix.

  The loop of the scan works on parallel arrays through one ADC; \<open>key_step\<close> is what it means for a
  single key, and \<open>scan_sensors_keys\<close> shows that the loop is exactly \<open>key_step\<close> on every key. The
  properties of single keys are proved on \<open>key_step\<close>.
\<close>

section \<open>Model\<close>

text \<open>
  \<^verbatim>\<open>int32_t\<close> is a 32-bit word that \<open>sint\<close> reads; the operands of the product and of the division are promoted to it, and
  the division truncates.
\<close>

definition he_travel_product :: "he_key_config_t \<Rightarrow> u16 \<Rightarrow> u32" where
  "he_travel_product c raw = (ucast raw - ucast (raw_min c)) * 100"

definition he_raw_to_travel :: "he_key_config_t \<Rightarrow> u16 \<Rightarrow> u8" where
  "he_raw_to_travel c raw =
     (let span = (if raw_max c > raw_min c then raw_max c - raw_min c else 1);
          pct = (word_of_int (sint (he_travel_product c raw) sdiv sint (ucast span :: u32)) :: u32);
          pct1 = (if sint pct < 0 then 0 else pct);
          pct2 = (if sint pct1 > 100 then 100 else pct1) in
      ucast pct2)"

definition he_compute_pressed ::
  "he_actuation_mode_t \<Rightarrow> he_tuning_t \<Rightarrow> he_key_config_t \<Rightarrow> bool \<Rightarrow> u8 \<Rightarrow> he_key_config_t \<times> bool" where
  "he_compute_pressed mode tune c0 p t =
     (let c = c0\<lparr>travel := t\<rparr> in
      case mode of
        HE_MODE_RAPID_TRIGGER \<Rightarrow>
          if p then
            let c1 = (if t > peak c then c\<lparr>peak := t\<rparr> else c);
                drop_t = peak c1 - t in
            if t \<le> deadzone tune \<or> drop_t \<ge> release_dist tune then (c1\<lparr>valley := t\<rparr>, False) else (c1, True)
          else
            let c1 = (if t < valley c then c\<lparr>valley := t\<rparr> else c) in
            if t \<le> deadzone tune then (c1, False)
            else if t \<ge> actuation c1 \<or> uint t - uint (valley c1) \<ge> uint (engage tune) then (c1\<lparr>peak := t\<rparr>, True)
            else (c1, False)
      | _ \<Rightarrow> (c, if p then t > release c else t \<ge> actuation c))"

text \<open>The debounce stage: the stable state and the counter, given the instantaneous state.\<close>

definition debounce_step :: "bool \<Rightarrow> bool \<times> u8 \<Rightarrow> bool \<times> u8" where
  "debounce_step phys = (\<lambda>(deb, cnt).
     if phys \<noteq> deb then (if cnt + 1 \<ge> HE_DEBOUNCE then (phys, 0) else (deb, cnt + 1)) else (deb, 0))"

text \<open>
  One iteration of the sampling loop on the analog sensor \<open>i\<close>, statement by statement: track the
  resting floor, accumulate the calibration extremes, latch the key's LED, decide.
\<close>

definition scan_floor :: "nat \<Rightarrow> u16 \<Rightarrow> ('e, 'z) board_scheme \<Rightarrow> ('e, 'z) board_scheme" where
  "scan_floor i raw st =
     (if he_scan_count st \<le> HE_ADC_REST_SAMPLE_SCANS \<and> raw < he_rest_floor st ! i
      then st\<lparr>he_rest_floor := (he_rest_floor st)[i := raw]\<rparr> else st)"

definition scan_accumulate :: "nat \<Rightarrow> u16 \<Rightarrow> ('e, 'z) board_scheme \<Rightarrow> ('e, 'z) board_scheme" where
  "scan_accumulate i raw st =
     (if he_calibrating st then
        let c = he_config st ! i;
            c1 = (if raw < raw_min c then c\<lparr>raw_min := raw\<rparr> else c);
            c2 = (if raw > raw_max c1 then c1\<lparr>raw_max := raw\<rparr> else c1) in
        st\<lparr>he_config := (he_config st)[i := c2]\<rparr>
      else st)"

definition scan_latch :: "nat \<Rightarrow> u16 \<Rightarrow> ('e, 'z) board_scheme \<Rightarrow> ('e, 'z) board_scheme" where
  "scan_latch i raw st =
     (if he_calibrating st \<and> \<not> he_cal_latched st ! i \<and> unat raw > unat (he_rest_floor st ! i) + HE_CAL_PRESS_MARGIN
      then rgblight_sethsv_at 85 255 255 (word_of_nat (he_led_remap ! i))
        (st\<lparr>he_cal_latched := (he_cal_latched st)[i := True]\<rparr>)
      else st)"

definition scan_decide :: "nat \<Rightarrow> u16 \<Rightarrow> ('e, 'z) board_scheme \<Rightarrow> ('e, 'z) board_scheme" where
  "scan_decide i raw st =
     (let c = he_config st ! i;
          (c', p) = he_compute_pressed (he_mode st) (he_tuning st) c (he_phys_pressed st ! i) (he_raw_to_travel c raw) in
      st\<lparr>he_config := (he_config st)[i := c'], he_phys_pressed := (he_phys_pressed st)[i := p]\<rparr>)"

definition scan_analog :: "env \<Rightarrow> nat \<Rightarrow> ('e, 'z) board_scheme \<Rightarrow> ('e, 'z) board_scheme" where
  "scan_analog env i st =
     (let (raw, g) = he_read_sensor_raw env (he_sensors ! i) (gpio st) in
      scan_decide i raw (scan_latch i raw (scan_accumulate i raw (scan_floor i raw (st\<lparr>gpio := g\<rparr>)))))"

text \<open>One iteration on any sensor; \<open>newly\<close> is the local array of rising edges.\<close>

definition scan_push :: "env \<Rightarrow> nat \<Rightarrow> ('e, 'z) board_scheme \<Rightarrow> ('e, 'z) board_scheme" where
  "scan_push env i st =
     (let (b, g) = he_read_encoder_push env (gpio st) in
      st\<lparr>gpio := g, he_phys_pressed := (he_phys_pressed st)[i := b]\<rparr>)"

definition debounce_sensor :: "nat \<Rightarrow> ('e, 'z) board_scheme \<Rightarrow> ('e, 'z) board_scheme" where
  "debounce_sensor i st =
     (let c = he_config st ! i;
          (deb, cnt) = debounce_step (he_phys_pressed st ! i) (he_debounced st ! i, debounce c) in
      st\<lparr>he_config := (he_config st)[i := c\<lparr>debounce := cnt\<rparr>], he_debounced := (he_debounced st)[i := deb]\<rparr>)"

definition scan_sensor :: "env \<Rightarrow> nat \<Rightarrow> bool list \<times> ('e, 'z) board_scheme \<Rightarrow> bool list \<times> ('e, 'z) board_scheme" where
  "scan_sensor env i = (\<lambda>(newly, st).
     let was_debounced = he_debounced st ! i;
         st1 = (if i = HE_ENC_PUSH_INDEX then scan_push env i st else scan_analog env i st);
         st2 = debounce_sensor i st1 in
     (newly[i := he_debounced st2 ! i \<and> \<not> was_debounced], st2))"

definition scan_sensors :: "env \<Rightarrow> ('e, 'z) board_scheme \<Rightarrow> bool list \<times> ('e, 'z) board_scheme" where
  "scan_sensors env st = fold (scan_sensor env) [0..<HE_SENSOR_COUNT] (replicate HE_SENSOR_COUNT False, st)"

definition lock_boot_calibration :: "('e, 'z) board_scheme \<Rightarrow> ('e, 'z) board_scheme" where
  "lock_boot_calibration st =
     (if he_scan_count st = HE_ADC_REST_SAMPLE_SCANS then
        each_config (\<lambda>i c. if i = HE_ENC_PUSH_INDEX then c
          else let base = rest_base (he_rest_floor st ! i) in c\<lparr>raw_min := base, raw_max := base + HE_ADC_TRAVEL_SPAN\<rparr>) st
      else st)"

definition socd_pair ::
  "bool list \<Rightarrow> nat \<Rightarrow> bool list \<times> ('e, 'z) board_scheme \<Rightarrow> bool list \<times> ('e, 'z) board_scheme" where
  "socd_pair newly p = (\<lambda>(suppressed, st).
     let (ia, ib) = socd_pairs ! p;
         w1 = (if newly ! ia \<and> newly ! ib then
                 if travel (he_config st ! ia) \<ge> travel (he_config st ! ib) then 0 else 1
               else if newly ! ia then 0 else if newly ! ib then 1 else socd_winner st ! p);
         w2 = (if \<not> he_debounced st ! ia \<and> \<not> he_debounced st ! ib then 255 else w1);
         suppressed' = (if he_debounced st ! ia \<and> he_debounced st ! ib then
             if w2 = 1 then suppressed[ia := True] else suppressed[ib := True]
           else suppressed) in
     (suppressed', st\<lparr>socd_winner := (socd_winner st)[p := w2]\<rparr>))"

definition socd_resolve :: "bool list \<Rightarrow> ('e, 'z) board_scheme \<Rightarrow> bool list \<times> ('e, 'z) board_scheme" where
  "socd_resolve newly st =
     (if he_mode st = HE_MODE_KEY_CANCEL
      then fold (socd_pair newly) [0..<length socd_pairs] (replicate HE_SENSOR_COUNT False, st)
      else (replicate HE_SENSOR_COUNT False, st))"

type_synonym matrix = "u16 list"

definition commit_key ::
  "bool list \<Rightarrow> nat \<Rightarrow> bool \<times> matrix \<times> ('e, 'z) board_scheme \<Rightarrow> bool \<times> matrix \<times> ('e, 'z) board_scheme" where
  "commit_key suppressed i = (\<lambda>(changed, m, st).
     let s = he_sensors ! i;
         p = (he_debounced st ! i \<and> \<not> suppressed ! i);
         (changed', st') = (if p \<noteq> pressed (he_config st ! i)
            then (True, st\<lparr>he_config := (he_config st)[i := (he_config st ! i)\<lparr>pressed := p\<rparr>]\<rparr>) else (changed, st));
         row = m ! sensor_row s;
         row' = (if p then row OR push_bit (sensor_col s) 1 else row AND NOT (push_bit (sensor_col s) 1)) in
     (changed', m[sensor_row s := row'], st'))"

definition matrix_scan_custom ::
  "'e eeprom_driver \<Rightarrow> env \<Rightarrow> matrix \<Rightarrow> ('e, 'z) board_scheme \<Rightarrow> bool \<times> matrix \<times> ('e, 'z) board_scheme" where
  "matrix_scan_custom E env m st =
     (let st0 = st\<lparr>he_scan_count := he_scan_count st + 1\<rparr>;
          (newly, st1) = scan_sensors env st0;
          st2 = lock_boot_calibration st1;
          (suppressed, st3) = socd_resolve newly st2;
          (changed, m', st4) = fold (commit_key suppressed) [0..<HE_SENSOR_COUNT] (False, m, st3) in
      (changed, m', he_via_task E env st4))"

section \<open>The sampling loop, key by key\<close>

record key =
  kcfg :: he_key_config_t
  kfloor :: u16
  klatched :: bool
  kphys :: bool
  kdeb :: bool

definition key_at :: "('e, 'z) board_scheme \<Rightarrow> nat \<Rightarrow> key" where
  "key_at st i = \<lparr>kcfg = he_config st ! i, kfloor = he_rest_floor st ! i, klatched = he_cal_latched st ! i,
     kphys = he_phys_pressed st ! i, kdeb = he_debounced st ! i\<rparr>"

definition cal_track :: "bool \<Rightarrow> u16 \<Rightarrow> he_key_config_t \<Rightarrow> he_key_config_t" where
  "cal_track cal raw c = (if cal then c\<lparr>raw_min := min raw (raw_min c), raw_max := max raw (raw_max c)\<rparr> else c)"

definition analog_step :: "he_actuation_mode_t \<Rightarrow> he_tuning_t \<Rightarrow> bool \<Rightarrow> u32 \<Rightarrow> u16 \<Rightarrow> key \<Rightarrow> key" where
  "analog_step mode tune cal cnt raw k =
     (let fl = (if cnt \<le> HE_ADC_REST_SAMPLE_SCANS then min raw (kfloor k) else kfloor k);
          c = cal_track cal raw (kcfg k);
          (c', p) = he_compute_pressed mode tune c (kphys k) (he_raw_to_travel c raw) in
      k\<lparr>kcfg := c', kfloor := fl, klatched := (klatched k \<or> cal \<and> unat raw > unat fl + HE_CAL_PRESS_MARGIN),
        kphys := p\<rparr>)"

definition debounce_key :: "key \<Rightarrow> key" where
  "debounce_key k = (let (deb, cnt) = debounce_step (kphys k) (kdeb k, debounce (kcfg k)) in
     k\<lparr>kcfg := (kcfg k)\<lparr>debounce := cnt\<rparr>, kdeb := deb\<rparr>)"

text \<open>A key's input in a scan: a raw sample, or the level of the push switch.\<close>

definition key_step :: "he_actuation_mode_t \<Rightarrow> he_tuning_t \<Rightarrow> bool \<Rightarrow> u32 \<Rightarrow> u16 + bool \<Rightarrow> key \<Rightarrow> key" where
  "key_step mode tune cal cnt inp k =
     debounce_key (case inp of Inl raw \<Rightarrow> analog_step mode tune cal cnt raw k | Inr b \<Rightarrow> k\<lparr>kphys := b\<rparr>)"

definition key_input :: "(nat \<Rightarrow> nat \<Rightarrow> u16) \<Rightarrow> bool \<Rightarrow> nat \<Rightarrow> u16 + bool" where
  "key_input volt push i =
     (if i = HE_ENC_PUSH_INDEX then Inr push
      else Inl (volt (sensor_mux (he_sensors ! i)) (sensor_addr (he_sensors ! i))))"

text \<open>What no iteration of the sampling loop changes.\<close>

definition scan_frame where
  "scan_frame st = (ee st, cfg st, cal_saved_hsv st, socd_winner st, staged_actuation st, staged_release st,
     staged_dirty st, autosave_pending st, autosave_timer st)"

definition arrays_ok :: "('e, 'z) board_scheme \<Rightarrow> bool" where
  "arrays_ok st \<longleftrightarrow> length (he_config st) = HE_SENSOR_COUNT \<and> length (he_rest_floor st) = HE_SENSOR_COUNT
     \<and> length (he_cal_latched st) = HE_SENSOR_COUNT \<and> length (he_phys_pressed st) = HE_SENSOR_COUNT
     \<and> length (he_debounced st) = HE_SENSOR_COUNT"

definition scan_glob where
  "scan_glob = (\<lambda>(newly :: bool list, st). ((arrays_ok st \<and> length newly = HE_SENSOR_COUNT),
     he_mode st, he_tuning st, he_calibrating st, he_scan_count st, scan_frame st))"

lemma sethsv_at_obtain:
  obtains g where "rgblight_sethsv_at h s v i st = map_rgb (\<lambda>_. g) st" "rgblight_config g = cfg st"
proof -
  have "rgblight_config (rgblight (rgblight_sethsv_at h s v i st)) = cfg st" by simp
  then show ?thesis using that rgb_ops_map_rgb(4) [of h s v i st] by blast
qed

lemma min_max_if: "min a b = (if a < b then a else b)" "max a b = (if a > b then a else (b :: u16))"
  by (auto simp: min_def max_def)

definition set_key :: "nat \<Rightarrow> key \<Rightarrow> ('e, 'z) board_scheme \<Rightarrow> ('e, 'z) board_scheme" where
  "set_key i k st = st\<lparr>he_config := (he_config st)[i := kcfg k], he_rest_floor := (he_rest_floor st)[i := kfloor k],
     he_cal_latched := (he_cal_latched st)[i := klatched k], he_phys_pressed := (he_phys_pressed st)[i := kphys k],
     he_debounced := (he_debounced st)[i := kdeb k]\<rparr>"

lemma set_key_sel [simp]:
  "i < HE_SENSOR_COUNT \<Longrightarrow> arrays_ok st \<Longrightarrow> key_at (set_key i k st) j = (if j = i then k else key_at st j)"
  "arrays_ok (set_key i k st) = arrays_ok st" "scan_frame (set_key i k st) = scan_frame st"
  "he_mode (set_key i k st) = he_mode st" "he_tuning (set_key i k st) = he_tuning st"
  "he_calibrating (set_key i k st) = he_calibrating st" "he_scan_count (set_key i k st) = he_scan_count st"
  by (simp_all add: set_key_def key_at_def arrays_ok_def scan_frame_def)

lemma map_rgb_scan [simp]:
  "key_at (map_rgb f st) i = key_at st i" "arrays_ok (map_rgb f st) = arrays_ok st"
  "scan_frame (map_rgb f st) = (ee st, rgblight_config (f (rgblight st)), snd (snd (scan_frame st)))"
  "key_at (st\<lparr>gpio := gp\<rparr>) i = key_at st i" "arrays_ok (st\<lparr>gpio := gp\<rparr>) = arrays_ok st" "scan_frame (st\<lparr>gpio := gp\<rparr>) = scan_frame st"
  by (simp_all add: key_at_def arrays_ok_def scan_frame_def)

lemma scan_frame_rgb: "rgblight_config (f (rgblight st)) = cfg st \<Longrightarrow> scan_frame (map_rgb f st) = scan_frame st"
  by (simp add: scan_frame_def)

lemma set_key_set_key [simp]: "set_key i k (set_key i k' st) = set_key i k st"
  by (simp add: set_key_def)

lemma set_key_id [simp]: "set_key i (key_at st i) st = st"
  by (simp add: set_key_def key_at_def)

lemma set_key_commute:
  "set_key i k (map_rgb f st) = map_rgb f (set_key i k st)" "set_key i k (st\<lparr>gpio := g\<rparr>) = (set_key i k st)\<lparr>gpio := g\<rparr>"
  by (simp_all add: set_key_def map_rgb_def)

text \<open>The statements of the loop body as updates of one key.\<close>

lemma scan_floor_key:
  "scan_floor i raw st = set_key i ((key_at st i)\<lparr>kfloor :=
     if he_scan_count st \<le> HE_ADC_REST_SAMPLE_SCANS then min raw (kfloor (key_at st i)) else kfloor (key_at st i)\<rparr>) st"
  by (auto simp: scan_floor_def set_key_def key_at_def min_max_if)

lemma scan_accumulate_key:
  "scan_accumulate i raw st =
     set_key i ((key_at st i)\<lparr>kcfg := cal_track (he_calibrating st) raw (kcfg (key_at st i))\<rparr>) st"
  by (auto simp: scan_accumulate_def set_key_def key_at_def min_max_if cal_track_def Let_def)

lemma scan_latch_key:
  obtains g where "rgblight_config g = cfg st"
    "scan_latch i raw st = map_rgb (\<lambda>_. g) (set_key i ((key_at st i)\<lparr>klatched := klatched (key_at st i) \<or>
       he_calibrating st \<and> unat raw > unat (kfloor (key_at st i)) + HE_CAL_PRESS_MARGIN\<rparr>) st)"
proof (cases "he_calibrating st \<and> \<not> he_cal_latched st ! i \<and> unat raw > unat (he_rest_floor st ! i) + HE_CAL_PRESS_MARGIN")
  case True
  obtain g where "rgblight_sethsv_at 85 255 255 (word_of_nat (he_led_remap ! i)) (st\<lparr>he_cal_latched := (he_cal_latched st)[i := True]\<rparr>)
      = map_rgb (\<lambda>_. g) (st\<lparr>he_cal_latched := (he_cal_latched st)[i := True]\<rparr>)" "rgblight_config g = cfg st"
    using sethsv_at_obtain [of 85 255 255 "word_of_nat (he_led_remap ! i)" "st\<lparr>he_cal_latched := (he_cal_latched st)[i := True]\<rparr>"]
    by auto
  then show ?thesis using True that [of g] by (simp add: scan_latch_def set_key_def key_at_def)
next
  case False
  then have "(he_cal_latched st ! i \<or> he_calibrating st \<and> unat raw > unat (he_rest_floor st ! i) + HE_CAL_PRESS_MARGIN)
      = he_cal_latched st ! i" by blast
  moreover have "scan_latch i raw st = st" using False by (auto simp: scan_latch_def)
  ultimately show ?thesis using that [of "rgblight st"] by (simp add: set_key_def key_at_def map_rgb_def)
qed

definition decide_key :: "he_actuation_mode_t \<Rightarrow> he_tuning_t \<Rightarrow> u16 \<Rightarrow> key \<Rightarrow> key" where
  "decide_key mode tune raw k =
     (let (c', p) = he_compute_pressed mode tune (kcfg k) (kphys k) (he_raw_to_travel (kcfg k) raw) in k\<lparr>kcfg := c', kphys := p\<rparr>)"

lemma scan_decide_key:
  "scan_decide i raw st = set_key i (decide_key (he_mode st) (he_tuning st) raw (key_at st i)) st"
  by (simp add: scan_decide_def set_key_def key_at_def decide_key_def Let_def split: prod.split)

lemma scan_analog_key:
  assumes "i < HE_SENSOR_COUNT" "arrays_ok st" "fst (he_read_sensor_raw env (he_sensors ! i) (gpio st)) = raw"
  obtains g gp where "rgblight_config g = cfg st"
    "scan_analog env i st = map_rgb (\<lambda>_. g) (set_key i (analog_step (he_mode st) (he_tuning st)
      (he_calibrating st) (he_scan_count st) raw (key_at st i)) (st\<lparr>gpio := gp\<rparr>))"
proof -
  obtain gp where read: "he_read_sensor_raw env (he_sensors ! i) (gpio st) = (raw, gp)"
    using assms(3) by (metis prod.collapse)
  let ?st = "scan_accumulate i raw (scan_floor i raw (st\<lparr>gpio := gp\<rparr>))"
  obtain g where g: "rgblight_config g = cfg ?st"
    "scan_latch i raw ?st = map_rgb (\<lambda>_. g) (set_key i ((key_at ?st i)\<lparr>klatched := klatched (key_at ?st i) \<or>
       he_calibrating ?st \<and> unat raw > unat (kfloor (key_at ?st i)) + HE_CAL_PRESS_MARGIN\<rparr>) ?st)"
    by (rule scan_latch_key)
  have "cfg ?st = cfg st" by (simp add: scan_accumulate_key scan_floor_key set_key_def)
  moreover have "scan_analog env i st = map_rgb (\<lambda>_. g) (set_key i (analog_step (he_mode st) (he_tuning st)
      (he_calibrating st) (he_scan_count st) raw (key_at st i)) (st\<lparr>gpio := gp\<rparr>))"
    using assms(1,2) unfolding scan_analog_def read Let_def prod.case g(2)
    by (cases "key_at st i") (simp add: scan_decide_key scan_accumulate_key scan_floor_key set_key_commute
        analog_step_def decide_key_def Let_def split: prod.split)
  ultimately show ?thesis using g(1) that by simp
qed

lemma scan_push_key:
  obtains gp where "scan_push env i st =
    set_key i ((key_at st i)\<lparr>kphys := fst (he_read_encoder_push env (gpio st))\<rparr>) (st\<lparr>gpio := gp\<rparr>)"
  using that [of "snd (he_read_encoder_push env (gpio st))"]
  by (simp add: scan_push_def set_key_def key_at_def split: prod.splits)

lemma debounce_sensor_key: "debounce_sensor i st = set_key i (debounce_key (key_at st i)) st"
  by (simp add: debounce_sensor_def debounce_key_def set_key_def key_at_def Let_def split: prod.split)

lemma he_debounced_key: "he_debounced st ! i = kdeb (key_at st i)"
  by (simp add: key_at_def)

context board_wiring
begin

text \<open>The loop body: key \<open>i\<close> makes its step, everything else but the LEDs and the pins stays.\<close>

lemma scan_sensor_key:
  assumes "i < HE_SENSOR_COUNT" "arrays_ok st"
  obtains g gp where "rgblight_config g = cfg st"
    "scan_sensor env i (newly, st) =
      (newly[i := kdeb (key_step (he_mode st) (he_tuning st) (he_calibrating st) (he_scan_count st) (key_input volt push i) (key_at st i))
          \<and> \<not> kdeb (key_at st i)],
       map_rgb (\<lambda>_. g) (set_key i (key_step (he_mode st) (he_tuning st) (he_calibrating st) (he_scan_count st)
          (key_input volt push i) (key_at st i)) (st\<lparr>gpio := gp\<rparr>)))"
proof -
  let ?k = "case key_input volt push i of
      Inl raw \<Rightarrow> analog_step (he_mode st) (he_tuning st) (he_calibrating st) (he_scan_count st) raw (key_at st i)
    | Inr b \<Rightarrow> (key_at st i)\<lparr>kphys := b\<rparr>"
  have i: "i < 69" using assms(1) by (simp add: hw_defs)
  obtain g gp where g: "rgblight_config g = cfg st"
    "(if i = HE_ENC_PUSH_INDEX then scan_push env i st else scan_analog env i st) = map_rgb (\<lambda>_. g) (set_key i ?k (st\<lparr>gpio := gp\<rparr>))"
  proof (cases "i = HE_ENC_PUSH_INDEX")
    case True
    obtain gp where "scan_push env i st = set_key i ?k (st\<lparr>gpio := gp\<rparr>)"
      using scan_push_key [of env i st] True by (auto simp: key_input_def read_encoder_push)
    moreover have "map_rgb (\<lambda>_. rgblight st) (set_key i ?k (st\<lparr>gpio := gp\<rparr>)) = set_key i ?k (st\<lparr>gpio := gp\<rparr>)" for gp
      by (simp add: map_rgb_def set_key_def)
    ultimately show ?thesis using True that [of "rgblight st" gp] by simp
  next
    case False
    have "fst (he_read_sensor_raw env (he_sensors ! i) (gpio st)) = volt (sensor_mux (he_sensors ! i)) (sensor_addr (he_sensors ! i))"
      by (rule read_sensor_raw_volt) (use he_sensors_nth [OF i] in auto)
    from scan_analog_key [OF assms this] False that show ?thesis by (auto simp: key_input_def)
  qed
  then show ?thesis
    using that [of g gp] assms
    by (simp add: scan_sensor_def Let_def debounce_sensor_key he_debounced_key set_key_commute key_step_def)
qed

end

definition scan_cell :: "bool list \<times> ('e, 'z) board_scheme \<Rightarrow> nat \<Rightarrow> bool \<times> key" where
  "scan_cell = (\<lambda>(newly, st) i. (newly ! i, key_at st i))"

definition scan_cell_fun where
  "scan_cell_fun inp = (\<lambda>(ok, mode, tune, cal, cnt, fr) i (b, k).
     let k' = key_step mode tune cal cnt (inp i) k in (kdeb k' \<and> \<not> kdeb k, k'))"

definition scan_valid where
  "scan_valid = (\<lambda>(ok, mode, tune, cal, cnt, fr) i. ok \<and> i < HE_SENSOR_COUNT)"

lemma scan_globI:
  assumes "arrays_ok st" "length newly = HE_SENSOR_COUNT" "rgblight_config g = cfg st"
  shows "scan_glob (newly[i := b], map_rgb (\<lambda>_. g) (set_key i k (st\<lparr>gpio := gp\<rparr>))) = scan_glob (newly, st)"
  using assms by (simp add: scan_glob_def scan_frame_def set_key_def arrays_ok_def)

sublocale board_wiring \<subseteq> scan_loop: indexed_loop "scan_sensor env" scan_cell scan_glob
  "scan_cell_fun (key_input volt push)" scan_valid
proof
  fix s i
  assume v: "scan_valid (scan_glob s) i"
  obtain newly st where s: "s = (newly, st)" by force
  have i: "i < HE_SENSOR_COUNT" "arrays_ok st" "length newly = HE_SENSOR_COUNT"
    using v by (simp_all add: s scan_valid_def scan_glob_def)
  let ?k = "key_step (he_mode st) (he_tuning st) (he_calibrating st) (he_scan_count st) (key_input volt push i) (key_at st i)"
  obtain g gp where g: "rgblight_config g = cfg st"
    "scan_sensor env i s = (newly[i := kdeb ?k \<and> \<not> kdeb (key_at st i)], map_rgb (\<lambda>_. g) (set_key i ?k (st\<lparr>gpio := gp\<rparr>)))"
    using scan_sensor_key [OF i(1,2), of newly] by (auto simp: s)
  show "scan_glob (scan_sensor env i s) = scan_glob s"
    unfolding g(2) unfolding s by (rule scan_globI [OF i(2,3) g(1)])
  show "scan_cell (scan_sensor env i s) i = scan_cell_fun (key_input volt push) (scan_glob s) i (scan_cell s i)"
    unfolding g(2) using i by (simp add: s scan_cell_def scan_cell_fun_def scan_glob_def Let_def)
  show "scan_cell (scan_sensor env i s) j = scan_cell s j" if "j \<noteq> i" for j
    unfolding g(2) using i that by (simp add: s scan_cell_def)
qed

context board_wiring
begin

lemma scan_sensors_glob:
  assumes "arrays_ok st"
  shows "scan_glob (scan_sensors env st) = scan_glob (replicate HE_SENSOR_COUNT False, st)"
  unfolding scan_sensors_def
  by (rule scan_loop.fold_glob) (use assms in \<open>simp add: scan_valid_def scan_glob_def\<close>)

lemma scan_sensors_keys:
  assumes "arrays_ok st" "i < HE_SENSOR_COUNT"
  shows "key_at (snd (scan_sensors env st)) i =
      key_step (he_mode st) (he_tuning st) (he_calibrating st) (he_scan_count st) (key_input volt push i) (key_at st i)"
    and "fst (scan_sensors env st) ! i \<longleftrightarrow> he_debounced (snd (scan_sensors env st)) ! i \<and> \<not> he_debounced st ! i"
proof -
  let ?s = "(replicate HE_SENSOR_COUNT False, st)"
  have v: "\<forall>i\<in>set [0..<HE_SENSOR_COUNT]. scan_valid (scan_glob ?s) i"
    using assms(1) by (simp add: scan_valid_def scan_glob_def)
  have "scan_cell (scan_sensors env st) i = scan_cell_fun (key_input volt push) (scan_glob ?s) i (scan_cell ?s i)"
    using scan_loop.fold_cell [OF _ v, of i] assms(2) by (simp add: scan_sensors_def)
  then show "key_at (snd (scan_sensors env st)) i =
      key_step (he_mode st) (he_tuning st) (he_calibrating st) (he_scan_count st) (key_input volt push i) (key_at st i)"
    and "fst (scan_sensors env st) ! i \<longleftrightarrow> he_debounced (snd (scan_sensors env st)) ! i \<and> \<not> he_debounced st ! i"
    by (auto simp: scan_cell_def scan_cell_fun_def scan_glob_def Let_def he_debounced_key split: prod.splits)
qed

end

section \<open>The commit loop\<close>

definition sensor_pos :: "nat \<Rightarrow> nat \<times> nat" where
  "sensor_pos i = (sensor_row (he_sensors ! i), sensor_col (he_sensors ! i))"

definition matrix_bit :: "matrix \<Rightarrow> nat \<times> nat \<Rightarrow> bool" where
  "matrix_bit m = (\<lambda>(r, c). bit (m ! r) c)"

lemma sensor_pos_inj: "i < 69 \<Longrightarrow> j < 69 \<Longrightarrow> sensor_pos i = sensor_pos j \<Longrightarrow> i = j"
  using he_sensors_positions(1) by (simp add: distinct_conv_nth sensor_pos_def) blast

definition row_write :: "bool \<Rightarrow> nat \<Rightarrow> u16 \<Rightarrow> u16" where
  "row_write p c row = (if p then row OR push_bit c 1 else row AND NOT (push_bit c 1))"

lemma bit_row_write: "c < 16 \<Longrightarrow> c' < 16 \<Longrightarrow> bit (row_write p c row) c' = (if c' = c then p else bit row c')"
  by (auto simp: row_write_def bit_simps)

lemma matrix_bit_write:
  assumes "r < length m" "r' < length m" "c < 16" "c' < 16"
  shows "matrix_bit (m[r := row_write p c (m ! r)]) (r', c') = (if (r', c') = (r, c) then p else matrix_bit m (r', c'))"
  using assms by (auto simp: matrix_bit_def nth_list_update bit_row_write)

definition reported :: "bool list \<Rightarrow> ('e, 'z) board_scheme \<Rightarrow> nat \<Rightarrow> bool" where
  "reported suppressed st i \<longleftrightarrow> he_debounced st ! i \<and> \<not> suppressed ! i"

text \<open>One iteration: the reported state goes into the configuration and into the matrix.\<close>

lemma commit_key_state:
  "commit_key suppressed i (ch, m, st) =
     (ch \<or> reported suppressed st i \<noteq> pressed (he_config st ! i),
      m[sensor_row (he_sensors ! i) := row_write (reported suppressed st i) (sensor_col (he_sensors ! i)) (m ! sensor_row (he_sensors ! i))],
      st\<lparr>he_config := (he_config st)[i := (he_config st ! i)\<lparr>pressed := reported suppressed st i\<rparr>]\<rparr>)"
  by (simp add: commit_key_def reported_def row_write_def Let_def)

definition commit_cell where
  "commit_cell = (\<lambda>(ch :: bool, m :: matrix, st) i. if i < HE_SENSOR_COUNT then Some (he_config st ! i, matrix_bit m (sensor_pos i)) else None)"

definition commit_glob where
  "commit_glob suppressed = (\<lambda>(ch :: bool, m :: matrix, st). (length (he_config st) = HE_SENSOR_COUNT \<and> length m = 5, reported suppressed st,
     st\<lparr>he_config := []\<rparr>, \<lambda>r c. if r < 5 \<and> c < 16 \<and> (r, c) \<notin> sensor_pos ` {..<69} then bit (m ! r) c else False))"

definition commit_cell_fun :: "_ \<Rightarrow> nat \<Rightarrow> (he_key_config_t \<times> bool) option \<Rightarrow> (he_key_config_t \<times> bool) option" where
  "commit_cell_fun = (\<lambda>(ok, rep, fr, other) i. map_option (\<lambda>(c, b). (c\<lparr>pressed := rep i\<rparr>, rep i)))"

interpretation commit_loop: indexed_loop "commit_key suppressed" commit_cell "commit_glob suppressed" commit_cell_fun
  "\<lambda>(ok, rep, fr, other) i. ok \<and> i < HE_SENSOR_COUNT" for suppressed
proof
  fix s i
  assume valid: "(\<lambda>(ok, rep, fr, other) i. ok \<and> i < HE_SENSOR_COUNT) (commit_glob suppressed s) i"
  obtain ch m st where s: "s = (ch, m, st)" by (cases s)
  from valid have i: "i < 69" "length (he_config st) = 69" "length m = 5"
    by (simp_all add: s commit_glob_def hw_defs)
  have pos: "sensor_row (he_sensors ! i) < 5" "sensor_col (he_sensors ! i) < 16"
    using he_sensors_nth [OF i(1)] by simp_all
  let ?rc = "sensor_pos i"
  have mb: "matrix_bit (m[sensor_row (he_sensors ! i) := row_write p (sensor_col (he_sensors ! i)) (m ! sensor_row (he_sensors ! i))]) rc
      = (if rc = ?rc then p else matrix_bit m rc)" if "fst rc < 5" "snd rc < 16" for p rc
    using matrix_bit_write [of "sensor_row (he_sensors ! i)" m "fst rc" "sensor_col (he_sensors ! i)" "snd rc"] pos that i
    by (simp add: sensor_pos_def)
  have "(r, c) \<notin> sensor_pos ` {..<69} \<Longrightarrow> (r, c) \<noteq> ?rc" for r c using i(1) by force
  then show "commit_glob suppressed (commit_key suppressed i s) = commit_glob suppressed s"
    using mb i by (auto simp: s commit_key_state commit_glob_def reported_def hw_defs fun_eq_iff matrix_bit_def)
  show "commit_cell (commit_key suppressed i s) i = commit_cell_fun (commit_glob suppressed s) i (commit_cell s i)"
    using mb [of ?rc] pos i by (simp add: s commit_key_state commit_cell_def commit_glob_def commit_cell_fun_def sensor_pos_def hw_defs)
  show "commit_cell (commit_key suppressed i s) j = commit_cell s j" if "j \<noteq> i" for j
    using mb [of "sensor_pos j"] i that he_sensors_nth [of j] sensor_pos_inj [of j i]
    by (auto simp: s commit_key_state commit_cell_def hw_defs sensor_pos_def)
qed

lemma commit_changed:
  assumes "distinct is" "\<forall>i\<in>set is. i < HE_SENSOR_COUNT" "length (he_config st) = HE_SENSOR_COUNT" "length m = 5"
  shows "fst (fold (commit_key suppressed) is (ch, m, st)) \<longleftrightarrow>
    ch \<or> (\<exists>i\<in>set is. reported suppressed st i \<noteq> pressed (he_config st ! i))"
  using assms
proof (induction "is" arbitrary: ch m st)
  case (Cons i "is")
  have "reported suppressed (st\<lparr>he_config := cs\<rparr>) = reported suppressed st" for cs
    by (simp add: fun_eq_iff reported_def)
  moreover have "(he_config st)[i := c] ! j = he_config st ! j" if "j \<in> set is" for j c
    using Cons.prems that by (auto simp: nth_list_update)
  ultimately show ?case using Cons.prems by (auto simp: commit_key_state Cons.IH)
qed simp

lemma commit_result:
  assumes "length (he_config st) = HE_SENSOR_COUNT" "length m = 5"
    and r: "fold (commit_key suppressed) [0..<HE_SENSOR_COUNT] (False, m, st) = (ch, m', st')"
  shows "i < 69 \<Longrightarrow> he_config st' ! i = (he_config st ! i)\<lparr>pressed := reported suppressed st i\<rparr>"
    and "i < 69 \<Longrightarrow> matrix_bit m' (sensor_pos i) = reported suppressed st i"
    and "row < 5 \<Longrightarrow> col < 16 \<Longrightarrow> (row, col) \<notin> sensor_pos ` {..<69} \<Longrightarrow> bit (m' ! row) col = bit (m ! row) col"
    and "length m' = 5" "length (he_config st') = 69" "st'\<lparr>he_config := []\<rparr> = st\<lparr>he_config := []\<rparr>"
    and "ch \<longleftrightarrow> (\<exists>i<69. reported suppressed st i \<noteq> pressed (he_config st ! i))"
proof -
  let ?s = "(False, m, st)"
  have v: "\<forall>i\<in>set [0..<HE_SENSOR_COUNT]. (\<lambda>(ok, rep, fr, other) i. ok \<and> i < HE_SENSOR_COUNT) (commit_glob suppressed ?s) i"
    using assms by (simp add: commit_glob_def)
  note glob = commit_loop.fold_glob [OF v, unfolded r]
  have cell: "commit_cell (ch, m', st') i = commit_cell_fun (commit_glob suppressed ?s) i (commit_cell ?s i)" if "i < 69" for i
    using commit_loop.fold_cell [OF _ v, of i, unfolded r] that by (simp add: hw_defs)
  show "he_config st' ! i = (he_config st ! i)\<lparr>pressed := reported suppressed st i\<rparr>"
    "matrix_bit m' (sensor_pos i) = reported suppressed st i" if "i < 69"
    using cell [OF that] that by (simp_all add: commit_cell_def commit_cell_fun_def commit_glob_def hw_defs)
  show "bit (m' ! row) col = bit (m ! row) col" if k: "row < 5" "col < 16" "(row, col) \<notin> sensor_pos ` {..<69}"
  proof -
    from glob have "(\<lambda>r c. if r < 5 \<and> c < 16 \<and> (r, c) \<notin> sensor_pos ` {..<69} then bit (m' ! r) c else False)
      = (\<lambda>r c. if r < 5 \<and> c < 16 \<and> (r, c) \<notin> sensor_pos ` {..<69} then bit (m ! r) c else False)"
      by (simp only: commit_glob_def prod.case prod.inject)
    from fun_cong [OF fun_cong [OF this, of row], of col] k show ?thesis by simp
  qed
  show "length m' = 5" "length (he_config st') = 69" "st'\<lparr>he_config := []\<rparr> = st\<lparr>he_config := []\<rparr>"
    using glob assms by (auto simp: commit_glob_def hw_defs)
  show "ch \<longleftrightarrow> (\<exists>i<69. reported suppressed st i \<noteq> pressed (he_config st ! i))"
    using commit_changed [of "[0..<HE_SENSOR_COUNT]" st m suppressed False] assms by (auto simp: hw_defs)
qed

section \<open>Key cancel\<close>

text \<open>The winner of a pair after a scan, and the keys it suppresses.\<close>

definition socd_next :: "bool list \<Rightarrow> ('e, 'z) board_scheme \<Rightarrow> nat \<Rightarrow> nat \<Rightarrow> nat \<Rightarrow> u8" where
  "socd_next newly st p ia ib =
     (if \<not> he_debounced st ! ia \<and> \<not> he_debounced st ! ib then 255
      else if newly ! ia \<and> newly ! ib then (if travel (he_config st ! ia) \<ge> travel (he_config st ! ib) then 0 else 1)
      else if newly ! ia then 0 else if newly ! ib then 1 else socd_winner st ! p)"

lemma socd_pair_state:
  assumes "socd_pairs ! p = (ia, ib)"
  shows "socd_pair newly p (suppressed, st) =
    (if he_debounced st ! ia \<and> he_debounced st ! ib
     then suppressed[(if socd_next newly st p ia ib = 1 then ia else ib) := True] else suppressed,
     st\<lparr>socd_winner := (socd_winner st)[p := socd_next newly st p ia ib]\<rparr>)"
  by (simp add: socd_pair_def Let_def assms socd_next_def)

lemma socd_resolve_state:
  fixes newly :: "bool list" and st :: "('e, 'z) board_scheme"
  assumes "he_mode st = HE_MODE_KEY_CANCEL" "length (socd_winner st) = 2"
  defines "w0 \<equiv> socd_next newly st 0 32 34" and "w1 \<equiv> socd_next newly st 1 46 47"
  shows "snd (socd_resolve newly st) = st\<lparr>socd_winner := [w0, w1]\<rparr>"
    and "i < 69 \<Longrightarrow> fst (socd_resolve newly st) ! i \<longleftrightarrow>
      (he_debounced st ! 32 \<and> he_debounced st ! 34 \<and> i = (if w0 = 1 then 32 else 34))
      \<or> (he_debounced st ! 46 \<and> he_debounced st ! 47 \<and> i = (if w1 = 1 then 46 else 47))"
proof -
  have upt: "[0..<length socd_pairs] = [0, 1]" by (simp add: socd_pairs_def upt_conv_Cons)
  have pairs: "socd_pairs ! 0 = (32, 34)" "socd_pairs ! 1 = (46, 47)" by (simp_all add: socd_pairs_def)
  have next1: "socd_next newly (st\<lparr>socd_winner := (socd_winner st)[0 := w]\<rparr>) 1 46 47 = w1" for w
    by (simp add: socd_next_def w1_def)
  have upd: "(socd_winner st)[0 := w0, 1 := w1] = [w0, w1]"
    using assms(2) by (auto simp: length_Suc_conv numeral_2_eq_2)
  have r: "socd_resolve newly st = socd_pair newly 1 (socd_pair newly 0 (replicate 69 False, st))"
    using assms(1) by (simp add: socd_resolve_def upt hw_defs)
  show "snd (socd_resolve newly st) = st\<lparr>socd_winner := [w0, w1]\<rparr>"
    unfolding r socd_pair_state [OF pairs(1)] socd_pair_state [OF pairs(2)] next1 w0_def [symmetric] by (simp add: upd [simplified])
  show "fst (socd_resolve newly st) ! i \<longleftrightarrow>
      (he_debounced st ! 32 \<and> he_debounced st ! 34 \<and> i = (if w0 = 1 then 32 else 34))
      \<or> (he_debounced st ! 46 \<and> he_debounced st ! 47 \<and> i = (if w1 = 1 then 46 else 47))" if "i < 69"
    unfolding r socd_pair_state [OF pairs(1)] socd_pair_state [OF pairs(2)] next1 w0_def [symmetric] using that
    by (auto simp: nth_list_update)
qed

section \<open>The whole scan\<close>

text \<open>The parts of the state that the automatic save at the end of a scan leaves alone.\<close>

lemma via_task_frame [simp]:
  "he_debounced (he_via_task E env st) = he_debounced st" "he_phys_pressed (he_via_task E env st) = he_phys_pressed st"
  "socd_winner (he_via_task E env st) = socd_winner st" "he_mode (he_via_task E env st) = he_mode st"
  "he_tuning (he_via_task E env st) = he_tuning st" "he_rest_floor (he_via_task E env st) = he_rest_floor st"
  "he_cal_latched (he_via_task E env st) = he_cal_latched st" "he_scan_count (he_via_task E env st) = he_scan_count st"
  "he_calibrating (he_via_task E env st) = he_calibrating st" "rgblight (he_via_task E env st) = rgblight st"
  "cal_saved_hsv (he_via_task E env st) = cal_saved_hsv st"
  by (simp_all add: he_via_task_def he_via_commit_thresholds_def he_save_to_eeprom_def he_save_settings_to_eeprom_def
      he_set_actuation_def he_set_release_def Let_def)

lemma via_task_config:
  assumes "length (he_config st) = HE_SENSOR_COUNT" "i < HE_SENSOR_COUNT"
  shows "length (he_config (he_via_task E env st)) = HE_SENSOR_COUNT"
    and "\<exists>a r. he_config (he_via_task E env st) ! i = (he_config st ! i)\<lparr>actuation := a, release := r\<rparr>"
proof -
  let ?fire = "autosave_pending st \<and> timer_elapsed env (autosave_timer st) \<ge> HE_VIA_AUTOSAVE_MS \<and> staged_dirty st"
  have cfg_eq: "he_config (he_via_task E env st) = (if ?fire then map (\<lambda>i. (he_config st ! i)\<lparr>
      actuation := he_clamp_u8 (staged_actuation st) HE_ACTUATION_MIN HE_ACTUATION_MAX,
      release := he_clamp_u8 (staged_release st) HE_RELEASE_MIN HE_RELEASE_MAX\<rparr>) [0..<HE_SENSOR_COUNT] else he_config st)"
    by (auto simp: he_via_task_def he_via_commit_thresholds_def he_save_to_eeprom_def he_save_settings_to_eeprom_def
        he_set_actuation_def he_set_release_def Let_def each_config_def)
  show "length (he_config (he_via_task E env st)) = HE_SENSOR_COUNT" using assms by (simp add: cfg_eq)
  have same: "\<exists>a r. c = c\<lparr>actuation := a, release := r\<rparr>" for c :: he_key_config_t
    by (rule exI [of _ "actuation c"], rule exI [of _ "release c"]) simp
  show "\<exists>a r. he_config (he_via_task E env st) ! i = (he_config st ! i)\<lparr>actuation := a, release := r\<rparr>"
    using assms same [of "he_config st ! i"] by (cases ?fire) (auto simp: cfg_eq)
qed

text \<open>What the press decision leaves of the configuration.\<close>

lemma compute_pressed_keeps [simp]:
  "pressed (fst (he_compute_pressed mode tune c p t)) = pressed c"
  "debounce (fst (he_compute_pressed mode tune c p t)) = debounce c"
  "actuation (fst (he_compute_pressed mode tune c p t)) = actuation c"
  "release (fst (he_compute_pressed mode tune c p t)) = release c"
  "raw_min (fst (he_compute_pressed mode tune c p t)) = raw_min c"
  "raw_max (fst (he_compute_pressed mode tune c p t)) = raw_max c"
  "travel (fst (he_compute_pressed mode tune c p t)) = t"
  by (cases mode; cases p; simp add: he_compute_pressed_def Let_def)+

lemma cal_track_keeps [simp]:
  "pressed (cal_track cal raw c) = pressed c" "debounce (cal_track cal raw c) = debounce c"
  "actuation (cal_track cal raw c) = actuation c" "release (cal_track cal raw c) = release c"
  by (simp_all add: cal_track_def)

lemma analog_step_sel:
  fixes raw and k and cal
  defines "c \<equiv> cal_track cal raw (kcfg k)"
  shows "kcfg (analog_step mode tune cal cnt raw k) = fst (he_compute_pressed mode tune c (kphys k) (he_raw_to_travel c raw))"
    and "kphys (analog_step mode tune cal cnt raw k) = snd (he_compute_pressed mode tune c (kphys k) (he_raw_to_travel c raw))"
    and "kdeb (analog_step mode tune cal cnt raw k) = kdeb k"
    and "kfloor (analog_step mode tune cal cnt raw k) = (if cnt \<le> HE_ADC_REST_SAMPLE_SCANS then min raw (kfloor k) else kfloor k)"
  by (simp_all add: analog_step_def c_def Let_def split: prod.split)

lemma debounce_key_sel:
  "kphys (debounce_key k) = kphys k" "kfloor (debounce_key k) = kfloor k" "klatched (debounce_key k) = klatched k"
  "kcfg (debounce_key k) = (kcfg k)\<lparr>debounce := snd (debounce_step (kphys k) (kdeb k, debounce (kcfg k)))\<rparr>"
  "kdeb (debounce_key k) = fst (debounce_step (kphys k) (kdeb k, debounce (kcfg k)))"
  by (simp_all add: debounce_key_def split: prod.split)

lemma key_step_keeps [simp]:
  "pressed (kcfg (key_step mode tune cal cnt inp k)) = pressed (kcfg k)"
  "actuation (kcfg (key_step mode tune cal cnt inp k)) = actuation (kcfg k)"
  "release (kcfg (key_step mode tune cal cnt inp k)) = release (kcfg k)"
  by (cases inp; simp add: key_step_def debounce_key_sel analog_step_sel)+

definition lock_key :: "u32 \<Rightarrow> nat \<Rightarrow> key \<Rightarrow> key" where
  "lock_key cnt i k =
     (if cnt = HE_ADC_REST_SAMPLE_SCANS \<and> i \<noteq> HE_ENC_PUSH_INDEX
      then k\<lparr>kcfg := (kcfg k)\<lparr>raw_min := rest_base (kfloor k), raw_max := rest_base (kfloor k) + HE_ADC_TRAVEL_SPAN\<rparr>\<rparr> else k)"

lemma lock_key_sel [simp]:
  "kdeb (lock_key cnt i k) = kdeb k" "kphys (lock_key cnt i k) = kphys k" "kfloor (lock_key cnt i k) = kfloor k"
  "pressed (kcfg (lock_key cnt i k)) = pressed (kcfg k)" "travel (kcfg (lock_key cnt i k)) = travel (kcfg k)"
  by (simp_all add: lock_key_def)

lemma lock_boot_calibration_key:
  "i < HE_SENSOR_COUNT \<Longrightarrow> key_at (lock_boot_calibration st) i = lock_key (he_scan_count st) i (key_at st i)"
  by (simp add: lock_boot_calibration_def lock_key_def key_at_def Let_def)

lemma lock_boot_calibration_frame [simp]:
  "arrays_ok st \<Longrightarrow> arrays_ok (lock_boot_calibration st)" "scan_frame (lock_boot_calibration st) = scan_frame st"
  "he_mode (lock_boot_calibration st) = he_mode st" "he_tuning (lock_boot_calibration st) = he_tuning st"
  "he_calibrating (lock_boot_calibration st) = he_calibrating st" "he_scan_count (lock_boot_calibration st) = he_scan_count st"
  "socd_winner (lock_boot_calibration st) = socd_winner st"
  by (simp_all add: lock_boot_calibration_def arrays_ok_def scan_frame_def each_config_def)

text \<open>
  \<open>socd_suppressed\<close>: the key that key cancel takes out of the report, from the stable states and the
  winners the scan leaves behind.
\<close>

definition socd_suppressed :: "('e, 'z) board_scheme \<Rightarrow> nat \<Rightarrow> bool" where
  "socd_suppressed st i \<longleftrightarrow> he_mode st = HE_MODE_KEY_CANCEL \<and>
     ((he_debounced st ! 32 \<and> he_debounced st ! 34 \<and> i = (if socd_winner st ! 0 = 1 then 32 else 34))
      \<or> (he_debounced st ! 46 \<and> he_debounced st ! 47 \<and> i = (if socd_winner st ! 1 = 1 then 46 else 47)))"

lemma socd_resolve_frame:
  assumes "length (socd_winner st) = 2"
  obtains w where "length w = 2" "snd (socd_resolve newly st) = st\<lparr>socd_winner := w\<rparr>"
    "\<And>i. i < 69 \<Longrightarrow> fst (socd_resolve newly st) ! i = socd_suppressed (st\<lparr>socd_winner := w\<rparr>) i"
proof (cases "he_mode st = HE_MODE_KEY_CANCEL")
  case True
  show ?thesis
    by (rule that [of "[socd_next newly st 0 32 34, socd_next newly st 1 46 47]"])
      (use True socd_resolve_state [OF True assms] in \<open>simp_all add: socd_suppressed_def\<close>)
next
  case False
  then show ?thesis using assms that [of "socd_winner st"]
    by (simp add: socd_resolve_def socd_suppressed_def hw_defs)
qed

text \<open>The winner rule of a pair, on the keys before and after the sampling loop.\<close>

definition socd_rule :: "u8 \<Rightarrow> key \<Rightarrow> key \<Rightarrow> key \<Rightarrow> key \<Rightarrow> u8" where
  "socd_rule w ka ka' kb kb' =
     (let new_a = (kdeb ka' \<and> \<not> kdeb ka); new_b = (kdeb kb' \<and> \<not> kdeb kb) in
      if \<not> kdeb ka' \<and> \<not> kdeb kb' then 255
      else if new_a \<and> new_b then (if travel (kcfg ka') \<ge> travel (kcfg kb') then 0 else 1)
      else if new_a then 0 else if new_b then 1 else w)"

text \<open>The state after the sampling loop and the end of the boot calibration.\<close>

definition sampled :: "env \<Rightarrow> ('e, 'z) board_scheme \<Rightarrow> bool list \<times> ('e, 'z) board_scheme" where
  "sampled env st = (let (newly, st1) = scan_sensors env (st\<lparr>he_scan_count := he_scan_count st + 1\<rparr>) in
     (newly, lock_boot_calibration st1))"

definition next_key :: "(nat \<Rightarrow> nat \<Rightarrow> u16) \<Rightarrow> bool \<Rightarrow> ('e, 'z) board_scheme \<Rightarrow> nat \<Rightarrow> key" where
  "next_key volt push st i = lock_key (he_scan_count st + 1) i (key_step (he_mode st) (he_tuning st) (he_calibrating st)
      (he_scan_count st + 1) (key_input volt push i) (key_at st i))"

context board_wiring
begin

lemma sampled_state:
  assumes ok: "arrays_ok st"
  shows "i < 69 \<Longrightarrow> key_at (snd (sampled env st)) i = next_key volt push st i"
    and "i < 69 \<Longrightarrow> fst (sampled env st) ! i \<longleftrightarrow> kdeb (next_key volt push st i) \<and> \<not> he_debounced st ! i"
    and "arrays_ok (snd (sampled env st))" "he_mode (snd (sampled env st)) = he_mode st" "he_tuning (snd (sampled env st)) = he_tuning st"
    and "he_calibrating (snd (sampled env st)) = he_calibrating st" "he_scan_count (snd (sampled env st)) = he_scan_count st + 1"
    and "scan_frame (snd (sampled env st)) = scan_frame st"
proof -
  define st0 where "st0 = st\<lparr>he_scan_count := he_scan_count st + 1\<rparr>"
  have ok0: "arrays_ok st0" and k0: "key_at st0 = key_at st" "he_debounced st0 = he_debounced st"
    using ok by (simp_all add: st0_def arrays_ok_def key_at_def fun_eq_iff)
  obtain newly st1 where s1: "scan_sensors env st0 = (newly, st1)" by force
  have s: "sampled env st = (newly, lock_boot_calibration st1)" by (simp add: sampled_def s1 flip: st0_def)
  have glob: "arrays_ok st1" "he_mode st1 = he_mode st" "he_tuning st1 = he_tuning st" "he_calibrating st1 = he_calibrating st"
    "he_scan_count st1 = he_scan_count st + 1" "scan_frame st1 = scan_frame st"
    using scan_sensors_glob [OF ok0, unfolded s1] ok0 by (simp_all add: scan_glob_def st0_def hw_defs scan_frame_def)
  show "arrays_ok (snd (sampled env st))" "he_mode (snd (sampled env st)) = he_mode st" "he_tuning (snd (sampled env st)) = he_tuning st"
    "he_calibrating (snd (sampled env st)) = he_calibrating st" "he_scan_count (snd (sampled env st)) = he_scan_count st + 1"
    "scan_frame (snd (sampled env st)) = scan_frame st"
    using glob by (simp_all add: s)
  show "key_at (snd (sampled env st)) i = next_key volt push st i"
    "fst (sampled env st) ! i \<longleftrightarrow> kdeb (next_key volt push st i) \<and> \<not> he_debounced st ! i" if "i < 69"
    using scan_sensors_keys [OF ok0, of i, unfolded s1] that glob(5) lock_boot_calibration_key [of i st1]
    by (simp_all add: s next_key_def k0 he_debounced_key hw_defs) (simp_all add: st0_def)
qed

text \<open>
  Everything a scan reports. The state of each key is a step of that key alone; the matrix and the
  reported states agree; the result says whether a reported state changed.
\<close>

lemma scan_committed:
  assumes scan: "matrix_scan_custom E env m st = (changed, m', st')"
    and ok: "arrays_ok st" "length (socd_winner st) = 2" "length m = 5"
  obtains w st4 where "length w = 2" "w = socd_winner (snd (socd_resolve (fst (sampled env st)) (snd (sampled env st))))"
    "st' = he_via_task E env st4" "st4\<lparr>he_config := []\<rparr> = (snd (sampled env st))\<lparr>he_config := [], socd_winner := w\<rparr>"
    "length (he_config st4) = 69"
    "\<forall>i<69. he_config st4 ! i = (kcfg (next_key volt push st i))\<lparr>pressed := kdeb (next_key volt push st i) \<and> \<not> socd_suppressed st4 i\<rparr>"
    "\<forall>i<69. matrix_bit m' (sensor_pos i) \<longleftrightarrow> kdeb (next_key volt push st i) \<and> \<not> socd_suppressed st4 i"
    "\<forall>r<5. \<forall>c<16. (r, c) \<notin> sensor_pos ` {..<69} \<longrightarrow> bit (m' ! r) c = bit (m ! r) c"
    "changed \<longleftrightarrow> (\<exists>i<69. (kdeb (next_key volt push st i) \<and> \<not> socd_suppressed st4 i) \<noteq> pressed (he_config st ! i))"
    "length m' = 5"
proof -
  obtain newly st2 where s2: "sampled env st = (newly, st2)" by force
  note smp = sampled_state [OF ok(1), unfolded s2 fst_conv snd_conv]
  have ok2: "length (socd_winner st2) = 2" "length (he_config st2) = HE_SENSOR_COUNT"
    using smp(3,8) ok by (simp_all add: scan_frame_def arrays_ok_def)
  obtain w where w: "length w = 2" "snd (socd_resolve newly st2) = st2\<lparr>socd_winner := w\<rparr>"
    "\<And>i. i < 69 \<Longrightarrow> fst (socd_resolve newly st2) ! i = socd_suppressed (st2\<lparr>socd_winner := w\<rparr>) i"
    using socd_resolve_frame [OF ok2(1), of newly] by metis
  let ?st3 = "st2\<lparr>socd_winner := w\<rparr>" and ?sup = "fst (socd_resolve newly st2)"
  obtain ch m4 st4 where c: "fold (commit_key ?sup) [0..<HE_SENSOR_COUNT] (False, m, ?st3) = (ch, m4, st4)"
    by (metis prod_cases3)
  have res: "changed = ch" "m' = m4" "st' = he_via_task E env st4"
    using scan c w(2) s2 by (auto simp: matrix_scan_custom_def sampled_def Let_def split: prod.splits)
  have len3: "length (he_config ?st3) = HE_SENSOR_COUNT" using ok2 by simp
  note commit = commit_result [OF len3 ok(3) c]
  have "he_debounced st4 = he_debounced ?st3" "socd_winner st4 = w" "he_mode st4 = he_mode ?st3"
    using arg_cong [OF commit(6), of he_debounced] arg_cong [OF commit(6), of socd_winner] arg_cong [OF commit(6), of he_mode]
    by simp_all
  then have "socd_suppressed st4 i = socd_suppressed ?st3 i" for i by (simp add: socd_suppressed_def)
  then have rep: "reported ?sup ?st3 i \<longleftrightarrow> kdeb (next_key volt push st i) \<and> \<not> socd_suppressed st4 i" if "i < 69" for i
    using that w(3) [OF that] smp(1) [OF that] by (simp add: reported_def he_debounced_key)
  have cfg2: "he_config st2 ! i = kcfg (next_key volt push st i)" if "i < 69" for i
    using arg_cong [OF smp(1) [OF that], of kcfg] by (simp add: key_at_def)
  have "pressed (kcfg (next_key volt push st i)) = pressed (he_config st ! i)" for i
    by (simp add: next_key_def) (simp add: key_at_def)
  then have changed: "changed \<longleftrightarrow> (\<exists>i<69. (kdeb (next_key volt push st i) \<and> \<not> socd_suppressed st4 i) \<noteq> pressed (he_config st ! i))"
    using commit(7) rep cfg2 by (auto simp: res(1))
  show ?thesis
  proof (rule that [of w st4])
    show "w = socd_winner (snd (socd_resolve (fst (sampled env st)) (snd (sampled env st))))" by (simp add: s2 w(2))
    show "st4\<lparr>he_config := []\<rparr> = (snd (sampled env st))\<lparr>he_config := [], socd_winner := w\<rparr>" using commit(6) by (simp add: s2)
    show "\<forall>i<69. he_config st4 ! i = (kcfg (next_key volt push st i))\<lparr>pressed := kdeb (next_key volt push st i) \<and> \<not> socd_suppressed st4 i\<rparr>"
      "\<forall>i<69. matrix_bit m' (sensor_pos i) \<longleftrightarrow> kdeb (next_key volt push st i) \<and> \<not> socd_suppressed st4 i"
      using commit(1,2) rep cfg2 by (simp_all add: res)
  qed (use w(1) res commit changed in auto)
qed

lemma scan_reports:
  assumes scan: "matrix_scan_custom E env m st = (changed, m', st')"
    and ok: "arrays_ok st" "length (socd_winner st) = 2" "length m = 5"
  shows "i < 69 \<Longrightarrow> he_debounced st' ! i = kdeb (next_key volt push st i)"
    and "i < 69 \<Longrightarrow> pressed (he_config st' ! i) \<longleftrightarrow> he_debounced st' ! i \<and> \<not> socd_suppressed st' i"
    and "i < 69 \<Longrightarrow> matrix_bit m' (sensor_pos i) = pressed (he_config st' ! i)"
    and "row < 5 \<Longrightarrow> col < 16 \<Longrightarrow> (row, col) \<notin> sensor_pos ` {..<69} \<Longrightarrow> bit (m' ! row) col = bit (m ! row) col"
    and "changed \<longleftrightarrow> (\<exists>i<69. pressed (he_config st' ! i) \<noteq> pressed (he_config st ! i))"
    and "length m' = 5"
proof -
  obtain w st4 where c: "length w = 2" "w = socd_winner (snd (socd_resolve (fst (sampled env st)) (snd (sampled env st))))"
    "st' = he_via_task E env st4" "st4\<lparr>he_config := []\<rparr> = (snd (sampled env st))\<lparr>he_config := [], socd_winner := w\<rparr>"
    "length (he_config st4) = 69"
    "\<forall>i<69. he_config st4 ! i = (kcfg (next_key volt push st i))\<lparr>pressed := kdeb (next_key volt push st i) \<and> \<not> socd_suppressed st4 i\<rparr>"
    "\<forall>i<69. matrix_bit m' (sensor_pos i) \<longleftrightarrow> kdeb (next_key volt push st i) \<and> \<not> socd_suppressed st4 i"
    "\<forall>r<5. \<forall>c<16. (r, c) \<notin> sensor_pos ` {..<69} \<longrightarrow> bit (m' ! r) c = bit (m ! r) c"
    "changed \<longleftrightarrow> (\<exists>i<69. (kdeb (next_key volt push st i) \<and> \<not> socd_suppressed st4 i) \<noteq> pressed (he_config st ! i))"
    "length m' = 5"
    by (rule scan_committed [OF scan ok])
  have deb: "he_debounced st' ! i = kdeb (next_key volt push st i)" if "i < 69" for i
    using arg_cong [OF c(4), of he_debounced] sampled_state(1) [OF ok(1) that] by (simp add: c(3) he_debounced_key)
  have sup: "socd_suppressed st4 i = socd_suppressed st' i" for i by (simp add: c(3) socd_suppressed_def)
  have prs: "pressed (he_config st' ! i) \<longleftrightarrow> kdeb (next_key volt push st i) \<and> \<not> socd_suppressed st' i" if "i < 69" for i
    using via_task_config(2) [of st4 i E env] c(5) c(6) that by (auto simp: c(3) hw_defs sup)
  show "he_debounced st' ! i = kdeb (next_key volt push st i)"
    "pressed (he_config st' ! i) \<longleftrightarrow> he_debounced st' ! i \<and> \<not> socd_suppressed st' i"
    "matrix_bit m' (sensor_pos i) = pressed (he_config st' ! i)" if "i < 69"
    using deb [OF that] prs [OF that] c(7) that sup by simp_all
  show "changed \<longleftrightarrow> (\<exists>i<69. pressed (he_config st' ! i) \<noteq> pressed (he_config st ! i))"
    using c(9) prs sup by auto
  show "bit (m' ! row) col = bit (m ! row) col" if "row < 5" "col < 16" "(row, col) \<notin> sensor_pos ` {..<69}"
    using c(8) that by blast
  show "length m' = 5" by (rule c(10))
qed

text \<open>The winner of a pair after a scan, from the keys before and after.\<close>

lemma scan_winner:
  assumes scan: "matrix_scan_custom E env m st = (changed, m', st')"
    and ok: "arrays_ok st" "length (socd_winner st) = 2" "length m = 5" and mode: "he_mode st = HE_MODE_KEY_CANCEL"
  shows "he_mode st' = HE_MODE_KEY_CANCEL"
    and "socd_winner st' = [socd_rule (socd_winner st ! 0) (key_at st 32) (next_key volt push st 32) (key_at st 34) (next_key volt push st 34),
      socd_rule (socd_winner st ! 1) (key_at st 46) (next_key volt push st 46) (key_at st 47) (next_key volt push st 47)]"
proof -
  obtain w st4 where c: "length w = 2" "w = socd_winner (snd (socd_resolve (fst (sampled env st)) (snd (sampled env st))))"
    "st' = he_via_task E env st4" "st4\<lparr>he_config := []\<rparr> = (snd (sampled env st))\<lparr>he_config := [], socd_winner := w\<rparr>"
    "length (he_config st4) = 69"
    "\<forall>i<69. he_config st4 ! i = (kcfg (next_key volt push st i))\<lparr>pressed := kdeb (next_key volt push st i) \<and> \<not> socd_suppressed st4 i\<rparr>"
    "\<forall>i<69. matrix_bit m' (sensor_pos i) \<longleftrightarrow> kdeb (next_key volt push st i) \<and> \<not> socd_suppressed st4 i"
    "\<forall>r<5. \<forall>c<16. (r, c) \<notin> sensor_pos ` {..<69} \<longrightarrow> bit (m' ! r) c = bit (m ! r) c"
    "changed \<longleftrightarrow> (\<exists>i<69. (kdeb (next_key volt push st i) \<and> \<not> socd_suppressed st4 i) \<noteq> pressed (he_config st ! i))"
    "length m' = 5"
    by (rule scan_committed [OF scan ok])
  obtain newly st2 where s2: "sampled env st = (newly, st2)" by force
  note smp = sampled_state [OF ok(1), unfolded s2 fst_conv snd_conv]
  have m2: "he_mode st2 = HE_MODE_KEY_CANCEL" "length (socd_winner st2) = 2" "socd_winner st2 = socd_winner st"
    using smp(4,8) mode ok by (simp_all add: scan_frame_def)
  show "he_mode st' = HE_MODE_KEY_CANCEL" using arg_cong [OF c(4), of he_mode] m2 by (simp add: c(3) s2)
  have "socd_next newly st2 p ia ib = socd_rule (socd_winner st ! p) (key_at st ia) (next_key volt push st ia) (key_at st ib) (next_key volt push st ib)"
    if "ia < 69" "ib < 69" for p ia ib
    using smp(1) [OF that(1)] smp(1) [OF that(2)] smp(2) [OF that(1)] smp(2) [OF that(2)] m2(3)
    by (simp add: socd_next_def socd_rule_def he_debounced_key) (simp add: key_at_def flip: smp(1) [OF that(1)] smp(1) [OF that(2)])
  then show "socd_winner st' = [socd_rule (socd_winner st ! 0) (key_at st 32) (next_key volt push st 32) (key_at st 34) (next_key volt push st 34),
      socd_rule (socd_winner st ! 1) (key_at st 46) (next_key volt push st 46) (key_at st 47) (next_key volt push st 47)]"
    using arg_cong [OF c(4), of socd_winner] socd_resolve_state(1) [OF m2(1,2), of newly] by (simp add: c(2,3) s2)
qed

end

end
