(* ===== verification/He_Keys.thy ===== *)
theory He_Keys
  imports He_Scan
begin

text \<open>
  What a single key does: the travel computed from a raw sample, the three actuation modes, the
  debounce over a sequence of scans and the boot auto-calibration. The lemmas are about \<open>key_step\<close>,
  which \<open>He_Scan\<close> shows to be what a scan does to every key.
\<close>

section \<open>Travel\<close>

lemma sint_of_int_u32: "- 2147483648 \<le> k \<Longrightarrow> k < 2147483648 \<Longrightarrow> sint (word_of_int k :: u32) = k"
  by (simp add: sint_sbintrunc' signed_take_bit_int_eq_self)

lemma uint_u16: "0 \<le> uint (x :: u16)" "uint (x :: u16) < 65536"
  using uint_lt2p [of x] by simp_all

lemma sint_u16: "sint (ucast (x :: u16) :: u32) = uint x"
  unfolding ucast_eq by (rule sint_of_int_u32) (use uint_u16 [of x] in linarith)+

text \<open>The 32-bit product is exact.\<close>

lemma sint_travel_product: "sint (he_travel_product c raw) = (uint raw - uint (raw_min c)) * 100"
proof -
  have p: "he_travel_product c raw = word_of_int ((uint raw - uint (raw_min c)) * 100)"
    unfolding he_travel_product_def ucast_eq by (simp only: of_int_mult of_int_diff of_int_numeral)
  have "- 65536 < uint raw - uint (raw_min c)" "uint raw - uint (raw_min c) < 65536" using uint_u16 [of raw] uint_u16 [of "raw_min c"] by linarith+
  then show ?thesis unfolding p by (intro sint_of_int_u32) simp_all
qed

lemma clamped_percent:
  fixes raw m :: u16 and span :: int
  assumes span: "0 < span"
  defines "q \<equiv> ((uint raw - uint m) * 100) sdiv span"
  shows "uint (ucast (let pct = word_of_int q :: u32; pct1 = (if sint pct < 0 then 0 else pct) in if sint pct1 > 100 then 100 else pct1) :: u8)
   = (if raw < m then 0 else min 100 ((uint raw - uint m) * 100 div span))"
proof -
  define d where "d = uint raw - uint m"
  have d: "raw < m \<longleftrightarrow> d < 0" by (auto simp: d_def word_less_def)
  have q: "q = (if d < 0 then - (- d * 100 div span) else d * 100 div span)"
    using span by (auto simp: q_def d_def [symmetric] signed_divide_int_def sgn_if)
  have neg: "d < 0 \<Longrightarrow> 0 \<le> - d * 100 div span" using span by (simp add: pos_imp_zdiv_nonneg_iff)
  have pos: "\<not> d < 0 \<Longrightarrow> 0 \<le> d * 100 div span" using span by (simp add: pos_imp_zdiv_nonneg_iff)
  have le: "y div span \<le> y" if "0 \<le> y" for y using zdiv_mono2 [of y 1 span] that span by simp
  have qb: "- 6553600 \<le> q" "q \<le> 6553600" 
    using neg pos le [of "- d * 100"] le [of "d * 100"] uint_u16 [of raw] uint_u16 [of m] unfolding q d_def by (cases "uint raw - uint m < 0"; simp; linarith)+
  have pct: "sint (word_of_int q :: u32) = q" by (rule sint_of_int_u32) (use qb in linarith)+
  have v: "uint (ucast (word_of_int x :: u32) :: u8) = x" if "0 \<le> x" "x \<le> 100" for x
    using that by (simp add: unsigned_ucast_eq uint_word_of_int_eq take_bit_int_eq_self)
  have w: "uint (ucast (if q > 100 then 100 else word_of_int q :: u32) :: u8) = min 100 q" if "0 \<le> q"
    using that v [of q] by (simp add: min_def)
  show ?thesis
  proof (cases "d < 0")
    case True
    then have "q \<le> 0" using neg by (simp add: q)
    then show ?thesis using True v [of 0] by (cases "q = 0") (simp_all add: d Let_def pct)
  next
    case False
    then have "0 \<le> q" "q = d * 100 div span" using pos by (simp_all add: q)
    then show ?thesis using w False unfolding d d_def [symmetric] Let_def \<open>q = d * 100 div span\<close> [symmetric]
      by (simp add: pct cong: if_cong split del: if_split)
  qed
qed
lemma he_raw_to_travel_uint:
  fixes c raw
  defines "span \<equiv> (if raw_max c > raw_min c then uint (raw_max c) - uint (raw_min c) else 1)"
  shows "uint (he_raw_to_travel c raw) =
    (if raw < raw_min c then 0 else min 100 ((uint raw - uint (raw_min c)) * 100 div span))"
proof -
  have span: "uint (if raw_max c > raw_min c then raw_max c - raw_min c else 1) = span" "0 < span"
    by (auto simp: span_def word_less_def uint_sub_if')
  show ?thesis using clamped_percent [OF span(2), of raw "raw_min c"]
    unfolding he_raw_to_travel_def Let_def sint_travel_product sint_u16 span(1) by simp
qed

lemma travel_le_100: "he_raw_to_travel c raw \<le> 100"
  using he_raw_to_travel_uint [of c raw] by (auto simp: word_le_def)

lemma travel_rest: "raw \<le> raw_min c \<Longrightarrow> he_raw_to_travel c raw = 0"
  using he_raw_to_travel_uint [of c raw]
  by (auto simp: word_le_def word_less_def word_uint_eq_iff split: if_splits)

lemma travel_bottom: "raw_min c < raw_max c \<Longrightarrow> raw_max c \<le> raw \<Longrightarrow> he_raw_to_travel c raw = 100"
proof -
  assume h: "raw_min c < raw_max c" "raw_max c \<le> raw"
  define span where "span = uint (raw_max c) - uint (raw_min c)"
  have s: "0 < span" "span \<le> uint raw - uint (raw_min c)" using h by (auto simp: span_def word_less_def word_le_def)
  then have "span * 100 div span \<le> (uint raw - uint (raw_min c)) * 100 div span" by (intro zdiv_mono1) auto
  then have "100 \<le> (uint raw - uint (raw_min c)) * 100 div span" using s by simp
  then show ?thesis
    using he_raw_to_travel_uint [of c raw] h by (auto simp: word_uint_eq_iff word_less_def word_le_def span_def min_def split: if_splits)
qed

lemma travel_mono: "raw \<le> raw' \<Longrightarrow> he_raw_to_travel c raw \<le> he_raw_to_travel c raw'"
proof -
  assume h: "raw \<le> raw'"
  define span where "span = (if raw_max c > raw_min c then uint (raw_max c) - uint (raw_min c) else 1)"
  have "0 < span" by (auto simp: span_def word_less_def)
  then have "(uint raw - uint (raw_min c)) * 100 div span \<le> (uint raw' - uint (raw_min c)) * 100 div span"
    using h by (intro zdiv_mono1) (auto simp: word_le_def)
  moreover have "\<not> raw' < raw_min c \<Longrightarrow> 0 \<le> (uint raw' - uint (raw_min c)) * 100 div span"
    using \<open>0 < span\<close> by (simp add: word_less_def pos_imp_zdiv_nonneg_iff)
  ultimately show ?thesis
    using he_raw_to_travel_uint [of c raw] he_raw_to_travel_uint [of c raw'] h
    by (auto simp: word_le_def word_less_def span_def min_def split: if_splits)
qed

section \<open>Actuation modes\<close>

text \<open>
  In normal and key-cancel mode a key is a two-threshold switch: below both thresholds it ends up
  released, above both pressed, and with release below actuation the band between them keeps the
  state.
\<close>

lemma normal_mode:
  assumes "mode \<noteq> HE_MODE_RAPID_TRIGGER"
  shows "snd (he_compute_pressed mode tune c p t) = (if p then t > release c else t \<ge> actuation c)"
  using assms by (cases mode) (simp_all add: he_compute_pressed_def Let_def)

lemma normal_hysteresis:
  assumes "mode \<noteq> HE_MODE_RAPID_TRIGGER" "release c < actuation c"
  shows "actuation c \<le> t \<Longrightarrow> snd (he_compute_pressed mode tune c p t)"
    and "t \<le> release c \<Longrightarrow> \<not> snd (he_compute_pressed mode tune c p t)"
    and "release c < t \<Longrightarrow> t < actuation c \<Longrightarrow> snd (he_compute_pressed mode tune c p t) = p"
  using assms by (auto simp: normal_mode)

text \<open>
  Rapid trigger. The invariant ties the extremes to the travel the machine saw last: while the key
  is held the peak is at least it, while the key is up the valley is at most it. With it, the
  key is released exactly when it falls into the rest band or drops by the release distance from the
  highest point of the hold, and is pressed exactly when it is above the rest band and past the
  actuation point or \<open>engage\<close> above the lowest point since the release.
\<close>

definition rt_ok :: "he_key_config_t \<Rightarrow> bool \<Rightarrow> bool" where
  "rt_ok c p \<longleftrightarrow> (if p then travel c \<le> peak c else valley c \<le> travel c)"

lemma rt_ok_step: "rt_ok (fst (he_compute_pressed HE_MODE_RAPID_TRIGGER tune c p t))
    (snd (he_compute_pressed HE_MODE_RAPID_TRIGGER tune c p t))"
  by (auto simp: rt_ok_def he_compute_pressed_def Let_def)

lemma uint_peak_drop: "t \<le> q \<Longrightarrow> uint (q - t :: u8) = uint q - uint t"
  by (simp add: word_le_def uint_sub_if')

lemma rt_release:
  fixes tune c t
  defines "r \<equiv> he_compute_pressed HE_MODE_RAPID_TRIGGER tune c True t"
  shows "\<not> snd r \<longleftrightarrow> t \<le> deadzone tune \<or> uint (max (peak c) t) - uint t \<ge> uint (release_dist tune)"
    and "snd r \<Longrightarrow> peak (fst r) = max (peak c) t"
    and "\<not> snd r \<Longrightarrow> valley (fst r) = t"
proof -
  have "peak c - t \<ge> release_dist tune \<longleftrightarrow> uint (release_dist tune) \<le> uint (peak c) - uint t" if "t \<le> peak c"
    using uint_peak_drop [OF that] by (simp add: word_le_def)
  then show "\<not> snd r \<longleftrightarrow> t \<le> deadzone tune \<or> uint (max (peak c) t) - uint t \<ge> uint (release_dist tune)"
    by (auto simp: r_def he_compute_pressed_def Let_def max_def word_le_def word_less_def split: if_splits)
  show "snd r \<Longrightarrow> peak (fst r) = max (peak c) t" "\<not> snd r \<Longrightarrow> valley (fst r) = t"
    by (auto simp: r_def he_compute_pressed_def Let_def max_def split: if_splits)
qed

lemma rt_press:
  fixes tune c t
  defines "r \<equiv> he_compute_pressed HE_MODE_RAPID_TRIGGER tune c False t"
  shows "snd r \<longleftrightarrow> deadzone tune < t \<and> (actuation c \<le> t \<or> uint t - uint (min (valley c) t) \<ge> uint (engage tune))"
    and "snd r \<Longrightarrow> peak (fst r) = t"
    and "\<not> snd r \<Longrightarrow> valley (fst r) = min (valley c) t"
  by (auto simp: r_def he_compute_pressed_def Let_def min_def split: if_splits)

section \<open>Debounce\<close>

text \<open>
  \<open>debounce_ok ps d c\<close>: after the inputs \<open>ps\<close> the counter holds how many of the last inputs
  disagree with the stable state \<open>d\<close>, and it is below the threshold.
\<close>

definition debounce_ok :: "bool list \<Rightarrow> bool \<Rightarrow> u8 \<Rightarrow> bool" where
  "debounce_ok ps d c \<longleftrightarrow> unat c < 5 \<and> unat c \<le> length ps \<and> (\<forall>x\<in>set (drop (length ps - unat c) ps). x \<noteq> d)"

lemma unat_Suc_small: "unat (c :: u8) < 5 \<Longrightarrow> unat (c + 1) = Suc (unat c)"
  by (simp add: unat_word_ariths)

lemma debounce_flip_iff: "unat c < 5 \<Longrightarrow> HE_DEBOUNCE \<le> c + 1 \<longleftrightarrow> unat c = 4"
  by (auto simp: hw_defs word_le_nat_alt unat_Suc_small)

lemma debounce_ok_step:
  assumes "debounce_ok ps d c" "debounce_step p (d, c) = (d', c')"
  shows "debounce_ok (ps @ [p]) d' c'"
    and "d' \<noteq> d \<Longrightarrow> 5 \<le> length (ps @ [p]) \<and> (\<forall>x\<in>set (drop (length (ps @ [p]) - 5) (ps @ [p])). x = d')"
proof -
  have c: "unat c < 5" "unat c \<le> length ps" using assms(1) by (simp_all add: debounce_ok_def)
  have len: "Suc (length ps) - Suc (unat c) = length ps - unat c" by simp
  show "debounce_ok (ps @ [p]) d' c'"
    using assms c debounce_flip_iff [OF c(1)] unat_Suc_small [OF c(1)]
    by (auto simp: debounce_ok_def debounce_step_def len split: if_splits)
  assume flip: "d' \<noteq> d"
  then have f: "p \<noteq> d" "d' = p" "unat c = 4"
    using assms(2) debounce_flip_iff [OF c(1)] by (auto simp: debounce_step_def split: if_splits)
  then show "5 \<le> length (ps @ [p]) \<and> (\<forall>x\<in>set (drop (length (ps @ [p]) - 5) (ps @ [p])). x = d')"
    using assms(1) by (auto simp: debounce_ok_def)
qed

text \<open>Five equal samples are accepted, whatever came before.\<close>

lemma debounce_hold: "debounce_step p (p, c) = (p, 0)"
  by (simp add: debounce_step_def)

lemma debounce_five:
  assumes "unat c < 5"
  shows "fst ((debounce_step p ^^ 5) (d, c)) = p"
proof (cases "d = p")
  case True
  then show ?thesis by (simp add: eval_nat_numeral debounce_hold)
next
  case False
  have step: "debounce_step p (d, c) = (if unat c = 4 then (p, 0) else (d, c + 1))" if "unat c < 5" for c
    using that False debounce_flip_iff [OF that] by (simp add: debounce_step_def)
  have "fst ((debounce_step p ^^ n) (d, c)) = p" if "unat c < 5" "5 \<le> n + unat c" for n c
    using that
  proof (induction n arbitrary: c)
    case (Suc n)
    have hold: "(debounce_step p ^^ n) (p, 0) = (p, 0)" by (induction n) (simp_all add: debounce_hold)
    show ?case
      using Suc.IH [of "c + 1"] Suc.prems hold by (simp add: funpow_Suc_right step unat_Suc_small del: funpow.simps)
  qed simp
  from this [OF assms, of 5] show ?thesis by simp
qed

section \<open>Keys along a sequence of scans\<close>

text \<open>\<open>scan_seq E envs s n\<close> is the matrix and the state after \<open>n\<close> scans, the \<open>j\<close>-th in environment \<open>envs j\<close>.\<close>

primrec scan_seq :: "'e eeprom_driver \<Rightarrow> (nat \<Rightarrow> env) \<Rightarrow> matrix \<times> ('e, 'z) board_scheme \<Rightarrow> nat \<Rightarrow> matrix \<times> ('e, 'z) board_scheme" where
  "scan_seq E envs s 0 = s"
| "scan_seq E envs s (Suc n) =
     (let (m, st) = scan_seq E envs s n; (changed, m', st') = matrix_scan_custom E (envs n) m st in (m', st'))"

definition scan_ok :: "matrix \<times> ('e, 'z) board_scheme \<Rightarrow> bool" where
  "scan_ok = (\<lambda>(m, st). length m = 5 \<and> arrays_ok st \<and> length (socd_winner st) = 2)"

definition rethreshold :: "u8 \<Rightarrow> u8 \<Rightarrow> bool \<Rightarrow> key \<Rightarrow> key" where
  "rethreshold a r p k = k\<lparr>kcfg := (kcfg k)\<lparr>pressed := p, actuation := a, release := r\<rparr>\<rparr>"

lemma rethreshold_sel [simp]:
  "kphys (rethreshold a r p k) = kphys k" "kdeb (rethreshold a r p k) = kdeb k" "kfloor (rethreshold a r p k) = kfloor k"
  "debounce (kcfg (rethreshold a r p k)) = debounce (kcfg k)" "travel (kcfg (rethreshold a r p k)) = travel (kcfg k)"
  "raw_min (kcfg (rethreshold a r p k)) = raw_min (kcfg k)" "raw_max (kcfg (rethreshold a r p k)) = raw_max (kcfg k)"
  by (simp_all add: rethreshold_def)

context board_wiring
begin

text \<open>A scan as a step of every key, up to the thresholds (autosave) and the reported state (commit).\<close>

lemma scan_next_key:
  assumes scan: "matrix_scan_custom E env m st = (changed, m', st')" and ok: "scan_ok (m, st)"
  shows "i < 69 \<Longrightarrow> \<exists>a r p. key_at st' i = rethreshold a r p (next_key volt push st i)"
    and "scan_ok (m', st')" "he_mode st' = he_mode st" "he_tuning st' = he_tuning st"
    and "he_calibrating st' = he_calibrating st" "he_scan_count st' = he_scan_count st + 1"
proof -
  have ok': "arrays_ok st" "length (socd_winner st) = 2" "length m = 5" using ok by (simp_all add: scan_ok_def)
  obtain w st4 where c: "length w = 2" "w = socd_winner (snd (socd_resolve (fst (sampled env st)) (snd (sampled env st))))"
    "st' = he_via_task E env st4" "st4\<lparr>he_config := []\<rparr> = (snd (sampled env st))\<lparr>he_config := [], socd_winner := w\<rparr>"
    "length (he_config st4) = 69"
    "\<forall>i<69. he_config st4 ! i = (kcfg (next_key volt push st i))\<lparr>pressed := kdeb (next_key volt push st i) \<and> \<not> socd_suppressed st4 i\<rparr>"
    "\<forall>i<69. matrix_bit m' (sensor_pos i) \<longleftrightarrow> kdeb (next_key volt push st i) \<and> \<not> socd_suppressed st4 i"
    "\<forall>r<5. \<forall>c<16. (r, c) \<notin> sensor_pos ` {..<69} \<longrightarrow> bit (m' ! r) c = bit (m ! r) c"
    "changed \<longleftrightarrow> (\<exists>i<69. (kdeb (next_key volt push st i) \<and> \<not> socd_suppressed st4 i) \<noteq> pressed (he_config st ! i))"
    "length m' = 5"
    by (rule scan_committed [OF scan ok'])
  note smp = sampled_state [OF ok'(1)]
  have st4: "he_rest_floor st4 = he_rest_floor (snd (sampled env st))" "he_cal_latched st4 = he_cal_latched (snd (sampled env st))"
    "he_phys_pressed st4 = he_phys_pressed (snd (sampled env st))" "he_debounced st4 = he_debounced (snd (sampled env st))"
    "socd_winner st4 = w" "he_mode st4 = he_mode st" "he_tuning st4 = he_tuning st"
    "he_calibrating st4 = he_calibrating st" "he_scan_count st4 = he_scan_count st + 1"
    using c(4) smp(4-7) by (auto dest: arg_cong [of _ _ he_rest_floor] arg_cong [of _ _ he_cal_latched]
        arg_cong [of _ _ he_phys_pressed] arg_cong [of _ _ he_debounced] arg_cong [of _ _ socd_winner]
        arg_cong [of _ _ he_mode] arg_cong [of _ _ he_tuning] arg_cong [of _ _ he_calibrating] arg_cong [of _ _ he_scan_count])
  show "he_mode st' = he_mode st" "he_tuning st' = he_tuning st" "he_calibrating st' = he_calibrating st"
    "he_scan_count st' = he_scan_count st + 1"
    using st4 by (simp_all add: c(3))
  show "scan_ok (m', st')"
    using smp(3) st4 c(1,5,10) via_task_config(1) [of st4 0 E env] by (simp add: scan_ok_def arrays_ok_def c(3) hw_defs)
  show "\<exists>a r p. key_at st' i = rethreshold a r p (next_key volt push st i)" if i: "i < 69"
  proof -
    obtain a r where v: "he_config st' ! i = (he_config st4 ! i)\<lparr>actuation := a, release := r\<rparr>"
      using via_task_config(2) [of st4 i E env] c(5) i by (auto simp: c(3) hw_defs)
    have "key_at st' i = (key_at (snd (sampled env st)) i)\<lparr>kcfg := he_config st' ! i\<rparr>"
      using st4 by (simp add: key_at_def c(3))
    also have "\<dots> = (next_key volt push st i)\<lparr>kcfg := he_config st' ! i\<rparr>" using smp(1) [OF i] by simp
    finally show ?thesis using v c(6) i by (auto simp: rethreshold_def)
  qed
qed

end

lemma scan_seq_ok:
  assumes wired: "\<forall>n. board_wiring (envs n) (volt n) (push n)" and ok: "scan_ok s"
  shows "scan_ok (scan_seq E envs s n)"
proof (induction n)
  case (Suc n)
  obtain m st where s: "scan_seq E envs s n = (m, st)" by force
  obtain ch m' st' where r: "matrix_scan_custom E (envs n) m st = (ch, m', st')" by (metis prod_cases3)
  from board_wiring.scan_next_key(2) [OF wired [rule_format] r] Suc show ?case by (simp add: s r)
qed (simp add: ok)

lemma next_key_debounce:
  "kdeb (next_key volt push st i) = fst (debounce_step (kphys (next_key volt push st i)) (kdeb (key_at st i), debounce (kcfg (key_at st i))))"
  "debounce (kcfg (next_key volt push st i)) =
     snd (debounce_step (kphys (next_key volt push st i)) (kdeb (key_at st i), debounce (kcfg (key_at st i))))"
  by (cases "key_input volt push i"; simp add: next_key_def key_step_def debounce_key_sel analog_step_sel lock_key_def)+

text \<open>The state of key \<open>i\<close> after \<open>n\<close> scans: instantaneous, stable, and the debounce counter.\<close>

definition phys_at where "phys_at E envs s i n = he_phys_pressed (snd (scan_seq E envs s n)) ! i"
definition stable_at where "stable_at E envs s i n = he_debounced (snd (scan_seq E envs s n)) ! i"
definition counter_at where "counter_at E envs s i n = debounce (he_config (snd (scan_seq E envs s n)) ! i)"

lemma debounce_at:
  assumes wired: "\<forall>n. board_wiring (envs n) (volt n) (push n)" and ok: "scan_ok s" and i: "i < 69"
  shows "(stable_at E envs s i (Suc n), counter_at E envs s i (Suc n)) =
    debounce_step (phys_at E envs s i (Suc n)) (stable_at E envs s i n, counter_at E envs s i n)"
proof -
  obtain m st where s: "scan_seq E envs s n = (m, st)" by force
  obtain ch m' st' where r: "matrix_scan_custom E (envs n) m st = (ch, m', st')" by (metis prod_cases3)
  have "scan_ok (m, st)" using scan_seq_ok [OF wired ok, of E n] by (simp add: s)
  from board_wiring.scan_next_key(1) [OF wired [rule_format] r this i] obtain a rl p where
    "key_at st' i = rethreshold a rl p (next_key (volt n) (push n) st i)" by blast
  then have "kphys (key_at st' i) = kphys (next_key (volt n) (push n) st i)" "kdeb (key_at st' i) = kdeb (next_key (volt n) (push n) st i)"
    "debounce (kcfg (key_at st' i)) = debounce (kcfg (next_key (volt n) (push n) st i))" by simp_all
  then show ?thesis
    by (simp add: phys_at_def stable_at_def counter_at_def s r next_key_debounce) (simp add: key_at_def)
qed

lemma debounce_history:
  assumes wired: "\<forall>n. board_wiring (envs n) (volt n) (push n)" and ok: "scan_ok s" and i: "i < 69"
    and zero: "counter_at E envs s i 0 = 0"
  shows "debounce_ok (map (phys_at E envs s i) [1..<Suc n]) (stable_at E envs s i n) (counter_at E envs s i n)"
proof (induction n)
  case 0
  then show ?case using zero by (simp add: debounce_ok_def)
next
  case (Suc n)
  have "debounce_step (phys_at E envs s i (Suc n)) (stable_at E envs s i n, counter_at E envs s i n)
      = (stable_at E envs s i (Suc n), counter_at E envs s i (Suc n))"
    by (rule debounce_at [symmetric]) (rule wired ok i)+
  from debounce_ok_step(1) [OF Suc.IH this] show ?case by (simp add: upt_Suc)
qed

text \<open>
  No flicker: the stable state changes only when the last five samples all have the new value; and
  five equal samples in a row are enough.
\<close>

lemma debounce_needs_five:
  assumes wired: "\<forall>n. board_wiring (envs n) (volt n) (push n)" and ok: "scan_ok s" and i: "i < 69"
    and zero: "counter_at E envs s i 0 = 0" and flip: "stable_at E envs s i (Suc n) \<noteq> stable_at E envs s i n"
  shows "4 \<le> n \<and> (\<forall>j\<in>{n - 3..n + 1}. phys_at E envs s i j = stable_at E envs s i (Suc n))"
proof -
  let ?ps = "map (phys_at E envs s i) [1..<Suc n]"
  have st: "debounce_step (phys_at E envs s i (Suc n)) (stable_at E envs s i n, counter_at E envs s i n)
      = (stable_at E envs s i (Suc n), counter_at E envs s i (Suc n))"
    by (rule debounce_at [symmetric]) (rule wired ok i)+
  have "debounce_ok ?ps (stable_at E envs s i n) (counter_at E envs s i n)"
    by (rule debounce_history) (rule wired ok i zero)+
  moreover have "?ps @ [phys_at E envs s i (Suc n)] = map (phys_at E envs s i) [1..<Suc (Suc n)]" by simp
  ultimately have five: "4 \<le> n" "\<forall>x\<in>set (drop (n - 4) (map (phys_at E envs s i) [1..<Suc (Suc n)])). x = stable_at E envs s i (Suc n)"
    using debounce_ok_step(2) [OF _ st flip, of ?ps] by (auto simp del: upt_Suc)
  moreover have "1 + (n - 4) = n - 3" using five(1) by simp
  then have "drop (n - 4) [1..<Suc (Suc n)] = [n - 3..<Suc (Suc n)]" by (simp only: drop_upt)
  then have "set (drop (n - 4) (map (phys_at E envs s i) [1..<Suc (Suc n)])) = phys_at E envs s i ` {n - 3..n + 1}"
    by (simp add: drop_map atLeastLessThanSuc_atLeastAtMost del: upt_Suc)
  ultimately show ?thesis by auto
qed

lemma debounce_five_enough:
  assumes wired: "\<forall>n. board_wiring (envs n) (volt n) (push n)" and ok: "scan_ok s" and i: "i < 69"
    and zero: "counter_at E envs s i 0 = 0" and same: "\<forall>j\<in>{n + 1..n + 5}. phys_at E envs s i j = v"
  shows "stable_at E envs s i (n + 5) = v"
proof -
  have step: "(stable_at E envs s i (Suc k), counter_at E envs s i (Suc k)) = debounce_step v (stable_at E envs s i k, counter_at E envs s i k)"
    if "n \<le> k" "k < n + 5" for k
    using debounce_at [OF wired ok i, of E k] same that by simp
  have "(stable_at E envs s i (n + k), counter_at E envs s i (n + k)) = (debounce_step v ^^ k) (stable_at E envs s i n, counter_at E envs s i n)"
    if "k \<le> 5" for k
    using that by (induction k) (simp_all add: step)
  from this [of 5] have "stable_at E envs s i (n + 5) = fst ((debounce_step v ^^ 5) (stable_at E envs s i n, counter_at E envs s i n))"
    by (metis fst_conv order_refl)
  moreover have "unat (counter_at E envs s i n) < 5"
    using debounce_history [OF wired ok i zero, of n] by (simp add: debounce_ok_def)
  ultimately show ?thesis by (simp only: debounce_five)
qed

section \<open>Boot calibration\<close>

text \<open>
  After the first 64 scans every analog key's span starts 20 counts below the smallest of its 64
  samples and is 700 counts wide.
\<close>

lemma rest_base_plus: "f \<le> 4095 \<Longrightarrow> uint (rest_base f + HE_ADC_TRAVEL_SPAN) = uint (rest_base f) + 700"
proof -
  assume "f \<le> 4095"
  then have "rest_base f \<le> 4095" using rest_base_bound [of f] by (rule order_trans [rotated])
  then show ?thesis by (simp add: hw_defs word_le_def uint_word_ariths(1))
qed

lemma scan_seq_SucE:
  assumes wired: "\<forall>n. board_wiring (envs n) (volt n) (push n)" and ok: "scan_ok s"
  obtains m st ch m' st' where "scan_seq E envs s n = (m, st)" "scan_ok (m, st)" "scan_seq E envs s (Suc n) = (m', st')"
    "matrix_scan_custom E (envs n) m st = (ch, m', st')"
    "\<forall>i<69. \<exists>a r p. key_at st' i = rethreshold a r p (next_key (volt n) (push n) st i)"
    "he_scan_count st' = he_scan_count st + 1" "he_mode st' = he_mode st" "he_tuning st' = he_tuning st"
    "he_calibrating st' = he_calibrating st"
proof -
  obtain m st where s: "scan_seq E envs s n = (m, st)" by force
  obtain ch m' st' where r: "matrix_scan_custom E (envs n) m st = (ch, m', st')" by (metis prod_cases3)
  have o: "scan_ok (m, st)" using scan_seq_ok [OF wired ok, of E n] by (simp add: s)
  note n = board_wiring.scan_next_key [OF wired [rule_format] r o]
  show ?thesis by (rule that [OF s o _ r]) (use n in \<open>auto simp: s r\<close>)
qed

lemma scan_seq_globals:
  assumes wired: "\<forall>n. board_wiring (envs n) (volt n) (push n)" and ok: "scan_ok s"
  shows "he_scan_count (snd (scan_seq E envs s n)) = he_scan_count (snd s) + of_nat n"
    and "he_mode (snd (scan_seq E envs s n)) = he_mode (snd s)" "he_tuning (snd (scan_seq E envs s n)) = he_tuning (snd s)"
    and "he_calibrating (snd (scan_seq E envs s n)) = he_calibrating (snd s)"
proof (induction n)
  case (Suc n)
  show "he_scan_count (snd (scan_seq E envs s (Suc n))) = he_scan_count (snd s) + of_nat (Suc n)"
    "he_mode (snd (scan_seq E envs s (Suc n))) = he_mode (snd s)" "he_tuning (snd (scan_seq E envs s (Suc n))) = he_tuning (snd s)"
    "he_calibrating (snd (scan_seq E envs s (Suc n))) = he_calibrating (snd s)"
    by (rule scan_seq_SucE [OF wired ok, of E n]; use Suc in \<open>simp del: scan_seq.simps\<close>)+
qed simp_all

text \<open>The samples of analog key \<open>i\<close> along the sequence.\<close>

definition sample :: "(nat \<Rightarrow> nat \<Rightarrow> nat \<Rightarrow> u16) \<Rightarrow> nat \<Rightarrow> nat \<Rightarrow> u16" where
  "sample volt i j = volt j (sensor_mux (he_sensors ! i)) (sensor_addr (he_sensors ! i))"

lemma next_key_floor:
  assumes "i < 68" "he_scan_count st + 1 \<le> 64"
  shows "kfloor (next_key volt push st i) = min (volt (sensor_mux (he_sensors ! i)) (sensor_addr (he_sensors ! i))) (kfloor (key_at st i))"
  using assms by (simp add: next_key_def key_step_def key_input_def debounce_key_sel analog_step_sel hw_defs)

lemma next_key_locked:
  assumes "i < 68" "he_scan_count st + 1 = 64"
  shows "raw_min (kcfg (next_key volt push st i)) = rest_base (kfloor (next_key volt push st i))"
    and "raw_max (kcfg (next_key volt push st i)) = rest_base (kfloor (next_key volt push st i)) + HE_ADC_TRAVEL_SPAN"
  using assms by (simp_all add: next_key_def lock_key_def hw_defs)

lemma count_bound: "n < 64 \<Longrightarrow> (of_nat n :: u32) + 1 \<le> 64"
  by (simp add: word_le_nat_alt unat_word_ariths unat_of_nat)

lemma boot_floor:
  assumes wired: "\<forall>n. board_wiring (envs n) (volt n) (push n)" and ok: "scan_ok s" and i: "i < 68"
    and boot: "he_scan_count (snd s) = 0" "he_rest_floor (snd s) ! i = HE_ADC_RAW_MAX"
  shows "n \<le> 64 \<Longrightarrow> he_rest_floor (snd (scan_seq E envs s n)) ! i = Min (insert HE_ADC_RAW_MAX (sample volt i ` {..<n}))"
proof (induction n)
  case (Suc n)
  obtain m st m' st' where r: "scan_seq E envs s n = (m, st)" "scan_seq E envs s (Suc n) = (m', st')"
    "\<forall>i<69. \<exists>a r p. key_at st' i = rethreshold a r p (next_key (volt n) (push n) st i)"
    by (rule scan_seq_SucE [OF wired ok, of E n])
  have cnt: "he_scan_count st + 1 \<le> 64"
    using scan_seq_globals(1) [OF wired ok, of E n] boot(1) Suc.prems count_bound [of n] by (simp add: r(1))
  have "kfloor (key_at st' i) = kfloor (next_key (volt n) (push n) st i)" using r(3) [rule_format, of i] i by auto
  then have "he_rest_floor st' ! i = min (sample volt i n) (he_rest_floor st ! i)"
    using next_key_floor [OF i cnt, of "volt n" "push n"] by (simp add: sample_def) (simp add: key_at_def)
  moreover have "he_rest_floor st ! i = Min (insert HE_ADC_RAW_MAX (sample volt i ` {..<n}))"
    using Suc by (simp add: r(1))
  moreover have "insert HE_ADC_RAW_MAX (sample volt i ` {..<Suc n}) = insert (sample volt i n) (insert HE_ADC_RAW_MAX (sample volt i ` {..<n}))"
    by (auto simp: lessThan_Suc)
  ultimately show ?case by (simp only: r(2) snd_conv) simp
qed (simp add: boot)

lemma boot_locked:
  fixes E :: "'e eeprom_driver" and s :: "matrix \<times> ('e, 'z) board_scheme"
  assumes wired: "\<forall>n. board_wiring (envs n) (volt n) (push n)" and ok: "scan_ok s" and i: "i < 68"
    and boot: "he_scan_count (snd s) = 0" "he_rest_floor (snd s) ! i = HE_ADC_RAW_MAX"
    and adc12: "\<forall>j<64. sample volt i j \<le> HE_ADC_RAW_MAX"
  defines "rest \<equiv> Min (sample volt i ` {..<64})" and "c \<equiv> he_config (snd (scan_seq E envs s 64)) ! i"
  shows "raw_min c = rest_base rest" "raw_max c = rest_base rest + HE_ADC_TRAVEL_SPAN" "rest \<le> HE_ADC_RAW_MAX"
proof -
  obtain m st m' st' where r: "scan_seq E envs s 63 = (m, st)" "scan_seq E envs s (Suc 63) = (m', st')"
    "\<forall>i<69. \<exists>a r p. key_at st' i = rethreshold a r p (next_key (volt 63) (push 63) st i)"
    by (rule scan_seq_SucE [OF wired ok, of E 63])
  have cnt: "he_scan_count st + 1 = 64"
    using scan_seq_globals(1) [OF wired ok, of E 63] boot(1) by (simp add: r(1))
  have c: "c = kcfg (key_at st' i)" using r(2) by (simp add: c_def key_at_def del: scan_seq.simps)
  have rest: "rest \<le> HE_ADC_RAW_MAX"
    by (rule order_trans [of _ "sample volt i 0"]) (use adc12 in \<open>auto simp: rest_def intro!: Min_le\<close>)
  then have "Min (insert HE_ADC_RAW_MAX (sample volt i ` {..<64})) = rest"
    unfolding rest_def by (subst Min_insert) (simp_all add: lessThan_empty_iff min.absorb2)
  then have "kfloor (key_at st' i) = rest"
    using boot_floor [OF wired ok i boot, of 64 E] r(2) by (simp add: key_at_def del: scan_seq.simps)
  moreover obtain a rl p where k: "key_at st' i = rethreshold a rl p (next_key (volt 63) (push 63) st i)"
    using r(3) [rule_format, of i] i by auto
  ultimately show "raw_min c = rest_base rest" "raw_max c = rest_base rest + HE_ADC_TRAVEL_SPAN"
    using next_key_locked [OF i cnt, of "volt 63" "push 63"] by (simp_all add: c)
  show "rest \<le> HE_ADC_RAW_MAX" by (rule rest)
qed

text \<open>
  With the calibration of a key at rest, a sample at most 329 counts above the resting floor reads
  below 50 per cent, one at least 700 above it reads 100.
\<close>

lemma locked_travel:
  assumes "raw_min c = rest_base f" "raw_max c = rest_base f + HE_ADC_TRAVEL_SPAN" "f \<le> HE_ADC_RAW_MAX"
  shows "uint raw \<le> uint f + 329 \<Longrightarrow> he_raw_to_travel c raw < 50"
    and "uint f + 700 \<le> uint raw \<Longrightarrow> he_raw_to_travel c raw = 100"
proof -
  have f: "f \<le> 4095" using assms(3) by (simp add: hw_defs)
  have mx: "uint (raw_max c) = uint (raw_min c) + 700" using rest_base_plus [OF f] assms by simp
  have b: "uint (raw_min c) \<le> uint f" "uint f \<le> uint (raw_min c) + 20"
    using assms(1) by (auto simp: rest_base_def hw_defs word_less_def word_le_def uint_sub_if' split: if_splits)
  have lt: "raw_min c < raw_max c" using mx by (simp add: word_less_def)
  show "he_raw_to_travel c raw < 50" if "uint raw \<le> uint f + 329"
  proof -
    have "(uint raw - uint (raw_min c)) * 100 div 700 \<le> 34900 div 700" by (rule zdiv_mono1) (use that b in auto)
    then show ?thesis using he_raw_to_travel_uint [of c raw] lt mx by (auto simp: word_less_def)
  qed
  show "he_raw_to_travel c raw = 100" if "uint f + 700 \<le> uint raw"
    by (rule travel_bottom [OF lt]) (use mx b that in \<open>simp add: word_le_def\<close>)
qed

section \<open>Runs of a single analog key\<close>

text \<open>\<open>key_run\<close>: a key over a list of scan numbers and samples, with no calibration running.\<close>

definition key_run :: "he_actuation_mode_t \<Rightarrow> he_tuning_t \<Rightarrow> (u32 \<times> u16) list \<Rightarrow> key \<Rightarrow> key" where
  "key_run mode tune = fold (\<lambda>(cnt, raw). key_step mode tune False cnt (Inl raw))"

lemma key_run_simps [simp]:
  "key_run mode tune [] k = k"
  "key_run mode tune ((cnt, raw) # ins) k = key_run mode tune ins (key_step mode tune False cnt (Inl raw) k)"
  by (simp_all add: key_run_def)

lemma analog_key_step:
  fixes raw k
  defines "r \<equiv> \<lambda>mode tune. he_compute_pressed mode tune (kcfg k) (kphys k) (he_raw_to_travel (kcfg k) raw)"
  shows "kphys (key_step mode tune False cnt (Inl raw) k) = snd (r mode tune)"
    and "kdeb (key_step mode tune False cnt (Inl raw) k) = fst (debounce_step (snd (r mode tune)) (kdeb k, debounce (kcfg k)))"
    and "kcfg (key_step mode tune False cnt (Inl raw) k)
      = (fst (r mode tune))\<lparr>debounce := snd (debounce_step (snd (r mode tune)) (kdeb k, debounce (kcfg k)))\<rparr>"
  by (simp_all add: key_step_def debounce_key_sel analog_step_sel cal_track_def r_def)

lemma analog_key_keeps [simp]:
  "raw_min (kcfg (key_step mode tune False cnt (Inl raw) k)) = raw_min (kcfg k)"
  "raw_max (kcfg (key_step mode tune False cnt (Inl raw) k)) = raw_max (kcfg k)"
  by (simp_all add: analog_key_step)

lemma travel_cong: "raw_min c = raw_min c' \<Longrightarrow> raw_max c = raw_max c' \<Longrightarrow> he_raw_to_travel c raw = he_raw_to_travel c' raw"
  by (simp add: he_raw_to_travel_def he_travel_product_def)

lemma analog_travel_cong [simp]:
  "he_raw_to_travel (kcfg (key_step mode tune False cnt (Inl raw) k)) raw' = he_raw_to_travel (kcfg k) raw'"
  by (rule travel_cong) simp_all

text \<open>
  A run whose samples all force the same instantaneous state settles the stable state after
  five of them.
\<close>

lemma key_run_settles:
  assumes "\<And>k cnt raw. (cnt, raw) \<in> set ins \<Longrightarrow> raw_min (kcfg k) = raw_min c \<Longrightarrow> raw_max (kcfg k) = raw_max c \<Longrightarrow>
      actuation (kcfg k) = actuation c \<Longrightarrow> release (kcfg k) = release c \<Longrightarrow>
      kphys (key_step mode tune False cnt (Inl raw) k) = v"
    and "kcfg k = c" "unat (debounce c) < 5" "length ins = 5"
  shows "kdeb (key_run mode tune ins k) = v"
proof -
  have run: "(kdeb (key_run mode tune js k), debounce (kcfg (key_run mode tune js k))) = (debounce_step v ^^ length js) (kdeb k, debounce (kcfg k))"
    if "set js \<subseteq> set ins" "raw_min (kcfg k) = raw_min c" "raw_max (kcfg k) = raw_max c"
      "actuation (kcfg k) = actuation c" "release (kcfg k) = release c" for js k
    using that
  proof (induction js arbitrary: k)
    case (Cons j js)
    obtain cnt raw where j: "j = (cnt, raw)" by force
    let ?k = "key_step mode tune False cnt (Inl raw) k"
    have v: "kphys ?k = v" using assms(1) Cons.prems j by auto
    then have "(kdeb ?k, debounce (kcfg ?k)) = debounce_step v (kdeb k, debounce (kcfg k))"
      by (simp add: analog_key_step)
    then show ?case using Cons.IH [of ?k] Cons.prems j by (simp add: funpow_swap1)
  qed simp
  show ?thesis using run [of ins k] debounce_five [of "debounce c" v "kdeb k"] assms(2-4) by (metis fst_conv subset_refl)
qed

text \<open>
  Above the actuation point and the rest band, rapid trigger never lets go: a relative release is
  undone by the next scan, because the travel is still past the actuation point, and one
  disagreeing scan does not pass the debounce.
\<close>

lemma rt_held_above_actuation:
  assumes "kdeb k" "kphys k \<longrightarrow> debounce (kcfg k) = 0" "\<not> kphys k \<longrightarrow> debounce (kcfg k) \<le> 1"
    and "\<forall>(cnt, raw)\<in>set ins. deadzone tune < he_raw_to_travel (kcfg k) raw \<and> actuation (kcfg k) \<le> he_raw_to_travel (kcfg k) raw"
  shows "kdeb (key_run HE_MODE_RAPID_TRIGGER tune ins k)"
  using assms
proof (induction ins arbitrary: k)
  case (Cons j ins)
  obtain cnt raw where j: "j = (cnt, raw)" by force
  let ?k = "key_step HE_MODE_RAPID_TRIGGER tune False cnt (Inl raw) k"
  have t: "deadzone tune < he_raw_to_travel (kcfg k) raw" "actuation (kcfg k) \<le> he_raw_to_travel (kcfg k) raw"
    using Cons.prems(4) j by auto
  have up: "\<not> kphys k \<Longrightarrow> kphys ?k" using t by (simp add: analog_key_step rt_press)
  have "kdeb ?k \<and> (kphys ?k \<longrightarrow> debounce (kcfg ?k) = 0) \<and> (\<not> kphys ?k \<longrightarrow> debounce (kcfg ?k) \<le> 1)"
    using Cons.prems(1,2) up by (auto simp: analog_key_step debounce_step_def hw_defs word_le_nat_alt)
  then show ?case using Cons.IH [of ?k] Cons.prems(4) j by auto
qed simp

end
