(* ===== verification/He_Runs.thy ===== *)
theory He_Runs
  imports He_Keys
begin

text \<open>
  Whole scans over time: the invariants of the configuration and of the RGB strip are kept by every
  scan, the manual calibration between its start and end buttons, and the winner key cancel remembers
  from scan to scan.
\<close>

section \<open>Invariants\<close>

lemma sethsv_at_ok: "rgb_ok (rgblight st) \<Longrightarrow> rgb_ok (rgblight (rgblight_sethsv_at h s v i (st\<lparr>he_cal_latched := l\<rparr>)))"
  by (rule rgb_ok_sethsv_at) simp

lemma scan_sensor_rgb_ok:
  "rgb_ok (rgblight (snd s)) \<Longrightarrow> rgb_ok (rgblight (snd (scan_sensor env i s)))"
  by (cases s) (auto simp: scan_sensor_def scan_push_def scan_analog_def scan_decide_def scan_latch_def
      scan_accumulate_def scan_floor_def debounce_sensor_def Let_def sethsv_at_ok split: prod.split)

lemma sampled_rgb_ok:
  assumes "rgb_ok (rgblight st)"
  shows "rgb_ok (rgblight (snd (sampled env st)))"
proof -
  have "rgb_ok (rgblight (snd s)) \<Longrightarrow> rgb_ok (rgblight (snd (fold (scan_sensor env) is s)))" for "is" and s :: "bool list \<times> ('a, 'b) board_scheme"
    by (induction "is" arbitrary: s) (simp_all add: scan_sensor_rgb_ok)
  from this [of "(replicate HE_SENSOR_COUNT False, st\<lparr>he_scan_count := he_scan_count st + 1\<rparr>)" "[0..<HE_SENSOR_COUNT]"]
  have "rgb_ok (rgblight (snd (scan_sensors env (st\<lparr>he_scan_count := he_scan_count st + 1\<rparr>))))"
    using assms by (simp add: scan_sensors_def)
  then show ?thesis by (auto simp: sampled_def Let_def lock_boot_calibration_def split: prod.split)
qed

lemma next_key_thresholds:
  "actuation (kcfg (next_key volt push st i)) = actuation (he_config st ! i)"
  "release (kcfg (next_key volt push st i)) = release (he_config st ! i)"
  by (simp_all add: next_key_def lock_key_def) (simp_all add: key_at_def)

lemma arrays_ok_he_ok: "he_ok st \<Longrightarrow> arrays_ok st \<and> length (socd_winner st) = 2"
  by (simp add: he_ok_def arrays_ok_def)

context board_wiring
begin

text \<open>
  A scan keeps every setting in range and the strip dim; it does not touch the stored colour, the
  staged values of a pending save aside.
\<close>

lemma scan_before_save:
  assumes scan: "matrix_scan_custom E env m st = (changed, m', st')"
    and ok: "he_ok st" "length m = 5"
  obtains st4 where "st' = he_via_task E env st4" "he_ok st4" "rgblight st4 = rgblight (snd (sampled env st))"
    "scan_frame (st4\<lparr>socd_winner := socd_winner st\<rparr>) = scan_frame st"
proof -
  have ok': "arrays_ok st" "length (socd_winner st) = 2" using arrays_ok_he_ok [OF ok(1)] by simp_all
  obtain w st4 where c: "length w = 2" "w = socd_winner (snd (socd_resolve (fst (sampled env st)) (snd (sampled env st))))"
    "st' = he_via_task E env st4" "st4\<lparr>he_config := []\<rparr> = (snd (sampled env st))\<lparr>he_config := [], socd_winner := w\<rparr>"
    "length (he_config st4) = 69"
    "\<forall>i<69. he_config st4 ! i = (kcfg (next_key volt push st i))\<lparr>pressed := kdeb (next_key volt push st i) \<and> \<not> socd_suppressed st4 i\<rparr>"
    "\<forall>i<69. matrix_bit m' (sensor_pos i) \<longleftrightarrow> kdeb (next_key volt push st i) \<and> \<not> socd_suppressed st4 i"
    "\<forall>r<5. \<forall>c<16. (r, c) \<notin> sensor_pos ` {..<69} \<longrightarrow> bit (m' ! r) c = bit (m ! r) c"
    "changed \<longleftrightarrow> (\<exists>i<69. (kdeb (next_key volt push st i) \<and> \<not> socd_suppressed st4 i) \<noteq> pressed (he_config st ! i))"
    "length m' = 5"
    by (rule scan_committed [OF scan ok' ok(2)])
  note smp = sampled_state [OF ok'(1)]
  have key: "key_ok (he_config st4 ! i)" if "i < 69" for i
    using c(6) that ok(1) by (auto simp: key_ok_def next_key_thresholds he_ok_def hw_defs)
  have "he_ok (st4\<lparr>he_config := []\<rparr>\<lparr>he_config := he_config st4\<rparr>)"
    using key smp(3,5) c(1,5) ok(1) unfolding c(4) by (auto simp: he_ok_def arrays_ok_def hw_defs in_set_conv_nth)
  moreover have "scan_frame (st4\<lparr>socd_winner := socd_winner st\<rparr>) = scan_frame st"
    using smp(8) arg_cong [OF c(4), of "\<lambda>s. scan_frame (s\<lparr>socd_winner := socd_winner st\<rparr>)"] by (simp add: scan_frame_def)
  ultimately show ?thesis using that [OF c(3)] arg_cong [OF c(4), of rgblight] by simp
qed

lemma scan_invariants:
  assumes scan: "matrix_scan_custom E env m st = (changed, m', st')"
    and ok: "he_ok st" "length m = 5"
  shows "he_ok st'" and "rgb_ok (rgblight st) \<Longrightarrow> rgb_ok (rgblight st')"
    and "cfg st' = cfg st" "cal_saved_hsv st' = cal_saved_hsv st"
proof -
  obtain st4 where c: "st' = he_via_task E env st4" "he_ok st4" "rgblight st4 = rgblight (snd (sampled env st))"
    "scan_frame (st4\<lparr>socd_winner := socd_winner st\<rparr>) = scan_frame st"
    by (rule scan_before_save [OF scan ok])
  show "he_ok st'" using c(2) by (simp add: c(1) he_ok_via_task)
  show "rgb_ok (rgblight st) \<Longrightarrow> rgb_ok (rgblight st')" using sampled_rgb_ok [of st env] c(3) by (simp add: c(1))
  show "cfg st' = cfg st" "cal_saved_hsv st' = cal_saved_hsv st" using c(4) by (simp_all add: c(1) scan_frame_def)
qed

text \<open>With no save pending a scan does not touch the EEPROM.\<close>

lemma scan_no_save:
  assumes scan: "matrix_scan_custom E env m st = (changed, m', st')"
    and ok: "he_ok st" "length m = 5" and idle: "\<not> autosave_pending st"
  shows "ee st' = ee st" "\<not> autosave_pending st'"
proof -
  obtain st4 where c: "st' = he_via_task E env st4" "he_ok st4" "rgblight st4 = rgblight (snd (sampled env st))"
    "scan_frame (st4\<lparr>socd_winner := socd_winner st\<rparr>) = scan_frame st"
    by (rule scan_before_save [OF scan ok])
  show "ee st' = ee st" "\<not> autosave_pending st'" using c(4) idle by (simp_all add: c(1) scan_frame_def he_via_task_def)
qed

end

lemma scan_seq_invariants:
  assumes wired: "\<forall>n. board_wiring (envs n) (volt n) (push n)" and ok: "he_ok (snd s)" "length (fst s) = 5"
  shows "he_ok (snd (scan_seq E envs s n)) \<and> length (fst (scan_seq E envs s n)) = 5
    \<and> (rgb_ok (rgblight (snd s)) \<longrightarrow> rgb_ok (rgblight (snd (scan_seq E envs s n))))
    \<and> cfg (snd (scan_seq E envs s n)) = cfg (snd s) \<and> cal_saved_hsv (snd (scan_seq E envs s n)) = cal_saved_hsv (snd s)"
proof (induction n)
  case (Suc n)
  obtain m st where s: "scan_seq E envs s n = (m, st)" by force
  obtain ch m' st' where r: "matrix_scan_custom E (envs n) m st = (ch, m', st')" by (metis prod_cases3)
  have o: "he_ok st" "length m = 5" using Suc.IH by (simp_all add: s)
  have len: "length m' = 5"
    using board_wiring.scan_reports(6) [OF wired [rule_format] r _ _ o(2)] arrays_ok_he_ok [OF o(1)] by blast
  from board_wiring.scan_invariants [OF wired [rule_format] r o] Suc.IH len show ?case by (simp add: s r)
qed (use ok in simp)

section \<open>Key cancel over several scans\<close>

text \<open>What is reported of key \<open>i\<close> after \<open>n\<close> scans, its travel, and the winner of pair \<open>p\<close>.\<close>

definition reported_at where "reported_at E envs s i n = pressed (he_config (snd (scan_seq E envs s n)) ! i)"
definition travel_at where "travel_at E envs s i n = travel (he_config (snd (scan_seq E envs s n)) ! i)"
definition winner_at where "winner_at E envs s p n = socd_winner (snd (scan_seq E envs s n)) ! p"

lemma socd_scan:
  fixes E :: "'e eeprom_driver" and s :: "matrix \<times> ('e, 'z) board_scheme"
  assumes wired: "\<forall>n. board_wiring (envs n) (volt n) (push n)" and ok: "scan_ok s"
    and mode: "he_mode (snd s) = HE_MODE_KEY_CANCEL" and p: "p < 2" "socd_pairs ! p = (ia, ib)"
  defines "held \<equiv> stable_at E envs s" and "won \<equiv> winner_at E envs s p"
  shows "reported_at E envs s ia (Suc n) \<longleftrightarrow> held ia (Suc n) \<and> \<not> (held ib (Suc n) \<and> won (Suc n) = 1)"
    and "reported_at E envs s ib (Suc n) \<longleftrightarrow> held ib (Suc n) \<and> \<not> (held ia (Suc n) \<and> won (Suc n) \<noteq> 1)"
    and "won (Suc n) =
      (let new_a = (held ia (Suc n) \<and> \<not> held ia n); new_b = (held ib (Suc n) \<and> \<not> held ib n) in
       if \<not> held ia (Suc n) \<and> \<not> held ib (Suc n) then 255
       else if new_a \<and> new_b then (if travel_at E envs s ib (Suc n) \<le> travel_at E envs s ia (Suc n) then 0 else 1)
       else if new_a then 0 else if new_b then 1 else won n)"
proof -
  obtain m st ch m' st' where r: "scan_seq E envs s n = (m, st)" "scan_ok (m, st)" "scan_seq E envs s (Suc n) = (m', st')"
    "matrix_scan_custom E (envs n) m st = (ch, m', st')"
    "\<forall>i<69. \<exists>a r p. key_at st' i = rethreshold a r p (next_key (volt n) (push n) st i)"
    by (rule scan_seq_SucE [OF wired ok, of E n])
  have k: "he_mode st = HE_MODE_KEY_CANCEL" using scan_seq_globals(2) [OF wired ok, of E n] mode r(1) by simp
  have o: "arrays_ok st" "length (socd_winner st) = 2" "length m = 5" using r(2) by (simp_all add: scan_ok_def)
  note rep = board_wiring.scan_reports [OF wired [rule_format] r(4) o] and win = board_wiring.scan_winner [OF wired [rule_format] r(4) o k]
  have pair: "p = 0 \<and> ia = 32 \<and> ib = 34 \<or> p = 1 \<and> ia = 46 \<and> ib = 47"
    using p by (auto simp: socd_pairs_def less_Suc_eq numeral_2_eq_2)
  then have i: "ia < 69" "ib < 69" by auto
  have sup: "socd_suppressed st' ia \<longleftrightarrow> he_debounced st' ! ia \<and> he_debounced st' ! ib \<and> socd_winner st' ! p = 1"
    "socd_suppressed st' ib \<longleftrightarrow> he_debounced st' ! ia \<and> he_debounced st' ! ib \<and> socd_winner st' ! p \<noteq> 1"
    using pair win(1) by (auto simp: socd_suppressed_def)
  have held: "held j (Suc n) = he_debounced st' ! j" "held j n = he_debounced st ! j"
    "reported_at E envs s j (Suc n) = pressed (he_config st' ! j)" "won (Suc n) = socd_winner st' ! p" "won n = socd_winner st ! p"
    "travel_at E envs s j (Suc n) = travel (he_config st' ! j)" for j
    using r(1,3) by (simp_all add: held_def won_def stable_at_def reported_at_def winner_at_def travel_at_def del: scan_seq.simps)
  show "reported_at E envs s ia (Suc n) \<longleftrightarrow> held ia (Suc n) \<and> \<not> (held ib (Suc n) \<and> won (Suc n) = 1)"
    "reported_at E envs s ib (Suc n) \<longleftrightarrow> held ib (Suc n) \<and> \<not> (held ia (Suc n) \<and> won (Suc n) \<noteq> 1)"
    using sup rep(2) [OF i(1)] rep(2) [OF i(2)] by (auto simp: held)
  have t: "travel (he_config st' ! j) = travel (kcfg (next_key (volt n) (push n) st j))" if j: "j < 69" for j
  proof -
    obtain a rl q where "key_at st' j = rethreshold a rl q (next_key (volt n) (push n) st j)" using r(5) j by blast
    from arg_cong [OF this, of "\<lambda>k. travel (kcfg k)"] show ?thesis by (simp add: key_at_def)
  qed
  have w: "socd_winner st' ! p = socd_rule (socd_winner st ! p) (key_at st ia) (next_key (volt n) (push n) st ia) (key_at st ib) (next_key (volt n) (push n) st ib)"
    using pair by (elim disjE) (simp_all add: win(2))
  show "won (Suc n) =
      (let new_a = (held ia (Suc n) \<and> \<not> held ia n); new_b = (held ib (Suc n) \<and> \<not> held ib n) in
       if \<not> held ia (Suc n) \<and> \<not> held ib (Suc n) then 255
       else if new_a \<and> new_b then (if travel_at E envs s ib (Suc n) \<le> travel_at E envs s ia (Suc n) then 0 else 1)
       else if new_a then 0 else if new_b then 1 else won n)"
    using rep(1) [OF i(1)] rep(1) [OF i(2)] by (simp add: held w socd_rule_def Let_def t [OF i(1)] t [OF i(2)]) (simp add: key_at_def)
qed

text \<open>While both keys of a pair stay held, the winner stays.\<close>

lemma socd_winner_stays:
  fixes E :: "'e eeprom_driver" and s :: "matrix \<times> ('e, 'z) board_scheme"
  assumes wired: "\<forall>n. board_wiring (envs n) (volt n) (push n)" and ok: "scan_ok s"
    and mode: "he_mode (snd s) = HE_MODE_KEY_CANCEL" and p: "p < 2" "socd_pairs ! p = (ia, ib)"
    and both: "\<forall>j\<in>{n..m}. stable_at E envs s ia j \<and> stable_at E envs s ib j" and j: "j \<in> {n..m}"
  shows "winner_at E envs s p j = winner_at E envs s p n"
proof -
  have "n + k \<le> m \<Longrightarrow> winner_at E envs s p (n + k) = winner_at E envs s p n" for k
  proof (induction k)
    case (Suc k)
    then have "stable_at E envs s ia (n + k)" "stable_at E envs s ib (n + k)" "stable_at E envs s ia (Suc (n + k))" "stable_at E envs s ib (Suc (n + k))"
      using both by simp_all
    then show ?case using socd_scan(3) [OF wired ok mode p, of E "n + k"] Suc by simp
  qed simp
  from this [of "j - n"] show ?thesis using j by simp
qed

section \<open>The manual calibration\<close>

lemma next_key_calibrating:
  fixes volt :: "nat \<Rightarrow> nat \<Rightarrow> u16"
  assumes "i < 68" "he_calibrating st" "he_scan_count st + 1 \<noteq> 64"
  defines "raw \<equiv> volt (sensor_mux (he_sensors ! i)) (sensor_addr (he_sensors ! i))"
  shows "raw_min (kcfg (next_key volt push st i)) = min raw (raw_min (he_config st ! i))"
    and "raw_max (kcfg (next_key volt push st i)) = max raw (raw_max (he_config st ! i))"
  using assms
  by (simp_all add: next_key_def key_step_def key_input_def debounce_key_sel analog_step_sel lock_key_def cal_track_def hw_defs)
    (simp_all add: key_at_def)

lemma count_no_boot: "64 \<le> unat (c :: u32) \<Longrightarrow> unat c + n < 2 ^ 32 \<Longrightarrow> c + of_nat n + 1 \<noteq> (64 :: u32)"
proof
  assume h: "64 \<le> unat c" "unat c + n < 2 ^ 32" "c + of_nat n + 1 = 64"
  have "unat (c + of_nat n + 1) = (unat c + n + 1) mod 2 ^ 32"
    by (simp add: unat_word_ariths unat_of_nat mod_simps)
  then have "(unat c + n + 1) mod 2 ^ 32 = 64" using h(3) by simp
  then show False using h(1,2) by (cases "unat c + n + 1 = 2 ^ 32") auto
qed

lemma calibration_extremes:
  fixes E :: "'e eeprom_driver" and s :: "matrix \<times> ('e, 'z) board_scheme"
  assumes wired: "\<forall>n. board_wiring (envs n) (volt n) (push n)" and ok: "scan_ok s" and i: "i < 68"
    and cal: "he_calibrating (snd s)" "raw_min (he_config (snd s) ! i) = HE_ADC_RAW_MAX" "raw_max (he_config (snd s) ! i) = 0"
    and cnt: "64 \<le> unat (he_scan_count (snd s))" "unat (he_scan_count (snd s)) + n < 2 ^ 32"
  shows "raw_min (he_config (snd (scan_seq E envs s n)) ! i) = Min (insert HE_ADC_RAW_MAX (sample volt i ` {..<n}))
    \<and> raw_max (he_config (snd (scan_seq E envs s n)) ! i) = Max (insert 0 (sample volt i ` {..<n}))"
  using cnt(2)
proof (induction n)
  case (Suc n)
  obtain m st m' st' where r: "scan_seq E envs s n = (m, st)" "scan_seq E envs s (Suc n) = (m', st')"
    "\<forall>i<69. \<exists>a r p. key_at st' i = rethreshold a r p (next_key (volt n) (push n) st i)"
    by (rule scan_seq_SucE [OF wired ok, of E n])
  have g: "he_scan_count st + 1 \<noteq> 64" "he_calibrating st"
    using scan_seq_globals(1,4) [OF wired ok, of E n] count_no_boot [OF cnt(1), of n] Suc.prems cal(1) by (simp_all add: r(1))
  obtain a rl p where "key_at st' i = rethreshold a rl p (next_key (volt n) (push n) st i)"
    using r(3) [rule_format, of i] i by auto
  then have "raw_min (kcfg (key_at st' i)) = raw_min (kcfg (next_key (volt n) (push n) st i))"
    "raw_max (kcfg (key_at st' i)) = raw_max (kcfg (next_key (volt n) (push n) st i))" by simp_all
  then have step: "raw_min (he_config st' ! i) = min (sample volt i n) (raw_min (he_config st ! i))"
    "raw_max (he_config st' ! i) = max (sample volt i n) (raw_max (he_config st ! i))"
    unfolding next_key_calibrating [OF i g(2,1)] by (simp_all add: key_at_def sample_def)
  have ins: "insert z (sample volt i ` {..<Suc n}) = insert (sample volt i n) (insert z (sample volt i ` {..<n}))" for z
    by (auto simp: lessThan_Suc)
  show ?case using step Suc by (simp only: r(1,2) snd_conv ins) simp
qed (use cal in simp)

end
