(* ===== verification/Eeconfig.thy ===== *)
theory Eeconfig
  imports Dynamic_Keymap He_Runs
begin

text \<open>
  The quantum layer's EEPROM management, \<^verbatim>\<open>quantum/eeconfig.c\<close> and the EEPROM part of \<^verbatim>\<open>quantum/via.c\<close>:
  the magic numbers that say whether the EEPROM is formatted for this build, the format itself
  (\<^verbatim>\<open>eeconfig_init\<close>), and the keyboard's hooks \<^verbatim>\<open>keyboard_pre_init_kb\<close>, \<^verbatim>\<open>eeconfig_init_kb\<close> and
  \<^verbatim>\<open>keyboard_post_init_kb\<close> of \<^verbatim>\<open>he_matrix.c\<close>.

  \<open>fw\<close> extends the keyboard's state by the quantum layer's globals. The keymap in flash and the
  build date are link-time constants: the arguments \<open>K\<close> and \<open>date\<close>.
\<close>

section \<open>Model\<close>

record 'e fw = "'e board" +
  default_layer_state :: layer_state_t
  layer_state :: layer_state_t
  debug_config :: u8
  keymap_config :: u16
  raw_matrix :: matrix
  cooked_matrix :: matrix
  debouncing :: bool
  debouncing_time :: u32
  matrix_previous :: matrix

text \<open>Three bytes of BCD from the build date string, e.g. \<^verbatim>\<open>"2019-11-05-11:29:54"\<close>.\<close>

definition build_magic :: "bytes \<Rightarrow> u8 \<times> u8 \<times> u8" where
  "build_magic date = (let bcd = (\<lambda>i. push_bit 4 (date ! i AND 0x0F) OR (date ! (i + 1) AND 0x0F)) in (bcd 2, bcd 5, bcd 8))"

definition via_eeprom_is_valid :: "'e eeprom_driver \<Rightarrow> bytes \<Rightarrow> 'e \<Rightarrow> bool" where
  "via_eeprom_is_valid E date e \<longleftrightarrow>
     (let (magic0, magic1, magic2) = build_magic date; (ee_magic0, ee_magic1, ee_magic2) = nvm_via_read_magic E e in
      ee_magic0 = magic0 \<and> ee_magic1 = magic1 \<and> ee_magic2 = magic2)"

definition via_eeprom_set_valid :: "'e eeprom_driver \<Rightarrow> bytes \<Rightarrow> bool \<Rightarrow> 'e \<Rightarrow> 'e" where
  "via_eeprom_set_valid E date valid e =
     (if valid then (let (magic0, magic1, magic2) = build_magic date in nvm_via_update_magic E magic0 magic1 magic2 e)
      else nvm_via_update_magic E 0xFF 0xFF 0xFF e)"

definition VIA_EEPROM_LAYOUT_OPTIONS_DEFAULT :: u32 where [hw_defs]: "VIA_EEPROM_LAYOUT_OPTIONS_DEFAULT = 0"

definition via_get_layout_options :: "'e eeprom_driver \<Rightarrow> 'e \<Rightarrow> u32" where
  "via_get_layout_options E e = nvm_via_read_layout_options E e"

definition via_set_layout_options :: "'e eeprom_driver \<Rightarrow> u32 \<Rightarrow> 'e \<Rightarrow> 'e" where
  "via_set_layout_options E val e = nvm_via_update_layout_options E val e"

text \<open>\<^verbatim>\<open>nvm_via_erase\<close> does nothing on an EEPROM.\<close>

definition eeconfig_init_via :: "'e eeprom_driver \<Rightarrow> flash_keymap \<Rightarrow> bytes \<Rightarrow> 'e \<Rightarrow> 'e" where
  "eeconfig_init_via E K date e =
     via_eeprom_set_valid E date True
       (dynamic_keymap_macro_reset E
         (dynamic_keymap_reset E K
           (via_set_layout_options E VIA_EEPROM_LAYOUT_OPTIONS_DEFAULT
             (via_eeprom_set_valid E date False e))))"

definition via_init :: "'e eeprom_driver \<Rightarrow> flash_keymap \<Rightarrow> bytes \<Rightarrow> 'e \<Rightarrow> 'e" where
  "via_init E K date e = (if \<not> via_eeprom_is_valid E date e then eeconfig_init_via E K date e else e)"

definition eeconfig_is_enabled :: "'e eeprom_driver \<Rightarrow> bytes \<Rightarrow> 'e \<Rightarrow> bool" where
  "eeconfig_is_enabled E date e \<longleftrightarrow> nvm_eeconfig_is_enabled E e \<and> via_eeprom_is_valid E date e"

definition eeconfig_is_disabled :: "'e eeprom_driver \<Rightarrow> bytes \<Rightarrow> 'e \<Rightarrow> bool" where
  "eeconfig_is_disabled E date e \<longleftrightarrow> nvm_eeconfig_is_disabled E e \<or> \<not> via_eeprom_is_valid E date e"

definition eeconfig_init_user :: "'e eeprom_driver \<Rightarrow> ('e, 'z) board_scheme \<Rightarrow> ('e, 'z) board_scheme" where
  "eeconfig_init_user E st = st\<lparr>ee := nvm_eeconfig_update_user E 0 (ee st)\<rparr>"

definition eeconfig_init_kb :: "'e eeprom_driver \<Rightarrow> ('e, 'z) board_scheme \<Rightarrow> ('e, 'z) board_scheme" where
  "eeconfig_init_kb E st = eeconfig_init_user E (he_save_to_eeprom E st)"

text \<open>The keymap options word: \<^verbatim>\<open>oneshot_enable\<close> is bit 10, \<^verbatim>\<open>autocorrect_enable\<close> bit 12.\<close>

definition keymap_config_default :: u16 where
  "keymap_config_default = push_bit 10 1 OR push_bit 12 1"

definition eeconfig_init_core :: "'e eeprom_driver \<Rightarrow> ('e, 'z) fw_scheme \<Rightarrow> ('e, 'z) fw_scheme" where
  "eeconfig_init_core E st =
     (let st1 = st\<lparr>ee := nvm_eeconfig_erase E (ee st)\<rparr>;
          st2 = st1\<lparr>ee := nvm_eeconfig_enable E (ee st1)\<rparr>;
          st3 = st2\<lparr>ee := nvm_eeconfig_update_debug E 0 (ee st2)\<rparr>;
          st4 = st3\<lparr>default_layer_state := push_bit 0 1\<rparr>;
          st5 = st4\<lparr>ee := nvm_eeconfig_update_default_layer E (default_layer_state st4) (ee st4)\<rparr>;
          st6 = st5\<lparr>ee := nvm_eeconfig_update_keymap E keymap_config_default (ee st5)\<rparr>;
          st7 = eeconfig_update_rgblight_default E st6 in
      st7\<lparr>ee := nvm_eeconfig_init_kb_datablock E (ee st7)\<rparr>)"

definition eeconfig_init_quantum ::
  "'e eeprom_driver \<Rightarrow> flash_keymap \<Rightarrow> bytes \<Rightarrow> ('e, 'z) fw_scheme \<Rightarrow> ('e, 'z) fw_scheme" where
  "eeconfig_init_quantum E K date st =
     (let st8 = eeconfig_init_core E st;
          st9 = st8\<lparr>ee := eeconfig_init_via E K date (ee st8)\<rparr> in
      eeconfig_init_kb E st9)"

definition eeconfig_init :: "'e eeprom_driver \<Rightarrow> flash_keymap \<Rightarrow> bytes \<Rightarrow> ('e, 'z) fw_scheme \<Rightarrow> ('e, 'z) fw_scheme" where
  "eeconfig_init E K date st = eeconfig_init_quantum E K date st"

definition keyboard_pre_init_kb :: "'e eeprom_driver \<Rightarrow> flash_keymap \<Rightarrow> bytes \<Rightarrow> ('e, 'z) fw_scheme \<Rightarrow> ('e, 'z) fw_scheme" where
  "keyboard_pre_init_kb E K date st =
     (if \<not> eeconfig_is_enabled E date (ee st) then eeconfig_init E K date (he_config_set_defaults st) else st)"

definition keyboard_post_init_kb ::
  "'e eeprom_driver \<Rightarrow> bytes \<Rightarrow> bytes \<Rightarrow> ('e, 'z) board_scheme \<Rightarrow> ('e, 'z) board_scheme" where
  "keyboard_post_init_kb E stk stk2 st = he_load_from_eeprom E stk stk2 st"

definition bootmagic_should_reset :: bool where
  "bootmagic_should_reset = False"

section \<open>Formatting VIA's part\<close>

lemma slice_take: "a + n \<le> k \<Longrightarrow> slice a n (take k v) = slice a n v"
  by (simp add: slice_def drop_take min_def)

lemma take_cong_slice: "take k v = take k v' \<Longrightarrow> a + n \<le> k \<Longrightarrow> slice a n v = slice a n v'"
  by (metis slice_take)

lemma take_blit: "a + length bs \<le> length v \<Longrightarrow> k \<le> a \<Longrightarrow> take k (blit a bs v) = take k v"
  by (simp add: blit_def min_def)

lemma drop_blit: "a + length bs \<le> length v \<Longrightarrow> a + length bs \<le> k \<Longrightarrow> drop k (blit a bs v) = drop k v"
  by (auto intro!: nth_equalityI simp: nth_blit)

context board_eeprom
begin

lemma slot_set_take:
  assumes "inv e" "slot_valid k"
  shows "inv (slot_set E k x e) \<and> take 183 (view (slot_set E k x e)) = take 183 (view e)
    \<and> drop 839 (view (slot_set E k x e)) = drop 839 (view e)"
proof -
  have a: "183 \<le> slot_address k" "slot_address k + 2 \<le> 839"
    using slot_address_range [OF assms(2)] by (simp_all add: hw_defs)
  then have "view (slot_set E k x e) = blit (slot_address k) [ucast (drop_bit 8 x), ucast (x AND 0xFF)] (view e)"
    using update_be16_view [OF assms(1), of "slot_address k" x] by (simp add: slot_set_valid assms(2))
  moreover have "inv (slot_set E k x e)" using slots.ok_wr [OF assms] .
  ultimately show ?thesis using a assms(1) by (simp add: take_blit drop_blit)
qed

lemma keymap_reset_frame:
  assumes "inv e"
  shows "take 183 (view (dynamic_keymap_reset E K e)) = take 183 (view e)"
    and "drop 839 (view (dynamic_keymap_reset E K e)) = drop 839 (view e)"
proof -
  have "inv e \<Longrightarrow> \<forall>k\<in>set ks. slot_valid k \<Longrightarrow>
    take 183 (view (fold (\<lambda>k. slot_set E k (slot_raw K k)) ks e)) = take 183 (view e)
    \<and> drop 839 (view (fold (\<lambda>k. slot_set E k (slot_raw K k)) ks e)) = drop 839 (view e)" for ks e
  proof (induction ks arbitrary: e)
    case (Cons k ks)
    then show ?case using slot_set_take [of e k "slot_raw K k"] by simp
  qed simp
  from this [OF assms, of reset_slots] show "take 183 (view (dynamic_keymap_reset E K e)) = take 183 (view e)"
    "drop 839 (view (dynamic_keymap_reset E K e)) = drop 839 (view e)"
    by (simp_all add: dynamic_keymap_reset_fold reset_slots_all)
qed

lemma update_magic_view:
  assumes "inv e"
  shows "inv (nvm_via_update_magic E a b c e)" "view (nvm_via_update_magic E a b c e) = blit 179 [a, b, c] (view e)"
proof -
  show "inv (nvm_via_update_magic E a b c e)" using assms by (simp add: nvm_via_update_magic_def hw_defs)
  have "view (nvm_via_update_magic E a b c e) = (view e)[179 := a, 180 := b, 181 := c]"
    using assms by (simp add: nvm_via_update_magic_def hw_defs view_updates)
  also have "\<dots> = blit 179 [a, b, c] (view e)"
    using assms by (auto intro!: nth_equalityI simp: nth_blit nth_list_update nth_Cons')
  finally show "view (nvm_via_update_magic E a b c e) = blit 179 [a, b, c] (view e)" .
qed

lemma via_valid_view:
  "inv e \<Longrightarrow> via_eeprom_is_valid E date e \<longleftrightarrow> build_magic date = (view e ! 179, view e ! 180, view e ! 181)"
  by (auto simp: via_eeprom_is_valid_def nvm_via_read_magic_def read_byte_view hw_defs Let_def split: prod.splits)

lemma layout_options_view:
  assumes "inv e"
  shows "inv (via_set_layout_options E v e)" "view (via_set_layout_options E v e) = (view e)[182 := ucast (v AND 0xFF)]"
  using assms by (simp_all add: via_set_layout_options_def nvm_via_update_layout_options_def for_range_def hw_defs view_updates)

text \<open>Slots only read the keymap region, so two images that agree there have the same keymap.\<close>

lemma slot_get_cong:
  assumes "inv e" "inv e'" "slot_valid k" "slice 183 656 (view e) = slice 183 656 (view e')"
  shows "slot_get E k e = slot_get E k e'"
proof -
  have a: "183 \<le> slot_address k" "slot_address k + 2 \<le> 839"
    using slot_address_range [OF assms(3)] by (simp_all add: hw_defs)
  have "view e ! j = view e' ! j" if "183 \<le> j" "j < 839" for j
    using arg_cong [OF assms(4), of "\<lambda>xs. xs ! (j - 183)"] that assms(1,2) by simp
  then show ?thesis using a assms by (simp add: slot_get_valid read_be16_view)
qed

lemma init_via_view:
  assumes "inv e"
  shows "inv (eeconfig_init_via E K date e)"
    and "take 179 (view (eeconfig_init_via E K date e)) = take 179 (view e)"
    and "via_eeprom_is_valid E date (eeconfig_init_via E K date e)"
    and "slot_valid k \<Longrightarrow> slot_get E k (eeconfig_init_via E K date e) = slot_raw K k"
    and "drop 839 (view (eeconfig_init_via E K date e)) = replicate 7353 0"
proof -
  define e1 where "e1 = nvm_via_update_magic E 0xFF 0xFF 0xFF e"
  define e2 where "e2 = via_set_layout_options E VIA_EEPROM_LAYOUT_OPTIONS_DEFAULT e1"
  define e3 where "e3 = dynamic_keymap_reset E K e2"
  define e4 where "e4 = dynamic_keymap_macro_reset E e3"
  obtain a b c where m: "build_magic date = (a, b, c)" by (metis prod_cases3)
  define e5 where "e5 = nvm_via_update_magic E a b c e4"
  have e5: "eeconfig_init_via E K date e = e5"
    by (simp add: eeconfig_init_via_def via_eeprom_set_valid_def m e1_def e2_def e3_def e4_def e5_def)
  have i: "inv e1" "inv e2" "inv e3" using update_magic_view(1) [OF assms] layout_options_view(1) keymap_reset(1)
    by (simp_all add: e1_def e2_def e3_def)
  have e4: "inv e4" "view e4 = blit 839 (replicate 7353 0) (view e3)"
    using zero_region_view [OF i(3), of 839 7353]
    by (simp_all add: e4_def dynamic_keymap_macro_reset_def nvm_dynamic_keymap_macro_reset_def hw_defs)
  have v5: "inv e5" "view e5 = blit 179 [a, b, c] (view e4)" using update_magic_view [OF e4(1)] by (simp_all add: e5_def)
  show "inv (eeconfig_init_via E K date e)" by (simp add: e5 v5)
  show "via_eeprom_is_valid E date (eeconfig_init_via E K date e)"
    using v5 e4(1) by (simp add: e5 via_valid_view m nth_blit)
  have t1: "take 179 (view e1) = take 179 (view e)" using assms update_magic_view(2) [OF assms] by (simp add: e1_def take_blit)
  have t2: "take 179 (view e2) = take 179 (view e1)" using layout_options_view(2) [OF i(1)] by (simp add: e2_def)
  have t3: "take 179 (view e3) = take 179 (view e2)"
    using arg_cong [OF keymap_reset_frame(1) [OF i(2), of K], of "take 179"] by (simp add: e3_def min_def)
  show "take 179 (view (eeconfig_init_via E K date e)) = take 179 (view e)"
    using t1 t2 t3 v5 e4 i by (simp add: e5 take_blit)
  show "drop 839 (view (eeconfig_init_via E K date e)) = replicate 7353 0"
    using v5 e4 i(3) by (simp add: e5) (simp add: blit_def)
  show "slot_get E k (eeconfig_init_via E K date e) = slot_raw K k" if "slot_valid k"
  proof -
    have "slice 183 656 (view e5) = slice 183 656 (view e3)"
      using v5 e4 i(3) by (simp add: slice_blit_disjoint)
    then show ?thesis using slot_get_cong [OF v5(1) i(3) that] keymap_reset(2) [OF i(2) that] by (simp add: e5 e3_def)
  qed
qed

end

section \<open>Formatting the whole EEPROM\<close>

lemma save_fields [simp]:
  "he_config (he_save_to_eeprom E st) = he_config st" "he_mode (he_save_to_eeprom E st) = he_mode st"
  "he_tuning (he_save_to_eeprom E st) = he_tuning st" "rgblight (he_save_to_eeprom E st) = rgblight st"
  by (simp_all add: he_save_to_eeprom_def he_save_settings_to_eeprom_def)

context board_eeprom
begin

lemma update_kb_datablock_frame:
  assumes "inv e" "offset + length data \<le> EECONFIG_KB_DATA_SIZE"
    and "a + n \<le> 15 \<or> 19 \<le> a \<and> a + n \<le> 37 \<or> 179 \<le> a" "a + n \<le> 8192"
  shows "slice a n (view (nvm_eeconfig_update_kb_datablock E data offset e)) = slice a n (view e)"
  unfolding update_kb_datablock_view(2) [OF assms(1,2)]
  using assms by (auto simp: slice_blit_disjoint hw_defs)

lemma save_frame:
  assumes "inv (ee st)" "he_ok st" "a + n \<le> 15 \<or> 19 \<le> a \<and> a + n \<le> 37 \<or> 179 \<le> a" "a + n \<le> 8192"
  shows "slice a n (view (ee (he_save_to_eeprom E st))) = slice a n (view (ee st))"
proof -
  let ?r = "he_records (he_config st)"
  let ?e1 = "nvm_eeconfig_update_kb_datablock E ?r 0 (ee st)"
  have len: "length (he_config st) = 69" using assms by (simp add: he_ok_def hw_defs)
  have "ee (he_save_to_eeprom E st) = nvm_eeconfig_update_kb_datablock E (he_settings st) 138 ?e1"
    using len by (simp add: he_save_to_eeprom_def he_save_settings_to_eeprom_def he_settings_def hw_defs)
  moreover have "inv ?e1" using update_kb_datablock_view(1) [of "ee st" 0 ?r] assms(1) len by (simp add: hw_defs)
  moreover have "length (he_settings st) = 4" by (simp add: he_settings_def)
  ultimately show ?thesis
    using assms(1,3,4) len by (simp add: update_kb_datablock_frame hw_defs)
qed

end

text \<open>
  The EEPROM before VIA's part is formatted: the core bytes are the defaults, the data block is
  stamped and empty.
\<close>

definition core_image :: "bytes" where
  "core_image = blit 37 (replicate 142 0) (blit 15 (le32 3)
     ((blit 8 (le32 (ucast (rgblight_raw rgblight_default_config AND 0xFFFFFFFF))) (blit 4 (le16 keymap_config_default)
       ((blit 0 (le16 0xFEE3) (replicate 8192 0))[2 := 0, 3 := 1])))[35 := ucast (drop_bit 32 (rgblight_raw rgblight_default_config) AND 0xFF)]))"

lemma core_image_slices:
  "length core_image = 8192" "slice 0 2 core_image = le16 0xFEE3" "core_image ! 2 = 0" "core_image ! 3 = 1"
  "slice 4 2 core_image = le16 keymap_config_default"
  "slice 8 4 core_image = le32 (ucast (rgblight_raw rgblight_default_config AND 0xFFFFFFFF))"
  "slice 35 1 core_image = [ucast (drop_bit 32 (rgblight_raw rgblight_default_config) AND 0xFF)]"
  by (simp_all add: core_image_def slice_blit_disjoint nth_blit flip: blit_singleton)

context board_eeprom
begin

lemma init_core_view:
  assumes "inv (ee st)"
  shows "inv (ee (eeconfig_init_core E st))" "view (ee (eeconfig_init_core E st)) = core_image"
proof -
  define e1 where "e1 = nvm_eeconfig_erase E (ee st)"
  define e6 where "e6 = nvm_eeconfig_update_keymap E keymap_config_default (nvm_eeconfig_update_default_layer E 1
      (nvm_eeconfig_update_debug E 0 (nvm_eeconfig_enable E e1)))"
  define e7 where "e7 = nvm_eeconfig_update_rgblight E (rgblight_raw rgblight_default_config) e6"
  have ee: "ee (eeconfig_init_core E st) = nvm_eeconfig_init_kb_datablock E e7"
    by (simp add: eeconfig_init_core_def Let_def eeconfig_update_rgblight_default_def eeconfig_update_rgblight_def
        e1_def e6_def e7_def set_cfg_def map_rgb_def)
  have e1: "inv e1" "view e1 = replicate 8192 0" using assms by (simp_all add: e1_def nvm_eeconfig_erase_def format_view)
  have e6: "inv e6" "view e6 = blit 4 (le16 keymap_config_default) ((blit 0 (le16 0xFEE3) (replicate 8192 0))[2 := 0, 3 := 1])"
    using e1 by (simp_all add: e6_def nvm_eeconfig_update_keymap_def nvm_eeconfig_update_default_layer_def
        nvm_eeconfig_update_debug_def nvm_eeconfig_enable_def view_updates hw_defs)
  have e7: "inv e7" "view e7 = (blit 8 (le32 (ucast (rgblight_raw rgblight_default_config AND 0xFFFFFFFF))) (view e6))
      [35 := ucast (drop_bit 32 (rgblight_raw rgblight_default_config) AND 0xFF)]"
    using e6(1) by (simp_all add: e7_def nvm_eeconfig_update_rgblight_def view_updates hw_defs)
  show "inv (ee (eeconfig_init_core E st))" unfolding ee by (rule init_kb_datablock_view(1) [OF e7(1)])
  show "view (ee (eeconfig_init_core E st)) = core_image"
    unfolding ee init_kb_datablock_view(2) [OF e7(1)] e7(2) e6(2) core_image_def by (simp add: hw_defs)
qed

end

text \<open>
  What a format leaves behind: an EEPROM that this build recognises, the flash keymap in every slot,
  no macros, the keyboard's current settings in the data block, the default colour and layer.
\<close>

lemma init_quantum_fields:
  "he_ok (eeconfig_init_core E st) = he_ok st" "he_config (eeconfig_init_core E st) = he_config st"
  "he_mode (eeconfig_init_core E st) = he_mode st" "he_tuning (eeconfig_init_core E st) = he_tuning st"
  "cfg (eeconfig_init_core E st) = rgblight_default_config" "default_layer_state (eeconfig_init_core E st) = 1"
  by (simp_all add: eeconfig_init_core_def Let_def eeconfig_update_rgblight_default_def eeconfig_update_rgblight_def
      set_cfg_def map_rgb_def he_ok_def)

context board_eeprom
begin

text \<open>The image after a format, region by region.\<close>

lemma init_quantum_image:
  fixes st :: "('e, 'z) fw_scheme" and K and date
  assumes "inv (ee st)" "he_ok st"
  defines "e \<equiv> ee (eeconfig_init E K date st)" and "e9 \<equiv> eeconfig_init_via E K date (ee (eeconfig_init_core E st))"
  shows "inv e" "inv e9" "a + n \<le> 15 \<or> 23 \<le> a \<and> a + n \<le> 37 \<Longrightarrow> slice a n (view e) = slice a n core_image"
    and "179 \<le> a \<Longrightarrow> a + n \<le> 8192 \<Longrightarrow> slice a n (view e) = slice a n (view e9)"
    and "nvm_eeconfig_is_kb_datablock_valid E e"
    and "slice 37 138 (view e) = he_records (he_config st)" "slice 175 4 (view e) = he_settings st"
proof -
  define st8 where "st8 = eeconfig_init_core E st"
  define st9 where "st9 = st8\<lparr>ee := e9\<rparr>"
  define st10 where "st10 = he_save_to_eeprom E st9"
  have e: "e = nvm_eeconfig_update_user E 0 (ee st10)"
    by (simp add: e_def eeconfig_init_def eeconfig_init_quantum_def eeconfig_init_kb_def eeconfig_init_user_def
        Let_def st8_def st9_def st10_def e9_def)
  note core = init_core_view [OF assms(1), folded st8_def]
  note via = init_via_view [OF core(1), where K = K and date = date, folded e9_def [folded st8_def]]
  have ok9: "inv (ee st9)" "he_ok st9" using via(1) assms(2) by (simp_all add: st9_def st8_def init_quantum_fields)
  note save = save_view [OF ok9, folded st10_def]
  have vw: "view e = blit 19 (le32 0) (view (ee st10))" and inv: "inv e"
    using save(1) by (simp_all add: e nvm_eeconfig_update_user_def view_updates hw_defs)
  show "inv e" "inv e9" by (rule inv, rule via(1))
  show "slice a n (view e) = slice a n (view e9)" if "179 \<le> a" "a + n \<le> 8192"
    using that save(1) save_frame [OF ok9, of a n] by (simp add: vw slice_blit_disjoint st10_def st9_def)
  show "slice a n (view e) = slice a n core_image" if k: "a + n \<le> 15 \<or> 23 \<le> a \<and> a + n \<le> 37"
  proof -
    have "slice a n (view e) = slice a n (view (ee st10))" using k save(1) by (auto simp: vw slice_blit_disjoint)
    also have "\<dots> = slice a n (view e9)" using save_frame [OF ok9, of a n] k by (auto simp: st10_def st9_def)
    also have "\<dots> = slice a n (view (ee st8))" using take_cong_slice [OF via(2), of a n] k by auto
    finally show ?thesis by (simp add: core(2))
  qed
  have "slice 15 4 (view e) = slice 15 4 (view (ee st10))" using save(1) by (simp add: vw slice_blit_disjoint)
  then show "nvm_eeconfig_is_kb_datablock_valid E e"
    using save(1,2) inv by (simp add: kb_datablock_valid_view hw_defs)
  show "slice 37 138 (view e) = he_records (he_config st)" "slice 175 4 (view e) = he_settings st"
    using save by (simp_all add: vw slice_blit_disjoint st9_def st8_def he_settings_def init_quantum_fields)
qed

lemma init_quantum_view:
  fixes st :: "('e, 'z) fw_scheme" and K and date
  assumes "inv (ee st)" "he_ok st"
  defines "e \<equiv> ee (eeconfig_init E K date st)"
  shows "eeconfig_is_enabled E date e" "slot_valid k \<Longrightarrow> slot_get E k e = slot_raw K k"
    and "nvm_eeconfig_read_default_layer E e = 1" "nvm_eeconfig_read_debug E e = 0"
    and "nvm_eeconfig_read_keymap E e = keymap_config_default"
    and "nvm_eeconfig_read_rgblight E e = rgblight_raw rgblight_default_config"
proof -
  define e9 where "e9 = eeconfig_init_via E K date (ee (eeconfig_init_core E st))"
  note img = init_quantum_image [OF assms(1,2), where K = K and date = date, folded e_def e9_def]
  note via = init_via_view [OF init_core_view(1) [OF assms(1)], where K = K and date = date, folded e9_def]
  show "slot_get E k e = slot_raw K k" if "slot_valid k"
    using slot_get_cong [OF img(1,2) that img(4)] via(4) [OF that] by simp
  have magic: "view e ! j = view e9 ! j" if "179 \<le> j" "j < 182" for j
    using arg_cong [OF img(4) [of 179 3], of "\<lambda>xs. xs ! (j - 179)"] that img(1,2) by simp
  have "slice 0 2 (view e) = le16 0xFEE3" using img(3) [of 0 2] core_image_slices by simp
  then show "eeconfig_is_enabled E date e"
    using via(3) magic img(1,2)
    by (simp add: eeconfig_is_enabled_def nvm_eeconfig_is_enabled_def read_word_view hw_defs via_valid_view)
  have byte: "view e ! j = core_image ! j" if "j < 15 \<or> 23 \<le> j \<and> j < 37" for j
    using arg_cong [OF img(3) [of j 1], of "\<lambda>xs. xs ! 0"] that img(1) core_image_slices(1) by auto
  show "nvm_eeconfig_read_default_layer E e = 1" "nvm_eeconfig_read_debug E e = 0"
    using img(1) byte [of 2] byte [of 3] core_image_slices
    by (simp_all add: nvm_eeconfig_read_default_layer_def nvm_eeconfig_read_debug_def read_byte_view hw_defs)
  show "nvm_eeconfig_read_keymap E e = keymap_config_default"
    using img(1) img(3) [of 4 2] core_image_slices by (simp add: nvm_eeconfig_read_keymap_def read_word_view hw_defs)
  have "view e ! 35 = ucast (drop_bit 32 (rgblight_raw rgblight_default_config) AND 0xFF)"
    using byte [of 35] arg_cong [OF core_image_slices(7), of "\<lambda>xs. xs ! 0"] core_image_slices(1) by simp
  then show "nvm_eeconfig_read_rgblight E e = rgblight_raw rgblight_default_config"
    using read_rgblight_image [OF img(1), of "rgblight_raw rgblight_default_config"] img(3) [of 8 4] core_image_slices(6) rgblight_raw_40
    by simp
qed

text \<open>
  First boot: on an EEPROM that is not formatted for this build the keyboard formats it before USB
  comes up, with the default thresholds; afterwards the format is recognised, so the pre-init hook
  and \<^verbatim>\<open>via_init\<close> leave the EEPROM alone.
\<close>

lemma first_boot:
  fixes st :: "('e, 'z) fw_scheme" and K and date
  assumes "inv (ee st)" "\<not> eeconfig_is_enabled E date (ee st)" "he_ok (he_config_set_defaults st)"
    and "length stk = 138" "length stk2 = 4" "ee st0 = ee (keyboard_pre_init_kb E K date st)"
  shows "inv (ee st0)" "eeconfig_is_enabled E date (ee st0)"
    and "he_stored (he_load_from_eeprom E stk stk2 st0)
      = (replicate HE_SENSOR_COUNT (HE_ACTUATION_DEFAULT, HE_RELEASE_DEFAULT), he_mode st, he_tuning st)"
proof -
  let ?d = "he_config_set_defaults st"
  have d: "ee ?d = ee st" by (simp add: he_config_set_defaults_def)
  have e: "ee st0 = ee (eeconfig_init E K date ?d)" using assms(2,6) by (simp add: keyboard_pre_init_kb_def)
  have i: "inv (ee ?d)" using assms(1) d by simp
  note img = init_quantum_image [OF i assms(3), where K = K and date = date, folded e]
  show "inv (ee st0)" by (rule img(1))
  show "eeconfig_is_enabled E date (ee st0)"
    using init_quantum_view(1) [OF i assms(3), where K = K and date = date, folded e] .
  have "he_stored (he_load_from_eeprom E stk stk2 st0) = he_stored ?d"
    using img(1,5,6,7) by (intro load_image assms(3-5))
  then show "he_stored (he_load_from_eeprom E stk stk2 st0)
    = (replicate HE_SENSOR_COUNT (HE_ACTUATION_DEFAULT, HE_RELEASE_DEFAULT), he_mode st, he_tuning st)"
    by (simp add: he_stored_def he_config_set_defaults_def each_config_def he_default_key_def map_replicate_const comp_def)
qed

end

lemma formatted_no_op:
  "eeconfig_is_enabled E date (ee st) \<Longrightarrow> keyboard_pre_init_kb E K date st = st"
  "eeconfig_is_enabled E date e \<Longrightarrow> via_init E K date e = e"
  by (simp_all add: keyboard_pre_init_kb_def via_init_def eeconfig_is_enabled_def)

end
