(* ===== verification/Via.thy ===== *)
theory Via
  imports Eeconfig
begin

text \<open>
  The host's configuration protocol, \<^verbatim>\<open>quantum/via.c\<close>: one raw HID packet in, the same buffer back.
  \<open>data\<close> is the packet; \<^verbatim>\<open>command_data\<close> of the source is the packet from its second byte on, so
  \<^verbatim>\<open>command_data[k]\<close> is \<open>data ! (k + 1)\<close>. A handler that would run past the end of the packet
  gives \<open>None\<close>: the source does not check the length byte of the buffer commands.
\<close>

section \<open>Model\<close>

definition VIA_PROTOCOL_VERSION :: u16 where [hw_defs]: "VIA_PROTOCOL_VERSION = 0x000D"
definition VIA_FIRMWARE_VERSION :: u32 where [hw_defs]: "VIA_FIRMWARE_VERSION = 0"
definition QMK_KEYCODES_VERSION_BCD :: u32 where [hw_defs]: "QMK_KEYCODES_VERSION_BCD = 8"

datatype via_command_id =
    id_get_protocol_version | id_get_keyboard_value | id_set_keyboard_value
  | id_dynamic_keymap_get_keycode | id_dynamic_keymap_set_keycode | id_dynamic_keymap_reset
  | id_custom | id_dynamic_keymap_macro_get_count | id_dynamic_keymap_macro_get_buffer_size
  | id_dynamic_keymap_macro_get_buffer | id_dynamic_keymap_macro_set_buffer | id_dynamic_keymap_macro_reset
  | id_dynamic_keymap_get_layer_count | id_dynamic_keymap_get_buffer | id_dynamic_keymap_set_buffer
  | id_dynamic_keymap_get_encoder | id_dynamic_keymap_set_encoder | id_unknown

text \<open>
  The numbers of the commands this build handles. \<^verbatim>\<open>id_custom_set_value\<close>, \<^verbatim>\<open>id_custom_get_value\<close> and
  \<^verbatim>\<open>id_custom_save\<close> share their case; \<^verbatim>\<open>id_eeprom_reset\<close> is compiled out and \<^verbatim>\<open>id_bootloader_jump\<close>
  has no case.
\<close>

definition via_commands :: "(u8 \<times> via_command_id) list" where
  "via_commands =
     [(0x01, id_get_protocol_version), (0x02, id_get_keyboard_value), (0x03, id_set_keyboard_value),
      (0x04, id_dynamic_keymap_get_keycode), (0x05, id_dynamic_keymap_set_keycode), (0x06, id_dynamic_keymap_reset),
      (id_custom_set_value, id_custom), (id_custom_get_value, id_custom), (id_custom_save, id_custom),
      (0x0C, id_dynamic_keymap_macro_get_count), (0x0D, id_dynamic_keymap_macro_get_buffer_size),
      (0x0E, id_dynamic_keymap_macro_get_buffer), (0x0F, id_dynamic_keymap_macro_set_buffer),
      (0x10, id_dynamic_keymap_macro_reset), (0x11, id_dynamic_keymap_get_layer_count),
      (0x12, id_dynamic_keymap_get_buffer), (0x13, id_dynamic_keymap_set_buffer),
      (0x14, id_dynamic_keymap_get_encoder), (0x15, id_dynamic_keymap_set_encoder)]"

definition via_command :: "u8 \<Rightarrow> via_command_id" where
  "via_command b = (case map_of via_commands b of Some c \<Rightarrow> c | None \<Rightarrow> id_unknown)"

definition id_uptime :: u8 where [hw_defs]: "id_uptime = 1"
definition id_layout_options :: u8 where [hw_defs]: "id_layout_options = 2"
definition id_switch_matrix_state :: u8 where [hw_defs]: "id_switch_matrix_state = 3"
definition id_firmware_version :: u8 where [hw_defs]: "id_firmware_version = 4"
definition id_device_indication :: u8 where [hw_defs]: "id_device_indication = 5"
definition id_keycodes_version :: u8 where [hw_defs]: "id_keycodes_version = 6"

definition id_qmk_rgblight_channel :: u8 where [hw_defs]: "id_qmk_rgblight_channel = 2"
definition id_qmk_rgblight_brightness :: u8 where [hw_defs]: "id_qmk_rgblight_brightness = 1"
definition id_qmk_rgblight_effect :: u8 where [hw_defs]: "id_qmk_rgblight_effect = 2"
definition id_qmk_rgblight_effect_speed :: u8 where [hw_defs]: "id_qmk_rgblight_effect_speed = 3"
definition id_qmk_rgblight_color :: u8 where [hw_defs]: "id_qmk_rgblight_color = 4"

definition QK_MACRO :: u16 where [hw_defs]: "QK_MACRO = 0x7700"
definition QK_MACRO_MAX :: u16 where [hw_defs]: "QK_MACRO_MAX = 0x777F"

subsection \<open>RGB light channel\<close>

definition via_qmk_rgblight_get_value :: "('e, 'z) core_scheme \<Rightarrow> bytes \<Rightarrow> bytes" where
  "via_qmk_rgblight_get_value st data =
     (let value_id = data ! 0 in
      if value_id = id_qmk_rgblight_brightness then
        data[1 := ucast (ucast (rgb_val (cfg st)) * 255 div (ucast RGBLIGHT_LIMIT_VAL :: u16))]
      else if value_id = id_qmk_rgblight_effect then
        data[1 := if rgblight_is_enabled st then rgblight_get_mode st else 0]
      else if value_id = id_qmk_rgblight_effect_speed then data[1 := rgb_speed (cfg st)]
      else if value_id = id_qmk_rgblight_color then data[1 := rgb_hue (cfg st), 2 := rgb_sat (cfg st)]
      else data)"

definition via_qmk_rgblight_set_value :: "'e eeprom_driver \<Rightarrow> bytes \<Rightarrow> ('e, 'z) core_scheme \<Rightarrow> ('e, 'z) core_scheme" where
  "via_qmk_rgblight_set_value E data st =
     (let value_id = data ! 0 in
      if value_id = id_qmk_rgblight_brightness then
        rgblight_sethsv_noeeprom E (rgb_hue (cfg st)) (rgb_sat (cfg st))
          (ucast (ucast (data ! 1) * ucast RGBLIGHT_LIMIT_VAL div (255 :: u16))) st
      else if value_id = id_qmk_rgblight_effect then
        (if data ! 1 = 0 then rgblight_disable_noeeprom st
         else rgblight_mode_noeeprom E (data ! 1) (rgblight_enable_noeeprom E st))
      else if value_id = id_qmk_rgblight_effect_speed then rgblight_set_speed_eeprom_helper E (data ! 1) False st
      else if value_id = id_qmk_rgblight_color then
        rgblight_sethsv_noeeprom E (data ! 1) (data ! 2) (rgb_val (cfg st)) st
      else st)"

definition via_qmk_rgblight_save :: "'e eeprom_driver \<Rightarrow> ('e, 'z) core_scheme \<Rightarrow> ('e, 'z) core_scheme" where
  "via_qmk_rgblight_save E st = eeconfig_update_rgblight_current E st"

definition via_qmk_rgblight_command ::
  "'e eeprom_driver \<Rightarrow> bytes \<Rightarrow> ('e, 'z) core_scheme \<Rightarrow> bytes \<times> ('e, 'z) core_scheme" where
  "via_qmk_rgblight_command E data st =
     (if data ! 0 = id_custom_set_value then (data, via_qmk_rgblight_set_value E (drop 2 data) st)
      else if data ! 0 = id_custom_get_value then (take 2 data @ via_qmk_rgblight_get_value st (drop 2 data), st)
      else if data ! 0 = id_custom_save then (data, via_qmk_rgblight_save E st)
      else (data[0 := id_unhandled], st))"

definition via_custom_value_command ::
  "'e eeprom_driver \<Rightarrow> env \<Rightarrow> bytes \<Rightarrow> ('e, 'z) board_scheme \<Rightarrow> bytes \<times> ('e, 'z) board_scheme" where
  "via_custom_value_command E env data st =
     (if data ! 1 = id_qmk_rgblight_channel then via_qmk_rgblight_command E data st
      else via_custom_value_command_kb E env data st)"

definition via_set_device_indication :: "'e eeprom_driver \<Rightarrow> u8 \<Rightarrow> ('e, 'z) core_scheme \<Rightarrow> ('e, 'z) core_scheme" where
  "via_set_device_indication E val st = rgblight_toggle_noeeprom E st"

subsection \<open>Packets\<close>

definition be32 :: "u32 \<Rightarrow> bytes" where
  "be32 v = [ucast (drop_bit 24 v AND 0xFF), ucast (drop_bit 16 v AND 0xFF), ucast (drop_bit 8 v AND 0xFF), ucast (v AND 0xFF)]"

definition be16 :: "u16 \<Rightarrow> bytes" where
  "be16 v = [ucast (drop_bit 8 v), ucast (v AND 0xFF)]"

definition packet_u16 :: "bytes \<Rightarrow> nat \<Rightarrow> u16" where
  "packet_u16 data i = push_bit 8 (ucast (data ! i)) OR ucast (data ! (i + 1))"

definition packet_u32 :: "bytes \<Rightarrow> nat \<Rightarrow> u32" where
  "packet_u32 data i =
     push_bit 24 (ucast (data ! i)) OR push_bit 16 (ucast (data ! (i + 1)))
       OR push_bit 8 (ucast (data ! (i + 2))) OR ucast (data ! (i + 3))"

text \<open>
  Without \<^verbatim>\<open>VIA_INSECURE\<close> the rows reported to the host are all zero: the packet has room for 14
  rows of two bytes.
\<close>

definition switch_matrix_state :: "u8 \<Rightarrow> bytes" where
  "switch_matrix_state offset =
     concat (map (\<lambda>row. let val = (0 :: u16) in [ucast (drop_bit 8 val AND 0xFF), ucast (val AND 0xFF)])
       [0..<min (28 div ((MATRIX_COLS + 7) div 8)) (MATRIX_ROWS - unat offset)])"

definition via_get_keyboard_value :: "'e eeprom_driver \<Rightarrow> env \<Rightarrow> bytes \<Rightarrow> ('e, 'z) fw_scheme \<Rightarrow> bytes" where
  "via_get_keyboard_value E env data st =
     (if data ! 1 = id_uptime then blit 2 (be32 (timer_ms env)) data
      else if data ! 1 = id_layout_options then blit 2 (be32 (via_get_layout_options E (ee st))) data
      else if data ! 1 = id_switch_matrix_state then blit 3 (switch_matrix_state (data ! 2)) data
      else if data ! 1 = id_firmware_version then blit 2 (be32 VIA_FIRMWARE_VERSION) data
      else if data ! 1 = id_keycodes_version then blit 2 (be32 QMK_KEYCODES_VERSION_BCD) data
      else data[0 := id_unhandled])"

definition via_set_keyboard_value ::
  "'e eeprom_driver \<Rightarrow> bytes \<Rightarrow> ('e, 'z) fw_scheme \<Rightarrow> bytes \<times> ('e, 'z) fw_scheme" where
  "via_set_keyboard_value E data st =
     (if data ! 1 = id_layout_options then (data, st\<lparr>ee := via_set_layout_options E (packet_u32 data 2) (ee st)\<rparr>)
      else if data ! 1 = id_device_indication then (data, via_set_device_indication E (data ! 2) st)
      else (data[0 := id_unhandled], st))"

definition raw_hid_receive ::
  "'e eeprom_driver \<Rightarrow> flash_keymap \<Rightarrow> env \<Rightarrow> bytes \<Rightarrow> ('e, 'z) fw_scheme \<Rightarrow> (bytes \<times> ('e, 'z) fw_scheme) option" where
  "raw_hid_receive E K env data st =
     (let d = (\<lambda>k. unat (data ! (k + 1)));
          offset = unat (packet_u16 data 1);
          buf_size = d 2;
          in_packet = 4 + buf_size \<le> length data in
      case via_command (data ! 0) of
        id_get_protocol_version \<Rightarrow> Some (blit 1 (be16 VIA_PROTOCOL_VERSION) data, st)
      | id_get_keyboard_value \<Rightarrow> Some (via_get_keyboard_value E env data st, st)
      | id_set_keyboard_value \<Rightarrow> Some (via_set_keyboard_value E data st)
      | id_dynamic_keymap_get_keycode \<Rightarrow>
          Some (blit 4 (be16 (dynamic_keymap_get_keycode E (d 0) (d 1) (d 2) (ee st))) data, st)
      | id_dynamic_keymap_set_keycode \<Rightarrow>
          Some (data, st\<lparr>ee := dynamic_keymap_set_keycode E (d 0) (d 1) (d 2) (packet_u16 data 4) (ee st)\<rparr>)
      | id_dynamic_keymap_reset \<Rightarrow> Some (data, st\<lparr>ee := dynamic_keymap_reset E K (ee st)\<rparr>)
      | id_custom \<Rightarrow> Some (via_custom_value_command E env data st)
      | id_dynamic_keymap_macro_get_count \<Rightarrow> Some (data[1 := dynamic_keymap_macro_get_count], st)
      | id_dynamic_keymap_macro_get_buffer_size \<Rightarrow> Some (blit 1 (be16 dynamic_keymap_macro_get_buffer_size) data, st)
      | id_dynamic_keymap_macro_get_buffer \<Rightarrow>
          (if in_packet then Some (blit 4 (dynamic_keymap_macro_get_buffer E offset buf_size (ee st)) data, st) else None)
      | id_dynamic_keymap_macro_set_buffer \<Rightarrow>
          (if in_packet then Some (data, st\<lparr>ee := dynamic_keymap_macro_set_buffer E offset (slice 4 buf_size data) (ee st)\<rparr>)
           else None)
      | id_dynamic_keymap_macro_reset \<Rightarrow> Some (data, st\<lparr>ee := dynamic_keymap_macro_reset E (ee st)\<rparr>)
      | id_dynamic_keymap_get_layer_count \<Rightarrow> Some (data[1 := dynamic_keymap_get_layer_count], st)
      | id_dynamic_keymap_get_buffer \<Rightarrow>
          (if in_packet then Some (blit 4 (dynamic_keymap_get_buffer E offset buf_size (ee st)) data, st) else None)
      | id_dynamic_keymap_set_buffer \<Rightarrow>
          (if in_packet then Some (data, st\<lparr>ee := dynamic_keymap_set_buffer E offset (slice 4 buf_size data) (ee st)\<rparr>)
           else None)
      | id_dynamic_keymap_get_encoder \<Rightarrow>
          Some (blit 4 (be16 (dynamic_keymap_get_encoder E (d 0) (d 1) (data ! 3 \<noteq> 0) (ee st))) data, st)
      | id_dynamic_keymap_set_encoder \<Rightarrow>
          Some (data, st\<lparr>ee := dynamic_keymap_set_encoder E (d 0) (d 1) (data ! 3 \<noteq> 0) (packet_u16 data 4) (ee st)\<rparr>)
      | id_unknown \<Rightarrow> Some (data[0 := id_unhandled], st))"

text \<open>Macro keycodes: the offset the macro is played from, and whether processing goes on.\<close>

definition process_record_via :: "'e eeprom_driver \<Rightarrow> u16 \<Rightarrow> bool \<Rightarrow> 'e \<Rightarrow> bool \<times> nat option" where
  "process_record_via E keycode event_pressed e =
     (if event_pressed \<and> QK_MACRO \<le> keycode \<and> keycode \<le> QK_MACRO_MAX
      then (False, dynamic_keymap_macro_start E (unat (ucast (keycode - QK_MACRO) :: u8)) e)
      else (True, None))"

section \<open>Every packet keeps the firmware's invariants\<close>

text \<open>Thresholds and tuning in range and array sizes (\<open>he_ok\<close>), brightness and LED buffers (\<open>rgb_ok\<close>).\<close>

definition fw_ok :: "('e, 'z) board_scheme \<Rightarrow> bool" where
  "fw_ok st \<longleftrightarrow> he_ok st \<and> rgb_ok (rgblight st)"

lemma he_ok_set_cfg [simp]: "he_ok (set_cfg c st) = he_ok st"
  by (simp add: set_cfg_def)

lemma he_ok_rgb_ops [simp]:
  "he_ok (eeconfig_update_rgblight E st) = he_ok st" "he_ok (eeconfig_read_rgblight E st) = he_ok st"
  "he_ok (rgblight_set st) = he_ok st" "he_ok (rgblight_setrgb rgb st) = he_ok st"
  "he_ok (rgblight_check_config st) = he_ok st"
  by (simp_all add: eeconfig_update_rgblight_def eeconfig_read_rgblight_def rgblight_set_def rgblight_setrgb_def
      rgblight_check_config_def Let_def)

lemma he_ok_rgb_helpers [simp]:
  "he_ok (rgblight_sethsv_eeprom_helper E h s v w st) = he_ok st"
  "he_ok (rgblight_mode_eeprom_helper E m w st) = he_ok st"
  by (simp_all add: rgblight_sethsv_eeprom_helper_def rgblight_mode_eeprom_helper_def Let_def)

lemmas rgb_cmd_defs = rgblight_reload_from_eeprom_def rgblight_increase_def rgblight_decrease_def rgblight_mode_def
  rgblight_set_speed_eeprom_helper_def rgblight_step_helper_def rgblight_step_reverse_helper_def
  rgblight_enable_def rgblight_enable_noeeprom_def rgblight_disable_def rgblight_disable_noeeprom_def
  rgblight_toggle_def rgblight_toggle_noeeprom_def rgblight_mode_noeeprom_def
  rgblight_increase_hue_helper_def rgblight_decrease_hue_helper_def rgblight_increase_sat_helper_def
  rgblight_decrease_sat_helper_def rgblight_increase_val_helper_def rgblight_decrease_val_helper_def
  rgblight_increase_speed_helper_def rgblight_decrease_speed_helper_def rgblight_update_qword_def
  eeconfig_update_rgblight_current_def eeconfig_update_rgblight_default_def
  rgblight_sethsv_at_def rgblight_setrgb_at_def rgblight_sethsv_range_def rgblight_setrgb_range_def Let_def

lemma he_ok_rgb_exec [simp]: "he_ok (rgb_exec E cmd st) = he_ok st"
  by (cases cmd) (simp_all add: rgb_cmd_defs)

lemma fw_ok_rgb_exec: "fw_ok st \<Longrightarrow> fw_ok (rgb_exec E cmd st)"
  by (simp add: fw_ok_def rgb_ok_exec)

text \<open>The light's channel only issues commands of the light's own interface.\<close>

lemma via_rgblight_cmds:
  obtains cmds where "via_qmk_rgblight_set_value E data st = fold (rgb_exec E) cmds st"
proof -
  let ?ex = "\<lambda>cmds. via_qmk_rgblight_set_value E data st = fold (rgb_exec E) cmds st"
  consider "data ! 0 = 1" | "data ! 0 = 2" "data ! 1 = 0" | "data ! 0 = 2" "data ! 1 \<noteq> 0"
    | "data ! 0 = 3" | "data ! 0 = 4" | "data ! 0 \<notin> {1, 2, 3, 4}" by auto
  then have "\<exists>cmds. ?ex cmds"
  proof cases
    case 1
    then have "?ex [HSV False (rgb_hue (cfg st)) (rgb_sat (cfg st)) (ucast (ucast (data ! 1) * ucast RGBLIGHT_LIMIT_VAL div (255 :: u16)))]"
      by (simp add: via_qmk_rgblight_set_value_def hw_defs rgblight_sethsv_noeeprom_def)
    then show ?thesis ..
  next
    case 2
    then have "?ex [Disable False]" by (simp add: via_qmk_rgblight_set_value_def hw_defs)
    then show ?thesis ..
  next
    case 3
    then have "?ex [Enable False, Mode False (data ! 1)]"
      by (simp add: via_qmk_rgblight_set_value_def hw_defs rgblight_mode_noeeprom_def)
    then show ?thesis ..
  next
    case 4
    then have "?ex [Speed False (data ! 1)]" by (simp add: via_qmk_rgblight_set_value_def hw_defs)
    then show ?thesis ..
  next
    case 5
    then have "?ex [HSV False (data ! 1) (data ! 2) (rgb_val (cfg st))]"
      by (simp add: via_qmk_rgblight_set_value_def hw_defs rgblight_sethsv_noeeprom_def)
    then show ?thesis ..
  next
    case 6
    then have "?ex []" by (simp add: via_qmk_rgblight_set_value_def hw_defs)
    then show ?thesis ..
  qed
  then show thesis using that by blast
qed

lemma fw_ok_rgb_execs: "fw_ok st \<Longrightarrow> fw_ok (fold (rgb_exec E) cmds st)"
  by (induction cmds arbitrary: st) (simp_all add: fw_ok_rgb_exec)

lemma fw_ok_rgblight_set_value: "fw_ok st \<Longrightarrow> fw_ok (via_qmk_rgblight_set_value E data st)"
  by (rule via_rgblight_cmds [of E data st]) (simp add: fw_ok_rgb_execs)

lemma fw_ok_rgblight_command: "fw_ok st \<Longrightarrow> fw_ok (snd (via_qmk_rgblight_command E data st))"
  using fw_ok_rgb_exec [of st E Update_Current]
  by (simp add: via_qmk_rgblight_command_def via_qmk_rgblight_save_def fw_ok_rgblight_set_value)

text \<open>The keyboard's own channel changes the light only to signal a calibration.\<close>

lemma rgb_ok_calibration:
  "rgb_ok (rgblight st) \<Longrightarrow> rgb_ok (rgblight (he_start_calibration E st))"
  "rgb_ok (rgblight st) \<Longrightarrow> rgb_ok (rgblight (he_end_calibration E st))"
  by (simp_all add: he_start_calibration_def he_end_calibration_def Let_def rgblight_sethsv_noeeprom_def rgb_ok_sethsv)

lemma rgblight_he_ops [simp]:
  "rgblight (he_via_commit_thresholds E st) = rgblight st" "rgblight (he_set_mode E m st) = rgblight st"
  "rgblight (he_set_deadzone d st) = rgblight st" "rgblight (he_set_engage d st) = rgblight st"
  "rgblight (he_set_release_dist d st) = rgblight st" "rgblight (he_via_arm_autosave env st) = rgblight st"
  by (simp_all add: he_via_commit_thresholds_def he_save_to_eeprom_def he_save_settings_to_eeprom_def he_set_mode_def
      he_set_release_def he_set_actuation_def he_set_deadzone_def he_set_engage_def he_set_release_dist_def
      he_via_arm_autosave_def split: option.split)

lemma rgb_ok_set_value: "rgb_ok (rgblight st) \<Longrightarrow> rgb_ok (rgblight (he_via_set_value E env data st))"
  by (simp add: he_via_set_value_def Let_def rgb_ok_calibration)

lemma fw_ok_custom_command: "fw_ok st \<Longrightarrow> fw_ok (snd (via_custom_value_command E env data st))"
  using he_ok_custom_command [of st E env data] fw_ok_rgblight_command [of st E data]
  by (auto simp: via_custom_value_command_def fw_ok_def via_custom_value_command_kb_def rgb_ok_set_value)

lemma fw_ok_ee [simp]: "fw_ok (st\<lparr>ee := e\<rparr>) = fw_ok st"
  by (simp add: fw_ok_def)

lemma fw_ok_raw_hid:
  assumes "raw_hid_receive E K env data st = Some (data', st')" "fw_ok st"
  shows "fw_ok st'"
  using assms fw_ok_custom_command [OF assms(2), of E env data] fw_ok_rgb_exec [OF assms(2), of E "Toggle False"]
  by (auto simp: raw_hid_receive_def Let_def via_set_keyboard_value_def via_set_device_indication_def
      split: via_command_id.splits if_splits)

section \<open>What the EEPROM holds after a packet\<close>

lemma ee_sethsv_noeeprom [simp]: "ee (rgblight_sethsv_eeprom_helper E h s v False st) = ee st"
  using rgb_ops_ee(5) [of E h s v st] by (simp add: rgblight_sethsv_noeeprom_def)

lemma ee_mode_noeeprom [simp]: "ee (rgblight_mode_eeprom_helper E m False st) = ee st"
  by (simp add: rgblight_mode_eeprom_helper_def Let_def)

context board_eeprom
begin

lemma sethsv_helper_inv: "inv (ee st) \<Longrightarrow> inv (ee (rgblight_sethsv_eeprom_helper E h s v w st))"
  by (cases w) (simp_all add: rgblight_sethsv_eeprom_helper_def Let_def update_rgblight_inv)

lemma mode_helper_inv: "inv (ee st) \<Longrightarrow> inv (ee (rgblight_mode_eeprom_helper E m w st))"
  by (simp add: rgblight_mode_eeprom_helper_def Let_def update_rgblight_inv)

lemma rgb_exec_inv: "inv (ee st) \<Longrightarrow> inv (ee (rgb_exec E cmd st))"
  by (cases cmd) (simp_all add: rgb_cmd_defs eeconfig_read_rgblight_def rgblight_check_config_def
      sethsv_helper_inv mode_helper_inv update_rgblight_inv)

lemma rgb_execs_inv: "inv (ee st) \<Longrightarrow> inv (ee (fold (rgb_exec E) cmds st))"
  by (induction cmds arbitrary: st) (simp_all add: rgb_exec_inv)

lemma commit_inv: "inv (ee st) \<Longrightarrow> he_ok st \<Longrightarrow> inv (ee (he_via_commit_thresholds E st))"
  unfolding he_via_commit_thresholds_def
  by (rule save_view(1)) (simp_all add: he_ok_setters, simp add: he_set_release_def he_set_actuation_def)

lemma set_mode_inv: "inv (ee st) \<Longrightarrow> he_ok st \<Longrightarrow> inv (ee (he_set_mode E m st))"
  by (simp add: he_set_mode_def save_settings_inv split: option.split)

lemma he_set_value_inv: "inv (ee st) \<Longrightarrow> he_ok st \<Longrightarrow> inv (ee (he_via_set_value E env data st))"
  by (simp add: he_via_set_value_def Let_def commit_inv set_mode_inv he_via_arm_autosave_def he_set_deadzone_def
      he_set_engage_def he_set_release_dist_def he_start_calibration_def he_end_calibration_def)

lemma via_rgblight_inv: "inv (ee st) \<Longrightarrow> inv (ee (via_qmk_rgblight_set_value E data st))"
  by (rule via_rgblight_cmds [of E data st]) (simp add: rgb_execs_inv)

lemma custom_command_inv:
  "inv (ee st) \<Longrightarrow> he_ok st \<Longrightarrow> inv (ee (snd (via_custom_value_command E env data st)))"
  using rgb_exec_inv [of st Update_Current]
  by (simp add: via_custom_value_command_def via_qmk_rgblight_command_def via_custom_value_command_kb_def
      via_qmk_rgblight_save_def via_rgblight_inv he_set_value_inv commit_inv)

lemma slot_set_inv: "inv e \<Longrightarrow> inv (slot_set E k x e)"
proof (cases "slot_valid k")
  case False
  then show "inv e \<Longrightarrow> ?thesis" by (cases k) (auto simp: slot_defs)
qed (rule slots.ok_wr)

lemma macro_reset_inv: "inv e \<Longrightarrow> inv (dynamic_keymap_macro_reset E e)"
  using zero_region_view [of e 839 7353]
  by (simp add: dynamic_keymap_macro_reset_def nvm_dynamic_keymap_macro_reset_def hw_defs)

lemma set_buffer_inv:
  "inv e \<Longrightarrow> inv (dynamic_keymap_set_buffer E offset data e)"
  "inv e \<Longrightarrow> inv (dynamic_keymap_macro_set_buffer E offset data e)"
  using region_update_view [of e 183 640 offset data] region_update_view [of e 839 7353 offset data]
  by (simp_all add: dynamic_keymap_set_buffer_def nvm_dynamic_keymap_update_buffer_def
      dynamic_keymap_macro_set_buffer_def nvm_dynamic_keymap_macro_update_buffer_def hw_defs)

lemma raw_hid_inv:
  assumes "raw_hid_receive E K env data st = Some (data', st')" "inv (ee st)" "fw_ok st"
  shows "inv (ee st')"
  using assms custom_command_inv [OF assms(2), of env data] rgb_exec_inv [OF assms(2), of "Toggle False"]
    slot_set_inv [OF assms(2), of "Key a b c" for a b c] slot_set_inv [OF assms(2), of "Enc a b c" for a b c]
  by (auto simp: raw_hid_receive_def Let_def via_set_keyboard_value_def via_set_device_indication_def fw_ok_def
      keymap_reset(1) macro_reset_inv set_buffer_inv layout_options_view(1)
      split: via_command_id.splits if_splits)

end

section \<open>Replies\<close>

text \<open>
  A packet of the endpoint's size is answered by a packet of that size, except for a buffer
  command whose length byte exceeds the 28 bytes that fit: there the handler runs past the packet.
\<close>

definition buffer_command :: "u8 \<Rightarrow> bool" where
  "buffer_command b \<longleftrightarrow> via_command b \<in> {id_dynamic_keymap_macro_get_buffer, id_dynamic_keymap_macro_set_buffer,
     id_dynamic_keymap_get_buffer, id_dynamic_keymap_set_buffer}"

lemma raw_hid_None_iff:
  "length data = RAW_EPSIZE \<Longrightarrow>
   raw_hid_receive E K env data st = None \<longleftrightarrow> buffer_command (data ! 0) \<and> 28 < unat (data ! 3)"
  by (auto simp: raw_hid_receive_def Let_def buffer_command_def hw_defs split: via_command_id.split)

lemma length_blit_le: "a + length bs \<le> length v \<Longrightarrow> length (blit a bs v) = length v"
  by simp

lemma length_switch_matrix_state: "length (switch_matrix_state offset) = 2 * (5 - unat offset)"
proof -
  have "5 - unat offset \<le> 14" by simp
  then show ?thesis by (simp add: switch_matrix_state_def hw_defs Let_def length_concat comp_def sum_list_triv min_def)
qed

lemma length_handlers [simp]:
  "length (he_via_get_value st d) = length d" "length (via_qmk_rgblight_get_value st d) = length d"
  by (simp_all add: he_via_get_value_def via_qmk_rgblight_get_value_def Let_def)

lemma length_custom_command: "2 \<le> length data \<Longrightarrow> length (fst (via_custom_value_command E env data st)) = length data"
  by (auto simp: via_custom_value_command_def via_qmk_rgblight_command_def via_custom_value_command_kb_def)

lemma length_region_read [simp]: "length (region_read E a n off k e) = k"
  by (simp add: region_read_def)

lemma raw_hid_length:
  assumes "length data = RAW_EPSIZE" "raw_hid_receive E K env data st = Some (data', st')"
  shows "length data' = RAW_EPSIZE"
proof -
  have "length (fst (via_custom_value_command E env data st)) = 32"
    using length_custom_command [of data E env st] assms(1) by (simp add: hw_defs)
  then show ?thesis
    using assms
    by (auto simp: raw_hid_receive_def Let_def hw_defs be16_def be32_def via_get_keyboard_value_def
        via_set_keyboard_value_def length_switch_matrix_state
        dynamic_keymap_get_buffer_def nvm_dynamic_keymap_read_buffer_def
        dynamic_keymap_macro_get_buffer_def nvm_dynamic_keymap_macro_read_buffer_def
        split: via_command_id.splits if_splits)
qed

lemma raw_hid_unknown:
  "via_command (data ! 0) = id_unknown \<Longrightarrow> raw_hid_receive E K env data st = Some (data[0 := id_unhandled], st)"
  by (simp add: raw_hid_receive_def Let_def)

text \<open>
  What the host can learn about pressed keys: nothing. A get-value packet is answered from the
  packet, the clock and the layout options alone.
\<close>

lemma get_keyboard_value_blind:
  "via_get_layout_options E (ee st) = via_get_layout_options E (ee st') \<Longrightarrow>
   via_get_keyboard_value E env data st = via_get_keyboard_value E env data st'"
  by (simp add: via_get_keyboard_value_def)

text \<open>Packets as the host builds them: padded with zeros to the endpoint's size.\<close>

definition packet :: "bytes \<Rightarrow> bytes" where
  "packet bs = bs @ replicate (RAW_EPSIZE - length bs) 0"

lemma via_command_keymap:
  "via_command 4 = id_dynamic_keymap_get_keycode" "via_command 5 = id_dynamic_keymap_set_keycode"
  "via_command 18 = id_dynamic_keymap_get_buffer" "via_command 19 = id_dynamic_keymap_set_buffer"
  "via_command 14 = id_dynamic_keymap_macro_get_buffer" "via_command 15 = id_dynamic_keymap_macro_set_buffer"
  by (simp_all add: via_command_def via_commands_def hw_defs)

lemma be16_packet: "be16 (push_bit 8 (ucast hi) OR ucast lo) = [hi, lo]"
proof -
  have "ucast (drop_bit 8 (push_bit 8 (ucast hi) OR ucast lo :: u16)) = hi"
    "ucast ((push_bit 8 (ucast hi) OR ucast lo :: u16) AND 0xFF) = lo"
    by (rule bit_word_eqI; auto simp: bit_simps and_masks dest: bit_imp_le_length)+
  then show ?thesis by (simp add: be16_def)
qed

context board_eeprom
begin

text \<open>A keycode set by one packet is what the next get packet answers.\<close>

lemma packet_keycode_roundtrip:
  assumes "inv (ee st)" "unat layer < 4" "unat row < 5" "unat col < 16"
    and "raw_hid_receive E K env (packet [5, layer, row, col, hi, lo]) st = Some (d, st')"
  shows "raw_hid_receive E K env' (packet [4, layer, row, col]) st' = Some (packet [4, layer, row, col, hi, lo], st')"
proof -
  have v: "slot_valid (Key (unat layer) (unat row) (unat col))" using assms(2-4) by (simp add: hw_defs)
  have "st' = st\<lparr>ee := dynamic_keymap_set_keycode E (unat layer) (unat row) (unat col) (push_bit 8 (ucast hi) OR ucast lo) (ee st)\<rparr>"
    using assms(5) by (simp add: raw_hid_receive_def Let_def packet_def via_command_keymap packet_u16_def)
  then have g: "dynamic_keymap_get_keycode E (unat layer) (unat row) (unat col) (ee st') = push_bit 8 (ucast hi) OR ucast lo"
    using slots.rd_wr_same [OF assms(1) v] by simp
  show ?thesis
    by (simp add: raw_hid_receive_def Let_def packet_def via_command_keymap g be16_packet)
      (simp add: blit_def hw_defs)
qed

text \<open>The same for a run of bytes of the keymap or of the macros, up to 28 at a time.\<close>

lemma slice_packet: "length bs \<le> 28 \<Longrightarrow> slice 4 (length bs) (packet (a # b # c # n # bs)) = bs"
  by (simp add: slice_def packet_def)

lemma blit_packet:
  "length bs \<le> 28 \<Longrightarrow> blit 4 bs (packet [a, b, c, n]) = packet (a # b # c # n # bs)"
  by (simp add: blit_def packet_def hw_defs drop_Cons')

lemma packet_buffer_roundtrip:
  assumes "inv (ee st)" "length bs \<le> 28" "base + region \<le> 8192" "unat (push_bit 8 (ucast hi) OR ucast lo :: u16) + length bs \<le> region"
    and "(cmd_set, cmd_get, base, region) = (19, 18, 183, 640) \<or> (cmd_set, cmd_get, base, region) = (15, 14, 839, 7353)"
    and "raw_hid_receive E K env (packet (cmd_set # hi # lo # word_of_nat (length bs) # bs)) st = Some (d, st')"
  shows "raw_hid_receive E K env' (packet [cmd_get, hi, lo, word_of_nat (length bs)]) st'
    = Some (packet (cmd_get # hi # lo # word_of_nat (length bs) # bs), st')"
proof -
  let ?off = "unat (push_bit 8 (ucast hi) OR ucast lo :: u16)"
  have n: "unat (word_of_nat (length bs) :: u8) = length bs" using assms(2) by (simp add: unat_of_nat)
  have sl: "slice 4 (length bs) (packet (cmd_set # hi # lo # word_of_nat (length bs) # bs)) = bs"
    by (rule slice_packet [OF assms(2)])
  have "ee st' = region_update E base region ?off bs (ee st)"
    using assms(2,5,6) n sl
    by (auto simp: raw_hid_receive_def Let_def via_command_keymap packet_u16_def hw_defs dynamic_keymap_set_buffer_def
        nvm_dynamic_keymap_update_buffer_def dynamic_keymap_macro_set_buffer_def nvm_dynamic_keymap_macro_update_buffer_def
        packet_def)
  then have r: "region_read E base region ?off (length bs) (ee st') = bs"
    using region_roundtrip [OF assms(1,3,4)] by simp
  show ?thesis
    using assms(2,5) n r blit_packet [OF assms(2)]
    by (auto simp: raw_hid_receive_def Let_def via_command_keymap packet_u16_def hw_defs dynamic_keymap_get_buffer_def
        nvm_dynamic_keymap_read_buffer_def dynamic_keymap_macro_get_buffer_def nvm_dynamic_keymap_macro_read_buffer_def
        packet_def)
qed

end

end
