(* ===== verification/Fifo.thy ===== *)
theory Fifo
  imports Prelude
begin

text \<open>
  Queues: the contract of a bounded first-in first-out queue, which the encoder's and the USB driver's event queues keep,
  and ring buffers of \<open>n\<close> slots with a head and a tail, which both are.
\<close>

section \<open>The contract\<close>

text \<open>
  \<open>bounded_fifo\<close> is the contract: an enqueue appends while there is room and is refused, without
  an effect, when there is none; a dequeue takes the oldest element.
\<close>

locale bounded_fifo =
  fixes enq :: "'a \<Rightarrow> 'q \<Rightarrow> bool \<times> 'q"
    and deq :: "'q \<Rightarrow> ('a \<times> 'q) option"
    and contents :: "'q \<Rightarrow> 'a list"
    and ok :: "'q \<Rightarrow> bool"
    and valid :: "'a \<Rightarrow> bool"
    and capacity :: nat
  assumes enq_room: "ok q \<Longrightarrow> valid x \<Longrightarrow> length (contents q) < capacity \<Longrightarrow>
      fst (enq x q) \<and> ok (snd (enq x q)) \<and> contents (snd (enq x q)) = contents q @ [x]"
    and enq_full: "ok q \<Longrightarrow> \<not> length (contents q) < capacity \<Longrightarrow> enq x q = (False, q)"
    and deq_empty: "ok q \<Longrightarrow> contents q = [] \<Longrightarrow> deq q = None"
    and deq_oldest: "ok q \<Longrightarrow> contents q = x # xs \<Longrightarrow> \<exists>q'. deq q = Some (x, q') \<and> ok q' \<and> contents q' = xs"
begin

lemma enq_all:
  "ok q \<Longrightarrow> \<forall>x\<in>set xs. valid x \<Longrightarrow> ok (fold (\<lambda>x q. snd (enq x q)) xs q)
    \<and> contents (fold (\<lambda>x q. snd (enq x q)) xs q) = contents q @ take (capacity - length (contents q)) xs"
proof (induction xs arbitrary: q)
  case (Cons x xs)
  show ?case
  proof (cases "length (contents q) < capacity")
    case True
    then show ?thesis
      using enq_room [OF Cons.prems(1) _ True, of x] Cons.IH [of "snd (enq x q)"] Cons.prems(2)
      by (simp add: take_Cons' Suc_diff_Suc [symmetric])
  next
    case False
    then show ?thesis using enq_full [OF Cons.prems(1) False, of x] Cons.IH [OF Cons.prems(1)] Cons.prems(2) by simp
  qed
qed simp

end

section \<open>Ring buffers\<close>

definition ring_view :: "nat \<Rightarrow> 'a list \<Rightarrow> nat \<Rightarrow> nat \<Rightarrow> 'a list" where
  "ring_view n buf h t = map (\<lambda>k. buf ! ((t + k) mod n)) [0..<(h + n - t) mod n]"

lemma ring_size:
  fixes h n t :: nat
  assumes "h < n" "t < n"
  shows "(h + n - t) mod n = (if t \<le> h then h - t else h + n - t)"
proof (cases "t \<le> h")
  case True
  then have "h + n - t = (h - t) + n" by linarith
  then show ?thesis using True assms by (simp only: mod_add_self2) simp
qed (use assms in simp)

lemma ring_next: "i < n \<Longrightarrow> Suc i mod n = (if Suc i = n then 0 else Suc i)"
  by auto

lemma ring_index: "t < n \<Longrightarrow> k < (n :: nat) \<Longrightarrow> (t + k) mod n = (if t + k < n then t + k else t + k - n)"
  using le_mod_geq [of n "t + k"] by simp

lemma ring_put:
  assumes "h < n" "t < n" "length buf = n" "Suc h mod n \<noteq> t"
  shows "ring_view n (buf[h := x]) (Suc h mod n) t = ring_view n buf h t @ [x]"
proof -
  define d where "d = (if t \<le> h then h - t else h + n - t)"
  have "Suc h mod n < n" using assms(1) by simp
  then have s: "(Suc h mod n + n - t) mod n = Suc d"
    using assms by (simp only: ring_size ring_next [OF assms(1)]) (auto simp: d_def)
  have d: "(h + n - t) mod n = d" using ring_size [OF assms(1,2)] by (simp add: d_def)
  have n: "d < n" using assms(1,2) by (auto simp: d_def)
  have e: "(t + d) mod n = h" using assms(1,2) by (simp add: ring_index [OF assms(2) n]) (auto simp: d_def)
  have "(t + k) mod n \<noteq> h" if "k < d" for k
    using that assms(1,2) n by (simp add: ring_index) (auto simp: d_def split: if_splits)
  then have "buf[h := x] ! ((t + k) mod n) = buf ! ((t + k) mod n)" if "k < d" for k using that by (metis nth_list_update_neq)
  then show ?thesis
    unfolding ring_view_def s d using assms(1,3) e by simp
qed

lemma ring_take:
  assumes "h < n" "t < n" "h \<noteq> t"
  shows "ring_view n buf h t = buf ! t # ring_view n buf h (Suc t mod n)"
proof -
  define d where "d = (h + n - Suc t mod n) mod n"
  have "Suc t mod n < n" using assms(1) by simp
  then have "d = (if Suc t mod n \<le> h then h - Suc t mod n else h + n - Suc t mod n)" unfolding d_def by (rule ring_size [OF assms(1)])
  then have s: "(h + n - t) mod n = Suc d"
    using assms by (simp only: ring_size ring_next [OF assms(2)]) (auto split: if_splits)
  have "(t + Suc k) mod n = (Suc t mod n + k) mod n" for k by (simp add: mod_simps)
  then have "map (\<lambda>k. buf ! ((t + k) mod n)) [0..<Suc d] = buf ! t # map (\<lambda>k. buf ! ((Suc t mod n + k) mod n)) [0..<d]"
    using assms(2) by (simp add: map_upt_Suc del: upt_Suc)
  then show ?thesis unfolding ring_view_def s d_def [symmetric] .
qed

lemma ring_same [simp]: "ring_view n buf h h = []"
  by (simp add: ring_view_def)

lemma ring_empty: "h < n \<Longrightarrow> t < n \<Longrightarrow> ring_view n buf h t = [] \<longleftrightarrow> h = t"
  unfolding ring_view_def by (simp only: ring_size) auto

lemma ring_full: "h < n \<Longrightarrow> t < n \<Longrightarrow> length (ring_view n buf h t) < n - 1 \<longleftrightarrow> Suc h mod n \<noteq> t"
  unfolding ring_view_def by (simp only: ring_size ring_next length_map length_upt) auto

end
