(* ===== verification/Encoder.thy ===== *)
theory Encoder
  imports Via Fifo "HOL-Library.Signed_Division"
begin

text \<open>
  The rotary encoder: the event queue of \<^verbatim>\<open>quantum/encoder.c\<close> and the quadrature driver of
  \<^verbatim>\<open>drivers/encoder/encoder_quadrature.c\<close>, with the key events of \<^verbatim>\<open>quantum/keyboard.h\<close> that a detent
  is turned into. The signed pulse counter is an 8-bit word read by \<open>sint\<close>.
\<close>

section \<open>Model\<close>

subsection \<open>Key events\<close>

record keypos_t =
  col :: u8
  row :: u8

datatype keyevent_type_t =
  TICK_EVENT | KEY_EVENT | ENCODER_CW_EVENT | ENCODER_CCW_EVENT | COMBO_EVENT | DIP_SWITCH_ON_EVENT | DIP_SWITCH_OFF_EVENT

record keyevent_t =
  ev_key :: keypos_t
  ev_time :: u16
  ev_type :: keyevent_type_t
  ev_pressed :: bool

definition KEYLOC_ENCODER_CW :: u8 where [hw_defs]: "KEYLOC_ENCODER_CW = 253"
definition KEYLOC_ENCODER_CCW :: u8 where [hw_defs]: "KEYLOC_ENCODER_CCW = 252"

definition MAKE_EVENT :: "env \<Rightarrow> u8 \<Rightarrow> u8 \<Rightarrow> bool \<Rightarrow> keyevent_type_t \<Rightarrow> keyevent_t" where
  "MAKE_EVENT env row_num col_num press event_type =
     \<lparr>ev_key = \<lparr>col = col_num, row = row_num\<rparr>, ev_time = timer_read env, ev_type = event_type, ev_pressed = press\<rparr>"

definition MAKE_KEYEVENT :: "env \<Rightarrow> u8 \<Rightarrow> u8 \<Rightarrow> bool \<Rightarrow> keyevent_t" where
  "MAKE_KEYEVENT env row_num col_num press = MAKE_EVENT env row_num col_num press KEY_EVENT"

definition MAKE_TICK_EVENT :: "env \<Rightarrow> keyevent_t" where
  "MAKE_TICK_EVENT env = MAKE_EVENT env 0 0 False TICK_EVENT"

definition MAKE_ENCODER_CW_EVENT :: "env \<Rightarrow> u8 \<Rightarrow> bool \<Rightarrow> keyevent_t" where
  "MAKE_ENCODER_CW_EVENT env enc_id press = MAKE_EVENT env KEYLOC_ENCODER_CW enc_id press ENCODER_CW_EVENT"

definition MAKE_ENCODER_CCW_EVENT :: "env \<Rightarrow> u8 \<Rightarrow> bool \<Rightarrow> keyevent_t" where
  "MAKE_ENCODER_CCW_EVENT env enc_id press = MAKE_EVENT env KEYLOC_ENCODER_CCW enc_id press ENCODER_CCW_EVENT"

subsection \<open>The event queue\<close>

record encoder_event_t =
  enc_index :: u8
  enc_clockwise :: bool

record encoder_events_t =
  enqueued :: u8
  dequeued :: u8
  q_head :: u8
  q_tail :: u8
  q_queue :: "encoder_event_t list"

definition MAX_QUEUED_ENCODER_EVENTS :: nat where [hw_defs]: "MAX_QUEUED_ENCODER_EVENTS = max 4 (NUM_ENCODERS + 1)"

definition encoder_queue_full_advanced :: "encoder_events_t \<Rightarrow> bool" where
  "encoder_queue_full_advanced events \<longleftrightarrow> unat (q_tail events) = (unat (q_head events) + 1) mod MAX_QUEUED_ENCODER_EVENTS"

definition encoder_queue_empty_advanced :: "encoder_events_t \<Rightarrow> bool" where
  "encoder_queue_empty_advanced events \<longleftrightarrow> q_head events = q_tail events"

text \<open>The index of a queued event is a 7-bit field.\<close>

definition encoder_queue_event_advanced :: "u8 \<Rightarrow> bool \<Rightarrow> encoder_events_t \<Rightarrow> bool \<times> encoder_events_t" where
  "encoder_queue_event_advanced index clockwise events =
     (if encoder_queue_full_advanced events then (False, events)
      else
        let new_event = \<lparr>enc_index = take_bit 7 index, enc_clockwise = clockwise\<rparr> in
        (True, events\<lparr>q_queue := (q_queue events)[unat (q_head events) := new_event],
           q_head := word_of_nat ((unat (q_head events) + 1) mod MAX_QUEUED_ENCODER_EVENTS),
           enqueued := enqueued events + 1\<rparr>))"

definition encoder_dequeue_event_advanced :: "encoder_events_t \<Rightarrow> (encoder_event_t \<times> encoder_events_t) option" where
  "encoder_dequeue_event_advanced events =
     (if encoder_queue_empty_advanced events then None
      else Some (q_queue events ! unat (q_tail events),
        events\<lparr>q_tail := word_of_nat ((unat (q_tail events) + 1) mod MAX_QUEUED_ENCODER_EVENTS),
          dequeued := dequeued events + 1\<rparr>))"

record encoder_t =
  encoder_events :: encoder_events_t
  signal_queue_drain :: bool
  thisCount :: u8
  encoder_state :: "u8 list"
  encoder_pulses :: "u8 list"

definition encoder_queue_event :: "u8 \<Rightarrow> bool \<Rightarrow> encoder_t \<Rightarrow> encoder_t" where
  "encoder_queue_event index clockwise enc =
     enc\<lparr>encoder_events := snd (encoder_queue_event_advanced index clockwise (encoder_events enc))\<rparr>"

definition encoder_queue_drain :: "encoder_t \<Rightarrow> encoder_t" where
  "encoder_queue_drain enc =
     enc\<lparr>encoder_events := (encoder_events enc)\<lparr>q_tail := q_head (encoder_events enc),
       dequeued := enqueued (encoder_events enc)\<rparr>\<rparr>"

definition encoder_signal_queue_drain :: "encoder_t \<Rightarrow> encoder_t" where
  "encoder_signal_queue_drain enc = enc\<lparr>signal_queue_drain := True\<rparr>"

text \<open>
  A detent becomes a press and a release. The loop over the queue may not end on a corrupted
  queue, so it is a partial function; its result is the events it hands to \<^verbatim>\<open>action_exec\<close>.
\<close>

definition encoder_key_events :: "env \<Rightarrow> encoder_event_t \<Rightarrow> keyevent_t list" where
  "encoder_key_events env ev =
     (if enc_clockwise ev
      then [MAKE_ENCODER_CW_EVENT env (enc_index ev) True, MAKE_ENCODER_CW_EVENT env (enc_index ev) False]
      else [MAKE_ENCODER_CCW_EVENT env (enc_index ev) True, MAKE_ENCODER_CCW_EVENT env (enc_index ev) False])"

partial_function (option) encoder_handle_queue ::
  "env \<Rightarrow> keyevent_t list \<Rightarrow> encoder_events_t \<Rightarrow> (keyevent_t list \<times> encoder_events_t) option" where
  "encoder_handle_queue env out events =
     (case encoder_dequeue_event_advanced events of
        None \<Rightarrow> Some (out, events)
      | Some (ev, events') \<Rightarrow> encoder_handle_queue env (out @ encoder_key_events env ev) events')"

subsection \<open>The quadrature driver\<close>

definition encoders_pad_a :: "pin list" where "encoders_pad_a = [PB 14]"
definition encoders_pad_b :: "pin list" where "encoders_pad_b = [PB 13]"
definition ENCODER_RESOLUTION :: int where [hw_defs]: "ENCODER_RESOLUTION = 4"
definition ENCODER_CLOCKWISE :: bool where [hw_defs]: "ENCODER_CLOCKWISE = True"
definition ENCODER_COUNTER_CLOCKWISE :: bool where [hw_defs]: "ENCODER_COUNTER_CLOCKWISE = False"

definition encoder_LUT :: "int list" where
  "encoder_LUT = [0, -1, 1, 0, 1, 0, 0, -1, -1, 0, 0, 1, 0, 1, -1, 0]"

definition encoder_pad :: "nat \<Rightarrow> bool \<Rightarrow> pin" where
  "encoder_pad index pad_b = (if pad_b then encoders_pad_b ! index else encoders_pad_a ! index)"

definition encoder_quadrature_init_pin :: "nat \<Rightarrow> bool \<Rightarrow> gpio \<Rightarrow> gpio" where
  "encoder_quadrature_init_pin index pad_b = gpio_set_mode (encoder_pad index pad_b) Input_Pullup"

definition encoder_quadrature_read_pin :: "env \<Rightarrow> gpio \<Rightarrow> nat \<Rightarrow> bool \<Rightarrow> u8" where
  "encoder_quadrature_read_pin env g index pad_b = (if input_pin env (pin_level g) (encoder_pad index pad_b) then 1 else 0)"

definition encoder_handle_state_change :: "nat \<Rightarrow> u8 \<Rightarrow> encoder_t \<Rightarrow> encoder_t" where
  "encoder_handle_state_change index state enc =
     (let pulses = word_of_int (sint (encoder_pulses enc ! index) + encoder_LUT ! unat (state AND 0xF)) :: u8;
          enc1 = (if sint pulses \<ge> ENCODER_RESOLUTION
                  then encoder_queue_event (word_of_nat index) ENCODER_COUNTER_CLOCKWISE enc else enc);
          enc2 = (if sint pulses \<le> - ENCODER_RESOLUTION
                  then encoder_queue_event (word_of_nat index) ENCODER_CLOCKWISE enc1 else enc1) in
      enc2\<lparr>encoder_pulses := (encoder_pulses enc2)[index := word_of_int (sint pulses smod ENCODER_RESOLUTION)]\<rparr>)"

definition encoder_quadrature_handle_read :: "nat \<Rightarrow> u8 \<Rightarrow> u8 \<Rightarrow> encoder_t \<Rightarrow> encoder_t" where
  "encoder_quadrature_handle_read index pin_a_state pin_b_state enc =
     (let state = pin_a_state OR push_bit 1 pin_b_state in
      if encoder_state enc ! index AND 0x3 \<noteq> state then
        let es = push_bit 2 (encoder_state enc ! index) OR state in
        encoder_handle_state_change index es (enc\<lparr>encoder_state := (encoder_state enc)[index := es]\<rparr>)
      else enc)"

definition encoder_driver_task :: "env \<Rightarrow> gpio \<Rightarrow> encoder_t \<Rightarrow> encoder_t" where
  "encoder_driver_task env g enc =
     for_range (unat (thisCount enc)) (\<lambda>i. encoder_quadrature_handle_read i
       (encoder_quadrature_read_pin env g i False) (encoder_quadrature_read_pin env g i True)) enc"

definition encoder_quadrature_post_init :: "env \<Rightarrow> gpio \<Rightarrow> encoder_t \<Rightarrow> gpio \<times> encoder_t" where
  "encoder_quadrature_post_init env g enc =
     (let g' = for_range (unat (thisCount enc)) (\<lambda>i g. encoder_quadrature_init_pin i True (encoder_quadrature_init_pin i False g)) g in
      (g', for_range (unat (thisCount enc)) (\<lambda>i enc. enc\<lparr>encoder_state := (encoder_state enc)[i :=
         encoder_quadrature_read_pin env g' i False OR push_bit 1 (encoder_quadrature_read_pin env g' i True)]\<rparr>) enc))"

definition encoder_driver_init :: "env \<Rightarrow> gpio \<Rightarrow> encoder_t \<Rightarrow> gpio \<times> encoder_t" where
  "encoder_driver_init env g enc = encoder_quadrature_post_init env g (enc\<lparr>thisCount := word_of_nat NUM_ENCODERS\<rparr>)"

definition encoder_init :: "env \<Rightarrow> gpio \<Rightarrow> encoder_t \<Rightarrow> gpio \<times> encoder_t" where
  "encoder_init env g enc =
     encoder_driver_init env g (enc\<lparr>encoder_events := \<lparr>enqueued = 0, dequeued = 0, q_head = 0, q_tail = 0,
       q_queue = replicate MAX_QUEUED_ENCODER_EVENTS \<lparr>enc_index = 0, enc_clockwise = False\<rparr>\<rparr>\<rparr>)"

text \<open>The result: whether an event was handled, the key events, the new state.\<close>

definition encoder_task :: "env \<Rightarrow> gpio \<Rightarrow> encoder_t \<Rightarrow> (bool \<times> keyevent_t list \<times> encoder_t) option" where
  "encoder_task env g enc =
     (let enc1 = (if signal_queue_drain enc then encoder_queue_drain (enc\<lparr>signal_queue_drain := False\<rparr>) else enc);
          enc2 = encoder_driver_task env g enc1 in
      case encoder_handle_queue env [] (encoder_events enc2) of
        None \<Rightarrow> None
      | Some (out, events) \<Rightarrow> Some (out \<noteq> [], out, enc2\<lparr>encoder_events := events\<rparr>))"

section \<open>The queue is a bounded first-in first-out queue\<close>

definition queue_contents :: "encoder_events_t \<Rightarrow> encoder_event_t list" where
  "queue_contents q = ring_view 4 (q_queue q) (unat (q_head q)) (unat (q_tail q))"

definition queue_ok :: "encoder_events_t \<Rightarrow> bool" where
  "queue_ok q \<longleftrightarrow> unat (q_head q) < 4 \<and> unat (q_tail q) < 4 \<and> length (q_queue q) = 4
     \<and> unat (enqueued q - dequeued q) = (unat (q_head q) + 4 - unat (q_tail q)) mod 4"

lemma unat_u8_mod4: "unat (word_of_nat (n mod 4) :: u8) = n mod 4"
proof -
  have "n mod 4 < 256" using mod_less_divisor [of 4 n] by simp
  then show ?thesis by (simp add: unat_of_nat)
qed

lemma queue_length: "length (queue_contents q) = (unat (q_head q) + 4 - unat (q_tail q)) mod 4"
  by (simp add: queue_contents_def ring_view_def)

lemma max_queued: "MAX_QUEUED_ENCODER_EVENTS = 4"
  by (simp add: hw_defs)

lemma queue_full_iff: "queue_ok q \<Longrightarrow> encoder_queue_full_advanced q \<longleftrightarrow> \<not> length (queue_contents q) < 3"
  using ring_full [of "unat (q_head q)" 4 "unat (q_tail q)" "q_queue q"]
  by (auto simp: queue_ok_def encoder_queue_full_advanced_def queue_contents_def max_queued)

lemma queue_empty_iff: "queue_ok q \<Longrightarrow> encoder_queue_empty_advanced q \<longleftrightarrow> queue_contents q = []"
  using ring_empty [of "unat (q_head q)" 4 "unat (q_tail q)" "q_queue q"]
  by (simp add: queue_ok_def encoder_queue_empty_advanced_def queue_contents_def word_unat_eq_iff)

lemma queue_enq:
  assumes "queue_ok q" "length (queue_contents q) < 3"
  shows "fst (encoder_queue_event_advanced i c q) \<and> queue_ok (snd (encoder_queue_event_advanced i c q)) \<and>
    queue_contents (snd (encoder_queue_event_advanced i c q)) = queue_contents q @ [\<lparr>enc_index = take_bit 7 i, enc_clockwise = c\<rparr>]"
proof -
  define x where "x = \<lparr>enc_index = take_bit 7 i, enc_clockwise = c\<rparr>"
  define q' where "q' = q\<lparr>q_queue := (q_queue q)[unat (q_head q) := x], q_head := word_of_nat (Suc (unat (q_head q)) mod 4),
    enqueued := enqueued q + 1\<rparr>"
  note ok = assms(1) [unfolded queue_ok_def queue_length [symmetric]]
  have "Suc (unat (q_head q)) mod 4 \<noteq> unat (q_tail q)"
    using ring_full [of "unat (q_head q)" 4 "unat (q_tail q)" "q_queue q"] assms(2) ok by (simp add: queue_contents_def)
  from ring_put [of "unat (q_head q)" 4 "unat (q_tail q)" "q_queue q", OF _ _ _ this, of x] ok
  have c: "queue_contents q' = queue_contents q @ [x]" by (simp add: q'_def queue_contents_def unat_u8_mod4)
  have "unat (enqueued q + 1 - dequeued q) = Suc (unat (enqueued q - dequeued q))"
    using unat_Suc_small [of "enqueued q - dequeued q"] assms(2) ok by (simp add: algebra_simps)
  then have "queue_ok q'" unfolding queue_ok_def queue_length [symmetric] c using ok by (simp add: q'_def unat_u8_mod4)
  moreover have "encoder_queue_event_advanced i c q = (True, q')"
    using assms queue_full_iff [OF assms(1)] by (simp add: encoder_queue_event_advanced_def Let_def q'_def x_def max_queued)
  ultimately show ?thesis using c by (simp add: x_def)
qed

lemma queue_deq:
  assumes "queue_ok q" "queue_contents q = x # xs"
  shows "\<exists>q'. encoder_dequeue_event_advanced q = Some (x, q') \<and> queue_ok q' \<and> queue_contents q' = xs"
proof -
  define q' where "q' = q\<lparr>q_tail := word_of_nat (Suc (unat (q_tail q)) mod 4), dequeued := dequeued q + 1\<rparr>"
  note ok = assms(1) [unfolded queue_ok_def queue_length [symmetric]]
  have ne: "\<not> encoder_queue_empty_advanced q" using queue_empty_iff [OF assms(1)] assms(2) by simp
  then have "unat (q_head q) \<noteq> unat (q_tail q)" by (simp add: encoder_queue_empty_advanced_def word_unat_eq_iff)
  from ring_take [of "unat (q_head q)" 4 "unat (q_tail q)" "q_queue q", OF _ _ this] ok assms(2)
  have c: "q_queue q ! unat (q_tail q) = x" "queue_contents q' = xs" by (simp_all add: q'_def queue_contents_def unat_u8_mod4)
  have n: "unat (enqueued q - dequeued q) = Suc (length xs)" using ok assms(2) by simp
  then have "enqueued q - dequeued q \<noteq> 0" by (metis nat.distinct(1) unat_0)
  from unat_minus_one [OF this] n have "unat (enqueued q - (dequeued q + 1)) = length xs" by (simp add: algebra_simps)
  then have "queue_ok q'" unfolding queue_ok_def queue_length [symmetric] c using ok by (simp add: q'_def unat_u8_mod4)
  then show ?thesis using ne c by (simp add: encoder_dequeue_event_advanced_def q'_def max_queued)
qed

lemma take_bit_7_id: "i < 128 \<Longrightarrow> take_bit 7 (i :: u8) = i"
  by (simp add: word_unat_eq_iff unsigned_take_bit_eq take_bit_nat_eq_self_iff word_less_nat_alt)

interpretation enc_fifo: bounded_fifo
  "\<lambda>ev. encoder_queue_event_advanced (enc_index ev) (enc_clockwise ev)" encoder_dequeue_event_advanced
  queue_contents queue_ok "\<lambda>ev. enc_index ev < 128" 3
proof
  fix q :: encoder_events_t and x :: encoder_event_t and xs :: "encoder_event_t list"
  assume q: "queue_ok q"
  show "fst (encoder_queue_event_advanced (enc_index x) (enc_clockwise x) q) \<and>
      queue_ok (snd (encoder_queue_event_advanced (enc_index x) (enc_clockwise x) q)) \<and>
      queue_contents (snd (encoder_queue_event_advanced (enc_index x) (enc_clockwise x) q)) = queue_contents q @ [x]"
    if "enc_index x < 128" "length (queue_contents q) < 3"
    using queue_enq [OF q that(2), of "enc_index x" "enc_clockwise x"] take_bit_7_id [OF that(1)] by simp
  show "encoder_queue_event_advanced (enc_index x) (enc_clockwise x) q = (False, q)" if "\<not> length (queue_contents q) < 3"
    using queue_full_iff [OF q] that by (simp add: encoder_queue_event_advanced_def)
  show "encoder_dequeue_event_advanced q = None" if "queue_contents q = []"
    using queue_empty_iff [OF q] that by (simp add: encoder_dequeue_event_advanced_def)
  show "\<exists>q'. encoder_dequeue_event_advanced q = Some (x, q') \<and> queue_ok q' \<and> queue_contents q' = xs"
    if "queue_contents q = x # xs" by (rule queue_deq [OF q that])
qed

text \<open>The loop over the queue ends and reports the queued events in order.\<close>

lemma handle_queue:
  "queue_ok q \<Longrightarrow> \<exists>q'. encoder_handle_queue env out q = Some (out @ concat (map (encoder_key_events env) (queue_contents q)), q')
     \<and> queue_ok q' \<and> queue_contents q' = []"
proof (induction "queue_contents q" arbitrary: q out)
  case Nil
  then show ?case using enc_fifo.deq_empty [of q] by (simp add: encoder_handle_queue.simps)
next
  case (Cons ev evs)
  obtain q' where q': "encoder_dequeue_event_advanced q = Some (ev, q')" "queue_ok q'" "queue_contents q' = evs"
    using enc_fifo.deq_oldest [OF Cons.prems Cons.hyps(2) [symmetric]] by blast
  show ?case
    using Cons.hyps(1) [OF q'(3) [symmetric] q'(2), of "out @ encoder_key_events env ev"] q' Cons.hyps(2) [symmetric]
    by (simp add: encoder_handle_queue.simps [of env out q])
qed

section \<open>The decoder tracks the knob\<close>

text \<open>
  \<open>pads\<close> is the two-bit reading of the knob in an environment, \<open>knob_step\<close> the quarter detent
  between two readings (counter-clockwise positive, zero when both pads changed at once), and
  \<open>enc_ok\<close> the driver's state between two polls.
\<close>

definition pads :: "env \<Rightarrow> gpio \<Rightarrow> u8" where
  "pads env g = encoder_quadrature_read_pin env g 0 False OR push_bit 1 (encoder_quadrature_read_pin env g 0 True)"

definition knob_step :: "u8 \<Rightarrow> u8 \<Rightarrow> int" where
  "knob_step old new = encoder_LUT ! (4 * unat old + unat new)"

definition enc_ok :: "encoder_t \<Rightarrow> bool" where
  "enc_ok enc \<longleftrightarrow> queue_ok (encoder_events enc) \<and> queue_contents (encoder_events enc) = [] \<and> thisCount enc = 1
     \<and> length (encoder_state enc) = 1 \<and> length (encoder_pulses enc) = 1 \<and> \<bar>sint (encoder_pulses enc ! 0)\<bar> < ENCODER_RESOLUTION"

definition knob :: "encoder_t \<Rightarrow> u8" where
  "knob enc = encoder_state enc ! 0 AND 0x3"

lemma pads_cases: "pads env g \<in> {0, 1, 2, 3}"
  by (simp add: pads_def encoder_quadrature_read_pin_def)

lemma and_3_cases: "(x :: u8) AND 3 \<in> {0, 1, 2, 3}"
proof -
  have "unat (x AND 3) < 4"
    using and_mask_less' [of 2 x] by (simp add: word_less_nat_alt mask_eq_exp_minus_1)
  then have "x AND 3 = 0 \<or> x AND 3 = 1 \<or> x AND 3 = 2 \<or> x AND 3 = 3"
    by (auto simp: word_unat_eq_iff)
  then show ?thesis by simp
qed

lemma knob_shift:
  assumes "s \<in> {0, 1, 2, 3}"
  shows "(push_bit 2 (x :: u8) OR s) AND 3 = s" "unat ((push_bit 2 x OR s) AND 0xF) = 4 * unat (x AND 3) + unat s"
proof -
  have m: "(s :: u8) AND 3 = s" "s AND 15 = s" using assms by auto
  have z: "push_bit 2 x AND 3 = 0" by (rule bit_word_eqI) (auto simp: bit_simps and_masks)
  obtain k where k: "k = x AND 3" "k \<in> {0, 1, 2, 3}" using and_3_cases [of x] by blast
  have "take_bit 4 (push_bit 2 x) = push_bit 2 (take_bit 2 x)" by (simp add: take_bit_push_bit)
  then have "push_bit 2 x AND 15 = push_bit 2 k"
    unfolding k(1) and_masks by (simp add: take_bit_eq_mask mask_eq_exp_minus_1)
  then have "(push_bit 2 x OR s) AND 15 = push_bit 2 k OR s" by (simp only: bit.conj_disj_distrib2 m)
  then show "unat ((push_bit 2 x OR s) AND 0xF) = 4 * unat (x AND 3) + unat s"
    unfolding k(1) [symmetric] using k(2) assms by auto
  show "(push_bit 2 x OR s) AND 3 = s" by (simp add: bit.conj_disj_distrib2 m z)
qed

lemma knob_step_unit: "a \<in> {0, 1, 2, 3} \<Longrightarrow> b \<in> {0, 1, 2, 3} \<Longrightarrow> \<bar>knob_step a b\<bar> \<le> 1"
  by (auto simp: knob_step_def encoder_LUT_def)

lemma knob_step_same: "a \<in> {0, 1, 2, 3} \<Longrightarrow> knob_step a a = 0"
  by (auto simp: knob_step_def encoder_LUT_def)

lemma sint_u8_of_int: "-128 \<le> k \<Longrightarrow> k < 128 \<Longrightarrow> sint (word_of_int k :: u8) = k"
  unfolding sint_sbintrunc' by (rule signed_take_bit_int_eq_self) simp_all

lemma smod_4: "\<bar>k\<bar> \<le> 4 \<Longrightarrow> k smod 4 = (if k = 4 \<or> k = -4 then 0 else k :: int)"
  by (auto simp: signed_modulo_int_def sgn_if abs_if)

text \<open>
  One poll: at most one event, emitted exactly when the pulse counter completes a detent.
\<close>

lemma handle_read:
  assumes "enc_ok enc" "s = a OR push_bit 1 b" "s \<in> {0, 1, 2, 3}"
  defines "p \<equiv> sint (encoder_pulses enc ! 0) + knob_step (knob enc) s"
    and "enc' \<equiv> encoder_quadrature_handle_read 0 a b enc"
  shows "knob enc' = s" "thisCount enc' = 1" "length (encoder_state enc') = 1" "length (encoder_pulses enc') = 1"
    and "sint (encoder_pulses enc' ! 0) = (if p = 4 \<or> p = -4 then 0 else p)" "\<bar>p\<bar> \<le> 4"
    and "queue_ok (encoder_events enc')" "signal_queue_drain enc' = signal_queue_drain enc"
    and "queue_contents (encoder_events enc')
      = (if p = 4 then [\<lparr>enc_index = 0, enc_clockwise = False\<rparr>] else if p = -4 then [\<lparr>enc_index = 0, enc_clockwise = True\<rparr>] else [])"
proof -
  have ok: "queue_ok (encoder_events enc)" "queue_contents (encoder_events enc) = []" "length (encoder_state enc) = 1"
    "length (encoder_pulses enc) = 1" "\<bar>sint (encoder_pulses enc ! 0)\<bar> \<le> 3" "thisCount enc = 1"
    using assms(1) by (auto simp: enc_ok_def hw_defs)
  have k: "knob enc \<in> {0, 1, 2, 3}" unfolding knob_def by (rule and_3_cases)
  show bound: "\<bar>p\<bar> \<le> 4" using knob_step_unit [OF k assms(3)] ok(5) by (simp add: p_def)
  have sint: "sint (word_of_int p :: u8) = p" "sint (word_of_int (p smod 4) :: u8) = p smod 4"
    using bound smod_4 [OF bound] by (auto intro!: sint_u8_of_int)
  have enq: "queue_ok (snd (encoder_queue_event_advanced 0 c (encoder_events enc))) \<and>
      queue_contents (snd (encoder_queue_event_advanced 0 c (encoder_events enc))) = [\<lparr>enc_index = 0, enc_clockwise = c\<rparr>]" for c
    using queue_enq [OF ok(1), of 0 c] ok(2) by simp
  define es where "es = push_bit 2 (encoder_state enc ! 0) OR s"
  define e1 where "e1 = enc\<lparr>encoder_state := (encoder_state enc)[0 := es]\<rparr>"
  have e1: "encoder_pulses e1 = encoder_pulses enc" "encoder_events e1 = encoder_events enc" by (simp_all add: e1_def)
  have step: "enc' = (if knob enc = s then enc else encoder_handle_state_change 0 es e1)"
    by (simp add: enc'_def encoder_quadrature_handle_read_def Let_def assms(2) knob_def es_def e1_def)
  have pulses: "sint (encoder_pulses enc ! 0) + encoder_LUT ! unat (es AND 0xF) = p"
    by (simp add: p_def knob_step_def es_def knob_shift(2) [OF assms(3)] knob_def)
  have "enc' = (if knob enc = s then enc else
      e1\<lparr>encoder_events := (if p \<le> -4 then snd (encoder_queue_event_advanced 0 True (encoder_events enc))
          else if 4 \<le> p then snd (encoder_queue_event_advanced 0 False (encoder_events enc)) else encoder_events enc),
        encoder_pulses := (encoder_pulses enc)[0 := word_of_int (p smod 4)]\<rparr>)"
    unfolding step encoder_handle_state_change_def Let_def e1 pulses sint hw_defs
    by (simp add: encoder_queue_event_def e1)
  note change = this sint e1_def es_def
  have same: "p = sint (encoder_pulses enc ! 0)" if "knob enc = s" using that k knob_step_same by (simp add: p_def)
  show "knob enc' = s" using ok(3) knob_shift(1) [OF assms(3)] by (auto simp: change knob_def)
  show "thisCount enc' = 1" "length (encoder_state enc') = 1" "length (encoder_pulses enc') = 1"
    "signal_queue_drain enc' = signal_queue_drain enc" using ok by (auto simp: change)
  show "sint (encoder_pulses enc' ! 0) = (if p = 4 \<or> p = -4 then 0 else p)"
    using ok(4,5) smod_4 [OF bound] same by (auto simp: change)
  show "queue_ok (encoder_events enc')" using ok(1) enq by (auto simp: change)
  show "queue_contents (encoder_events enc')
      = (if p = 4 then [\<lparr>enc_index = 0, enc_clockwise = False\<rparr>] else if p = -4 then [\<lparr>enc_index = 0, enc_clockwise = True\<rparr>] else [])"
    using ok(2,5) enq bound same by (auto simp: change)
qed

text \<open>A poll that reads the knob and hands the detent, if one was completed, to the keymap.\<close>

definition detent_events :: "env \<Rightarrow> int \<Rightarrow> keyevent_t list" where
  "detent_events env p =
     (if p = 4 then [MAKE_ENCODER_CCW_EVENT env 0 True, MAKE_ENCODER_CCW_EVENT env 0 False]
      else if p = -4 then [MAKE_ENCODER_CW_EVENT env 0 True, MAKE_ENCODER_CW_EVENT env 0 False] else [])"

lemma drain_ok:
  assumes "enc_ok enc"
  shows "enc_ok (encoder_queue_drain (enc\<lparr>signal_queue_drain := b\<rparr>))" "knob (encoder_queue_drain (enc\<lparr>signal_queue_drain := b\<rparr>)) = knob enc"
    "encoder_pulses (encoder_queue_drain (enc\<lparr>signal_queue_drain := b\<rparr>)) = encoder_pulses enc"
  using assms by (auto simp: enc_ok_def encoder_queue_drain_def knob_def queue_ok_def queue_contents_def)

lemma encoder_task_step:
  fixes env g
  assumes "enc_ok enc"
  defines "p \<equiv> sint (encoder_pulses enc ! 0) + knob_step (knob enc) (pads env g)"
  shows "\<exists>enc'. encoder_task env g enc = Some (detent_events env p \<noteq> [], detent_events env p, enc') \<and> enc_ok enc'
    \<and> knob enc' = pads env g \<and> \<bar>p\<bar> \<le> 4 \<and> sint (encoder_pulses enc' ! 0) = (if p = 4 \<or> p = -4 then 0 else p)"
proof -
  define enc1 where "enc1 = (if signal_queue_drain enc then encoder_queue_drain (enc\<lparr>signal_queue_drain := False\<rparr>) else enc)"
  have e1: "enc_ok enc1" "knob enc1 = knob enc" "encoder_pulses enc1 = encoder_pulses enc"
    using drain_ok [OF assms(1)] assms(1) by (auto simp: enc1_def)
  define enc2 where "enc2 = encoder_driver_task env g enc1"
  have e2: "enc2 = encoder_quadrature_handle_read 0 (encoder_quadrature_read_pin env g 0 False) (encoder_quadrature_read_pin env g 0 True) enc1"
    using e1(1) by (simp add: enc2_def encoder_driver_task_def enc_ok_def for_range_def)
  note r = handle_read [OF e1(1) pads_def [of env g] pads_cases, folded e2, unfolded e1(2,3), folded p_def]
  obtain q' where q': "encoder_handle_queue env [] (encoder_events enc2)
      = Some (concat (map (encoder_key_events env) (queue_contents (encoder_events enc2))), q')" "queue_ok q'" "queue_contents q' = []"
    using handle_queue [OF r(7), of env "[]"] by auto
  have out: "concat (map (encoder_key_events env) (queue_contents (encoder_events enc2))) = detent_events env p"
    by (simp add: r(9) detent_events_def encoder_key_events_def)
  have "encoder_task env g enc = Some (detent_events env p \<noteq> [], detent_events env p, enc2\<lparr>encoder_events := q'\<rparr>)"
    using q'(1) by (simp add: encoder_task_def Let_def out flip: enc1_def enc2_def)
  moreover have "enc_ok (enc2\<lparr>encoder_events := q'\<rparr>)"
    using r q' by (auto simp: enc_ok_def hw_defs)
  ultimately show ?thesis using r by (auto simp: knob_def)
qed

text \<open>
  A run of polls, one per main-loop iteration, with the events it produces; \<open>knob_travel\<close> is the
  rotation the readings show, in quarter detents.
\<close>

fun encoder_polls :: "(env \<times> gpio) list \<Rightarrow> encoder_t \<Rightarrow> (keyevent_t list \<times> encoder_t) option" where
  "encoder_polls [] enc = Some ([], enc)"
| "encoder_polls ((env, g) # polls) enc =
     (case encoder_task env g enc of
        None \<Rightarrow> None
      | Some (changed, out, enc') \<Rightarrow> map_option (\<lambda>(outs, enc''). (out @ outs, enc'')) (encoder_polls polls enc'))"

fun knob_travel :: "u8 \<Rightarrow> u8 list \<Rightarrow> int" where
  "knob_travel s [] = 0"
| "knob_travel s (s' # ss) = knob_step s s' + knob_travel s' ss"

definition detents :: "keyevent_type_t \<Rightarrow> keyevent_t list \<Rightarrow> int" where
  "detents t evs = int (length (filter (\<lambda>ev. ev_type ev = t \<and> ev_pressed ev) evs))"

lemma detents_append [simp]: "detents t (xs @ ys) = detents t xs + detents t ys"
  by (simp add: detents_def)

lemma detents_events:
  "4 * (detents ENCODER_CCW_EVENT (detent_events env p) - detents ENCODER_CW_EVENT (detent_events env p))
    = (if p = 4 then 4 else if p = -4 then -4 else 0)"
  by (simp add: detent_events_def detents_def MAKE_ENCODER_CCW_EVENT_def MAKE_ENCODER_CW_EVENT_def MAKE_EVENT_def)

lemma encoder_tracks:
  assumes "enc_ok enc"
  shows "\<exists>evs enc'. encoder_polls polls enc = Some (evs, enc') \<and> enc_ok enc' \<and>
    4 * (detents ENCODER_CCW_EVENT evs - detents ENCODER_CW_EVENT evs) + sint (encoder_pulses enc' ! 0)
      = sint (encoder_pulses enc ! 0) + knob_travel (knob enc) (map (\<lambda>(env, g). pads env g) polls)"
  using assms
proof (induction polls arbitrary: enc)
  case Nil
  then show ?case by (simp add: detents_def)
next
  case (Cons poll polls)
  obtain env g where poll: "poll = (env, g)" by (cases poll)
  define p where "p = sint (encoder_pulses enc ! 0) + knob_step (knob enc) (pads env g)"
  obtain enc1 where e1: "encoder_task env g enc = Some (detent_events env p \<noteq> [], detent_events env p, enc1)" "enc_ok enc1"
    "knob enc1 = pads env g" "sint (encoder_pulses enc1 ! 0) = (if p = 4 \<or> p = -4 then 0 else p)"
    using encoder_task_step [OF Cons.prems, of env g] unfolding p_def by blast
  obtain evs enc2 where e2: "encoder_polls polls enc1 = Some (evs, enc2)" "enc_ok enc2"
    "4 * (detents ENCODER_CCW_EVENT evs - detents ENCODER_CW_EVENT evs) + sint (encoder_pulses enc2 ! 0)
      = sint (encoder_pulses enc1 ! 0) + knob_travel (knob enc1) (map (\<lambda>(env, g). pads env g) polls)"
    using Cons.IH [OF e1(2)] by blast
  have "encoder_polls (poll # polls) enc = Some (detent_events env p @ evs, enc2)" by (simp add: poll e1(1) e2(1))
  moreover have "4 * (detents ENCODER_CCW_EVENT (detent_events env p @ evs) - detents ENCODER_CW_EVENT (detent_events env p @ evs))
      + sint (encoder_pulses enc2 ! 0)
    = sint (encoder_pulses enc ! 0) + knob_travel (knob enc) (map (\<lambda>(env, g). pads env g) (poll # polls))"
    using e2(3) e1(3,4) detents_events [of env p] by (simp add: poll p_def algebra_simps split: if_splits)
  ultimately show ?case using e2(2) by blast
qed

end
