(* ===== verification/Keymap.thy ===== *)
theory Keymap
  imports Encoder
begin

text \<open>
  From a key position to an action code: \<^verbatim>\<open>quantum/keymap_common.c\<close> with the key swaps of
  \<^verbatim>\<open>quantum/keycode_config.c\<close>, the action encoding of \<^verbatim>\<open>quantum/action_code.h\<close> and the usage tables of
  \<^verbatim>\<open>tmk_core/protocol/report.h\<close>. \<^verbatim>\<open>MAGIC_ENABLE\<close> is on, \<^verbatim>\<open>SWAP_HANDS_ENABLE\<close> and the legacy options
  are off.
\<close>

section \<open>Model\<close>

subsection \<open>Keycodes\<close>

definition KC_ESCAPE :: u16 where [hw_defs]: "KC_ESCAPE = 0x29"
definition KC_BACKSPACE :: u16 where [hw_defs]: "KC_BACKSPACE = 0x2A"
definition KC_BACKSLASH :: u16 where [hw_defs]: "KC_BACKSLASH = 0x31"
definition KC_GRAVE :: u16 where [hw_defs]: "KC_GRAVE = 0x35"
definition KC_CAPS_LOCK :: u16 where [hw_defs]: "KC_CAPS_LOCK = 0x39"
definition KC_LOCKING_CAPS_LOCK :: u16 where [hw_defs]: "KC_LOCKING_CAPS_LOCK = 0x82"
definition KC_LEFT_CTRL :: u16 where [hw_defs]: "KC_LEFT_CTRL = 0xE0"
definition KC_LEFT_ALT :: u16 where [hw_defs]: "KC_LEFT_ALT = 0xE2"
definition KC_LEFT_GUI :: u16 where [hw_defs]: "KC_LEFT_GUI = 0xE3"
definition KC_RIGHT_CTRL :: u16 where [hw_defs]: "KC_RIGHT_CTRL = 0xE4"
definition KC_RIGHT_ALT :: u16 where [hw_defs]: "KC_RIGHT_ALT = 0xE6"
definition KC_RIGHT_GUI :: u16 where [hw_defs]: "KC_RIGHT_GUI = 0xE7"

definition MOD_LCTL :: u8 where [hw_defs]: "MOD_LCTL = 0x01"
definition MOD_LALT :: u8 where [hw_defs]: "MOD_LALT = 0x04"
definition MOD_LGUI :: u8 where [hw_defs]: "MOD_LGUI = 0x08"
definition MOD_RCTL :: u8 where [hw_defs]: "MOD_RCTL = 0x11"
definition MOD_RALT :: u8 where [hw_defs]: "MOD_RALT = 0x14"
definition MOD_RGUI :: u8 where [hw_defs]: "MOD_RGUI = 0x18"

text \<open>The bits of the keymap options word.\<close>

definition swap_control_capslock :: "u16 \<Rightarrow> bool" where "swap_control_capslock c = bit c 0"
definition capslock_to_control :: "u16 \<Rightarrow> bool" where "capslock_to_control c = bit c 1"
definition swap_lalt_lgui :: "u16 \<Rightarrow> bool" where "swap_lalt_lgui c = bit c 2"
definition swap_ralt_rgui :: "u16 \<Rightarrow> bool" where "swap_ralt_rgui c = bit c 3"
definition no_gui :: "u16 \<Rightarrow> bool" where "no_gui c = bit c 4"
definition swap_grave_esc :: "u16 \<Rightarrow> bool" where "swap_grave_esc c = bit c 5"
definition swap_backslash_backspace :: "u16 \<Rightarrow> bool" where "swap_backslash_backspace c = bit c 6"
definition swap_lctl_lgui :: "u16 \<Rightarrow> bool" where "swap_lctl_lgui c = bit c 8"
definition swap_rctl_rgui :: "u16 \<Rightarrow> bool" where "swap_rctl_rgui c = bit c 9"
definition swap_escape_capslock :: "u16 \<Rightarrow> bool" where "swap_escape_capslock c = bit c 11"

lemmas keymap_option_defs = swap_control_capslock_def capslock_to_control_def swap_lalt_lgui_def swap_ralt_rgui_def
  no_gui_def swap_grave_esc_def swap_backslash_backspace_def swap_lctl_lgui_def swap_rctl_rgui_def swap_escape_capslock_def

subsection \<open>Swaps\<close>

definition keycode_config :: "u16 \<Rightarrow> u16 \<Rightarrow> u16" where
  "keycode_config c keycode =
     (if keycode = KC_CAPS_LOCK \<or> keycode = KC_LOCKING_CAPS_LOCK then
        (if swap_control_capslock c \<or> capslock_to_control c then KC_LEFT_CTRL
         else if swap_escape_capslock c then KC_ESCAPE else keycode)
      else if keycode = KC_LEFT_CTRL then
        (if swap_control_capslock c then KC_CAPS_LOCK
         else if swap_lctl_lgui c then (if no_gui c then KC_NO else KC_LEFT_GUI) else KC_LEFT_CTRL)
      else if keycode = KC_LEFT_ALT then
        (if swap_lalt_lgui c then (if no_gui c then KC_NO else KC_LEFT_GUI) else KC_LEFT_ALT)
      else if keycode = KC_LEFT_GUI then
        (if swap_lalt_lgui c then KC_LEFT_ALT else if swap_lctl_lgui c then KC_LEFT_CTRL
         else if no_gui c then KC_NO else KC_LEFT_GUI)
      else if keycode = KC_RIGHT_CTRL then
        (if swap_rctl_rgui c then (if no_gui c then KC_NO else KC_RIGHT_GUI) else KC_RIGHT_CTRL)
      else if keycode = KC_RIGHT_ALT then
        (if swap_ralt_rgui c then (if no_gui c then KC_NO else KC_RIGHT_GUI) else KC_RIGHT_ALT)
      else if keycode = KC_RIGHT_GUI then
        (if swap_ralt_rgui c then KC_RIGHT_ALT else if swap_rctl_rgui c then KC_RIGHT_CTRL
         else if no_gui c then KC_NO else KC_RIGHT_GUI)
      else if keycode = KC_GRAVE then (if swap_grave_esc c then KC_ESCAPE else KC_GRAVE)
      else if keycode = KC_ESCAPE then
        (if swap_grave_esc c then KC_GRAVE else if swap_escape_capslock c then KC_CAPS_LOCK else KC_ESCAPE)
      else if keycode = KC_BACKSLASH then (if swap_backslash_backspace c then KC_BACKSPACE else KC_BACKSLASH)
      else if keycode = KC_BACKSPACE then (if swap_backslash_backspace c then KC_BACKSLASH else KC_BACKSPACE)
      else keycode)"

definition mod_config :: "u16 \<Rightarrow> u8 \<Rightarrow> u8" where
  "mod_config c mod0 =
     (let m1 = (if swap_lalt_lgui c \<and> (mod0 AND MOD_RALT = MOD_LALT) \<noteq> (mod0 AND MOD_RGUI = MOD_LGUI)
                then mod0 XOR (MOD_LALT OR MOD_LGUI) else mod0);
          m2 = (if swap_ralt_rgui c \<and> (m1 AND MOD_RALT = MOD_RALT) \<noteq> (m1 AND MOD_RGUI = MOD_RGUI)
                then m1 XOR (MOD_LALT OR MOD_LGUI) else m1);
          m3 = (if swap_lctl_lgui c \<and> (m2 AND MOD_RCTL = MOD_LCTL) \<noteq> (m2 AND MOD_RGUI = MOD_LGUI)
                then m2 XOR (MOD_LCTL OR MOD_LGUI) else m2);
          m4 = (if swap_rctl_rgui c \<and> (m3 AND MOD_RCTL = MOD_RCTL) \<noteq> (m3 AND MOD_RGUI = MOD_RGUI)
                then m3 XOR (MOD_LCTL OR MOD_LGUI) else m3) in
      if no_gui c \<and> m4 AND MOD_LGUI \<noteq> 0 then m4 AND NOT MOD_RGUI else m4)"

subsection \<open>Action codes\<close>

type_synonym action_t = u16

definition ACTION :: "u16 \<Rightarrow> u16 \<Rightarrow> action_t" where "ACTION knd param = push_bit 12 knd OR param"
definition ACTION_NO :: action_t where [hw_defs]: "ACTION_NO = 0"
definition ACTION_TRANSPARENT :: action_t where [hw_defs]: "ACTION_TRANSPARENT = 1"
definition ACT_MODS :: u16 where [hw_defs]: "ACT_MODS = 0"
definition ACT_MODS_TAP :: u16 where [hw_defs]: "ACT_MODS_TAP = 2"
definition ACT_USAGE :: u16 where [hw_defs]: "ACT_USAGE = 4"
definition ACT_MOUSEKEY :: u16 where [hw_defs]: "ACT_MOUSEKEY = 5"
definition ACT_LAYER :: u16 where [hw_defs]: "ACT_LAYER = 8"
definition ACT_LAYER_MODS :: u16 where [hw_defs]: "ACT_LAYER_MODS = 9"
definition ACT_LAYER_TAP :: u16 where [hw_defs]: "ACT_LAYER_TAP = 10"
definition OP_BIT_XOR :: u16 where [hw_defs]: "OP_BIT_XOR = 2"
definition OP_BIT_SET :: u16 where [hw_defs]: "OP_BIT_SET = 3"
definition ON_PRESS :: u16 where [hw_defs]: "ON_PRESS = 1"
definition ON_RELEASE :: u16 where [hw_defs]: "ON_RELEASE = 2"
definition OP_TAP_TOGGLE :: u16 where [hw_defs]: "OP_TAP_TOGGLE = 0xF0"
definition OP_ON_OFF :: u16 where [hw_defs]: "OP_ON_OFF = 0xF1"
definition OP_ONESHOT :: u16 where [hw_defs]: "OP_ONESHOT = 0xF4"

definition ACTION_KEY :: "u16 \<Rightarrow> action_t" where "ACTION_KEY key = ACTION ACT_MODS key"
definition ACTION_MODS_KEY :: "u8 \<Rightarrow> u16 \<Rightarrow> action_t" where
  "ACTION_MODS_KEY mods key = ACTION ACT_MODS (push_bit 8 (ucast mods AND 0x1F) OR key)"
definition ACTION_MODS_TAP_KEY :: "u8 \<Rightarrow> u16 \<Rightarrow> action_t" where
  "ACTION_MODS_TAP_KEY mods key = ACTION ACT_MODS_TAP (push_bit 8 (ucast mods AND 0x1F) OR key)"
definition ACTION_MODS_ONESHOT :: "u8 \<Rightarrow> action_t" where "ACTION_MODS_ONESHOT mods = ACTION_MODS_TAP_KEY mods 0"
definition ACTION_USAGE_SYSTEM :: "u16 \<Rightarrow> action_t" where "ACTION_USAGE_SYSTEM i = ACTION ACT_USAGE i"
definition ACTION_USAGE_CONSUMER :: "u16 \<Rightarrow> action_t" where "ACTION_USAGE_CONSUMER i = ACTION ACT_USAGE (push_bit 10 1 OR i)"
definition ACTION_MOUSEKEY :: "u16 \<Rightarrow> action_t" where "ACTION_MOUSEKEY key = ACTION ACT_MOUSEKEY key"
definition ACTION_LAYER_BITOP :: "u16 \<Rightarrow> u16 \<Rightarrow> u16 \<Rightarrow> u16 \<Rightarrow> action_t" where
  "ACTION_LAYER_BITOP op part bits on = ACTION ACT_LAYER (push_bit 10 op OR push_bit 8 on OR push_bit 5 part OR (bits AND 0x1F))"
definition ACTION_LAYER_TAP :: "u16 \<Rightarrow> u16 \<Rightarrow> action_t" where
  "ACTION_LAYER_TAP layer key = ACTION ACT_LAYER_TAP (push_bit 8 layer OR key)"
definition ACTION_LAYER_BIT :: "u16 \<Rightarrow> u16 \<Rightarrow> u16 \<Rightarrow> action_t" where
  "ACTION_LAYER_BIT op layer on = ACTION_LAYER_BITOP op (layer div 4) (push_bit (unat (layer mod 4)) 1) on"
definition ACTION_LAYER_MODS :: "u16 \<Rightarrow> u16 \<Rightarrow> action_t" where
  "ACTION_LAYER_MODS layer mods = ACTION ACT_LAYER_MODS (push_bit 8 layer OR mods)"

definition KEYCODE2SYSTEM :: "u16 \<Rightarrow> u16" where
  "KEYCODE2SYSTEM key = (case map_of [(0xA5, 0x81), (0xA6, 0x82), (0xA7, 0x83)] key of Some u \<Rightarrow> u | None \<Rightarrow> 0)"

definition consumer_usages :: "(u16 \<times> u16) list" where
  "consumer_usages =
     [(0xA8, 0x0E2), (0xA9, 0x0E9), (0xAA, 0x0EA), (0xAB, 0x0B5), (0xAC, 0x0B6), (0xBB, 0x0B3), (0xBC, 0x0B4),
      (0xAD, 0x0B7), (0xB0, 0x0CC), (0xAE, 0x0CD), (0xAF, 0x183), (0xB1, 0x18A), (0xB2, 0x192), (0xB3, 0x194),
      (0xBF, 0x19F), (0xC0, 0x1CB), (0xB4, 0x221), (0xB5, 0x223), (0xB6, 0x224), (0xB7, 0x225), (0xB8, 0x226),
      (0xB9, 0x227), (0xBD, 0x06F), (0xBE, 0x070), (0xBA, 0x22A), (0xC1, 0x29F), (0xC2, 0x2A0)]"

definition KEYCODE2CONSUMER :: "u16 \<Rightarrow> u16" where
  "KEYCODE2CONSUMER key = (case map_of consumer_usages key of Some u \<Rightarrow> u | None \<Rightarrow> 0)"

definition in_range :: "u16 \<Rightarrow> u16 \<Rightarrow> u16 \<Rightarrow> bool" where "in_range lo hi k \<longleftrightarrow> lo \<le> k \<and> k \<le> hi"

definition action_for_keycode :: "u16 \<Rightarrow> u16 \<Rightarrow> action_t" where
  "action_for_keycode c keycode0 =
     (let keycode = keycode_config c keycode0;
          low5 = keycode AND 0x1F;
          low8 = keycode AND 0xFF;
          mods5 = ucast (drop_bit 8 keycode AND 0x1F) in
      if in_range 0x04 0xA4 keycode \<or> in_range 0xE0 0xE7 keycode then ACTION_KEY keycode
      else if in_range 0xA5 0xA7 keycode then ACTION_USAGE_SYSTEM (KEYCODE2SYSTEM keycode)
      else if in_range 0xA8 0xC2 keycode then ACTION_USAGE_CONSUMER (KEYCODE2CONSUMER keycode)
      else if in_range 0xCD 0xDF keycode then ACTION_MOUSEKEY keycode
      else if keycode = KC_TRNS then ACTION_TRANSPARENT
      else if in_range 0x0100 0x1FFF keycode then ACTION_MODS_KEY (mod_config c mods5) (keycode_config c low8)
      else if in_range 0x4000 0x4FFF keycode then ACTION_LAYER_TAP (drop_bit 8 keycode AND 0xF) (keycode_config c low8)
      else if in_range 0x5200 0x521F keycode then ACTION_LAYER_BIT OP_BIT_SET low5 ON_PRESS
      else if in_range 0x5220 0x523F keycode then ACTION_LAYER_TAP low5 OP_ON_OFF
      else if in_range 0x5240 0x525F keycode then ACTION_LAYER_BIT OP_BIT_SET low5 0
      else if in_range 0x5260 0x527F keycode then ACTION_LAYER_BIT OP_BIT_XOR low5 ON_RELEASE
      else if in_range 0x5280 0x529F keycode then ACTION_LAYER_TAP low5 OP_ONESHOT
      else if in_range 0x52A0 0x52BF keycode then ACTION_MODS_ONESHOT (mod_config c (ucast low5))
      else if in_range 0x52C0 0x52DF keycode then ACTION_LAYER_TAP low5 OP_TAP_TOGGLE
      else if in_range 0x5000 0x51FF keycode then
        (let m = mod_config c (ucast low5) in
         ACTION_LAYER_MODS (drop_bit 5 keycode AND 0xF) (ucast (if m AND 0x10 \<noteq> 0 then push_bit 4 (m AND 0xF) else m)))
      else if in_range 0x2000 0x3FFF keycode then ACTION_MODS_TAP_KEY (mod_config c mods5) (keycode_config c low8)
      else ACTION_NO)"

definition keymap_key_to_keycode :: "'e eeprom_driver \<Rightarrow> nat \<Rightarrow> keypos_t \<Rightarrow> 'e \<Rightarrow> u16" where
  "keymap_key_to_keycode E layer key e =
     (if unat (row key) < MATRIX_ROWS \<and> unat (col key) < MATRIX_COLS
      then keycode_at_keymap_location E layer (unat (row key)) (unat (col key)) e
      else if row key = KEYLOC_ENCODER_CW \<and> unat (col key) < NUM_ENCODERS
      then keycode_at_encodermap_location E layer (unat (col key)) True e
      else if row key = KEYLOC_ENCODER_CCW \<and> unat (col key) < NUM_ENCODERS
      then keycode_at_encodermap_location E layer (unat (col key)) False e
      else KC_NO)"

definition action_for_key :: "'e eeprom_driver \<Rightarrow> u16 \<Rightarrow> nat \<Rightarrow> keypos_t \<Rightarrow> 'e \<Rightarrow> action_t" where
  "action_for_key E c layer key e = action_for_keycode c (keymap_key_to_keycode E layer key e)"

section \<open>The swaps permute keys\<close>

text \<open>
  With the options as formatted nothing is swapped. Otherwise, unless the Gui keys are disabled,
  Caps Lock is made a Control or one key is named by two swaps, swapping twice is the identity.
\<close>

lemma keymap_config_default_raw: "keymap_config_default = 0x1400"
  by (simp add: keymap_config_default_def)

lemma default_options [simp]:
  "\<not> swap_control_capslock keymap_config_default" "\<not> capslock_to_control keymap_config_default"
  "\<not> swap_lalt_lgui keymap_config_default" "\<not> swap_ralt_rgui keymap_config_default" "\<not> no_gui keymap_config_default"
  "\<not> swap_grave_esc keymap_config_default" "\<not> swap_backslash_backspace keymap_config_default"
  "\<not> swap_lctl_lgui keymap_config_default" "\<not> swap_rctl_rgui keymap_config_default"
  "\<not> swap_escape_capslock keymap_config_default"
  by (simp_all add: keymap_option_defs keymap_config_default_raw)

lemma config_default_id:
  "keycode_config keymap_config_default k = k" "mod_config keymap_config_default m = m"
  by (simp_all add: keycode_config_def mod_config_def Let_def)

lemma keycode_config_involution:
  assumes "\<not> no_gui c" "\<not> capslock_to_control c" "\<not> (swap_control_capslock c \<and> swap_escape_capslock c)"
    "\<not> (swap_control_capslock c \<and> swap_lctl_lgui c)" "\<not> (swap_lalt_lgui c \<and> swap_lctl_lgui c)"
    "\<not> (swap_ralt_rgui c \<and> swap_rctl_rgui c)" "\<not> (swap_grave_esc c \<and> swap_escape_capslock c)"
    and "k \<noteq> KC_LOCKING_CAPS_LOCK"
  shows "keycode_config c (keycode_config c k) = k"
proof -
  consider "k = KC_CAPS_LOCK" | "k = KC_LEFT_CTRL" | "k = KC_LEFT_ALT" | "k = KC_LEFT_GUI" | "k = KC_RIGHT_CTRL"
    | "k = KC_RIGHT_ALT" | "k = KC_RIGHT_GUI" | "k = KC_GRAVE" | "k = KC_ESCAPE" | "k = KC_BACKSLASH" | "k = KC_BACKSPACE"
    | "k \<notin> {KC_CAPS_LOCK, KC_LEFT_CTRL, KC_LEFT_ALT, KC_LEFT_GUI, KC_RIGHT_CTRL, KC_RIGHT_ALT, KC_RIGHT_GUI, KC_GRAVE,
        KC_ESCAPE, KC_BACKSLASH, KC_BACKSPACE}" by blast
  then show ?thesis by cases (use assms in \<open>auto simp: keycode_config_def hw_defs\<close>)
qed

end
