(* ===== verification/Action_Layer.thy ===== *)
theory Action_Layer
  imports Keymap
begin

text \<open>
  Layers, \<^verbatim>\<open>quantum/action_layer.c\<close>: the default and the active layer mask, which layer a key takes
  its action from, and the cache that makes a release use the layer of its press. Debug output and
  the empty keyboard, user and module hooks are left out.
\<close>

section \<open>Model\<close>

definition MAX_LAYER :: nat where [hw_defs]: "MAX_LAYER = DYNAMIC_KEYMAP_LAYER_COUNT"
definition MAX_LAYER_BITS :: nat where [hw_defs]: "MAX_LAYER_BITS = 3"

record 'e layers = "'e fw" +
  source_layers_cache :: "u8 list list"
  encoder_source_layers_cache :: "u8 list list"
  disable_action_cache :: bool

subsection \<open>Layer masks\<close>

definition default_layer_state_set :: "layer_state_t \<Rightarrow> ('e, 'z) fw_scheme \<Rightarrow> ('e, 'z) fw_scheme" where
  "default_layer_state_set state st = st\<lparr>default_layer_state := state\<rparr>"

definition default_layer_set :: "layer_state_t \<Rightarrow> ('e, 'z) fw_scheme \<Rightarrow> ('e, 'z) fw_scheme" where
  "default_layer_set state = default_layer_state_set state"

definition default_layer_or :: "layer_state_t \<Rightarrow> ('e, 'z) fw_scheme \<Rightarrow> ('e, 'z) fw_scheme" where
  "default_layer_or state st = default_layer_state_set (default_layer_state st OR state) st"

definition default_layer_and :: "layer_state_t \<Rightarrow> ('e, 'z) fw_scheme \<Rightarrow> ('e, 'z) fw_scheme" where
  "default_layer_and state st = default_layer_state_set (default_layer_state st AND state) st"

definition default_layer_xor :: "layer_state_t \<Rightarrow> ('e, 'z) fw_scheme \<Rightarrow> ('e, 'z) fw_scheme" where
  "default_layer_xor state st = default_layer_state_set (default_layer_state st XOR state) st"

definition layer_state_set :: "layer_state_t \<Rightarrow> ('e, 'z) fw_scheme \<Rightarrow> ('e, 'z) fw_scheme" where
  "layer_state_set state st = st\<lparr>layer_state := state\<rparr>"

definition layer_clear :: "('e, 'z) fw_scheme \<Rightarrow> ('e, 'z) fw_scheme" where
  "layer_clear = layer_state_set 0"

definition layer_state_cmp :: "layer_state_t \<Rightarrow> nat \<Rightarrow> bool" where
  "layer_state_cmp cmp_layer_state layer \<longleftrightarrow>
     (if cmp_layer_state = 0 then layer = 0 else cmp_layer_state AND push_bit layer 1 \<noteq> 0)"

definition layer_state_is :: "nat \<Rightarrow> ('e, 'z) fw_scheme \<Rightarrow> bool" where
  "layer_state_is layer st = layer_state_cmp (layer_state st) layer"

definition layer_move :: "nat \<Rightarrow> ('e, 'z) fw_scheme \<Rightarrow> ('e, 'z) fw_scheme" where
  "layer_move layer = layer_state_set (push_bit layer 1)"

definition layer_on :: "nat \<Rightarrow> ('e, 'z) fw_scheme \<Rightarrow> ('e, 'z) fw_scheme" where
  "layer_on layer st = layer_state_set (layer_state st OR push_bit layer 1) st"

definition layer_off :: "nat \<Rightarrow> ('e, 'z) fw_scheme \<Rightarrow> ('e, 'z) fw_scheme" where
  "layer_off layer st = layer_state_set (layer_state st AND NOT (push_bit layer 1)) st"

definition layer_invert :: "nat \<Rightarrow> ('e, 'z) fw_scheme \<Rightarrow> ('e, 'z) fw_scheme" where
  "layer_invert layer st = layer_state_set (layer_state st XOR push_bit layer 1) st"

definition layer_or :: "layer_state_t \<Rightarrow> ('e, 'z) fw_scheme \<Rightarrow> ('e, 'z) fw_scheme" where
  "layer_or state st = layer_state_set (layer_state st OR state) st"

definition layer_and :: "layer_state_t \<Rightarrow> ('e, 'z) fw_scheme \<Rightarrow> ('e, 'z) fw_scheme" where
  "layer_and state st = layer_state_set (layer_state st AND state) st"

definition layer_xor :: "layer_state_t \<Rightarrow> ('e, 'z) fw_scheme \<Rightarrow> ('e, 'z) fw_scheme" where
  "layer_xor state st = layer_state_set (layer_state st XOR state) st"

definition update_tri_layer_state :: "layer_state_t \<Rightarrow> nat \<Rightarrow> nat \<Rightarrow> nat \<Rightarrow> layer_state_t" where
  "update_tri_layer_state state layer1 layer2 layer3 =
     (let mask12 = push_bit layer1 1 OR push_bit layer2 1;
          mask3 = push_bit layer3 1 in
      if state AND mask12 = mask12 then state OR mask3 else state AND NOT mask3)"

definition update_tri_layer :: "nat \<Rightarrow> nat \<Rightarrow> nat \<Rightarrow> ('e, 'z) fw_scheme \<Rightarrow> ('e, 'z) fw_scheme" where
  "update_tri_layer layer1 layer2 layer3 st = layer_state_set (update_tri_layer_state (layer_state st) layer1 layer2 layer3) st"

subsection \<open>The source layer cache\<close>

text \<open>
  The layer of entry \<open>n\<close> is spread over three bit planes: bit \<open>n mod 8\<close> of the bytes of cell \<open>n div 8\<close>.
\<close>

definition update_source_layers_cache_impl :: "u8 \<Rightarrow> nat \<Rightarrow> u8 list list \<Rightarrow> u8 list list" where
  "update_source_layers_cache_impl layer entry_number planes =
     (let storage_idx = entry_number div 8;
          storage_bit = entry_number mod 8 in
      for_range MAX_LAYER_BITS (\<lambda>bit_number planes.
        let c = planes ! storage_idx ! bit_number;
            w = (if layer AND push_bit bit_number 1 \<noteq> 0 then - 1 else 0) :: u8 in
        planes[storage_idx := (planes ! storage_idx)[bit_number := c XOR ((w XOR c) AND push_bit storage_bit 1)]]) planes)"

definition read_source_layers_cache_impl :: "nat \<Rightarrow> u8 list list \<Rightarrow> u8" where
  "read_source_layers_cache_impl entry_number planes =
     (let storage_idx = entry_number div 8;
          storage_bit = entry_number mod 8 in
      for_range MAX_LAYER_BITS (\<lambda>bit_number layer.
        layer OR push_bit bit_number (if planes ! storage_idx ! bit_number AND push_bit storage_bit 1 \<noteq> 0 then 1 else 0)) 0)"

definition in_matrix :: "keypos_t \<Rightarrow> bool" where
  "in_matrix key \<longleftrightarrow> unat (row key) < MATRIX_ROWS \<and> unat (col key) < MATRIX_COLS"

definition key_entry :: "keypos_t \<Rightarrow> nat" where
  "key_entry key = unat (row key) * MATRIX_COLS + unat (col key)"

definition update_source_layers_cache :: "keypos_t \<Rightarrow> u8 \<Rightarrow> ('e, 'z) layers_scheme \<Rightarrow> ('e, 'z) layers_scheme" where
  "update_source_layers_cache key layer st =
     (if in_matrix key then
        st\<lparr>source_layers_cache := update_source_layers_cache_impl layer (key_entry key) (source_layers_cache st)\<rparr>
      else if row key = KEYLOC_ENCODER_CW \<or> row key = KEYLOC_ENCODER_CCW then
        st\<lparr>encoder_source_layers_cache := update_source_layers_cache_impl layer (unat (col key)) (encoder_source_layers_cache st)\<rparr>
      else st)"

definition read_source_layers_cache :: "keypos_t \<Rightarrow> ('e, 'z) layers_scheme \<Rightarrow> u8" where
  "read_source_layers_cache key st =
     (if in_matrix key then read_source_layers_cache_impl (key_entry key) (source_layers_cache st)
      else if row key = KEYLOC_ENCODER_CW \<or> row key = KEYLOC_ENCODER_CCW then
        read_source_layers_cache_impl (unat (col key)) (encoder_source_layers_cache st)
      else 0)"

subsection \<open>The layer and the action of a key\<close>

definition layer_switch_get_layer :: "'e eeprom_driver \<Rightarrow> keypos_t \<Rightarrow> ('e, 'z) fw_scheme \<Rightarrow> nat" where
  "layer_switch_get_layer E key st =
     (let layers = layer_state st OR default_layer_state st in
      case find (\<lambda>i. layers AND push_bit i 1 \<noteq> 0 \<and> action_for_key E (keymap_config st) i key (ee st) \<noteq> ACTION_TRANSPARENT)
        (rev [0..<MAX_LAYER]) of
        Some i \<Rightarrow> i
      | None \<Rightarrow> 0)"

definition layer_switch_get_action :: "'e eeprom_driver \<Rightarrow> keypos_t \<Rightarrow> ('e, 'z) fw_scheme \<Rightarrow> action_t" where
  "layer_switch_get_action E key st = action_for_key E (keymap_config st) (layer_switch_get_layer E key st) key (ee st)"

definition store_or_get_action ::
  "'e eeprom_driver \<Rightarrow> bool \<Rightarrow> keypos_t \<Rightarrow> ('e, 'z) layers_scheme \<Rightarrow> action_t \<times> ('e, 'z) layers_scheme" where
  "store_or_get_action E event_pressed key st =
     (if disable_action_cache st then (layer_switch_get_action E key st, st)
      else if event_pressed then
        (let layer = layer_switch_get_layer E key st;
             st' = update_source_layers_cache key (word_of_nat layer) st in
         (action_for_key E (keymap_config st') layer key (ee st'), st'))
      else (action_for_key E (keymap_config st) (unat (read_source_layers_cache key st)) key (ee st), st))"

section \<open>The cache holds what was stored\<close>

definition plane_bit :: "u8 list list \<Rightarrow> nat \<Rightarrow> nat \<Rightarrow> bool" where
  "plane_bit planes n b = bit (planes ! (n div 8) ! b) (n mod 8)"

definition planes_ok :: "nat \<Rightarrow> u8 list list \<Rightarrow> bool" where
  "planes_ok n planes \<longleftrightarrow> n < 8 * length planes \<and> (\<forall>c\<in>set planes. length c = 3)"

lemma bit_mask_iff: "(x :: u8) AND push_bit m 1 \<noteq> 0 \<longleftrightarrow> bit x m"
  by (simp add: and_exp_eq_0_iff_not_bit)

definition set_plane :: "u8 \<Rightarrow> nat \<Rightarrow> nat \<Rightarrow> u8 \<Rightarrow> u8" where
  "set_plane layer n b c = c XOR (((if layer AND push_bit b 1 \<noteq> 0 then - 1 else 0) XOR c) AND push_bit (n mod 8) 1)"

lemma bit_set_plane:
  assumes "j < 8"
  shows "bit (set_plane layer n b c) j \<longleftrightarrow> (if j = n mod 8 then bit layer b else bit c j)"
  using assms unfolding set_plane_def bit_mask_iff by (auto simp: bit_simps)

lemma update_planes_cell:
  assumes "n div 8 < length planes" "planes ! (n div 8) = [c0, c1, c2]"
  shows "update_source_layers_cache_impl layer n planes
    = planes[n div 8 := [set_plane layer n 0 c0, set_plane layer n (Suc 0) c1, set_plane layer n (Suc (Suc 0)) c2]]"
  using assms
  by (simp only: update_source_layers_cache_impl_def Let_def MAX_LAYER_BITS_def numeral_3_eq_3 for_range_Suc for_range_0
      set_plane_def [symmetric]) simp

lemma planes_cell:
  assumes "planes_ok n planes"
  obtains c0 c1 c2 where "n div 8 < length planes" "planes ! (n div 8) = [c0, c1, c2]"
proof -
  have "n div 8 < length planes" "length (planes ! (n div 8)) = 3" using assms by (auto simp: planes_ok_def)
  then show thesis using that by (auto simp: length_Suc_conv numeral_3_eq_3)
qed

lemma update_planes:
  assumes "planes_ok n planes"
  shows "planes_ok k planes \<Longrightarrow> planes_ok k (update_source_layers_cache_impl layer n planes)"
    and "planes_ok m planes \<Longrightarrow> b < 3 \<Longrightarrow> plane_bit (update_source_layers_cache_impl layer n planes) m b
      = (if m = n then bit layer b else plane_bit planes m b)"
proof -
  obtain c0 c1 c2 where c: "n div 8 < length planes" "planes ! (n div 8) = [c0, c1, c2]" using planes_cell [OF assms] .
  note u = update_planes_cell [OF c, of layer]
  show "planes_ok k (update_source_layers_cache_impl layer n planes)" if "planes_ok k planes"
    using that set_update_subset_insert [of planes "n div 8"] by (fastforce simp: u planes_ok_def)
  show "plane_bit (update_source_layers_cache_impl layer n planes) m b = (if m = n then bit layer b else plane_bit planes m b)"
    if "planes_ok m planes" "b < 3"
  proof (cases "m div 8 = n div 8")
    case True
    then have "m mod 8 = n mod 8 \<longleftrightarrow> m = n" using div_mult_mod_eq [of m 8] div_mult_mod_eq [of n 8] by metis
    moreover have "b = 0 \<or> b = Suc 0 \<or> b = Suc (Suc 0)" using that(2) by auto
    ultimately show ?thesis using True c by (auto simp: plane_bit_def u bit_set_plane)
  next
    case False
    then show ?thesis by (auto simp: plane_bit_def u)
  qed
qed

lemma bit_flag: "bit (push_bit k (if p then 1 else 0) :: u8) b \<longleftrightarrow> p \<and> b = k \<and> k < 8"
  by (auto simp: bit_simps)

lemma read_planes: "bit (read_source_layers_cache_impl n planes) b \<longleftrightarrow> b < 3 \<and> plane_bit planes n b"
  unfolding read_source_layers_cache_impl_def Let_def MAX_LAYER_BITS_def numeral_3_eq_3 for_range_Suc for_range_0
    bit_mask_iff plane_bit_def [symmetric] bit_or_iff bit_flag
  by (auto simp: less_Suc_eq)

lemma cache_roundtrip:
  assumes "planes_ok n planes"
  shows "layer < 8 \<Longrightarrow> read_source_layers_cache_impl n (update_source_layers_cache_impl layer n planes) = layer"
    and "planes_ok m planes \<Longrightarrow> m \<noteq> n \<Longrightarrow>
      read_source_layers_cache_impl m (update_source_layers_cache_impl layer n planes) = read_source_layers_cache_impl m planes"
proof -
  show "read_source_layers_cache_impl n (update_source_layers_cache_impl layer n planes) = layer" if "layer < 8"
  proof (rule bit_word_eqI)
    fix b
    have "take_bit 3 layer = layer"
      using that by (simp add: word_unat_eq_iff unsigned_take_bit_eq take_bit_nat_eq_self_iff word_less_nat_alt)
    then have "bit layer b \<Longrightarrow> b < 3" by (metis bit_take_bit_iff)
    then show "bit (read_source_layers_cache_impl n (update_source_layers_cache_impl layer n planes)) b = bit layer b"
      using update_planes(2) [OF assms assms, of b layer] by (auto simp: read_planes)
  qed
  show "read_source_layers_cache_impl m (update_source_layers_cache_impl layer n planes) = read_source_layers_cache_impl m planes"
    if "planes_ok m planes" "m \<noteq> n"
    by (rule bit_word_eqI) (use update_planes(2) [OF assms that(1)] that(2) in \<open>auto simp: read_planes\<close>)
qed

section \<open>The layer a key takes its action from\<close>

text \<open>
  The highest active layer that is not transparent at the key; layer 0 when there is none.
\<close>

lemma find_rev_upt_Some:
  "find P (rev [0..<n]) = Some i \<longleftrightarrow> i < n \<and> P i \<and> (\<forall>j. i < j \<and> j < n \<longrightarrow> \<not> P j)"
proof (induction n)
  case (Suc n)
  then show ?case by (cases "P n") (auto simp: less_Suc_eq)
qed simp

lemma find_rev_upt_None: "find P (rev [0..<n]) = None \<longleftrightarrow> (\<forall>i < n. \<not> P i)"
  by (auto simp: find_None_iff)

definition opaque :: "'e eeprom_driver \<Rightarrow> keypos_t \<Rightarrow> ('e, 'z) fw_scheme \<Rightarrow> nat \<Rightarrow> bool" where
  "opaque E key st i \<longleftrightarrow> bit (layer_state st OR default_layer_state st) i
     \<and> action_for_key E (keymap_config st) i key (ee st) \<noteq> ACTION_TRANSPARENT"

lemma get_layer_find:
  "layer_switch_get_layer E key st = (case find (opaque E key st) (rev [0..<4]) of Some i \<Rightarrow> i | None \<Rightarrow> 0)"
  unfolding layer_switch_get_layer_def Let_def bit_mask_iff opaque_def [abs_def] hw_defs ..

lemma get_layer_less: "layer_switch_get_layer E key st < 4"
  by (auto simp: get_layer_find find_rev_upt_Some split: option.split)

lemma get_layer_highest:
  "opaque E key st i \<Longrightarrow> i < 4 \<Longrightarrow> opaque E key st (layer_switch_get_layer E key st) \<and> i \<le> layer_switch_get_layer E key st"
  by (auto simp: get_layer_find find_rev_upt_Some find_rev_upt_None not_le split: option.split)

text \<open>
  A release uses the layer of its press, whatever happened to the layers and to the other keys'
  entries in between.
\<close>

definition caches_ok :: "('e, 'z) layers_scheme \<Rightarrow> bool" where
  "caches_ok st \<longleftrightarrow> planes_ok 79 (source_layers_cache st) \<and> planes_ok 7 (encoder_source_layers_cache st)"

lemma key_entry_less: "in_matrix key \<Longrightarrow> key_entry key < 80"
  by (auto simp: in_matrix_def key_entry_def hw_defs)

lemma planes_ok_less: "planes_ok n planes \<Longrightarrow> m \<le> n \<Longrightarrow> planes_ok m planes"
  by (auto simp: planes_ok_def)

lemma press_caches_layer:
  fixes E key st
  assumes "caches_ok st" "\<not> disable_action_cache st" "in_matrix key"
  defines "st' \<equiv> snd (store_or_get_action E True key st)"
  shows "unat (read_source_layers_cache key st') = layer_switch_get_layer E key st" "caches_ok st'"
    and "fst (store_or_get_action E True key st) = layer_switch_get_action E key st"
    and "in_matrix key' \<Longrightarrow> key' \<noteq> key \<Longrightarrow> read_source_layers_cache key' st' = read_source_layers_cache key' st"
proof -
  let ?l = "layer_switch_get_layer E key st"
  have ok: "planes_ok (key_entry key) (source_layers_cache st)"
    using assms(1) key_entry_less [OF assms(3)] by (auto simp: caches_ok_def intro: planes_ok_less)
  have l: "unat (word_of_nat ?l :: u8) = ?l" "(word_of_nat ?l :: u8) < 8"
    using get_layer_less [of E key st] by (simp_all add: unat_of_nat word_less_nat_alt)
  have st': "st' = st\<lparr>source_layers_cache := update_source_layers_cache_impl (word_of_nat ?l) (key_entry key) (source_layers_cache st)\<rparr>"
    using assms(2,3) by (simp add: st'_def store_or_get_action_def Let_def update_source_layers_cache_def)
  show "unat (read_source_layers_cache key st') = ?l"
    using cache_roundtrip(1) [OF ok l(2)] l(1) assms(3) by (simp add: st' read_source_layers_cache_def)
  show "caches_ok st'" using assms(1) update_planes(1) [OF ok] by (simp add: st' caches_ok_def)
  show "fst (store_or_get_action E True key st) = layer_switch_get_action E key st"
    using assms(2,3) by (simp add: store_or_get_action_def Let_def update_source_layers_cache_def layer_switch_get_action_def)
  show "read_source_layers_cache key' st' = read_source_layers_cache key' st" if k: "in_matrix key'" "key' \<noteq> key"
  proof -
    have "key_entry key' \<noteq> key_entry key"
    proof
      assume e: "key_entry key' = key_entry key"
      have "unat (row key') = unat (row key)"
        using arg_cong [OF e, of "\<lambda>n. n div 16"] k(1) assms(3) by (simp add: key_entry_def in_matrix_def hw_defs)
      moreover have "unat (col key') = unat (col key)"
        using arg_cong [OF e, of "\<lambda>n. n mod 16"] k(1) assms(3) by (simp add: key_entry_def in_matrix_def hw_defs)
      ultimately show False using k(2) by (simp add: word_unat_eq_iff [symmetric])
    qed
    then show ?thesis
      using cache_roundtrip(2) [OF ok planes_ok_less [of 79 _ "key_entry key'"]] assms(1) k(1) key_entry_less [OF k(1)]
      by (simp add: st' read_source_layers_cache_def caches_ok_def)
  qed
qed

end
