(* ===== verification/Keyboard.thy ===== *)
theory Keyboard
  imports Action_Layer
begin

text \<open>
  The keyboard's main tasks: \<^verbatim>\<open>quantum/matrix_common.c\<close> with the global debounce of
  \<^verbatim>\<open>quantum/debounce/sym_defer_g.c\<close>, the matrix task, the activity timestamps and the start-up of
  \<^verbatim>\<open>quantum/keyboard.c\<close>, the wake-up matrix of \<^verbatim>\<open>platforms/suspend.c\<close> and \<^verbatim>\<open>quantum/bootmagic/bootmagic.c\<close>.

  \<open>matrix_task\<close> returns the key events in the order in which it hands them to \<^verbatim>\<open>action_exec\<close>. The
  start-up takes its three moments as environments: the initialisation, and the two scans of
  bootmagic, between which the code waits.
\<close>

section \<open>Model\<close>

record 'e kb = "'e layers" +
  encoder :: encoder_t
  wakeup_matrix :: matrix
  last_tick :: u16
  last_input_modification_time :: u32
  last_matrix_modification_time :: u32
  last_encoder_modification_time :: u32
  last_pointing_device_modification_time :: u32

definition DEBOUNCE :: u32 where [hw_defs]: "DEBOUNCE = 5"

subsection \<open>Timestamps\<close>

definition last_input_activity_elapsed :: "env \<Rightarrow> ('e, 'z) kb_scheme \<Rightarrow> u32" where
  "last_input_activity_elapsed env st = timer_ms env - last_input_modification_time st"

definition last_matrix_activity_elapsed :: "env \<Rightarrow> ('e, 'z) kb_scheme \<Rightarrow> u32" where
  "last_matrix_activity_elapsed env st = timer_ms env - last_matrix_modification_time st"

definition last_matrix_activity_trigger :: "env \<Rightarrow> ('e, 'z) kb_scheme \<Rightarrow> ('e, 'z) kb_scheme" where
  "last_matrix_activity_trigger env st =
     st\<lparr>last_input_modification_time := timer_ms env, last_matrix_modification_time := timer_ms env\<rparr>"

definition last_encoder_activity_elapsed :: "env \<Rightarrow> ('e, 'z) kb_scheme \<Rightarrow> u32" where
  "last_encoder_activity_elapsed env st = timer_ms env - last_encoder_modification_time st"

definition last_encoder_activity_trigger :: "env \<Rightarrow> ('e, 'z) kb_scheme \<Rightarrow> ('e, 'z) kb_scheme" where
  "last_encoder_activity_trigger env st =
     st\<lparr>last_input_modification_time := timer_ms env, last_encoder_modification_time := timer_ms env\<rparr>"

definition set_activity_timestamps :: "u32 \<Rightarrow> u32 \<Rightarrow> u32 \<Rightarrow> ('e, 'z) kb_scheme \<Rightarrow> ('e, 'z) kb_scheme" where
  "set_activity_timestamps matrix_timestamp encoder_timestamp pointing_device_timestamp st =
     st\<lparr>last_matrix_modification_time := matrix_timestamp, last_encoder_modification_time := encoder_timestamp,
       last_pointing_device_modification_time := pointing_device_timestamp,
       last_input_modification_time := max matrix_timestamp (max encoder_timestamp pointing_device_timestamp)\<rparr>"

subsection \<open>The matrix\<close>

definition matrix_is_on :: "nat \<Rightarrow> nat \<Rightarrow> ('e, 'z) fw_scheme \<Rightarrow> bool" where
  "matrix_is_on r c st \<longleftrightarrow> cooked_matrix st ! r AND push_bit c 1 \<noteq> 0"

definition matrix_get_row :: "nat \<Rightarrow> ('e, 'z) fw_scheme \<Rightarrow> u16" where
  "matrix_get_row r st = cooked_matrix st ! r"

definition peek_matrix :: "nat \<Rightarrow> nat \<Rightarrow> bool \<Rightarrow> ('e, 'z) fw_scheme \<Rightarrow> bool" where
  "peek_matrix row_index col_index raw st \<longleftrightarrow>
     (if raw then raw_matrix st ! row_index else cooked_matrix st ! row_index) AND push_bit col_index 1 \<noteq> 0"

text \<open>The debounce of the whole matrix; \<open>changed\<close> says that the raw matrix changed in this scan.\<close>

definition debounce_matrix :: "env \<Rightarrow> bool \<Rightarrow> ('e, 'z) fw_scheme \<Rightarrow> bool \<times> ('e, 'z) fw_scheme" where
  "debounce_matrix env changed st =
     (if changed then (False, st\<lparr>debouncing := True, debouncing_time := timer_ms env\<rparr>)
      else if debouncing st \<and> timer_ms env - debouncing_time st \<ge> DEBOUNCE then
        if cooked_matrix st \<noteq> raw_matrix st then (True, st\<lparr>cooked_matrix := raw_matrix st, debouncing := False\<rparr>)
        else (False, st\<lparr>debouncing := False\<rparr>)
      else (False, st))"

definition matrix_init :: "('e, 'z) fw_scheme \<Rightarrow> ('e, 'z) fw_scheme" where
  "matrix_init st =
     (matrix_init_custom st)\<lparr>raw_matrix := replicate MATRIX_ROWS 0, cooked_matrix := replicate MATRIX_ROWS 0\<rparr>"

definition matrix_scan :: "'e eeprom_driver \<Rightarrow> env \<Rightarrow> ('e, 'z) fw_scheme \<Rightarrow> bool \<times> ('e, 'z) fw_scheme" where
  "matrix_scan E env st =
     (let (changed, m, st1) = matrix_scan_custom E env (raw_matrix st) st in
      debounce_matrix env changed (st1\<lparr>raw_matrix := m\<rparr>))"

subsection \<open>Waking up\<close>

definition keypress_is_wakeup_key :: "nat \<Rightarrow> nat \<Rightarrow> ('e, 'z) kb_scheme \<Rightarrow> bool" where
  "keypress_is_wakeup_key r c st \<longleftrightarrow> wakeup_matrix st ! r AND push_bit c 1 \<noteq> 0"

definition wakeup_matrix_handle_key_event :: "nat \<Rightarrow> nat \<Rightarrow> bool \<Rightarrow> ('e, 'z) kb_scheme \<Rightarrow> ('e, 'z) kb_scheme" where
  "wakeup_matrix_handle_key_event r c press st =
     (if \<not> press then st\<lparr>wakeup_matrix := (wakeup_matrix st)[r := wakeup_matrix st ! r AND NOT (push_bit c 1)]\<rparr> else st)"

definition suspend_wakeup_condition :: "'e eeprom_driver \<Rightarrow> env \<Rightarrow> ('e, 'z) kb_scheme \<Rightarrow> bool \<times> ('e, 'z) kb_scheme" where
  "suspend_wakeup_condition E env st =
     (let st1 = snd (matrix_scan E env st);
          st2 = st1\<lparr>wakeup_matrix := map (\<lambda>r. matrix_get_row r st1) [0..<MATRIX_ROWS]\<rparr> in
      (\<exists>r\<in>set [0..<MATRIX_ROWS]. wakeup_matrix st2 ! r \<noteq> 0, st2))"

definition update_matrix_state_after_wakeup :: "'e eeprom_driver \<Rightarrow> env \<Rightarrow> ('e, 'z) kb_scheme \<Rightarrow> ('e, 'z) kb_scheme" where
  "update_matrix_state_after_wakeup E env st =
     for_range MATRIX_ROWS (\<lambda>r st.
       let current_row = matrix_get_row r st in
       st\<lparr>wakeup_matrix := (wakeup_matrix st)[r := wakeup_matrix st ! r OR current_row AND NOT (matrix_previous st ! r)],
         matrix_previous := (matrix_previous st)[r := matrix_previous st ! r OR current_row]\<rparr>)
       (snd (matrix_scan E env st))"

subsection \<open>The matrix task\<close>

definition generate_tick_event :: "env \<Rightarrow> ('e, 'z) kb_scheme \<Rightarrow> keyevent_t list \<times> ('e, 'z) kb_scheme" where
  "generate_tick_event env st =
     (let now = timer_read env in
      if now - last_tick st \<noteq> 0 then ([MAKE_TICK_EVENT env], st\<lparr>last_tick := now\<rparr>) else ([], st))"

definition switch_events :: "nat \<Rightarrow> nat \<Rightarrow> bool \<Rightarrow> ('e, 'z) kb_scheme \<Rightarrow> ('e, 'z) kb_scheme" where
  "switch_events r c press = wakeup_matrix_handle_key_event r c press"

text \<open>One iteration of the inner loop, on a changed or unchanged column, and one of the outer loop.\<close>

definition matrix_task_col ::
  "env \<Rightarrow> nat \<Rightarrow> u16 \<Rightarrow> u16 \<Rightarrow> nat \<Rightarrow> keyevent_t list \<times> ('e, 'z) kb_scheme \<Rightarrow> keyevent_t list \<times> ('e, 'z) kb_scheme" where
  "matrix_task_col env r current_row row_changes c = (\<lambda>(evs, st).
     if row_changes AND push_bit c 1 \<noteq> 0 then
       let key_pressed = (current_row AND push_bit c 1 \<noteq> 0) in
       (if \<not> keypress_is_wakeup_key r c st
        then evs @ [MAKE_KEYEVENT env (word_of_nat r) (word_of_nat c) key_pressed] else evs,
        switch_events r c key_pressed st)
     else (evs, st))"

definition matrix_task_row ::
  "env \<Rightarrow> nat \<Rightarrow> keyevent_t list \<times> ('e, 'z) kb_scheme \<Rightarrow> keyevent_t list \<times> ('e, 'z) kb_scheme" where
  "matrix_task_row env r = (\<lambda>(evs, st).
     let current_row = matrix_get_row r st;
         row_changes = current_row XOR matrix_previous st ! r in
     if row_changes = 0 then (evs, st)
     else
       let (evs', st') = for_range MATRIX_COLS (matrix_task_col env r current_row row_changes) (evs, st) in
       (evs', st'\<lparr>matrix_previous := (matrix_previous st')[r := current_row]\<rparr>))"

definition matrix_task ::
  "'e eeprom_driver \<Rightarrow> env \<Rightarrow> ('e, 'z) kb_scheme \<Rightarrow> bool \<times> keyevent_t list \<times> ('e, 'z) kb_scheme" where
  "matrix_task E env st =
     (let st1 = snd (matrix_scan E env st);
          matrix_changed = (\<exists>r\<in>set [0..<MATRIX_ROWS]. matrix_previous st1 ! r XOR matrix_get_row r st1 \<noteq> 0) in
      if \<not> matrix_changed then (False, generate_tick_event env st1)
      else (True, for_range MATRIX_ROWS (matrix_task_row env) ([], st1)))"

subsection \<open>Start-up\<close>

definition bootmagic :: "'e eeprom_driver \<Rightarrow> env \<Rightarrow> env \<Rightarrow> ('e, 'z) fw_scheme \<Rightarrow> ('e, 'z) fw_scheme" where
  "bootmagic E env1 env2 st = snd (matrix_scan E env2 (snd (matrix_scan E env1 st)))"

definition quantum_init ::
  "'e eeprom_driver \<Rightarrow> flash_keymap \<Rightarrow> bytes \<Rightarrow> env \<Rightarrow> env \<Rightarrow> ('e, 'z) fw_scheme \<Rightarrow> ('e, 'z) fw_scheme" where
  "quantum_init E K date env1 env2 st =
     (let st1 = (if \<not> eeconfig_is_enabled E date (ee st) then eeconfig_init E K date st else st);
          st2 = st1\<lparr>debug_config := nvm_eeconfig_read_debug E (ee st1)\<rparr>;
          st3 = st2\<lparr>keymap_config := nvm_eeconfig_read_keymap E (ee st2)\<rparr>;
          st4 = bootmagic E env1 env2 st3 in
      default_layer_set (nvm_eeconfig_read_default_layer E (ee st4)) st4)"

text \<open>\<open>driver_init\<close> is the EEPROM driver's own \<^verbatim>\<open>eeprom_driver_init\<close>.\<close>

definition keyboard_setup ::
  "'e eeprom_driver \<Rightarrow> ('e \<Rightarrow> 'e) \<Rightarrow> flash_keymap \<Rightarrow> bytes \<Rightarrow> ('e, 'z) fw_scheme \<Rightarrow> ('e, 'z) fw_scheme" where
  "keyboard_setup E driver_init K date st = keyboard_pre_init_kb E K date (st\<lparr>ee := driver_init (ee st)\<rparr>)"

definition keyboard_init ::
  "'e eeprom_driver \<Rightarrow> flash_keymap \<Rightarrow> bytes \<Rightarrow> env \<Rightarrow> env \<Rightarrow> env \<Rightarrow> bytes \<Rightarrow> bytes \<Rightarrow> ('e, 'z) kb_scheme \<Rightarrow> ('e, 'z) kb_scheme" where
  "keyboard_init E K date env env1 env2 stk stk2 st =
     (let st1 = st\<lparr>ee := via_init E K date (ee st)\<rparr>;
          (g, enc) = encoder_init env (gpio st1) (encoder st1);
          st2 = st1\<lparr>gpio := g, encoder := enc\<rparr>;
          st3 = matrix_init st2;
          st4 = quantum_init E K date env1 env2 st3;
          st5 = rgblight_init E st4 in
      keyboard_post_init_kb E stk stk2 st5)"

section \<open>What a scan leaves alone\<close>

text \<open>
  The scan of the Hall sensors changes the keyboard's own variables only: everything the quantum
  layer adds to the state, the \<open>more\<close> part of the record, stays, and so does the flag that the light is running.
\<close>

definition scan_rest :: "('e, 'z) board_scheme \<Rightarrow> 'z \<times> bool" where
  "scan_rest st = (board.more st, is_rgblight_initialized (rgblight st))"

lemma more_rgb [simp]: "board.more (map_rgb f st) = board.more st"
  by (simp add: map_rgb_def)

lemma initialized_leds [simp]:
  "is_rgblight_initialized (set_led rgb i g) = is_rgblight_initialized g"
  "is_rgblight_initialized (fold (set_led rgb) is g) = is_rgblight_initialized g"
proof -
  show s: "is_rgblight_initialized (set_led rgb i g) = is_rgblight_initialized g" for rgb i g
    by (simp add: set_led_def ws2812_set_color_def)
  show "is_rgblight_initialized (fold (set_led rgb) is g) = is_rgblight_initialized g"
    by (induction "is" arbitrary: g) (simp_all add: s)
qed

lemma rest_sethsv_at [simp]: "scan_rest (rgblight_sethsv_at h s v i st) = scan_rest st"
proof -
  have "board.more (rgblight_sethsv_at h s v i st) = board.more st" by (subst rgb_ops_map_rgb(4)) simp
  moreover have "is_rgblight_initialized (rgblight (rgblight_sethsv_at h s v i st)) = is_rgblight_initialized (rgblight st)"
    by (simp add: rgblight_sethsv_at_def rgblight_setrgb_at_def rgblight_set_def Let_def set_leds_def ws2812_flush_def)
  ultimately show ?thesis by (simp add: scan_rest_def)
qed

lemma rest_update [simp]:
  "scan_rest (st\<lparr>gpio := g\<rparr>) = scan_rest st" "scan_rest (st\<lparr>he_config := c\<rparr>) = scan_rest st"
  "scan_rest (st\<lparr>he_rest_floor := f\<rparr>) = scan_rest st" "scan_rest (st\<lparr>he_cal_latched := l\<rparr>) = scan_rest st"
  "scan_rest (st\<lparr>he_phys_pressed := p\<rparr>) = scan_rest st" "scan_rest (st\<lparr>he_debounced := d\<rparr>) = scan_rest st"
  "scan_rest (st\<lparr>socd_winner := w\<rparr>) = scan_rest st" "scan_rest (st\<lparr>he_scan_count := n\<rparr>) = scan_rest st"
  "scan_rest (st\<lparr>autosave_pending := a\<rparr>) = scan_rest st"
  by (simp_all add: scan_rest_def)

lemma rest_scan_sensor:
  fixes s :: "bool list \<times> ('e, 'z) board_scheme"
  shows "scan_rest (snd (scan_sensor env i s)) = scan_rest (snd s)"
proof -
  have "scan_rest (scan_analog env i st) = scan_rest st" for st :: "('e, 'z) board_scheme"
    by (simp add: scan_analog_def scan_decide_def scan_latch_def scan_accumulate_def scan_floor_def Let_def split: prod.split)
  moreover have "scan_rest (debounce_sensor i st) = scan_rest st" "scan_rest (scan_push env i st) = scan_rest st"
    for st :: "('e, 'z) board_scheme"
    by (simp_all add: debounce_sensor_def scan_push_def Let_def split: prod.split)
  ultimately show ?thesis by (cases s; cases "i = HE_ENC_PUSH_INDEX"; simp add: scan_sensor_def Let_def)
qed

lemma rest_fold:
  assumes "\<And>i s. scan_rest (g (f i s)) = scan_rest (g s)"
  shows "scan_rest (g (fold f is s)) = scan_rest (g s)"
  by (induction "is" arbitrary: s) (simp_all add: assms)

lemma rest_commit [simp]: "scan_rest (he_via_commit_thresholds E st) = scan_rest st"
  by (simp add: he_via_commit_thresholds_def he_save_to_eeprom_def he_save_settings_to_eeprom_def he_set_actuation_def
      he_set_release_def each_config_def Let_def scan_rest_def)

lemma rest_scan:
  fixes st :: "('e, 'z) board_scheme"
  shows "scan_rest (snd (snd (matrix_scan_custom E env m st))) = scan_rest st"
proof -
  have 1: "scan_rest (snd (scan_sensors env st)) = scan_rest st" for st :: "('e, 'z) board_scheme"
    by (simp add: scan_sensors_def rest_fold [of snd "scan_sensor env", OF rest_scan_sensor])
  have 2: "scan_rest (lock_boot_calibration st) = scan_rest st" for st :: "('e, 'z) board_scheme"
    by (simp add: lock_boot_calibration_def each_config_def)
  have pair: "scan_rest (snd (socd_pair newly p s)) = scan_rest (snd s)" for newly p and s :: "bool list \<times> ('e, 'z) board_scheme"
    by (cases s; cases "socd_pairs ! p"; simp add: socd_pair_def Let_def)
  have 3: "scan_rest (snd (socd_resolve newly st)) = scan_rest st" for newly and st :: "('e, 'z) board_scheme"
    by (simp add: socd_resolve_def rest_fold [of snd "socd_pair newly", OF pair])
  have 4: "scan_rest (snd (snd (fold (commit_key s) is (a, m, st)))) = scan_rest st" for s "is" a m and st :: "('e, 'z) board_scheme"
    by (rule trans [OF rest_fold [of "\<lambda>s. snd (snd s)"]]) (simp_all add: commit_key_def Let_def split: prod.split)
  have 5: "scan_rest (he_via_task E env st) = scan_rest st" for st :: "('e, 'z) board_scheme"
    by (simp add: he_via_task_def)
  show ?thesis
    unfolding matrix_scan_custom_def Let_def
    by (simp add: case_prod_beta 1 2 3 4 5)
qed

lemma more_scan: "board.more (snd (snd (matrix_scan_custom E env m st))) = board.more st"
  using rest_scan [of E env m st] by (simp add: scan_rest_def)

lemma more_fields:
  assumes "board.more st' = board.more (st :: ('e, 'z) fw_scheme)"
  shows "default_layer_state st' = default_layer_state st" "layer_state st' = layer_state st" "debug_config st' = debug_config st"
    "keymap_config st' = keymap_config st" "raw_matrix st' = raw_matrix st" "cooked_matrix st' = cooked_matrix st"
    "debouncing st' = debouncing st" "debouncing_time st' = debouncing_time st" "matrix_previous st' = matrix_previous st"
    "fw.more st' = fw.more st"
  using assms by (cases st; cases st'; simp)+

lemma fw_more_fields:
  assumes "fw.more st' = fw.more (st :: ('e, 'z) kb_scheme)"
  shows "source_layers_cache st' = source_layers_cache st" "encoder_source_layers_cache st' = encoder_source_layers_cache st"
    "disable_action_cache st' = disable_action_cache st" "encoder st' = encoder st" "wakeup_matrix st' = wakeup_matrix st"
    "last_tick st' = last_tick st"
  using assms by (cases st; cases st'; simp)+

section \<open>The events of the matrix task\<close>

text \<open>
  \<open>row_events\<close>: one event per changed key of a row that is not a wake-up key, from left to right;
  \<open>matrix_events\<close>: the rows from top to bottom.
\<close>

definition row_events :: "env \<Rightarrow> nat \<Rightarrow> u16 \<Rightarrow> u16 \<Rightarrow> u16 \<Rightarrow> nat \<Rightarrow> keyevent_t list" where
  "row_events env r prev cur wk n =
     map (\<lambda>c. MAKE_KEYEVENT env (word_of_nat r) (word_of_nat c) (bit cur c))
       (filter (\<lambda>c. bit cur c \<noteq> bit prev c \<and> \<not> bit wk c) [0..<n])"

definition matrix_events :: "env \<Rightarrow> matrix \<Rightarrow> matrix \<Rightarrow> matrix \<Rightarrow> keyevent_t list" where
  "matrix_events env prev cur wk =
     concat (map (\<lambda>r. row_events env r (prev ! r) (cur ! r) (wk ! r) MATRIX_COLS) [0..<MATRIX_ROWS])"

lemma and_bit_iff: "x AND push_bit c 1 \<noteq> 0 \<longleftrightarrow> bit (x :: 'a::len word) c"
  by (simp add: and_exp_eq_0_iff_not_bit)

text \<open>\<open>wake_clear n w x\<close>: the first \<open>n\<close> columns of the wake-up row \<open>w\<close> have lost the keys in \<open>x\<close>.\<close>

definition wake_clear :: "nat \<Rightarrow> u16 \<Rightarrow> u16 \<Rightarrow> u16" where
  "wake_clear n w x = w AND NOT (take_bit n x)"

lemma wake_clear_Suc:
  "n < 16 \<Longrightarrow> wake_clear (Suc n) w x = (if bit x n then wake_clear n w x AND NOT (push_bit n 1) else wake_clear n w x)"
  unfolding wake_clear_def by (rule bit_word_eqI) (auto simp: bit_simps less_Suc_eq)

lemma wake_clear_simps: "wake_clear 0 w x = w" "wake_clear 16 w x = w AND NOT x" "n < 16 \<Longrightarrow> bit (wake_clear n w x) n = bit w n"
  by (auto simp: wake_clear_def take_bit_word_eq_self bit_simps)

lemma matrix_task_col_bits:
  "matrix_task_col env r cur ch c (evs, st) =
     (if bit ch c then
        (if \<not> bit (wakeup_matrix st ! r) c then evs @ [MAKE_KEYEVENT env (word_of_nat r) (word_of_nat c) (bit cur c)] else evs,
         if bit cur c then st
         else st\<lparr>wakeup_matrix := (wakeup_matrix st)[r := wakeup_matrix st ! r AND NOT (push_bit c 1)]\<rparr>)
      else (evs, st))"
  unfolding matrix_task_col_def switch_events_def wakeup_matrix_handle_key_event_def keypress_is_wakeup_key_def and_bit_iff Let_def
  by simp

definition released :: "u16 \<Rightarrow> u16 \<Rightarrow> u16" where
  "released prev cur = (cur XOR prev) AND NOT cur"

lemma bit_released: "n < 16 \<Longrightarrow> bit (released prev cur) n \<longleftrightarrow> bit prev n \<and> \<not> bit cur n"
  by (auto simp: released_def bit_simps)

lemma matrix_task_cols:
  fixes st :: "('e, 'z) kb_scheme" and prev cur :: u16
  assumes "r < length (wakeup_matrix st)" "n \<le> 16"
  shows "for_range n (matrix_task_col env r cur (cur XOR prev)) (evs, st) =
    (evs @ row_events env r prev cur (wakeup_matrix st ! r) n,
     st\<lparr>wakeup_matrix := (wakeup_matrix st)[r := wake_clear n (wakeup_matrix st ! r) (released prev cur)]\<rparr>)"
  using assms(2)
proof (induction n)
  case 0
  then show ?case by (simp add: row_events_def wake_clear_simps)
next
  case (Suc n)
  have n: "n < 16" using Suc.prems by simp
  have ch: "bit (cur XOR prev) n \<longleftrightarrow> bit cur n \<noteq> bit prev n" by (simp add: bit_simps)
  show ?case
    using Suc assms(1) n
    by (simp add: for_range_Suc matrix_task_col_bits ch row_events_def wake_clear_Suc wake_clear_simps bit_released)
qed

lemma row_events_same: "row_events env r x x w n = []"
  by (simp add: row_events_def)

text \<open>One row, whether or not the code skips it.\<close>

lemma matrix_task_row_eq:
  fixes st :: "('e, 'z) kb_scheme"
  assumes "r < length (wakeup_matrix st)"
  shows "matrix_task_row env r (evs, st) =
    (let cur = cooked_matrix st ! r; prev = matrix_previous st ! r in
     (evs @ row_events env r prev cur (wakeup_matrix st ! r) 16,
      st\<lparr>wakeup_matrix := (wakeup_matrix st)[r := wakeup_matrix st ! r AND NOT (released prev cur)],
        matrix_previous := (matrix_previous st)[r := cur]\<rparr>))"
proof -
  have diff: "x XOR y = 0 \<longleftrightarrow> x = y" for x y :: u16 by (auto simp: bit_eq_iff bit_xor_iff)
  have none: "w AND NOT (released x x) = w" for w x by (simp add: released_def)
  show ?thesis
    using assms matrix_task_cols [OF assms, of 16 env "cooked_matrix st ! r" "matrix_previous st ! r" evs]
    by (auto simp: matrix_task_row_def matrix_get_row_def row_events_same none diff hw_defs Let_def wake_clear_simps)
qed

lemma map_if_update:
  "(map (\<lambda>r. if r < n then f r else g r) [0..<5])[n := f n] = map (\<lambda>r. if r < Suc n then f r else g r) [0..<5]"
  by (rule nth_equalityI) (auto simp: nth_list_update less_Suc_eq)

lemma matrix_task_rows:
  fixes st :: "('e, 'z) kb_scheme"
  assumes "length (wakeup_matrix st) = 5" "length (matrix_previous st) = 5" "n \<le> 5"
  shows "for_range n (matrix_task_row env) (evs, st) =
    (evs @ concat (map (\<lambda>r. row_events env r (matrix_previous st ! r) (cooked_matrix st ! r) (wakeup_matrix st ! r) 16) [0..<n]),
     st\<lparr>wakeup_matrix := map (\<lambda>r. if r < n then wakeup_matrix st ! r AND NOT (released (matrix_previous st ! r) (cooked_matrix st ! r))
           else wakeup_matrix st ! r) [0..<5],
        matrix_previous := map (\<lambda>r. if r < n then cooked_matrix st ! r else matrix_previous st ! r) [0..<5]\<rparr>)"
  using assms(3)
proof (induction n)
  case 0
  have "map (\<lambda>r. wakeup_matrix st ! r) [0..<5] = wakeup_matrix st" "map (\<lambda>r. matrix_previous st ! r) [0..<5] = matrix_previous st"
    using map_nth [of "wakeup_matrix st"] map_nth [of "matrix_previous st"] assms(1,2) by simp_all
  then show ?case by simp
next
  case (Suc n)
  then show ?case by (simp add: for_range_Suc matrix_task_row_eq Let_def map_if_update [symmetric])
qed

lemma matrix_task_events:
  fixes st :: "('e, 'z) kb_scheme" and E env
  defines "st1 \<equiv> snd (matrix_scan E env st)"
  assumes "length (wakeup_matrix st1) = 5" "length (matrix_previous st1) = 5" "length (cooked_matrix st1) = 5"
  shows "matrix_task E env st =
    (if cooked_matrix st1 = matrix_previous st1 then (False, generate_tick_event env st1)
     else (True, matrix_events env (matrix_previous st1) (cooked_matrix st1) (wakeup_matrix st1),
       st1\<lparr>wakeup_matrix := map2 (\<lambda>w x. w AND NOT x) (wakeup_matrix st1)
            (map2 released (matrix_previous st1) (cooked_matrix st1)),
         matrix_previous := cooked_matrix st1\<rparr>))"
proof -
  have diff: "x XOR y = 0 \<longleftrightarrow> x = y" for x y :: u16 by (auto simp: bit_eq_iff bit_xor_iff)
  have ch: "(\<exists>r\<in>set [0..<MATRIX_ROWS]. matrix_previous st1 ! r XOR matrix_get_row r st1 \<noteq> 0) \<longleftrightarrow> cooked_matrix st1 \<noteq> matrix_previous st1"
    using assms(3,4) by (auto simp: matrix_get_row_def diff hw_defs list_eq_iff_nth_eq) (metis atLeastLessThan_iff zero_le)
  have maps: "map (\<lambda>r. if r < 5 then wakeup_matrix st1 ! r AND NOT (released (matrix_previous st1 ! r) (cooked_matrix st1 ! r))
      else wakeup_matrix st1 ! r) [0..<5]
    = map2 (\<lambda>w x. w AND NOT x) (wakeup_matrix st1) (map2 released (matrix_previous st1) (cooked_matrix st1))"
    "map (\<lambda>r. if r < 5 then cooked_matrix st1 ! r else matrix_previous st1 ! r) [0..<5] = cooked_matrix st1"
    using assms(2-4) by (auto intro!: nth_equalityI)
  show ?thesis
    using matrix_task_rows [OF assms(2,3), of 5 env "[]"]
    unfolding matrix_task_def Let_def st1_def [symmetric] ch maps
    by (simp add: matrix_events_def hw_defs)
qed

section \<open>Replaying the events\<close>

text \<open>
  A host that only sees the events can keep its own copy of the matrix: applied to the previous
  matrix they give the current one.
\<close>

definition apply_event :: "keyevent_t \<Rightarrow> matrix \<Rightarrow> matrix" where
  "apply_event ev m = (let r = unat (row (ev_key ev)); c = unat (col (ev_key ev)) in m[r := row_write (ev_pressed ev) c (m ! r)])"

definition mix :: "nat \<Rightarrow> u16 \<Rightarrow> u16 \<Rightarrow> u16" where
  "mix n prev cur = (cur AND mask n) OR (prev AND NOT (mask n))"

lemma bit_mix: "j < 16 \<Longrightarrow> bit (mix n prev cur) j = (if j < n then bit cur j else bit prev j)"
  by (auto simp: mix_def bit_simps)

lemma mix_simps: "mix 0 prev cur = prev" "mix 16 prev cur = cur"
  by (rule bit_word_eqI; simp add: bit_mix)+

lemma mix_Suc: "n < 16 \<Longrightarrow> mix (Suc n) prev cur = (if bit cur n \<noteq> bit prev n then row_write (bit cur n) n (mix n prev cur) else mix n prev cur)"
  by (rule bit_word_eqI) (auto simp: bit_mix bit_row_write less_Suc_eq)

lemma replay_row:
  assumes "r < length m" "m ! r = prev" "r < 256" "n \<le> 16"
  shows "fold apply_event (row_events env r prev cur 0 n) m = m[r := mix n prev cur]"
  using assms(4)
proof (induction n)
  case 0
  then show ?case using assms by (simp add: row_events_def mix_simps flip: assms(2))
next
  case (Suc n)
  have n: "n < 16" "unat (word_of_nat n :: u8) = n" "unat (word_of_nat r :: u8) = r"
    using Suc.prems assms(3) by (simp_all add: unat_of_nat)
  show ?case
    using Suc assms n
    by (simp add: row_events_def apply_event_def MAKE_KEYEVENT_def MAKE_EVENT_def mix_Suc Let_def)
qed

lemma replay_events:
  assumes "length prev = 5" "length cur = 5" "wk = replicate 5 0"
  shows "fold apply_event (matrix_events env prev cur wk) prev = cur"
proof -
  have "fold apply_event (concat (map (\<lambda>r. row_events env r (prev ! r) (cur ! r) 0 16) [0..<n])) prev
      = map (\<lambda>r. if r < n then cur ! r else prev ! r) [0..<5]" if "n \<le> 5" for n
    using that
  proof (induction n)
    case 0
    then show ?case using map_nth [of prev] assms(1) by simp
  next
    case (Suc n)
    let ?m = "map (\<lambda>r. if r < n then cur ! r else prev ! r) [0..<5]"
    have "fold apply_event (row_events env n (prev ! n) (cur ! n) 0 16) ?m = ?m[n := cur ! n]"
      using Suc.prems by (subst replay_row) (simp_all add: mix_simps)
    also have "\<dots> = map (\<lambda>r. if r < Suc n then cur ! r else prev ! r) [0..<5]"
      by (rule map_if_update)
    finally show ?case using Suc by simp
  qed
  from this [of 5] have "fold apply_event (concat (map (\<lambda>r. row_events env r (prev ! r) (cur ! r) 0 16) [0..<5])) prev = cur"
    using assms(2) by (auto intro!: nth_equalityI)
  moreover have "map (\<lambda>r. row_events env r (prev ! r) (cur ! r) (wk ! r) 16) [0..<5]
      = map (\<lambda>r. row_events env r (prev ! r) (cur ! r) 0 16) [0..<5]"
    using assms(3) by simp
  ultimately show ?thesis by (simp only: matrix_events_def hw_defs)
qed

section \<open>The debounced matrix\<close>

text \<open>
  \<open>matrix_ok\<close>: the raw matrix shows the reported state of every sensor and nothing else, and the
  debounced matrix lags behind it only while a change is being debounced.
\<close>

definition matrix_ok :: "('e, 'z) fw_scheme \<Rightarrow> bool" where
  "matrix_ok st \<longleftrightarrow> length (raw_matrix st) = 5 \<and> length (cooked_matrix st) = 5
     \<and> (\<forall>i<69. matrix_bit (raw_matrix st) (sensor_pos i) = pressed (he_config st ! i))
     \<and> (\<forall>r<5. \<forall>c<16. (r, c) \<notin> sensor_pos ` {..<69} \<longrightarrow> \<not> bit (raw_matrix st ! r) c)
     \<and> (\<not> debouncing st \<longrightarrow> cooked_matrix st = raw_matrix st)"

lemma matrix_eqI:
  assumes "length m = 5" "length m' = 5" "\<And>i. i < 69 \<Longrightarrow> matrix_bit m (sensor_pos i) = matrix_bit m' (sensor_pos i)"
    and "\<And>r c. r < 5 \<Longrightarrow> c < 16 \<Longrightarrow> (r, c) \<notin> sensor_pos ` {..<69} \<Longrightarrow> bit (m ! r) c = bit (m' ! r) c"
  shows "(m :: matrix) = m'"
proof (rule nth_equalityI)
  fix r assume "r < length m"
  then have r: "r < 5" using assms(1) by simp
  show "m ! r = m' ! r"
  proof (rule bit_word_eqI)
    fix c assume "c < LENGTH(16)"
    then have c: "c < 16" by simp
    show "bit (m ! r) c = bit (m' ! r) c"
    proof (cases "(r, c) \<in> sensor_pos ` {..<69}")
      case True
      then obtain i where "sensor_pos i = (r, c)" "i < 69" by (metis imageE lessThan_iff)
      then show ?thesis using assms(3) [of i] by (simp add: matrix_bit_def)
    qed (use assms(4) r c in blast)
  qed
qed (use assms in simp)

text \<open>
  The matrix a scan leaves. It becomes the reported state in a scan that saw no change and comes
  at least five milliseconds after the last one that did; otherwise it is kept.
\<close>

context board_wiring
begin

lemma matrix_scan_result:
  fixes st :: "('e, 'z) fw_scheme"
  assumes scan: "matrix_scan E env st = (ch, st')" and ok: "he_ok st" "matrix_ok st"
  defines "quiet \<equiv> \<forall>i<69. pressed (he_config st' ! i) = pressed (he_config st ! i)"
  shows "cooked_matrix st' = (if quiet \<and> (debouncing st \<longrightarrow> DEBOUNCE \<le> timer_ms env - debouncing_time st)
      then raw_matrix st' else cooked_matrix st)"
    and "ch \<longleftrightarrow> cooked_matrix st' \<noteq> cooked_matrix st" "matrix_ok st'" "he_ok st'" "rgb_ok (rgblight st) \<Longrightarrow> rgb_ok (rgblight st')"
    and "cfg st' = cfg st" "fw.more st' = fw.more st" "matrix_previous st' = matrix_previous st"
    and "is_rgblight_initialized (rgblight st') = is_rgblight_initialized (rgblight st)"
    and "\<not> autosave_pending st \<Longrightarrow> ee st' = ee st \<and> \<not> autosave_pending st'" "he_mode st' = he_mode st" "he_tuning st' = he_tuning st"
    and "debug_config st' = debug_config st" "keymap_config st' = keymap_config st"
proof -
  obtain changed m s1 where r: "matrix_scan_custom E env (raw_matrix st) st = (changed, m, s1)" by (metis prod_cases3)
  have len: "length (raw_matrix st) = 5" using ok(2) by (simp add: matrix_ok_def)
  have o: "arrays_ok st" "length (socd_winner st) = 2" using arrays_ok_he_ok [OF ok(1)] by simp_all
  note rep = scan_reports [OF r o len] and inv = scan_invariants [OF r ok(1) len]
  have more: "board.more s1 = board.more st" using more_scan [of E env "raw_matrix st" st] by (simp add: r)
  note f = more_fields [OF more]
  have st': "debounce_matrix env changed (s1\<lparr>raw_matrix := m\<rparr>) = (ch, st')" using scan by (simp add: matrix_scan_def r)
  have cfg_eq: "he_config st' = he_config s1" "raw_matrix st' = m" "he_ok st' = he_ok s1" "rgblight st' = rgblight s1"
    "fw.more st' = fw.more s1" "matrix_previous st' = matrix_previous s1" "ee st' = ee s1" "autosave_pending st' = autosave_pending s1"
    "he_mode st' = he_mode s1" "he_tuning st' = he_tuning s1" "debug_config st' = debug_config s1" "keymap_config st' = keymap_config s1"
    using st' by (auto simp: debounce_matrix_def he_ok_def split: if_splits)
  have q: "quiet \<longleftrightarrow> \<not> changed" using rep(5) by (auto simp: quiet_def cfg_eq)
  have same: "m = raw_matrix st" if "\<not> changed"
  proof (rule matrix_eqI [OF rep(6) len])
    show "matrix_bit m (sensor_pos i) = matrix_bit (raw_matrix st) (sensor_pos i)" if "i < 69" for i
      using rep(3,5) ok(2) that \<open>\<not> changed\<close> by (simp add: matrix_ok_def)
  qed (use rep(4) in blast)
  have settled: "\<not> debouncing st \<Longrightarrow> cooked_matrix st = raw_matrix st" using ok(2) by (simp add: matrix_ok_def)
  show "cooked_matrix st' = (if quiet \<and> (debouncing st \<longrightarrow> DEBOUNCE \<le> timer_ms env - debouncing_time st)
      then raw_matrix st' else cooked_matrix st)"
    using st' same settled f by (auto simp: debounce_matrix_def q cfg_eq split: if_splits)
  show "ch \<longleftrightarrow> cooked_matrix st' \<noteq> cooked_matrix st"
    using st' f by (auto simp: debounce_matrix_def split: if_splits)
  have "cooked_matrix st' = raw_matrix st'" if "\<not> debouncing st'"
    using st' same settled f that by (auto simp: debounce_matrix_def split: if_splits)
  moreover have "length (cooked_matrix st') = 5"
    using st' f rep(6) ok(2) by (auto simp: debounce_matrix_def matrix_ok_def split: if_splits)
  ultimately show "matrix_ok st'"
    using rep(3,4,6) ok(2) by (auto simp: matrix_ok_def cfg_eq)
  show "he_ok st'" "rgb_ok (rgblight st) \<Longrightarrow> rgb_ok (rgblight st')" "cfg st' = cfg st"
    "fw.more st' = fw.more st" "matrix_previous st' = matrix_previous st"
    "debug_config st' = debug_config st" "keymap_config st' = keymap_config st"
    using inv f by (simp_all add: cfg_eq)
  show "is_rgblight_initialized (rgblight st') = is_rgblight_initialized (rgblight st)"
    using rest_scan [of E env "raw_matrix st" st] by (simp add: r scan_rest_def cfg_eq)
  show "\<not> autosave_pending st \<Longrightarrow> ee st' = ee st \<and> \<not> autosave_pending st'"
    using scan_no_save [OF r ok(1) len] by (simp add: cfg_eq)
  have "scan_ok (raw_matrix st, st)" using o len by (simp add: scan_ok_def)
  from scan_next_key(3,4) [OF r this] show "he_mode st' = he_mode st" "he_tuning st' = he_tuning st" by (simp_all add: cfg_eq)
qed

end

section \<open>Keys that wake the host\<close>

lemma update_matrix_state_after_wakeup_eq:
  fixes st :: "('e, 'z) kb_scheme" and E env
  defines "st1 \<equiv> snd (matrix_scan E env st)"
  assumes "length (wakeup_matrix st1) = 5" "length (matrix_previous st1) = 5"
  shows "update_matrix_state_after_wakeup E env st =
    st1\<lparr>wakeup_matrix := map (\<lambda>r. wakeup_matrix st1 ! r OR cooked_matrix st1 ! r AND NOT (matrix_previous st1 ! r)) [0..<5],
      matrix_previous := map (\<lambda>r. matrix_previous st1 ! r OR cooked_matrix st1 ! r) [0..<5]\<rparr>"
proof -
  let ?f = "\<lambda>r. wakeup_matrix st1 ! r OR cooked_matrix st1 ! r AND NOT (matrix_previous st1 ! r)"
    and ?g = "\<lambda>r. matrix_previous st1 ! r OR cooked_matrix st1 ! r"
  let ?body = "\<lambda>r (st :: ('e, 'z) kb_scheme). let current_row = matrix_get_row r st in
       st\<lparr>wakeup_matrix := (wakeup_matrix st)[r := wakeup_matrix st ! r OR current_row AND NOT (matrix_previous st ! r)],
         matrix_previous := (matrix_previous st)[r := matrix_previous st ! r OR current_row]\<rparr>"
  have "for_range n ?body st1 = st1\<lparr>wakeup_matrix := map (\<lambda>r. if r < n then ?f r else wakeup_matrix st1 ! r) [0..<5],
      matrix_previous := map (\<lambda>r. if r < n then ?g r else matrix_previous st1 ! r) [0..<5]\<rparr>" if "n \<le> 5" for n
    using that
  proof (induction n)
    case 0
    then show ?case using map_nth [of "wakeup_matrix st1"] map_nth [of "matrix_previous st1"] assms(2,3) by simp
  next
    case (Suc n)
    then show ?case by (simp add: for_range_Suc matrix_get_row_def Let_def map_if_update [symmetric])
  qed
  from this [of 5] show ?thesis by (simp add: update_matrix_state_after_wakeup_def hw_defs flip: st1_def cong: map_cong)
qed

text \<open>An event is reported for a key iff the key changed and did not wake the host.\<close>

lemma matrix_events_iff:
  "MAKE_KEYEVENT env (word_of_nat r) (word_of_nat c) p \<in> set (matrix_events env prev cur wk) \<longleftrightarrow>
     bit (cur ! r) c = p \<and> bit (cur ! r) c \<noteq> bit (prev ! r) c \<and> \<not> bit (wk ! r) c" if "r < 5" "c < 16"
proof -
  have inj: "(word_of_nat a :: u8) = word_of_nat b \<longleftrightarrow> a = b" if "a < 16" "b < 16" for a b
  proof -
    have "unat (word_of_nat a :: u8) = a" "unat (word_of_nat b :: u8) = b" using that by (simp_all add: unat_of_nat)
    then show ?thesis by metis
  qed
  show ?thesis
    using that inj by (auto simp: matrix_events_def row_events_def MAKE_KEYEVENT_def MAKE_EVENT_def hw_defs image_iff)
qed

end
