(* ===== verification/Firmware.thy ===== *)
theory Firmware
  imports Keyboard
begin

text \<open>
  The firmware as a whole: the variables at reset, the start-up, and the step relation of the main
  loop, in which scans, encoder polls, host packets, the keyboard's keycodes, light commands and
  layer changes interleave in any order. The invariant \<open>kb_ok\<close> holds after the start-up and is
  kept by every step.
\<close>

section \<open>The invariant\<close>

definition kb_ok :: "('e, 'z) kb_scheme \<Rightarrow> bool" where
  "kb_ok st \<longleftrightarrow> fw_ok st \<and> matrix_ok st \<and> length (matrix_previous st) = 5 \<and> length (wakeup_matrix st) = 5
     \<and> enc_ok (encoder st) \<and> caches_ok st"

text \<open>
  \<open>keys_frame\<close>: the reported key states and everything the quantum layer keeps are untouched; what
  the keyboard's own setters and the host's packets have in common.
\<close>

definition keys_frame :: "('e, 'z) board_scheme \<Rightarrow> ('e, 'z) board_scheme \<Rightarrow> bool" where
  "keys_frame st st' \<longleftrightarrow> board.more st' = board.more st \<and> map pressed (he_config st') = map pressed (he_config st)"

lemma keys_frame_refl [simp]: "keys_frame st st"
  by (simp add: keys_frame_def)

lemma keys_frame_trans: "keys_frame a b \<Longrightarrow> keys_frame b c \<Longrightarrow> keys_frame a c"
  by (simp add: keys_frame_def)

lemma keys_frame_ee [simp]: "keys_frame st (st\<lparr>ee := e\<rparr>)"
  by (simp add: keys_frame_def)

lemma keys_frame_map_rgb: "keys_frame st (map_rgb f st)"
  by (simp add: keys_frame_def)

lemma keys_frame_each:
  assumes "length (he_config st) = HE_SENSOR_COUNT" "\<And>i c. pressed (f i c) = pressed c"
  shows "keys_frame st (each_config f st)"
  using assms by (auto simp: keys_frame_def each_config_def intro!: nth_equalityI)

lemma keys_frame_matrix_ok:
  assumes "keys_frame st (st' :: ('e, 'z) fw_scheme)" "matrix_ok st" "length (he_config st) = 69"
  shows "matrix_ok st'"
proof -
  have m: "board.more st' = board.more st" "map pressed (he_config st') = map pressed (he_config st)"
    using assms(1) by (simp_all add: keys_frame_def)
  have "pressed (he_config st' ! i) = pressed (he_config st ! i)" if "i < 69" for i
    using arg_cong [OF m(2), of "\<lambda>xs. xs ! i"] arg_cong [OF m(2), of length] assms(3) that by simp
  then show ?thesis using assms(2) by (simp add: matrix_ok_def more_fields [OF m(1)])
qed

lemma keys_frame_kb_ok:
  assumes "keys_frame st (st' :: ('e, 'z) kb_scheme)" "kb_ok st" "fw_ok st'"
  shows "kb_ok st'"
proof -
  have m: "board.more st' = board.more st" using assms(1) by (simp add: keys_frame_def)
  note f = more_fields [OF m]
  have "length (he_config st) = 69" using assms(2) by (simp add: kb_ok_def fw_ok_def he_ok_def hw_defs)
  then show ?thesis
    using assms keys_frame_matrix_ok [OF assms(1)] f(9) fw_more_fields [OF f(10)]
    by (simp add: kb_ok_def caches_ok_def)
qed

subsection \<open>Operations that keep the frame\<close>

lemma keys_frame_save [simp]: "keys_frame st (he_save_to_eeprom E st)" "keys_frame st (he_save_settings_to_eeprom E st)"
  by (simp_all add: he_save_to_eeprom_def he_save_settings_to_eeprom_def keys_frame_def)

lemma keys_frame_set_mode: "keys_frame st (he_set_mode E m st)"
  by (simp add: he_set_mode_def he_save_settings_to_eeprom_def keys_frame_def split: option.split)

lemma keys_frame_commit:
  assumes "length (he_config st) = HE_SENSOR_COUNT"
  shows "keys_frame st (he_via_commit_thresholds E st)"
proof -
  have "keys_frame st (he_set_release b (he_set_actuation a st))" for a b
    unfolding he_set_release_def he_set_actuation_def Let_def
    by (rule keys_frame_trans; rule keys_frame_each) (simp_all add: assms)
  then show ?thesis
    by (simp add: he_via_commit_thresholds_def he_save_to_eeprom_def he_save_settings_to_eeprom_def keys_frame_def)
qed

text \<open>The light's operations change the light and the EEPROM only.\<close>

lemma more_rgb_ops [simp]:
  "core.more (map_rgb f st) = core.more st" "core.more (set_cfg c st) = core.more st"
  "core.more (eeconfig_update_rgblight E st) = core.more st" "core.more (eeconfig_read_rgblight E st) = core.more st"
  "core.more (rgblight_set st) = core.more st" "core.more (rgblight_setrgb rgb st) = core.more st"
  "core.more (rgblight_check_config st) = core.more st"
  by (simp_all add: map_rgb_def set_cfg_def eeconfig_update_rgblight_def eeconfig_read_rgblight_def rgblight_set_def
      rgblight_setrgb_def rgblight_check_config_def Let_def)

lemma more_rgb_helpers [simp]:
  "core.more (rgblight_sethsv_eeprom_helper E h s v w st) = core.more st"
  "core.more (rgblight_mode_eeprom_helper E m w st) = core.more st"
  "core.more (rgblight_sethsv_noeeprom E h s v st) = core.more st"
  by (simp_all add: rgblight_sethsv_eeprom_helper_def rgblight_mode_eeprom_helper_def rgblight_sethsv_noeeprom_def Let_def)

lemma more_rgb_exec [simp]: "core.more (rgb_exec E cmd st) = core.more st"
  by (cases cmd) (simp_all add: rgb_cmd_defs)

lemma core_more_frame: "core.more st' = core.more st \<Longrightarrow> keys_frame st st'"
  by (cases st; cases st') (simp add: keys_frame_def)

lemma core_more_fields:
  assumes "core.more st' = core.more (st :: ('e, 'z) board_scheme)"
  shows "he_config st' = he_config st" "he_mode st' = he_mode st" "he_tuning st' = he_tuning st"
    "autosave_pending st' = autosave_pending st" "gpio st' = gpio st" "he_ok st' = he_ok st"
  using assms by (cases st; cases st'; simp add: he_ok_def)+

lemma keys_frame_rgb_exec: "keys_frame st (rgb_exec E cmd st)"
  by (rule core_more_frame) simp

lemma keys_frame_rgb_execs: "keys_frame st (fold (rgb_exec E) cmds st)"
  by (induction cmds arbitrary: st) (auto intro: keys_frame_trans keys_frame_rgb_exec)

lemma keys_frame_calibration:
  assumes "length (he_config st) = HE_SENSOR_COUNT"
  shows "keys_frame st (he_start_calibration E st)" "keys_frame st (he_end_calibration E st)"
proof -
  have s: "board.more (rgblight_sethsv_noeeprom E h s v st0) = board.more st0" for st0 :: "('a, 'b) board_scheme" and h s v
    using core_more_frame [of "rgblight_sethsv_noeeprom E h s v st0" st0] by (simp add: keys_frame_def)
  have "map pressed (he_config st) = map (\<lambda>i. pressed (he_config st ! i)) [0..<HE_SENSOR_COUNT]"
    using assms by (auto intro!: nth_equalityI)
  moreover have "pressed (end_calibration_key f c) = pressed c" for f c by (simp add: end_calibration_key_def Let_def)
  ultimately show "keys_frame st (he_start_calibration E st)" "keys_frame st (he_end_calibration E st)"
    by (simp_all add: keys_frame_def start_calibration_sel end_calibration_sel comp_def if_distrib cong: if_cong)
      (simp_all add: he_start_calibration_def he_end_calibration_def Let_def s each_config_def)
qed

lemma keys_frame_set_value:
  assumes "length (he_config st) = HE_SENSOR_COUNT"
  shows "keys_frame st (he_via_set_value E env data st)"
proof -
  have "keys_frame st (he_via_commit_thresholds E (st\<lparr>staged_actuation := a, staged_release := r, staged_dirty := d\<rparr>))" for a r d
    using keys_frame_commit [of "st\<lparr>staged_actuation := a, staged_release := r, staged_dirty := d\<rparr>" E] assms
    by (simp add: keys_frame_def)
  moreover have "keys_frame st (he_via_arm_autosave env (st\<lparr>staged_actuation := a, staged_dirty := d\<rparr>))"
    "keys_frame st (he_via_arm_autosave env (st\<lparr>staged_release := a, staged_dirty := d\<rparr>))"
    "keys_frame st (he_via_arm_autosave env (he_set_deadzone a st))" "keys_frame st (he_via_arm_autosave env (he_set_engage a st))"
    "keys_frame st (he_via_arm_autosave env (he_set_release_dist a st))" for a d
    by (simp_all add: keys_frame_def he_via_arm_autosave_def he_set_deadzone_def he_set_engage_def he_set_release_dist_def)
  ultimately show ?thesis
    by (simp add: he_via_set_value_def Let_def keys_frame_commit [OF assms] keys_frame_set_mode keys_frame_calibration [OF assms])
qed

lemma keys_frame_custom_command:
  assumes "length (he_config st) = HE_SENSOR_COUNT"
  shows "keys_frame st (snd (via_custom_value_command E env data st))"
proof -
  have "keys_frame st (via_qmk_rgblight_set_value E data' st)" for data'
    by (rule via_rgblight_cmds [of E data' st]) (simp add: keys_frame_rgb_execs)
  then show ?thesis
    using keys_frame_set_value [OF assms] keys_frame_commit [OF assms] keys_frame_rgb_exec [of st E Update_Current]
    by (simp add: via_custom_value_command_def via_qmk_rgblight_command_def via_custom_value_command_kb_def
        via_qmk_rgblight_save_def)
qed

lemma keys_frame_raw_hid:
  assumes "raw_hid_receive E K env data st = Some (data', st')" "length (he_config st) = HE_SENSOR_COUNT"
  shows "keys_frame st st'"
  using assms(1) keys_frame_custom_command [OF assms(2), of E env data] keys_frame_rgb_exec [of st E "Toggle False"]
  by (auto simp: raw_hid_receive_def Let_def via_set_keyboard_value_def via_set_device_indication_def
      split: via_command_id.splits if_splits)

section \<open>Every step keeps the invariant\<close>

lemma matrix_ok_kb [simp]:
  "matrix_ok (st\<lparr>last_tick := t\<rparr>) = matrix_ok st" "matrix_ok (st\<lparr>wakeup_matrix := w\<rparr>) = matrix_ok st"
  "matrix_ok (st\<lparr>encoder := enc\<rparr>) = matrix_ok st" "matrix_ok (st\<lparr>last_input_modification_time := t'\<rparr>) = matrix_ok st"
  "matrix_ok (st\<lparr>last_matrix_modification_time := t'\<rparr>) = matrix_ok st"
  "matrix_ok (st\<lparr>last_encoder_modification_time := t'\<rparr>) = matrix_ok st"
  by (simp_all add: matrix_ok_def)

lemma matrix_ok_fw [simp]:
  "matrix_ok (s\<lparr>matrix_previous := m\<rparr>) = matrix_ok s" "matrix_ok (s\<lparr>layer_state := l\<rparr>) = matrix_ok s"
  "matrix_ok (s\<lparr>default_layer_state := l\<rparr>) = matrix_ok s" "matrix_ok (s\<lparr>debug_config := d\<rparr>) = matrix_ok s"
  "matrix_ok (s\<lparr>keymap_config := k\<rparr>) = matrix_ok s"
  by (simp_all add: matrix_ok_def)

lemma fw_ok_kb [simp]:
  "fw_ok (st\<lparr>last_tick := t\<rparr>) = fw_ok st" "fw_ok (st\<lparr>wakeup_matrix := w\<rparr>) = fw_ok st"
  "fw_ok (st\<lparr>encoder := enc\<rparr>) = fw_ok st" "fw_ok (st\<lparr>last_input_modification_time := t'\<rparr>) = fw_ok st"
  "fw_ok (st\<lparr>last_matrix_modification_time := t'\<rparr>) = fw_ok st"
  "fw_ok (st\<lparr>last_encoder_modification_time := t'\<rparr>) = fw_ok st"
  by (simp_all add: fw_ok_def he_ok_def)

lemma fw_ok_fw [simp]:
  "fw_ok (s\<lparr>matrix_previous := m\<rparr>) = fw_ok s" "fw_ok (s\<lparr>layer_state := l\<rparr>) = fw_ok s"
  "fw_ok (s\<lparr>default_layer_state := l\<rparr>) = fw_ok s" "fw_ok (s\<lparr>debug_config := d\<rparr>) = fw_ok s"
  "fw_ok (s\<lparr>keymap_config := k\<rparr>) = fw_ok s"
  by (simp_all add: fw_ok_def he_ok_def)

lemma caches_ok_kb [simp]:
  "caches_ok (st\<lparr>last_tick := t\<rparr>) = caches_ok st" "caches_ok (st\<lparr>wakeup_matrix := w\<rparr>) = caches_ok st"
  "caches_ok (st\<lparr>encoder := enc\<rparr>) = caches_ok st" "caches_ok (st\<lparr>last_input_modification_time := t'\<rparr>) = caches_ok st"
  "caches_ok (st\<lparr>last_matrix_modification_time := t'\<rparr>) = caches_ok st"
  "caches_ok (st\<lparr>last_encoder_modification_time := t'\<rparr>) = caches_ok st"
  "caches_ok (s\<lparr>matrix_previous := m\<rparr>) = caches_ok s" "caches_ok (s\<lparr>layer_state := l\<rparr>) = caches_ok s"
  "caches_ok (s\<lparr>default_layer_state := l\<rparr>) = caches_ok s"
  by (simp_all add: caches_ok_def)

context board_wiring
begin

lemma kb_ok_scan:
  fixes st :: "('e, 'z) kb_scheme"
  assumes "kb_ok st"
  shows "kb_ok (snd (matrix_scan E env st))"
proof -
  obtain ch st' where s: "matrix_scan E env st = (ch, st')" by force
  have "he_ok st" "matrix_ok st" using assms by (simp_all add: kb_ok_def fw_ok_def)
  note r = matrix_scan_result [OF s this]
  show ?thesis
    using assms r(3-5) fw_more_fields [OF r(7)] r(8) by (simp add: s kb_ok_def fw_ok_def caches_ok_def)
qed

lemma kb_ok_matrix_task:
  fixes st :: "('e, 'z) kb_scheme"
  assumes "kb_ok st"
  shows "kb_ok (snd (snd (matrix_task E env st)))"
proof -
  define st1 where "st1 = snd (matrix_scan E env st)"
  have ok: "kb_ok st1" using kb_ok_scan [OF assms] by (simp add: st1_def)
  then have l: "length (wakeup_matrix st1) = 5" "length (matrix_previous st1) = 5" "length (cooked_matrix st1) = 5"
    by (simp_all add: kb_ok_def matrix_ok_def)
  from matrix_task_events [OF l [unfolded st1_def], folded st1_def] show ?thesis
    using ok l by (simp add: kb_ok_def generate_tick_event_def Let_def)
qed

lemma kb_ok_wakeup:
  fixes st :: "('e, 'z) kb_scheme"
  assumes "kb_ok st"
  shows "kb_ok (update_matrix_state_after_wakeup E env st)" "kb_ok (snd (suspend_wakeup_condition E env st))"
proof -
  define st1 where "st1 = snd (matrix_scan E env st)"
  have ok: "kb_ok st1" using kb_ok_scan [OF assms] by (simp add: st1_def)
  then have l: "length (wakeup_matrix st1) = 5" "length (matrix_previous st1) = 5" by (simp_all add: kb_ok_def)
  show "kb_ok (update_matrix_state_after_wakeup E env st)"
    using ok update_matrix_state_after_wakeup_eq [OF l [unfolded st1_def], folded st1_def] by (simp add: kb_ok_def)
  show "kb_ok (snd (suspend_wakeup_condition E env st))"
    using ok by (simp add: suspend_wakeup_condition_def Let_def flip: st1_def) (simp add: kb_ok_def hw_defs)
qed

end

lemma kb_ok_raw_hid:
  assumes "raw_hid_receive E K env data st = Some (data', st')" "kb_ok st"
  shows "kb_ok st'"
proof (rule keys_frame_kb_ok [OF keys_frame_raw_hid [OF assms(1)] assms(2)])
  show "length (he_config st) = HE_SENSOR_COUNT" using assms(2) by (simp add: kb_ok_def fw_ok_def he_ok_def)
  show "fw_ok st'" using fw_ok_raw_hid [OF assms(1)] assms(2) by (simp add: kb_ok_def)
qed

lemma keys_frame_keycode: "keys_frame st (snd (he_handle_keycode E k p st))"
  by (simp add: he_handle_keycode_def keys_frame_set_mode)

lemma kb_ok_keycode: "kb_ok st \<Longrightarrow> kb_ok (snd (he_handle_keycode E k p st))"
proof (rule keys_frame_kb_ok [OF keys_frame_keycode])
  assume "kb_ok st"
  moreover have "rgblight (snd (he_handle_keycode E k p st)) = rgblight st" by (simp add: he_handle_keycode_def)
  ultimately show "fw_ok (snd (he_handle_keycode E k p st))"
    using he_ok_handle_keycode [of st E k p] by (simp add: kb_ok_def fw_ok_def)
qed

lemma kb_ok_rgb_exec: "kb_ok st \<Longrightarrow> kb_ok (rgb_exec E cmd st)"
  using keys_frame_kb_ok [OF keys_frame_rgb_exec] fw_ok_rgb_exec [of st E cmd] by (auto simp: kb_ok_def)

lemma kb_ok_layers: "kb_ok st \<Longrightarrow> kb_ok (layer_state_set l st)" "kb_ok st \<Longrightarrow> kb_ok (default_layer_set l st)"
  by (simp_all add: kb_ok_def layer_state_set_def default_layer_set_def default_layer_state_set_def)

section \<open>The EEPROM along the main loop\<close>

context board_eeprom
begin

lemma scan_inv:
  fixes st :: "('e, 'z) fw_scheme"
  assumes wired: "board_wiring env volt push" and ok: "he_ok st" "matrix_ok st" "inv (ee st)"
  shows "inv (ee (snd (matrix_scan E env st)))"
proof -
  obtain changed m s1 where r: "matrix_scan_custom E env (raw_matrix st) st = (changed, m, s1)" by (metis prod_cases3)
  have len: "length (raw_matrix st) = 5" using ok(2) by (simp add: matrix_ok_def)
  obtain st4 where c: "s1 = he_via_task E env st4" "he_ok st4" "rgblight st4 = rgblight (snd (sampled env st))"
    "scan_frame (st4\<lparr>socd_winner := socd_winner st\<rparr>) = scan_frame st"
    by (rule board_wiring.scan_before_save [OF wired r ok(1) len])
  have "inv (ee st4)" using c(4) ok(3) by (simp add: scan_frame_def)
  then have "inv (ee s1)" using c(2) by (simp add: c(1) he_via_task_def commit_inv)
  then show ?thesis by (simp add: matrix_scan_def r debounce_matrix_def)
qed

end

section \<open>The step relation\<close>

text \<open>
  \<open>env\<close> is what the outside world shows at the step; the sensors may read anything the wiring
  allows.
\<close>

inductive fw_step :: "'e eeprom_driver \<Rightarrow> flash_keymap \<Rightarrow> ('e, 'z) kb_scheme \<Rightarrow> ('e, 'z) kb_scheme \<Rightarrow> bool"
  for E :: "'e eeprom_driver" and K :: flash_keymap where
  Scan: "board_wiring env volt push \<Longrightarrow> matrix_task E env st = (changed, evs, st') \<Longrightarrow>
    fw_step E K st (if changed then last_matrix_activity_trigger env st' else st')"
| Poll: "encoder_task env (gpio st) (encoder st) = Some (changed, evs, enc') \<Longrightarrow>
    fw_step E K st (if changed then last_encoder_activity_trigger env (st\<lparr>encoder := enc'\<rparr>) else st\<lparr>encoder := enc'\<rparr>)"
| Packet: "raw_hid_receive E K env data st = Some (data', st') \<Longrightarrow> fw_step E K st st'"
| Keycode: "fw_step E K st (snd (he_handle_keycode E keycode p st))"
| Light: "fw_step E K st (rgb_exec E cmd st)"
| Layer: "fw_step E K st (layer_state_set l st)"
| Default_Layer: "fw_step E K st (default_layer_set l st)"
| Key: "in_matrix key \<Longrightarrow> fw_step E K st (snd (store_or_get_action E p key st))"
| Wake: "board_wiring env volt push \<Longrightarrow> fw_step E K st (update_matrix_state_after_wakeup E env st)"
| Suspended: "board_wiring env volt push \<Longrightarrow> fw_step E K st (snd (suspend_wakeup_condition E env st))"

lemma store_or_get_action_frame:
  fixes st :: "('e, 'z) layers_scheme"
  assumes "caches_ok st" "in_matrix key"
  shows "caches_ok (snd (store_or_get_action E p key st))"
    and "\<exists>c. snd (store_or_get_action E p key st) = st\<lparr>source_layers_cache := c\<rparr>"
proof -
  show "\<exists>c. snd (store_or_get_action E p key st) = st\<lparr>source_layers_cache := c\<rparr>"
  proof (cases "p \<and> \<not> disable_action_cache st")
    case True
    then have "snd (store_or_get_action E p key st) = st\<lparr>source_layers_cache :=
        update_source_layers_cache_impl (word_of_nat (layer_switch_get_layer E key st)) (key_entry key) (source_layers_cache st)\<rparr>"
      using assms(2) by (simp add: store_or_get_action_def Let_def update_source_layers_cache_def)
    then show ?thesis ..
  next
    case False
    then have "snd (store_or_get_action E p key st) = st" by (simp add: store_or_get_action_def)
    then have "snd (store_or_get_action E p key st) = st\<lparr>source_layers_cache := source_layers_cache st\<rparr>" by simp
    then show ?thesis ..
  qed
  show "caches_ok (snd (store_or_get_action E p key st))"
    using assms press_caches_layer(2) [OF assms(1) _ assms(2), of E]
    by (cases "p \<and> \<not> disable_action_cache st") (auto simp: store_or_get_action_def)
qed

lemma kb_ok_key:
  assumes "kb_ok st" "in_matrix key"
  shows "kb_ok (snd (store_or_get_action E p key st))"
proof -
  have c: "caches_ok st" using assms(1) by (simp add: kb_ok_def)
  obtain l where l: "snd (store_or_get_action E p key st) = st\<lparr>source_layers_cache := l\<rparr>"
    using store_or_get_action_frame(2) [OF c assms(2)] by blast
  show ?thesis
    using assms(1) store_or_get_action_frame(1) [OF c assms(2), of E p]
    by (simp add: l kb_ok_def fw_ok_def) (simp add: he_ok_def matrix_ok_def)
qed

lemma fw_step_kb_ok: "fw_step E K st st' \<Longrightarrow> kb_ok st \<Longrightarrow> kb_ok st'"
proof (induction rule: fw_step.induct)
  case (Scan env volt push st changed evs st')
  then show ?case
    using board_wiring.kb_ok_matrix_task [OF Scan(1) Scan(3), of E]
    by (simp add: last_matrix_activity_trigger_def kb_ok_def)
next
  case (Poll env st changed evs enc')
  then have "enc_ok enc'" using encoder_task_step [of "encoder st" env "gpio st"] by (auto simp: kb_ok_def)
  with Poll show ?case by (simp add: last_encoder_activity_trigger_def kb_ok_def)
qed (auto intro: kb_ok_raw_hid kb_ok_keycode kb_ok_rgb_exec kb_ok_layers kb_ok_key board_wiring.kb_ok_wakeup)

context board_eeprom
begin

lemma matrix_task_ee: "ee (snd (snd (matrix_task E env st))) = ee (snd (matrix_scan E env st))"
  if "length (wakeup_matrix (snd (matrix_scan E env st))) = 5" "length (matrix_previous (snd (matrix_scan E env st))) = 5"
    "length (cooked_matrix (snd (matrix_scan E env st))) = 5" for st :: "('e, 'z) kb_scheme"
  by (simp add: matrix_task_events [OF that] generate_tick_event_def Let_def)

lemma fw_step_inv:
  fixes st :: "('e, 'z) kb_scheme"
  shows "fw_step E K st st' \<Longrightarrow> kb_ok st \<Longrightarrow> inv (ee st) \<Longrightarrow> inv (ee st')"
proof (induction rule: fw_step.induct)
  case (Scan env volt push st changed evs st')
  have ok: "he_ok st" "matrix_ok st" using Scan(3) by (simp_all add: kb_ok_def fw_ok_def)
  have "inv (ee (snd (matrix_scan E env st)))" by (rule scan_inv [OF Scan(1) ok Scan(4)])
  moreover have "kb_ok (snd (matrix_scan E env st))" by (rule board_wiring.kb_ok_scan [OF Scan(1,3)])
  ultimately have "inv (ee st')" using matrix_task_ee [of env st] Scan(2) by (simp add: kb_ok_def matrix_ok_def)
  then show ?case by (simp add: last_matrix_activity_trigger_def)
next
  case (Packet env data st data' st')
  then show ?case using raw_hid_inv by (auto simp: kb_ok_def)
next
  case (Keycode st k p)
  then show ?case using set_mode_inv [of st] by (auto simp: he_handle_keycode_def kb_ok_def fw_ok_def)
next
  case (Key key st p)
  then have "caches_ok st" by (simp add: kb_ok_def)
  from store_or_get_action_frame(2) [OF this Key(1), of E p] Key(3) show ?case by auto
next
  case (Wake env volt push st)
  have ok: "he_ok st" "matrix_ok st" using Wake(2) by (simp_all add: kb_ok_def fw_ok_def)
  have "kb_ok (snd (matrix_scan E env st))" by (rule board_wiring.kb_ok_scan [OF Wake(1,2)])
  then show ?case using scan_inv [OF Wake(1) ok Wake(3)]
    by (simp add: update_matrix_state_after_wakeup_eq kb_ok_def)
next
  case (Suspended env volt push st)
  have ok: "he_ok st" "matrix_ok st" using Suspended(2) by (simp_all add: kb_ok_def fw_ok_def)
  then show ?case using scan_inv [OF Suspended(1) ok Suspended(3)] by (simp add: suspend_wakeup_condition_def Let_def)
qed (simp_all add: rgb_exec_inv last_encoder_activity_trigger_def layer_state_set_def default_layer_set_def
    default_layer_state_set_def)

lemma reachable_ok:
  fixes st :: "('e, 'z) kb_scheme"
  assumes "(fw_step E K)\<^sup>*\<^sup>* st st'" "kb_ok st" "inv (ee st)"
  shows "kb_ok st' \<and> inv (ee st')"
  using assms by (induction rule: rtranclp_induct) (auto intro: fw_step_kb_ok fw_step_inv)

end

end
