(* ===== verification/Boot.thy ===== *)
theory Boot
  imports Firmware
begin

text \<open>
  Start-up, from the reset values of the variables to the first pass of the main loop:
  \<^verbatim>\<open>keyboard_setup\<close> and \<^verbatim>\<open>keyboard_init\<close> of \<^verbatim>\<open>quantum/keyboard.c\<close> in the order of \<^verbatim>\<open>quantum/main.c\<close>.
\<close>

section \<open>The variables at reset\<close>

definition he_key_reset :: he_key_config_t where
  "he_key_reset = \<lparr>actuation = 0, release = 0, raw_min = 0, raw_max = 0, travel = 0, peak = 0, valley = 0, debounce = 0, pressed = False\<rparr>"

definition encoder_reset :: encoder_t where
  "encoder_reset = \<lparr>encoder_events = \<lparr>enqueued = 0, dequeued = 0, q_head = 0, q_tail = 0,
       q_queue = replicate MAX_QUEUED_ENCODER_EVENTS \<lparr>enc_index = 0, enc_clockwise = False\<rparr>\<rparr>,
     signal_queue_drain = False, thisCount = 0, encoder_state = [0], encoder_pulses = [0]\<rparr>"

definition kb_reset :: "'e \<Rightarrow> 'e kb" where
  "kb_reset e =
     \<lparr>ee = e, rgblight = rgblight_reset,
      gpio = \<lparr>pin_level = \<lambda>_. False, pin_mode_of = \<lambda>_. Unset\<rparr>,
      he_config = replicate HE_SENSOR_COUNT he_key_reset, he_rest_floor = replicate HE_SENSOR_COUNT 0,
      he_mode = HE_MODE_RAPID_TRIGGER,
      he_tuning = \<lparr>deadzone = HE_DEADZONE_DEFAULT, engage = HE_ENGAGE_DEFAULT, release_dist = HE_RELEASE_DIST_DEFAULT\<rparr>,
      he_calibrating = False, cal_saved_hsv = \<lparr>hsv_h = 0, hsv_s = 0, hsv_v = 0\<rparr>,
      he_cal_latched = replicate HE_SENSOR_COUNT False, he_phys_pressed = replicate HE_SENSOR_COUNT False,
      he_debounced = replicate HE_SENSOR_COUNT False, socd_winner = [255, 255], he_scan_count = 0,
      staged_actuation = HE_ACTUATION_DEFAULT, staged_release = HE_RELEASE_DEFAULT, staged_dirty = False,
      autosave_pending = False, autosave_timer = 0,
      default_layer_state = 0, layer_state = 0, debug_config = 0, keymap_config = 0,
      raw_matrix = replicate MATRIX_ROWS 0, cooked_matrix = replicate MATRIX_ROWS 0, debouncing = False, debouncing_time = 0,
      matrix_previous = replicate MATRIX_ROWS 0,
      source_layers_cache = replicate 10 [0, 0, 0], encoder_source_layers_cache = [[0, 0, 0]], disable_action_cache = False,
      encoder = encoder_reset, wakeup_matrix = replicate MATRIX_ROWS 0, last_tick = 0,
      last_input_modification_time = 0, last_matrix_modification_time = 0, last_encoder_modification_time = 0,
      last_pointing_device_modification_time = 0\<rparr>"

definition boot ::
  "'e eeprom_driver \<Rightarrow> ('e \<Rightarrow> 'e) \<Rightarrow> flash_keymap \<Rightarrow> bytes \<Rightarrow> env \<Rightarrow> env \<Rightarrow> env \<Rightarrow> bytes \<Rightarrow> bytes \<Rightarrow> 'e \<Rightarrow> 'e kb" where
  "boot E driver_init K date env env1 env2 stk stk2 e =
     keyboard_init E K date env env1 env2 stk stk2 (keyboard_setup E driver_init K date (kb_reset e))"

section \<open>The stages of the start-up\<close>

lemma encoder_init_ok: "enc_ok (snd (encoder_init env g encoder_reset))"
  by (simp add: encoder_init_def encoder_driver_init_def encoder_quadrature_post_init_def encoder_reset_def hw_defs
      for_range_def enc_ok_def queue_ok_def queue_contents_def Let_def)

text \<open>\<open>cold\<close>: what holds of the variables before \<^verbatim>\<open>matrix_init\<close>, formatted EEPROM or not.\<close>

definition cold :: "('e, 'z) kb_scheme \<Rightarrow> bool" where
  "cold st \<longleftrightarrow> length (he_cal_latched st) = HE_SENSOR_COUNT \<and> length (he_phys_pressed st) = HE_SENSOR_COUNT
     \<and> length (he_debounced st) = HE_SENSOR_COUNT \<and> length (socd_winner st) = 2 \<and> tuning_ok (he_tuning st) \<and> rgb_ok (rgblight st) \<and> \<not> is_rgblight_initialized (rgblight st)
     \<and> length (matrix_previous st) = 5 \<and> length (wakeup_matrix st) = 5 \<and> \<not> debouncing st \<and> \<not> autosave_pending st
     \<and> encoder st = encoder_reset \<and> caches_ok st"

lemma cold_reset: "cold (kb_reset e)"
  by (simp add: cold_def kb_reset_def tuning_ok_def rgb_ok_reset caches_ok_def planes_ok_def hw_defs) (simp add: rgblight_reset_def)

lemma cold_ee [simp]: "cold (st\<lparr>ee := e\<rparr>) = cold st"
  by (simp add: cold_def caches_ok_def)

lemma cold_defaults: "cold st \<Longrightarrow> he_ok (he_config_set_defaults st)"
  by (rule he_ok_defaults) (simp_all add: cold_def)

text \<open>A format changes the EEPROM, the light's configuration and the default layer, nothing else.\<close>

lemma eeconfig_init_state:
  "eeconfig_init E K date st = st\<lparr>default_layer_state := 1,
     rgblight := (rgblight st)\<lparr>rgblight_config := rgblight_default_config\<rparr>, ee := ee (eeconfig_init E K date st)\<rparr>"
  by (simp add: eeconfig_init_def eeconfig_init_quantum_def eeconfig_init_kb_def eeconfig_init_user_def eeconfig_init_core_def
      he_save_to_eeprom_def he_save_settings_to_eeprom_def eeconfig_update_rgblight_default_def eeconfig_update_rgblight_def
      set_cfg_def map_rgb_def Let_def)

lemma cold_format:
  assumes "cold st"
  shows "cold (st\<lparr>default_layer_state := 1, rgblight := (rgblight st)\<lparr>rgblight_config := rgblight_default_config\<rparr>, ee := e\<rparr>)"
proof -
  have "rgb_ok ((rgblight st)\<lparr>rgblight_config := rgblight_default_config\<rparr>)"
    using assms by (simp add: cold_def rgb_ok_def rgblight_default_config_def hw_defs)
  then show ?thesis using assms by (simp add: cold_def caches_ok_def)
qed

lemma cold_pre_init: "cold st \<Longrightarrow> cold (keyboard_pre_init_kb E K date st)"
proof (cases "eeconfig_is_enabled E date (ee st)")
  case False
  assume c: "cold st"
  have "cold (he_config_set_defaults st)" using c by (simp add: cold_def he_config_set_defaults_def each_config_def caches_ok_def)
  then have "cold (eeconfig_init E K date (he_config_set_defaults st))"
    by (subst eeconfig_init_state) (rule cold_format)
  then show ?thesis using False by (simp add: keyboard_pre_init_kb_def)
qed (simp add: formatted_no_op)

context board_eeprom
begin

text \<open>After \<^verbatim>\<open>keyboard_setup\<close> the EEPROM is formatted for this build; if it already was, it is untouched.\<close>

lemma setup_ee:
  fixes st :: "('e, 'z) kb_scheme"
  assumes "cold st" "inv (driver_init (ee st))"
  shows "inv (ee (keyboard_setup E driver_init K date st))"
    and "eeconfig_is_enabled E date (ee (keyboard_setup E driver_init K date st))"
    and "eeconfig_is_enabled E date (driver_init (ee st)) \<Longrightarrow> keyboard_setup E driver_init K date st = st\<lparr>ee := driver_init (ee st)\<rparr>"
proof -
  let ?st = "st\<lparr>ee := driver_init (ee st)\<rparr>"
  have d: "he_ok (he_config_set_defaults ?st)" using assms(1) by (intro cold_defaults) simp
  have len: "length (replicate 138 (0 :: u8)) = 138" "length (replicate 4 (0 :: u8)) = 4" by simp_all
  have i: "inv (ee ?st)" using assms(2) by simp
  show "keyboard_setup E driver_init K date st = ?st" if "eeconfig_is_enabled E date (driver_init (ee st))"
    using that by (simp add: keyboard_setup_def formatted_no_op)
  have "inv (ee (keyboard_pre_init_kb E K date ?st)) \<and> eeconfig_is_enabled E date (ee (keyboard_pre_init_kb E K date ?st))"
  proof (cases "eeconfig_is_enabled E date (ee ?st)")
    case True
    then show ?thesis using i by (simp add: formatted_no_op)
  next
    case False
    from first_boot(1,2) [OF i False d len refl, of K] show ?thesis by simp
  qed
  then show "inv (ee (keyboard_setup E driver_init K date st))" "eeconfig_is_enabled E date (ee (keyboard_setup E driver_init K date st))"
    by (simp_all add: keyboard_setup_def)
qed

end

section \<open>The state after the start-up\<close>

text \<open>The stages of \<^verbatim>\<open>keyboard_init\<close> up to the end of bootmagic's scans.\<close>

definition init_stage3 :: "env \<Rightarrow> ('e, 'z) kb_scheme \<Rightarrow> ('e, 'z) kb_scheme" where
  "init_stage3 env st = (let (g, enc) = encoder_init env (gpio st) (encoder st) in matrix_init (st\<lparr>gpio := g, encoder := enc\<rparr>))"

lemma stage3_ok:
  assumes "cold st"
  shows "kb_ok (init_stage3 env st)" "ee (init_stage3 env st) = ee st" "\<not> autosave_pending (init_stage3 env st)"
    "rgblight (init_stage3 env st) = rgblight st" "he_mode (init_stage3 env st) = he_mode st" "he_tuning (init_stage3 env st) = he_tuning st"
proof -
  obtain g enc where e: "encoder_init env (gpio st) (encoder st) = (g, enc)" by force
  let ?st = "st\<lparr>encoder := enc, gpio := matrix_init_pins g\<rparr>"
  have enc: "enc_ok enc" using encoder_init_ok [of env "gpio st"] assms e by (simp add: cold_def)
  have s3: "init_stage3 env st = (he_config_set_defaults ?st)\<lparr>raw_matrix := replicate 5 0, cooked_matrix := replicate 5 0\<rparr>"
    by (simp add: init_stage3_def e matrix_init_def matrix_init_custom_def hw_defs)
  have d: "he_ok (he_config_set_defaults ?st)" by (rule he_ok_defaults) (use assms in \<open>simp_all add: cold_def\<close>)
  have z: "\<not> matrix_bit (replicate 5 (0 :: u16)) (sensor_pos i)" if "i < 69" for i
    using he_sensors_nth [of i] that by (simp add: matrix_bit_def sensor_pos_def hw_defs)
  have p: "\<not> pressed (he_config (he_config_set_defaults ?st) ! i)" if "i < 69" for i
    using that by (simp add: he_config_set_defaults_def hw_defs he_default_key_def)
  have m: "matrix_ok (init_stage3 env st)" using z p by (simp add: s3 matrix_ok_def)
  have "fw_ok (init_stage3 env st)"
    using d assms by (simp add: s3 fw_ok_def cold_def he_ok_def) (simp add: he_config_set_defaults_def)
  then show "kb_ok (init_stage3 env st)"
    using m assms enc by (simp add: kb_ok_def) (simp add: s3 he_config_set_defaults_def each_config_def cold_def caches_ok_def)
  show "ee (init_stage3 env st) = ee st" "\<not> autosave_pending (init_stage3 env st)"
    "rgblight (init_stage3 env st) = rgblight st" "he_mode (init_stage3 env st) = he_mode st" "he_tuning (init_stage3 env st) = he_tuning st"
    using assms by (simp_all add: s3 he_config_set_defaults_def each_config_def cold_def)
qed

lemma stage3_init:
  "cold st \<Longrightarrow> \<not> is_rgblight_initialized (rgblight (init_stage3 env st))"
  by (simp add: stage3_ok cold_def)

text \<open>The middle part, \<^verbatim>\<open>quantum_init\<close>, on a formatted EEPROM: it only reads it.\<close>

lemma quantum_init_formatted:
  fixes st :: "('e, 'z) kb_scheme" and E K date env1 env2
  assumes wired: "board_wiring env1 volt1 push1" "board_wiring env2 volt2 push2"
    and ok: "kb_ok st" "\<not> autosave_pending st" "eeconfig_is_enabled E date (ee st)"
  defines "st' \<equiv> quantum_init E K date env1 env2 st"
  shows "kb_ok st'" "ee st' = ee st" "cfg st' = cfg st"
    "is_rgblight_initialized (rgblight st') = is_rgblight_initialized (rgblight st)"
    "he_mode st' = he_mode st" "he_tuning st' = he_tuning st" "debug_config st' = nvm_eeconfig_read_debug E (ee st)"
    "keymap_config st' = nvm_eeconfig_read_keymap E (ee st)" "default_layer_state st' = nvm_eeconfig_read_default_layer E (ee st)"
proof -
  define s0 where "s0 = st\<lparr>debug_config := nvm_eeconfig_read_debug E (ee st), keymap_config := nvm_eeconfig_read_keymap E (ee st)\<rparr>"
  obtain c1 s1 where s1: "matrix_scan E env1 s0 = (c1, s1)" by force
  obtain c2 s2 where s2: "matrix_scan E env2 s1 = (c2, s2)" by force
  have st': "st' = default_layer_set (nvm_eeconfig_read_default_layer E (ee s2)) s2"
    using ok(3) by (simp add: st'_def quantum_init_def bootmagic_def Let_def s1 s2 flip: s0_def)
  have ok0: "kb_ok s0" using ok(1) by (simp add: s0_def kb_ok_def) (simp add: caches_ok_def)
  have k1: "kb_ok s1" "kb_ok s2"
    using board_wiring.kb_ok_scan [OF wired(1) ok0, of E] board_wiring.kb_ok_scan [OF wired(2), of s1 E] by (simp_all add: s1 s2)
  have h: "he_ok s0" "matrix_ok s0" "he_ok s1" "matrix_ok s1" using ok0 k1(1) by (simp_all add: kb_ok_def fw_ok_def)
  note r1 = board_wiring.matrix_scan_result [OF wired(1) s1 h(1,2)] and r2 = board_wiring.matrix_scan_result [OF wired(2) s2 h(3,4)]
  have "\<not> autosave_pending s0" using ok(2) by (simp add: s0_def)
  then have e: "ee s2 = ee st" using r1(10) r2(10) by (simp add: s0_def)
  show "kb_ok st'" by (simp add: st' kb_ok_layers k1)
  show "ee st' = ee st" "cfg st' = cfg st" "he_mode st' = he_mode st" "he_tuning st' = he_tuning st"
    "is_rgblight_initialized (rgblight st') = is_rgblight_initialized (rgblight st)"
    "debug_config st' = nvm_eeconfig_read_debug E (ee st)"
    "keymap_config st' = nvm_eeconfig_read_keymap E (ee st)" "default_layer_state st' = nvm_eeconfig_read_default_layer E (ee st)"
    using e r1(6,9,11-14) r2(6,9,11-14) by (simp_all add: st' default_layer_set_def default_layer_state_set_def) (simp_all add: s0_def)
qed

lemma core_more_rgblight_init: "core.more (rgblight_init E st) = core.more st"
  by (simp add: rgblight_init_def Let_def eeconfig_update_rgblight_default_def rgblight_mode_noeeprom_def)

lemma kb_ok_rgblight_init: "kb_ok st \<Longrightarrow> kb_ok (rgblight_init E st)"
proof (rule keys_frame_kb_ok [OF core_more_frame [OF core_more_rgblight_init]])
  assume "kb_ok st"
  then show "fw_ok (rgblight_init E st)"
    using rgb_ok_init [of st E] core_more_fields(6) [OF core_more_rgblight_init, of E st] by (simp add: kb_ok_def fw_ok_def)
qed

lemma keys_frame_load: "length (he_config st) = HE_SENSOR_COUNT \<Longrightarrow> keys_frame st (he_load_from_eeprom E stk stk2 st)"
  using keys_frame_save(1) [of st E]
  by (auto simp: he_load_from_eeprom_def Let_def keys_frame_def each_config_def intro!: nth_equalityI split: option.split)

lemma rgblight_load [simp]: "rgblight (he_load_from_eeprom E stk stk2 st) = rgblight st"
  by (simp add: he_load_from_eeprom_def Let_def split: option.split)

lemma kb_ok_load: "kb_ok st \<Longrightarrow> kb_ok (he_load_from_eeprom E stk stk2 st)"
proof -
  assume k: "kb_ok st"
  then have o: "he_ok st" by (simp add: kb_ok_def fw_ok_def)
  then have "fw_ok (he_load_from_eeprom E stk stk2 st)" using k he_ok_load [OF o] by (simp add: kb_ok_def fw_ok_def)
  then show ?thesis using keys_frame_kb_ok [OF keys_frame_load k] o by (simp add: he_ok_def)
qed

section \<open>The start-up as a whole\<close>

context board_eeprom
begin

lemma rgblight_init_inv: "inv (ee st) \<Longrightarrow> inv (ee (rgblight_init E st))"
  by (simp add: rgblight_init_def Let_def eeconfig_update_rgblight_default_def rgblight_mode_noeeprom_def
      eeconfig_read_rgblight_def rgblight_check_config_def update_rgblight_inv)

text \<open>
  Whatever the EEPROM holds, after the start-up the firmware's invariant holds and the EEPROM is
  formatted for this build.
\<close>

lemma boot_stages:
  fixes e :: 'e
  assumes wired: "board_wiring env1 volt1 push1" "board_wiring env2 volt2 push2" and i: "inv (driver_init e)"
  obtains st0 st4 where "st0 = keyboard_setup E driver_init K date (kb_reset e)"
    "boot E driver_init K date env env1 env2 stk stk2 e = he_load_from_eeprom E stk stk2 (rgblight_init E st4)"
    "cold st0" "inv (ee st0)" "eeconfig_is_enabled E date (ee st0)" "kb_ok st4" "ee st4 = ee st0"
    "\<not> is_rgblight_initialized (rgblight st4)" "debug_config st4 = nvm_eeconfig_read_debug E (ee st0)"
    "keymap_config st4 = nvm_eeconfig_read_keymap E (ee st0)" "default_layer_state st4 = nvm_eeconfig_read_default_layer E (ee st0)"
proof -
  define st0 where "st0 = keyboard_setup E driver_init K date (kb_reset e)"
  define st4 where "st4 = quantum_init E K date env1 env2 (init_stage3 env st0)"
  have i0: "inv (driver_init (ee (kb_reset e)))" using i by (simp add: kb_reset_def)
  have c: "cold st0" "inv (ee st0)" "eeconfig_is_enabled E date (ee st0)"
    using setup_ee(1,2) [where st = "kb_reset e" and driver_init = driver_init and K = K and date = date, OF cold_reset i0]
    by (simp_all add: st0_def keyboard_setup_def cold_pre_init cold_reset)
  have v: "st0\<lparr>ee := via_init E K date (ee st0)\<rparr> = st0" using c(3) by (simp add: formatted_no_op)
  note s3 = stage3_ok [OF c(1), of env]
  have en: "eeconfig_is_enabled E date (ee (init_stage3 env st0))" using c(3) by (simp add: s3)
  note q = quantum_init_formatted [OF wired s3(1,3) en, of K, folded st4_def]
  have "boot E driver_init K date env env1 env2 stk stk2 e = he_load_from_eeprom E stk stk2 (rgblight_init E st4)"
    unfolding boot_def st0_def [symmetric] keyboard_init_def v
    by (simp add: st4_def init_stage3_def keyboard_post_init_kb_def Let_def split: prod.split)
  then show ?thesis
    using that [OF st0_def _ c q(1), unfolded q(2) s3(2)] q s3(2) stage3_init [OF c(1), of env] by simp
qed

lemma boot_ok:
  fixes e :: 'e and K date env env1 env2
  assumes "board_wiring env1 volt1 push1" "board_wiring env2 volt2 push2" "inv (driver_init e)"
  shows "kb_ok (boot E driver_init K date env env1 env2 stk stk2 e)" "inv (ee (boot E driver_init K date env env1 env2 stk stk2 e))"
proof -
  obtain st0 st4 :: "'e kb" where b: "boot E driver_init K date env env1 env2 stk stk2 e = he_load_from_eeprom E stk stk2 (rgblight_init E st4)"
    "inv (ee st0)" "kb_ok st4" "ee st4 = ee st0"
    by (rule boot_stages [where driver_init = driver_init and e = e and K = K and date = date and env = env and stk = stk and ?stk2.0 = stk2, OF assms])
  have k: "kb_ok (rgblight_init E st4)" by (rule kb_ok_rgblight_init [OF b(3)])
  then show "kb_ok (boot E driver_init K date env env1 env2 stk stk2 e)" unfolding b(1) by (rule kb_ok_load)
  show "inv (ee (boot E driver_init K date env env1 env2 stk stk2 e))"
    unfolding b(1) using b(2,4) k by (intro load_inv rgblight_init_inv) (simp_all add: kb_ok_def fw_ok_def)
qed

text \<open>
  What the start-up puts in force is what the EEPROM holds after \<^verbatim>\<open>keyboard_setup\<close>, and the rest of
  the start-up does not write a byte.
\<close>

lemma boot_loads:
  fixes e :: 'e and driver_init K date env env1 env2 stk stk2 and s :: "('e, 'z) board_scheme"
  defines "e0 \<equiv> ee (keyboard_setup E driver_init K date (kb_reset e))" and "st \<equiv> boot E driver_init K date env env1 env2 stk stk2 e"
  assumes wired: "board_wiring env1 volt1 push1" "board_wiring env2 volt2 push2" and i: "inv (driver_init e)"
    and stk: "length stk = 138" "length stk2 = 4"
    and saved: "he_ok s" "nvm_eeconfig_is_kb_datablock_valid E e0"
      "slice 37 138 (view e0) = he_records (he_config s)" "slice 175 4 (view e0) = he_settings s"
    and light: "nvm_eeconfig_read_rgblight E e0 = rgblight_raw c" "rgb_mode c = 1"
  shows "ee st = e0" "he_stored st = he_stored s" "cfg st = c\<lparr>rgb_val := limit_val (rgb_val c)\<rparr>"
    "keymap_config st = nvm_eeconfig_read_keymap E e0" "default_layer_state st = nvm_eeconfig_read_default_layer E e0"
proof -
  obtain st0 st4 :: "'e kb" where b: "st0 = keyboard_setup E driver_init K date (kb_reset e)"
    "boot E driver_init K date env env1 env2 stk stk2 e = he_load_from_eeprom E stk stk2 (rgblight_init E st4)"
    "inv (ee st0)" "ee st4 = ee st0" "\<not> is_rgblight_initialized (rgblight st4)"
    "keymap_config st4 = nvm_eeconfig_read_keymap E (ee st0)" "default_layer_state st4 = nvm_eeconfig_read_default_layer E (ee st0)"
    by (rule boot_stages [where driver_init = driver_init and e = e and K = K and date = date and env = env and stk = stk and ?stk2.0 = stk2, OF wired i])
  have e: "ee st0 = e0" by (simp add: b(1) e0_def)
  note st = st_def [unfolded b(2)]
  define st5 where "st5 = rgblight_init E st4"
  have i4: "inv (ee st4)" "nvm_eeconfig_read_rgblight E (ee st4) = rgblight_raw c" using b(3) light by (simp_all add: b(4) e)
  have c5: "cfg st5 = c\<lparr>rgb_val := limit_val (rgb_val c)\<rparr>"
    unfolding st5_def by (rule init_restores_rgblight [OF i4 light(2) b(5)])
  have "rgb_mode (cfg (eeconfig_read_rgblight E st4)) = 1"
    using i4 light(2) rgblight_of_raw_raw [of c] by (simp add: eeconfig_read_rgblight_def)
  then have e5: "ee st5 = e0"
    by (simp add: st5_def rgblight_init_def Let_def b(4) e rgblight_mode_noeeprom_def b(5) eeconfig_read_rgblight_def rgblight_check_config_def)
  have ld: "ee (he_load_from_eeprom E stk stk2 st5) = ee st5"
    using saved(2) e5 by (simp add: he_load_from_eeprom_def Let_def split: option.split)
  show "ee st = e0" "cfg st = c\<lparr>rgb_val := limit_val (rgb_val c)\<rparr>"
    using ld e5 c5 by (simp_all add: st flip: st5_def)
  show "he_stored st = he_stored s"
    unfolding st st5_def [symmetric] by (rule load_image) (use b(3) e e5 saved stk in simp_all)
  have "core.more st5 = core.more st4" by (simp add: st5_def core_more_rgblight_init)
  then have "board.more st5 = board.more st4" using core_more_frame by (auto simp: keys_frame_def)
  moreover have "board.more st = board.more st5"
    using saved(2) e5 by (simp add: st he_load_from_eeprom_def Let_def each_config_def split: option.split flip: st5_def)
  ultimately have "board.more st = board.more st4" by simp
  from more_fields(1,4) [OF this]
  show "keymap_config st = nvm_eeconfig_read_keymap E e0" "default_layer_state st = nvm_eeconfig_read_default_layer E e0"
    by (simp_all add: b(6,7) e)
qed

text \<open>
  On an EEPROM that a previous run of the same build left behind, the start-up does not write at
  all and everything stored is in force again: thresholds, mode and tuning, the light (capped to
  the brightness limit), the keymap options and the default layer.
\<close>

lemma boot_restores:
  fixes e :: 'e and driver_init K date env env1 env2 stk stk2 and s :: "('e, 'z) board_scheme"
  defines "e0 \<equiv> driver_init e" and "st \<equiv> boot E driver_init K date env env1 env2 stk stk2 e"
  assumes wired: "board_wiring env1 volt1 push1" "board_wiring env2 volt2 push2" and i: "inv e0"
    and en: "eeconfig_is_enabled E date e0" and stk: "length stk = 138" "length stk2 = 4"
    and saved: "he_ok s" "nvm_eeconfig_is_kb_datablock_valid E e0"
      "slice 37 138 (view e0) = he_records (he_config s)" "slice 175 4 (view e0) = he_settings s"
    and light: "nvm_eeconfig_read_rgblight E e0 = rgblight_raw c" "rgb_mode c = 1"
  shows "ee st = e0" "he_stored st = he_stored s" "cfg st = c\<lparr>rgb_val := limit_val (rgb_val c)\<rparr>"
    "keymap_config st = nvm_eeconfig_read_keymap E e0" "default_layer_state st = nvm_eeconfig_read_default_layer E e0"
proof -
  have "ee (kb_reset e) = e" by (simp add: kb_reset_def)
  then have e: "ee (keyboard_setup E driver_init K date (kb_reset e)) = e0"
    using setup_ee(3) [where st = "kb_reset e" and driver_init = driver_init and K = K and date = date, OF cold_reset] i en
    by (simp add: e0_def)
  note b = boot_loads [where driver_init = driver_init and e = e and K = K and date = date and env = env and s = s,
      unfolded e, OF wired i [unfolded e0_def] stk saved light]
  show "ee st = e0" "he_stored st = he_stored s" "cfg st = c\<lparr>rgb_val := limit_val (rgb_val c)\<rparr>"
    "keymap_config st = nvm_eeconfig_read_keymap E e0" "default_layer_state st = nvm_eeconfig_read_default_layer E e0"
    using b by (simp_all add: st_def)
qed

text \<open>On an EEPROM that is not formatted for this build the start-up formats it and runs on the defaults.\<close>

lemma boot_formats:
  fixes e :: 'e and driver_init K date env env1 env2 stk stk2
  defines "st \<equiv> boot E driver_init K date env env1 env2 stk stk2 e"
  assumes wired: "board_wiring env1 volt1 push1" "board_wiring env2 volt2 push2" and i: "inv (driver_init e)"
    and blank: "\<not> eeconfig_is_enabled E date (driver_init e)" and stk: "length stk = 138" "length stk2 = 4"
  shows "eeconfig_is_enabled E date (ee st)" "slot_valid k \<Longrightarrow> slot_get E k (ee st) = slot_raw K k"
    and "he_stored st = (replicate HE_SENSOR_COUNT (HE_ACTUATION_DEFAULT, HE_RELEASE_DEFAULT), he_mode (kb_reset e), he_tuning (kb_reset e))"
    and "cfg st = rgblight_default_config\<lparr>rgb_val := limit_val (rgb_val rgblight_default_config)\<rparr>"
    and "keymap_config st = keymap_config_default" "default_layer_state st = 1"
    and "nvm_eeconfig_read_rgblight E (ee st) = rgblight_raw rgblight_default_config"
proof -
  define s where "s = he_config_set_defaults ((kb_reset e)\<lparr>ee := driver_init e\<rparr>)"
  define e0 where "e0 = ee (eeconfig_init E K date s)"
  have c: "cold ((kb_reset e)\<lparr>ee := driver_init e\<rparr>)" by (simp add: cold_reset)
  have s: "he_ok s" "inv (ee s)"
    using cold_defaults [OF c] i by (simp_all add: s_def) (simp add: he_config_set_defaults_def)
  have "ee (kb_reset e) = e" by (simp add: kb_reset_def)
  then have e: "ee (keyboard_setup E driver_init K date (kb_reset e)) = e0"
    using blank by (simp add: keyboard_setup_def keyboard_pre_init_kb_def s_def e0_def)
  note img = init_quantum_image [OF s(2,1), where K = K and date = date, folded e0_def]
    and vw = init_quantum_view [OF s(2,1), where K = K and date = date, folded e0_def]
  have "rgb_mode rgblight_default_config = 1" by (simp add: rgblight_default_config_def hw_defs)
  note b = boot_loads [where driver_init = driver_init and e = e and K = K and date = date and env = env and s = s,
      unfolded e, OF wired i stk s(1) img(5-7) vw(6) this, folded st_def]
  show "eeconfig_is_enabled E date (ee st)" "slot_valid k \<Longrightarrow> slot_get E k (ee st) = slot_raw K k"
    using vw(1,2) by (simp_all add: b(1))
  show "he_stored st = (replicate HE_SENSOR_COUNT (HE_ACTUATION_DEFAULT, HE_RELEASE_DEFAULT), he_mode (kb_reset e), he_tuning (kb_reset e))"
    unfolding b(2) by (simp add: s_def he_stored_def he_config_set_defaults_def each_config_def he_default_key_def map_replicate_const comp_def)
  show "cfg st = rgblight_default_config\<lparr>rgb_val := limit_val (rgb_val rgblight_default_config)\<rparr>" by (rule b(3))
  show "keymap_config st = keymap_config_default" "default_layer_state st = 1" using vw(3,5) by (simp_all add: b(4,5))
  show "nvm_eeconfig_read_rgblight E (ee st) = rgblight_raw rgblight_default_config" using vw(6) by (simp add: b(1))
qed

end

end
