(* ===== verification/Sample_Board.thy ===== *)
theory Sample_Board
  imports Boot
begin

text \<open>
  A concrete board: the F411's flash, wiring with every sensor at the same voltage, and the state
  after \<^verbatim>\<open>matrix_init\<close> on a blank flash. The theorems of the development are applied to it to show that
  their assumptions can hold.
\<close>

type_synonym chip = "nor_flash efl wear_leveling"

definition board_ee :: "chip eeprom_driver" where
  "board_ee = board_driver WS4 f411_flash"

definition board_inv :: "chip \<Rightarrow> bool" where
  "board_inv = efl_persisted (board_wl WS4) f411_flash nor_mem nor_started nor_ok 1 1"

definition flat_env :: "u16 \<Rightarrow> u32 \<Rightarrow> env" where
  "flat_env v t = wired_env (\<lambda>_ _. v) False t"

definition demo_kb :: "chip kb" where
  "demo_kb = init_stage3 (flat_env 1000 0) (kb_reset f411_blank)"

definition demo_scan :: "matrix \<times> chip kb" where
  "demo_scan = (replicate 5 0, demo_kb)"

lemma board_ee_eeprom: "board_eeprom board_ee cache board_inv"
  unfolding board_ee_def board_inv_def by (rule f411_ee.board_eeprom_axioms)

lemma flat_wiring: "board_wiring (flat_env v t) (\<lambda>_ _. v) False"
  unfolding flat_env_def by (rule wired.board_wiring_axioms)

lemma blank_inv: "board_inv f411_blank"
  unfolding board_inv_def by (rule f411_blank_persisted)

lemma demo_kb_state:
  "kb_ok demo_kb" "ee demo_kb = f411_blank" "board_inv (ee demo_kb)" "\<not> autosave_pending demo_kb"
  using stage3_ok [OF cold_reset, of "flat_env 1000 0" f411_blank] blank_inv by (simp_all add: demo_kb_def kb_reset_def)

lemma demo_kb_ok: "fw_ok demo_kb" "he_ok demo_kb" "rgb_ok (rgblight demo_kb)" "matrix_ok demo_kb" "caches_ok demo_kb"
  "arrays_ok demo_kb" "length (socd_winner demo_kb) = 2" "scan_ok demo_scan" "enc_ok (encoder demo_kb)"
  using demo_kb_state(1) arrays_ok_he_ok [of demo_kb] by (auto simp: kb_ok_def fw_ok_def demo_scan_def scan_ok_def)

lemma demo_kb_fields:
  "he_config demo_kb = replicate 69 he_default_key" "he_rest_floor demo_kb = replicate 69 HE_ADC_RAW_MAX" "he_scan_count demo_kb = 0"
  "\<not> he_calibrating demo_kb" "he_mode demo_kb = HE_MODE_RAPID_TRIGGER" "raw_matrix demo_kb = replicate 5 0"
  "cooked_matrix demo_kb = replicate 5 0" "matrix_previous demo_kb = replicate 5 0" "wakeup_matrix demo_kb = replicate 5 0"
  "\<not> debouncing demo_kb" "debouncing_time demo_kb = 0" "layer_state demo_kb = 0" "default_layer_state demo_kb = 0"
  "\<not> disable_action_cache demo_kb" "\<not> staged_dirty demo_kb" "keymap_config demo_kb = 0" "rgblight demo_kb = rgblight_reset"
  by (simp_all add: demo_kb_def init_stage3_def kb_reset_def matrix_init_def matrix_init_custom_def he_config_set_defaults_def
      each_config_def hw_defs map_replicate_const split: prod.split)

end
