(* ===== verification/Key_Theorems.thy ===== *)
theory Key_Theorems
  imports Sample_Board
begin

text \<open>
  What the sensing side of the keyboard guarantees: the multiplexers and the sensor table, the
  calibration, the actuation modes, the debounce, key cancel, and the matrix a scan reports.
\<close>

section \<open>The scan\<close>

text \<open>The environments of the sample board: all sensors at one voltage, one scan per millisecond.\<close>

definition demo_envs :: "nat \<Rightarrow> env" where
  "demo_envs n = flat_env 1000 (of_nat n)"

lemma demo_envs_wired: "\<forall>n. board_wiring (demo_envs n) (\<lambda>_ _. 1000) False"
  by (simp add: demo_envs_def flat_wiring)

text \<open>
  C12: What a scan reports. For every key, the stable state after the scan is one step of that key
  alone: calibration, travel, actuation mode and debounce of its own sample, whatever the other
  keys do. The reported state is the stable state unless key cancel suppresses the key, and the
  matrix bit at the key's position is the reported state. No other bit of the matrix changes,
  and the result tells exactly whether some reported state changed.
\<close>

theorem matrix_scan_reports:
  assumes "board_wiring env volt push" "matrix_scan_custom E env m st = (changed, m', st')"
    and "arrays_ok st" "length (socd_winner st) = 2" "length m = 5" "i < 69"
  shows "he_debounced st' ! i = kdeb (next_key volt push st i)
    \<and> (pressed (he_config st' ! i) \<longleftrightarrow> he_debounced st' ! i \<and> \<not> socd_suppressed st' i)
    \<and> matrix_bit m' (sensor_pos i) = pressed (he_config st' ! i)
    \<and> (\<forall>r<5. \<forall>c<16. (r, c) \<notin> sensor_pos ` {..<69} \<longrightarrow> bit (m' ! r) c = bit (m ! r) c)
    \<and> (changed \<longleftrightarrow> (\<exists>j<69. pressed (he_config st' ! j) \<noteq> pressed (he_config st ! j)))
    \<and> length m' = 5"
  using board_wiring.scan_reports [OF assms(1-5)] assms(6) by blast

theorem matrix_scan_reports_witness:
  "matrix_bit (fst (snd (matrix_scan_custom board_ee (flat_env 1000 1) (replicate 5 0) demo_kb))) (sensor_pos 7)
     = pressed (he_config (snd (snd (matrix_scan_custom board_ee (flat_env 1000 1) (replicate 5 0) demo_kb))) ! 7)
   \<and> he_debounced (snd (snd (matrix_scan_custom board_ee (flat_env 1000 1) (replicate 5 0) demo_kb))) ! 7
     = kdeb (next_key (\<lambda>_ _. 1000) False demo_kb 7)"
proof -
  obtain ch m' st' where s: "matrix_scan_custom board_ee (flat_env 1000 1) (replicate 5 0) demo_kb = (ch, m', st')" by (metis prod_cases3)
  from matrix_scan_reports [OF flat_wiring s demo_kb_ok(6,7), of 7] show ?thesis by (simp add: s)
qed

text \<open>
  C19: Key cancel (SOCD): the last input wins, and goes on winning. Along any sequence of scans in key-cancel mode, for
  either pair, A and D or the left and right arrow, written \<open>x\<close> and \<open>y\<close> in either order: never are both keys reported; a key
  held alone is reported, so that the partner takes over in the scan that finds the winner released; only held keys are
  reported, and one of two held keys always is. A key \<open>y\<close> that becomes stable while \<open>x\<close> is held is the one reported, not only in that scan
  but in every scan as long as both stay held. Of two keys that become stable in the same scan it is the one with the larger travel in
  that scan, the first on a tie, again as long as both stay held.
\<close>

theorem socd_last_wins:
  fixes E :: "'e eeprom_driver" and s :: "matrix \<times> ('e, 'z) board_scheme"
  assumes "\<forall>n. board_wiring (envs n) (volt n) (push n)" "scan_ok s" "he_mode (snd s) = HE_MODE_KEY_CANCEL"
    and "p < 2" "socd_pairs ! p = (ia, ib)" "(x, y) = (ia, ib) \<or> (x, y) = (ib, ia)"
  shows "\<not> (reported_at E envs s x (Suc n) \<and> reported_at E envs s y (Suc n))
    \<and> (stable_at E envs s x (Suc n) \<and> \<not> stable_at E envs s y (Suc n) \<longrightarrow> reported_at E envs s x (Suc n))
    \<and> (reported_at E envs s x (Suc n) \<longrightarrow> stable_at E envs s x (Suc n))
    \<and> (stable_at E envs s x (Suc n) \<and> stable_at E envs s y (Suc n) \<longrightarrow> reported_at E envs s x (Suc n) \<or> reported_at E envs s y (Suc n))
    \<and> (stable_at E envs s x n \<and> \<not> stable_at E envs s y n
        \<and> (\<forall>j\<in>{Suc n..m}. stable_at E envs s x j \<and> stable_at E envs s y j) \<longrightarrow>
        (\<forall>j\<in>{Suc n..m}. reported_at E envs s y j \<and> \<not> reported_at E envs s x j))
    \<and> (\<not> stable_at E envs s ia n \<and> \<not> stable_at E envs s ib n
        \<and> (\<forall>j\<in>{Suc n..m}. stable_at E envs s ia j \<and> stable_at E envs s ib j) \<longrightarrow>
        (\<forall>j\<in>{Suc n..m}. (reported_at E envs s ia j \<longleftrightarrow> travel_at E envs s ib (Suc n) \<le> travel_at E envs s ia (Suc n))
          \<and> (reported_at E envs s ib j \<longleftrightarrow> \<not> travel_at E envs s ib (Suc n) \<le> travel_at E envs s ia (Suc n))))"
proof -
  note scan = socd_scan [OF assms(1-5), of E] and stays = socd_winner_stays [OF assms(1-5), of "Suc n" m E]
  have later: "reported_at E envs s ia j \<longleftrightarrow> winner_at E envs s p (Suc n) \<noteq> 1" "reported_at E envs s ib j \<longleftrightarrow> winner_at E envs s p (Suc n) = 1"
    if both: "\<forall>j\<in>{Suc n..m}. stable_at E envs s ia j \<and> stable_at E envs s ib j" and j: "j \<in> {Suc n..m}" for j
  proof -
    obtain k where k: "j = Suc k" using j by (cases j) auto
    show "reported_at E envs s ia j \<longleftrightarrow> winner_at E envs s p (Suc n) \<noteq> 1" "reported_at E envs s ib j \<longleftrightarrow> winner_at E envs s p (Suc n) = 1"
      using scan(1,2) [of k] stays [OF both j] both j by (auto simp: k)
  qed
  have first: "Suc n \<in> {Suc n..m}" if "j \<in> {Suc n..m}" for j using that by simp
  show ?thesis
    using assms(6) scan(1,2) [of n] later first scan(3) [of n] by (elim disjE) (auto simp: Let_def split: if_splits)
qed

definition demo_socd :: "chip kb" where
  "demo_socd = demo_kb\<lparr>he_mode := HE_MODE_KEY_CANCEL\<rparr>"

lemma demo_socd_ok: "scan_ok (replicate 5 0, demo_socd)" "he_mode (snd (replicate 5 0 :: matrix, demo_socd)) = HE_MODE_KEY_CANCEL"
  using demo_kb_ok(6,7) by (simp_all add: demo_socd_def arrays_ok_def scan_ok_def)

theorem socd_last_wins_witness:
  "\<not> (reported_at board_ee demo_envs (replicate 5 0, demo_socd) 46 (Suc 9) \<and> reported_at board_ee demo_envs (replicate 5 0, demo_socd) 47 (Suc 9))"
proof -
  have "socd_pairs ! 1 = (46, 47)" by (simp add: socd_pairs_def)
  from socd_last_wins [OF demo_envs_wired demo_socd_ok _ this, of 46 47 board_ee 9 20] show ?thesis by simp
qed

text \<open>
  C20: No chatter. Along any sequence of scans, the stable state of a key changes only in a scan that
  ends five consecutive scans, none of them before the start, whose instantaneous state is the new value.
\<close>

theorem stable_needs_five_scans:
  assumes "\<forall>n. board_wiring (envs n) (volt n) (push n)" "scan_ok s" "i < 69" "counter_at E envs s i 0 = 0"
    and "stable_at E envs s i (Suc n) \<noteq> stable_at E envs s i n"
  shows "4 \<le> n \<and> (\<forall>j\<in>{n - 3..n + 1}. phys_at E envs s i j = stable_at E envs s i (Suc n))"
  by (rule debounce_needs_five [OF assms])

text \<open>
  A run of the sample board in which a key does change: the encoder's switch, which a scan reads
  through its GPIO, is held from the start.
\<close>

definition push_envs :: "nat \<Rightarrow> env" where
  "push_envs n = wired_env (\<lambda>_ _. 1000) True (of_nat n)"

lemma push_envs_wired: "\<forall>n. board_wiring (push_envs n) (\<lambda>_ _. 1000) True"
  by (simp add: push_envs_def wired.board_wiring_axioms)

lemma next_key_push: "kphys (next_key volt push st 68) = push"
  by (simp add: next_key_def key_input_def key_step_def debounce_key_sel hw_defs)

lemma demo_scan_start: "counter_at E envs demo_scan i 0 = 0 \<or> 69 \<le> i" "stable_at E envs demo_scan 68 0 = he_debounced demo_kb ! 68"
  by (auto simp: counter_at_def stable_at_def demo_scan_def demo_kb_fields he_default_key_def)

lemma push_phys: "phys_at board_ee push_envs demo_scan 68 (Suc n)"
proof (rule scan_seq_SucE [OF push_envs_wired demo_kb_ok(8), of board_ee n])
  fix m st ch m' st'
  assume s: "scan_seq board_ee push_envs demo_scan (Suc n) = (m', st')"
    and "\<forall>i<69. \<exists>a r p. key_at st' i = rethreshold a r p (next_key (\<lambda>_ _. 1000) True st i)"
  from this(2) [rule_format, of 68] have "kphys (key_at st' 68)" by (auto simp: next_key_push)
  then show ?thesis using s by (simp add: phys_at_def key_at_def del: scan_seq.simps)
qed


lemma push_phys_pos: "0 < n \<Longrightarrow> phys_at board_ee push_envs demo_scan 68 n"
  by (cases n) (simp_all add: push_phys)

lemma demo_kb_debounced: "he_debounced demo_kb = replicate 69 False"
  by (simp add: demo_kb_def init_stage3_def kb_reset_def matrix_init_def matrix_init_custom_def he_config_set_defaults_def
      each_config_def hw_defs split: prod.split)

lemma push_start: "counter_at board_ee push_envs demo_scan 68 0 = 0"
  using demo_scan_start(1) [of board_ee push_envs 68] by simp

lemma push_stable: "stable_at board_ee push_envs demo_scan 68 (Suc 4) \<noteq> stable_at board_ee push_envs demo_scan 68 4"
proof -
  note five = debounce_needs_five [OF push_envs_wired demo_kb_ok(8) _ push_start]
  have "\<not> stable_at board_ee push_envs demo_scan 68 n" if "n \<le> 4" for n
    using that
  proof (induction n)
    case (Suc n)
    then show ?case using five [of n] by auto
  qed (simp add: demo_scan_start(2) demo_kb_debounced)
  moreover have "stable_at board_ee push_envs demo_scan 68 (0 + 5)"
  proof -
    have "\<forall>j\<in>{0 + 1..0 + 5}. phys_at board_ee push_envs demo_scan 68 j = True"
      by (simp add: push_phys_pos)
    then show ?thesis using debounce_five_enough [OF push_envs_wired demo_kb_ok(8) _ push_start, of 0 True] by simp
  qed
  ultimately show ?thesis by simp
qed

theorem stable_needs_five_scans_witness: "phys_at board_ee push_envs demo_scan 68 2 = stable_at board_ee push_envs demo_scan 68 5"
  using stable_needs_five_scans [OF push_envs_wired demo_kb_ok(8) _ push_start push_stable] by simp

text \<open>
  C21: And five scans are enough. Once five consecutive scans see the same instantaneous state of
  a key, that is its stable state, whatever happened before.
\<close>

theorem five_scans_settle:
  assumes "\<forall>n. board_wiring (envs n) (volt n) (push n)" "scan_ok s" "i < 69" "counter_at E envs s i 0 = 0"
    and "\<forall>j\<in>{n + 1..n + 5}. phys_at E envs s i j = v"
  shows "stable_at E envs s i (n + 5) = v"
  by (rule debounce_five_enough [OF assms])

theorem five_scans_settle_witness: "stable_at board_ee push_envs demo_scan 68 (2 + 5) = True"
proof (rule five_scans_settle [OF push_envs_wired demo_kb_ok(8) _ push_start])
  show "\<forall>j\<in>{2 + 1..2 + 5}. phys_at board_ee push_envs demo_scan 68 j = True"
    by (simp add: push_phys_pos)
qed simp

section \<open>From the sample to the key state\<close>

definition travel_percent :: "int \<Rightarrow> int \<Rightarrow> int \<Rightarrow> int" where
  "travel_percent lo hi x = max 0 (min 100 ((x - lo) * 100 div max 1 (hi - lo)))"

lemma travel_percent_cases:
  "travel_percent lo hi x = (if x < lo then 0 else min 100 ((x - lo) * 100 div (if lo < hi then hi - lo else 1)))"
proof (cases "x < lo")
  case True
  then have "(x - lo) * 100 div max 1 (hi - lo) < 0" by (simp add: div_neg_pos_less0)
  with True show ?thesis by (simp add: travel_percent_def)
next
  case False
  then have "0 \<le> (x - lo) * 100 div max 1 (hi - lo)" by (simp add: pos_imp_zdiv_nonneg_iff)
  moreover have "max 1 (hi - lo) = (if lo < hi then hi - lo else 1)" by auto
  ultimately show ?thesis using False by (simp add: travel_percent_def)
qed

text \<open>
  C24: Travel is the position of the sample in the calibrated span, in per cent: 0 at and below the
  resting value, 100 at and above the bottom, rounded down in between, an empty span counting
  as one step wide. The code computes it in 32-bit signed integers; their product is the exact one, for every sample and every
  span, so that nothing overflows, and the result is monotone in the sample.
\<close>

theorem raw_to_travel_percent:
  "sint (he_travel_product c raw) = (uint raw - uint (raw_min c)) * 100
   \<and> uint (he_raw_to_travel c raw) = travel_percent (uint (raw_min c)) (uint (raw_max c)) (uint raw)
   \<and> (raw \<le> raw' \<longrightarrow> he_raw_to_travel c raw \<le> he_raw_to_travel c raw')
   \<and> (raw_min c < raw_max c \<and> raw_max c \<le> raw \<longrightarrow> he_raw_to_travel c raw = 100)"
  using sint_travel_product [of c raw] he_raw_to_travel_uint [of c raw] travel_mono [of raw raw' c] travel_bottom [of c raw]
  by (auto simp: travel_percent_cases word_less_def word_le_def)

theorem raw_to_travel_percent_witness:
  "he_raw_to_travel he_default_key 2378 = 50 \<and> he_raw_to_travel he_default_key 2378 \<le> he_raw_to_travel he_default_key 4000
   \<and> he_raw_to_travel he_default_key 4000 = 100"
proof -
  have "uint (he_raw_to_travel he_default_key 2378) = 50"
    using raw_to_travel_percent [of he_default_key 2378 0] by (simp add: travel_percent_def he_default_key_def hw_defs)
  then have "he_raw_to_travel he_default_key 2378 = 50" by (metis uint_numeral word_of_int_uint word_of_int_numeral)
  then show ?thesis using raw_to_travel_percent [of he_default_key 2378 4000] raw_to_travel_percent [of he_default_key 4000 0]
    by (simp add: he_default_key_def hw_defs)
qed

text \<open>
  Normal and key-cancel mode are a switch with hysteresis: with the release point below the actuation
  point, travel at or past the actuation point presses the key, travel at or below the release point
  releases it, and in the band between them the key keeps its state.
\<close>

theorem normal_mode_hysteresis:
  assumes "mode \<noteq> HE_MODE_RAPID_TRIGGER" "release c < actuation c"
  shows "snd (he_compute_pressed mode tune c p t) \<longleftrightarrow> actuation c \<le> t \<or> (release c < t \<and> p)"
  using normal_hysteresis [OF assms] assms(2) by (metis leI order_le_less_trans not_less order_less_le_trans)

theorem normal_mode_hysteresis_witness:
  "snd (he_compute_pressed HE_MODE_NORMAL \<lparr>deadzone = 50, engage = 5, release_dist = 5\<rparr> he_default_key True 49) \<longleftrightarrow>
    actuation he_default_key \<le> 49 \<or> (release he_default_key < 49 \<and> True)"
  by (rule normal_mode_hysteresis) (simp_all add: he_default_key_def hw_defs)

text \<open>
  C25: Rapid trigger. A held key is released exactly when it falls into the rest band or drops
  by the release distance below the highest point since it was pressed, and the drop is computed without
  wrap-around; a released key is pressed exactly when it is above the rest band and either past the
  actuation point or the engage distance above the lowest point since the release. The peak
  and the valley are those extremes.
\<close>

theorem rapid_trigger_rule:
  "(\<not> snd (he_compute_pressed HE_MODE_RAPID_TRIGGER tune c True t) \<longleftrightarrow>
      t \<le> deadzone tune \<or> uint (release_dist tune) \<le> uint (max (peak c) t) - uint t)
   \<and> (snd (he_compute_pressed HE_MODE_RAPID_TRIGGER tune c False t) \<longleftrightarrow>
      deadzone tune < t \<and> (actuation c \<le> t \<or> uint (engage tune) \<le> uint t - uint (min (valley c) t)))
   \<and> (if snd (he_compute_pressed HE_MODE_RAPID_TRIGGER tune c p t)
      then peak (fst (he_compute_pressed HE_MODE_RAPID_TRIGGER tune c p t)) = (if p then max (peak c) t else t)
      else valley (fst (he_compute_pressed HE_MODE_RAPID_TRIGGER tune c p t)) = (if p then t else min (valley c) t))"
  using rt_release [of tune c t] rt_press [of tune c t] by (cases p) auto

text \<open>
  Where the code departs from its comment, which wants a held key released as soon as its travel has dropped by the
  release distance: while the travel stays past the actuation point and above the rest band, no drop, however large, ever makes the
  key stable-released. The next scan sees the travel past the actuation point and presses the key
  again, and the debounce needs five agreeing scans.
\<close>

theorem rapid_trigger_held_above_actuation:
  assumes "kdeb k" "kphys k \<longrightarrow> debounce (kcfg k) = 0" "\<not> kphys k \<longrightarrow> debounce (kcfg k) \<le> 1"
    and "\<forall>(cnt, raw)\<in>set ins. deadzone tune < he_raw_to_travel (kcfg k) raw \<and> actuation (kcfg k) \<le> he_raw_to_travel (kcfg k) raw"
  shows "kdeb (key_run HE_MODE_RAPID_TRIGGER tune ins k)"
  by (rule rt_held_above_actuation [OF assms])

definition demo_held :: key where
  "demo_held = \<lparr>kcfg = he_default_key\<lparr>travel := 100, peak := 100\<rparr>, kfloor = 2048, klatched = False, kphys = True, kdeb = True\<rparr>"

text \<open>A key at the bottom lifted to 54 per cent for eight scans: a drop of 46, nine times the release distance.\<close>

theorem rapid_trigger_held_above_actuation_witness:
  "kdeb (key_run HE_MODE_RAPID_TRIGGER \<lparr>deadzone = 50, engage = 5, release_dist = 5\<rparr> (map (\<lambda>n. (of_nat n, 2408)) [100..<108]) demo_held)"
proof (rule rapid_trigger_held_above_actuation)
  have "uint (he_raw_to_travel (kcfg demo_held) 2408) = 54"
    by (simp add: he_raw_to_travel_uint demo_held_def he_default_key_def hw_defs)
  then have "he_raw_to_travel (kcfg demo_held) 2408 = 54" by (metis uint_numeral word_of_int_uint word_of_int_numeral)
  then show "\<forall>(cnt, raw)\<in>set (map (\<lambda>n. (of_nat n :: u32, 2408)) [100..<108]).
      deadzone \<lparr>deadzone = 50, engage = 5, release_dist = 5\<rparr> < he_raw_to_travel (kcfg demo_held) raw
      \<and> actuation (kcfg demo_held) \<le> he_raw_to_travel (kcfg demo_held) raw"
    by (simp add: demo_held_def he_default_key_def hw_defs)
qed (simp_all add: demo_held_def he_default_key_def)

section \<open>Calibration\<close>

text \<open>
  C26: The automatic calibration. From power-on, after 64 scans every analog key's zero is 20
  counts below the smallest of its 64 samples and its span is 700 counts; with this span a
  sample up to 329 counts above the resting floor reads less than 50 per cent (the default actuation point), and
  one 700 counts above it reads 100.
\<close>

theorem boot_calibration:
  fixes E :: "'e eeprom_driver" and s :: "matrix \<times> ('e, 'z) board_scheme"
  assumes "\<forall>n. board_wiring (envs n) (volt n) (push n)" "scan_ok s" "i < 68"
    and "he_scan_count (snd s) = 0" "he_rest_floor (snd s) ! i = HE_ADC_RAW_MAX"
    and "\<forall>j<64. sample volt i j \<le> HE_ADC_RAW_MAX"
    and "rest = Min (sample volt i ` {..<64})" "c = he_config (snd (scan_seq E envs s 64)) ! i"
  shows "raw_min c = rest_base rest \<and> raw_max c = rest_base rest + HE_ADC_TRAVEL_SPAN
    \<and> (uint raw \<le> uint rest + 329 \<longrightarrow> he_raw_to_travel c raw < 50)
    \<and> (uint rest + 700 \<le> uint raw \<longrightarrow> he_raw_to_travel c raw = 100)"
proof -
  note l = boot_locked(1,2) [OF assms(1-6), of E, folded assms(7,8)] boot_locked(3) [OF assms(1-6), folded assms(7)]
  show ?thesis using l locked_travel [OF l] by blast
qed

theorem boot_calibration_witness:
  "he_raw_to_travel (he_config (snd (scan_seq board_ee demo_envs demo_scan 64)) ! 5) 1329 < 50
   \<and> he_raw_to_travel (he_config (snd (scan_seq board_ee demo_envs demo_scan 64)) ! 5) 1700 = 100"
proof -
  have "sample (\<lambda>_ _ _. 1000) 5 ` {..<64} = {1000}" unfolding sample_def by (simp add: image_constant_conv lessThan_empty_iff)
  then have "he_scan_count (snd demo_scan) = 0" "he_rest_floor (snd demo_scan) ! 5 = HE_ADC_RAW_MAX"
    "\<forall>j<64. sample (\<lambda>_ _ _. 1000) 5 j \<le> HE_ADC_RAW_MAX" "1000 = Min (sample (\<lambda>_ _ _. 1000) 5 ` {..<64})"
    by (simp_all add: demo_scan_def demo_kb_fields) (simp add: sample_def hw_defs)
  from boot_calibration [OF demo_envs_wired demo_kb_ok(8) _ this refl, of board_ee 1329]
    boot_calibration [OF demo_envs_wired demo_kb_ok(8) _ this refl, of board_ee 1700] show ?thesis by simp
qed

lemma start_calibration_ok:
  assumes "scan_ok (m, st)"
  shows "scan_ok (m, he_start_calibration E st)" "he_scan_count (he_start_calibration E st) = he_scan_count st"
proof -
  let ?st = "(each_config (\<lambda>i c. if i = HE_ENC_PUSH_INDEX then c else c\<lparr>raw_min := HE_ADC_RAW_MAX, raw_max := 0\<rparr>)
      (st\<lparr>he_cal_latched := replicate HE_SENSOR_COUNT False\<rparr>))\<lparr>he_calibrating := True, cal_saved_hsv := rgblight_get_hsv st\<rparr>"
  obtain g where g: "he_start_calibration E st = map_rgb (\<lambda>_. g) ?st"
    using sethsv_noeeprom_obtain [of E 0 255 255 ?st] by (auto simp: he_start_calibration_def Let_def rgblight_get_hsv_def each_config_def)
  show "scan_ok (m, he_start_calibration E st)" "he_scan_count (he_start_calibration E st) = he_scan_count st"
    using assms unfolding g by (simp_all add: scan_ok_def arrays_ok_def each_config_def)
qed

text \<open>
  C27: The manual calibration. Between its start and its end every analog key records the
  smallest and the largest sample of the scans in between; if they are at least 200 counts apart they
  become the key's span, otherwise the span is 700 counts above its resting floor (or the
  middle of the range when there is none). Either way the span ends up at least 200 counts wide, calibration
  mode is off, and the light has the colour it had before.
\<close>

theorem manual_calibration:
  fixes E :: "'e eeprom_driver" and st :: "('e, 'z) board_scheme"
  assumes "\<forall>n. board_wiring (envs n) (volt n) (push n)" "he_ok st" "length m = 5" "i < 68"
    and "64 \<le> unat (he_scan_count st)" "unat (he_scan_count st) + n < 2 ^ 32"
    and "lo = Min (insert HE_ADC_RAW_MAX (sample volt i ` {..<n}))" "hi = Max (insert 0 (sample volt i ` {..<n}))"
    and "st1 = snd (scan_seq E envs (m, he_start_calibration E st) n)" "c = he_config (he_end_calibration E st1) ! i"
  shows "(if 200 \<le> uint hi - uint lo then raw_min c = lo \<and> raw_max c = hi
      else raw_min c = (if he_rest_floor st1 ! i < HE_ADC_RAW_MAX then rest_base (he_rest_floor st1 ! i) else HE_ADC_RAW_MID)
        \<and> raw_max c = raw_min c + HE_ADC_TRAVEL_SPAN)
    \<and> 200 \<le> uint (raw_max c) - uint (raw_min c) \<and> \<not> he_calibrating (he_end_calibration E st1)
    \<and> cfg (he_end_calibration E st1) = cfg st"
proof -
  have sok: "scan_ok (m, st)" using arrays_ok_he_ok [OF assms(2)] assms(3) by (simp add: scan_ok_def)
  note start = start_calibration_sel [of E st] and ok = start_calibration_ok [OF sok, of E]
  have "he_calibrating (snd (m, he_start_calibration E st))"
    "raw_min (he_config (snd (m, he_start_calibration E st)) ! i) = HE_ADC_RAW_MAX"
    "raw_max (he_config (snd (m, he_start_calibration E st)) ! i) = 0"
    using start assms(4) by (simp_all add: hw_defs)
  from calibration_extremes [OF assms(1) ok(1) assms(4) this, of n E] assms(5,6) ok(2)
  have ext: "raw_min (he_config st1 ! i) = lo" "raw_max (he_config st1 ! i) = hi" by (simp_all add: assms(7-9))
  have c: "c = end_calibration_key (he_rest_floor st1 ! i) (he_config st1 ! i)"
    using assms(4) by (simp add: assms(10) end_calibration_sel(1) hw_defs)
  have "cfg st1 = cfg (he_start_calibration E st)" "cal_saved_hsv st1 = rgblight_get_hsv st"
    using scan_seq_invariants [OF assms(1), of "(m, he_start_calibration E st)" E n] he_ok_start_calibration [OF assms(2), of E]
      start(4) assms(3) by (simp_all add: assms(9))
  then have "cfg (he_end_calibration E st1) = cfg st"
    using start(6) end_calibration_sel(4) [of E st1] by (simp add: rgblight_get_hsv_def)
  then show ?thesis
    using end_calibration_span [of "he_rest_floor st1 ! i" "he_config st1 ! i"] end_calibration_sel(2) [of E st1] ext
    by (auto simp: c end_calibration_key_def Let_def HE_ADC_MIN_SPAN_def)
qed

definition demo_booted :: "chip kb" where
  "demo_booted = demo_kb\<lparr>he_scan_count := 64\<rparr>"

text \<open>Three scans, one of them with every key at the bottom.\<close>

definition cal_volt :: "nat \<Rightarrow> nat \<Rightarrow> nat \<Rightarrow> u16" where
  "cal_volt n = (\<lambda>_ _. if n = 1 then 2700 else 2000)"

definition cal_envs :: "nat \<Rightarrow> env" where
  "cal_envs n = wired_env (cal_volt n) False (of_nat n)"

theorem manual_calibration_witness:
  "raw_min (he_config (he_end_calibration board_ee (snd (scan_seq board_ee cal_envs (replicate 5 0, he_start_calibration board_ee demo_booted) 3))) ! 9) = 2000
   \<and> raw_max (he_config (he_end_calibration board_ee (snd (scan_seq board_ee cal_envs (replicate 5 0, he_start_calibration board_ee demo_booted) 3))) ! 9) = 2700"
proof -
  have w: "\<forall>n. board_wiring (cal_envs n) (cal_volt n) False" by (simp add: cal_envs_def wired.board_wiring_axioms)
  have ok: "he_ok demo_booted" "length (replicate 5 0 :: matrix) = 5" "64 \<le> unat (he_scan_count demo_booted)" "unat (he_scan_count demo_booted) + 3 < 2 ^ 32"
    using demo_kb_ok(2) by (simp_all add: demo_booted_def he_ok_def)
  have smp: "sample cal_volt 9 ` {..<3} = {2000, 2700}"
    by (auto simp: sample_def cal_volt_def lessThan_Suc numeral_3_eq_3)
  have m: "2000 = Min (insert HE_ADC_RAW_MAX (sample cal_volt 9 ` {..<3}))" "2700 = Max (insert 0 (sample cal_volt 9 ` {..<3}))"
    by (simp_all add: smp hw_defs)
  from manual_calibration [OF w ok(1,2) _ ok(3,4) m refl refl, of board_ee] show ?thesis by simp
qed

section \<open>Reading a sensor\<close>

text \<open>
  C28: Selecting a channel drives the enable line of that multiplexer only and puts the channel number on the
  address lines, whatever the pins were before; and during the sequence of pin
  writes, whenever an address line changes, every multiplexer is disabled before and after, so that no two sensors
  are ever connected to the shared ADC line.
\<close>

theorem mux_select_clean:
  assumes "m < HE_MUX_COUNT"
  shows "selects (pin_level (fold gpio_write (he_mux_select m a) g)) m a
    \<and> (\<forall>k<length (he_mux_select m a). fst (he_mux_select m a ! k) \<in> set mux_addr_pins \<longrightarrow>
        all_disabled (pin_level (fold gpio_write (take k (he_mux_select m a)) g))
        \<and> all_disabled (pin_level (fold gpio_write (take (Suc k) (he_mux_select m a)) g)))"
  using he_mux_select_selects [OF assms] he_mux_select_no_glitch by blast

theorem mux_select_clean_witness:
  "selects (pin_level (fold gpio_write (he_mux_select 3 11) \<lparr>pin_level = (\<lambda>_. False), pin_mode_of = pin_mode_of (gpio demo_kb)\<rparr>)) 3 11"
  using mux_select_clean [of 3 11] by (simp add: HE_MUX_COUNT_def)

text \<open>
  The hand-written tables are consistent. Every one of the 69 sensors has its own matrix
  position inside the 5 by 16 matrix and its table index as identifier, the 68 analog ones have a multiplexer channel
  each to themselves, and the LED remap table is a permutation of the 68 LEDs.
\<close>

theorem board_tables:
  "distinct (map (\<lambda>s. (sensor_row s, sensor_col s)) he_sensors)
   \<and> list_all (\<lambda>s. sensor_row s < 5 \<and> sensor_col s < 16 \<and> sensor_mux s < HE_MUX_COUNT \<and> sensor_addr s < 16) he_sensors
   \<and> map sensor_id he_sensors = [0..<69]
   \<and> distinct (map (\<lambda>s. (sensor_mux s, sensor_addr s)) (take HE_ENC_PUSH_INDEX he_sensors))
   \<and> distinct (take 68 he_led_remap) \<and> set (take 68 he_led_remap) = {0..<68}"
  using he_sensors_positions he_sensors_channels he_led_remap_perm by (simp add: list_all_iff)

end
