(* ===== verification/Report.thy ===== *)
theory Report
  imports Keymap
begin

text \<open>
  What the host is told: the keyboard reports of \<^verbatim>\<open>tmk_core/protocol/report.c\<close>, the modifiers and the
  sending of \<^verbatim>\<open>quantum/action_util.c\<close>, and the host driver calls of \<^verbatim>\<open>tmk_core/protocol/host.c\<close>. The reports
  handed to the USB driver, and the pauses between them, are recorded in \<open>host_sent\<close>, the newest first. The build has
  \<^verbatim>\<open>NKRO_ENABLE\<close>, \<^verbatim>\<open>EXTRAKEY_ENABLE\<close>, \<^verbatim>\<open>MOUSE_ENABLE\<close> and \<^verbatim>\<open>KEYBOARD_SHARED_EP\<close>; the driver is set before the first report.

  \<open>nk\<close> is the test \<^verbatim>\<open>host_can_send_nkro() && keymap_config.nkro\<close> of most functions here.
\<close>

section \<open>Model\<close>

subsection \<open>Reports\<close>

definition KEYBOARD_REPORT_KEYS :: nat where [hw_defs]: "KEYBOARD_REPORT_KEYS = 6"
definition NKRO_REPORT_BITS :: nat where [hw_defs]: "NKRO_REPORT_BITS = 30"
definition REPORT_ID_KEYBOARD :: u8 where [hw_defs]: "REPORT_ID_KEYBOARD = 1"
definition REPORT_ID_MOUSE :: u8 where [hw_defs]: "REPORT_ID_MOUSE = 2"
definition REPORT_ID_SYSTEM :: u8 where [hw_defs]: "REPORT_ID_SYSTEM = 3"
definition REPORT_ID_CONSUMER :: u8 where [hw_defs]: "REPORT_ID_CONSUMER = 4"
definition REPORT_ID_NKRO :: u8 where [hw_defs]: "REPORT_ID_NKRO = 6"

record report_keyboard_t =
  rk_report_id :: u8
  rk_mods :: u8
  rk_reserved :: u8
  rk_keys :: bytes

record report_nkro_t =
  rn_report_id :: u8
  rn_mods :: u8
  rn_bits :: bytes

record report_mouse_t =
  rm_report_id :: u8
  rm_buttons :: u8
  rm_x :: u8
  rm_y :: u8
  rm_v :: u8
  rm_h :: u8

record report_extra_t =
  re_report_id :: u8
  re_usage :: u16

datatype host_report =
  Send_Keyboard report_keyboard_t | Send_Nkro report_nkro_t | Send_Mouse report_mouse_t | Send_Extra report_extra_t
  | Wait_Ms nat

text \<open>
  The static variables of \<^verbatim>\<open>action_util.c\<close> and \<^verbatim>\<open>host.c\<close>, the two \<^verbatim>\<open>last_report\<close>s included.
\<close>

record hid =
  real_mods :: u8
  weak_mods :: u8
  oneshot_mods :: u8
  oneshot_locked_mods :: u8
  keyboard_report :: report_keyboard_t
  nkro_report :: report_nkro_t
  last_report :: report_keyboard_t
  last_nkro_report :: report_nkro_t
  last_system_usage :: u16
  last_consumer_usage :: u16
  host_sent :: "host_report list"

subsection \<open>Host driver\<close>

definition host_keyboard_send :: "hid \<Rightarrow> hid" where
  "host_keyboard_send h =
     (let r = (keyboard_report h)\<lparr>rk_report_id := REPORT_ID_KEYBOARD\<rparr> in
      h\<lparr>keyboard_report := r, host_sent := Send_Keyboard r # host_sent h\<rparr>)"

definition host_nkro_send :: "hid \<Rightarrow> hid" where
  "host_nkro_send h =
     (let r = (nkro_report h)\<lparr>rn_report_id := REPORT_ID_NKRO\<rparr> in
      h\<lparr>nkro_report := r, host_sent := Send_Nkro r # host_sent h\<rparr>)"

definition host_mouse_send :: "report_mouse_t \<Rightarrow> hid \<Rightarrow> report_mouse_t \<times> hid" where
  "host_mouse_send report h =
     (let r = report\<lparr>rm_report_id := REPORT_ID_MOUSE\<rparr> in (r, h\<lparr>host_sent := Send_Mouse r # host_sent h\<rparr>))"

definition host_system_send :: "u16 \<Rightarrow> hid \<Rightarrow> hid" where
  "host_system_send usage h =
     (if usage = last_system_usage h then h
      else h\<lparr>last_system_usage := usage,
        host_sent := Send_Extra \<lparr>re_report_id = REPORT_ID_SYSTEM, re_usage = usage\<rparr> # host_sent h\<rparr>)"

definition host_consumer_send :: "u16 \<Rightarrow> hid \<Rightarrow> hid" where
  "host_consumer_send usage h =
     (if usage = last_consumer_usage h then h
      else h\<lparr>last_consumer_usage := usage,
        host_sent := Send_Extra \<lparr>re_report_id = REPORT_ID_CONSUMER, re_usage = usage\<rparr> # host_sent h\<rparr>)"

definition wait_ms :: "nat \<Rightarrow> hid \<Rightarrow> hid" where
  "wait_ms ms h = (if ms = 0 then h else h\<lparr>host_sent := Wait_Ms ms # host_sent h\<rparr>)"

subsection \<open>Keys of the report\<close>

definition has_anykey :: "bool \<Rightarrow> hid \<Rightarrow> nat" where
  "has_anykey nk h =
     length (filter (\<lambda>b. b \<noteq> 0) (if nk then rn_bits (nkro_report h) else rk_keys (keyboard_report h)))"

definition is_key_pressed :: "bool \<Rightarrow> u8 \<Rightarrow> hid \<Rightarrow> bool" where
  "is_key_pressed nk key h \<longleftrightarrow>
     (if key = 0 then False
      else if nk then
        (if unat (drop_bit 3 key) < NKRO_REPORT_BITS
         then rn_bits (nkro_report h) ! unat (drop_bit 3 key) AND push_bit (unat (key AND 7)) 1 \<noteq> 0 else False)
      else (\<exists>i\<in>set [0..<KEYBOARD_REPORT_KEYS]. rk_keys (keyboard_report h) ! i = key))"

text \<open>The loop looks for the code and remembers the first empty cell it passes.\<close>

definition add_key_byte :: "u8 \<Rightarrow> report_keyboard_t \<Rightarrow> report_keyboard_t" where
  "add_key_byte code r =
     (if \<exists>i\<in>set [0..<KEYBOARD_REPORT_KEYS]. rk_keys r ! i = code then r
      else case find (\<lambda>i. rk_keys r ! i = 0) [0..<KEYBOARD_REPORT_KEYS] of
        Some i \<Rightarrow> r\<lparr>rk_keys := (rk_keys r)[i := code]\<rparr>
      | None \<Rightarrow> r)"

definition del_key_byte :: "u8 \<Rightarrow> report_keyboard_t \<Rightarrow> report_keyboard_t" where
  "del_key_byte code =
     for_range KEYBOARD_REPORT_KEYS (\<lambda>i r. if rk_keys r ! i = code then r\<lparr>rk_keys := (rk_keys r)[i := 0]\<rparr> else r)"

definition add_key_bit :: "u8 \<Rightarrow> report_nkro_t \<Rightarrow> report_nkro_t" where
  "add_key_bit code r =
     (let i = unat (drop_bit 3 code) in
      if i < NKRO_REPORT_BITS
      then r\<lparr>rn_bits := (rn_bits r)[i := rn_bits r ! i OR push_bit (unat (code AND 7)) 1]\<rparr> else r)"

definition del_key_bit :: "u8 \<Rightarrow> report_nkro_t \<Rightarrow> report_nkro_t" where
  "del_key_bit code r =
     (let i = unat (drop_bit 3 code) in
      if i < NKRO_REPORT_BITS
      then r\<lparr>rn_bits := (rn_bits r)[i := rn_bits r ! i AND NOT (push_bit (unat (code AND 7)) 1)]\<rparr> else r)"

definition add_key_to_report :: "bool \<Rightarrow> u8 \<Rightarrow> hid \<Rightarrow> hid" where
  "add_key_to_report nk key h =
     (if nk then h\<lparr>nkro_report := add_key_bit key (nkro_report h)\<rparr>
      else h\<lparr>keyboard_report := add_key_byte key (keyboard_report h)\<rparr>)"

definition del_key_from_report :: "bool \<Rightarrow> u8 \<Rightarrow> hid \<Rightarrow> hid" where
  "del_key_from_report nk key h =
     (if nk then h\<lparr>nkro_report := del_key_bit key (nkro_report h)\<rparr>
      else h\<lparr>keyboard_report := del_key_byte key (keyboard_report h)\<rparr>)"

definition clear_keys_from_report :: "bool \<Rightarrow> hid \<Rightarrow> hid" where
  "clear_keys_from_report nk h =
     (if nk then h\<lparr>nkro_report := (nkro_report h)\<lparr>rn_bits := replicate NKRO_REPORT_BITS 0\<rparr>\<rparr>
      else h\<lparr>keyboard_report := (keyboard_report h)\<lparr>rk_keys := replicate KEYBOARD_REPORT_KEYS 0\<rparr>\<rparr>)"

definition add_key :: "bool \<Rightarrow> u8 \<Rightarrow> hid \<Rightarrow> hid" where "add_key nk key = add_key_to_report nk key"
definition del_key :: "bool \<Rightarrow> u8 \<Rightarrow> hid \<Rightarrow> hid" where "del_key nk key = del_key_from_report nk key"
definition clear_keys :: "bool \<Rightarrow> hid \<Rightarrow> hid" where "clear_keys nk = clear_keys_from_report nk"

subsection \<open>Modifiers\<close>

definition add_mods :: "u8 \<Rightarrow> hid \<Rightarrow> hid" where "add_mods mods h = h\<lparr>real_mods := real_mods h OR mods\<rparr>"
definition del_mods :: "u8 \<Rightarrow> hid \<Rightarrow> hid" where "del_mods mods h = h\<lparr>real_mods := real_mods h AND NOT mods\<rparr>"
definition set_mods :: "u8 \<Rightarrow> hid \<Rightarrow> hid" where "set_mods mods h = h\<lparr>real_mods := mods\<rparr>"
definition clear_mods :: "hid \<Rightarrow> hid" where "clear_mods h = h\<lparr>real_mods := 0\<rparr>"
definition add_weak_mods :: "u8 \<Rightarrow> hid \<Rightarrow> hid" where "add_weak_mods mods h = h\<lparr>weak_mods := weak_mods h OR mods\<rparr>"
definition del_weak_mods :: "u8 \<Rightarrow> hid \<Rightarrow> hid" where "del_weak_mods mods h = h\<lparr>weak_mods := weak_mods h AND NOT mods\<rparr>"
definition set_weak_mods :: "u8 \<Rightarrow> hid \<Rightarrow> hid" where "set_weak_mods mods h = h\<lparr>weak_mods := mods\<rparr>"
definition clear_weak_mods :: "hid \<Rightarrow> hid" where "clear_weak_mods h = h\<lparr>weak_mods := 0\<rparr>"

definition add_oneshot_mods :: "u8 \<Rightarrow> hid \<Rightarrow> hid" where
  "add_oneshot_mods mods h =
     (if oneshot_mods h AND mods \<noteq> mods then h\<lparr>oneshot_mods := oneshot_mods h OR mods\<rparr> else h)"

definition del_oneshot_mods :: "u8 \<Rightarrow> hid \<Rightarrow> hid" where
  "del_oneshot_mods mods h =
     (if oneshot_mods h AND mods \<noteq> 0 then h\<lparr>oneshot_mods := oneshot_mods h AND NOT mods\<rparr> else h)"

definition set_oneshot_mods :: "bool \<Rightarrow> u8 \<Rightarrow> hid \<Rightarrow> hid" where
  "set_oneshot_mods oneshot_enable mods h =
     (if oneshot_enable \<and> oneshot_mods h \<noteq> mods then h\<lparr>oneshot_mods := mods\<rparr> else h)"

definition clear_oneshot_mods :: "hid \<Rightarrow> hid" where
  "clear_oneshot_mods h = (if oneshot_mods h \<noteq> 0 then h\<lparr>oneshot_mods := 0\<rparr> else h)"

definition add_oneshot_locked_mods :: "u8 \<Rightarrow> hid \<Rightarrow> hid" where
  "add_oneshot_locked_mods mods h =
     (if oneshot_locked_mods h AND mods \<noteq> mods then h\<lparr>oneshot_locked_mods := oneshot_locked_mods h OR mods\<rparr> else h)"

definition set_oneshot_locked_mods :: "u8 \<Rightarrow> hid \<Rightarrow> hid" where
  "set_oneshot_locked_mods mods h =
     (if mods \<noteq> oneshot_locked_mods h then h\<lparr>oneshot_locked_mods := mods\<rparr> else h)"

definition clear_oneshot_locked_mods :: "hid \<Rightarrow> hid" where
  "clear_oneshot_locked_mods h = (if oneshot_locked_mods h \<noteq> 0 then h\<lparr>oneshot_locked_mods := 0\<rparr> else h)"

definition del_oneshot_locked_mods :: "u8 \<Rightarrow> hid \<Rightarrow> hid" where
  "del_oneshot_locked_mods mods h =
     (if oneshot_locked_mods h AND mods \<noteq> 0 then h\<lparr>oneshot_locked_mods := oneshot_locked_mods h AND NOT mods\<rparr> else h)"

subsection \<open>Sending\<close>

definition get_mods_for_report :: "bool \<Rightarrow> hid \<Rightarrow> u8 \<times> hid" where
  "get_mods_for_report nk h =
     (let mods = real_mods h OR weak_mods h in
      if oneshot_mods h \<noteq> 0 then
        (mods OR oneshot_mods h, if has_anykey nk h \<noteq> 0 then clear_oneshot_mods h else h)
      else (mods, h))"

definition send_6kro_report :: "bool \<Rightarrow> hid \<Rightarrow> hid" where
  "send_6kro_report nk h =
     (let (mods, h1) = get_mods_for_report nk h;
          h2 = h1\<lparr>keyboard_report := (keyboard_report h1)\<lparr>rk_mods := mods\<rparr>\<rparr> in
      if keyboard_report h2 \<noteq> last_report h2 then host_keyboard_send (h2\<lparr>last_report := keyboard_report h2\<rparr>) else h2)"

definition send_nkro_report :: "bool \<Rightarrow> hid \<Rightarrow> hid" where
  "send_nkro_report nk h =
     (let (mods, h1) = get_mods_for_report nk h;
          h2 = h1\<lparr>nkro_report := (nkro_report h1)\<lparr>rn_mods := mods\<rparr>\<rparr> in
      if nkro_report h2 \<noteq> last_nkro_report h2 then host_nkro_send (h2\<lparr>last_nkro_report := nkro_report h2\<rparr>) else h2)"

definition send_keyboard_report :: "bool \<Rightarrow> hid \<Rightarrow> hid" where
  "send_keyboard_report nk h = (if nk then send_nkro_report nk h else send_6kro_report nk h)"

definition register_mods :: "bool \<Rightarrow> u8 \<Rightarrow> hid \<Rightarrow> hid" where
  "register_mods nk mods h = (if mods \<noteq> 0 then send_keyboard_report nk (add_mods mods h) else h)"

definition unregister_mods :: "bool \<Rightarrow> u8 \<Rightarrow> hid \<Rightarrow> hid" where
  "unregister_mods nk mods h = (if mods \<noteq> 0 then send_keyboard_report nk (del_mods mods h) else h)"

definition register_weak_mods :: "bool \<Rightarrow> u8 \<Rightarrow> hid \<Rightarrow> hid" where
  "register_weak_mods nk mods h = (if mods \<noteq> 0 then send_keyboard_report nk (add_weak_mods mods h) else h)"

definition unregister_weak_mods :: "bool \<Rightarrow> u8 \<Rightarrow> hid \<Rightarrow> hid" where
  "unregister_weak_mods nk mods h = (if mods \<noteq> 0 then send_keyboard_report nk (del_weak_mods mods h) else h)"

definition hid_reset :: hid where
  "hid_reset =
     (let rk = \<lparr>rk_report_id = 0, rk_mods = 0, rk_reserved = 0, rk_keys = replicate KEYBOARD_REPORT_KEYS 0\<rparr>;
          rn = \<lparr>rn_report_id = 0, rn_mods = 0, rn_bits = replicate NKRO_REPORT_BITS 0\<rparr> in
      \<lparr>real_mods = 0, weak_mods = 0, oneshot_mods = 0, oneshot_locked_mods = 0, keyboard_report = rk, nkro_report = rn,
       last_report = rk, last_nkro_report = rn, last_system_usage = 0, last_consumer_usage = 0, host_sent = []\<rparr>)"

section \<open>The keys of a report as a set\<close>

definition keys6 :: "report_keyboard_t \<Rightarrow> u8 set" where "keys6 r = set (rk_keys r) - {0}"

definition keys_nkro :: "report_nkro_t \<Rightarrow> u8 set" where
  "keys_nkro r = {k. unat k div 8 < NKRO_REPORT_BITS \<and> bit (rn_bits r ! (unat k div 8)) (unat k mod 8)}"

definition report_keys :: "bool \<Rightarrow> hid \<Rightarrow> u8 set" where
  "report_keys nk h = (if nk then keys_nkro (nkro_report h) else keys6 (keyboard_report h))"

text \<open>No code twice in the six cells; arrays of their size.\<close>

definition rk_ok :: "report_keyboard_t \<Rightarrow> bool" where
  "rk_ok r \<longleftrightarrow> length (rk_keys r) = KEYBOARD_REPORT_KEYS \<and> distinct (filter (\<lambda>k. k \<noteq> 0) (rk_keys r))"

text \<open>Every report that was sent carries its number.\<close>

primrec sent_ok :: "host_report \<Rightarrow> bool" where
  "sent_ok (Send_Keyboard r) \<longleftrightarrow> rk_report_id r = REPORT_ID_KEYBOARD \<and> rk_ok r"
| "sent_ok (Send_Nkro r) \<longleftrightarrow> rn_report_id r = REPORT_ID_NKRO \<and> length (rn_bits r) = NKRO_REPORT_BITS"
| "sent_ok (Send_Mouse r) \<longleftrightarrow> rm_report_id r = REPORT_ID_MOUSE"
| "sent_ok (Send_Extra r) \<longleftrightarrow> re_report_id r \<in> {REPORT_ID_SYSTEM, REPORT_ID_CONSUMER}"
| "sent_ok (Wait_Ms ms) \<longleftrightarrow> True"

definition hid_ok :: "hid \<Rightarrow> bool" where
  "hid_ok h \<longleftrightarrow> rk_ok (keyboard_report h) \<and> length (rn_bits (nkro_report h)) = NKRO_REPORT_BITS \<and> list_all sent_ok (host_sent h)"

lemma hid_reset_ok: "hid_ok hid_reset"
  by (simp add: hid_ok_def rk_ok_def hid_reset_def Let_def hw_defs)

lemma key_split:
  fixes k :: u8
  shows "unat (drop_bit 3 k) = unat k div 8" "unat (k AND 7) = unat k mod 8"
proof -
  show "unat (drop_bit 3 k) = unat k div 8" unfolding unat_drop_bit_eq by (simp add: drop_bit_eq_div)
  have "k AND 7 = take_bit 3 k" using take_bit_eq_mask [of 3 k] by (simp add: mask_eq_exp_minus_1)
  then show "unat (k AND 7) = unat k mod 8" by (simp add: unat_mod take_bit_eq_mod)
qed

lemma key_unique: "unat (k :: u8) div 8 = unat j div 8 \<Longrightarrow> unat k mod 8 = unat j mod 8 \<Longrightarrow> k = j"
  by (metis div_mult_mod_eq word_unat_eq_iff)

lemma keys_add_bit:
  assumes "length (rn_bits r) = NKRO_REPORT_BITS"
  shows "keys_nkro (add_key_bit k r) = (if unat k < 240 then insert k (keys_nkro r) else keys_nkro r)"
    and "length (rn_bits (add_key_bit k r)) = NKRO_REPORT_BITS"
proof -
  show "length (rn_bits (add_key_bit k r)) = NKRO_REPORT_BITS" using assms by (simp add: add_key_bit_def Let_def)
  have "bit ((rn_bits r)[unat k div 8 := rn_bits r ! (unat k div 8) OR push_bit (unat k mod 8) 1] ! (unat j div 8)) (unat j mod 8)
     \<longleftrightarrow> j = k \<or> bit (rn_bits r ! (unat j div 8)) (unat j mod 8)" if "unat k div 8 < 30" "unat j div 8 < 30" for j
    using that assms key_unique [of j k]
    by (cases "unat j div 8 = unat k div 8") (auto simp: bit_simps hw_defs)
  then show "keys_nkro (add_key_bit k r) = (if unat k < 240 then insert k (keys_nkro r) else keys_nkro r)"
    by (auto simp: keys_nkro_def add_key_bit_def key_split hw_defs Let_def)
qed

lemma keys_del_bit:
  assumes "length (rn_bits r) = NKRO_REPORT_BITS"
  shows "keys_nkro (del_key_bit k r) = keys_nkro r - {k}"
    and "length (rn_bits (del_key_bit k r)) = NKRO_REPORT_BITS"
proof -
  show "length (rn_bits (del_key_bit k r)) = NKRO_REPORT_BITS" using assms by (simp add: del_key_bit_def Let_def)
  have "bit ((rn_bits r)[unat k div 8 := rn_bits r ! (unat k div 8) AND NOT (push_bit (unat k mod 8) 1)] ! (unat j div 8)) (unat j mod 8)
     \<longleftrightarrow> j \<noteq> k \<and> bit (rn_bits r ! (unat j div 8)) (unat j mod 8)" if "unat k div 8 < 30" "unat j div 8 < 30" for j
    using that assms key_unique [of j k]
    by (cases "unat j div 8 = unat k div 8") (auto simp: bit_simps hw_defs)
  then show "keys_nkro (del_key_bit k r) = keys_nkro r - {k}"
    by (auto simp: keys_nkro_def del_key_bit_def key_split hw_defs Let_def)
qed

lemma keys6_del:
  assumes "length (rk_keys r) = KEYBOARD_REPORT_KEYS"
  shows "rk_keys (del_key_byte k r) = map (\<lambda>j. if j = k then 0 else j) (rk_keys r)"
    and "del_key_byte k r = r\<lparr>rk_keys := map (\<lambda>j. if j = k then 0 else j) (rk_keys r)\<rparr>"
proof -
  have "for_range n (\<lambda>i r. if rk_keys r ! i = k then r\<lparr>rk_keys := (rk_keys r)[i := 0]\<rparr> else r) r
      = r\<lparr>rk_keys := for_range n (\<lambda>i xs. xs[i := if xs ! i = k then 0 else xs ! i]) (rk_keys r)\<rparr>" for n
    by (induction n) (simp_all add: for_range_Suc)
  also have "for_range KEYBOARD_REPORT_KEYS (\<lambda>i xs. xs[i := if xs ! i = k then 0 else xs ! i]) (rk_keys r)
      = map (\<lambda>j. if j = k then 0 else j) (rk_keys r)"
    using assms for_range_update [of KEYBOARD_REPORT_KEYS "rk_keys r" "\<lambda>_ j. if j = k then 0 else j"]
    by (auto intro!: nth_equalityI)
  finally show "del_key_byte k r = r\<lparr>rk_keys := map (\<lambda>j. if j = k then 0 else j) (rk_keys r)\<rparr>"
    by (simp add: del_key_byte_def)
  then show "rk_keys (del_key_byte k r) = map (\<lambda>j. if j = k then 0 else j) (rk_keys r)" by simp
qed

lemma keys6_del_byte:
  assumes "rk_ok r"
  shows "keys6 (del_key_byte k r) = keys6 r - {k}" "rk_ok (del_key_byte k r)"
proof -
  have l: "length (rk_keys r) = KEYBOARD_REPORT_KEYS" using assms by (simp add: rk_ok_def)
  have "filter (\<lambda>j. j \<noteq> 0) (map (\<lambda>j. if j = k then 0 else j) xs) = filter (\<lambda>j. j \<noteq> k) (filter (\<lambda>j. j \<noteq> 0) xs)" for xs :: bytes
    by (induction xs) auto
  moreover have "distinct (filter (\<lambda>j. j \<noteq> k) (filter (\<lambda>j. j \<noteq> 0) (rk_keys r)))"
    using assms unfolding rk_ok_def by (blast intro: distinct_filter)
  ultimately show "rk_ok (del_key_byte k r)" using assms by (simp add: rk_ok_def keys6_del [OF l])
  show "keys6 (del_key_byte k r) = keys6 r - {k}" by (auto simp: keys6_def keys6_del [OF l])
qed

lemma keys6_card:
  assumes "rk_ok r"
  shows "card (keys6 r) = length (filter (\<lambda>k. k \<noteq> 0) (rk_keys r))"
proof -
  have "keys6 r = set (filter (\<lambda>k. k \<noteq> 0) (rk_keys r))" by (auto simp: keys6_def)
  then show ?thesis using assms distinct_card [of "filter (\<lambda>k. k \<noteq> 0) (rk_keys r)"] by (simp add: rk_ok_def del: set_filter)
qed

lemma filter_update_zero:
  fixes xs :: bytes
  assumes "i < length xs" "xs ! i = 0" "k \<noteq> 0"
  shows "filter (\<lambda>k. k \<noteq> 0) (xs[i := k]) = filter (\<lambda>k. k \<noteq> 0) (take i xs) @ k # filter (\<lambda>k. k \<noteq> 0) (drop (Suc i) xs)"
    and "filter (\<lambda>k. k \<noteq> 0) xs = filter (\<lambda>k. k \<noteq> 0) (take i xs) @ filter (\<lambda>k. k \<noteq> 0) (drop (Suc i) xs)"
proof -
  show "filter (\<lambda>k. k \<noteq> 0) (xs[i := k]) = filter (\<lambda>k. k \<noteq> 0) (take i xs) @ k # filter (\<lambda>k. k \<noteq> 0) (drop (Suc i) xs)"
    using assms by (simp add: upd_conv_take_nth_drop)
  have "filter (\<lambda>k. k \<noteq> 0) xs = filter (\<lambda>k. k \<noteq> 0) (take i xs @ xs ! i # drop (Suc i) xs)"
    using id_take_nth_drop [OF assms(1)] by simp
  then show "filter (\<lambda>k. k \<noteq> 0) xs = filter (\<lambda>k. k \<noteq> 0) (take i xs) @ filter (\<lambda>k. k \<noteq> 0) (drop (Suc i) xs)"
    using assms(2) by simp
qed

lemma keys6_add_byte:
  assumes "rk_ok r" "k \<noteq> 0"
  shows "keys6 (add_key_byte k r) = (if card (keys6 r) < KEYBOARD_REPORT_KEYS then insert k (keys6 r) else keys6 r)"
    and "rk_ok (add_key_byte k r)"
proof -
  let ?nz = "filter (\<lambda>k. k \<noteq> 0)"
  have l: "length (rk_keys r) = KEYBOARD_REPORT_KEYS" and d: "distinct (?nz (rk_keys r))"
    using assms(1) by (simp_all add: rk_ok_def)
  have mem: "(\<exists>i\<in>set [0..<KEYBOARD_REPORT_KEYS]. rk_keys r ! i = k) \<longleftrightarrow> k \<in> set (rk_keys r)"
    using l by (auto simp: in_set_conv_nth)
  have full: "card (keys6 r) < KEYBOARD_REPORT_KEYS \<longleftrightarrow> 0 \<in> set (rk_keys r)"
  proof (cases "0 \<in> set (rk_keys r)")
    case True
    then show ?thesis using length_filter_less [of 0 "rk_keys r" "\<lambda>k. k \<noteq> 0"] by (simp add: keys6_card [OF assms(1)] l)
  next
    case False
    then have "?nz (rk_keys r) = rk_keys r" by (intro filter_True) metis
    then show ?thesis using False by (simp add: keys6_card [OF assms(1)] l)
  qed
  have "keys6 (add_key_byte k r) = (if card (keys6 r) < KEYBOARD_REPORT_KEYS then insert k (keys6 r) else keys6 r)
      \<and> rk_ok (add_key_byte k r)"
  proof (cases "k \<in> set (rk_keys r)")
    case True
    then have "add_key_byte k r = r" using mem by (simp add: add_key_byte_def)
    moreover have "insert k (keys6 r) = keys6 r" using True assms(2) by (auto simp: keys6_def)
    ultimately show ?thesis using assms(1) by simp
  next
    case False
    show ?thesis
    proof (cases "find (\<lambda>i. rk_keys r ! i = 0) [0..<KEYBOARD_REPORT_KEYS]")
      case None
      then have "0 \<notin> set (rk_keys r)" using l by (auto simp: find_None_iff in_set_conv_nth)
      then show ?thesis using None False mem full assms(1) by (simp add: add_key_byte_def)
    next
      case (Some i)
      then have i: "i < length (rk_keys r)" "rk_keys r ! i = 0" using l by (auto simp: find_Some_iff)
      then have z: "0 \<in> set (rk_keys r)" by (metis nth_mem)
      have eq: "add_key_byte k r = r\<lparr>rk_keys := (rk_keys r)[i := k]\<rparr>"
        using Some False mem by (simp add: add_key_byte_def)
      note m = filter_update_zero [OF i assms(2)]
      have "k \<notin> set (?nz (rk_keys r))" using False by simp
      then have "distinct (?nz ((rk_keys r)[i := k]))" using d unfolding m by auto
      moreover have "set (?nz ((rk_keys r)[i := k])) = insert k (set (?nz (rk_keys r)))" unfolding m by auto
      ultimately show ?thesis using z full l by (auto simp: eq keys6_def rk_ok_def)
    qed
  qed
  then show "keys6 (add_key_byte k r) = (if card (keys6 r) < KEYBOARD_REPORT_KEYS then insert k (keys6 r) else keys6 r)"
    "rk_ok (add_key_byte k r)" by simp_all
qed

section \<open>What the host sees\<close>

text \<open>The modifiers and keys of the newest report of the kind in use.\<close>

fun view_of :: "bool \<Rightarrow> host_report \<Rightarrow> (u8 \<times> u8 set) option" where
  "view_of False (Send_Keyboard r) = Some (rk_mods r, keys6 r)"
| "view_of True (Send_Nkro r) = Some (rn_mods r, keys_nkro r)"
| "view_of _ _ = None"

definition host_view :: "bool \<Rightarrow> hid \<Rightarrow> u8 \<times> u8 set" where
  "host_view nk h = (case List.map_filter (view_of nk) (host_sent h) of [] \<Rightarrow> (0, {}) | v # _ \<Rightarrow> v)"

text \<open>The copy kept of the last report agrees with what was sent.\<close>

definition synced :: "bool \<Rightarrow> hid \<Rightarrow> bool" where
  "synced nk h \<longleftrightarrow> host_view nk h =
     (if nk then (rn_mods (last_nkro_report h), keys_nkro (last_nkro_report h))
      else (rk_mods (last_report h), keys6 (last_report h)))"

lemma map_filter_Cons: "List.map_filter f (x # xs) = (case f x of None \<Rightarrow> List.map_filter f xs | Some y \<Rightarrow> y # List.map_filter f xs)"
  by (simp add: List.map_filter_simps)

lemma synced_reset: "synced nk hid_reset"
  by (simp add: synced_def host_view_def hid_reset_def List.map_filter_def keys6_def keys_nkro_def Let_def hw_defs)

lemma keys_report_cong [simp]:
  "keys6 (r\<lparr>rk_mods := m\<rparr>) = keys6 r" "keys6 (r\<lparr>rk_report_id := i\<rparr>) = keys6 r"
  "keys_nkro (s\<lparr>rn_mods := m\<rparr>) = keys_nkro s" "keys_nkro (s\<lparr>rn_report_id := i\<rparr>) = keys_nkro s"
  "rk_ok (r\<lparr>rk_mods := m\<rparr>) = rk_ok r" "rk_ok (r\<lparr>rk_report_id := i\<rparr>) = rk_ok r"
  by (simp_all add: keys6_def keys_nkro_def rk_ok_def)

lemma get_mods_eq:
  "get_mods_for_report nk h =
     ((real_mods h OR weak_mods h) OR oneshot_mods h,
      h\<lparr>oneshot_mods := if has_anykey nk h \<noteq> 0 then 0 else oneshot_mods h\<rparr>)"
  by (simp add: get_mods_for_report_def clear_oneshot_mods_def Let_def)

lemmas send_defs = send_keyboard_report_def send_6kro_report_def send_nkro_report_def get_mods_eq host_keyboard_send_def
  host_nkro_send_def Let_def

text \<open>Sending changes no key and no modifier, except that a one-shot modifier is used up by a key.\<close>

lemma send_frame [simp]:
  "real_mods (send_keyboard_report nk h) = real_mods h" "weak_mods (send_keyboard_report nk h) = weak_mods h"
  "oneshot_locked_mods (send_keyboard_report nk h) = oneshot_locked_mods h"
  "report_keys b (send_keyboard_report nk h) = report_keys b h"
  "last_system_usage (send_keyboard_report nk h) = last_system_usage h"
  "last_consumer_usage (send_keyboard_report nk h) = last_consumer_usage h"
  "hid_ok (send_keyboard_report nk h) = hid_ok h"
  "oneshot_mods (send_keyboard_report nk h) = (if has_anykey nk h \<noteq> 0 then 0 else oneshot_mods h)"
  by (auto simp add: send_defs report_keys_def hid_ok_def eq_commute [of _ "last_report h"] eq_commute [of _ "last_nkro_report h"])

lemma send_view:
  assumes "synced nk h"
  shows "host_view nk (send_keyboard_report nk h) = ((real_mods h OR weak_mods h) OR oneshot_mods h, report_keys nk h)"
    and "synced nk (send_keyboard_report nk h)"
proof -
  have "host_view nk (send_keyboard_report nk h) = ((real_mods h OR weak_mods h) OR oneshot_mods h, report_keys nk h)
      \<and> synced nk (send_keyboard_report nk h)"
    using assms by (cases nk) (simp_all add: send_defs synced_def host_view_def map_filter_Cons report_keys_def
        eq_commute [of _ "last_report h"] eq_commute [of _ "last_nkro_report h"])
  then show "host_view nk (send_keyboard_report nk h) = ((real_mods h OR weak_mods h) OR oneshot_mods h, report_keys nk h)"
    "synced nk (send_keyboard_report nk h)" by simp_all
qed

section \<open>Adding and removing keys\<close>

definition key_room :: "bool \<Rightarrow> u8 \<Rightarrow> hid \<Rightarrow> bool" where
  "key_room nk k h \<longleftrightarrow> (if nk then unat k < 8 * NKRO_REPORT_BITS else card (report_keys nk h) < KEYBOARD_REPORT_KEYS)"

lemma report_keys_add:
  assumes "hid_ok h" "k \<noteq> 0"
  shows "report_keys nk (add_key nk k h) = (if key_room nk k h then insert k (report_keys nk h) else report_keys nk h)"
    and "hid_ok (add_key nk k h)"
  using assms by (simp_all add: add_key_def add_key_to_report_def report_keys_def key_room_def hid_ok_def keys_add_bit keys6_add_byte)
    (simp_all add: hw_defs)

lemma report_keys_del:
  assumes "hid_ok h"
  shows "report_keys nk (del_key nk k h) = report_keys nk h - {k}" and "hid_ok (del_key nk k h)"
  using assms by (simp_all add: del_key_def del_key_from_report_def report_keys_def hid_ok_def keys_del_bit keys6_del_byte)

lemma report_keys_clear:
  "report_keys nk (clear_keys nk h) = {}" "hid_ok h \<Longrightarrow> hid_ok (clear_keys nk h)"
  by (auto simp: clear_keys_def clear_keys_from_report_def report_keys_def hid_ok_def rk_ok_def keys6_def keys_nkro_def hw_defs)

lemma key_ops_frame [simp]:
  "real_mods (add_key nk k h) = real_mods h" "weak_mods (add_key nk k h) = weak_mods h" "oneshot_mods (add_key nk k h) = oneshot_mods h"
  "real_mods (del_key nk k h) = real_mods h" "weak_mods (del_key nk k h) = weak_mods h" "oneshot_mods (del_key nk k h) = oneshot_mods h"
  "real_mods (clear_keys nk h) = real_mods h" "weak_mods (clear_keys nk h) = weak_mods h" "oneshot_mods (clear_keys nk h) = oneshot_mods h"
  "synced b (add_key nk k h) = synced b h" "synced b (del_key nk k h) = synced b h" "synced b (clear_keys nk h) = synced b h"
  "host_sent (add_key nk k h) = host_sent h" "host_sent (del_key nk k h) = host_sent h" "host_sent (clear_keys nk h) = host_sent h"
  by (simp_all add: add_key_def add_key_to_report_def del_key_def del_key_from_report_def clear_keys_def clear_keys_from_report_def
      synced_def host_view_def)

lemma mods_frame [simp]:
  "report_keys nk (h\<lparr>real_mods := m\<rparr>) = report_keys nk h" "report_keys nk (h\<lparr>weak_mods := m\<rparr>) = report_keys nk h"
  "report_keys nk (h\<lparr>oneshot_mods := m\<rparr>) = report_keys nk h"
  "synced nk (h\<lparr>real_mods := m\<rparr>) = synced nk h" "synced nk (h\<lparr>weak_mods := m\<rparr>) = synced nk h"
  "synced nk (h\<lparr>oneshot_mods := m\<rparr>) = synced nk h"
  "hid_ok (h\<lparr>real_mods := m\<rparr>) = hid_ok h" "hid_ok (h\<lparr>weak_mods := m\<rparr>) = hid_ok h" "hid_ok (h\<lparr>oneshot_mods := m\<rparr>) = hid_ok h"
  by (simp_all add: report_keys_def synced_def host_view_def hid_ok_def)

lemma is_key_pressed_iff:
  assumes "hid_ok h" "k \<noteq> 0"
  shows "is_key_pressed nk k h \<longleftrightarrow> k \<in> report_keys nk h"
proof -
  have "length (rk_keys (keyboard_report h)) = KEYBOARD_REPORT_KEYS" using assms(1) by (simp add: hid_ok_def rk_ok_def)
  then show ?thesis
    using assms(2) by (auto simp: is_key_pressed_def report_keys_def keys6_def keys_nkro_def key_split and_exp_eq_0_iff_not_bit
        in_set_conv_nth)
qed

lemma has_anykey_iff:
  assumes "hid_ok h"
  shows "has_anykey nk h \<noteq> 0 \<longleftrightarrow> report_keys nk h \<noteq> {}"
proof (cases nk)
  case False
  then show ?thesis by (auto simp: has_anykey_def report_keys_def keys6_def filter_empty_conv)
next
  case True
  let ?bits = "rn_bits (nkro_report h)"
  have l: "length ?bits = 30" using assms by (simp add: hid_ok_def hw_defs)
  have "(\<exists>b\<in>set ?bits. b \<noteq> 0) \<longleftrightarrow> (\<exists>i<30. \<exists>n<8. bit (?bits ! i) n)"
  proof -
    have nz: "b \<noteq> 0 \<longleftrightarrow> (\<exists>n<8. bit b n)" for b :: u8
      by (auto simp: bit_eq_iff dest: bit_imp_le_length)
    show ?thesis unfolding nz using l by (metis in_set_conv_nth)
  qed
  also have "\<dots> \<longleftrightarrow> keys_nkro (nkro_report h) \<noteq> {}"
  proof
    assume "\<exists>i<30. \<exists>n<8. bit (?bits ! i) n"
    then obtain i n where "i < 30" "n < 8" "bit (?bits ! i) n" by blast
    moreover define k where "k = (word_of_nat (8 * i + n) :: u8)"
    ultimately have "unat k = 8 * i + n" by (simp add: unat_of_nat del: of_nat_add)
    then have "k \<in> keys_nkro (nkro_report h)"
      using \<open>i < 30\<close> \<open>n < 8\<close> \<open>bit (?bits ! i) n\<close> by (simp add: keys_nkro_def hw_defs)
    then show "keys_nkro (nkro_report h) \<noteq> {}" by blast
  next
    assume "keys_nkro (nkro_report h) \<noteq> {}"
    then obtain k :: u8 where "unat k div 8 < 30" "bit (?bits ! (unat k div 8)) (unat k mod 8)"
      by (auto simp: keys_nkro_def hw_defs)
    moreover have "unat k mod 8 < 8" by simp
    ultimately show "\<exists>i<30. \<exists>n<8. bit (?bits ! i) n" by blast
  qed
  finally show ?thesis using True by (auto simp: has_anykey_def report_keys_def filter_empty_conv)
qed

end
