(* ===== verification/Mousekey.thy ===== *)
theory Mousekey
  imports Report
begin

text \<open>
  Mouse keys, \<^verbatim>\<open>quantum/mousekey.c\<close> in its default accelerated mode (no \<^verbatim>\<open>MK_3_SPEED\<close>, \<^verbatim>\<open>MK_COMBINED\<close>,
  \<^verbatim>\<open>MK_KINETIC_SPEED\<close>, \<^verbatim>\<open>MOUSEKEY_INERTIA\<close> or \<^verbatim>\<open>MOUSEKEY_OVERLAP_RESET\<close>) with the default parameters of
  \<^verbatim>\<open>mousekey.h\<close>, and \<^verbatim>\<open>has_mouse_report_changed\<close> of \<^verbatim>\<open>tmk_core/protocol/report.c\<close>. The signed fields of the
  mouse report are 8-bit words read by \<open>sint\<close>. The speed parameters, variables in the C code, are only
  written by the command console, which this build leaves out: they are constants here.
\<close>

section \<open>Model\<close>

definition QK_MOUSE_CURSOR_UP :: u8 where [hw_defs]: "QK_MOUSE_CURSOR_UP = 0xCD"
definition QK_MOUSE_CURSOR_DOWN :: u8 where [hw_defs]: "QK_MOUSE_CURSOR_DOWN = 0xCE"
definition QK_MOUSE_CURSOR_LEFT :: u8 where [hw_defs]: "QK_MOUSE_CURSOR_LEFT = 0xCF"
definition QK_MOUSE_CURSOR_RIGHT :: u8 where [hw_defs]: "QK_MOUSE_CURSOR_RIGHT = 0xD0"
definition QK_MOUSE_BUTTON_1 :: u8 where [hw_defs]: "QK_MOUSE_BUTTON_1 = 0xD1"
definition QK_MOUSE_BUTTON_8 :: u8 where [hw_defs]: "QK_MOUSE_BUTTON_8 = 0xD8"
definition QK_MOUSE_WHEEL_UP :: u8 where [hw_defs]: "QK_MOUSE_WHEEL_UP = 0xD9"
definition QK_MOUSE_WHEEL_DOWN :: u8 where [hw_defs]: "QK_MOUSE_WHEEL_DOWN = 0xDA"
definition QK_MOUSE_WHEEL_LEFT :: u8 where [hw_defs]: "QK_MOUSE_WHEEL_LEFT = 0xDB"
definition QK_MOUSE_WHEEL_RIGHT :: u8 where [hw_defs]: "QK_MOUSE_WHEEL_RIGHT = 0xDC"
definition QK_MOUSE_ACCELERATION_0 :: u8 where [hw_defs]: "QK_MOUSE_ACCELERATION_0 = 0xDD"
definition QK_MOUSE_ACCELERATION_1 :: u8 where [hw_defs]: "QK_MOUSE_ACCELERATION_1 = 0xDE"
definition QK_MOUSE_ACCELERATION_2 :: u8 where [hw_defs]: "QK_MOUSE_ACCELERATION_2 = 0xDF"

definition MOUSEKEY_MOVE_MAX :: nat where [hw_defs]: "MOUSEKEY_MOVE_MAX = 127"
definition MOUSEKEY_WHEEL_MAX :: nat where [hw_defs]: "MOUSEKEY_WHEEL_MAX = 127"
definition MOUSEKEY_MOVE_DELTA :: nat where [hw_defs]: "MOUSEKEY_MOVE_DELTA = 8"
definition MOUSEKEY_WHEEL_DELTA :: nat where [hw_defs]: "MOUSEKEY_WHEEL_DELTA = 1"
definition mk_delay :: nat where [hw_defs]: "mk_delay = 10 div 10"
definition mk_interval :: nat where [hw_defs]: "mk_interval = 20"
definition mk_max_speed :: nat where [hw_defs]: "mk_max_speed = 10"
definition mk_time_to_max :: nat where [hw_defs]: "mk_time_to_max = 30"
definition mk_wheel_delay :: nat where [hw_defs]: "mk_wheel_delay = 10 div 10"
definition mk_wheel_interval :: nat where [hw_defs]: "mk_wheel_interval = 80"
definition mk_wheel_max_speed :: nat where [hw_defs]: "mk_wheel_max_speed = 8"
definition mk_wheel_time_to_max :: nat where [hw_defs]: "mk_wheel_time_to_max = 40"

record mousekey_t =
  mouse_report :: report_mouse_t
  mousekey_accel :: u8
  mousekey_repeat :: u8
  mousekey_wheel_repeat :: u8
  last_timer_c :: u16
  last_timer_w :: u16

definition mouse_report_zero :: report_mouse_t where
  "mouse_report_zero = \<lparr>rm_report_id = 0, rm_buttons = 0, rm_x = 0, rm_y = 0, rm_v = 0, rm_h = 0\<rparr>"

definition mousekey_reset :: mousekey_t where
  "mousekey_reset =
     \<lparr>mouse_report = mouse_report_zero, mousekey_accel = 0, mousekey_repeat = 0, mousekey_wheel_repeat = 0,
      last_timer_c = 0, last_timer_w = 0\<rparr>"

text \<open>The quotient of C truncates; the argument is at most \<open>128 * 181\<close> in size.\<close>

definition times_inv_sqrt2 :: "u8 \<Rightarrow> u8" where
  "times_inv_sqrt2 x =
     (let n = sint x * 181 in
      word_of_int (if n < 0 then (n - 256 div 2) sdiv 256 else (n + 256 div 2) sdiv 256))"

definition speed_unit :: "nat \<Rightarrow> nat \<Rightarrow> nat \<Rightarrow> nat \<Rightarrow> u8 \<Rightarrow> u8 \<Rightarrow> u8" where
  "speed_unit delta max_speed time_to_max unit_max accel rep =
     (let unit =
        (if bit accel 0 then (delta * max_speed) div 4
         else if bit accel 1 then (delta * max_speed) div 2
         else if bit accel 2 then delta * max_speed
         else if rep = 0 then delta
         else if time_to_max \<le> unat rep then delta * max_speed
         else (delta * max_speed * unat rep) div time_to_max) in
      word_of_nat (if unit > unit_max then unit_max else if unit = 0 then 1 else unit))"

definition move_unit :: "mousekey_t \<Rightarrow> u8" where
  "move_unit m = speed_unit MOUSEKEY_MOVE_DELTA mk_max_speed mk_time_to_max MOUSEKEY_MOVE_MAX (mousekey_accel m) (mousekey_repeat m)"

definition wheel_unit :: "mousekey_t \<Rightarrow> u8" where
  "wheel_unit m =
     speed_unit MOUSEKEY_WHEEL_DELTA mk_wheel_max_speed mk_wheel_time_to_max MOUSEKEY_WHEEL_MAX
       (mousekey_accel m) (mousekey_wheel_repeat m)"

definition has_mouse_report_changed :: "report_mouse_t \<Rightarrow> report_mouse_t \<Rightarrow> bool" where
  "has_mouse_report_changed new_report old_report \<longleftrightarrow>
     rm_buttons new_report \<noteq> rm_buttons old_report \<or>
     (rm_x new_report \<noteq> 0 \<and> rm_x new_report \<noteq> rm_x old_report) \<or> (rm_y new_report \<noteq> 0 \<and> rm_y new_report \<noteq> rm_y old_report) \<or>
     (rm_h new_report \<noteq> 0 \<and> rm_h new_report \<noteq> rm_h old_report) \<or> (rm_v new_report \<noteq> 0 \<and> rm_v new_report \<noteq> rm_v old_report)"

definition should_mousekey_report_send :: "report_mouse_t \<Rightarrow> bool" where
  "should_mousekey_report_send r \<longleftrightarrow> rm_x r \<noteq> 0 \<or> rm_y r \<noteq> 0 \<or> rm_v r \<noteq> 0 \<or> rm_h r \<noteq> 0"

definition mousekey_send :: "env \<Rightarrow> mousekey_t \<Rightarrow> hid \<Rightarrow> mousekey_t \<times> hid" where
  "mousekey_send env m h =
     (let r = mouse_report m;
          time = timer_read env;
          m1 = (if rm_x r \<noteq> 0 \<or> rm_y r \<noteq> 0 then m\<lparr>last_timer_c := time\<rparr> else m);
          m2 = (if rm_v r \<noteq> 0 \<or> rm_h r \<noteq> 0 then m1\<lparr>last_timer_w := time\<rparr> else m1);
          (r', h') = host_mouse_send r h in
      (m2\<lparr>mouse_report := r'\<rparr>, h'))"

definition mousekey_clear :: "mousekey_t \<Rightarrow> mousekey_t" where
  "mousekey_clear m =
     m\<lparr>mouse_report := mouse_report_zero, mousekey_repeat := 0, mousekey_wheel_repeat := 0, mousekey_accel := 0\<rparr>"

abbreviation map_mouse :: "(report_mouse_t \<Rightarrow> report_mouse_t) \<Rightarrow> mousekey_t \<Rightarrow> mousekey_t" where
  "map_mouse f m \<equiv> m\<lparr>mouse_report := f (mouse_report m)\<rparr>"

definition mousekey_on :: "u8 \<Rightarrow> mousekey_t \<Rightarrow> mousekey_t" where
  "mousekey_on code m =
     (if code = QK_MOUSE_CURSOR_UP then map_mouse (rm_y_update (\<lambda>_. - move_unit m)) m
      else if code = QK_MOUSE_CURSOR_DOWN then map_mouse (rm_y_update (\<lambda>_. move_unit m)) m
      else if code = QK_MOUSE_CURSOR_LEFT then map_mouse (rm_x_update (\<lambda>_. - move_unit m)) m
      else if code = QK_MOUSE_CURSOR_RIGHT then map_mouse (rm_x_update (\<lambda>_. move_unit m)) m
      else if code = QK_MOUSE_WHEEL_UP then map_mouse (rm_v_update (\<lambda>_. wheel_unit m)) m
      else if code = QK_MOUSE_WHEEL_DOWN then map_mouse (rm_v_update (\<lambda>_. - wheel_unit m)) m
      else if code = QK_MOUSE_WHEEL_LEFT then map_mouse (rm_h_update (\<lambda>_. - wheel_unit m)) m
      else if code = QK_MOUSE_WHEEL_RIGHT then map_mouse (rm_h_update (\<lambda>_. wheel_unit m)) m
      else if QK_MOUSE_BUTTON_1 \<le> code \<and> code \<le> QK_MOUSE_BUTTON_8 then
        map_mouse (rm_buttons_update (\<lambda>b. b OR push_bit (unat (code - QK_MOUSE_BUTTON_1)) 1)) m
      else if code = QK_MOUSE_ACCELERATION_0 then m\<lparr>mousekey_accel := mousekey_accel m OR push_bit 0 1\<rparr>
      else if code = QK_MOUSE_ACCELERATION_1 then m\<lparr>mousekey_accel := mousekey_accel m OR push_bit 1 1\<rparr>
      else if code = QK_MOUSE_ACCELERATION_2 then m\<lparr>mousekey_accel := mousekey_accel m OR push_bit 2 1\<rparr>
      else m)"

definition mousekey_off :: "u8 \<Rightarrow> mousekey_t \<Rightarrow> mousekey_t" where
  "mousekey_off code m =
     (let r = mouse_report m;
          m1 =
            (if code = QK_MOUSE_CURSOR_UP \<and> sint (rm_y r) < 0 then map_mouse (rm_y_update (\<lambda>_. 0)) m
             else if code = QK_MOUSE_CURSOR_DOWN \<and> sint (rm_y r) > 0 then map_mouse (rm_y_update (\<lambda>_. 0)) m
             else if code = QK_MOUSE_CURSOR_LEFT \<and> sint (rm_x r) < 0 then map_mouse (rm_x_update (\<lambda>_. 0)) m
             else if code = QK_MOUSE_CURSOR_RIGHT \<and> sint (rm_x r) > 0 then map_mouse (rm_x_update (\<lambda>_. 0)) m
             else if code = QK_MOUSE_WHEEL_UP \<and> sint (rm_v r) > 0 then map_mouse (rm_v_update (\<lambda>_. 0)) m
             else if code = QK_MOUSE_WHEEL_DOWN \<and> sint (rm_v r) < 0 then map_mouse (rm_v_update (\<lambda>_. 0)) m
             else if code = QK_MOUSE_WHEEL_LEFT \<and> sint (rm_h r) < 0 then map_mouse (rm_h_update (\<lambda>_. 0)) m
             else if code = QK_MOUSE_WHEEL_RIGHT \<and> sint (rm_h r) > 0 then map_mouse (rm_h_update (\<lambda>_. 0)) m
             else if QK_MOUSE_BUTTON_1 \<le> code \<and> code \<le> QK_MOUSE_BUTTON_8 then
               map_mouse (rm_buttons_update (\<lambda>b. b AND NOT (push_bit (unat (code - QK_MOUSE_BUTTON_1)) 1))) m
             else if code = QK_MOUSE_ACCELERATION_0 then m\<lparr>mousekey_accel := mousekey_accel m AND NOT (push_bit 0 1)\<rparr>
             else if code = QK_MOUSE_ACCELERATION_1 then m\<lparr>mousekey_accel := mousekey_accel m AND NOT (push_bit 1 1)\<rparr>
             else if code = QK_MOUSE_ACCELERATION_2 then m\<lparr>mousekey_accel := mousekey_accel m AND NOT (push_bit 2 1)\<rparr>
             else m);
          m2 = (if rm_x (mouse_report m1) = 0 \<and> rm_y (mouse_report m1) = 0 then m1\<lparr>mousekey_repeat := 0\<rparr> else m1) in
      if rm_v (mouse_report m2) = 0 \<and> rm_h (mouse_report m2) = 0 then m2\<lparr>mousekey_wheel_repeat := 0\<rparr> else m2)"

subsection \<open>The task\<close>

definition with_sign :: "u8 \<Rightarrow> u8 \<Rightarrow> u8" where
  "with_sign unit held = (if sint held > 0 then unit else - unit)"

definition diagonal :: "u8 \<Rightarrow> u8" where
  "diagonal a = (let b = times_inv_sqrt2 a in if b = 0 then 1 else b)"

text \<open>
  One axis pair of the task: what the two held values become when the time for a step has come;
  the caller has already counted the repetition.
\<close>

definition step_pair :: "u8 \<Rightarrow> u8 \<Rightarrow> u8 \<Rightarrow> u8 \<times> u8" where
  "step_pair unit a b =
     (let a1 = (if a \<noteq> 0 then with_sign unit a else 0);
          b1 = (if b \<noteq> 0 then with_sign unit b else 0) in
      if a1 \<noteq> 0 \<and> b1 \<noteq> 0 then (diagonal a1, diagonal b1) else (a1, b1))"

definition bump :: "u8 \<Rightarrow> u8" where "bump rep = (if rep \<noteq> 255 then rep + 1 else rep)"

definition cursor_step :: "env \<Rightarrow> report_mouse_t \<Rightarrow> mousekey_t \<Rightarrow> mousekey_t" where
  "cursor_step env tmpmr m =
     (if (rm_x tmpmr \<noteq> 0 \<or> rm_y tmpmr \<noteq> 0) \<and>
         unat (timer_read env - last_timer_c m) > (if mousekey_repeat m \<noteq> 0 then mk_interval else mk_delay * 10)
      then
        let m' = m\<lparr>mousekey_repeat := bump (mousekey_repeat m)\<rparr>;
            (x, y) = step_pair (move_unit m') (rm_x tmpmr) (rm_y tmpmr) in
        map_mouse (\<lambda>r. r\<lparr>rm_x := x, rm_y := y\<rparr>) m'
      else m)"

definition wheel_step :: "env \<Rightarrow> report_mouse_t \<Rightarrow> mousekey_t \<Rightarrow> mousekey_t" where
  "wheel_step env tmpmr m =
     (if (rm_v tmpmr \<noteq> 0 \<or> rm_h tmpmr \<noteq> 0) \<and>
         unat (timer_read env - last_timer_w m) > (if mousekey_wheel_repeat m \<noteq> 0 then mk_wheel_interval else mk_wheel_delay * 10)
      then
        let m' = m\<lparr>mousekey_wheel_repeat := bump (mousekey_wheel_repeat m)\<rparr>;
            (v, w) = step_pair (wheel_unit m') (rm_v tmpmr) (rm_h tmpmr) in
        map_mouse (\<lambda>r. r\<lparr>rm_v := v, rm_h := w\<rparr>) m'
      else m)"

definition mousekey_task :: "env \<Rightarrow> mousekey_t \<Rightarrow> hid \<Rightarrow> mousekey_t \<times> hid" where
  "mousekey_task env m h =
     (let tmpmr = mouse_report m;
          m1 = m\<lparr>mouse_report := tmpmr\<lparr>rm_x := 0, rm_y := 0, rm_v := 0, rm_h := 0\<rparr>\<rparr>;
          m3 = wheel_step env tmpmr (cursor_step env tmpmr m1);
          (m4, h4) =
            (if has_mouse_report_changed (mouse_report m3) tmpmr \<or> should_mousekey_report_send (mouse_report m3)
             then mousekey_send env m3 h else (m3, h)) in
      (m4\<lparr>mouse_report := tmpmr\<rparr>, h4))"

section \<open>Speed and direction\<close>

lemma sint_8: "- 128 \<le> z \<Longrightarrow> z < 128 \<Longrightarrow> sint (word_of_int z :: u8) = z"
  by (simp add: signed_take_bit_int_eq_self sint_sbintrunc')

lemma sint_8_nat: "n < 128 \<Longrightarrow> sint (word_of_nat n :: u8) = int n"
  using sint_8 [of "int n"] by simp

lemma sint_8_minus: "- 128 < sint (x :: u8) \<Longrightarrow> sint (- x) = - sint x"
  using sint_8 [of "- sint x"] sint_lt [of x] by simp

lemma speed_unit_bounds:
  assumes "0 < delta" "delta \<le> 12 * 8" "delta * max_speed \<le> 80" "0 < max_speed" "0 < time_to_max" "unit_max = 127"
  shows "1 \<le> sint (speed_unit delta max_speed time_to_max unit_max accel rep)"
    and "sint (speed_unit delta max_speed time_to_max unit_max accel rep) \<le> int (delta * max_speed)"
proof -
  let ?p = "delta * max_speed"
  have p: "delta \<le> ?p" "1 \<le> ?p" using assms by simp_all
  have q: "?p div 4 \<le> ?p" "?p div 2 \<le> ?p" by simp_all
  have r: "(?p * unat rep) div time_to_max \<le> ?p" if "unat rep < time_to_max"
  proof -
    have "?p * unat rep \<le> ?p * time_to_max" using that by simp
    then have "(?p * unat rep) div time_to_max \<le> (?p * time_to_max) div time_to_max" by (rule div_le_mono)
    then show ?thesis using assms(5) by simp
  qed
  define u where "u = (if bit accel 0 then ?p div 4 else if bit accel 1 then ?p div 2 else if bit accel 2 then ?p
     else if rep = 0 then delta else if time_to_max \<le> unat rep then ?p else (?p * unat rep) div time_to_max)"
  have u: "u \<le> ?p" using p q r by (auto simp: u_def)
  then have "u \<le> 80" using assms(3) by simp
  then have "speed_unit delta max_speed time_to_max unit_max accel rep = word_of_nat (if u = 0 then 1 else u)"
    by (simp add: speed_unit_def Let_def assms(6) flip: u_def)
  moreover have "(if u = 0 then 1 else u) < 128" using \<open>u \<le> 80\<close> by simp
  ultimately have s: "sint (speed_unit delta max_speed time_to_max unit_max accel rep) = int (if u = 0 then 1 else u)"
    using sint_8_nat by metis
  show "1 \<le> sint (speed_unit delta max_speed time_to_max unit_max accel rep)" unfolding s by simp
  show "sint (speed_unit delta max_speed time_to_max unit_max accel rep) \<le> int ?p" unfolding s of_nat_le_iff using u p(2) by simp
qed

lemma unit_bounds:
  "1 \<le> sint (move_unit m)" "sint (move_unit m) \<le> 80" "1 \<le> sint (wheel_unit m)" "sint (wheel_unit m) \<le> 8"
  using speed_unit_bounds [of 8 10 30 127] speed_unit_bounds [of 1 8 40 127]
  by (simp_all add: move_unit_def wheel_unit_def hw_defs)

lemma times_inv_sqrt2_pos:
  assumes "1 \<le> sint x"
  shows "1 \<le> sint (times_inv_sqrt2 x)" "sint (times_inv_sqrt2 x) \<le> sint x"
proof -
  let ?q = "(sint x * 181 + 128) div 256"
  have "sint x < 128" using sint_lt [of x] by simp
  moreover have "1 \<le> ?q" "?q \<le> sint x" using assms by simp_all
  ultimately have "sint (times_inv_sqrt2 x) = ?q"
    using assms sint_8 [of ?q] by (simp add: times_inv_sqrt2_def signed_divide_int_def sgn_if)
  with \<open>1 \<le> ?q\<close> \<open>?q \<le> sint x\<close> show "1 \<le> sint (times_inv_sqrt2 x)" "sint (times_inv_sqrt2 x) \<le> sint x" by simp_all
qed

lemma times_inv_sqrt2_neg:
  assumes "sint x \<le> -1" "-128 < sint x"
  shows "sint (times_inv_sqrt2 x) \<le> -1" "sint x \<le> sint (times_inv_sqrt2 x)"
proof -
  let ?q = "- ((- (sint x * 181 - 128)) div 256)"
  have "?q \<le> -1" "sint x \<le> ?q" using assms by simp_all
  moreover from this have "sint (times_inv_sqrt2 x) = ?q"
    using assms sint_8 [of ?q] by (simp add: times_inv_sqrt2_def signed_divide_int_def sgn_if)
  ultimately show "sint (times_inv_sqrt2 x) \<le> -1" "sint x \<le> sint (times_inv_sqrt2 x)" by simp_all
qed

text \<open>A value points where another does: zero or of the same sign, and not faster than \<open>n\<close>.\<close>

definition follows :: "int \<Rightarrow> u8 \<Rightarrow> u8 \<Rightarrow> bool" where
  "follows n held moved \<longleftrightarrow> \<bar>sint moved\<bar> \<le> n \<and> sgn (sint moved) = sgn (sint held)"

lemma follows_with_sign:
  assumes "1 \<le> sint u" "sint u \<le> n" "n \<le> 80" "held \<noteq> 0"
  shows "follows n held (with_sign u held)" "follows n held (diagonal (with_sign u held))"
    "with_sign u held \<noteq> 0" "diagonal (with_sign u held) \<noteq> 0"
proof -
  have h: "sint held \<noteq> 0" using assms(4) signed_word_eqI [of held 0] by auto
  define w where "w = with_sign u held"
  have w: "(0 < sint held \<and> 1 \<le> sint w \<and> sint w \<le> n) \<or> (sint held < 0 \<and> sint w \<le> -1 \<and> - n \<le> sint w)"
    using h assms by (auto simp: w_def with_sign_def sint_8_minus)
  then show "follows n held (with_sign u held)" by (auto simp: follows_def sgn_if simp flip: w_def)
  show "with_sign u held \<noteq> 0" using w by (auto simp flip: w_def)
  have "(0 < sint held \<and> 1 \<le> sint (times_inv_sqrt2 w) \<and> sint (times_inv_sqrt2 w) \<le> n)
      \<or> (sint held < 0 \<and> sint (times_inv_sqrt2 w) \<le> -1 \<and> - n \<le> sint (times_inv_sqrt2 w))"
    using w times_inv_sqrt2_pos [of w] times_inv_sqrt2_neg [of w] assms(3) by auto
  moreover from this have "times_inv_sqrt2 w \<noteq> 0" by auto
  then have "diagonal w = times_inv_sqrt2 w" by (simp add: diagonal_def Let_def)
  ultimately show "follows n held (diagonal (with_sign u held))" "diagonal (with_sign u held) \<noteq> 0"
    by (auto simp: follows_def sgn_if simp flip: w_def)
qed

lemma step_pair_follows:
  assumes "1 \<le> sint u" "sint u \<le> n" "n \<le> 80" "step_pair u a b = (x, y)"
  shows "follows n a x" "follows n b y"
proof -
  have z: "follows n 0 0" using assms by (simp add: follows_def)
  note fa = follows_with_sign [OF assms(1-3), of a] and fb = follows_with_sign [OF assms(1-3), of b]
  show "follows n a x" "follows n b y"
    using assms(4) fa fb z by (cases "a = 0"; cases "b = 0"; simp add: step_pair_def Let_def)+
qed

lemma cursor_step_follows:
  assumes "rm_x (mouse_report m) = 0" "rm_y (mouse_report m) = 0"
  shows "\<exists>x y. mouse_report (cursor_step env held m) = (mouse_report m)\<lparr>rm_x := x, rm_y := y\<rparr>
      \<and> (x = 0 \<and> y = 0 \<or> follows 80 (rm_x held) x \<and> follows 80 (rm_y held) y)"
    and "mousekey_accel (cursor_step env held m) = mousekey_accel m"
proof -
  define m' where "m' = m\<lparr>mousekey_repeat := bump (mousekey_repeat m)\<rparr>"
  obtain x y where xy: "step_pair (move_unit m') (rm_x held) (rm_y held) = (x, y)" by force
  note f = step_pair_follows [OF unit_bounds(1,2) order_refl xy]
  let ?c = "cursor_step env held m"
  have c: "?c = m \<or> ?c = map_mouse (\<lambda>r. r\<lparr>rm_x := x, rm_y := y\<rparr>) m'"
    using xy by (simp add: cursor_step_def Let_def flip: m'_def)
  then show "mousekey_accel ?c = mousekey_accel m" by (auto simp: m'_def)
  from c show "\<exists>x y. mouse_report ?c = (mouse_report m)\<lparr>rm_x := x, rm_y := y\<rparr>
      \<and> (x = 0 \<and> y = 0 \<or> follows 80 (rm_x held) x \<and> follows 80 (rm_y held) y)"
  proof
    assume "?c = m"
    then show ?thesis using assms by (intro exI [where x = 0]) simp
  next
    assume "?c = map_mouse (\<lambda>r. r\<lparr>rm_x := x, rm_y := y\<rparr>) m'"
    then show ?thesis using f by (intro exI [where x = x] exI [where x = y]) (simp add: m'_def)
  qed
qed

lemma wheel_step_follows:
  assumes "rm_v (mouse_report m) = 0" "rm_h (mouse_report m) = 0"
  shows "\<exists>v w. mouse_report (wheel_step env held m) = (mouse_report m)\<lparr>rm_v := v, rm_h := w\<rparr>
      \<and> (v = 0 \<and> w = 0 \<or> follows 8 (rm_v held) v \<and> follows 8 (rm_h held) w)"
    and "mousekey_accel (wheel_step env held m) = mousekey_accel m"
proof -
  define m' where "m' = m\<lparr>mousekey_wheel_repeat := bump (mousekey_wheel_repeat m)\<rparr>"
  obtain v w where vw: "step_pair (wheel_unit m') (rm_v held) (rm_h held) = (v, w)" by force
  have "(8 :: int) \<le> 80" by simp
  note f = step_pair_follows [OF unit_bounds(3,4) this vw]
  let ?c = "wheel_step env held m"
  have c: "?c = m \<or> ?c = map_mouse (\<lambda>r. r\<lparr>rm_v := v, rm_h := w\<rparr>) m'"
    using vw by (simp add: wheel_step_def Let_def flip: m'_def)
  then show "mousekey_accel ?c = mousekey_accel m" by (auto simp: m'_def)
  from c show "\<exists>v w. mouse_report ?c = (mouse_report m)\<lparr>rm_v := v, rm_h := w\<rparr>
      \<and> (v = 0 \<and> w = 0 \<or> follows 8 (rm_v held) v \<and> follows 8 (rm_h held) w)"
  proof
    assume "?c = m"
    then show ?thesis using assms by (intro exI [where x = 0]) simp
  next
    assume "?c = map_mouse (\<lambda>r. r\<lparr>rm_v := v, rm_h := w\<rparr>) m'"
    then show ?thesis using f by (intro exI [where x = v] exI [where x = w]) (simp add: m'_def)
  qed
qed

text \<open>What a run of the task sends: nothing, or one report whose axes follow the held ones.\<close>

lemma mousekey_task_sends:
  assumes "mousekey_task env m h = (m', h')"
  shows "mouse_report m' = mouse_report m" "mousekey_accel m' = mousekey_accel m"
    and "h' = h \<or> (\<exists>r. h' = h\<lparr>host_sent := Send_Mouse r # host_sent h\<rparr> \<and> rm_buttons r = rm_buttons (mouse_report m)
      \<and> (rm_x r = 0 \<and> rm_y r = 0 \<or> follows 80 (rm_x (mouse_report m)) (rm_x r) \<and> follows 80 (rm_y (mouse_report m)) (rm_y r))
      \<and> (rm_v r = 0 \<and> rm_h r = 0 \<or> follows 8 (rm_v (mouse_report m)) (rm_v r) \<and> follows 8 (rm_h (mouse_report m)) (rm_h r)))"
proof -
  let ?held = "mouse_report m"
  define m1 where "m1 = m\<lparr>mouse_report := ?held\<lparr>rm_x := 0, rm_y := 0, rm_v := 0, rm_h := 0\<rparr>\<rparr>"
  define m2 where "m2 = cursor_step env ?held m1"
  define m3 where "m3 = wheel_step env ?held m2"
  have "rm_x (mouse_report m1) = 0" "rm_y (mouse_report m1) = 0" by (simp_all add: m1_def)
  from cursor_step_follows [OF this, of env ?held] obtain x y where
    c: "mouse_report m2 = (mouse_report m1)\<lparr>rm_x := x, rm_y := y\<rparr>"
      "x = 0 \<and> y = 0 \<or> follows 80 (rm_x ?held) x \<and> follows 80 (rm_y ?held) y" "mousekey_accel m2 = mousekey_accel m1"
    by (auto simp flip: m2_def)
  have "rm_v (mouse_report m2) = 0" "rm_h (mouse_report m2) = 0" by (simp_all add: c m1_def)
  from wheel_step_follows [OF this, of env ?held] obtain v w where
    d: "mouse_report m3 = (mouse_report m2)\<lparr>rm_v := v, rm_h := w\<rparr>"
      "v = 0 \<and> w = 0 \<or> follows 8 (rm_v ?held) v \<and> follows 8 (rm_h ?held) w" "mousekey_accel m3 = mousekey_accel m2"
    by (auto simp flip: m3_def)
  define due where "due = (has_mouse_report_changed (mouse_report m3) ?held \<or> should_mousekey_report_send (mouse_report m3))"
  have t: "(m', h') = (case if due then mousekey_send env m3 h else (m3, h) of (m4, h4) \<Rightarrow> (m4\<lparr>mouse_report := ?held\<rparr>, h4))"
    using assms unfolding mousekey_task_def Let_def m1_def [symmetric] m2_def [symmetric] m3_def [symmetric] due_def [symmetric] by simp
  show "mouse_report m' = ?held" "mousekey_accel m' = mousekey_accel m"
    using t d(3) c(3) by (auto simp: m1_def mousekey_send_def host_mouse_send_def Let_def split: if_splits)
  show "h' = h \<or> (\<exists>r. h' = h\<lparr>host_sent := Send_Mouse r # host_sent h\<rparr> \<and> rm_buttons r = rm_buttons ?held
      \<and> (rm_x r = 0 \<and> rm_y r = 0 \<or> follows 80 (rm_x ?held) (rm_x r) \<and> follows 80 (rm_y ?held) (rm_y r))
      \<and> (rm_v r = 0 \<and> rm_h r = 0 \<or> follows 8 (rm_v ?held) (rm_v r) \<and> follows 8 (rm_h ?held) (rm_h r)))"
  proof (cases due)
    case True
    have "h' = h\<lparr>host_sent := Send_Mouse ((mouse_report m3)\<lparr>rm_report_id := REPORT_ID_MOUSE\<rparr>) # host_sent h\<rparr>"
      using t True by (simp add: mousekey_send_def host_mouse_send_def Let_def)
    then show ?thesis using c(2) d(2)
      by (intro disjI2 exI [where x = "(mouse_report m3)\<lparr>rm_report_id := REPORT_ID_MOUSE\<rparr>"]) (simp add: d(1) c(1) m1_def)
  qed (use t in simp)
qed

end
