(* ===== verification/Action.thy ===== *)
theory Action
  imports Mousekey Keyboard
begin

text \<open>
  Actions: \<^verbatim>\<open>quantum/action.c\<close> from a keycode or an action code to what is reported, and the one-shot
  layers of \<^verbatim>\<open>quantum/action_util.c\<close>. \<open>world\<close> is what an event sees of the outside: the pins and the clock, the
  protocol the host chose and its LEDs. The clock stands still while one event is processed; only macros, which may
  wait long, move it on. The build has no \<^verbatim>\<open>SWAP_HANDS\<close>, \<^verbatim>\<open>RETRO_TAPPING\<close>, \<^verbatim>\<open>LOCKING_SUPPORT\<close>,
  \<^verbatim>\<open>COMMAND\<close>, \<^verbatim>\<open>ONESHOT_TIMEOUT\<close> or \<^verbatim>\<open>ONESHOT_TAP_TOGGLE\<close>, no LED pins (\<^verbatim>\<open>led_set\<close> does nothing) and
  \<^verbatim>\<open>TAP_CODE_DELAY\<close> is 0. Debug output is left out.
\<close>

section \<open>Model\<close>

record world =
  pins :: env
  report_protocol :: bool
  usb_leds :: u8

definition host_can_send_nkro :: "world \<Rightarrow> bool" where
  "host_can_send_nkro w = report_protocol w"

text \<open>The bits of the keymap options the actions look at.\<close>

definition keymap_nkro :: "u16 \<Rightarrow> bool" where "keymap_nkro c = bit c 7"
definition oneshot_enable_bit :: "u16 \<Rightarrow> bool" where "oneshot_enable_bit c = bit c 10"

subsection \<open>Codes\<close>

record hostio =
  hid :: hid
  mouse :: mousekey_t

definition IS_BASIC_KEYCODE :: "u8 \<Rightarrow> bool" where "IS_BASIC_KEYCODE code \<longleftrightarrow> 0x04 \<le> code \<and> code \<le> 0xA4"
definition IS_SYSTEM_KEYCODE :: "u8 \<Rightarrow> bool" where "IS_SYSTEM_KEYCODE code \<longleftrightarrow> 0xA5 \<le> code \<and> code \<le> 0xA7"
definition IS_CONSUMER_KEYCODE :: "u8 \<Rightarrow> bool" where "IS_CONSUMER_KEYCODE code \<longleftrightarrow> 0xA8 \<le> code \<and> code \<le> 0xC2"
definition IS_MOUSE_KEYCODE :: "u8 \<Rightarrow> bool" where "IS_MOUSE_KEYCODE code \<longleftrightarrow> 0xCD \<le> code \<and> code \<le> 0xDF"
definition IS_MODIFIER_KEYCODE :: "u8 \<Rightarrow> bool" where "IS_MODIFIER_KEYCODE code \<longleftrightarrow> 0xE0 \<le> code \<and> code \<le> 0xE7"

lemmas code_class_defs = IS_BASIC_KEYCODE_def IS_SYSTEM_KEYCODE_def IS_CONSUMER_KEYCODE_def IS_MOUSE_KEYCODE_def
  IS_MODIFIER_KEYCODE_def

definition MOD_BIT :: "u8 \<Rightarrow> u8" where "MOD_BIT code = push_bit (unat (code AND 7)) 1"
definition TAP_HOLD_CAPS_DELAY :: nat where [hw_defs]: "TAP_HOLD_CAPS_DELAY = 80"
definition TAP_CODE_DELAY :: nat where [hw_defs]: "TAP_CODE_DELAY = 0"

abbreviation on_hid :: "(hid \<Rightarrow> hid) \<Rightarrow> hostio \<Rightarrow> hostio" where "on_hid f io \<equiv> io\<lparr>hid := f (hid io)\<rparr>"

definition register_mouse :: "env \<Rightarrow> u8 \<Rightarrow> bool \<Rightarrow> hostio \<Rightarrow> hostio" where
  "register_mouse env mouse_keycode press io =
     (let m = (if press then mousekey_on mouse_keycode (mouse io) else mousekey_off mouse_keycode (mouse io));
          (m', h') = mousekey_send env m (hid io) in
      \<lparr>hid = h', mouse = m'\<rparr>)"

definition register_code :: "env \<Rightarrow> bool \<Rightarrow> u8 \<Rightarrow> hostio \<Rightarrow> hostio" where
  "register_code env nk code io =
     (if code = 0 then io
      else if IS_BASIC_KEYCODE code then
        on_hid (\<lambda>h.
          let h1 = (if is_key_pressed nk code h then send_keyboard_report nk (del_key nk code h) else h) in
          send_keyboard_report nk (add_key nk code h1)) io
      else if IS_MODIFIER_KEYCODE code then on_hid (\<lambda>h. send_keyboard_report nk (add_mods (MOD_BIT code) h)) io
      else if IS_SYSTEM_KEYCODE code then on_hid (host_system_send (KEYCODE2SYSTEM (ucast code))) io
      else if IS_CONSUMER_KEYCODE code then on_hid (host_consumer_send (KEYCODE2CONSUMER (ucast code))) io
      else if IS_MOUSE_KEYCODE code then register_mouse env code True io
      else io)"

definition unregister_code :: "env \<Rightarrow> bool \<Rightarrow> u8 \<Rightarrow> hostio \<Rightarrow> hostio" where
  "unregister_code env nk code io =
     (if code = 0 then io
      else if IS_BASIC_KEYCODE code then on_hid (\<lambda>h. send_keyboard_report nk (del_key nk code h)) io
      else if IS_MODIFIER_KEYCODE code then on_hid (\<lambda>h. send_keyboard_report nk (del_mods (MOD_BIT code) h)) io
      else if IS_SYSTEM_KEYCODE code then on_hid (host_system_send 0) io
      else if IS_CONSUMER_KEYCODE code then on_hid (host_consumer_send 0) io
      else if IS_MOUSE_KEYCODE code then register_mouse env code False io
      else io)"

definition tap_code_delay :: "env \<Rightarrow> bool \<Rightarrow> u8 \<Rightarrow> nat \<Rightarrow> hostio \<Rightarrow> hostio" where
  "tap_code_delay env nk code delay io =
     unregister_code env nk code (on_hid (wait_ms delay) (register_code env nk code io))"

definition tap_code :: "env \<Rightarrow> bool \<Rightarrow> u8 \<Rightarrow> hostio \<Rightarrow> hostio" where
  "tap_code env nk code =
     tap_code_delay env nk code (if ucast code = KC_CAPS_LOCK then TAP_HOLD_CAPS_DELAY else TAP_CODE_DELAY)"

definition clear_keyboard_but_mods_and_keys :: "env \<Rightarrow> bool \<Rightarrow> hostio \<Rightarrow> hostio" where
  "clear_keyboard_but_mods_and_keys env nk io =
     (let h1 = host_consumer_send 0 (host_system_send 0 (hid io));
          h2 = send_keyboard_report nk (clear_weak_mods h1);
          (m', h') = mousekey_send env (mousekey_clear (mouse io)) h2 in
      \<lparr>hid = h', mouse = m'\<rparr>)"

definition clear_keyboard_but_mods :: "env \<Rightarrow> bool \<Rightarrow> hostio \<Rightarrow> hostio" where
  "clear_keyboard_but_mods env nk io = clear_keyboard_but_mods_and_keys env nk (on_hid (clear_keys nk) io)"

definition clear_keyboard :: "env \<Rightarrow> bool \<Rightarrow> hostio \<Rightarrow> hostio" where
  "clear_keyboard env nk io = clear_keyboard_but_mods env nk (on_hid clear_mods io)"

subsection \<open>The action code's fields\<close>

definition ACT_RMODS :: u16 where [hw_defs]: "ACT_RMODS = 1"
definition ACT_RMODS_TAP :: u16 where [hw_defs]: "ACT_RMODS_TAP = 3"
definition ACT_SWAP_HANDS :: u16 where [hw_defs]: "ACT_SWAP_HANDS = 6"
definition ACT_LAYER_TAP_EXT :: u16 where [hw_defs]: "ACT_LAYER_TAP_EXT = 11"
definition OP_BIT_AND :: u16 where [hw_defs]: "OP_BIT_AND = 0"
definition OP_BIT_OR :: u16 where [hw_defs]: "OP_BIT_OR = 1"
definition OP_OFF_ON :: u16 where [hw_defs]: "OP_OFF_ON = 0xF2"
definition OP_SET_CLEAR :: u16 where [hw_defs]: "OP_SET_CLEAR = 0xF3"
definition OP_SH_TAP_TOGGLE :: u16 where [hw_defs]: "OP_SH_TAP_TOGGLE = 0xF1"
definition PAGE_SYSTEM :: u16 where [hw_defs]: "PAGE_SYSTEM = 0"
definition PAGE_CONSUMER :: u16 where [hw_defs]: "PAGE_CONSUMER = 1"
definition MODS_ONESHOT :: u16 where [hw_defs]: "MODS_ONESHOT = 0"
definition MODS_TAP_TOGGLE :: u16 where [hw_defs]: "MODS_TAP_TOGGLE = 1"
definition TAPPING_TOGGLE :: nat where [hw_defs]: "TAPPING_TOGGLE = 5"

definition kind_id :: "action_t \<Rightarrow> u16" where "kind_id a = drop_bit 12 a"
definition key_code :: "action_t \<Rightarrow> u8" where "key_code a = ucast a"
definition key_mods :: "action_t \<Rightarrow> u8" where "key_mods a = ucast (drop_bit 8 a AND 0xF)"
definition bitop_bits :: "action_t \<Rightarrow> u8" where "bitop_bits a = ucast (a AND 0xF)"
definition bitop_xbit :: "action_t \<Rightarrow> bool" where "bitop_xbit a = bit a 4"
definition bitop_part :: "action_t \<Rightarrow> nat" where "bitop_part a = unat (drop_bit 5 a AND 7)"
definition bitop_on :: "action_t \<Rightarrow> u16" where "bitop_on a = drop_bit 8 a AND 3"
definition bitop_op :: "action_t \<Rightarrow> u16" where "bitop_op a = drop_bit 10 a AND 3"
definition layer_mods_mods :: "action_t \<Rightarrow> u8" where "layer_mods_mods a = ucast a"
definition layer_mods_layer :: "action_t \<Rightarrow> nat" where "layer_mods_layer a = unat (drop_bit 8 a AND 0xF)"
definition layer_tap_code :: "action_t \<Rightarrow> u16" where "layer_tap_code a = a AND 0xFF"
definition layer_tap_val :: "action_t \<Rightarrow> nat" where "layer_tap_val a = unat (drop_bit 8 a AND 0x1F)"
definition usage_code :: "action_t \<Rightarrow> u16" where "usage_code a = a AND 0x3FF"
definition usage_page :: "action_t \<Rightarrow> u16" where "usage_page a = drop_bit 10 a AND 3"

definition is_tap_action :: "action_t \<Rightarrow> bool" where
  "is_tap_action a \<longleftrightarrow>
     (if kind_id a = ACT_MODS_TAP \<or> kind_id a = ACT_RMODS_TAP \<or> kind_id a = ACT_LAYER_TAP \<or> kind_id a = ACT_LAYER_TAP_EXT
      then layer_tap_code a \<le> KC_RIGHT_GUI \<or> layer_tap_code a = OP_TAP_TOGGLE \<or> layer_tap_code a = OP_ONESHOT
      else if kind_id a = ACT_SWAP_HANDS then layer_tap_code a \<le> KC_RIGHT_GUI \<or> layer_tap_code a = OP_SH_TAP_TOGGLE
      else False)"

subsection \<open>State\<close>

text \<open>The bootloader, or a reset of the controller: from there nothing of this state runs on.\<close>

datatype jump = Bootloader | Reset

record 'e act = "'e kb" +
  hostio :: hostio
  oneshot_layer_data :: u8
  grave_esc_was_shifted :: bool
  sc_last :: u8
  sc_timer :: u16
  jumped :: "jump option"

definition nkro_now :: "world \<Rightarrow> ('e, 'z) fw_scheme \<Rightarrow> bool" where
  "nkro_now w st \<longleftrightarrow> host_can_send_nkro w \<and> keymap_nkro (keymap_config st)"

definition on_io :: "(hostio \<Rightarrow> hostio) \<Rightarrow> ('e, 'z) act_scheme \<Rightarrow> ('e, 'z) act_scheme" where
  "on_io f st = st\<lparr>hostio := f (hostio st)\<rparr>"

definition act_hid :: "(hid \<Rightarrow> hid) \<Rightarrow> ('e, 'z) act_scheme \<Rightarrow> ('e, 'z) act_scheme" where
  "act_hid f = on_io (on_hid f)"

definition act_send :: "world \<Rightarrow> ('e, 'z) act_scheme \<Rightarrow> ('e, 'z) act_scheme" where
  "act_send w st = act_hid (send_keyboard_report (nkro_now w st)) st"

definition act_register :: "world \<Rightarrow> u8 \<Rightarrow> ('e, 'z) act_scheme \<Rightarrow> ('e, 'z) act_scheme" where
  "act_register w code st = on_io (register_code (pins w) (nkro_now w st) code) st"

definition act_unregister :: "world \<Rightarrow> u8 \<Rightarrow> ('e, 'z) act_scheme \<Rightarrow> ('e, 'z) act_scheme" where
  "act_unregister w code st = on_io (unregister_code (pins w) (nkro_now w st) code) st"

definition act_register_mods :: "world \<Rightarrow> u8 \<Rightarrow> ('e, 'z) act_scheme \<Rightarrow> ('e, 'z) act_scheme" where
  "act_register_mods w mods st = act_hid (register_mods (nkro_now w st) mods) st"

definition act_unregister_mods :: "world \<Rightarrow> u8 \<Rightarrow> ('e, 'z) act_scheme \<Rightarrow> ('e, 'z) act_scheme" where
  "act_unregister_mods w mods st = act_hid (unregister_mods (nkro_now w st) mods) st"

definition act_clear :: "world \<Rightarrow> ('e, 'z) act_scheme \<Rightarrow> ('e, 'z) act_scheme" where
  "act_clear w st = on_io (clear_keyboard (pins w) (nkro_now w st)) st"

subsection \<open>One-shot layers\<close>

definition ONESHOT_PRESSED :: u8 where [hw_defs]: "ONESHOT_PRESSED = 1"
definition ONESHOT_OTHER_KEY_PRESSED :: u8 where [hw_defs]: "ONESHOT_OTHER_KEY_PRESSED = 2"
definition ONESHOT_START :: u8 where [hw_defs]: "ONESHOT_START = 3"

definition get_oneshot_layer :: "('e, 'z) act_scheme \<Rightarrow> nat" where
  "get_oneshot_layer st = unat (drop_bit 3 (oneshot_layer_data st))"

definition get_oneshot_layer_state :: "('e, 'z) act_scheme \<Rightarrow> u8" where
  "get_oneshot_layer_state st = oneshot_layer_data st AND 7"

definition is_oneshot_layer_active :: "('e, 'z) act_scheme \<Rightarrow> bool" where
  "is_oneshot_layer_active st \<longleftrightarrow> get_oneshot_layer_state st \<noteq> 0"

definition oneshot_on :: "('e, 'z) act_scheme \<Rightarrow> bool" where
  "oneshot_on st = oneshot_enable_bit (keymap_config st)"

definition set_oneshot_layer :: "nat \<Rightarrow> u8 \<Rightarrow> ('e, 'z) act_scheme \<Rightarrow> ('e, 'z) act_scheme" where
  "set_oneshot_layer layer state st =
     (if oneshot_on st then layer_on layer (st\<lparr>oneshot_layer_data := push_bit 3 (word_of_nat layer) OR state\<rparr>)
      else layer_on layer st)"

definition reset_oneshot_layer :: "('e, 'z) act_scheme \<Rightarrow> ('e, 'z) act_scheme" where
  "reset_oneshot_layer st = st\<lparr>oneshot_layer_data := 0\<rparr>"

definition clear_oneshot_layer_state :: "u8 \<Rightarrow> ('e, 'z) act_scheme \<Rightarrow> ('e, 'z) act_scheme" where
  "clear_oneshot_layer_state state st =
     (let start_state = oneshot_layer_data st;
          st1 = st\<lparr>oneshot_layer_data := oneshot_layer_data st AND NOT state\<rparr> in
      if get_oneshot_layer_state st1 = 0 \<and> start_state \<noteq> oneshot_layer_data st1 \<and> oneshot_on st1
      then reset_oneshot_layer (layer_off (get_oneshot_layer st1) st1) else st1)"

definition oneshot_set :: "'e eeprom_driver \<Rightarrow> bool \<Rightarrow> ('e, 'z) act_scheme \<Rightarrow> ('e, 'z) act_scheme" where
  "oneshot_set E active st =
     (if oneshot_on st \<noteq> active then
        let c = (if active then set_bit 10 (keymap_config st) else unset_bit 10 (keymap_config st)) in
        clear_oneshot_layer_state ONESHOT_OTHER_KEY_PRESSED
          (st\<lparr>keymap_config := c, ee := nvm_eeconfig_update_keymap E c (ee st)\<rparr>)
      else st)"

definition oneshot_toggle :: "'e eeprom_driver \<Rightarrow> ('e, 'z) act_scheme \<Rightarrow> ('e, 'z) act_scheme" where
  "oneshot_toggle E st = oneshot_set E (\<not> oneshot_on st) st"

subsection \<open>Processing an action\<close>

text \<open>
  \<^verbatim>\<open>keyrecord_t\<close> with the two fields of \<^verbatim>\<open>tap_t\<close> this build uses; \<open>tap_count\<close> is a 4-bit field that the
  code keeps at most 15.
\<close>

record keyrecord_t =
  event :: keyevent_t
  tap_interrupted :: bool
  tap_count :: nat

definition IS_NOEVENT :: "keyevent_t \<Rightarrow> bool" where "IS_NOEVENT ev \<longleftrightarrow> ev_type ev = TICK_EVENT"

abbreviation pressed_rec :: "keyrecord_t \<Rightarrow> bool" where "pressed_rec r \<equiv> ev_pressed (event r)"

text \<open>Modifiers with a key: \<^verbatim>\<open>ACT_LMODS\<close>, and a one-shot modifier while one-shots are off.\<close>

definition mods_on_press :: "world \<Rightarrow> u8 \<Rightarrow> u8 \<Rightarrow> ('e, 'z) act_scheme \<Rightarrow> ('e, 'z) act_scheme" where
  "mods_on_press w mods code st =
     (let st1 =
        (if mods \<noteq> 0 then
           act_send w (act_hid (if IS_MODIFIER_KEYCODE code \<or> code = 0 then add_mods mods else add_weak_mods mods) st)
         else st) in
      act_register w code st1)"

definition mods_on_release :: "world \<Rightarrow> u8 \<Rightarrow> u8 \<Rightarrow> ('e, 'z) act_scheme \<Rightarrow> ('e, 'z) act_scheme" where
  "mods_on_release w mods code st =
     (let st1 = act_unregister w code st in
      if mods \<noteq> 0 then
        act_send w (act_hid (if IS_MODIFIER_KEYCODE code \<or> code = 0 then del_mods mods else del_weak_mods mods) st1)
      else st1)"

definition mods_action :: "world \<Rightarrow> bool \<Rightarrow> u8 \<Rightarrow> u8 \<Rightarrow> ('e, 'z) act_scheme \<Rightarrow> ('e, 'z) act_scheme" where
  "mods_action w press mods code st =
     (if press then mods_on_press w mods code st else mods_on_release w mods code st)"

definition oneshot_mods_action :: "world \<Rightarrow> bool \<Rightarrow> nat \<Rightarrow> u8 \<Rightarrow> ('e, 'z) act_scheme \<Rightarrow> ('e, 'z) act_scheme" where
  "oneshot_mods_action w press count mods st =
     (if press then
        if count = 0 then act_register_mods w mods st
        else if count = 1 then act_hid (add_oneshot_mods mods) st
        else st
      else if count = 0 then
        act_hid (del_oneshot_locked_mods mods) (act_hid (del_oneshot_mods mods) (act_unregister_mods w mods st))
      else st)"

text \<open>The pause before the release of a tapped Caps Lock.\<close>

definition tap_release :: "world \<Rightarrow> u16 \<Rightarrow> u8 \<Rightarrow> ('e, 'z) act_scheme \<Rightarrow> ('e, 'z) act_scheme" where
  "tap_release w tap_kc code st =
     act_unregister w code
       (act_hid (wait_ms (if tap_kc = KC_CAPS_LOCK then TAP_HOLD_CAPS_DELAY else TAP_CODE_DELAY)) st)"

definition mods_tap_action :: "world \<Rightarrow> bool \<Rightarrow> nat \<Rightarrow> u8 \<Rightarrow> action_t \<Rightarrow> ('e, 'z) act_scheme \<Rightarrow> ('e, 'z) act_scheme" where
  "mods_tap_action w press count mods a st =
     (if layer_tap_code a = MODS_ONESHOT then
        if \<not> oneshot_on st then mods_action w press mods (key_code a) st
        else oneshot_mods_action w press count mods st
      else if layer_tap_code a = MODS_TAP_TOGGLE then
        if press then (if count \<le> TAPPING_TOGGLE then act_register_mods w mods st else st)
        else (if count < TAPPING_TOGGLE then act_unregister_mods w mods st else st)
      else if press then
        if count > 0 then act_register w (key_code a) st else act_register_mods w mods st
      else if count > 0 then tap_release w (layer_tap_code a) (key_code a) st
      else act_unregister_mods w mods st)"

definition usage_action :: "bool \<Rightarrow> action_t \<Rightarrow> ('e, 'z) act_scheme \<Rightarrow> ('e, 'z) act_scheme" where
  "usage_action press a st =
     (if usage_page a = PAGE_SYSTEM then act_hid (host_system_send (if press then usage_code a else 0)) st
      else if usage_page a = PAGE_CONSUMER then act_hid (host_consumer_send (if press then usage_code a else 0)) st
      else st)"

definition layer_bitop_action :: "bool \<Rightarrow> action_t \<Rightarrow> ('e, 'z) act_scheme \<Rightarrow> ('e, 'z) act_scheme" where
  "layer_bitop_action press a st =
     (let shift = bitop_part a * 4;
          bits = push_bit shift (bitop_bits a);
          mask = (if bitop_xbit a then NOT (push_bit shift 0xF) else 0);
          v = bits OR mask in
      if bitop_on a = 0 then
        if \<not> press then
          if bitop_op a = OP_BIT_AND then default_layer_and v st
          else if bitop_op a = OP_BIT_OR then default_layer_or v st
          else if bitop_op a = OP_BIT_XOR then default_layer_xor v st
          else default_layer_set v st
        else st
      else if (if press then bitop_on a AND ON_PRESS \<noteq> 0 else bitop_on a AND ON_RELEASE \<noteq> 0) then
        if bitop_op a = OP_BIT_AND then layer_and v st
        else if bitop_op a = OP_BIT_OR then layer_or v st
        else if bitop_op a = OP_BIT_XOR then layer_xor v st
        else layer_state_set v st
      else st)"

definition layer_mods_action :: "world \<Rightarrow> bool \<Rightarrow> action_t \<Rightarrow> ('e, 'z) act_scheme \<Rightarrow> ('e, 'z) act_scheme" where
  "layer_mods_action w press a st =
     (if press then act_register_mods w (layer_mods_mods a) (layer_on (layer_mods_layer a) st)
      else layer_off (layer_mods_layer a) (act_unregister_mods w (layer_mods_mods a) st))"

definition layer_tap_action :: "world \<Rightarrow> bool \<Rightarrow> nat \<Rightarrow> action_t \<Rightarrow> ('e, 'z) act_scheme \<Rightarrow> ('e, 'z) act_scheme" where
  "layer_tap_action w press count a st =
     (let layer = layer_tap_val a; code = layer_tap_code a in
      if code = OP_TAP_TOGGLE then
        if press then (if count < TAPPING_TOGGLE then layer_invert layer st else st)
        else (if count \<le> TAPPING_TOGGLE then layer_invert layer st else st)
      else if code = OP_ON_OFF then (if press then layer_on layer st else layer_off layer st)
      else if code = OP_OFF_ON then (if press then layer_off layer st else layer_on layer st)
      else if code = OP_SET_CLEAR then (if press then layer_move layer st else layer_clear st)
      else if code = OP_ONESHOT then
        if \<not> oneshot_on st then (if press then layer_on layer st else layer_off layer st)
        else if press then set_oneshot_layer layer ONESHOT_START st
        else
          let st1 = clear_oneshot_layer_state ONESHOT_PRESSED st in
          if count > 1 then clear_oneshot_layer_state ONESHOT_OTHER_KEY_PRESSED st1 else st1
      else if press then
        (if count > 0 then act_register w (key_code a) st else layer_on layer st)
      else if count > 0 then tap_release w code (key_code a) st
      else layer_off layer st)"

text \<open>
  The switch over the kind, and the test before it that ends a one-shot layer. The result says whether
  the key has to be released before the layer is left.
\<close>

definition ends_oneshot_layer :: "bool \<Rightarrow> nat \<Rightarrow> action_t \<Rightarrow> ('e, 'z) act_scheme \<Rightarrow> bool" where
  "ends_oneshot_layer press count a st \<longleftrightarrow>
     is_oneshot_layer_active st \<and> press \<and>
     (kind_id a = ACT_USAGE \<or>
      \<not> (IS_MODIFIER_KEYCODE (key_code a)
         \<or> (kind_id a = ACT_MODS_TAP \<or> kind_id a = ACT_RMODS_TAP) \<and> (layer_tap_code a \<le> MODS_TAP_TOGGLE \<or> count = 0)))
     \<and> oneshot_on st"

definition action_switch :: "world \<Rightarrow> bool \<Rightarrow> nat \<Rightarrow> action_t \<Rightarrow> ('e, 'z) act_scheme \<Rightarrow> ('e, 'z) act_scheme" where
  "action_switch w press count a st =
     (let k = kind_id a in
      if k = ACT_MODS then mods_action w press (key_mods a) (key_code a) st
      else if k = ACT_RMODS then mods_action w press (push_bit 4 (key_mods a)) (key_code a) st
      else if k = ACT_MODS_TAP then mods_tap_action w press count (key_mods a) a st
      else if k = ACT_RMODS_TAP then mods_tap_action w press count (push_bit 4 (key_mods a)) a st
      else if k = ACT_USAGE then usage_action press a st
      else if k = ACT_MOUSEKEY then on_io (register_mouse (pins w) (key_code a) press) st
      else if k = ACT_LAYER then layer_bitop_action press a st
      else if k = ACT_LAYER_MODS then layer_mods_action w press a st
      else if k = ACT_LAYER_TAP \<or> k = ACT_LAYER_TAP_EXT then layer_tap_action w press count a st
      else st)"

definition is_layer_action :: "action_t \<Rightarrow> bool" where
  "is_layer_action a \<longleftrightarrow>
     kind_id a = ACT_LAYER \<or> kind_id a = ACT_LAYER_MODS \<or> kind_id a = ACT_LAYER_TAP \<or> kind_id a = ACT_LAYER_TAP_EXT"

definition process_action ::
  "(keyrecord_t \<Rightarrow> ('e, 'z) act_scheme \<Rightarrow> keyrecord_t \<times> ('e, 'z) act_scheme) \<Rightarrow>
     world \<Rightarrow> keyrecord_t \<Rightarrow> action_t \<Rightarrow> ('e, 'z) act_scheme \<Rightarrow> keyrecord_t \<times> ('e, 'z) act_scheme" where
  "process_action process_record w r a st =
     (let press = pressed_rec r;
          ends = ends_oneshot_layer press (tap_count r) a st;
          st1 = (if ends then clear_oneshot_layer_state ONESHOT_OTHER_KEY_PRESSED st else st);
          st2 = action_switch w press (tap_count r) a st1;
          do_release_oneshot = (ends \<and> \<not> is_oneshot_layer_active st1 \<and> \<not> is_layer_action a) in
      if do_release_oneshot \<and> get_oneshot_layer_state st2 AND ONESHOT_PRESSED = 0 then
        let (r', st3) = process_record (r\<lparr>event := (event r)\<lparr>ev_pressed := False\<rparr>\<rparr>) (layer_on (get_oneshot_layer st2) st2) in
        (r', layer_off (get_oneshot_layer st3) st3)
      else (r, st2))"

end
