(* ===== verification/Send_String.thy ===== *)
theory Send_String
  imports Action
begin

text \<open>
  Typing text and playing macros: \<^verbatim>\<open>quantum/send_string/send_string.c\<close> and \<^verbatim>\<open>dynamic_keymap_macro_send\<close> of
  \<^verbatim>\<open>quantum/dynamic_keymap.c\<close>. The interval is \<^verbatim>\<open>DYNAMIC_KEYMAP_MACRO_DELAY\<close>, which is 0 here. \<^verbatim>\<open>char\<close> is unsigned on
  ARM, so a character of 128 or more reads behind the look-up tables: \<open>mem t i\<close> is the byte the memory holds
  \<open>i\<close> places after the start of table \<open>t\<close>. A delay of ten digits or more overflows the C \<^verbatim>\<open>int\<close>; the model keeps the number.
  The pauses move the clock on.
\<close>

section \<open>Model\<close>

subsection \<open>Tables\<close>

definition ascii_to_shift_lut :: bytes where
  "ascii_to_shift_lut = [0, 0, 0, 0, 0x7E, 0x0F, 0, 0xD4, 0xFF, 0xFF, 0xFF, 0xC7, 0, 0, 0, 0x78]"

definition ascii_to_altgr_lut :: bytes where "ascii_to_altgr_lut = replicate 16 0"
definition ascii_to_dead_lut :: bytes where "ascii_to_dead_lut = replicate 16 0"

definition ascii_to_keycode_lut :: bytes where
  "ascii_to_keycode_lut =
     [0, 0, 0, 0, 0, 0, 0, 0,
      0x2A, 0x2B, 0x28, 0, 0, 0, 0, 0,
      0, 0, 0, 0, 0, 0, 0, 0,
      0, 0, 0, 0x29, 0, 0, 0, 0,
      0x2C, 0x1E, 0x34, 0x20, 0x21, 0x22, 0x24, 0x34,
      0x26, 0x27, 0x25, 0x2E, 0x36, 0x2D, 0x37, 0x38,
      0x27, 0x1E, 0x1F, 0x20, 0x21, 0x22, 0x23, 0x24,
      0x25, 0x26, 0x33, 0x33, 0x36, 0x2E, 0x37, 0x38,
      0x1F, 0x04, 0x05, 0x06, 0x07, 0x08, 0x09, 0x0A,
      0x0B, 0x0C, 0x0D, 0x0E, 0x0F, 0x10, 0x11, 0x12,
      0x13, 0x14, 0x15, 0x16, 0x17, 0x18, 0x19, 0x1A,
      0x1B, 0x1C, 0x1D, 0x2F, 0x31, 0x30, 0x23, 0x2D,
      0x35, 0x04, 0x05, 0x06, 0x07, 0x08, 0x09, 0x0A,
      0x0B, 0x0C, 0x0D, 0x0E, 0x0F, 0x10, 0x11, 0x12,
      0x13, 0x14, 0x15, 0x16, 0x17, 0x18, 0x19, 0x1A,
      0x1B, 0x1C, 0x1D, 0x2F, 0x31, 0x30, 0x35, 0x4C]"

datatype lut = Keycode_Lut | Shift_Lut | Altgr_Lut | Dead_Lut

primrec lut_table :: "lut \<Rightarrow> bytes" where
  "lut_table Keycode_Lut = ascii_to_keycode_lut"
| "lut_table Shift_Lut = ascii_to_shift_lut"
| "lut_table Altgr_Lut = ascii_to_altgr_lut"
| "lut_table Dead_Lut = ascii_to_dead_lut"

definition lut_byte :: "(lut \<Rightarrow> nat \<Rightarrow> u8) \<Rightarrow> lut \<Rightarrow> nat \<Rightarrow> u8" where
  "lut_byte mem t i = (if i < length (lut_table t) then lut_table t ! i else mem t i)"

definition PGM_LOADBIT :: "(lut \<Rightarrow> nat \<Rightarrow> u8) \<Rightarrow> lut \<Rightarrow> u8 \<Rightarrow> bool" where
  "PGM_LOADBIT mem t pos = bit (lut_byte mem t (unat pos div 8)) (unat pos mod 8)"

subsection \<open>Characters\<close>

definition SS_QMK_PREFIX :: u8 where [hw_defs]: "SS_QMK_PREFIX = 1"
definition SS_TAP_CODE :: u8 where [hw_defs]: "SS_TAP_CODE = 1"
definition SS_DOWN_CODE :: u8 where [hw_defs]: "SS_DOWN_CODE = 2"
definition SS_UP_CODE :: u8 where [hw_defs]: "SS_UP_CODE = 3"
definition SS_DELAY_CODE :: u8 where [hw_defs]: "SS_DELAY_CODE = 4"
definition KC_LEFT_SHIFT :: u8 where [hw_defs]: "KC_LEFT_SHIFT = 0xE1"
definition KC_SPACE :: u8 where [hw_defs]: "KC_SPACE = 0x2C"

text \<open>The clock and the host side while a string is typed.\<close>

type_synonym typing = "env \<times> hostio"

definition typing_do :: "(env \<Rightarrow> hostio \<Rightarrow> hostio) \<Rightarrow> typing \<Rightarrow> typing" where
  "typing_do f = (\<lambda>(env, io). (env, f env io))"

definition typing_wait :: "nat \<Rightarrow> typing \<Rightarrow> typing" where
  "typing_wait ms = (\<lambda>(env, io). (env\<lparr>timer_ms := timer_ms env + word_of_nat ms\<rparr>, on_hid (wait_ms ms) io))"

definition typing_tap :: "bool \<Rightarrow> u8 \<Rightarrow> nat \<Rightarrow> typing \<Rightarrow> typing" where
  "typing_tap nk code delay t =
     typing_do (\<lambda>env. unregister_code env nk code) (typing_wait delay (typing_do (\<lambda>env. register_code env nk code) t))"

definition typing_tap_code :: "bool \<Rightarrow> u8 \<Rightarrow> typing \<Rightarrow> typing" where
  "typing_tap_code nk code = typing_tap nk code (if ucast code = KC_CAPS_LOCK then TAP_HOLD_CAPS_DELAY else TAP_CODE_DELAY)"

definition send_char_with_delay :: "(lut \<Rightarrow> nat \<Rightarrow> u8) \<Rightarrow> bool \<Rightarrow> u8 \<Rightarrow> nat \<Rightarrow> typing \<Rightarrow> typing" where
  "send_char_with_delay mem nk ascii_code interval t =
     (let keycode = lut_byte mem Keycode_Lut (unat ascii_code);
          is_shifted = PGM_LOADBIT mem Shift_Lut ascii_code;
          is_altgred = PGM_LOADBIT mem Altgr_Lut ascii_code;
          is_dead = PGM_LOADBIT mem Dead_Lut ascii_code;
          down = (\<lambda>code t. typing_wait interval (typing_do (\<lambda>env. register_code env nk code) t));
          up = (\<lambda>code t. typing_wait interval (typing_do (\<lambda>env. unregister_code env nk code) t));
          t1 = (if is_shifted then down KC_LEFT_SHIFT t else t);
          t2 = (if is_altgred then down (ucast KC_RIGHT_ALT) t1 else t1);
          t3 = typing_wait interval (typing_tap nk keycode interval t2);
          t4 = (if is_altgred then up (ucast KC_RIGHT_ALT) t3 else t3);
          t5 = (if is_shifted then up KC_LEFT_SHIFT t4 else t4) in
      if is_dead then typing_wait interval (typing_tap_code nk KC_SPACE t5) else t5)"

subsection \<open>Strings\<close>

text \<open>The getter over the bytes that are left; behind them it yields 0.\<close>

definition getter :: "bytes \<Rightarrow> u8 \<times> bytes" where
  "getter xs = (case xs of [] \<Rightarrow> (0, []) | x # xs' \<Rightarrow> (x, xs'))"

definition isdigit :: "u8 \<Rightarrow> bool" where "isdigit c \<longleftrightarrow> 0x30 \<le> c \<and> c \<le> 0x39"

text \<open>The digits of a delay, the character that ends them, and the rest.\<close>

fun read_delay :: "nat \<Rightarrow> bytes \<Rightarrow> nat \<times> u8 \<times> bytes" where
  "read_delay ms [] = (ms, 0, [])"
| "read_delay ms (c # cs) = (if isdigit c then read_delay (ms * 10 + unat (c - 0x30)) cs else (ms, c, cs))"

lemma read_delay_length: "read_delay ms cs = (n, c, rest) \<Longrightarrow> length rest \<le> length cs"
  by (induction cs arbitrary: ms) (force split: if_splits)+

lemma getter_length: "length (snd (getter xs)) \<le> length xs"
  by (cases xs) (simp_all add: getter_def)

text \<open>One escape sequence after its prefix: what it types, the last character read, and the rest.\<close>

definition send_escape :: "bool \<Rightarrow> bytes \<Rightarrow> typing \<Rightarrow> u8 \<times> bytes \<times> typing" where
  "send_escape nk xs t =
     (let (c, xs1) = getter xs; (keycode, xs2) = getter xs1 in
      if c = SS_TAP_CODE then (c, xs2, typing_tap_code nk keycode t)
      else if c = SS_DOWN_CODE then (c, xs2, typing_do (\<lambda>env. register_code env nk keycode) t)
      else if c = SS_UP_CODE then (c, xs2, typing_do (\<lambda>env. unregister_code env nk keycode) t)
      else if c = SS_DELAY_CODE then
        let (ms, c', xs') = read_delay 0 xs1 in (c', xs', typing_wait ms t)
      else (c, xs1, t))"

lemma send_escape_length: "send_escape nk xs t = (c, xs', t') \<Longrightarrow> length xs' \<le> length xs"
  using getter_length [of xs] getter_length [of "snd (getter xs)"]
  by (auto simp: send_escape_def Let_def split: prod.splits if_splits dest!: read_delay_length)

function send_string_with_delay_impl :: "(lut \<Rightarrow> nat \<Rightarrow> u8) \<Rightarrow> bool \<Rightarrow> nat \<Rightarrow> bytes \<Rightarrow> typing \<Rightarrow> typing" where
  "send_string_with_delay_impl mem nk interval [] t = t"
| "send_string_with_delay_impl mem nk interval (c # xs) t =
     (if c = 0 then t
      else if c = SS_QMK_PREFIX then
        case send_escape nk xs t of (c', xs', t') \<Rightarrow>
          let t2 = typing_wait interval t' in
          if c' = 0 then t2 else send_string_with_delay_impl mem nk interval xs' t2
      else send_string_with_delay_impl mem nk interval xs (send_char_with_delay mem nk c interval t))"
  by pat_completeness auto
termination
  by (relation "measure (\<lambda>(mem, nk, interval, xs, t). length xs)") (auto dest: send_escape_length [OF sym])

subsection \<open>Macros\<close>

definition DYNAMIC_KEYMAP_MACRO_DELAY :: nat where [hw_defs]: "DYNAMIC_KEYMAP_MACRO_DELAY = TAP_CODE_DELAY"

definition macro_bytes :: "'e eeprom_driver \<Rightarrow> nat \<Rightarrow> 'e \<Rightarrow> bytes" where
  "macro_bytes E offset e = map (\<lambda>o'. dynamic_keymap_read_byte E o' e) [offset..<nvm_dynamic_keymap_macro_size]"

definition macro_play ::
  "'e eeprom_driver \<Rightarrow> (lut \<Rightarrow> nat \<Rightarrow> u8) \<Rightarrow> world \<Rightarrow> nat \<Rightarrow> ('e, 'z) act_scheme \<Rightarrow> ('e, 'z) act_scheme" where
  "macro_play E mem w offset st =
     st\<lparr>hostio := snd (send_string_with_delay_impl mem (nkro_now w st) DYNAMIC_KEYMAP_MACRO_DELAY
          (macro_bytes E offset (ee st)) (pins w, hostio st))\<rparr>"

definition dynamic_keymap_macro_send ::
  "'e eeprom_driver \<Rightarrow> (lut \<Rightarrow> nat \<Rightarrow> u8) \<Rightarrow> world \<Rightarrow> nat \<Rightarrow> ('e, 'z) act_scheme \<Rightarrow> ('e, 'z) act_scheme" where
  "dynamic_keymap_macro_send E mem w mid st =
     (case dynamic_keymap_macro_start E mid (ee st) of
        None \<Rightarrow> st
      | Some offset \<Rightarrow> macro_play E mem w offset st)"

end
