(* ===== verification/Quantum.thy ===== *)
theory Quantum
  imports Send_String
begin

text \<open>
  From a key event to its action: \<^verbatim>\<open>process_record\<close> of \<^verbatim>\<open>quantum/action.c\<close>, \<^verbatim>\<open>process_record_quantum\<close> and the
  shutdown of \<^verbatim>\<open>quantum/quantum.c\<close>, and the keycode handlers of this build under \<^verbatim>\<open>quantum/process_keycode\<close>:
  space cadet, magic, grave escape, underglow, tri layer, default layer, one shot, quantum. The keyboard's own
  handler is \<open>he_handle_keycode\<close>, called by the keymap's \<^verbatim>\<open>process_record_user\<close>. The hooks for modules and the
  post-processing hooks are empty.
\<close>

section \<open>Model\<close>

subsection \<open>The keycode of an event\<close>

definition get_event_keycode ::
  "'e eeprom_driver \<Rightarrow> keyevent_t \<Rightarrow> bool \<Rightarrow> ('e, 'z) act_scheme \<Rightarrow> u16 \<times> ('e, 'z) act_scheme" where
  "get_event_keycode E ev update_layer_cache st =
     (if \<not> disable_action_cache st then
        if ev_pressed ev \<and> update_layer_cache then
          let layer = layer_switch_get_layer E (ev_key ev) st;
              st1 = update_source_layers_cache (ev_key ev) (word_of_nat layer) st in
          (keymap_key_to_keycode E layer (ev_key ev) (ee st1), st1)
        else (keymap_key_to_keycode E (unat (read_source_layers_cache (ev_key ev) st)) (ev_key ev) (ee st), st)
      else (keymap_key_to_keycode E (layer_switch_get_layer E (ev_key ev) st) (ev_key ev) (ee st), st))"

definition pre_process_record_quantum ::
  "'e eeprom_driver \<Rightarrow> keyevent_t \<Rightarrow> ('e, 'z) act_scheme \<Rightarrow> bool \<times> ('e, 'z) act_scheme" where
  "pre_process_record_quantum E ev st =
     (True, snd (get_event_keycode E ev True (snd (get_event_keycode E ev True st))))"

subsection \<open>Space cadet\<close>

definition TAPPING_TERM :: nat where [hw_defs]: "TAPPING_TERM = 200"

definition perform_space_cadet ::
  "world \<Rightarrow> bool \<Rightarrow> u8 \<Rightarrow> u8 \<Rightarrow> u8 \<Rightarrow> ('e, 'z) act_scheme \<Rightarrow> ('e, 'z) act_scheme" where
  "perform_space_cadet w press holdMod tapMod keycode st =
     (if press then
        let st1 = st\<lparr>sc_last := holdMod, sc_timer := timer_read (pins w)\<rparr> in
        if IS_MODIFIER_KEYCODE holdMod then act_register_mods w (MOD_BIT holdMod) st1 else st1
      else if sc_last st = holdMod \<and> unat (timer_elapsed (pins w) (sc_timer st)) < TAPPING_TERM then
        let st1 =
              (if holdMod \<noteq> tapMod then
                 let st1 = (if IS_MODIFIER_KEYCODE holdMod then act_unregister_mods w (MOD_BIT holdMod) st else st) in
                 if IS_MODIFIER_KEYCODE tapMod then act_register_mods w (MOD_BIT tapMod) st1 else st1
               else st);
            st2 = on_io (tap_code (pins w) (nkro_now w st1) keycode) st1 in
        if IS_MODIFIER_KEYCODE tapMod then act_unregister_mods w (MOD_BIT tapMod) st2 else st2
      else if IS_MODIFIER_KEYCODE holdMod then act_unregister_mods w (MOD_BIT holdMod) st
      else st)"

text \<open>Keycode, modifier when held, modifier when tapped, key when tapped.\<close>

definition space_cadet_keys :: "(u16 \<times> u8 \<times> u8 \<times> u8) list" where
  "space_cadet_keys =
     [(0x7C1A, 0xE1, 0xE1, 0x26), (0x7C1B, 0xE5, 0xE5, 0x27), (0x7C18, 0xE0, 0xE1, 0x26), (0x7C19, 0xE4, 0xE5, 0x27),
      (0x7C1C, 0xE2, 0xE1, 0x26), (0x7C1D, 0xE6, 0xE5, 0x27), (0x7C1E, 0xE5, 0x01, 0x28)]"

definition reset_space_cadet :: "('e, 'z) act_scheme \<Rightarrow> ('e, 'z) act_scheme" where
  "reset_space_cadet st = st\<lparr>sc_last := 0\<rparr>"

definition process_space_cadet :: "world \<Rightarrow> u16 \<Rightarrow> bool \<Rightarrow> ('e, 'z) act_scheme \<Rightarrow> bool \<times> ('e, 'z) act_scheme" where
  "process_space_cadet w keycode press st =
     (case map_of space_cadet_keys keycode of
        Some (holdMod, tapMod, key) \<Rightarrow> (False, perform_space_cadet w press holdMod tapMod key st)
      | None \<Rightarrow> (True, if press then reset_space_cadet st else st))"

subsection \<open>Magic\<close>

definition put_bit :: "nat \<Rightarrow> bool \<Rightarrow> u16 \<Rightarrow> u16" where
  "put_bit n b c = (if b then set_bit n c else unset_bit n c)"

text \<open>The bit a magic keycode sets or clears; the other keycodes toggle bits, or set two.\<close>

definition magic_bits :: "(u16 \<times> nat list \<times> bool) list" where
  "magic_bits =
     [(0x7000, [0], True), (0x7001, [0], False), (0x7020, [11], True), (0x7021, [11], False),
      (0x7004, [1], True), (0x7003, [1], False), (0x7005, [2], True), (0x7006, [2], False),
      (0x7007, [3], True), (0x7008, [3], False), (0x7017, [8], True), (0x7018, [8], False),
      (0x7019, [9], True), (0x701A, [9], False), (0x700A, [4], True), (0x7009, [4], False),
      (0x700C, [5], True), (0x700D, [5], False), (0x700E, [6], True), (0x700F, [6], False),
      (0x7011, [7], True), (0x7012, [7], False), (0x7014, [2, 3], True), (0x7015, [2, 3], False),
      (0x701B, [8, 9], True), (0x701C, [8, 9], False)]"

text \<open>The first bit is inverted, the others follow it.\<close>

definition magic_toggles :: "(u16 \<times> nat list) list" where
  "magic_toggles =
     [(0x7016, [2, 3]), (0x701D, [8, 9]), (0x7010, [6]), (0x7013, [7]), (0x700B, [4]), (0x7002, [0]), (0x7022, [11])]"

definition magic_config :: "u16 \<Rightarrow> u16 \<Rightarrow> u16" where
  "magic_config keycode c =
     (case map_of magic_bits keycode of
        Some (ns, b) \<Rightarrow> fold (\<lambda>n. put_bit n b) ns c
      | None \<Rightarrow>
          (case map_of magic_toggles keycode of
             Some ns \<Rightarrow> fold (\<lambda>n. put_bit n (\<not> bit c (hd ns))) ns c
           | None \<Rightarrow> c))"

definition IS_MAGIC_KEYCODE :: "u16 \<Rightarrow> bool" where "IS_MAGIC_KEYCODE code \<longleftrightarrow> 0x7000 \<le> code \<and> code \<le> 0x7022"

definition is_nkro_keycode :: "u16 \<Rightarrow> bool" where
  "is_nkro_keycode code \<longleftrightarrow> code = 0x7011 \<or> code = 0x7012 \<or> code = 0x7013"

definition process_magic ::
  "'e eeprom_driver \<Rightarrow> world \<Rightarrow> u16 \<Rightarrow> bool \<Rightarrow> ('e, 'z) act_scheme \<Rightarrow> bool \<times> ('e, 'z) act_scheme" where
  "process_magic E w keycode press st =
     (if press \<and> IS_MAGIC_KEYCODE keycode then
        let st1 = st\<lparr>keymap_config := nvm_eeconfig_read_keymap E (ee st)\<rparr>;
            st2 = (if is_nkro_keycode keycode then act_clear w st1 else st1);
            st3 = st2\<lparr>keymap_config := magic_config keycode (keymap_config st2)\<rparr>;
            st4 =
              (if keycode = 0x701E then st3\<lparr>ee := nvm_eeconfig_update_handedness E True (ee st3)\<rparr>
               else if keycode = 0x701F then st3\<lparr>ee := nvm_eeconfig_update_handedness E False (ee st3)\<rparr>
               else st3);
            st5 = st4\<lparr>ee := nvm_eeconfig_update_keymap E (keymap_config st4) (ee st4)\<rparr> in
        (False, act_clear w st5)
      else (True, st))"

subsection \<open>Grave escape\<close>

definition QK_GRAVE_ESCAPE :: u16 where [hw_defs]: "QK_GRAVE_ESCAPE = 0x7C16"
definition MOD_MASK_SHIFT :: u8 where [hw_defs]: "MOD_MASK_SHIFT = 0x22"
definition MOD_MASK_SG :: u8 where [hw_defs]: "MOD_MASK_SG = 0xAA"

definition process_grave_esc :: "world \<Rightarrow> u16 \<Rightarrow> bool \<Rightarrow> ('e, 'z) act_scheme \<Rightarrow> bool \<times> ('e, 'z) act_scheme" where
  "process_grave_esc w keycode press st =
     (if keycode = QK_GRAVE_ESCAPE then
        let shifted = (real_mods (hid (hostio st)) AND MOD_MASK_SG \<noteq> 0);
            nk = nkro_now w st;
            st1 =
              (if press then
                 act_hid (add_key nk (ucast (if shifted then KC_GRAVE else KC_ESCAPE))) (st\<lparr>grave_esc_was_shifted := shifted\<rparr>)
               else act_hid (del_key nk (ucast (if grave_esc_was_shifted st then KC_GRAVE else KC_ESCAPE))) st) in
        (False, act_send w st1)
      else (True, st))"

subsection \<open>Underglow\<close>

definition QK_UNDERGLOW_TOGGLE :: u16 where [hw_defs]: "QK_UNDERGLOW_TOGGLE = 0x7820"

text \<open>The command of a keycode, plain and with Shift held.\<close>

definition underglow_cmds :: "(u16 \<times> rgb_cmd \<times> rgb_cmd) list" where
  "underglow_cmds =
     [(0x7821, Step True, Step_Reverse True), (0x7822, Step_Reverse True, Step True),
      (0x7823, Hue_Up True, Hue_Down True), (0x7824, Hue_Down True, Hue_Up True),
      (0x7825, Sat_Up True, Sat_Down True), (0x7826, Sat_Down True, Sat_Up True),
      (0x7827, Val_Up True, Val_Down True), (0x7828, Val_Down True, Val_Up True),
      (0x7829, Speed_Up True, Speed_Down True), (0x782A, Speed_Down True, Speed_Up True)]"

definition process_underglow ::
  "'e eeprom_driver \<Rightarrow> u16 \<Rightarrow> bool \<Rightarrow> ('e, 'z) act_scheme \<Rightarrow> bool \<times> ('e, 'z) act_scheme" where
  "process_underglow E keycode press st =
     (if press then
        let shifted = (real_mods (hid (hostio st)) AND MOD_MASK_SHIFT \<noteq> 0) in
        if keycode = QK_UNDERGLOW_TOGGLE then (False, rgb_exec E (Toggle True) st)
        else
          (case map_of underglow_cmds keycode of
             Some (cmd, cmd') \<Rightarrow> (False, rgb_exec E (if shifted then cmd' else cmd) st)
           | None \<Rightarrow> (True, st))
      else (True, st))"

subsection \<open>Layers\<close>

definition QK_TRI_LAYER_LOWER :: u16 where [hw_defs]: "QK_TRI_LAYER_LOWER = 0x7C77"
definition QK_TRI_LAYER_UPPER :: u16 where [hw_defs]: "QK_TRI_LAYER_UPPER = 0x7C78"
definition TRI_LAYER_LOWER_LAYER :: nat where [hw_defs]: "TRI_LAYER_LOWER_LAYER = 1"
definition TRI_LAYER_UPPER_LAYER :: nat where [hw_defs]: "TRI_LAYER_UPPER_LAYER = 2"
definition TRI_LAYER_ADJUST_LAYER :: nat where [hw_defs]: "TRI_LAYER_ADJUST_LAYER = 3"

definition tri_layer_key :: "nat \<Rightarrow> bool \<Rightarrow> ('e, 'z) act_scheme \<Rightarrow> ('e, 'z) act_scheme" where
  "tri_layer_key layer press st =
     update_tri_layer TRI_LAYER_LOWER_LAYER TRI_LAYER_UPPER_LAYER TRI_LAYER_ADJUST_LAYER
       (if press then layer_on layer st else layer_off layer st)"

definition process_tri_layer :: "u16 \<Rightarrow> bool \<Rightarrow> ('e, 'z) act_scheme \<Rightarrow> bool \<times> ('e, 'z) act_scheme" where
  "process_tri_layer keycode press st =
     (if keycode = QK_TRI_LAYER_LOWER then (False, tri_layer_key TRI_LAYER_LOWER_LAYER press st)
      else if keycode = QK_TRI_LAYER_UPPER then (False, tri_layer_key TRI_LAYER_UPPER_LAYER press st)
      else (True, st))"

definition set_single_default_layer :: "nat \<Rightarrow> ('e, 'z) act_scheme \<Rightarrow> ('e, 'z) act_scheme" where
  "set_single_default_layer layer st = default_layer_set (push_bit layer 1) st"

definition set_single_persistent_default_layer ::
  "'e eeprom_driver \<Rightarrow> nat \<Rightarrow> ('e, 'z) act_scheme \<Rightarrow> ('e, 'z) act_scheme" where
  "set_single_persistent_default_layer E layer st =
     set_single_default_layer layer (st\<lparr>ee := nvm_eeconfig_update_default_layer E (push_bit layer 1) (ee st)\<rparr>)"

definition process_default_layer ::
  "'e eeprom_driver \<Rightarrow> u16 \<Rightarrow> bool \<Rightarrow> ('e, 'z) act_scheme \<Rightarrow> bool \<times> ('e, 'z) act_scheme" where
  "process_default_layer E keycode press st =
     (if in_range 0x52E0 0x52FF keycode \<and> \<not> press
      then (False, set_single_persistent_default_layer E (unat (keycode AND 0x1F)) st) else (True, st))"

definition process_oneshot ::
  "'e eeprom_driver \<Rightarrow> u16 \<Rightarrow> bool \<Rightarrow> ('e, 'z) act_scheme \<Rightarrow> bool \<times> ('e, 'z) act_scheme" where
  "process_oneshot E keycode press st =
     (if press \<and> keycode = 0x7C5C then (False, oneshot_toggle E st)
      else if press \<and> keycode = 0x7C5A then (False, oneshot_set E True st)
      else if press \<and> keycode = 0x7C5B then (False, oneshot_set E False st)
      else (True, st))"

subsection \<open>Resets\<close>

definition QK_BOOTLOADER :: u16 where [hw_defs]: "QK_BOOTLOADER = 0x7C00"
definition QK_REBOOT :: u16 where [hw_defs]: "QK_REBOOT = 0x7C01"
definition QK_DEBUG_TOGGLE :: u16 where [hw_defs]: "QK_DEBUG_TOGGLE = 0x7C02"
definition QK_CLEAR_EEPROM :: u16 where [hw_defs]: "QK_CLEAR_EEPROM = 0x7C03"

definition shutdown_quantum :: "world \<Rightarrow> ('e, 'z) act_scheme \<Rightarrow> ('e, 'z) act_scheme" where
  "shutdown_quantum w st = act_clear w st"

definition reset_keyboard :: "world \<Rightarrow> ('e, 'z) act_scheme \<Rightarrow> ('e, 'z) act_scheme" where
  "reset_keyboard w st = (shutdown_quantum w st)\<lparr>jumped := Some Bootloader\<rparr>"

definition soft_reset_keyboard :: "world \<Rightarrow> ('e, 'z) act_scheme \<Rightarrow> ('e, 'z) act_scheme" where
  "soft_reset_keyboard w st = (shutdown_quantum w st)\<lparr>jumped := Some Reset\<rparr>"

definition process_quantum ::
  "'e eeprom_driver \<Rightarrow> world \<Rightarrow> u16 \<Rightarrow> bool \<Rightarrow> ('e, 'z) act_scheme \<Rightarrow> bool \<times> ('e, 'z) act_scheme" where
  "process_quantum E w keycode press st =
     (if \<not> press then (True, st)
      else if keycode = QK_BOOTLOADER then (False, reset_keyboard w st)
      else if keycode = QK_REBOOT then (False, soft_reset_keyboard w st)
      else if keycode = QK_DEBUG_TOGGLE then (False, st\<lparr>debug_config := debug_config st XOR 1\<rparr>)
      else if keycode = QK_CLEAR_EEPROM then (False, soft_reset_keyboard w (st\<lparr>ee := nvm_eeconfig_disable E (ee st)\<rparr>))
      else (True, st))"

subsection \<open>The chain\<close>

definition process_record_macro ::
  "'e eeprom_driver \<Rightarrow> (lut \<Rightarrow> nat \<Rightarrow> u8) \<Rightarrow> world \<Rightarrow> u16 \<Rightarrow> bool \<Rightarrow> ('e, 'z) act_scheme \<Rightarrow> bool \<times> ('e, 'z) act_scheme" where
  "process_record_macro E mem w keycode press st =
     (case process_record_via E keycode press (ee st) of
        (go_on, None) \<Rightarrow> (go_on, st)
      | (go_on, Some offset) \<Rightarrow> (go_on, macro_play E mem w offset st))"

text \<open>A handler runs only if the ones before it let the event pass.\<close>

definition and_then ::
  "('s \<Rightarrow> bool \<times> 's) \<Rightarrow> ('s \<Rightarrow> bool \<times> 's) \<Rightarrow> 's \<Rightarrow> bool \<times> 's" where
  "and_then f g s = (case f s of (True, s') \<Rightarrow> g s' | (False, s') \<Rightarrow> (False, s'))"

definition process_keycode ::
  "'e eeprom_driver \<Rightarrow> (lut \<Rightarrow> nat \<Rightarrow> u8) \<Rightarrow> world \<Rightarrow> u16 \<Rightarrow> bool \<Rightarrow> ('e, 'z) act_scheme \<Rightarrow> bool \<times> ('e, 'z) act_scheme" where
  "process_keycode E mem w keycode press =
     and_then (he_handle_keycode E keycode press)
       (and_then (process_record_macro E mem w keycode press)
       (and_then (process_space_cadet w keycode press)
       (and_then (process_magic E w keycode press)
       (and_then (process_grave_esc w keycode press)
       (and_then (process_underglow E keycode press)
       (and_then (process_tri_layer keycode press)
       (and_then (process_default_layer E keycode press)
       (and_then (process_oneshot E keycode press)
         (process_quantum E w keycode press)))))))))"

definition process_record_quantum ::
  "'e eeprom_driver \<Rightarrow> (lut \<Rightarrow> nat \<Rightarrow> u8) \<Rightarrow> world \<Rightarrow> keyevent_t \<Rightarrow> ('e, 'z) act_scheme \<Rightarrow> bool \<times> ('e, 'z) act_scheme" where
  "process_record_quantum E mem w ev st =
     (let (keycode, st1) = get_event_keycode E ev True st in process_keycode E mem w keycode (ev_pressed ev) st1)"

definition process_record_handler ::
  "'e eeprom_driver \<Rightarrow> (keyrecord_t \<Rightarrow> ('e, 'z) act_scheme \<Rightarrow> keyrecord_t \<times> ('e, 'z) act_scheme) \<Rightarrow>
     world \<Rightarrow> keyrecord_t \<Rightarrow> ('e, 'z) act_scheme \<Rightarrow> keyrecord_t \<times> ('e, 'z) act_scheme" where
  "process_record_handler E again w r st =
     (let (a, st1) = store_or_get_action E (pressed_rec r) (ev_key (event r)) st in process_action again w r a st1)"

text \<open>
  \<open>again\<close> is the call of \<^verbatim>\<open>process_record\<close> inside \<^verbatim>\<open>process_action\<close>. That call is for a release, and a release makes
  no such call: one level is enough (\<open>process_record_unfold\<close> below).
\<close>

definition process_record_with ::
  "(keyrecord_t \<Rightarrow> ('e, 'z) act_scheme \<Rightarrow> keyrecord_t \<times> ('e, 'z) act_scheme) \<Rightarrow>
     'e eeprom_driver \<Rightarrow> (lut \<Rightarrow> nat \<Rightarrow> u8) \<Rightarrow> world \<Rightarrow> keyrecord_t \<Rightarrow> ('e, 'z) act_scheme \<Rightarrow> keyrecord_t \<times> ('e, 'z) act_scheme" where
  "process_record_with again E mem w r st =
     (if IS_NOEVENT (event r) then (r, st)
      else
        let (go_on, st1) = process_record_quantum E mem w (event r) st in
        if jumped st1 \<noteq> None then (r, st1)
        else if \<not> go_on then
          (r, if is_oneshot_layer_active st1 \<and> pressed_rec r \<and> oneshot_on st1
              then clear_oneshot_layer_state ONESHOT_OTHER_KEY_PRESSED st1 else st1)
        else process_record_handler E again w r st1)"

definition process_record ::
  "'e eeprom_driver \<Rightarrow> (lut \<Rightarrow> nat \<Rightarrow> u8) \<Rightarrow> world \<Rightarrow> keyrecord_t \<Rightarrow> ('e, 'z) act_scheme \<Rightarrow> keyrecord_t \<times> ('e, 'z) act_scheme" where
  "process_record E mem w = process_record_with (process_record_with Pair E mem w) E mem w"

lemma process_record_release:
  assumes "\<not> pressed_rec r"
  shows "process_record_with f E mem w r st = process_record_with g E mem w r st"
  using assms by (simp add: process_record_with_def process_record_handler_def process_action_def ends_oneshot_layer_def
      split: prod.splits)

text \<open>The recursive equation of the C function.\<close>

lemma process_record_unfold:
  "process_record E mem w r st = process_record_with (process_record E mem w) E mem w r st"
proof -
  have eq: "process_record_with Pair E mem w (r\<lparr>event := (event r)\<lparr>ev_pressed := False\<rparr>\<rparr>)
      = process_record E mem w (r\<lparr>event := (event r)\<lparr>ev_pressed := False\<rparr>\<rparr>)"
    unfolding process_record_def by (rule ext, rule process_record_release) simp
  have "process_action (process_record_with Pair E mem w) w r a st' = process_action (process_record E mem w) w r a st'" for a st'
    unfolding process_action_def eq ..
  then show ?thesis
    by (subst process_record_def) (auto simp: process_record_with_def process_record_handler_def split: prod.split)
qed

end
