(* ===== verification/Tapping.thy ===== *)
theory Tapping
  imports Quantum "HOL-Library.Multiset"
begin

text \<open>
  Taps and holds, \<^verbatim>\<open>quantum/action_tapping.c\<close>: a key with a tap action and a hold action is kept back until its
  release, or the tapping term of 200 ms, decides which of the two it is; the events that come in the meantime wait in
  a ring of eight records. The build has none of the options that decide earlier (\<^verbatim>\<open>PERMISSIVE_HOLD\<close>,
  \<^verbatim>\<open>HOLD_ON_OTHER_KEY_PRESS\<close>, \<^verbatim>\<open>CHORDAL_HOLD\<close>, \<^verbatim>\<open>FLOW_TAP_TERM\<close>, \<^verbatim>\<open>SPECULATIVE_HOLD\<close>, retro shift); their
  conditions are the constant false of the C macros. What the state machine calls (\<^verbatim>\<open>process_record\<close>,
  \<^verbatim>\<open>layer_switch_get_action\<close>, \<^verbatim>\<open>clear_keyboard\<close>) is an argument here, \<open>tap_ops\<close>; \<open>Keyboard_Task\<close> supplies it.
  \<^verbatim>\<open>process_record\<close> may write to the record it is given, so it returns the record.
\<close>

section \<open>Model\<close>

record 's tap_ops =
  op_process_record :: "keyrecord_t \<Rightarrow> 's \<Rightarrow> keyrecord_t \<times> 's"
  op_get_action :: "keypos_t \<Rightarrow> 's \<Rightarrow> action_t"
  op_clear_keyboard :: "'s \<Rightarrow> 's"

record tapping =
  tapping_key :: keyrecord_t
  waiting_buffer :: "keyrecord_t list"
  waiting_buffer_head :: nat
  waiting_buffer_tail :: nat

definition WAITING_BUFFER_SIZE :: nat where [hw_defs]: "WAITING_BUFFER_SIZE = 8"
definition QUICK_TAP_TERM :: nat where [hw_defs]: "QUICK_TAP_TERM = TAPPING_TERM"

definition zero_record :: keyrecord_t where
  "zero_record =
     \<lparr>event = \<lparr>ev_key = \<lparr>col = 0, row = 0\<rparr>, ev_time = 0, ev_type = TICK_EVENT, ev_pressed = False\<rparr>,
      tap_interrupted = False, tap_count = 0\<rparr>"

definition tapping_reset :: tapping where
  "tapping_reset =
     \<lparr>tapping_key = zero_record, waiting_buffer = replicate WAITING_BUFFER_SIZE zero_record,
      waiting_buffer_head = 0, waiting_buffer_tail = 0\<rparr>"

definition KEYEQ :: "keypos_t \<Rightarrow> keypos_t \<Rightarrow> bool" where
  "KEYEQ a b \<longleftrightarrow> row a = row b \<and> col a = col b"

definition IS_TAPPING_RECORD :: "keyrecord_t \<Rightarrow> tapping \<Rightarrow> bool" where
  "IS_TAPPING_RECORD r tp \<longleftrightarrow> KEYEQ (ev_key (event (tapping_key tp))) (ev_key (event r))"

definition WITHIN_TAPPING_TERM :: "keyevent_t \<Rightarrow> tapping \<Rightarrow> bool" where
  "WITHIN_TAPPING_TERM ev tp \<longleftrightarrow> unat (ev_time ev - ev_time (event (tapping_key tp))) < TAPPING_TERM"

definition WITHIN_QUICK_TAP_TERM :: "keyevent_t \<Rightarrow> tapping \<Rightarrow> bool" where
  "WITHIN_QUICK_TAP_TERM ev tp \<longleftrightarrow> unat (ev_time ev - ev_time (event (tapping_key tp))) < QUICK_TAP_TERM"

definition is_tap_record :: "'s tap_ops \<Rightarrow> keyrecord_t \<Rightarrow> 's \<Rightarrow> bool" where
  "is_tap_record ops r s \<longleftrightarrow> \<not> IS_NOEVENT (event r) \<and> is_tap_action (op_get_action ops (ev_key (event r)) s)"

subsection \<open>The waiting buffer\<close>

text \<open>The indices a C loop \<^verbatim>\<open>for (i = tail; i != head; i = (i + 1) % WAITING_BUFFER_SIZE)\<close> visits.\<close>

definition waiting_indices :: "tapping \<Rightarrow> nat list" where
  "waiting_indices tp =
     map (\<lambda>k. (waiting_buffer_tail tp + k) mod WAITING_BUFFER_SIZE)
       [0..<(waiting_buffer_head tp + WAITING_BUFFER_SIZE - waiting_buffer_tail tp) mod WAITING_BUFFER_SIZE]"

definition waiting_buffer_enq :: "keyrecord_t \<Rightarrow> tapping \<Rightarrow> bool \<times> tapping" where
  "waiting_buffer_enq r tp =
     (if IS_NOEVENT (event r) then (True, tp)
      else if (waiting_buffer_head tp + 1) mod WAITING_BUFFER_SIZE = waiting_buffer_tail tp then (False, tp)
      else (True, tp\<lparr>waiting_buffer := (waiting_buffer tp)[waiting_buffer_head tp := r],
                     waiting_buffer_head := (waiting_buffer_head tp + 1) mod WAITING_BUFFER_SIZE\<rparr>))"

definition waiting_buffer_clear :: "tapping \<Rightarrow> tapping" where
  "waiting_buffer_clear tp = tp\<lparr>waiting_buffer_head := 0, waiting_buffer_tail := 0\<rparr>"

definition waiting_buffer_typed :: "keyevent_t \<Rightarrow> tapping \<Rightarrow> bool" where
  "waiting_buffer_typed ev tp \<longleftrightarrow>
     (\<exists>i\<in>set (waiting_indices tp).
        KEYEQ (ev_key ev) (ev_key (event (waiting_buffer tp ! i))) \<and> ev_pressed ev \<noteq> pressed_rec (waiting_buffer tp ! i))"

definition waiting_buffer_scan_tap :: "'s tap_ops \<Rightarrow> tapping \<Rightarrow> 's \<Rightarrow> tapping \<times> 's" where
  "waiting_buffer_scan_tap ops tp s =
     (if tap_count (tapping_key tp) > 0 \<or> \<not> pressed_rec (tapping_key tp) then (tp, s)
      else
        case find (\<lambda>i. let candidate = waiting_buffer tp ! i in
                     \<not> IS_NOEVENT (event candidate) \<and> KEYEQ (ev_key (event candidate)) (ev_key (event (tapping_key tp))) \<and>
                     \<not> pressed_rec candidate \<and> WITHIN_TAPPING_TERM (event candidate) tp)
               (waiting_indices tp) of
          None \<Rightarrow> (tp, s)
        | Some i \<Rightarrow>
            let (k, s') = op_process_record ops ((tapping_key tp)\<lparr>tap_count := 1\<rparr>) s in
            (tp\<lparr>tapping_key := k, waiting_buffer := (waiting_buffer tp)[i := (waiting_buffer tp ! i)\<lparr>tap_count := 1\<rparr>]\<rparr>, s'))"

subsection \<open>The state machine\<close>

text \<open>
  Each part returns whether the event is processed or consumed (the alternative is to keep it waiting), the record as
  written back, and the new state.
\<close>

type_synonym 's outcome = "bool \<times> keyrecord_t \<times> tapping \<times> 's"

definition start_tapping :: "'s tap_ops \<Rightarrow> keyrecord_t \<Rightarrow> tapping \<Rightarrow> 's \<Rightarrow> 's outcome" where
  "start_tapping ops r tp s =
     (let (tp', s') = waiting_buffer_scan_tap ops (tp\<lparr>tapping_key := r\<rparr>) s in (True, r, tp', s'))"

definition pass_through :: "'s tap_ops \<Rightarrow> keyrecord_t \<Rightarrow> tapping \<Rightarrow> 's \<Rightarrow> 's outcome" where
  "pass_through ops r tp s = (let (r', s') = op_process_record ops r s in (True, r', tp, s'))"

definition tapping_idle :: "'s tap_ops \<Rightarrow> keyrecord_t \<Rightarrow> tapping \<Rightarrow> 's \<Rightarrow> 's outcome" where
  "tapping_idle ops r tp s =
     (if IS_NOEVENT (event r) then (True, r, tp, s)
      else if pressed_rec r \<and> is_tap_record ops r s then start_tapping ops r tp s
      else pass_through ops r tp s)"

text \<open>A release that has to wait although its press is already processed: a modifier or a layer is kept until the tap ends.\<close>

definition release_waits :: "action_t \<Rightarrow> nat \<Rightarrow> bool" where
  "release_waits a taps \<longleftrightarrow>
     (if kind_id a = ACT_MODS \<or> kind_id a = ACT_RMODS then
        (key_mods a \<noteq> 0 \<and> key_code a = 0) \<or> IS_MODIFIER_KEYCODE (key_code a)
      else if kind_id a = ACT_MODS_TAP \<or> kind_id a = ACT_RMODS_TAP then
        (key_mods a \<noteq> 0 \<and> taps = 0) \<or> IS_MODIFIER_KEYCODE (key_code a)
      else if kind_id a = ACT_LAYER_TAP \<or> kind_id a = ACT_LAYER_TAP_EXT then
        layer_tap_code a \<le> OP_TAP_TOGGLE - 1 \<or> layer_tap_code a = OP_ON_OFF \<or> layer_tap_code a = OP_OFF_ON \<or>
        layer_tap_code a = OP_SET_CLEAR
      else False)"

definition tapping_undecided :: "'s tap_ops \<Rightarrow> keyrecord_t \<Rightarrow> tapping \<Rightarrow> 's \<Rightarrow> 's outcome" where
  "tapping_undecided ops r tp s =
     (if IS_TAPPING_RECORD r tp \<and> \<not> pressed_rec r then
        let (k, s') = op_process_record ops ((tapping_key tp)\<lparr>tap_count := 1\<rparr>) s in
        (False, r\<lparr>tap_count := tap_count k, tap_interrupted := tap_interrupted k\<rparr>, tp\<lparr>tapping_key := k\<rparr>, s')
      else if \<not> pressed_rec r \<and> \<not> waiting_buffer_typed (event r) tp then
        if release_waits (op_get_action ops (ev_key (event r)) s) (tap_count r) then (False, r, tp, s)
        else pass_through ops r tp s
      else if pressed_rec r then (False, r, tp\<lparr>tapping_key := (tapping_key tp)\<lparr>tap_interrupted := True\<rparr>\<rparr>, s)
      else (False, r, tp, s))"

definition release_last_tap :: "'s tap_ops \<Rightarrow> u16 \<Rightarrow> tapping \<Rightarrow> 's \<Rightarrow> 's" where
  "release_last_tap ops now tp s =
     (if tap_count (tapping_key tp) > 1 then
        snd (op_process_record ops ((tapping_key tp)\<lparr>event := (event (tapping_key tp))\<lparr>ev_time := now, ev_pressed := False\<rparr>\<rparr>) s)
      else s)"

text \<open>The tapping key is held down after a tap of it was registered; \<open>timeout\<close> when the tapping term is over.\<close>

definition tapping_tapped :: "'s tap_ops \<Rightarrow> bool \<Rightarrow> keyrecord_t \<Rightarrow> tapping \<Rightarrow> 's \<Rightarrow> 's outcome" where
  "tapping_tapped ops timeout r tp s =
     (if IS_TAPPING_RECORD r tp \<and> \<not> pressed_rec r then
        let k = tapping_key tp;
            (r', s') = op_process_record ops (r\<lparr>tap_count := tap_count k, tap_interrupted := tap_interrupted k\<rparr>) s in
        (True, r', tp\<lparr>tapping_key := if timeout then zero_record else r'\<rparr>, s')
      else if is_tap_record ops r s \<and> pressed_rec r then
        start_tapping ops r tp (release_last_tap ops (ev_time (event r)) tp s)
      else pass_through ops r tp s)"

definition tapping_released :: "'s tap_ops \<Rightarrow> keyrecord_t \<Rightarrow> tapping \<Rightarrow> 's \<Rightarrow> 's outcome" where
  "tapping_released ops r tp s =
     (if pressed_rec r then
        if IS_TAPPING_RECORD r tp then
          let k = tapping_key tp in
          if WITHIN_QUICK_TAP_TERM (event r) tp \<and> \<not> tap_interrupted k \<and> tap_count k > 0 then
            let (r', s') = op_process_record ops
                  (r\<lparr>tap_count := (if tap_count k < 15 then tap_count k + 1 else tap_count k), tap_interrupted := tap_interrupted k\<rparr>) s in
            (True, r', tp\<lparr>tapping_key := r'\<rparr>, s')
          else (True, r, tp\<lparr>tapping_key := r\<rparr>, s)
        else if is_tap_record ops r s then start_tapping ops r tp s
        else pass_through ops r (tp\<lparr>tapping_key := (tapping_key tp)\<lparr>tap_interrupted := True\<rparr>\<rparr>) s
      else pass_through ops r tp s)"

definition process_tapping :: "'s tap_ops \<Rightarrow> keyrecord_t \<Rightarrow> tapping \<Rightarrow> 's \<Rightarrow> 's outcome" where
  "process_tapping ops r tp s =
     (if IS_NOEVENT (event (tapping_key tp)) then tapping_idle ops r tp s
      else if pressed_rec (tapping_key tp) then
        if WITHIN_TAPPING_TERM (event r) tp then
          if IS_NOEVENT (event r) then (True, r, tp, s)
          else if tap_count (tapping_key tp) = 0 then tapping_undecided ops r tp s
          else tapping_tapped ops False r tp s
        else if tap_count (tapping_key tp) = 0 then
          (False, r, tp\<lparr>tapping_key := zero_record\<rparr>, snd (op_process_record ops (tapping_key tp) s))
        else if IS_NOEVENT (event r) then (True, r, tp, s)
        else tapping_tapped ops True r tp s
      else if WITHIN_TAPPING_TERM (event r) tp then
        if IS_NOEVENT (event r) then (True, r, tp, s) else tapping_released ops r tp s
      else (False, r, tp\<lparr>tapping_key := zero_record\<rparr>, s))"

lemmas tapping_parts = start_tapping_def pass_through_def tapping_idle_def tapping_undecided_def tapping_tapped_def
  tapping_released_def

lemma scan_tap_ring:
  "waiting_buffer_scan_tap ops tp s = (tp', s') \<Longrightarrow>
     waiting_buffer_head tp' = waiting_buffer_head tp \<and> waiting_buffer_tail tp' = waiting_buffer_tail tp \<and>
     length (waiting_buffer tp') = length (waiting_buffer tp)"
  by (auto simp: waiting_buffer_scan_tap_def Let_def split: if_splits option.splits prod.splits)

lemma start_tapping_ring:
  "start_tapping ops r tp s = (d, r', tp', s') \<Longrightarrow>
     waiting_buffer_head tp' = waiting_buffer_head tp \<and> waiting_buffer_tail tp' = waiting_buffer_tail tp \<and>
     length (waiting_buffer tp') = length (waiting_buffer tp)"
  by (auto simp: start_tapping_def split: prod.splits dest!: scan_tap_ring)

lemma process_tapping_ring:
  assumes "process_tapping ops r tp s = (d, r', tp', s')"
  shows "waiting_buffer_head tp' = waiting_buffer_head tp \<and> waiting_buffer_tail tp' = waiting_buffer_tail tp \<and>
    length (waiting_buffer tp') = length (waiting_buffer tp)"
  using assms
  by (auto simp: process_tapping_def tapping_idle_def tapping_undecided_def tapping_tapped_def tapping_released_def
      pass_through_def Let_def split: if_splits prod.splits dest: start_tapping_ring)

subsection \<open>One event\<close>

text \<open>
  The loop over the waiting records: it goes on while they are processed. Nothing in it moves the head, so it makes
  at most seven rounds; the first argument counts them down, and \<open>waiting_loop_unfold\<close> below is the equation of
  the C loop.
\<close>

fun process_waiting :: "nat \<Rightarrow> 's tap_ops \<Rightarrow> tapping \<Rightarrow> 's \<Rightarrow> tapping \<times> 's" where
  "process_waiting 0 ops tp s = (tp, s)"
| "process_waiting (Suc n) ops tp s =
     (if waiting_buffer_tail tp = waiting_buffer_head tp then (tp, s)
      else
        let i = waiting_buffer_tail tp; (d, r, tp1, s1) = process_tapping ops (waiting_buffer tp ! i) tp s;
            tp2 = tp1\<lparr>waiting_buffer := (waiting_buffer tp1)[i := r]\<rparr> in
        if d then process_waiting n ops (tp2\<lparr>waiting_buffer_tail := (i + 1) mod WAITING_BUFFER_SIZE\<rparr>) s1 else (tp2, s1))"

definition waiting_loop :: "'s tap_ops \<Rightarrow> tapping \<Rightarrow> 's \<Rightarrow> tapping \<times> 's" where
  "waiting_loop = process_waiting WAITING_BUFFER_SIZE"

definition enqueue_or_clear :: "'s tap_ops \<Rightarrow> keyrecord_t \<Rightarrow> tapping \<Rightarrow> 's \<Rightarrow> tapping \<times> 's" where
  "enqueue_or_clear ops r tp s =
     (case waiting_buffer_enq r tp of
        (True, tp') \<Rightarrow> (tp', s)
      | (False, tp') \<Rightarrow> (waiting_buffer_clear (tp'\<lparr>tapping_key := zero_record\<rparr>), op_clear_keyboard ops s))"

definition action_tapping_process :: "'s tap_ops \<Rightarrow> keyrecord_t \<Rightarrow> tapping \<Rightarrow> 's \<Rightarrow> tapping \<times> 's" where
  "action_tapping_process ops r tp s =
     (let (d, r1, tp1, s1) = process_tapping ops r tp s;
          (tp2, s2) = (if d then (tp1, s1) else enqueue_or_clear ops r1 tp1 s1) in
      waiting_loop ops tp2 s2)"

section \<open>The ring is a queue\<close>

text \<open>The records that wait, oldest first.\<close>

definition waiting :: "tapping \<Rightarrow> keyrecord_t list" where
  "waiting tp = map (\<lambda>i. waiting_buffer tp ! i) (waiting_indices tp)"

definition ring_ok :: "tapping \<Rightarrow> bool" where
  "ring_ok tp \<longleftrightarrow> length (waiting_buffer tp) = 8 \<and> waiting_buffer_head tp < 8 \<and> waiting_buffer_tail tp < 8"

lemma nth_update_at: "j < length xs \<Longrightarrow> xs[i := x] ! j = (if j = i then x else xs ! j)"
  by (cases "j = i") simp_all

lemma less_8_cases: "(n :: nat) < 8 \<longleftrightarrow> n = 0 \<or> n = 1 \<or> n = 2 \<or> n = 3 \<or> n = 4 \<or> n = 5 \<or> n = 6 \<or> n = 7"
  by auto

lemma upt_8:
  "[0..<Suc 0] = [0]" "[0..<2] = [0, Suc 0]" "[0..<3] = [0, 1, 2 :: nat]" "[0..<4] = [0, 1, 2, 3 :: nat]"
  "[0..<5] = [0, 1, 2, 3, 4 :: nat]" "[0..<6] = [0, 1, 2, 3, 4, 5 :: nat]" "[0..<7] = [0, 1, 2, 3, 4, 5, 6 :: nat]"
  by (simp_all add: eval_nat_numeral)

lemma length_waiting: "length (waiting tp) = (waiting_buffer_head tp + 8 - waiting_buffer_tail tp) mod 8"
  by (simp add: waiting_def waiting_indices_def hw_defs)

lemma ring_enq:
  assumes "ring_ok tp" "\<not> IS_NOEVENT (event r)"
  shows "if length (waiting tp) < 7
    then \<exists>tp'. waiting_buffer_enq r tp = (True, tp') \<and> ring_ok tp' \<and> waiting tp' = waiting tp @ [r] \<and> tapping_key tp' = tapping_key tp
    else waiting_buffer_enq r tp = (False, tp)"
proof -
  have h: "waiting_buffer_head tp < 8" and t: "waiting_buffer_tail tp < 8" using assms(1) by (simp_all add: ring_ok_def)
  obtain x0 x1 x2 x3 x4 x5 x6 x7 where xs: "waiting_buffer tp = [x0, x1, x2, x3, x4, x5, x6, x7]"
    using assms(1) unfolding ring_ok_def by (auto simp: length_Suc_conv eval_nat_numeral)
  show ?thesis
    using h t unfolding less_8_cases
    by (elim disjE) (simp_all add: length_waiting waiting_buffer_enq_def assms(2) hw_defs ring_ok_def waiting_def
        waiting_indices_def upt_8 xs)
qed

lemma ring_deq:
  assumes "ring_ok tp" "waiting tp = r # rs"
  shows "waiting_buffer_tail tp \<noteq> waiting_buffer_head tp" "waiting_buffer tp ! waiting_buffer_tail tp = r"
    "ring_ok (tp\<lparr>waiting_buffer_tail := (waiting_buffer_tail tp + 1) mod 8\<rparr>)"
    "waiting (tp\<lparr>waiting_buffer_tail := (waiting_buffer_tail tp + 1) mod 8\<rparr>) = rs"
proof -
  have h: "waiting_buffer_head tp < 8" and t: "waiting_buffer_tail tp < 8" and "length (waiting_buffer tp) = 8"
    using assms(1) by (simp_all add: ring_ok_def)
  then obtain x0 x1 x2 x3 x4 x5 x6 x7 where xs: "waiting_buffer tp = [x0, x1, x2, x3, x4, x5, x6, x7]"
    by (auto simp: length_Suc_conv eval_nat_numeral)
  show "waiting_buffer_tail tp \<noteq> waiting_buffer_head tp" "waiting_buffer tp ! waiting_buffer_tail tp = r"
    "waiting (tp\<lparr>waiting_buffer_tail := (waiting_buffer_tail tp + 1) mod 8\<rparr>) = rs"
    using h t assms(2) unfolding less_8_cases
    by (elim disjE; simp add: waiting_def waiting_indices_def upt_8 xs hw_defs; fail)+
  show "ring_ok (tp\<lparr>waiting_buffer_tail := (waiting_buffer_tail tp + 1) mod 8\<rparr>)"
    using assms(1) by (simp add: ring_ok_def)
qed

lemma ring_rotate:
  assumes "ring_ok tp" "waiting tp = r # rs"
  shows "waiting (tp\<lparr>waiting_buffer := (waiting_buffer tp)[waiting_buffer_tail tp := x]\<rparr>) = x # rs"
    "waiting (tp\<lparr>waiting_buffer := (waiting_buffer tp)[waiting_buffer_tail tp := x],
                waiting_buffer_tail := (waiting_buffer_tail tp + 1) mod 8\<rparr>) = rs"
proof -
  have h: "waiting_buffer_head tp < 8" and t: "waiting_buffer_tail tp < 8" and "length (waiting_buffer tp) = 8"
    using assms(1) by (simp_all add: ring_ok_def)
  then obtain x0 x1 x2 x3 x4 x5 x6 x7 where xs: "waiting_buffer tp = [x0, x1, x2, x3, x4, x5, x6, x7]"
    by (auto simp: length_Suc_conv eval_nat_numeral)
  show "waiting (tp\<lparr>waiting_buffer := (waiting_buffer tp)[waiting_buffer_tail tp := x]\<rparr>) = x # rs"
    "waiting (tp\<lparr>waiting_buffer := (waiting_buffer tp)[waiting_buffer_tail tp := x],
                waiting_buffer_tail := (waiting_buffer_tail tp + 1) mod 8\<rparr>) = rs"
    using h t assms(2) unfolding less_8_cases
    by (elim disjE; simp add: waiting_def waiting_indices_def upt_8 xs hw_defs; fail)+
qed

lemma waiting_cong:
  "waiting_buffer_head a = waiting_buffer_head b \<Longrightarrow> waiting_buffer_tail a = waiting_buffer_tail b \<Longrightarrow>
     waiting_buffer a = waiting_buffer b \<Longrightarrow> waiting a = waiting b"
  by (simp add: waiting_def waiting_indices_def)

subsection \<open>The loop over it ends\<close>

lemma loop_empty: "waiting_buffer_head tp = waiting_buffer_tail tp \<Longrightarrow> process_waiting n ops tp s = (tp, s)"
  by (cases n) simp_all

lemma ring_advance:
  "h < 8 \<Longrightarrow> t < 8 \<Longrightarrow> h \<noteq> t \<Longrightarrow> (h + 8 - t) mod 8 = Suc ((h + 8 - (t + 1) mod 8) mod (8 :: nat))"
  unfolding less_8_cases by (elim disjE) simp_all

lemma process_waiting_enough:
  assumes "ring_ok tp" "length (waiting tp) \<le> n" "length (waiting tp) \<le> m"
  shows "process_waiting n ops tp s = process_waiting m ops tp s"
  using assms
proof (induction n arbitrary: m tp s)
  case 0
  then have "waiting_buffer_head tp = waiting_buffer_tail tp"
    by (auto simp: length_waiting ring_ok_def less_8_cases)
  then show ?case by (simp only: loop_empty)
next
  case (Suc n)
  show ?case
  proof (cases "waiting_buffer_head tp = waiting_buffer_tail tp")
    case False
    let ?t = "waiting_buffer_tail tp"
    obtain d r tp1 s1 where p: "process_tapping ops (waiting_buffer tp ! ?t) tp s = (d, r, tp1, s1)"
      by (cases "process_tapping ops (waiting_buffer tp ! ?t) tp s") blast
    define tp3 where "tp3 = tp1\<lparr>waiting_buffer := (waiting_buffer tp1)[?t := r], waiting_buffer_tail := (?t + 1) mod WAITING_BUFFER_SIZE\<rparr>"
    note ring = process_tapping_ring [OF p]
    have ok: "ring_ok tp3" using Suc.prems(1) ring by (simp add: tp3_def ring_ok_def hw_defs)
    have l: "length (waiting tp) = Suc (length (waiting tp3))"
      using Suc.prems(1) ring False ring_advance [of "waiting_buffer_head tp" ?t]
      by (simp add: length_waiting tp3_def ring_ok_def hw_defs)
    obtain m' where m: "m = Suc m'" using Suc.prems(3) l by (cases m) auto
    have "process_waiting n ops tp3 s1 = process_waiting m' ops tp3 s1"
      by (rule Suc.IH [OF ok]) (use Suc.prems(2,3) l m in simp_all)
    then show ?thesis using False p by (simp add: m Let_def tp3_def)
  qed (simp only: loop_empty)
qed

text \<open>The equation of the C loop.\<close>

lemma waiting_loop_unfold:
  assumes "ring_ok tp"
  shows "waiting_loop ops tp s =
     (if waiting_buffer_tail tp = waiting_buffer_head tp then (tp, s)
      else
        let i = waiting_buffer_tail tp; (d, r, tp1, s1) = process_tapping ops (waiting_buffer tp ! i) tp s;
            tp2 = tp1\<lparr>waiting_buffer := (waiting_buffer tp1)[i := r]\<rparr> in
        if d then waiting_loop ops (tp2\<lparr>waiting_buffer_tail := (i + 1) mod WAITING_BUFFER_SIZE\<rparr>) s1 else (tp2, s1))"
proof -
  have l: "length (waiting tp) \<le> 8" by (simp add: length_waiting)
  have "waiting_loop ops tp s = process_waiting (Suc WAITING_BUFFER_SIZE) ops tp s"
    unfolding waiting_loop_def by (rule process_waiting_enough [OF assms]) (use l in \<open>simp_all add: hw_defs\<close>)
  then show ?thesis unfolding waiting_loop_def process_waiting.simps(2) .
qed

section \<open>Every press is processed once or still in hand\<close>

text \<open>A ghost record of what the state machine calls.\<close>

datatype call = Processed keyrecord_t | Cleared

definition logged :: "'s tap_ops \<Rightarrow> ('s \<times> call list) tap_ops" where
  "logged ops =
     \<lparr>op_process_record = (\<lambda>r (s, l). let (r', s') = op_process_record ops r s in (r', s', l @ [Processed r])),
      op_get_action = (\<lambda>k (s, l). op_get_action ops k s),
      op_clear_keyboard = (\<lambda>(s, l). (op_clear_keyboard ops s, l @ [Cleared]))\<rparr>"

definition processed :: "call list \<Rightarrow> keyrecord_t list" where
  "processed l = concat (map (\<lambda>c. case c of Processed r \<Rightarrow> [r] | Cleared \<Rightarrow> []) l)"

lemma processed_simps [simp]:
  "processed [] = []" "processed (l @ l') = processed l @ processed l'" "processed [Processed r] = [r]" "processed [Cleared] = []"
  by (simp_all add: processed_def)

definition presses :: "keyevent_t list \<Rightarrow> keyevent_t multiset" where
  "presses evs = filter_mset ev_pressed (mset evs)"

definition releases :: "keyevent_t list \<Rightarrow> keyevent_t multiset" where
  "releases evs = filter_mset (\<lambda>ev. \<not> ev_pressed ev) (mset evs)"

lemma presses_simps [simp]:
  "presses [] = {#}" "presses (xs @ ys) = presses xs + presses ys"
  "presses (ev # evs) = (if ev_pressed ev then {#ev#} else {#}) + presses evs"
  by (simp_all add: presses_def)

lemma releases_simps [simp]:
  "releases [] = {#}" "releases (xs @ ys) = releases xs + releases ys"
  "releases (ev # evs) = (if ev_pressed ev then {#} else {#ev#}) + releases evs"
  by (simp_all add: releases_def)

text \<open>The press of a tapping key nothing is decided about yet.\<close>

definition undecided :: "tapping \<Rightarrow> keyevent_t list" where
  "undecided tp =
     (let k = tapping_key tp in
      if \<not> IS_NOEVENT (event k) \<and> pressed_rec k \<and> tap_count k = 0 then [event k] else [])"

definition in_hand :: "tapping \<Rightarrow> keyevent_t list" where
  "in_hand tp = undecided tp @ map event (waiting tp)"

definition fresh :: "keyrecord_t \<Rightarrow> bool" where
  "fresh r \<longleftrightarrow> (pressed_rec r \<longrightarrow> tap_count r = 0)"

definition tapping_ok :: "tapping \<Rightarrow> bool" where
  "tapping_ok tp \<longleftrightarrow> ring_ok tp \<and> (\<forall>r\<in>set (waiting tp). \<not> IS_NOEVENT (event r) \<and> fresh r)"

text \<open>
  The account of a part of a run: from the calls \<open>l\<close> and the events in hand \<open>h\<close>, with \<open>inp\<close> coming in, to \<open>l'\<close> and
  \<open>h'\<close>. Presses are conserved; no release is lost, though one may be added for a key tapped again.
\<close>

definition account :: "call list \<Rightarrow> keyevent_t list \<Rightarrow> keyevent_t list \<Rightarrow> call list \<Rightarrow> keyevent_t list \<Rightarrow> bool" where
  "account l h inp l' h' \<longleftrightarrow>
     presses (map event (processed l')) + presses h' = presses (map event (processed l)) + presses h + presses inp \<and>
     releases (map event (processed l)) + releases h + releases inp \<subseteq># releases (map event (processed l')) + releases h' \<and>
     (Cleared \<in> set l' \<longleftrightarrow> Cleared \<in> set l)"

lemma account_refl: "account l h [] l h"
  by (simp add: account_def)

lemma account_trans:
  assumes "account l h i l' h'" "account l' h' j l'' h''"
  shows "account l h (i @ j) l'' h''"
proof -
  have "releases (map event (processed l)) + releases h + releases i + releases j
      \<subseteq># releases (map event (processed l')) + releases h' + releases j"
    using assms(1) unfolding account_def by (meson subset_mset.add_right_mono)
  also have "\<dots> \<subseteq># releases (map event (processed l'')) + releases h''"
    using assms(2) unfolding account_def by blast
  finally show ?thesis
    using assms unfolding account_def by (auto simp: add.assoc add.left_commute add.commute)
qed

lemma account_frame: "account l h i l' h' \<Longrightarrow> account l (h @ k) i l' (h' @ k)"
  unfolding account_def by (auto simp: ac_simps intro: subset_mset.add_left_mono)

definition step_input :: "bool \<Rightarrow> keyrecord_t \<Rightarrow> keyevent_t list" where
  "step_input d r = (if d \<and> \<not> IS_NOEVENT (event r) then [event r] else [])"

text \<open>
  What the state machine relies on: processing a record changes the record at most by turning it into a release
  (\<^verbatim>\<open>process_action\<close> does so when a one-shot layer ends), and \<open>log\<close> lists the calls.
\<close>

locale tap_host =
  fixes ops :: "'s tap_ops" and log :: "'s \<Rightarrow> call list"
  assumes record_kept: "fst (op_process_record ops r s) = r \<or>
      fst (op_process_record ops r s) = r\<lparr>event := (event r)\<lparr>ev_pressed := False\<rparr>\<rparr>"
    and log_process: "log (snd (op_process_record ops r s)) = log s @ [Processed r]"
    and log_clear: "log (op_clear_keyboard ops s) = log s @ [Cleared]"
begin

lemma process_kept:
  assumes "op_process_record ops r s = (r', s')"
  shows "log s' = log s @ [Processed r]" "tap_count r' = tap_count r" "tap_interrupted r' = tap_interrupted r"
    "ev_type (event r') = ev_type (event r)" "ev_pressed (event r') \<Longrightarrow> r' = r"
  using record_kept [of r s] log_process [of r s] assms by auto

lemma process_events [simp]:
  "op_process_record ops r s = (r', s') \<Longrightarrow> map event (processed (log s')) = map event (processed (log s)) @ [event r]"
  by (simp add: process_kept)

lemma process_calls [simp]:
  "op_process_record ops r s = (r', s') \<Longrightarrow> Cleared \<in> set (log s') \<longleftrightarrow> Cleared \<in> set (log s)"
  by (simp add: process_kept)

lemma scan_tap_waiting:
  assumes "tapping_ok tp" "waiting_buffer_scan_tap ops tp s = (tp', s')"
  shows "map event (waiting tp') = map event (waiting tp)" "tapping_ok tp'"
proof -
  have ring: "waiting_indices tp' = waiting_indices tp" using scan_tap_ring [OF assms(2)] by (simp add: waiting_indices_def)
  have len: "i < length (waiting_buffer tp)" if "i \<in> set (waiting_indices tp)" for i
    using that assms(1) by (auto simp: waiting_indices_def tapping_ok_def ring_ok_def hw_defs)
  have ev: "event (waiting_buffer tp' ! i) = event (waiting_buffer tp ! i)" if "i \<in> set (waiting_indices tp)" for i
    using assms(2) len [OF that]
    by (auto simp: waiting_buffer_scan_tap_def Let_def nth_update_at split: if_splits option.splits prod.splits)
  have fr: "fresh (waiting_buffer tp ! i) \<Longrightarrow> fresh (waiting_buffer tp' ! i)" if "i \<in> set (waiting_indices tp)" for i
    using assms(2) len [OF that]
    by (auto simp: waiting_buffer_scan_tap_def Let_def nth_update_at fresh_def find_Some_iff
        split: if_splits option.splits prod.splits)
  show "map event (waiting tp') = map event (waiting tp)" by (simp add: waiting_def ring ev)
  show "tapping_ok tp'"
    using assms(1) scan_tap_ring [OF assms(2)] fr ev by (auto simp: tapping_ok_def ring_ok_def waiting_def ring)
qed

lemma scan_tap_account:
  assumes "\<not> IS_NOEVENT (event (tapping_key tp))" "waiting_buffer_scan_tap ops tp s = (tp', s')"
  shows "account (log s) (undecided tp) [] (log s') (undecided tp')"
  using assms
  by (auto simp: waiting_buffer_scan_tap_def account_def undecided_def Let_def process_kept split: if_splits option.splits prod.splits)

text \<open>What every step of the state machine promises.\<close>

definition step_ok :: "keyrecord_t \<Rightarrow> tapping \<Rightarrow> 's \<Rightarrow> bool \<Rightarrow> keyrecord_t \<Rightarrow> tapping \<Rightarrow> 's \<Rightarrow> bool" where
  "step_ok r tp s d r' tp' s' \<longleftrightarrow>
     account (log s) (undecided tp) (step_input d r) (log s') (undecided tp') \<and> tapping_ok tp' \<and>
     map event (waiting tp') = map event (waiting tp) \<and> (\<not> d \<longrightarrow> event r' = event r \<and> fresh r')"

lemma tapping_key_change [simp]:
  "waiting (tp\<lparr>tapping_key := k\<rparr>) = waiting tp" "tapping_ok (tp\<lparr>tapping_key := k\<rparr>) = tapping_ok tp"
  by (simp_all add: tapping_ok_def ring_ok_def waiting_def waiting_indices_def)

lemma undecided_zero [simp]: "undecided (tp\<lparr>tapping_key := zero_record\<rparr>) = []"
  by (simp add: undecided_def zero_record_def IS_NOEVENT_def)

lemma start_tapping_step:
  assumes "start_tapping ops r tp s = (d, r', tp', s')" "tapping_ok tp" "undecided tp = []" "fresh r" "pressed_rec r"
    "\<not> IS_NOEVENT (event r)"
  shows "step_ok r tp s d r' tp' s'"
proof -
  have scan: "waiting_buffer_scan_tap ops (tp\<lparr>tapping_key := r\<rparr>) s = (tp', s')" and [simp]: "d" "r' = r"
    using assms(1) by (auto simp: start_tapping_def split: prod.splits)
  have "undecided (tp\<lparr>tapping_key := r\<rparr>) = [event r]" using assms by (simp add: undecided_def fresh_def)
  then have "account (log s) [event r] [] (log s') (undecided tp')"
    using scan_tap_account [OF _ scan] assms(6) by simp
  then have "account (log s) [] [event r] (log s') (undecided tp')" using assms(5) by (simp add: account_def)
  then show ?thesis using scan_tap_waiting [OF _ scan] assms by (simp add: step_ok_def step_input_def)
qed

lemma pass_through_step:
  assumes "pass_through ops r tp s = (d, r', tp', s')" "tapping_ok tp" "\<not> IS_NOEVENT (event r)"
  shows "step_ok r tp s d r' tp' s'"
  using assms
  by (auto simp: pass_through_def step_ok_def step_input_def account_def split: prod.splits)

lemma tapping_idle_step:
  assumes "tapping_idle ops r tp s = (d, r', tp', s')" "tapping_ok tp" "IS_NOEVENT (event (tapping_key tp))" "fresh r"
  shows "step_ok r tp s d r' tp' s'"
proof -
  have u: "undecided tp = []" using assms(3) by (simp add: undecided_def)
  show ?thesis
    using assms(1) start_tapping_step [of r tp s d r' tp' s'] pass_through_step [of r tp s d r' tp' s'] assms(2-4) u
    by (auto simp: tapping_idle_def step_ok_def step_input_def account_refl split: if_splits)
qed

lemma tapping_undecided_cases:
  "IS_TAPPING_RECORD r tp \<and> \<not> pressed_rec r \<or> tapping_undecided ops r tp s = (False, r, tp, s) \<or>
   tapping_undecided ops r tp s = pass_through ops r tp s \<or>
   tapping_undecided ops r tp s = (False, r, tp\<lparr>tapping_key := (tapping_key tp)\<lparr>tap_interrupted := True\<rparr>\<rparr>, s)"
  by (simp add: tapping_undecided_def)

lemma tapping_undecided_step:
  assumes "tapping_undecided ops r tp s = (d, r', tp', s')" "tapping_ok tp" "undecided tp = [event (tapping_key tp)]" "fresh r"
    "\<not> IS_NOEVENT (event r)"
  shows "step_ok r tp s d r' tp' s'"
proof -
  have k: "\<not> IS_NOEVENT (event (tapping_key tp))" "pressed_rec (tapping_key tp)" "tap_count (tapping_key tp) = 0"
    using assms(3) by (auto simp: undecided_def Let_def split: if_splits)
  consider (tap) "IS_TAPPING_RECORD r tp" "\<not> pressed_rec r" | (keep) "tapping_undecided ops r tp s = (False, r, tp, s)"
    | (pass) "tapping_undecided ops r tp s = pass_through ops r tp s"
    | (mark) "tapping_undecided ops r tp s = (False, r, tp\<lparr>tapping_key := (tapping_key tp)\<lparr>tap_interrupted := True\<rparr>\<rparr>, s)"
    using tapping_undecided_cases [of r tp s] by blast
  then show ?thesis
  proof cases
    case tap
    then show ?thesis using assms k
      by (auto simp: tapping_undecided_def step_ok_def step_input_def account_def undecided_def fresh_def process_kept
          split: prod.splits)
  next
    case keep
    then show ?thesis using assms by (simp add: step_ok_def step_input_def account_refl)
  next
    case pass
    then show ?thesis using pass_through_step assms by simp
  next
    case mark
    then show ?thesis using assms k by (auto simp: step_ok_def step_input_def account_def undecided_def)
  qed
qed

lemma release_last_tap_account:
  "account (log s) [] [] (log (release_last_tap ops now tp s)) []"
proof (cases "tap_count (tapping_key tp) > 1")
  case True
  then show ?thesis
    by (cases "op_process_record ops ((tapping_key tp)\<lparr>event := (event (tapping_key tp))\<lparr>ev_time := now, ev_pressed := False\<rparr>\<rparr>) s")
      (simp add: release_last_tap_def account_def)
qed (simp add: release_last_tap_def account_def)

lemma tapping_tapped_step:
  assumes "tapping_tapped ops timeout r tp s = (d, r', tp', s')" "tapping_ok tp" "undecided tp = []" "fresh r"
    "\<not> IS_NOEVENT (event r)"
  shows "step_ok r tp s d r' tp' s'"
proof -
  consider (release) "IS_TAPPING_RECORD r tp" "\<not> pressed_rec r"
    | (start) "pressed_rec r" "start_tapping ops r tp (release_last_tap ops (ev_time (event r)) tp s) = (d, r', tp', s')"
    | (pass) "pass_through ops r tp s = (d, r', tp', s')"
    using assms(1) unfolding tapping_tapped_def by presburger
  then show ?thesis
  proof cases
    case release
    define r1 where "r1 = r\<lparr>tap_count := tap_count (tapping_key tp), tap_interrupted := tap_interrupted (tapping_key tp)\<rparr>"
    have p: "op_process_record ops r1 s = (r', s')" and d: "d"
      and tp': "tp' = tp\<lparr>tapping_key := if timeout then zero_record else r'\<rparr>"
      using assms(1) release by (auto simp: tapping_tapped_def Let_def r1_def split: prod.splits)
    have "\<not> pressed_rec r'" using process_kept(5) [OF p] release by (auto simp: r1_def)
    then have "undecided tp' = []" by (simp add: tp' undecided_def zero_record_def IS_NOEVENT_def)
    then show ?thesis using assms process_events [OF p] process_calls [OF p] d tp' release
      by (simp add: step_ok_def step_input_def account_def r1_def)
  next
    case start
    from start_tapping_step [OF this(2) assms(2-4) this(1) assms(5)]
    show ?thesis using account_trans [OF release_last_tap_account] assms(3) unfolding step_ok_def by fastforce
  next
    case pass
    then show ?thesis using pass_through_step assms by simp
  qed
qed

lemma tapping_released_cases:
  "pressed_rec r \<and> tap_count (tapping_key tp) > 0 \<and>
     (\<exists>n i. n > 0 \<and> tapping_released ops r tp s =
        (let (r', s') = op_process_record ops (r\<lparr>tap_count := n, tap_interrupted := i\<rparr>) s in (True, r', tp\<lparr>tapping_key := r'\<rparr>, s'))) \<or>
   pressed_rec r \<and> tapping_released ops r tp s = (True, r, tp\<lparr>tapping_key := r\<rparr>, s) \<or>
   pressed_rec r \<and> tapping_released ops r tp s = start_tapping ops r tp s \<or>
   tapping_released ops r tp s = pass_through ops r (tp\<lparr>tapping_key := (tapping_key tp)\<lparr>tap_interrupted := True\<rparr>\<rparr>) s \<or>
   tapping_released ops r tp s = pass_through ops r tp s"
proof (cases "pressed_rec r \<and> IS_TAPPING_RECORD r tp \<and> WITHIN_QUICK_TAP_TERM (event r) tp \<and>
    \<not> tap_interrupted (tapping_key tp) \<and> tap_count (tapping_key tp) > 0")
  case True
  then have "tapping_released ops r tp s =
      (let (r', s') = op_process_record ops
           (r\<lparr>tap_count := (if tap_count (tapping_key tp) < 15 then tap_count (tapping_key tp) + 1 else tap_count (tapping_key tp)),
              tap_interrupted := tap_interrupted (tapping_key tp)\<rparr>) s in (True, r', tp\<lparr>tapping_key := r'\<rparr>, s'))"
    unfolding tapping_released_def Let_def by simp
  moreover have "(if tap_count (tapping_key tp) < 15 then tap_count (tapping_key tp) + 1 else tap_count (tapping_key tp)) > 0"
    using True by simp
  ultimately show ?thesis using True by blast
next
  case False
  show ?thesis
  proof (cases "pressed_rec r \<and> IS_TAPPING_RECORD r tp")
    case True
    then have "(WITHIN_QUICK_TAP_TERM (event r) tp \<and> \<not> tap_interrupted (tapping_key tp) \<and> tap_count (tapping_key tp) > 0) = False"
      using False by blast
    then have "tapping_released ops r tp s = (True, r, tp\<lparr>tapping_key := r\<rparr>, s)"
      using True unfolding tapping_released_def Let_def by (simp only: if_False if_True simp_thms)
    then show ?thesis using True by blast
  next
    case False
    then show ?thesis
      by (cases "pressed_rec r"; cases "is_tap_record ops r s") (simp_all add: tapping_released_def Let_def)
  qed
qed

lemma tapping_released_step:
  assumes "tapping_released ops r tp s = (d, r', tp', s')" "tapping_ok tp" "\<not> pressed_rec (tapping_key tp)" "fresh r"
    "\<not> IS_NOEVENT (event r)"
  shows "step_ok r tp s d r' tp' s'"
proof -
  have u: "undecided tp = []" using assms(3) by (simp add: undecided_def)
  show ?thesis
    using tapping_released_cases [of r tp s]
  proof (elim disjE conjE exE)
    fix n i
    assume r: "pressed_rec r" "n > 0"
      and eq: "tapping_released ops r tp s =
        (let (r', s') = op_process_record ops (r\<lparr>tap_count := n, tap_interrupted := i\<rparr>) s in (True, r', tp\<lparr>tapping_key := r'\<rparr>, s'))"
    have p: "op_process_record ops (r\<lparr>tap_count := n, tap_interrupted := i\<rparr>) s = (r', s')" and "d" "tp' = tp\<lparr>tapping_key := r'\<rparr>"
      using assms(1) unfolding eq Let_def by (auto split: prod.splits)
    then show ?thesis using assms u r process_kept [OF p] by (auto simp: step_ok_def step_input_def account_def undecided_def)
  next
    assume "pressed_rec r" "tapping_released ops r tp s = (True, r, tp\<lparr>tapping_key := r\<rparr>, s)"
    then show ?thesis using assms u by (auto simp: step_ok_def step_input_def account_def undecided_def fresh_def)
  next
    assume "pressed_rec r" "tapping_released ops r tp s = start_tapping ops r tp s"
    then show ?thesis using start_tapping_step assms u by simp
  next
    assume eq: "tapping_released ops r tp s = pass_through ops r (tp\<lparr>tapping_key := (tapping_key tp)\<lparr>tap_interrupted := True\<rparr>\<rparr>) s"
    have "undecided (tp\<lparr>tapping_key := (tapping_key tp)\<lparr>tap_interrupted := True\<rparr>\<rparr>) = []"
      using assms(3) by (simp add: undecided_def)
    then show ?thesis using pass_through_step [OF assms(1) [unfolded eq]] assms u by (simp add: step_ok_def)
  next
    assume "tapping_released ops r tp s = pass_through ops r tp s"
    then show ?thesis using pass_through_step assms by simp
  qed
qed

lemma process_tapping_cases:
  "IS_NOEVENT (event (tapping_key tp)) \<and> process_tapping ops r tp s = tapping_idle ops r tp s \<or>
   IS_NOEVENT (event r) \<and> process_tapping ops r tp s = (True, r, tp, s) \<or>
   undecided tp = [event (tapping_key tp)] \<and> \<not> IS_NOEVENT (event r) \<and> process_tapping ops r tp s = tapping_undecided ops r tp s \<or>
   undecided tp = [] \<and> \<not> IS_NOEVENT (event r) \<and> (\<exists>timeout. process_tapping ops r tp s = tapping_tapped ops timeout r tp s) \<or>
   undecided tp = [event (tapping_key tp)] \<and> process_tapping ops r tp s =
     (False, r, tp\<lparr>tapping_key := zero_record\<rparr>, snd (op_process_record ops (tapping_key tp) s)) \<or>
   \<not> pressed_rec (tapping_key tp) \<and> \<not> IS_NOEVENT (event r) \<and> process_tapping ops r tp s = tapping_released ops r tp s \<or>
   \<not> pressed_rec (tapping_key tp) \<and> process_tapping ops r tp s = (False, r, tp\<lparr>tapping_key := zero_record\<rparr>, s)"
  by (cases "IS_NOEVENT (event (tapping_key tp))"; cases "pressed_rec (tapping_key tp)"; cases "WITHIN_TAPPING_TERM (event r) tp";
      cases "IS_NOEVENT (event r)"; cases "tap_count (tapping_key tp) = 0")
    (simp_all add: process_tapping_def undecided_def, blast+)

lemma process_tapping_step:
  assumes "process_tapping ops r tp s = (d, r', tp', s')" "tapping_ok tp" "fresh r"
  shows "step_ok r tp s d r' tp' s'"
proof -
  let ?k = "tapping_key tp"
  consider (idle) "IS_NOEVENT (event ?k)" "tapping_idle ops r tp s = (d, r', tp', s')"
    | (tick) "(d, r', tp', s') = (True, r, tp, s)" "IS_NOEVENT (event r)"
    | (undecided) "undecided tp = [event ?k]" "\<not> IS_NOEVENT (event r)" "tapping_undecided ops r tp s = (d, r', tp', s')"
    | (tapped) timeout where "undecided tp = []" "\<not> IS_NOEVENT (event r)" "tapping_tapped ops timeout r tp s = (d, r', tp', s')"
    | (held) "undecided tp = [event ?k]"
        "(d, r', tp', s') = (False, r, tp\<lparr>tapping_key := zero_record\<rparr>, snd (op_process_record ops ?k s))"
    | (released) "\<not> pressed_rec ?k" "\<not> IS_NOEVENT (event r)" "tapping_released ops r tp s = (d, r', tp', s')"
    | (over) "\<not> pressed_rec ?k" "(d, r', tp', s') = (False, r, tp\<lparr>tapping_key := zero_record\<rparr>, s)"
    using process_tapping_cases [of tp r s] unfolding assms(1) by metis
  then show ?thesis
  proof cases
    case idle
    then show ?thesis using tapping_idle_step assms by simp
  next
    case tick
    then show ?thesis using assms by (simp add: step_ok_def step_input_def account_refl)
  next
    case undecided
    then show ?thesis using tapping_undecided_step assms by simp
  next
    case tapped
    then show ?thesis using tapping_tapped_step assms by simp
  next
    case held
    obtain k s1 where p: "op_process_record ops ?k s = (k, s1)" by (cases "op_process_record ops ?k s")
    have "pressed_rec ?k" using held(1) by (auto simp: undecided_def Let_def split: if_splits)
    then show ?thesis using held assms process_events [OF p] process_calls [OF p] p
      by (simp add: step_ok_def step_input_def account_def)
  next
    case released
    then show ?thesis using tapping_released_step assms by simp
  next
    case over
    then have "undecided tp = []" by (simp add: undecided_def)
    then show ?thesis using over assms by (simp add: step_ok_def step_input_def account_refl)
  qed
qed

text \<open>One round of the loop.\<close>

lemma waiting_round:
  assumes "tapping_ok tp" "waiting tp = r # rs"
  obtains d r1 tp1 s1 rs' tp2 tp3 where
    "process_tapping ops r tp s = (d, r1, tp1, s1)" "step_ok r tp s d r1 tp1 s1"
    "\<And>n. process_waiting (Suc n) ops tp s = (if d then process_waiting n ops tp3 s1 else (tp2, s1))"
    "waiting tp2 = r1 # rs'" "waiting tp3 = rs'" "undecided tp2 = undecided tp1" "undecided tp3 = undecided tp1"
    "map event rs' = map event rs" "tapping_ok tp3" "\<not> d \<Longrightarrow> tapping_ok tp2"
proof -
  have ring: "ring_ok tp" and r: "fresh r" "\<not> IS_NOEVENT (event r)"
    using assms by (simp_all add: tapping_ok_def)
  note deq = ring_deq [OF ring assms(2)]
  obtain d r1 tp1 s1 where p: "process_tapping ops r tp s = (d, r1, tp1, s1)"
    by (cases "process_tapping ops r tp s") blast
  note step = process_tapping_step [OF p assms(1) r(1)]
  note same = process_tapping_ring [OF p]
  obtain r0 rs' where w1: "waiting tp1 = r0 # rs'" and e: "event r0 = event r" "map event rs' = map event rs"
    using step assms(2) by (auto simp: step_ok_def)
  have ring1: "ring_ok tp1" using step by (simp add: step_ok_def tapping_ok_def)
  note rot = ring_rotate [OF ring1 w1]
  define tp2 where "tp2 = tp1\<lparr>waiting_buffer := (waiting_buffer tp1)[waiting_buffer_tail tp := r1]\<rparr>"
  define tp3 where "tp3 = tp2\<lparr>waiting_buffer_tail := (waiting_buffer_tail tp + 1) mod 8\<rparr>"
  have w2: "waiting tp2 = r1 # rs'" and w3: "waiting tp3 = rs'" using rot same by (simp_all add: tp2_def tp3_def)
  have u: "undecided tp2 = undecided tp1" "undecided tp3 = undecided tp1" by (simp_all add: tp2_def tp3_def undecided_def)
  have unfold: "process_waiting (Suc n) ops tp s = (if d then process_waiting n ops tp3 s1 else (tp2, s1))" for n
    using deq(1) by (simp add: deq(2) p tp2_def tp3_def Let_def hw_defs)
  have ok3: "tapping_ok tp3"
    using step ring1 w1 w3 by (auto simp: step_ok_def tapping_ok_def ring_ok_def tp2_def tp3_def)
  have ok2: "\<not> d \<Longrightarrow> tapping_ok tp2"
    using step ring1 w1 w2 r e by (auto simp: step_ok_def tapping_ok_def ring_ok_def tp2_def)
  show thesis by (rule that [OF p step unfold w2 w3 u e(2) ok3 ok2])
qed

lemma no_round: "tapping_ok tp \<Longrightarrow> waiting tp = [] \<Longrightarrow> process_waiting n ops tp s = (tp, s)"
  using length_waiting [of tp] by (cases n) (auto simp: tapping_ok_def ring_ok_def less_8_cases)

lemma process_waiting_account:
  assumes "process_waiting n ops tp s = (tp', s')" "tapping_ok tp"
  shows "account (log s) (in_hand tp) [] (log s') (in_hand tp') \<and> tapping_ok tp' \<and> length (waiting tp') \<le> length (waiting tp)"
  using assms
proof (induction n arbitrary: tp s)
  case 0
  then show ?case by (simp add: account_refl)
next
  case (Suc n)
  show ?case
  proof (cases "waiting tp")
    case Nil
    then show ?thesis
      using no_round [OF Suc.prems(2) Nil, of "Suc n" s] Suc.prems by (simp del: process_waiting.simps add: account_refl)
  next
    case (Cons r rs)
    obtain d r1 tp1 s1 rs' tp2 tp3 where
      step: "step_ok r tp s d r1 tp1 s1"
      and unfold: "process_waiting (Suc n) ops tp s = (if d then process_waiting n ops tp3 s1 else (tp2, s1))"
      and w: "waiting tp2 = r1 # rs'" "waiting tp3 = rs'" and u: "undecided tp2 = undecided tp1" "undecided tp3 = undecided tp1"
      and e: "map event rs' = map event rs" and ok: "tapping_ok tp3" "\<not> d \<Longrightarrow> tapping_ok tp2"
      by (rule waiting_round [OF Suc.prems(2) Cons, of s]) blast
    have len: "length rs' = length rs" using e by (metis length_map)
    have r: "\<not> IS_NOEVENT (event r)" using Suc.prems(2) Cons by (simp add: tapping_ok_def)
    show ?thesis
    proof (cases d)
      case True
      have "account (log s) (in_hand tp) [] (log s1) (in_hand tp3)"
        using step account_frame [of "log s" "undecided tp" "[event r]" "log s1" "undecided tp1" "map event rs"] Cons e r True
        by (simp add: step_ok_def step_input_def account_def in_hand_def w u ac_simps)
      moreover have "process_waiting n ops tp3 s1 = (tp', s')" using Suc.prems(1) True unfolding unfold by simp
      note Suc.IH [OF this ok(1)]
      ultimately show ?thesis
        using account_trans [of "log s" "in_hand tp" "[]" "log s1" "in_hand tp3" "[]"] len Cons w by simp
    next
      case False
      have "account (log s) (in_hand tp) [] (log s1) (in_hand tp2)"
        using step account_frame [of "log s" "undecided tp" "[]" "log s1" "undecided tp1" "map event (waiting tp)"] False Cons e
        by (simp add: step_ok_def account_def in_hand_def w u step_input_def)
      then show ?thesis using Suc.prems(1) ok(2) len Cons w False unfolding unfold by simp
    qed
  qed
qed

lemma idle_round:
  assumes "tapping_ok tp" "IS_NOEVENT (event (tapping_key tp))" "waiting tp \<noteq> []" "waiting_loop ops tp s = (tp', s')"
  shows "length (waiting tp') < length (waiting tp)"
proof -
  obtain r rs where c: "waiting tp = r # rs" using assms(3) by (cases "waiting tp") auto
  obtain d r1 tp1 s1 rs' tp2 tp3 where
    p: "process_tapping ops r tp s = (d, r1, tp1, s1)"
    and unfold: "process_waiting (Suc 7) ops tp s = (if d then process_waiting 7 ops tp3 s1 else (tp2, s1))"
    and w: "waiting tp3 = rs'" and e: "map event rs' = map event rs" and ok: "tapping_ok tp3"
    by (rule waiting_round [OF assms(1) c, of s]) blast
  have "d" using p assms(2)
    by (auto simp: process_tapping_def tapping_idle_def start_tapping_def pass_through_def split: if_splits prod.splits)
  then have "process_waiting 7 ops tp3 s1 = (tp', s')" using assms(4) unfold by (simp add: waiting_loop_def hw_defs)
  from process_waiting_account [OF this ok] have "length (waiting tp') \<le> length rs'" using w by simp
  then show ?thesis using c e by (metis length_Cons length_map less_Suc_eq_le)
qed

definition record_input :: "keyrecord_t \<Rightarrow> keyevent_t list" where
  "record_input r = (if IS_NOEVENT (event r) then [] else [event r])"

lemma enqueue_account:
  assumes "enqueue_or_clear ops r tp s = (tp', s')" "tapping_ok tp" "fresh r"
  shows "tapping_ok tp'"
    and "Cleared \<notin> set (log s') \<Longrightarrow> account (log s) (in_hand tp) (record_input r) (log s') (in_hand tp')"
proof -
  have ring: "ring_ok tp" using assms(2) by (simp add: tapping_ok_def)
  have "tapping_ok tp' \<and> (Cleared \<notin> set (log s') \<longrightarrow> account (log s) (in_hand tp) (record_input r) (log s') (in_hand tp'))"
  proof (cases "IS_NOEVENT (event r)")
    case True
    then show ?thesis using assms by (simp add: enqueue_or_clear_def waiting_buffer_enq_def record_input_def account_refl)
  next
    case False
    show ?thesis
    proof (cases "length (waiting tp) < 7")
      case True
      then obtain tp1 where e: "waiting_buffer_enq r tp = (True, tp1)" and t: "ring_ok tp1" "waiting tp1 = waiting tp @ [r]"
          "tapping_key tp1 = tapping_key tp"
        using ring_enq [OF ring False] by auto
      have "tp' = tp1" "s' = s" using assms(1) e by (simp_all add: enqueue_or_clear_def)
      moreover have "undecided tp1 = undecided tp" using t by (simp add: undecided_def)
      ultimately show ?thesis using t assms(2,3) False
        by (auto simp: tapping_ok_def record_input_def in_hand_def account_def)
    next
      case full: False
      then have "waiting_buffer_enq r tp = (False, tp)" using ring_enq [OF ring False] by simp
      then have "s' = op_clear_keyboard ops s" and tp': "tp' = waiting_buffer_clear (tp\<lparr>tapping_key := zero_record\<rparr>)"
        using assms(1) by (simp_all add: enqueue_or_clear_def)
      moreover have "waiting tp' = []" by (simp add: tp' waiting_buffer_clear_def waiting_def waiting_indices_def hw_defs)
      ultimately show ?thesis
        using ring by (simp add: log_clear tapping_ok_def ring_ok_def waiting_buffer_clear_def)
    qed
  qed
  then show "tapping_ok tp'"
    and "Cleared \<notin> set (log s') \<Longrightarrow> account (log s) (in_hand tp) (record_input r) (log s') (in_hand tp')" by auto
qed

lemma action_tapping_account:
  assumes "action_tapping_process ops r tp s = (tp', s')" "tapping_ok tp" "fresh r"
  shows "tapping_ok tp'"
    and "Cleared \<notin> set (log s') \<Longrightarrow> account (log s) (in_hand tp) (record_input r) (log s') (in_hand tp')"
proof -
  obtain d r1 tp1 s1 where p: "process_tapping ops r tp s = (d, r1, tp1, s1)" by (cases "process_tapping ops r tp s") blast
  note step = process_tapping_step [OF p assms(2,3), unfolded step_ok_def]
  obtain tp2 s2 where m: "(if d then (tp1, s1) else enqueue_or_clear ops r1 tp1 s1) = (tp2, s2)"
    by (cases "if d then (tp1, s1) else enqueue_or_clear ops r1 tp1 s1") blast
  have l: "process_waiting WAITING_BUFFER_SIZE ops tp2 s2 = (tp', s')"
    using assms(1) m p by (simp add: action_tapping_process_def waiting_loop_def)
  have a1: "account (log s) (in_hand tp) (step_input d r) (log s1) (in_hand tp1)"
    using account_frame [of "log s" "undecided tp" "step_input d r" "log s1" "undecided tp1" "map event (waiting tp)"] step
    by (simp add: in_hand_def)
  have mid: "tapping_ok tp2 \<and> (Cleared \<notin> set (log s2) \<longrightarrow> account (log s) (in_hand tp) (record_input r) (log s2) (in_hand tp2))"
  proof (cases d)
    case True
    then show ?thesis using a1 m step by (simp add: step_input_def record_input_def split: if_splits)
  next
    case False
    then have e: "event r1 = event r" "fresh r1" using step by auto
    then have "record_input r1 = record_input r" by (simp add: record_input_def)
    then show ?thesis
      using False a1 m step e enqueue_account [of r1 tp1 s1 tp2 s2] account_trans [OF a1, of "record_input r"]
      by (simp add: step_input_def)
  qed
  note loop = process_waiting_account [OF l conjunct1 [OF mid]]
  show "tapping_ok tp'" using loop by blast
  show "account (log s) (in_hand tp) (record_input r) (log s') (in_hand tp')" if "Cleared \<notin> set (log s')"
  proof -
    have "Cleared \<notin> set (log s2)" using that loop by (simp add: account_def)
    then show ?thesis using account_trans [OF _ conjunct1 [OF loop]] mid by fastforce
  qed
qed

end

subsection \<open>The ghost record changes nothing\<close>

lemma logged_ops [simp]:
  "op_process_record (logged ops) r (s, l) =
     (fst (op_process_record ops r s), snd (op_process_record ops r s), l @ [Processed r])"
  "op_get_action (logged ops) k (s, l) = op_get_action ops k s"
  "op_clear_keyboard (logged ops) (s, l) = (op_clear_keyboard ops s, l @ [Cleared])"
  by (simp_all add: logged_def split: prod.splits)

lemma logged_is_tap_record [simp]: "is_tap_record (logged ops) r (s, l) = is_tap_record ops r s"
  by (simp add: is_tap_record_def)

lemma logged_scan_tap:
  "\<exists>l'. waiting_buffer_scan_tap (logged ops) tp (s, l) =
     (fst (waiting_buffer_scan_tap ops tp s), snd (waiting_buffer_scan_tap ops tp s), l')"
  by (simp add: waiting_buffer_scan_tap_def Let_def split: option.split prod.split)

text \<open>The result of a step with the ghost record attached to the state.\<close>

definition with_log :: "call list \<Rightarrow> 's outcome \<Rightarrow> ('s \<times> call list) outcome" where
  "with_log l x = (case x of (d, r, tp, s) \<Rightarrow> (d, r, tp, s, l))"

lemma logged_start: "\<exists>l'. start_tapping (logged ops) r tp (s, l) = with_log l' (start_tapping ops r tp s)"
  using logged_scan_tap [of ops "tp\<lparr>tapping_key := r\<rparr>" s l]
  by (auto simp: start_tapping_def with_log_def split: prod.splits)

lemma logged_pass: "\<exists>l'. pass_through (logged ops) r tp (s, l) = with_log l' (pass_through ops r tp s)"
  by (simp add: pass_through_def with_log_def split: prod.splits)

lemma logged_release_last:
  "\<exists>l'. release_last_tap (logged ops) now tp (s, l) = (release_last_tap ops now tp s, l')"
  by (simp add: release_last_tap_def)

lemma logged_process_tapping:
  "\<exists>l'. process_tapping (logged ops) r tp (s, l) = with_log l' (process_tapping ops r tp s)"
proof -
  have tapped: "\<exists>l'. tapping_tapped (logged ops) t r tp (s, l) = with_log l' (tapping_tapped ops t r tp s)" for t
    using logged_release_last [of ops "ev_time (event r)" tp s l] logged_start [of ops r tp] logged_pass [of ops r tp s l]
    by (fastforce simp: tapping_tapped_def Let_def with_log_def split: prod.split)
  have released: "\<exists>l'. tapping_released (logged ops) r tp (s, l) = with_log l' (tapping_released ops r tp s)"
    using logged_start [of ops r tp s l] logged_pass [of ops r tp s l]
      logged_pass [of ops r "tp\<lparr>tapping_key := (tapping_key tp)\<lparr>tap_interrupted := True\<rparr>\<rparr>" s l]
    by (simp add: tapping_released_def Let_def with_log_def split: prod.split)
  have undecided: "\<exists>l'. tapping_undecided (logged ops) r tp (s, l) = with_log l' (tapping_undecided ops r tp s)"
    using logged_pass [of ops r tp s l] by (simp add: tapping_undecided_def with_log_def split: prod.split)
  have idle: "\<exists>l'. tapping_idle (logged ops) r tp (s, l) = with_log l' (tapping_idle ops r tp s)"
    using logged_start [of ops r tp s l] logged_pass [of ops r tp s l] by (simp add: tapping_idle_def with_log_def)
  show ?thesis
    using idle tapped released undecided by (simp add: process_tapping_def with_log_def split: prod.split)
qed

lemma logged_process_waiting:
  "\<exists>l'. process_waiting n (logged ops) tp (s, l) = (fst (process_waiting n ops tp s), snd (process_waiting n ops tp s), l')"
proof (induction n arbitrary: tp s l)
  case (Suc n)
  obtain l1 where "process_tapping (logged ops) (waiting_buffer tp ! waiting_buffer_tail tp) tp (s, l)
      = with_log l1 (process_tapping ops (waiting_buffer tp ! waiting_buffer_tail tp) tp s)"
    using logged_process_tapping [of ops "waiting_buffer tp ! waiting_buffer_tail tp" tp s l] by (elim exE)
  then show ?case
    using Suc.IH by (simp add: Let_def with_log_def split: prod.split)
qed simp

lemma logged_action_tapping:
  "\<exists>l'. action_tapping_process (logged ops) r tp (s, l) =
     (fst (action_tapping_process ops r tp s), snd (action_tapping_process ops r tp s), l')"
proof -
  obtain l1 where p: "process_tapping (logged ops) r tp (s, l) = with_log l1 (process_tapping ops r tp s)"
    using logged_process_tapping [of ops r tp s l] by (elim exE)
  obtain d r1 tp1 s1 where q: "process_tapping ops r tp s = (d, r1, tp1, s1)" by (cases "process_tapping ops r tp s") blast
  obtain l2 where e: "enqueue_or_clear (logged ops) r1 tp1 (s1, l1)
      = (fst (enqueue_or_clear ops r1 tp1 s1), snd (enqueue_or_clear ops r1 tp1 s1), l2)"
    by (cases "waiting_buffer_enq r1 tp1"; cases "fst (waiting_buffer_enq r1 tp1)") (auto simp: enqueue_or_clear_def)
  show ?thesis
    using logged_process_waiting [of 8 ops tp1 s1 l1]
      logged_process_waiting [of 8 ops "fst (enqueue_or_clear ops r1 tp1 s1)" "snd (enqueue_or_clear ops r1 tp1 s1)" l2]
    by (cases "enqueue_or_clear ops r1 tp1 s1")
      (simp add: action_tapping_process_def waiting_loop_def p q with_log_def e hw_defs)
qed

section \<open>Taps, holds and other keys\<close>

text \<open>Nothing is undecided and nothing waits.\<close>

definition tapping_idle_state :: "tapping \<Rightarrow> bool" where
  "tapping_idle_state tp \<longleftrightarrow> IS_NOEVENT (event (tapping_key tp)) \<and> waiting_buffer_head tp = waiting_buffer_tail tp"

lemma size_Suc: "WAITING_BUFFER_SIZE = Suc 7"
  by (simp add: hw_defs)

lemma waiting_loop_empty: "waiting_buffer_head tp = waiting_buffer_tail tp \<Longrightarrow> waiting_loop ops tp s = (tp, s)"
  by (simp add: waiting_loop_def hw_defs eval_nat_numeral)

lemma not_tap_passes:
  assumes "tapping_idle_state tp" "\<not> IS_NOEVENT (event r)" "\<not> (pressed_rec r \<and> is_tap_record ops r s)"
  shows "action_tapping_process ops r tp s = (tp, snd (op_process_record ops r s))"
proof -
  have "process_tapping ops r tp s = pass_through ops r tp s"
    using assms(1,2) unfolding process_tapping_def tapping_idle_def tapping_idle_state_def by (simp only: assms(3) if_False if_True)
  then show ?thesis
    using assms(1)
    by (simp add: action_tapping_process_def pass_through_def waiting_loop_empty tapping_idle_state_def split: prod.split)
qed

lemma tick_idle:
  "tapping_idle_state tp \<Longrightarrow> IS_NOEVENT (event r) \<Longrightarrow> action_tapping_process ops r tp s = (tp, s)"
  by (simp add: tapping_idle_state_def action_tapping_process_def process_tapping_def tapping_idle_def waiting_loop_empty)

text \<open>A tap key pressed alone: nothing happens yet.\<close>

lemma tap_press:
  assumes "tapping_idle_state tp" "pressed_rec r" "is_tap_record ops r s"
  shows "action_tapping_process ops r tp s = (tp\<lparr>tapping_key := r\<rparr>, s)"
proof -
  have "waiting_buffer_scan_tap ops (tp\<lparr>tapping_key := r\<rparr>) s = (tp\<lparr>tapping_key := r\<rparr>, s)"
    using assms(1) by (simp add: waiting_buffer_scan_tap_def waiting_indices_def tapping_idle_state_def hw_defs)
  then show ?thesis
    using assms
    by (simp add: tapping_idle_state_def action_tapping_process_def process_tapping_def tapping_idle_def start_tapping_def
        waiting_loop_empty is_tap_record_def)
qed

text \<open>The first tick after the tapping term: it is held.\<close>

lemma tap_held:
  assumes "waiting_buffer_head tp = waiting_buffer_tail tp" "undecided tp = [event (tapping_key tp)]" "IS_NOEVENT (event r)"
    "\<not> WITHIN_TAPPING_TERM (event r) tp"
  shows "action_tapping_process ops r tp s =
    (tp\<lparr>tapping_key := zero_record\<rparr>, snd (op_process_record ops (tapping_key tp) s))"
  using assms
  by (auto simp: action_tapping_process_def process_tapping_def undecided_def Let_def enqueue_or_clear_def
      waiting_buffer_enq_def waiting_loop_empty split: if_splits)

text \<open>The release within the tapping term: a tap, press and release.\<close>

context tap_host
begin

lemma tap_tapped:
  assumes "tapping_ok tp" "waiting tp = []" "undecided tp = [event (tapping_key tp)]"
    and "\<not> IS_NOEVENT (event r)" "\<not> pressed_rec r" "IS_TAPPING_RECORD r tp" "WITHIN_TAPPING_TERM (event r) tp"
  shows "\<exists>tp'. action_tapping_process ops r tp s =
      (tp', snd (op_process_record ops (r\<lparr>tap_count := 1, tap_interrupted := tap_interrupted (tapping_key tp)\<rparr>)
              (snd (op_process_record ops ((tapping_key tp)\<lparr>tap_count := 1\<rparr>) s)))) \<and> waiting tp' = [] \<and> undecided tp' = []"
proof -
  let ?k = "tapping_key tp"
  let ?r = "r\<lparr>tap_count := 1, tap_interrupted := tap_interrupted ?k\<rparr>"
  have k: "\<not> IS_NOEVENT (event ?k)" "pressed_rec ?k" "tap_count ?k = 0"
    using assms(3) by (auto simp: undecided_def Let_def split: if_splits)
  obtain k1 s1 where p1: "op_process_record ops (?k\<lparr>tap_count := 1\<rparr>) s = (k1, s1)" by (cases "op_process_record ops (?k\<lparr>tap_count := 1\<rparr>) s")
  obtain r2 s2 where p2: "op_process_record ops ?r s1 = (r2, s2)" by (cases "op_process_record ops ?r s1")
  have k1: "event k1 = event ?k \<or> event k1 = (event ?k)\<lparr>ev_pressed := False\<rparr>" "tap_count k1 = 1" "tap_interrupted k1 = tap_interrupted ?k"
    using record_kept [of "?k\<lparr>tap_count := 1\<rparr>" s] p1 by auto
  have r2: "\<not> pressed_rec r2" using process_kept(5) [OF p2] assms(5) by auto
  have first: "process_tapping ops r tp s = (False, ?r, tp\<lparr>tapping_key := k1\<rparr>, s1)"
    using assms(4-7) k p1 k1 by (simp add: process_tapping_def tapping_undecided_def)
  obtain tp1 where enq: "waiting_buffer_enq ?r (tp\<lparr>tapping_key := k1\<rparr>) = (True, tp1)" and w1: "waiting tp1 = [?r]"
      and ring1: "ring_ok tp1" and key1: "tapping_key tp1 = k1"
    using ring_enq [of "tp\<lparr>tapping_key := k1\<rparr>" ?r] assms(1,2,4) by (auto simp: tapping_ok_def ring_ok_def)
  have keep: "KEYEQ (ev_key (event k1)) (ev_key (event r))" "WITHIN_TAPPING_TERM (event r) tp1" "\<not> IS_NOEVENT (event k1)"
    using assms(6,7) k1(1) key1 k(1) by (auto simp: IS_TAPPING_RECORD_def WITHIN_TAPPING_TERM_def IS_NOEVENT_def)
  have same: "tp1\<lparr>tapping_key := k1\<rparr> = tp1" using key1 by (cases tp1) simp
  have second: "\<exists>k2. process_tapping ops ?r tp1 s1 = (True, r2, tp1\<lparr>tapping_key := k2\<rparr>, s2) \<and> (pressed_rec k2 \<longrightarrow> tap_count k2 \<noteq> 0)"
  proof (cases "pressed_rec k1")
    case True
    then have "process_tapping ops ?r tp1 s1 = (True, r2, tp1\<lparr>tapping_key := r2\<rparr>, s2)"
      using keep k1 key1 assms(4,5) p2 by (simp add: process_tapping_def tapping_tapped_def IS_TAPPING_RECORD_def)
    then show ?thesis using r2 by blast
  next
    case False
    then have "process_tapping ops ?r tp1 s1 = (True, r2, tp1\<lparr>tapping_key := k1\<rparr>, s2)"
      using keep k1 key1 assms(4,5) p2 same by (simp add: process_tapping_def tapping_released_def pass_through_def)
    then show ?thesis using False by blast
  qed
  then obtain k2 where p: "process_tapping ops ?r tp1 s1 = (True, r2, tp1\<lparr>tapping_key := k2\<rparr>, s2)"
    and k2: "pressed_rec k2 \<longrightarrow> tap_count k2 \<noteq> 0" by blast
  define tp2 where "tp2 = tp1\<lparr>tapping_key := k2, waiting_buffer := (waiting_buffer tp1)[waiting_buffer_tail tp1 := r2],
      waiting_buffer_tail := (waiting_buffer_tail tp1 + 1) mod 8\<rparr>"
  have ring1': "ring_ok (tp1\<lparr>tapping_key := k2\<rparr>)" using ring1 by (simp add: ring_ok_def)
  have w2: "waiting tp2 = []"
    using ring_rotate(2) [OF ring1', of ?r "[]" r2] w1 by (simp add: tp2_def)
  have e2: "waiting_buffer_tail tp2 = waiting_buffer_head tp2"
    using w2 length_waiting [of tp2] ring1 by (auto simp: tp2_def ring_ok_def less_8_cases)
  have "process_waiting (Suc 7) ops tp1 s1 = process_waiting 7 ops tp2 s2"
    using ring_deq(1,2) [OF ring1 w1] p by (subst process_waiting.simps) (simp del: process_waiting.simps add: tp2_def Let_def hw_defs)
  also have "\<dots> = (tp2, s2)" by (rule loop_empty) (use e2 in simp)
  finally have loop: "waiting_loop ops tp1 s1 = (tp2, s2)" unfolding waiting_loop_def size_Suc .
  have e: "enqueue_or_clear ops ?r (tp\<lparr>tapping_key := k1\<rparr>) s1 = (tp1, s1)" by (simp only: enqueue_or_clear_def enq prod.case bool.case)
  have "action_tapping_process ops r tp s = (tp2, s2)"
    unfolding action_tapping_process_def first Let_def prod.case if_False e loop ..
  moreover have "undecided tp2 = []" using k2 by (simp add: undecided_def tp2_def)
  ultimately show ?thesis using w2 unfolding p1 snd_conv p2 by blast
qed

lemma tick_decides:
  assumes "tapping_ok tp" "undecided tp = [event (tapping_key tp)]" "IS_NOEVENT (event r)" "\<not> WITHIN_TAPPING_TERM (event r) tp"
    and "action_tapping_process ops r tp s = (tp', s')"
  shows "(tp', s') = waiting_loop ops (tp\<lparr>tapping_key := zero_record\<rparr>) (snd (op_process_record ops (tapping_key tp) s))"
    and "waiting tp \<noteq> [] \<Longrightarrow> length (waiting tp') < length (waiting tp)"
proof -
  have "process_tapping ops r tp s =
      (False, r, tp\<lparr>tapping_key := zero_record\<rparr>, snd (op_process_record ops (tapping_key tp) s))"
    using assms(2-4) by (auto simp: process_tapping_def undecided_def Let_def split: if_splits)
  then show eq: "(tp', s') = waiting_loop ops (tp\<lparr>tapping_key := zero_record\<rparr>) (snd (op_process_record ops (tapping_key tp) s))"
    using assms(3,5) by (simp add: action_tapping_process_def enqueue_or_clear_def waiting_buffer_enq_def)
  show "length (waiting tp') < length (waiting tp)" if "waiting tp \<noteq> []"
    using idle_round [of "tp\<lparr>tapping_key := zero_record\<rparr>" _ tp' s', OF _ _ _ eq [symmetric]] that assms(1)
    by (simp add: zero_record_def IS_NOEVENT_def)
qed

end

end
