(* ===== verification/Keyboard_Task.thy ===== *)
theory Keyboard_Task
  imports Tapping Firmware
begin

text \<open>
  One pass of the main loop, \<^verbatim>\<open>keyboard_task\<close> of \<^verbatim>\<open>quantum/keyboard.c\<close>: scan the matrix, hand its events to
  \<^verbatim>\<open>action_exec\<close> (\<^verbatim>\<open>quantum/action.c\<close>), poll the encoder, move the mouse, follow the host's LEDs.
  \<^verbatim>\<open>matrix_task\<close> and \<^verbatim>\<open>encoder_task\<close> call \<^verbatim>\<open>action_exec\<close> as they find an event; nothing they still read is
  written by it, so the model collects the events of a task and executes them behind it. A reset or a jump to the
  bootloader ends the pass (\<open>jumped\<close>). \<^verbatim>\<open>rgblight_task\<close> does nothing for a static light, \<^verbatim>\<open>quantum_task\<close> nothing in
  this build.
\<close>

section \<open>Model\<close>

record 'e task = "'e act" +
  tap_state :: tapping
  last_led_status :: u8
  last_led_modification_time :: u32

subsection \<open>Executing an event\<close>

definition board_ops ::
  "'e eeprom_driver \<Rightarrow> (lut \<Rightarrow> nat \<Rightarrow> u8) \<Rightarrow> world \<Rightarrow> ('e, 'z) act_scheme tap_ops" where
  "board_ops E mem w =
     \<lparr>op_process_record = (\<lambda>r st. if jumped st \<noteq> None then (r, st) else process_record E mem w r st),
      op_get_action = layer_switch_get_action E,
      op_clear_keyboard = (\<lambda>st. if jumped st \<noteq> None then st else act_clear w st)\<rparr>"

definition new_record :: "keyevent_t \<Rightarrow> keyrecord_t" where
  "new_record ev = \<lparr>event = ev, tap_interrupted = False, tap_count = 0\<rparr>"

text \<open>What \<^verbatim>\<open>action_exec\<close> does before the tapping state machine.\<close>

definition before_tapping ::
  "'e eeprom_driver \<Rightarrow> keyevent_t \<Rightarrow> ('e, 'z) act_scheme \<Rightarrow> bool \<times> ('e, 'z) act_scheme" where
  "before_tapping E ev st =
     (let st1 = (if ev_pressed ev then act_hid clear_weak_mods st else st) in
      if IS_NOEVENT ev then (True, st1) else pre_process_record_quantum E ev st1)"

definition action_exec ::
  "'e eeprom_driver \<Rightarrow> (lut \<Rightarrow> nat \<Rightarrow> u8) \<Rightarrow> world \<Rightarrow> keyevent_t \<Rightarrow> ('e, 'z) task_scheme \<Rightarrow> ('e, 'z) task_scheme" where
  "action_exec E mem w ev st =
     (let (go_on, st1) = before_tapping E ev st in
      if go_on then
        let (tp, st2) = action_tapping_process (board_ops E mem w) (new_record ev) (tap_state st1) st1 in
        st2\<lparr>tap_state := tp\<rparr>
      else st1)"

definition exec_events ::
  "'e eeprom_driver \<Rightarrow> (lut \<Rightarrow> nat \<Rightarrow> u8) \<Rightarrow> world \<Rightarrow> keyevent_t list \<Rightarrow> ('e, 'z) task_scheme \<Rightarrow> ('e, 'z) task_scheme" where
  "exec_events E mem w evs st = fold (\<lambda>ev st. if jumped st \<noteq> None then st else action_exec E mem w ev st) evs st"

subsection \<open>The tasks\<close>

definition led_task :: "world \<Rightarrow> ('e, 'z) task_scheme \<Rightarrow> ('e, 'z) task_scheme" where
  "led_task w st =
     (if last_led_status st \<noteq> usb_leds w
      then st\<lparr>last_led_status := usb_leds w, last_led_modification_time := timer_ms (pins w)\<rparr> else st)"

definition matrix_part ::
  "'e eeprom_driver \<Rightarrow> (lut \<Rightarrow> nat \<Rightarrow> u8) \<Rightarrow> world \<Rightarrow> ('e, 'z) task_scheme \<Rightarrow> ('e, 'z) task_scheme" where
  "matrix_part E mem w st =
     (let (activity, evs, st1) = matrix_task E (pins w) st; st2 = exec_events E mem w evs st1 in
      if activity \<and> jumped st2 = None then last_matrix_activity_trigger (pins w) st2 else st2)"

definition encoder_part ::
  "'e eeprom_driver \<Rightarrow> (lut \<Rightarrow> nat \<Rightarrow> u8) \<Rightarrow> world \<Rightarrow> ('e, 'z) task_scheme \<Rightarrow> ('e, 'z) task_scheme option" where
  "encoder_part E mem w st =
     (case encoder_task (pins w) (gpio st) (encoder st) of
        None \<Rightarrow> None
      | Some (activity, evs, enc) \<Rightarrow>
          let st1 = exec_events E mem w evs (st\<lparr>encoder := enc\<rparr>) in
          Some (if activity \<and> jumped st1 = None then last_encoder_activity_trigger (pins w) st1 else st1))"

definition mouse_part :: "world \<Rightarrow> ('e, 'z) act_scheme \<Rightarrow> ('e, 'z) act_scheme" where
  "mouse_part w st =
     (let (m, h) = mousekey_task (pins w) (mouse (hostio st)) (hid (hostio st)) in st\<lparr>hostio := \<lparr>hid = h, mouse = m\<rparr>\<rparr>)"

text \<open>The clock and the pins may change between the parts.\<close>

definition keyboard_task ::
  "'e eeprom_driver \<Rightarrow> (lut \<Rightarrow> nat \<Rightarrow> u8) \<Rightarrow> world \<Rightarrow> world \<Rightarrow> world \<Rightarrow> ('e, 'z) task_scheme \<Rightarrow> ('e, 'z) task_scheme option" where
  "keyboard_task E mem w_matrix w_encoder w_rest st =
     (let st1 = matrix_part E mem w_matrix st in
      if jumped st1 \<noteq> None then Some st1
      else
        case encoder_part E mem w_encoder st1 of
          None \<Rightarrow> None
        | Some st2 \<Rightarrow> Some (if jumped st2 \<noteq> None then st2 else led_task w_rest (mouse_part w_rest st2)))"

text \<open>The host wakes the keyboard, \<^verbatim>\<open>platforms/chibios/suspend.c\<close>: variables are cleared, no keyboard report is sent.\<close>

definition suspend_wakeup_init :: "world \<Rightarrow> ('e, 'z) act_scheme \<Rightarrow> ('e, 'z) act_scheme" where
  "suspend_wakeup_init w st =
     (let h = clear_keys (nkro_now w st) (clear_weak_mods (clear_mods (hid (hostio st)))) in
      st\<lparr>hostio := \<lparr>hid = host_consumer_send 0 (host_system_send 0 h), mouse = mousekey_clear (mouse (hostio st))\<rparr>\<rparr>)"

section \<open>The tapping state machine on this board\<close>

lemma process_record_with_release:
  assumes "\<not> pressed_rec r"
  shows "fst (process_record_with f E mem w r st) = r"
  using assms by (simp add: process_record_with_def process_record_handler_def process_action_def ends_oneshot_layer_def
      split: prod.splits)

lemma process_action_kept:
  assumes "\<And>r st. \<not> pressed_rec r \<Longrightarrow> fst (again r st) = r"
  shows "fst (process_action again w r a st) = r \<or>
    fst (process_action again w r a st) = r\<lparr>event := (event r)\<lparr>ev_pressed := False\<rparr>\<rparr>"
proof -
  have "fst (again (r\<lparr>event := (event r)\<lparr>ev_pressed := False\<rparr>\<rparr>) st') = r\<lparr>event := (event r)\<lparr>ev_pressed := False\<rparr>\<rparr>" for st'
    by (rule assms) simp
  then show ?thesis by (simp add: process_action_def Let_def split_beta)
qed

lemma process_record_kept:
  fixes st :: "('e, 'z) act_scheme"
  shows "fst (process_record E mem w r st) = r \<or>
    fst (process_record E mem w r st) = r\<lparr>event := (event r)\<lparr>ev_pressed := False\<rparr>\<rparr>"
proof -
  have "fst (process_action (process_record_with Pair E mem w) w r a st') = r \<or>
      fst (process_action (process_record_with Pair E mem w) w r a st') = r\<lparr>event := (event r)\<lparr>ev_pressed := False\<rparr>\<rparr>"
    for a and st' :: "('e, 'z) act_scheme"
    by (rule process_action_kept [OF process_record_with_release])
  then show ?thesis
    unfolding process_record_def process_record_with_def [of "process_record_with Pair E mem w"] process_record_handler_def
    by (simp add: Let_def split_beta)
qed

interpretation board_taps: tap_host "logged (board_ops E mem w)" snd for E mem w
proof unfold_locales
  fix r and s :: "('a, 'b) act_scheme \<times> call list"
  show "fst (op_process_record (logged (board_ops E mem w)) r s) = r \<or>
      fst (op_process_record (logged (board_ops E mem w)) r s) = r\<lparr>event := (event r)\<lparr>ev_pressed := False\<rparr>\<rparr>"
    using process_record_kept [of E mem w r "fst s"] by (simp add: logged_def board_ops_def split_beta)
qed (simp_all add: logged_def split_beta)

end
