(* ===== verification/Typing.thy ===== *)
theory Typing
  imports Keyboard_Task
begin

text \<open>
  What typing does at the host. \<open>abs_stroke\<close> is the specification of one stroke: the set of keys the host believes
  to be held and the modifiers; in the boot protocol the set holds six keys and a seventh is not reported. The
  strokes of the firmware, \<^verbatim>\<open>register_code\<close> and \<^verbatim>\<open>unregister_code\<close>, refine it in both protocols. Then the way of a
  plain key from its event to the report.
\<close>

section \<open>Strokes\<close>

datatype stroke = Down u8 | Up u8

fun strike :: "env \<Rightarrow> bool \<Rightarrow> stroke \<Rightarrow> hostio \<Rightarrow> hostio" where
  "strike env nk (Down k) io = register_code env nk k io"
| "strike env nk (Up k) io = unregister_code env nk k io"

fun stroke_code :: "stroke \<Rightarrow> u8" where
  "stroke_code (Down k) = k" | "stroke_code (Up k) = k"

definition typed_code :: "u8 \<Rightarrow> bool" where
  "typed_code k \<longleftrightarrow> IS_BASIC_KEYCODE k \<or> IS_MODIFIER_KEYCODE k"

definition key_capacity :: "bool \<Rightarrow> u8 set \<Rightarrow> bool" where
  "key_capacity nk ks \<longleftrightarrow> nk \<or> card ks < KEYBOARD_REPORT_KEYS"

fun abs_stroke :: "bool \<Rightarrow> stroke \<Rightarrow> u8 \<times> u8 set \<Rightarrow> u8 \<times> u8 set" where
  "abs_stroke nk (Down k) (mods, ks) =
     (if IS_MODIFIER_KEYCODE k then (mods OR MOD_BIT k, ks)
      else if k \<in> ks \<or> key_capacity nk ks then (mods, insert k ks) else (mods, ks))"
| "abs_stroke nk (Up k) (mods, ks) =
     (if IS_MODIFIER_KEYCODE k then (mods AND NOT (MOD_BIT k), ks) else (mods, ks - {k}))"

text \<open>No weak or one-shot modifier pending, and the host is up to date.\<close>

definition typing_ok :: "bool \<Rightarrow> hid \<Rightarrow> bool" where
  "typing_ok nk h \<longleftrightarrow> hid_ok h \<and> synced nk h \<and> weak_mods h = 0 \<and> oneshot_mods h = 0 \<and>
     host_view nk h = (real_mods h, report_keys nk h)"

lemma typing_ok_reset: "typing_ok nk hid_reset"
proof -
  have "host_view nk hid_reset = (0, {})" by (simp add: host_view_def hid_reset_def List.map_filter_def Let_def)
  moreover have "report_keys nk hid_reset = {}"
    by (auto simp: report_keys_def keys6_def keys_nkro_def hid_reset_def Let_def hw_defs)
  ultimately show ?thesis
    by (simp add: typing_ok_def hid_reset_ok synced_reset) (simp add: hid_reset_def Let_def)
qed

lemma send_typing_ok:
  assumes "hid_ok h" "synced nk h" "weak_mods h = 0" "oneshot_mods h = 0"
  shows "typing_ok nk (send_keyboard_report nk h)"
    "host_view nk (send_keyboard_report nk h) = (real_mods h, report_keys nk h)"
  using assms send_view [OF assms(2)] by (simp_all add: typing_ok_def)

lemma basic_not_modifier: "IS_BASIC_KEYCODE k \<Longrightarrow> \<not> IS_MODIFIER_KEYCODE k"
  by (auto simp: code_class_defs word_le_nat_alt)

lemma basic_bounds: "IS_BASIC_KEYCODE k \<Longrightarrow> k \<noteq> 0 \<and> unat k < 8 * NKRO_REPORT_BITS"
  by (auto simp: code_class_defs word_le_nat_alt hw_defs)

lemma modifier_nonzero: "IS_MODIFIER_KEYCODE k \<Longrightarrow> k \<noteq> 0"
  by (auto simp: code_class_defs word_le_nat_alt)

lemma strike_basic_down:
  assumes "typing_ok nk (hid io)" "IS_BASIC_KEYCODE k"
  shows "typing_ok nk (hid (register_code env nk k io)) \<and>
    host_view nk (hid (register_code env nk k io)) = abs_stroke nk (Down k) (host_view nk (hid io))"
proof -
  let ?h = "hid io"
  define h1 where "h1 = (if is_key_pressed nk k ?h then send_keyboard_report nk (del_key nk k ?h) else ?h)"
  have k: "k \<noteq> 0" "unat k < 8 * NKRO_REPORT_BITS" using basic_bounds [OF assms(2)] by auto
  have ok: "hid_ok ?h" "synced nk ?h" "weak_mods ?h = 0" "oneshot_mods ?h = 0" "host_view nk ?h = (real_mods ?h, report_keys nk ?h)"
    using assms(1) by (auto simp: typing_ok_def)
  have p: "is_key_pressed nk k ?h \<longleftrightarrow> k \<in> report_keys nk ?h" by (rule is_key_pressed_iff [OF ok(1) k(1)])
  have h1: "hid_ok h1" "synced nk h1" "weak_mods h1 = 0" "oneshot_mods h1 = 0" "real_mods h1 = real_mods ?h"
    "report_keys nk h1 = report_keys nk ?h - {k}"
    using ok p report_keys_del [OF ok(1), of nk k] by (auto simp: h1_def send_view)
  have room: "key_room nk k h1 \<longleftrightarrow> k \<in> report_keys nk ?h \<or> key_capacity nk (report_keys nk ?h)"
  proof (cases nk)
    case True
    then show ?thesis using k by (simp add: key_room_def key_capacity_def)
  next
    case False
    have six: "card (report_keys nk ?h) \<le> KEYBOARD_REPORT_KEYS"
      using ok(1) False keys6_card [of "keyboard_report ?h"] length_filter_le [of _ "rk_keys (keyboard_report ?h)"]
      by (auto simp: report_keys_def hid_ok_def rk_ok_def)
    have "finite (report_keys nk ?h)" using False by (simp add: report_keys_def keys6_def)
    then show ?thesis using False six h1(6) by (cases "k \<in> report_keys nk ?h")
        (auto simp: key_room_def key_capacity_def card_Diff_singleton hw_defs card_gt_0_iff)
  qed
  have new: "report_keys nk (add_key nk k h1) =
      (if k \<in> report_keys nk ?h \<or> key_capacity nk (report_keys nk ?h) then insert k (report_keys nk ?h) else report_keys nk ?h)"
    using report_keys_add(1) [OF h1(1) k(1), of nk] h1(6) room by auto
  have "hid (register_code env nk k io) = send_keyboard_report nk (add_key nk k h1)"
    using k(1) assms(2) by (simp add: register_code_def h1_def Let_def)
  then show ?thesis
    using send_typing_ok [of "add_key nk k h1" nk] h1 report_keys_add(2) [OF h1(1) k(1)] ok(5) new basic_not_modifier [OF assms(2)]
    by simp
qed

lemma strike_basic_up:
  assumes "typing_ok nk (hid io)" "IS_BASIC_KEYCODE k"
  shows "typing_ok nk (hid (unregister_code env nk k io)) \<and>
    host_view nk (hid (unregister_code env nk k io)) = abs_stroke nk (Up k) (host_view nk (hid io))"
  using assms basic_bounds [OF assms(2)] basic_not_modifier [OF assms(2)] send_typing_ok [of "del_key nk k (hid io)" nk]
    report_keys_del [of "hid io" nk k]
  by (simp add: unregister_code_def typing_ok_def)

lemma strike_modifier:
  assumes "typing_ok nk (hid io)" "IS_MODIFIER_KEYCODE k"
  shows "typing_ok nk (hid (strike env nk (Down k) io)) \<and>
      host_view nk (hid (strike env nk (Down k) io)) = abs_stroke nk (Down k) (host_view nk (hid io))"
    "typing_ok nk (hid (strike env nk (Up k) io)) \<and>
      host_view nk (hid (strike env nk (Up k) io)) = abs_stroke nk (Up k) (host_view nk (hid io))"
proof -
  have nb: "\<not> IS_BASIC_KEYCODE k" using assms(2) basic_not_modifier by blast
  have h: "hid_ok (add_mods (MOD_BIT k) (hid io))" "synced nk (add_mods (MOD_BIT k) (hid io))"
    "hid_ok (del_mods (MOD_BIT k) (hid io))" "synced nk (del_mods (MOD_BIT k) (hid io))"
    "weak_mods (add_mods (MOD_BIT k) (hid io)) = 0" "oneshot_mods (add_mods (MOD_BIT k) (hid io)) = 0"
    "weak_mods (del_mods (MOD_BIT k) (hid io)) = 0" "oneshot_mods (del_mods (MOD_BIT k) (hid io)) = 0"
    using assms(1) by (auto simp: typing_ok_def add_mods_def del_mods_def)
  have e: "report_keys nk (add_mods m h') = report_keys nk h'" "report_keys nk (del_mods m h') = report_keys nk h'" for m h'
    by (simp_all add: add_mods_def del_mods_def)
  show "typing_ok nk (hid (strike env nk (Down k) io)) \<and>
      host_view nk (hid (strike env nk (Down k) io)) = abs_stroke nk (Down k) (host_view nk (hid io))"
    using send_typing_ok [OF h(1,2,5,6)] assms nb modifier_nonzero [OF assms(2)]
    by (simp add: register_code_def e typing_ok_def) (simp add: add_mods_def)
  show "typing_ok nk (hid (strike env nk (Up k) io)) \<and>
      host_view nk (hid (strike env nk (Up k) io)) = abs_stroke nk (Up k) (host_view nk (hid io))"
    using send_typing_ok [OF h(3,4,7,8)] assms nb modifier_nonzero [OF assms(2)]
    by (simp add: unregister_code_def e typing_ok_def) (simp add: del_mods_def)
qed

lemma strike_refines:
  assumes "typing_ok nk (hid io)" "typed_code (stroke_code s)"
  shows "typing_ok nk (hid (strike env nk s io)) \<and>
    host_view nk (hid (strike env nk s io)) = abs_stroke nk s (host_view nk (hid io))"
  using assms strike_basic_down strike_basic_up strike_modifier
  by (cases s) (auto simp: typed_code_def simp del: abs_stroke.simps)

lemma strikes_refine:
  assumes "typing_ok nk (hid io)" "\<forall>s\<in>set ss. typed_code (stroke_code s)"
  shows "typing_ok nk (hid (fold (strike env nk) ss io)) \<and>
    host_view nk (hid (fold (strike env nk) ss io)) = fold (abs_stroke nk) ss (host_view nk (hid io))"
  using assms by (induction ss arbitrary: io) (simp_all add: strike_refines)

text \<open>The last stroke on a key.\<close>

definition last_stroke :: "u8 \<Rightarrow> stroke list \<Rightarrow> stroke option" where
  "last_stroke k ss = find (\<lambda>s. stroke_code s = k) (rev ss)"

lemma last_stroke_snoc [simp]: "last_stroke k (ss @ [s]) = (if stroke_code s = k then Some s else last_stroke k ss)"
  by (simp add: last_stroke_def)

lemma abs_strokes_held:
  assumes "\<not> IS_MODIFIER_KEYCODE k" "k \<in> snd (fold (abs_stroke nk) ss v)"
  shows "last_stroke k ss = Some (Down k) \<or> last_stroke k ss = None \<and> k \<in> snd v"
  using assms
proof (induction ss rule: rev_induct)
  case (snoc s ss)
  obtain m ks where v: "fold (abs_stroke nk) ss v = (m, ks)" by (cases "fold (abs_stroke nk) ss v")
  show ?case using snoc v by (cases s) (auto split: if_splits)
qed (simp add: last_stroke_def)

lemma abs_strokes_nkro:
  assumes "\<not> IS_MODIFIER_KEYCODE k" "last_stroke k ss = Some (Down k)"
  shows "k \<in> snd (fold (abs_stroke True) ss v)"
  using assms
proof (induction ss rule: rev_induct)
  case (snoc s ss)
  obtain m ks where v: "fold (abs_stroke True) ss v = (m, ks)" by (cases "fold (abs_stroke True) ss v")
  show ?case using snoc v by (cases s) (auto simp: key_capacity_def split: if_splits)
qed (simp add: last_stroke_def)

section \<open>A plain key\<close>

text \<open>Only the layer caches and the space-cadet state change on the way to the action.\<close>

lemma update_cache_fields:
  obtains a b where "update_source_layers_cache key v st = st\<lparr>source_layers_cache := a, encoder_source_layers_cache := b\<rparr>"
proof -
  have "update_source_layers_cache key v st = st\<lparr>source_layers_cache := source_layers_cache (update_source_layers_cache key v st),
      encoder_source_layers_cache := encoder_source_layers_cache (update_source_layers_cache key v st)\<rparr>"
    by (simp add: update_source_layers_cache_def)
  then show thesis by (rule that)
qed

lemma process_keycode_plain:
  assumes "unat k < 0x52E0"
  shows "process_keycode E mem w k press st = (True, if press then reset_space_cadet st else st)"
proof -
  have ne: "k \<noteq> n" if "0x52E0 \<le> unat n" for n using assms that by auto
  have le: "\<not> n \<le> k" if "0x52E0 \<le> unat n" for n using assms that by (auto simp: word_le_nat_alt)
  have chain: "he_handle_keycode E k press s = (True, s)" "process_record_macro E mem w k press s = (True, s)"
    "process_magic E w k press s = (True, s)" "process_grave_esc w k press s = (True, s)"
    "process_underglow E k press s = (True, s)" "process_tri_layer k press s = (True, s)"
    "process_default_layer E k press s = (True, s)" "process_oneshot E k press s = (True, s)"
    "process_quantum E w k press s = (True, s)"
    "process_space_cadet w k press s = (True, if press then reset_space_cadet s else s)" for s
    by (simp_all add: he_handle_keycode_def process_record_macro_def process_record_via_def process_magic_def IS_MAGIC_KEYCODE_def
        process_grave_esc_def process_underglow_def underglow_cmds_def process_tri_layer_def process_default_layer_def in_range_def
        process_oneshot_def process_quantum_def process_space_cadet_def space_cadet_keys_def hw_defs ne le)
  show ?thesis by (simp add: process_keycode_def and_then_def chain)
qed

text \<open>The layer an event acts on: a press looks it up, a release uses the stored one.\<close>

definition event_layer :: "'e eeprom_driver \<Rightarrow> keyevent_t \<Rightarrow> ('e, 'z) layers_scheme \<Rightarrow> nat" where
  "event_layer E ev st =
     (if ev_pressed ev then layer_switch_get_layer E (ev_key ev) st
      else unat (read_source_layers_cache (ev_key ev) st))"

definition event_keycode :: "'e eeprom_driver \<Rightarrow> keyevent_t \<Rightarrow> ('e, 'z) layers_scheme \<Rightarrow> u16" where
  "event_keycode E ev st = keymap_key_to_keycode E (event_layer E ev st) (ev_key ev) (ee st)"

text \<open>An event whose keycode none of the handlers claims: keys, modified keys, layer and modifier keys.\<close>

definition quiet_event :: "'e eeprom_driver \<Rightarrow> keyevent_t \<Rightarrow> ('e, 'z) act_scheme \<Rightarrow> bool" where
  "quiet_event E ev st \<longleftrightarrow>
     \<not> IS_NOEVENT ev \<and> \<not> disable_action_cache st \<and> jumped st = None \<and> \<not> is_oneshot_layer_active st \<and>
     unat (event_keycode E ev st) < 0x52E0"

definition event_action :: "'e eeprom_driver \<Rightarrow> keyevent_t \<Rightarrow> ('e, 'z) layers_scheme \<Rightarrow> action_t" where
  "event_action E ev st = action_for_keycode (keymap_config st) (event_keycode E ev st)"

text \<open>The caches know the layer of an event's key, and of the other keys what they knew.\<close>

definition layer_cached :: "'e eeprom_driver \<Rightarrow> keyevent_t \<Rightarrow> ('e, 'z) act_scheme \<Rightarrow> ('e, 'z) act_scheme \<Rightarrow> bool" where
  "layer_cached E ev st st' \<longleftrightarrow>
     caches_ok st' \<and> (ev_pressed ev \<longrightarrow> unat (read_source_layers_cache (ev_key ev) st') = layer_switch_get_layer E (ev_key ev) st) \<and>
     (\<forall>key. in_matrix key \<and> key \<noteq> ev_key ev \<longrightarrow> read_source_layers_cache key st' = read_source_layers_cache key st)"

text \<open>\<open>k'\<close> is the code of a key or a modifier, after the configured swaps.\<close>

definition plain_event :: "'e eeprom_driver \<Rightarrow> keyevent_t \<Rightarrow> u16 \<Rightarrow> ('e, 'z) act_scheme \<Rightarrow> bool" where
  "plain_event E ev k' st \<longleftrightarrow>
     \<not> IS_NOEVENT ev \<and> \<not> disable_action_cache st \<and> jumped st = None \<and> \<not> is_oneshot_layer_active st \<and>
     unat (event_keycode E ev st) < 0x100 \<and> k' = keycode_config (keymap_config st) (event_keycode E ev st) \<and>
     (in_range 0x04 0xA4 k' \<or> in_range 0xE0 0xE7 k')"

definition same_but_caches :: "('e, 'z) act_scheme \<Rightarrow> ('e, 'z) act_scheme \<Rightarrow> bool" where
  "same_but_caches st st' \<longleftrightarrow>
     (\<exists>a b c. st' = st\<lparr>source_layers_cache := a, encoder_source_layers_cache := b, sc_last := c\<rparr>)"

lemma same_but_caches_refl [simp]: "same_but_caches st st"
proof -
  have "st = st\<lparr>source_layers_cache := source_layers_cache st, encoder_source_layers_cache := encoder_source_layers_cache st,
      sc_last := sc_last st\<rparr>" by simp
  then show ?thesis unfolding same_but_caches_def by blast
qed

lemma same_but_caches_fields:
  assumes "same_but_caches st st'"
  shows "hostio st' = hostio st" "ee st' = ee st" "keymap_config st' = keymap_config st" "jumped st' = jumped st"
    "disable_action_cache st' = disable_action_cache st" "oneshot_layer_data st' = oneshot_layer_data st"
    "layer_switch_get_layer E key st' = layer_switch_get_layer E key st"
    "nkro_now w st' = nkro_now w st" "is_oneshot_layer_active st' = is_oneshot_layer_active st"
  using assms
  by (auto simp: same_but_caches_def layer_switch_get_layer_def nkro_now_def is_oneshot_layer_active_def get_oneshot_layer_state_def)

lemma same_but_caches_update: "same_but_caches st st' \<Longrightarrow> same_but_caches st (update_source_layers_cache key v st')"
proof -
  assume "same_but_caches st st'"
  then obtain a0 b0 c where st': "st' = st\<lparr>source_layers_cache := a0, encoder_source_layers_cache := b0, sc_last := c\<rparr>"
    unfolding same_but_caches_def by blast
  obtain a b where "update_source_layers_cache key v st' = st'\<lparr>source_layers_cache := a, encoder_source_layers_cache := b\<rparr>"
    by (rule update_cache_fields)
  then have "update_source_layers_cache key v st' =
      st\<lparr>source_layers_cache := a, encoder_source_layers_cache := b, sc_last := c\<rparr>" by (simp add: st')
  then show ?thesis unfolding same_but_caches_def by blast
qed

lemma same_but_caches_reset: "same_but_caches st st' \<Longrightarrow> same_but_caches st (reset_space_cadet st')"
  by (force simp: same_but_caches_def reset_space_cadet_def)

lemma same_but_caches_trans: "same_but_caches st st' \<Longrightarrow> same_but_caches st' st'' \<Longrightarrow> same_but_caches st st''"
  by (force simp: same_but_caches_def)

lemma key_entry_inj: "in_matrix a \<Longrightarrow> in_matrix b \<Longrightarrow> key_entry a = key_entry b \<Longrightarrow> a = b"
proof -
  assume m: "in_matrix a" "in_matrix b" and e: "key_entry a = key_entry b"
  have d: "unat (row k) = key_entry k div 16" "unat (col k) = key_entry k mod 16" if "in_matrix k" for k
    using that by (simp_all add: in_matrix_def key_entry_def hw_defs)
  show "a = b" using d [OF m(1)] d [OF m(2)] e by (cases a; cases b) (simp add: word_unat_eq_iff)
qed

lemma update_cached:
  assumes "caches_ok st" "in_matrix (ev_key ev)"
  shows "layer_cached E ev st (update_source_layers_cache (ev_key ev) (word_of_nat (layer_switch_get_layer E (ev_key ev) st)) st)"
proof -
  let ?key = "ev_key ev" and ?l = "word_of_nat (layer_switch_get_layer E (ev_key ev) st) :: u8"
  have l: "layer_switch_get_layer E ?key st < 4" by (rule get_layer_less)
  then have l8: "?l < 8" "unat ?l = layer_switch_get_layer E ?key st" by (simp_all add: word_less_nat_alt unat_of_nat)
  have ok: "planes_ok (key_entry k) (source_layers_cache st)" if "in_matrix k" for k
    using assms key_entry_less [OF that] by (auto simp: caches_ok_def intro: planes_ok_less)
  have ne: "key_entry k \<noteq> key_entry ?key" if "in_matrix k" "k \<noteq> ?key" for k
    using key_entry_inj [OF that(1) assms(2)] that(2) by blast
  show ?thesis
    using cache_roundtrip(1) [OF ok l8(1)] cache_roundtrip(2) [OF ok ok, of ?key _ ?l] update_planes(1) [OF ok] assms l8(2) ne
    by (auto simp: layer_cached_def update_source_layers_cache_def read_source_layers_cache_def caches_ok_def)
qed

lemmas update_cache_same = same_but_caches_fields [OF same_but_caches_update [OF same_but_caches_refl]]
  same_but_caches_update [OF same_but_caches_refl]

lemma get_event_keycode_caches:
  assumes "\<not> disable_action_cache st"
  shows "fst (get_event_keycode E ev True st) = event_keycode E ev st"
    "same_but_caches st (snd (get_event_keycode E ev True st))"
    "\<not> ev_pressed ev \<Longrightarrow> snd (get_event_keycode E ev True st) = st"
    "caches_ok st \<Longrightarrow> in_matrix (ev_key ev) \<Longrightarrow> layer_cached E ev st (snd (get_event_keycode E ev True st))"
  using assms update_cached [where E = E and ev = ev and st = st]
  by (auto simp: get_event_keycode_def event_keycode_def event_layer_def layer_cached_def Let_def update_cache_same)

lemma store_or_get_action_caches:
  assumes "\<not> disable_action_cache st"
  shows "fst (store_or_get_action E (ev_pressed ev) (ev_key ev) st) = event_action E ev st"
    "same_but_caches st (snd (store_or_get_action E (ev_pressed ev) (ev_key ev) st))"
    "caches_ok st \<Longrightarrow> in_matrix (ev_key ev) \<Longrightarrow> layer_cached E ev st (snd (store_or_get_action E (ev_pressed ev) (ev_key ev) st))"
  using assms update_cached [where E = E and ev = ev and st = st]
  by (auto simp: update_cache_same store_or_get_action_def event_action_def event_keycode_def event_layer_def layer_cached_def action_for_key_def Let_def)

text \<open>A press is looked up in the layers, whatever the caches hold.\<close>

lemma press_cong:
  assumes "same_but_caches st st'" "ev_pressed ev \<or> st' = st"
  shows "event_keycode E ev st' = event_keycode E ev st" "event_action E ev st' = event_action E ev st"
    "quiet_event E ev st' = quiet_event E ev st"
proof -
  note f = same_but_caches_fields [OF assms(1)]
  show k: "event_keycode E ev st' = event_keycode E ev st"
    using assms(2) f(2,7) by (auto simp: event_keycode_def event_layer_def)
  show "event_action E ev st' = event_action E ev st" "quiet_event E ev st' = quiet_event E ev st"
    using f(3,4,5,9) by (simp_all add: event_action_def quiet_event_def k)
qed

lemma layer_cached_trans:
  "same_but_caches st st' \<Longrightarrow> layer_cached E ev st st' \<Longrightarrow> layer_cached E ev st' st'' \<Longrightarrow> layer_cached E ev st st''"
  using same_but_caches_fields(7) [of st st' E "ev_key ev"] by (simp add: layer_cached_def)

lemma layer_cached_reset: "layer_cached E ev st (reset_space_cadet st') = layer_cached E ev st st'"
  by (simp add: layer_cached_def reset_space_cadet_def caches_ok_def read_source_layers_cache_def)

lemma quiet_process_record:
  assumes "quiet_event E (event r) st"
  shows "\<exists>st2. same_but_caches st st2 \<and> (caches_ok st \<and> in_matrix (ev_key (event r)) \<longrightarrow> layer_cached E (event r) st st2) \<and>
    process_record E mem w r st = (r, action_switch w (pressed_rec r) (tap_count r) (event_action E (event r) st) st2)"
proof -
  let ?ev = "event r" and ?a = "event_action E (event r) st"
  have qe: "\<not> IS_NOEVENT ?ev" "\<not> disable_action_cache st" "jumped st = None" "\<not> is_oneshot_layer_active st"
    "unat (event_keycode E ?ev st) < 0x52E0"
    using assms by (auto simp: quiet_event_def)
  define s1 where "s1 = snd (get_event_keycode E ?ev True st)"
  define s2 where "s2 = (if pressed_rec r then reset_space_cadet s1 else s1)"
  define s3 where "s3 = snd (store_or_get_action E (pressed_rec r) (ev_key ?ev) s2)"
  note g = get_event_keycode_caches [OF qe(2), where E = E and ev = ?ev, folded s1_def]
  have q: "process_record_quantum E mem w ?ev st = (True, s2)"
    using process_keycode_plain [OF qe(5), of E mem w "pressed_rec r" s1] g(1)
    by (simp add: process_record_quantum_def split_beta s1_def s2_def)
  have s2: "same_but_caches st s2" "pressed_rec r \<or> s2 = st"
    using g(2,3) same_but_caches_reset by (auto simp: s2_def)
  have c2: "caches_ok st \<and> in_matrix (ev_key ?ev) \<longrightarrow> layer_cached E ?ev st s2"
    using g(4) by (simp add: s2_def layer_cached_reset)
  note f2 = same_but_caches_fields [OF s2(1)]
  have "\<not> disable_action_cache s2" using f2(5) qe(2) by simp
  note a = store_or_get_action_caches [OF this, where E = E and ev = ?ev, folded s3_def]
  have h: "store_or_get_action E (pressed_rec r) (ev_key ?ev) s2 = (?a, s3)"
    using a(1) press_cong(2) [OF s2] by (simp add: s3_def prod_eq_iff)
  have s3: "same_but_caches st s3" using same_but_caches_trans [OF s2(1) a(2)] .
  have c3: "caches_ok st \<and> in_matrix (ev_key ?ev) \<longrightarrow> layer_cached E ?ev st s3"
    using c2 a(3) layer_cached_trans [OF s2(1)] by (auto simp: layer_cached_def [of E ?ev st s2])
  have "ends_oneshot_layer p n ?a s3 = False" for p n
    using same_but_caches_fields(9) [OF s3] qe(4) by (simp add: ends_oneshot_layer_def)
  then have "process_action again w r ?a s3 = (r, action_switch w (pressed_rec r) (tap_count r) ?a s3)" for again
    by (simp add: process_action_def Let_def)
  then have "process_record E mem w r st = (r, action_switch w (pressed_rec r) (tap_count r) ?a s3)"
    using qe(1,3) q f2(4) h unfolding process_record_def process_record_with_def [of "process_record_with Pair E mem w"]
    by (simp add: process_record_handler_def)
  then show ?thesis using s3 c3 by blast
qed

text \<open>What comes before the tapping state machine.\<close>

lemma quiet_before_tapping:
  assumes "quiet_event E ev st" "weak_mods (hid (hostio st)) = 0"
  shows "\<exists>st1. same_but_caches st st1 \<and> (ev_pressed ev \<or> st1 = st) \<and>
    (caches_ok st \<and> in_matrix (ev_key ev) \<longrightarrow> layer_cached E ev st st1) \<and> before_tapping E ev st = (True, st1)"
proof -
  have qe: "\<not> IS_NOEVENT ev" "\<not> disable_action_cache st" using assms(1) by (auto simp: quiet_event_def)
  define s1 where "s1 = snd (get_event_keycode E ev True st)"
  define s2 where "s2 = snd (get_event_keycode E ev True s1)"
  note g1 = get_event_keycode_caches [OF qe(2), where E = E and ev = ev, folded s1_def]
  have "\<not> disable_action_cache s1" using same_but_caches_fields(5) [OF g1(2)] qe(2) by simp
  note g2 = get_event_keycode_caches [OF this, where E = E and ev = ev, folded s2_def]
  have "act_hid clear_weak_mods st = st" using assms(2) by (simp add: act_hid_def on_io_def clear_weak_mods_def)
  then have "before_tapping E ev st = (True, s2)"
    using qe(1) by (simp add: before_tapping_def pre_process_record_quantum_def s1_def s2_def)
  moreover have "same_but_caches st s2" using same_but_caches_trans [OF g1(2) g2(2)] .
  moreover have "ev_pressed ev \<or> s2 = st" using g1(3) g2(3) by auto
  moreover have "caches_ok st \<and> in_matrix (ev_key ev) \<longrightarrow> layer_cached E ev st s2"
    using g1(4) g2(4) layer_cached_trans [OF g1(2)] by (auto simp: layer_cached_def [of E ev st s1])
  ultimately show ?thesis by blast
qed

lemma plain_action:
  assumes "in_range 0x04 0xA4 k' \<or> in_range 0xE0 0xE7 k'"
  shows "kind_id (ACTION_KEY k') = ACT_MODS" "key_mods (ACTION_KEY k') = 0" "key_code (ACTION_KEY k') = ucast k'"
    "\<not> is_tap_action (ACTION_KEY k')"
proof -
  have "unat k' < 256" using assms by (auto simp: in_range_def word_le_nat_alt)
  then have u: "unat k' div 256 = 0" "unat k' div 4096 = 0" by simp_all
  have a: "ACTION_KEY k' = k'" by (simp add: ACTION_KEY_def ACTION_def hw_defs)
  have z: "drop_bit 8 k' = 0" "drop_bit 12 k' = 0"
    unfolding word_unat_eq_iff unat_drop_bit_eq using u by (simp_all add: drop_bit_eq_div)
  show "kind_id (ACTION_KEY k') = ACT_MODS" "key_mods (ACTION_KEY k') = 0" "key_code (ACTION_KEY k') = ucast k'"
    "\<not> is_tap_action (ACTION_KEY k')"
    by (simp_all add: a kind_id_def key_mods_def key_code_def z is_tap_action_def hw_defs)
qed

lemma plain_event_quiet: "plain_event E ev k' st \<Longrightarrow> quiet_event E ev st"
  by (simp add: plain_event_def quiet_event_def)

lemma plain_event_action:
  assumes "plain_event E ev k' st"
  shows "event_action E ev st = ACTION_KEY k'"
proof -
  have "k' = keycode_config (keymap_config st) (event_keycode E ev st)" "in_range 0x04 0xA4 k' \<or> in_range 0xE0 0xE7 k'"
    using assms by (auto simp: plain_event_def)
  then show ?thesis by (auto simp: event_action_def action_for_keycode_def Let_def)
qed

lemma plain_switch:
  assumes "in_range 0x04 0xA4 k' \<or> in_range 0xE0 0xE7 k'"
  shows "action_switch w p n (ACTION_KEY k') st = (if p then act_register w (ucast k') st else act_unregister w (ucast k') st)"
  using plain_action [OF assms] by (simp add: action_switch_def mods_action_def mods_on_press_def mods_on_release_def Let_def)

lemma press_action: "ev_pressed ev \<Longrightarrow> layer_switch_get_action E (ev_key ev) st = event_action E ev st"
  by (simp add: layer_switch_get_action_def event_action_def action_for_key_def event_keycode_def event_layer_def)

text \<open>What the key state machine and the host side do not touch.\<close>

lemma tap_state_cong [simp]:
  fixes s :: "('e, 'z) task_scheme"
  shows "event_keycode E ev (s\<lparr>tap_state := tp\<rparr>) = event_keycode E ev s" "event_action E ev (s\<lparr>tap_state := tp\<rparr>) = event_action E ev s"
    "quiet_event E ev (s\<lparr>tap_state := tp\<rparr>) = quiet_event E ev s" "caches_ok (s\<lparr>tap_state := tp\<rparr>) = caches_ok s"
    "layer_cached E ev st (s\<lparr>tap_state := tp\<rparr>) = layer_cached E ev st s"
    "layer_cached E ev (s\<lparr>tap_state := tp\<rparr>) s' = layer_cached E ev s s'"
    "nkro_now w (s\<lparr>tap_state := tp\<rparr>) = nkro_now w s" "is_oneshot_layer_active (s\<lparr>tap_state := tp\<rparr>) = is_oneshot_layer_active s"
  by (simp_all add: event_keycode_def event_layer_def layer_switch_get_layer_def read_source_layers_cache_def event_action_def
      quiet_event_def caches_ok_def layer_cached_def nkro_now_def is_oneshot_layer_active_def get_oneshot_layer_state_def)

lemma same_but_caches_rest:
  fixes st :: "('e, 'z) task_scheme"
  assumes "same_but_caches st st'"
  shows "tap_state st' = tap_state st" "layer_state st' = layer_state st" "default_layer_state st' = default_layer_state st"
    "gpio st' = gpio st" "encoder st' = encoder st"
  using assms by (auto simp: same_but_caches_def)

lemma on_io_cong [simp]:
  fixes st :: "('e, 'z) task_scheme"
  shows "layer_cached E ev st0 (on_io f st) = layer_cached E ev st0 st" "nkro_now w (on_io f st) = nkro_now w st"
    "is_oneshot_layer_active (on_io f st) = is_oneshot_layer_active st" "hostio (on_io f st) = f (hostio st)"
    "jumped (on_io f st) = jumped st" "ee (on_io f st) = ee st" "keymap_config (on_io f st) = keymap_config st"
    "disable_action_cache (on_io f st) = disable_action_cache st" "layer_state (on_io f st) = layer_state st"
    "tap_state (on_io f st) = tap_state st" "caches_ok (on_io f st) = caches_ok st"
    "gpio (on_io f st) = gpio st" "encoder (on_io f st) = encoder st"
  by (simp_all add: on_io_def layer_cached_def caches_ok_def read_source_layers_cache_def nkro_now_def is_oneshot_layer_active_def
      get_oneshot_layer_state_def)

lemma ucast_plain:
  assumes "in_range 0x04 0xA4 k \<or> in_range 0xE0 0xE7 k"
  shows "typed_code (ucast k)"
proof -
  have "unat k < 256" using assms by (auto simp: in_range_def word_le_nat_alt)
  then have "unat (ucast k :: u8) = unat k" by (simp add: unsigned_ucast_eq unsigned_take_bit_eq take_bit_nat_eq_self)
  then show ?thesis
    using assms by (auto simp: typed_code_def code_class_defs in_range_def word_le_nat_alt)
qed

text \<open>An event that is neither kept back nor claimed goes straight to its action.\<close>

lemma quiet_action_exec:
  assumes "quiet_event E ev st" "tapping_idle_state (tap_state st)" "weak_mods (hid (hostio st)) = 0"
    and "\<not> (ev_pressed ev \<and> is_tap_action (event_action E ev st))"
  shows "\<exists>st2. same_but_caches st st2 \<and> (caches_ok st \<and> in_matrix (ev_key ev) \<longrightarrow> layer_cached E ev st st2) \<and>
    action_exec E mem w ev st = (action_switch w (ev_pressed ev) 0 (event_action E ev st) st2)\<lparr>tap_state := tap_state st\<rparr>"
proof -
  let ?r = "new_record ev"
  have r: "event ?r = ev" "tap_count ?r = 0" by (simp_all add: new_record_def)
  obtain s1 where s1: "same_but_caches st s1" "ev_pressed ev \<or> s1 = st" "before_tapping E ev st = (True, s1)"
    and c1: "caches_ok st \<and> in_matrix (ev_key ev) \<longrightarrow> layer_cached E ev st s1"
    using quiet_before_tapping [OF assms(1,3)] by blast
  have ts: "tap_state s1 = tap_state st" using s1(1) by (auto simp: same_but_caches_def)
  have j: "jumped s1 = None" using same_but_caches_fields(4) [OF s1(1)] assms(1) by (simp add: quiet_event_def)
  have "\<not> (pressed_rec ?r \<and> is_tap_record (board_ops E mem w) ?r s1)"
    using assms(4) press_cong(2) [OF s1(1,2)] press_action [of ev E s1] by (auto simp: r is_tap_record_def board_ops_def)
  then have pass: "action_tapping_process (board_ops E mem w) ?r (tap_state s1) s1
      = (tap_state s1, snd (op_process_record (board_ops E mem w) ?r s1))"
    using assms(1,2) by (intro not_tap_passes) (simp_all add: ts r quiet_event_def)
  have "quiet_event E (event ?r) s1" using press_cong(3) [OF s1(1,2)] assms(1) by (simp add: r)
  from quiet_process_record [OF this, of mem w] obtain s2 where s2: "same_but_caches s1 s2"
    and c2: "caches_ok s1 \<and> in_matrix (ev_key ev) \<longrightarrow> layer_cached E ev s1 s2"
    and p: "process_record E mem w ?r s1 = (?r, action_switch w (ev_pressed ev) 0 (event_action E ev st) s2)"
    using press_cong(2) [OF s1(1,2)] by (auto simp: r)
  have "action_exec E mem w ev st = (action_switch w (ev_pressed ev) 0 (event_action E ev st) s2)\<lparr>tap_state := tap_state st\<rparr>"
    using pass p j by (simp add: action_exec_def s1(3) board_ops_def ts)
  moreover have "caches_ok st \<and> in_matrix (ev_key ev) \<longrightarrow> layer_cached E ev st s2"
    using c1 c2 layer_cached_trans [OF s1(1)] by (auto simp: layer_cached_def [of E ev st s1])
  ultimately show ?thesis using same_but_caches_trans [OF s1(1) s2] by blast
qed

lemma plain_action_exec:
  assumes "plain_event E ev k' st" "tapping_idle_state (tap_state st)" "weak_mods (hid (hostio st)) = 0"
  shows "\<exists>st2. same_but_caches st st2 \<and> action_exec E mem w ev st =
    (if ev_pressed ev then act_register w (ucast k') st2 else act_unregister w (ucast k') st2)\<lparr>tap_state := tap_state st\<rparr>"
proof -
  have k: "in_range 0x04 0xA4 k' \<or> in_range 0xE0 0xE7 k'" using assms(1) unfolding plain_event_def by blast
  have "\<not> is_tap_action (event_action E ev st)" using plain_action(4) [OF k] plain_event_action [OF assms(1)] by simp
  then show ?thesis
    using quiet_action_exec [OF plain_event_quiet [OF assms(1)] assms(2,3), of mem w]
    unfolding plain_event_action [OF assms(1)] plain_switch [OF k] by blast
qed

lemma plain_key_refines:
  fixes mem :: "lut \<Rightarrow> nat \<Rightarrow> u8"
  assumes "plain_event E ev k' st" "tapping_idle_state (tap_state st)" "typing_ok nk (hid (hostio st))" "nk = nkro_now w st"
  defines "st' \<equiv> action_exec E mem w ev st" and "s \<equiv> if ev_pressed ev then Down (ucast k') else Up (ucast k')"
  shows "host_view nk (hid (hostio st')) = abs_stroke nk s (host_view nk (hid (hostio st)))"
    "typing_ok nk (hid (hostio st'))" "tap_state st' = tap_state st" "jumped st' = None"
proof -
  obtain s2 where s2: "same_but_caches st s2" and st': "st' =
      (if ev_pressed ev then act_register w (ucast k') s2 else act_unregister w (ucast k') s2)\<lparr>tap_state := tap_state st\<rparr>"
    using plain_action_exec [OF assms(1,2), of mem w] assms(3) by (auto simp: st'_def typing_ok_def)
  note f = same_but_caches_fields [OF s2]
  have io: "hostio st' = strike (pins w) nk s (hostio st)"
    using f(1,8) assms(4) by (simp add: st' s_def act_register_def act_unregister_def on_io_def)
  have "typed_code (stroke_code s)" 
    using assms(1) ucast_plain unfolding plain_event_def s_def by (metis stroke_code.simps)
  then show "host_view nk (hid (hostio st')) = abs_stroke nk s (host_view nk (hid (hostio st)))"
    "typing_ok nk (hid (hostio st'))"
    using strike_refines [OF assms(3)] by (simp_all add: io)
  show "tap_state st' = tap_state st" "jumped st' = None"
    using f(4) assms(1) by (simp_all add: st' act_register_def act_unregister_def on_io_def plain_event_def)
qed

section \<open>The plain keys of a pass\<close>

lemma plain_other_key:
  fixes st st' :: "('e, 'z) task_scheme"
  assumes "plain_event E ev k st" "ev_pressed ev \<or> read_source_layers_cache (ev_key ev) st' = read_source_layers_cache (ev_key ev) st"
    "disable_action_cache st' = disable_action_cache st" "jumped st' = jumped st" "is_oneshot_layer_active st' = is_oneshot_layer_active st"
    "keymap_config st' = keymap_config st" "ee st' = ee st" "layer_switch_get_layer E (ev_key ev) st' = layer_switch_get_layer E (ev_key ev) st"
  shows "plain_event E ev k st'"
proof -
  have k: "event_keycode E ev st' = event_keycode E ev st" using assms(2,7,8) by (auto simp: event_keycode_def event_layer_def)
  show ?thesis using assms(1) unfolding plain_event_def assms(3-6) k .
qed

definition event_stroke :: "(keyevent_t \<Rightarrow> u16) \<Rightarrow> keyevent_t \<Rightarrow> stroke" where
  "event_stroke code ev = (if ev_pressed ev then Down (ucast (code ev)) else Up (ucast (code ev)))"

lemma plain_step:
  fixes st :: "('e, 'z) task_scheme" and mem w
  assumes "plain_event E ev k st" "tapping_idle_state (tap_state st)" "typing_ok nk (hid (hostio st))" "nk = nkro_now w st"
    "caches_ok st" "in_matrix (ev_key ev)"
  defines "st' \<equiv> action_exec E mem w ev st"
  shows "nkro_now w st' = nk" "caches_ok st'" "gpio st' = gpio st" "encoder st' = encoder st"
    "plain_event E ev' k' st \<Longrightarrow> in_matrix (ev_key ev') \<Longrightarrow> ev_key ev' \<noteq> ev_key ev \<Longrightarrow> plain_event E ev' k' st'"
proof -
  have k: "in_range 0x04 0xA4 k \<or> in_range 0xE0 0xE7 k" using assms(1) unfolding plain_event_def by blast
  have n: "\<not> is_tap_action (event_action E ev st)" using plain_action(4) [OF k] plain_event_action [OF assms(1)] by simp
  have wm: "weak_mods (hid (hostio st)) = 0" using assms(3) by (simp add: typing_ok_def)
  obtain s2 where s2: "same_but_caches st s2" "layer_cached E ev st s2" and x: "st' =
      (if ev_pressed ev then act_register w (ucast k) s2 else act_unregister w (ucast k) s2)\<lparr>tap_state := tap_state st\<rparr>"
    using quiet_action_exec [OF plain_event_quiet [OF assms(1)] assms(2) wm, of mem w] n assms(5,6)
    unfolding plain_event_action [OF assms(1)] plain_switch [OF k] st'_def by blast
  note f = same_but_caches_fields [OF s2(1)]
  have r: "read_source_layers_cache key st' = read_source_layers_cache key s2" "layer_switch_get_layer E key st' = layer_switch_get_layer E key s2"
    for key
    by (simp_all add: x act_register_def act_unregister_def on_io_def read_source_layers_cache_def layer_switch_get_layer_def)
  show "nkro_now w st' = nk" "caches_ok st'" "gpio st' = gpio st" "encoder st' = encoder st"
    using f same_but_caches_rest [OF s2(1)] assms(4) s2(2) by (simp_all add: x act_register_def act_unregister_def layer_cached_def)
  show "plain_event E ev' k' st'" if "plain_event E ev' k' st" "in_matrix (ev_key ev')" "ev_key ev' \<noteq> ev_key ev"
  proof (rule plain_other_key [OF that(1)])
    show "ev_pressed ev' \<or> read_source_layers_cache (ev_key ev') st' = read_source_layers_cache (ev_key ev') st"
      using s2(2) that(2,3) by (simp add: r layer_cached_def)
    show "layer_switch_get_layer E (ev_key ev') st' = layer_switch_get_layer E (ev_key ev') st" using f(7) by (simp add: r)
  qed (use f in \<open>simp_all add: x act_register_def act_unregister_def\<close>)
qed

lemma plain_events_refine:
  fixes st :: "('e, 'z) task_scheme"
  assumes "\<forall>ev\<in>set evs. plain_event E ev (code ev) st \<and> in_matrix (ev_key ev)" "distinct (map ev_key evs)"
    "tapping_idle_state (tap_state st)" "typing_ok nk (hid (hostio st))" "nk = nkro_now w st" "caches_ok st" "jumped st = None"
  shows "host_view nk (hid (hostio (exec_events E mem w evs st))) = fold (abs_stroke nk) (map (event_stroke code) evs) (host_view nk (hid (hostio st)))
    \<and> typing_ok nk (hid (hostio (exec_events E mem w evs st))) \<and> jumped (exec_events E mem w evs st) = None
    \<and> tap_state (exec_events E mem w evs st) = tap_state st
    \<and> gpio (exec_events E mem w evs st) = gpio st \<and> encoder (exec_events E mem w evs st) = encoder st"
  using assms
proof (induction evs arbitrary: st)
  case Nil
  then show ?case by (simp add: exec_events_def)
next
  case (Cons ev evs)
  let ?st1 = "action_exec E mem w ev st"
  have p: "plain_event E ev (code ev) st" "in_matrix (ev_key ev)" using Cons.prems(1) by simp_all
  note r = plain_key_refines [OF p(1) Cons.prems(3-5), where mem = mem]
  note s = plain_step [OF p(1) Cons.prems(3-6) p(2), where mem = mem]
  have "\<forall>ev'\<in>set evs. plain_event E ev' (code ev') ?st1 \<and> in_matrix (ev_key ev')"
  proof
    fix ev' assume e: "ev' \<in> set evs"
    then have "ev_key ev' \<noteq> ev_key ev" using Cons.prems(2) by (metis distinct.simps(2) image_eqI list.set_map list.simps(9))
    then show "plain_event E ev' (code ev') ?st1 \<and> in_matrix (ev_key ev')" using e Cons.prems(1) s(5) by simp
  qed
  note ih = Cons.IH [OF this _ _ r(2) s(1) [symmetric] s(2) r(4)]
  have "exec_events E mem w (ev # evs) st = exec_events E mem w evs ?st1"
    using Cons.prems(7) by (simp add: exec_events_def)
  then show ?case using ih Cons.prems(2,3) r s(3,4) by (simp add: event_stroke_def)
qed

end
