(* ===== verification/Main_Loop.thy ===== *)
theory Main_Loop
  imports Typing Boot
begin

text \<open>
  The invariant of the running firmware over whole passes of the main loop: \<open>act_ok\<close> adds to \<open>kb_ok\<close> the
  storage layer's invariant and sound reports, \<open>task_ok\<close> a sound tapping state. Every operation an event can
  reach keeps it, so \<open>keyboard_task\<close>, host packets, suspend and wake-up do. \<open>main_step\<close> is the step relation of the
  main loop.
\<close>

section \<open>Invariants\<close>

definition act_ok :: "('e \<Rightarrow> bool) \<Rightarrow> ('e, 'z) act_scheme \<Rightarrow> bool" where
  "act_ok I st \<longleftrightarrow> kb_ok st \<and> I (ee st) \<and> hid_ok (hid (hostio st))"

definition task_ok :: "('e \<Rightarrow> bool) \<Rightarrow> ('e, 'z) task_scheme \<Rightarrow> bool" where
  "task_ok I st \<longleftrightarrow> act_ok I st \<and> tapping_ok (tap_state st)"

lemmas kb_ok_defs = kb_ok_def fw_ok_def he_ok_def matrix_ok_def caches_ok_def

lemma act_ok_fields [simp]:
  "act_ok I (st\<lparr>oneshot_layer_data := a\<rparr>) = act_ok I st" "act_ok I (st\<lparr>grave_esc_was_shifted := b\<rparr>) = act_ok I st"
  "act_ok I (st\<lparr>sc_last := a\<rparr>) = act_ok I st" "act_ok I (st\<lparr>sc_timer := c\<rparr>) = act_ok I st"
  "act_ok I (st\<lparr>jumped := j\<rparr>) = act_ok I st" "act_ok I (st\<lparr>keymap_config := c\<rparr>) = act_ok I st"
  "act_ok I (st\<lparr>debug_config := d\<rparr>) = act_ok I st" "act_ok I (st\<lparr>layer_state := l\<rparr>) = act_ok I st"
  "act_ok I (st\<lparr>default_layer_state := l\<rparr>) = act_ok I st"
  by (simp_all add: act_ok_def kb_ok_def fw_ok_def) (simp_all add: he_ok_def matrix_ok_def caches_ok_def)

lemma act_ok_ee: "act_ok I st \<Longrightarrow> I e \<Longrightarrow> act_ok I (st\<lparr>ee := e\<rparr>)"
  by (simp add: act_ok_def kb_ok_def fw_ok_def) (simp add: he_ok_def matrix_ok_def caches_ok_def)

lemma act_ok_io: "act_ok I st \<Longrightarrow> hid_ok (hid io) \<Longrightarrow> act_ok I (st\<lparr>hostio := io\<rparr>)"
  by (simp add: act_ok_def kb_ok_def fw_ok_def) (simp add: he_ok_def matrix_ok_def caches_ok_def)

section \<open>Reports stay sound\<close>

lemma hid_ok_ops [simp]:
  "hid_ok (host_system_send u h) = hid_ok h" "hid_ok (host_consumer_send u h) = hid_ok h" "hid_ok (wait_ms n h) = hid_ok h"
  "hid_ok (add_mods m h) = hid_ok h" "hid_ok (del_mods m h) = hid_ok h" "hid_ok (clear_mods h) = hid_ok h"
  "hid_ok (add_weak_mods m h) = hid_ok h" "hid_ok (del_weak_mods m h) = hid_ok h" "hid_ok (clear_weak_mods h) = hid_ok h"
  "hid_ok (add_oneshot_mods m h) = hid_ok h" "hid_ok (del_oneshot_mods m h) = hid_ok h"
  "hid_ok (del_oneshot_locked_mods m h) = hid_ok h" "hid_ok (snd (host_mouse_send r h)) = hid_ok h"
  by (simp_all add: host_system_send_def host_consumer_send_def wait_ms_def add_mods_def del_mods_def clear_mods_def
      add_weak_mods_def del_weak_mods_def clear_weak_mods_def add_oneshot_mods_def del_oneshot_mods_def
      del_oneshot_locked_mods_def host_mouse_send_def hid_ok_def Let_def)

lemma hid_ok_mods [simp]:
  "hid_ok (register_mods nk m h) = hid_ok h" "hid_ok (unregister_mods nk m h) = hid_ok h"
  by (simp_all add: register_mods_def unregister_mods_def)

lemma hid_ok_mousekey_send [simp]: "hid_ok (snd (mousekey_send env m h)) = hid_ok h"
  by (simp add: mousekey_send_def Let_def split_beta)

lemma hid_ok_mouse [simp]:
  "hid_ok (hid (register_mouse env k p io)) = hid_ok (hid io)" "hid_ok (snd (mousekey_task env m h)) = hid_ok h"
  by (simp_all add: register_mouse_def mousekey_task_def Let_def split_beta)

lemma hid_ok_register: "hid_ok (hid io) \<Longrightarrow> hid_ok (hid (register_code env nk k io))"
  using report_keys_add(2) report_keys_del(2) by (simp add: register_code_def Let_def)

lemma hid_ok_unregister: "hid_ok (hid io) \<Longrightarrow> hid_ok (hid (unregister_code env nk k io))"
  using report_keys_del(2) by (simp add: unregister_code_def)

lemma hid_ok_tap: "hid_ok (hid io) \<Longrightarrow> hid_ok (hid (tap_code env nk k io))"
  by (simp add: tap_code_def tap_code_delay_def hid_ok_register hid_ok_unregister)

lemma hid_ok_clear: "hid_ok (hid io) \<Longrightarrow> hid_ok (hid (clear_keyboard env nk io))"
proof -
  assume ok: "hid_ok (hid io)"
  define h where "h = send_keyboard_report nk (clear_weak_mods (host_consumer_send 0 (host_system_send 0 (clear_keys nk (clear_mods (hid io))))))"
  have "hid_ok h" using ok report_keys_clear(2) by (simp add: h_def)
  moreover have "hid (clear_keyboard env nk io) = snd (mousekey_send env (mousekey_clear (mouse io)) h)"
    by (simp add: clear_keyboard_def clear_keyboard_but_mods_def clear_keyboard_but_mods_and_keys_def Let_def h_def split: prod.split)
  ultimately show ?thesis by simp
qed

section \<open>Actions\<close>

lemma act_ok_hid: "act_ok I st \<Longrightarrow> hid_ok (f (hid (hostio st))) \<Longrightarrow> act_ok I (act_hid f st)"
  by (simp add: act_hid_def on_io_def act_ok_io)

lemma act_ok_hid_same: "act_ok I st \<Longrightarrow> (\<And>h. hid_ok (f h) = hid_ok h) \<Longrightarrow> act_ok I (act_hid f st)"
  by (rule act_ok_hid) (simp_all add: act_ok_def)

lemma act_ok_reports [intro]:
  assumes "act_ok I st"
  shows "act_ok I (act_send w st)" "act_ok I (act_register w k st)" "act_ok I (act_unregister w k st)"
    "act_ok I (act_register_mods w m st)" "act_ok I (act_unregister_mods w m st)" "act_ok I (act_clear w st)"
    "act_ok I (on_io (register_mouse (pins w) k p) st)" "act_ok I (on_io (tap_code (pins w) nk k) st)"
proof -
  have h: "hid_ok (hid (hostio st))" using assms by (simp add: act_ok_def)
  show "act_ok I (act_send w st)" "act_ok I (act_register_mods w m st)" "act_ok I (act_unregister_mods w m st)"
    unfolding act_send_def act_register_mods_def act_unregister_mods_def by (simp_all add: act_ok_hid assms h)
  show "act_ok I (act_register w k st)" "act_ok I (act_unregister w k st)" "act_ok I (act_clear w st)"
    "act_ok I (on_io (register_mouse (pins w) k p) st)" "act_ok I (on_io (tap_code (pins w) nk k) st)"
    using h by (simp_all add: act_register_def act_unregister_def act_clear_def on_io_def act_ok_io assms hid_ok_register
        hid_ok_unregister hid_ok_clear hid_ok_tap)
qed

lemmas layer_op_defs = layer_state_set_def layer_clear_def layer_move_def layer_on_def layer_off_def layer_invert_def layer_or_def
  layer_and_def layer_xor_def update_tri_layer_def default_layer_state_set_def default_layer_set_def default_layer_or_def
  default_layer_and_def default_layer_xor_def

lemma act_ok_layers [simp]:
  "act_ok I (layer_state_set l st) = act_ok I st" "act_ok I (layer_clear st) = act_ok I st" "act_ok I (layer_move n st) = act_ok I st"
  "act_ok I (layer_on n st) = act_ok I st" "act_ok I (layer_off n st) = act_ok I st" "act_ok I (layer_invert n st) = act_ok I st"
  "act_ok I (layer_or l st) = act_ok I st" "act_ok I (layer_and l st) = act_ok I st" "act_ok I (layer_xor l st) = act_ok I st"
  "act_ok I (update_tri_layer a b c st) = act_ok I st" "act_ok I (default_layer_set l st) = act_ok I st"
  "act_ok I (default_layer_or l st) = act_ok I st" "act_ok I (default_layer_and l st) = act_ok I st"
  "act_ok I (default_layer_xor l st) = act_ok I st"
  by (simp_all add: layer_op_defs)

lemma act_ok_oneshot [simp]:
  "act_ok I (set_oneshot_layer l s st) = act_ok I st" "act_ok I (clear_oneshot_layer_state s st) = act_ok I st"
  by (simp_all add: set_oneshot_layer_def clear_oneshot_layer_state_def reset_oneshot_layer_def Let_def)

lemma act_ok_mods_action: "act_ok I st \<Longrightarrow> act_ok I (mods_action w p m k st)"
  by (auto simp: mods_action_def mods_on_press_def mods_on_release_def Let_def intro!: act_ok_reports act_ok_hid_same)

lemma act_ok_tap_release: "act_ok I st \<Longrightarrow> act_ok I (tap_release w t k st)"
  by (auto simp: tap_release_def intro!: act_ok_reports act_ok_hid_same)

lemma act_ok_mods_tap: "act_ok I st \<Longrightarrow> act_ok I (mods_tap_action w p n m a st)"
  by (auto simp: mods_tap_action_def oneshot_mods_action_def
      intro!: act_ok_mods_action act_ok_tap_release act_ok_reports act_ok_hid_same)

lemma act_ok_usage: "act_ok I st \<Longrightarrow> act_ok I (usage_action p a st)"
  by (simp add: usage_action_def act_ok_hid_same)

lemma act_ok_layer_bitop: "act_ok I st \<Longrightarrow> act_ok I (layer_bitop_action p a st)"
  by (simp add: layer_bitop_action_def Let_def)

lemma act_ok_layer_mods: "act_ok I st \<Longrightarrow> act_ok I (layer_mods_action w p a st)"
  by (auto simp: layer_mods_action_def)

lemma act_ok_layer_tap: "act_ok I st \<Longrightarrow> act_ok I (layer_tap_action w p n a st)"
  by (auto simp: layer_tap_action_def Let_def intro: act_ok_tap_release)

lemma act_ok_switch: "act_ok I st \<Longrightarrow> act_ok I (action_switch w p n a st)"
  by (simp add: action_switch_def Let_def act_ok_mods_action act_ok_mods_tap act_ok_usage act_ok_layer_bitop act_ok_layer_mods
      act_ok_layer_tap act_ok_reports)

lemma act_ok_process_action:
  assumes "act_ok I st" "\<And>r st. act_ok I st \<Longrightarrow> act_ok I (snd (again r st))"
  shows "act_ok I (snd (process_action again w r a st))"
  using assms by (simp add: process_action_def Let_def split_beta act_ok_switch)

section \<open>From the event to the action\<close>

lemma planes_ok_update: "planes_ok n planes \<Longrightarrow> planes_ok n (update_source_layers_cache_impl l m planes)"
proof -
  assume ok: "planes_ok n planes"
  have step: "planes_ok n (p[i := (p ! i)[b := x]])" if "planes_ok n p" for p :: "u8 list list" and i b x
  proof (cases "i < length p")
    case True
    then show ?thesis using that by (auto simp: planes_ok_def dest!: subsetD [OF set_update_subset_insert])
  qed (use that in \<open>simp add: list_update_beyond\<close>)
  have "planes_ok n (for_range b (\<lambda>b p. p[m div 8 := (p ! (m div 8))[b := f b p]]) planes)" for b f
    using ok step by (induction b) (simp_all add: for_range_Suc)
  then show ?thesis by (simp add: update_source_layers_cache_impl_def Let_def)
qed

lemma act_ok_caches:
  fixes st :: "('e, 'z) act_scheme"
  assumes "act_ok I st"
  shows "act_ok I (update_source_layers_cache key l st)"
proof -
  have "planes_ok 79 (update_source_layers_cache_impl l n (source_layers_cache st))"
    "planes_ok 7 (update_source_layers_cache_impl l n (encoder_source_layers_cache st))" for n
    using assms by (simp_all add: act_ok_def kb_ok_def caches_ok_def planes_ok_update)
  then show ?thesis
    using assms by (simp add: update_source_layers_cache_def act_ok_def kb_ok_def fw_ok_def) (simp add: he_ok_def matrix_ok_def caches_ok_def)
qed

lemma act_ok_event_keycode: "act_ok I st \<Longrightarrow> act_ok I (snd (get_event_keycode E ev u st))"
  by (simp add: get_event_keycode_def Let_def act_ok_caches)

lemma act_ok_store: "act_ok I st \<Longrightarrow> act_ok I (snd (store_or_get_action E p key st))"
  by (simp add: store_or_get_action_def Let_def act_ok_caches)

lemma act_ok_pre_process: "act_ok I st \<Longrightarrow> act_ok I (snd (pre_process_record_quantum E ev st))"
  by (simp add: pre_process_record_quantum_def act_ok_event_keycode)

text \<open>Typing a string.\<close>

lemma typing_ok_parts:
  assumes "hid_ok (hid (snd t))"
  shows "hid_ok (hid (snd (typing_wait n t)))" "hid_ok (hid (snd (typing_do (\<lambda>env. register_code env nk k) t)))"
    "hid_ok (hid (snd (typing_do (\<lambda>env. unregister_code env nk k) t)))" "hid_ok (hid (snd (typing_tap nk k n t)))"
    "hid_ok (hid (snd (typing_tap_code nk k t)))"
proof -
  have w: "hid_ok (hid (snd (typing_wait n t)))" if "hid_ok (hid (snd t))" for n t
    using that by (simp add: typing_wait_def split_beta)
  have r: "hid_ok (hid (snd (typing_do (\<lambda>env. register_code env nk k) t)))" if "hid_ok (hid (snd t))" for t
    using that by (simp add: typing_do_def split_beta hid_ok_register)
  have u: "hid_ok (hid (snd (typing_do (\<lambda>env. unregister_code env nk k) t)))" if "hid_ok (hid (snd t))" for t
    using that by (simp add: typing_do_def split_beta hid_ok_unregister)
  show "hid_ok (hid (snd (typing_wait n t)))" "hid_ok (hid (snd (typing_do (\<lambda>env. register_code env nk k) t)))"
    "hid_ok (hid (snd (typing_do (\<lambda>env. unregister_code env nk k) t)))" "hid_ok (hid (snd (typing_tap nk k n t)))"
    "hid_ok (hid (snd (typing_tap_code nk k t)))"
    using assms by (simp_all add: w r u typing_tap_def typing_tap_code_def)
qed

lemma hid_ok_send_char: "hid_ok (hid (snd t)) \<Longrightarrow> hid_ok (hid (snd (send_char_with_delay mem nk c n t)))"
  by (simp add: send_char_with_delay_def Let_def typing_ok_parts)

lemma hid_ok_escape: "send_escape nk xs t = (c, xs', t') \<Longrightarrow> hid_ok (hid (snd t)) \<Longrightarrow> hid_ok (hid (snd t'))"
  by (auto simp: send_escape_def Let_def typing_ok_parts split: prod.splits if_splits)

lemma hid_ok_send_string: "hid_ok (hid (snd t)) \<Longrightarrow> hid_ok (hid (snd (send_string_with_delay_impl mem nk n xs t)))"
proof (induction mem nk n xs t rule: send_string_with_delay_impl.induct)
  case (2 mem nk interval c xs t)
  show ?case
  proof (cases "c = SS_QMK_PREFIX \<and> c \<noteq> 0")
    case True
    obtain c' xs' t' where e: "send_escape nk xs t = (c', xs', t')" by (cases "send_escape nk xs t")
    have "hid_ok (hid (snd (typing_wait interval t')))" using hid_ok_escape [OF e 2(3)] by (rule typing_ok_parts)
    then show ?thesis using 2(1) True e by (auto simp: Let_def)
  next
    case False
    then show ?thesis using 2 by (auto simp: hid_ok_send_char)
  qed
qed simp

lemma act_ok_macro: "act_ok I st \<Longrightarrow> act_ok I (macro_play E mem w o' st)"
  unfolding macro_play_def by (rule act_ok_io) (auto intro!: hid_ok_send_string simp: act_ok_def)

lemma act_ok_process_macro: "act_ok I st \<Longrightarrow> act_ok I (snd (process_record_macro E mem w k p st))"
  by (auto simp: process_record_macro_def act_ok_macro split: prod.split option.split)

lemma act_ok_space_cadet: "act_ok I st \<Longrightarrow> act_ok I (snd (process_space_cadet w k p st))"
  by (auto simp: process_space_cadet_def perform_space_cadet_def reset_space_cadet_def Let_def intro!: act_ok_reports split: option.split)

lemma act_ok_hidD: "act_ok I st \<Longrightarrow> hid_ok (hid (hostio st))"
  by (simp add: act_ok_def)

lemma act_ok_keys:
  assumes "act_ok I st"
  shows "k \<noteq> 0 \<Longrightarrow> act_ok I (act_hid (add_key nk k) st)" "act_ok I (act_hid (del_key nk k) st)"
  using assms act_ok_hidD [OF assms] by (simp_all add: act_ok_hid report_keys_add(2) report_keys_del(2))

lemma act_ok_grave_esc: "act_ok I st \<Longrightarrow> act_ok I (snd (process_grave_esc w k p st))"
  by (simp add: process_grave_esc_def Let_def hw_defs act_ok_reports act_ok_keys)

text \<open>What keeps the frame of \<open>Firmware\<close> keeps the reports.\<close>

lemma frame_fields:
  fixes st :: "('e, 'z) act_scheme"
  assumes "keys_frame st st'"
  shows "hostio st' = hostio st" "jumped st' = jumped st"
  using assms by (cases st; cases st'; simp add: keys_frame_def)+

lemma act_ok_frame:
  fixes st :: "('e, 'z) act_scheme"
  assumes "keys_frame st st'" "act_ok I st" "fw_ok st'" "I (ee st')"
  shows "act_ok I st'"
  using assms keys_frame_kb_ok [OF assms(1)] frame_fields [OF assms(1)] by (simp add: act_ok_def)

context board_eeprom
begin

lemma act_ok_rgb: "act_ok inv st \<Longrightarrow> act_ok inv (rgb_exec E cmd st)"
  by (rule act_ok_frame [OF keys_frame_rgb_exec]) (simp_all add: act_ok_def kb_ok_def fw_ok_rgb_exec rgb_exec_inv)

lemma act_ok_he_keycode: "act_ok inv st \<Longrightarrow> act_ok inv (snd (he_handle_keycode E k p st))"
proof (rule act_ok_frame [OF keys_frame_keycode])
  assume ok: "act_ok inv st"
  then have "kb_ok (snd (he_handle_keycode E k p st))" by (simp add: act_ok_def kb_ok_keycode)
  then show "fw_ok (snd (he_handle_keycode E k p st))" by (simp add: kb_ok_def)
  show "inv (ee (snd (he_handle_keycode E k p st)))"
    using ok set_mode_inv [of st] by (auto simp: he_handle_keycode_def act_ok_def kb_ok_def fw_ok_def)
qed assumption

lemma nvm_inv [simp]:
  "inv e \<Longrightarrow> inv (nvm_eeconfig_update_keymap E c e)" "inv e \<Longrightarrow> inv (nvm_eeconfig_update_default_layer E l e)"
  "inv e \<Longrightarrow> inv (nvm_eeconfig_update_handedness E b e)" "inv e \<Longrightarrow> inv (nvm_eeconfig_disable E e)"
  by (simp_all add: nvm_eeconfig_update_keymap_def nvm_eeconfig_update_default_layer_def nvm_eeconfig_update_handedness_def
      nvm_eeconfig_disable_def hw_defs)

lemma act_ok_inv: "act_ok inv st \<Longrightarrow> inv (ee st)"
  by (simp add: act_ok_def)

lemma act_ok_clear_inv [simp]: "ee (act_clear w st) = ee st"
  by (simp add: act_clear_def on_io_def)

lemma act_ok_magic: "act_ok inv st \<Longrightarrow> act_ok inv (snd (process_magic E w k p st))"
  by (simp add: process_magic_def Let_def act_ok_reports act_ok_ee act_ok_inv)

lemma act_ok_underglow: "act_ok inv st \<Longrightarrow> act_ok inv (snd (process_underglow E k p st))"
  by (simp add: process_underglow_def Let_def act_ok_rgb del: rgb_exec.simps split: option.split)

lemma act_ok_tri_layer: "act_ok I st \<Longrightarrow> act_ok I (snd (process_tri_layer k p st))"
  by (simp add: process_tri_layer_def tri_layer_key_def)

lemma act_ok_default_layer: "act_ok inv st \<Longrightarrow> act_ok inv (snd (process_default_layer E k p st))"
  by (simp add: process_default_layer_def set_single_persistent_default_layer_def set_single_default_layer_def act_ok_ee act_ok_inv)

lemma act_ok_process_oneshot: "act_ok inv st \<Longrightarrow> act_ok inv (snd (process_oneshot E k p st))"
  by (simp add: process_oneshot_def oneshot_toggle_def oneshot_set_def Let_def act_ok_ee act_ok_inv)

lemma act_ok_quantum: "act_ok inv st \<Longrightarrow> act_ok inv (snd (process_quantum E w k p st))"
  by (simp add: process_quantum_def reset_keyboard_def soft_reset_keyboard_def shutdown_quantum_def act_ok_reports act_ok_ee act_ok_inv)

lemma act_ok_and_then:
  assumes "act_ok I (snd (f st))" "\<And>st. act_ok I st \<Longrightarrow> act_ok I (snd (g st))"
  shows "act_ok I (snd (and_then f g st))"
  using assms by (auto simp: and_then_def split: prod.splits bool.splits)

lemma act_ok_process_keycode: "act_ok inv st \<Longrightarrow> act_ok inv (snd (process_keycode E mem w k p st))"
  unfolding process_keycode_def
  by (intro act_ok_and_then act_ok_he_keycode act_ok_process_macro act_ok_space_cadet act_ok_magic act_ok_grave_esc
      act_ok_underglow act_ok_tri_layer act_ok_default_layer act_ok_process_oneshot act_ok_quantum)

lemma act_ok_record_quantum: "act_ok inv st \<Longrightarrow> act_ok inv (snd (process_record_quantum E mem w ev st))"
  by (simp add: process_record_quantum_def split_beta act_ok_process_keycode act_ok_event_keycode)

lemma act_ok_record_with:
  assumes "act_ok inv st" "\<And>r st. act_ok inv st \<Longrightarrow> act_ok inv (snd (again r st))"
  shows "act_ok inv (snd (process_record_with again E mem w r st))"
  using assms(1)
  by (simp add: process_record_with_def process_record_handler_def split_beta act_ok_record_quantum act_ok_store
      act_ok_process_action [OF _ assms(2)])

lemma act_ok_record: "act_ok inv st \<Longrightarrow> act_ok inv (snd (process_record E mem w r st))"
  unfolding process_record_def by (intro act_ok_record_with) simp_all

end

section \<open>The tapping state machine keeps what its operations keep\<close>

locale tap_invariant =
  fixes ops :: "'s tap_ops" and good :: "'s \<Rightarrow> bool"
  assumes good_process: "good s \<Longrightarrow> good (snd (op_process_record ops r s))"
    and good_clear: "good s \<Longrightarrow> good (op_clear_keyboard ops s)"
begin

lemma good_processed: "op_process_record ops r s = (r', s') \<Longrightarrow> good s \<Longrightarrow> good s'"
  using good_process [of s r] by simp

lemma good_scan: "waiting_buffer_scan_tap ops tp s = (tp', s') \<Longrightarrow> good s \<Longrightarrow> good s'"
  by (auto simp: waiting_buffer_scan_tap_def Let_def good_processed split: if_splits option.splits prod.splits)

lemma good_start: "start_tapping ops r tp s = (d, r', tp', s') \<Longrightarrow> good s \<Longrightarrow> good s'"
  by (auto simp: start_tapping_def good_scan split: prod.splits)

lemma good_release_last: "good s \<Longrightarrow> good (release_last_tap ops now tp s)"
  by (simp add: release_last_tap_def good_process)

lemma good_process_tapping: "process_tapping ops r tp s = (d, r', tp', s') \<Longrightarrow> good s \<Longrightarrow> good s'"
  by (auto simp: process_tapping_def tapping_idle_def tapping_undecided_def tapping_tapped_def tapping_released_def
      pass_through_def Let_def good_processed good_process split: if_splits prod.splits
      dest: good_start [OF _ good_release_last] good_start)

lemma good_waiting: "good s \<Longrightarrow> good (snd (process_waiting n ops tp s))"
proof (induction n arbitrary: tp s)
  case (Suc n)
  obtain d r tp1 s1 where "process_tapping ops (waiting_buffer tp ! waiting_buffer_tail tp) tp s = (d, r, tp1, s1)"
    by (cases "process_tapping ops (waiting_buffer tp ! waiting_buffer_tail tp) tp s") blast
  then show ?case using Suc good_process_tapping by (simp add: Let_def)
qed simp

lemma good_action_tapping: "good s \<Longrightarrow> good (snd (action_tapping_process ops r tp s))"
proof -
  assume s: "good s"
  obtain d r1 tp1 s1 where p: "process_tapping ops r tp s = (d, r1, tp1, s1)" by (cases "process_tapping ops r tp s") blast
  have s1: "good s1" using good_process_tapping [OF p s] .
  then have "good (snd (enqueue_or_clear ops r1 tp1 s1))"
    by (auto simp: enqueue_or_clear_def good_clear split: prod.split bool.split)
  then show ?thesis using s1 good_waiting by (simp add: action_tapping_process_def p waiting_loop_def split_beta)
qed

end

lemma tapping_ok_process: "tapping_ok tp \<Longrightarrow> fresh r \<Longrightarrow> tapping_ok (fst (action_tapping_process (board_ops E mem w) r tp st))"
proof -
  assume ok: "tapping_ok tp" "fresh r"
  obtain l where "action_tapping_process (logged (board_ops E mem w)) r tp (st, []) =
      (fst (action_tapping_process (board_ops E mem w) r tp st), snd (action_tapping_process (board_ops E mem w) r tp st), l)"
    using logged_action_tapping [of "board_ops E mem w" r tp st "[]"] by (elim exE)
  from board_taps.action_tapping_account(1) [OF this ok] show ?thesis .
qed

sublocale board_eeprom \<subseteq> acts: tap_invariant "board_ops E mem wd" "act_ok inv" for mem :: "lut \<Rightarrow> nat \<Rightarrow> u8" and wd :: world
  by unfold_locales (simp_all add: board_ops_def act_ok_record act_ok_reports)

context board_eeprom
begin

lemma act_ok_before: "act_ok inv st \<Longrightarrow> act_ok inv (snd (before_tapping E ev st))"
  by (simp add: before_tapping_def Let_def act_ok_pre_process act_ok_hid_same)

end

section \<open>Passes of the main loop\<close>

lemma tap_state_before:
  fixes E :: "'e eeprom_driver" and st :: "('e, 'z) task_scheme"
  shows "tap_state (snd (before_tapping E ev st)) = tap_state st"
proof -
  have u: "tap_state (update_source_layers_cache k l st) = tap_state st" for k l and st :: "('e, 'z) task_scheme"
    by (simp add: update_source_layers_cache_def)
  have g: "tap_state (snd (get_event_keycode E ev b st)) = tap_state st" for b and st :: "('e, 'z) task_scheme"
    by (simp add: get_event_keycode_def Let_def u)
  show ?thesis by (simp add: before_tapping_def pre_process_record_quantum_def Let_def g act_hid_def on_io_def)
qed

lemma task_ok_tap [simp]: "act_ok I (st\<lparr>tap_state := tp\<rparr>) = act_ok I st"
  by (simp add: act_ok_def kb_ok_def fw_ok_def) (simp add: he_ok_def matrix_ok_def caches_ok_def)

context board_eeprom
begin

lemma task_ok_exec:
  assumes "task_ok inv st"
  shows "task_ok inv (action_exec E mem w ev st)"
proof -
  define st1 where "st1 = snd (before_tapping E ev st)"
  have ok: "act_ok inv st1" "tapping_ok (tap_state st1)"
    using assms by (simp_all add: task_ok_def st1_def tap_state_before act_ok_before)
  have "fresh (new_record ev)" by (simp add: fresh_def new_record_def)
  then show ?thesis
    using acts.good_action_tapping [OF ok(1)] tapping_ok_process [OF ok(2), of "new_record ev" E mem w st1] ok
    by (simp add: action_exec_def split_beta task_ok_def flip: st1_def)
qed

lemma task_ok_events: "task_ok inv st \<Longrightarrow> task_ok inv (exec_events E mem w evs st)"
  unfolding exec_events_def by (induction evs arbitrary: st) (simp_all add: task_ok_exec)

end

text \<open>Scans, packets and wake-ups leave the quantum layer's state alone.\<close>

lemma kb_more_fields:
  assumes "kb.more st' = kb.more (st :: ('e, 'z) task_scheme)"
  shows "hostio st' = hostio st" "tap_state st' = tap_state st" "jumped st' = jumped st"
  using assms by (cases st; cases st'; simp)+

lemma fw_more_kb: "fw.more st' = fw.more (st :: ('e, 'z) kb_scheme) \<Longrightarrow> kb.more st' = kb.more st"
  by (cases st; cases st') simp

lemma kb_more_updates [simp]:
  "kb.more (st\<lparr>wakeup_matrix := w\<rparr>) = kb.more st" "kb.more (st\<lparr>matrix_previous := m\<rparr>) = kb.more st"
  "kb.more (st\<lparr>last_tick := t\<rparr>) = kb.more st" "kb.more (st\<lparr>encoder := enc\<rparr>) = kb.more st"
  by (cases st; simp)+

context board_wiring
begin

lemma scan_kb_more:
  fixes st :: "('e, 'z) kb_scheme"
  assumes "kb_ok st"
  shows "kb.more (snd (matrix_scan E env st)) = kb.more st"
proof -
  have "he_ok st" "matrix_ok st" using assms by (simp_all add: kb_ok_def fw_ok_def)
  from matrix_scan_result(7) [OF prod.collapse [symmetric] this] show ?thesis by (rule fw_more_kb)
qed

lemma task_kb_more:
  fixes st :: "('e, 'z) kb_scheme"
  assumes "kb_ok st"
  shows "kb.more (snd (snd (matrix_task E env st))) = kb.more st"
    "kb.more (update_matrix_state_after_wakeup E env st) = kb.more st"
    "kb.more (snd (suspend_wakeup_condition E env st)) = kb.more st"
proof -
  define st1 where "st1 = snd (matrix_scan E env st)"
  have "kb_ok st1" using kb_ok_scan [OF assms] by (simp add: st1_def)
  then have l: "length (wakeup_matrix st1) = 5" "length (matrix_previous st1) = 5" "length (cooked_matrix st1) = 5"
    by (simp_all add: kb_ok_def matrix_ok_def)
  have m: "kb.more st1 = kb.more st" using scan_kb_more [OF assms] by (simp add: st1_def)
  show "kb.more (snd (snd (matrix_task E env st))) = kb.more st"
    using matrix_task_events [OF l [unfolded st1_def], folded st1_def] m by (simp add: generate_tick_event_def Let_def)
  show "kb.more (update_matrix_state_after_wakeup E env st) = kb.more st"
    using update_matrix_state_after_wakeup_eq [OF l(1,2) [unfolded st1_def], folded st1_def] m by simp
  show "kb.more (snd (suspend_wakeup_condition E env st)) = kb.more st"
    using m by (simp add: suspend_wakeup_condition_def Let_def flip: st1_def)
qed

end

lemma task_ok_kb_step:
  fixes st :: "('e, 'z) task_scheme"
  assumes "task_ok I st" "kb_ok st'" "I (ee st')" "kb.more st' = kb.more st"
  shows "task_ok I st'"
  using assms kb_more_fields [OF assms(4)] by (simp add: task_ok_def act_ok_def)

lemma activity_fields [simp]:
  "kb_ok (last_matrix_activity_trigger env st) = kb_ok st" "ee (last_matrix_activity_trigger env st) = ee st"
  "kb.more (last_matrix_activity_trigger env st) = kb.more st"
  "kb_ok (last_encoder_activity_trigger env st) = kb_ok st" "ee (last_encoder_activity_trigger env st) = ee st"
  "kb.more (last_encoder_activity_trigger env st) = kb.more st"
  by (simp_all add: last_matrix_activity_trigger_def last_encoder_activity_trigger_def kb_ok_def)

lemma activity_task [simp]:
  "task_ok I (last_matrix_activity_trigger env st) = task_ok I st"
  "task_ok I (last_encoder_activity_trigger env st) = task_ok I st"
  using kb_more_fields [of "last_matrix_activity_trigger env st" st] kb_more_fields [of "last_encoder_activity_trigger env st" st]
  by (simp_all add: task_ok_def act_ok_def)

context board_eeprom
begin

lemma task_ok_matrix_part:
  fixes st :: "('e, 'z) task_scheme"
  assumes "board_wiring (pins w) volt push" "task_ok inv st"
  shows "task_ok inv (matrix_part E mem w st)"
proof -
  obtain changed evs st1 where m: "matrix_task E (pins w) st = (changed, evs, st1)"
    by (cases "matrix_task E (pins w) st") blast
  note step = fw_step.Scan [OF assms(1) m]
  have ok: "kb_ok st" "inv (ee st)" using assms(2) by (simp_all add: task_ok_def act_ok_def)
  have "kb_ok st1" "inv (ee st1)" using fw_step_kb_ok [OF step ok(1)] fw_step_inv [OF step ok] by (auto split: if_splits)
  then have "task_ok inv st1"
    using task_ok_kb_step [OF assms(2)] board_wiring.task_kb_more(1) [OF assms(1) ok(1), of E] by (simp add: m)
  from task_ok_events [OF this] show ?thesis by (simp add: matrix_part_def m Let_def)
qed

lemma task_ok_encoder_part:
  fixes st :: "('e, 'z) task_scheme"
  assumes "task_ok inv st"
  shows "\<exists>st'. encoder_part E mem w st = Some st' \<and> task_ok inv st'"
proof -
  have ok: "kb_ok st" "inv (ee st)" using assms by (simp_all add: task_ok_def act_ok_def)
  obtain changed evs enc where t: "encoder_task (pins w) (gpio st) (encoder st) = Some (changed, evs, enc)" and e: "enc_ok enc"
    using encoder_task_step [of "encoder st" "pins w" "gpio st"] ok(1) by (auto simp: kb_ok_def)
  have "kb_ok (st\<lparr>encoder := enc\<rparr>)" using ok(1) e by (simp add: kb_ok_def)
  then have "task_ok inv (st\<lparr>encoder := enc\<rparr>)" using task_ok_kb_step [OF assms] ok by simp
  from task_ok_events [OF this] show ?thesis by (simp add: encoder_part_def t Let_def)
qed

lemma task_ok_rest:
  assumes "task_ok inv st"
  shows "task_ok inv (led_task w (mouse_part w st))"
proof -
  have ok: "act_ok inv st" using assms by (simp add: task_ok_def)
  have "act_ok inv (mouse_part w st)"
    unfolding mouse_part_def split_beta Let_def by (rule act_ok_io [OF ok]) (simp add: act_ok_hidD [OF ok])
  moreover have "tap_state (mouse_part w st) = tap_state st" by (simp add: mouse_part_def split_beta)
  ultimately have "task_ok inv (mouse_part w st)" using assms by (simp add: task_ok_def)
  then show ?thesis
    by (simp add: led_task_def task_ok_def act_ok_def kb_ok_def fw_ok_def) (simp add: he_ok_def matrix_ok_def caches_ok_def)
qed

lemma task_ok_keyboard_task:
  fixes st :: "('e, 'z) task_scheme"
  assumes "board_wiring (pins w_matrix) volt push" "task_ok inv st"
  shows "\<exists>st'. keyboard_task E mem w_matrix w_encoder w_rest st = Some st' \<and> task_ok inv st'"
  using task_ok_matrix_part [OF assms, of mem] task_ok_encoder_part [of "matrix_part E mem w_matrix st" mem w_encoder] task_ok_rest
  by (auto simp: keyboard_task_def Let_def)

end

section \<open>The step relation\<close>

text \<open>
  One pass with whatever sensor readings the wiring allows, a packet from the host, the suspended keyboard's
  checks, and the host waking it. A jump to the bootloader or a reset ends the run.
\<close>

inductive main_step ::
  "'e eeprom_driver \<Rightarrow> flash_keymap \<Rightarrow> (lut \<Rightarrow> nat \<Rightarrow> u8) \<Rightarrow> ('e, 'z) task_scheme \<Rightarrow> ('e, 'z) task_scheme \<Rightarrow> bool"
  for E :: "'e eeprom_driver" and K :: flash_keymap and mem :: "lut \<Rightarrow> nat \<Rightarrow> u8" where
  Pass: "board_wiring (pins w_matrix) volt push \<Longrightarrow> jumped st = None \<Longrightarrow>
    keyboard_task E mem w_matrix w_encoder w_rest st = Some st' \<Longrightarrow> main_step E K mem st st'"
| Host_Packet: "raw_hid_receive E K env data st = Some (data', st') \<Longrightarrow> main_step E K mem st st'"
| Suspend_Check: "board_wiring env volt push \<Longrightarrow> main_step E K mem st (snd (suspend_wakeup_condition E env st))"
| Resume: "board_wiring env volt push \<Longrightarrow> main_step E K mem st (update_matrix_state_after_wakeup E env st)"
| Host_Wakeup: "main_step E K mem st (suspend_wakeup_init w st)"

inductive_cases main_stepE: "main_step E K mem st st'"

lemma task_ok_wakeup: "task_ok I st \<Longrightarrow> task_ok I (suspend_wakeup_init w st)"
proof -
  assume ok: "task_ok I st"
  then have a: "act_ok I st" by (simp add: task_ok_def)
  have "act_ok I (suspend_wakeup_init w st)"
    unfolding suspend_wakeup_init_def Let_def
    by (rule act_ok_io [OF a]) (simp add: report_keys_clear(2) act_ok_hidD [OF a])
  then show ?thesis using ok by (simp add: task_ok_def suspend_wakeup_init_def Let_def)
qed

lemma keys_frame_kb_more: "keys_frame st st' \<Longrightarrow> kb.more st' = kb.more (st :: ('e, 'z) kb_scheme)"
  by (cases st; cases st') (simp add: keys_frame_def)

context board_eeprom
begin

lemma main_step_ok:
  fixes st :: "('e, 'z) task_scheme"
  assumes "main_step E K mem st st'" "task_ok inv st"
  shows "task_ok inv st'"
  using assms(1)
proof (cases rule: main_step.cases)
  case (Pass w_matrix volt push w_encoder w_rest)
  then show ?thesis using task_ok_keyboard_task [OF Pass(1) assms(2), of mem w_encoder w_rest] by simp
next
  case (Host_Packet env data data')
  have "kb_ok st" "inv (ee st)" using assms(2) by (simp_all add: task_ok_def act_ok_def)
  moreover from this(1) have "length (he_config st) = HE_SENSOR_COUNT" by (simp add: kb_ok_def fw_ok_def he_ok_def)
  ultimately show ?thesis
    using kb_ok_raw_hid [OF Host_Packet] fw_step_inv [OF fw_step.Packet [OF Host_Packet]]
      keys_frame_kb_more [OF keys_frame_raw_hid [OF Host_Packet]]
    by (intro task_ok_kb_step [OF assms(2)])
next
  case (Suspend_Check env volt push)
  have ok: "kb_ok st" "inv (ee st)" using assms(2) by (simp_all add: task_ok_def act_ok_def)
  note step = fw_step.Suspended [OF Suspend_Check(2)]
  show ?thesis
    unfolding Suspend_Check(1)
    by (rule task_ok_kb_step [OF assms(2) fw_step_kb_ok [OF step ok(1)] fw_step_inv [OF step ok]
          board_wiring.task_kb_more(3) [OF Suspend_Check(2) ok(1)]])
next
  case (Resume env volt push)
  have ok: "kb_ok st" "inv (ee st)" using assms(2) by (simp_all add: task_ok_def act_ok_def)
  note step = fw_step.Wake [OF Resume(2)]
  show ?thesis
    unfolding Resume(1)
    by (rule task_ok_kb_step [OF assms(2) fw_step_kb_ok [OF step ok(1)] fw_step_inv [OF step ok]
          board_wiring.task_kb_more(2) [OF Resume(2) ok(1)]])
next
  case (Host_Wakeup w)
  then show ?thesis using task_ok_wakeup [OF assms(2)] by simp
qed

lemma main_reachable_ok:
  assumes "(main_step E K mem)\<^sup>*\<^sup>* st st'" "task_ok inv st"
  shows "task_ok inv st'"
  using assms by (induction rule: rtranclp_induct) (auto intro: main_step_ok)

end

section \<open>The variables at reset\<close>

definition task_reset :: "'e kb \<Rightarrow> 'e task" where
  "task_reset st =
     \<lparr>ee = ee st, rgblight = rgblight st, gpio = gpio st, he_config = he_config st,
      he_rest_floor = he_rest_floor st, he_mode = he_mode st, he_tuning = he_tuning st,
      he_calibrating = he_calibrating st, cal_saved_hsv = cal_saved_hsv st, he_cal_latched = he_cal_latched st,
      he_phys_pressed = he_phys_pressed st, he_debounced = he_debounced st, socd_winner = socd_winner st,
      he_scan_count = he_scan_count st, staged_actuation = staged_actuation st, staged_release = staged_release st,
      staged_dirty = staged_dirty st, autosave_pending = autosave_pending st, autosave_timer = autosave_timer st,
      default_layer_state = default_layer_state st, layer_state = layer_state st, debug_config = debug_config st,
      keymap_config = keymap_config st, raw_matrix = raw_matrix st, cooked_matrix = cooked_matrix st,
      debouncing = debouncing st, debouncing_time = debouncing_time st, matrix_previous = matrix_previous st,
      source_layers_cache = source_layers_cache st, encoder_source_layers_cache = encoder_source_layers_cache st,
      disable_action_cache = disable_action_cache st, encoder = encoder st, wakeup_matrix = wakeup_matrix st,
      last_tick = last_tick st, last_input_modification_time = last_input_modification_time st,
      last_matrix_modification_time = last_matrix_modification_time st,
      last_encoder_modification_time = last_encoder_modification_time st,
      last_pointing_device_modification_time = last_pointing_device_modification_time st,
      hostio = \<lparr>hid = hid_reset, mouse = mousekey_reset\<rparr>, oneshot_layer_data = 0, grave_esc_was_shifted = False,
      sc_last = 0, sc_timer = 0, jumped = None, tap_state = tapping_reset, last_led_status = 0, last_led_modification_time = 0\<rparr>"

lemma tapping_ok_reset: "tapping_ok tapping_reset"
  by (simp add: tapping_ok_def ring_ok_def tapping_reset_def waiting_def waiting_indices_def hw_defs)

lemma task_ok_reset: "kb_ok st \<Longrightarrow> I (ee st) \<Longrightarrow> task_ok I (task_reset st)"
proof -
  assume "kb_ok st" "I (ee st)"
  then have "kb_ok (task_reset st)" unfolding kb_ok_def fw_ok_def
    by (simp add: task_reset_def he_ok_def matrix_ok_def caches_ok_def)
  moreover have "ee (task_reset st) = ee st" "hid (hostio (task_reset st)) = hid_reset" "tap_state (task_reset st) = tapping_reset"
    by (simp_all add: task_reset_def)
  ultimately show ?thesis using \<open>I (ee st)\<close> by (simp add: task_ok_def act_ok_def hid_reset_ok tapping_ok_reset)
qed

end
