(* ===== verification/Dual_Role.thy ===== *)
theory Dual_Role
  imports Typing
begin

text \<open>
  Keys with two roles: a layer-tap or a mod-tap types its key when tapped and turns its layer or its modifiers on
  while held. \<open>dual_role\<close> is what the keycode says; the lemmas follow the press, the release within the tapping
  term, the tick that ends the term and the later release through \<^verbatim>\<open>action_exec\<close>.
\<close>

section \<open>The keycode\<close>

datatype hold = Hold_Layer nat | Hold_Mods u8

definition dual_role :: "u16 \<Rightarrow> (hold \<times> u8) option" where
  "dual_role k =
     (if in_range 0x4000 0x4FFF k then Some (Hold_Layer (unat (drop_bit 8 k AND 0xF)), ucast k)
      else if in_range 0x2000 0x3FFF k then
        Some (Hold_Mods (let m = ucast (drop_bit 8 k AND 0xF) in if bit k 12 then push_bit 4 m else m), ucast k)
      else None)"

text \<open>No swap option is on.\<close>

definition no_swaps :: "u16 \<Rightarrow> bool" where
  "no_swaps c \<longleftrightarrow> (\<forall>k. keycode_config c k = k) \<and> (\<forall>m. mod_config c m = m)"

lemma no_swaps_default: "no_swaps keymap_config_default"
  by (simp add: no_swaps_def config_default_id)

text \<open>What holding does, and what letting go does.\<close>

fun hold_on :: "world \<Rightarrow> hold \<Rightarrow> ('e, 'z) act_scheme \<Rightarrow> ('e, 'z) act_scheme" where
  "hold_on w (Hold_Layer l) st = layer_on l st"
| "hold_on w (Hold_Mods m) st = act_register_mods w m st"

fun hold_off :: "world \<Rightarrow> hold \<Rightarrow> ('e, 'z) act_scheme \<Rightarrow> ('e, 'z) act_scheme" where
  "hold_off w (Hold_Layer l) st = layer_off l st"
| "hold_off w (Hold_Mods m) st = act_unregister_mods w m st"

section \<open>The action code\<close>

lemma masks_u16: "(0xFF :: u16) = mask 8" "(0xF :: u16) = mask 4" "(0x1F :: u16) = mask 5"
  by (simp_all add: mask_eq_exp_minus_1)

lemma bit_numeral_u16:
  "bit (0xFF :: u16) n \<longleftrightarrow> n < 8" "bit (0xF :: u16) n \<longleftrightarrow> n < 4" "bit (0x1F :: u16) n \<longleftrightarrow> n < 5"
  unfolding masks_u16 by (auto simp: bit_simps)

lemma all_16:
  "(\<forall>n<(16 :: nat). P n) \<longleftrightarrow> P 0 \<and> P 1 \<and> P 2 \<and> P 3 \<and> P 4 \<and> P 5 \<and> P 6 \<and> P 7 \<and> P 8 \<and> P 9 \<and> P 10 \<and> P 11 \<and>
     P 12 \<and> P 13 \<and> P 14 \<and> P 15"
  by (auto simp: numeral_eq_Suc All_less_Suc)

lemma u16_eqI: "\<forall>n<16. bit (a :: u16) n = bit b n \<Longrightarrow> a = b"
  by (rule bit_word_eqI) simp

lemma low_byte: "ucast (x AND 0xFF) = (ucast x :: u8)" for x :: u16
  by (rule bit_word_eqI) (simp add: masks_u16 bit_simps)

lemma key_code_eq: "layer_tap_code a = k AND 0xFF \<Longrightarrow> key_code a = ucast k"
  using low_byte [of a] low_byte [of k] by (simp add: key_code_def layer_tap_code_def)

lemmas field_defs = kind_id_def layer_tap_code_def ACTION_LAYER_TAP_def ACTION_MODS_TAP_KEY_def ACTION_def hw_defs

lemma layer_tap_fields:
  fixes k :: u16
  defines "a \<equiv> ACTION_LAYER_TAP (drop_bit 8 k AND 0xF) (k AND 0xFF)"
  shows "kind_id a = ACT_LAYER_TAP" "layer_tap_val a = unat (drop_bit 8 k AND 0xF)" "layer_tap_code a = k AND 0xFF"
proof -
  show "kind_id a = ACT_LAYER_TAP" "layer_tap_code a = k AND 0xFF"
    by (rule u16_eqI; simp add: all_16 a_def field_defs bit_simps bit_numeral_u16)+
  have "drop_bit 8 a AND 0x1F = drop_bit 8 k AND 0xF"
    by (rule u16_eqI) (simp add: all_16 a_def field_defs bit_simps bit_numeral_u16)
  then show "layer_tap_val a = unat (drop_bit 8 k AND 0xF)" by (simp add: layer_tap_val_def)
qed

lemma mod_tap_fields:
  fixes k :: u16
  defines "a \<equiv> ACTION_MODS_TAP_KEY (ucast (drop_bit 8 k AND 0x1F)) (k AND 0xFF)"
  shows "kind_id a = (if bit k 12 then ACT_RMODS_TAP else ACT_MODS_TAP)" "key_mods a = ucast (drop_bit 8 k AND 0xF)"
    "layer_tap_code a = k AND 0xFF"
proof -
  have u: "ucast (ucast x :: u8) AND 0x1F = x AND 0x1F" for x :: u16
    by (rule u16_eqI) (simp add: all_16 bit_simps bit_numeral_u16)
  show "kind_id a = (if bit k 12 then ACT_RMODS_TAP else ACT_MODS_TAP)" "layer_tap_code a = k AND 0xFF"
    by (rule u16_eqI; simp add: all_16 a_def u field_defs bit_simps bit_numeral_u16)+
  have "drop_bit 8 a AND 0xF = drop_bit 8 k AND 0xF"
    by (rule u16_eqI) (simp add: all_16 a_def u field_defs bit_simps bit_numeral_u16)
  then show "key_mods a = ucast (drop_bit 8 k AND 0xF)" by (simp add: key_mods_def)
qed

text \<open>What the action switch does for a held and for a tapped key.\<close>

lemma dual_role_action:
  assumes "dual_role k = Some (h, kc)" "IS_BASIC_KEYCODE kc" "no_swaps c"
  shows "is_tap_action (action_for_keycode c k)"
    "action_switch w True 0 (action_for_keycode c k) st = hold_on w h st"
    "action_switch w False 0 (action_for_keycode c k) st = hold_off w h st"
    "action_switch w True 1 (action_for_keycode c k) st = act_register w kc st"
    "action_switch w False 1 (action_for_keycode c k) st = tap_release w (k AND 0xFF) kc st"
proof -
  let ?a = "action_for_keycode c k"
  have kc: "kc = ucast k" using assms(1) by (auto simp: dual_role_def split: if_splits)
  have low: "unat (k AND 0xFF) = unat kc"
  proof -
    have "unat kc = unat k mod 256" by (simp add: kc unsigned_ucast_eq unsigned_take_bit_eq take_bit_eq_mod)
    moreover have "k AND 0xFF = take_bit 8 k" using take_bit_eq_mask [of 8 k] by (simp add: mask_eq_exp_minus_1)
    ultimately show ?thesis by (simp add: unat_mod take_bit_eq_mod)
  qed
  have b: "4 \<le> unat (k AND 0xFF)" "unat (k AND 0xFF) \<le> 0xA4"
    using assms(2) unfolding low by (auto simp: IS_BASIC_KEYCODE_def word_le_nat_alt)
  have ne: "k AND 0xFF \<noteq> n" if "unat n < 4 \<or> 0xA4 < unat n" for n using b that by auto
  have le: "k AND 0xFF \<le> KC_RIGHT_GUI" using b by (simp add: word_le_nat_alt hw_defs)
  have "is_tap_action ?a \<and> action_switch w True 0 ?a st = hold_on w h st \<and> action_switch w False 0 ?a st = hold_off w h st \<and>
    action_switch w True 1 ?a st = act_register w kc st \<and> action_switch w False 1 ?a st = tap_release w (k AND 0xFF) kc st"
  proof (cases "in_range 0x4000 0x4FFF k")
    case True
    then have r: "\<not> in_range 0x04 0xA4 k" "\<not> in_range 0xE0 0xE7 k" "\<not> in_range 0xA5 0xA7 k" "\<not> in_range 0xA8 0xC2 k"
      "\<not> in_range 0xCD 0xDF k" "k \<noteq> KC_TRNS" "\<not> in_range 0x0100 0x1FFF k"
      by (auto simp: in_range_def word_le_nat_alt hw_defs)
    have a: "?a = ACTION_LAYER_TAP (drop_bit 8 k AND 0xF) (k AND 0xFF)"
      using True r assms(3) by (simp add: action_for_keycode_def Let_def no_swaps_def)
    have h: "h = Hold_Layer (unat (drop_bit 8 k AND 0xF))" using assms(1) True by (simp add: dual_role_def)
    show ?thesis
      using ne le key_code_eq [OF layer_tap_fields(3)] layer_tap_fields [of k]
      by (simp add: a h kc action_switch_def layer_tap_action_def is_tap_action_def Let_def hw_defs)
  next
    case False
    then have m: "in_range 0x2000 0x3FFF k" using assms(1) by (simp add: dual_role_def split: if_splits)
    then have r: "\<not> in_range 0x04 0xA4 k" "\<not> in_range 0xE0 0xE7 k" "\<not> in_range 0xA5 0xA7 k" "\<not> in_range 0xA8 0xC2 k"
      "\<not> in_range 0xCD 0xDF k" "k \<noteq> KC_TRNS" "\<not> in_range 0x0100 0x1FFF k" "\<not> in_range 0x5200 0x521F k" "\<not> in_range 0x5220 0x523F k"
      "\<not> in_range 0x5240 0x525F k" "\<not> in_range 0x5260 0x527F k" "\<not> in_range 0x5280 0x529F k" "\<not> in_range 0x52A0 0x52BF k"
      "\<not> in_range 0x52C0 0x52DF k" "\<not> in_range 0x5000 0x51FF k"
      by (auto simp: in_range_def word_le_nat_alt hw_defs)
    have a: "?a = ACTION_MODS_TAP_KEY (ucast (drop_bit 8 k AND 0x1F)) (k AND 0xFF)"
      using m False r assms(3) by (simp add: action_for_keycode_def Let_def no_swaps_def)
    have h: "h = Hold_Mods (let m = ucast (drop_bit 8 k AND 0xF) in if bit k 12 then push_bit 4 m else m)"
      using assms(1) False m by (simp add: dual_role_def)
    show ?thesis
      using ne le key_code_eq [OF mod_tap_fields(3)] mod_tap_fields [of k]
      by (simp add: a h kc action_switch_def mods_tap_action_def is_tap_action_def Let_def hw_defs)
  qed
  then show "is_tap_action ?a" "action_switch w True 0 ?a st = hold_on w h st" "action_switch w False 0 ?a st = hold_off w h st"
    "action_switch w True 1 ?a st = act_register w kc st" "action_switch w False 1 ?a st = tap_release w (k AND 0xFF) kc st"
    by simp_all
qed

section \<open>The tapping state\<close>

text \<open>A release finds the keycode its press was resolved to.\<close>

definition release_of :: "keyevent_t \<Rightarrow> keyevent_t \<Rightarrow> bool" where
  "release_of ev rel \<longleftrightarrow> ev_pressed ev \<and> \<not> ev_pressed rel \<and> \<not> IS_NOEVENT rel \<and> ev_key rel = ev_key ev"

lemma release_keycode:
  assumes "release_of ev rel" "layer_cached E ev st st'" "ee st' = ee st"
  shows "event_keycode E rel st' = event_keycode E ev st"
  using assms by (simp add: release_of_def layer_cached_def event_keycode_def event_layer_def)

lemma release_quiet:
  assumes "release_of ev rel" "layer_cached E ev st st'" "quiet_event E ev st" "ee st' = ee st" "jumped st' = jumped st"
    "disable_action_cache st' = disable_action_cache st" "is_oneshot_layer_active st' = is_oneshot_layer_active st"
    "keymap_config st' = keymap_config st"
  shows "quiet_event E rel st'" "event_action E rel st' = event_action E ev st"
  using assms release_keycode [OF assms(1,2,4)] by (simp_all add: quiet_event_def event_action_def release_of_def)

text \<open>A press with a tap action is kept back.\<close>

lemma press_kept_back:
  assumes "quiet_event E ev st" "ev_pressed ev" "is_tap_action (event_action E ev st)" "tapping_idle_state (tap_state st)"
    "weak_mods (hid (hostio st)) = 0" "caches_ok st" "in_matrix (ev_key ev)"
  obtains s1 where "same_but_caches st s1" "layer_cached E ev st s1"
    "action_exec E mem w ev st = s1\<lparr>tap_state := (tap_state st)\<lparr>tapping_key := new_record ev\<rparr>\<rparr>"
proof -
  let ?r = "new_record ev"
  have r: "event ?r = ev" by (simp add: new_record_def)
  obtain s1 where s1: "same_but_caches st s1" "before_tapping E ev st = (True, s1)" "layer_cached E ev st s1"
    using quiet_before_tapping [OF assms(1,5)] assms(6,7) by blast
  have "is_tap_record (board_ops E mem w) ?r s1"
    using assms(1-3) press_action [OF assms(2), of E s1] press_cong(2) [OF s1(1) disjI1 [OF assms(2)]]
    by (simp add: is_tap_record_def r board_ops_def quiet_event_def)
  then have "action_tapping_process (board_ops E mem w) ?r (tap_state st) s1 = ((tap_state st)\<lparr>tapping_key := ?r\<rparr>, s1)"
    using assms(2,4) by (intro tap_press) (simp_all add: r)
  then have "action_exec E mem w ev st = s1\<lparr>tap_state := (tap_state st)\<lparr>tapping_key := new_record ev\<rparr>\<rparr>"
    by (simp add: action_exec_def s1(2) same_but_caches_rest(1) [OF s1(1)])
  then show thesis using that s1 by blast
qed

text \<open>The release within the tapping term, without the ghost record.\<close>

lemma tap_tapped_board:
  assumes "tapping_ok tp" "waiting tp = []" "undecided tp = [event (tapping_key tp)]"
    and "\<not> IS_NOEVENT (event r)" "\<not> pressed_rec r" "IS_TAPPING_RECORD r tp" "WITHIN_TAPPING_TERM (event r) tp"
  shows "\<exists>tp'. action_tapping_process (board_ops E mem w) r tp s =
      (tp', snd (op_process_record (board_ops E mem w) (r\<lparr>tap_count := 1, tap_interrupted := tap_interrupted (tapping_key tp)\<rparr>)
              (snd (op_process_record (board_ops E mem w) ((tapping_key tp)\<lparr>tap_count := 1\<rparr>) s)))) \<and> waiting tp' = [] \<and> undecided tp' = []"
proof -
  obtain l where "action_tapping_process (logged (board_ops E mem w)) r tp (s, []) =
      (fst (action_tapping_process (board_ops E mem w) r tp s), snd (action_tapping_process (board_ops E mem w) r tp s), l)"
    using logged_action_tapping [of "board_ops E mem w" r tp s "[]"] by (elim exE)
  then show ?thesis
    using board_taps.tap_tapped [OF assms, of E mem w "(s, [])"] by (auto simp: prod_eq_iff)
qed

lemma op_process_board [simp]:
  "jumped st = None \<Longrightarrow> op_process_record (board_ops E mem w) r st = process_record E mem w r st"
  by (simp add: board_ops_def)

lemma layer_set_cong [simp]:
  fixes st :: "('e, 'z) task_scheme"
  shows "layer_cached E ev st0 (st\<lparr>layer_state := l\<rparr>) = layer_cached E ev st0 st" "nkro_now w (st\<lparr>layer_state := l\<rparr>) = nkro_now w st"
    "is_oneshot_layer_active (st\<lparr>layer_state := l\<rparr>) = is_oneshot_layer_active st"
    "caches_ok (st\<lparr>layer_state := l\<rparr>) = caches_ok st"
  by (simp_all add: layer_cached_def caches_ok_def read_source_layers_cache_def nkro_now_def is_oneshot_layer_active_def
      get_oneshot_layer_state_def)

lemmas act_io_defs = act_register_def act_unregister_def act_register_mods_def act_unregister_mods_def act_hid_def

section \<open>A key alone\<close>

text \<open>The situation at the press of a key with two roles while no other key is in the making.\<close>

definition dual_press :: "'e eeprom_driver \<Rightarrow> keyevent_t \<Rightarrow> hold \<Rightarrow> u8 \<Rightarrow> ('e, 'z) task_scheme \<Rightarrow> bool" where
  "dual_press E ev h kc st \<longleftrightarrow>
     quiet_event E ev st \<and> ev_pressed ev \<and> in_matrix (ev_key ev) \<and> caches_ok st \<and> no_swaps (keymap_config st) \<and>
     dual_role (event_keycode E ev st) = Some (h, kc) \<and> IS_BASIC_KEYCODE kc \<and>
     tapping_ok (tap_state st) \<and> tapping_idle_state (tap_state st) \<and> weak_mods (hid (hostio st)) = 0"

text \<open>
  What holds between the press and the decision: nothing is reported, the press is undecided, and its layer is known.
\<close>

definition dual_pending :: "'e eeprom_driver \<Rightarrow> keyevent_t \<Rightarrow> hold \<Rightarrow> u8 \<Rightarrow> ('e, 'z) task_scheme \<Rightarrow> bool" where
  "dual_pending E ev h kc st \<longleftrightarrow>
     quiet_event E ev st \<and> ev_pressed ev \<and> in_matrix (ev_key ev) \<and> caches_ok st \<and> layer_cached E ev st st \<and>
     no_swaps (keymap_config st) \<and> dual_role (event_keycode E ev st) = Some (h, kc) \<and> IS_BASIC_KEYCODE kc \<and>
     tapping_ok (tap_state st) \<and> waiting_buffer_head (tap_state st) = waiting_buffer_tail (tap_state st) \<and>
     tapping_key (tap_state st) = new_record ev \<and> weak_mods (hid (hostio st)) = 0"

lemma dual_pending_tapping:
  "dual_pending E ev h kc st \<Longrightarrow> waiting (tap_state st) = []"
  "dual_pending E ev h kc st \<Longrightarrow> undecided (tap_state st) = [event (tapping_key (tap_state st))]"
  by (simp_all add: dual_pending_def waiting_def waiting_indices_def hw_defs undecided_def new_record_def quiet_event_def)

lemma dual_press_pending:
  assumes "dual_press E ev h kc st"
  shows "dual_pending E ev h kc (action_exec E mem w ev st)"
    "hostio (action_exec E mem w ev st) = hostio st" "layer_state (action_exec E mem w ev st) = layer_state st"
    "nkro_now w' (action_exec E mem w ev st) = nkro_now w' st"
proof -
  have p: "quiet_event E ev st" "ev_pressed ev" "in_matrix (ev_key ev)" "caches_ok st" "tapping_ok (tap_state st)"
    "tapping_idle_state (tap_state st)" "weak_mods (hid (hostio st)) = 0"
    using assms by (auto simp: dual_press_def)
  have t: "is_tap_action (event_action E ev st)"
    using assms dual_role_action(1) by (auto simp: dual_press_def event_action_def)
  obtain s1 where s1: "same_but_caches st s1" "layer_cached E ev st s1"
    and x: "action_exec E mem w ev st = s1\<lparr>tap_state := (tap_state st)\<lparr>tapping_key := new_record ev\<rparr>\<rparr>"
    by (rule press_kept_back [OF p(1,2) t p(6,7,4,3)])
  note f = same_but_caches_fields [OF s1(1)] and c = press_cong [OF s1(1) disjI1 [OF p(2)]]
  have l: "layer_cached E ev s1 s1" using s1(2) f(7) [of E "ev_key ev"] by (simp add: layer_cached_def)
  have ok: "caches_ok s1" using s1(2) by (simp add: layer_cached_def)
  have t: "tapping_ok ((tap_state st)\<lparr>tapping_key := new_record ev\<rparr>)"
    using p(5) by (simp add: tapping_ok_def ring_ok_def waiting_def waiting_indices_def)
  show "dual_pending E ev h kc (action_exec E mem w ev st)"
    using assms f c l ok t by (simp add: x dual_pending_def dual_press_def tapping_idle_state_def)
  show "hostio (action_exec E mem w ev st) = hostio st" "layer_state (action_exec E mem w ev st) = layer_state st"
    "nkro_now w' (action_exec E mem w ev st) = nkro_now w' st"
    using f same_but_caches_rest(2) [OF s1(1)] by (simp_all add: x)
qed

lemma new_record_simps [simp]:
  "event (new_record ev) = ev" "tap_count (new_record ev) = 0" "tap_interrupted (new_record ev) = False"
  by (simp_all add: new_record_def)

lemma tapping_key_same: "KEYEQ k k"
  by (simp add: KEYEQ_def)

text \<open>Released within the tapping term: the key is typed.\<close>

lemma dual_tapped:
  fixes st :: "('e, 'z) task_scheme" and w mem
  assumes "dual_pending E ev h kc st" "release_of ev rel" "unat (ev_time rel - ev_time ev) < TAPPING_TERM"
  defines "st' \<equiv> action_exec E mem w rel st"
  shows "\<exists>d. hostio st' = unregister_code (pins w) (nkro_now w st) kc (on_hid (wait_ms d) (register_code (pins w) (nkro_now w st) kc (hostio st)))"
    "layer_state st' = layer_state st" "waiting (tap_state st') = []" "undecided (tap_state st') = []"
proof -
  let ?k = "event_keycode E ev st" and ?a = "event_action E ev st"
  have p: "quiet_event E ev st" "ev_pressed ev" "layer_cached E ev st st" "weak_mods (hid (hostio st)) = 0" "tapping_ok (tap_state st)"
    "tapping_key (tap_state st) = new_record ev"
    using assms(1) by (auto simp: dual_pending_def)
  have act: "action_switch w True 1 ?a s = act_register w kc s" "action_switch w False 1 ?a s = tap_release w (?k AND 0xFF) kc s"
    for s :: "('e, 'z) task_scheme"
    using assms(1) dual_role_action(4,5) [of ?k h kc "keymap_config st" w] by (auto simp: dual_pending_def event_action_def)
  have rel: "\<not> ev_pressed rel" "\<not> IS_NOEVENT rel" "ev_key rel = ev_key ev" using assms(2) by (auto simp: release_of_def)
  have q: "quiet_event E rel st" by (rule release_quiet(1) [OF assms(2) p(3,1)]) simp_all
  have b: "before_tapping E rel st = (True, st)" using quiet_before_tapping [OF q p(4)] rel(1) by auto
  let ?r1 = "(new_record ev)\<lparr>tap_count := 1\<rparr>"
  let ?r2 = "(new_record rel)\<lparr>tap_count := 1, tap_interrupted := False\<rparr>"
  have j: "jumped st = None" using p(1) by (simp add: quiet_event_def)
  obtain s2 where s2: "same_but_caches st s2" "layer_cached E ev st s2"
    and x1: "process_record E mem w ?r1 st = (?r1, act_register w kc s2)"
    using quiet_process_record [of E ?r1 st mem w] p(1,2) assms(1) by (auto simp: act dual_pending_def simp del: One_nat_def)
  note f = same_but_caches_fields [OF s2(1)] and g = same_but_caches_rest [OF s2(1)]
  define u where "u = act_register w kc s2"
  have u: "quiet_event E rel u" "event_action E rel u = ?a"
    by (rule release_quiet [OF assms(2) _ p(1)]; simp add: u_def act_io_defs f s2(2))+
  obtain s3 where s3: "same_but_caches u s3" and x2: "process_record E mem w ?r2 u = (?r2, tap_release w (?k AND 0xFF) kc s3)"
    using quiet_process_record [of E ?r2 u mem w] u rel by (auto simp: act simp del: One_nat_def)
  note f3 = same_but_caches_fields [OF s3] and g3 = same_but_caches_rest [OF s3]
  have t: "\<not> IS_NOEVENT (event (new_record rel))" "\<not> pressed_rec (new_record rel)" "IS_TAPPING_RECORD (new_record rel) (tap_state st)"
    "WITHIN_TAPPING_TERM (event (new_record rel)) (tap_state st)"
    using rel assms(3) by (simp_all add: IS_TAPPING_RECORD_def tapping_key_same WITHIN_TAPPING_TERM_def p(6))
  have ju: "jumped u = None" using u(1) by (simp add: quiet_event_def)
  obtain tp' where "action_tapping_process (board_ops E mem w) (new_record rel) (tap_state st) st = (tp', tap_release w (?k AND 0xFF) kc s3)"
    and tp': "waiting tp' = []" "undecided tp' = []"
    using tap_tapped_board [OF p(5) dual_pending_tapping [OF assms(1)] t, of E mem w st] x1 x2 j ju
    by (auto simp: p(6) u_def [symmetric] simp del: One_nat_def)
  then have st': "st' = (tap_release w (?k AND 0xFF) kc s3)\<lparr>tap_state := tp'\<rparr>"
    by (simp add: st'_def action_exec_def b)
  have n: "nkro_now w s3 = nkro_now w st" "nkro_now w s2 = nkro_now w st" using f f3 by (simp_all add: u_def act_io_defs)
  show "\<exists>d. hostio st' = unregister_code (pins w) (nkro_now w st) kc (on_hid (wait_ms d) (register_code (pins w) (nkro_now w st) kc (hostio st)))"
    using f f3 n by (auto simp: st' tap_release_def act_io_defs u_def)
  show "layer_state st' = layer_state st" "waiting (tap_state st') = []" "undecided (tap_state st') = []"
    using g g3 tp' by (simp_all add: st' tap_release_def act_io_defs u_def)
qed

text \<open>Held: the effect on the host's side and on the layers.\<close>

fun held :: "bool \<Rightarrow> hold \<Rightarrow> hostio \<times> layer_state_t \<Rightarrow> hostio \<times> layer_state_t" where
  "held nk (Hold_Layer l) (io, ls) = (io, ls OR push_bit l 1)"
| "held nk (Hold_Mods m) (io, ls) = (on_hid (register_mods nk m) io, ls)"

fun let_go :: "bool \<Rightarrow> hold \<Rightarrow> hostio \<times> layer_state_t \<Rightarrow> hostio \<times> layer_state_t" where
  "let_go nk (Hold_Layer l) (io, ls) = (io, ls AND NOT (push_bit l 1))"
| "let_go nk (Hold_Mods m) (io, ls) = (on_hid (unregister_mods nk m) io, ls)"

lemma hold_effect:
  fixes st :: "('e, 'z) task_scheme"
  shows "(hostio (hold_on w h st), layer_state (hold_on w h st)) = held (nkro_now w st) h (hostio st, layer_state st)"
    "(hostio (hold_off w h st), layer_state (hold_off w h st)) = let_go (nkro_now w st) h (hostio st, layer_state st)"
  by (cases h; simp add: layer_on_def layer_off_def layer_state_set_def act_io_defs)+

lemma weak_mods_register [simp]: "weak_mods (register_mods nk m x) = weak_mods x"
  by (simp add: register_mods_def add_mods_def)

lemma hold_on_cong:
  fixes st :: "('e, 'z) task_scheme"
  shows "layer_cached E ev st0 (hold_on w h st) = layer_cached E ev st0 st" "ee (hold_on w h st) = ee st" "jumped (hold_on w h st) = jumped st"
    "disable_action_cache (hold_on w h st) = disable_action_cache st" "keymap_config (hold_on w h st) = keymap_config st"
    "is_oneshot_layer_active (hold_on w h st) = is_oneshot_layer_active st" "nkro_now w' (hold_on w h st) = nkro_now w' st"
    "weak_mods (hid (hostio (hold_on w h st))) = weak_mods (hid (hostio st))" "tap_state (hold_on w h st) = tap_state st"
  by (cases h; simp add: layer_on_def layer_state_set_def act_io_defs)+

text \<open>The first tick after the tapping term: the key is held.\<close>

lemma dual_held:
  fixes st :: "('e, 'z) task_scheme" and w mem
  assumes "dual_pending E ev h kc st" "IS_NOEVENT tick" "\<not> ev_pressed tick" "TAPPING_TERM \<le> unat (ev_time tick - ev_time ev)"
  obtains s2 where "same_but_caches st s2" "layer_cached E ev st s2"
    "action_exec E mem w tick st = (hold_on w h s2)\<lparr>tap_state := (tap_state st)\<lparr>tapping_key := zero_record\<rparr>\<rparr>"
proof -
  have p: "quiet_event E ev st" "in_matrix (ev_key ev)" "caches_ok st" "tapping_key (tap_state st) = new_record ev" "ev_pressed ev"
    "waiting_buffer_head (tap_state st) = waiting_buffer_tail (tap_state st)"
    using assms(1) by (auto simp: dual_pending_def)
  have act: "action_switch w True 0 (event_action E ev st) s = hold_on w h s" for s :: "('e, 'z) task_scheme"
    using assms(1) dual_role_action(2) by (auto simp: dual_pending_def event_action_def)
  have j: "jumped st = None" using p(1) by (simp add: quiet_event_def)
  obtain s2 where s2: "same_but_caches st s2" "layer_cached E ev st s2"
    and x: "process_record E mem w (new_record ev) st = (new_record ev, hold_on w h s2)"
    using quiet_process_record [of E "new_record ev" st mem w] p by (auto simp: act)
  have "action_tapping_process (board_ops E mem w) (new_record tick) (tap_state st) st =
      ((tap_state st)\<lparr>tapping_key := zero_record\<rparr>, hold_on w h s2)"
    using tap_held [OF p(6) dual_pending_tapping(2) [OF assms(1)], of "new_record tick" "board_ops E mem w" st] assms(2,4) x j
    by (simp add: WITHIN_TAPPING_TERM_def p(4))
  then have "action_exec E mem w tick st = (hold_on w h s2)\<lparr>tap_state := (tap_state st)\<lparr>tapping_key := zero_record\<rparr>\<rparr>"
    using assms(2,3) by (simp add: action_exec_def before_tapping_def)
  then show thesis using that s2 by blast
qed

lemma dual_hold_release:
  fixes st :: "('e, 'z) task_scheme" and w w' mem
  assumes "dual_pending E ev h kc st" "IS_NOEVENT tick" "\<not> ev_pressed tick" "TAPPING_TERM \<le> unat (ev_time tick - ev_time ev)"
    and "release_of ev rel"
  defines "st' \<equiv> action_exec E mem w tick st"
  shows "(hostio st', layer_state st') = held (nkro_now w st) h (hostio st, layer_state st)"
    "(hostio (action_exec E mem w' rel st'), layer_state (action_exec E mem w' rel st')) =
       let_go (nkro_now w' st) h (held (nkro_now w st) h (hostio st, layer_state st))"
proof -
  obtain s2 where s2: "same_but_caches st s2" "layer_cached E ev st s2"
    and x: "st' = (hold_on w h s2)\<lparr>tap_state := (tap_state st)\<lparr>tapping_key := zero_record\<rparr>\<rparr>"
    unfolding st'_def by (rule dual_held [OF assms(1-4), of mem w])
  note f = same_but_caches_fields [OF s2(1)] and g = same_but_caches_rest [OF s2(1)]
  have p: "quiet_event E ev st" "weak_mods (hid (hostio st)) = 0" "waiting_buffer_head (tap_state st) = waiting_buffer_tail (tap_state st)"
    using assms(1) by (auto simp: dual_pending_def)
  show e: "(hostio st', layer_state st') = held (nkro_now w st) h (hostio st, layer_state st)"
    using hold_effect(1) [of w h s2] f g by (simp add: x)
  have c: "ee st' = ee st" "jumped st' = jumped st" "disable_action_cache st' = disable_action_cache st"
    "is_oneshot_layer_active st' = is_oneshot_layer_active st" "keymap_config st' = keymap_config st" "nkro_now w' st' = nkro_now w' st"
    "weak_mods (hid (hostio st')) = 0" "layer_cached E ev st st'"
    using f s2(2) p(2) by (simp_all add: x hold_on_cong)
  note r = release_quiet [OF assms(5) c(8) p(1) c(1-5)]
  have i: "tapping_idle_state (tap_state st')"
    using p(3) by (simp add: x tapping_idle_state_def zero_record_def IS_NOEVENT_def)
  have n: "\<not> ev_pressed rel" using assms(5) by (simp add: release_of_def)
  have act: "action_switch w' False 0 (event_action E rel st') s = hold_off w' h s" for s :: "('e, 'z) task_scheme"
    using assms(1) dual_role_action(3) [of "event_keycode E ev st" h kc "keymap_config st" w' s] r(2)
    by (auto simp: dual_pending_def event_action_def)
  obtain s4 where s4: "same_but_caches st' s4" and y: "action_exec E mem w' rel st' = (hold_off w' h s4)\<lparr>tap_state := tap_state st'\<rparr>"
    using quiet_action_exec [OF r(1) i c(7), of mem w'] n act by auto
  show "(hostio (action_exec E mem w' rel st'), layer_state (action_exec E mem w' rel st')) =
      let_go (nkro_now w' st) h (held (nkro_now w st) h (hostio st, layer_state st))"
    using hold_effect(2) [of w' h s4] same_but_caches_fields [OF s4] same_but_caches_rest [OF s4] c(6) by (simp add: y e)
qed

end
