(* ===== verification/Typed_Text.thy ===== *)
theory Typed_Text
  imports Typing
begin

text \<open>
  What a host with the US layout reads from the reports: \<open>host_text\<close> turns the keys that are new in a report into
  characters. Sending a string of printable characters types exactly that string, so a macro of plain text types
  its text.
\<close>

section \<open>The US layout\<close>

definition us_plain :: bytes where
  "us_plain =
     [0x31, 0x32, 0x33, 0x34, 0x35, 0x36, 0x37, 0x38, 0x39, 0x30, 0x0A, 0x1B, 0x08, 0x09, 0x20, 0x2D, 0x3D, 0x5B,
      0x5D, 0x5C, 0x23, 0x3B, 0x27, 0x60, 0x2C, 0x2E, 0x2F]"

definition us_shifted :: bytes where
  "us_shifted =
     [0x21, 0x40, 0x23, 0x24, 0x25, 0x5E, 0x26, 0x2A, 0x28, 0x29, 0x0A, 0x1B, 0x08, 0x09, 0x20, 0x5F, 0x2B, 0x7B,
      0x7D, 0x7C, 0x7E, 0x3A, 0x22, 0x7E, 0x3C, 0x3E, 0x3F]"

text \<open>The character of a key, by the usage numbers of the USB HID keyboard page.\<close>

definition us_char :: "bool \<Rightarrow> u8 \<Rightarrow> u8" where
  "us_char shifted k =
     (if 0x04 \<le> k \<and> k \<le> 0x1D then k - 4 + (if shifted then 0x41 else 0x61)
      else if 0x1E \<le> k \<and> k \<le> 0x38 then (if shifted then us_shifted else us_plain) ! unat (k - 0x1E)
      else 0)"

definition shift_held :: "u8 \<Rightarrow> bool" where
  "shift_held mods \<longleftrightarrow> mods AND 0x22 \<noteq> 0"

text \<open>The views of the reports, the newest first.\<close>

definition prev_keys :: "(u8 \<times> u8 set) list \<Rightarrow> u8 set" where
  "prev_keys vs = (case vs of [] \<Rightarrow> {} | v # _ \<Rightarrow> snd v)"

fun text_of_views :: "(u8 \<times> u8 set) list \<Rightarrow> bytes" where
  "text_of_views [] = []"
| "text_of_views ((mods, ks) # vs) =
     text_of_views vs @ map (us_char (shift_held mods)) (sorted_list_of_set (ks - prev_keys vs))"

definition host_text :: "bool \<Rightarrow> hid \<Rightarrow> bytes" where
  "host_text nk h = text_of_views (List.map_filter (view_of nk) (host_sent h))"

text \<open>Up to date, with no key and no modifier held.\<close>

definition at_rest :: "bool \<Rightarrow> hid \<Rightarrow> bool" where
  "at_rest nk h \<longleftrightarrow> typing_ok nk h \<and> real_mods h = 0 \<and> report_keys nk h = {}"

lemma at_rest_reset: "at_rest nk hid_reset"
proof -
  have "host_view nk hid_reset = (0, {})" by (simp add: host_view_def hid_reset_def List.map_filter_def Let_def)
  then show ?thesis using typing_ok_reset [of nk] by (simp add: at_rest_def typing_ok_def)
qed

section \<open>What one report adds\<close>

lemma host_view_keys: "prev_keys (List.map_filter (view_of nk) (host_sent h)) = snd (host_view nk h)"
  by (simp add: prev_keys_def host_view_def split: list.split)

text \<open>Sending adds a report or leaves the host with what it has.\<close>

lemma send_text:
  assumes "synced nk h"
  shows "host_text nk (send_keyboard_report nk h) = host_text nk h @
    map (us_char (shift_held (fst (host_view nk (send_keyboard_report nk h)))))
      (sorted_list_of_set (report_keys nk h - snd (host_view nk h)))"
proof -
  have v: "(real_mods h OR weak_mods h OR oneshot_mods h, report_keys nk h) = host_view nk (send_keyboard_report nk h)"
    using send_view(1) [OF assms] by (simp add: or.assoc)
  show ?thesis
  proof (cases "host_sent (send_keyboard_report nk h) = host_sent h")
    case True
    then have "report_keys nk h = snd (host_view nk h)" using v by (simp add: host_view_def prod_eq_iff)
    then show ?thesis using True by (simp add: host_text_def)
  next
    case False
    then have "List.map_filter (view_of nk) (host_sent (send_keyboard_report nk h))
        = host_view nk (send_keyboard_report nk h) # List.map_filter (view_of nk) (host_sent h)"
      by (cases nk) (auto simp: send_defs host_view_def map_filter_Cons split: if_splits)
    then show ?thesis by (simp add: host_text_def host_view_keys flip: v)
  qed
qed

lemma text_frame [simp]:
  "host_text nk (h\<lparr>real_mods := m\<rparr>) = host_text nk h" "host_text nk (add_key b k h) = host_text nk h"
  "host_text nk (del_key b k h) = host_text nk h"
  by (simp_all add: host_text_def)

section \<open>A character\<close>

lemma strike_text_modifier:
  assumes "typing_ok nk (hid io)" "IS_MODIFIER_KEYCODE k"
  shows "host_text nk (hid (register_code env nk k io)) = host_text nk (hid io)"
    "host_text nk (hid (unregister_code env nk k io)) = host_text nk (hid io)"
proof -
  have nb: "\<not> IS_BASIC_KEYCODE k" using assms(2) basic_not_modifier by blast
  show "host_text nk (hid (register_code env nk k io)) = host_text nk (hid io)"
    "host_text nk (hid (unregister_code env nk k io)) = host_text nk (hid io)"
    using assms nb modifier_nonzero [OF assms(2)]
    by (simp_all add: register_code_def unregister_code_def add_mods_def del_mods_def send_text typing_ok_def host_view_def)
qed

definition typed_to :: "bool \<Rightarrow> u8 \<Rightarrow> u8 set \<Rightarrow> bytes \<Rightarrow> typing \<Rightarrow> bool" where
  "typed_to nk m ks str t \<longleftrightarrow>
     typing_ok nk (hid (snd t)) \<and> real_mods (hid (snd t)) = m \<and> report_keys nk (hid (snd t)) = ks \<and> host_text nk (hid (snd t)) = str"

lemma typed_to_view:
  "typed_to nk m ks str t \<longleftrightarrow>
     typing_ok nk (hid (snd t)) \<and> host_view nk (hid (snd t)) = (m, ks) \<and> host_text nk (hid (snd t)) = str"
  by (auto simp: typed_to_def typing_ok_def)

lemma typed_to_rest: "typed_to nk 0 {} str t \<longleftrightarrow> at_rest nk (hid (snd t)) \<and> host_text nk (hid (snd t)) = str"
  by (auto simp: typed_to_def at_rest_def)

lemma wait_frame [simp]:
  "typing_ok nk (wait_ms n h) = typing_ok nk h" "host_text nk (wait_ms n h) = host_text nk h"
  "real_mods (wait_ms n h) = real_mods h" "report_keys nk (wait_ms n h) = report_keys nk h"
proof -
  have v: "List.map_filter (view_of nk) (host_sent (wait_ms n h)) = List.map_filter (view_of nk) (host_sent h)"
    by (cases nk) (simp_all add: wait_ms_def map_filter_Cons)
  show "real_mods (wait_ms n h) = real_mods h" "report_keys nk (wait_ms n h) = report_keys nk h"
    by (simp_all add: wait_ms_def report_keys_def)
  show "host_text nk (wait_ms n h) = host_text nk h" by (simp add: host_text_def v)
  have "hid_ok (wait_ms n h) = hid_ok h" "weak_mods (wait_ms n h) = weak_mods h" "oneshot_mods (wait_ms n h) = oneshot_mods h"
    "last_report (wait_ms n h) = last_report h" "last_nkro_report (wait_ms n h) = last_nkro_report h"
    by (simp_all add: wait_ms_def hid_ok_def)
  moreover have "host_view nk (wait_ms n h) = host_view nk h" by (simp add: host_view_def v)
  ultimately show "typing_ok nk (wait_ms n h) = typing_ok nk h"
    by (simp add: typing_ok_def synced_def) (simp add: wait_ms_def report_keys_def)
qed

lemma typed_wait [simp]: "typed_to nk m ks str (typing_wait n t) = typed_to nk m ks str t"
  by (simp add: typed_to_def typing_wait_def split_beta)

lemma typed_modifier:
  assumes "typed_to nk m ks str t" "IS_MODIFIER_KEYCODE k"
  shows "typed_to nk (m OR MOD_BIT k) ks str (typing_do (\<lambda>env. register_code env nk k) t)"
    "typed_to nk (m AND NOT (MOD_BIT k)) ks str (typing_do (\<lambda>env. unregister_code env nk k) t)"
proof -
  have ok: "typing_ok nk (hid (snd t))" "host_view nk (hid (snd t)) = (m, ks)"
    using assms(1) by (auto simp: typed_to_def typing_ok_def)
  note m = strike_modifier [OF ok(1) assms(2), of "fst t"] and tx = strike_text_modifier [OF ok(1) assms(2), of "fst t"]
  have "host_text nk (hid (snd t)) = str" using assms(1) by (simp add: typed_to_def)
  then show "typed_to nk (m OR MOD_BIT k) ks str (typing_do (\<lambda>env. register_code env nk k) t)"
    "typed_to nk (m AND NOT (MOD_BIT k)) ks str (typing_do (\<lambda>env. unregister_code env nk k) t)"
    using m tx ok(2) assms(2) by (simp_all add: typed_to_view typing_do_def split_beta)
qed

lemma typed_key_down:
  assumes "typed_to nk m {} str t" "IS_BASIC_KEYCODE k"
  shows "typed_to nk m {k} (str @ [us_char (shift_held m) k]) (typing_do (\<lambda>env. register_code env nk k) t)"
proof -
  let ?h = "hid (snd t)"
  have ok: "typing_ok nk ?h" "host_view nk ?h = (m, {})" "report_keys nk ?h = {}" "hid_ok ?h" "synced nk ?h"
      "host_text nk ?h = str"
    using assms(1) by (auto simp: typed_to_def typing_ok_def)
  have k: "k \<noteq> 0" "unat k < 8 * NKRO_REPORT_BITS" using basic_bounds [OF assms(2)] by auto
  have cap: "key_capacity nk {}" by (simp add: key_capacity_def hw_defs)
  have new: "report_keys nk (add_key nk k ?h) = {k}"
    using report_keys_add(1) [OF ok(4) k(1), of nk] k(2) ok(3) by (cases nk) (simp_all add: key_room_def hw_defs)
  have d: "typing_ok nk (hid (register_code (fst t) nk k (snd t)))"
    "host_view nk (hid (register_code (fst t) nk k (snd t))) = (m, {k})"
    using strike_basic_down [OF ok(1) assms(2), of "fst t"] basic_not_modifier [OF assms(2)] ok(2) cap by simp_all
  have "hid (register_code (fst t) nk k (snd t)) = send_keyboard_report nk (add_key nk k ?h)"
    using k(1) assms(2) is_key_pressed_iff [OF ok(4) k(1), of nk] ok(3) by (simp add: register_code_def)
  then have "host_text nk (hid (register_code (fst t) nk k (snd t))) = str @ [us_char (shift_held m) k]"
    using send_text [of nk "add_key nk k ?h"] ok d(2) new by (simp add: host_view_def)
  then show ?thesis using d by (simp add: typed_to_view typing_do_def split_beta)
qed

lemma typed_key_up:
  assumes "typed_to nk m ks str t" "IS_BASIC_KEYCODE k"
  shows "typed_to nk m (ks - {k}) str (typing_do (\<lambda>env. unregister_code env nk k) t)"
proof -
  let ?h = "hid (snd t)"
  have ok: "typing_ok nk ?h" "host_view nk ?h = (m, ks)" "report_keys nk ?h = ks" "hid_ok ?h" "synced nk ?h"
      "host_text nk ?h = str"
    using assms(1) by (auto simp: typed_to_def typing_ok_def)
  have u: "typing_ok nk (hid (unregister_code (fst t) nk k (snd t)))"
    "host_view nk (hid (unregister_code (fst t) nk k (snd t))) = (m, ks - {k})"
    using strike_basic_up [OF ok(1) assms(2), of "fst t"] basic_not_modifier [OF assms(2)] ok(2) by simp_all
  have "hid (unregister_code (fst t) nk k (snd t)) = send_keyboard_report nk (del_key nk k ?h)"
    using basic_bounds [OF assms(2)] assms(2) by (simp add: unregister_code_def)
  moreover have "report_keys nk ?h - {k} - snd (host_view nk ?h) = {}" using ok(2,3) by auto
  ultimately have "host_text nk (hid (unregister_code (fst t) nk k (snd t))) = str"
    using send_text [of nk "del_key nk k ?h"] ok report_keys_del(1) [OF ok(4), of nk k] by (simp add: host_view_def)
  then show ?thesis using u by (simp add: typed_to_view typing_do_def split_beta)
qed

text \<open>The characters the tables have a key for on the US layout: printable ASCII, newline and tab.\<close>

definition typeable :: "u8 \<Rightarrow> bool" where
  "typeable c \<longleftrightarrow> 0x20 \<le> c \<and> c \<le> 0x7E \<or> c = 0x0A \<or> c = 0x09"

definition char_ok :: "u8 \<Rightarrow> bool" where
  "char_ok c \<longleftrightarrow>
     (let k = ascii_to_keycode_lut ! unat c; shifted = bit (ascii_to_shift_lut ! (unat c div 8)) (unat c mod 8) in
      IS_BASIC_KEYCODE k \<and> us_char shifted k = c)"

lemma chars_ok: "list_all (\<lambda>n. char_ok (word_of_nat n)) ([9, 10] @ [32..<127])"
  by code_simp

lemma typeable_chars: "typeable c \<Longrightarrow> unat c = 9 \<or> unat c = 10 \<or> 32 \<le> unat c \<and> unat c < 127"
  by (auto simp: typeable_def word_le_nat_alt)

lemma typeable_ok: "typeable c \<Longrightarrow> char_ok c"
proof -
  assume "typeable c"
  then have "unat c \<in> set ([9, 10] @ [32..<127])" using typeable_chars [of c] by (auto simp del: upt_rec_numeral)
  then have "char_ok (word_of_nat (unat c))" using chars_ok unfolding list_all_iff by blast
  then show ?thesis by simp
qed

lemma send_char_types:
  assumes "typeable c" "typed_to nk 0 {} str t"
  shows "typed_to nk 0 {} (str @ [c]) (send_char_with_delay mem nk c n t)"
proof -
  define k where "k = ascii_to_keycode_lut ! unat c"
  define sh where "sh = bit (ascii_to_shift_lut ! (unat c div 8)) (unat c mod 8)"
  have c: "unat c < 128" using typeable_chars [OF assms(1)] by auto
  have k: "IS_BASIC_KEYCODE k" "us_char sh k = c" using typeable_ok [OF assms(1)] by (simp_all add: char_ok_def k_def sh_def Let_def)
  have l: "length ascii_to_keycode_lut = 128" "length ascii_to_shift_lut = 16" "length ascii_to_altgr_lut = 16" "length ascii_to_dead_lut = 16"
    by (simp_all add: ascii_to_keycode_lut_def ascii_to_shift_lut_def ascii_to_altgr_lut_def ascii_to_dead_lut_def)
  have t: "lut_byte mem Keycode_Lut (unat c) = k" "PGM_LOADBIT mem Shift_Lut c = sh" "PGM_LOADBIT mem Altgr_Lut c = False"
    "PGM_LOADBIT mem Dead_Lut c = False"
    using c by (simp_all add: lut_byte_def PGM_LOADBIT_def l k_def sh_def less_mult_imp_div_less)
      (simp_all add: ascii_to_altgr_lut_def ascii_to_dead_lut_def less_mult_imp_div_less)
  have m: "IS_MODIFIER_KEYCODE KC_LEFT_SHIFT" "MOD_BIT KC_LEFT_SHIFT = 2" "shift_held 2" "\<not> shift_held 0"
    by (simp_all add: IS_MODIFIER_KEYCODE_def MOD_BIT_def KC_LEFT_SHIFT_def shift_held_def)
  have key: "typed_to nk m {} (str @ [c]) (typing_tap nk k n u)" if "typed_to nk m {} str u" "shift_held m = sh" for m u
    using typed_key_up [OF typed_wait [THEN iffD2, OF typed_key_down [OF that(1) k(1)]] k(1)] that(2) k(2)
    by (simp add: typing_tap_def)
  show ?thesis
  proof (cases sh)
    case True
    have "typed_to nk 2 {} str (typing_do (\<lambda>env. register_code env nk KC_LEFT_SHIFT) t)"
      using typed_modifier(1) [OF assms(2) m(1)] by (simp add: m(2))
    then have "typed_to nk 2 {} (str @ [c]) (typing_tap nk k n (typing_wait n (typing_do (\<lambda>env. register_code env nk KC_LEFT_SHIFT) t)))"
      using key m(3) True by simp
    from typed_modifier(2) [OF typed_wait [THEN iffD2, OF this] m(1)] show ?thesis
      using True by (simp add: send_char_with_delay_def t Let_def m(2))
  next
    case False
    then show ?thesis using key [OF assms(2)] m(4) by (simp add: send_char_with_delay_def t Let_def)
  qed
qed

section \<open>Strings and macros\<close>

lemma typeable_not_control: "typeable c \<Longrightarrow> c \<noteq> 0 \<and> c \<noteq> SS_QMK_PREFIX"
  by (auto simp: typeable_def hw_defs word_le_nat_alt)

lemma send_string_types:
  assumes "\<forall>c\<in>set str. typeable c" "typed_to nk 0 {} str0 t" "cs = [] \<or> hd cs = 0"
  shows "typed_to nk 0 {} (str0 @ str) (send_string_with_delay_impl mem nk n (str @ cs) t)"
  using assms
proof (induction str arbitrary: str0 t)
  case Nil
  then show ?case by (cases cs) auto
next
  case (Cons c str)
  then show ?case using send_char_types [of c nk str0 t mem n] typeable_not_control [of c] by fastforce
qed

text \<open>Macros are kept one after the other, each closed by a zero byte.\<close>

lemma macro_bytes_Cons:
  assumes "macro_bytes E off e = x # xs"
  shows "off < nvm_dynamic_keymap_macro_size" "dynamic_keymap_read_byte E off e = x" "macro_bytes E (Suc off) e = xs"
proof -
  show l: "off < nvm_dynamic_keymap_macro_size"
    using arg_cong [OF assms, of length] by (auto simp: macro_bytes_def)
  show "dynamic_keymap_read_byte E off e = x" "macro_bytes E (Suc off) e = xs"
    using assms l by (simp_all add: macro_bytes_def upt_conv_Cons)
qed

lemma macro_skip_one:
  assumes "macro_bytes E off e = m @ 0 # xs" "0 \<notin> set m" "off + left = nvm_dynamic_keymap_macro_size"
  shows "macro_skip E left (Suc n) off e = macro_skip E (left - Suc (length m)) n (off + Suc (length m)) e"
    "macro_bytes E (off + Suc (length m)) e = xs" "length m < left"
proof -
  have "macro_skip E left (Suc n) off e = macro_skip E (left - Suc (length m)) n (off + Suc (length m)) e
      \<and> macro_bytes E (off + Suc (length m)) e = xs \<and> length m < left"
    using assms
  proof (induction m arbitrary: off left)
    case Nil
    then show ?case using macro_bytes_Cons [of E off e 0 xs] by (cases left) auto
  next
    case (Cons c m)
    note b = macro_bytes_Cons [of E off e c "m @ 0 # xs"]
    obtain l where l: "left = Suc l" using b(1) Cons.prems(1,3) by (cases left) auto
    show ?case using Cons.IH [of "Suc off" l] b Cons.prems l by simp
  qed
  then show "macro_skip E left (Suc n) off e = macro_skip E (left - Suc (length m)) n (off + Suc (length m)) e"
    "macro_bytes E (off + Suc (length m)) e = xs" "length m < left" by simp_all
qed

lemma macro_skip_finds:
  assumes "macro_bytes E off e = concat (map (\<lambda>m. m @ [0]) ms) @ xs" "\<forall>m\<in>set ms. 0 \<notin> set m" "n < length ms"
    and "off + left = nvm_dynamic_keymap_macro_size"
  shows "\<exists>off' ys. macro_skip E left n off e = Some off' \<and> macro_bytes E off' e = ms ! n @ 0 # ys"
  using assms
proof (induction n arbitrary: ms off left)
  case 0
  then show ?case by (cases ms) auto
next
  case (Suc n)
  obtain m ms' where ms: "ms = m # ms'" using Suc.prems(3) by (cases ms) auto
  have "macro_bytes E off e = m @ 0 # (concat (map (\<lambda>m. m @ [0]) ms') @ xs)" "0 \<notin> set m" using Suc.prems(1,2) ms by simp_all
  note one = macro_skip_one [OF this Suc.prems(4)]
  have "off + Suc (length m) + (left - Suc (length m)) = nvm_dynamic_keymap_macro_size" using one(3) Suc.prems(4) by simp
  from Suc.IH [OF one(2) _ _ this] Suc.prems(2,3) ms show ?case unfolding one(1) by simp
qed

text \<open>The buffer after a reset and a write of the macros.\<close>

context board_eeprom
begin

lemma macro_buffer_written:
  assumes "inv e" "length data \<le> DYNAMIC_KEYMAP_MACRO_EEPROM_SIZE"
  shows "macro_bytes E 0 (dynamic_keymap_macro_set_buffer E 0 data (dynamic_keymap_macro_reset E e)) =
    data @ replicate (DYNAMIC_KEYMAP_MACRO_EEPROM_SIZE - length data) 0"
proof -
  let ?e1 = "dynamic_keymap_macro_reset E e"
  have z: "inv ?e1" "\<And>j. 839 \<le> j \<Longrightarrow> j < 8192 \<Longrightarrow> view ?e1 ! j = 0"
    using zero_region_view [of e 839 7353] assms(1)
    by (simp_all add: dynamic_keymap_macro_reset_def nvm_dynamic_keymap_macro_reset_def hw_defs nth_blit)
  note u = region_update_view [OF z(1), of 839 7353 0 data]
  show ?thesis
    using u z assms(2) region_read_view [of "region_update E 839 7353 0 data ?e1" 839 7353 _ 1]
    by (auto intro!: nth_equalityI simp: macro_bytes_def nth_append dynamic_keymap_read_byte_def dynamic_keymap_macro_set_buffer_def
        nvm_dynamic_keymap_macro_update_buffer_def nvm_dynamic_keymap_macro_read_buffer_def nvm_dynamic_keymap_macro_size_def hw_defs)
qed

end

end
