(* ===== verification/Pointer.thy ===== *)
theory Pointer
  imports Mousekey
begin

text \<open>
  What the mouse keys promise: \<open>pointer\<close> is the direction of each axis and the set of buttons, without speeds and
  repetition counts. The mouse keys refine it, and each report of the task moves along its directions within the
  top speed.
\<close>

section \<open>The pointer\<close>

record pointer =
  dir_x :: int
  dir_y :: int
  dir_v :: int
  dir_h :: int
  buttons :: "nat set"

definition pointer_of :: "mousekey_t \<Rightarrow> pointer" where
  "pointer_of m =
     (let r = mouse_report m in
      \<lparr>dir_x = sgn (sint (rm_x r)), dir_y = sgn (sint (rm_y r)), dir_v = sgn (sint (rm_v r)), dir_h = sgn (sint (rm_h r)),
       buttons = {n. bit (rm_buttons r) n}\<rparr>)"

definition is_button :: "u8 \<Rightarrow> bool" where
  "is_button code \<longleftrightarrow> QK_MOUSE_BUTTON_1 \<le> code \<and> code \<le> QK_MOUSE_BUTTON_8"

text \<open>A direction key sets its axis; its release stops the axis if it still goes that way.\<close>

definition press_pointer :: "u8 \<Rightarrow> pointer \<Rightarrow> pointer" where
  "press_pointer code p =
     (if code = QK_MOUSE_CURSOR_UP then p\<lparr>dir_y := -1\<rparr> else if code = QK_MOUSE_CURSOR_DOWN then p\<lparr>dir_y := 1\<rparr>
      else if code = QK_MOUSE_CURSOR_LEFT then p\<lparr>dir_x := -1\<rparr> else if code = QK_MOUSE_CURSOR_RIGHT then p\<lparr>dir_x := 1\<rparr>
      else if code = QK_MOUSE_WHEEL_UP then p\<lparr>dir_v := 1\<rparr> else if code = QK_MOUSE_WHEEL_DOWN then p\<lparr>dir_v := -1\<rparr>
      else if code = QK_MOUSE_WHEEL_LEFT then p\<lparr>dir_h := -1\<rparr> else if code = QK_MOUSE_WHEEL_RIGHT then p\<lparr>dir_h := 1\<rparr>
      else if is_button code then p\<lparr>buttons := insert (unat (code - QK_MOUSE_BUTTON_1)) (buttons p)\<rparr>
      else p)"

definition stop :: "int \<Rightarrow> int \<Rightarrow> int" where
  "stop d dir = (if dir = d then 0 else dir)"

definition release_pointer :: "u8 \<Rightarrow> pointer \<Rightarrow> pointer" where
  "release_pointer code p =
     (if code = QK_MOUSE_CURSOR_UP then p\<lparr>dir_y := stop (-1) (dir_y p)\<rparr>
      else if code = QK_MOUSE_CURSOR_DOWN then p\<lparr>dir_y := stop 1 (dir_y p)\<rparr>
      else if code = QK_MOUSE_CURSOR_LEFT then p\<lparr>dir_x := stop (-1) (dir_x p)\<rparr>
      else if code = QK_MOUSE_CURSOR_RIGHT then p\<lparr>dir_x := stop 1 (dir_x p)\<rparr>
      else if code = QK_MOUSE_WHEEL_UP then p\<lparr>dir_v := stop 1 (dir_v p)\<rparr>
      else if code = QK_MOUSE_WHEEL_DOWN then p\<lparr>dir_v := stop (-1) (dir_v p)\<rparr>
      else if code = QK_MOUSE_WHEEL_LEFT then p\<lparr>dir_h := stop (-1) (dir_h p)\<rparr>
      else if code = QK_MOUSE_WHEEL_RIGHT then p\<lparr>dir_h := stop 1 (dir_h p)\<rparr>
      else if is_button code then p\<lparr>buttons := buttons p - {unat (code - QK_MOUSE_BUTTON_1)}\<rparr>
      else p)"

definition mouse_stroke :: "u8 \<times> bool \<Rightarrow> mousekey_t \<Rightarrow> mousekey_t" where
  "mouse_stroke s m = (if snd s then mousekey_on (fst s) m else mousekey_off (fst s) m)"

definition pointer_stroke :: "u8 \<times> bool \<Rightarrow> pointer \<Rightarrow> pointer" where
  "pointer_stroke s p = (if snd s then press_pointer (fst s) p else release_pointer (fst s) p)"

section \<open>Refinement\<close>

lemma unit_signs [simp]:
  "sgn (sint (move_unit m)) = 1" "sgn (sint (- move_unit m)) = -1" "sgn (sint (wheel_unit m)) = 1" "sgn (sint (- wheel_unit m)) = -1"
  using unit_bounds [of m] by (simp_all add: sint_8_minus)

lemma button_bit: "is_button code \<Longrightarrow> unat (code - QK_MOUSE_BUTTON_1) < 8"
  by (auto simp: is_button_def hw_defs word_le_nat_alt unat_sub)

lemma button_set:
  fixes b :: u8
  assumes "n < 8"
  shows "{i. bit (b OR push_bit n 1) i} = insert n {i. bit b i}" "{i. bit (b AND NOT (push_bit n 1)) i} = {i. bit b i} - {n}"
  using assms bit_imp_le_length [of b] by (auto simp: bit_simps not_le)

lemma pointer_of_updates [simp]:
  "pointer_of (m\<lparr>mouse_report := (mouse_report m)\<lparr>rm_x := v\<rparr>\<rparr>) = (pointer_of m)\<lparr>dir_x := sgn (sint v)\<rparr>"
  "pointer_of (m\<lparr>mouse_report := (mouse_report m)\<lparr>rm_y := v\<rparr>\<rparr>) = (pointer_of m)\<lparr>dir_y := sgn (sint v)\<rparr>"
  "pointer_of (m\<lparr>mouse_report := (mouse_report m)\<lparr>rm_v := v\<rparr>\<rparr>) = (pointer_of m)\<lparr>dir_v := sgn (sint v)\<rparr>"
  "pointer_of (m\<lparr>mouse_report := (mouse_report m)\<lparr>rm_h := v\<rparr>\<rparr>) = (pointer_of m)\<lparr>dir_h := sgn (sint v)\<rparr>"
  "pointer_of (m\<lparr>mousekey_repeat := a\<rparr>) = pointer_of m" "pointer_of (m\<lparr>mousekey_wheel_repeat := a\<rparr>) = pointer_of m"
  "pointer_of (m\<lparr>mousekey_accel := a\<rparr>) = pointer_of m"
  by (simp_all add: pointer_of_def Let_def)

lemma pointer_of_buttons:
  assumes "is_button code"
  shows "pointer_of (map_mouse (rm_buttons_update (\<lambda>b. b OR push_bit (unat (code - QK_MOUSE_BUTTON_1)) 1)) m)
      = (pointer_of m)\<lparr>buttons := insert (unat (code - QK_MOUSE_BUTTON_1)) (buttons (pointer_of m))\<rparr>"
    "pointer_of (map_mouse (rm_buttons_update (\<lambda>b. b AND NOT (push_bit (unat (code - QK_MOUSE_BUTTON_1)) 1))) m)
      = (pointer_of m)\<lparr>buttons := buttons (pointer_of m) - {unat (code - QK_MOUSE_BUTTON_1)}\<rparr>"
  using button_set [OF button_bit [OF assms]] by (simp_all add: pointer_of_def Let_def del: push_bit_of_1)

lemma on_refines: "pointer_of (mousekey_on code m) = press_pointer code (pointer_of m)"
  unfolding mousekey_on_def press_pointer_def is_button_def [symmetric] if_distrib [of pointer_of]
  by (simp add: pointer_of_buttons cong: if_cong del: push_bit_of_1)

text \<open>An axis that does not go the way of the released key keeps its direction.\<close>

lemma stop_same:
  "\<not> sint (rm_x (mouse_report m)) < 0 \<Longrightarrow> (pointer_of m)\<lparr>dir_x := stop (-1) (dir_x (pointer_of m))\<rparr> = pointer_of m"
  "\<not> sint (rm_y (mouse_report m)) < 0 \<Longrightarrow> (pointer_of m)\<lparr>dir_y := stop (-1) (dir_y (pointer_of m))\<rparr> = pointer_of m"
  "\<not> sint (rm_v (mouse_report m)) < 0 \<Longrightarrow> (pointer_of m)\<lparr>dir_v := stop (-1) (dir_v (pointer_of m))\<rparr> = pointer_of m"
  "\<not> sint (rm_h (mouse_report m)) < 0 \<Longrightarrow> (pointer_of m)\<lparr>dir_h := stop (-1) (dir_h (pointer_of m))\<rparr> = pointer_of m"
  "\<not> 0 < sint (rm_x (mouse_report m)) \<Longrightarrow> (pointer_of m)\<lparr>dir_x := stop 1 (dir_x (pointer_of m))\<rparr> = pointer_of m"
  "\<not> 0 < sint (rm_y (mouse_report m)) \<Longrightarrow> (pointer_of m)\<lparr>dir_y := stop 1 (dir_y (pointer_of m))\<rparr> = pointer_of m"
  "\<not> 0 < sint (rm_v (mouse_report m)) \<Longrightarrow> (pointer_of m)\<lparr>dir_v := stop 1 (dir_v (pointer_of m))\<rparr> = pointer_of m"
  "\<not> 0 < sint (rm_h (mouse_report m)) \<Longrightarrow> (pointer_of m)\<lparr>dir_h := stop 1 (dir_h (pointer_of m))\<rparr> = pointer_of m"
  by (simp_all add: pointer_of_def stop_def sgn_if Let_def)

lemma stop_stops:
  "sint (rm_x (mouse_report m)) < 0 \<Longrightarrow> stop (-1) (dir_x (pointer_of m)) = 0" "0 < sint (rm_x (mouse_report m)) \<Longrightarrow> stop 1 (dir_x (pointer_of m)) = 0"
  "sint (rm_y (mouse_report m)) < 0 \<Longrightarrow> stop (-1) (dir_y (pointer_of m)) = 0" "0 < sint (rm_y (mouse_report m)) \<Longrightarrow> stop 1 (dir_y (pointer_of m)) = 0"
  "sint (rm_v (mouse_report m)) < 0 \<Longrightarrow> stop (-1) (dir_v (pointer_of m)) = 0" "0 < sint (rm_v (mouse_report m)) \<Longrightarrow> stop 1 (dir_v (pointer_of m)) = 0"
  "sint (rm_h (mouse_report m)) < 0 \<Longrightarrow> stop (-1) (dir_h (pointer_of m)) = 0" "0 < sint (rm_h (mouse_report m)) \<Longrightarrow> stop 1 (dir_h (pointer_of m)) = 0"
  by (simp_all add: pointer_of_def stop_def sgn_if Let_def)

lemma button_codes:
  assumes "is_button code"
  shows "code \<notin> {0xCD, 0xCE, 0xCF, 0xD0, 0xD9, 0xDA, 0xDB, 0xDC}"
  using assms by (auto simp: is_button_def hw_defs word_le_nat_alt)

lemma off_refines: "pointer_of (mousekey_off code m) = release_pointer code (pointer_of m)"
proof -
  have if_off: "pointer_of (if c then m1\<lparr>mousekey_repeat := a\<rparr> else m1) = pointer_of m1"
    "pointer_of (if c then m1\<lparr>mousekey_wheel_repeat := a\<rparr> else m1) = pointer_of m1" for c m1 a by simp_all
  note codes = QK_MOUSE_CURSOR_UP_def QK_MOUSE_CURSOR_DOWN_def QK_MOUSE_CURSOR_LEFT_def QK_MOUSE_CURSOR_RIGHT_def
    QK_MOUSE_WHEEL_UP_def QK_MOUSE_WHEEL_DOWN_def QK_MOUSE_WHEEL_LEFT_def QK_MOUSE_WHEEL_RIGHT_def
    QK_MOUSE_ACCELERATION_0_def QK_MOUSE_ACCELERATION_1_def QK_MOUSE_ACCELERATION_2_def
  have no_button: "\<forall>c\<in>{0xCD, 0xCE, 0xCF, 0xD0, 0xD9, 0xDA, 0xDB, 0xDC}. \<not> is_button c"
    using button_codes by blast
  consider "code = 0xCD" | "code = 0xCE" | "code = 0xCF" | "code = 0xD0" | "code = 0xD9" | "code = 0xDA" | "code = 0xDB" | "code = 0xDC"
    | "is_button code" | "\<not> is_button code" "code \<notin> {0xCD, 0xCE, 0xCF, 0xD0, 0xD9, 0xDA, 0xDB, 0xDC}" by blast
  then show ?thesis
  proof cases
    case 9
    show ?thesis
      using 9 button_codes [OF 9] unfolding mousekey_off_def Let_def if_off is_button_def [symmetric]
      by (simp add: release_pointer_def codes pointer_of_buttons del: push_bit_of_1)
  next
    case 10
    then show ?thesis
      unfolding mousekey_off_def Let_def if_off is_button_def [symmetric]
      by (simp add: release_pointer_def codes if_distrib [of pointer_of])
  qed (unfold mousekey_off_def Let_def if_off is_button_def [symmetric],
      (use no_button in \<open>simp add: release_pointer_def codes stop_same stop_stops\<close>)+)
qed

lemma strokes_refine_pointer: "pointer_of (fold mouse_stroke ss m) = fold pointer_stroke ss (pointer_of m)"
  by (induction ss arbitrary: m) (simp_all add: mouse_stroke_def pointer_stroke_def on_refines off_refines)

end
