(* ===== verification/Input_Theorems.thy ===== *)
theory Input_Theorems
  imports Sample_Board
begin

text \<open>
  From the matrix and the knob to actions: the debounced matrix, the events of the matrix task,
  the keys that wake the host, the encoder's queue and its detents, layers and keycode swaps.
\<close>

section \<open>The matrix task\<close>

text \<open>
  The debounced matrix. A scan replaces it by the raw matrix exactly when no reported key state changed in this
  scan and, if a change is being debounced, the last one is at least five milliseconds old;
  otherwise the debounced matrix stays. The scan's result says whether it changed, and afterwards the
  raw matrix again shows exactly the reported states.
\<close>

theorem matrix_debounce_rule:
  fixes st :: "('e, 'z) fw_scheme"
  assumes "board_wiring env volt push" "matrix_scan E env st = (ch, st')" "he_ok st" "matrix_ok st"
  shows "cooked_matrix st' =
      (if (\<forall>i<69. pressed (he_config st' ! i) = pressed (he_config st ! i)) \<and> (debouncing st \<longrightarrow> 5 \<le> timer_ms env - debouncing_time st)
       then raw_matrix st' else cooked_matrix st)
    \<and> (ch \<longleftrightarrow> cooked_matrix st' \<noteq> cooked_matrix st) \<and> matrix_ok st'"
  using board_wiring.matrix_scan_result(1-3) [OF assms] by (simp add: DEBOUNCE_def)

theorem matrix_debounce_rule_witness:
  "fst (matrix_scan board_ee (flat_env 1000 1) demo_kb) \<longleftrightarrow>
     cooked_matrix (snd (matrix_scan board_ee (flat_env 1000 1) demo_kb)) \<noteq> cooked_matrix demo_kb"
  using matrix_debounce_rule [OF flat_wiring [of 1000 1] prod.collapse [symmetric] demo_kb_ok(2,4), of board_ee] by blast

definition key_events :: "keyevent_t list \<Rightarrow> keyevent_t list" where
  "key_events = filter (\<lambda>ev. ev_type ev = KEY_EVENT)"

lemma matrix_events_key: "key_events (matrix_events env prev cur wk) = matrix_events env prev cur wk"
  unfolding key_events_def by (rule filter_True) (auto simp: matrix_events_def row_events_def MAKE_KEYEVENT_def MAKE_EVENT_def)

lemma tick_no_key: "key_events (fst (generate_tick_event env st)) = []" "length (fst (generate_tick_event env st)) \<le> Suc 0"
  "matrix_previous (snd (generate_tick_event env st)) = matrix_previous st" "cooked_matrix (snd (generate_tick_event env st)) = cooked_matrix st"
  "wakeup_matrix (snd (generate_tick_event env st)) = wakeup_matrix st"
  by (simp_all add: generate_tick_event_def key_events_def MAKE_TICK_EVENT_def MAKE_EVENT_def Let_def)

lemma kb_sizes: "kb_ok st \<Longrightarrow> length (wakeup_matrix st) = 5" "kb_ok st \<Longrightarrow> length (matrix_previous st) = 5"
  by (simp_all add: kb_ok_def)

lemma scan_sizes:
  assumes "board_wiring env volt push" "kb_ok st"
  shows "wakeup_matrix (snd (matrix_scan E env st)) = wakeup_matrix st" "matrix_previous (snd (matrix_scan E env st)) = matrix_previous st"
    and "length (cooked_matrix (snd (matrix_scan E env st))) = 5"
proof -
  have ok: "he_ok st" "matrix_ok st" using assms(2) by (simp_all add: kb_ok_def fw_ok_def)
  note r = board_wiring.matrix_scan_result [OF assms(1) prod.collapse [symmetric] ok, of E]
  show "wakeup_matrix (snd (matrix_scan E env st)) = wakeup_matrix st" using fw_more_fields [OF r(7)] by simp
  show "matrix_previous (snd (matrix_scan E env st)) = matrix_previous st" by (rule r(8))
  show "length (cooked_matrix (snd (matrix_scan E env st))) = 5" using r(3) by (simp add: matrix_ok_def)
qed

text \<open>
  C29: The events of the matrix task are faithful. With no wake-up keys pending, applying the key events of one run of
  the task, in order, to the matrix the host knew gives the debounced matrix, and that is
  what the task remembers for the next run; a run that finds no change sends no key event, at most a tick.
\<close>

theorem matrix_task_faithful:
  fixes st :: "('e, 'z) kb_scheme"
  assumes "board_wiring env volt push" "kb_ok st" "wakeup_matrix st = replicate 5 0" "matrix_task E env st = (changed, evs, st')"
  shows "fold apply_event (key_events evs) (matrix_previous st) = cooked_matrix st' \<and> matrix_previous st' = cooked_matrix st'
    \<and> (\<not> changed \<longrightarrow> key_events evs = [] \<and> length evs \<le> 1)"
proof -
  let ?st1 = "snd (matrix_scan E env st)"
  note s = scan_sizes [OF assms(1,2), of E] and k = kb_sizes [OF assms(2)]
  note t = matrix_task_events [of E env st, unfolded s(1,2), OF k s(3), unfolded assms(4)]
  have rep: "fold apply_event (matrix_events env (matrix_previous st) (cooked_matrix ?st1) (wakeup_matrix st)) (matrix_previous st) = cooked_matrix ?st1"
    by (rule replay_events [OF k(2) s(3) assms(3)])
  show ?thesis
  proof (cases "cooked_matrix ?st1 = matrix_previous st")
    case True
    then have c: "\<not> changed" "evs = fst (generate_tick_event env ?st1)" "st' = snd (generate_tick_event env ?st1)"
      using t by (simp_all add: prod_eq_iff)
    show ?thesis using True s(2) by (simp add: c tick_no_key)
  next
    case False
    then show ?thesis using t rep by (simp add: matrix_events_key)
  qed
qed

theorem matrix_task_faithful_witness:
  "fold apply_event (key_events (fst (snd (matrix_task board_ee (flat_env 1000 1) demo_kb)))) (matrix_previous demo_kb)
     = cooked_matrix (snd (snd (matrix_task board_ee (flat_env 1000 1) demo_kb)))"
proof -
  obtain ch evs st' where t: "matrix_task board_ee (flat_env 1000 1) demo_kb = (ch, evs, st')" by (metis prod_cases3)
  from matrix_task_faithful [OF flat_wiring demo_kb_state(1) demo_kb_fields(9) t] show ?thesis by (simp add: t)
qed

text \<open>The state after \<open>n\<close> runs of the matrix task, and the events of run \<open>n\<close>.\<close>

primrec pass_seq :: "'e eeprom_driver \<Rightarrow> (nat \<Rightarrow> env) \<Rightarrow> ('e, 'z) kb_scheme \<Rightarrow> nat \<Rightarrow> ('e, 'z) kb_scheme" where
  "pass_seq E envs st 0 = st"
| "pass_seq E envs st (Suc n) = snd (snd (matrix_task E (envs n) (pass_seq E envs st n)))"

definition pass_events :: "'e eeprom_driver \<Rightarrow> (nat \<Rightarrow> env) \<Rightarrow> ('e, 'z) kb_scheme \<Rightarrow> nat \<Rightarrow> keyevent_t list" where
  "pass_events E envs st n = fst (snd (matrix_task E (envs n) (pass_seq E envs st n)))"

definition about_key :: "nat \<Rightarrow> nat \<Rightarrow> keyevent_t \<Rightarrow> bool" where
  "about_key r c ev \<longleftrightarrow> ev_type ev = KEY_EVENT \<and> ev_key ev = \<lparr>col = word_of_nat c, row = word_of_nat r\<rparr>"

definition known :: "nat \<Rightarrow> nat \<Rightarrow> ('e, 'z) kb_scheme \<Rightarrow> bool" where
  "known r c st \<longleftrightarrow> bit (matrix_previous st ! r) c"

definition marked :: "nat \<Rightarrow> nat \<Rightarrow> ('e, 'z) kb_scheme \<Rightarrow> bool" where
  "marked r c st \<longleftrightarrow> bit (wakeup_matrix st ! r) c"

text \<open>One run, for one key: an event exactly when it changed and is not marked; the mark goes with the release.\<close>

lemma task_key:
  fixes st :: "('e, 'z) kb_scheme"
  assumes "board_wiring env volt push" "kb_ok st" "matrix_task E env st = (changed, evs, st')" "r < 5" "c < 16"
  shows "kb_ok st'" "known r c st' = bit (cooked_matrix st' ! r) c"
    and "marked r c st' \<longleftrightarrow> marked r c st \<and> \<not> (known r c st \<and> \<not> known r c st')"
    and "filter (about_key r c) evs \<noteq> [] \<longleftrightarrow> known r c st' \<noteq> known r c st \<and> \<not> marked r c st"
    and "MAKE_KEYEVENT env (word_of_nat r) (word_of_nat c) p \<in> set evs \<longleftrightarrow> known r c st' = p \<and> known r c st' \<noteq> known r c st \<and> \<not> marked r c st"
proof -
  let ?s = "snd (matrix_scan E env st)"
  note s = scan_sizes [OF assms(1,2), of E] and k = kb_sizes [OF assms(2)]
  note t = matrix_task_events [of E env st, unfolded s(1,2), OF k s(3), unfolded assms(3)]
  show "kb_ok st'" using board_wiring.kb_ok_matrix_task [OF assms(1,2), of E] by (simp add: assms(3))
  have key: "about_key r c ev \<Longrightarrow> ev \<in> set evs \<Longrightarrow> \<exists>p. ev = MAKE_KEYEVENT env (word_of_nat r) (word_of_nat c) p" for ev
    using t by (auto simp: about_key_def matrix_events_def row_events_def MAKE_KEYEVENT_def MAKE_EVENT_def generate_tick_event_def
        MAKE_TICK_EVENT_def Let_def split: if_splits)
  have about: "about_key r c (MAKE_KEYEVENT env (word_of_nat r) (word_of_nat c) p)" for p
    by (simp add: about_key_def MAKE_KEYEVENT_def MAKE_EVENT_def)
  have tick: "MAKE_KEYEVENT env a b p \<notin> set (fst (generate_tick_event env st3))" for a b p st3
    by (simp add: generate_tick_event_def MAKE_KEYEVENT_def MAKE_TICK_EVENT_def MAKE_EVENT_def Let_def)
  have all: "known r c st' = bit (cooked_matrix st' ! r) c"
    "marked r c st' \<longleftrightarrow> marked r c st \<and> \<not> (known r c st \<and> \<not> known r c st')"
    "MAKE_KEYEVENT env (word_of_nat r) (word_of_nat c) p \<in> set evs \<longleftrightarrow> known r c st' = p \<and> known r c st' \<noteq> known r c st \<and> \<not> marked r c st" for p
  proof (atomize (full), cases "cooked_matrix ?s = matrix_previous st")
    case True
    then have "evs = fst (generate_tick_event env ?s)" "st' = snd (generate_tick_event env ?s)" using t by (simp_all add: prod_eq_iff)
    then show "known r c st' = bit (cooked_matrix st' ! r) c \<and>
      (marked r c st' \<longleftrightarrow> marked r c st \<and> \<not> (known r c st \<and> \<not> known r c st')) \<and>
      (MAKE_KEYEVENT env (word_of_nat r) (word_of_nat c) p \<in> set evs \<longleftrightarrow> known r c st' = p \<and> known r c st' \<noteq> known r c st \<and> \<not> marked r c st)"
      using True tick s(1,2) by (simp add: known_def marked_def tick_no_key)
  next
    case False
    then have c: "evs = matrix_events env (matrix_previous st) (cooked_matrix ?s) (wakeup_matrix st)"
      "cooked_matrix st' = cooked_matrix ?s" "matrix_previous st' = cooked_matrix ?s"
      "wakeup_matrix st' = map2 (\<lambda>w x. w AND NOT x) (wakeup_matrix st) (map2 released (matrix_previous st) (cooked_matrix ?s))"
      using t by simp_all
    have "wakeup_matrix st' ! r = wakeup_matrix st ! r AND NOT (released (matrix_previous st ! r) (cooked_matrix ?s ! r))"
      using s(3) k assms(4) by (simp add: c(4))
    then show "known r c st' = bit (cooked_matrix st' ! r) c \<and>
      (marked r c st' \<longleftrightarrow> marked r c st \<and> \<not> (known r c st \<and> \<not> known r c st')) \<and>
      (MAKE_KEYEVENT env (word_of_nat r) (word_of_nat c) p \<in> set evs \<longleftrightarrow> known r c st' = p \<and> known r c st' \<noteq> known r c st \<and> \<not> marked r c st)"
      using assms(5) by (auto simp: known_def marked_def c(1-3) matrix_events_iff [OF assms(4,5)] bit_simps bit_released)
  qed
  show "known r c st' = bit (cooked_matrix st' ! r) c" "marked r c st' \<longleftrightarrow> marked r c st \<and> \<not> (known r c st \<and> \<not> known r c st')"
    "MAKE_KEYEVENT env (word_of_nat r) (word_of_nat c) p \<in> set evs \<longleftrightarrow> known r c st' = p \<and> known r c st' \<noteq> known r c st \<and> \<not> marked r c st"
    by (rule all)+
  show "filter (about_key r c) evs \<noteq> [] \<longleftrightarrow> known r c st' \<noteq> known r c st \<and> \<not> marked r c st"
  proof
    assume "filter (about_key r c) evs \<noteq> []"
    then obtain ev where "about_key r c ev" "ev \<in> set evs" by (auto simp: filter_empty_conv)
    with key obtain q where "MAKE_KEYEVENT env (word_of_nat r) (word_of_nat c) q \<in> set evs" by blast
    then show "known r c st' \<noteq> known r c st \<and> \<not> marked r c st" using all(3) by blast
  next
    assume "known r c st' \<noteq> known r c st \<and> \<not> marked r c st"
    then have "MAKE_KEYEVENT env (word_of_nat r) (word_of_nat c) (known r c st') \<in> set evs" using all(3) by blast
    with about show "filter (about_key r c) evs \<noteq> []" by (force simp: filter_empty_conv)
  qed
qed

lemma pass_key:
  fixes st :: "('e, 'z) kb_scheme"
  assumes "\<forall>n. board_wiring (envs n) (volt n) (push n)" "kb_ok st" "r < 5" "c < 16"
  shows "kb_ok (pass_seq E envs st n)" "known r c (pass_seq E envs st (Suc n)) = bit (cooked_matrix (pass_seq E envs st (Suc n)) ! r) c"
    and "marked r c (pass_seq E envs st (Suc n)) \<longleftrightarrow>
      marked r c (pass_seq E envs st n) \<and> \<not> (known r c (pass_seq E envs st n) \<and> \<not> known r c (pass_seq E envs st (Suc n)))"
    and "filter (about_key r c) (pass_events E envs st n) \<noteq> [] \<longleftrightarrow>
      known r c (pass_seq E envs st (Suc n)) \<noteq> known r c (pass_seq E envs st n) \<and> \<not> marked r c (pass_seq E envs st n)"
    and "MAKE_KEYEVENT (envs n) (word_of_nat r) (word_of_nat c) p \<in> set (pass_events E envs st n) \<longleftrightarrow>
      known r c (pass_seq E envs st (Suc n)) = p \<and> known r c (pass_seq E envs st (Suc n)) \<noteq> known r c (pass_seq E envs st n)
        \<and> \<not> marked r c (pass_seq E envs st n)"
proof -
  have ok: "kb_ok (pass_seq E envs st n)" for n
    by (induction n) (simp_all add: assms(2) board_wiring.kb_ok_matrix_task [OF assms(1) [rule_format]])
  obtain ch evs st' where t: "matrix_task E (envs n) (pass_seq E envs st n) = (ch, evs, st')" by (metis prod_cases3)
  note k = task_key [OF assms(1) [rule_format] ok t assms(3,4)]
  show "kb_ok (pass_seq E envs st n)" by (rule ok)
  show "known r c (pass_seq E envs st (Suc n)) = bit (cooked_matrix (pass_seq E envs st (Suc n)) ! r) c"
    "marked r c (pass_seq E envs st (Suc n)) \<longleftrightarrow>
      marked r c (pass_seq E envs st n) \<and> \<not> (known r c (pass_seq E envs st n) \<and> \<not> known r c (pass_seq E envs st (Suc n)))"
    "filter (about_key r c) (pass_events E envs st n) \<noteq> [] \<longleftrightarrow>
      known r c (pass_seq E envs st (Suc n)) \<noteq> known r c (pass_seq E envs st n) \<and> \<not> marked r c (pass_seq E envs st n)"
    "MAKE_KEYEVENT (envs n) (word_of_nat r) (word_of_nat c) p \<in> set (pass_events E envs st n) \<longleftrightarrow>
      known r c (pass_seq E envs st (Suc n)) = p \<and> known r c (pass_seq E envs st (Suc n)) \<noteq> known r c (pass_seq E envs st n)
        \<and> \<not> marked r c (pass_seq E envs st n)"
    using k by (simp_all add: pass_events_def t)
qed

text \<open>
  C30: Keys that wake the host stay silent until they are released. A key that is found held when the host resumes, and
  was not known to be held before, causes no event, neither press nor release, in any run of the matrix task as long as the runs before it
  have seen it held, however many there are: not while it stays held, and not in the run that finds it released. That run takes its mark
  away, so that from then on every change of the key is reported in the run that sees it, its next press first, and nothing else is.
\<close>

theorem wakeup_keys_silent:
  fixes E :: "'e eeprom_driver" and st :: "('e, 'z) kb_scheme"
  assumes "board_wiring env volt push" "\<forall>n. board_wiring (envs n) (volts n) (pushs n)" "kb_ok st"
    and "st1 = update_matrix_state_after_wakeup E env st" "r < 5" "c < 16"
    and "bit (cooked_matrix st1 ! r) c" "\<not> bit (matrix_previous st ! r) c"
    and "held = (\<lambda>n. bit (cooked_matrix (pass_seq E envs st1 n) ! r) c)" "\<forall>j\<le>n. held j"
  shows "filter (about_key r c) (pass_events E envs st1 n) = []
    \<and> (\<not> held (Suc n) \<longrightarrow> \<not> marked r c (pass_seq E envs st1 (Suc n))
      \<and> (\<forall>k>n. (filter (about_key r c) (pass_events E envs st1 k) = [] \<longleftrightarrow> held (Suc k) = held k)
        \<and> (held (Suc k) \<noteq> held k \<longrightarrow> MAKE_KEYEVENT (envs k) (word_of_nat r) (word_of_nat c) (held (Suc k)) \<in> set (pass_events E envs st1 k))))"
proof -
  note s = scan_sizes [OF assms(1,3), of E] and k = kb_sizes [OF assms(3)]
  have ok1: "kb_ok st1" unfolding assms(4) by (rule board_wiring.kb_ok_wakeup [OF assms(1,3)])
  note key = pass_key [where E = E, OF assms(2) ok1 assms(5,6)]
  have w: "st1 = (snd (matrix_scan E env st))\<lparr>wakeup_matrix := map (\<lambda>r. wakeup_matrix st ! r OR cooked_matrix (snd (matrix_scan E env st)) ! r AND NOT (matrix_previous st ! r)) [0..<5],
      matrix_previous := map (\<lambda>r. matrix_previous st ! r OR cooked_matrix (snd (matrix_scan E env st)) ! r) [0..<5]\<rparr>"
    unfolding assms(4) by (subst update_matrix_state_after_wakeup_eq) (simp_all add: s k)
  have wk: "marked r c st1" "known r c st1" using assms(5-8) by (simp_all add: marked_def known_def w bit_simps)
  have known: "known r c (pass_seq E envs st1 j) = held j" for j
    using key(2) wk(2) assms(7) by (cases j) (simp_all add: assms(9) del: pass_seq.simps(2))
  have mark: "j \<le> n \<Longrightarrow> marked r c (pass_seq E envs st1 j)" for j
  proof (induction j)
    case (Suc j)
    then show ?case using key(3) [of j] known assms(10) by (simp del: pass_seq.simps(2))
  qed (simp add: wk)
  have clear: "k > n \<Longrightarrow> \<not> held (Suc n) \<Longrightarrow> \<not> marked r c (pass_seq E envs st1 k)" for k
  proof (induction k)
    case (Suc j)
    then show ?case using key(3) [of j] known mark assms(10) by (cases "j = n") (auto simp del: pass_seq.simps(2))
  qed simp
  show ?thesis
  proof (intro conjI impI allI)
    show "filter (about_key r c) (pass_events E envs st1 n) = []" using key(4) [of n] mark [of n] by auto
    assume rel: "\<not> held (Suc n)"
    show "\<not> marked r c (pass_seq E envs st1 (Suc n))" using clear rel by blast
    fix k assume "n < k"
    then have "\<not> marked r c (pass_seq E envs st1 k)" using clear rel by blast
    note mk = this
    show "filter (about_key r c) (pass_events E envs st1 k) = [] \<longleftrightarrow> held (Suc k) = held k"
      using key(4) [of k] mk unfolding known by blast
    show "MAKE_KEYEVENT (envs k) (word_of_nat r) (word_of_nat c) (held (Suc k)) \<in> set (pass_events E envs st1 k)" if "held (Suc k) \<noteq> held k"
      using key(5) [of k "held (Suc k)"] mk that unfolding known by blast
  qed
qed

definition demo_resume :: "chip kb" where
  "demo_resume = demo_kb\<lparr>cooked_matrix := [4, 0, 0, 0, 0], debouncing := True, debouncing_time := 7\<rparr>"

lemma demo_resume_ok: "kb_ok demo_resume"
  using demo_kb_state(1) by (simp add: demo_resume_def kb_ok_def fw_ok_def caches_ok_def) (simp add: he_ok_def matrix_ok_def)

lemma demo_resume_held:
  "cooked_matrix (update_matrix_state_after_wakeup board_ee (flat_env 1000 7) demo_resume) = [4, 0, 0, 0, 0]"
proof -
  have ok: "he_ok demo_resume" "matrix_ok demo_resume" using demo_resume_ok by (simp_all add: kb_ok_def fw_ok_def)
  note r = board_wiring.matrix_scan_result(1) [OF flat_wiring [of 1000 7] prod.collapse [symmetric] ok, of board_ee]
    and s = scan_sizes(1,2) [OF flat_wiring [of 1000 7] demo_resume_ok, of board_ee]
  have "cooked_matrix (snd (matrix_scan board_ee (flat_env 1000 7) demo_resume)) = [4, 0, 0, 0, 0]"
    unfolding r by (simp add: demo_resume_def flat_env_def wired_env_def hw_defs DEBOUNCE_def)
  then show ?thesis using s kb_sizes [OF demo_resume_ok] by (simp add: update_matrix_state_after_wakeup_eq)
qed

theorem wakeup_keys_silent_witness:
  "filter (about_key 0 2) (pass_events board_ee (\<lambda>n. flat_env 1000 (8 + of_nat n))
     (update_matrix_state_after_wakeup board_ee (flat_env 1000 7) demo_resume) 0) = []"
proof -
  have "bit (4 :: u16) 2" by (simp add: bit_numeral_rec)
  then have h: "bit (cooked_matrix (update_matrix_state_after_wakeup board_ee (flat_env 1000 7) demo_resume) ! 0) 2"
    "\<not> bit (matrix_previous demo_resume ! 0) 2"
    by (simp_all add: demo_resume_held) (simp add: demo_resume_def demo_kb_fields)
  have w: "\<forall>n. board_wiring (flat_env 1000 (8 + of_nat n)) (\<lambda>_ _. 1000) False" by (simp add: flat_wiring)
  have "\<forall>j\<le>0. bit (cooked_matrix (pass_seq board_ee (\<lambda>n. flat_env 1000 (8 + of_nat n))
      (update_matrix_state_after_wakeup board_ee (flat_env 1000 7) demo_resume) j) ! 0) 2" using h(1) by simp
  from wakeup_keys_silent [OF flat_wiring w demo_resume_ok refl _ _ h refl this] show ?thesis by simp
qed

section \<open>The encoder\<close>

text \<open>
  The encoder's event queue is a first-in first-out buffer of three events: queueing any number of
  events appends them in order and drops, without disturbing the rest, exactly those
  that do not fit; taking one out yields the oldest and leaves the others; the byte-wide head, tail
  and counters may wrap.
\<close>

theorem encoder_queue_fifo:
  assumes "queue_ok q" "\<forall>ev\<in>set evs. enc_index ev < 128"
    and "q' = fold (\<lambda>ev q. snd (encoder_queue_event_advanced (enc_index ev) (enc_clockwise ev) q)) evs q"
  shows "queue_ok q' \<and> queue_contents q' = queue_contents q @ take (3 - length (queue_contents q)) evs
    \<and> (case queue_contents q' of
        [] \<Rightarrow> encoder_dequeue_event_advanced q' = None
      | ev # rest \<Rightarrow> \<exists>q''. encoder_dequeue_event_advanced q' = Some (ev, q'') \<and> queue_ok q'' \<and> queue_contents q'' = rest)"
proof -
  note e = enc_fifo.enq_all [OF assms(1,2), folded assms(3)]
  then have "queue_ok q'" by blast
  then have "case queue_contents q' of
      [] \<Rightarrow> encoder_dequeue_event_advanced q' = None
    | ev # rest \<Rightarrow> \<exists>q''. encoder_dequeue_event_advanced q' = Some (ev, q'') \<and> queue_ok q'' \<and> queue_contents q'' = rest"
    using enc_fifo.deq_empty [of q'] enc_fifo.deq_oldest [of q'] by (cases "queue_contents q'") auto
  then show ?thesis using e by blast
qed

theorem encoder_queue_fifo_witness:
  "queue_contents (fold (\<lambda>ev q. snd (encoder_queue_event_advanced (enc_index ev) (enc_clockwise ev) q))
      (replicate 5 \<lparr>enc_index = 0, enc_clockwise = True\<rparr>) (encoder_events encoder_reset))
    = replicate 3 \<lparr>enc_index = 0, enc_clockwise = True\<rparr>"
proof -
  have q: "queue_ok (encoder_events encoder_reset)" "queue_contents (encoder_events encoder_reset) = []"
    by (simp_all add: queue_ok_def queue_contents_def encoder_reset_def hw_defs)
  have "\<forall>ev\<in>set (replicate 5 \<lparr>enc_index = 0, enc_clockwise = True\<rparr>). enc_index ev < 128" by simp
  from encoder_queue_fifo [OF q(1) this refl] show ?thesis by (simp add: q(2) take_replicate_le)
qed

text \<open>
  C31: The encoder loses no rotation. Over any run of polls, each poll returns, and four times the
  difference of counter-clockwise and clockwise detents reported plus the pulses left in the counter equals the
  rotation the quadrature readings show plus the pulses it started with; the counter never leaves the range
  in which its 8 bits are exact.
\<close>

theorem encoder_loses_nothing:
  assumes "enc_ok enc"
  shows "\<exists>evs enc'. encoder_polls polls enc = Some (evs, enc') \<and> enc_ok enc' \<and>
    4 * (detents ENCODER_CCW_EVENT evs - detents ENCODER_CW_EVENT evs) + sint (encoder_pulses enc' ! 0)
      = sint (encoder_pulses enc ! 0) + knob_travel (knob enc) (map (\<lambda>(env, g). pads env g) polls)"
  by (rule encoder_tracks [OF assms])

theorem encoder_loses_nothing_witness:
  "\<exists>evs enc'. encoder_polls [(flat_env 0 1, gpio demo_kb), (flat_env 0 2, gpio demo_kb)] (encoder demo_kb) = Some (evs, enc') \<and> enc_ok enc'"
  using encoder_loses_nothing [OF demo_kb_ok(9), of "[(flat_env 0 1, gpio demo_kb), (flat_env 0 2, gpio demo_kb)]"] by blast

section \<open>Layers and keycodes\<close>

abbreviation press :: "'e eeprom_driver \<Rightarrow> keypos_t \<Rightarrow> ('e, 'z) layers_scheme \<Rightarrow> ('e, 'z) layers_scheme" where
  "press E k s \<equiv> snd (store_or_get_action E True k s)"

lemma presses_keep_layer:
  fixes st :: "('e, 'z) layers_scheme"
  assumes "caches_ok st" "\<not> disable_action_cache st" "in_matrix key" "\<forall>k\<in>set ks. in_matrix k \<and> k \<noteq> key"
  shows "read_source_layers_cache key (fold (press E) ks st) = read_source_layers_cache key st"
  using assms
proof (induction ks arbitrary: st)
  case (Cons k ks)
  have k: "in_matrix k" "k \<noteq> key" using Cons.prems(4) by simp_all
  note p = press_caches_layer [where E = E, OF Cons.prems(1,2) k(1)]
  obtain l where "press E k st = st\<lparr>source_layers_cache := l\<rparr>"
    using store_or_get_action_frame(2) [OF Cons.prems(1) k(1), of E True] by blast
  then have "\<not> disable_action_cache (press E k st)" using Cons.prems(2) by simp
  from Cons.IH [OF p(2) this Cons.prems(3)] show ?case using p(4) [of key] k(2) Cons.prems(3,4) by simp
qed simp

text \<open>
  C32: A release acts on the layer of its press. After a key is pressed, whatever other keys are pressed, and
  whatever happens to the layers, the keymap options and the stored keymap, the action of its release
  is looked up on the layer the press was resolved to.
\<close>

theorem release_uses_press_layer:
  fixes st st2 :: "('e, 'z) layers_scheme"
  assumes "caches_ok st" "\<not> disable_action_cache st" "in_matrix key" "\<forall>k\<in>set ks. in_matrix k \<and> k \<noteq> key"
    and "source_layers_cache st2 = source_layers_cache (fold (press E) ks (press E key st))" "\<not> disable_action_cache st2"
  shows "fst (store_or_get_action E False key st2)
    = action_for_key E (keymap_config st2) (layer_switch_get_layer E key st) key (ee st2)"
proof -
  note p = press_caches_layer [where E = E, OF assms(1-3)]
  obtain l where "press E key st = st\<lparr>source_layers_cache := l\<rparr>"
    using store_or_get_action_frame(2) [OF assms(1,3), of E True] by blast
  then have "\<not> disable_action_cache (press E key st)" using assms(2) by simp
  note k = presses_keep_layer [OF p(2) this assms(3,4), of E]
  have "read_source_layers_cache key st2 = read_source_layers_cache key (fold (press E) ks (press E key st))"
    using assms(3,5) by (simp add: read_source_layers_cache_def)
  then have "unat (read_source_layers_cache key st2) = layer_switch_get_layer E key st" using k p(1) by simp
  then show ?thesis using assms(6) by (simp add: store_or_get_action_def)
qed

theorem release_uses_press_layer_witness:
  "fst (store_or_get_action board_ee False \<lparr>col = 3, row = 2\<rparr>
      (layer_state_set 2 (press board_ee \<lparr>col = 4, row = 2\<rparr> (press board_ee \<lparr>col = 3, row = 2\<rparr> demo_kb))))
    = action_for_key board_ee 0 (layer_switch_get_layer board_ee \<lparr>col = 3, row = 2\<rparr> demo_kb) \<lparr>col = 3, row = 2\<rparr> f411_blank"
proof -
  have m: "in_matrix \<lparr>col = 3, row = 2\<rparr>" "in_matrix \<lparr>col = 4, row = 2\<rparr>" by (simp_all add: in_matrix_def hw_defs)
  note c = demo_kb_ok(5) demo_kb_fields(14)
  let ?s1 = "press board_ee \<lparr>col = 3, row = 2\<rparr> demo_kb"
  obtain l where l: "?s1 = demo_kb\<lparr>source_layers_cache := l\<rparr>"
    using store_or_get_action_frame(2) [OF c(1) m(1), of board_ee True] by blast
  obtain l' where l': "press board_ee \<lparr>col = 4, row = 2\<rparr> ?s1 = ?s1\<lparr>source_layers_cache := l'\<rparr>"
    using store_or_get_action_frame(2) [OF press_caches_layer(2) [OF c m(1)] m(2), of board_ee True] by blast
  let ?s2 = "layer_state_set 2 (press board_ee \<lparr>col = 4, row = 2\<rparr> ?s1)"
  have "source_layers_cache ?s2 = source_layers_cache (fold (press board_ee) [\<lparr>col = 4, row = 2\<rparr>] ?s1)"
    by (simp add: layer_state_set_def)
  moreover have "\<not> disable_action_cache ?s2" "keymap_config ?s2 = 0" "ee ?s2 = f411_blank"
    unfolding l' unfolding l by (simp_all add: layer_state_set_def demo_kb_fields demo_kb_state(2))
  ultimately show ?thesis using release_uses_press_layer [OF c m(1), of "[\<lparr>col = 4, row = 2\<rparr>]" ?s2 board_ee] m(2) by simp
qed

text \<open>
  C33: A key acts on the highest active layer that is not transparent at its position, layer zero when there is none; and that layer is
  always one of the four the keymap has.
\<close>

theorem layer_resolution:
  "layer_switch_get_layer E key st < 4
   \<and> (\<forall>i<4. opaque E key st i \<longrightarrow> opaque E key st (layer_switch_get_layer E key st) \<and> i \<le> layer_switch_get_layer E key st)
   \<and> ((\<forall>i<4. \<not> opaque E key st i) \<longrightarrow> layer_switch_get_layer E key st = 0)"
proof -
  have "layer_switch_get_layer E key st = 0" if "\<forall>i<4. \<not> opaque E key st i"
    using that find_rev_upt_None [of "opaque E key st" 4] by (simp add: get_layer_find)
  then show ?thesis using get_layer_less [of E key st] get_layer_highest [of E key st] by blast
qed

theorem layer_resolution_witness: "layer_switch_get_layer board_ee \<lparr>col = 3, row = 2\<rparr> demo_kb = 0"
  using layer_resolution [of board_ee "\<lparr>col = 3, row = 2\<rparr>" demo_kb] by (simp add: opaque_def demo_kb_fields)

text \<open>
  The keycode swaps are involutions: under every combination of swap options that do not compete for the same
  key, applying the configured swaps twice gives the keycode back.
\<close>

theorem keycode_swaps_involutive:
  assumes "\<not> no_gui c" "\<not> capslock_to_control c" "\<not> (swap_control_capslock c \<and> swap_escape_capslock c)"
    "\<not> (swap_control_capslock c \<and> swap_lctl_lgui c)" "\<not> (swap_lalt_lgui c \<and> swap_lctl_lgui c)"
    "\<not> (swap_ralt_rgui c \<and> swap_rctl_rgui c)" "\<not> (swap_grave_esc c \<and> swap_escape_capslock c)"
    and "k \<noteq> KC_LOCKING_CAPS_LOCK"
  shows "keycode_config c (keycode_config c k) = k"
  by (rule keycode_config_involution [OF assms])

theorem keycode_swaps_involutive_witness:
  "swap_control_capslock 1 \<and> keycode_config 1 (keycode_config 1 KC_CAPS_LOCK) = KC_CAPS_LOCK"
proof
  show "swap_control_capslock 1" by (simp add: keymap_option_defs)
  show "keycode_config 1 (keycode_config 1 KC_CAPS_LOCK) = KC_CAPS_LOCK"
    by (rule keycode_swaps_involutive) (simp_all add: keymap_option_defs hw_defs bit_1_iff)
qed

end
