(* ===== verification/Typing_Theorems.thy ===== *)
theory Typing_Theorems
  imports Main_Loop Dual_Role Typed_Text Pointer Input_Theorems
begin

text \<open>
  The properties of what reaches the host: strokes and reports, plain keys through a whole pass of the main loop, keys
  with two roles, macros, the mouse, and the account of the events the tapping state machine keeps.
\<close>

section \<open>A sample state\<close>

text \<open>The sample board at reset, with one keycode stored at row 2, column 3 of layer 0.\<close>

definition demo_key :: keypos_t where "demo_key = \<lparr>col = 3, row = 2\<rparr>"

definition demo_task :: "u16 \<Rightarrow> chip task" where
  "demo_task k = (task_reset demo_kb)\<lparr>ee := dynamic_keymap_set_keycode board_ee 0 2 3 k f411_blank\<rparr>"

definition demo_event :: "bool \<Rightarrow> u16 \<Rightarrow> keyevent_t" where
  "demo_event d t = \<lparr>ev_key = demo_key, ev_time = t, ev_type = KEY_EVENT, ev_pressed = d\<rparr>"

definition demo_world :: world where
  "demo_world = \<lparr>pins = flat_env 1000 0, report_protocol = True, usb_leds = 0\<rparr>"

definition demo_mem :: "lut \<Rightarrow> nat \<Rightarrow> u8" where
  "demo_mem _ _ = 0"

lemma demo_task_fields:
  "hostio (demo_task k) = \<lparr>hid = hid_reset, mouse = mousekey_reset\<rparr>" "tap_state (demo_task k) = tapping_reset"
  "jumped (demo_task k) = None" "keymap_config (demo_task k) = 0" "layer_state (demo_task k) = 0" "default_layer_state (demo_task k) = 0"
  "\<not> disable_action_cache (demo_task k)" "oneshot_layer_data (demo_task k) = 0"
  "ee (demo_task k) = dynamic_keymap_set_keycode board_ee 0 2 3 k f411_blank" "caches_ok (demo_task k)"
  using demo_kb_ok(5) by (simp_all add: demo_task_def task_reset_def demo_kb_fields caches_ok_def)

lemma demo_slot: "slot_valid (Key 0 2 3)"
  by (simp add: hw_defs)

context board_eeprom
begin

lemma slot_laws: "inv e \<Longrightarrow> slot_valid k \<Longrightarrow> inv (slot_set E k x e) \<and> slot_get E k (slot_set E k x e) = x"
  using slots.ok_wr slots.rd_wr_same by blast

end

lemma demo_task_ee:
  "board_inv (ee (demo_task k))" "dynamic_keymap_get_keycode board_ee 0 2 3 (ee (demo_task k)) = k"
  using board_eeprom.slot_laws [OF board_ee_eeprom blank_inv demo_slot, of k]
  by (simp_all add: demo_task_fields)

lemma demo_task_ok: "task_ok board_inv (demo_task k)"
proof -
  have "task_ok board_inv (task_reset demo_kb)" by (rule task_ok_reset) (simp_all add: demo_kb_state blank_inv)
  then show ?thesis using demo_task_ee(1) [of k] by (simp add: task_ok_def demo_task_def act_ok_ee)
qed

lemma demo_layer: "layer_switch_get_layer board_ee key (demo_task k) = 0"
  by (auto simp: get_layer_find opaque_def demo_task_fields find_Some_iff split: option.split)

lemma demo_keycode:
  "event_keycode board_ee (demo_event True t) (demo_task k) = k"
  using demo_task_ee(2) [of k]
  by (simp add: event_keycode_def event_layer_def demo_layer demo_event_def demo_key_def keymap_key_to_keycode_def
      keycode_at_keymap_location_def hw_defs)

lemma demo_quiet: "unat k < 0x52E0 \<Longrightarrow> quiet_event board_ee (demo_event True t) (demo_task k)"
  unfolding quiet_event_def demo_keycode
  by (simp add: demo_event_def demo_task_fields IS_NOEVENT_def is_oneshot_layer_active_def get_oneshot_layer_state_def)

lemma no_swaps_0: "no_swaps 0"
  by (simp add: no_swaps_def keycode_config_def mod_config_def keymap_option_defs)

lemma demo_tapping: "tapping_ok (tap_state (demo_task k))" "tapping_idle_state (tap_state (demo_task k))"
  using tapping_ok_reset by (simp_all add: demo_task_fields tapping_idle_state_def tapping_reset_def zero_record_def IS_NOEVENT_def)

lemma demo_rest: "at_rest nk (hid (hostio (demo_task k)))" "typing_ok nk (hid (hostio (demo_task k)))"
  using at_rest_reset typing_ok_reset by (simp_all add: demo_task_fields)

lemma demo_nkro: "nkro_now w (demo_task k) = False"
  by (simp add: nkro_now_def demo_task_fields keymap_nkro_def)

section \<open>Strokes\<close>

lemma MOD_BIT_bit: "IS_MODIFIER_KEYCODE k \<Longrightarrow> n < 8 \<Longrightarrow> bit (MOD_BIT k) n \<longleftrightarrow> n = unat k mod 8"
  by (auto simp: MOD_BIT_def key_split bit_simps)

lemma modifier_bit_inj:
  "IS_MODIFIER_KEYCODE k \<Longrightarrow> IS_MODIFIER_KEYCODE j \<Longrightarrow> unat k mod 8 = unat j mod 8 \<longleftrightarrow> k = j"
proof -
  assume "IS_MODIFIER_KEYCODE k" "IS_MODIFIER_KEYCODE j"
  then have "unat k div 8 = 28" "unat j div 8 = 28" by (auto simp: IS_MODIFIER_KEYCODE_def word_le_nat_alt)
  then show ?thesis using key_unique [of k j] by auto
qed

lemma abs_strokes_mods:
  assumes "IS_MODIFIER_KEYCODE k"
  shows "bit (fst (fold (abs_stroke nk) ss v)) (unat k mod 8) \<longleftrightarrow>
    last_stroke k ss = Some (Down k) \<or> last_stroke k ss = None \<and> bit (fst v) (unat k mod 8)"
proof (induction ss rule: rev_induct)
  case (snoc s ss)
  obtain m ks where v: "fold (abs_stroke nk) ss v = (m, ks)" by (cases "fold (abs_stroke nk) ss v")
  have b: "bit (MOD_BIT j) (unat k mod 8) \<longleftrightarrow> j = k" if "IS_MODIFIER_KEYCODE j" for j
    using MOD_BIT_bit [OF that, of "unat k mod 8"] modifier_bit_inj [OF assms that] by auto
  show ?case using snoc v assms b by (cases s) (auto simp: bit_simps)
qed (simp add: last_stroke_def)

lemma report_keys_six: "hid_ok h \<Longrightarrow> card (report_keys False h) \<le> 6"
  using keys6_card [of "keyboard_report h"] length_filter_le [of "\<lambda>k. k \<noteq> 0" "rk_keys (keyboard_report h)"]
  by (simp add: report_keys_def hid_ok_def rk_ok_def hw_defs)

text \<open>
  C5: What the host believes is what was typed. However many keys and modifiers are pressed and released in whatever order,
  in either protocol, the newest report shows what the specification \<open>abs_stroke\<close> says: no key is held whose last stroke was
  a release (no stuck key), a modifier is held exactly if its last stroke was a press, with n-key rollover every key
  whose last stroke was a press is down, and in the boot protocol never more than six keys are.
\<close>

theorem typing_reaches_host:
  assumes "typing_ok nk (hid io)" "\<forall>s\<in>set ss. typed_code (stroke_code s)"
    and "host_view nk (hid (fold (strike env nk) ss io)) = (mods, down)"
  shows "(mods, down) = fold (abs_stroke nk) ss (host_view nk (hid io))
    \<and> (\<forall>k. \<not> IS_MODIFIER_KEYCODE k \<and> k \<in> down \<longrightarrow>
         last_stroke k ss = Some (Down k) \<or> last_stroke k ss = None \<and> k \<in> snd (host_view nk (hid io)))
    \<and> (\<forall>k. IS_MODIFIER_KEYCODE k \<longrightarrow> bit mods (unat k mod 8) =
         (last_stroke k ss = Some (Down k) \<or> last_stroke k ss = None \<and> bit (fst (host_view nk (hid io))) (unat k mod 8)))
    \<and> (nk \<longrightarrow> (\<forall>k. \<not> IS_MODIFIER_KEYCODE k \<and> last_stroke k ss = Some (Down k) \<longrightarrow> k \<in> down))
    \<and> (\<not> nk \<longrightarrow> card down \<le> 6)"
proof -
  note r = strikes_refine [OF assms(1,2), of env]
  have v: "fold (abs_stroke nk) ss (host_view nk (hid io)) = (mods, down)" using r assms(3) by simp
  have "report_keys nk (hid (fold (strike env nk) ss io)) = down" "hid_ok (hid (fold (strike env nk) ss io))"
    using r assms(3) by (simp_all add: typing_ok_def)
  then have "\<not> nk \<longrightarrow> card down \<le> 6" using report_keys_six by auto
  moreover have "nk \<longrightarrow> (\<forall>k. \<not> IS_MODIFIER_KEYCODE k \<and> last_stroke k ss = Some (Down k) \<longrightarrow> k \<in> down)"
    using abs_strokes_nkro [of _ ss "host_view nk (hid io)"] v by (cases nk) auto
  ultimately show ?thesis
    using abs_strokes_held [where nk = nk and ss = ss and v = "host_view nk (hid io)"]
      abs_strokes_mods [where nk = nk and ss = ss and v = "host_view nk (hid io)"] v by (simp add: v)
qed

theorem typing_reaches_host_witness:
  "host_view False (hid (fold (strike (flat_env 1000 0) False) [Down 0xE1, Down 4, Down 5, Up 4] \<lparr>hid = hid_reset, mouse = mousekey_reset\<rparr>))
     = (2, {5})"
proof -
  let ?io = "\<lparr>hid = hid_reset, mouse = mousekey_reset\<rparr>" and ?ss = "[Down 0xE1, Down 4, Down 5, Up 4]"
  have i: "host_view False (hid ?io) = (0, {})" by (simp add: host_view_def hid_reset_def List.map_filter_def Let_def)
  have t: "\<forall>s\<in>set ?ss. typed_code (stroke_code s)" by (simp add: typed_code_def code_class_defs)
  obtain mods down where v: "host_view False (hid (fold (strike (flat_env 1000 0) False) ?ss ?io)) = (mods, down)" by (meson surj_pair)
  have "typing_ok False (hid ?io)" by (simp add: typing_ok_reset)
  from typing_reaches_host [OF this t v] have "(mods, down) = fold (abs_stroke False) ?ss (0, {})" unfolding i by blast
  then show ?thesis unfolding v
    by (auto simp: code_class_defs key_capacity_def MOD_BIT_def hw_defs)
qed

section \<open>A pass of the main loop\<close>

lemma view_of_mouse: "view_of nk (Send_Mouse r) = None"
  by (cases nk) simp_all

lemma mouse_part_view:
  "typing_ok nk (hid (hostio (mouse_part w st))) = typing_ok nk (hid (hostio st))"
  "host_view nk (hid (hostio (mouse_part w st))) = host_view nk (hid (hostio st))"
proof -
  obtain m h where m: "mousekey_task (pins w) (mouse (hostio st)) (hid (hostio st)) = (m, h)" by force
  have s: "hid_ok (x\<lparr>host_sent := Send_Mouse r # host_sent x\<rparr>) = hid_ok x \<Longrightarrow> typing_ok nk (x\<lparr>host_sent := Send_Mouse r # host_sent x\<rparr>) = typing_ok nk x"
    "host_view nk (x\<lparr>host_sent := Send_Mouse r # host_sent x\<rparr>) = host_view nk x" for x r
    by (simp_all add: typing_ok_def synced_def host_view_def map_filter_Cons view_of_mouse report_keys_def)
  have "hid_ok h = hid_ok (hid (hostio st))" using hid_ok_mouse(2) [of "pins w" "mouse (hostio st)" "hid (hostio st)"] by (simp only: m snd_conv)
  moreover have "h = hid (hostio st) \<or> (\<exists>r. h = (hid (hostio st))\<lparr>host_sent := Send_Mouse r # host_sent (hid (hostio st))\<rparr>)"
    using mousekey_task_sends(3) [OF m] by blast
  ultimately show "typing_ok nk (hid (hostio (mouse_part w st))) = typing_ok nk (hid (hostio st))"
    "host_view nk (hid (hostio (mouse_part w st))) = host_view nk (hid (hostio st))"
    by (auto simp: mouse_part_def m s)
qed

lemma rest_view [simp]:
  "hostio (led_task w st) = hostio st" "hostio (last_matrix_activity_trigger env st) = hostio st"
  "hostio (last_encoder_activity_trigger env st) = hostio st" "jumped (last_matrix_activity_trigger env st) = jumped st"
  "jumped (last_encoder_activity_trigger env st) = jumped st"
  by (simp_all add: led_task_def last_matrix_activity_trigger_def last_encoder_activity_trigger_def)

lemma row_events_keys:
  assumes "r < 5"
  shows "distinct (map ev_key (row_events env r prev cur wk 16))"
    "\<forall>ev\<in>set (row_events env r prev cur wk 16). in_matrix (ev_key ev) \<and> unat (row (ev_key ev)) = r \<and> \<not> IS_NOEVENT ev"
proof -
  have u: "unat (word_of_nat n :: u8) = n" if "n < 16" for n using that by (simp add: unat_of_nat)
  have "inj_on (\<lambda>c. ev_key (MAKE_KEYEVENT env (word_of_nat r) (word_of_nat c) (bit cur c))) {0..<16}"
  proof (rule inj_onI)
    fix a b :: nat
    assume ab: "a \<in> {0..<16}" "b \<in> {0..<16}"
      and e: "ev_key (MAKE_KEYEVENT env (word_of_nat r) (word_of_nat a) (bit cur a)) = ev_key (MAKE_KEYEVENT env (word_of_nat r) (word_of_nat b) (bit cur b))"
    have c: "col (ev_key (MAKE_KEYEVENT env p q d)) = q" for p q d by (simp add: MAKE_KEYEVENT_def MAKE_EVENT_def)
    have "(word_of_nat a :: u8) = word_of_nat b" using arg_cong [OF e, of col] unfolding c .
    then show "a = b" using u [of a] u [of b] ab by (metis atLeastLessThan_iff)
  qed
  then show "distinct (map ev_key (row_events env r prev cur wk 16))"
    by (auto simp: row_events_def distinct_map comp_def intro: inj_on_subset)
  show "\<forall>ev\<in>set (row_events env r prev cur wk 16). in_matrix (ev_key ev) \<and> unat (row (ev_key ev)) = r \<and> \<not> IS_NOEVENT ev"
    using assms u by (auto simp: row_events_def MAKE_KEYEVENT_def MAKE_EVENT_def in_matrix_def IS_NOEVENT_def hw_defs)
qed

lemma matrix_events_keys:
  "distinct (map ev_key (matrix_events env prev cur wk))"
  "\<forall>ev\<in>set (matrix_events env prev cur wk). in_matrix (ev_key ev) \<and> \<not> IS_NOEVENT ev"
proof -
  let ?ev = "\<lambda>r. row_events env r (prev ! r) (cur ! r) (wk ! r) 16"
  have "distinct (map ev_key (concat (map ?ev [0..<n]))) \<and>
      (\<forall>ev\<in>set (concat (map ?ev [0..<n])). in_matrix (ev_key ev) \<and> unat (row (ev_key ev)) < n \<and> \<not> IS_NOEVENT ev)" if "n \<le> 5" for n
    using that
  proof (induction n)
    case (Suc n)
    note k = row_events_keys [of n env "prev ! n" "cur ! n" "wk ! n"]
    have "n < 5" using Suc.prems by simp
    note k = k [OF this]
    have "ev_key ev \<noteq> ev_key ev'" if "ev \<in> set (concat (map ?ev [0..<n]))" "ev' \<in> set (?ev n)" for ev ev'
      using Suc that k(2) by fastforce
    then show ?case using Suc k by (auto simp: less_Suc_eq)
  qed simp
  from this [of 5] show "distinct (map ev_key (matrix_events env prev cur wk))"
    "\<forall>ev\<in>set (matrix_events env prev cur wk). in_matrix (ev_key ev) \<and> \<not> IS_NOEVENT ev"
    unfolding matrix_events_def by (simp_all add: hw_defs)
qed

text \<open>A tick does nothing while no key is in the making.\<close>

lemma tick_exec:
  assumes "IS_NOEVENT ev" "\<not> ev_pressed ev" "tapping_idle_state (tap_state st)"
  shows "action_exec E mem w ev st = st"
proof -
  have "before_tapping E ev st = (True, st)" using assms(1,2) by (simp add: before_tapping_def)
  then show ?thesis using tick_idle [OF assms(3), of "new_record ev" "board_ops E mem w" st] assms(1) by (simp add: action_exec_def)
qed

lemma tick_events_exec:
  assumes "tapping_idle_state (tap_state st)"
  shows "exec_events E mem w (fst (generate_tick_event env st1)) st = st"
  using tick_exec [OF _ _ assms, of "MAKE_TICK_EVENT env" E mem w]
  by (simp add: generate_tick_event_def exec_events_def Let_def MAKE_TICK_EVENT_def MAKE_EVENT_def IS_NOEVENT_def)

lemma matrix_part_reports:
  fixes st st1 :: "('e, 'z) task_scheme" and mem
  assumes "board_wiring (pins w) volt push" "kb_ok st" "matrix_task E (pins w) st = (changed, evs, st1)"
    and "\<forall>ev\<in>set (key_events evs). plain_event E ev (code ev) st1"
    and "tapping_idle_state (tap_state st)" "typing_ok nk (hid (hostio st))" "nk = nkro_now w st1" "jumped st = None"
  defines "st2 \<equiv> matrix_part E mem w st"
  shows "host_view nk (hid (hostio st2)) = fold (abs_stroke nk) (map (event_stroke code) (key_events evs)) (host_view nk (hid (hostio st)))"
    "typing_ok nk (hid (hostio st2))" "jumped st2 = None" "gpio st2 = gpio st1" "encoder st2 = encoder st1"
proof -
  let ?s = "snd (matrix_scan E (pins w) st)"
  note s = scan_sizes [OF assms(1,2), of E] and k = kb_sizes [OF assms(2)]
  note t = matrix_task_events [of E "pins w" st, unfolded s(1,2), OF k s(3), unfolded assms(3)]
  have m: "hostio st1 = hostio st" "tap_state st1 = tap_state st" "jumped st1 = jumped st"
    using board_wiring.task_kb_more(1) [OF assms(1,2), of E] kb_more_fields [of st1 st] by (simp_all add: assms(3))
  have c: "caches_ok st1" using board_wiring.kb_ok_matrix_task [OF assms(1,2), of E] by (simp add: assms(3) kb_ok_def)
  have x: "exec_events E mem w evs st1 = (if key_events evs = [] then st1 else exec_events E mem w (key_events evs) st1)
      \<and> distinct (map ev_key (key_events evs)) \<and> (\<forall>ev\<in>set (key_events evs). in_matrix (ev_key ev))"
  proof (cases "cooked_matrix ?s = matrix_previous st")
    case True
    then have "evs = fst (generate_tick_event (pins w) ?s)" using t by (simp add: prod_eq_iff)
    then show ?thesis using tick_events_exec [of st1 E mem w "pins w" ?s] assms(5) m(2) by (simp add: tick_no_key(1))
  next
    case False
    then have "evs = matrix_events (pins w) (matrix_previous st) (cooked_matrix ?s) (wakeup_matrix st)" using t by simp
    then show ?thesis using matrix_events_keys [of "pins w" "matrix_previous st" "cooked_matrix ?s" "wakeup_matrix st"]
      by (auto simp: matrix_events_key exec_events_def)
  qed
  let ?r = "exec_events E mem w (key_events evs) st1"
  have r: "host_view nk (hid (hostio ?r)) = fold (abs_stroke nk) (map (event_stroke code) (key_events evs)) (host_view nk (hid (hostio st)))
      \<and> typing_ok nk (hid (hostio ?r)) \<and> jumped ?r = None \<and> tap_state ?r = tap_state st1 \<and> gpio ?r = gpio st1 \<and> encoder ?r = encoder st1"
    using plain_events_refine [of "key_events evs" E code st1 nk w mem] x assms(4-8) m c by simp
  have "exec_events E mem w evs st1 = ?r" using x by (simp add: exec_events_def split: if_splits)
  then have "st2 = (if changed \<and> jumped ?r = None then last_matrix_activity_trigger (pins w) ?r else ?r)"
    by (simp add: st2_def matrix_part_def assms(3) Let_def)
  then show "host_view nk (hid (hostio st2)) = fold (abs_stroke nk) (map (event_stroke code) (key_events evs)) (host_view nk (hid (hostio st)))"
    "typing_ok nk (hid (hostio st2))" "jumped st2 = None" "gpio st2 = gpio st1" "encoder st2 = encoder st1"
    using r by (auto simp: last_matrix_activity_trigger_def)
qed

text \<open>
  C2: From the sensors to the host. In one pass of the main loop in which the encoder rests and every changed key is a plain key or
  modifier, the host's view after the pass is its view before, changed by exactly the strokes of the keys that changed in
  the debounced matrix, in their order; and the pass returns, with the host up to date again.
\<close>

theorem pass_reports_keys:
  fixes st :: "('e, 'z) task_scheme"
  assumes "board_wiring (pins w) volt push" "kb_ok st" "matrix_task E (pins w) st = (changed, evs, st1)"
    and "\<forall>ev\<in>set (key_events evs). plain_event E ev (code ev) st1"
    and "tapping_idle_state (tap_state st)" "typing_ok nk (hid (hostio st))" "nk = nkro_now w st1" "jumped st = None"
    and "encoder_task (pins w_enc) (gpio st1) (encoder st1) = Some (turned, [], enc)"
  shows "\<exists>st'. keyboard_task E mem w w_enc w_rest st = Some st'
    \<and> host_view nk (hid (hostio st')) = fold (abs_stroke nk) (map (event_stroke code) (key_events evs)) (host_view nk (hid (hostio st)))
    \<and> typing_ok nk (hid (hostio st'))"
proof -
  note m = matrix_part_reports [where mem = mem, OF assms(1-8)]
  define st3 where "st3 = (if turned then last_encoder_activity_trigger (pins w_enc) ((matrix_part E mem w st)\<lparr>encoder := enc\<rparr>)
      else (matrix_part E mem w st)\<lparr>encoder := enc\<rparr>)"
  have e: "encoder_part E mem w_enc (matrix_part E mem w st) = Some st3"
    using assms(9) m(3-5) by (simp add: encoder_part_def exec_events_def Let_def st3_def)
  have h: "hostio st3 = hostio (matrix_part E mem w st)" "jumped st3 = None" using m(3) by (simp_all add: st3_def)
  have "keyboard_task E mem w w_enc w_rest st = Some (led_task w_rest (mouse_part w_rest st3))"
    using e h(2) m(3) by (simp add: keyboard_task_def Let_def)
  then show ?thesis using m(1,2) by (simp add: mouse_part_view h(1))
qed

lemma scan_layers:
  fixes st :: "('e, 'z) fw_scheme"
  shows "layer_state (snd (matrix_scan E env st)) = layer_state st"
    "default_layer_state (snd (matrix_scan E env st)) = default_layer_state st"
  using more_fields(1,2) [OF more_scan [of E env "raw_matrix st" st]]
  by (simp_all add: matrix_scan_def debounce_matrix_def split_beta Let_def)

lemma act_more_oneshot: "kb.more st' = kb.more (st :: ('e, 'z) act_scheme) \<Longrightarrow> oneshot_layer_data st' = oneshot_layer_data st"
  by (cases st; cases st') simp

definition demo_pressed :: "chip task" where
  "demo_pressed = (demo_task 4)\<lparr>cooked_matrix := [0, 0, 8, 0, 0], debouncing := True, debouncing_time := 7,
     encoder := (encoder demo_kb)\<lparr>encoder_pulses := [0]\<rparr>\<rparr>"

lemma demo_pressed_ok: "kb_ok demo_pressed"
proof -
  have "kb_ok (demo_task 4)" "enc_ok (encoder demo_kb)" using demo_task_ok [of 4] demo_kb_ok(9) by (simp_all add: task_ok_def act_ok_def)
  then show ?thesis by (simp add: demo_pressed_def kb_ok_def fw_ok_def enc_ok_def)
    (simp add: he_ok_def matrix_ok_def caches_ok_def ENCODER_RESOLUTION_def)
qed

lemma demo_pressed_fields:
  "hostio demo_pressed = \<lparr>hid = hid_reset, mouse = mousekey_reset\<rparr>" "tap_state demo_pressed = tapping_reset"
  "jumped demo_pressed = None" "keymap_config demo_pressed = 0" "layer_state demo_pressed = 0" "default_layer_state demo_pressed = 0"
  "\<not> disable_action_cache demo_pressed" "oneshot_layer_data demo_pressed = 0"
  "ee demo_pressed = ee (demo_task 4)" "\<not> autosave_pending demo_pressed" "matrix_previous demo_pressed = replicate 5 0"
  "wakeup_matrix demo_pressed = replicate 5 0" "cooked_matrix demo_pressed = [0, 0, 8, 0, 0]" "debouncing demo_pressed" "debouncing_time demo_pressed = 7"
  "encoder demo_pressed = (encoder demo_kb)\<lparr>encoder_pulses := [0]\<rparr>"
  using demo_kb_state(4) by (simp_all add: demo_pressed_def demo_task_fields) (simp_all add: demo_task_def task_reset_def demo_kb_fields)


lemma demo_pass_events: "matrix_events (flat_env 1000 7) (replicate 5 0) [0, 0, 8, 0, 0] (replicate 5 0) = [demo_event True 7]"
proof -
  have z: "row_events env r 0 0 w n = []" for env r w n by (rule row_events_same)
  have "bit (8 :: u16) c = (c = 3)" for c
  proof -
    have "(8 :: u16) = 2 ^ 3" by simp
    then show ?thesis by (simp only: bit_exp_iff) (auto simp: possible_bit_word)
  qed
  then have "row_events (flat_env 1000 7) 2 0 8 0 16 = [demo_event True 7]"
    by (simp add: row_events_def upt_rec)
      (simp add: MAKE_KEYEVENT_def MAKE_EVENT_def demo_event_def demo_key_def flat_env_def wired_env_def timer_read_def)
  then show ?thesis by (simp add: matrix_events_def hw_defs upt_rec z flip: numeral_2_eq_2)
qed

lemma demo_pass:
  "\<exists>st1. matrix_task board_ee (flat_env 1000 7) demo_pressed = (True, [demo_event True 7], st1)
    \<and> plain_event board_ee (demo_event True 7) 4 st1 \<and> nkro_now w st1 = False \<and> encoder st1 = encoder demo_pressed"
proof -
  let ?s = "snd (matrix_scan board_ee (flat_env 1000 7) demo_pressed)"
  have ok: "he_ok demo_pressed" "matrix_ok demo_pressed" using demo_pressed_ok by (simp_all add: kb_ok_def fw_ok_def)
  note w = flat_wiring [of 1000 7]
  note s = scan_sizes [OF w demo_pressed_ok, of board_ee] and k = kb_sizes [OF demo_pressed_ok] and f = demo_pressed_fields
    and r = board_wiring.matrix_scan_result [OF w prod.collapse [symmetric] ok, of board_ee]
  have c: "cooked_matrix ?s = [0, 0, 8, 0, 0]"
    unfolding r(1) by (simp add: f flat_env_def wired_env_def DEBOUNCE_def)
  note t = matrix_task_events [of board_ee "flat_env 1000 7" demo_pressed, unfolded s(1,2), OF k s(3), unfolded c f(11,12)]
  have ne: "[0, 0, 8, 0, 0] \<noteq> replicate 5 (0 :: u16)" by (simp add: list_eq_iff_nth_eq) (rule exI [of _ 2], simp)
  obtain st1 where st1: "matrix_task board_ee (flat_env 1000 7) demo_pressed = (True, [demo_event True 7], st1)"
    and e: "\<exists>a b. st1 = ?s\<lparr>wakeup_matrix := a, matrix_previous := b\<rparr>"
    using t ne by (auto simp: demo_pass_events)
  note mf = fw_more_fields [OF r(7)]
  have fields: "ee st1 = ee (demo_task 4)" "keymap_config st1 = 0" "layer_state st1 = 0" "default_layer_state st1 = 0"
    "\<not> disable_action_cache st1" "encoder st1 = encoder demo_pressed"
    using e r(10,14) mf scan_layers [of board_ee "flat_env 1000 7" demo_pressed] by (auto simp: f)
  have more: "hostio st1 = hostio demo_pressed" "jumped st1 = None"
    using board_wiring.task_kb_more(1) [OF w demo_pressed_ok, of board_ee] kb_more_fields [of st1 demo_pressed] by (simp_all add: st1 f)
  have "oneshot_layer_data st1 = oneshot_layer_data demo_pressed"
    using board_wiring.task_kb_more(1) [OF w demo_pressed_ok, of board_ee] act_more_oneshot [of st1 demo_pressed] by (simp add: st1)
  then have one: "oneshot_layer_data st1 = 0" by (simp add: f)
  have "layer_switch_get_layer board_ee key st1 = 0" for key
    by (auto simp: get_layer_find opaque_def fields find_Some_iff split: option.split)
  then have "event_keycode board_ee (demo_event True 7) st1 = 4"
    using demo_task_ee(2) [of 4]
    by (simp add: event_keycode_def event_layer_def demo_event_def demo_key_def keymap_key_to_keycode_def fields
      keycode_at_keymap_location_def hw_defs)
  moreover have "keycode_config 0 4 = 4" using no_swaps_0 by (simp add: no_swaps_def)
  ultimately have "plain_event board_ee (demo_event True 7) 4 st1"
    using fields more one unfolding plain_event_def
    by (simp add: demo_event_def IS_NOEVENT_def is_oneshot_layer_active_def get_oneshot_layer_state_def in_range_def)
  moreover have "nkro_now w st1 = False" by (simp add: nkro_now_def fields keymap_nkro_def)
  ultimately show ?thesis using st1 fields by blast
qed

theorem pass_reports_keys_witness:
  "\<exists>st'. keyboard_task board_ee demo_mem (demo_world\<lparr>pins := flat_env 1000 7\<rparr>) demo_world demo_world demo_pressed = Some st'
    \<and> host_view False (hid (hostio st')) = (0, {4})"
proof -
  let ?w = "demo_world\<lparr>pins := flat_env 1000 7\<rparr>"
  obtain st1 where st1: "matrix_task board_ee (pins ?w) demo_pressed = (True, [demo_event True 7], st1)"
    "plain_event board_ee (demo_event True 7) 4 st1" "False = nkro_now ?w st1" "encoder st1 = encoder demo_pressed"
    using demo_pass [of ?w] by auto
  define p where "p = sint (encoder_pulses (encoder st1) ! 0) + knob_step (knob (encoder st1)) (pads (pins demo_world) (gpio st1))"
  have ok: "enc_ok (encoder st1)" "\<bar>p\<bar> < 4"
    using demo_pressed_ok knob_step_unit [OF and_3_cases pads_cases, of "encoder_state (encoder demo_kb) ! 0" "pins demo_world" "gpio st1"]
    by (simp_all add: kb_ok_def st1(4) demo_pressed_fields(16) knob_def p_def)
  then have "detent_events (pins demo_world) p = []" by (auto simp: detent_events_def)
  then obtain enc where enc: "encoder_task (pins demo_world) (gpio st1) (encoder st1) = Some (False, [], enc)"
    using encoder_task_step [OF ok(1), of "pins demo_world" "gpio st1", folded p_def] by auto
  have k: "key_events [demo_event True 7] = [demo_event True 7]" by (simp add: key_events_def demo_event_def)
  have wiring: "board_wiring (pins ?w) (\<lambda>_ _. 1000) False" using flat_wiring [of 1000 7] by simp
  have rest: "tapping_idle_state (tap_state demo_pressed)" "typing_ok False (hid (hostio demo_pressed))" "jumped demo_pressed = None"
    using demo_tapping(2) [of 4] typing_ok_reset by (simp_all add: demo_task_fields demo_pressed_fields)
  have "\<forall>ev\<in>set (key_events [demo_event True 7]). plain_event board_ee ev 4 st1" using st1(2) by (simp add: k)
  from pass_reports_keys [where mem = demo_mem and w_rest = demo_world, OF wiring demo_pressed_ok st1(1) this rest(1,2) st1(3) rest(3) enc]
  moreover have "host_view False (hid (hostio demo_pressed)) = (0, {})"
    by (simp add: demo_pressed_fields host_view_def hid_reset_def Let_def List.map_filter_def)
  moreover have "fold (abs_stroke False) (map (event_stroke (\<lambda>_. 4)) (key_events [demo_event True 7])) (0, {}) = (0, {4})"
    unfolding k by (simp add: event_stroke_def demo_event_def code_class_defs key_capacity_def hw_defs)
  ultimately show ?thesis by auto
qed

end
