(* ===== verification/Behaviour_Theorems.thy ===== *)
theory Behaviour_Theorems
  imports Typing_Theorems
begin

text \<open>
  The properties of keys that do more than report themselves: keys with two roles, the account of the events the tapping
  state machine keeps, macros and the mouse.
\<close>

section \<open>Tap or hold\<close>

text \<open>
  C8: A key with two roles (layer-tap or mod-tap), pressed while no other key is in the making. Its press reports nothing and
  changes no layer. Released within the tapping term of 200 ms, it types its key: the key is registered and, after a
  pause, unregistered, no layer changes and nothing is left waiting. If instead a tick comes after the term, its layer or
  modifiers go on, and the later release, however late, takes exactly these off again.
\<close>

theorem dual_role_key:
  fixes st :: "('e, 'z) task_scheme" and mem w w_rel w_tick
  assumes "dual_press E ev h kc st" "release_of ev rel" "IS_NOEVENT tick" "\<not> ev_pressed tick"
  defines "st1 \<equiv> action_exec E mem w ev st"
  defines "st_tap \<equiv> action_exec E mem w_rel rel st1" and "st_hold \<equiv> action_exec E mem w_tick tick st1"
  shows "hostio st1 = hostio st \<and> layer_state st1 = layer_state st
    \<and> (unat (ev_time rel - ev_time ev) < 200 \<longrightarrow>
        (\<exists>d. hostio st_tap = unregister_code (pins w_rel) (nkro_now w_rel st) kc
               (on_hid (wait_ms d) (register_code (pins w_rel) (nkro_now w_rel st) kc (hostio st))))
        \<and> layer_state st_tap = layer_state st \<and> in_hand (tap_state st_tap) = [])
    \<and> (200 \<le> unat (ev_time tick - ev_time ev) \<longrightarrow>
        (hostio st_hold, layer_state st_hold) = held (nkro_now w_tick st) h (hostio st, layer_state st)
        \<and> (hostio (action_exec E mem w_rel rel st_hold), layer_state (action_exec E mem w_rel rel st_hold)) =
            let_go (nkro_now w_rel st) h (held (nkro_now w_tick st) h (hostio st, layer_state st)))"
proof -
  note p = dual_press_pending [OF assms(1), where mem = mem and w = w, folded st1_def]
  note d = TAPPING_TERM_def
  have tap: "unat (ev_time rel - ev_time ev) < 200 \<Longrightarrow>
      (\<exists>d. hostio st_tap = unregister_code (pins w_rel) (nkro_now w_rel st) kc
             (on_hid (wait_ms d) (register_code (pins w_rel) (nkro_now w_rel st) kc (hostio st))))
      \<and> layer_state st_tap = layer_state st \<and> in_hand (tap_state st_tap) = []"
    using dual_tapped [OF p(1) assms(2), where mem = mem and w = w_rel, folded st_tap_def, unfolded p(2-4) d] by (simp add: in_hand_def)
  have hold: "200 \<le> unat (ev_time tick - ev_time ev) \<Longrightarrow>
      (hostio st_hold, layer_state st_hold) = held (nkro_now w_tick st) h (hostio st, layer_state st)
      \<and> (hostio (action_exec E mem w_rel rel st_hold), layer_state (action_exec E mem w_rel rel st_hold)) =
          let_go (nkro_now w_rel st) h (held (nkro_now w_tick st) h (hostio st, layer_state st))"
    using dual_hold_release(1) [OF p(1) assms(3,4) _ assms(2), where mem = mem and w = w_tick, folded st_hold_def, unfolded p(2-4) d]
      dual_hold_release(2) [OF p(1) assms(3,4) _ assms(2), where mem = mem and w = w_tick and w' = w_rel, folded st_hold_def, unfolded p(2-4) d]
    by simp
  show ?thesis using p(2,3) tap hold by blast
qed

lemma demo_dual: "dual_press board_ee (demo_event True t) (Hold_Layer 1) 4 (demo_task 0x4104)"
proof -
  have "dual_role 0x4104 = Some (Hold_Layer 1, 4)" by (simp add: dual_role_def in_range_def)
  moreover have "in_matrix demo_key" by (simp add: demo_key_def in_matrix_def hw_defs)
  ultimately show ?thesis
    using demo_quiet [of "0x4104" t] demo_tapping [of "0x4104"] demo_task_fields(1,3-10) [of "0x4104"] no_swaps_0
    by (simp add: dual_press_def demo_keycode IS_BASIC_KEYCODE_def hid_reset_def Let_def) (simp add: demo_event_def)
qed

definition demo_tick :: "u16 \<Rightarrow> keyevent_t" where
  "demo_tick t = \<lparr>ev_key = \<lparr>col = 0, row = 0\<rparr>, ev_time = t, ev_type = TICK_EVENT, ev_pressed = False\<rparr>"

theorem dual_role_key_witness:
  "layer_state (action_exec board_ee demo_mem demo_world (demo_tick 300) (action_exec board_ee demo_mem demo_world (demo_event True 100) (demo_task 0x4104))) = 2
   \<and> layer_state (action_exec board_ee demo_mem demo_world (demo_event False 150) (action_exec board_ee demo_mem demo_world (demo_event True 100) (demo_task 0x4104))) = 0"
proof -
  have r: "release_of (demo_event True 100) (demo_event False 150)" by (simp add: release_of_def demo_event_def IS_NOEVENT_def)
  have t: "IS_NOEVENT (demo_tick 300)" "\<not> ev_pressed (demo_tick 300)" by (simp_all add: demo_tick_def IS_NOEVENT_def)
  have d: "200 \<le> unat (ev_time (demo_tick 300) - ev_time (demo_event True 100))"
    "unat (ev_time (demo_event False 150) - ev_time (demo_event True 100)) < 200" by (simp_all add: demo_tick_def demo_event_def)
  from dual_role_key [OF demo_dual r t, where mem = demo_mem and w = demo_world and w_rel = demo_world and w_tick = demo_world] d show ?thesis by (simp add: demo_task_fields)
qed

section \<open>No event is lost\<close>

text \<open>\<open>action_exec\<close> with a log of the records handed to \<^verbatim>\<open>process_record\<close> and of the calls of \<^verbatim>\<open>clear_keyboard\<close>.\<close>

definition exec_logged ::
  "'e eeprom_driver \<Rightarrow> (lut \<Rightarrow> nat \<Rightarrow> u8) \<Rightarrow> world \<times> keyevent_t \<Rightarrow> ('e, 'z) task_scheme \<times> call list \<Rightarrow>
    ('e, 'z) task_scheme \<times> call list" where
  "exec_logged E mem we sl =
     (let (go_on, st1) = before_tapping E (snd we) (fst sl) in
      if go_on then
        let (tp, st2, l) = action_tapping_process (logged (board_ops E mem (fst we))) (new_record (snd we)) (tap_state st1) (st1, snd sl) in
        (st2\<lparr>tap_state := tp\<rparr>, l)
      else (st1, snd sl))"

definition given :: "(world \<times> keyevent_t) list \<Rightarrow> keyevent_t list" where
  "given evs = filter (\<lambda>ev. \<not> IS_NOEVENT ev) (map snd evs)"

lemma exec_logged_fst: "fst (exec_logged E mem (w, ev) (st, l)) = action_exec E mem w ev st"
proof -
  let ?st1 = "snd (before_tapping E ev st)"
  obtain l' where "action_tapping_process (logged (board_ops E mem w)) (new_record ev) (tap_state ?st1) (?st1, l) =
      (fst (action_tapping_process (board_ops E mem w) (new_record ev) (tap_state ?st1) ?st1),
       snd (action_tapping_process (board_ops E mem w) (new_record ev) (tap_state ?st1) ?st1), l')"
    using logged_action_tapping [of "board_ops E mem w" "new_record ev" "tap_state ?st1" ?st1 l] by (elim exE)
  then show ?thesis by (simp add: exec_logged_def action_exec_def split_beta Let_def)
qed

lemma exec_logged_account:
  assumes "exec_logged E mem (w, ev) (st, l) = (st', l')" "tapping_ok (tap_state st)"
  shows "tapping_ok (tap_state st')"
    "Cleared \<notin> set l' \<Longrightarrow> account l (in_hand (tap_state st)) (given [(w, ev)]) l' (in_hand (tap_state st'))"
proof -
  let ?st1 = "snd (before_tapping E ev st)"
  have go: "fst (before_tapping E ev st)" by (simp add: before_tapping_def pre_process_record_quantum_def Let_def)
  obtain tp st2 l2 where x: "action_tapping_process (logged (board_ops E mem w)) (new_record ev) (tap_state ?st1) (?st1, l) = (tp, st2, l2)"
    by (metis prod_cases3)
  have r: "st' = st2\<lparr>tap_state := tp\<rparr>" "l' = l2" using assms(1) go x by (simp_all add: exec_logged_def split_beta Let_def)
  have f: "fresh (new_record ev)" by (simp add: fresh_def new_record_def)
  have "tapping_ok (tap_state ?st1)" using assms(2) by (simp add: tap_state_before)
  with board_taps.action_tapping_account [OF x _ f] tap_state_before [of E ev st]
  show "tapping_ok (tap_state st')"
    "Cleared \<notin> set l' \<Longrightarrow> account l (in_hand (tap_state st)) (given [(w, ev)]) l' (in_hand (tap_state st'))"
    by (simp_all add: r board_taps.record_input_def given_def split: if_splits)
qed

lemma exec_logged_all:
  assumes "fold (exec_logged E mem) evs (st, l) = (st', l')" "tapping_ok (tap_state st)"
  shows "st' = fold (\<lambda>(w, ev). action_exec E mem w ev) evs st \<and> tapping_ok (tap_state st') \<and>
    (Cleared \<notin> set l' \<longrightarrow> account l (in_hand (tap_state st)) (given evs) l' (in_hand (tap_state st')))"
  using assms
proof (induction evs arbitrary: st l)
  case (Cons we evs)
  obtain w ev where we: "we = (w, ev)" by (cases we)
  obtain st1 l1 where x: "exec_logged E mem (w, ev) (st, l) = (st1, l1)" by (cases "exec_logged E mem (w, ev) (st, l)")
  note one = exec_logged_account [OF x Cons.prems(2)]
  have "st1 = action_exec E mem w ev st" using exec_logged_fst [of E mem w ev st l] by (simp add: x)
  moreover have g: "given (we # evs) = given [(w, ev)] @ given evs" by (simp add: given_def we)
  moreover have "fold (exec_logged E mem) evs (st1, l1) = (st', l')" using Cons.prems(1) x by (simp add: we)
  note IH = Cons.IH [OF this one(1)]
  moreover have "account l (in_hand (tap_state st)) (given (we # evs)) l' (in_hand (tap_state st'))" if "Cleared \<notin> set l'"
  proof -
    have a: "account l1 (in_hand (tap_state st1)) (given evs) l' (in_hand (tap_state st'))" using IH that by blast
    then have "Cleared \<notin> set l1" using that by (simp add: account_def)
    from account_trans [OF one(2) [OF this] a] show ?thesis unfolding g .
  qed
  ultimately show ?case using IH unfolding we by simp
qed (simp add: account_refl given_def)

text \<open>
  C9: No key event is lost on the way to \<^verbatim>\<open>process_record\<close>. For any sequence of key presses, releases and ticks, at any times,
  the presses handed to \<^verbatim>\<open>process_record\<close> together with those still kept back are exactly the presses given and kept
  back before, each as often; no release is lost; and no more than seven events wait. The one exception is an overflow
  of the waiting buffer, which clears the keyboard (\<open>Cleared\<close>).
\<close>

theorem events_conserved:
  fixes st :: "('e, 'z) task_scheme"
  assumes "fold (exec_logged E mem) evs (st, []) = (st', l)" "tapping_ok (tap_state st)" "Cleared \<notin> set l"
  shows "st' = fold (\<lambda>(w, ev). action_exec E mem w ev) evs st
    \<and> presses (map event (processed l)) + presses (in_hand (tap_state st')) = presses (in_hand (tap_state st)) + presses (given evs)
    \<and> releases (in_hand (tap_state st)) + releases (given evs) \<subseteq># releases (map event (processed l)) + releases (in_hand (tap_state st'))
    \<and> length (waiting (tap_state st')) \<le> 7"
  using exec_logged_all [OF assms(1,2)] assms(3) length_waiting [of "tap_state st'"] by (auto simp: account_def)

lemma demo_kept_back:
  "exec_logged board_ee mem (w, demo_event True 100) (demo_task 0x4104, []) = (st', l) \<Longrightarrow> l = []"
proof -
  assume x: "exec_logged board_ee mem (w, demo_event True 100) (demo_task 0x4104, []) = (st', l)"
  let ?ev = "demo_event True 100" and ?st = "demo_task 0x4104"
  have d: "quiet_event board_ee ?ev ?st" "ev_pressed ?ev" "weak_mods (hid (hostio ?st)) = 0" "tapping_idle_state (tap_state ?st)"
    and role: "dual_role (event_keycode board_ee ?ev ?st) = Some (Hold_Layer 1, 4)" "IS_BASIC_KEYCODE 4" "no_swaps (keymap_config ?st)"
    using demo_dual [of 100] by (simp_all add: dual_press_def)
  obtain s1 where s1: "same_but_caches ?st s1" "before_tapping board_ee ?ev ?st = (True, s1)"
    using quiet_before_tapping [OF d(1,3)] d(2) by blast
  have "is_tap_action (event_action board_ee ?ev ?st)" using dual_role_action(1) [OF role] by (simp add: event_action_def)
  then have "is_tap_record (logged (board_ops board_ee mem w)) (new_record ?ev) (s1, [])"
    using d(1,2) press_action [OF d(2), of board_ee s1] press_cong(2) [OF s1(1) disjI1 [OF d(2)]]
    by (simp add: is_tap_record_def board_ops_def quiet_event_def logged_def)
  then have "action_tapping_process (logged (board_ops board_ee mem w)) (new_record ?ev) (tap_state ?st) (s1, []) =
      ((tap_state ?st)\<lparr>tapping_key := new_record ?ev\<rparr>, (s1, []))"
    using d(2,4) by (intro tap_press) simp_all
  then show ?thesis using x by (simp add: exec_logged_def s1(2) same_but_caches_rest(1) [OF s1(1)])
qed

theorem events_conserved_witness:
  "presses (in_hand (tap_state (action_exec board_ee demo_mem demo_world (demo_event True 100) (demo_task 0x4104)))) = {#demo_event True 100#}"
proof -
  obtain st' l where x: "exec_logged board_ee demo_mem (demo_world, demo_event True 100) (demo_task 0x4104, []) = (st', l)" by fastforce
  have l: "l = []" by (rule demo_kept_back [OF x])
  have f: "fold (exec_logged board_ee demo_mem) [(demo_world, demo_event True 100)] (demo_task 0x4104, []) = (st', l)" by (simp add: x)
  have "Cleared \<notin> set l" by (simp add: l)
  note c = events_conserved [OF f demo_tapping(1) this]
  have "in_hand (tap_state (demo_task 0x4104)) = []"
    by (simp add: demo_task_fields in_hand_def undecided_def waiting_def waiting_indices_def tapping_reset_def zero_record_def IS_NOEVENT_def)
  moreover have "given [(demo_world, demo_event True 100)] = [demo_event True 100]" "ev_pressed (demo_event True 100)"
    by (simp_all add: given_def demo_event_def IS_NOEVENT_def)
  ultimately show ?thesis using c by (auto simp: l)
qed

section \<open>The mouse\<close>

text \<open>
  C16: The mouse keys. Whatever mouse keys are pressed and released in whatever order, the directions and buttons held are what
  the specification \<open>pointer_stroke\<close> says: the last key pressed of an axis decides, and the release of another one does not
  stop it. A run of the mouse task changes none of that; it sends at most one report, with exactly the buttons held,
  whose cursor and wheel each rest or move along the directions held, at most 80 units or 8 notches.
\<close>

theorem mouse_keys_move_pointer:
  assumes "mousekey_task env (fold mouse_stroke ss m) h = (m', h')"
  defines "p \<equiv> fold pointer_stroke ss (pointer_of m)"
  shows "pointer_of m' = p \<and> (h' = h \<or> (\<exists>r. h' = h\<lparr>host_sent := Send_Mouse r # host_sent h\<rparr>
    \<and> {n. bit (rm_buttons r) n} = buttons p
    \<and> (rm_x r = 0 \<and> rm_y r = 0 \<or> sgn (sint (rm_x r)) = dir_x p \<and> sgn (sint (rm_y r)) = dir_y p)
    \<and> (rm_v r = 0 \<and> rm_h r = 0 \<or> sgn (sint (rm_v r)) = dir_v p \<and> sgn (sint (rm_h r)) = dir_h p)
    \<and> \<bar>sint (rm_x r)\<bar> \<le> 80 \<and> \<bar>sint (rm_y r)\<bar> \<le> 80 \<and> \<bar>sint (rm_v r)\<bar> \<le> 8 \<and> \<bar>sint (rm_h r)\<bar> \<le> 8))"
proof -
  note t = mousekey_task_sends [OF assms(1)]
  have p: "pointer_of (fold mouse_stroke ss m) = p" by (simp add: strokes_refine_pointer p_def)
  then have d: "dir_x p = sgn (sint (rm_x (mouse_report (fold mouse_stroke ss m))))" "dir_y p = sgn (sint (rm_y (mouse_report (fold mouse_stroke ss m))))"
    "dir_v p = sgn (sint (rm_v (mouse_report (fold mouse_stroke ss m))))" "dir_h p = sgn (sint (rm_h (mouse_report (fold mouse_stroke ss m))))"
    "buttons p = {n. bit (rm_buttons (mouse_report (fold mouse_stroke ss m))) n}"
    by (auto simp: pointer_of_def Let_def)
  have "pointer_of m' = p" using p t(1) by (simp add: pointer_of_def)
  then show ?thesis using t(3) unfolding d follows_def by fastforce
qed

theorem mouse_keys_move_pointer_witness:
  "dir_x (pointer_of (fst (mousekey_task (flat_env 0 0) (fold mouse_stroke [(QK_MOUSE_CURSOR_LEFT, True), (QK_MOUSE_CURSOR_RIGHT, True),
     (QK_MOUSE_CURSOR_LEFT, False)] mousekey_reset) hid_reset))) = 1"
proof -
  obtain m' h' where x: "mousekey_task (flat_env 0 0) (fold mouse_stroke [(QK_MOUSE_CURSOR_LEFT, True), (QK_MOUSE_CURSOR_RIGHT, True),
     (QK_MOUSE_CURSOR_LEFT, False)] mousekey_reset) hid_reset = (m', h')" by fastforce
  from mouse_keys_move_pointer [OF x] show ?thesis
    unfolding x by (simp add: pointer_stroke_def press_pointer_def release_pointer_def stop_def hw_defs)
qed

section \<open>Macros\<close>

text \<open>
  C15: A macro of plain text types its text. If the macro buffer holds the macros one after the other, each closed by a zero byte,
  and the keyboard is at rest, pressing the key of the n-th macro makes a host with the US layout read exactly that
  macro's text after what it read before, leaves the keyboard at rest again, with no key or modifier held,
  stores nothing, and the keycode goes no further.
\<close>

theorem macro_types_text:
  fixes st :: "('e, 'z) act_scheme"
  assumes "macro_bytes E 0 (ee st) = concat (map (\<lambda>m. m @ [0]) ms) @ replicate j 0" "n < length ms" "n < 16"
    and "\<forall>m\<in>set ms. 0 \<notin> set m" "\<forall>c\<in>set (ms ! n). typeable c" "at_rest (nkro_now w st) (hid (hostio st))"
  shows "\<exists>st'. process_keycode E mem w (QK_MACRO + word_of_nat n) True st = (False, st')
    \<and> host_text (nkro_now w st) (hid (hostio st')) = host_text (nkro_now w st) (hid (hostio st)) @ ms ! n
    \<and> at_rest (nkro_now w st) (hid (hostio st')) \<and> ee st' = ee st \<and> layer_state st' = layer_state st"
proof -
  let ?k = "QK_MACRO + word_of_nat n :: u16" and ?size = nvm_dynamic_keymap_macro_size
  have u: "unat (word_of_nat n :: u16) = n" using assms(3) by (simp add: unat_of_nat)
  have k: "QK_MACRO \<le> ?k" "?k \<le> QK_MACRO_MAX" "unat (ucast (?k - QK_MACRO) :: u8) = n"
    "?k \<noteq> QK_KB_0" "?k \<noteq> QK_KB_1" "?k \<noteq> QK_KB_2"
  proof -
    have "unat ?k = 0x7700 + n" using assms(3) u by (simp add: unat_word_ariths hw_defs)
    then show "QK_MACRO \<le> ?k" "?k \<le> QK_MACRO_MAX" "?k \<noteq> QK_KB_0" "?k \<noteq> QK_KB_1" "?k \<noteq> QK_KB_2"
      using assms(3) by (auto simp: word_le_nat_alt hw_defs)
    show "unat (ucast (?k - QK_MACRO) :: u8) = n"
      using assms(3) u by (simp add: unsigned_ucast_eq unsigned_take_bit_eq take_bit_eq_mod)
  qed
  have "macro_bytes E 0 (ee st) = map (\<lambda>o'. dynamic_keymap_read_byte E o' (ee st)) [0..<?size]" by (simp add: macro_bytes_def)
  then have "dynamic_keymap_read_byte E (?size - 1) (ee st) = last (macro_bytes E 0 (ee st))"
    by (simp add: last_map nvm_dynamic_keymap_macro_size_def hw_defs)
  also have "\<dots> = 0"
    using assms(2) unfolding assms(1) by (cases ms rule: rev_cases; cases j) simp_all
  finally have full: "dynamic_keymap_read_byte E (?size - 1) (ee st) = 0" .
  obtain off ys where off: "macro_skip E ?size n 0 (ee st) = Some off" "macro_bytes E off (ee st) = ms ! n @ 0 # ys"
    using macro_skip_finds [OF assms(1,4,2), of ?size] by auto
  have "dynamic_keymap_macro_start E n (ee st) = Some off"
    using assms(3) full off(1) by (simp add: dynamic_keymap_macro_start_def hw_defs)
  then have x: "process_keycode E mem w ?k True st = (False, macro_play E mem w off st)"
    using k by (simp add: process_keycode_def and_then_def he_handle_keycode_def process_record_macro_def process_record_via_def)
  have "typed_to (nkro_now w st) 0 {} (host_text (nkro_now w st) (hid (hostio st))) (pins w, hostio st)"
    using assms(6) by (simp add: typed_to_rest)
  from send_string_types [OF assms(5) this, of "0 # ys" mem DYNAMIC_KEYMAP_MACRO_DELAY] show ?thesis
    by (simp add: x macro_play_def off(2) typed_to_rest)
qed

definition demo_macro :: bytes where "demo_macro = [0x48, 0x69, 0x21]"

definition demo_macro_task :: "chip task" where
  "demo_macro_task = (demo_task 4)\<lparr>ee := dynamic_keymap_macro_set_buffer board_ee 0 (demo_macro @ [0])
     (dynamic_keymap_macro_reset board_ee f411_blank)\<rparr>"

theorem macro_types_text_witness:
  "\<exists>st'. process_keycode board_ee demo_mem demo_world QK_MACRO True demo_macro_task = (False, st')
    \<and> host_text (nkro_now demo_world demo_macro_task) (hid (hostio st')) = demo_macro"
proof -
  have "macro_bytes board_ee 0 (ee demo_macro_task) = concat (map (\<lambda>m. m @ [0]) [demo_macro]) @ replicate (DYNAMIC_KEYMAP_MACRO_EEPROM_SIZE - 4) 0"
    using board_eeprom.macro_buffer_written [OF board_ee_eeprom blank_inv, of "demo_macro @ [0]"]
    by (simp add: demo_macro_task_def demo_macro_def hw_defs)
  moreover have "\<forall>m\<in>set [demo_macro]. 0 \<notin> set m" "\<forall>c\<in>set ([demo_macro] ! 0). typeable c" by (simp_all add: demo_macro_def typeable_def)
  moreover have "at_rest nk (hid (hostio demo_macro_task))" "host_text nk (hid (hostio demo_macro_task)) = []" for nk
    using at_rest_reset by (simp_all add: demo_macro_task_def demo_task_fields host_text_def hid_reset_def List.map_filter_def Let_def)
  ultimately show ?thesis
    using macro_types_text [of board_ee demo_macro_task "[demo_macro]" "DYNAMIC_KEYMAP_MACRO_EEPROM_SIZE - 4" 0 demo_world demo_mem] by auto
qed

end
