(* ===== verification/Usb_Descriptor.thy ===== *)
theory Usb_Descriptor
  imports Report
begin

text \<open>
  The report descriptors of \<^verbatim>\<open>tmk_core/protocol/usb_descriptor.c\<close> that tell the host how to read a report, and the packets
  \<^verbatim>\<open>send_keyboard\<close>, \<^verbatim>\<open>send_nkro\<close>, \<^verbatim>\<open>send_mouse\<close> and \<^verbatim>\<open>send_extra\<close> of \<^verbatim>\<open>protocol/chibios/usb_main.c\<close> send. An item of a
  descriptor is a macro of LUFA (\<^verbatim>\<open>HID_RI_...\<close>, not part of the repository): the items here are its constructors, with the
  width the code gives as first argument. \<open>host_reads\<close> is the specification: how a host of the HID class reads a report
  by its descriptor (HID 1.11, section 6.2.2).
\<close>

section \<open>Model\<close>

subsection \<open>Descriptors\<close>

datatype hid_iof = HID_IOF_DATA | HID_IOF_CONSTANT | HID_IOF_ARRAY | HID_IOF_VARIABLE | HID_IOF_ABSOLUTE | HID_IOF_RELATIVE | HID_IOF_NON_VOLATILE

datatype hid_item =
    HID_RI_USAGE_PAGE nat nat | HID_RI_USAGE nat nat | HID_RI_USAGE_MINIMUM nat nat | HID_RI_USAGE_MAXIMUM nat nat
  | HID_RI_LOGICAL_MINIMUM nat int | HID_RI_LOGICAL_MAXIMUM nat int | HID_RI_REPORT_COUNT nat nat | HID_RI_REPORT_SIZE nat nat
  | HID_RI_REPORT_ID nat u8 | HID_RI_COLLECTION nat nat | HID_RI_END_COLLECTION nat
  | HID_RI_INPUT nat "hid_iof list" | HID_RI_OUTPUT nat "hid_iof list"

definition CONSOLE_EPSIZE :: nat where [hw_defs]: "CONSOLE_EPSIZE = 32"
definition SHARED_EPSIZE :: nat where [hw_defs]: "SHARED_EPSIZE = 32"
definition MOUSE_REPORT_XY_MIN :: int where [hw_defs]: "MOUSE_REPORT_XY_MIN = - 128 + 1"
definition MOUSE_REPORT_XY_MAX :: int where [hw_defs]: "MOUSE_REPORT_XY_MAX = 127"
definition MOUSE_REPORT_HV_MIN :: int where [hw_defs]: "MOUSE_REPORT_HV_MIN = - 128 + 1"
definition MOUSE_REPORT_HV_MAX :: int where [hw_defs]: "MOUSE_REPORT_HV_MAX = 127"
definition RAW_USAGE_PAGE :: nat where [hw_defs]: "RAW_USAGE_PAGE = 0xFF60"
definition RAW_USAGE_ID :: nat where [hw_defs]: "RAW_USAGE_ID = 0x61"

text \<open>\<^verbatim>\<open>SharedReport\<close>, in the order of the code: keyboard, mouse, system control, consumer control, keyboard with one bit per key.\<close>

definition keyboard_items :: "hid_item list" where
  "keyboard_items =
    [HID_RI_USAGE_PAGE 8 0x01, HID_RI_USAGE 8 0x06, HID_RI_COLLECTION 8 0x01,
       HID_RI_REPORT_ID 8 REPORT_ID_KEYBOARD,
       HID_RI_USAGE_PAGE 8 0x07, HID_RI_USAGE_MINIMUM 8 0xE0, HID_RI_USAGE_MAXIMUM 8 0xE7,
       HID_RI_LOGICAL_MINIMUM 8 0x00, HID_RI_LOGICAL_MAXIMUM 8 0x01, HID_RI_REPORT_COUNT 8 0x08, HID_RI_REPORT_SIZE 8 0x01,
       HID_RI_INPUT 8 [HID_IOF_DATA, HID_IOF_VARIABLE, HID_IOF_ABSOLUTE],
       HID_RI_REPORT_COUNT 8 0x01, HID_RI_REPORT_SIZE 8 0x08, HID_RI_INPUT 8 [HID_IOF_CONSTANT],
       HID_RI_USAGE_PAGE 8 0x07, HID_RI_USAGE_MINIMUM 8 0x00, HID_RI_USAGE_MAXIMUM 8 0xFF,
       HID_RI_LOGICAL_MINIMUM 8 0x00, HID_RI_LOGICAL_MAXIMUM 16 0x00FF, HID_RI_REPORT_COUNT 8 0x06, HID_RI_REPORT_SIZE 8 0x08,
       HID_RI_INPUT 8 [HID_IOF_DATA, HID_IOF_ARRAY, HID_IOF_ABSOLUTE],
       HID_RI_USAGE_PAGE 8 0x08, HID_RI_USAGE_MINIMUM 8 0x01, HID_RI_USAGE_MAXIMUM 8 0x05,
       HID_RI_LOGICAL_MINIMUM 8 0x00, HID_RI_LOGICAL_MAXIMUM 8 0x01, HID_RI_REPORT_COUNT 8 0x05, HID_RI_REPORT_SIZE 8 0x01,
       HID_RI_OUTPUT 8 [HID_IOF_DATA, HID_IOF_VARIABLE, HID_IOF_ABSOLUTE, HID_IOF_NON_VOLATILE],
       HID_RI_REPORT_COUNT 8 0x01, HID_RI_REPORT_SIZE 8 0x03, HID_RI_OUTPUT 8 [HID_IOF_CONSTANT],
     HID_RI_END_COLLECTION 0]"

definition mouse_items :: "hid_item list" where
  "mouse_items =
    [HID_RI_USAGE_PAGE 8 0x01, HID_RI_USAGE 8 0x02, HID_RI_COLLECTION 8 0x01,
       HID_RI_REPORT_ID 8 REPORT_ID_MOUSE,
       HID_RI_USAGE 8 0x01, HID_RI_COLLECTION 8 0x00,
         HID_RI_USAGE_PAGE 8 0x09, HID_RI_USAGE_MINIMUM 8 0x01, HID_RI_USAGE_MAXIMUM 8 0x08,
         HID_RI_LOGICAL_MINIMUM 8 0x00, HID_RI_LOGICAL_MAXIMUM 8 0x01, HID_RI_REPORT_COUNT 8 0x08, HID_RI_REPORT_SIZE 8 0x01,
         HID_RI_INPUT 8 [HID_IOF_DATA, HID_IOF_VARIABLE, HID_IOF_ABSOLUTE],
         HID_RI_USAGE_PAGE 8 0x01, HID_RI_USAGE 8 0x30, HID_RI_USAGE 8 0x31,
         HID_RI_LOGICAL_MINIMUM 8 MOUSE_REPORT_XY_MIN, HID_RI_LOGICAL_MAXIMUM 8 MOUSE_REPORT_XY_MAX,
         HID_RI_REPORT_COUNT 8 0x02, HID_RI_REPORT_SIZE 8 0x08,
         HID_RI_INPUT 8 [HID_IOF_DATA, HID_IOF_VARIABLE, HID_IOF_RELATIVE],
         HID_RI_USAGE 8 0x38,
         HID_RI_LOGICAL_MINIMUM 8 MOUSE_REPORT_HV_MIN, HID_RI_LOGICAL_MAXIMUM 8 MOUSE_REPORT_HV_MAX,
         HID_RI_REPORT_COUNT 8 0x01, HID_RI_REPORT_SIZE 8 0x08,
         HID_RI_INPUT 8 [HID_IOF_DATA, HID_IOF_VARIABLE, HID_IOF_RELATIVE],
         HID_RI_USAGE_PAGE 8 0x0C, HID_RI_USAGE 16 0x0238,
         HID_RI_LOGICAL_MINIMUM 8 MOUSE_REPORT_HV_MIN, HID_RI_LOGICAL_MAXIMUM 8 MOUSE_REPORT_HV_MAX,
         HID_RI_REPORT_COUNT 8 0x01, HID_RI_REPORT_SIZE 8 0x08,
         HID_RI_INPUT 8 [HID_IOF_DATA, HID_IOF_VARIABLE, HID_IOF_RELATIVE],
       HID_RI_END_COLLECTION 0,
     HID_RI_END_COLLECTION 0]"

definition extrakey_items :: "hid_item list" where
  "extrakey_items =
    [HID_RI_USAGE_PAGE 8 0x01, HID_RI_USAGE 8 0x80, HID_RI_COLLECTION 8 0x01,
       HID_RI_REPORT_ID 8 REPORT_ID_SYSTEM,
       HID_RI_USAGE_MINIMUM 8 0x01, HID_RI_USAGE_MAXIMUM 16 0x00B7, HID_RI_LOGICAL_MINIMUM 8 0x01, HID_RI_LOGICAL_MAXIMUM 16 0x00B7,
       HID_RI_REPORT_COUNT 8 1, HID_RI_REPORT_SIZE 8 16,
       HID_RI_INPUT 8 [HID_IOF_DATA, HID_IOF_ARRAY, HID_IOF_ABSOLUTE],
     HID_RI_END_COLLECTION 0,
     HID_RI_USAGE_PAGE 8 0x0C, HID_RI_USAGE 8 0x01, HID_RI_COLLECTION 8 0x01,
       HID_RI_REPORT_ID 8 REPORT_ID_CONSUMER,
       HID_RI_USAGE_MINIMUM 8 0x01, HID_RI_USAGE_MAXIMUM 16 0x02A0, HID_RI_LOGICAL_MINIMUM 8 0x01, HID_RI_LOGICAL_MAXIMUM 16 0x02A0,
       HID_RI_REPORT_COUNT 8 1, HID_RI_REPORT_SIZE 8 16,
       HID_RI_INPUT 8 [HID_IOF_DATA, HID_IOF_ARRAY, HID_IOF_ABSOLUTE],
     HID_RI_END_COLLECTION 0]"

definition nkro_items :: "hid_item list" where
  "nkro_items =
    [HID_RI_USAGE_PAGE 8 0x01, HID_RI_USAGE 8 0x06, HID_RI_COLLECTION 8 0x01,
       HID_RI_REPORT_ID 8 REPORT_ID_NKRO,
       HID_RI_USAGE_PAGE 8 0x07, HID_RI_USAGE_MINIMUM 8 0xE0, HID_RI_USAGE_MAXIMUM 8 0xE7,
       HID_RI_LOGICAL_MINIMUM 8 0x00, HID_RI_LOGICAL_MAXIMUM 8 0x01, HID_RI_REPORT_COUNT 8 0x08, HID_RI_REPORT_SIZE 8 0x01,
       HID_RI_INPUT 8 [HID_IOF_DATA, HID_IOF_VARIABLE, HID_IOF_ABSOLUTE],
       HID_RI_USAGE_PAGE 8 0x07, HID_RI_USAGE_MINIMUM 8 0x00, HID_RI_USAGE_MAXIMUM 8 (NKRO_REPORT_BITS * 8 - 1),
       HID_RI_LOGICAL_MINIMUM 8 0x00, HID_RI_LOGICAL_MAXIMUM 8 0x01, HID_RI_REPORT_COUNT 8 (NKRO_REPORT_BITS * 8), HID_RI_REPORT_SIZE 8 0x01,
       HID_RI_INPUT 8 [HID_IOF_DATA, HID_IOF_VARIABLE, HID_IOF_ABSOLUTE],
       HID_RI_USAGE_PAGE 8 0x08, HID_RI_USAGE_MINIMUM 8 0x01, HID_RI_USAGE_MAXIMUM 8 0x05,
       HID_RI_REPORT_COUNT 8 0x05, HID_RI_REPORT_SIZE 8 0x01,
       HID_RI_OUTPUT 8 [HID_IOF_DATA, HID_IOF_VARIABLE, HID_IOF_ABSOLUTE, HID_IOF_NON_VOLATILE],
       HID_RI_REPORT_COUNT 8 0x01, HID_RI_REPORT_SIZE 8 0x03, HID_RI_OUTPUT 8 [HID_IOF_CONSTANT],
     HID_RI_END_COLLECTION 0]"

definition SharedReport :: "hid_item list" where
  "SharedReport = keyboard_items @ mouse_items @ extrakey_items @ nkro_items"

definition RawReport :: "hid_item list" where
  "RawReport =
    [HID_RI_USAGE_PAGE 16 RAW_USAGE_PAGE, HID_RI_USAGE 8 RAW_USAGE_ID, HID_RI_COLLECTION 8 0x01,
       HID_RI_USAGE 8 0x62, HID_RI_LOGICAL_MINIMUM 8 0x00, HID_RI_LOGICAL_MAXIMUM 16 0x00FF,
       HID_RI_REPORT_COUNT 8 RAW_EPSIZE, HID_RI_REPORT_SIZE 8 0x08,
       HID_RI_INPUT 8 [HID_IOF_DATA, HID_IOF_VARIABLE, HID_IOF_ABSOLUTE],
       HID_RI_USAGE 8 0x63, HID_RI_LOGICAL_MINIMUM 8 0x00, HID_RI_LOGICAL_MAXIMUM 16 0x00FF,
       HID_RI_REPORT_COUNT 8 RAW_EPSIZE, HID_RI_REPORT_SIZE 8 0x08,
       HID_RI_OUTPUT 8 [HID_IOF_DATA, HID_IOF_VARIABLE, HID_IOF_ABSOLUTE, HID_IOF_NON_VOLATILE],
     HID_RI_END_COLLECTION 0]"

definition ConsoleReport :: "hid_item list" where
  "ConsoleReport =
    [HID_RI_USAGE_PAGE 16 0xFF31, HID_RI_USAGE 8 0x74, HID_RI_COLLECTION 8 0x01,
       HID_RI_USAGE 8 0x75, HID_RI_LOGICAL_MINIMUM 8 0x00, HID_RI_LOGICAL_MAXIMUM 16 0x00FF,
       HID_RI_REPORT_COUNT 8 CONSOLE_EPSIZE, HID_RI_REPORT_SIZE 8 0x08,
       HID_RI_INPUT 8 [HID_IOF_DATA, HID_IOF_VARIABLE, HID_IOF_ABSOLUTE],
     HID_RI_END_COLLECTION 0]"

subsection \<open>Packets\<close>

text \<open>The bytes of the packed structs; the 16-bit usage is stored low byte first.\<close>

definition keyboard_bytes :: "report_keyboard_t \<Rightarrow> bytes" where
  "keyboard_bytes r = rk_report_id r # rk_mods r # rk_reserved r # rk_keys r"

definition nkro_bytes :: "report_nkro_t \<Rightarrow> bytes" where
  "nkro_bytes r = rn_report_id r # rn_mods r # rn_bits r"

definition mouse_bytes :: "report_mouse_t \<Rightarrow> bytes" where
  "mouse_bytes r = [rm_report_id r, rm_buttons r, rm_x r, rm_y r, rm_v r, rm_h r]"

definition extra_bytes :: "report_extra_t \<Rightarrow> bytes" where
  "extra_bytes r = [re_report_id r, ucast (re_usage r), ucast (drop_bit 8 (re_usage r))]"

definition KEYBOARD_REPORT_SIZE :: nat where [hw_defs]: "KEYBOARD_REPORT_SIZE = 9"

text \<open>
  What \<^verbatim>\<open>send_report\<close> gets, all for the shared endpoint; \<open>boot\<close> is the boot protocol, in which the keyboard report starts at
  its modifiers. A delay sends nothing.
\<close>

fun packet_of :: "bool \<Rightarrow> host_report \<Rightarrow> bytes option" where
  "packet_of boot (Send_Keyboard r) =
     Some (if boot then slice 1 8 (keyboard_bytes r) else take KEYBOARD_REPORT_SIZE (keyboard_bytes r))"
| "packet_of boot (Send_Nkro r) = Some (nkro_bytes r)"
| "packet_of boot (Send_Mouse r) = Some (mouse_bytes r)"
| "packet_of boot (Send_Extra r) = Some (extra_bytes r)"
| "packet_of boot (Wait_Ms ms) = None"

section \<open>How a host reads a report\<close>

record hid_globals =
  g_page :: nat
  g_lmin :: int
  g_lmax :: int
  g_size :: nat
  g_count :: nat
  g_id :: u8

record hid_locals =
  l_usages :: "nat list"
  l_umin :: nat

record hid_field =
  f_globals :: hid_globals
  f_locals :: hid_locals
  f_flags :: "hid_iof list"

definition no_globals :: hid_globals where
  "no_globals = \<lparr>g_page = 0, g_lmin = 0, g_lmax = 0, g_size = 0, g_count = 0, g_id = 0\<rparr>"

definition no_locals :: hid_locals where "no_locals = \<lparr>l_usages = [], l_umin = 0\<rparr>"

text \<open>An item of \<open>w\<close> bits is a signed number.\<close>

definition item_value :: "nat \<Rightarrow> int \<Rightarrow> int" where
  "item_value w v = signed_take_bit (w - 1) v"

text \<open>Global items stay until they are changed, local items end with a main item. The fields of the input reports.\<close>

fun input_fields :: "hid_globals \<Rightarrow> hid_locals \<Rightarrow> hid_item list \<Rightarrow> hid_field list" where
  "input_fields g l [] = []"
| "input_fields g l (HID_RI_USAGE_PAGE w v # is) = input_fields (g\<lparr>g_page := v\<rparr>) l is"
| "input_fields g l (HID_RI_LOGICAL_MINIMUM w v # is) = input_fields (g\<lparr>g_lmin := item_value w v\<rparr>) l is"
| "input_fields g l (HID_RI_LOGICAL_MAXIMUM w v # is) = input_fields (g\<lparr>g_lmax := item_value w v\<rparr>) l is"
| "input_fields g l (HID_RI_REPORT_SIZE w v # is) = input_fields (g\<lparr>g_size := v\<rparr>) l is"
| "input_fields g l (HID_RI_REPORT_COUNT w v # is) = input_fields (g\<lparr>g_count := v\<rparr>) l is"
| "input_fields g l (HID_RI_REPORT_ID w v # is) = input_fields (g\<lparr>g_id := v\<rparr>) l is"
| "input_fields g l (HID_RI_USAGE w v # is) = input_fields g (l\<lparr>l_usages := l_usages l @ [v]\<rparr>) is"
| "input_fields g l (HID_RI_USAGE_MINIMUM w v # is) = input_fields g (l\<lparr>l_umin := v\<rparr>) is"
| "input_fields g l (HID_RI_USAGE_MAXIMUM w v # is) = input_fields g l is"
| "input_fields g l (HID_RI_INPUT w fs # is) = \<lparr>f_globals = g, f_locals = l, f_flags = fs\<rparr> # input_fields g no_locals is"
| "input_fields g l (HID_RI_OUTPUT w fs # is) = input_fields g no_locals is"
| "input_fields g l (HID_RI_COLLECTION w v # is) = input_fields g no_locals is"
| "input_fields g l (HID_RI_END_COLLECTION w # is) = input_fields g no_locals is"

definition report_fields :: "hid_item list \<Rightarrow> u8 \<Rightarrow> hid_field list" where
  "report_fields is i = filter (\<lambda>f. g_id (f_globals f) = i) (input_fields no_globals no_locals is)"

definition field_bits :: "hid_field \<Rightarrow> nat" where
  "field_bits f = g_size (f_globals f) * g_count (f_globals f)"

definition report_bits :: "hid_item list \<Rightarrow> u8 \<Rightarrow> nat" where
  "report_bits is i = sum_list (map field_bits (report_fields is i))"

text \<open>The number in \<open>n\<close> bits of the packet from bit \<open>o'\<close> on, the lowest bit first.\<close>

definition bits_at :: "bytes \<Rightarrow> nat \<Rightarrow> nat \<Rightarrow> int" where
  "bits_at p o' n = horner_sum of_bool 2 (map (\<lambda>j. bit (p ! ((o' + j) div 8)) ((o' + j) mod 8)) [0..<n])"

definition element :: "hid_globals \<Rightarrow> bytes \<Rightarrow> nat \<Rightarrow> nat \<Rightarrow> int" where
  "element g p o' k =
     (let v = bits_at p (o' + g_size g * k) (g_size g) in if g_lmin g < 0 then signed_take_bit (g_size g - 1) v else v)"

text \<open>The usage of the k-th element: the k-th of a list, the last one for those beyond, or counted from the minimum.\<close>

definition usage_of :: "hid_locals \<Rightarrow> nat \<Rightarrow> nat" where
  "usage_of l k = (if l_usages l = [] then l_umin l + k else l_usages l ! min k (length (l_usages l) - 1))"

text \<open>A control is a page, a usage and its value. An array holds the usages that are on.\<close>

type_synonym control = "nat \<times> nat \<times> int"

definition field_controls :: "hid_field \<Rightarrow> bytes \<Rightarrow> nat \<Rightarrow> control list" where
  "field_controls f p o' =
     (let g = f_globals f; l = f_locals f in
      if HID_IOF_CONSTANT \<in> set (f_flags f) then []
      else if HID_IOF_VARIABLE \<in> set (f_flags f) then map (\<lambda>k. (g_page g, usage_of l k, element g p o' k)) [0..<g_count g]
      else map (\<lambda>v. (g_page g, nat (int (l_umin l) + v - g_lmin g), 1))
        (filter (\<lambda>v. g_lmin g \<le> v \<and> v \<le> g_lmax g) (map (element g p o') [0..<g_count g])))"

fun read_fields :: "hid_field list \<Rightarrow> bytes \<Rightarrow> nat \<Rightarrow> control list" where
  "read_fields [] p o' = []"
| "read_fields (f # fs) p o' = field_controls f p o' @ read_fields fs p (o' + field_bits f)"

text \<open>The first byte is the report's number. The controls that are not zero; usage 0 of a page says that nothing is on.\<close>

definition host_reads :: "hid_item list \<Rightarrow> bytes \<Rightarrow> control set" where
  "host_reads is p = {(page, u, v). (page, u, v) \<in> set (read_fields (report_fields is (hd p)) p 8) \<and> v \<noteq> 0 \<and> u \<noteq> 0}"

text \<open>What a keyboard in the boot protocol means by its eight bytes (HID 1.11, appendix B.1).\<close>

definition boot_reads :: "bytes \<Rightarrow> u8 \<times> u8 set" where
  "boot_reads p = (p ! 0, set (slice 2 6 p) - {0})"

section \<open>The fields of the shared report descriptor\<close>

lemma shared_fields:
  "report_fields SharedReport REPORT_ID_KEYBOARD =
     [\<lparr>f_globals = \<lparr>g_page = 7, g_lmin = 0, g_lmax = 1, g_size = 1, g_count = 8, g_id = 1\<rparr>, f_locals = \<lparr>l_usages = [], l_umin = 0xE0\<rparr>,
        f_flags = [HID_IOF_DATA, HID_IOF_VARIABLE, HID_IOF_ABSOLUTE]\<rparr>,
      \<lparr>f_globals = \<lparr>g_page = 7, g_lmin = 0, g_lmax = 1, g_size = 8, g_count = 1, g_id = 1\<rparr>, f_locals = no_locals,
        f_flags = [HID_IOF_CONSTANT]\<rparr>,
      \<lparr>f_globals = \<lparr>g_page = 7, g_lmin = 0, g_lmax = 255, g_size = 8, g_count = 6, g_id = 1\<rparr>, f_locals = no_locals,
        f_flags = [HID_IOF_DATA, HID_IOF_ARRAY, HID_IOF_ABSOLUTE]\<rparr>]"
  "report_fields SharedReport REPORT_ID_MOUSE =
     [\<lparr>f_globals = \<lparr>g_page = 9, g_lmin = 0, g_lmax = 1, g_size = 1, g_count = 8, g_id = 2\<rparr>, f_locals = \<lparr>l_usages = [], l_umin = 1\<rparr>,
        f_flags = [HID_IOF_DATA, HID_IOF_VARIABLE, HID_IOF_ABSOLUTE]\<rparr>,
      \<lparr>f_globals = \<lparr>g_page = 1, g_lmin = - 127, g_lmax = 127, g_size = 8, g_count = 2, g_id = 2\<rparr>, f_locals = \<lparr>l_usages = [0x30, 0x31], l_umin = 0\<rparr>,
        f_flags = [HID_IOF_DATA, HID_IOF_VARIABLE, HID_IOF_RELATIVE]\<rparr>,
      \<lparr>f_globals = \<lparr>g_page = 1, g_lmin = - 127, g_lmax = 127, g_size = 8, g_count = 1, g_id = 2\<rparr>, f_locals = \<lparr>l_usages = [0x38], l_umin = 0\<rparr>,
        f_flags = [HID_IOF_DATA, HID_IOF_VARIABLE, HID_IOF_RELATIVE]\<rparr>,
      \<lparr>f_globals = \<lparr>g_page = 0xC, g_lmin = - 127, g_lmax = 127, g_size = 8, g_count = 1, g_id = 2\<rparr>, f_locals = \<lparr>l_usages = [0x238], l_umin = 0\<rparr>,
        f_flags = [HID_IOF_DATA, HID_IOF_VARIABLE, HID_IOF_RELATIVE]\<rparr>]"
  "report_fields SharedReport REPORT_ID_SYSTEM =
     [\<lparr>f_globals = \<lparr>g_page = 1, g_lmin = 1, g_lmax = 0xB7, g_size = 16, g_count = 1, g_id = 3\<rparr>, f_locals = \<lparr>l_usages = [], l_umin = 1\<rparr>,
        f_flags = [HID_IOF_DATA, HID_IOF_ARRAY, HID_IOF_ABSOLUTE]\<rparr>]"
  "report_fields SharedReport REPORT_ID_CONSUMER =
     [\<lparr>f_globals = \<lparr>g_page = 0xC, g_lmin = 1, g_lmax = 0x2A0, g_size = 16, g_count = 1, g_id = 4\<rparr>, f_locals = \<lparr>l_usages = [], l_umin = 1\<rparr>,
        f_flags = [HID_IOF_DATA, HID_IOF_ARRAY, HID_IOF_ABSOLUTE]\<rparr>]"
  "report_fields SharedReport REPORT_ID_NKRO =
     [\<lparr>f_globals = \<lparr>g_page = 7, g_lmin = 0, g_lmax = 1, g_size = 1, g_count = 8, g_id = 6\<rparr>, f_locals = \<lparr>l_usages = [], l_umin = 0xE0\<rparr>,
        f_flags = [HID_IOF_DATA, HID_IOF_VARIABLE, HID_IOF_ABSOLUTE]\<rparr>,
      \<lparr>f_globals = \<lparr>g_page = 7, g_lmin = 0, g_lmax = 1, g_size = 1, g_count = 240, g_id = 6\<rparr>, f_locals = no_locals,
        f_flags = [HID_IOF_DATA, HID_IOF_VARIABLE, HID_IOF_ABSOLUTE]\<rparr>]"
  by (simp_all add: report_fields_def SharedReport_def keyboard_items_def mouse_items_def extrakey_items_def nkro_items_def
      no_globals_def no_locals_def item_value_def hw_defs)

lemma shared_report_sizes:
  "report_bits SharedReport REPORT_ID_KEYBOARD = 64" "report_bits SharedReport REPORT_ID_MOUSE = 40"
  "report_bits SharedReport REPORT_ID_SYSTEM = 16" "report_bits SharedReport REPORT_ID_CONSUMER = 16"
  "report_bits SharedReport REPORT_ID_NKRO = 248"
  by (simp_all add: report_bits_def shared_fields field_bits_def)

section \<open>Reading single elements\<close>

lemma bits_at_1: "bits_at p o' (Suc 0) = of_bool (bit (p ! (o' div 8)) (o' mod 8))"
  by (simp add: bits_at_def)

lemma bits_at_8: "bits_at p (8 * i) 8 = uint (p ! i)"
proof -
  have "map (\<lambda>j. bit (p ! ((8 * i + j) div 8)) ((8 * i + j) mod 8)) [0..<8] = map (bit (uint (p ! i))) [0..<8]"
    by (rule map_cong) (auto simp: bit_uint_iff)
  then have "bits_at p (8 * i) 8 = take_bit 8 (uint (p ! i))"
    unfolding bits_at_def by (simp only: horner_sum_bit_eq_take_bit)
  also have "\<dots> = uint (p ! i)" using unsigned_less [of "p ! i", where 'a = int] by (simp add: take_bit_int_eq_self)
  finally show ?thesis .
qed

lemma bits_at_16: "bits_at p (8 * i) 16 = uint (p ! i) + 256 * uint (p ! Suc i)"
proof -
  let ?b = "\<lambda>i j. bit (p ! ((8 * i + j) div 8)) ((8 * i + j) mod 8)"
  have "[0..<16] = [0..<8] @ map (\<lambda>j. j + 8) [0..<8]" by (simp add: upt_rec)
  then have "bits_at p (8 * i) 16 = bits_at p (8 * i) 8 + 2 ^ 8 * horner_sum of_bool 2 (map (\<lambda>j. ?b i (j + 8)) [0..<8])"
    unfolding bits_at_def by (simp add: horner_sum_append comp_def)
  also have "map (\<lambda>j. ?b i (j + 8)) [0..<8] = map (?b (Suc i)) [0..<8]" by (rule map_cong) (simp_all add: algebra_simps)
  also have "horner_sum of_bool 2 (map (?b (Suc i)) [0..<8]) = bits_at p (8 * Suc i) 8" by (simp only: bits_at_def)
  finally show ?thesis unfolding bits_at_8 by simp
qed

lemma signed_8: "signed_take_bit 7 (uint (b :: u8)) = sint b"
  by (simp add: sint_uint)

lemma range_bits: "(\<exists>k<8. P k \<and> bit (b :: u8) k) \<longleftrightarrow> (\<exists>k. P k \<and> bit b k)"
  using bit_imp_le_length [of b] by auto

section \<open>Reading whole reports\<close>

lemma read_keyboard:
  assumes "length (rk_keys r) = KEYBOARD_REPORT_KEYS"
  shows "read_fields (report_fields SharedReport REPORT_ID_KEYBOARD) (keyboard_bytes r) 8
    = map (\<lambda>k. (7, 0xE0 + k, of_bool (bit (rk_mods r) k))) [0..<8] @ map (\<lambda>k. (7, unat k, 1)) (rk_keys r)"
proof -
  let ?p = "keyboard_bytes r"
  have m: "element \<lparr>g_page = 7, g_lmin = 0, g_lmax = 1, g_size = Suc 0, g_count = 8, g_id = i\<rparr> ?p 8 k = of_bool (bit (rk_mods r) k)"
    if "k < 8" for i k using that by (simp add: element_def bits_at_1 keyboard_bytes_def)
  have "element \<lparr>g_page = 7, g_lmin = 0, g_lmax = 255, g_size = 8, g_count = 6, g_id = i\<rparr> ?p 24 k = uint (rk_keys r ! k)" for i k
    using bits_at_8 [of ?p "3 + k"] by (simp add: element_def keyboard_bytes_def)
  then have k: "map (element \<lparr>g_page = 7, g_lmin = 0, g_lmax = 255, g_size = 8, g_count = 6, g_id = i\<rparr> ?p 24) [0..<6] = map uint (rk_keys r)" for i
    using assms by (intro nth_equalityI) (simp_all add: hw_defs)
  have "0 \<le> uint b \<and> uint b \<le> 255" for b :: u8 using unsigned_less [of b, where 'a = int] by simp
  then have f: "filter (\<lambda>v. 0 \<le> v \<and> v \<le> 255) (map uint (xs :: bytes)) = map uint xs" for xs by (simp add: filter_id_conv)
  show ?thesis
    by (simp add: shared_fields field_controls_def field_bits_def no_locals_def usage_of_def m k f comp_def cong: map_cong)
qed

lemma read_nkro:
  assumes "length (rn_bits r) = NKRO_REPORT_BITS"
  shows "read_fields (report_fields SharedReport REPORT_ID_NKRO) (nkro_bytes r) 8
    = map (\<lambda>k. (7, 0xE0 + k, of_bool (bit (rn_mods r) k))) [0..<8]
      @ map (\<lambda>k. (7, k, of_bool (bit (rn_bits r ! (k div 8)) (k mod 8)))) [0..<NKRO_REPORT_BITS * 8]"
proof -
  let ?p = "nkro_bytes r"
  have m: "element \<lparr>g_page = 7, g_lmin = 0, g_lmax = 1, g_size = Suc 0, g_count = c, g_id = i\<rparr> ?p 8 k = of_bool (bit (rn_mods r) k)"
    if "k < 8" for c i k using that by (simp add: element_def bits_at_1 nkro_bytes_def)
  have k: "element \<lparr>g_page = 7, g_lmin = 0, g_lmax = 1, g_size = Suc 0, g_count = c, g_id = i\<rparr> ?p 16 k
      = of_bool (bit (rn_bits r ! (k div 8)) (k mod 8))" for c i k
  proof -
    have "(16 + k) div 8 = Suc (Suc (k div 8))" "(16 + k) mod 8 = k mod 8" by presburger+
    then show ?thesis by (simp add: element_def bits_at_1 nkro_bytes_def)
  qed
  show ?thesis
    by (simp add: shared_fields field_controls_def field_bits_def no_locals_def usage_of_def m k NKRO_REPORT_BITS_def cong: map_cong)
qed

lemma read_mouse:
  "read_fields (report_fields SharedReport REPORT_ID_MOUSE) (mouse_bytes r) 8
    = map (\<lambda>k. (9, Suc k, of_bool (bit (rm_buttons r) k))) [0..<8]
      @ [(1, 0x30, sint (rm_x r)), (1, 0x31, sint (rm_y r)), (1, 0x38, sint (rm_v r)), (0xC, 0x238, sint (rm_h r))]"
proof -
  let ?p = "mouse_bytes r"
  have m: "element \<lparr>g_page = 9, g_lmin = 0, g_lmax = 1, g_size = Suc 0, g_count = c, g_id = i\<rparr> ?p 8 k = of_bool (bit (rm_buttons r) k)"
    if "k < 8" for c i k using that by (simp add: element_def bits_at_1 mouse_bytes_def)
  have x: "element \<lparr>g_page = pg, g_lmin = - 127, g_lmax = 127, g_size = 8, g_count = c, g_id = i\<rparr> ?p (8 * j) k = sint (?p ! (j + k))"
    for pg c i j k using bits_at_8 [of ?p "j + k"] by (simp add: element_def signed_8)
  note x' = x [where j = 2, simplified] x [where j = 4, simplified] x [where j = 5, simplified]
  have two: "[0..<2] = [0, Suc 0]" by (simp add: upt_rec)
  show ?thesis
    by (simp add: shared_fields field_controls_def field_bits_def usage_of_def m x' two numeral_2_eq_2 cong: map_cong)
      (simp add: mouse_bytes_def)
qed

lemma read_extra:
  assumes "i \<in> {REPORT_ID_SYSTEM, REPORT_ID_CONSUMER}" "re_usage r = 0 \<or> uint (re_usage r) \<in> {1..(if i = REPORT_ID_SYSTEM then 0xB7 else 0x2A0)}"
  shows "read_fields (report_fields SharedReport i) (extra_bytes r) 8
    = (if re_usage r = 0 then [] else [(if i = REPORT_ID_SYSTEM then 1 else 0xC, unat (re_usage r), 1)])"
proof -
  have w: "uint (ucast w :: u8) + 256 * uint (ucast (drop_bit 8 w) :: u8) = uint w" for w :: u16
  proof -
    have "uint (ucast w :: u8) = uint w mod 256" by (simp add: unsigned_ucast_eq take_bit_eq_mod)
    moreover have "uint (ucast (drop_bit 8 w) :: u8) = uint w div 256"
    proof -
      have "uint w div 256 < 256" "0 \<le> uint w div 256" using unsigned_less [of w, where 'a = int] by (simp_all add: pos_imp_zdiv_nonneg_iff)
      then show ?thesis by (simp add: unsigned_ucast_eq take_bit_eq_mod drop_bit_eq_div uint_div_distrib)
    qed
    ultimately show ?thesis by simp
  qed
  have v: "element \<lparr>g_page = pg, g_lmin = 1, g_lmax = mx, g_size = 16, g_count = c, g_id = j\<rparr> (extra_bytes r) 8 0 = uint (re_usage r)" for pg mx c j
    using bits_at_16 [of "extra_bytes r" 1] by (simp add: element_def extra_bytes_def w)
  have one: "[0..<Suc 0] = [0]" by simp
  have "uint (re_usage r) = 0 \<longleftrightarrow> re_usage r = 0" by (simp add: uint_0_iff)
  then show ?thesis using assms
    by (auto simp: shared_fields(3) [unfolded REPORT_ID_SYSTEM_def] shared_fields(4) [unfolded REPORT_ID_CONSUMER_def]
        field_controls_def Let_def v one nat_uint_eq REPORT_ID_SYSTEM_def REPORT_ID_CONSUMER_def)
qed

text \<open>What the host reads is what the report holds.\<close>

lemma mod_controls:
  "{(pg, u, v). (pg, u, v) \<in> set (map (\<lambda>k. (a, n + k, of_bool (bit (b :: u8) k) :: int)) [0..<8]) \<and> v \<noteq> 0 \<and> u \<noteq> 0}
    = {(a, n + k, 1) | k. bit b k}" if "0 < n"
  using that bit_imp_le_length [of b] by (auto simp: image_iff)

lemma host_reads_append:
  "read_fields (report_fields is (hd p)) p 8 = xs @ ys \<Longrightarrow>
   host_reads is p = {(pg, u, v). (pg, u, v) \<in> set xs \<and> v \<noteq> 0 \<and> u \<noteq> 0} \<union> {(pg, u, v). (pg, u, v) \<in> set ys \<and> v \<noteq> 0 \<and> u \<noteq> 0}"
  by (auto simp: host_reads_def)

lemma host_reads_keyboard:
  assumes "length (rk_keys r) = KEYBOARD_REPORT_KEYS" "rk_report_id r = REPORT_ID_KEYBOARD"
  shows "host_reads SharedReport (keyboard_bytes r)
    = {(7, 0xE0 + k, 1) | k. bit (rk_mods r) k} \<union> {(7, unat k, 1) | k. k \<in> keys6 r}"
proof -
  have hd: "hd (keyboard_bytes r) = REPORT_ID_KEYBOARD" by (simp add: keyboard_bytes_def assms(2))
  have "{(pg, u, v). (pg, u, v) \<in> set (map (\<lambda>k. (7 :: nat, unat k, 1 :: int)) (rk_keys r)) \<and> v \<noteq> 0 \<and> u \<noteq> 0}
    = {(7, unat k, 1) | k. k \<in> keys6 r}" by (auto simp: keys6_def unat_gt_0)
  then show ?thesis
    unfolding host_reads_append [OF read_keyboard [OF assms(1), folded hd]] by (simp only: mod_controls zero_less_numeral)
qed

lemma host_reads_nkro:
  assumes "length (rn_bits r) = NKRO_REPORT_BITS" "rn_report_id r = REPORT_ID_NKRO"
  shows "host_reads SharedReport (nkro_bytes r)
    = {(7, 0xE0 + k, 1) | k. bit (rn_mods r) k} \<union> {(7, unat k, 1) | k. k \<in> keys_nkro r - {0}}"
proof -
  have hd: "hd (nkro_bytes r) = REPORT_ID_NKRO" by (simp add: nkro_bytes_def assms(2))
  have "\<exists>w :: u8. unat w = k" if "k < 240" for k using that by (intro exI [of _ "word_of_nat k"]) (simp add: unat_of_nat)
  then have "{(pg, u, v). (pg, u, v) \<in> set (map (\<lambda>k. (7 :: nat, k, of_bool (bit (rn_bits r ! (k div 8)) (k mod 8)) :: int)) [0..<NKRO_REPORT_BITS * 8])
        \<and> v \<noteq> 0 \<and> u \<noteq> 0} = {(7, unat k, 1) | k. k \<in> keys_nkro r - {0}}"
    by (fastforce simp: keys_nkro_def image_iff unat_gt_0 NKRO_REPORT_BITS_def less_mult_imp_div_less)
  then show ?thesis
    unfolding host_reads_append [OF read_nkro [OF assms(1), folded hd]] by (simp only: mod_controls zero_less_numeral)
qed

lemma host_reads_mouse:
  assumes "rm_report_id r = REPORT_ID_MOUSE"
  shows "host_reads SharedReport (mouse_bytes r)
    = {(9, Suc k, 1) | k. bit (rm_buttons r) k}
      \<union> {c \<in> {(1, 0x30, sint (rm_x r)), (1, 0x31, sint (rm_y r)), (1, 0x38, sint (rm_v r)), (0xC, 0x238, sint (rm_h r))}. snd (snd c) \<noteq> 0}"
proof -
  have hd: "hd (mouse_bytes r) = REPORT_ID_MOUSE" by (simp add: mouse_bytes_def assms)
  show ?thesis
    unfolding host_reads_append [OF read_mouse [of r, folded hd]] using mod_controls [of 1 9 "rm_buttons r"] by auto
qed

lemma host_reads_extra:
  assumes "re_report_id r \<in> {REPORT_ID_SYSTEM, REPORT_ID_CONSUMER}"
    "re_usage r = 0 \<or> uint (re_usage r) \<in> {1..(if re_report_id r = REPORT_ID_SYSTEM then 0xB7 else 0x2A0)}"
  shows "host_reads SharedReport (extra_bytes r)
    = (if re_usage r = 0 then {} else {(if re_report_id r = REPORT_ID_SYSTEM then 1 else 0xC, unat (re_usage r), 1)})"
proof -
  have hd: "hd (extra_bytes r) = re_report_id r" by (simp add: extra_bytes_def)
  show ?thesis unfolding host_reads_def hd read_extra [OF assms] by (auto simp: unat_gt_0 unat_eq_zero)
qed

end
