(* ===== verification/Usb_Reports.thy ===== *)
theory Usb_Reports
  imports Usb_Descriptor
begin

text \<open>
  The reports the device keeps for the host, \<^verbatim>\<open>tmk_core/protocol/chibios/usb_report_handling.c\<close>: what was sent last on every
  endpoint, one report per report number on the shared one, and the idle rate after which it is sent again.
  The time, ChibiOS' 32-bit tick counter, is an argument.
\<close>

section \<open>Model\<close>

definition REPORT_ID_COUNT :: nat where [hw_defs]: "REPORT_ID_COUNT = 8"

record usb_fs_report_t =
  fs_idle_rate :: u32
  fs_last_report :: u32
  fs_data :: bytes
  fs_length :: nat

text \<open>\<^verbatim>\<open>usb_fs_report_t **reports\<close>: an array of pointers, some of them \<^verbatim>\<open>NULL\<close>.\<close>

type_synonym reports = "usb_fs_report_t option list"

definition storage_entry :: "u8 \<Rightarrow> nat \<Rightarrow> usb_fs_report_t" where
  "storage_entry report_id report_size =
     \<lparr>fs_idle_rate = 0, fs_last_report = 0, fs_data = (replicate 64 0)[0 := report_id], fs_length = report_size\<rparr>"

definition fs_store :: "u32 \<Rightarrow> bytes \<Rightarrow> usb_fs_report_t \<Rightarrow> usb_fs_report_t" where
  "fs_store now data r = r\<lparr>fs_last_report := now, fs_length := length data, fs_data := blit 0 data (fs_data r)\<rparr>"

definition fs_clear :: "usb_fs_report_t \<Rightarrow> usb_fs_report_t" where
  "fs_clear r = r\<lparr>fs_data := blit 0 (replicate (fs_length r) 0) (fs_data r), fs_idle_rate := 0, fs_last_report := 0\<rparr>"

text \<open>The copy into the caller's report; its other fields stay.\<close>

definition fs_fetch :: "usb_fs_report_t \<Rightarrow> usb_fs_report_t \<Rightarrow> usb_fs_report_t" where
  "fs_fetch r report = report\<lparr>fs_length := fs_length r, fs_data := blit 0 (take (fs_length r) (fs_data r)) (fs_data report)\<rparr>"

subsection \<open>An endpoint with one report\<close>

definition usb_set_report :: "u32 \<Rightarrow> bytes \<Rightarrow> reports \<Rightarrow> reports" where
  "usb_set_report now data reports =
     (case reports ! 0 of None \<Rightarrow> reports | Some r \<Rightarrow> reports[0 := Some (fs_store now data r)])"

definition usb_get_report :: "reports \<Rightarrow> u8 \<Rightarrow> usb_fs_report_t \<Rightarrow> usb_fs_report_t" where
  "usb_get_report reports report_id report = (case reports ! 0 of None \<Rightarrow> report | Some r \<Rightarrow> fs_fetch r report)"

definition usb_reset_report :: "reports \<Rightarrow> reports" where
  "usb_reset_report reports = (case reports ! 0 of None \<Rightarrow> reports | Some r \<Rightarrow> reports[0 := Some (fs_clear r)])"

text \<open>The idle rate comes in units of 4 ms. The second result is the value \<^verbatim>\<open>run_idle_task\<close> is or'ed with.\<close>

definition usb_set_idle_rate :: "reports \<Rightarrow> u8 \<Rightarrow> u8 \<Rightarrow> reports \<times> bool" where
  "usb_set_idle_rate reports report_id idle_rate =
     (case reports ! 0 of None \<Rightarrow> (reports, False)
      | Some r \<Rightarrow> (reports[0 := Some (r\<lparr>fs_idle_rate := ucast idle_rate * 4\<rparr>)], idle_rate \<noteq> 0))"

definition usb_get_idle_rate :: "reports \<Rightarrow> u8 \<Rightarrow> u8" where
  "usb_get_idle_rate reports report_id = (case reports ! 0 of None \<Rightarrow> 0 | Some r \<Rightarrow> ucast (fs_idle_rate r div 4))"

definition idle_elapsed :: "(u32 \<Rightarrow> u32) \<Rightarrow> u32 \<Rightarrow> usb_fs_report_t \<Rightarrow> bool" where
  "idle_elapsed i2ms now r \<longleftrightarrow> fs_idle_rate r \<noteq> 0 \<and> i2ms (now - fs_last_report r) \<ge> fs_idle_rate r"

definition usb_idle_timer_elapsed :: "(u32 \<Rightarrow> u32) \<Rightarrow> u32 \<Rightarrow> reports \<Rightarrow> u8 \<Rightarrow> bool" where
  "usb_idle_timer_elapsed i2ms now reports report_id = (case reports ! 0 of None \<Rightarrow> False | Some r \<Rightarrow> idle_elapsed i2ms now r)"

subsection \<open>The shared endpoint\<close>

definition shared_report :: "reports \<Rightarrow> u8 \<Rightarrow> usb_fs_report_t option" where
  "shared_report reports report_id = (if unat report_id > REPORT_ID_COUNT then None else reports ! unat report_id)"

definition usb_shared_set_report :: "u32 \<Rightarrow> bytes \<Rightarrow> reports \<Rightarrow> reports" where
  "usb_shared_set_report now data reports =
     (case shared_report reports (data ! 0) of None \<Rightarrow> reports
      | Some r \<Rightarrow> reports[unat (data ! 0) := Some (fs_store now data r)])"

definition usb_shared_get_report :: "reports \<Rightarrow> u8 \<Rightarrow> usb_fs_report_t \<Rightarrow> usb_fs_report_t" where
  "usb_shared_get_report reports report_id report =
     (case shared_report reports report_id of None \<Rightarrow> report | Some r \<Rightarrow> fs_fetch r report)"

definition usb_shared_reset_report :: "reports \<Rightarrow> reports" where
  "usb_shared_reset_report reports =
     fold (\<lambda>i reports. case reports ! i of None \<Rightarrow> reports | Some r \<Rightarrow> reports[i := Some (fs_clear r)]) [0..<Suc REPORT_ID_COUNT] reports"

definition usb_shared_set_idle_rate :: "reports \<Rightarrow> u8 \<Rightarrow> u8 \<Rightarrow> reports \<times> bool" where
  "usb_shared_set_idle_rate reports report_id idle_rate =
     (if report_id = 0 then (reports, False)
      else case shared_report reports report_id of None \<Rightarrow> (reports, False)
           | Some r \<Rightarrow> (reports[unat report_id := Some (r\<lparr>fs_idle_rate := ucast idle_rate * 4\<rparr>)], idle_rate \<noteq> 0))"

definition usb_shared_get_idle_rate :: "reports \<Rightarrow> u8 \<Rightarrow> u8" where
  "usb_shared_get_idle_rate reports report_id =
     (case shared_report reports report_id of None \<Rightarrow> 0 | Some r \<Rightarrow> ucast (fs_idle_rate r div 4))"

definition usb_shared_idle_timer_elapsed :: "(u32 \<Rightarrow> u32) \<Rightarrow> u32 \<Rightarrow> reports \<Rightarrow> u8 \<Rightarrow> bool" where
  "usb_shared_idle_timer_elapsed i2ms now reports report_id =
     (case shared_report reports report_id of None \<Rightarrow> False | Some r \<Rightarrow> idle_elapsed i2ms now r)"

subsection \<open>The endpoints of this keyboard\<close>

text \<open>
  \<^verbatim>\<open>usb_endpoints.c\<close>: the shared endpoint, the console and raw HID, and the table from interface to endpoint. The code
  keeps function pointers with every storage (\<^verbatim>\<open>usb_report_storage_t\<close>); here a storage says which of the two sets
  of functions it has.
\<close>

datatype in_endpoint = USB_ENDPOINT_IN_SHARED | USB_ENDPOINT_IN_CONSOLE | USB_ENDPOINT_IN_RAW

definition all_in_endpoints :: "in_endpoint list" where
  "all_in_endpoints = [USB_ENDPOINT_IN_SHARED, USB_ENDPOINT_IN_CONSOLE, USB_ENDPOINT_IN_RAW]"

definition TOTAL_INTERFACES :: nat where [hw_defs]: "TOTAL_INTERFACES = 3"
definition KEYBOARD_INTERFACE :: u16 where [hw_defs]: "KEYBOARD_INTERFACE = 0"
definition RAW_INTERFACE :: u16 where [hw_defs]: "RAW_INTERFACE = 1"
definition CONSOLE_INTERFACE :: u16 where [hw_defs]: "CONSOLE_INTERFACE = 2"

definition usb_endpoint_interface_lut :: "in_endpoint list" where
  "usb_endpoint_interface_lut = [USB_ENDPOINT_IN_SHARED, USB_ENDPOINT_IN_RAW, USB_ENDPOINT_IN_CONSOLE]"

definition SIZEOF_MOUSE :: nat where [hw_defs]: "SIZEOF_MOUSE = 6"
definition SIZEOF_EXTRA :: nat where [hw_defs]: "SIZEOF_EXTRA = 3"
definition SIZEOF_NKRO :: nat where [hw_defs]: "SIZEOF_NKRO = 2 + NKRO_REPORT_BITS"

definition report_storage_init :: "in_endpoint \<Rightarrow> reports" where
  "report_storage_init ep =
     (case ep of
        USB_ENDPOINT_IN_SHARED \<Rightarrow>
          (replicate (REPORT_ID_COUNT + 1) None)
            [unat REPORT_ID_KEYBOARD := Some (storage_entry REPORT_ID_KEYBOARD KEYBOARD_REPORT_SIZE),
             unat REPORT_ID_MOUSE := Some (storage_entry REPORT_ID_MOUSE SIZEOF_MOUSE),
             unat REPORT_ID_SYSTEM := Some (storage_entry REPORT_ID_SYSTEM SIZEOF_EXTRA),
             unat REPORT_ID_CONSUMER := Some (storage_entry REPORT_ID_CONSUMER SIZEOF_EXTRA),
             unat REPORT_ID_NKRO := Some (storage_entry REPORT_ID_NKRO SIZEOF_NKRO)]
      | USB_ENDPOINT_IN_CONSOLE \<Rightarrow> [Some (storage_entry 0 CONSOLE_EPSIZE)]
      | USB_ENDPOINT_IN_RAW \<Rightarrow> [Some (storage_entry 0 RAW_EPSIZE)])"

definition ep_set_report :: "in_endpoint \<Rightarrow> u32 \<Rightarrow> bytes \<Rightarrow> reports \<Rightarrow> reports" where
  "ep_set_report ep = (if ep = USB_ENDPOINT_IN_SHARED then usb_shared_set_report else usb_set_report)"

definition ep_get_report :: "in_endpoint \<Rightarrow> reports \<Rightarrow> u8 \<Rightarrow> usb_fs_report_t \<Rightarrow> usb_fs_report_t" where
  "ep_get_report ep = (if ep = USB_ENDPOINT_IN_SHARED then usb_shared_get_report else usb_get_report)"

definition ep_reset_report :: "in_endpoint \<Rightarrow> reports \<Rightarrow> reports" where
  "ep_reset_report ep = (if ep = USB_ENDPOINT_IN_SHARED then usb_shared_reset_report else usb_reset_report)"

definition ep_set_idle :: "in_endpoint \<Rightarrow> reports \<Rightarrow> u8 \<Rightarrow> u8 \<Rightarrow> reports \<times> bool" where
  "ep_set_idle ep = (if ep = USB_ENDPOINT_IN_SHARED then usb_shared_set_idle_rate else usb_set_idle_rate)"

definition ep_get_idle :: "in_endpoint \<Rightarrow> reports \<Rightarrow> u8 \<Rightarrow> u8" where
  "ep_get_idle ep = (if ep = USB_ENDPOINT_IN_SHARED then usb_shared_get_idle_rate else usb_get_idle_rate)"

definition ep_idle_elapsed :: "in_endpoint \<Rightarrow> (u32 \<Rightarrow> u32) \<Rightarrow> u32 \<Rightarrow> reports \<Rightarrow> u8 \<Rightarrow> bool" where
  "ep_idle_elapsed ep = (if ep = USB_ENDPOINT_IN_SHARED then usb_shared_idle_timer_elapsed else usb_idle_timer_elapsed)"

section \<open>The kept reports\<close>

text \<open>Shape: the arrays keep their size and every report its 64 bytes.\<close>

definition slot_ok :: "usb_fs_report_t \<Rightarrow> bool" where
  "slot_ok r \<longleftrightarrow> length (fs_data r) = 64 \<and> fs_length r \<le> 64"

definition reports_ok :: "in_endpoint \<Rightarrow> reports \<Rightarrow> bool" where
  "reports_ok ep rs \<longleftrightarrow> length rs = (if ep = USB_ENDPOINT_IN_SHARED then Suc REPORT_ID_COUNT else 1) \<and> (\<forall>r\<in>set rs. pred_option slot_ok r)"

text \<open>The report kept under a number; endpoints with one report ignore it.\<close>

definition kept :: "in_endpoint \<Rightarrow> reports \<Rightarrow> u8 \<Rightarrow> usb_fs_report_t option" where
  "kept ep rs i = (if ep = USB_ENDPOINT_IN_SHARED then shared_report rs i else rs ! 0)"

definition kept_bytes :: "usb_fs_report_t \<Rightarrow> bytes" where
  "kept_bytes r = take (fs_length r) (fs_data r)"

lemma reports_ok_update: "reports_ok ep rs \<Longrightarrow> slot_ok r \<Longrightarrow> reports_ok ep (rs[i := Some r])"
  using set_update_subset_insert [of rs i "Some r"] by (auto simp: reports_ok_def)

lemma slot_ok_entry: "n \<le> 64 \<Longrightarrow> slot_ok (storage_entry i n)"
  by (simp add: storage_entry_def slot_ok_def)

lemma reports_ok_init: "reports_ok ep (report_storage_init ep)"
proof (cases ep)
  case USB_ENDPOINT_IN_SHARED
  have "reports_ok USB_ENDPOINT_IN_SHARED (replicate (REPORT_ID_COUNT + 1) None)" by (simp add: reports_ok_def)
  then show ?thesis unfolding USB_ENDPOINT_IN_SHARED report_storage_init_def in_endpoint.case
    by (intro reports_ok_update slot_ok_entry) (simp_all add: hw_defs)
qed (simp_all add: reports_ok_def report_storage_init_def slot_ok_entry hw_defs)

lemma kept_ok: "reports_ok ep rs \<Longrightarrow> kept ep rs i = Some r \<Longrightarrow> slot_ok r"
proof -
  assume ok: "reports_ok ep rs" and r: "kept ep rs i = Some r"
  have "Some r \<in> set rs"
    using ok r by (auto simp: kept_def reports_ok_def shared_report_def hw_defs split: if_splits intro!: nth_mem
        dest!: sym [of _ "Some r"])
  then show "slot_ok r" using ok by (force simp: reports_ok_def)
qed

lemma slot_ok_store: "slot_ok r \<Longrightarrow> length data \<le> 64 \<Longrightarrow> slot_ok (fs_store now data r)"
  by (simp add: slot_ok_def fs_store_def)

lemma slot_ok_clear: "slot_ok r \<Longrightarrow> slot_ok (fs_clear r)"
  by (simp add: slot_ok_def fs_clear_def)

lemma kept_store:
  assumes "slot_ok r" "length data \<le> 64"
  shows "kept_bytes (fs_store now data r) = data" "fs_idle_rate (fs_store now data r) = fs_idle_rate r"
    "fs_last_report (fs_store now data r) = now"
  using assms by (simp_all add: kept_bytes_def fs_store_def blit_def slot_ok_def)

lemma fetch_bytes: "slot_ok r \<Longrightarrow> slot_ok b \<Longrightarrow> kept_bytes (fs_fetch r b) = kept_bytes r \<and> slot_ok (fs_fetch r b)"
  by (simp add: kept_bytes_def fs_fetch_def blit_def slot_ok_def)

text \<open>Storing a report, for both kinds of endpoint.\<close>

definition slot_of :: "in_endpoint \<Rightarrow> bytes \<Rightarrow> u8 \<Rightarrow> bool" where
  "slot_of ep data i \<longleftrightarrow> ep \<noteq> USB_ENDPOINT_IN_SHARED \<or> i = data ! 0"

lemma ep_set_report_ok:
  assumes "reports_ok ep rs" "length data \<le> 64"
  shows "reports_ok ep (ep_set_report ep now data rs)"
    and "kept ep (ep_set_report ep now data rs) i =
      (if slot_of ep data i then map_option (fs_store now data) (kept ep rs i) else kept ep rs i)"
proof -
  have k: "kept ep rs j = Some r \<Longrightarrow> slot_ok (fs_store now data r)" for j r
    using kept_ok [OF assms(1)] slot_ok_store assms(2) by blast
  show "reports_ok ep (ep_set_report ep now data rs)"
    using assms(1) k [of "data ! 0"]
    by (auto simp: ep_set_report_def usb_set_report_def usb_shared_set_report_def kept_def split: option.splits if_splits
        intro!: reports_ok_update)
  show "kept ep (ep_set_report ep now data rs) i =
      (if slot_of ep data i then map_option (fs_store now data) (kept ep rs i) else kept ep rs i)"
    using assms(1)
    by (auto simp: ep_set_report_def usb_set_report_def usb_shared_set_report_def kept_def slot_of_def reports_ok_def
        shared_report_def hw_defs nth_list_update word_unat_eq_iff split: option.splits)
qed

lemma ep_get_report_eq: "ep_get_report ep rs i b = (case kept ep rs i of None \<Rightarrow> b | Some r \<Rightarrow> fs_fetch r b)"
  by (simp add: ep_get_report_def kept_def usb_get_report_def usb_shared_get_report_def)

lemma ep_get_idle_eq: "ep_get_idle ep rs i = (case kept ep rs i of None \<Rightarrow> 0 | Some r \<Rightarrow> ucast (fs_idle_rate r div 4))"
  by (simp add: ep_get_idle_def kept_def usb_get_idle_rate_def usb_shared_get_idle_rate_def)

lemma ep_idle_elapsed_eq: "ep_idle_elapsed ep i2ms now rs i = (case kept ep rs i of None \<Rightarrow> False | Some r \<Rightarrow> idle_elapsed i2ms now r)"
  by (simp add: ep_idle_elapsed_def kept_def usb_idle_timer_elapsed_def usb_shared_idle_timer_elapsed_def)

text \<open>An idle rate survives its conversion to milliseconds and back.\<close>

lemma idle_rate_units: "ucast ((ucast (v :: u8) * 4 :: u32) div 4) = v"
proof -
  have v: "unat v < 256" using unsigned_less [of v, where 'a = nat] by simp
  have "take_bit 32 (unat v) = unat v" by (rule take_bit_nat_eq_self [OF less_trans [OF v]]) simp
  moreover have "unat v * 4 < 4294967296" using v by linarith
  ultimately have "unat (ucast v * 4 :: u32) = unat v * 4" by (simp add: unat_word_ariths unsigned_ucast_eq)
  then have "unat ((ucast v * 4 :: u32) div 4) = unat v" by (simp add: unat_div)
  then have "word_of_nat (unat ((ucast v * 4 :: u32) div 4)) = (word_of_nat (unat v) :: u8)" by simp
  then show ?thesis by (simp only: of_nat_unat ucast_id)
qed

end
