(* ===== verification/Usb_Endpoint.thy ===== *)
theory Usb_Endpoint
  imports Usb_Reports "HOL-Library.Sublist"
begin

text \<open>
  An IN endpoint of \<^verbatim>\<open>tmk_core/protocol/chibios/usb_driver.c\<close>: reports are queued, the head of the queue is being sent, and
  when the host has taken it, it is kept for GET_REPORT and the next one starts. The queue is one of ChibiOS' buffers
  queues, a parameter (\<open>bq_api\<close>, whose \<^verbatim>\<open>ibq\<close> operations are those of the OUT endpoint); the locale \<open>output_queue\<close> states its documented behaviour for writes that fit a
  buffer. The buffered form of \<^verbatim>\<open>usb_endpoint_in_send\<close>, which only the console uses, is left out.
\<close>

section \<open>Model\<close>

datatype timeout = TIME_IMMEDIATE | TIME_INFINITE | TIME_MS2I nat

record 'q bq_api =
  obqIsEmptyI :: "'q \<Rightarrow> bool"
  obqGetFullBufferI :: "'q \<Rightarrow> bytes option"
  obqReleaseEmptyBufferI :: "'q \<Rightarrow> 'q"
  obqWriteTimeout :: "bytes \<Rightarrow> timeout \<Rightarrow> 'q \<Rightarrow> nat \<times> 'q"
  obqFlush :: "'q \<Rightarrow> 'q"
  obqResetI :: "'q \<Rightarrow> 'q"
  bqSuspendI :: "'q \<Rightarrow> 'q"
  bqResumeX :: "'q \<Rightarrow> 'q"
  ibqGetEmptyBufferI :: "'q \<Rightarrow> bool"
  ibqPostFullBufferI :: "bytes \<Rightarrow> 'q \<Rightarrow> 'q"
  ibqReadTimeout :: "nat \<Rightarrow> timeout \<Rightarrow> 'q \<Rightarrow> bytes \<times> bool \<times> 'q"
  ibqResetI :: "'q \<Rightarrow> 'q"

text \<open>\<open>in_flight\<close> is the packet the USB peripheral has been given; \<^verbatim>\<open>usbGetTransmitStatusI\<close> tells whether there is one.\<close>

record 'q usb_endpoint_in =
  obqueue :: 'q
  timed_out :: bool
  report_storage :: reports
  in_flight :: "bytes option"

definition usbStartTransmitI :: "bytes \<Rightarrow> 'q usb_endpoint_in \<Rightarrow> 'q usb_endpoint_in" where
  "usbStartTransmitI pkt ep = ep\<lparr>in_flight := Some pkt\<rparr>"

text \<open>\<open>active\<close> is the driver's state \<^verbatim>\<open>USB_ACTIVE\<close>.\<close>

definition obnotify :: "'q bq_api \<Rightarrow> bool \<Rightarrow> 'q usb_endpoint_in \<Rightarrow> 'q usb_endpoint_in" where
  "obnotify Q active ep =
     (if \<not> active \<or> in_flight ep \<noteq> None then ep
      else case obqGetFullBufferI Q (obqueue ep) of None \<Rightarrow> ep | Some pkt \<Rightarrow> usbStartTransmitI pkt ep)"

partial_function (option) send_loop ::
  "'q bq_api \<Rightarrow> bool \<Rightarrow> bytes \<Rightarrow> timeout \<Rightarrow> 'q usb_endpoint_in \<Rightarrow> (bool \<times> 'q usb_endpoint_in) option" where
  "send_loop Q active data timeout ep =
     (let (sent, q) = obqWriteTimeout Q data timeout (obqueue ep) in
      if sent < length data then
        send_loop Q active data timeout
          (ep\<lparr>timed_out := timed_out ep \<or> sent = 0, obqueue := bqResumeX Q (obqResetI Q (bqSuspendI Q q))\<rparr>)
      else Some (True, obnotify Q active (ep\<lparr>obqueue := obqFlush Q q\<rparr>)))"

definition usb_endpoint_in_send ::
  "'q bq_api \<Rightarrow> bool \<Rightarrow> bytes \<Rightarrow> timeout \<Rightarrow> 'q usb_endpoint_in \<Rightarrow> (bool \<times> 'q usb_endpoint_in) option" where
  "usb_endpoint_in_send Q active data timeout ep =
     (if \<not> active then Some (False, ep)
      else send_loop Q active data (if timed_out ep \<and> timeout \<noteq> TIME_INFINITE then TIME_IMMEDIATE else timeout) ep)"

definition usb_endpoint_in_tx_complete_cb ::
  "'q bq_api \<Rightarrow> in_endpoint \<Rightarrow> u32 \<Rightarrow> 'q usb_endpoint_in \<Rightarrow> 'q usb_endpoint_in" where
  "usb_endpoint_in_tx_complete_cb Q e now ep =
     (let txsize = (case in_flight ep of None \<Rightarrow> 0 | Some pkt \<Rightarrow> length pkt);
          ep = ep\<lparr>timed_out := False, in_flight := None\<rparr>;
          ep = (if \<not> obqIsEmptyI Q (obqueue ep) \<and> txsize > 0 then
                  let ep = (case obqGetFullBufferI Q (obqueue ep) of None \<Rightarrow> ep
                            | Some buffer \<Rightarrow> ep\<lparr>report_storage := ep_set_report e now buffer (report_storage ep)\<rparr>) in
                  ep\<lparr>obqueue := obqReleaseEmptyBufferI Q (obqueue ep)\<rparr>
                else ep) in
      case obqGetFullBufferI Q (obqueue ep) of None \<Rightarrow> ep | Some buffer \<Rightarrow> usbStartTransmitI buffer ep)"

definition usb_endpoint_in_suspend_cb :: "'q bq_api \<Rightarrow> in_endpoint \<Rightarrow> 'q usb_endpoint_in \<Rightarrow> 'q usb_endpoint_in" where
  "usb_endpoint_in_suspend_cb Q e ep =
     ep\<lparr>obqueue := obqResetI Q (bqSuspendI Q (obqueue ep)), report_storage := ep_reset_report e (report_storage ep)\<rparr>"

definition usb_endpoint_in_wakeup_cb :: "'q bq_api \<Rightarrow> 'q usb_endpoint_in \<Rightarrow> 'q usb_endpoint_in" where
  "usb_endpoint_in_wakeup_cb Q ep = ep\<lparr>obqueue := bqResumeX Q (obqueue ep)\<rparr>"

text \<open>\<^verbatim>\<open>usbInitEndpointI\<close> leaves the endpoint idle.\<close>

definition usb_endpoint_in_configure_cb :: "'q bq_api \<Rightarrow> 'q usb_endpoint_in \<Rightarrow> 'q usb_endpoint_in" where
  "usb_endpoint_in_configure_cb Q ep = ep\<lparr>in_flight := None, obqueue := bqResumeX Q (obqResetI Q (obqueue ep))\<rparr>"

definition usb_endpoint_in_is_inactive :: "'q bq_api \<Rightarrow> 'q usb_endpoint_in \<Rightarrow> bool" where
  "usb_endpoint_in_is_inactive Q ep \<longleftrightarrow> obqIsEmptyI Q (obqueue ep) \<and> in_flight ep = None"

section \<open>The queue's contract\<close>

text \<open>
  \<open>posted\<close> are the buffers handed over, \<open>filling\<close> the bytes of the buffer being filled. A write of at most one buffer into a
  queue with nothing half filled takes all of it when there is a free buffer, and nothing (after the timeout, or at once
  when the queue is suspended) otherwise.
\<close>

locale output_queue =
  fixes Q :: "'q bq_api" and buffer_capacity buffer_size :: nat
    and posted :: "'q \<Rightarrow> bytes list" and filling :: "'q \<Rightarrow> bytes" and suspended :: "'q \<Rightarrow> bool"
  assumes capacity: "0 < buffer_capacity"
    and empty_iff: "obqIsEmptyI Q q \<longleftrightarrow> posted q = []"
    and full_buffer: "obqGetFullBufferI Q q = (case posted q of [] \<Rightarrow> None | b # bs \<Rightarrow> Some b)"
    and release: "posted q \<noteq> [] \<Longrightarrow> posted (obqReleaseEmptyBufferI Q q) = tl (posted q)"
      "posted q \<noteq> [] \<Longrightarrow> filling (obqReleaseEmptyBufferI Q q) = filling q"
      "posted q \<noteq> [] \<Longrightarrow> suspended (obqReleaseEmptyBufferI Q q) = suspended q"
    and write_room: "\<lbrakk>\<not> suspended q; filling q = []; length (posted q) < buffer_capacity; data \<noteq> []; length data \<le> buffer_size;
        obqWriteTimeout Q data timeout q = (n, q')\<rbrakk> \<Longrightarrow>
        n = length data \<and> \<not> suspended q' \<and> posted q' @ (if filling q' = [] then [] else [filling q']) = posted q @ [data]"
    and write_blocked: "\<lbrakk>suspended q \<or> \<not> length (posted q) < buffer_capacity; filling q = []; data \<noteq> []; length data \<le> buffer_size;
        timeout \<noteq> TIME_INFINITE\<rbrakk> \<Longrightarrow> obqWriteTimeout Q data timeout q = (0, q)"
    and flush: "posted (obqFlush Q q) = posted q @ (if filling q = [] then [] else [filling q])"
      "filling (obqFlush Q q) = []" "suspended (obqFlush Q q) = suspended q"
    and reset: "posted (obqResetI Q q) = []" "filling (obqResetI Q q) = []" "suspended (obqResetI Q q) = suspended q"
    and suspend: "posted (bqSuspendI Q q) = posted q" "filling (bqSuspendI Q q) = filling q" "suspended (bqSuspendI Q q)"
    and resume: "posted (bqResumeX Q q) = posted q" "filling (bqResumeX Q q) = filling q" "\<not> suspended (bqResumeX Q q)"

section \<open>Sending\<close>

text \<open>
  What can happen to an endpoint: a report is sent (with the driver active or not), the host takes the packet in flight at some
  time, the bus is suspended, wakes up, or is reset, which also takes the packet out of the peripheral. The second
  component is what the host has got.
\<close>

datatype ep_event = Send bool bytes | Taken u32 | Suspend | Wakeup | Bus_Reset

fun ep_do :: "'q bq_api \<Rightarrow> in_endpoint \<Rightarrow> ep_event \<Rightarrow> 'q usb_endpoint_in \<times> bytes list \<Rightarrow> ('q usb_endpoint_in \<times> bytes list) option" where
  "ep_do Q e (Send active data) (ep, got) =
     map_option (\<lambda>(sent, ep). (ep, got)) (usb_endpoint_in_send Q active data (TIME_MS2I 100) ep)"
| "ep_do Q e (Taken now) (ep, got) =
     Some (case in_flight ep of None \<Rightarrow> (ep, got) | Some pkt \<Rightarrow> (usb_endpoint_in_tx_complete_cb Q e now ep, got @ [pkt]))"
| "ep_do Q e Suspend (ep, got) = Some (usb_endpoint_in_suspend_cb Q e ep, got)"
| "ep_do Q e Wakeup (ep, got) = Some (usb_endpoint_in_wakeup_cb Q ep, got)"
| "ep_do Q e Bus_Reset (ep, got) = Some (usb_endpoint_in_suspend_cb Q e (ep\<lparr>in_flight := None\<rparr>), got)"

primrec ep_run :: "'q bq_api \<Rightarrow> in_endpoint \<Rightarrow> ep_event list \<Rightarrow> 'q usb_endpoint_in \<times> bytes list \<Rightarrow> ('q usb_endpoint_in \<times> bytes list) option" where
  "ep_run Q e [] s = Some s"
| "ep_run Q e (ev # evs) s = Option.bind (ep_do Q e ev s) (ep_run Q e evs)"

primrec sent_by :: "ep_event \<Rightarrow> bytes list" where
  "sent_by (Send active data) = (if active then [data] else [])"
| "sent_by (Taken now) = []" | "sent_by Suspend = []" | "sent_by Wakeup = []" | "sent_by Bus_Reset = []"

definition sent_in :: "ep_event list \<Rightarrow> bytes list" where
  "sent_in evs = concat (map sent_by evs)"

primrec event_ok :: "nat \<Rightarrow> ep_event \<Rightarrow> bool" where
  "event_ok n (Send active data) \<longleftrightarrow> data \<noteq> [] \<and> length data \<le> n"
| "event_ok n (Taken now) \<longleftrightarrow> True" | "event_ok n Suspend \<longleftrightarrow> True" | "event_ok n Wakeup \<longleftrightarrow> True" | "event_ok n Bus_Reset \<longleftrightarrow> True"

text \<open>
  A calm run: the bus is up and the host takes packets fast enough that a report always finds a free buffer; \<open>n\<close> counts
  the buffers in use.
\<close>

fun calm :: "nat \<Rightarrow> nat \<Rightarrow> ep_event list \<Rightarrow> bool" where
  "calm cap n [] \<longleftrightarrow> True"
| "calm cap n (Send active data # evs) \<longleftrightarrow> active \<and> n < cap \<and> calm cap (Suc n) evs"
| "calm cap n (Taken now # evs) \<longleftrightarrow> calm cap (n - 1) evs"
| "calm cap n (_ # evs) \<longleftrightarrow> False"

text \<open>The last of the packets that is kept under a number.\<close>

definition last_of :: "in_endpoint \<Rightarrow> u8 \<Rightarrow> bytes list \<Rightarrow> bytes option" where
  "last_of e i got = (let ds = filter (\<lambda>d. slot_of e d i) got in if ds = [] then None else Some (last ds))"

lemma last_of_snoc: "last_of e i (got @ [d]) = (if slot_of e d i then Some d else last_of e i got)"
  by (simp add: last_of_def)

definition keeps :: "in_endpoint \<Rightarrow> reports \<Rightarrow> bytes list \<Rightarrow> reports \<Rightarrow> bool" where
  "keeps e rs0 got rs \<longleftrightarrow> reports_ok e rs \<and> (\<forall>i. case kept e rs0 i of None \<Rightarrow> kept e rs i = None
     | Some r0 \<Rightarrow> \<exists>r. kept e rs i = Some r \<and> fs_idle_rate r = fs_idle_rate r0
         \<and> kept_bytes r = (case last_of e i got of None \<Rightarrow> kept_bytes r0 | Some d \<Rightarrow> d))"

lemma keeps_start: "reports_ok e rs \<Longrightarrow> keeps e rs [] rs"
  by (auto simp: keeps_def last_of_def split: option.split)

lemma keeps_set:
  assumes "keeps e rs0 got rs" "length d \<le> 64"
  shows "keeps e rs0 (got @ [d]) (ep_set_report e now d rs)"
proof -
  have ok: "reports_ok e rs" using assms(1) by (simp add: keeps_def)
  note k = ep_set_report_ok [OF ok assms(2), of now]
  show ?thesis unfolding keeps_def
  proof (intro conjI allI k(1))
    fix i
    have i: "case kept e rs0 i of None \<Rightarrow> kept e rs i = None
       | Some r0 \<Rightarrow> \<exists>r. kept e rs i = Some r \<and> fs_idle_rate r = fs_idle_rate r0
           \<and> kept_bytes r = (case last_of e i got of None \<Rightarrow> kept_bytes r0 | Some d \<Rightarrow> d)" using assms(1) by (simp add: keeps_def)
    show "case kept e rs0 i of None \<Rightarrow> kept e (ep_set_report e now d rs) i = None
       | Some r0 \<Rightarrow> \<exists>r. kept e (ep_set_report e now d rs) i = Some r \<and> fs_idle_rate r = fs_idle_rate r0
           \<and> kept_bytes r = (case last_of e i (got @ [d]) of None \<Rightarrow> kept_bytes r0 | Some d \<Rightarrow> d)"
    proof (cases "kept e rs0 i")
      case (Some r0)
      then obtain r where r: "kept e rs i = Some r" "fs_idle_rate r = fs_idle_rate r0"
        "kept_bytes r = (case last_of e i got of None \<Rightarrow> kept_bytes r0 | Some d \<Rightarrow> d)" using i by auto
      then show ?thesis using Some kept_store [OF kept_ok [OF ok r(1)] assms(2), of now] by (simp add: k(2) last_of_snoc)
    qed (use i k(2) in simp)
  qed
qed

context output_queue
begin

definition settled :: "'q usb_endpoint_in \<Rightarrow> bool" where
  "settled ep \<longleftrightarrow> filling (obqueue ep) = []"

text \<open>A report that finds room is appended; one that does not throws away what waits and is queued alone.\<close>

lemma send_loop_room:
  assumes "\<not> suspended (obqueue ep)" "settled ep" "length (posted (obqueue ep)) < buffer_capacity" "data \<noteq> []" "length data \<le> buffer_size"
  obtains q where "send_loop Q active data timeout ep = Some (True, obnotify Q active (ep\<lparr>obqueue := q\<rparr>))"
    "posted q = posted (obqueue ep) @ [data]" "filling q = []" "\<not> suspended q"
proof -
  obtain n q where w: "obqWriteTimeout Q data timeout (obqueue ep) = (n, q)" by force
  note p = write_room [OF assms(1) assms(2) [unfolded settled_def] assms(3-5) w]
  show thesis
    by (rule that [of "obqFlush Q q"]) (use p in \<open>simp_all add: send_loop.simps w flush\<close>)
qed

lemma send_loop_blocked:
  assumes "suspended (obqueue ep) \<or> \<not> length (posted (obqueue ep)) < buffer_capacity" "settled ep" "data \<noteq> []" "length data \<le> buffer_size"
    "timeout \<noteq> TIME_INFINITE"
  obtains q where "send_loop Q active data timeout ep = Some (True, obnotify Q active (ep\<lparr>timed_out := True, obqueue := q\<rparr>))"
    "posted q = [data]" "filling q = []" "\<not> suspended q"
proof -
  let ?ep = "ep\<lparr>timed_out := True, obqueue := bqResumeX Q (obqResetI Q (bqSuspendI Q (obqueue ep)))\<rparr>"
  have b: "send_loop Q active data timeout ep = send_loop Q active data timeout ?ep"
    using assms(3) write_blocked [OF assms(1) assms(2) [unfolded settled_def] assms(3-5)] by (simp add: send_loop.simps [of Q active data timeout ep])
  obtain q where q: "send_loop Q active data timeout ?ep = Some (True, obnotify Q active (?ep\<lparr>obqueue := q\<rparr>))"
    "posted q = posted (obqueue ?ep) @ [data]" "filling q = []" "\<not> suspended q"
    by (rule send_loop_room [of ?ep data active timeout]) (use assms capacity in \<open>auto simp: settled_def reset resume suspend\<close>)
  then show thesis using b by (intro that [of q]) (simp_all add: reset resume suspend)
qed

text \<open>Every send returns, whatever the state of the queue.\<close>

lemma send_returns:
  assumes "settled ep" "data \<noteq> []" "length data \<le> buffer_size" "timeout \<noteq> TIME_INFINITE"
  shows "\<exists>ep'. usb_endpoint_in_send Q active data timeout ep = Some (active, ep') \<and> settled ep'
    \<and> report_storage ep' = report_storage ep"
proof (cases active)
  case True
  define t where "t = (if timed_out ep \<and> timeout \<noteq> TIME_INFINITE then TIME_IMMEDIATE else timeout)"
  have t: "t \<noteq> TIME_INFINITE" using assms(4) by (auto simp: t_def)
  have s: "usb_endpoint_in_send Q active data timeout ep = send_loop Q active data t ep"
    using True by (simp add: usb_endpoint_in_send_def t_def)
  have n: "settled (obnotify Q a e) = settled e" "report_storage (obnotify Q a e) = report_storage e" for a e
    by (auto simp: settled_def obnotify_def usbStartTransmitI_def split: option.split)
  show ?thesis
  proof (cases "suspended (obqueue ep) \<or> \<not> length (posted (obqueue ep)) < buffer_capacity")
    case True
    from send_loop_blocked [OF this assms(1-3) t, of active] obtain q where
      "send_loop Q active data t ep = Some (True, obnotify Q active (ep\<lparr>timed_out := True, obqueue := q\<rparr>))" "filling q = []" .
    then show ?thesis unfolding s using \<open>active\<close> by (simp add: n [unfolded settled_def] settled_def)
  next
    case False
    then have "\<not> suspended (obqueue ep)" "length (posted (obqueue ep)) < buffer_capacity" by auto
    from send_loop_room [OF this(1) assms(1) this(2) assms(2,3), of active t] obtain q where
      "send_loop Q active data t ep = Some (True, obnotify Q active (ep\<lparr>obqueue := q\<rparr>))" "filling q = []" .
    then show ?thesis unfolding s using \<open>active\<close> by (simp add: n [unfolded settled_def] settled_def)
  qed
qed (use assms in \<open>simp add: usb_endpoint_in_send_def\<close>)

text \<open>
  The invariant of any run: what waits is the end of what was sent; the packet in flight is its head, or left over from
  what a blocked send or a reset threw away; the host's packets come before, in order.
\<close>

definition in_order :: "bytes list \<Rightarrow> 'q usb_endpoint_in \<times> bytes list \<Rightarrow> bool" where
  "in_order sent s \<longleftrightarrow> (case s of (ep, got) \<Rightarrow> settled ep \<and> (\<exists>pre. sent = pre @ posted (obqueue ep) \<and>
     (case in_flight ep of None \<Rightarrow> subseq got pre
      | Some b \<Rightarrow> subseq (got @ [b]) pre \<or> subseq got pre \<and> (\<exists>bs. posted (obqueue ep) = b # bs))))"

lemma in_orderE:
  assumes "in_order sent (ep, got)"
  obtains pre where "settled ep" "sent = pre @ posted (obqueue ep)" "in_flight ep = None" "subseq got pre"
  | pre b where "settled ep" "sent = pre @ posted (obqueue ep)" "in_flight ep = Some b" "subseq (got @ [b]) pre"
  | pre b bs where "settled ep" "sent = pre @ posted (obqueue ep)" "in_flight ep = Some b" "subseq got pre" "posted (obqueue ep) = b # bs"
  using assms by (fastforce simp: in_order_def split: option.splits)

lemma subseq_butlast: "subseq (xs @ [b]) ys \<Longrightarrow> subseq xs ys"
  by (rule subseq_order.trans [of xs "xs @ [b]"]) (simp add: subseq_rev_drop_many)

lemma in_order_subseq: "in_order sent (ep, got) \<Longrightarrow> subseq got sent"
  by (erule in_orderE) (auto intro: subseq_rev_drop_many dest: subseq_butlast)

text \<open>Emptying the queue leaves the packet in flight behind.\<close>

lemma in_order_emptied:
  assumes "in_order sent (ep, got)" "posted q = []" "filling q = []" "\<And>b. in_flight ep' = Some b \<Longrightarrow> in_flight ep = Some b" "obqueue ep' = q"
  shows "in_order sent (ep', got)"
proof -
  have sub: "subseq got sent" by (rule in_order_subseq [OF assms(1)])
  have b: "subseq (got @ [b]) sent" if "in_flight ep = Some b" for b
    using assms(1)
  proof (cases rule: in_orderE)
    case (3 pre b' bs)
    then have "subseq (got @ [b]) ((pre @ [b]) @ bs)" by - (rule subseq_rev_drop_many, simp)
    then show ?thesis using 3 that by simp
  qed (use that in \<open>simp_all add: subseq_rev_drop_many\<close>)
  show ?thesis using assms(2-5) sub b by (auto simp: in_order_def settled_def split: option.split)
qed

lemma obnotify_unchanged [simp]:
  "obqueue (obnotify Q a ep) = obqueue ep" "timed_out (obnotify Q a ep) = timed_out ep" "report_storage (obnotify Q a ep) = report_storage ep"
  by (auto simp: obnotify_def usbStartTransmitI_def split: option.split)

lemma obnotify_idle:
  "in_flight ep = None \<Longrightarrow> posted (obqueue ep) = c # cs \<Longrightarrow> obnotify Q a ep = (if a then ep\<lparr>in_flight := Some c\<rparr> else ep)"
  by (simp add: obnotify_def usbStartTransmitI_def full_buffer)

text \<open>A posted report: the queue grows at its end, and an idle endpoint starts with the head.\<close>

lemma in_order_posted:
  assumes "in_order sent (ep, got)" "posted q = posted (obqueue ep) @ [data]" "filling q = []"
    "obqueue ep' = q" "in_flight ep' = in_flight ep"
  shows "in_order (sent @ [data]) (obnotify Q a ep', got)"
proof (cases "in_flight ep")
  case None
  obtain pre where pre: "sent = pre @ posted (obqueue ep)" "subseq got pre" using assms(1) None by (auto elim!: in_orderE)
  obtain c cs where c: "posted (obqueue ep') = c # cs" using assms(2,4) by (cases "posted (obqueue ep')") auto
  have n: "obnotify Q a ep' = (if a then ep'\<lparr>in_flight := Some c\<rparr> else ep')"
    by (rule obnotify_idle [OF _ c]) (simp add: assms(5) None)
  have "sent @ [data] = pre @ posted (obqueue ep')" by (simp add: pre(1) assms(2,4))
  then show ?thesis unfolding n using assms(3-5) None pre(2) c by (auto simp: in_order_def settled_def)
next
  case (Some b)
  then have "obnotify Q a ep' = ep'" using assms(5) by (simp add: obnotify_def)
  moreover have "in_order (sent @ [data]) (ep', got)" using assms(1)
    by (rule in_orderE) (use assms(2-5) Some in \<open>auto simp: in_order_def settled_def\<close>)
  ultimately show ?thesis by simp
qed

lemma in_order_send:
  assumes "in_order sent (ep, got)" "data \<noteq> []" "length data \<le> buffer_size" "timeout \<noteq> TIME_INFINITE"
    "usb_endpoint_in_send Q active data timeout ep = Some (r, ep')"
  shows "in_order (sent @ (if active then [data] else [])) (ep', got)"
proof (cases active)
  case a: True
  have "settled ep" using assms(1) by (auto elim: in_orderE)
  define t where "t = (if timed_out ep \<and> timeout \<noteq> TIME_INFINITE then TIME_IMMEDIATE else timeout)"
  have t: "t \<noteq> TIME_INFINITE" using assms(4) by (auto simp: t_def)
  have s: "send_loop Q active data t ep = Some (r, ep')" using assms(5) a by (simp add: usb_endpoint_in_send_def t_def)
  show ?thesis
  proof (cases "suspended (obqueue ep) \<or> \<not> length (posted (obqueue ep)) < buffer_capacity")
    case True
    from send_loop_blocked [OF True \<open>settled ep\<close> assms(2,3) t, of active] obtain q where
      q: "ep' = obnotify Q active (ep\<lparr>timed_out := True, obqueue := q\<rparr>)" "posted q = [data]" "filling q = []" using s by auto
    let ?e = "ep\<lparr>obqueue := obqResetI Q (obqueue ep)\<rparr>"
    have "in_order sent (?e, got)" by (rule in_order_emptied [OF assms(1)]) (simp_all add: reset)
    from in_order_posted [OF this, of q data] q show ?thesis using a by (simp add: reset)
  next
    case False
    then have "\<not> suspended (obqueue ep)" "length (posted (obqueue ep)) < buffer_capacity" by auto
    from send_loop_room [OF this(1) \<open>settled ep\<close> this(2) assms(2,3), of active t] obtain q where
      q: "ep' = obnotify Q active (ep\<lparr>obqueue := q\<rparr>)" "posted q = posted (obqueue ep) @ [data]" "filling q = []" using s by auto
    from in_order_posted [OF assms(1) q(2,3)] show ?thesis using a q(1) by simp
  qed
qed (use assms in \<open>simp add: usb_endpoint_in_send_def\<close>)

text \<open>The host takes the packet in flight: the head of the queue is kept and released, the next one starts.\<close>

lemma tx_complete:
  assumes "in_flight ep = Some b" "b \<noteq> []" "posted (obqueue ep) = c # cs"
  obtains q where "usb_endpoint_in_tx_complete_cb Q e now ep =
      ep\<lparr>timed_out := False, in_flight := (case cs of [] \<Rightarrow> None | d # ds \<Rightarrow> Some d), obqueue := q,
        report_storage := ep_set_report e now c (report_storage ep)\<rparr>"
    "posted q = cs" "filling q = filling (obqueue ep)" "suspended q = suspended (obqueue ep)"
proof (rule that [of "obqReleaseEmptyBufferI Q (obqueue ep)"])
  have r: "posted (obqReleaseEmptyBufferI Q (obqueue ep)) = cs" using release(1) [of "obqueue ep"] assms(3) by simp
  show "usb_endpoint_in_tx_complete_cb Q e now ep =
      ep\<lparr>timed_out := False, in_flight := (case cs of [] \<Rightarrow> None | d # ds \<Rightarrow> Some d), obqueue := obqReleaseEmptyBufferI Q (obqueue ep),
        report_storage := ep_set_report e now c (report_storage ep)\<rparr>"
    using assms r by (simp add: usb_endpoint_in_tx_complete_cb_def empty_iff full_buffer usbStartTransmitI_def Let_def split: list.split)
qed (use assms release [of "obqueue ep"] in simp_all)

lemma tx_complete_nothing:
  "posted (obqueue ep) = [] \<Longrightarrow> usb_endpoint_in_tx_complete_cb Q e now ep = ep\<lparr>timed_out := False, in_flight := None\<rparr>"
  by (simp add: usb_endpoint_in_tx_complete_cb_def empty_iff full_buffer)

lemma in_order_taken:
  assumes "in_order sent (ep, got)" "in_flight ep = Some b" "\<forall>d\<in>set sent. d \<noteq> []"
  shows "in_order sent (usb_endpoint_in_tx_complete_cb Q e now ep, got @ [b])"
proof (cases "posted (obqueue ep)")
  case Nil
  then show ?thesis using assms(1,2)
    by (auto simp: tx_complete_nothing in_order_def settled_def dest: subseq_butlast)
next
  case (Cons c cs)
  obtain pre where pre: "sent = pre @ c # cs" "settled ep" "subseq (got @ [b]) (pre @ [c])"
    using assms(1) by (rule in_orderE) (use assms(2) Cons in \<open>auto intro: subseq_rev_drop_many\<close>)
  have "b \<in> set sent" using list_emb_set [OF pre(3), of b] pre(1) by auto
  then have "b \<noteq> []" using assms(3) by blast
  then show ?thesis
    by (rule tx_complete [OF assms(2) _ Cons, of e now])
      (use pre in \<open>auto simp: in_order_def settled_def split: list.split intro!: exI [of _ "pre @ [c]"]\<close>)
qed

lemma in_order_do:
  assumes "in_order sent (ep, got)" "ep_do Q e ev (ep, got) = Some (ep', got')" "event_ok buffer_size ev" "\<forall>d\<in>set sent. d \<noteq> []"
  shows "in_order (sent @ sent_by ev) (ep', got')"
proof (cases ev)
  case (Send active data)
  then show ?thesis using assms in_order_send [OF assms(1), of data "TIME_MS2I 100" active] by auto
next
  case (Taken now)
  then show ?thesis using assms in_order_taken [OF assms(1) _ assms(4)] by (auto split: option.splits)
next
  case Wakeup
  then have w: "ep' = usb_endpoint_in_wakeup_cb Q ep" "got' = got" using assms(2) by auto
  from assms(1) show ?thesis unfolding w Wakeup
    by (rule in_orderE) (auto simp: in_order_def settled_def usb_endpoint_in_wakeup_cb_def resume)
next
  case Suspend
  then have w: "ep' = usb_endpoint_in_suspend_cb Q e ep" "got' = got" using assms(2) by auto
  show ?thesis unfolding w Suspend
    by (simp, rule in_order_emptied [OF assms(1)]) (simp_all add: usb_endpoint_in_suspend_cb_def reset)
next
  case Bus_Reset
  then have w: "ep' = usb_endpoint_in_suspend_cb Q e (ep\<lparr>in_flight := None\<rparr>)" "got' = got" using assms(2) by auto
  show ?thesis unfolding w Bus_Reset
    by (simp, rule in_order_emptied [OF assms(1)]) (simp_all add: usb_endpoint_in_suspend_cb_def reset)
qed

lemma ep_run_in_order:
  assumes "ep_run Q e evs (ep, got) = Some (ep', got')" "in_order sent (ep, got)" "list_all (event_ok buffer_size) evs" "\<forall>d\<in>set sent. d \<noteq> []"
  shows "in_order (sent @ sent_in evs) (ep', got')"
  using assms
proof (induction evs arbitrary: ep got sent)
  case (Cons ev evs)
  obtain ep1 got1 where 1: "ep_do Q e ev (ep, got) = Some (ep1, got1)" "ep_run Q e evs (ep1, got1) = Some (ep', got')"
    using Cons.prems(1) by (cases "ep_do Q e ev (ep, got)") auto
  have "\<forall>d\<in>set (sent @ sent_by ev). d \<noteq> []" using Cons.prems(3,4) by (cases ev) auto
  from Cons.IH [OF 1(2) in_order_do [OF Cons.prems(2) 1(1)] _ this] show ?case using Cons.prems by (simp add: sent_in_def)
qed (simp add: sent_in_def)

text \<open>A run never gets stuck.\<close>

lemma ep_do_returns:
  assumes "in_order sent (ep, got)" "event_ok buffer_size ev"
  shows "ep_do Q e ev (ep, got) \<noteq> None"
proof (cases ev)
  case (Send active data)
  have "settled ep" using assms(1) by (auto elim: in_orderE)
  then show ?thesis using Send assms(2) send_returns [of ep data "TIME_MS2I 100" active] by auto
qed simp_all

lemma ep_run_returns:
  assumes "in_order sent (ep, got)" "list_all (event_ok buffer_size) evs" "\<forall>d\<in>set sent. d \<noteq> []"
  shows "ep_run Q e evs (ep, got) \<noteq> None"
  using assms
proof (induction evs arbitrary: ep got sent)
  case (Cons ev evs)
  then obtain ep1 got1 where 1: "ep_do Q e ev (ep, got) = Some (ep1, got1)"
    using ep_do_returns [OF Cons.prems(1), of ev e] by auto
  have "\<forall>d\<in>set (sent @ sent_by ev). d \<noteq> []" using Cons.prems(2,3) by (cases ev) auto
  then show ?case using Cons.IH [OF in_order_do [OF Cons.prems(1) 1]] Cons.prems 1 by simp
qed simp

text \<open>In a calm run nothing is lost, and what is kept is what the host got last.\<close>

definition in_step :: "in_endpoint \<Rightarrow> reports \<Rightarrow> bytes list \<Rightarrow> 'q usb_endpoint_in \<times> bytes list \<Rightarrow> bool" where
  "in_step e rs0 sent s \<longleftrightarrow> (case s of (ep, got) \<Rightarrow> settled ep \<and> \<not> suspended (obqueue ep) \<and> sent = got @ posted (obqueue ep)
     \<and> in_flight ep = (case posted (obqueue ep) of [] \<Rightarrow> None | b # bs \<Rightarrow> Some b) \<and> keeps e rs0 got (report_storage ep))"

lemma in_step_send:
  assumes "in_step e rs0 sent (ep, got)" "length (posted (obqueue ep)) < buffer_capacity" "data \<noteq> []" "length data \<le> buffer_size"
    "usb_endpoint_in_send Q True data timeout ep = Some (r, ep')"
  shows "in_step e rs0 (sent @ [data]) (ep', got)" "length (posted (obqueue ep')) = Suc (length (posted (obqueue ep)))"
proof -
  define t where "t = (if timed_out ep \<and> timeout \<noteq> TIME_INFINITE then TIME_IMMEDIATE else timeout)"
  have i: "settled ep" "\<not> suspended (obqueue ep)" using assms(1) by (simp_all add: in_step_def)
  have s: "send_loop Q True data t ep = Some (r, ep')" using assms(5) by (simp add: usb_endpoint_in_send_def t_def)
  obtain q where q: "ep' = obnotify Q True (ep\<lparr>obqueue := q\<rparr>)" "posted q = posted (obqueue ep) @ [data]" "filling q = []" "\<not> suspended q"
    using send_loop_room [OF i(2,1) assms(2-4), of True t] s by (metis option.inject prod.inject)
  show "in_step e rs0 (sent @ [data]) (ep', got)"
  proof (cases "posted (obqueue ep)")
    case Nil
    then have "ep' = ep\<lparr>obqueue := q, in_flight := Some data\<rparr>" using assms(1) q(2) unfolding q(1)
      by (subst obnotify_idle) (auto simp: in_step_def)
    then show ?thesis using assms(1) q Nil by (simp add: in_step_def settled_def)
  next
    case (Cons b bs)
    then have "ep' = ep\<lparr>obqueue := q\<rparr>" using assms(1) unfolding q(1) by (simp add: obnotify_def in_step_def)
    then show ?thesis using assms(1) q Cons by (simp add: in_step_def settled_def)
  qed
  show "length (posted (obqueue ep')) = Suc (length (posted (obqueue ep)))" unfolding q(1) using q(2) by simp
qed

lemma in_step_taken:
  assumes "in_step e rs0 sent (ep, got)" "in_flight ep = Some b" "\<forall>d\<in>set sent. d \<noteq> [] \<and> length d \<le> 64"
  shows "in_step e rs0 sent (usb_endpoint_in_tx_complete_cb Q e now ep, got @ [b])"
    "length (posted (obqueue (usb_endpoint_in_tx_complete_cb Q e now ep))) = length (posted (obqueue ep)) - 1"
proof -
  obtain bs where bs: "posted (obqueue ep) = b # bs" using assms(1,2) by (auto simp: in_step_def split: list.splits)
  then have b: "b \<noteq> []" "length b \<le> 64" using assms(1,3) by (auto simp: in_step_def)
  obtain q where q: "usb_endpoint_in_tx_complete_cb Q e now ep =
      ep\<lparr>timed_out := False, in_flight := (case bs of [] \<Rightarrow> None | d # ds \<Rightarrow> Some d), obqueue := q,
        report_storage := ep_set_report e now b (report_storage ep)\<rparr>"
    "posted q = bs" "filling q = filling (obqueue ep)" "suspended q = suspended (obqueue ep)" by (rule tx_complete [OF assms(2) b(1) bs])
  show "in_step e rs0 sent (usb_endpoint_in_tx_complete_cb Q e now ep, got @ [b])"
    "length (posted (obqueue (usb_endpoint_in_tx_complete_cb Q e now ep))) = length (posted (obqueue ep)) - 1"
    using assms(1) q(2-4) bs keeps_set [of e rs0 got "report_storage ep" b now] b(2) unfolding q(1)
    by (simp_all add: in_step_def settled_def)
qed

lemma calm_run:
  assumes "ep_run Q e evs (ep, got) = Some (ep', got')" "in_step e rs0 sent (ep, got)" "list_all (event_ok buffer_size) evs"
    "calm buffer_capacity (length (posted (obqueue ep))) evs" "\<forall>d\<in>set sent. d \<noteq> [] \<and> length d \<le> 64" "buffer_size \<le> 64"
  shows "in_step e rs0 (sent @ sent_in evs) (ep', got')"
  using assms
proof (induction evs arbitrary: ep got sent)
  case (Cons ev evs)
  obtain ep1 got1 where 1: "ep_do Q e ev (ep, got) = Some (ep1, got1)" "ep_run Q e evs (ep1, got1) = Some (ep', got')"
    using Cons.prems(1) by (cases "ep_do Q e ev (ep, got)") auto
  have step: "in_step e rs0 (sent @ sent_by ev) (ep1, got1)" "calm buffer_capacity (length (posted (obqueue ep1))) evs"
  proof (atomize (full), cases ev)
    case (Send active data)
    then have a: "active" "length (posted (obqueue ep)) < buffer_capacity" "data \<noteq> []" "length data \<le> buffer_size"
      using Cons.prems(3,4) by auto
    then obtain r where "usb_endpoint_in_send Q True data (TIME_MS2I 100) ep = Some (r, ep1)" "got1 = got" using 1(1) Send by auto
    from in_step_send [OF Cons.prems(2) a(2-4) this(1)] this(2)
    show "in_step e rs0 (sent @ sent_by ev) (ep1, got1) \<and> calm buffer_capacity (length (posted (obqueue ep1))) evs"
      using Send Cons.prems(4) a(1) by simp
  next
    case (Taken now)
    show "in_step e rs0 (sent @ sent_by ev) (ep1, got1) \<and> calm buffer_capacity (length (posted (obqueue ep1))) evs"
    proof (cases "in_flight ep")
      case None
      then have "posted (obqueue ep) = []" using Cons.prems(2) by (auto simp: in_step_def split: list.splits)
      then show ?thesis using Taken None 1(1) Cons.prems(2,4) by simp
    next
      case (Some b)
      then show ?thesis using Taken 1(1) in_step_taken [OF Cons.prems(2) Some Cons.prems(5), of now] Cons.prems(4) by auto
    qed
  qed (use Cons.prems(4) in simp_all)
  have "\<forall>d\<in>set (sent @ sent_by ev). d \<noteq> [] \<and> length d \<le> 64"
    using Cons.prems(3,5,6) by (cases ev) auto
  from Cons.IH [OF 1(2) step(1) _ step(2) this] show ?case using Cons.prems by (simp add: sent_in_def)
qed (simp add: sent_in_def)

end

section \<open>A concrete queue\<close>

text \<open>Four buffers of 32 bytes, as every endpoint of this keyboard has.\<close>

record list_queue =
  lq_posted :: "bytes list"
  lq_filling :: bytes
  lq_suspended :: bool

definition USB_DEFAULT_BUFFER_CAPACITY :: nat where [hw_defs]: "USB_DEFAULT_BUFFER_CAPACITY = 4"

definition lq_api :: "list_queue bq_api" where
  "lq_api =
     \<lparr>obqIsEmptyI = (\<lambda>q. lq_posted q = []),
      obqGetFullBufferI = (\<lambda>q. case lq_posted q of [] \<Rightarrow> None | b # bs \<Rightarrow> Some b),
      obqReleaseEmptyBufferI = (\<lambda>q. q\<lparr>lq_posted := tl (lq_posted q)\<rparr>),
      obqWriteTimeout = (\<lambda>data timeout q.
        if lq_suspended q \<or> \<not> length (lq_posted q) < 4 then (0, q)
        else if length data < 32 then (length data, q\<lparr>lq_filling := data\<rparr>)
        else (length data, q\<lparr>lq_posted := lq_posted q @ [data]\<rparr>)),
      obqFlush = (\<lambda>q. if lq_filling q = [] then q else q\<lparr>lq_posted := lq_posted q @ [lq_filling q], lq_filling := []\<rparr>),
      obqResetI = (\<lambda>q. q\<lparr>lq_posted := [], lq_filling := []\<rparr>),
      bqSuspendI = (\<lambda>q. q\<lparr>lq_suspended := True\<rparr>),
      bqResumeX = (\<lambda>q. q\<lparr>lq_suspended := False\<rparr>),
      ibqGetEmptyBufferI = (\<lambda>q. length (lq_posted q) < 4),
      ibqPostFullBufferI = (\<lambda>data q. q\<lparr>lq_posted := lq_posted q @ [data]\<rparr>),
      ibqReadTimeout = (\<lambda>n timeout q.
        case lq_posted q of [] \<Rightarrow> ([], False, q)
        | b # bs \<Rightarrow> if n < length b then (take n b, False, q\<lparr>lq_posted := drop n b # bs\<rparr>) else (b, True, q\<lparr>lq_posted := bs\<rparr>)),
      ibqResetI = (\<lambda>q. q\<lparr>lq_posted := [], lq_filling := []\<rparr>)\<rparr>"

definition lq_empty :: list_queue where
  "lq_empty = \<lparr>lq_posted = [], lq_filling = [], lq_suspended = False\<rparr>"

interpretation lq: output_queue lq_api 4 32 lq_posted lq_filling lq_suspended
  by unfold_locales (auto simp: lq_api_def split: list.split if_splits)

text \<open>An endpoint after \<^verbatim>\<open>usb_endpoint_in_init\<close> and \<^verbatim>\<open>usb_endpoint_in_start\<close>.\<close>

definition usb_endpoint_in_init :: "in_endpoint \<Rightarrow> 'q \<Rightarrow> 'q usb_endpoint_in" where
  "usb_endpoint_in_init e q = \<lparr>obqueue = q, timed_out = False, report_storage = report_storage_init e, in_flight = None\<rparr>"

context output_queue
begin

lemma start_ok:
  assumes "posted q = []" "filling q = []" "\<not> suspended q"
  shows "in_order [] (usb_endpoint_in_init e q, [])" "in_step e (report_storage_init e) [] (usb_endpoint_in_init e q, [])"
  using assms keeps_start [OF reports_ok_init] by (simp_all add: in_order_def in_step_def usb_endpoint_in_init_def settled_def)

end

text \<open>
  A packet can get lost after a timeout: the queue is emptied for the fifth report while the first is still in flight; when
  the host takes the first, the callback releases the fifth, which nobody has sent.
\<close>

lemma report_lost_after_timeout:
  "map_option snd (ep_run lq_api USB_ENDPOINT_IN_RAW
      [Send True [1], Send True [2], Send True [3], Send True [4], Send True [5], Taken 0, Taken 0]
      (usb_endpoint_in_init USB_ENDPOINT_IN_RAW lq_empty, [])) = Some [[1]]"
  by (simp add: usb_endpoint_in_init_def lq_empty_def lq_api_def usb_endpoint_in_send_def send_loop.simps obnotify_def usbStartTransmitI_def
      usb_endpoint_in_tx_complete_cb_def)

end
