(* ===== verification/Usb_Out.thy ===== *)
theory Usb_Out
  imports Usb_Endpoint
begin

text \<open>
  The OUT endpoint of raw HID, \<^verbatim>\<open>tmk_core/protocol/chibios/usb_driver.c\<close>: a transaction is open while there is a free buffer; a
  packet that arrives is queued, and \<^verbatim>\<open>usb_endpoint_out_receive\<close> takes the oldest one. ChibiOS' input buffers queue is the second half
  of \<open>bq_api\<close>; the locale \<open>input_queue\<close> states its documented behaviour for packets read as a whole.
\<close>

section \<open>Model\<close>

text \<open>\<open>receiving\<close> is \<^verbatim>\<open>usbGetReceiveStatusI\<close>: the peripheral accepts a packet; otherwise the host is told to try again.\<close>

record 'q usb_endpoint_out =
  ibqueue :: 'q
  out_timed_out :: bool
  receiving :: bool

definition usb_endpoint_out_init :: "'q \<Rightarrow> 'q usb_endpoint_out" where
  "usb_endpoint_out_init q = \<lparr>ibqueue = q, out_timed_out = False, receiving = False\<rparr>"

definition usb_start_receive :: "'q bq_api \<Rightarrow> bool \<Rightarrow> 'q usb_endpoint_out \<Rightarrow> 'q usb_endpoint_out" where
  "usb_start_receive Q active ep =
     (if \<not> active \<or> receiving ep \<or> \<not> ibqGetEmptyBufferI Q (ibqueue ep) then ep else ep\<lparr>receiving := True\<rparr>)"

definition usb_endpoint_out_suspend_cb :: "'q bq_api \<Rightarrow> 'q usb_endpoint_out \<Rightarrow> 'q usb_endpoint_out" where
  "usb_endpoint_out_suspend_cb Q ep = ep\<lparr>ibqueue := ibqResetI Q (bqSuspendI Q (ibqueue ep))\<rparr>"

definition usb_endpoint_out_wakeup_cb :: "'q bq_api \<Rightarrow> 'q usb_endpoint_out \<Rightarrow> 'q usb_endpoint_out" where
  "usb_endpoint_out_wakeup_cb Q ep = ep\<lparr>ibqueue := bqResumeX Q (ibqueue ep)\<rparr>"

definition usb_endpoint_out_configure_cb :: "'q bq_api \<Rightarrow> bool \<Rightarrow> 'q usb_endpoint_out \<Rightarrow> 'q usb_endpoint_out" where
  "usb_endpoint_out_configure_cb Q active ep =
     usb_start_receive Q active (ep\<lparr>receiving := False, ibqueue := bqResumeX Q (ibqResetI Q (ibqueue ep))\<rparr>)"

definition usb_endpoint_out_rx_complete_cb :: "'q bq_api \<Rightarrow> bool \<Rightarrow> bytes \<Rightarrow> 'q usb_endpoint_out \<Rightarrow> 'q usb_endpoint_out" where
  "usb_endpoint_out_rx_complete_cb Q active data ep =
     (let ep = ep\<lparr>receiving := False\<rparr>;
          ep = (if length data > 0 then ep\<lparr>ibqueue := ibqPostFullBufferI Q data (ibqueue ep)\<rparr> else ep) in
      usb_start_receive Q active ep)"

text \<open>The queue notifies the driver (\<^verbatim>\<open>ibnotify\<close>) when the read has released a buffer.\<close>

definition usb_endpoint_out_receive ::
  "'q bq_api \<Rightarrow> bool \<Rightarrow> nat \<Rightarrow> timeout \<Rightarrow> 'q usb_endpoint_out \<Rightarrow> bytes option \<times> 'q usb_endpoint_out" where
  "usb_endpoint_out_receive Q active size' timeout ep =
     (if \<not> active then (None, ep)
      else
        let timeout = (if out_timed_out ep \<and> timeout \<noteq> TIME_INFINITE then TIME_IMMEDIATE else timeout);
            (data, released, q) = ibqReadTimeout Q size' timeout (ibqueue ep);
            ep = (if released then usb_start_receive Q active (ep\<lparr>ibqueue := q\<rparr>) else ep\<lparr>ibqueue := q\<rparr>);
            ep = ep\<lparr>out_timed_out := (length data = 0)\<rparr> in
        (if length data = size' then Some data else None, ep))"

section \<open>Runs\<close>

text \<open>
  What happens to the endpoint of a configured device: a packet arrives, which is accepted while a transaction is open, or the
  firmware asks for one. The second component is what was accepted, the third what the firmware got.
\<close>

datatype out_event = Arrived bytes | Asked

fun out_do :: "'q bq_api \<Rightarrow> out_event \<Rightarrow> 'q usb_endpoint_out \<times> bytes list \<times> bytes list \<Rightarrow> 'q usb_endpoint_out \<times> bytes list \<times> bytes list" where
  "out_do Q (Arrived data) (ep, accepted, taken) =
     (if receiving ep then (usb_endpoint_out_rx_complete_cb Q True data ep, accepted @ [data], taken) else (ep, accepted, taken))"
| "out_do Q Asked (ep, accepted, taken) =
     (case usb_endpoint_out_receive Q True RAW_EPSIZE TIME_IMMEDIATE ep of
        (None, ep) \<Rightarrow> (ep, accepted, taken)
      | (Some data, ep) \<Rightarrow> (ep, accepted, taken @ [data]))"

primrec out_event_ok :: "out_event \<Rightarrow> bool" where
  "out_event_ok (Arrived data) \<longleftrightarrow> length data = RAW_EPSIZE" | "out_event_ok Asked \<longleftrightarrow> True"

section \<open>The queue's contract\<close>

locale input_queue =
  fixes Q :: "'q bq_api" and buffer_capacity buffer_size :: nat
    and posted :: "'q \<Rightarrow> bytes list" and filling :: "'q \<Rightarrow> bytes" and suspended :: "'q \<Rightarrow> bool"
  assumes in_capacity: "0 < buffer_capacity"
    and empty_buffer: "filling q = [] \<Longrightarrow> ibqGetEmptyBufferI Q q \<longleftrightarrow> length (posted q) < buffer_capacity"
    and post_full: "\<lbrakk>filling q = []; length (posted q) < buffer_capacity; data \<noteq> []; length data \<le> buffer_size\<rbrakk> \<Longrightarrow>
      posted (ibqPostFullBufferI Q data q) = posted q @ [data] \<and> filling (ibqPostFullBufferI Q data q) = []"
    and read_nothing: "\<lbrakk>posted q = []; filling q = []; timeout \<noteq> TIME_INFINITE\<rbrakk> \<Longrightarrow> ibqReadTimeout Q n timeout q = ([], False, q)"
    and read_packet: "\<lbrakk>posted q = b # bs; filling q = []; b \<noteq> []\<rbrakk> \<Longrightarrow>
      \<exists>q'. ibqReadTimeout Q (length b) timeout q = (b, True, q') \<and> posted q' = bs \<and> filling q' = []"
    and in_reset: "posted (ibqResetI Q q) = []" "filling (ibqResetI Q q) = []"
    and in_resume: "posted (bqResumeX Q q) = posted q" "filling (bqResumeX Q q) = filling q"
begin

text \<open>
  Sound: packets of one size, none half read, never more than there are buffers; while a transaction is open there is room for
  its packet.
\<close>

definition out_ok :: "'q usb_endpoint_out \<Rightarrow> bool" where
  "out_ok ep \<longleftrightarrow> filling (ibqueue ep) = [] \<and> length (posted (ibqueue ep)) \<le> buffer_capacity
     \<and> (receiving ep \<longrightarrow> length (posted (ibqueue ep)) < buffer_capacity) \<and> (\<forall>b\<in>set (posted (ibqueue ep)). length b = buffer_size)"

lemma start_receive_eq:
  "filling (ibqueue ep) = [] \<Longrightarrow>
   usb_start_receive Q active ep = ep\<lparr>receiving := receiving ep \<or> active \<and> length (posted (ibqueue ep)) < buffer_capacity\<rparr>"
  using empty_buffer [of "ibqueue ep"] by (cases ep) (auto simp: usb_start_receive_def)

lemma out_ok_init: "posted q = [] \<Longrightarrow> filling q = [] \<Longrightarrow> out_ok (usb_endpoint_out_init q)"
  by (simp add: out_ok_def usb_endpoint_out_init_def)

lemma out_ok_start: "out_ok ep \<Longrightarrow> out_ok (usb_start_receive Q active ep)"
  by (simp add: out_ok_def start_receive_eq)

lemma out_ok_callbacks:
  assumes "out_ok ep"
  shows "out_ok (usb_endpoint_out_suspend_cb Q ep)" "out_ok (usb_endpoint_out_wakeup_cb Q ep)"
    "out_ok (usb_endpoint_out_configure_cb Q active ep)" "out_ok (ep\<lparr>receiving := False\<rparr>)"
  using assms in_capacity
  by (simp_all add: usb_endpoint_out_suspend_cb_def usb_endpoint_out_wakeup_cb_def usb_endpoint_out_configure_cb_def start_receive_eq
      out_ok_def in_reset in_resume)

text \<open>A packet that is accepted is queued behind the others.\<close>

lemma out_arrived:
  assumes "out_ok ep" "receiving ep" "length data = buffer_size" "0 < buffer_size"
  shows "out_ok (usb_endpoint_out_rx_complete_cb Q active data ep)"
    "posted (ibqueue (usb_endpoint_out_rx_complete_cb Q active data ep)) = posted (ibqueue ep) @ [data]"
    "receiving (usb_endpoint_out_rx_complete_cb Q active data ep) \<longleftrightarrow> active \<and> Suc (length (posted (ibqueue ep))) < buffer_capacity"
proof -
  have "data \<noteq> []" using assms(3,4) by auto
  then have p: "posted (ibqPostFullBufferI Q data (ibqueue ep)) = posted (ibqueue ep) @ [data]" "filling (ibqPostFullBufferI Q data (ibqueue ep)) = []"
    using post_full [of "ibqueue ep" data] assms by (auto simp: out_ok_def)
  then have e: "usb_endpoint_out_rx_complete_cb Q active data ep = ep\<lparr>ibqueue := ibqPostFullBufferI Q data (ibqueue ep),
      receiving := active \<and> Suc (length (posted (ibqueue ep))) < buffer_capacity\<rparr>"
    using assms(3,4) by (simp add: usb_endpoint_out_rx_complete_cb_def start_receive_eq)
  show "out_ok (usb_endpoint_out_rx_complete_cb Q active data ep)"
    "posted (ibqueue (usb_endpoint_out_rx_complete_cb Q active data ep)) = posted (ibqueue ep) @ [data]"
    "receiving (usb_endpoint_out_rx_complete_cb Q active data ep) \<longleftrightarrow> active \<and> Suc (length (posted (ibqueue ep))) < buffer_capacity"
    using assms p unfolding e by (auto simp: out_ok_def)
qed

text \<open>The firmware takes the oldest packet, and the endpoint is open again.\<close>

lemma out_receive:
  assumes "out_ok ep" "0 < buffer_size" "timeout \<noteq> TIME_INFINITE"
  obtains (nothing) ep' where "usb_endpoint_out_receive Q active buffer_size timeout ep = (None, ep')" "out_ok ep'"
      "posted (ibqueue ep') = posted (ibqueue ep)" "receiving ep' = receiving ep" "active \<Longrightarrow> posted (ibqueue ep) = []"
    | (packet) b bs ep' where "usb_endpoint_out_receive Q active buffer_size timeout ep = (Some b, ep')" "out_ok ep'"
      "posted (ibqueue ep) = b # bs" "posted (ibqueue ep') = bs" "receiving ep'" "active"
proof (cases active)
  case False
  then have "usb_endpoint_out_receive Q active buffer_size timeout ep = (None, ep)" by (simp add: usb_endpoint_out_receive_def)
  show thesis by (rule nothing) (use False assms(1) \<open>_ = (None, ep)\<close> in simp_all)
next
  case True
  have f: "filling (ibqueue ep) = []" using assms(1) by (simp add: out_ok_def)
  show thesis
  proof (cases "posted (ibqueue ep)")
    case Nil
    have "usb_endpoint_out_receive Q active buffer_size timeout ep = (None, ep\<lparr>out_timed_out := True\<rparr>)"
      using True assms(2,3) f Nil by (simp add: usb_endpoint_out_receive_def Let_def read_nothing)
    moreover have "out_ok (ep\<lparr>out_timed_out := True\<rparr>)" using assms(1) by (simp add: out_ok_def)
    ultimately show thesis by (rule nothing) (simp_all add: Nil)
  next
    case (Cons b bs)
    then have b: "length b = buffer_size" "b \<noteq> []" using assms(1,2) by (auto simp: out_ok_def)
    define t where "t = (if out_timed_out ep \<and> timeout \<noteq> TIME_INFINITE then TIME_IMMEDIATE else timeout)"
    obtain q' where q': "ibqReadTimeout Q buffer_size t (ibqueue ep) = (b, True, q')" "posted q' = bs" "filling q' = []"
      using read_packet [OF Cons f b(2), of t] b(1) by auto
    define ep' where "ep' = (usb_start_receive Q True (ep\<lparr>ibqueue := q'\<rparr>))\<lparr>out_timed_out := False\<rparr>"
    have l: "length bs < buffer_capacity" using assms(1) Cons by (simp add: out_ok_def)
    have "out_ok (ep\<lparr>ibqueue := q'\<rparr>)" using assms(1) Cons q' l by (simp add: out_ok_def)
    then have ep': "out_ok ep'" "posted (ibqueue ep') = bs" "receiving ep'"
      using q' l by (simp_all add: ep'_def start_receive_eq out_ok_def)
    have "usb_endpoint_out_receive Q active buffer_size timeout ep = (Some b, ep')"
      using True b q'(1) by (simp add: usb_endpoint_out_receive_def Let_def ep'_def flip: t_def)
    then show thesis using packet ep' Cons True by blast
  qed
qed

text \<open>Nothing accepted is lost or reordered, and the endpoint is open exactly while there is room.\<close>

definition out_inv :: "'q usb_endpoint_out \<times> bytes list \<times> bytes list \<Rightarrow> bool" where
  "out_inv s \<longleftrightarrow> (case s of (ep, accepted, taken) \<Rightarrow> out_ok ep \<and> accepted = taken @ posted (ibqueue ep)
     \<and> (receiving ep \<longleftrightarrow> length (posted (ibqueue ep)) < buffer_capacity))"

lemma out_inv_do:
  assumes "out_inv s" "out_event_ok ev" "RAW_EPSIZE = buffer_size"
  shows "out_inv (out_do Q ev s)"
proof -
  obtain ep accepted taken where s: "s = (ep, accepted, taken)" by (cases s)
  have i: "out_ok ep" "accepted = taken @ posted (ibqueue ep)" "receiving ep \<longleftrightarrow> length (posted (ibqueue ep)) < buffer_capacity"
    using assms(1) by (simp_all add: s out_inv_def)
  have r: "0 < buffer_size" by (simp add: RAW_EPSIZE_def flip: assms(3))
  show ?thesis
  proof (cases ev)
    case (Arrived data)
    then show ?thesis using i out_arrived [OF i(1) _ _ r, of data True] assms(2) by (auto simp: s out_inv_def assms(3))
  next
    case Asked
    from i(1) r show ?thesis
    proof (rule out_receive [of _ TIME_IMMEDIATE True])
      fix ep'
      assume "usb_endpoint_out_receive Q True buffer_size TIME_IMMEDIATE ep = (None, ep')" "out_ok ep'"
        "posted (ibqueue ep') = posted (ibqueue ep)" "receiving ep' = receiving ep"
      then show ?thesis using i by (simp add: s Asked out_inv_def assms(3))
    next
      fix b bs ep'
      assume p: "usb_endpoint_out_receive Q True buffer_size TIME_IMMEDIATE ep = (Some b, ep')" "out_ok ep'"
        "posted (ibqueue ep) = b # bs" "posted (ibqueue ep') = bs" "receiving ep'"
      have "length (posted (ibqueue ep')) < buffer_capacity" using i(1) p(3,4) by (simp add: out_ok_def)
      then show ?thesis using i p by (simp add: s Asked out_inv_def assms(3))
    qed simp
  qed
qed

lemma out_inv_run:
  assumes "RAW_EPSIZE = buffer_size"
  shows "out_inv s \<Longrightarrow> list_all out_event_ok evs \<Longrightarrow> out_inv (fold (out_do Q) evs s)"
  by (induction evs arbitrary: s) (simp_all add: out_inv_do [OF _ _ assms])

lemma out_inv_configured:
  "posted q = [] \<Longrightarrow> filling q = [] \<Longrightarrow> out_inv (usb_endpoint_out_configure_cb Q True (usb_endpoint_out_init q), [], [])"
  using in_capacity out_ok_callbacks(3) [OF out_ok_init, of q True]
  by (simp add: out_inv_def) (simp add: usb_endpoint_out_configure_cb_def usb_endpoint_out_init_def start_receive_eq in_reset in_resume)

end

interpretation li: input_queue lq_api 4 32 lq_posted lq_filling lq_suspended
  by unfold_locales (auto simp: lq_api_def)

end
