(* ===== verification/Timer.thy ===== *)
theory Timer
  imports Prelude
begin

text \<open>
  The millisecond clock of \<^verbatim>\<open>platforms/chibios/timer.c\<close>, \<^verbatim>\<open>platforms/timer.c\<close> and \<^verbatim>\<open>platforms/timer.h\<close> with the
  settings of \<^verbatim>\<open>boards/common/configs/chconf.h\<close>: a 32-bit tick counter of 100 kHz. The counter of ChibiOS
  (\<^verbatim>\<open>chVTGetSystemTimeX\<close>) is the argument \<open>systime\<close>, its macro \<^verbatim>\<open>TIME_I2MS\<close> the argument \<open>i2ms\<close>; the locale
  \<open>time_conversion\<close> states what the manual of ChibiOS says of it.
\<close>

section \<open>Model\<close>

definition CH_CFG_ST_FREQUENCY :: nat where [hw_defs]: "CH_CFG_ST_FREQUENCY = 100000"

record systimer =
  ticks_offset :: u32
  last_ticks :: u32
  ms_offset :: u32
  saved_ms :: u32

definition timer_power_on :: systimer where
  "timer_power_on = \<lparr>ticks_offset = 0, last_ticks = 0, ms_offset = 0, saved_ms = 0\<rparr>"

text \<open>The highest multiple of the frequency that fits into 32 bits, and its time.\<close>

definition OVERFLOW_ADJUST_TICKS :: u32 where
  "OVERFLOW_ADJUST_TICKS = word_of_nat (unat (-1 :: u32) div CH_CFG_ST_FREQUENCY * CH_CFG_ST_FREQUENCY)"

definition OVERFLOW_ADJUST_MS :: "(u32 \<Rightarrow> u32) \<Rightarrow> u32" where
  "OVERFLOW_ADJUST_MS i2ms = i2ms OVERFLOW_ADJUST_TICKS"

definition timer_clear :: "u32 \<Rightarrow> systimer \<Rightarrow> systimer" where
  "timer_clear systime t = t\<lparr>ticks_offset := systime, last_ticks := 0, ms_offset := 0\<rparr>"

definition timer_init :: "u32 \<Rightarrow> systimer \<Rightarrow> systimer" where
  "timer_init systime t = timer_clear systime t"

definition timer_read32 :: "(u32 \<Rightarrow> u32) \<Rightarrow> u32 \<Rightarrow> systimer \<Rightarrow> u32 \<times> systimer" where
  "timer_read32 i2ms systime t =
     (let ticks = systime - ticks_offset t;
          (ticks, t) = (if ticks < last_ticks t
            then (ticks - OVERFLOW_ADJUST_TICKS,
                  t\<lparr>ticks_offset := ticks_offset t + OVERFLOW_ADJUST_TICKS, ms_offset := ms_offset t + OVERFLOW_ADJUST_MS i2ms\<rparr>)
            else (ticks, t))
      in (i2ms ticks + ms_offset t, t\<lparr>last_ticks := ticks\<rparr>))"

definition timer_read16 :: "(u32 \<Rightarrow> u32) \<Rightarrow> u32 \<Rightarrow> systimer \<Rightarrow> u16 \<times> systimer" where
  "timer_read16 i2ms systime t = map_prod ucast id (timer_read32 i2ms systime t)"

definition timer_save :: "(u32 \<Rightarrow> u32) \<Rightarrow> u32 \<Rightarrow> systimer \<Rightarrow> systimer" where
  "timer_save i2ms systime t = (let (now, t) = timer_read32 i2ms systime t in t\<lparr>saved_ms := now\<rparr>)"

definition timer_restore :: "u32 \<Rightarrow> systimer \<Rightarrow> systimer" where
  "timer_restore systime t = t\<lparr>ticks_offset := systime, last_ticks := 0, ms_offset := saved_ms t\<rparr>"

definition TIMER_DIFF_16 :: "u16 \<Rightarrow> u16 \<Rightarrow> u16" where "TIMER_DIFF_16 a b = a - b"
definition TIMER_DIFF_32 :: "u32 \<Rightarrow> u32 \<Rightarrow> u32" where "TIMER_DIFF_32 a b = a - b"

definition timer_elapsed16 :: "(u32 \<Rightarrow> u32) \<Rightarrow> u32 \<Rightarrow> u16 \<Rightarrow> systimer \<Rightarrow> u16 \<times> systimer" where
  "timer_elapsed16 i2ms systime since t = map_prod (\<lambda>now. TIMER_DIFF_16 now since) id (timer_read16 i2ms systime t)"

definition timer_elapsed32 :: "(u32 \<Rightarrow> u32) \<Rightarrow> u32 \<Rightarrow> u32 \<Rightarrow> systimer \<Rightarrow> u32 \<times> systimer" where
  "timer_elapsed32 i2ms systime since t = map_prod (\<lambda>now. TIMER_DIFF_32 now since) id (timer_read32 i2ms systime t)"

definition timer_expired :: "u16 \<Rightarrow> u16 \<Rightarrow> bool" where
  "timer_expired current future \<longleftrightarrow> current - future < 0xFFFF div 2"

definition timer_expired32 :: "u32 \<Rightarrow> u32 \<Rightarrow> bool" where
  "timer_expired32 current future \<longleftrightarrow> current - future < 0xFFFFFFFF div 2"

section \<open>Correctness\<close>

text \<open>
  \<^verbatim>\<open>TIME_I2MS\<close> converts ticks to milliseconds, rounding up. Over a run, the number of ticks since the reset of
  the chip is unbounded; the hardware shows its low 32 bits.
\<close>

locale time_conversion =
  fixes i2ms :: "u32 \<Rightarrow> u32"
  assumes rounds_up: "unat (i2ms n) = (unat n * 1000 + (CH_CFG_ST_FREQUENCY - 1)) div CH_CFG_ST_FREQUENCY"

definition ms_of_ticks :: "nat \<Rightarrow> nat" where
  "ms_of_ticks n = (n + 99) div 100"

primrec timer_reads :: "(u32 \<Rightarrow> u32) \<Rightarrow> nat list \<Rightarrow> systimer \<Rightarrow> u32 list \<times> systimer" where
  "timer_reads i2ms [] t = ([], t)"
| "timer_reads i2ms (n # ns) t =
     (let (v, t) = timer_read32 i2ms (word_of_nat n) t; (vs, t) = timer_reads i2ms ns t in (v # vs, t))"

definition adjust :: nat where "adjust = 4294900000"

lemma adjust_ticks: "OVERFLOW_ADJUST_TICKS = word_of_nat adjust" "unat OVERFLOW_ADJUST_TICKS = adjust"
  by (simp_all add: OVERFLOW_ADJUST_TICKS_def adjust_def hw_defs unsigned_minus_1_eq_mask mask_eq_exp_minus_1)

text \<open>The clock after \<open>k\<close> corrections, last read at tick \<open>n\<close>, started at tick \<open>s\<close> with \<open>base\<close> milliseconds.\<close>

definition clock_at :: "nat \<Rightarrow> u32 \<Rightarrow> nat \<Rightarrow> nat \<Rightarrow> systimer \<Rightarrow> bool" where
  "clock_at s base n k t \<longleftrightarrow> s + k * adjust \<le> n \<and> n - (s + k * adjust) < 2 ^ 32
     \<and> ticks_offset t = word_of_nat (s + k * adjust) \<and> last_ticks t = word_of_nat (n - (s + k * adjust))
     \<and> ms_offset t = base + word_of_nat (k * (adjust div 100))"

lemma clock_at_clear: "clock_at s 0 s 0 (timer_clear (word_of_nat s) t)"
  by (simp add: clock_at_def timer_clear_def)

lemma clock_at_restore: "clock_at s (saved_ms t) s 0 (timer_restore (word_of_nat s) t)"
  by (simp add: clock_at_def timer_restore_def)

lemma unat_word_of_nat_32: "n < 2 ^ 32 \<Longrightarrow> unat (word_of_nat n :: u32) = n"
  by (simp add: unat_of_nat)

context time_conversion
begin

lemma i2ms_ticks: "n < 2 ^ 32 \<Longrightarrow> i2ms (word_of_nat n) = word_of_nat (ms_of_ticks n)"
proof -
  assume n: "n < 2 ^ 32"
  have "unat (i2ms (word_of_nat n)) = ms_of_ticks n"
    unfolding rounds_up unat_word_of_nat_32 [OF n] ms_of_ticks_def by (simp add: hw_defs)
  then have "word_of_nat (unat (i2ms (word_of_nat n))) = (word_of_nat (ms_of_ticks n) :: u32)" by simp
  then show ?thesis by simp
qed

lemma ms_split: "word_of_nat (ms_of_ticks n) + word_of_nat (k * (adjust div 100)) = (word_of_nat (ms_of_ticks (n + k * adjust)) :: u32)"
proof -
  have "ms_of_ticks (n + k * adjust) = ms_of_ticks n + k * (adjust div 100)"
    by (simp add: ms_of_ticks_def adjust_def)
  then show ?thesis by simp
qed

lemma timer_read32_at:
  assumes "clock_at s base n k t" "n \<le> n'" "n' - n \<le> adjust"
  shows "fst (timer_read32 i2ms (word_of_nat n') t) = base + word_of_nat (ms_of_ticks (n' - s))"
    and "\<exists>k'. clock_at s base n' k' (snd (timer_read32 i2ms (word_of_nat n') t))"
proof -
  let ?o = "s + k * adjust" and ?r = "timer_read32 i2ms (word_of_nat n') t"
  have n: "?o \<le> n" "n - ?o < 2 ^ 32" "ticks_offset t = word_of_nat ?o" "last_ticks t = word_of_nat (n - ?o)"
    "ms_offset t = base + word_of_nat (k * (adjust div 100))" using assms(1) by (auto simp: clock_at_def)
  have d: "word_of_nat n' - ticks_offset t = (word_of_nat (n' - ?o) :: u32)"
    using n(1) assms(2) unfolding n(3) by (subst of_nat_diff) auto
  have last: "unat (last_ticks t) = n - ?o" unfolding n(4) by (rule unat_word_of_nat_32 [OF n(2)])
  have tot: "base + word_of_nat (k * (adjust div 100)) + word_of_nat (ms_of_ticks (n' - ?o)) = base + word_of_nat (ms_of_ticks (n' - s))"
    using ms_split [of "n' - ?o" k] n(1) assms(2) by (simp add: add.commute add.left_commute)
  show "fst ?r = base + word_of_nat (ms_of_ticks (n' - s))" "\<exists>k'. clock_at s base n' k' (snd ?r)"
  proof (atomize (full), cases "n' - ?o < 2 ^ 32")
    case True
    then have "\<not> word_of_nat (n' - ?o) < last_ticks t"
      using assms(2) by (simp add: word_less_nat_alt last unat_word_of_nat_32)
    then have r: "?r = (i2ms (word_of_nat (n' - ?o)) + ms_offset t, t\<lparr>last_ticks := word_of_nat (n' - ?o)\<rparr>)"
      by (simp add: timer_read32_def d Let_def)
    have "clock_at s base n' k (snd ?r)" using n True assms(2) by (simp add: r clock_at_def)
    moreover have "fst ?r = base + word_of_nat (ms_of_ticks (n' - s))"
      using tot by (simp add: r i2ms_ticks [OF True] n(5) add.commute add.left_commute)
    ultimately show "fst ?r = base + word_of_nat (ms_of_ticks (n' - s)) \<and> (\<exists>k'. clock_at s base n' k' (snd ?r))" by blast
  next
    case False
    let ?a = "n' - ?o" and ?k = "Suc k"
    have a: "2 ^ 32 \<le> ?a" "?a - adjust < 2 ^ 32" "?a - 2 ^ 32 < n - ?o" "adjust \<le> ?a"
      using False n(1,2) assms(2,3) by (auto simp: adjust_def)
    have "word_of_nat ?a = (word_of_nat (?a - 2 ^ 32) :: u32)"
      using a(1) by (subst of_nat_diff) auto
    moreover have "?a - 2 ^ 32 < 2 ^ 32" using a(3) n(2) by linarith
    ultimately have "word_of_nat ?a < last_ticks t"
      using a(3) by (simp add: word_less_nat_alt last unat_word_of_nat_32)
    moreover have w: "word_of_nat ?a - OVERFLOW_ADJUST_TICKS = (word_of_nat (?a - adjust) :: u32)"
      unfolding adjust_ticks using a(4) by (subst of_nat_diff) auto
    ultimately have r: "?r = (i2ms (word_of_nat (?a - adjust)) + (ms_offset t + OVERFLOW_ADJUST_MS i2ms),
        t\<lparr>ticks_offset := ticks_offset t + OVERFLOW_ADJUST_TICKS, ms_offset := ms_offset t + OVERFLOW_ADJUST_MS i2ms,
          last_ticks := word_of_nat (?a - adjust)\<rparr>)"
      by (simp add: timer_read32_def d)
    have m: "OVERFLOW_ADJUST_MS i2ms = word_of_nat (adjust div 100)"
      unfolding OVERFLOW_ADJUST_MS_def adjust_ticks(1) by (subst i2ms_ticks) (simp_all add: adjust_def ms_of_ticks_def)
    have o: "s + ?k * adjust = ?o + adjust" "n' - (?o + adjust) = ?a - adjust" by simp_all
    have ms: "ms_offset t + OVERFLOW_ADJUST_MS i2ms = base + word_of_nat (?k * (adjust div 100))"
      unfolding m n(5) by (simp add: algebra_simps)
    have "clock_at s base n' ?k (snd ?r)"
      unfolding clock_at_def o using a n(1,3) assms(2) ms by (simp add: r adjust_ticks)
    moreover have "fst ?r = base + word_of_nat (ms_of_ticks (n' - s))"
    proof -
      have "?a - adjust + ?k * adjust = n' - s" using a(4) n(1) assms(2) by simp
      then have "word_of_nat (ms_of_ticks (?a - adjust)) + word_of_nat (?k * (adjust div 100)) = (word_of_nat (ms_of_ticks (n' - s)) :: u32)"
        using ms_split [of "?a - adjust" ?k] by (simp only:)
      then show ?thesis by (simp only: r fst_conv i2ms_ticks [OF a(2)] ms add.left_commute)
    qed
    ultimately show "fst ?r = base + word_of_nat (ms_of_ticks (n' - s)) \<and> (\<exists>k'. clock_at s base n' k' (snd ?r))" by blast
  qed
qed

lemma timer_reads_at:
  assumes "clock_at s base n k t" "sorted (n # ns)" "\<And>i. i < length ns \<Longrightarrow> ns ! i - (n # ns) ! i \<le> adjust"
  shows "fst (timer_reads i2ms ns t) = map (\<lambda>m. base + word_of_nat (ms_of_ticks (m - s))) ns"
  using assms
proof (induction ns arbitrary: n k t)
  case (Cons m ns)
  have g: "n \<le> m" "m - n \<le> adjust" using Cons.prems(2) Cons.prems(3) [of 0] by auto
  obtain k' where k': "clock_at s base m k' (snd (timer_read32 i2ms (word_of_nat m) t))"
    using timer_read32_at(2) [OF Cons.prems(1) g] by blast
  have "fst (timer_reads i2ms ns (snd (timer_read32 i2ms (word_of_nat m) t))) = map (\<lambda>m. base + word_of_nat (ms_of_ticks (m - s))) ns"
    by (rule Cons.IH [OF k']) (use Cons.prems(2) Cons.prems(3) [of "Suc _"] in auto)
  then show ?case using timer_read32_at(1) [OF Cons.prems(1) g] by (simp add: split_beta)
qed simp

end

text \<open>The conversion of ChibiOS' manual, computed.\<close>

definition ceil_i2ms :: "u32 \<Rightarrow> u32" where
  "ceil_i2ms n = word_of_nat ((unat n * 1000 + 99999) div 100000)"

interpretation ceil_time: time_conversion ceil_i2ms
proof
  fix n :: u32
  have "unat n < 2 ^ LENGTH(32)" by (rule unsigned_less)
  then have "(unat n * 1000 + 99999) div 100000 < 2 ^ 32" by simp
  then show "unat (ceil_i2ms n) = (unat n * 1000 + (CH_CFG_ST_FREQUENCY - 1)) div CH_CFG_ST_FREQUENCY"
    by (simp add: ceil_i2ms_def hw_defs unat_of_nat)
qed

end
