(* ===== verification/Usb_Device.thy ===== *)
theory Usb_Device
  imports Usb_Out Timer
begin

text \<open>
  The device's side of the control pipe and of the bus events: \<^verbatim>\<open>tmk_core/protocol/usb_device_state.c\<close>, the event queue,
  the event and request callbacks of \<^verbatim>\<open>protocol/chibios/usb_main.c\<close>, the descriptor lookup of \<^verbatim>\<open>usb_descriptor.c\<close>, and the
  callbacks and the idle task of \<^verbatim>\<open>usb_report_handling.c\<close>. The numbers of the USB and HID standards that ChibiOS and LUFA
  name (\<^verbatim>\<open>USB_RTYPE_...\<close>, \<^verbatim>\<open>HID_REQ_...\<close>, \<^verbatim>\<open>DTYPE_...\<close>) are constructors here; \<^verbatim>\<open>usbSetupTransfer\<close> is the result
  \<open>transfer\<close> of a callback, no transfer is the result \<^verbatim>\<open>false\<close>.
\<close>

section \<open>Device state\<close>

datatype usb_configure_state_t =
  USB_DEVICE_STATE_NO_INIT | USB_DEVICE_STATE_INIT | USB_DEVICE_STATE_CONFIGURED | USB_DEVICE_STATE_SUSPEND

datatype usb_hid_protocol_t = USB_PROTOCOL_BOOT | USB_PROTOCOL_REPORT

record usb_device_state =
  ds_idle_rate :: u8
  ds_leds :: u8
  ds_protocol :: usb_hid_protocol_t
  ds_configure_state :: usb_configure_state_t

definition usb_device_state_reset :: usb_device_state where
  "usb_device_state_reset =
     \<lparr>ds_idle_rate = 0, ds_leds = 0, ds_protocol = USB_PROTOCOL_REPORT, ds_configure_state = USB_DEVICE_STATE_NO_INIT\<rparr>"

definition usb_device_state_set_configuration :: "bool \<Rightarrow> u8 \<Rightarrow> usb_device_state \<Rightarrow> usb_device_state" where
  "usb_device_state_set_configuration is_configured configuration_number d =
     d\<lparr>ds_configure_state := if is_configured then USB_DEVICE_STATE_CONFIGURED else USB_DEVICE_STATE_INIT\<rparr>"

definition usb_device_state_set_suspend :: "bool \<Rightarrow> u8 \<Rightarrow> usb_device_state \<Rightarrow> usb_device_state" where
  "usb_device_state_set_suspend is_configured configuration_number d = d\<lparr>ds_configure_state := USB_DEVICE_STATE_SUSPEND\<rparr>"

definition usb_device_state_set_resume :: "bool \<Rightarrow> u8 \<Rightarrow> usb_device_state \<Rightarrow> usb_device_state" where
  "usb_device_state_set_resume is_configured configuration_number d =
     d\<lparr>ds_configure_state := if is_configured then USB_DEVICE_STATE_CONFIGURED else USB_DEVICE_STATE_INIT\<rparr>"

definition usb_device_state_set_reset :: "usb_device_state \<Rightarrow> usb_device_state" where
  "usb_device_state_set_reset d = d\<lparr>ds_configure_state := USB_DEVICE_STATE_INIT\<rparr>"

definition usb_device_state_init :: "usb_device_state \<Rightarrow> usb_device_state" where
  "usb_device_state_init d = d\<lparr>ds_configure_state := USB_DEVICE_STATE_INIT\<rparr>"

text \<open>The protocol comes as a number; only 0 is the boot protocol.\<close>

definition usb_device_state_set_protocol :: "u8 \<Rightarrow> usb_device_state \<Rightarrow> usb_device_state" where
  "usb_device_state_set_protocol protocol d =
     d\<lparr>ds_protocol := if protocol = 0 then USB_PROTOCOL_BOOT else USB_PROTOCOL_REPORT\<rparr>"

definition usb_device_state_set_leds :: "u8 \<Rightarrow> usb_device_state \<Rightarrow> usb_device_state" where
  "usb_device_state_set_leds leds d = d\<lparr>ds_leds := leds\<rparr>"

definition usb_device_state_set_idle_rate :: "u8 \<Rightarrow> usb_device_state \<Rightarrow> usb_device_state" where
  "usb_device_state_set_idle_rate idle_rate d = d\<lparr>ds_idle_rate := idle_rate\<rparr>"

primrec protocol_number :: "usb_hid_protocol_t \<Rightarrow> u8" where
  "protocol_number USB_PROTOCOL_BOOT = 0"
| "protocol_number USB_PROTOCOL_REPORT = 1"

section \<open>State\<close>

datatype usbevent_t =
  USB_EVENT_RESET | USB_EVENT_ADDRESS | USB_EVENT_CONFIGURED | USB_EVENT_UNCONFIGURED | USB_EVENT_SUSPEND | USB_EVENT_WAKEUP | USB_EVENT_STALLED

definition USB_EVENT_QUEUE_SIZE :: nat where [hw_defs]: "USB_EVENT_QUEUE_SIZE = 16"

text \<open>
  The variables of \<^verbatim>\<open>usb_main.c\<close>, the endpoints, and the static buffers of the callbacks. Raw HID has the only OUT endpoint
  (\<^verbatim>\<open>usb_endpoints_out[USB_ENDPOINT_OUT_RAW]\<close>).
\<close>

record 'q usb =
  device :: usb_device_state
  usb_event_queue :: "usbevent_t list"
  event_queue_head :: u8
  event_queue_tail :: u8
  last_suspend_state :: bool
  run_idle_task :: bool
  usb_endpoints_in :: "in_endpoint \<Rightarrow> 'q usb_endpoint_in"
  raw_out :: "'q usb_endpoint_out"
  get_report_buf :: usb_fs_report_t
  idle_report_buf :: usb_fs_report_t
  set_report_buf :: bytes

definition zero_report :: usb_fs_report_t where
  "zero_report = \<lparr>fs_idle_rate = 0, fs_last_report = 0, fs_data = replicate 64 0, fs_length = 0\<rparr>"

definition usb_power_on :: "'q \<Rightarrow> 'q usb" where
  "usb_power_on q =
     \<lparr>device = usb_device_state_reset, usb_event_queue = replicate USB_EVENT_QUEUE_SIZE USB_EVENT_RESET,
      event_queue_head = 0, event_queue_tail = 0, last_suspend_state = False, run_idle_task = False,
      usb_endpoints_in = (\<lambda>e. usb_endpoint_in_init e q), raw_out = usb_endpoint_out_init q, get_report_buf = zero_report, idle_report_buf = zero_report,
      set_report_buf = [0, 0]\<rparr>"

section \<open>The event queue\<close>

definition usb_event_queue_init :: "'q usb \<Rightarrow> 'q usb" where
  "usb_event_queue_init u =
     u\<lparr>usb_event_queue := replicate USB_EVENT_QUEUE_SIZE USB_EVENT_RESET, event_queue_head := 0, event_queue_tail := 0\<rparr>"

definition next_slot :: "u8 \<Rightarrow> u8" where
  "next_slot i = word_of_nat ((unat i + 1) mod USB_EVENT_QUEUE_SIZE)"

definition usb_event_queue_enqueue :: "usbevent_t \<Rightarrow> 'q usb \<Rightarrow> bool \<times> 'q usb" where
  "usb_event_queue_enqueue event u =
     (let next = next_slot (event_queue_head u) in
      if next = event_queue_tail u then (False, u)
      else (True, u\<lparr>usb_event_queue := (usb_event_queue u)[unat (event_queue_head u) := event], event_queue_head := next\<rparr>))"

definition usb_event_queue_dequeue :: "'q usb \<Rightarrow> (usbevent_t \<times> 'q usb) option" where
  "usb_event_queue_dequeue u =
     (if event_queue_head u = event_queue_tail u then None
      else Some (usb_event_queue u ! unat (event_queue_tail u), u\<lparr>event_queue_tail := next_slot (event_queue_tail u)\<rparr>))"

text \<open>The interrupt side, \<^verbatim>\<open>usb_event_cb\<close>.\<close>

definition each_endpoint :: "(in_endpoint \<Rightarrow> 'q usb_endpoint_in \<Rightarrow> 'q usb_endpoint_in) \<Rightarrow> 'q usb \<Rightarrow> 'q usb" where
  "each_endpoint f u = fold (\<lambda>e u. u\<lparr>usb_endpoints_in := (usb_endpoints_in u)(e := f e (usb_endpoints_in u e))\<rparr>) all_in_endpoints u"

definition on_raw_out :: "('q usb_endpoint_out \<Rightarrow> 'q usb_endpoint_out) \<Rightarrow> 'q usb \<Rightarrow> 'q usb" where
  "on_raw_out f u = u\<lparr>raw_out := f (raw_out u)\<rparr>"

text \<open>When the host configures the device, the driver is active before the callback runs.\<close>

definition usb_event_cb :: "'q bq_api \<Rightarrow> usbevent_t \<Rightarrow> 'q usb \<Rightarrow> 'q usb" where
  "usb_event_cb Q event u =
     (case event of
        USB_EVENT_ADDRESS \<Rightarrow> u
      | USB_EVENT_CONFIGURED \<Rightarrow>
          let u = on_raw_out (usb_endpoint_out_configure_cb Q True) (each_endpoint (\<lambda>e. usb_endpoint_in_configure_cb Q) u);
              u = (if last_suspend_state u then snd (usb_event_queue_enqueue USB_EVENT_WAKEUP u) else u) in
          snd (usb_event_queue_enqueue USB_EVENT_CONFIGURED u)
      | USB_EVENT_WAKEUP \<Rightarrow>
          snd (usb_event_queue_enqueue USB_EVENT_WAKEUP
            (on_raw_out (usb_endpoint_out_wakeup_cb Q) (each_endpoint (\<lambda>e. usb_endpoint_in_wakeup_cb Q) u)))
      | USB_EVENT_STALLED \<Rightarrow> u
      | _ \<Rightarrow> on_raw_out (usb_endpoint_out_suspend_cb Q)
          (each_endpoint (usb_endpoint_in_suspend_cb Q) (snd (usb_event_queue_enqueue event u))))"

text \<open>
  What the main thread does with an event, but for \<^verbatim>\<open>suspend_wakeup_init\<close>, which the main loop adds; \<open>configuration\<close> is
  \<^verbatim>\<open>USB_DRIVER.configuration\<close>.
\<close>

definition handle_event :: "u8 \<Rightarrow> usbevent_t \<Rightarrow> 'q usb \<Rightarrow> 'q usb" where
  "handle_event configuration event u =
     (case event of
        USB_EVENT_SUSPEND \<Rightarrow> u\<lparr>last_suspend_state := True, device := usb_device_state_set_suspend (configuration \<noteq> 0) configuration (device u)\<rparr>
      | USB_EVENT_WAKEUP \<Rightarrow> u\<lparr>last_suspend_state := False, device := usb_device_state_set_resume (configuration \<noteq> 0) configuration (device u)\<rparr>
      | USB_EVENT_CONFIGURED \<Rightarrow> u\<lparr>device := usb_device_state_set_configuration (configuration \<noteq> 0) configuration (device u)\<rparr>
      | USB_EVENT_UNCONFIGURED \<Rightarrow> u\<lparr>device := usb_device_state_set_configuration False 0 (device u)\<rparr>
      | USB_EVENT_RESET \<Rightarrow> u\<lparr>device := usb_device_state_set_protocol (protocol_number USB_PROTOCOL_REPORT) (usb_device_state_set_reset (device u))\<rparr>
      | _ \<Rightarrow> u)"

section \<open>Control requests\<close>

datatype rtype_dir = USB_RTYPE_DIR_DEV2HOST | USB_RTYPE_DIR_HOST2DEV
datatype rtype_type = USB_RTYPE_TYPE_STD | USB_RTYPE_TYPE_CLASS | USB_RTYPE_TYPE_VENDOR | USB_RTYPE_TYPE_RESERVED
datatype rtype_recipient = USB_RTYPE_RECIPIENT_DEVICE | USB_RTYPE_RECIPIENT_INTERFACE | USB_RTYPE_RECIPIENT_ENDPOINT | USB_RTYPE_RECIPIENT_OTHER

datatype request =
    HID_REQ_GetReport | HID_REQ_GetIdle | HID_REQ_GetProtocol | HID_REQ_SetReport | HID_REQ_SetIdle | HID_REQ_SetProtocol
  | USB_REQ_GET_DESCRIPTOR | Other_Request u8

record usb_control_request_t =
  rq_dir :: rtype_dir
  rq_type :: rtype_type
  rq_recipient :: rtype_recipient
  bRequest :: request
  wValue_lbyte :: u8
  wValue_hbyte :: u8
  wIndex :: u16
  wLength :: u16

datatype descriptor_type = DTYPE_Device | DTYPE_Configuration | DTYPE_String | HID_DTYPE_HID | HID_DTYPE_Report | Other_Descriptor

datatype descriptor =
    DeviceDescriptor | ConfigurationDescriptor | LanguageString | ManufacturerString | ProductString
  | Shared_HID | Raw_HID | Console_HID | Report_Descriptor "hid_item list"

text \<open>\<^verbatim>\<open>get_usb_descriptor\<close>; this keyboard has no serial number.\<close>

definition get_usb_descriptor :: "descriptor_type \<Rightarrow> u8 \<Rightarrow> u16 \<Rightarrow> descriptor option" where
  "get_usb_descriptor DescriptorType DescriptorIndex index =
     (case DescriptorType of
        DTYPE_Device \<Rightarrow> Some DeviceDescriptor
      | DTYPE_Configuration \<Rightarrow> Some ConfigurationDescriptor
      | DTYPE_String \<Rightarrow>
          if DescriptorIndex = 0 then Some LanguageString
          else if DescriptorIndex = 1 then Some ManufacturerString
          else if DescriptorIndex = 2 then Some ProductString
          else None
      | HID_DTYPE_HID \<Rightarrow>
          if index = KEYBOARD_INTERFACE then Some Shared_HID
          else if index = RAW_INTERFACE then Some Raw_HID
          else if index = CONSOLE_INTERFACE then Some Console_HID
          else None
      | HID_DTYPE_Report \<Rightarrow>
          if index = KEYBOARD_INTERFACE then Some (Report_Descriptor SharedReport)
          else if index = RAW_INTERFACE then Some (Report_Descriptor RawReport)
          else if index = CONSOLE_INTERFACE then Some (Report_Descriptor ConsoleReport)
          else None
      | Other_Descriptor \<Rightarrow> None)"

text \<open>The data stage of an accepted request; \<open>Receive_Leds\<close> is the transfer into \<^verbatim>\<open>set_report_buf\<close> with its callback.\<close>

datatype transfer = Reply bytes | Reply_Descriptor descriptor | Receive_Leds | No_Data

definition request_endpoint :: "u16 \<Rightarrow> u8 \<Rightarrow> in_endpoint option" where
  "request_endpoint index report_id =
     (let interface = unat (ucast index :: u8) in
      if \<not> interface < TOTAL_INTERFACES \<or> \<not> unat report_id \<le> REPORT_ID_COUNT then None else Some (usb_endpoint_interface_lut ! interface))"

definition usb_get_report_cb :: "usb_control_request_t \<Rightarrow> 'q usb \<Rightarrow> transfer option \<times> 'q usb" where
  "usb_get_report_cb rq u =
     (case request_endpoint (wIndex rq) (wValue_lbyte rq) of
        None \<Rightarrow> (None, u)
      | Some ep \<Rightarrow>
          let report = ep_get_report ep (report_storage (usb_endpoints_in u ep)) (wValue_lbyte rq) (get_report_buf u) in
          (Some (Reply (take (fs_length report) (fs_data report))), u\<lparr>get_report_buf := report\<rparr>))"

definition usb_get_idle_cb :: "usb_control_request_t \<Rightarrow> 'q usb \<Rightarrow> transfer option \<times> 'q usb" where
  "usb_get_idle_cb rq u =
     (case request_endpoint (wIndex rq) (wValue_lbyte rq) of
        None \<Rightarrow> (None, u)
      | Some ep \<Rightarrow> (Some (Reply [ep_get_idle ep (report_storage (usb_endpoints_in u ep)) (wValue_lbyte rq)]), u))"

definition usb_set_idle_cb :: "usb_control_request_t \<Rightarrow> 'q usb \<Rightarrow> transfer option \<times> 'q usb" where
  "usb_set_idle_cb rq u =
     (case request_endpoint (wIndex rq) (wValue_lbyte rq) of
        None \<Rightarrow> (None, u)
      | Some ep \<Rightarrow>
          let st = usb_endpoints_in u ep;
              (reports, run) = ep_set_idle ep (report_storage st) (wValue_lbyte rq) (wValue_hbyte rq) in
          (Some No_Data, u\<lparr>usb_endpoints_in := (usb_endpoints_in u)(ep := st\<lparr>report_storage := reports\<rparr>),
             run_idle_task := run_idle_task u \<or> run\<rparr>))"

text \<open>
  The request hook. A class request of the host's IN direction that is none of the three it answers falls through to the
  OUT requests, as the \<^verbatim>\<open>switch\<close> of the code does; \<open>None\<close> of \<open>hid_request\<close> is a \<^verbatim>\<open>break\<close>.
\<close>

definition hid_out_request :: "usb_control_request_t \<Rightarrow> 'q usb \<Rightarrow> (transfer option \<times> 'q usb) option" where
  "hid_out_request rq u =
     (case bRequest rq of
        HID_REQ_SetReport \<Rightarrow> if wIndex rq = KEYBOARD_INTERFACE then Some (Some Receive_Leds, u) else None
      | HID_REQ_SetProtocol \<Rightarrow>
          Some (Some No_Data, if wIndex rq = KEYBOARD_INTERFACE
            then u\<lparr>device := usb_device_state_set_protocol (wValue_lbyte rq) (device u)\<rparr> else u)
      | HID_REQ_SetIdle \<Rightarrow> Some (usb_set_idle_cb rq (u\<lparr>device := usb_device_state_set_idle_rate (wValue_hbyte rq) (device u)\<rparr>))
      | _ \<Rightarrow> None)"

definition hid_request :: "usb_control_request_t \<Rightarrow> 'q usb \<Rightarrow> (transfer option \<times> 'q usb) option" where
  "hid_request rq u =
     (if rq_dir rq = USB_RTYPE_DIR_DEV2HOST then
        case bRequest rq of
          HID_REQ_GetReport \<Rightarrow> Some (usb_get_report_cb rq u)
        | HID_REQ_GetProtocol \<Rightarrow>
            if wIndex rq = KEYBOARD_INTERFACE then Some (Some (Reply [protocol_number (ds_protocol (device u))]), u)
            else hid_out_request rq u
        | HID_REQ_GetIdle \<Rightarrow> Some (usb_get_idle_cb rq u)
        | _ \<Rightarrow> hid_out_request rq u
      else hid_out_request rq u)"

definition descriptor_request :: "(u8 \<Rightarrow> descriptor_type) \<Rightarrow> usb_control_request_t \<Rightarrow> 'q usb \<Rightarrow> transfer option \<times> 'q usb" where
  "descriptor_request dtype rq u =
     (if rq_dir rq = USB_RTYPE_DIR_DEV2HOST \<and> rq_recipient rq = USB_RTYPE_RECIPIENT_INTERFACE \<and> bRequest rq = USB_REQ_GET_DESCRIPTOR
      then (map_option Reply_Descriptor (get_usb_descriptor (dtype (wValue_hbyte rq)) (wValue_lbyte rq) (wIndex rq)), u)
      else (None, u))"

definition usb_requests_hook_cb :: "(u8 \<Rightarrow> descriptor_type) \<Rightarrow> usb_control_request_t \<Rightarrow> 'q usb \<Rightarrow> transfer option \<times> 'q usb" where
  "usb_requests_hook_cb dtype rq u =
     (if rq_type rq = USB_RTYPE_TYPE_CLASS \<and> rq_recipient rq = USB_RTYPE_RECIPIENT_INTERFACE then
        case hid_request rq u of None \<Rightarrow> descriptor_request dtype rq u | Some r \<Rightarrow> r
      else descriptor_request dtype rq u)"

text \<open>The bytes of the host arrived in \<^verbatim>\<open>set_report_buf\<close>, at most two.\<close>

definition set_led_transfer_cb :: "usb_control_request_t \<Rightarrow> bytes \<Rightarrow> 'q usb \<Rightarrow> 'q usb" where
  "set_led_transfer_cb rq data u =
     (let u = u\<lparr>set_report_buf := blit 0 (take 2 data) (set_report_buf u)\<rparr> in
      if wLength rq = 2 then
        let report_id = set_report_buf u ! 0 in
        if report_id = REPORT_ID_KEYBOARD \<or> report_id = REPORT_ID_NKRO
        then u\<lparr>device := usb_device_state_set_leds (set_report_buf u ! 1) (device u)\<rparr> else u
      else u\<lparr>device := usb_device_state_set_leds (set_report_buf u ! 0) (device u)\<rparr>)"

section \<open>Sending and the idle task\<close>

definition send_report :: "'q bq_api \<Rightarrow> bool \<Rightarrow> in_endpoint \<Rightarrow> bytes \<Rightarrow> 'q usb \<Rightarrow> 'q usb option" where
  "send_report Q active e report u =
     map_option (\<lambda>(ok, ep). u\<lparr>usb_endpoints_in := (usb_endpoints_in u)(e := ep)\<rparr>)
       (usb_endpoint_in_send Q active report (TIME_MS2I 100) (usb_endpoints_in u e))"

text \<open>One endpoint and one report number of the idle task; the flag is \<^verbatim>\<open>non_zero_idle_rate_found\<close>.\<close>

definition idle_report :: "'q bq_api \<Rightarrow> bool \<Rightarrow> (u32 \<Rightarrow> u32) \<Rightarrow> u32 \<Rightarrow> in_endpoint \<Rightarrow> u8 \<Rightarrow> bool \<times> 'q usb \<Rightarrow> (bool \<times> 'q usb) option" where
  "idle_report Q active i2ms now e report_id s =
     (let (found, u) = s; ep = usb_endpoints_in u e;
          found = (found \<or> ep_get_idle e (report_storage ep) report_id \<noteq> 0) in
      if usb_endpoint_in_is_inactive Q ep \<and> ep_idle_elapsed e i2ms now (report_storage ep) report_id then
        let report = ep_get_report e (report_storage ep) report_id (idle_report_buf u) in
        map_option (\<lambda>u. (found, u)) (send_report Q active e (take (fs_length report) (fs_data report)) (u\<lparr>idle_report_buf := report\<rparr>))
      else Some (found, u))"

primrec idle_reports ::
  "'q bq_api \<Rightarrow> bool \<Rightarrow> (u32 \<Rightarrow> u32) \<Rightarrow> u32 \<Rightarrow> (in_endpoint \<times> u8) list \<Rightarrow> bool \<times> 'q usb \<Rightarrow> (bool \<times> 'q usb) option" where
  "idle_reports Q active i2ms now [] s = Some s"
| "idle_reports Q active i2ms now (er # ers) s =
     Option.bind (idle_report Q active i2ms now (fst er) (snd er) s) (idle_reports Q active i2ms now ers)"

definition idle_order :: "(in_endpoint \<times> u8) list" where
  "idle_order = concat (map (\<lambda>e. if e = USB_ENDPOINT_IN_SHARED then map (\<lambda>i. (e, word_of_nat i)) [1..<Suc REPORT_ID_COUNT] else [(e, 0)])
     all_in_endpoints)"

definition usb_idle_task :: "'q bq_api \<Rightarrow> bool \<Rightarrow> (u32 \<Rightarrow> u32) \<Rightarrow> u32 \<Rightarrow> 'q usb \<Rightarrow> 'q usb option" where
  "usb_idle_task Q active i2ms now u =
     (if \<not> run_idle_task u then Some u
      else map_option (\<lambda>(found, u). u\<lparr>run_idle_task := found\<rparr>) (idle_reports Q active i2ms now idle_order (False, u)))"

end
