(* ===== verification/Usb_Control.thy ===== *)
theory Usb_Control
  imports Usb_Device Fifo
begin

text \<open>
  What the control pipe of \<open>Usb_Device\<close> promises: the event queue is a bounded first-in first-out queue, the interrupt side
  and the main thread keep the state of the endpoints sound, GET_REPORT returns the last report the host has got,
  GET_IDLE the rate SET_IDLE has set, and the idle task sends a kept report again when its time has passed.
\<close>

section \<open>The event queue\<close>

definition event_queue_ok :: "'q usb \<Rightarrow> bool" where
  "event_queue_ok u \<longleftrightarrow> length (usb_event_queue u) = USB_EVENT_QUEUE_SIZE
     \<and> unat (event_queue_head u) < USB_EVENT_QUEUE_SIZE \<and> unat (event_queue_tail u) < USB_EVENT_QUEUE_SIZE"

definition pending_events :: "'q usb \<Rightarrow> usbevent_t list" where
  "pending_events u = ring_view USB_EVENT_QUEUE_SIZE (usb_event_queue u) (unat (event_queue_head u)) (unat (event_queue_tail u))"

lemma unat_next_slot: "unat (next_slot i) = Suc (unat i) mod USB_EVENT_QUEUE_SIZE"
proof -
  have "(unat i + 1) mod 16 < 256" using mod_less_divisor [of 16 "unat i + 1"] by simp
  then show ?thesis by (simp add: next_slot_def hw_defs unat_of_nat)
qed

lemma next_slot_less: "unat (next_slot i) < USB_EVENT_QUEUE_SIZE"
  by (simp add: unat_next_slot USB_EVENT_QUEUE_SIZE_def)

interpretation usb_events: bounded_fifo usb_event_queue_enqueue usb_event_queue_dequeue pending_events event_queue_ok "\<lambda>_. True" 15
proof
  fix u :: "'q usb" and x :: usbevent_t and xs :: "usbevent_t list"
  assume u: "event_queue_ok u"
  note b = u [unfolded event_queue_ok_def]
  have room: "length (pending_events u) < 15 \<longleftrightarrow> next_slot (event_queue_head u) \<noteq> event_queue_tail u"
    using ring_full [of "unat (event_queue_head u)" USB_EVENT_QUEUE_SIZE "unat (event_queue_tail u)" "usb_event_queue u"] b
    by (simp add: pending_events_def word_unat_eq_iff unat_next_slot USB_EVENT_QUEUE_SIZE_def)
  show "usb_event_queue_enqueue x u = (False, u)" if "\<not> length (pending_events u) < 15"
    using that room by (simp add: usb_event_queue_enqueue_def)
  show "fst (usb_event_queue_enqueue x u) \<and> event_queue_ok (snd (usb_event_queue_enqueue x u)) \<and>
      pending_events (snd (usb_event_queue_enqueue x u)) = pending_events u @ [x]" if "length (pending_events u) < 15"
    using that room ring_put [of "unat (event_queue_head u)" USB_EVENT_QUEUE_SIZE "unat (event_queue_tail u)" "usb_event_queue u" x] b
    by (simp add: usb_event_queue_enqueue_def Let_def event_queue_ok_def next_slot_less pending_events_def unat_next_slot word_unat_eq_iff)
  have e: "pending_events u = [] \<longleftrightarrow> event_queue_head u = event_queue_tail u"
    using ring_empty [of "unat (event_queue_head u)" USB_EVENT_QUEUE_SIZE "unat (event_queue_tail u)" "usb_event_queue u"] b
    by (simp add: pending_events_def word_unat_eq_iff)
  show "usb_event_queue_dequeue u = None" if "pending_events u = []" using that e by (simp add: usb_event_queue_dequeue_def)
  show "\<exists>u'. usb_event_queue_dequeue u = Some (x, u') \<and> event_queue_ok u' \<and> pending_events u' = xs" if x: "pending_events u = x # xs"
  proof -
    have n: "event_queue_head u \<noteq> event_queue_tail u" using e x by auto
    then show ?thesis
      using x ring_take [of "unat (event_queue_head u)" USB_EVENT_QUEUE_SIZE "unat (event_queue_tail u)" "usb_event_queue u"] b
      by (simp add: usb_event_queue_dequeue_def event_queue_ok_def next_slot_less pending_events_def unat_next_slot word_unat_eq_iff)
  qed
qed

section \<open>Resetting the kept reports\<close>

lemma fold_clear:
  "n \<le> length rs \<Longrightarrow> fold (\<lambda>i rs. case rs ! i of None \<Rightarrow> rs | Some r \<Rightarrow> rs[i := Some (fs_clear r)]) [0..<n] rs
    = map (map_option fs_clear) (take n rs) @ drop n rs"
proof (induction n)
  case (Suc n)
  let ?pre = "map (map_option fs_clear) (take n rs)"
  have d: "drop n rs = rs ! n # drop (Suc n) rs" using Suc.prems by (simp add: Cons_nth_drop_Suc)
  have u: "(?pre @ y # ys)[n := z] = ?pre @ z # ys" "(?pre @ y # ys) ! n = y" for y ys z
    using Suc.prems by (simp_all add: list_update_append nth_append)
  show ?case
    using Suc by (cases "rs ! n") (simp_all add: d u take_Suc_conv_app_nth del: list_update_append1)
qed simp

lemma ep_reset_report_eq: "reports_ok e rs \<Longrightarrow> ep_reset_report e rs = map (map_option fs_clear) rs"
proof (cases "e = USB_ENDPOINT_IN_SHARED")
  case True
  assume "reports_ok e rs"
  then have "length rs = Suc REPORT_ID_COUNT" using True by (simp add: reports_ok_def)
  then show ?thesis using True fold_clear [of "Suc REPORT_ID_COUNT" rs]
    by (simp add: ep_reset_report_def usb_shared_reset_report_def del: upt_Suc)
next
  case False
  assume "reports_ok e rs"
  then obtain r where "rs = [r]" using False by (auto simp: reports_ok_def length_Suc_conv)
  then show ?thesis using False by (simp add: ep_reset_report_def usb_reset_report_def split: option.split)
qed

lemma ep_reset_report_ok:
  assumes "reports_ok e rs"
  shows "reports_ok e (ep_reset_report e rs)" "kept e (ep_reset_report e rs) i = map_option fs_clear (kept e rs i)"
proof -
  show "reports_ok e (ep_reset_report e rs)"
    using assms slot_ok_clear unfolding ep_reset_report_eq [OF assms] by (auto simp: reports_ok_def pred_option_def)
  show "kept e (ep_reset_report e rs) i = map_option fs_clear (kept e rs i)"
    using assms unfolding ep_reset_report_eq [OF assms] by (auto simp: kept_def shared_report_def reports_ok_def)
qed

section \<open>Sound endpoints\<close>

text \<open>
  What may be on the wire: on the shared endpoint a report of the size the descriptor gives for its number, a boot report of
  eight bytes, or zeros, which is what a reset leaves of a kept report; on the others packets of 32 bytes.
\<close>

definition sized_report :: "bytes \<Rightarrow> bool" where
  "sized_report p \<longleftrightarrow> hd p \<in> {REPORT_ID_KEYBOARD, REPORT_ID_MOUSE, REPORT_ID_SYSTEM, REPORT_ID_CONSUMER, REPORT_ID_NKRO}
     \<and> 8 * length p = 8 + report_bits SharedReport (hd p)"

definition good_packet :: "in_endpoint \<Rightarrow> bytes \<Rightarrow> bool" where
  "good_packet e p \<longleftrightarrow> (if e = USB_ENDPOINT_IN_SHARED then sized_report p \<or> length p = 8 \<or> (\<exists>n. 0 < n \<and> n \<le> 32 \<and> p = replicate n 0)
     else length p = 32)"

lemma sized_report_length: "sized_report p \<Longrightarrow> length p \<in> {3, 6, 9, 32}"
  using shared_report_sizes by (auto simp: sized_report_def)

lemma good_packet_length: "good_packet e p \<Longrightarrow> p \<noteq> [] \<and> length p \<le> 32"
  using sized_report_length [of p] by (auto simp: good_packet_def split: if_splits)

lemma good_packet_zeros: "good_packet e p \<Longrightarrow> good_packet e (replicate (length p) 0)"
  using good_packet_length [of e p] by (auto simp: good_packet_def)

definition kept_good :: "in_endpoint \<Rightarrow> reports \<Rightarrow> bool" where
  "kept_good e rs \<longleftrightarrow> (\<forall>i r. kept e rs i = Some r \<longrightarrow> good_packet e (kept_bytes r))"

lemma good_entry:
  "good_packet USB_ENDPOINT_IN_SHARED (kept_bytes (storage_entry REPORT_ID_KEYBOARD KEYBOARD_REPORT_SIZE))"
  "good_packet USB_ENDPOINT_IN_SHARED (kept_bytes (storage_entry REPORT_ID_MOUSE SIZEOF_MOUSE))"
  "good_packet USB_ENDPOINT_IN_SHARED (kept_bytes (storage_entry REPORT_ID_SYSTEM SIZEOF_EXTRA))"
  "good_packet USB_ENDPOINT_IN_SHARED (kept_bytes (storage_entry REPORT_ID_CONSUMER SIZEOF_EXTRA))"
  "good_packet USB_ENDPOINT_IN_SHARED (kept_bytes (storage_entry REPORT_ID_NKRO SIZEOF_NKRO))"
  using shared_report_sizes
  by (simp_all add: good_packet_def sized_report_def kept_bytes_def storage_entry_def KEYBOARD_REPORT_SIZE_def SIZEOF_MOUSE_def
      SIZEOF_EXTRA_def SIZEOF_NKRO_def NKRO_REPORT_BITS_def hd_conv_nth)

lemma all_update: "\<forall>x\<in>set xs. P x \<Longrightarrow> P y \<Longrightarrow> \<forall>x\<in>set (xs[i := y]). P x"
  using set_update_subset_insert [of xs i y] by blast

lemma kept_good_init: "kept_good e (report_storage_init e)"
proof (cases e)
  case USB_ENDPOINT_IN_SHARED
  have s: "\<forall>x\<in>set (report_storage_init USB_ENDPOINT_IN_SHARED). pred_option (\<lambda>r. good_packet USB_ENDPOINT_IN_SHARED (kept_bytes r)) x"
    unfolding report_storage_init_def in_endpoint.case by (intro all_update) (simp_all add: good_entry)
  show ?thesis unfolding USB_ENDPOINT_IN_SHARED kept_good_def
  proof (intro allI impI)
    fix i r
    assume "kept USB_ENDPOINT_IN_SHARED (report_storage_init USB_ENDPOINT_IN_SHARED) i = Some r"
    then have "report_storage_init USB_ENDPOINT_IN_SHARED ! unat i = Some r" "unat i < length (report_storage_init USB_ENDPOINT_IN_SHARED)"
      using reports_ok_init [of USB_ENDPOINT_IN_SHARED] by (simp_all add: kept_def shared_report_def reports_ok_def split: if_splits)
    then have "Some r \<in> set (report_storage_init USB_ENDPOINT_IN_SHARED)" by (metis nth_mem)
    then show "good_packet USB_ENDPOINT_IN_SHARED (kept_bytes r)" using s by force
  qed
qed (simp_all add: kept_good_def kept_def report_storage_init_def storage_entry_def kept_bytes_def good_packet_def hw_defs)

lemma kept_good_set:
  assumes "reports_ok e rs" "kept_good e rs" "good_packet e d"
  shows "kept_good e (ep_set_report e now d rs)"
proof -
  have d: "length d \<le> 64" using good_packet_length [OF assms(3)] by simp
  show ?thesis
    using assms(2,3) kept_store(1) [OF kept_ok [OF assms(1)] d] by (auto simp: kept_good_def ep_set_report_ok(2) [OF assms(1) d] split: if_splits)
qed

lemma kept_good_reset:
  assumes "reports_ok e rs" "kept_good e rs"
  shows "kept_good e (ep_reset_report e rs)"
  unfolding kept_good_def
proof (intro allI impI)
  fix i r
  assume "kept e (ep_reset_report e rs) i = Some r"
  then obtain r0 where r0: "kept e rs i = Some r0" "r = fs_clear r0" by (auto simp: ep_reset_report_ok(2) [OF assms(1)])
  have "slot_ok r0" by (rule kept_ok [OF assms(1) r0(1)])
  then have "kept_bytes r = replicate (length (kept_bytes r0)) 0" by (simp add: r0(2) kept_bytes_def fs_clear_def blit_def slot_ok_def)
  then show "good_packet e (kept_bytes r)" using good_packet_zeros assms(2) r0(1) by (simp add: kept_good_def)
qed

text \<open>The numbers the idle task goes through.\<close>

definition idle_ids :: "in_endpoint \<Rightarrow> u8 list" where
  "idle_ids e = (if e = USB_ENDPOINT_IN_SHARED then map word_of_nat [1..<Suc REPORT_ID_COUNT] else [0])"

text \<open>Of the reports of an idle endpoint whose time has passed, the first in the order of the numbers is sent again.\<close>

definition to_resend :: "'q bq_api \<Rightarrow> (u32 \<Rightarrow> u32) \<Rightarrow> u32 \<Rightarrow> in_endpoint \<Rightarrow> u8 list \<Rightarrow> 'q usb_endpoint_in \<Rightarrow> bytes option" where
  "to_resend Q i2ms now e is ep =
     (if usb_endpoint_in_is_inactive Q ep
      then Option.bind (find (ep_idle_elapsed e i2ms now (report_storage ep)) is) (\<lambda>i. map_option kept_bytes (kept e (report_storage ep) i))
      else None)"

definition any_idle_rate :: "'q usb \<Rightarrow> bool" where
  "any_idle_rate u \<longleftrightarrow> (\<exists>e. \<exists>i\<in>set (idle_ids e). ep_get_idle e (report_storage (usb_endpoints_in u e)) i \<noteq> 0)"

lemma each_endpoint_eq: "each_endpoint f u = u\<lparr>usb_endpoints_in := \<lambda>e. f e (usb_endpoints_in u e)\<rparr>"
proof -
  define g where "g = usb_endpoints_in u"
  have "(g(USB_ENDPOINT_IN_SHARED := f USB_ENDPOINT_IN_SHARED (g USB_ENDPOINT_IN_SHARED),
      USB_ENDPOINT_IN_CONSOLE := f USB_ENDPOINT_IN_CONSOLE (g USB_ENDPOINT_IN_CONSOLE),
      USB_ENDPOINT_IN_RAW := f USB_ENDPOINT_IN_RAW (g USB_ENDPOINT_IN_RAW))) e = f e (g e)" for e
    by (cases e) simp_all
  then have "g(USB_ENDPOINT_IN_SHARED := f USB_ENDPOINT_IN_SHARED (g USB_ENDPOINT_IN_SHARED),
      USB_ENDPOINT_IN_CONSOLE := f USB_ENDPOINT_IN_CONSOLE (g USB_ENDPOINT_IN_CONSOLE),
      USB_ENDPOINT_IN_RAW := f USB_ENDPOINT_IN_RAW (g USB_ENDPOINT_IN_RAW)) = (\<lambda>e. f e (g e))"
    by (rule ext)
  then show ?thesis by (simp add: each_endpoint_def all_in_endpoints_def g_def)
qed

lemma ep_set_idle_eq:
  assumes "reports_ok e rs"
  shows "kept e (fst (ep_set_idle e rs i v)) j =
      (if (if e = USB_ENDPOINT_IN_SHARED then i = j \<and> i \<noteq> 0 else True)
       then map_option (\<lambda>r. r\<lparr>fs_idle_rate := ucast v * 4\<rparr>) (kept e rs j) else kept e rs j)"
    "snd (ep_set_idle e rs i v) \<longleftrightarrow> v \<noteq> 0 \<and> (e = USB_ENDPOINT_IN_SHARED \<longrightarrow> i \<noteq> 0) \<and> kept e rs i \<noteq> None"
  using assms
  by (auto simp: ep_set_idle_def usb_set_idle_rate_def usb_shared_set_idle_rate_def kept_def reports_ok_def
      shared_report_def hw_defs nth_list_update word_unat_eq_iff split: option.splits)

lemma slot_ok_zero: "slot_ok zero_report"
  by (simp add: zero_report_def slot_ok_def)

text \<open>Every endpoint of this keyboard has buffers of 32 bytes.\<close>

locale usb_queues = output_queue Q buffer_capacity buffer_size posted filling suspended
  + input_queue Q buffer_capacity buffer_size posted filling suspended
  for Q :: "'q bq_api" and buffer_capacity buffer_size :: nat
    and posted :: "'q \<Rightarrow> bytes list" and filling :: "'q \<Rightarrow> bytes" and suspended :: "'q \<Rightarrow> bool" +
  assumes size_32: "buffer_size = 32"
begin

definition ep_ok :: "in_endpoint \<Rightarrow> 'q usb_endpoint_in \<Rightarrow> bool" where
  "ep_ok e ep \<longleftrightarrow> settled ep \<and> (\<forall>b\<in>set (posted (obqueue ep)). good_packet e b) \<and> (\<forall>b. in_flight ep = Some b \<longrightarrow> good_packet e b)
     \<and> reports_ok e (report_storage ep) \<and> kept_good e (report_storage ep)"

lemma ep_ok_notify: "ep_ok e ep \<Longrightarrow> ep_ok e (obnotify Q a ep)"
  by (cases "posted (obqueue ep)") (simp_all add: ep_ok_def settled_def, simp_all add: obnotify_def full_buffer usbStartTransmitI_def)

lemma ep_ok_send:
  assumes "ep_ok e ep" "good_packet e data" "timeout \<noteq> TIME_INFINITE"
  obtains ep' where "usb_endpoint_in_send Q active data timeout ep = Some (active, ep')" "ep_ok e ep'" "report_storage ep' = report_storage ep"
    "\<lbrakk>active; usb_endpoint_in_is_inactive Q ep\<rbrakk> \<Longrightarrow> posted (obqueue ep') = [data] \<and> in_flight ep' = Some data"
    "\<not> active \<Longrightarrow> ep' = ep"
proof (cases active)
  case False
  then show thesis using assms(1) by (intro that [of ep]) (simp_all add: usb_endpoint_in_send_def)
next
  case True
  define t where "t = (if timed_out ep \<and> timeout \<noteq> TIME_INFINITE then TIME_IMMEDIATE else timeout)"
  have t: "t \<noteq> TIME_INFINITE" using assms(3) by (auto simp: t_def)
  have s: "usb_endpoint_in_send Q active data timeout ep = send_loop Q active data t ep"
    "usb_endpoint_in_send Q True data timeout ep = send_loop Q True data t ep"
    using True by (simp_all add: usb_endpoint_in_send_def t_def)
  have st: "settled ep" using assms(1) by (simp add: ep_ok_def)
  have d: "data \<noteq> []" "length data \<le> buffer_size" using good_packet_length [OF assms(2)] by (simp_all add: size_32)
  have start: "in_flight (obnotify Q active ep1) = Some data" if "posted (obqueue ep1) = [data]" "in_flight ep1 = None" for ep1
    using that True by (simp add: obnotify_idle)
  show thesis
  proof (cases "suspended (obqueue ep) \<or> \<not> length (posted (obqueue ep)) < buffer_capacity")
    case b: True
    from send_loop_blocked [OF b st d t, of active] obtain q where q:
      "send_loop Q active data t ep = Some (True, obnotify Q active (ep\<lparr>timed_out := True, obqueue := q\<rparr>))"
      "posted q = [data]" "filling q = []" .
    have "ep_ok e (ep\<lparr>timed_out := True, obqueue := q\<rparr>)" using assms q by (simp add: ep_ok_def settled_def)
    from ep_ok_notify [OF this] show thesis
      by (intro that [of "obnotify Q active (ep\<lparr>timed_out := True, obqueue := q\<rparr>)"])
        (use q True start in \<open>simp_all add: s usb_endpoint_in_is_inactive_def\<close>)
  next
    case False
    then have f: "\<not> suspended (obqueue ep)" "length (posted (obqueue ep)) < buffer_capacity" by auto
    from send_loop_room [OF f(1) st f(2) d, of active t] obtain q where q:
      "send_loop Q active data t ep = Some (True, obnotify Q active (ep\<lparr>obqueue := q\<rparr>))"
      "posted q = posted (obqueue ep) @ [data]" "filling q = []" .
    have "ep_ok e (ep\<lparr>obqueue := q\<rparr>)" using assms q by (auto simp: ep_ok_def settled_def)
    from ep_ok_notify [OF this] show thesis
      by (intro that [of "obnotify Q active (ep\<lparr>obqueue := q\<rparr>)"])
        (use q True start in \<open>simp_all add: s usb_endpoint_in_is_inactive_def empty_iff\<close>)
  qed
qed

lemma ep_ok_start_transmit:
  "ep_ok e ep \<Longrightarrow> ep_ok e (case obqGetFullBufferI Q (obqueue ep) of None \<Rightarrow> ep | Some buffer \<Rightarrow> usbStartTransmitI buffer ep)"
  by (cases "posted (obqueue ep)") (simp_all add: full_buffer ep_ok_def settled_def usbStartTransmitI_def)

lemma ep_ok_taken:
  assumes "ep_ok e ep"
  shows "ep_ok e (usb_endpoint_in_tx_complete_cb Q e now ep)"
proof -
  define ep0 where "ep0 = ep\<lparr>timed_out := False, in_flight := None\<rparr>"
  have ep0: "ep_ok e ep0" using assms by (simp add: ep0_def ep_ok_def settled_def)
  define ep1 where "ep1 = (if \<not> obqIsEmptyI Q (obqueue ep) \<and> (case in_flight ep of None \<Rightarrow> 0 | Some pkt \<Rightarrow> length pkt) > 0 then
      (case obqGetFullBufferI Q (obqueue ep) of None \<Rightarrow> ep0
        | Some buffer \<Rightarrow> ep0\<lparr>report_storage := ep_set_report e now buffer (report_storage ep0)\<rparr>)\<lparr>obqueue := obqReleaseEmptyBufferI Q (obqueue ep)\<rparr>
      else ep0)"
  have "ep_ok e ep1"
  proof (cases "posted (obqueue ep)")
    case Nil
    then show ?thesis using ep0 by (simp add: ep1_def empty_iff)
  next
    case (Cons b bs)
    then have b: "good_packet e b" "length b \<le> 64" using assms good_packet_length [of e b] by (auto simp: ep_ok_def)
    have ok: "reports_ok e (report_storage ep)" "kept_good e (report_storage ep)" using assms by (simp_all add: ep_ok_def)
    show ?thesis using ep0 Cons ep_set_report_ok(1) [OF ok(1) b(2), of now] kept_good_set [OF ok b(1), of now]
      by (simp add: ep1_def full_buffer) (auto simp add: ep_ok_def settled_def release ep0_def)
  qed
  moreover have "usb_endpoint_in_tx_complete_cb Q e now ep
      = (case obqGetFullBufferI Q (obqueue ep1) of None \<Rightarrow> ep1 | Some buffer \<Rightarrow> usbStartTransmitI buffer ep1)"
    unfolding usb_endpoint_in_tx_complete_cb_def ep1_def ep0_def by (simp add: Let_def split: option.split)
  ultimately show ?thesis using ep_ok_start_transmit by simp
qed

lemma ep_ok_callbacks:
  assumes "ep_ok e ep"
  shows "ep_ok e (usb_endpoint_in_suspend_cb Q e ep)" "ep_ok e (usb_endpoint_in_wakeup_cb Q ep)" "ep_ok e (usb_endpoint_in_configure_cb Q ep)"
    "ep_ok e (ep\<lparr>in_flight := None\<rparr>)"
proof -
  have ok: "reports_ok e (report_storage ep)" "kept_good e (report_storage ep)" using assms by (simp_all add: ep_ok_def)
  show "ep_ok e (usb_endpoint_in_suspend_cb Q e ep)"
    using assms ep_reset_report_ok(1) [OF ok(1)] kept_good_reset [OF ok] by (simp add: usb_endpoint_in_suspend_cb_def ep_ok_def settled_def reset)
  show "ep_ok e (usb_endpoint_in_wakeup_cb Q ep)" "ep_ok e (usb_endpoint_in_configure_cb Q ep)" "ep_ok e (ep\<lparr>in_flight := None\<rparr>)"
    using assms by (simp_all add: usb_endpoint_in_wakeup_cb_def usb_endpoint_in_configure_cb_def ep_ok_def settled_def reset resume)
qed

lemma ep_ok_init: "posted q = [] \<Longrightarrow> filling q = [] \<Longrightarrow> ep_ok e (usb_endpoint_in_init e q)"
  using kept_good_init [of e] reports_ok_init [of e] by (simp add: ep_ok_def settled_def usb_endpoint_in_init_def)

section \<open>Soundness of the device\<close>

definition usb_ok :: "'q usb \<Rightarrow> bool" where
  "usb_ok u \<longleftrightarrow> event_queue_ok u \<and> (\<forall>e. ep_ok e (usb_endpoints_in u e)) \<and> out_ok (raw_out u) \<and> slot_ok (get_report_buf u) \<and> slot_ok (idle_report_buf u)"

lemma usb_ok_endpoint: "usb_ok u \<Longrightarrow> ep_ok e ep \<Longrightarrow> usb_ok (u\<lparr>usb_endpoints_in := (usb_endpoints_in u)(e := ep)\<rparr>)"
  by (simp add: usb_ok_def event_queue_ok_def)

lemma usb_ok_power_on: "posted q = [] \<Longrightarrow> filling q = [] \<Longrightarrow> usb_ok (usb_power_on q)"
  by (simp add: usb_ok_def usb_power_on_def event_queue_ok_def ep_ok_init out_ok_init slot_ok_zero hw_defs)

lemma usb_ok_enqueue: "usb_ok u \<Longrightarrow> usb_ok (snd (usb_event_queue_enqueue ev u))"
  using usb_events.enq_room [of u ev] usb_events.enq_full [of u ev]
  by (cases "length (pending_events u) < 15") (auto simp: usb_ok_def usb_event_queue_enqueue_def Let_def)

lemma usb_ok_each: "usb_ok u \<Longrightarrow> (\<And>e ep. ep_ok e ep \<Longrightarrow> ep_ok e (f e ep)) \<Longrightarrow> usb_ok (each_endpoint f u)"
  by (simp add: each_endpoint_eq usb_ok_def event_queue_ok_def)

lemma usb_ok_out: "usb_ok u \<Longrightarrow> (\<And>ep. out_ok ep \<Longrightarrow> out_ok (f ep)) \<Longrightarrow> usb_ok (on_raw_out f u)"
  by (simp add: on_raw_out_def usb_ok_def event_queue_ok_def)

lemma usb_ok_event_cb: "usb_ok u \<Longrightarrow> usb_ok (usb_event_cb Q ev u)"
  by (cases ev) (simp_all add: usb_event_cb_def Let_def usb_ok_enqueue usb_ok_each usb_ok_out ep_ok_callbacks out_ok_callbacks)

lemma usb_ok_handle: "usb_ok u \<Longrightarrow> usb_ok (handle_event c ev u)"
  by (simp add: handle_event_def usb_ok_def event_queue_ok_def split: usbevent_t.split)

lemma usb_ok_send:
  assumes "usb_ok u" "good_packet e report"
  obtains u' where "send_report Q active e report u = Some u'" "usb_ok u'" "pending_events u' = pending_events u" "device u' = device u"
    "last_suspend_state u' = last_suspend_state u" "raw_out u' = raw_out u"
proof -
  have e: "ep_ok e (usb_endpoints_in u e)" using assms(1) by (simp add: usb_ok_def)
  obtain ep' where "usb_endpoint_in_send Q active report (TIME_MS2I 100) (usb_endpoints_in u e) = Some (active, ep')" "ep_ok e ep'"
    by (rule ep_ok_send [OF e assms(2), of "TIME_MS2I 100" active]) simp_all
  then show thesis using usb_ok_endpoint [OF assms(1)]
    by (intro that [of "u\<lparr>usb_endpoints_in := (usb_endpoints_in u)(e := ep')\<rparr>"]) (simp_all add: send_report_def pending_events_def)
qed

section \<open>Kept reports on the control pipe\<close>

text \<open>The kept report a request asks for; interfaces and report numbers out of range are refused.\<close>

lemma get_report_reply:
  assumes "usb_ok u" "request_endpoint (wIndex rq) (wValue_lbyte rq) = Some e"
    "kept e (report_storage (usb_endpoints_in u e)) (wValue_lbyte rq) = Some r"
  shows "fst (usb_get_report_cb rq u) = Some (Reply (kept_bytes r))" "usb_ok (snd (usb_get_report_cb rq u))"
proof -
  have "reports_ok e (report_storage (usb_endpoints_in u e))" using assms(1) by (simp add: usb_ok_def ep_ok_def)
  from kept_ok [OF this assms(3)] have r: "slot_ok r" "slot_ok (get_report_buf u)" using assms(1) by (simp_all add: usb_ok_def)
  show "fst (usb_get_report_cb rq u) = Some (Reply (kept_bytes r))" "usb_ok (snd (usb_get_report_cb rq u))"
    using fetch_bytes [OF r] assms by (simp_all add: usb_get_report_cb_def Let_def ep_get_report_eq kept_bytes_def)
      (simp_all add: usb_ok_def event_queue_ok_def)
qed

lemma usb_ok_set_idle:
  assumes "usb_ok u"
  shows "usb_ok (snd (usb_set_idle_cb rq u))"
proof (cases "request_endpoint (wIndex rq) (wValue_lbyte rq)")
  case (Some e)
  let ?rs = "report_storage (usb_endpoints_in u e)"
  have ok: "ep_ok e (usb_endpoints_in u e)" using assms by (simp add: usb_ok_def)
  then have rs: "reports_ok e ?rs" by (simp add: ep_ok_def)
  have "reports_ok e (fst (ep_set_idle e ?rs i v))" for i v
    using rs kept_ok [OF rs, of i] kept_ok [OF rs, of 0]
    by (auto simp: ep_set_idle_def usb_set_idle_rate_def usb_shared_set_idle_rate_def kept_def slot_ok_def
        split: option.splits if_splits intro!: reports_ok_update)
  moreover have "kept_good e (fst (ep_set_idle e ?rs i v))" for i v
    using ok by (auto simp: kept_good_def kept_bytes_def ep_ok_def ep_set_idle_eq(1) [OF rs] split: if_splits)
  ultimately have "ep_ok e ((usb_endpoints_in u e)\<lparr>report_storage := fst (ep_set_idle e ?rs i v)\<rparr>)" for i v
    using ok by (simp add: ep_ok_def settled_def)
  from usb_ok_endpoint [OF assms this] show ?thesis
    by (simp add: usb_set_idle_cb_def Some Let_def split_beta) (simp add: usb_ok_def event_queue_ok_def)
qed (simp add: usb_set_idle_cb_def assms)

lemma usb_ok_idle_answers: "snd (usb_get_idle_cb rq u) = u"
  by (simp add: usb_get_idle_cb_def split: option.split)

lemma usb_ok_get_report: "usb_ok u \<Longrightarrow> usb_ok (snd (usb_get_report_cb rq u))"
proof (cases "request_endpoint (wIndex rq) (wValue_lbyte rq)")
  case (Some e)
  assume u: "usb_ok u"
  show ?thesis
  proof (cases "kept e (report_storage (usb_endpoints_in u e)) (wValue_lbyte rq)")
    case None
    then show ?thesis using u by (simp add: usb_get_report_cb_def Some Let_def ep_get_report_eq)
  next
    case r: (Some r)
    show ?thesis by (rule get_report_reply(2) [OF u Some r])
  qed
qed (simp add: usb_get_report_cb_def)

lemma usb_ok_device: "usb_ok u \<Longrightarrow> usb_ok (u\<lparr>device := d\<rparr>)" "usb_ok u \<Longrightarrow> usb_ok (u\<lparr>set_report_buf := b\<rparr>)"
  by (simp_all add: usb_ok_def event_queue_ok_def)

lemma usb_ok_out_request: "usb_ok u \<Longrightarrow> hid_out_request rq u = Some (t, u') \<Longrightarrow> usb_ok u'"
  using usb_ok_set_idle [OF usb_ok_device(1)]
  by (auto simp: hid_out_request_def usb_ok_device split: request.splits if_splits) (metis snd_conv)

lemma usb_ok_request: "usb_ok u \<Longrightarrow> usb_ok (snd (usb_requests_hook_cb dtype rq u))"
proof -
  assume u: "usb_ok u"
  have d: "snd (descriptor_request dtype rq u) = u" by (simp add: descriptor_request_def)
  have "usb_ok u'" if "hid_request rq u = Some (t, u')" for t u'
    using that u usb_ok_out_request [OF u] usb_ok_get_report [OF u, of rq] usb_ok_idle_answers [of rq u]
    by (auto simp: hid_request_def split: request.splits if_splits dest: arg_cong [where f = snd])
  then show ?thesis using u d by (auto simp: usb_requests_hook_cb_def split: option.split)
qed

section \<open>The idle task\<close>

lemma ex_endpoint: "(\<exists>e. P e) \<longleftrightarrow> P USB_ENDPOINT_IN_SHARED \<or> P USB_ENDPOINT_IN_CONSOLE \<or> P USB_ENDPOINT_IN_RAW"
  by (metis in_endpoint.exhaust)

definition resent :: "bool \<Rightarrow> bytes option \<Rightarrow> 'q usb_endpoint_in \<Rightarrow> 'q usb_endpoint_in \<Rightarrow> bool" where
  "resent active d ep ep' \<longleftrightarrow> report_storage ep' = report_storage ep \<and> (case (if active then d else None) of None \<Rightarrow> ep' = ep
     | Some data \<Rightarrow> in_flight ep' = Some data \<and> posted (obqueue ep') = [data])"

lemma busy_resends_nothing: "posted (obqueue ep) \<noteq> [] \<Longrightarrow> to_resend Q i2ms now e is ep = None"
  by (simp add: to_resend_def usb_endpoint_in_is_inactive_def empty_iff)

definition idle_fields_same :: "'q usb \<Rightarrow> 'q usb \<Rightarrow> bool" where
  "idle_fields_same u u' \<longleftrightarrow> device u' = device u \<and> usb_event_queue u' = usb_event_queue u \<and> event_queue_head u' = event_queue_head u
     \<and> event_queue_tail u' = event_queue_tail u \<and> last_suspend_state u' = last_suspend_state u"

lemma idle_report_step:
  assumes "usb_ok u"
  obtains u' where "idle_report Q active i2ms now e i (found, u)
      = Some (found \<or> ep_get_idle e (report_storage (usb_endpoints_in u e)) i \<noteq> 0, u')" "usb_ok u'" "idle_fields_same u u'"
    "\<And>e'. e' \<noteq> e \<Longrightarrow> usb_endpoints_in u' e' = usb_endpoints_in u e'"
    "resent active (to_resend Q i2ms now e [i] (usb_endpoints_in u e)) (usb_endpoints_in u e) (usb_endpoints_in u' e)"
proof -
  let ?ep = "usb_endpoints_in u e"
  have ok: "ep_ok e ?ep" and buf: "slot_ok (idle_report_buf u)" using assms by (simp_all add: usb_ok_def)
  show thesis
  proof (cases "usb_endpoint_in_is_inactive Q ?ep \<and> ep_idle_elapsed e i2ms now (report_storage ?ep) i")
    case False
    then show thesis
      by (intro that [of u]) (auto simp: idle_report_def Let_def assms idle_fields_same_def resent_def to_resend_def)
  next
    case True
    then obtain r where r: "kept e (report_storage ?ep) i = Some r" by (auto simp: ep_idle_elapsed_eq split: option.splits)
    have rs: "reports_ok e (report_storage ?ep)" "kept_good e (report_storage ?ep)" using ok by (simp_all add: ep_ok_def)
    have slot: "slot_ok r" by (rule kept_ok [OF rs(1) r])
    define b where "b = fs_fetch r (idle_report_buf u)"
    have b: "kept_bytes b = kept_bytes r" "slot_ok b" using fetch_bytes [OF slot buf] by (simp_all add: b_def)
    have d: "good_packet e (kept_bytes r)" using rs(2) r by (simp add: kept_good_def)
    obtain ep' where ep': "usb_endpoint_in_send Q active (kept_bytes r) (TIME_MS2I 100) ?ep = Some (active, ep')" "ep_ok e ep'"
      "report_storage ep' = report_storage ?ep"
      "\<lbrakk>active; usb_endpoint_in_is_inactive Q ?ep\<rbrakk> \<Longrightarrow> posted (obqueue ep') = [kept_bytes r] \<and> in_flight ep' = Some (kept_bytes r)"
      "\<not> active \<Longrightarrow> ep' = ?ep"
      by (rule ep_ok_send [OF ok d, of "TIME_MS2I 100" active]) simp_all
    have g: "ep_get_report e (report_storage ?ep) i (idle_report_buf u) = b" by (simp add: ep_get_report_eq r b_def)
    define u' where "u' = u\<lparr>usb_endpoints_in := (usb_endpoints_in u)(e := ep'), idle_report_buf := b\<rparr>"
    have u': "send_report Q active e (take (fs_length b) (fs_data b)) (u\<lparr>idle_report_buf := b\<rparr>) = Some u'"
      using ep'(1) b(1) by (simp add: send_report_def u'_def kept_bytes_def)
    show thesis
    proof (rule that [of u'])
      show "idle_report Q active i2ms now e i (found, u) = Some (found \<or> ep_get_idle e (report_storage ?ep) i \<noteq> 0, u')"
        using True u' by (simp add: idle_report_def Let_def g)
      show "usb_ok u'" using assms ep'(2) b(2) by (simp add: u'_def usb_ok_def event_queue_ok_def)
      show "idle_fields_same u u'" by (simp add: u'_def idle_fields_same_def)
      show "usb_endpoints_in u' e' = usb_endpoints_in u e'" if "e' \<noteq> e" for e' using that by (simp add: u'_def)
      show "resent active (to_resend Q i2ms now e [i] ?ep) ?ep (usb_endpoints_in u' e)"
        using True ep'(3-5) r by (auto simp: resent_def to_resend_def u'_def)
    qed
  qed
qed

lemma idle_endpoint:
  assumes "usb_ok u"
  obtains u' where "idle_reports Q active i2ms now (map (Pair e) is) (found, u)
      = Some (found \<or> (\<exists>i\<in>set is. ep_get_idle e (report_storage (usb_endpoints_in u e)) i \<noteq> 0), u')" "usb_ok u'" "idle_fields_same u u'"
    "\<And>e'. e' \<noteq> e \<Longrightarrow> usb_endpoints_in u' e' = usb_endpoints_in u e'"
    "resent active (to_resend Q i2ms now e is (usb_endpoints_in u e)) (usb_endpoints_in u e) (usb_endpoints_in u' e)"
  using assms
proof (induction "is" arbitrary: found u thesis)
  case Nil
  show ?case by (rule Nil(1) [of u]) (use Nil(2) in \<open>simp_all add: idle_fields_same_def resent_def to_resend_def\<close>)
next
  case (Cons i "is")
  let ?ep = "usb_endpoints_in u e"
  let ?f = "found \<or> ep_get_idle e (report_storage ?ep) i \<noteq> 0"
  obtain u1 where 1: "idle_report Q active i2ms now e i (found, u) = Some (?f, u1)" "usb_ok u1" "idle_fields_same u u1"
    "\<And>e'. e' \<noteq> e \<Longrightarrow> usb_endpoints_in u1 e' = usb_endpoints_in u e'"
    "resent active (to_resend Q i2ms now e [i] ?ep) ?ep (usb_endpoints_in u1 e)"
    by (rule idle_report_step [OF Cons.prems(2), of active i2ms now e i found]) blast
  obtain u2 where 2: "idle_reports Q active i2ms now (map (Pair e) is) (?f, u1)
      = Some (?f \<or> (\<exists>i\<in>set is. ep_get_idle e (report_storage (usb_endpoints_in u1 e)) i \<noteq> 0), u2)" "usb_ok u2" "idle_fields_same u1 u2"
    "\<And>e'. e' \<noteq> e \<Longrightarrow> usb_endpoints_in u2 e' = usb_endpoints_in u1 e'"
    "resent active (to_resend Q i2ms now e is (usb_endpoints_in u1 e)) (usb_endpoints_in u1 e) (usb_endpoints_in u2 e)"
    by (rule Cons.IH [OF _ 1(2)]) blast
  have rs: "report_storage (usb_endpoints_in u1 e) = report_storage ?ep" using 1(5) by (simp add: resent_def)
  show ?case
  proof (rule Cons.prems(1) [of u2])
    show "idle_reports Q active i2ms now (map (Pair e) (i # is)) (found, u)
        = Some (found \<or> (\<exists>i\<in>set (i # is). ep_get_idle e (report_storage ?ep) i \<noteq> 0), u2)"
      using 1(1) 2(1) by (simp add: rs disj_assoc)
    show "idle_fields_same u u2" using 1(3) 2(3) by (simp add: idle_fields_same_def)
    show "usb_endpoints_in u2 e' = usb_endpoints_in u e'" if "e' \<noteq> e" for e' using 1(4) 2(4) that by simp
    show "resent active (to_resend Q i2ms now e (i # is) ?ep) ?ep (usb_endpoints_in u2 e)"
    proof (cases "active \<and> to_resend Q i2ms now e [i] ?ep \<noteq> None")
      case True
      then obtain d where d: "to_resend Q i2ms now e [i] ?ep = Some d" "in_flight (usb_endpoints_in u1 e) = Some d"
        "posted (obqueue (usb_endpoints_in u1 e)) = [d]" using 1(5) by (auto simp: resent_def)
      then have "usb_endpoints_in u2 e = usb_endpoints_in u1 e" using 2(5) busy_resends_nothing by (simp add: resent_def split: if_splits)
      moreover have "to_resend Q i2ms now e (i # is) ?ep = Some d" using d(1) by (simp add: to_resend_def split: if_splits)
      ultimately show ?thesis using d rs True by (simp add: resent_def)
    next
      case False
      then have n: "usb_endpoints_in u1 e = ?ep" using 1(5) by (auto simp: resent_def split: if_splits)
      show ?thesis
      proof (cases active)
        case a: True
        have "usb_endpoint_in_is_inactive Q ?ep \<Longrightarrow> \<not> ep_idle_elapsed e i2ms now (report_storage ?ep) i"
          using False a by (auto simp: to_resend_def ep_idle_elapsed_eq split: option.splits)
        then have "to_resend Q i2ms now e (i # is) ?ep = to_resend Q i2ms now e is ?ep" by (simp add: to_resend_def)
        then show ?thesis using 2(5) n by simp
      next
        case False
        then show ?thesis using 2(5) n by (simp add: resent_def)
      qed
    qed
  qed (rule 2(2))
qed

lemma idle_reports_append:
  "idle_reports Q active i2ms now (xs @ ys) s = Option.bind (idle_reports Q active i2ms now xs s) (idle_reports Q active i2ms now ys)"
proof (induction xs arbitrary: s)
  case (Cons x xs)
  then show ?case by (cases "idle_report Q active i2ms now (fst x) (snd x) s") simp_all
qed simp

lemma idle_order_eq: "idle_order = map (Pair USB_ENDPOINT_IN_SHARED) (idle_ids USB_ENDPOINT_IN_SHARED)
    @ map (Pair USB_ENDPOINT_IN_CONSOLE) (idle_ids USB_ENDPOINT_IN_CONSOLE) @ map (Pair USB_ENDPOINT_IN_RAW) (idle_ids USB_ENDPOINT_IN_RAW)"
  by (simp add: idle_order_def all_in_endpoints_def idle_ids_def)

lemma idle_task_result:
  assumes "usb_ok u" "run_idle_task u"
  obtains u' where "usb_idle_task Q active i2ms now u = Some u'" "usb_ok u'" "run_idle_task u' = any_idle_rate u"
    "device u' = device u" "pending_events u' = pending_events u" "last_suspend_state u' = last_suspend_state u"
    "\<And>e. resent active (to_resend Q i2ms now e (idle_ids e) (usb_endpoints_in u e)) (usb_endpoints_in u e) (usb_endpoints_in u' e)"
proof -
  let ?S = USB_ENDPOINT_IN_SHARED and ?C = USB_ENDPOINT_IN_CONSOLE and ?R = USB_ENDPOINT_IN_RAW
  define has where "has = (\<lambda>e (u :: 'q usb). \<exists>i\<in>set (idle_ids e). ep_get_idle e (report_storage (usb_endpoints_in u e)) i \<noteq> 0)"
  obtain u1 where 1: "idle_reports Q active i2ms now (map (Pair ?S) (idle_ids ?S)) (False, u) = Some (has ?S u, u1)" "usb_ok u1" "idle_fields_same u u1"
    "\<And>e'. e' \<noteq> ?S \<Longrightarrow> usb_endpoints_in u1 e' = usb_endpoints_in u e'"
    "resent active (to_resend Q i2ms now ?S (idle_ids ?S) (usb_endpoints_in u ?S)) (usb_endpoints_in u ?S) (usb_endpoints_in u1 ?S)"
    by (rule idle_endpoint [OF assms(1), of active i2ms now ?S "idle_ids ?S" False]) (simp add: has_def)
  obtain u2 where 2: "idle_reports Q active i2ms now (map (Pair ?C) (idle_ids ?C)) (has ?S u, u1) = Some (has ?S u \<or> has ?C u1, u2)" "usb_ok u2"
    "idle_fields_same u1 u2" "\<And>e'. e' \<noteq> ?C \<Longrightarrow> usb_endpoints_in u2 e' = usb_endpoints_in u1 e'"
    "resent active (to_resend Q i2ms now ?C (idle_ids ?C) (usb_endpoints_in u1 ?C)) (usb_endpoints_in u1 ?C) (usb_endpoints_in u2 ?C)"
    by (rule idle_endpoint [OF 1(2), of active i2ms now ?C "idle_ids ?C" "has ?S u"]) (simp add: has_def)
  obtain u3 where 3: "idle_reports Q active i2ms now (map (Pair ?R) (idle_ids ?R)) (has ?S u \<or> has ?C u1, u2)
      = Some ((has ?S u \<or> has ?C u1) \<or> has ?R u2, u3)" "usb_ok u3"
    "idle_fields_same u2 u3" "\<And>e'. e' \<noteq> ?R \<Longrightarrow> usb_endpoints_in u3 e' = usb_endpoints_in u2 e'"
    "resent active (to_resend Q i2ms now ?R (idle_ids ?R) (usb_endpoints_in u2 ?R)) (usb_endpoints_in u2 ?R) (usb_endpoints_in u3 ?R)"
    by (rule idle_endpoint [OF 2(2), of active i2ms now ?R "idle_ids ?R" "has ?S u \<or> has ?C u1"]) (simp add: has_def)
  have h: "((has ?S u \<or> has ?C u1) \<or> has ?R u2) = any_idle_rate u"
    unfolding any_idle_rate_def ex_endpoint has_def 2(4) [of ?R, simplified] 1(4) [of ?R, simplified] 1(4) [of ?C, simplified] by (rule disj_assoc)
  have f: "usb_event_queue u3 = usb_event_queue u" "event_queue_head u3 = event_queue_head u" "event_queue_tail u3 = event_queue_tail u"
    "device u3 = device u" "last_suspend_state u3 = last_suspend_state u"
    using 1(3) 2(3) 3(3) by (simp_all add: idle_fields_same_def)
  show thesis
  proof (rule that [of "u3\<lparr>run_idle_task := any_idle_rate u\<rparr>"])
    show "usb_idle_task Q active i2ms now u = Some (u3\<lparr>run_idle_task := any_idle_rate u\<rparr>)"
      using assms(2) by (simp add: usb_idle_task_def idle_order_eq idle_reports_append 1(1) 2(1) 3(1) h [unfolded disj_assoc])
    show "usb_ok (u3\<lparr>run_idle_task := any_idle_rate u\<rparr>)" using 3(2) by (simp add: usb_ok_def event_queue_ok_def)
    show "resent active (to_resend Q i2ms now e (idle_ids e) (usb_endpoints_in u e)) (usb_endpoints_in u e)
        (usb_endpoints_in (u3\<lparr>run_idle_task := any_idle_rate u\<rparr>) e)" for e
      using 1(4,5) 2(4,5) 3(4,5) by (cases e) simp_all
  qed (use f in \<open>simp_all add: pending_events_def\<close>)
qed

end

interpretation lqs: usb_queues lq_api 4 32 lq_posted lq_filling lq_suspended
  by unfold_locales simp

section \<open>Class requests\<close>

text \<open>A request of the HID class to an interface, as the host makes it: the two bytes of \<^verbatim>\<open>wValue\<close>, \<^verbatim>\<open>wIndex\<close> and \<^verbatim>\<open>wLength\<close>.\<close>

definition class_request :: "rtype_dir \<Rightarrow> request \<Rightarrow> u8 \<Rightarrow> u8 \<Rightarrow> u16 \<Rightarrow> u16 \<Rightarrow> usb_control_request_t" where
  "class_request dir req hi lo index len =
     \<lparr>rq_dir = dir, rq_type = USB_RTYPE_TYPE_CLASS, rq_recipient = USB_RTYPE_RECIPIENT_INTERFACE, bRequest = req,
      wValue_lbyte = lo, wValue_hbyte = hi, wIndex = index, wLength = len\<rparr>"

lemma class_request_sel [simp]:
  "rq_dir (class_request dir req hi lo index len) = dir" "bRequest (class_request dir req hi lo index len) = req"
  "wValue_lbyte (class_request dir req hi lo index len) = lo" "wValue_hbyte (class_request dir req hi lo index len) = hi"
  "wIndex (class_request dir req hi lo index len) = index" "wLength (class_request dir req hi lo index len) = len"
  "rq_type (class_request dir req hi lo index len) = USB_RTYPE_TYPE_CLASS"
  "rq_recipient (class_request dir req hi lo index len) = USB_RTYPE_RECIPIENT_INTERFACE"
  by (simp_all add: class_request_def)

lemma hook_class:
  "usb_requests_hook_cb dtype (class_request USB_RTYPE_DIR_DEV2HOST HID_REQ_GetReport hi lo index len) u
    = usb_get_report_cb (class_request USB_RTYPE_DIR_DEV2HOST HID_REQ_GetReport hi lo index len) u"
  "usb_requests_hook_cb dtype (class_request USB_RTYPE_DIR_DEV2HOST HID_REQ_GetIdle hi lo index len) u
    = usb_get_idle_cb (class_request USB_RTYPE_DIR_DEV2HOST HID_REQ_GetIdle hi lo index len) u"
  "usb_requests_hook_cb dtype (class_request USB_RTYPE_DIR_HOST2DEV HID_REQ_SetIdle hi lo index len) u
    = usb_set_idle_cb (class_request USB_RTYPE_DIR_HOST2DEV HID_REQ_SetIdle hi lo index len)
        (u\<lparr>device := usb_device_state_set_idle_rate hi (device u)\<rparr>)"
  "usb_requests_hook_cb dtype (class_request USB_RTYPE_DIR_DEV2HOST HID_REQ_GetProtocol hi lo KEYBOARD_INTERFACE len) u
    = (Some (Reply [protocol_number (ds_protocol (device u))]), u)"
  "usb_requests_hook_cb dtype (class_request USB_RTYPE_DIR_HOST2DEV HID_REQ_SetProtocol hi lo KEYBOARD_INTERFACE len) u
    = (Some No_Data, u\<lparr>device := usb_device_state_set_protocol lo (device u)\<rparr>)"
  by (simp_all add: usb_requests_hook_cb_def hid_request_def hid_out_request_def)

text \<open>Interfaces beyond the third and report numbers beyond the eighth do not exist.\<close>

lemma request_endpoint_None:
  "request_endpoint index report_id = None \<longleftrightarrow> \<not> unat (ucast index :: u8) < TOTAL_INTERFACES \<or> \<not> unat report_id \<le> REPORT_ID_COUNT"
  by (simp add: request_endpoint_def Let_def)

lemma get_report_kept:
  assumes "request_endpoint index report_id = Some e" "reports_ok e (report_storage (usb_endpoints_in u e))" "slot_ok (get_report_buf u)"
    "kept e (report_storage (usb_endpoints_in u e)) report_id = Some r"
  shows "fst (usb_requests_hook_cb dtype (class_request USB_RTYPE_DIR_DEV2HOST HID_REQ_GetReport hi report_id index len) u) = Some (Reply (kept_bytes r))"
  using fetch_bytes [OF kept_ok [OF assms(2,4)] assms(3)] assms(1,4)
  by (simp add: hook_class usb_get_report_cb_def Let_def ep_get_report_eq kept_bytes_def)

lemma set_idle_then_get:
  assumes e: "request_endpoint index report_id = Some e" and ok: "\<forall>e. reports_ok e (report_storage (usb_endpoints_in u e))"
    and r: "kept e (report_storage (usb_endpoints_in u e)) report_id \<noteq> None" "e = USB_ENDPOINT_IN_SHARED \<Longrightarrow> report_id \<noteq> 0"
    and s: "usb_requests_hook_cb dtype (class_request USB_RTYPE_DIR_HOST2DEV HID_REQ_SetIdle rate report_id index 0) u = (t, u')"
  shows "t = Some No_Data" "run_idle_task u' \<longleftrightarrow> run_idle_task u \<or> rate \<noteq> 0"
    "fst (usb_requests_hook_cb dtype (class_request USB_RTYPE_DIR_DEV2HOST HID_REQ_GetIdle 0 report_id index 1) u') = Some (Reply [rate])"
    "e' \<noteq> e \<Longrightarrow> usb_endpoints_in u' e' = usb_endpoints_in u e'"
    "e = USB_ENDPOINT_IN_SHARED \<Longrightarrow> i \<noteq> report_id \<Longrightarrow>
      kept e (report_storage (usb_endpoints_in u' e)) i = kept e (report_storage (usb_endpoints_in u e)) i"
proof -
  let ?ep = "usb_endpoints_in u e"
  have okr: "reports_ok e (report_storage ?ep)" using ok by blast
  note k = ep_set_idle_eq [OF okr, of report_id rate]
  have u': "t = Some No_Data" "u' = u\<lparr>device := usb_device_state_set_idle_rate rate (device u),
      usb_endpoints_in := (usb_endpoints_in u)(e := ?ep\<lparr>report_storage := fst (ep_set_idle e (report_storage ?ep) report_id rate)\<rparr>),
      run_idle_task := run_idle_task u \<or> snd (ep_set_idle e (report_storage ?ep) report_id rate)\<rparr>"
    using s e by (simp_all add: hook_class usb_set_idle_cb_def Let_def split_beta)
  show "t = Some No_Data" by (rule u')
  show "run_idle_task u' \<longleftrightarrow> run_idle_task u \<or> rate \<noteq> 0" using r k(2) unfolding u' by auto
  show "fst (usb_requests_hook_cb dtype (class_request USB_RTYPE_DIR_DEV2HOST HID_REQ_GetIdle 0 report_id index 1) u') = Some (Reply [rate])"
    using e r k(1) [of report_id] unfolding u' by (auto simp: hook_class usb_get_idle_cb_def ep_get_idle_eq idle_rate_units)
  show "e' \<noteq> e \<Longrightarrow> usb_endpoints_in u' e' = usb_endpoints_in u e'" unfolding u' by simp
  show "e = USB_ENDPOINT_IN_SHARED \<Longrightarrow> i \<noteq> report_id \<Longrightarrow>
      kept e (report_storage (usb_endpoints_in u' e)) i = kept e (report_storage (usb_endpoints_in u e)) i"
    using k(1) [of i] unfolding u' by auto
qed

section \<open>What the kept reports do not promise\<close>

text \<open>
  A reset of the bus clears the number of a kept report, too: until the next report is sent, GET_REPORT answers zeros without
  it. In the boot protocol a report is kept under the number that its first byte, the modifiers, happens to be: with only left
  Shift held (2) the mouse's report is overwritten, and the keyboard's stays what it was.
\<close>

lemma reset_forgets_report_id:
  "fst (usb_requests_hook_cb dtype (class_request USB_RTYPE_DIR_DEV2HOST HID_REQ_GetReport 1 REPORT_ID_KEYBOARD KEYBOARD_INTERFACE 9)
     (usb_event_cb lq_api USB_EVENT_RESET (usb_power_on lq_empty))) = Some (Reply (replicate 9 0))"
proof -
  define u where "u = usb_event_cb lq_api USB_EVENT_RESET (usb_power_on lq_empty)"
  let ?rs = "report_storage_init USB_ENDPOINT_IN_SHARED"
  have q: "get_report_buf (snd (usb_event_queue_enqueue ev v)) = get_report_buf v"
    "usb_endpoints_in (snd (usb_event_queue_enqueue ev v)) = usb_endpoints_in v" for ev and v :: "list_queue usb"
    by (simp_all add: usb_event_queue_enqueue_def Let_def)
  have o: "get_report_buf (on_raw_out f v) = get_report_buf v" "usb_endpoints_in (on_raw_out f v) = usb_endpoints_in v" for f and v :: "list_queue usb"
    by (simp_all add: on_raw_out_def)
  have u: "report_storage (usb_endpoints_in u USB_ENDPOINT_IN_SHARED) = ep_reset_report USB_ENDPOINT_IN_SHARED ?rs" "get_report_buf u = zero_report"
    by (simp_all add: u_def usb_event_cb_def each_endpoint_eq q o usb_power_on_def usb_endpoint_in_suspend_cb_def usb_endpoint_in_init_def)
  note ok = reports_ok_init [of USB_ENDPOINT_IN_SHARED]
  have "kept USB_ENDPOINT_IN_SHARED ?rs REPORT_ID_KEYBOARD = Some (storage_entry REPORT_ID_KEYBOARD KEYBOARD_REPORT_SIZE)"
    by (simp add: kept_def shared_report_def report_storage_init_def hw_defs)
  then have k: "kept USB_ENDPOINT_IN_SHARED (ep_reset_report USB_ENDPOINT_IN_SHARED ?rs) REPORT_ID_KEYBOARD
      = Some (fs_clear (storage_entry REPORT_ID_KEYBOARD KEYBOARD_REPORT_SIZE))" by (simp add: ep_reset_report_ok(2) [OF ok])
  have e: "request_endpoint KEYBOARD_INTERFACE REPORT_ID_KEYBOARD = Some USB_ENDPOINT_IN_SHARED"
    by (simp add: request_endpoint_def usb_endpoint_interface_lut_def hw_defs)
  have "kept_bytes (fs_clear (storage_entry REPORT_ID_KEYBOARD KEYBOARD_REPORT_SIZE)) = replicate 9 0"
    by (simp add: kept_bytes_def fs_clear_def storage_entry_def blit_def hw_defs)
  then show ?thesis
    using get_report_kept [OF e, of u, unfolded u, OF ep_reset_report_ok(1) [OF ok] slot_ok_zero k] by (simp add: u_def)
qed

lemma boot_report_misfiled:
  assumes "kept USB_ENDPOINT_IN_SHARED rs REPORT_ID_MOUSE = Some r" "reports_ok USB_ENDPOINT_IN_SHARED rs"
    "packet_of True (Send_Keyboard k) = Some p" "rk_mods k = 2" "length (rk_keys k) = 6"
  shows "\<exists>r'. kept USB_ENDPOINT_IN_SHARED (ep_set_report USB_ENDPOINT_IN_SHARED now p rs) REPORT_ID_MOUSE = Some r' \<and> kept_bytes r' = p"
    "kept USB_ENDPOINT_IN_SHARED (ep_set_report USB_ENDPOINT_IN_SHARED now p rs) REPORT_ID_KEYBOARD = kept USB_ENDPOINT_IN_SHARED rs REPORT_ID_KEYBOARD"
proof -
  have p: "p ! 0 = 2" "length p \<le> 64" using assms(3-5) by (auto simp: keyboard_bytes_def slice_def)
  show "\<exists>r'. kept USB_ENDPOINT_IN_SHARED (ep_set_report USB_ENDPOINT_IN_SHARED now p rs) REPORT_ID_MOUSE = Some r' \<and> kept_bytes r' = p"
    using ep_set_report_ok(2) [OF assms(2) p(2), of now REPORT_ID_MOUSE] kept_store(1) [OF kept_ok [OF assms(2,1)] p(2)] assms(1) p(1)
    by (simp add: slot_of_def REPORT_ID_MOUSE_def)
  show "kept USB_ENDPOINT_IN_SHARED (ep_set_report USB_ENDPOINT_IN_SHARED now p rs) REPORT_ID_KEYBOARD = kept USB_ENDPOINT_IN_SHARED rs REPORT_ID_KEYBOARD"
    using ep_set_report_ok(2) [OF assms(2) p(2), of now REPORT_ID_KEYBOARD] p(1) by (simp add: slot_of_def REPORT_ID_KEYBOARD_def)
qed

end
