(* ===== verification/Usb_Main.thy ===== *)
theory Usb_Main
  imports Usb_Control Main_Loop
begin

text \<open>
  The whole device: \<^verbatim>\<open>main\<close> of \<^verbatim>\<open>quantum/main.c\<close> with the protocol tasks of \<^verbatim>\<open>protocol/chibios/chibios.c\<close>, over the USB side
  (\<open>usb\<close>) and the keyboard side (\<open>task\<close>). The reports a part of the keyboard hands to the host driver are collected in
  \<open>host_sent\<close>; \<open>flush_sent\<close> passes them on to \<^verbatim>\<open>send_report\<close>, in their order. The interrupts of the USB peripheral come
  between the parts of an iteration. \<^verbatim>\<open>housekeeping_task\<close> does nothing in this build; the console's task is left out with the
  console's buffered sends.
\<close>

section \<open>Model\<close>

text \<open>The protocol and the LEDs the keyboard sees are those of the USB device state.\<close>

definition world_of :: "env \<Rightarrow> 'q usb \<Rightarrow> world" where
  "world_of env u = \<lparr>pins = env, report_protocol = (ds_protocol (device u) = USB_PROTOCOL_REPORT), usb_leds = ds_leds (device u)\<rparr>"

primrec send_reports :: "'q bq_api \<Rightarrow> bool \<Rightarrow> host_report list \<Rightarrow> 'q usb \<Rightarrow> 'q usb option" where
  "send_reports Q active [] u = Some u"
| "send_reports Q active (r # rs) u =
     (case packet_of (ds_protocol (device u) = USB_PROTOCOL_BOOT) r of
        None \<Rightarrow> send_reports Q active rs u
      | Some p \<Rightarrow> Option.bind (send_report Q active USB_ENDPOINT_IN_SHARED p u) (send_reports Q active rs))"

definition flush_sent :: "'q bq_api \<Rightarrow> bool \<Rightarrow> 'q usb \<times> 'e task \<Rightarrow> ('q usb \<times> 'e task) option" where
  "flush_sent Q active s =
     (let (u, st) = s in
      map_option (\<lambda>u. (u, act_hid (\<lambda>h. h\<lparr>host_sent := []\<rparr>) st)) (send_reports Q active (rev (host_sent (hid (hostio st)))) u))"

text \<open>\<^verbatim>\<open>usb_event_queue_task\<close>; a wake-up clears the keyboard's reports.\<close>

definition wake_keyboard :: "'q bq_api \<Rightarrow> bool \<Rightarrow> env \<Rightarrow> 'q usb \<times> 'e task \<Rightarrow> ('q usb \<times> 'e task) option" where
  "wake_keyboard Q active env s = (let (u, st) = s in flush_sent Q active (u, suspend_wakeup_init (world_of env u) st))"

partial_function (option) usb_event_queue_task ::
  "'q bq_api \<Rightarrow> bool \<Rightarrow> u8 \<Rightarrow> env \<Rightarrow> 'q usb \<times> 'e task \<Rightarrow> ('q usb \<times> 'e task) option" where
  "usb_event_queue_task Q active configuration env s =
     (case usb_event_queue_dequeue (fst s) of
        None \<Rightarrow> Some s
      | Some (ev, u) \<Rightarrow>
          Option.bind (if ev = USB_EVENT_WAKEUP then wake_keyboard Q active env (u, snd s) else Some (u, snd s))
            (\<lambda>(u, st). usb_event_queue_task Q active configuration env (handle_event configuration ev u, st)))"

text \<open>
  The loop of \<^verbatim>\<open>protocol_pre_task\<close> runs while the bus is suspended: as often as \<open>polls\<close> has an environment. The result says for
  every round whether the host is woken; \<open>remote\<close> is \<^verbatim>\<open>USB_GETSTATUS_REMOTE_WAKEUP_ENABLED\<close>. The wake-up delay of this board is 0.
\<close>

primrec suspended_loop :: "'e eeprom_driver \<Rightarrow> bool \<Rightarrow> env list \<Rightarrow> 'e task \<Rightarrow> bool list \<times> 'e task" where
  "suspended_loop E remote [] st = ([], st)"
| "suspended_loop E remote (env # polls) st =
     (let (pressed, st) = suspend_wakeup_condition E env st; (woken, st) = suspended_loop E remote polls st in
      ((pressed \<and> remote) # woken, st))"

definition protocol_pre_task ::
  "'q bq_api \<Rightarrow> 'e eeprom_driver \<Rightarrow> bool \<Rightarrow> u8 \<Rightarrow> env \<Rightarrow> bool \<Rightarrow> env list \<Rightarrow> 'q usb \<times> 'e task \<Rightarrow> (bool list \<times> 'q usb \<times> 'e task) option" where
  "protocol_pre_task Q E active configuration env remote polls s =
     map_option (\<lambda>(u, st). let (woken, st) = suspended_loop E remote polls st in (woken, u, st))
       (usb_event_queue_task Q active configuration env s)"

definition protocol_keyboard_task ::
  "'q bq_api \<Rightarrow> 'e eeprom_driver \<Rightarrow> (lut \<Rightarrow> nat \<Rightarrow> u8) \<Rightarrow> bool \<Rightarrow> env \<Rightarrow> env \<Rightarrow> env \<Rightarrow> 'q usb \<times> 'e task \<Rightarrow> ('q usb \<times> 'e task) option" where
  "protocol_keyboard_task Q E mem active env_matrix env_encoder env_rest s =
     (let (u, st) = s in
      Option.bind (keyboard_task E mem (world_of env_matrix u) (world_of env_encoder u) (world_of env_rest u) st)
        (\<lambda>st. flush_sent Q active (u, st)))"

definition protocol_post_task :: "'q bq_api \<Rightarrow> bool \<Rightarrow> (u32 \<Rightarrow> u32) \<Rightarrow> u32 \<Rightarrow> 'q usb \<times> 'e task \<Rightarrow> ('q usb \<times> 'e task) option" where
  "protocol_post_task Q active i2ms now s = map_option (\<lambda>u. (u, snd s)) (usb_idle_task Q active i2ms now (fst s))"

text \<open>Raw HID: \<^verbatim>\<open>receive_report\<close> takes the packets that have arrived one after the other, and each is answered.\<close>

definition send_raw_hid :: "'q bq_api \<Rightarrow> bool \<Rightarrow> bytes \<Rightarrow> 'q usb \<Rightarrow> 'q usb option" where
  "send_raw_hid Q active data u = (if length data \<noteq> RAW_EPSIZE then Some u else send_report Q active USB_ENDPOINT_IN_RAW data u)"

definition receive_report :: "'q bq_api \<Rightarrow> bool \<Rightarrow> 'q usb \<Rightarrow> bytes option \<times> 'q usb" where
  "receive_report Q active u =
     (let (data, ep) = usb_endpoint_out_receive Q active RAW_EPSIZE TIME_IMMEDIATE (raw_out u) in (data, u\<lparr>raw_out := ep\<rparr>))"

partial_function (option) raw_hid_task ::
  "'q bq_api \<Rightarrow> 'e eeprom_driver \<Rightarrow> flash_keymap \<Rightarrow> bool \<Rightarrow> env \<Rightarrow> 'q usb \<times> 'e task \<Rightarrow> ('q usb \<times> 'e task) option" where
  "raw_hid_task Q E K active env s =
     (case receive_report Q active (fst s) of
        (None, u) \<Rightarrow> Some (u, snd s)
      | (Some data, u) \<Rightarrow>
          Option.bind (raw_hid_receive E K env data (snd s)) (\<lambda>(answer, st).
            Option.bind (send_raw_hid Q active answer u) (\<lambda>u. raw_hid_task Q E K active env (u, st))))"

section \<open>Interrupts\<close>

text \<open>
  A bus event, the host takes the packet in flight, a packet of raw HID arrives (the host is told to try again while no transaction
  is open), a control request, the data of SET_REPORT. On a reset and when the device loses its configuration ChibiOS drops the
  transfers under way before it calls the callback.
\<close>

datatype usb_interrupt =
    Bus_Event usbevent_t | Packet_Taken in_endpoint u32 | Packet_Arrived bool bytes
  | Control_Request usb_control_request_t | Leds_Arrived usb_control_request_t bytes

definition drop_transfers :: "'q usb \<Rightarrow> 'q usb" where
  "drop_transfers u = on_raw_out (\<lambda>ep. ep\<lparr>receiving := False\<rparr>) (each_endpoint (\<lambda>e ep. ep\<lparr>in_flight := None\<rparr>) u)"

definition take_packet :: "'q bq_api \<Rightarrow> in_endpoint \<Rightarrow> u32 \<Rightarrow> 'q usb \<Rightarrow> 'q usb" where
  "take_packet Q e now u =
     (let ep = usb_endpoints_in u e in
      if in_flight ep = None then u
      else u\<lparr>usb_endpoints_in := (usb_endpoints_in u)(e := usb_endpoint_in_tx_complete_cb Q e now ep)\<rparr>)"

fun usb_isr :: "'q bq_api \<Rightarrow> (u8 \<Rightarrow> descriptor_type) \<Rightarrow> usb_interrupt \<Rightarrow> 'q usb \<Rightarrow> 'q usb" where
  "usb_isr Q dtype (Bus_Event ev) u =
     usb_event_cb Q ev (if ev = USB_EVENT_RESET \<or> ev = USB_EVENT_UNCONFIGURED then drop_transfers u else u)"
| "usb_isr Q dtype (Packet_Taken e now) u = take_packet Q e now u"
| "usb_isr Q dtype (Packet_Arrived active data) u =
     (if receiving (raw_out u) then on_raw_out (usb_endpoint_out_rx_complete_cb Q active data) u else u)"
| "usb_isr Q dtype (Control_Request rq) u = snd (usb_requests_hook_cb dtype rq u)"
| "usb_isr Q dtype (Leds_Arrived rq data) u = set_led_transfer_cb rq data u"

text \<open>The host sends packets of the size the descriptor of raw HID gives.\<close>

primrec interrupt_ok :: "usb_interrupt \<Rightarrow> bool" where
  "interrupt_ok (Packet_Arrived active data) \<longleftrightarrow> length data = RAW_EPSIZE"
| "interrupt_ok (Bus_Event ev) \<longleftrightarrow> True" | "interrupt_ok (Packet_Taken e now) \<longleftrightarrow> True"
| "interrupt_ok (Control_Request rq) \<longleftrightarrow> True" | "interrupt_ok (Leds_Arrived rq data) \<longleftrightarrow> True"

text \<open>What the host gets out of an interrupt: the packet it took.\<close>

fun host_takes :: "usb_interrupt \<Rightarrow> 'q usb \<Rightarrow> (in_endpoint \<times> bytes) list" where
  "host_takes (Packet_Taken e now) u = (case in_flight (usb_endpoints_in u e) of None \<Rightarrow> [] | Some p \<Rightarrow> [(e, p)])"
| "host_takes _ u = []"

section \<open>The device\<close>

datatype main_pc = At_Pre_Task | At_Keyboard_Task | At_Post_Task | At_Raw_Hid_Task

text \<open>Where \<^verbatim>\<open>main\<close> is, the two sides, and what the host has taken. A jump to the bootloader or a reset ends the run.\<close>

type_synonym ('q, 'e) device_state = "main_pc \<times> 'q usb \<times> 'e task \<times> (in_endpoint \<times> bytes) list"

inductive device_step ::
  "'q bq_api \<Rightarrow> 'e eeprom_driver \<Rightarrow> flash_keymap \<Rightarrow> (lut \<Rightarrow> nat \<Rightarrow> u8) \<Rightarrow> (u8 \<Rightarrow> descriptor_type) \<Rightarrow> (u32 \<Rightarrow> u32) \<Rightarrow>
   ('q, 'e) device_state \<Rightarrow> ('q, 'e) device_state \<Rightarrow> bool"
  for Q E K mem dtype i2ms where
  Interrupt: "interrupt_ok i \<Longrightarrow> device_step Q E K mem dtype i2ms (pc, u, st, got) (pc, usb_isr Q dtype i u, st, got @ host_takes i u)"
| Pre_Task: "\<forall>env\<in>set polls. \<exists>volt push. board_wiring env volt push \<Longrightarrow>
    protocol_pre_task Q E active configuration env remote polls (u, st) = Some (woken, u', st') \<Longrightarrow>
    device_step Q E K mem dtype i2ms (At_Pre_Task, u, st, got) (At_Keyboard_Task, u', st', got)"
| Keyboard: "board_wiring env_matrix volt push \<Longrightarrow>
    protocol_keyboard_task Q E mem active env_matrix env_encoder env_rest (u, st) = Some (u', st') \<Longrightarrow> jumped st = None \<Longrightarrow>
    device_step Q E K mem dtype i2ms (At_Keyboard_Task, u, st, got) (At_Post_Task, u', st', got)"
| Post_Task: "protocol_post_task Q active i2ms now (u, st) = Some (u', st') \<Longrightarrow> jumped st = None \<Longrightarrow>
    device_step Q E K mem dtype i2ms (At_Post_Task, u, st, got) (At_Raw_Hid_Task, u', st', got)"
| Raw_Hid: "raw_hid_task Q E K active env (u, st) = Some (u', st') \<Longrightarrow> jumped st = None \<Longrightarrow>
    device_step Q E K mem dtype i2ms (At_Raw_Hid_Task, u, st, got) (At_Pre_Task, u', st', got)"

section \<open>Events one after the other\<close>

text \<open>The task empties the queue; the device's state is what the events make of it one after the other.\<close>

definition after_events :: "u8 \<Rightarrow> usbevent_t list \<Rightarrow> 'q usb \<Rightarrow> usb_device_state \<times> bool" where
  "after_events configuration evs u = (let u = fold (handle_event configuration) evs u in (device u, last_suspend_state u))"

lemma after_events_cong:
  "device u = device u' \<Longrightarrow> last_suspend_state u = last_suspend_state u' \<Longrightarrow> after_events c evs u = after_events c evs u'"
proof (induction evs arbitrary: u u')
  case (Cons ev evs)
  then have "device (handle_event c ev u) = device (handle_event c ev u')" "last_suspend_state (handle_event c ev u) = last_suspend_state (handle_event c ev u')"
    by (simp_all add: handle_event_def split: usbevent_t.split)
  from Cons.IH [OF this] show ?case by (simp add: after_events_def)
qed (simp add: after_events_def)

section \<open>Every phase returns and keeps both sides sound\<close>

lemma packet_sized:
  assumes "sent_ok r" "packet_of False r = Some p"
  shows "sized_report p"
proof (cases r)
  case (Send_Keyboard k)
  have "length (keyboard_bytes k) = 9" "hd (keyboard_bytes k) = REPORT_ID_KEYBOARD"
    using assms(1) by (simp_all add: Send_Keyboard keyboard_bytes_def rk_ok_def KEYBOARD_REPORT_KEYS_def)
  then show ?thesis using assms(2) shared_report_sizes(1) by (auto simp: Send_Keyboard sized_report_def KEYBOARD_REPORT_SIZE_def)
next
  case (Send_Nkro k)
  then show ?thesis using assms shared_report_sizes(5) by (auto simp: sized_report_def nkro_bytes_def NKRO_REPORT_BITS_def)
next
  case (Send_Mouse k)
  then show ?thesis using assms shared_report_sizes(2) by (auto simp: sized_report_def mouse_bytes_def)
next
  case (Send_Extra k)
  then show ?thesis using assms shared_report_sizes(3,4) by (auto simp: sized_report_def extra_bytes_def)
qed (use assms in simp)

lemma packet_good:
  assumes "sent_ok r" "packet_of as_boot r = Some p"
  shows "good_packet USB_ENDPOINT_IN_SHARED p"
proof (cases "as_boot \<and> (\<exists>k. r = Send_Keyboard k)")
  case True
  then show ?thesis using assms by (auto simp: good_packet_def keyboard_bytes_def rk_ok_def slice_def KEYBOARD_REPORT_KEYS_def)
next
  case False
  then have "packet_of False r = Some p" using assms(2) by (cases r) auto
  then show ?thesis using packet_sized [OF assms(1)] by (simp add: good_packet_def)
qed

context usb_queues
begin

lemma send_reports_ok:
  assumes "usb_ok u" "list_all sent_ok rs"
  shows "\<exists>u'. send_reports Q active rs u = Some u' \<and> usb_ok u' \<and> pending_events u' = pending_events u \<and> device u' = device u
    \<and> last_suspend_state u' = last_suspend_state u"
  using assms
proof (induction rs arbitrary: u)
  case (Cons r rs)
  show ?case
  proof (cases "packet_of (ds_protocol (device u) = USB_PROTOCOL_BOOT) r")
    case None
    then show ?thesis using Cons by simp
  next
    case (Some p)
    have "good_packet USB_ENDPOINT_IN_SHARED p" using packet_good [OF _ Some] Cons.prems(2) by simp
    then obtain u1 where u1: "send_report Q active USB_ENDPOINT_IN_SHARED p u = Some u1" "usb_ok u1"
      "pending_events u1 = pending_events u" "device u1 = device u" "last_suspend_state u1 = last_suspend_state u"
      "raw_out u1 = raw_out u" by (rule usb_ok_send [OF Cons.prems(1)])
    then show ?thesis using Cons.IH [OF u1(2)] Cons.prems(2) Some by simp
  qed
qed simp

lemma raw_size: "RAW_EPSIZE = buffer_size"
  by (simp add: size_32 RAW_EPSIZE_def)

lemma usb_ok_drop: "usb_ok u \<Longrightarrow> usb_ok (drop_transfers u)"
  by (simp add: drop_transfers_def usb_ok_each usb_ok_out ep_ok_callbacks out_ok_callbacks)

lemma usb_isr_ok: "interrupt_ok i \<Longrightarrow> usb_ok u \<Longrightarrow> usb_ok (usb_isr Q dtype i u)"
proof (cases i)
  case (Bus_Event ev)
  assume "usb_ok u"
  then show ?thesis by (simp add: Bus_Event usb_ok_event_cb usb_ok_drop)
next
  case (Packet_Arrived active data)
  assume u: "usb_ok u" and i: "interrupt_ok i"
  have "out_ok (usb_endpoint_out_rx_complete_cb Q active data (raw_out u))" if "receiving (raw_out u)"
  proof (rule out_arrived(1) [OF _ that])
    show "out_ok (raw_out u)" using u by (simp add: usb_ok_def)
    show "length data = buffer_size" using i by (simp only: Packet_Arrived interrupt_ok.simps raw_size)
  qed (simp add: size_32)
  then show ?thesis using u by (simp add: Packet_Arrived on_raw_out_def usb_ok_def event_queue_ok_def)
next
  case (Packet_Taken e now)
  assume u: "usb_ok u"
  then have "ep_ok e (usb_endpoint_in_tx_complete_cb Q e now (usb_endpoints_in u e))" using ep_ok_taken by (simp add: usb_ok_def)
  then show ?thesis using u by (simp add: Packet_Taken take_packet_def Let_def usb_ok_endpoint)
next
  case (Control_Request rq)
  assume "usb_ok u"
  then show ?thesis by (simp add: Control_Request usb_ok_request)
next
  case (Leds_Arrived rq data)
  assume "usb_ok u"
  then show ?thesis by (simp add: Leds_Arrived set_led_transfer_cb_def Let_def usb_ok_device)
qed

lemma usb_idle_task_ok: "usb_ok u \<Longrightarrow> \<exists>u'. usb_idle_task Q active i2ms now u = Some u' \<and> usb_ok u'"
  by (cases "run_idle_task u") (metis idle_task_result, simp add: usb_idle_task_def)

lemma host_takes_good: "usb_ok u \<Longrightarrow> (e, p) \<in> set (host_takes i u) \<Longrightarrow> good_packet e p"
  by (cases i) (auto simp: usb_ok_def ep_ok_def split: option.splits)

end

definition buffer_in_packet :: "bytes \<Rightarrow> bool" where
  "buffer_in_packet data \<longleftrightarrow> (buffer_command (data ! 0) \<longrightarrow> unat (data ! 3) \<le> 28)"

locale usb_board = board_eeprom E view inv + usb_queues Q buffer_capacity buffer_size posted filling suspended
  for E :: "'e eeprom_driver" and view :: "'e \<Rightarrow> bytes" and inv :: "'e \<Rightarrow> bool"
    and Q :: "'q bq_api" and buffer_capacity buffer_size :: nat
    and posted :: "'q \<Rightarrow> bytes list" and filling :: "'q \<Rightarrow> bytes" and suspended :: "'q \<Rightarrow> bool"
begin

lemma flush_sent_ok:
  assumes "usb_ok u" "task_ok inv st"
  shows "\<exists>u' st'. flush_sent Q active (u, st) = Some (u', st') \<and> usb_ok u' \<and> task_ok inv st' \<and> pending_events u' = pending_events u
    \<and> device u' = device u \<and> last_suspend_state u' = last_suspend_state u"
proof -
  have h: "hid_ok (hid (hostio st))" using assms(2) by (simp add: task_ok_def act_ok_def)
  then have "list_all sent_ok (rev (host_sent (hid (hostio st))))" by (simp add: hid_ok_def)
  from send_reports_ok [OF assms(1) this, of active] obtain u' where u':
    "send_reports Q active (rev (host_sent (hid (hostio st)))) u = Some u'" "usb_ok u'" "pending_events u' = pending_events u"
    "device u' = device u" "last_suspend_state u' = last_suspend_state u" by auto
  have "act_ok inv (act_hid (\<lambda>h. h\<lparr>host_sent := []\<rparr>) st)"
    using assms(2) h by (intro act_ok_hid) (simp_all add: task_ok_def hid_ok_def)
  then have "task_ok inv (act_hid (\<lambda>h. h\<lparr>host_sent := []\<rparr>) st)" using assms(2) by (simp add: task_ok_def act_hid_def on_io_def)
  then show ?thesis using u' by (simp add: flush_sent_def)
qed

lemma event_task_ok:
  assumes "usb_ok u" "task_ok inv st"
  shows "\<exists>u' st'. usb_event_queue_task Q active configuration env (u, st) = Some (u', st') \<and> usb_ok u' \<and> task_ok inv st' \<and> pending_events u' = []
    \<and> (device u', last_suspend_state u') = after_events configuration (pending_events u) u"
  using assms
proof (induction "length (pending_events u)" arbitrary: u st rule: less_induct)
  case less
  have q: "event_queue_ok u" using less.prems(1) by (simp add: usb_ok_def)
  show ?case
  proof (cases "pending_events u")
    case Nil
    then show ?thesis using less.prems usb_events.deq_empty [OF q Nil] by (simp add: usb_event_queue_task.simps after_events_def)
  next
    case (Cons ev evs)
    obtain u1 where u1: "usb_event_queue_dequeue u = Some (ev, u1)" "event_queue_ok u1" "pending_events u1 = evs"
      using usb_events.deq_oldest [OF q Cons] by auto
    then have d1: "usb_ok u1" "device u1 = device u" "last_suspend_state u1 = last_suspend_state u"
      using less.prems(1) by (auto simp: usb_ok_def usb_event_queue_dequeue_def split: if_splits)
    then obtain u2 st2 where 2: "(if ev = USB_EVENT_WAKEUP then wake_keyboard Q active env (u1, st) else Some (u1, st)) = Some (u2, st2)"
      "usb_ok u2" "task_ok inv st2" "pending_events u2 = evs" "device u2 = device u" "last_suspend_state u2 = last_suspend_state u"
      using flush_sent_ok [of u1 "suspend_wakeup_init (world_of env u1) st" active] task_ok_wakeup [OF less.prems(2)] less.prems(2) u1(3)
      by (cases "ev = USB_EVENT_WAKEUP") (auto simp: wake_keyboard_def)
    let ?u = "handle_event configuration ev u2"
    have h: "pending_events ?u = evs"
      using 2(4) by (simp add: handle_event_def pending_events_def split: usbevent_t.split)
    have "after_events configuration (ev # evs) u2 = after_events configuration (ev # evs) u" by (rule after_events_cong) (rule 2)+
    then have a: "after_events configuration evs ?u = after_events configuration (ev # evs) u" by (simp add: after_events_def)
    have "usb_event_queue_task Q active configuration env (u, st) = usb_event_queue_task Q active configuration env (?u, st2)"
      by (simp only: usb_event_queue_task.simps [of Q active configuration env "(u, st)"] fst_conv snd_conv u1(1) option.case prod.case
          2(1) Option.bind.bind_lunit)
    then show ?thesis using less.hyps [OF _ usb_ok_handle [OF 2(2)] 2(3), of configuration ev] h a Cons by simp
  qed
qed

lemma suspended_loop_ok:
  "task_ok inv st \<Longrightarrow> \<forall>env\<in>set polls. \<exists>volt push. board_wiring env volt push \<Longrightarrow> task_ok inv (snd (suspended_loop E remote polls st))"
proof (induction polls arbitrary: st)
  case (Cons env polls)
  then obtain volt push where "board_wiring env volt push" by auto
  from main_step_ok [OF main_step.Suspend_Check [OF this] Cons.prems(1)]
  have "task_ok inv (snd (suspend_wakeup_condition E env st))" .
  from Cons.IH [OF this] Cons.prems(2) show ?case by (simp add: split_beta)
qed simp

lemma pre_task_ok:
  assumes "usb_ok u" "task_ok inv st" "\<forall>env\<in>set polls. \<exists>volt push. board_wiring env volt push"
  shows "\<exists>woken u' st'. protocol_pre_task Q E active configuration env remote polls (u, st) = Some (woken, u', st')
    \<and> usb_ok u' \<and> task_ok inv st' \<and> pending_events u' = []"
proof -
  obtain u' st' where t: "usb_event_queue_task Q active configuration env (u, st) = Some (u', st')" "usb_ok u'" "task_ok inv st'"
    "pending_events u' = []" using event_task_ok [OF assms(1,2)] by blast
  then show ?thesis using suspended_loop_ok [OF t(3) assms(3), of remote] by (simp add: protocol_pre_task_def split_beta)
qed

lemma keyboard_phase_ok:
  assumes "usb_ok u" "task_ok inv st" "board_wiring env_matrix volt push"
  shows "\<exists>u' st'. protocol_keyboard_task Q E mem active env_matrix env_encoder env_rest (u, st) = Some (u', st') \<and> usb_ok u' \<and> task_ok inv st'"
proof -
  have w: "board_wiring (pins (world_of env_matrix u)) volt push" using assms(3) by (simp add: world_of_def)
  obtain st1 where k: "keyboard_task E mem (world_of env_matrix u) (world_of env_encoder u) (world_of env_rest u) st = Some st1" "task_ok inv st1"
    using task_ok_keyboard_task [OF w assms(2)] by blast
  then show ?thesis using flush_sent_ok [OF assms(1) k(2), of active] by (auto simp: protocol_keyboard_task_def)
qed

lemma post_phase_ok:
  assumes "usb_ok u"
  shows "\<exists>u'. protocol_post_task Q active i2ms now (u, st) = Some (u', st) \<and> usb_ok u'"
  using usb_idle_task_ok [OF assms, of active i2ms now] by (auto simp: protocol_post_task_def)

text \<open>The loop of raw HID takes what is queued; it stops at a buffer command that is longer than its packet, and then only.\<close>

lemma raw_hid_ok:
  assumes "usb_ok u" "task_ok inv st"
  shows "case raw_hid_task Q E K active env (u, st) of
      None \<Rightarrow> \<exists>data\<in>set (posted (ibqueue (raw_out u))). \<not> buffer_in_packet data
    | Some (u', st') \<Rightarrow> usb_ok u' \<and> task_ok inv st' \<and> (active \<longrightarrow> posted (ibqueue (raw_out u')) = [])"
  using assms
proof (induction "length (posted (ibqueue (raw_out u)))" arbitrary: u st rule: less_induct)
  case less
  have o: "out_ok (raw_out u)" using less.prems(1) by (simp add: usb_ok_def)
  have ok: "usb_ok (u\<lparr>raw_out := ep\<rparr>)" if "out_ok ep" for ep using less.prems(1) that by (simp add: usb_ok_def event_queue_ok_def)
  from o show ?case
  proof (rule out_receive [of _ TIME_IMMEDIATE active])
    fix ep'
    assume r: "usb_endpoint_out_receive Q active buffer_size TIME_IMMEDIATE (raw_out u) = (None, ep')" "out_ok ep'"
      "posted (ibqueue ep') = posted (ibqueue (raw_out u))" "active \<Longrightarrow> posted (ibqueue (raw_out u)) = []"
    then show ?thesis using ok less.prems(2) by (simp add: raw_hid_task.simps receive_report_def raw_size)
  next
    fix data bs ep'
    assume r: "usb_endpoint_out_receive Q active buffer_size TIME_IMMEDIATE (raw_out u) = (Some data, ep')" "out_ok ep'"
      "posted (ibqueue (raw_out u)) = data # bs" "posted (ibqueue ep') = bs"
    have l: "length data = RAW_EPSIZE" using o r(3) by (simp add: out_ok_def raw_size)
    show ?thesis
    proof (cases "raw_hid_receive E K env data st")
      case None
      then have "raw_hid_task Q E K active env (u, st) = None" "\<not> buffer_in_packet data"
        using r(1) raw_hid_None_iff [OF l, of E K env st]
        by (simp_all add: raw_hid_task.simps [of Q E K active env "(u, st)"] receive_report_def raw_size buffer_in_packet_def)
      then show ?thesis using r(3) by simp
    next
      case (Some a)
      then obtain answer st1 where a: "raw_hid_receive E K env data st = Some (answer, st1)" by (cases a) simp
      have "length answer = RAW_EPSIZE" by (rule raw_hid_length [OF l a])
      then have g: "good_packet USB_ENDPOINT_IN_RAW answer" "length answer = RAW_EPSIZE" by (simp_all add: good_packet_def RAW_EPSIZE_def)
      obtain u1 where u1: "send_report Q active USB_ENDPOINT_IN_RAW answer (u\<lparr>raw_out := ep'\<rparr>) = Some u1" "usb_ok u1"
        "pending_events u1 = pending_events (u\<lparr>raw_out := ep'\<rparr>)" "device u1 = device (u\<lparr>raw_out := ep'\<rparr>)"
        "last_suspend_state u1 = last_suspend_state (u\<lparr>raw_out := ep'\<rparr>)" "raw_out u1 = raw_out (u\<lparr>raw_out := ep'\<rparr>)"
        by (rule usb_ok_send [OF ok [OF r(2)] g(1)])
      have "task_ok inv st1" by (rule main_step_ok [OF main_step.Host_Packet [OF a] less.prems(2)])
      from less.hyps [OF _ u1(2) this] have "case raw_hid_task Q E K active env (u1, st1) of
          None \<Rightarrow> \<exists>data\<in>set bs. \<not> buffer_in_packet data
        | Some (u', st') \<Rightarrow> usb_ok u' \<and> task_ok inv st' \<and> (active \<longrightarrow> posted (ibqueue (raw_out u')) = [])"
        using r(3,4) u1(6) by (auto split: option.splits)
      moreover have "raw_hid_task Q E K active env (u, st) = raw_hid_task Q E K active env (u1, st1)"
        using r(1) a u1(1) g(2) by (simp add: raw_hid_task.simps [of Q E K active env "(u, st)"] receive_report_def send_raw_hid_def raw_size)
      ultimately show ?thesis using r(3) by (auto split: option.splits)
    qed
  qed (use size_32 in simp_all)
qed

definition device_ok :: "('q, 'e) device_state \<Rightarrow> bool" where
  "device_ok s \<longleftrightarrow> (case s of (pc, u, st, got) \<Rightarrow> usb_ok u \<and> task_ok inv st \<and> (\<forall>(e, p)\<in>set got. good_packet e p))"

lemma device_step_ok:
  assumes "device_step Q E K mem dtype i2ms s s'" "device_ok s"
  shows "device_ok s'"
  using assms(1)
proof (cases rule: device_step.cases)
  case (Interrupt i pc u st got)
  then show ?thesis using assms(2) usb_isr_ok [of i u dtype] host_takes_good [of u] by (auto simp: device_ok_def)
next
  case (Pre_Task polls active configuration env remote u st woken u' st' got)
  then show ?thesis using assms(2) pre_task_ok [of u st polls active configuration env remote] by (auto simp: device_ok_def)
next
  case (Keyboard env_matrix volt push active env_encoder env_rest u st u' st' got)
  then show ?thesis using assms(2) keyboard_phase_ok [OF _ _ Keyboard(3), of u st mem active env_encoder env_rest] by (auto simp: device_ok_def)
next
  case (Post_Task active now u st u' st' got)
  then show ?thesis using assms(2) post_phase_ok [of u active i2ms now st] by (auto simp: device_ok_def)
next
  case (Raw_Hid active env u st u' st' got)
  then show ?thesis using assms(2) raw_hid_ok [of u st active K env] by (auto simp: device_ok_def)
qed

lemma device_reachable_ok:
  assumes "(device_step Q E K mem dtype i2ms)\<^sup>*\<^sup>* s s'" "device_ok s"
  shows "device_ok s'"
  using assms by (induction rule: rtranclp_induct) (auto intro: device_step_ok)

end

section \<open>Sending is what an endpoint's run calls sending\<close>

definition packets_of :: "bool \<Rightarrow> host_report list \<Rightarrow> bytes list" where
  "packets_of as_boot rs = List.map_filter (packet_of as_boot) rs"

lemma send_reports_run:
  assumes "send_reports Q active rs u = Some u'"
  shows "ep_run Q USB_ENDPOINT_IN_SHARED (map (Send active) (packets_of (ds_protocol (device u) = USB_PROTOCOL_BOOT) rs))
      (usb_endpoints_in u USB_ENDPOINT_IN_SHARED, got) = Some (usb_endpoints_in u' USB_ENDPOINT_IN_SHARED, got)"
    and "e \<noteq> USB_ENDPOINT_IN_SHARED \<Longrightarrow> usb_endpoints_in u' e = usb_endpoints_in u e"
  using assms
proof (atomize (full), induction rs arbitrary: u)
  case (Cons r rs)
  show ?case
  proof (cases "packet_of (ds_protocol (device u) = USB_PROTOCOL_BOOT) r")
    case None
    then show ?thesis using Cons by (simp add: packets_of_def List.map_filter_simps)
  next
    case (Some p)
    then obtain u1 where u1: "send_report Q active USB_ENDPOINT_IN_SHARED p u = Some u1" "send_reports Q active rs u1 = Some u'"
      using Cons.prems by (auto simp: bind_eq_Some_conv)
    then obtain ok ep where "usb_endpoint_in_send Q active p (TIME_MS2I 100) (usb_endpoints_in u USB_ENDPOINT_IN_SHARED) = Some (ok, ep)"
      "u1 = u\<lparr>usb_endpoints_in := (usb_endpoints_in u)(USB_ENDPOINT_IN_SHARED := ep)\<rparr>" by (auto simp: send_report_def)
    with Cons.IH [OF u1(2)] Some show ?thesis by (simp add: packets_of_def List.map_filter_simps)
  qed
qed (simp add: packets_of_def List.map_filter_simps)

section \<open>What the host reads of the reports\<close>

text \<open>The controls a report stands for, and what a host that follows the report descriptor reads off its packet.\<close>

definition key_controls :: "u8 \<times> u8 set \<Rightarrow> control set" where
  "key_controls v = {(7, 0xE0 + k, 1) | k. bit (fst v) k} \<union> {(7, unat k, 1) | k. k \<in> snd v - {0}}"

lemma view_is_read:
  assumes "sent_ok r" "view_of nk r = Some v" "packet_of False r = Some p"
  shows "host_reads SharedReport p = key_controls v"
proof (cases r)
  case (Send_Keyboard k)
  then have k: "length (rk_keys k) = KEYBOARD_REPORT_KEYS" "rk_report_id k = REPORT_ID_KEYBOARD" "v = (rk_mods k, keys6 k)"
    using assms by (cases nk; auto simp: rk_ok_def)+
  then have "p = keyboard_bytes k" using assms(3) by (simp add: Send_Keyboard keyboard_bytes_def hw_defs)
  then show ?thesis using host_reads_keyboard [OF k(1,2)] by (simp add: key_controls_def k(3) keys6_def)
next
  case (Send_Nkro k)
  then have "v = (rn_mods k, keys_nkro k)" using assms(2) by (cases nk; simp)
  then show ?thesis using assms host_reads_nkro [of k] by (auto simp: Send_Nkro key_controls_def)
qed (use assms in \<open>cases nk; simp\<close>)+

text \<open>In the boot protocol the eight bytes of a report show the same.\<close>

lemma view_is_read_boot:
  assumes "sent_ok r" "view_of False r = Some v" "packet_of True r = Some p"
  shows "boot_reads p = v \<and> length p = 8"
proof (cases r)
  case (Send_Keyboard k)
  then have k: "length (rk_keys k) = 6" "v = (rk_mods k, keys6 k)" using assms by (auto simp: rk_ok_def hw_defs)
  have "p = rk_mods k # rk_reserved k # rk_keys k" using assms(3) k(1) by (simp add: Send_Keyboard keyboard_bytes_def slice_def)
  then show ?thesis using k by (simp add: boot_reads_def slice_def keys6_def)
qed (use assms in simp_all)

section \<open>From the reports to the packets\<close>

lemma packets_snoc: "packets_of b (rs @ [r]) = packets_of b rs @ (case packet_of b r of None \<Rightarrow> [] | Some p \<Rightarrow> [p])"
  by (induction rs) (simp_all add: packets_of_def List.map_filter_simps split: option.split)

definition view_id :: "bool \<Rightarrow> u8" where
  "view_id nk = (if nk then REPORT_ID_NKRO else REPORT_ID_KEYBOARD)"

lemma packet_ids:
  assumes "sent_ok r" "packet_of False r = Some p"
  shows "view_of nk r \<noteq> None \<longleftrightarrow> p ! 0 = view_id nk"
  using assms by (cases r; cases nk)
    (auto simp: keyboard_bytes_def nkro_bytes_def mouse_bytes_def extra_bytes_def view_id_def hw_defs)

lemma last_view_packet:
  assumes "list_all sent_ok hs" "List.map_filter (view_of nk) hs = v # vs"
  shows "\<exists>p. last_of USB_ENDPOINT_IN_SHARED (view_id nk) (packets_of False (rev hs)) = Some p \<and> host_reads SharedReport p = key_controls v"
  using assms
proof (induction hs)
  case Nil
  then show ?case by (simp add: List.map_filter_simps)
next
  case (Cons r hs)
  then have r: "sent_ok r" by simp
  show ?case
  proof (cases "view_of nk r")
    case None
    then have "List.map_filter (view_of nk) hs = v # vs" using Cons.prems(2) by (simp add: List.map_filter_simps)
    then obtain p where p: "last_of USB_ENDPOINT_IN_SHARED (view_id nk) (packets_of False (rev hs)) = Some p"
      "host_reads SharedReport p = key_controls v" using Cons by auto
    show ?thesis
    proof (cases "packet_of False r")
      case (Some q)
      then have "\<not> slot_of USB_ENDPOINT_IN_SHARED q (view_id nk)" using packet_ids [OF r Some, of nk] None by (auto simp: slot_of_def)
      then show ?thesis using p Some by (simp add: packets_snoc last_of_snoc)
    qed (use p in \<open>simp add: packets_snoc\<close>)
  next
    case (Some w)
    then have w: "w = v" using Cons.prems(2) by (simp add: List.map_filter_simps)
    obtain q where q: "packet_of False r = Some q" using Some by (cases r; cases nk) simp_all
    then have "slot_of USB_ENDPOINT_IN_SHARED q (view_id nk)" using packet_ids [OF r q, of nk] Some by (auto simp: slot_of_def)
    then show ?thesis using q view_is_read [OF r Some q] w by (simp add: packets_snoc last_of_snoc)
  qed
qed

section \<open>A calm wire\<close>

lemma packets_good: "list_all sent_ok rs \<Longrightarrow> p \<in> set (packets_of as_boot rs) \<Longrightarrow> good_packet USB_ENDPOINT_IN_SHARED p"
  by (induction rs) (auto simp: packets_of_def List.map_filter_simps packet_good split: option.splits)

lemma calm_events_ok: "calm cap n evs \<Longrightarrow> \<forall>d\<in>set (sent_in evs). d \<noteq> [] \<and> length d \<le> m \<Longrightarrow> list_all (event_ok m) evs"
proof (induction evs arbitrary: n)
  case (Cons ev evs)
  show ?case
  proof (cases ev)
    case (Send active data)
    then have "data \<in> set (sent_in (ev # evs))" "set (sent_in evs) \<subseteq> set (sent_in (ev # evs))"
      using Cons.prems(1) by (auto simp: sent_in_def)
    then show ?thesis using Send Cons.prems Cons.IH [of "Suc n"] by auto
  next
    case (Taken now)
    then show ?thesis using Cons.prems Cons.IH [of "n - 1"] by (simp add: sent_in_def)
  qed (use Cons.prems in simp_all)
qed simp

context usb_queues
begin

lemma calm_wire:
  assumes "posted q = []" "filling q = []" "\<not> suspended q" "calm buffer_capacity 0 evs" "\<forall>d\<in>set (sent_in evs). good_packet e d"
    "ep_run Q e evs (usb_endpoint_in_init e q, []) = Some (ep, got)"
  shows "sent_in evs = got @ posted (obqueue ep)" "reports_ok e (report_storage ep)"
    "\<lbrakk>kept e (report_storage_init e) i \<noteq> None; last_of e i got = Some p\<rbrakk> \<Longrightarrow> \<exists>r. kept e (report_storage ep) i = Some r \<and> kept_bytes r = p"
proof -
  have d: "\<forall>d\<in>set (sent_in evs). d \<noteq> [] \<and> length d \<le> 32" using assms(5) good_packet_length by blast
  have "in_step e (report_storage_init e) ([] @ sent_in evs) (ep, got)"
  proof (rule calm_run [OF assms(6) start_ok(2) [OF assms(1-3)]])
    show "list_all (event_ok buffer_size) evs" using calm_events_ok [OF assms(4) d] by (simp add: size_32)
    show "calm buffer_capacity (length (posted (obqueue (usb_endpoint_in_init e q)))) evs"
      using assms(1,4) by (simp add: usb_endpoint_in_init_def)
  qed (simp_all add: size_32)
  then have k: "sent_in evs = got @ posted (obqueue ep)" "keeps e (report_storage_init e) got (report_storage ep)"
    by (simp_all add: in_step_def)
  show "sent_in evs = got @ posted (obqueue ep)" by (rule k(1))
  show "reports_ok e (report_storage ep)" using k(2) by (simp add: keeps_def)
  assume i: "kept e (report_storage_init e) i \<noteq> None" "last_of e i got = Some p"
  then obtain r0 where "kept e (report_storage_init e) i = Some r0" by auto
  moreover have "case kept e (report_storage_init e) i of None \<Rightarrow> kept e (report_storage ep) i = None
     | Some r0 \<Rightarrow> \<exists>r. kept e (report_storage ep) i = Some r \<and> fs_idle_rate r = fs_idle_rate r0
         \<and> kept_bytes r = (case last_of e i got of None \<Rightarrow> kept_bytes r0 | Some d \<Rightarrow> d)" using k(2) unfolding keeps_def by blast
  ultimately show "\<exists>r. kept e (report_storage ep) i = Some r \<and> kept_bytes r = p" using i(2) by auto
qed

end

lemma view_id_kept: "kept USB_ENDPOINT_IN_SHARED (report_storage_init USB_ENDPOINT_IN_SHARED) (view_id nk) \<noteq> None"
  by (simp add: kept_def shared_report_def report_storage_init_def view_id_def hw_defs)

lemma keyboard_endpoint: "request_endpoint KEYBOARD_INTERFACE (view_id nk) = Some USB_ENDPOINT_IN_SHARED"
  by (simp add: request_endpoint_def usb_endpoint_interface_lut_def view_id_def hw_defs)

section \<open>The start\<close>

text \<open>\<^verbatim>\<open>protocol_setup\<close> and \<^verbatim>\<open>protocol_pre_init\<close>: the device state, the event queue, the endpoints with their empty queues.\<close>

definition protocol_start :: "'q \<Rightarrow> 'q usb" where
  "protocol_start q = usb_event_queue_init ((usb_power_on q)\<lparr>device := usb_device_state_init usb_device_state_reset\<rparr>)"

definition device_reaches ::
  "'q bq_api \<Rightarrow> 'e eeprom_driver \<Rightarrow> flash_keymap \<Rightarrow> (lut \<Rightarrow> nat \<Rightarrow> u8) \<Rightarrow> (u8 \<Rightarrow> descriptor_type) \<Rightarrow> (u32 \<Rightarrow> u32) \<Rightarrow>
   'q \<Rightarrow> 'e task \<Rightarrow> ('q, 'e) device_state \<Rightarrow> bool" where
  "device_reaches Q E K mem dtype i2ms q st0 s \<longleftrightarrow>
     (device_step Q E K mem dtype i2ms)\<^sup>*\<^sup>* (At_Pre_Task, protocol_start q, st0, []) s"

context usb_queues
begin

lemma protocol_start_ok:
  "posted q = [] \<Longrightarrow> filling q = [] \<Longrightarrow> usb_ok (protocol_start q) \<and> pending_events (protocol_start q) = []"
  using usb_ok_power_on [of q]
  by (simp add: protocol_start_def usb_event_queue_init_def usb_ok_def event_queue_ok_def pending_events_def USB_EVENT_QUEUE_SIZE_def)

end

context usb_board
begin

lemma device_reaches_ok:
  assumes "device_reaches Q E K mem dtype i2ms q st0 (pc, u, st, got)" "posted q = []" "filling q = []" "task_ok inv st0"
  shows "usb_ok u" "task_ok inv st" "\<forall>(e, p)\<in>set got. good_packet e p"
proof -
  have "device_ok (At_Pre_Task, protocol_start q, st0, [])" using protocol_start_ok [OF assms(2,3)] assms(4) by (simp add: device_ok_def)
  from device_reachable_ok [OF assms(1) [unfolded device_reaches_def] this]
  show "usb_ok u" "task_ok inv st" "\<forall>(e, p)\<in>set got. good_packet e p" by (simp_all add: device_ok_def)
qed

end

interpretation f411_usb: usb_board
  "board_driver w f411_flash" cache "efl_persisted (board_wl w) f411_flash nor_mem nor_started nor_ok 1 1"
  lq_api 4 32 lq_posted lq_filling lq_suspended for w
  by (rule usb_board.intro) (rule f411_ee.board_eeprom_axioms, rule lqs.usb_queues_axioms)

end

