(* ===== verification/Ws2812.thy ===== *)
theory Ws2812
  imports Rgblight
begin

text \<open>
  The driver of the LED strip, \<^verbatim>\<open>platforms/chibios/drivers/ws2812_pwm.c\<close> with \<^verbatim>\<open>drivers/led/ws2812.h\<close>: the frame buffer
  holds one duty cycle per bit of colour, followed by a low phase that makes the LEDs show what they got. A DMA
  stream copies it to the timer again and again. The board takes the F4 timer TIM1 (16-bit duty cycles), 68 LEDs,
  the byte order green, red, blue and its own \<^verbatim>\<open>WS2812_T1H\<close>. \<open>Rgblight\<close> keeps the colours (\<open>ws2812_leds\<close>) and what
  was flushed last (\<open>ws2812_strip\<close>); here is what the data line carries.
\<close>

section \<open>Model\<close>

definition CPU_CLOCK :: nat where [hw_defs]: "CPU_CLOCK = 96000000"
definition WS2812_TIMING :: nat where [hw_defs]: "WS2812_TIMING = 1250"
definition WS2812_T0H :: nat where [hw_defs]: "WS2812_T0H = 350"
definition WS2812_T1H :: nat where [hw_defs]: "WS2812_T1H = 792"
definition WS2812_TRST_US :: nat where [hw_defs]: "WS2812_TRST_US = 280"
definition WS2812_CHANNELS :: nat where [hw_defs]: "WS2812_CHANNELS = 3"
definition WS2812_LED_COUNT :: nat where [hw_defs]: "WS2812_LED_COUNT = RGBLIGHT_LED_COUNT"

definition WS2812_PWM_FREQUENCY :: nat where [hw_defs]: "WS2812_PWM_FREQUENCY = 1000000000 div WS2812_TIMING"
definition WS2812_PWM_TICK_FREQUENCY :: nat where [hw_defs]: "WS2812_PWM_TICK_FREQUENCY = CPU_CLOCK div 2"
definition WS2812_PWM_PERIOD :: nat where [hw_defs]: "WS2812_PWM_PERIOD = WS2812_PWM_TICK_FREQUENCY div WS2812_PWM_FREQUENCY"
definition WS2812_COLOR_BITS :: nat where [hw_defs]: "WS2812_COLOR_BITS = WS2812_CHANNELS * 8"
definition WS2812_RESET_BIT_N :: nat where [hw_defs]: "WS2812_RESET_BIT_N = 1000 * WS2812_TRST_US div WS2812_TIMING"
definition WS2812_COLOR_BIT_N :: nat where [hw_defs]: "WS2812_COLOR_BIT_N = WS2812_LED_COUNT * WS2812_COLOR_BITS"
definition WS2812_BIT_N :: nat where [hw_defs]: "WS2812_BIT_N = WS2812_COLOR_BIT_N + WS2812_RESET_BIT_N"

definition WS2812_DUTYCYCLE_0 :: u16 where
  "WS2812_DUTYCYCLE_0 = word_of_nat (WS2812_PWM_TICK_FREQUENCY div (1000000000 div WS2812_T0H))"

definition WS2812_DUTYCYCLE_1 :: u16 where
  "WS2812_DUTYCYCLE_1 = word_of_nat (WS2812_PWM_TICK_FREQUENCY div (1000000000 div WS2812_T1H))"

definition WS2812_BIT :: "nat \<Rightarrow> nat \<Rightarrow> nat \<Rightarrow> nat" where
  "WS2812_BIT led byte bt = WS2812_COLOR_BITS * led + 8 * byte + (7 - bt)"

definition WS2812_RED_BIT :: "nat \<Rightarrow> nat \<Rightarrow> nat" where "WS2812_RED_BIT led bt = WS2812_BIT led 1 bt"
definition WS2812_GREEN_BIT :: "nat \<Rightarrow> nat \<Rightarrow> nat" where "WS2812_GREEN_BIT led bt = WS2812_BIT led 0 bt"
definition WS2812_BLUE_BIT :: "nat \<Rightarrow> nat \<Rightarrow> nat" where "WS2812_BLUE_BIT led bt = WS2812_BIT led 2 bt"

type_synonym frame = "u16 list"

text \<open>The part of \<^verbatim>\<open>ws2812_init\<close> that fills the buffer; its last element is a spare one.\<close>

definition frame_power_on :: frame where
  "frame_power_on = replicate (WS2812_BIT_N + 1) 0"

definition ws2812_init :: "frame \<Rightarrow> frame" where
  "ws2812_init f =
     fold (\<lambda>i f. f[i + WS2812_COLOR_BIT_N := 0]) [0..<WS2812_RESET_BIT_N]
       (fold (\<lambda>i f. f[i := WS2812_DUTYCYCLE_0]) [0..<WS2812_COLOR_BIT_N] f)"

definition duty :: "u8 \<Rightarrow> nat \<Rightarrow> u16" where
  "duty c bt = (if drop_bit bt c AND 1 \<noteq> 0 then WS2812_DUTYCYCLE_1 else WS2812_DUTYCYCLE_0)"

definition ws2812_write_led :: "nat \<Rightarrow> rgb_t \<Rightarrow> frame \<Rightarrow> frame" where
  "ws2812_write_led led rgb =
     fold (\<lambda>bt f. f[WS2812_RED_BIT led bt := duty (rgb_r rgb) bt, WS2812_GREEN_BIT led bt := duty (rgb_g rgb) bt,
        WS2812_BLUE_BIT led bt := duty (rgb_b rgb) bt]) [0..<8]"

definition ws2812_set_color_all :: "rgb_t \<Rightarrow> rgblight_globals \<Rightarrow> rgblight_globals" where
  "ws2812_set_color_all rgb = fold (\<lambda>i. ws2812_set_color i rgb) [0..<WS2812_LED_COUNT]"

definition ws2812_flush_frame :: "rgb_t list \<Rightarrow> frame \<Rightarrow> frame" where
  "ws2812_flush_frame leds = fold (\<lambda>i. ws2812_write_led i (leds ! i)) [0..<WS2812_LED_COUNT]"

section \<open>What the strip receives\<close>

text \<open>An LED shifts in 24 bits, the most significant first, green before red before blue, and passes the rest on.\<close>

definition wire_byte :: "frame \<Rightarrow> nat \<Rightarrow> u8" where
  "wire_byte f k = foldl (\<lambda>w d. 2 * w + of_bool (d = WS2812_DUTYCYCLE_1)) 0 (slice (8 * k) 8 f)"

definition wire_led :: "frame \<Rightarrow> nat \<Rightarrow> rgb_t" where
  "wire_led f i = \<lparr>rgb_r = wire_byte f (3 * i + 1), rgb_g = wire_byte f (3 * i), rgb_b = wire_byte f (3 * i + 2)\<rparr>"

definition wire_leds :: "frame \<Rightarrow> rgb_t list" where
  "wire_leds f = map (wire_led f) [0..<WS2812_LED_COUNT]"

text \<open>A frame that can be sent: only the two duty cycles, then the low phase.\<close>

definition frame_ok :: "frame \<Rightarrow> bool" where
  "frame_ok f \<longleftrightarrow> length f = WS2812_BIT_N + 1 \<and> (\<forall>i<WS2812_COLOR_BIT_N. f ! i \<in> {WS2812_DUTYCYCLE_0, WS2812_DUTYCYCLE_1})
     \<and> (\<forall>i<WS2812_RESET_BIT_N. f ! (WS2812_COLOR_BIT_N + i) = 0)"

lemma duty_cycles: "WS2812_DUTYCYCLE_0 = 16" "WS2812_DUTYCYCLE_1 = 38" "WS2812_PWM_PERIOD = 60"
  by (simp_all add: WS2812_DUTYCYCLE_0_def WS2812_DUTYCYCLE_1_def hw_defs)

lemma frame_sizes: "WS2812_COLOR_BIT_N = 1632" "WS2812_RESET_BIT_N = 224" "WS2812_LED_COUNT = 68" "WS2812_BIT_N = 1856"
  by (simp_all add: hw_defs)

lemma duty_bit: "duty c bt = (if bit c bt then 38 else 16)"
  by (simp add: duty_def duty_cycles bit_iff_and_drop_bit_eq_1 and_one_eq odd_iff_mod_2_eq_one [symmetric])

lemma duty_iff: "duty c bt = WS2812_DUTYCYCLE_1 \<longleftrightarrow> bit c bt"
  by (simp add: duty_bit duty_cycles)

lemma fold_fill:
  "j + n \<le> length f \<Longrightarrow> fold (\<lambda>i f. f[i + j := v]) [0..<n] f = blit j (replicate n v) f"
proof (induction n)
  case (Suc n)
  then show ?case
    by (auto intro!: nth_equalityI simp: nth_blit nth_list_update nth_Cons')
qed simp

lemma ws2812_init_ok:
  assumes "length f = WS2812_BIT_N + 1"
  shows "frame_ok (ws2812_init f)"
proof -
  let ?f = "blit 0 (replicate WS2812_COLOR_BIT_N WS2812_DUTYCYCLE_0) f"
  have a: "WS2812_COLOR_BIT_N + WS2812_RESET_BIT_N \<le> length ?f" "WS2812_COLOR_BIT_N \<le> length f"
    using assms by (simp_all add: frame_sizes)
  have "ws2812_init f = blit WS2812_COLOR_BIT_N (replicate WS2812_RESET_BIT_N 0) ?f"
    using fold_fill [of 0 WS2812_COLOR_BIT_N f WS2812_DUTYCYCLE_0] a by (simp add: ws2812_init_def fold_fill)
  then show ?thesis using assms by (simp add: frame_ok_def nth_blit frame_sizes)
qed

text \<open>The bits of an LED, in the order of the wire.\<close>

definition led_bits :: "rgb_t \<Rightarrow> u16 list" where
  "led_bits rgb = concat (map (\<lambda>c. map (duty c) (rev [0..<8])) [rgb_g rgb, rgb_r rgb, rgb_b rgb])"

lemma length_led_bits: "length (led_bits rgb) = 24"
  by (simp add: led_bits_def)

lemma eight: "[0..<8] = [0, 1, 2, 3, 4, 5, 6, 7]"
  by (simp add: upt_rec)

lemma ws2812_write_led_blit:
  assumes "24 * led + 24 \<le> length f"
  shows "ws2812_write_led led rgb f = blit (24 * led) (led_bits rgb) f"
proof (rule nth_equalityI)
  have len: "length (fold (\<lambda>bt f. f[WS2812_RED_BIT led bt := duty (rgb_r rgb) bt, WS2812_GREEN_BIT led bt := duty (rgb_g rgb) bt,
        WS2812_BLUE_BIT led bt := duty (rgb_b rgb) bt]) bs f) = length f" for bs f by (induction bs arbitrary: f) simp_all
  show "length (ws2812_write_led led rgb f) = length (blit (24 * led) (led_bits rgb) f)"
    using assms by (simp add: ws2812_write_led_def len length_led_bits)
  fix i assume "i < length (ws2812_write_led led rgb f)"
  then have i: "i < length f" by (simp add: ws2812_write_led_def len)
  note defs = ws2812_write_led_def eight WS2812_RED_BIT_def WS2812_GREEN_BIT_def WS2812_BLUE_BIT_def WS2812_BIT_def hw_defs
  show "ws2812_write_led led rgb f ! i = blit (24 * led) (led_bits rgb) f ! i"
  proof (cases "24 * led \<le> i \<and> i < 24 * led + 24")
    case True
    define d where "d = i - 24 * led"
    have d: "i = 24 * led + d" "d < 24" using True by (auto simp: d_def)
    have r: "blit (24 * led) (led_bits rgb) f ! i = led_bits rgb ! d"
      using assms i d by (simp add: nth_blit length_led_bits)
    from d(2) have "d \<in> {0, 1, 2, 3, 4, 5, 6, 7, 8, 9, 10, 11, 12, 13, 14, 15, 16, 17, 18, 19, 20, 21, 22, 23}"
      unfolding insert_iff empty_iff by presburger
    then show ?thesis using i unfolding r unfolding d(1)
      by (elim insertE emptyE) (simp_all add: defs led_bits_def nth_list_update)
  next
    case False
    then have "ws2812_write_led led rgb f ! i = f ! i" by (auto simp: defs nth_list_update)
    then show ?thesis using False assms i by (auto simp: nth_blit length_led_bits)
  qed
qed

lemma flush_frame_blit:
  assumes "n \<le> length leds" "24 * n \<le> length f"
  shows "fold (\<lambda>i. ws2812_write_led i (leds ! i)) [0..<n] f = blit 0 (concat (map led_bits (take n leds))) f"
  using assms
proof (induction n)
  case (Suc n)
  let ?c = "concat (map led_bits (take n leds))"
  have len: "length ?c = 24 * n" using Suc.prems(1)
    by (simp add: length_concat length_led_bits comp_def sum_list_triv)
  have b: "fold (\<lambda>i. ws2812_write_led i (leds ! i)) [0..<Suc n] f = blit (24 * n) (led_bits (leds ! n)) (blit 0 ?c f)"
    using Suc by (simp add: ws2812_write_led_blit len)
  have t: "take (Suc n) leds = take n leds @ [leds ! n]" using Suc.prems(1) by (simp add: take_Suc_conv_app_nth)
  show ?case unfolding b t using blit_append [of 0 ?c "led_bits (leds ! n)" f] Suc.prems(2) by (simp add: len length_led_bits)
qed simp

lemma flush_frame:
  assumes "length leds = WS2812_LED_COUNT" "length f = WS2812_BIT_N + 1"
  shows "ws2812_flush_frame leds f = blit 0 (concat (map led_bits leds)) f"
  using assms flush_frame_blit [of WS2812_LED_COUNT leds f] by (simp add: ws2812_flush_frame_def frame_sizes)

lemma length_frame_bits: "length (concat (map led_bits leds)) = 24 * length leds"
  by (simp add: length_concat length_led_bits comp_def sum_list_triv)

lemma wire_byte_bits:
  assumes "slice (8 * k) 8 f = map (duty c) (rev [0..<8])"
  shows "wire_byte f k = c"
proof -
  have "horner_sum of_bool 2 (map (bit c) [0..<8]) = take_bit 8 c" by (rule horner_sum_bit_eq_take_bit)
  also have "take_bit 8 c = c" by (rule take_bit_word_eq_self) simp
  finally have h: "horner_sum of_bool 2 (map (bit c) [0..<8]) = c" .
  have "wire_byte f k = foldl (\<lambda>w b. 2 * w + of_bool b) 0 (map (bit c) (rev [0..<8]))"
    unfolding wire_byte_def assms by (simp add: foldl_map duty_iff)
  also have "\<dots> = horner_sum of_bool 2 (map (bit c) [0..<8])" by (simp add: eight add.commute)
  finally show ?thesis using h by simp
qed

lemma slice_concat_blocks:
  assumes "\<forall>x\<in>set xs. length (g x) = m" "i < length xs" "a + n \<le> m"
  shows "slice (m * i + a) n (concat (map g xs)) = slice a n (g (xs ! i))"
  using assms
proof (induction xs arbitrary: i)
  case (Cons x xs)
  show ?case
  proof (cases i)
    case 0
    then show ?thesis using Cons.prems by (simp add: slice_def)
  next
    case (Suc j)
    have "slice (m * j + a) n (concat (map g xs)) = slice a n (g (xs ! j))" using Cons Suc by simp
    then show ?thesis using Cons.prems(1) Suc by (simp add: slice_def algebra_simps)
  qed
qed simp

text \<open>What a flush leaves in the buffer: frames stay well formed and carry the colours.\<close>

lemma flush_frame_ok:
  assumes "frame_ok f" "length leds = WS2812_LED_COUNT"
  shows "frame_ok (ws2812_flush_frame leds f)" "wire_leds (ws2812_flush_frame leds f) = leds"
proof -
  let ?c = "concat (map led_bits leds)"
  have len: "length ?c = WS2812_COLOR_BIT_N" "length f = WS2812_BIT_N + 1"
    using assms by (simp_all add: length_frame_bits frame_sizes frame_ok_def)
  have b: "ws2812_flush_frame leds f = blit 0 ?c f" by (rule flush_frame [OF assms(2) len(2)])
  have c: "set ?c \<subseteq> {WS2812_DUTYCYCLE_0, WS2812_DUTYCYCLE_1}" by (auto simp: led_bits_def duty_def)
  have "?c ! i \<in> {WS2812_DUTYCYCLE_0, WS2812_DUTYCYCLE_1}" if "i < WS2812_COLOR_BIT_N" for i
  proof (rule subsetD [OF c])
    show "?c ! i \<in> set ?c" using that len(1) by (intro nth_mem) simp
  qed
  then show "frame_ok (ws2812_flush_frame leds f)" using assms(1) len unfolding b
    by (simp add: frame_ok_def nth_blit frame_sizes)
  have "wire_led (blit 0 ?c f) i = leds ! i" if i: "i < WS2812_LED_COUNT" for i
  proof -
    have s: "slice (8 * (3 * i + j)) 8 (blit 0 ?c f) = slice (8 * j) 8 (led_bits (leds ! i))" if j: "j < 3" for j
    proof -
      have "slice (8 * (3 * i + j)) 8 (blit 0 ?c f) = slice (24 * i + 8 * j) 8 ?c"
        using len i j by (simp add: slice_def blit_def frame_sizes algebra_simps)
      also have "\<dots> = slice (8 * j) 8 (led_bits (leds ! i))"
        using i j assms(2) by (intro slice_concat_blocks) (auto simp: length_led_bits)
      finally show ?thesis .
    qed
    have w: "wire_byte (blit 0 ?c f) (3 * i + j) = c"
      if "j < 3" "slice (8 * j) 8 (led_bits (leds ! i)) = map (duty c) (rev [0..<8])" for j c
      by (rule wire_byte_bits) (simp only: s [OF that(1)] that(2))
    have "wire_byte (blit 0 ?c f) (3 * i + 0) = rgb_g (leds ! i)" "wire_byte (blit 0 ?c f) (3 * i + 1) = rgb_r (leds ! i)"
      "wire_byte (blit 0 ?c f) (3 * i + 2) = rgb_b (leds ! i)"
      by (rule w; simp add: led_bits_def slice_def eight)+
    then show ?thesis by (simp add: wire_led_def)
  qed
  then show "wire_leds (ws2812_flush_frame leds f) = leds"
    using assms(2) unfolding b wire_leds_def by (intro nth_equalityI) simp_all
qed

end
