(* ===== verification/Settings_Theorems.thy ===== *)
theory Settings_Theorems
  imports Sample_Board
begin

text \<open>
  What the host and the user can change: the light and its brightness limit, the keymap and the
  macros over the VIA protocol, the key settings and their autosave, and the boundary behaviour
  of the protocol.
\<close>

definition demo_keymap :: flash_keymap where
  "demo_keymap = \<lparr>keymaps = replicate 4 (replicate 5 (replicate 16 4)), encoder_map = replicate 4 [[128, 129]]\<rparr>"

section \<open>The light\<close>

text \<open>
  The brightness limit. Whatever sequence of light commands the user and the host issue,
  with whatever values and whatever the EEPROM holds, no LED of the strip is ever driven above
  48 on any channel, the level of the brightness limit (128) after the lightness curve; the buffers keep
  their 68 LEDs, and a light that is on is in the one mode this build has.
\<close>

theorem light_never_too_bright:
  assumes "rgb_ok (rgblight st)"
  shows "rgb_ok (rgblight (fold (rgb_exec E) cmds st))
    \<and> (\<forall>rgb\<in>set (ws2812_strip (rgblight (fold (rgb_exec E) cmds st))). rgb_r rgb \<le> 48 \<and> rgb_g rgb \<le> 48 \<and> rgb_b rgb \<le> 48)"
proof -
  have "rgb_ok (rgblight (fold (rgb_exec E) cmds st))"
    using assms by (induction cmds arbitrary: st) (simp_all add: rgb_ok_exec)
  then show ?thesis by (auto simp: rgb_ok_def dim_def)
qed

theorem light_never_too_bright_witness:
  "rgb_ok (rgblight (fold (rgb_exec board_ee) [Enable True, HSV False 0 255 255, Val_Up True, HSV_At 10 20 255 3, Reload] demo_kb))"
  using light_never_too_bright [OF demo_kb_ok(3), of board_ee "[Enable True, HSV False 0 255 255, Val_Up True, HSV_At 10 20 255 3, Reload]"]
  by simp

text \<open>
  The light's configuration survives its packed 40-bit form in the EEPROM: for every
  configuration whose mode fits its six bits, what is stored is what is read back, on any
  EEPROM that keeps what is written.
\<close>

theorem light_config_roundtrip:
  assumes "board_eeprom E view invar" "invar (ee st)" "rgb_mode (cfg st) < 64"
  shows "cfg (eeconfig_read_rgblight E (eeconfig_update_rgblight E st)) = cfg st
    \<and> rgblight_of_raw (rgblight_raw (cfg st)) = cfg st"
  using board_eeprom.read_update_rgblight [OF assms] rgblight_of_raw_raw [OF assms(3)]
  by (simp add: eeconfig_read_rgblight_def)

theorem light_config_roundtrip_witness:
  "cfg (eeconfig_read_rgblight board_ee (eeconfig_update_rgblight board_ee demo_kb)) = cfg demo_kb"
proof -
  have "board_inv (ee demo_kb)" "rgb_mode (cfg demo_kb) < 64"
    using demo_kb_state(3) by (simp_all add: demo_kb_fields rgblight_reset_def)
  from light_config_roundtrip [OF board_ee_eeprom this] show ?thesis ..
qed

text \<open>Toggling the light twice restores its configuration; toggling once flips exactly the enable bit.\<close>

theorem light_toggle_twice:
  assumes "rgb_mode (cfg st) = 1"
  shows "cfg (rgblight_toggle_noeeprom E (rgblight_toggle_noeeprom E st)) = cfg st
    \<and> cfg (rgblight_toggle_noeeprom E st) = (cfg st)\<lparr>rgb_enable := \<not> rgb_enable (cfg st)\<rparr>"
  using assms toggle_toggle [OF assms, of E]
  by (cases "rgb_enable (cfg st)") (simp_all add: rgblight_toggle_noeeprom_def rgblight_disable_noeeprom_def
      rgblight_enable_noeeprom_def Let_def rgblight_mode_noeeprom_def cfg_mode)

definition demo_lit :: "chip kb" where
  "demo_lit = set_cfg ((cfg demo_kb)\<lparr>rgb_enable := True, rgb_mode := 1\<rparr>) demo_kb"

theorem light_toggle_twice_witness:
  "cfg (rgblight_toggle_noeeprom board_ee (rgblight_toggle_noeeprom board_ee demo_lit)) = cfg demo_lit"
proof -
  have "rgb_mode (cfg demo_lit) = 1" by (simp add: demo_lit_def)
  from light_toggle_twice [OF this, of board_ee] show ?thesis ..
qed

section \<open>The keymap over the wire\<close>

text \<open>
  C34: A keycode that the host writes with one packet, at any layer and position of the matrix, is what
  its next read packet is answered with, the rest of the answer being the request.
\<close>

theorem via_keycode_roundtrip:
  assumes "board_eeprom E view invar" "invar (ee st)" "unat layer < 4" "unat r < 5" "unat c < 16"
    and "raw_hid_receive E K env (packet [5, layer, r, c, hi, lo]) st = Some (d, st')"
  shows "raw_hid_receive E K env' (packet [4, layer, r, c]) st' = Some (packet [4, layer, r, c, hi, lo], st')"
  by (rule board_eeprom.packet_keycode_roundtrip [OF assms])

lemma length_packet: "length bs \<le> 32 \<Longrightarrow> length (packet bs) = 32"
  by (simp add: packet_def hw_defs)

lemma packet_answered:
  fixes st :: "('e, 'z) fw_scheme"
  assumes "length bs \<le> 32" "\<not> (buffer_command (packet bs ! 0) \<and> 28 < unat (packet bs ! 3))"
  obtains d st' where "raw_hid_receive E K env (packet bs) st = Some (d, st')"
  using raw_hid_None_iff [of "packet bs" E K env st] length_packet [OF assms(1)] assms(2) by (auto simp: hw_defs)

lemma command_bytes: "via_command 5 = id_dynamic_keymap_set_keycode" "\<not> buffer_command 5"
  by (simp_all add: via_command_keymap buffer_command_def)

theorem via_keycode_roundtrip_witness:
  "raw_hid_receive board_ee demo_keymap (flat_env 0 1) (packet [4, 1, 2, 3])
      (snd (the (raw_hid_receive board_ee demo_keymap (flat_env 0 0) (packet [5, 1, 2, 3, 0x52, 0x23]) demo_kb)))
    = Some (packet [4, 1, 2, 3, 0x52, 0x23],
       snd (the (raw_hid_receive board_ee demo_keymap (flat_env 0 0) (packet [5, 1, 2, 3, 0x52, 0x23]) demo_kb)))"
proof -
  have "\<not> (buffer_command (packet [5, 1, 2, 3, 0x52, 0x23] ! 0) \<and> 28 < unat (packet [5, 1, 2, 3, 0x52, 0x23] ! 3))"
    using command_bytes(2) by (simp add: packet_def)
  then obtain d st' where r: "raw_hid_receive board_ee demo_keymap (flat_env 0 0) (packet [5, 1, 2, 3, 0x52, 0x23]) demo_kb = Some (d, st')"
    using packet_answered [of "[5, 1, 2, 3, 0x52, 0x23]" board_ee demo_keymap "flat_env 0 0" demo_kb] by auto
  from via_keycode_roundtrip [OF board_ee_eeprom demo_kb_state(3) _ _ _ r, of "flat_env 0 1"] show ?thesis by (simp add: r)
qed

text \<open>
  C35: The same for a run of up to 28 bytes of the keymap (commands 19 and 18) or of the macro area (15
  and 14) that lies inside its region.
\<close>

theorem via_buffer_roundtrip:
  assumes "board_eeprom E view invar" "invar (ee st)" "length bs \<le> 28"
    and "unat (push_bit 8 (ucast hi) OR ucast lo :: u16) + length bs \<le> region"
    and "(cmd_set, cmd_get, region) = (19, 18, 640) \<or> (cmd_set, cmd_get, region) = (15, 14, 7353)"
    and "raw_hid_receive E K env (packet (cmd_set # hi # lo # word_of_nat (length bs) # bs)) st = Some (d, st')"
  shows "raw_hid_receive E K env' (packet [cmd_get, hi, lo, word_of_nat (length bs)]) st'
    = Some (packet (cmd_get # hi # lo # word_of_nat (length bs) # bs), st')"
proof -
  from assms(5) obtain base where "base + region \<le> 8192"
    "(cmd_set, cmd_get, base, region) = (19, 18, 183, 640) \<or> (cmd_set, cmd_get, base, region) = (15, 14, 839, 7353)" by auto
  from board_eeprom.packet_buffer_roundtrip [OF assms(1-3) this(1) assms(4) this(2) assms(6)] show ?thesis .
qed

theorem via_buffer_roundtrip_witness:
  "raw_hid_receive board_ee demo_keymap (flat_env 0 1) (packet [14, 1, 0, 3])
      (snd (the (raw_hid_receive board_ee demo_keymap (flat_env 0 0) (packet [15, 1, 0, 3, 7, 8, 9]) demo_kb)))
    = Some (packet [14, 1, 0, 3, 7, 8, 9],
       snd (the (raw_hid_receive board_ee demo_keymap (flat_env 0 0) (packet [15, 1, 0, 3, 7, 8, 9]) demo_kb)))"
proof -
  obtain d st' where r: "raw_hid_receive board_ee demo_keymap (flat_env 0 0) (packet [15, 1, 0, 3, 7, 8, 9]) demo_kb = Some (d, st')"
    using packet_answered [of "[15, 1, 0, 3, 7, 8, 9]" board_ee demo_keymap "flat_env 0 0" demo_kb] by (auto simp: packet_def)
  from via_buffer_roundtrip [OF board_ee_eeprom demo_kb_state(3), of "[7, 8, 9]" 1 0 7353 15 14 demo_keymap "flat_env 0 0" d st' "flat_env 0 1"] r
  show ?thesis by simp
qed

text \<open>
  C36: Every packet of the endpoint's size is answered with a packet of that size, with one
  exception: the four buffer commands do not check their length byte, and exactly when it exceeds the 28 bytes that
  fit behind the header the handler reads or writes past the packet (no answer in the model).
\<close>

theorem via_packet_answered:
  assumes "length data = RAW_EPSIZE"
  shows "(raw_hid_receive E K env data st = None \<longleftrightarrow> buffer_command (data ! 0) \<and> 28 < unat (data ! 3))
    \<and> (\<forall>d st'. raw_hid_receive E K env data st = Some (d, st') \<longrightarrow> length d = RAW_EPSIZE)"
  using raw_hid_None_iff [OF assms] raw_hid_length [OF assms] by blast

theorem via_packet_answered_witness:
  "raw_hid_receive board_ee demo_keymap (flat_env 0 0) (packet [18, 0, 0, 29]) demo_kb = None
   \<and> raw_hid_receive board_ee demo_keymap (flat_env 0 0) (packet [18, 0, 0, 28]) demo_kb \<noteq> None"
proof -
  have "buffer_command 18" by (simp add: buffer_command_def via_command_keymap)
  then show ?thesis
    using via_packet_answered [of "packet [18, 0, 0, 29]" board_ee demo_keymap "flat_env 0 0" demo_kb]
      via_packet_answered [of "packet [18, 0, 0, 28]" board_ee demo_keymap "flat_env 0 0" demo_kb] length_packet
    by (simp add: hw_defs packet_def)
qed

text \<open>A command this build does not know is answered with the unhandled marker and changes nothing.\<close>

theorem via_unknown_command:
  assumes "data ! 0 \<notin> {1, 2, 3, 4, 5, 6, 7, 8, 9} \<union> {12..21}"
  shows "raw_hid_receive E K env data st = Some (data[0 := 0xFF], st)"
proof -
  have "x \<in> {12..21}" if "x \<in> {12, 13, 14, 15, 16, 17, 18, 19, 20, 21}" for x :: u8 using that by (auto simp: word_le_nat_alt)
  then have "via_command (data ! 0) = id_unknown"
    using assms by (auto simp: via_command_def via_commands_def hw_defs)
  then show ?thesis by (simp add: raw_hid_unknown hw_defs)
qed

theorem via_unknown_command_witness:
  "raw_hid_receive board_ee demo_keymap (flat_env 0 0) (packet [11, 1, 2]) demo_kb = Some ((packet [11, 1, 2])[0 := 0xFF], demo_kb)"
  by (rule via_unknown_command) (simp add: packet_def)

text \<open>
  C37: The host learns nothing about the keys. Two states that agree on the stored data, the light, the
  mode, the tuning and the thresholds give the same answer to every packet, whatever keys are
  pressed, whatever their travel, calibration and debounce state, and whatever layers are on.
\<close>

theorem via_keys_unobservable:
  fixes st st' :: "('e, 'z) fw_scheme"
  assumes "ee st = ee st'" "rgblight st = rgblight st'" "he_mode st = he_mode st'" "he_tuning st = he_tuning st'"
    and "actuation (he_config st ! 0) = actuation (he_config st' ! 0)" "release (he_config st ! 0) = release (he_config st' ! 0)"
  shows "map_option fst (raw_hid_receive E K env data st) = map_option fst (raw_hid_receive E K env data st')"
proof -
  have cust: "fst (via_custom_value_command E env data st) = fst (via_custom_value_command E env data st')"
    using assms by (simp add: via_custom_value_command_def via_qmk_rgblight_command_def via_custom_value_command_kb_def
        via_qmk_rgblight_get_value_def he_via_get_value_def he_get_config_def he_get_mode_def he_get_deadzone_def he_get_engage_def
        he_get_release_dist_def rgblight_is_enabled_def rgblight_get_mode_def Let_def hw_defs)
  show ?thesis
    using assms(1) by (simp add: raw_hid_receive_def Let_def cust via_get_keyboard_value_def via_set_keyboard_value_def split: via_command_id.split)
qed

definition demo_pressed :: "chip kb" where
  "demo_pressed = demo_kb\<lparr>he_config := map (\<lambda>c. c\<lparr>pressed := True, travel := 100\<rparr>) (he_config demo_kb),
     he_debounced := replicate 69 True, cooked_matrix := replicate 5 0xFFFF, layer_state := 2\<rparr>"

theorem via_keys_unobservable_witness:
  "map_option fst (raw_hid_receive board_ee demo_keymap (flat_env 0 5) (packet [2, 3, 0]) demo_pressed)
   = map_option fst (raw_hid_receive board_ee demo_keymap (flat_env 0 5) (packet [2, 3, 0]) demo_kb)"
  by (rule via_keys_unobservable) (simp_all add: demo_pressed_def demo_kb_fields)

section \<open>The stored keymap\<close>

context board_eeprom
begin

lemma slot_write_effect:
  assumes "inv e" "slot_valid k"
  shows "slot_get E k (slot_set E k x e) = x"
    and "slot_valid k' \<Longrightarrow> k' \<noteq> k \<Longrightarrow> slot_get E k' (slot_set E k x e) = slot_get E k' e"
    and "take 183 (view (slot_set E k x e)) = take 183 (view e)" "drop 839 (view (slot_set E k x e)) = drop 839 (view e)"
  using slots.rd_wr_same [OF assms] slots.rd_wr_other [OF assms] slot_set_take [OF assms] by simp_all

end

text \<open>
  C38: The keymap store is an array of independent slots, one per layer and matrix position and one per layer,
  encoder and direction: a write is read back, and leaves every other slot, and everything
  outside the keymap region, as it was.
\<close>

theorem keymap_slots_independent:
  assumes "board_eeprom E view invar" "invar e" "slot_valid k"
  shows "slot_get E k (slot_set E k x e) = x
    \<and> (\<forall>k'. slot_valid k' \<and> k' \<noteq> k \<longrightarrow> slot_get E k' (slot_set E k x e) = slot_get E k' e)
    \<and> take 183 (view (slot_set E k x e)) = take 183 (view e)
    \<and> drop 839 (view (slot_set E k x e)) = drop 839 (view e)"
  using board_eeprom.slot_write_effect [OF assms] by blast

theorem keymap_slots_independent_witness:
  "slot_get board_ee (Key 3 4 15) (slot_set board_ee (Key 3 4 15) 0x5223 f411_blank) = 0x5223"
proof -
  have "slot_valid (Key 3 4 15)" by (simp add: hw_defs)
  from keymap_slots_independent [OF board_ee_eeprom blank_inv this, of "0x5223"] show ?thesis ..
qed

text \<open>
  Resetting the keymap stores the compiled-in keycode of every layer, position and encoder
  direction, and touches neither the settings before the keymap nor the macros behind it.
\<close>

theorem keymap_reset_to_flash:
  assumes "board_eeprom E view invar" "invar e" "slot_valid k"
  shows "slot_get E k (dynamic_keymap_reset E K e) = slot_raw K k
    \<and> take 183 (view (dynamic_keymap_reset E K e)) = take 183 (view e)
    \<and> drop 839 (view (dynamic_keymap_reset E K e)) = drop 839 (view e) \<and> invar (dynamic_keymap_reset E K e)"
  using board_eeprom.keymap_reset [OF assms(1,2)] board_eeprom.keymap_reset_frame [OF assms(1,2)] assms(3) by blast

theorem keymap_reset_to_flash_witness:
  "slot_get board_ee (Enc 2 0 True) (dynamic_keymap_reset board_ee demo_keymap f411_blank) = 128"
proof -
  have v: "slot_valid (Enc 2 0 True)" by (simp add: hw_defs)
  have "slot_raw demo_keymap (Enc 2 0 True) = 128"
    by (simp add: keycode_at_encodermap_location_raw_def demo_keymap_def hw_defs)
  with keymap_reset_to_flash [OF board_ee_eeprom blank_inv v, of demo_keymap] show ?thesis by simp
qed

section \<open>The key settings\<close>

text \<open>
  Settings round trip. What the firmware saves, the thresholds of all 69 keys, the actuation mode and
  the rapid-trigger tuning, is what a later load from the same EEPROM puts in force, on a state that
  holds anything else.
\<close>

theorem settings_roundtrip:
  assumes "board_eeprom E view invar" "invar (ee st)" "he_ok st" "length stk = 138" "length stk2 = 4"
    and "ee st0 = ee (he_save_to_eeprom E st)"
  shows "he_stored (he_load_from_eeprom E stk stk2 st0) = he_stored st"
  by (rule board_eeprom.load_save [OF assms])

theorem settings_roundtrip_witness:
  "he_stored (he_load_from_eeprom board_ee (replicate 138 1) (replicate 4 1) (kb_reset (ee (he_save_to_eeprom board_ee demo_kb))))
    = he_stored demo_kb"
  by (rule settings_roundtrip [OF board_ee_eeprom demo_kb_state(3) demo_kb_ok(2)]) (simp_all add: kb_reset_def)

text \<open>A slider moved by the host: the time of its packet, whether it is the release slider, the value, and the packet's other bytes.\<close>

type_synonym slider_move = "env \<times> bool \<times> u8 \<times> bytes"

fun move_slider :: "'e eeprom_driver \<Rightarrow> slider_move \<Rightarrow> ('e, 'z) board_scheme \<Rightarrow> ('e, 'z) board_scheme" where
  "move_slider E (env, rel, v, rest) st = he_via_set_value E env ((if rel then he_id_release else he_id_actuation) # v # rest) st"

text \<open>Where the slider ends up: at the value of its last move, or where it was.\<close>

definition slider_value :: "bool \<Rightarrow> u8 \<Rightarrow> slider_move list \<Rightarrow> u8" where
  "slider_value which v0 moves = last (v0 # map (\<lambda>(env, rel, v, rest). v) (filter (\<lambda>(env, rel, v, rest). rel = which) moves))"

lemma slider_value_snoc:
  "slider_value which v0 (moves @ [(env, rel, v, rest)]) = (if rel = which then v else slider_value which v0 moves)"
  by (simp add: slider_value_def)

lemma moves_stage:
  assumes "moves \<noteq> []"
  shows "fold (move_slider E) moves st = st\<lparr>staged_actuation := slider_value False (staged_actuation st) moves,
    staged_release := slider_value True (staged_release st) moves, staged_dirty := True, autosave_pending := True,
    autosave_timer := timer_read (fst (last moves))\<rparr>"
  using assms
proof (induction moves rule: rev_induct)
  case (snoc x moves)
  obtain env rel v rest where x: "x = (env, rel, v, rest)" by (cases x) auto
  show ?case
  proof (cases "moves = []")
    case True
    then show ?thesis by (cases rel) (simp_all add: x slider_value_def he_via_set_value_def he_via_arm_autosave_def hw_defs)
  next
    case False
    then show ?thesis using snoc.IH
      by (cases rel) (simp_all add: x slider_value_snoc he_via_set_value_def he_via_arm_autosave_def hw_defs)
  qed
qed simp

text \<open>
  C39: Autosave. The thresholds the host sets with its two sliders, actuation and release, in any number of moves, are only staged:
  neither the keys nor the EEPROM change, and while less than two seconds have passed since the last move the periodic task does
  nothing. The first run of the task from two seconds on (up to the wrap of the 16-bit timer) applies where each slider
  ended, clamped to 10..90, a slider that was not moved keeping its staged value, to every key, writes it to the EEPROM, from where it
  loads again, and leaves nothing staged.
\<close>

theorem autosave_commits:
  assumes "board_eeprom E view invar" "invar (ee st)" "he_ok st" "length stk = 138" "length stk2 = 4" "moves \<noteq> []"
    and "st1 = fold (move_slider E) moves st" "st2 = he_via_task E env st1" "ee st0 = ee st2"
  shows "he_config st1 = he_config st \<and> ee st1 = ee st
    \<and> (if timer_elapsed env (timer_read (fst (last moves))) < 2000 then st2 = st1
      else map actuation (he_config st2) = replicate 69 (he_clamp_u8 (slider_value False (staged_actuation st) moves) 10 90)
         \<and> map release (he_config st2) = replicate 69 (he_clamp_u8 (slider_value True (staged_release st) moves) 10 90)
         \<and> \<not> autosave_pending st2 \<and> \<not> staged_dirty st2
         \<and> he_stored (he_load_from_eeprom E stk stk2 st0) = he_stored st2)"
proof -
  define sa where "sa = slider_value False (staged_actuation st) moves"
  define sr where "sr = slider_value True (staged_release st) moves"
  note st1 = moves_stage [OF assms(6), of E st, folded assms(7) sa_def sr_def]
  have "map actuation (he_config st2) = replicate 69 (he_clamp_u8 sa 10 90) \<and> map release (he_config st2) = replicate 69 (he_clamp_u8 sr 10 90)
      \<and> \<not> autosave_pending st2 \<and> \<not> staged_dirty st2
      \<and> he_stored (he_load_from_eeprom E stk stk2 st0) = he_stored st2" if late: "\<not> timer_elapsed env (timer_read (fst (last moves))) < 2000"
  proof -
    define s where "s = (he_set_release sr (he_set_actuation sa (st1\<lparr>autosave_pending := False\<rparr>)))\<lparr>staged_dirty := False\<rparr>"
    have st2: "st2 = he_save_to_eeprom E s"
      using late by (simp add: assms(8) he_via_task_def he_via_commit_thresholds_def s_def hw_defs st1)
    have ok: "he_ok s" using assms(3) by (simp add: s_def st1 he_ok_setters)
    have ee: "ee s = ee st" "autosave_pending s = False" "staged_dirty s = False"
      by (simp_all add: s_def st1 he_set_release_def he_set_actuation_def each_config_def Let_def)
    have act: "map actuation (he_config s) = replicate 69 (he_clamp_u8 sa 10 90)" "map release (he_config s) = replicate 69 (he_clamp_u8 sr 10 90)"
      by (rule nth_equalityI; simp add: s_def st1 he_set_release_def he_set_actuation_def each_config_def Let_def hw_defs)+
    have "he_stored st2 = he_stored s" by (simp add: st2 he_stored_def)
    moreover have "he_stored (he_load_from_eeprom E stk stk2 st0) = he_stored s"
      by (rule board_eeprom.load_save [OF assms(1) _ ok assms(4,5)]) (use assms(2,9) ee st2 in simp_all)
    moreover have "autosave_pending st2 = autosave_pending s" "staged_dirty st2 = staged_dirty s"
      by (simp_all add: st2 he_save_to_eeprom_def he_save_settings_to_eeprom_def)
    ultimately show ?thesis using ee act by (simp add: st2)
  qed
  moreover have "timer_elapsed env (timer_read (fst (last moves))) < 2000 \<Longrightarrow> st2 = st1"
    by (simp add: assms(8) he_via_task_def st1 hw_defs not_le)
  ultimately show ?thesis by (simp add: st1 flip: sa_def sr_def)
qed

text \<open>Actuation to 95, release to 20 half a second later.\<close>

theorem autosave_commits_witness:
  "map actuation (he_config (he_via_task board_ee (flat_env 0 2500)
      (fold (move_slider board_ee) [(flat_env 0 0, False, 95, []), (flat_env 0 500, True, 20, [])] demo_kb))) = replicate 69 90
   \<and> map release (he_config (he_via_task board_ee (flat_env 0 2500)
      (fold (move_slider board_ee) [(flat_env 0 0, False, 95, []), (flat_env 0 500, True, 20, [])] demo_kb))) = replicate 69 20
   \<and> map actuation (he_config (he_via_task board_ee (flat_env 0 2499)
      (fold (move_slider board_ee) [(flat_env 0 0, False, 95, []), (flat_env 0 500, True, 20, [])] demo_kb))) = map actuation (he_config demo_kb)"
proof -
  let ?moves = "[(flat_env 0 0, False, 95, []), (flat_env 0 500, True, 20, [])] :: slider_move list"
  note a = autosave_commits [OF board_ee_eeprom demo_kb_state(3) demo_kb_ok(2), where stk = "replicate 138 0" and ?stk2.0 = "replicate 4 0"
      and moves = ?moves, OF _ _ _ refl refl refl]
  have "timer_elapsed (flat_env 0 2500) (timer_read (fst (last ?moves))) = 2000" "timer_elapsed (flat_env 0 2499) (timer_read (fst (last ?moves))) = 1999"
    by (simp_all add: timer_elapsed_def timer_read_def flat_env_def wired_env_def)
  then show ?thesis using a [where env = "flat_env 0 2500"] a [where env = "flat_env 0 2499"]
    by (simp add: he_clamp_u8_def slider_value_def del: fold_simps)
qed

end
