(* ===== verification/Device_Theorems.thy ===== *)
theory Device_Theorems
  imports Usb_Main Ws2812 Settings_Theorems Typing_Theorems
begin

text \<open>
  The device as the host and the outside world see it: the packets on the wire and how a host reads them, the control
  requests, the idle task, the bus events, the millisecond clock, and the signal to the LED strip.
\<close>

section \<open>Packets and how the host reads them\<close>

text \<open>
  C10: What the host reads is what the firmware means. Every report handed to the host driver becomes a packet of exactly the
  size that the report descriptor gives for its number, at most 32 bytes. A host that follows the descriptor reads off a
  keyboard report, in either form, exactly the held modifiers and keys; off a mouse report its buttons and the signed movements; off
  a system or consumer report its usage. In the boot protocol the eight bytes of a keyboard report show the same keys.
\<close>

theorem host_reads_what_is_sent:
  assumes "sent_ok r" "packet_of False r = Some p"
  shows "8 * length p = 8 + report_bits SharedReport (hd p) \<and> length p \<le> SHARED_EPSIZE
    \<and> (\<forall>nk v. view_of nk r = Some v \<longrightarrow> host_reads SharedReport p = key_controls v)
    \<and> (\<forall>v q. view_of False r = Some v \<and> packet_of True r = Some q \<longrightarrow> length q = 8 \<and> boot_reads q = v)
    \<and> (\<forall>m. r = Send_Mouse m \<longrightarrow> host_reads SharedReport p = {(9, Suc k, 1) | k. bit (rm_buttons m) k}
        \<union> {c \<in> {(1, 0x30, sint (rm_x m)), (1, 0x31, sint (rm_y m)), (1, 0x38, sint (rm_v m)), (0xC, 0x238, sint (rm_h m))}. snd (snd c) \<noteq> 0})
    \<and> (\<forall>x. r = Send_Extra x \<and> re_usage x \<noteq> 0 \<and> uint (re_usage x) \<le> (if re_report_id x = REPORT_ID_SYSTEM then 0xB7 else 0x2A0) \<longrightarrow>
        host_reads SharedReport p = {(if re_report_id x = REPORT_ID_SYSTEM then 1 else 0xC, unat (re_usage x), 1)})"
proof (intro conjI allI impI)
  show "8 * length p = 8 + report_bits SharedReport (hd p)" using packet_sized [OF assms] by (simp add: sized_report_def)
  show "length p \<le> SHARED_EPSIZE" using good_packet_length [OF packet_good [OF assms]] by (simp add: SHARED_EPSIZE_def)
  show "host_reads SharedReport p = key_controls v" if "view_of nk r = Some v" for nk v by (rule view_is_read [OF assms(1) that assms(2)])
  show "length q = 8" "boot_reads q = v" if "view_of False r = Some v \<and> packet_of True r = Some q" for v q
    using view_is_read_boot [OF assms(1)] that by blast+
  show "host_reads SharedReport p = {(9, Suc k, 1) | k. bit (rm_buttons m) k}
        \<union> {c \<in> {(1, 0x30, sint (rm_x m)), (1, 0x31, sint (rm_y m)), (1, 0x38, sint (rm_v m)), (0xC, 0x238, sint (rm_h m))}. snd (snd c) \<noteq> 0}"
    if "r = Send_Mouse m" for m using assms host_reads_mouse [of m] that by simp
  show "host_reads SharedReport p = {(if re_report_id x = REPORT_ID_SYSTEM then 1 else 0xC, unat (re_usage x), 1)}"
    if "r = Send_Extra x \<and> re_usage x \<noteq> 0 \<and> uint (re_usage x) \<le> (if re_report_id x = REPORT_ID_SYSTEM then 0xB7 else 0x2A0)" for x
  proof -
    have "uint (re_usage x) \<noteq> 0" "0 \<le> uint (re_usage x)" using that by (simp_all add: uint_0_iff)
    then have "1 \<le> uint (re_usage x)" by linarith
    then show ?thesis using assms host_reads_extra [of x] that by simp
  qed
qed

text \<open>Left Shift and key 4 are held.\<close>

theorem host_reads_what_is_sent_witness:
  "host_reads SharedReport [1, 2, 0, 4, 0, 0, 0, 0, 0] = {(7, 0xE1, 1), (7, 4, 1)}"
proof -
  let ?k = "\<lparr>rk_report_id = 1, rk_mods = 2, rk_reserved = 0, rk_keys = [4, 0, 0, 0, 0, 0]\<rparr>"
  have r: "sent_ok (Send_Keyboard ?k)" "packet_of False (Send_Keyboard ?k) = Some [1, 2, 0, 4, 0, 0, 0, 0, 0]"
    by (simp_all add: rk_ok_def keyboard_bytes_def hw_defs)
  have v: "view_of False (Send_Keyboard ?k) = Some (2, {4})" by (auto simp: keys6_def)
  have "host_reads SharedReport [1, 2, 0, 4, 0, 0, 0, 0, 0] = key_controls (2, {4})"
    by (rule conjunct1 [OF conjunct2 [OF host_reads_what_is_sent [OF r, unfolded conj_assoc], THEN conjunct2], rule_format, OF v])
  also have "\<dots> = {(7, 0xE1, 1), (7, 4, 1)}" by (auto simp: key_controls_def bit_2_iff)
  finally show ?thesis .
qed




text \<open>
  C11: Nothing is invented, repeated or reordered. Whatever happens on an endpoint (reports sent with the driver active or not, the host
  taking packets, suspends, wake-ups and resets in any order, a queue that is full or suspended), every send returns, and what
  the host has got is always a subsequence of what was sent. On a calm wire nothing is lost either: what it has got and what still
  waits is all that was sent.
\<close>

theorem usb_reports_in_order:
  assumes "usb_queues Q cap 32 posted filling suspended" "posted q = []" "filling q = []" "\<not> suspended q" "list_all (event_ok 32) evs"
  shows "\<exists>ep got. ep_run Q e evs (usb_endpoint_in_init e q, []) = Some (ep, got) \<and> subseq got (sent_in evs)
    \<and> (calm cap 0 evs \<longrightarrow> got @ posted (obqueue ep) = sent_in evs)"
proof -
  note oq = usb_queues.axioms(1) [OF assms(1)]
  note i = output_queue.start_ok [OF oq assms(2-4), of e]
  obtain ep got where r: "ep_run Q e evs (usb_endpoint_in_init e q, []) = Some (ep, got)"
    using output_queue.ep_run_returns [OF oq i(1) assms(5), of e] by auto
  from output_queue.ep_run_in_order [OF oq r i(1) assms(5)] have "subseq got (sent_in evs)"
    using output_queue.in_order_subseq [OF oq] by fastforce
  moreover have "got @ posted (obqueue ep) = sent_in evs" if "calm cap 0 evs"
    using output_queue.calm_run [OF oq r i(2) assms(5)] that assms(2)
    by (simp add: output_queue.in_step_def [OF oq] usb_endpoint_in_init_def)
  ultimately show ?thesis using r by blast
qed

theorem usb_reports_in_order_witness:
  "\<exists>ep got. ep_run lq_api USB_ENDPOINT_IN_RAW [Send True [1], Send True [2], Suspend, Send True [3], Taken 5]
      (usb_endpoint_in_init USB_ENDPOINT_IN_RAW lq_empty, []) = Some (ep, got) \<and> subseq got [[1], [2], [3]]"
  using usb_reports_in_order [OF lqs.usb_queues_axioms, of lq_empty "[Send True [1], Send True [2], Suspend, Send True [3], Taken 5]" USB_ENDPOINT_IN_RAW]
  by (auto simp: lq_empty_def sent_in_def)

section \<open>Control requests\<close>

text \<open>
  What the host sets is what it gets, and what the keyboard acts on. SET_IDLE on a report the device keeps is accepted and
  GET_IDLE returns the same rate; the other reports keep theirs; a rate that is not zero starts the idle task. SET_PROTOCOL is
  accepted, GET_PROTOCOL returns it, and it decides at once which form of keyboard report the firmware may use. The LED
  byte of an output report, with its report number or, of one byte, without, becomes the LED state the keyboard follows. An
  interface or a report number that does not exist is refused.
\<close>

theorem control_requests_roundtrip:
  assumes "\<forall>e. reports_ok e (report_storage (usb_endpoints_in u e))"
    and "request_endpoint index report_id = Some e" "kept e (report_storage (usb_endpoints_in u e)) report_id \<noteq> None"
    and "e = USB_ENDPOINT_IN_SHARED \<longrightarrow> report_id \<noteq> 0"
    and "usb_requests_hook_cb dtype (class_request USB_RTYPE_DIR_HOST2DEV HID_REQ_SetIdle rate report_id index 0) u = (t, u1)"
    and "usb_requests_hook_cb dtype (class_request USB_RTYPE_DIR_HOST2DEV HID_REQ_SetProtocol 0 proto KEYBOARD_INTERFACE 0) u = (t', u2)"
  shows "t = Some No_Data \<and> (run_idle_task u1 \<longleftrightarrow> run_idle_task u \<or> rate \<noteq> 0)
    \<and> fst (usb_requests_hook_cb dtype (class_request USB_RTYPE_DIR_DEV2HOST HID_REQ_GetIdle 0 report_id index 1) u1) = Some (Reply [rate])
    \<and> (\<forall>e' i. e' \<noteq> e \<or> e = USB_ENDPOINT_IN_SHARED \<and> i \<noteq> report_id \<longrightarrow>
         kept e' (report_storage (usb_endpoints_in u1 e')) i = kept e' (report_storage (usb_endpoints_in u e')) i)
    \<and> t' = Some No_Data
    \<and> fst (usb_requests_hook_cb dtype (class_request USB_RTYPE_DIR_DEV2HOST HID_REQ_GetProtocol 0 0 KEYBOARD_INTERFACE 1) u2)
        = Some (Reply [if proto = 0 then 0 else 1])
    \<and> (report_protocol (world_of env u2) \<longleftrightarrow> proto \<noteq> 0)
    \<and> usb_leds (world_of env (set_led_transfer_cb (class_request USB_RTYPE_DIR_HOST2DEV HID_REQ_SetReport 2 0 KEYBOARD_INTERFACE 1) [leds] u)) = leds
    \<and> usb_leds (world_of env (set_led_transfer_cb (class_request USB_RTYPE_DIR_HOST2DEV HID_REQ_SetReport 2 0 KEYBOARD_INTERFACE 2) [j, leds] u))
          = (if j \<in> {REPORT_ID_KEYBOARD, REPORT_ID_NKRO} then leds else ds_leds (device u))
    \<and> (\<not> unat (ucast bad :: u8) < 3 \<or> 8 < unat j \<longrightarrow>
        (\<forall>req\<in>{HID_REQ_GetReport, HID_REQ_GetIdle}. usb_requests_hook_cb dtype (class_request USB_RTYPE_DIR_DEV2HOST req 0 j bad len) u = (None, u)))"
proof -
  note i = set_idle_then_get [OF assms(2,1,3) _ assms(5)]
  have p: "t' = Some No_Data" "u2 = u\<lparr>device := usb_device_state_set_protocol proto (device u)\<rparr>" using assms(6) by (simp_all add: hook_class)
  have n: "request_endpoint bad j = None" if "\<not> unat (ucast bad :: u8) < 3 \<or> 8 < unat j"
    using that by (auto simp: request_endpoint_None TOTAL_INTERFACES_def REPORT_ID_COUNT_def)
  show ?thesis
  proof (intro conjI)
    show "t = Some No_Data" "run_idle_task u1 \<longleftrightarrow> run_idle_task u \<or> rate \<noteq> 0"
      "fst (usb_requests_hook_cb dtype (class_request USB_RTYPE_DIR_DEV2HOST HID_REQ_GetIdle 0 report_id index 1) u1) = Some (Reply [rate])"
      using i(1-3) assms(4) by blast+
    show "\<forall>e' i. e' \<noteq> e \<or> e = USB_ENDPOINT_IN_SHARED \<and> i \<noteq> report_id \<longrightarrow>
         kept e' (report_storage (usb_endpoints_in u1 e')) i = kept e' (report_storage (usb_endpoints_in u e')) i"
      using i(4,5) assms(4) by metis
    show "\<not> unat (ucast bad :: u8) < 3 \<or> 8 < unat j \<longrightarrow>
        (\<forall>req\<in>{HID_REQ_GetReport, HID_REQ_GetIdle}. usb_requests_hook_cb dtype (class_request USB_RTYPE_DIR_DEV2HOST req 0 j bad len) u = (None, u))"
      using n by (auto simp: hook_class usb_get_report_cb_def usb_get_idle_cb_def)
  qed (use p in \<open>simp_all add: hook_class usb_device_state_set_protocol_def world_of_def set_led_transfer_cb_def usb_device_state_set_leds_def blit_def
      Let_def\<close>)
qed

text \<open>The mouse's report gets a rate of 500 ms; the boot protocol is set.\<close>

theorem control_requests_roundtrip_witness:
  "\<exists>u1 u2. usb_requests_hook_cb (\<lambda>_. Other_Descriptor) (class_request USB_RTYPE_DIR_HOST2DEV HID_REQ_SetIdle 125 2 0 0) (usb_power_on lq_empty)
      = (Some No_Data, u1)
    \<and> fst (usb_requests_hook_cb (\<lambda>_. Other_Descriptor) (class_request USB_RTYPE_DIR_DEV2HOST HID_REQ_GetIdle 0 2 0 1) u1) = Some (Reply [125])
    \<and> usb_requests_hook_cb (\<lambda>_. Other_Descriptor) (class_request USB_RTYPE_DIR_HOST2DEV HID_REQ_SetProtocol 0 0 KEYBOARD_INTERFACE 0) (usb_power_on lq_empty)
      = (Some No_Data, u2) \<and> \<not> report_protocol (world_of (flat_env 0 0) u2)"
proof -
  let ?u = "usb_power_on lq_empty" and ?d = "\<lambda>_. Other_Descriptor"
  have ok: "\<forall>e. reports_ok e (report_storage (usb_endpoints_in ?u e))"
    by (simp add: usb_power_on_def usb_endpoint_in_init_def reports_ok_init)
  have e: "request_endpoint 0 2 = Some USB_ENDPOINT_IN_SHARED"
    by (simp add: request_endpoint_def usb_endpoint_interface_lut_def hw_defs)
  have k: "kept USB_ENDPOINT_IN_SHARED (report_storage (usb_endpoints_in ?u USB_ENDPOINT_IN_SHARED)) 2 \<noteq> None"
    by (simp add: usb_power_on_def usb_endpoint_in_init_def kept_def shared_report_def report_storage_init_def hw_defs)
  obtain t u1 where 1: "usb_requests_hook_cb ?d (class_request USB_RTYPE_DIR_HOST2DEV HID_REQ_SetIdle 125 2 0 0) ?u = (t, u1)" by force
  obtain t' u2 where 2: "usb_requests_hook_cb ?d (class_request USB_RTYPE_DIR_HOST2DEV HID_REQ_SetProtocol 0 0 KEYBOARD_INTERFACE 0) ?u = (t', u2)" by force
  from control_requests_roundtrip [OF ok e k _ 1 2] have "t = Some No_Data" "t' = Some No_Data" "\<not> report_protocol (world_of (flat_env 0 0) u2)"
    "fst (usb_requests_hook_cb ?d (class_request USB_RTYPE_DIR_DEV2HOST HID_REQ_GetIdle 0 2 0 1) u1) = Some (Reply [125])" by simp_all
  then show ?thesis using 1 2 by blast
qed

section \<open>The idle task\<close>

text \<open>
  C23: Reports that do not change are repeated at the rate the host has set, and only then. In every state the device can reach
  the idle task returns and keeps what is stored. It does nothing before a rate has been set, and stops when all rates are
  zero. Otherwise every endpoint with nothing in flight or waiting sends again the report, the lowest number first, whose rate
  has passed since it was last taken (\<open>to_resend\<close>), and starts with it at once; every other endpoint stays as it is.
\<close>

theorem idle_task_resends:
  assumes "usb_board E view invar Q cap 32 posted filling suspended" "posted q = []" "filling q = []" "kb_ok k" "invar (ee k)"
    and "device_reaches Q E K mem dtype i2ms q (task_reset k) (pc, u, st, got)"
  shows "\<exists>u'. protocol_post_task Q active i2ms now (u, st) = Some (u', st) \<and> (\<not> run_idle_task u \<longrightarrow> u' = u)
    \<and> (run_idle_task u \<longrightarrow> (run_idle_task u' \<longleftrightarrow> any_idle_rate u)
      \<and> (\<forall>e. report_storage (usb_endpoints_in u' e) = report_storage (usb_endpoints_in u e)
          \<and> (case if active then to_resend Q i2ms now e (idle_ids e) (usb_endpoints_in u e) else None of
               None \<Rightarrow> usb_endpoints_in u' e = usb_endpoints_in u e
             | Some p \<Rightarrow> in_flight (usb_endpoints_in u' e) = Some p \<and> posted (obqueue (usb_endpoints_in u' e)) = [p])))"
proof (cases "run_idle_task u")
  case True
  note uq = usb_board.axioms(2) [OF assms(1)]
  have "usb_queues.usb_ok cap 32 posted filling u"
    using usb_board.device_reaches_ok(1) [OF assms(1,6,2,3)] task_ok_reset [of k invar] assms(4,5) by blast
  then obtain u' where u': "usb_idle_task Q active i2ms now u = Some u'" "run_idle_task u' = any_idle_rate u"
    "\<And>e. usb_queues.resent posted active (to_resend Q i2ms now e (idle_ids e) (usb_endpoints_in u e)) (usb_endpoints_in u e) (usb_endpoints_in u' e)"
    using usb_queues.idle_task_result [OF uq _ True, of active i2ms now] by metis
  then show ?thesis using True by (intro exI [of _ u']) (simp add: protocol_post_task_def usb_queues.resent_def [OF uq])
qed (simp add: protocol_post_task_def usb_idle_task_def)

text \<open>The host asks for the mouse's report every 500 ms; after 500 ms the idle task sends the one from the start.\<close>

definition demo_idle :: "list_queue usb" where
  "demo_idle = usb_isr lq_api (\<lambda>_. Other_Descriptor)
     (Control_Request (class_request USB_RTYPE_DIR_HOST2DEV HID_REQ_SetIdle 125 REPORT_ID_MOUSE KEYBOARD_INTERFACE 0)) (protocol_start lq_empty)"

lemma demo_idle_state:
  "run_idle_task demo_idle" "usb_endpoints_in demo_idle USB_ENDPOINT_IN_SHARED = usb_endpoint_in_init USB_ENDPOINT_IN_SHARED lq_empty
    \<lparr>report_storage := fst (ep_set_idle USB_ENDPOINT_IN_SHARED (report_storage_init USB_ENDPOINT_IN_SHARED) REPORT_ID_MOUSE 125)\<rparr>"
proof -
  have e: "request_endpoint KEYBOARD_INTERFACE REPORT_ID_MOUSE = Some USB_ENDPOINT_IN_SHARED"
    by (simp add: request_endpoint_def usb_endpoint_interface_lut_def hw_defs)
  have k: "kept USB_ENDPOINT_IN_SHARED (report_storage_init USB_ENDPOINT_IN_SHARED) REPORT_ID_MOUSE \<noteq> None" "REPORT_ID_MOUSE \<noteq> 0"
    by (simp_all add: kept_def shared_report_def report_storage_init_def hw_defs)
  have s: "usb_endpoints_in (protocol_start lq_empty) = (\<lambda>e. usb_endpoint_in_init e lq_empty)"
    by (simp add: protocol_start_def usb_event_queue_init_def usb_power_on_def)
  show "run_idle_task demo_idle" "usb_endpoints_in demo_idle USB_ENDPOINT_IN_SHARED = usb_endpoint_in_init USB_ENDPOINT_IN_SHARED lq_empty
    \<lparr>report_storage := fst (ep_set_idle USB_ENDPOINT_IN_SHARED (report_storage_init USB_ENDPOINT_IN_SHARED) REPORT_ID_MOUSE 125)\<rparr>"
    using e k ep_set_idle_eq(2) [OF reports_ok_init [of USB_ENDPOINT_IN_SHARED], of REPORT_ID_MOUSE 125]
    by (simp_all add: demo_idle_def hook_class usb_set_idle_cb_def Let_def split_beta s) (simp_all add: usb_endpoint_in_init_def)
qed

lemma demo_idle_resends:
  "to_resend lq_api ceil_i2ms 50000 USB_ENDPOINT_IN_SHARED (idle_ids USB_ENDPOINT_IN_SHARED) (usb_endpoints_in demo_idle USB_ENDPOINT_IN_SHARED)
    = Some [2, 0, 0, 0, 0, 0]"
proof -
  let ?ep = "usb_endpoints_in demo_idle USB_ENDPOINT_IN_SHARED"
  have i: "usb_endpoint_in_is_inactive lq_api ?ep"
    by (simp add: demo_idle_state usb_endpoint_in_is_inactive_def usb_endpoint_in_init_def lq_api_def lq_empty_def)
  note k = ep_set_idle_eq(1) [OF reports_ok_init [of USB_ENDPOINT_IN_SHARED], of REPORT_ID_MOUSE 125, unfolded REPORT_ID_MOUSE_def]
  have ks: "kept USB_ENDPOINT_IN_SHARED (report_storage_init USB_ENDPOINT_IN_SHARED) 1 = Some (storage_entry 1 9)"
    "kept USB_ENDPOINT_IN_SHARED (report_storage_init USB_ENDPOINT_IN_SHARED) 2 = Some (storage_entry 2 6)"
    by (simp_all add: kept_def shared_report_def report_storage_init_def hw_defs)
  have 1: "\<not> ep_idle_elapsed USB_ENDPOINT_IN_SHARED ceil_i2ms 50000 (report_storage ?ep) 1"
    by (simp add: demo_idle_state ep_idle_elapsed_eq k ks storage_entry_def idle_elapsed_def REPORT_ID_MOUSE_def)
  have "ceil_i2ms 50000 = 500" by (simp add: ceil_i2ms_def)
  then have 2: "ep_idle_elapsed USB_ENDPOINT_IN_SHARED ceil_i2ms 50000 (report_storage ?ep) 2"
    by (simp add: demo_idle_state ep_idle_elapsed_eq k ks storage_entry_def idle_elapsed_def REPORT_ID_MOUSE_def)
  have "[1..<Suc REPORT_ID_COUNT] = [1, 2, 3, 4, 5, 6, 7, 8]" by (simp add: REPORT_ID_COUNT_def upt_rec)
  then have "find (ep_idle_elapsed USB_ENDPOINT_IN_SHARED ceil_i2ms 50000 (report_storage ?ep)) (idle_ids USB_ENDPOINT_IN_SHARED) = Some 2"
    using 1 2 by (simp add: idle_ids_def)
  moreover have "map_option kept_bytes (kept USB_ENDPOINT_IN_SHARED (report_storage ?ep) 2) = Some [2, 0, 0, 0, 0, 0]"
    by (simp add: demo_idle_state k ks storage_entry_def kept_bytes_def REPORT_ID_MOUSE_def numeral_eq_Suc)
  ultimately show ?thesis using i by (simp add: to_resend_def)
qed

theorem idle_task_resends_witness:
  "\<exists>u'. protocol_post_task lq_api True ceil_i2ms 50000 (demo_idle, task_reset demo_kb) = Some (u', task_reset demo_kb)
    \<and> in_flight (usb_endpoints_in u' USB_ENDPOINT_IN_SHARED) = Some [2, 0, 0, 0, 0, 0]"
proof -
  have b: "usb_board board_ee cache board_inv lq_api 4 32 lq_posted lq_filling lq_suspended"
    unfolding board_ee_def board_inv_def by (rule f411_usb.usb_board_axioms)
  have "device_step lq_api board_ee demo_keymap demo_mem (\<lambda>_. Other_Descriptor) ceil_i2ms
      (At_Pre_Task, protocol_start lq_empty, task_reset demo_kb, []) (At_Pre_Task, demo_idle, task_reset demo_kb, [] @ [])"
    using device_step.Interrupt [of "Control_Request (class_request USB_RTYPE_DIR_HOST2DEV HID_REQ_SetIdle 125 REPORT_ID_MOUSE KEYBOARD_INTERFACE 0)"
        lq_api board_ee demo_keymap demo_mem "\<lambda>_. Other_Descriptor" ceil_i2ms At_Pre_Task "protocol_start lq_empty"
        "task_reset demo_kb" "[]"]
    by (simp only: demo_idle_def host_takes.simps interrupt_ok.simps)
  then have r: "device_reaches lq_api board_ee demo_keymap demo_mem (\<lambda>_. Other_Descriptor) ceil_i2ms lq_empty (task_reset demo_kb)
      (At_Pre_Task, demo_idle, task_reset demo_kb, [])" by (simp add: device_reaches_def r_into_rtranclp)
  have q: "lq_posted lq_empty = []" "lq_filling lq_empty = []" by (simp_all add: lq_empty_def)
  obtain u' where u': "protocol_post_task lq_api True ceil_i2ms 50000 (demo_idle, task_reset demo_kb) = Some (u', task_reset demo_kb)"
    "\<And>e. case to_resend lq_api ceil_i2ms 50000 e (idle_ids e) (usb_endpoints_in demo_idle e) of
               None \<Rightarrow> usb_endpoints_in u' e = usb_endpoints_in demo_idle e
             | Some p \<Rightarrow> in_flight (usb_endpoints_in u' e) = Some p \<and> lq_posted (obqueue (usb_endpoints_in u' e)) = [p]"
    using idle_task_resends [OF b q demo_kb_state(1,3) r, of True 50000] demo_idle_state(1) by auto
  from u'(2) [of USB_ENDPOINT_IN_SHARED] show ?thesis using u'(1) by (simp add: demo_idle_resends)
qed

section \<open>Bus events\<close>

text \<open>
  Bus events are handled once each and in order. In every state the device can reach, let the interrupt side enqueue any
  events: at most fifteen are pending and those that come when the queue is full are dropped. The next run of the task
  returns with the queue empty, and the device state and the suspend flag are what the pending events make of them
  one after the other, whatever reports a wake-up sends in between.
\<close>

theorem usb_events_in_order:
  assumes "usb_board E view invar Q cap 32 posted filling suspended" "posted q = []" "filling q = []" "kb_ok k" "invar (ee k)"
    and "device_reaches Q E K mem dtype i2ms q (task_reset k) (pc, u, st, got)"
    and "u1 = fold (\<lambda>ev u. snd (usb_event_queue_enqueue ev u)) evs u"
  shows "pending_events u1 = pending_events u @ take (15 - length (pending_events u)) evs
    \<and> (\<exists>u' st'. usb_event_queue_task Q active configuration poll (u1, st) = Some (u', st') \<and> pending_events u' = []
        \<and> (device u', last_suspend_state u') = after_events configuration (pending_events u1) u)"
proof -
  note uq = usb_board.axioms(2) [OF assms(1)]
  have t0: "task_ok invar (task_reset k)" using task_ok_reset [of k invar] assms(4,5) by blast
  have ok: "usb_queues.usb_ok cap 32 posted filling u" "task_ok invar st"
    by (rule usb_board.device_reaches_ok [OF assms(1,6,2,3) t0])+
  then have "event_queue_ok u" by (simp add: usb_queues.usb_ok_def [OF uq])
  then have p: "pending_events u1 = pending_events u @ take (15 - length (pending_events u)) evs"
    using usb_events.enq_all [of u evs] assms(7) by simp
  have e: "device (fold (\<lambda>ev u. snd (usb_event_queue_enqueue ev u)) evs u) = device u
      \<and> last_suspend_state (fold (\<lambda>ev u. snd (usb_event_queue_enqueue ev u)) evs u) = last_suspend_state u
      \<and> usb_queues.usb_ok cap 32 posted filling (fold (\<lambda>ev u. snd (usb_event_queue_enqueue ev u)) evs u)"
    using ok(1)
  proof (induction evs arbitrary: u)
    case (Cons ev evs)
    have "device (snd (usb_event_queue_enqueue ev u)) = device u" "last_suspend_state (snd (usb_event_queue_enqueue ev u)) = last_suspend_state u"
      by (simp_all add: usb_event_queue_enqueue_def Let_def)
    then show ?case using Cons.IH [OF usb_queues.usb_ok_enqueue [OF uq Cons.prems, of ev]] by simp
  qed simp
  then have u1: "device u1 = device u" "last_suspend_state u1 = last_suspend_state u" "usb_queues.usb_ok cap 32 posted filling u1"
    using assms(7) by simp_all
  from usb_board.event_task_ok [OF assms(1) u1(3) ok(2), of active configuration poll] p
  show ?thesis by (simp only: after_events_cong [OF u1(1,2)]) blast
qed

text \<open>Suspended and woken before the task runs; the device is configured.\<close>

theorem usb_events_in_order_witness:
  "\<exists>u' st'. usb_event_queue_task lq_api True 1 (flat_env 0 0)
      (fold (\<lambda>ev u. snd (usb_event_queue_enqueue ev u)) [USB_EVENT_RESET, USB_EVENT_CONFIGURED, USB_EVENT_SUSPEND, USB_EVENT_WAKEUP] (protocol_start lq_empty),
       task_reset demo_kb) = Some (u', st')
    \<and> ds_configure_state (device u') = USB_DEVICE_STATE_CONFIGURED \<and> \<not> last_suspend_state u'"
proof -
  let ?evs = "[USB_EVENT_RESET, USB_EVENT_CONFIGURED, USB_EVENT_SUSPEND, USB_EVENT_WAKEUP]"
  have b: "usb_board board_ee cache board_inv lq_api 4 32 lq_posted lq_filling lq_suspended"
    unfolding board_ee_def board_inv_def by (rule f411_usb.usb_board_axioms)
  have q: "lq_posted lq_empty = []" "lq_filling lq_empty = []" by (simp_all add: lq_empty_def)
  have r: "device_reaches lq_api board_ee demo_keymap demo_mem (\<lambda>_. Other_Descriptor) ceil_i2ms lq_empty (task_reset demo_kb)
      (At_Pre_Task, protocol_start lq_empty, task_reset demo_kb, [])" by (simp add: device_reaches_def)
  have p: "pending_events (protocol_start lq_empty) = []"
    by (simp add: protocol_start_def usb_event_queue_init_def pending_events_def)
  note t = usb_events_in_order [OF b q demo_kb_state(1,3) r refl, of ?evs True 1 "flat_env 0 0"]
  then have "pending_events (fold (\<lambda>ev u. snd (usb_event_queue_enqueue ev u)) ?evs (protocol_start lq_empty)) = ?evs"
    using p by simp
  with t obtain u' st' where "usb_event_queue_task lq_api True 1 (flat_env 0 0)
      (fold (\<lambda>ev u. snd (usb_event_queue_enqueue ev u)) ?evs (protocol_start lq_empty), task_reset demo_kb) = Some (u', st')"
    "(device u', last_suspend_state u') = after_events 1 ?evs (protocol_start lq_empty)" by auto
  then show ?thesis
    by (auto simp: after_events_def handle_event_def usb_device_state_set_resume_def)
qed

section \<open>The clock\<close>

text \<open>
  C22: The millisecond clock does not lose time. Read as often as its users do, at least once in every stretch of just under
  $2^{32}$ ticks, the clock shows the milliseconds since it was cleared, rounded up, however often the 32-bit tick counter
  has wrapped around; and so does the time elapsed since an earlier reading.
\<close>

theorem timer_counts_milliseconds:
  assumes "time_conversion i2ms" "sorted (s # ns)" "\<And>i. i < length ns \<Longrightarrow> ns ! i - (s # ns) ! i \<le> 4294900000"
    and "timer_reads i2ms ns (timer_clear (word_of_nat s) t) = (reads, t')" "ns \<noteq> []" "last ns \<le> n" "n - last ns \<le> 4294900000"
  shows "reads = map (\<lambda>m. word_of_nat (ms_of_ticks (m - s))) ns
    \<and> fst (timer_read32 i2ms (word_of_nat n) t') = word_of_nat (ms_of_ticks (n - s))
    \<and> fst (timer_elapsed32 i2ms (word_of_nat n) since t') = word_of_nat (ms_of_ticks (n - s)) - since"
proof -
  have snoc: "timer_reads i2ms (xs @ [x]) t = (let (rs, t) = timer_reads i2ms xs t; (r, t) = timer_read32 i2ms (word_of_nat x) t in (rs @ [r], t))" for xs x t
    by (induction xs arbitrary: t) (simp_all add: Let_def split_beta)
  note c = clock_at_clear [of s t]
  have r: "reads = map (\<lambda>m. word_of_nat (ms_of_ticks (m - s))) ns"
    using time_conversion.timer_reads_at [OF assms(1) c assms(2)] assms(3,4) by (simp add: adjust_def)
  let ?ns = "ns @ [n]"
  obtain xs where xs: "ns = xs @ [last ns]" using assms(5) by (metis append_butlast_last_id)
  have "sorted (s # xs @ [last ns])" using assms(2) xs by metis
  then have "sorted ((s # xs @ [last ns]) @ [n])" using assms(6) unfolding sorted_append [of "s # xs @ [last ns]"] by (auto simp: sorted_append)
  then have "sorted (s # ?ns)" using xs by simp
  moreover have "?ns ! i - (s # ?ns) ! i \<le> adjust" if "i < length ?ns" for i
  proof (cases "i < length ns")
    case True
    then show ?thesis using assms(3) [OF True] by (cases i) (simp_all add: nth_append adjust_def)
  next
    case False
    then have "i = length ns" using that by simp
    then show ?thesis using assms(5,7) by (simp add: nth_append nth_Cons' last_conv_nth adjust_def)
  qed
  ultimately have "fst (timer_reads i2ms ?ns (timer_clear (word_of_nat s) t)) = map (\<lambda>m. word_of_nat (ms_of_ticks (m - s))) ?ns"
    using time_conversion.timer_reads_at [OF assms(1) c] by fastforce
  then have "fst (timer_read32 i2ms (word_of_nat n) t') = word_of_nat (ms_of_ticks (n - s))"
    using assms(4) r by (simp add: snoc split_beta)
  then show ?thesis using r by (simp add: timer_elapsed32_def TIMER_DIFF_32_def)
qed

text \<open>Two readings, the second after the tick counter has wrapped around, and a third one second later.\<close>

theorem timer_counts_milliseconds_witness:
  "fst (timer_read32 ceil_i2ms (word_of_nat 4295100000) (snd (timer_reads ceil_i2ms [100000, 4295000000] (timer_clear 0 timer_power_on)))) = 42951000"
proof -
  obtain reads t' where r: "timer_reads ceil_i2ms [100000, 4295000000] (timer_clear (word_of_nat 0) timer_power_on) = (reads, t')" by force
  have "[100000, 4295000000] ! i - (0 # [100000, 4295000000]) ! i \<le> (4294900000 :: nat)" if "i < length [100000, 4295000000 :: nat]" for i
    using that by (simp add: less_Suc_eq numeral_2_eq_2) auto
  from timer_counts_milliseconds [OF ceil_time.time_conversion_axioms _ this r, of 4295100000]
  have "fst (timer_read32 ceil_i2ms (word_of_nat 4295100000) t') = word_of_nat (ms_of_ticks 4295100000)" by simp
  then show ?thesis using r by (simp add: ms_of_ticks_def)
qed

section \<open>The LED strip\<close>

text \<open>
  C17: The strip shows the light, and never too bright. Whatever light commands the user and the host issue, and whatever frame was
  sent before, the frame a flush leaves consists of the two pulse widths for the 68 LEDs and a low phase at the end; decoded as an
  LED reads it, green, red, blue, the highest bit first, it is exactly the colours of the light, and no channel is above 48, the
  level of the brightness limit.
\<close>

theorem strip_carries_light:
  assumes "rgb_ok (rgblight st)" "frame_ok f"
    and "strip = ws2812_strip (rgblight (fold (rgb_exec E) cmds st))" "f' = ws2812_flush_frame strip f"
  shows "frame_ok f' \<and> wire_leds f' = strip \<and> (\<forall>rgb\<in>set (wire_leds f'). rgb_r rgb \<le> 48 \<and> rgb_g rgb \<le> 48 \<and> rgb_b rgb \<le> 48)"
proof -
  have "rgb_ok (rgblight (fold (rgb_exec E) cmds st))"
    using assms(1) by (induction cmds arbitrary: st) (simp_all add: rgb_ok_exec)
  then have "length strip = WS2812_LED_COUNT" "\<forall>rgb\<in>set strip. rgb_r rgb \<le> 48 \<and> rgb_g rgb \<le> 48 \<and> rgb_b rgb \<le> 48"
    by (auto simp: assms(3) rgb_ok_def dim_def frame_sizes hw_defs)
  then show ?thesis using flush_frame_ok [OF assms(2)] by (simp add: assms(4))
qed

theorem strip_carries_light_witness:
  "wire_leds (ws2812_flush_frame (ws2812_strip (rgblight (fold (rgb_exec board_ee) [Enable True, HSV False 0 255 255] demo_kb)))
     (ws2812_init (replicate 1857 0))) = ws2812_strip (rgblight (fold (rgb_exec board_ee) [Enable True, HSV False 0 255 255] demo_kb))"
proof -
  have "frame_ok (ws2812_init (replicate 1857 0))" by (rule ws2812_init_ok) (simp add: frame_sizes)
  from strip_carries_light [OF demo_kb_ok(3) this refl refl, of board_ee "[Enable True, HSV False 0 255 255]"] show ?thesis by blast
qed

end
