(* ===== verification/Spec2Isabelle.thy ===== *)
theory Spec2Isabelle
  imports Key_Theorems Behaviour_Theorems Device_Theorems
begin

text \<open>
  The firmware of the Icebreaker HE keyboard (\<^verbatim>\<open>src/keyboards/icebreaker/he\<close>, a QMK tree): 68 Hall-effect
  keys on five analog multiplexers, an encoder with a push button, an RGB strip, a keymap the host can edit
  (VIA), and an EEPROM emulated by wear leveling in the internal flash. The model follows this board's build:
  its \<^verbatim>\<open>config.h\<close>, \<^verbatim>\<open>keyboard.json\<close>, \<^verbatim>\<open>rules.mk\<close> and the \<^verbatim>\<open>via_custom\<close> keymap decide which conditional code is in.

  \<^bold>\<open>How the parts interact.\<close> A scan reads every sensor through its multiplexer, turns the reading into
  travel, decides pressed or released in the current actuation mode, debounces, applies key cancel and writes the
  raw matrix; the matrix task debounces the matrix and turns its changes into key events. The encoder driver
  queues detents, which become key events too. \<^verbatim>\<open>action_exec\<close> hands an event to the tapping state machine, which
  keeps keys with two roles back until it knows which one is meant. A record that is processed finds its keycode through
  the layers and the stored keymap, passes the chain of keycode handlers and is carried out as an action: keys and
  modifiers in the keyboard reports, layers, mouse, system and consumer keys, light, macros, settings. Settings, keymap,
  macros and light live in the EEPROM; the host changes them with raw HID packets.
  Every EEPROM access goes through the wear-leveling cache, every change also through the write log in flash. The reports
  become packets in the queue of a USB endpoint, from which the host takes them one at a time; the completion interrupt stores
  the packet taken, for GET_REPORT and the idle task. Bus events are queued by an interrupt and handled at the head of the main
  loop; class requests are answered in the interrupt. Packets of the host wait in the queue of the OUT endpoint until raw HID
  hands them to VIA at the end of an iteration. The colours of the light go out as the bits of a PWM frame.

  \<^bold>\<open>Theories, bottom up\<close> (the state is one record, extended by each component that adds variables).
  \<^item> \<^verbatim>\<open>Prelude\<close>: machine integers, byte slices and blits, loops as folds, \<open>indexed_loop\<close>.
  \<^item> \<^verbatim>\<open>Eeprom\<close>: \<^verbatim>\<open>drivers/eeprom/eeprom_driver.c\<close>; the locale \<open>eeprom_device\<close> says that a driver is a byte array.
  \<^item> \<^verbatim>\<open>Wear_Leveling_Log\<close>, \<^verbatim>\<open>Wear_Leveling\<close>: \<^verbatim>\<open>quantum/wear_leveling\<close>, entry formats and the whole layer.
    \<^verbatim>\<open>Wear_Leveling_Correct\<close> (RAM side), \<^verbatim>\<open>Wear_Leveling_Recovery\<close> (flash side, \<open>backing_contract\<close>) and
    \<^verbatim>\<open>Wear_Leveling_Boot\<close> (log playback, \<open>reliable_backing\<close>) prove it an \<open>eeprom_device\<close> that survives power cycles.
  \<^item> \<^verbatim>\<open>Wear_Leveling_Efl\<close>: \<^verbatim>\<open>platforms/chibios/drivers/wear_leveling/wear_leveling_efl.c\<close> over ChibiOS' flash, a parameter
    (\<open>chibios_flash\<close>, \<open>chibios_reliable\<close>), interpreted on a NOR flash of the STM32F411's geometry.
  \<^item> \<^verbatim>\<open>Nvm_Eeconfig\<close>, \<^verbatim>\<open>Dynamic_Keymap\<close>, \<^verbatim>\<open>Eeconfig\<close>: the EEPROM's layout, \<^verbatim>\<open>quantum/nvm\<close>, \<^verbatim>\<open>quantum/dynamic_keymap.c\<close>,
    \<^verbatim>\<open>quantum/eeconfig.c\<close>; \<open>board_eeprom\<close> and \<open>slot_store\<close> are their interfaces.
  \<^item> \<^verbatim>\<open>Color\<close>, \<^verbatim>\<open>Rgblight\<close>: \<^verbatim>\<open>quantum/color.c\<close>, \<^verbatim>\<open>quantum/rgblight/rgblight.c\<close>.
  \<^item> \<^verbatim>\<open>He_Config\<close>, \<^verbatim>\<open>He_Mux\<close>, \<^verbatim>\<open>He_Scan\<close>, \<^verbatim>\<open>He_Via\<close>: \<^verbatim>\<open>he_matrix.c\<close>, \<^verbatim>\<open>he_via.c\<close>. \<^verbatim>\<open>He_Keys\<close> describes a scan key
    by key, \<^verbatim>\<open>He_Runs\<close> several scans in a row.
  \<^item> \<^verbatim>\<open>Via\<close>: \<^verbatim>\<open>quantum/via.c\<close>. \<^verbatim>\<open>Encoder\<close>: \<^verbatim>\<open>quantum/encoder.c\<close> and the quadrature driver.
  \<^item> \<^verbatim>\<open>Keymap\<close>, \<^verbatim>\<open>Action_Layer\<close>: \<^verbatim>\<open>quantum/keymap_common.c\<close>, \<^verbatim>\<open>keycode_config.c\<close>, \<^verbatim>\<open>action_layer.c\<close>.
  \<^item> \<^verbatim>\<open>Keyboard\<close>: \<^verbatim>\<open>quantum/keyboard.c\<close>, \<^verbatim>\<open>matrix_common.c\<close>, the matrix debounce, \<^verbatim>\<open>platforms/suspend.c\<close>.
  \<^item> \<^verbatim>\<open>Firmware\<close>: the step relation \<open>fw_step\<close> of single operations and its invariant \<open>kb_ok\<close>; \<^verbatim>\<open>Boot\<close>: the reset
    state and the start-up; \<^verbatim>\<open>Sample_Board\<close>: a concrete board for the witnesses.
  \<^item> \<^verbatim>\<open>Report\<close>: \<^verbatim>\<open>tmk_core/protocol/report.c\<close>, \<^verbatim>\<open>host.c\<close> and the reports of \<^verbatim>\<open>quantum/action_util.c\<close>; the host is the list
    of reports sent, \<open>host_view\<close> what the newest one shows. \<^verbatim>\<open>Mousekey\<close>: \<^verbatim>\<open>quantum/mousekey.c\<close>; \<^verbatim>\<open>Pointer\<close> its abstract
    pointer and the refinement.
  \<^item> \<^verbatim>\<open>Action\<close>: \<^verbatim>\<open>quantum/action.c\<close> and the one-shot layers of \<^verbatim>\<open>action_util.c\<close>. \<^verbatim>\<open>Send_String\<close>: macros and
    \<^verbatim>\<open>quantum/send_string\<close>. \<^verbatim>\<open>Quantum\<close>: \<^verbatim>\<open>quantum/quantum.c\<close> and the handlers of \<^verbatim>\<open>quantum/process_keycode\<close>.
    \<^verbatim>\<open>Tapping\<close>: \<^verbatim>\<open>quantum/action_tapping.c\<close> with the locale \<open>tap_host\<close> of what it calls; its account of presses and releases.
  \<^item> \<^verbatim>\<open>Keyboard_Task\<close>: \<^verbatim>\<open>action_exec\<close> and one pass of \<^verbatim>\<open>keyboard_task\<close>; it interprets \<open>tap_host\<close> on the model.
    \<^verbatim>\<open>Main_Loop\<close>: the invariant \<open>task_ok\<close> and the step relation \<open>main_step\<close> of whole passes, packets, suspends and wake-ups.
  \<^item> \<^verbatim>\<open>Typing\<close> (plain keys, the specification \<open>abs_stroke\<close>), \<^verbatim>\<open>Typed_Text\<close> (what a host reads, \<open>host_text\<close>), \<^verbatim>\<open>Dual_Role\<close>
    (layer-tap and mod-tap): what the operations above promise to the user.
  \<^item> \<^verbatim>\<open>Usb_Descriptor\<close>: the report descriptors of \<^verbatim>\<open>tmk_core/protocol/usb_descriptor.c\<close>, the packets of the reports, and
    \<open>host_reads\<close>, how a host reads a packet by its descriptor. \<^verbatim>\<open>Usb_Reports\<close>: the stored reports and idle rates of
    \<^verbatim>\<open>protocol/chibios/usb_report_handling.c\<close>. \<^verbatim>\<open>Usb_Endpoint\<close>, \<^verbatim>\<open>Usb_Out\<close>: \<^verbatim>\<open>usb_driver.c\<close>, the IN and OUT endpoints over
    ChibiOS' buffer queues (locales \<open>output_queue\<close>, \<open>input_queue\<close>). \<^verbatim>\<open>Usb_Device\<close>: \<^verbatim>\<open>usb_device_state.c\<close>, the events, control
    requests and idle task of \<^verbatim>\<open>usb_main.c\<close>; \<^verbatim>\<open>Usb_Control\<close> proves their invariant \<open>usb_ok\<close> and the event queue a \<open>bounded_fifo\<close>
    (\<^verbatim>\<open>Fifo\<close>, shared with the encoder's). \<^verbatim>\<open>Usb_Main\<close>: \<^verbatim>\<open>quantum/main.c\<close> and the tasks of \<^verbatim>\<open>chibios.c\<close>, with the
    step relation \<open>device_step\<close> of loop parts and interrupts and its invariant \<open>device_ok\<close>.
  \<^item> \<^verbatim>\<open>Timer\<close>: \<^verbatim>\<open>platforms/chibios/timer.c\<close>, the clock that \<open>env\<close> shows the other components. \<^verbatim>\<open>Ws2812\<close>:
    \<^verbatim>\<open>platforms/chibios/drivers/ws2812_pwm.c\<close>, the frame the LED strip gets.
  \<^item> \<^verbatim>\<open>Key_Theorems\<close>, \<^verbatim>\<open>Settings_Theorems\<close>, \<^verbatim>\<open>Input_Theorems\<close>, \<^verbatim>\<open>Typing_Theorems\<close>, \<^verbatim>\<open>Behaviour_Theorems\<close>,
    \<^verbatim>\<open>Device_Theorems\<close> and this theory: the properties. A property has a claim number; the other theorems of these theories
    are further results on the same definitions.

  \<^bold>\<open>Parameters.\<close> \<open>env\<close> is what the pins, the ADC and the clock show during one step; \<open>board_wiring\<close> says the ADC
  reads the one sensor whose multiplexer is enabled; \<open>world\<close> adds the USB protocol and the host's LEDs. Uninitialised
  stack buffers are arguments (\<open>stk\<close>, \<open>stk2\<close>, \<open>stk8\<close>), as are the bytes \<open>mem\<close> behind the ASCII tables, the build date
  and the compiled-in keymap. Of ChibiOS the USB side uses the buffer queues (\<open>bq_api\<close>), whether the driver is active (\<open>active\<close>),
  the ticks of the system timer and their conversion (\<open>i2ms\<close>), and the numbers of the descriptor types (\<open>dtype\<close>); the laws of the
  queues are the assumptions of the locales, which \<open>lq_api\<close>, queues as lists, satisfies. Loops are structural or come with a measure; the encoder's queue loop, the retry
  loop of a send, the event task and the loop of raw HID are \<open>partial_function\<close>s proved to return; the loop over the eight slots of the waiting buffer counts down from eight, and
  \<open>waiting_loop_unfold\<close> is the equation of the C loop.

  \<^bold>\<open>Not modelled.\<close> Console output with its buffered sends, and delays (a delay inside a keystroke is logged in the list of
  reports); features this build leaves out; the bytes of the device, configuration and string descriptors; ChibiOS and
  its peripheral drivers below the interfaces above (USB, ADC, flash, timers), which are not part of the repository;
  interrupts inside a part of an iteration (they come between the parts); other keyboards, vendored libraries and tests.
\<close>

section \<open>Storage\<close>

text \<open>
  C1: Nothing that was written is lost by a power cycle. Boot the wear-leveling layer over the
  embedded flash driver on an erased region, run any sequence of in-range writes, cut the power
  (RAM is arbitrary afterwards, the flash array keeps its contents), boot again: initialisation
  succeeds and the logical EEPROM holds exactly what the writes left, whatever mix of log
  entries and consolidations they caused. The flash is any ChibiOS flash whose operations
  succeed.
\<close>

theorem wear_leveling_power_cycle:
  assumes "chibios_reliable e c F mem started hok first n"
    and "hok (hw (backing st0))" "\<not> unlocked st0" "length stk = 8"
    and "slice (flashGetSectorOffset F first) (WEAR_LEVELING_BACKING_SIZE c) (mem (hw (backing st0)))
      = efl_invert (attr_erased_is_one F) (replicate (WEAR_LEVELING_BACKING_SIZE c) 0)"
    and "\<forall>(a, v)\<in>set ws. a + length v \<le> WEAR_LEVELING_LOGICAL_SIZE c"
    and "st2 = fold (\<lambda>(a, v) st. snd (wear_leveling_write c (efl_store e c F) a v st)) ws
        (snd (wear_leveling_init c (efl_store e c F) stk st0))"
    and "mem (hw (backing st3)) = mem (hw (backing st2))" "hok (hw (backing st3))" "\<not> unlocked st3"
    and "length stk' = 8"
  shows "fst (wear_leveling_init c (efl_store e c F) stk' st3) = WEAR_LEVELING_SUCCESS \<and>
    cache (snd (wear_leveling_init c (efl_store e c F) stk' st3))
      = fold (\<lambda>(a, v). blit a v) ws (replicate (WEAR_LEVELING_LOGICAL_SIZE c) 0)"
  using chibios_reliable.efl_power_cycle(1) [OF assms(1) chibios_reliable.efl_run(1) [OF assms(1-7)] assms(8-11)]
    chibios_reliable.efl_run(2) [OF assms(1-7)] by simp

definition demo_writes :: "(nat \<times> bytes) list" where
  "demo_writes = [(5, [7]), (100, [1, 2, 3, 4, 5, 6]), (5, [9])]"

definition demo_end :: "nor_flash efl wear_leveling" where
  "demo_end = fold (\<lambda>(a, v) st. snd (wear_leveling_write (board_wl WS4) (efl_store board_efl (board_wl WS4) f411_flash) a v st))
     demo_writes (snd (wear_leveling_init (board_wl WS4) (efl_store board_efl (board_wl WS4) f411_flash) (replicate 8 0) f411_blank))"

definition demo_restart :: "nor_flash efl wear_leveling" where
  "demo_restart = f411_blank\<lparr>cache := replicate 8192 0xAA,
     backing := (backing f411_blank)\<lparr>hw := \<lparr>nor_mem = nor_mem (hw (backing demo_end)), nor_started = False\<rparr>\<rparr>\<rparr>"

lemma f411_blank_region:
  "slice (flashGetSectorOffset f411_flash 1) (WEAR_LEVELING_BACKING_SIZE (board_wl w)) (nor_mem (hw (backing f411_blank)))
     = efl_invert (attr_erased_is_one f411_flash) (replicate (WEAR_LEVELING_BACKING_SIZE (board_wl w)) 0)"
  by (simp add: f411_blank_def f411_flash_def f411_sector_offset_def board_wl_def efl_invert_def)

lemma f411_blank_ok: "nor_ok (hw (backing f411_blank))" "\<not> unlocked f411_blank"
  by (simp_all add: f411_blank_def nor_ok_def)

lemma demo_writes_in: "\<forall>(a, v)\<in>set demo_writes. a + length v \<le> WEAR_LEVELING_LOGICAL_SIZE (board_wl w)"
  by (simp add: demo_writes_def board_wl_def)

theorem wear_leveling_power_cycle_witness:
  "fst (wear_leveling_init (board_wl WS4) (efl_store board_efl (board_wl WS4) f411_flash) (replicate 8 1) demo_restart)
     = WEAR_LEVELING_SUCCESS \<and>
   cache (snd (wear_leveling_init (board_wl WS4) (efl_store board_efl (board_wl WS4) f411_flash) (replicate 8 1) demo_restart))
     = fold (\<lambda>(a, v). blit a v) demo_writes (replicate (WEAR_LEVELING_LOGICAL_SIZE (board_wl WS4)) 0)"
proof (rule wear_leveling_power_cycle [OF f411.chibios_reliable_axioms f411_blank_ok _ f411_blank_region demo_writes_in demo_end_def])
  have "nor_ok (hw (backing demo_end))"
    by (rule f411.efl_run(3) [OF f411_blank_ok _ f411_blank_region demo_writes_in demo_end_def]) simp
  then show "nor_ok (hw (backing demo_restart))" by (simp add: demo_restart_def nor_ok_def)
qed (simp_all add: demo_restart_def f411_blank_ok)

text \<open>
  C13: The board's EEPROM is a byte array. Over any ChibiOS flash whose operations succeed, the driver stack of the board
  reads what a plain array of 8192 bytes would hold: an in-range read returns the slice, an in-range write
  replaces it and keeps every other byte, a write past the end is refused, an erase zeroes
  everything; and after each of them the flash still holds all of it.
\<close>

theorem board_eeprom_is_array:
  assumes "chibios_reliable e c F mem started hok first n" "efl_persisted c F mem started hok first n st"
    and "E = wl_eeprom_driver c (efl_store e c F)" "L = WEAR_LEVELING_LOGICAL_SIZE c" "a + length bs < 2 ^ 32"
  shows "(a + k \<le> L \<longrightarrow> eeprom_read_block E a k st = Some (slice a k (cache st)))
    \<and> cache (eeprom_write_block E bs a st) = (if a + length bs \<le> L then blit a bs (cache st) else cache st)
    \<and> cache (eeprom_driver_erase E st) = replicate L 0
    \<and> efl_persisted c F mem started hok first n (eeprom_write_block E bs a st)
    \<and> efl_persisted c F mem started hok first n (eeprom_driver_erase E st)"
proof -
  have dev: "eeprom_device E L cache (efl_persisted c F mem started hok first n)"
    unfolding assms(3,4) by (rule chibios_reliable.efl_is_eeprom [OF assms(1)])
  show ?thesis
    using eeprom_device.read_in [OF dev assms(2)] eeprom_device.write_in [OF dev assms(2)] eeprom_device.write_out [OF dev assms(2)]
      eeprom_device.write_inv [OF dev assms(2,5)] eeprom_device.erase_view [OF dev assms(2)] eeprom_device.erase_inv [OF dev assms(2)] assms(5)
    by simp
qed

theorem board_eeprom_is_array_witness:
  "cache (eeprom_write_block board_ee [1, 2, 3] 100 f411_blank) = blit 100 [1, 2, 3] (replicate 8192 0)"
proof -
  have "board_ee = wl_eeprom_driver (board_wl WS4) (efl_store board_efl (board_wl WS4) f411_flash)"
    by (simp add: board_ee_def board_driver_def)
  from board_eeprom_is_array [OF f411.chibios_reliable_axioms f411_blank_persisted this refl, of 100 "[1, 2, 3]"]
  show ?thesis by (simp add: board_wl_def f411_blank_def)
qed

context chibios_flash
begin

lemma efl_write_durable:
  assumes "efl_persisted c F mem started hok first n st" "a + length v \<le> WEAR_LEVELING_LOGICAL_SIZE c"
    and "wear_leveling_write c (efl_store e c F) a v st = (status, st')" "status \<noteq> WEAR_LEVELING_FAILED"
  shows "efl_persisted c F mem started hok first n st' \<and> cache st' = blit a v (cache st)"
  using efl_backing.write_persisted [OF _ assms(2-4)] assms(1) by (simp add: efl_persisted_def)

lemma efl_persisted_hok: "efl_persisted c F mem started hok first n st \<Longrightarrow> hok (hw (backing st))"
  by (simp add: efl_persisted_def efl_backing.persisted_def efl_ok_def)

end

text \<open>
  C14: A write that reports success is durable, on a flash that may fail. On any flash whose
  operations do what they report, if an in-range write does not report failure, the logical
  contents are the old ones with the bytes written, and replaying the flash gives exactly these contents.
\<close>

theorem reported_write_durable:
  assumes "chibios_flash e c F mem started hok first n" "efl_persisted c F mem started hok first n st"
    and "a + length v \<le> WEAR_LEVELING_LOGICAL_SIZE c"
    and "wear_leveling_write c (efl_store e c F) a v st = (status, st')" "status \<noteq> WEAR_LEVELING_FAILED"
  shows "efl_persisted c F mem started hok first n st' \<and> cache st' = blit a v (cache st)"
  by (rule chibios_flash.efl_write_durable [OF assms])

theorem reported_write_durable_witness:
  "cache (snd (wear_leveling_write (board_wl WS4) (efl_store board_efl (board_wl WS4) f411_flash) 7 [1, 2] f411_blank))
    = blit 7 [1, 2] (cache f411_blank)"
proof -
  obtain status st' where w: "wear_leveling_write (board_wl WS4) (efl_store board_efl (board_wl WS4) f411_flash) 7 [1, 2] f411_blank = (status, st')"
    by force
  have r: "7 + length [1, 2 :: u8] \<le> WEAR_LEVELING_LOGICAL_SIZE (board_wl WS4)" by (simp add: board_wl_def)
  have "status \<noteq> WEAR_LEVELING_FAILED"
    using f411.efl_reliable.write_succeeds [OF _ r, of f411_blank] f411_blank_persisted [of WS4] by (simp add: w efl_persisted_def)
  from reported_write_durable [OF f411.chibios_flash_axioms f411_blank_persisted r w this] show ?thesis by (simp add: w)
qed

text \<open>
  C18: The three kinds of log entry round-trip: of a multi-byte entry the type, the 19-bit address and the length, of an
  optimised-64 entry the type, the 6-bit address and the value, of a word entry the type, the even 14-bit
  address and the value 0 or 1 are read back from its bytes; and no entry starts with a zero byte, so erased flash
  is never taken for an entry.
\<close>

theorem log_entries_roundtrip:
  assumes "unat a19 < 2 ^ 19" "0 < len" "len < 8" "unat a6 < 64" "unat a14 < 2 ^ 14" "even (unat a14)" "w = 0 \<or> w = 1"
  shows "LOG_ENTRY_GET_TYPE (LOG_ENTRY_MAKE_MULTIBYTE a19 len) = LOG_ENTRY_TYPE_MULTIBYTE
    \<and> LOG_ENTRY_MULTIBYTE_GET_ADDRESS (LOG_ENTRY_MAKE_MULTIBYTE a19 len) = a19
    \<and> LOG_ENTRY_MULTIBYTE_GET_LENGTH (LOG_ENTRY_MAKE_MULTIBYTE a19 len) = word_of_nat len
    \<and> LOG_ENTRY_GET_TYPE (LOG_ENTRY_MAKE_OPTIMIZED_64 a6 v) = LOG_ENTRY_TYPE_OPTIMIZED_64
    \<and> LOG_ENTRY_OPTIMIZED_64_GET_ADDRESS (LOG_ENTRY_MAKE_OPTIMIZED_64 a6 v) = a6
    \<and> LOG_ENTRY_OPTIMIZED_64_GET_VALUE (LOG_ENTRY_MAKE_OPTIMIZED_64 a6 v) = v
    \<and> LOG_ENTRY_GET_TYPE (LOG_ENTRY_MAKE_WORD_01 a14 w) = LOG_ENTRY_TYPE_WORD_01
    \<and> LOG_ENTRY_WORD_01_GET_ADDRESS (LOG_ENTRY_MAKE_WORD_01 a14 w) = a14
    \<and> LOG_ENTRY_WORD_01_GET_VALUE (LOG_ENTRY_MAKE_WORD_01 a14 w) = ucast w
    \<and> LOG_ENTRY_MAKE_MULTIBYTE a19 len ! 0 \<noteq> 0 \<and> LOG_ENTRY_MAKE_OPTIMIZED_64 a6 v ! 0 \<noteq> 0 \<and> LOG_ENTRY_MAKE_WORD_01 a14 w ! 0 \<noteq> 0"
  using assms by (simp add: multibyte_get_type multibyte_get_address multibyte_get_length optimized_64_get_type
      optimized_64_get_address word_01_get_type word_01_get_address word_01_get_value log_entry_first_byte)

theorem log_entries_roundtrip_witness:
  "LOG_ENTRY_MULTIBYTE_GET_ADDRESS (LOG_ENTRY_MAKE_MULTIBYTE 0x1234 5) = 0x1234
   \<and> LOG_ENTRY_WORD_01_GET_ADDRESS (LOG_ENTRY_MAKE_WORD_01 0x1FFE 1) = 0x1FFE"
  using log_entries_roundtrip [of "0x1234" 5 3 "0x1FFE" 1] by simp

text \<open>
  The flash region. Whether the driver searches its sectors forwards from a configured first
  sector or backwards from the end of the flash, the sectors it settles on together hold the whole backing store;
  on this board that is sector 1 alone, which lies behind the firmware's first sector.
\<close>

theorem flash_region_holds_store:
  assumes "efl_region e need F = Some (first, n)"
  shows "0 < n \<and> need \<le> (\<Sum>j<n. flashGetSectorSize F (first + j))"
  by (rule efl_region_covers [OF assms])

theorem flash_region_holds_store_witness:
  "efl_region board_efl 16384 f411_flash = Some (1, 1) \<and> 16384 \<le> (\<Sum>j<1. flashGetSectorSize f411_flash (1 + j))"
  using flash_region_holds_store [OF board_region] board_region by blast

section \<open>Start-up\<close>

context board_eeprom
begin

text \<open>What the start-up reads outside the keyboard's data block depends on those bytes only.\<close>

lemma outside_block_cong:
  assumes "inv e" "inv e'" "slice 0 15 (view e) = slice 0 15 (view e')" "slice 19 18 (view e) = slice 19 18 (view e')"
    and "slice 179 8013 (view e) = slice 179 8013 (view e')"
  shows "eeconfig_is_enabled E date e = eeconfig_is_enabled E date e'" "nvm_eeconfig_read_rgblight E e = nvm_eeconfig_read_rgblight E e'"
    and "nvm_eeconfig_read_keymap E e = nvm_eeconfig_read_keymap E e'"
    and "nvm_eeconfig_read_default_layer E e = nvm_eeconfig_read_default_layer E e'"
    and "slot_valid k \<Longrightarrow> slot_get E k e = slot_get E k e'"
proof -
  have byte: "view e ! j = view e' ! j" if "j < 15 \<or> 19 \<le> j \<and> j < 37 \<or> 179 \<le> j" "j < 8192" for j
    using that arg_cong [OF assms(3), of "\<lambda>xs. xs ! j"] arg_cong [OF assms(4), of "\<lambda>xs. xs ! (j - 19)"]
      arg_cong [OF assms(5), of "\<lambda>xs. xs ! (j - 179)"] assms(1,2) by auto
  have sl: "slice a n (view e) = slice a n (view e')" if "a + n \<le> 15 \<or> 179 \<le> a" "a + n \<le> 8192" for a n
    by (rule nth_equalityI) (use that assms(1,2) byte in auto)
  show "eeconfig_is_enabled E date e = eeconfig_is_enabled E date e'"
    using assms(1,2) sl [of 0 2] byte
    by (simp add: eeconfig_is_enabled_def nvm_eeconfig_is_enabled_def read_word_view via_valid_view hw_defs)
  show "nvm_eeconfig_read_rgblight E e = nvm_eeconfig_read_rgblight E e'" "nvm_eeconfig_read_keymap E e = nvm_eeconfig_read_keymap E e'"
    "nvm_eeconfig_read_default_layer E e = nvm_eeconfig_read_default_layer E e'"
    using assms(1,2) sl [of 8 4] sl [of 4 2] byte
    by (simp_all add: nvm_eeconfig_read_rgblight_def nvm_eeconfig_read_keymap_def nvm_eeconfig_read_default_layer_def view_reads hw_defs)
  show "slot_valid k \<Longrightarrow> slot_get E k e = slot_get E k e'"
    by (rule slot_get_cong [OF assms(1,2)]) (use sl in simp_all)
qed

text \<open>A start on an EEPROM that shows the bytes left by a save.\<close>

lemma boot_after_save:
  fixes st :: "('e, 'z) board_scheme" and driver_init K date env env1 env2 stk stk2 and e3 :: 'e
  defines "st' \<equiv> boot E driver_init K date env env1 env2 stk stk2 e3"
  assumes "inv (ee st)" "he_ok st" "eeconfig_is_enabled E date (ee st)"
    and light: "nvm_eeconfig_read_rgblight E (ee st) = rgblight_raw c" "rgb_mode c = 1"
    and init: "inv (driver_init e3)" "view (driver_init e3) = view (ee (he_save_to_eeprom E st))"
    and wired: "board_wiring env1 volt1 push1" "board_wiring env2 volt2 push2" and stk: "length stk = 138" "length stk2 = 4"
  shows "he_stored st' = he_stored st" "cfg st' = c\<lparr>rgb_val := limit_val (rgb_val c)\<rparr>" "ee st' = driver_init e3"
    "default_layer_state st' = nvm_eeconfig_read_default_layer E (ee st)" "keymap_config st' = nvm_eeconfig_read_keymap E (ee st)"
    "slot_valid k \<Longrightarrow> slot_get E k (ee st') = slot_get E k (ee st)"
proof -
  let ?e0 = "driver_init e3" and ?e1 = "ee (he_save_to_eeprom E st)"
  note save = save_view [OF assms(2,3)] and frame = save_frame [OF assms(2,3)]
  note cong = outside_block_cong [OF init(1) assms(2), unfolded init(2), OF frame frame frame]
  have valid: "nvm_eeconfig_is_kb_datablock_valid E ?e0"
    using save(1,2) init by (simp add: nvm_eeconfig_is_kb_datablock_valid_def read_dword_view hw_defs)
  have sl: "slice 37 138 (view ?e0) = he_records (he_config st)" "slice 175 4 (view ?e0) = he_settings st"
    using save(3,4) by (simp_all add: init(2))
  have l: "nvm_eeconfig_read_rgblight E ?e0 = rgblight_raw c" "eeconfig_is_enabled E date ?e0" using cong(1,2) light assms(4) by simp_all
  note b = boot_restores [where driver_init = driver_init and e = e3 and K = K and date = date and env = env,
      OF wired init(1) l(2) stk assms(3) valid sl l(1) light(2), folded st'_def]
  show "he_stored st' = he_stored st" "cfg st' = c\<lparr>rgb_val := limit_val (rgb_val c)\<rparr>" "ee st' = ?e0"
    "default_layer_state st' = nvm_eeconfig_read_default_layer E (ee st)" "keymap_config st' = nvm_eeconfig_read_keymap E (ee st)"
    "slot_valid k \<Longrightarrow> slot_get E k (ee st') = slot_get E k (ee st)"
    using b cong by simp_all
qed

end

text \<open>The driver's start on the flash: \<^verbatim>\<open>eeprom_driver_init\<close> runs \<^verbatim>\<open>wear_leveling_init\<close>.\<close>

definition chip_init :: "backing_store_write_size \<Rightarrow> 'h chibios \<Rightarrow> bytes \<Rightarrow> 'h efl wear_leveling \<Rightarrow> 'h efl wear_leveling" where
  "chip_init w F stk8 e = snd (wear_leveling_init (board_wl w) (efl_store board_efl (board_wl w) F) stk8 e)"

context chibios_reliable
begin

lemma efl_restart:
  assumes "efl_persisted c F mem started hok first n e2" "mem (hw (backing e3)) = mem (hw (backing e2))" "hok (hw (backing e3))"
    and "\<not> unlocked e3" "length stk8 = 8"
  shows "cache (snd (wear_leveling_init c (efl_store e c F) stk8 e3)) = cache e2"
    and "efl_persisted c F mem started hok first n (snd (wear_leveling_init c (efl_store e c F) stk8 e3))"
  using efl_power_cycle [OF _ assms(2-5)] assms(1) by (simp_all add: efl_persisted_def)

end

text \<open>
  C7: Settings survive a power cycle, end to end. The firmware saves its settings through the EEPROM layer, the
  wear-leveling log and the flash driver; power fails, so that only the flash array survives; the firmware goes through its whole
  start-up. Then the thresholds of every key, the actuation mode, the tuning, the light
  (capped to its brightness limit), the default layer, the keymap options and every slot of the
  keymap are what they were, and the start-up has not written to the EEPROM.
\<close>

theorem settings_survive_power_cycle:
  fixes st :: "('h efl wear_leveling, 'z) board_scheme"
  assumes "chibios_reliable board_efl (board_wl w) F mem started hok first n"
    and "efl_persisted (board_wl w) F mem started hok first n (ee st)" "he_ok st" "E = board_driver w F"
    and "eeconfig_is_enabled E date (ee st)" "nvm_eeconfig_read_rgblight E (ee st) = rgblight_raw c" "rgb_mode c = 1"
    and "mem (hw (backing e3)) = mem (hw (backing (ee (he_save_to_eeprom E st))))" "hok (hw (backing e3))" "\<not> unlocked e3"
    and "board_wiring env1 volt1 push1" "board_wiring env2 volt2 push2"
    and "length stk8 = 8" "length stk = 138" "length stk2 = 4" "slot_valid k"
    and "st' = boot E (chip_init w F stk8) K date env env1 env2 stk stk2 e3"
  shows "he_stored st' = he_stored st \<and> cfg st' = c\<lparr>rgb_val := limit_val (rgb_val c)\<rparr>
    \<and> default_layer_state st' = nvm_eeconfig_read_default_layer E (ee st) \<and> keymap_config st' = nvm_eeconfig_read_keymap E (ee st)
    \<and> slot_get E k (ee st') = slot_get E k (ee st) \<and> cache (ee st') = cache (ee (he_save_to_eeprom E st))"
proof -
  note be = board_driver_eeprom [OF assms(1), folded assms(4)]
  have p: "efl_persisted (board_wl w) F mem started hok first n (ee (he_save_to_eeprom E st))"
    by (rule board_eeprom.save_view(1) [OF be assms(2,3)])
  note i = chibios_reliable.efl_restart [OF assms(1) p assms(8-10,13), folded chip_init_def]
  note b = board_eeprom.boot_after_save [where driver_init = "chip_init w F stk8" and K = K and date = date and env = env,
      OF be assms(2,3,5-7) i(2,1) assms(11,12,14,15), folded assms(17)]
  show ?thesis using b assms(16) i(1) by simp
qed

text \<open>
  The sample chip after its first start, whose settings are then saved.
\<close>

definition demo_date :: bytes where
  "demo_date = [50, 48, 50, 53, 45, 48, 49, 45, 48, 50]"

abbreviation demo_boot :: "chip \<Rightarrow> chip kb" where
  "demo_boot e \<equiv> boot board_ee (chip_init WS4 f411_flash (replicate 8 0)) demo_keymap demo_date (flat_env 1000 0) (flat_env 1000 1) (flat_env 1000 31)
     (replicate 138 0) (replicate 4 0) e"

definition power_cut :: "chip \<Rightarrow> chip" where
  "power_cut e = f411_blank\<lparr>cache := replicate 8192 0xAA,
     backing := (backing f411_blank)\<lparr>hw := \<lparr>nor_mem = nor_mem (hw (backing e)), nor_started = False\<rparr>\<rparr>\<rparr>"

lemma board_inv_ok: "board_inv e \<Longrightarrow> nor_ok (hw (backing e))"
  unfolding board_inv_def by (rule chibios_flash.efl_persisted_hok [OF f411.chibios_flash_axioms])

lemma power_cut_sel: "nor_mem (hw (backing (power_cut e))) = nor_mem (hw (backing e))" "\<not> unlocked (power_cut e)"
  "board_inv e \<Longrightarrow> nor_ok (hw (backing (power_cut e)))"
  using board_inv_ok [of e] by (simp_all add: power_cut_def f411_blank_def nor_ok_def)

lemma chip_init_blank:
  "board_inv (chip_init WS4 f411_flash (replicate 8 0) f411_blank)" "cache (chip_init WS4 f411_flash (replicate 8 0) f411_blank) = replicate 8192 0"
proof -
  note r = f411.efl_restart [OF f411_blank_persisted refl f411_blank_ok, of "replicate 8 0" WS4]
  show "board_inv (chip_init WS4 f411_flash (replicate 8 0) f411_blank)" "cache (chip_init WS4 f411_flash (replicate 8 0) f411_blank) = replicate 8192 0"
    using r by (simp_all add: board_inv_def chip_init_def) (simp add: f411_blank_def)
qed

lemma demo_boot_formats:
  "\<not> eeconfig_is_enabled board_ee demo_date (chip_init WS4 f411_flash (replicate 8 0) f411_blank)"
proof -
  have "eeprom_device board_ee 8192 cache board_inv" using board_ee_eeprom by (simp add: board_eeprom_def)
  from eeprom_device.read_word_view [OF this chip_init_blank(1), of 0] show ?thesis
    by (simp add: eeconfig_is_enabled_def nvm_eeconfig_is_enabled_def chip_init_blank(2) hw_defs le16_decode_def slice_def)
qed

lemma demo_started:
  shows "eeconfig_is_enabled board_ee demo_date (ee (demo_boot f411_blank))" "kb_ok (demo_boot f411_blank)" "board_inv (ee (demo_boot f411_blank))"
    and "he_ok (demo_boot f411_blank)"
    and "nvm_eeconfig_read_rgblight board_ee (ee (demo_boot f411_blank)) = rgblight_raw rgblight_default_config"
proof -
  note f = board_eeprom.boot_formats [where driver_init = "chip_init WS4 f411_flash (replicate 8 0)" and e = f411_blank and K = demo_keymap
      and date = demo_date and env = "flat_env 1000 0" and stk = "replicate 138 0" and ?stk2.0 = "replicate 4 0",
      OF board_ee_eeprom flat_wiring [of 1000 1] flat_wiring [of 1000 31] chip_init_blank(1) demo_boot_formats]
  note o = board_eeprom.boot_ok [where driver_init = "chip_init WS4 f411_flash (replicate 8 0)" and e = f411_blank and K = demo_keymap
      and date = demo_date and env = "flat_env 1000 0" and stk = "replicate 138 0" and ?stk2.0 = "replicate 4 0",
      OF board_ee_eeprom flat_wiring [of 1000 1] flat_wiring [of 1000 31] chip_init_blank(1)]
  show "eeconfig_is_enabled board_ee demo_date (ee (demo_boot f411_blank))"
    "nvm_eeconfig_read_rgblight board_ee (ee (demo_boot f411_blank)) = rgblight_raw rgblight_default_config"
    using f(1,7) by simp_all
  show "kb_ok (demo_boot f411_blank)" "board_inv (ee (demo_boot f411_blank))" by (rule o)+
  then show "he_ok (demo_boot f411_blank)" by (simp add: kb_ok_def fw_ok_def)
qed

theorem settings_survive_power_cycle_witness:
  "he_stored (demo_boot (power_cut (ee (he_save_to_eeprom board_ee (demo_boot f411_blank))))) = he_stored (demo_boot f411_blank)"
proof -
  let ?D = "demo_boot f411_blank"
  have v: "slot_valid (Key 0 0 0)" by (simp add: hw_defs)
  have light: "nvm_eeconfig_read_rgblight board_ee (ee ?D) = rgblight_raw rgblight_default_config" "rgb_mode rgblight_default_config = 1"
    by (rule demo_started(5)) (simp add: rgblight_default_config_def hw_defs)
  have i: "board_inv (ee (he_save_to_eeprom board_ee ?D))"
    by (rule board_eeprom.save_view(1) [OF board_ee_eeprom demo_started(3,4)])
  from settings_survive_power_cycle [where st = ?D, OF f411.chibios_reliable_axioms demo_started(3) [unfolded board_inv_def] demo_started(4)
      board_ee_def demo_started(1) light power_cut_sel(1) power_cut_sel(3) [OF i] power_cut_sel(2) flat_wiring flat_wiring _ _ _ v refl]
  show ?thesis by simp
qed

text \<open>
  C40: First start. On an EEPROM that is not formatted for this build, whatever it holds, the start-up formats it and comes
  up with the defaults: the default thresholds for every key, the default mode, tuning, light and layer, the keymap compiled
  into the firmware; and the next start will recognise the format.
\<close>

theorem first_start_formats:
  assumes "board_eeprom E view invar" "board_wiring env1 volt1 push1" "board_wiring env2 volt2 push2" "invar (driver_init e)"
    and "\<not> eeconfig_is_enabled E date (driver_init e)" "length stk = 138" "length stk2 = 4" "slot_valid k"
    and "st = boot E driver_init K date env env1 env2 stk stk2 e"
  shows "eeconfig_is_enabled E date (ee st) \<and> slot_get E k (ee st) = slot_raw K k
    \<and> he_stored st = (replicate 69 (HE_ACTUATION_DEFAULT, HE_RELEASE_DEFAULT), he_mode (kb_reset e), he_tuning (kb_reset e))
    \<and> cfg st = rgblight_default_config\<lparr>rgb_val := limit_val (rgb_val rgblight_default_config)\<rparr>
    \<and> keymap_config st = keymap_config_default \<and> default_layer_state st = 1 \<and> kb_ok st \<and> invar (ee st)"
  using board_eeprom.boot_formats [where driver_init = driver_init and K = K and date = date and env = env, OF assms(1-7), folded assms(9)]
    board_eeprom.boot_ok [where driver_init = driver_init and K = K and date = date and env = env and stk = stk and ?stk2.0 = stk2, OF assms(1-4), folded assms(9)] assms(8)
  by (simp add: HE_SENSOR_COUNT_def)

theorem first_start_formats_witness:
  "slot_get board_ee (Enc 2 0 True) (ee (demo_boot f411_blank)) = slot_raw demo_keymap (Enc 2 0 True) \<and> default_layer_state (demo_boot f411_blank) = 1"
proof -
  have v: "slot_valid (Enc 2 0 True)" by (simp add: hw_defs)
  from first_start_formats [where driver_init = "chip_init WS4 f411_flash (replicate 8 0)",
      OF board_ee_eeprom flat_wiring [of 1000 1] flat_wiring [of 1000 31] chip_init_blank(1) demo_boot_formats _ _ v refl]
  show ?thesis by simp
qed

section \<open>Running\<close>

text \<open>
  The invariant of the running firmware. Start on any EEPROM contents and let any sequence of scans, encoder polls, host
  packets, special keycodes, light commands, layer changes, key presses, suspends and wake-ups happen, in any order and with any
  sensor readings: the thresholds of every key stay within 10 to 90 per cent, the light below its brightness limit, every table
  at its size, the matrices consistent with the key states, the encoder's queue sound, and the storage layer in a state from
  which a power cycle recovers everything.
\<close>

theorem firmware_invariant:
  fixes st :: "'e kb"
  assumes "board_eeprom E view invar" "board_wiring env1 volt1 push1" "board_wiring env2 volt2 push2" "invar (driver_init e)"
    and "(fw_step E K)\<^sup>*\<^sup>* (boot E driver_init K date env env1 env2 stk stk2 e) st"
  shows "kb_ok st \<and> invar (ee st)
    \<and> (\<forall>c\<in>set (he_config st). actuation c \<in> {10..90} \<and> release c \<in> {10..90})
    \<and> (\<forall>rgb\<in>set (ws2812_strip (rgblight st)). rgb_r rgb \<le> 48 \<and> rgb_g rgb \<le> 48 \<and> rgb_b rgb \<le> 48)"
proof -
  note b = board_eeprom.boot_ok [where driver_init = driver_init and K = K and date = date and env = env and stk = stk and ?stk2.0 = stk2, OF assms(1-4)]
  from board_eeprom.reachable_ok [OF assms(1,5) b] have k: "kb_ok st" "invar (ee st)" by simp_all
  then have "he_ok st" "rgb_ok (rgblight st)" by (simp_all add: kb_ok_def fw_ok_def)
  then show ?thesis using k by (auto simp: he_ok_def key_ok_def rgb_ok_def dim_def)
qed

theorem firmware_invariant_witness:
  "kb_ok (layer_state_set 2 (rgb_exec board_ee (HSV True 0 255 255) (demo_boot f411_blank)))"
proof -
  have "(fw_step board_ee demo_keymap)\<^sup>*\<^sup>* (demo_boot f411_blank) (layer_state_set 2 (rgb_exec board_ee (HSV True 0 255 255) (demo_boot f411_blank)))"
    by (rule rtranclp.rtrancl_into_rtrancl [OF r_into_rtranclp [of "fw_step board_ee demo_keymap"]])
      (rule fw_step.Light fw_step.Layer)+
  from firmware_invariant [where driver_init = "chip_init WS4 f411_flash (replicate 8 0)",
      OF board_ee_eeprom flat_wiring flat_wiring chip_init_blank(1) this] show ?thesis ..
qed

text \<open>
  C3: The main loop. Start on any EEPROM contents and let any sequence of passes of the main loop happen, with any sensor
  readings, encoder movements and LED states, mixed with packets from the host, suspends and wake-ups, in any order:
  every further pass returns; the thresholds of every key stay within 10 to 90 per cent and the light below its brightness
  limit; every table keeps its size, the matrices agree with the key states and the encoder's queue is sound; the
  reports keep their sizes and at most seven events wait for a decision; and the storage layer stays in a state from which a
  power cycle recovers everything.
\<close>

theorem main_loop_invariant:
  fixes st :: "'e task"
  assumes "board_eeprom E view invar" "board_wiring env1 volt1 push1" "board_wiring env2 volt2 push2" "invar (driver_init e)"
    and "(main_step E K mem)\<^sup>*\<^sup>* (task_reset (boot E driver_init K date env env1 env2 stk stk2 e)) st"
    and "board_wiring (pins w_matrix) volt push"
  shows "(\<exists>st'. keyboard_task E mem w_matrix w_encoder w_rest st = Some st')
    \<and> (\<forall>c\<in>set (he_config st). actuation c \<in> {10..90} \<and> release c \<in> {10..90})
    \<and> (\<forall>rgb\<in>set (ws2812_strip (rgblight st)). rgb_r rgb \<le> 48 \<and> rgb_g rgb \<le> 48 \<and> rgb_b rgb \<le> 48)
    \<and> kb_ok st \<and> hid_ok (hid (hostio st)) \<and> length (waiting (tap_state st)) \<le> 7 \<and> invar (ee st)"
proof -
  note b = board_eeprom.boot_ok [where driver_init = driver_init and K = K and date = date and env = env and stk = stk and ?stk2.0 = stk2, OF assms(1-4)]
  have ok: "task_ok invar st" by (rule board_eeprom.main_reachable_ok [OF assms(1,5) task_ok_reset [where I = invar, OF b]])
  then have k: "kb_ok st" "invar (ee st)" "hid_ok (hid (hostio st))" by (simp_all add: task_ok_def act_ok_def)
  then have "he_ok st" "rgb_ok (rgblight st)" by (simp_all add: kb_ok_def fw_ok_def)
  then show ?thesis
    using k board_eeprom.task_ok_keyboard_task [OF assms(1,6) ok, of mem w_encoder w_rest] length_waiting [of "tap_state st"]
    by (auto simp: he_ok_def key_ok_def rgb_ok_def dim_def)
qed

theorem main_loop_invariant_witness:
  "\<exists>st'. keyboard_task board_ee demo_mem demo_world demo_world demo_world (suspend_wakeup_init demo_world (task_reset (demo_boot f411_blank))) = Some st'"
proof -
  have "(main_step board_ee demo_keymap demo_mem)\<^sup>*\<^sup>* (task_reset (demo_boot f411_blank)) (suspend_wakeup_init demo_world (task_reset (demo_boot f411_blank)))"
    by (rule r_into_rtranclp) (rule main_step.Host_Wakeup)
  moreover have "board_wiring (pins demo_world) (\<lambda>_ _. 1000) False" using flat_wiring [of 1000 0] by (simp add: demo_world_def)
  ultimately show ?thesis
    using main_loop_invariant [where driver_init = "chip_init WS4 f411_flash (replicate 8 0)",
        OF board_ee_eeprom flat_wiring flat_wiring chip_init_blank(1)] by blast
qed





end
